(* ===== verification/Prelude.thy ===== *)
theory Prelude
  imports Main "HOL-Library.Word" "HOL-Library.Monad_Syntax"
begin

text \<open>
  Types and lemmas shared by all components.

  The C++ integer types of \<^verbatim>\<open>common/common_types.h\<close> are words of their width. A failed
  \<^verbatim>\<open>assert\<close>, or an exception that nothing in the modelled code catches, ends the
  program; operations that can do so return \<open>option\<close>, with \<open>None\<close> for that outcome,
  and are written with the \<open>do\<close> notation of \<open>HOL-Library.Monad_Syntax\<close>.

  Memory words are little endian on the target, so \<open>le_bytes\<close> and \<open>le_word\<close> convert
  between a word and its bytes in address order, and \<open>patch\<close> is a \<^verbatim>\<open>memcpy\<close>
  into a byte vector.
\<close>

unbundle bit_operations_syntax

type_synonym u8 = "8 word"
type_synonym u16 = "16 word"
type_synonym u32 = "32 word"
type_synonym u64 = "64 word"
type_synonym s8 = "8 word"
type_synonym s32 = "32 word"

named_theorems bytes_simps \<open>simplification rules for little-endian byte lists\<close>
named_theorems patch_simps \<open>simplification rules for byte-vector patching\<close>

section \<open>Assertions\<close>

definition assert_opt :: "bool \<Rightarrow> unit option" where
  "assert_opt b = (if b then Some () else None)"

lemma assert_opt_simps [simp]:
  "assert_opt True = Some ()"
  "assert_opt False = None"
  by (simp_all add: assert_opt_def)

lemma assert_opt_Some [simp]: "assert_opt b = Some u \<longleftrightarrow> b"
  by (simp add: assert_opt_def)

lemma assert_opt_bind_Some [simp]:
  "(assert_opt b \<bind> f) = Some x \<longleftrightarrow> b \<and> f () = Some x"
  by (simp add: assert_opt_def)

lemma assert_opt_bind_None [simp]:
  "(assert_opt b \<bind> f) = None \<longleftrightarrow> \<not> b \<or> f () = None"
  by (simp add: assert_opt_def)

section \<open>Little-endian bytes\<close>

definition byte_of :: "'a::len word \<Rightarrow> nat \<Rightarrow> u8" where
  "byte_of w i = ucast (drop_bit (8 * i) w)"

definition le_bytes :: "nat \<Rightarrow> 'a::len word \<Rightarrow> u8 list" where
  "le_bytes n w = map (byte_of w) [0..<n]"

fun le_word :: "u8 list \<Rightarrow> 'a::len word" where
  "le_word [] = 0"
| "le_word (b # bs) = ucast b OR push_bit 8 (le_word bs)"

lemma length_le_bytes [simp, bytes_simps]: "length (le_bytes n w) = n"
  by (simp add: le_bytes_def)

lemma le_bytes_0 [simp, bytes_simps]: "le_bytes 0 w = []"
  by (simp add: le_bytes_def)

lemma bit_byte_of:
  "bit (byte_of w i) k \<longleftrightarrow> k < 8 \<and> bit w (8 * i + k)"
  by (auto simp: byte_of_def bit_simps dest: bit_imp_le_length)

lemma bit_le_word:
  "bit (le_word bs :: 'a::len word) k \<longleftrightarrow>
     k < LENGTH('a) \<and> k div 8 < length bs \<and> bit (bs ! (k div 8)) (k mod 8)"
proof (induction bs arbitrary: k)
  case Nil
  then show ?case by simp
next
  case (Cons b bs)
  show ?case
  proof (cases "k < 8")
    case True
    then show ?thesis
      by (auto simp: bit_simps)
  next
    case False
    then have k: "k div 8 = Suc ((k - 8) div 8)" "k mod 8 = (k - 8) mod 8"
      by (simp_all add: le_div_geq le_mod_geq)
    have "\<not> bit b k" using False by (simp add: bit_word.rep_eq not_less bit_take_bit_iff)
    then have "bit (le_word (b # bs) :: 'a word) k \<longleftrightarrow>
        k < LENGTH('a) \<and> bit (le_word bs :: 'a word) (k - 8)"
      using False by (simp add: bit_or_iff bit_ucast_iff bit_push_bit_iff)
    with k show ?thesis by (simp add: Cons.IH) linarith
  qed
qed

lemma le_word_le_bytes:
  assumes "LENGTH('a) \<le> 8 * n"
  shows "le_word (le_bytes n (w :: 'a::len word)) = w"
proof (rule bit_word_eqI)
  fix k assume k: "k < LENGTH('a)"
  then have "k div 8 < n" using assms by (simp add: less_mult_imp_div_less mult.commute)
  then show "bit (le_word (le_bytes n w) :: 'a word) k \<longleftrightarrow> bit w k"
    using k by (simp add: bit_le_word le_bytes_def bit_byte_of)
qed

lemma le_word_le_bytes_u8 [simp, bytes_simps]: "le_word (le_bytes (Suc 0) (w :: u8)) = w"
  by (rule le_word_le_bytes) simp

lemma le_word_le_bytes_u16 [simp, bytes_simps]: "le_word (le_bytes 2 (w :: u16)) = w"
  by (rule le_word_le_bytes) simp

lemma le_word_le_bytes_u32 [simp, bytes_simps]: "le_word (le_bytes 4 (w :: u32)) = w"
  by (rule le_word_le_bytes) simp

lemma le_word_le_bytes_u64 [simp, bytes_simps]: "le_word (le_bytes 8 (w :: u64)) = w"
  by (rule le_word_le_bytes) simp

text \<open>
  The low bytes of a value that was sign extended to 64 bits are the bytes of the
  narrow value: an 8- or 32-bit immediate stored through a 64-bit field.
\<close>

lemma le_bytes_scast:
  assumes "8 * n \<le> LENGTH('a)" and "8 * n \<le> LENGTH('b)"
  shows "le_bytes n (scast (w :: 'a::len word) :: 'b::len word) = le_bytes n w"
proof (rule nth_equalityI)
  fix i assume i: "i < length (le_bytes n (scast w :: 'b word))"
  show "le_bytes n (scast w :: 'b word) ! i = le_bytes n w ! i"
  proof (rule bit_word_eqI)
    fix k assume k: "k < LENGTH(8)"
    then have "i < n" "k < 8" using i by simp_all
    with assms have "8 * i + k = LENGTH('a) - Suc 0 \<or> 8 * i + k < LENGTH('a) - Suc 0"
        "8 * i + k < LENGTH('b)"
      by linarith+
    then show "bit (le_bytes n (scast w :: 'b word) ! i) k \<longleftrightarrow> bit (le_bytes n w ! i) k"
      using i k
      by (elim disjE) (simp_all add: le_bytes_def bit_byte_of bit_signed_iff)
  qed
qed simp

lemma le_bytes_word_of_int:
  assumes "8 * n \<le> LENGTH('a)" and "8 * n \<le> LENGTH('b)"
  shows "le_bytes n (word_of_int x :: 'a::len word) = le_bytes n (word_of_int x :: 'b::len word)"
proof (rule nth_equalityI)
  fix i assume i: "i < length (le_bytes n (word_of_int x :: 'a word))"
  show "le_bytes n (word_of_int x :: 'a word) ! i = le_bytes n (word_of_int x :: 'b word) ! i"
  proof (rule bit_word_eqI)
    fix k assume "k < LENGTH(8)"
    with i assms show "bit (le_bytes n (word_of_int x :: 'a word) ! i) k \<longleftrightarrow>
        bit (le_bytes n (word_of_int x :: 'b word) ! i) k"
      by (auto simp: le_bytes_def bit_byte_of bit_simps)
  qed
qed simp

section \<open>Characters\<close>

lemma unat_of_char [simp]: "unat (of_char c :: u8) = of_char c"
proof -
  have "(of_char c :: nat) < 256" using of_char_mod_256 [of c] by (metis mod_less_divisor zero_less_numeral)
  then have "unat (of_nat (of_char c) :: u8) = of_char c" by (simp add: unat_of_nat take_bit_nat_eq_self)
  then show ?thesis unfolding of_nat_of_char .
qed

section \<open>Signed ranges\<close>

definition fits_s8 :: "int \<Rightarrow> bool" where
  "fits_s8 x \<longleftrightarrow> - 128 \<le> x \<and> x \<le> 127"

definition fits_s32 :: "int \<Rightarrow> bool" where
  "fits_s32 x \<longleftrightarrow> - 2147483648 \<le> x \<and> x \<le> 2147483647"

lemma sint_word_of_int_s8: "fits_s8 x \<Longrightarrow> sint (word_of_int x :: 8 word) = x"
  using signed_take_bit_int_eq_self [of 7 x] by (simp add: fits_s8_def signed_of_int)

lemma sint_word_of_int_s32: "fits_s32 x \<Longrightarrow> sint (word_of_int x :: 32 word) = x"
  using signed_take_bit_int_eq_self [of 31 x] by (simp add: fits_s32_def signed_of_int)

lemma fits_s8_s32: "fits_s8 x \<Longrightarrow> fits_s32 x"
  by (simp add: fits_s8_def fits_s32_def)

lemma fits_s32D: "fits_s32 x \<Longrightarrow> - 2147483648 \<le> x \<and> x \<le> 2147483647"
  by (simp add: fits_s32_def)

section \<open>Patching a byte vector\<close>

definition patch :: "nat \<Rightarrow> u8 list \<Rightarrow> u8 list \<Rightarrow> u8 list" where
  "patch off bs data = take off data @ bs @ drop (off + length bs) data"

lemma length_patch [simp, patch_simps]:
  "off + length bs \<le> length data \<Longrightarrow> length (patch off bs data) = length data"
  by (simp add: patch_def)

lemma nth_patch [patch_simps]:
  assumes "off + length bs \<le> length data" and "i < length data"
  shows "patch off bs data ! i =
    (if off \<le> i \<and> i < off + length bs then bs ! (i - off) else data ! i)"
  using assms by (auto simp: patch_def nth_append min_def)

lemma patch_slice_same [patch_simps]:
  "off + length bs \<le> length data \<Longrightarrow> take (length bs) (drop off (patch off bs data)) = bs"
  by (simp add: patch_def)

lemma patch_slice_other:
  assumes "off + length bs \<le> length data"
    and "o' + n \<le> off \<or> off + length bs \<le> o'" and "o' + n \<le> length data"
  shows "take n (drop o' (patch off bs data)) = take n (drop o' data)"
proof (rule nth_equalityI)
  fix i assume "i < length (take n (drop o' (patch off bs data)))"
  with assms have "i < n" by simp
  with assms show "take n (drop o' (patch off bs data)) ! i = take n (drop o' data) ! i"
    by (auto simp: nth_patch)
qed (use assms in simp)

end
