(* ===== verification/Containers.thy ===== *)
theory Containers
  imports Prelude
begin

text \<open>
  The standard containers as the code uses them: \<^verbatim>\<open>at\<close> of a vector or array, which throws out of
  range (\<open>None\<close>); a \<^verbatim>\<open>std::map\<close> from names to vectors, which is iterated in the order of its keys;
  a loop over a vector whose body may throw.
\<close>

section \<open>Vectors and arrays\<close>

definition array_at :: "'a list \<Rightarrow> int \<Rightarrow> 'a option" where
  "array_at xs i = (if 0 \<le> i \<and> i < int (length xs) then Some (xs ! nat i) else None)"

definition update_at :: "'a list \<Rightarrow> int \<Rightarrow> 'a \<Rightarrow> 'a list" where
  "update_at xs i x = xs[nat i := x]"

definition modify_at :: "'a list \<Rightarrow> int \<Rightarrow> ('a \<Rightarrow> 'a) \<Rightarrow> 'a list option" where
  "modify_at xs i f = do { x \<leftarrow> array_at xs i; Some (update_at xs i (f x)) }"

lemma array_at_Some [simp]:
  "array_at xs i = Some x \<longleftrightarrow> 0 \<le> i \<and> nat i < length xs \<and> xs ! nat i = x"
  by (auto simp: array_at_def nat_less_iff)

lemma array_at_None [simp]: "array_at xs i = None \<longleftrightarrow> i < 0 \<or> int (length xs) \<le> i"
  by (auto simp: array_at_def)

lemma array_at_nat [simp]: "k < length xs \<Longrightarrow> array_at xs (int k) = Some (xs ! k)"
  by simp

lemma length_update_at [simp]: "length (update_at xs i x) = length xs"
  by (simp add: update_at_def)

lemma modify_at_Some:
  "modify_at xs i f = Some ys \<longleftrightarrow>
     0 \<le> i \<and> nat i < length xs \<and> ys = xs[nat i := f (xs ! nat i)]"
  by (auto simp: modify_at_def update_at_def bind_eq_Some_conv)

section \<open>Loops over a vector\<close>

primrec fold_opt :: "('a \<Rightarrow> 's \<Rightarrow> 's option) \<Rightarrow> 'a list \<Rightarrow> 's \<Rightarrow> 's option" where
  "fold_opt f [] s = Some s"
| "fold_opt f (x # xs) s = do { s \<leftarrow> f x s; fold_opt f xs s }"

lemma fold_opt_append: "fold_opt f (xs @ ys) s = do { s \<leftarrow> fold_opt f xs s; fold_opt f ys s }"
  by (induction xs arbitrary: s) (simp_all add: bind_assoc)

lemma fold_opt_invariant:
  assumes "fold_opt f xs s = Some t" "P s"
    and "\<And>x s t. x \<in> set xs \<Longrightarrow> f x s = Some t \<Longrightarrow> P s \<Longrightarrow> P t"
  shows "P t"
  using assms by (induction xs arbitrary: s) (auto simp: bind_eq_Some_conv)

lemma fold_opt_frame:
  assumes "fold_opt f xs s = Some t" and "\<And>x s t. f x s = Some t \<Longrightarrow> g t = g s"
  shows "g t = g s"
  using assms(1) by (rule fold_opt_invariant [where P = "\<lambda>t. g t = g s"]) (simp_all add: assms(2))

section \<open>Maps from names\<close>

text \<open>\<^verbatim>\<open>std::string\<close> compares bytes as unsigned numbers, then lengths.\<close>

fun str_less :: "string \<Rightarrow> string \<Rightarrow> bool" where
  "str_less _ [] = False"
| "str_less [] (_ # _) = True"
| "str_less (a # as) (b # bs) =
    (of_char a < (of_char b :: nat) \<or> (a = b \<and> str_less as bs))"

type_synonym 'a smap = "(string \<times> 'a list) list"

text \<open>\<^verbatim>\<open>m[k].push_back(v)\<close>\<close>

fun smap_push :: "string \<Rightarrow> 'a \<Rightarrow> 'a smap \<Rightarrow> 'a smap" where
  "smap_push k v [] = [(k, [v])]"
| "smap_push k v ((k', vs) # m) =
    (if k = k' then (k', vs @ [v]) # m
     else if str_less k k' then (k, [v]) # (k', vs) # m
     else (k', vs) # smap_push k v m)"

definition smap_get :: "'a smap \<Rightarrow> string \<Rightarrow> 'a list" where
  "smap_get m k = (case map_of m k of Some vs \<Rightarrow> vs | None \<Rightarrow> [])"

fun smap_sorted :: "'a smap \<Rightarrow> bool" where
  "smap_sorted [] = True"
| "smap_sorted [_] = True"
| "smap_sorted ((k, _) # (k', vs) # m) = (str_less k k' \<and> smap_sorted ((k', vs) # m))"

lemma str_less_irrefl [simp]: "\<not> str_less s s"
  by (induction s) auto

lemma str_less_trans: "str_less a b \<Longrightarrow> str_less b c \<Longrightarrow> str_less a c"
proof (induction a b arbitrary: c rule: str_less.induct)
  case (2 b bs)
  then show ?case by (cases c) auto
next
  case (3 a as b bs)
  then show ?case by (cases c) (auto dest: less_trans)
qed simp

lemma str_less_linear: "a = b \<or> str_less a b \<or> str_less b a"
proof (induction a arbitrary: b)
  case (Cons x xs)
  show ?case
  proof (cases b)
    case (Cons y ys)
    have "x = y \<or> of_char x < (of_char y :: nat) \<or> of_char y < (of_char x :: nat)"
      by (metis linorder_neq_iff of_char_eq_iff)
    then show ?thesis using Cons.IH [of ys] Cons by auto
  qed simp
next
  case Nil
  then show ?case by (cases b) simp_all
qed

lemma smap_sorted_Cons:
  "smap_sorted ((k, vs) # m) \<longleftrightarrow> (\<forall>x \<in> fst ` set m. str_less k x) \<and> smap_sorted m"
proof (induction m arbitrary: k vs)
  case (Cons a m)
  then show ?case by (cases a) (auto dest: str_less_trans)
qed simp

lemma fst_set_smap_push: "fst ` set (smap_push k v m) = insert k (fst ` set m)"
  by (induction k v m rule: smap_push.induct) auto

lemma smap_push_sorted: "smap_sorted m \<Longrightarrow> smap_sorted (smap_push k v m)"
proof (induction k v m rule: smap_push.induct)
  case (2 k v k' vs m)
  have lin: "k \<noteq> k' \<Longrightarrow> \<not> str_less k k' \<Longrightarrow> str_less k' k" using str_less_linear [of k k'] by blast
  show ?case
  proof (cases "k = k' \<or> str_less k k'")
    case True
    with 2 show ?thesis by (auto simp: smap_sorted_Cons dest: str_less_trans)
  next
    case False
    with 2 lin show ?thesis by (auto simp: smap_sorted_Cons fst_set_smap_push)
  qed
qed simp

lemma smap_get_push:
  assumes "smap_sorted m"
  shows "smap_get (smap_push k v m) x = (if x = k then smap_get m k @ [v] else smap_get m x)"
  using assms
proof (induction k v m rule: smap_push.induct)
  case (2 k v k' vs m)
  have notin: "str_less k k' \<Longrightarrow> map_of m k = None"
    using 2(2) unfolding map_of_eq_None_iff smap_sorted_Cons
    by (metis str_less_irrefl str_less_trans)
  have neq: "str_less k k' \<Longrightarrow> k \<noteq> k'" by auto
  show ?case
    using 2 notin neq by (auto simp: smap_get_def smap_sorted_Cons)
qed (simp add: smap_get_def)

section \<open>Padding to an alignment\<close>

text \<open>
  \<^verbatim>\<open>while (data.size() % n) push_back(0)\<close>; the remainder by 0 is a crash.
\<close>

function pad_to :: "nat \<Rightarrow> 'a::zero list \<Rightarrow> 'a list option" where
  "pad_to n data =
    (if n = 0 then None else if length data mod n = 0 then Some data else pad_to n (data @ [0]))"
  by pat_completeness auto
termination
proof (relation "measure (\<lambda>(n, data). (n - length data mod n) mod n)", goal_cases)
  case (2 n data)
  define r where "r = length data mod n"
  have r: "0 < r" "r < n" using 2 by (auto simp: r_def)
  then have "(n - r) mod n = n - r" by simp
  moreover have "Suc (length data) mod n = (if Suc r = n then 0 else Suc r)"
    by (simp add: mod_Suc r_def)
  ultimately show ?case using r by (auto simp: r_def [symmetric] intro: diff_less_mono2)
qed simp

declare pad_to.simps [simp del]

lemma pad_to_0: "pad_to 0 data = None"
  by (simp add: pad_to.simps)

lemma pad_to_Some:
  assumes "0 < n"
  shows "\<exists>k. k < n \<and> pad_to n data = Some (data @ replicate k 0) \<and> (length data + k) mod n = 0"
  using assms
proof (induction n data rule: pad_to.induct)
  case (1 n data)
  show ?case
  proof (cases "length data mod n = 0")
    case True
    with 1(2) show ?thesis by (intro exI [of _ 0]) (simp add: pad_to.simps)
  next
    case False
    with 1 obtain k where k: "k < n" "pad_to n (data @ [0]) = Some ((data @ [0]) @ replicate k 0)"
      "(length (data @ [0]) + k) mod n = 0" by auto
    have "Suc k \<noteq> n"
    proof
      assume "Suc k = n"
      then have "length (data @ [0]) + k = length data + n" by simp
      with k(3) have "(length data + n) mod n = 0" by metis
      with False show False by (simp only: mod_add_self2)
    qed
    with False 1(2) k show ?thesis
      by (intro exI [of _ "Suc k"]) (simp add: pad_to.simps [of n data])
  qed
qed

end
