(* ===== verification/Registers.thy ===== *)
theory Registers
  imports Containers
begin

text \<open>
  \<^verbatim>\<open>goalc/emitter/Register.h\<close> and \<^verbatim>\<open>Register.cpp\<close>: the x86-64 registers, their
  hardware numbers, and the register table that the allocator and the calling convention read.
\<close>

section \<open>Register names\<close>

datatype HWRegKind = GPR | XMM | INVALID

datatype RegClass = GPR_64 | FLOAT | INT_128 | VECTOR_FLOAT | INVALID_CLASS

datatype X86_REG =
  RAX | RCX | RDX | RBX | RSP | RBP | RSI | RDI
| R8 | R9 | R10 | R11 | R12 | R13 | R14 | R15
| XMM0 | XMM1 | XMM2 | XMM3 | XMM4 | XMM5 | XMM6 | XMM7
| XMM8 | XMM9 | XMM10 | XMM11 | XMM12 | XMM13 | XMM14 | XMM15

text \<open>The enumerators in declaration order; an enumerator's value is its position.\<close>

definition x86_regs :: "X86_REG list" where
  "x86_regs =
    [RAX, RCX, RDX, RBX, RSP, RBP, RSI, RDI,
     R8, R9, R10, R11, R12, R13, R14, R15,
     XMM0, XMM1, XMM2, XMM3, XMM4, XMM5, XMM6, XMM7,
     XMM8, XMM9, XMM10, XMM11, XMM12, XMM13, XMM14, XMM15]"

fun reg_val :: "X86_REG \<Rightarrow> int" where
  "reg_val RAX = 0" | "reg_val RCX = 1" | "reg_val RDX = 2" | "reg_val RBX = 3"
| "reg_val RSP = 4" | "reg_val RBP = 5" | "reg_val RSI = 6" | "reg_val RDI = 7"
| "reg_val R8 = 8" | "reg_val R9 = 9" | "reg_val R10 = 10" | "reg_val R11 = 11"
| "reg_val R12 = 12" | "reg_val R13 = 13" | "reg_val R14 = 14" | "reg_val R15 = 15"
| "reg_val XMM0 = 16" | "reg_val XMM1 = 17" | "reg_val XMM2 = 18" | "reg_val XMM3 = 19"
| "reg_val XMM4 = 20" | "reg_val XMM5 = 21" | "reg_val XMM6 = 22" | "reg_val XMM7 = 23"
| "reg_val XMM8 = 24" | "reg_val XMM9 = 25" | "reg_val XMM10 = 26" | "reg_val XMM11 = 27"
| "reg_val XMM12 = 28" | "reg_val XMM13 = 29" | "reg_val XMM14 = 30" | "reg_val XMM15 = 31"

lemma reg_val_nth: "i < length x86_regs \<Longrightarrow> reg_val (x86_regs ! i) = int i"
proof -
  have "map reg_val x86_regs = map int [0..<length x86_regs]" by (simp add: x86_regs_def upt_rec)
  then show "i < length x86_regs \<Longrightarrow> reg_val (x86_regs ! i) = int i"
    by (metis add_0 length_map nth_map nth_upt)
qed

section \<open>The Register class\<close>

text \<open>
  The class holds one \<^verbatim>\<open>s8\<close>. The constructor from \<^verbatim>\<open>int\<close> truncates; it is
  not explicit in the source, so an \<^verbatim>\<open>X86_REG\<close> stands for a register wherever one
  is expected (\<open>Reg\<close> here).
\<close>

datatype Register = Register (m_id: int)

definition mk_Register :: "int \<Rightarrow> Register" where
  "mk_Register i = Register (signed_take_bit 7 i)"

definition Reg :: "X86_REG \<Rightarrow> Register" where
  "Reg r = mk_Register (reg_val r)"

lemma Reg_eq: "Reg r = Register (reg_val r)"
  by (cases r) (simp_all add: Reg_def mk_Register_def)

definition is_xmm :: "Register \<Rightarrow> bool" where
  "is_xmm r \<longleftrightarrow> reg_val XMM0 \<le> m_id r \<and> m_id r \<le> reg_val XMM15"

definition is_gpr :: "Register \<Rightarrow> bool" where
  "is_gpr r \<longleftrightarrow> reg_val RAX \<le> m_id r \<and> m_id r \<le> reg_val R15"

definition hw_id :: "Register \<Rightarrow> int option" where
  "hw_id r =
    (if is_xmm r then Some (m_id r - reg_val XMM0)
     else if is_gpr r then Some (m_id r - reg_val RAX)
     else None)"

lemma hw_id_Some: "hw_id r = Some h \<Longrightarrow> 0 \<le> h \<and> h < 16"
  by (auto simp: hw_id_def is_xmm_def is_gpr_def split: if_splits)

lemma hw_id_None: "hw_id r = None \<longleftrightarrow> \<not> is_xmm r \<and> \<not> is_gpr r"
  by (simp add: hw_id_def)

lemma not_gpr_and_xmm: "is_gpr r \<Longrightarrow> \<not> is_xmm r"
  by (simp add: is_gpr_def is_xmm_def)

section \<open>RegisterInfo\<close>

definition N_ARGS :: nat where "N_ARGS = 8"
definition N_REGS :: nat where "N_REGS = 32"
definition N_SAVED_GPRS :: nat where "N_SAVED_GPRS = 5"
definition N_SAVED_XMMS :: nat where "N_SAVED_XMMS = 8"

record Info =
  info_saved :: bool
  info_special :: bool
  info_name :: string

definition info_temp :: "Info \<Rightarrow> bool" where
  "info_temp i \<longleftrightarrow> \<not> info_saved i \<and> \<not> info_special i"

record RegisterInfo =
  m_info :: "Info list"
  m_gpr_arg_regs :: "Register list"
  m_xmm_arg_regs :: "Register list"
  m_saved_gprs :: "Register list"
  m_saved_xmms :: "Register list"
  m_saved_all :: "Register list"
  m_gpr_alloc_order :: "Register list"
  m_xmm_alloc_order :: "Register list"
  m_gpr_temp_only_alloc_order :: "Register list"
  m_xmm_temp_only_alloc_order :: "Register list"
  m_gpr_spill_temp_alloc_order :: "Register list"
  m_xmm_spill_temp_alloc_order :: "Register list"

definition mk_info :: "bool \<Rightarrow> bool \<Rightarrow> string \<Rightarrow> Info" where
  "mk_info sv sp n = \<lparr>info_saved = sv, info_special = sp, info_name = n\<rparr>"

definition make_register_info :: RegisterInfo where
  "make_register_info =
    (let saved_gprs = map Reg [RBX, RBP, R10, R11, R12];
         saved_xmms = map Reg [XMM8, XMM9, XMM10, XMM11, XMM12, XMM13, XMM14, XMM15]
     in \<lparr>
      m_info =
       [mk_info False False ''rax'', mk_info False False ''rcx'',
        mk_info False False ''rdx'', mk_info True False ''rbx'',
        mk_info False True ''rsp'', mk_info True False ''rbp'',
        mk_info False False ''rsi'', mk_info False False ''rdi'',
        mk_info False False ''r8'', mk_info False False ''r9'',
        mk_info True False ''r10'', mk_info True False ''r11'',
        mk_info True False ''r12'', mk_info False True ''r13'',
        mk_info False True ''r14'', mk_info False True ''r15'',
        mk_info False False ''xmm0'', mk_info False False ''xmm1'',
        mk_info False False ''xmm2'', mk_info False False ''xmm3'',
        mk_info False False ''xmm4'', mk_info False False ''xmm5'',
        mk_info False False ''xmm6'', mk_info False False ''xmm7'',
        mk_info True False ''xmm8'', mk_info True False ''xmm9'',
        mk_info True False ''xmm10'', mk_info True False ''xmm11'',
        mk_info True False ''xmm12'', mk_info True False ''xmm13'',
        mk_info True False ''xmm14'', mk_info True False ''xmm15''],
      m_gpr_arg_regs = map Reg [RDI, RSI, RDX, RCX, R8, R9, R10, R11],
      m_xmm_arg_regs = map Reg [XMM1, XMM2, XMM3, XMM4, XMM5, XMM6, XMM7, XMM8],
      m_saved_gprs = saved_gprs,
      m_saved_xmms = saved_xmms,
      m_saved_all = saved_gprs @ saved_xmms,
      m_gpr_alloc_order = map Reg [RAX, RCX, RDX, RBX, RBP, RSI, RDI, R8, R9, R10],
      m_xmm_alloc_order = map Reg [XMM0, XMM1, XMM2, XMM3, XMM4, XMM5, XMM6,
                                   XMM7, XMM8, XMM9, XMM10, XMM11, XMM12, XMM13],
      m_gpr_temp_only_alloc_order = map Reg [RAX, RCX, RDX, RSI, RDI, R8, R9],
      m_xmm_temp_only_alloc_order = map Reg [XMM0, XMM1, XMM2, XMM3, XMM4, XMM5, XMM6, XMM7],
      m_gpr_spill_temp_alloc_order = map Reg [RAX, RCX, RDX, RBX, RBP, RSI,
                                              RDI, R8, R9, R10, R11, R12],
      m_xmm_spill_temp_alloc_order =
        map Reg [XMM0, XMM1, XMM2, XMM3, XMM4, XMM5, XMM6, XMM7,
                 XMM8, XMM9, XMM10, XMM11, XMM12, XMM13, XMM14, XMM15]\<rparr>)"

definition gRegInfo :: RegisterInfo where
  "gRegInfo = make_register_info"

definition get_info :: "RegisterInfo \<Rightarrow> Register \<Rightarrow> Info option" where
  "get_info ri r = array_at (m_info ri) (m_id r)"

definition get_gpr_arg_reg :: "RegisterInfo \<Rightarrow> int \<Rightarrow> Register option" where
  "get_gpr_arg_reg ri i = array_at (m_gpr_arg_regs ri) i"

definition get_xmm_arg_reg :: "RegisterInfo \<Rightarrow> int \<Rightarrow> Register option" where
  "get_xmm_arg_reg ri i = array_at (m_xmm_arg_regs ri) i"

definition get_saved_gpr :: "RegisterInfo \<Rightarrow> int \<Rightarrow> Register option" where
  "get_saved_gpr ri i = array_at (m_saved_gprs ri) i"

definition get_saved_xmm :: "RegisterInfo \<Rightarrow> int \<Rightarrow> Register option" where
  "get_saved_xmm ri i = array_at (m_saved_xmms ri) i"

definition get_process_reg :: Register where "get_process_reg = Reg R13"
definition get_st_reg :: Register where "get_st_reg = Reg R14"
definition get_offset_reg :: Register where "get_offset_reg = Reg R15"
definition get_gpr_ret_reg :: Register where "get_gpr_ret_reg = Reg RAX"
definition get_xmm_ret_reg :: Register where "get_xmm_ret_reg = Reg XMM0"

fun hw_kind_to_string :: "HWRegKind \<Rightarrow> string option" where
  "hw_kind_to_string GPR = Some ''gpr''"
| "hw_kind_to_string XMM = Some ''xmm''"
| "hw_kind_to_string INVALID = None"

fun reg_class_to_hw :: "RegClass \<Rightarrow> HWRegKind option" where
  "reg_class_to_hw VECTOR_FLOAT = Some XMM"
| "reg_class_to_hw FLOAT = Some XMM"
| "reg_class_to_hw INT_128 = Some XMM"
| "reg_class_to_hw GPR_64 = Some GPR"
| "reg_class_to_hw INVALID_CLASS = None"

definition reg_print :: "Register \<Rightarrow> string option" where
  "reg_print r = map_option info_name (get_info gRegInfo r)"

section \<open>The register table is consistent\<close>

definition has_info :: "(Info \<Rightarrow> bool) \<Rightarrow> Register \<Rightarrow> bool" where
  "has_info P r = (case get_info gRegInfo r of Some i \<Rightarrow> P i | None \<Rightarrow> False)"

definition all_registers :: "Register list" where
  "all_registers = map Reg x86_regs"

lemma m_info_gRegInfo:
  "m_info gRegInfo = m_info make_register_info"
  by (simp add: gRegInfo_def)

lemma get_info_names:
  "map (\<lambda>r. map_option info_name (get_info gRegInfo r)) all_registers =
   map Some
    [''rax'', ''rcx'', ''rdx'', ''rbx'', ''rsp'', ''rbp'', ''rsi'', ''rdi'',
     ''r8'', ''r9'', ''r10'', ''r11'', ''r12'', ''r13'', ''r14'', ''r15'',
     ''xmm0'', ''xmm1'', ''xmm2'', ''xmm3'', ''xmm4'', ''xmm5'', ''xmm6'', ''xmm7'',
     ''xmm8'', ''xmm9'', ''xmm10'', ''xmm11'', ''xmm12'', ''xmm13'', ''xmm14'', ''xmm15'']"
  by code_simp

text \<open>
  What the register allocator and the calling convention need of the table: every list holds
  registers of its own kind, without repetition and without the special registers
  (\<open>rsp\<close>, \<open>r13\<close>, \<open>r14\<close>, \<open>r15\<close>).
\<close>

definition usable :: "(Register \<Rightarrow> bool) \<Rightarrow> Register list \<Rightarrow> bool" where
  "usable kind rs \<longleftrightarrow> distinct rs \<and> list_all (\<lambda>r. kind r \<and> has_info (\<lambda>i. \<not> info_special i) r) rs"

definition table_ok :: "RegisterInfo \<Rightarrow> bool" where
  "table_ok ri \<longleftrightarrow>
     length (m_info ri) = N_REGS \<and> distinct (map info_name (m_info ri)) \<and>
     length (m_gpr_arg_regs ri) = N_ARGS \<and> length (m_xmm_arg_regs ri) = N_ARGS \<and>
     usable is_gpr (m_gpr_arg_regs ri) \<and> usable is_xmm (m_xmm_arg_regs ri) \<and>
     get_gpr_ret_reg \<notin> set (m_gpr_arg_regs ri) \<and> get_xmm_ret_reg \<notin> set (m_xmm_arg_regs ri) \<and>
     usable is_gpr (m_gpr_alloc_order ri) \<and> usable is_xmm (m_xmm_alloc_order ri) \<and>
     usable is_gpr (m_gpr_spill_temp_alloc_order ri) \<and>
     usable is_xmm (m_xmm_spill_temp_alloc_order ri) \<and>
     set (m_gpr_alloc_order ri) \<subseteq> set (m_gpr_spill_temp_alloc_order ri) \<and>
     set (m_xmm_alloc_order ri) \<subseteq> set (m_xmm_spill_temp_alloc_order ri) \<and>
     m_saved_all ri = m_saved_gprs ri @ m_saved_xmms ri \<and>
     m_saved_gprs ri = filter (\<lambda>r. is_gpr r \<and> has_info info_saved r) all_registers \<and>
     m_saved_xmms ri = filter (\<lambda>r. is_xmm r \<and> has_info info_saved r) all_registers \<and>
     m_gpr_temp_only_alloc_order ri =
       filter (\<lambda>r. is_gpr r \<and> has_info info_temp r) all_registers \<and>
     m_xmm_temp_only_alloc_order ri =
       filter (\<lambda>r. is_xmm r \<and> has_info info_temp r) all_registers"


end
