(* ===== verification/Instr_Encoding.thy ===== *)
theory Instr_Encoding
  imports Registers
begin

text \<open>
  \<^verbatim>\<open>goalc/emitter/Instruction.h\<close>: the parts of an x86-64 instruction, the functions that
  fill them in for each addressing mode, and the emission of the bytes. The setters mutate an
  \<^verbatim>\<open>Instruction\<close>; here each takes the instruction last and returns the updated one, or
  \<open>None\<close> where one of its assertions fails.

  Fields the source leaves uninitialised until their flag is set (\<open>i_op2\<close>, \<open>i_op3\<close>,
  \<open>i_disp\<close>, \<open>i_imm\<close>) start as zero here; \<open>emit\<close> reads none of them before its flag is set.
\<close>

section \<open>The bytes of an instruction\<close>

record ModRM =
  mr_mod :: u8
  mr_reg_op :: u8
  mr_rm :: u8

definition modrm_byte :: "ModRM \<Rightarrow> u8" where
  "modrm_byte m = push_bit 6 (mr_mod m) OR push_bit 3 (mr_reg_op m) OR push_bit 0 (mr_rm m)"

record SIB =
  sib_scale :: u8
  sib_index :: u8
  sib_base :: u8

definition sib_byte :: "SIB \<Rightarrow> u8" where
  "sib_byte s = push_bit 6 (sib_scale s) OR push_bit 3 (sib_index s) OR push_bit 0 (sib_base s)"

text \<open>An immediate: \<^verbatim>\<open>v_arr\<close> is the byte view of the 64-bit \<^verbatim>\<open>value\<close> (a union).\<close>

record Imm =
  imm_size :: u8
  imm_value :: u64

definition mk_Imm :: "u8 \<Rightarrow> u64 \<Rightarrow> Imm" where
  "mk_Imm sz v = \<lparr>imm_size = sz, imm_value = v\<rparr>"

definition imm_bytes :: "Imm \<Rightarrow> u8 list" where
  "imm_bytes i = le_bytes (unat (imm_size i)) (imm_value i)"

record REX =
  rex_W :: bool
  rex_R :: bool
  rex_X :: bool
  rex_B :: bool

definition mk_REX :: "bool \<Rightarrow> bool \<Rightarrow> bool \<Rightarrow> bool \<Rightarrow> REX" where
  "mk_REX w r x b = \<lparr>rex_W = w, rex_R = r, rex_X = x, rex_B = b\<rparr>"

definition rex_byte :: "REX \<Rightarrow> u8" where
  "rex_byte r = push_bit 6 1 OR push_bit 3 (of_bool (rex_W r)) OR push_bit 2 (of_bool (rex_R r))
     OR push_bit 1 (of_bool (rex_X r)) OR push_bit 0 (of_bool (rex_B r))"

datatype VexPrefix = P_NONE | P_66 | P_F3 | P_F2

fun vex_prefix_val :: "VexPrefix \<Rightarrow> u8" where
  "vex_prefix_val P_NONE = 0" | "vex_prefix_val P_66 = 1"
| "vex_prefix_val P_F3 = 2" | "vex_prefix_val P_F2 = 3"

datatype LeadingBytes = P_INVALID | P_0F | P_0F_38 | P_0F_3A

fun leading_bytes_val :: "LeadingBytes \<Rightarrow> u8" where
  "leading_bytes_val P_INVALID = 0" | "leading_bytes_val P_0F = 1"
| "leading_bytes_val P_0F_38 = 2" | "leading_bytes_val P_0F_3A = 3"

record VEX3 =
  v3_W :: bool
  v3_R :: bool
  v3_X :: bool
  v3_B :: bool
  v3_leading_bytes :: LeadingBytes
  v3_reg_id :: u8
  v3_prefix :: VexPrefix
  v3_L :: bool

definition mk_VEX3 ::
  "bool \<Rightarrow> bool \<Rightarrow> bool \<Rightarrow> bool \<Rightarrow> LeadingBytes \<Rightarrow> u8 \<Rightarrow> VexPrefix \<Rightarrow> bool \<Rightarrow> VEX3" where
  "mk_VEX3 w r x b lb reg pre l =
    \<lparr>v3_W = w, v3_R = r, v3_X = x, v3_B = b, v3_leading_bytes = lb, v3_reg_id = reg,
     v3_prefix = pre, v3_L = l\<rparr>"

definition vex3_emit :: "VEX3 \<Rightarrow> u8 \<Rightarrow> u8 option" where
  "vex3_emit v byte =
    (if byte = 0 then Some 0b11000100
     else if byte = 1 then
       Some (push_bit 7 (of_bool (\<not> v3_R v)) OR push_bit 6 (of_bool (\<not> v3_X v))
         OR push_bit 5 (of_bool (\<not> v3_B v))
         OR (0b11111 AND leading_bytes_val (v3_leading_bytes v)))
     else if byte = 2 then
       Some (push_bit 7 (of_bool (v3_W v)) OR push_bit 3 (NOT (v3_reg_id v) AND 0b1111)
         OR push_bit 2 (of_bool (v3_L v)) OR (vex_prefix_val (v3_prefix v) AND 0b11))
     else None)"

record VEX2 =
  v2_R :: bool
  v2_reg_id :: u8
  v2_prefix :: VexPrefix
  v2_L :: bool

definition mk_VEX2 :: "bool \<Rightarrow> u8 \<Rightarrow> VexPrefix \<Rightarrow> bool \<Rightarrow> VEX2" where
  "mk_VEX2 r reg pre l = \<lparr>v2_R = r, v2_reg_id = reg, v2_prefix = pre, v2_L = l\<rparr>"

definition vex2_emit :: "VEX2 \<Rightarrow> u8 \<Rightarrow> u8 option" where
  "vex2_emit v byte =
    (if byte = 0 then Some 0b11000101
     else if byte = 1 then
       Some (push_bit 7 (of_bool (\<not> v2_R v)) OR push_bit 3 (NOT (v2_reg_id v) AND 0b1111)
         OR push_bit 2 (of_bool (v2_L v)) OR (vex_prefix_val (v2_prefix v) AND 0b11))
     else None)"

section \<open>The Instruction struct and its plain setters\<close>

record Instruction =
  i_op :: u8
  op2_set :: bool
  i_op2 :: u8
  op3_set :: bool
  i_op3 :: u8
  is_null :: bool
  is_function_start :: bool
  n_vex :: nat
  i_vex :: "u8 list"
  set_rex :: bool
  m_rex :: u8
  set_modrm :: bool
  m_modrm :: u8
  set_sib :: bool
  m_sib :: u8
  set_disp_imm :: bool
  i_disp :: Imm
  set_imm :: bool
  i_imm :: Imm

definition mk_Instruction :: "u8 \<Rightarrow> Instruction" where
  "mk_Instruction opcode =
    \<lparr>i_op = opcode, op2_set = False, i_op2 = 0, op3_set = False, i_op3 = 0, is_null = False,
     is_function_start = False, n_vex = 0, i_vex = [0, 0, 0], set_rex = False, m_rex = 0,
     set_modrm = False, m_modrm = 0, set_sib = False, m_sib = 0,
     set_disp_imm = False, i_disp = mk_Imm 0 0, set_imm = False, i_imm = mk_Imm 0 0\<rparr>"

text \<open>
  With a REX byte present this swaps it with the first opcode byte, so that a mandatory prefix
  kept in \<open>i_op\<close> is emitted first; without one it does nothing.
\<close>

definition swap_op0_rex :: "Instruction \<Rightarrow> Instruction" where
  "swap_op0_rex i = (if \<not> set_rex i then i else i\<lparr>i_op := m_rex i, m_rex := i_op i\<rparr>)"

definition put_rex :: "REX \<Rightarrow> Instruction \<Rightarrow> Instruction" where
  "put_rex r i = i\<lparr>m_rex := rex_byte r, set_rex := True\<rparr>"

definition put_modrm :: "ModRM \<Rightarrow> Instruction \<Rightarrow> Instruction" where
  "put_modrm m i = i\<lparr>m_modrm := modrm_byte m, set_modrm := True\<rparr>"

definition put_sib :: "SIB \<Rightarrow> Instruction \<Rightarrow> Instruction" where
  "put_sib s i = i\<lparr>m_sib := sib_byte s, set_sib := True\<rparr>"

definition put_vex3 :: "VEX3 \<Rightarrow> Instruction \<Rightarrow> Instruction option" where
  "put_vex3 v i = do {
     b0 \<leftarrow> vex3_emit v 0;
     b1 \<leftarrow> vex3_emit v 1;
     b2 \<leftarrow> vex3_emit v 2;
     Some (i\<lparr>n_vex := 3, i_vex := (i_vex i)[0 := b0, 1 := b1, 2 := b2]\<rparr>)
   }"

definition put_vex2 :: "VEX2 \<Rightarrow> Instruction \<Rightarrow> Instruction option" where
  "put_vex2 v i = do {
     b0 \<leftarrow> vex2_emit v 0;
     b1 \<leftarrow> vex2_emit v 1;
     Some (i\<lparr>n_vex := 2, i_vex := (i_vex i)[0 := b0, 1 := b1]\<rparr>)
   }"

definition put_disp :: "Imm \<Rightarrow> Instruction \<Rightarrow> Instruction" where
  "put_disp d i = i\<lparr>i_disp := d, set_disp_imm := True\<rparr>"

definition put_imm :: "Imm \<Rightarrow> Instruction \<Rightarrow> Instruction" where
  "put_imm v i = i\<lparr>i_imm := v, set_imm := True\<rparr>"

definition set_op2 :: "u8 \<Rightarrow> Instruction \<Rightarrow> Instruction" where
  "set_op2 b i = i\<lparr>op2_set := True, i_op2 := b\<rparr>"

definition set_op3 :: "u8 \<Rightarrow> Instruction \<Rightarrow> Instruction" where
  "set_op3 b i = i\<lparr>op3_set := True, i_op3 := b\<rparr>"

definition add_rex :: "Instruction \<Rightarrow> Instruction" where
  "add_rex i = (if \<not> set_rex i then put_rex (mk_REX False False False False) i else i)"

definition get_imm_size :: "Instruction \<Rightarrow> nat" where
  "get_imm_size i = (if set_imm i then unat (imm_size (i_imm i)) else 0)"

definition get_disp_size :: "Instruction \<Rightarrow> nat" where
  "get_disp_size i = (if set_disp_imm i then unat (imm_size (i_disp i)) else 0)"

section \<open>Addressing modes\<close>

text \<open>
  Every mode starts with the same steps: a register number of 8 or more gives its top bit to a
  REX or VEX bit and keeps the low three bits.
\<close>

definition set_modrm_and_rex :: "u8 \<Rightarrow> u8 \<Rightarrow> u8 \<Rightarrow> bool \<Rightarrow> Instruction \<Rightarrow> Instruction" where
  "set_modrm_and_rex reg rm md rex_w i =
    (let (rm, rex_b) = (if 8 \<le> rm then (rm - 8, True) else (rm, False));
         (reg, rex_r) = (if 8 \<le> reg then (reg - 8, True) else (reg, False));
         i = put_modrm \<lparr>mr_mod = md, mr_reg_op = reg, mr_rm = rm\<rparr> i
     in if rex_b \<or> rex_w \<or> rex_r then put_rex (mk_REX rex_w rex_r False rex_b) i else i)"

definition set_vex_modrm_and_rex_vreg ::
  "u8 \<Rightarrow> u8 \<Rightarrow> LeadingBytes \<Rightarrow> u8 \<Rightarrow> bool \<Rightarrow> VexPrefix \<Rightarrow> Instruction \<Rightarrow> Instruction option" where
  "set_vex_modrm_and_rex_vreg reg rm lb vex_reg rex_w pre i =
    (let (rm, rex_b) = (if 8 \<le> rm then (rm - 8, True) else (rm, False));
         (reg, rex_r) = (if 8 \<le> reg then (reg - 8, True) else (reg, False));
         i = put_modrm \<lparr>mr_mod = 3, mr_reg_op = reg, mr_rm = rm\<rparr> i
     in if rex_b \<or> rex_w \<or> lb \<noteq> P_0F
        then put_vex3 (mk_VEX3 rex_w rex_r False rex_b lb vex_reg pre False) i
        else do {
          assert_opt (lb = P_0F);
          assert_opt (\<not> rex_b);
          assert_opt (\<not> rex_w);
          put_vex2 (mk_VEX2 rex_r vex_reg pre False) i
        })"

definition set_vex_modrm_and_rex ::
  "u8 \<Rightarrow> u8 \<Rightarrow> u8 \<Rightarrow> LeadingBytes \<Rightarrow> bool \<Rightarrow> Instruction \<Rightarrow> Instruction option" where
  "set_vex_modrm_and_rex reg rm md lb rex_w i =
    (let (rm, rex_b) = (if 8 \<le> rm then (rm - 8, True) else (rm, False));
         (reg, rex_r) = (if 8 \<le> reg then (reg - 8, True) else (reg, False));
         i = put_modrm \<lparr>mr_mod = md, mr_reg_op = reg, mr_rm = rm\<rparr> i
     in if rex_b \<or> rex_w \<or> lb \<noteq> P_0F
        then put_vex3 (mk_VEX3 rex_w rex_r False rex_b lb 0 P_NONE False) i
        else do {
          assert_opt (lb = P_0F);
          assert_opt (\<not> rex_b);
          assert_opt (\<not> rex_w);
          put_vex2 (mk_VEX2 rex_r 0 P_NONE False) i
        })"

definition set_modrm_and_rex_for_reg_plus_reg_plus_s8 ::
  "u8 \<Rightarrow> u8 \<Rightarrow> u8 \<Rightarrow> s8 \<Rightarrow> bool \<Rightarrow> Instruction \<Rightarrow> Instruction option" where
  "set_modrm_and_rex_for_reg_plus_reg_plus_s8 reg addr1 addr2 offset rex_w i =
    (let (addr1, addr1_ext) = (if 8 \<le> addr1 then (addr1 - 8, True) else (addr1, False));
         (addr2, addr2_ext) = (if 8 \<le> addr2 then (addr2 - 8, True) else (addr2, False));
         (reg, rex_r) = (if 8 \<le> reg then (reg - 8, True) else (reg, False));
         modrm = \<lparr>mr_mod = 1, mr_reg_op = reg, mr_rm = 4\<rparr>;
         imm2 = mk_Imm 1 (scast offset);
         (sib, rex_x, rex_b) =
           (if addr1 = 4
            then (\<lparr>sib_scale = 0, sib_index = addr2, sib_base = addr1\<rparr>, addr2_ext, addr1_ext)
            else (\<lparr>sib_scale = 0, sib_index = addr1, sib_base = addr2\<rparr>, addr1_ext, addr2_ext))
     in do {
       assert_opt (sib_index sib \<noteq> 4);
       let i = (if rex_b \<or> rex_w \<or> rex_r \<or> rex_x
                then put_rex (mk_REX rex_w rex_r rex_x rex_b) i else i);
       Some (put_disp imm2 (put_sib sib (put_modrm modrm i)))
     })"

definition set_vex_modrm_and_rex_for_reg_plus_reg_plus_s8 ::
  "u8 \<Rightarrow> u8 \<Rightarrow> u8 \<Rightarrow> s8 \<Rightarrow> LeadingBytes \<Rightarrow> bool \<Rightarrow> Instruction \<Rightarrow> Instruction option" where
  "set_vex_modrm_and_rex_for_reg_plus_reg_plus_s8 reg addr1 addr2 offset lb rex_w i =
    (let (addr1, addr1_ext) = (if 8 \<le> addr1 then (addr1 - 8, True) else (addr1, False));
         (addr2, addr2_ext) = (if 8 \<le> addr2 then (addr2 - 8, True) else (addr2, False));
         (reg, rex_r) = (if 8 \<le> reg then (reg - 8, True) else (reg, False));
         modrm = \<lparr>mr_mod = 1, mr_reg_op = reg, mr_rm = 4\<rparr>;
         imm2 = mk_Imm 1 (scast offset);
         (sib, rex_x, rex_b) =
           (if addr1 = 4
            then (\<lparr>sib_scale = 0, sib_index = addr2, sib_base = addr1\<rparr>, addr2_ext, addr1_ext)
            else (\<lparr>sib_scale = 0, sib_index = addr1, sib_base = addr2\<rparr>, addr1_ext, addr2_ext))
     in do {
       assert_opt (sib_index sib \<noteq> 4);
       i \<leftarrow> (if rex_b \<or> rex_w \<or> rex_x \<or> lb \<noteq> P_0F
             then put_vex3 (mk_VEX3 rex_w rex_r rex_x rex_b lb 0 P_NONE False) i
             else do {
               assert_opt (lb = P_0F);
               assert_opt (\<not> rex_b);
               assert_opt (\<not> rex_w);
               assert_opt (\<not> rex_x);
               put_vex2 (mk_VEX2 rex_r 0 P_NONE False) i
             });
       Some (put_disp imm2 (put_sib sib (put_modrm modrm i)))
     })"

definition set_modrm_and_rex_for_reg_plus_reg_plus_s32 ::
  "u8 \<Rightarrow> u8 \<Rightarrow> u8 \<Rightarrow> s32 \<Rightarrow> bool \<Rightarrow> Instruction \<Rightarrow> Instruction option" where
  "set_modrm_and_rex_for_reg_plus_reg_plus_s32 reg addr1 addr2 offset rex_w i =
    (let (addr1, addr1_ext) = (if 8 \<le> addr1 then (addr1 - 8, True) else (addr1, False));
         (addr2, addr2_ext) = (if 8 \<le> addr2 then (addr2 - 8, True) else (addr2, False));
         (reg, rex_r) = (if 8 \<le> reg then (reg - 8, True) else (reg, False));
         modrm = \<lparr>mr_mod = 2, mr_reg_op = reg, mr_rm = 4\<rparr>;
         imm2 = mk_Imm 4 (scast offset);
         (sib, rex_x, rex_b) =
           (if addr1 = 4
            then (\<lparr>sib_scale = 0, sib_index = addr2, sib_base = addr1\<rparr>, addr2_ext, addr1_ext)
            else (\<lparr>sib_scale = 0, sib_index = addr1, sib_base = addr2\<rparr>, addr1_ext, addr2_ext))
     in do {
       assert_opt (sib_index sib \<noteq> 4);
       let i = (if rex_b \<or> rex_w \<or> rex_r \<or> rex_x
                then put_rex (mk_REX rex_w rex_r rex_x rex_b) i else i);
       Some (put_disp imm2 (put_sib sib (put_modrm modrm i)))
     })"

definition set_vex_modrm_and_rex_for_reg_plus_reg_plus_s32 ::
  "u8 \<Rightarrow> u8 \<Rightarrow> u8 \<Rightarrow> s32 \<Rightarrow> LeadingBytes \<Rightarrow> bool \<Rightarrow> Instruction \<Rightarrow> Instruction option" where
  "set_vex_modrm_and_rex_for_reg_plus_reg_plus_s32 reg addr1 addr2 offset lb rex_w i =
    (let (addr1, addr1_ext) = (if 8 \<le> addr1 then (addr1 - 8, True) else (addr1, False));
         (addr2, addr2_ext) = (if 8 \<le> addr2 then (addr2 - 8, True) else (addr2, False));
         (reg, rex_r) = (if 8 \<le> reg then (reg - 8, True) else (reg, False));
         modrm = \<lparr>mr_mod = 2, mr_reg_op = reg, mr_rm = 4\<rparr>;
         imm2 = mk_Imm 4 (scast offset);
         (sib, rex_x, rex_b) =
           (if addr1 = 4
            then (\<lparr>sib_scale = 0, sib_index = addr2, sib_base = addr1\<rparr>, addr2_ext, addr1_ext)
            else (\<lparr>sib_scale = 0, sib_index = addr1, sib_base = addr2\<rparr>, addr1_ext, addr2_ext))
     in do {
       assert_opt (sib_index sib \<noteq> 4);
       i \<leftarrow> (if rex_b \<or> rex_w \<or> rex_x \<or> lb \<noteq> P_0F
             then put_vex3 (mk_VEX3 rex_w rex_r rex_x rex_b lb 0 P_NONE False) i
             else do {
               assert_opt (lb = P_0F);
               assert_opt (\<not> rex_b);
               assert_opt (\<not> rex_w);
               assert_opt (\<not> rex_x);
               put_vex2 (mk_VEX2 rex_r 0 P_NONE False) i
             });
       Some (put_disp imm2 (put_sib sib (put_modrm modrm i)))
     })"

definition set_modrm_and_rex_for_reg_plus_reg_addr ::
  "u8 \<Rightarrow> u8 \<Rightarrow> u8 \<Rightarrow> bool \<Rightarrow> bool \<Rightarrow> Instruction \<Rightarrow> Instruction option" where
  "set_modrm_and_rex_for_reg_plus_reg_addr reg addr1 addr2 rex_w rex_always i =
    (let (addr1, addr1_ext) = (if 8 \<le> addr1 then (addr1 - 8, True) else (addr1, False));
         (addr2, addr2_ext) = (if 8 \<le> addr2 then (addr2 - 8, True) else (addr2, False));
         (reg, rex_r) = (if 8 \<le> reg then (reg - 8, True) else (reg, False));
         modrm = \<lparr>mr_mod = 0, mr_reg_op = reg, mr_rm = 4\<rparr>
     in do {
       (i, modrm, sib, rex_x, rex_b) \<leftarrow>
         (if addr1 = 5 \<and> addr2 = 5
          then Some (put_disp (mk_Imm 1 0) i, modrm\<lparr>mr_mod := 1\<rparr>,
                     \<lparr>sib_scale = 0, sib_index = addr1, sib_base = addr2\<rparr>, addr1_ext, addr2_ext)
          else do {
            let flipped = (addr1 = 4 \<or> addr2 = 5);
            let (sib, rex_x, rex_b) =
              (if flipped
               then (\<lparr>sib_scale = 0, sib_index = addr2, sib_base = addr1\<rparr>, addr2_ext, addr1_ext)
               else (\<lparr>sib_scale = 0, sib_index = addr1, sib_base = addr2\<rparr>, addr1_ext, addr2_ext));
            assert_opt (sib_base sib \<noteq> 5);
            assert_opt (sib_index sib \<noteq> 4);
            Some (i, modrm, sib, rex_x, rex_b)
          });
       let i = (if rex_b \<or> rex_w \<or> rex_r \<or> rex_x \<or> rex_always
                then put_rex (mk_REX rex_w rex_r rex_x rex_b) i else i);
       Some (put_sib sib (put_modrm modrm i))
     })"

definition set_vex_modrm_and_rex_for_reg_plus_reg_addr ::
  "u8 \<Rightarrow> u8 \<Rightarrow> u8 \<Rightarrow> LeadingBytes \<Rightarrow> bool \<Rightarrow> Instruction \<Rightarrow> Instruction option" where
  "set_vex_modrm_and_rex_for_reg_plus_reg_addr reg addr1 addr2 lb rex_w i =
    (let (addr1, addr1_ext) = (if 8 \<le> addr1 then (addr1 - 8, True) else (addr1, False));
         (addr2, addr2_ext) = (if 8 \<le> addr2 then (addr2 - 8, True) else (addr2, False));
         (reg, rex_r) = (if 8 \<le> reg then (reg - 8, True) else (reg, False));
         modrm = \<lparr>mr_mod = 0, mr_reg_op = reg, mr_rm = 4\<rparr>
     in do {
       (i, modrm, sib, rex_x, rex_b) \<leftarrow>
         (if addr1 = 5 \<and> addr2 = 5
          then Some (put_disp (mk_Imm 1 0) i, modrm\<lparr>mr_mod := 1\<rparr>,
                     \<lparr>sib_scale = 0, sib_index = addr1, sib_base = addr2\<rparr>, addr1_ext, addr2_ext)
          else do {
            let flipped = (addr1 = 4 \<or> addr2 = 5);
            let (sib, rex_x, rex_b) =
              (if flipped
               then (\<lparr>sib_scale = 0, sib_index = addr2, sib_base = addr1\<rparr>, addr2_ext, addr1_ext)
               else (\<lparr>sib_scale = 0, sib_index = addr1, sib_base = addr2\<rparr>, addr1_ext, addr2_ext));
            assert_opt (sib_base sib \<noteq> 5);
            assert_opt (sib_index sib \<noteq> 4);
            Some (i, modrm, sib, rex_x, rex_b)
          });
       i \<leftarrow> (if rex_b \<or> rex_w \<or> rex_x \<or> lb \<noteq> P_0F
             then put_vex3 (mk_VEX3 rex_w rex_r rex_x rex_b lb 0 P_NONE False) i
             else do {
               assert_opt (lb = P_0F);
               assert_opt (\<not> rex_b);
               assert_opt (\<not> rex_w);
               assert_opt (\<not> rex_x);
               put_vex2 (mk_VEX2 rex_r 0 P_NONE False) i
             });
       Some (put_sib sib (put_modrm modrm i))
     })"

definition set_modrm_and_rex_for_reg_addr ::
  "u8 \<Rightarrow> u8 \<Rightarrow> bool \<Rightarrow> Instruction \<Rightarrow> Instruction" where
  "set_modrm_and_rex_for_reg_addr reg rm rex_w i =
    (let (rm, rex_b) = (if 8 \<le> rm then (rm - 8, True) else (rm, False));
         (reg, rex_r) = (if 8 \<le> reg then (reg - 8, True) else (reg, False));
         modrm = \<lparr>mr_mod = 0, mr_reg_op = reg, mr_rm = rm\<rparr>;
         i = (if rm = 4 then put_sib \<lparr>sib_scale = 0, sib_index = 4, sib_base = 4\<rparr> i else i);
         (modrm, i) = (if rm = 5 then (modrm\<lparr>mr_mod := 1\<rparr>, put_disp (mk_Imm 1 0) i) else (modrm, i));
         i = put_modrm modrm i
     in if rex_b \<or> rex_w \<or> rex_r then put_rex (mk_REX rex_w rex_r False rex_b) i else i)"

definition set_modrm_and_rex_for_rip_plus_s32 ::
  "u8 \<Rightarrow> s32 \<Rightarrow> bool \<Rightarrow> Instruction \<Rightarrow> Instruction" where
  "set_modrm_and_rex_for_rip_plus_s32 reg offset rex_w i =
    (let (reg, rex_r) = (if 8 \<le> reg then (reg - 8, True) else (reg, False));
         i = put_modrm \<lparr>mr_mod = 0, mr_reg_op = reg, mr_rm = 5\<rparr> i;
         i = (if rex_r \<or> rex_w then put_rex (mk_REX rex_w rex_r False False) i else i)
     in put_disp (mk_Imm 4 (scast offset)) i)"

definition set_vex_modrm_and_rex_for_rip_plus_s32 ::
  "u8 \<Rightarrow> s32 \<Rightarrow> LeadingBytes \<Rightarrow> bool \<Rightarrow> Instruction \<Rightarrow> Instruction option" where
  "set_vex_modrm_and_rex_for_rip_plus_s32 reg offset lb rex_w i =
    (let (reg, rex_r) = (if 8 \<le> reg then (reg - 8, True) else (reg, False));
         i = put_modrm \<lparr>mr_mod = 0, mr_reg_op = reg, mr_rm = 5\<rparr> i
     in do {
       i \<leftarrow> (if rex_w \<or> lb \<noteq> P_0F
             then put_vex3 (mk_VEX3 rex_w rex_r False False lb 0 P_NONE False) i
             else do {
               assert_opt (lb = P_0F);
               assert_opt (\<not> rex_w);
               put_vex2 (mk_VEX2 rex_r 0 P_NONE False) i
             });
       Some (put_disp (mk_Imm 4 (scast offset)) i)
     })"

definition set_modrm_rex_sib_for_reg_reg_disp ::
  "u8 \<Rightarrow> u8 \<Rightarrow> u8 \<Rightarrow> bool \<Rightarrow> Instruction \<Rightarrow> Instruction" where
  "set_modrm_rex_sib_for_reg_reg_disp reg md rm rex_w i =
    (let (reg, rex_r) = (if 8 \<le> reg then (reg - 8, True) else (reg, False));
         modrm = \<lparr>mr_mod = md, mr_reg_op = reg, mr_rm = 4\<rparr>;
         (rm, rex_b) = (if 8 \<le> rm then (rm - 8, True) else (rm, False));
         sib = \<lparr>sib_scale = 0, sib_index = 4, sib_base = rm\<rparr>;
         i = put_sib sib (put_modrm modrm i)
     in if rex_r \<or> rex_w \<or> rex_b then put_rex (mk_REX rex_w rex_r False rex_b) i else i)"

section \<open>Offsets, emission and length\<close>

definition offset_of_disp :: "Instruction \<Rightarrow> nat option" where
  "offset_of_disp i =
    (if is_null i then Some 0
     else do {
       assert_opt (set_disp_imm i);
       Some (n_vex i + of_bool (set_rex i) + 1 + of_bool (op2_set i) + of_bool (op3_set i)
             + of_bool (set_modrm i) + of_bool (set_sib i))
     })"

definition offset_of_imm :: "Instruction \<Rightarrow> nat option" where
  "offset_of_imm i =
    (if is_null i then Some 0
     else do {
       assert_opt (set_imm i);
       Some (n_vex i + of_bool (set_rex i) + 1 + of_bool (op2_set i) + of_bool (op3_set i)
             + of_bool (set_modrm i) + of_bool (set_sib i)
             + (if set_disp_imm i then unat (imm_size (i_disp i)) else 0))
     })"

text \<open>
  \<^verbatim>\<open>emit\<close> writes these bytes to the buffer and returns their number, counted in a
  \<^verbatim>\<open>uint8_t\<close>; \<^verbatim>\<open>length\<close> counts the same way without writing.
\<close>

definition emit :: "Instruction \<Rightarrow> u8 list" where
  "emit i =
    (if is_null i then []
     else take (n_vex i) (i_vex i)
       @ (if set_rex i then [m_rex i] else [])
       @ [i_op i]
       @ (if op2_set i then [i_op2 i] else [])
       @ (if op3_set i then [i_op3 i] else [])
       @ (if set_modrm i then [m_modrm i] else [])
       @ (if set_sib i then [m_sib i] else [])
       @ (if set_disp_imm i then imm_bytes (i_disp i) else [])
       @ (if set_imm i then imm_bytes (i_imm i) else []))"

definition emit_count :: "Instruction \<Rightarrow> u8" where
  "emit_count i = of_nat (length (emit i))"

definition instr_length :: "Instruction \<Rightarrow> u8" where
  "instr_length i =
    (if is_null i then 0
     else of_nat (n_vex i) + of_bool (set_rex i) + 1 + of_bool (op2_set i) + of_bool (op3_set i)
       + of_bool (set_modrm i) + of_bool (set_sib i)
       + (if set_disp_imm i then imm_size (i_disp i) else 0)
       + (if set_imm i then imm_size (i_imm i) else 0))"

end
