(* ===== verification/IGen_Mem.thy ===== *)
theory IGen_Mem
  imports Instr_Encoding
begin

text \<open>
  \<^verbatim>\<open>goalc/emitter/IGen.h\<close>, first part: moves between registers, GOAL loads and stores
  (address register plus offset register plus constant), float and 128-bit loads and stores, and
  RIP-relative accesses. Each function is the source function of the same name; \<open>None\<close> is
  a failed assertion. A register's hardware number reaches the \<^verbatim>\<open>uint8_t\<close> parameters
  of the setters through \<open>hw_u8\<close>, and an \<^verbatim>\<open>s64\<close> offset is an \<open>int\<close> that
  is converted to the width of the field it is stored in.
\<close>

definition hw_u8 :: "Register \<Rightarrow> u8 option" where
  "hw_u8 r = map_option word_of_int (hw_id r)"

section \<open>Moves\<close>

definition mov_gpr64_gpr64 ::
  "Register \<Rightarrow> Register \<Rightarrow> Instruction option" where
  "mov_gpr64_gpr64 dst src = do {
     assert_opt (is_gpr dst);
     assert_opt (is_gpr src);
     let instr = mk_Instruction 0x89;
     src_hw \<leftarrow> hw_u8 src;
     dst_hw \<leftarrow> hw_u8 dst;
     let instr = set_modrm_and_rex src_hw dst_hw 3 True instr;
     Some instr
   }"

definition mov_gpr64_u64 :: "Register \<Rightarrow> u64 \<Rightarrow> Instruction option" where
  "mov_gpr64_u64 dst val = do {
     assert_opt (is_gpr dst);
     dst_hw_id \<leftarrow> hw_id dst;
     let (dst_hw_id, rex_b) = (if 8 \<le> dst_hw_id then (dst_hw_id - 8, True) else (dst_hw_id, False));
     let instr = mk_Instruction (word_of_int (0xb8 + dst_hw_id));
     let instr = put_rex (mk_REX True False False rex_b) instr;
     let instr = put_imm (mk_Imm 8 val) instr;
     Some instr
   }"

definition mov_gpr64_u32 :: "Register \<Rightarrow> u64 \<Rightarrow> Instruction option" where
  "mov_gpr64_u32 dst val = do {
     assert_opt (val \<le> 0xffffffff);
     assert_opt (is_gpr dst);
     dst_hw_id \<leftarrow> hw_id dst;
     let (dst_hw_id, rex_b) = (if 8 \<le> dst_hw_id then (dst_hw_id - 8, True) else (dst_hw_id, False));
     let instr = mk_Instruction (word_of_int (0xb8 + dst_hw_id));
     let instr = (if rex_b then put_rex (mk_REX False False False rex_b) instr else instr);
     let instr = put_imm (mk_Imm 4 val) instr;
     Some instr
   }"

definition mov_gpr64_s32 :: "Register \<Rightarrow> int \<Rightarrow> Instruction option" where
  "mov_gpr64_s32 dst val = do {
     assert_opt (fits_s32 val);
     assert_opt (is_gpr dst);
     let instr = mk_Instruction 0xc7;
     dst_hw \<leftarrow> hw_u8 dst;
     let instr = set_modrm_and_rex 0 dst_hw 3 True instr;
     let instr = put_imm (mk_Imm 4 (word_of_int val)) instr;
     Some instr
   }"

definition movd_gpr32_xmm32 ::
  "Register \<Rightarrow> Register \<Rightarrow> Instruction option" where
  "movd_gpr32_xmm32 dst src = do {
     assert_opt (is_gpr dst);
     assert_opt (is_xmm src);
     let instr = mk_Instruction 0x66;
     let instr = set_op2 0x0f instr;
     let instr = set_op3 0x7e instr;
     src_hw \<leftarrow> hw_u8 src;
     dst_hw \<leftarrow> hw_u8 dst;
     let instr = set_modrm_and_rex src_hw dst_hw 3 False instr;
     let instr = swap_op0_rex instr;
     Some instr
   }"

definition movd_xmm32_gpr32 ::
  "Register \<Rightarrow> Register \<Rightarrow> Instruction option" where
  "movd_xmm32_gpr32 dst src = do {
     assert_opt (is_xmm dst);
     assert_opt (is_gpr src);
     let instr = mk_Instruction 0x66;
     let instr = set_op2 0x0f instr;
     let instr = set_op3 0x6e instr;
     dst_hw \<leftarrow> hw_u8 dst;
     src_hw \<leftarrow> hw_u8 src;
     let instr = set_modrm_and_rex dst_hw src_hw 3 False instr;
     let instr = swap_op0_rex instr;
     Some instr
   }"

definition movq_gpr64_xmm64 ::
  "Register \<Rightarrow> Register \<Rightarrow> Instruction option" where
  "movq_gpr64_xmm64 dst src = do {
     assert_opt (is_gpr dst);
     assert_opt (is_xmm src);
     let instr = mk_Instruction 0x66;
     let instr = set_op2 0x0f instr;
     let instr = set_op3 0x7e instr;
     src_hw \<leftarrow> hw_u8 src;
     dst_hw \<leftarrow> hw_u8 dst;
     let instr = set_modrm_and_rex src_hw dst_hw 3 True instr;
     let instr = swap_op0_rex instr;
     Some instr
   }"

definition movq_xmm64_gpr64 ::
  "Register \<Rightarrow> Register \<Rightarrow> Instruction option" where
  "movq_xmm64_gpr64 dst src = do {
     assert_opt (is_xmm dst);
     assert_opt (is_gpr src);
     let instr = mk_Instruction 0x66;
     let instr = set_op2 0x0f instr;
     let instr = set_op3 0x6e instr;
     dst_hw \<leftarrow> hw_u8 dst;
     src_hw \<leftarrow> hw_u8 src;
     let instr = set_modrm_and_rex dst_hw src_hw 3 True instr;
     let instr = swap_op0_rex instr;
     Some instr
   }"

definition mov_xmm32_xmm32 ::
  "Register \<Rightarrow> Register \<Rightarrow> Instruction option" where
  "mov_xmm32_xmm32 dst src = do {
     assert_opt (is_xmm dst);
     assert_opt (is_xmm src);
     let instr = mk_Instruction 0xf3;
     let instr = set_op2 0x0f instr;
     let instr = set_op3 0x10 instr;
     dst_hw \<leftarrow> hw_u8 dst;
     src_hw \<leftarrow> hw_u8 src;
     let instr = set_modrm_and_rex dst_hw src_hw 3 False instr;
     let instr = swap_op0_rex instr;
     Some instr
   }"

section \<open>GOAL loads and stores\<close>

definition load8s_gpr64_gpr64_plus_gpr64 ::
  "Register \<Rightarrow> Register \<Rightarrow> Register \<Rightarrow> Instruction option" where
  "load8s_gpr64_gpr64_plus_gpr64 dst addr1 addr2 = do {
     assert_opt (is_gpr dst);
     assert_opt (is_gpr addr1);
     assert_opt (is_gpr addr2);
     assert_opt (addr1 \<noteq> addr2);
     assert_opt (addr1 \<noteq> Reg RSP);
     assert_opt (addr2 \<noteq> Reg RSP);
     let instr = mk_Instruction 0xf;
     let instr = set_op2 0xbe instr;
     dst_hw \<leftarrow> hw_u8 dst;
     addr1_hw \<leftarrow> hw_u8 addr1;
     addr2_hw \<leftarrow> hw_u8 addr2;
     instr \<leftarrow> set_modrm_and_rex_for_reg_plus_reg_addr dst_hw addr1_hw addr2_hw True False instr;
     Some instr
   }"

definition store8_gpr64_gpr64_plus_gpr64 ::
  "Register \<Rightarrow> Register \<Rightarrow> Register \<Rightarrow> Instruction option" where
  "store8_gpr64_gpr64_plus_gpr64 addr1 addr2 value = do {
     assert_opt (is_gpr value);
     assert_opt (is_gpr addr1);
     assert_opt (is_gpr addr2);
     assert_opt (addr1 \<noteq> addr2);
     assert_opt (addr1 \<noteq> Reg RSP);
     assert_opt (addr2 \<noteq> Reg RSP);
     let instr = mk_Instruction 0x88;
     value_hw \<leftarrow> hw_u8 value;
     addr1_hw \<leftarrow> hw_u8 addr1;
     addr2_hw \<leftarrow> hw_u8 addr2;
     instr \<leftarrow> set_modrm_and_rex_for_reg_plus_reg_addr value_hw addr1_hw addr2_hw False False instr;
     let instr = (if reg_val RBX < m_id value then add_rex instr else instr);
     Some instr
   }"

definition load8s_gpr64_gpr64_plus_gpr64_plus_s8 ::
  "Register \<Rightarrow> Register \<Rightarrow> Register \<Rightarrow> int \<Rightarrow> Instruction option" where
  "load8s_gpr64_gpr64_plus_gpr64_plus_s8 dst addr1 addr2 offset = do {
     assert_opt (is_gpr dst);
     assert_opt (is_gpr addr1);
     assert_opt (is_gpr addr2);
     assert_opt (addr1 \<noteq> addr2);
     assert_opt (addr1 \<noteq> Reg RSP);
     assert_opt (addr2 \<noteq> Reg RSP);
     assert_opt (fits_s8 offset);
     let instr = mk_Instruction 0xf;
     let instr = set_op2 0xbe instr;
     dst_hw \<leftarrow> hw_u8 dst;
     addr1_hw \<leftarrow> hw_u8 addr1;
     addr2_hw \<leftarrow> hw_u8 addr2;
     instr \<leftarrow> set_modrm_and_rex_for_reg_plus_reg_plus_s8
              dst_hw addr1_hw addr2_hw (word_of_int offset) True instr;
     Some instr
   }"

definition store8_gpr64_gpr64_plus_gpr64_plus_s8 ::
  "Register \<Rightarrow> Register \<Rightarrow> Register \<Rightarrow> int \<Rightarrow> Instruction option" where
  "store8_gpr64_gpr64_plus_gpr64_plus_s8 addr1 addr2 value offset = do {
     assert_opt (is_gpr value);
     assert_opt (is_gpr addr1);
     assert_opt (is_gpr addr2);
     assert_opt (addr1 \<noteq> addr2);
     assert_opt (addr1 \<noteq> Reg RSP);
     assert_opt (addr2 \<noteq> Reg RSP);
     assert_opt (fits_s8 offset);
     let instr = mk_Instruction 0x88;
     value_hw \<leftarrow> hw_u8 value;
     addr1_hw \<leftarrow> hw_u8 addr1;
     addr2_hw \<leftarrow> hw_u8 addr2;
     instr \<leftarrow> set_modrm_and_rex_for_reg_plus_reg_plus_s8
              value_hw addr1_hw addr2_hw (word_of_int offset) False instr;
     let instr = (if reg_val RBX < m_id value then add_rex instr else instr);
     Some instr
   }"

definition load8s_gpr64_gpr64_plus_gpr64_plus_s32 ::
  "Register \<Rightarrow> Register \<Rightarrow> Register \<Rightarrow> int \<Rightarrow> Instruction option" where
  "load8s_gpr64_gpr64_plus_gpr64_plus_s32 dst addr1 addr2 offset = do {
     assert_opt (is_gpr dst);
     assert_opt (is_gpr addr1);
     assert_opt (is_gpr addr2);
     assert_opt (addr1 \<noteq> addr2);
     assert_opt (addr1 \<noteq> Reg RSP);
     assert_opt (addr2 \<noteq> Reg RSP);
     assert_opt (fits_s32 offset);
     let instr = mk_Instruction 0xf;
     let instr = set_op2 0xbe instr;
     dst_hw \<leftarrow> hw_u8 dst;
     addr1_hw \<leftarrow> hw_u8 addr1;
     addr2_hw \<leftarrow> hw_u8 addr2;
     instr \<leftarrow> set_modrm_and_rex_for_reg_plus_reg_plus_s32
              dst_hw addr1_hw addr2_hw (word_of_int offset) True instr;
     Some instr
   }"

definition store8_gpr64_gpr64_plus_gpr64_plus_s32 ::
  "Register \<Rightarrow> Register \<Rightarrow> Register \<Rightarrow> int \<Rightarrow> Instruction option" where
  "store8_gpr64_gpr64_plus_gpr64_plus_s32 addr1 addr2 value offset = do {
     assert_opt (is_gpr value);
     assert_opt (is_gpr addr1);
     assert_opt (is_gpr addr2);
     assert_opt (addr1 \<noteq> addr2);
     assert_opt (addr1 \<noteq> Reg RSP);
     assert_opt (addr2 \<noteq> Reg RSP);
     assert_opt (fits_s32 offset);
     let instr = mk_Instruction 0x88;
     value_hw \<leftarrow> hw_u8 value;
     addr1_hw \<leftarrow> hw_u8 addr1;
     addr2_hw \<leftarrow> hw_u8 addr2;
     instr \<leftarrow> set_modrm_and_rex_for_reg_plus_reg_plus_s32
              value_hw addr1_hw addr2_hw (word_of_int offset) False instr;
     let instr = (if reg_val RBX < m_id value then add_rex instr else instr);
     Some instr
   }"

definition load8u_gpr64_gpr64_plus_gpr64 ::
  "Register \<Rightarrow> Register \<Rightarrow> Register \<Rightarrow> Instruction option" where
  "load8u_gpr64_gpr64_plus_gpr64 dst addr1 addr2 = do {
     assert_opt (is_gpr dst);
     assert_opt (is_gpr addr1);
     assert_opt (is_gpr addr2);
     assert_opt (addr1 \<noteq> addr2);
     assert_opt (addr1 \<noteq> Reg RSP);
     assert_opt (addr2 \<noteq> Reg RSP);
     let instr = mk_Instruction 0xf;
     let instr = set_op2 0xb6 instr;
     dst_hw \<leftarrow> hw_u8 dst;
     addr1_hw \<leftarrow> hw_u8 addr1;
     addr2_hw \<leftarrow> hw_u8 addr2;
     instr \<leftarrow> set_modrm_and_rex_for_reg_plus_reg_addr dst_hw addr1_hw addr2_hw True False instr;
     Some instr
   }"

definition load8u_gpr64_gpr64_plus_gpr64_plus_s8 ::
  "Register \<Rightarrow> Register \<Rightarrow> Register \<Rightarrow> int \<Rightarrow> Instruction option" where
  "load8u_gpr64_gpr64_plus_gpr64_plus_s8 dst addr1 addr2 offset = do {
     assert_opt (is_gpr dst);
     assert_opt (is_gpr addr1);
     assert_opt (is_gpr addr2);
     assert_opt (addr1 \<noteq> addr2);
     assert_opt (addr1 \<noteq> Reg RSP);
     assert_opt (addr2 \<noteq> Reg RSP);
     assert_opt (fits_s8 offset);
     let instr = mk_Instruction 0xf;
     let instr = set_op2 0xb6 instr;
     dst_hw \<leftarrow> hw_u8 dst;
     addr1_hw \<leftarrow> hw_u8 addr1;
     addr2_hw \<leftarrow> hw_u8 addr2;
     instr \<leftarrow> set_modrm_and_rex_for_reg_plus_reg_plus_s8
              dst_hw addr1_hw addr2_hw (word_of_int offset) True instr;
     Some instr
   }"

definition load8u_gpr64_gpr64_plus_gpr64_plus_s32 ::
  "Register \<Rightarrow> Register \<Rightarrow> Register \<Rightarrow> int \<Rightarrow> Instruction option" where
  "load8u_gpr64_gpr64_plus_gpr64_plus_s32 dst addr1 addr2 offset = do {
     assert_opt (is_gpr dst);
     assert_opt (is_gpr addr1);
     assert_opt (is_gpr addr2);
     assert_opt (addr1 \<noteq> addr2);
     assert_opt (addr1 \<noteq> Reg RSP);
     assert_opt (addr2 \<noteq> Reg RSP);
     assert_opt (fits_s32 offset);
     let instr = mk_Instruction 0xf;
     let instr = set_op2 0xb6 instr;
     dst_hw \<leftarrow> hw_u8 dst;
     addr1_hw \<leftarrow> hw_u8 addr1;
     addr2_hw \<leftarrow> hw_u8 addr2;
     instr \<leftarrow> set_modrm_and_rex_for_reg_plus_reg_plus_s32
              dst_hw addr1_hw addr2_hw (word_of_int offset) True instr;
     Some instr
   }"

definition load16s_gpr64_gpr64_plus_gpr64 ::
  "Register \<Rightarrow> Register \<Rightarrow> Register \<Rightarrow> Instruction option" where
  "load16s_gpr64_gpr64_plus_gpr64 dst addr1 addr2 = do {
     assert_opt (is_gpr dst);
     assert_opt (is_gpr addr1);
     assert_opt (is_gpr addr2);
     assert_opt (addr1 \<noteq> addr2);
     assert_opt (addr1 \<noteq> Reg RSP);
     assert_opt (addr2 \<noteq> Reg RSP);
     let instr = mk_Instruction 0xf;
     let instr = set_op2 0xbf instr;
     dst_hw \<leftarrow> hw_u8 dst;
     addr1_hw \<leftarrow> hw_u8 addr1;
     addr2_hw \<leftarrow> hw_u8 addr2;
     instr \<leftarrow> set_modrm_and_rex_for_reg_plus_reg_addr dst_hw addr1_hw addr2_hw True False instr;
     Some instr
   }"

definition store16_gpr64_gpr64_plus_gpr64 ::
  "Register \<Rightarrow> Register \<Rightarrow> Register \<Rightarrow> Instruction option" where
  "store16_gpr64_gpr64_plus_gpr64 addr1 addr2 value = do {
     assert_opt (is_gpr value);
     assert_opt (is_gpr addr1);
     assert_opt (is_gpr addr2);
     assert_opt (addr1 \<noteq> addr2);
     assert_opt (addr1 \<noteq> Reg RSP);
     assert_opt (addr2 \<noteq> Reg RSP);
     let instr = mk_Instruction 0x66;
     let instr = set_op2 0x89 instr;
     value_hw \<leftarrow> hw_u8 value;
     addr1_hw \<leftarrow> hw_u8 addr1;
     addr2_hw \<leftarrow> hw_u8 addr2;
     instr \<leftarrow> set_modrm_and_rex_for_reg_plus_reg_addr value_hw addr1_hw addr2_hw False False instr;
     let instr = swap_op0_rex instr;
     Some instr
   }"

definition store16_gpr64_gpr64_plus_gpr64_plus_s8 ::
  "Register \<Rightarrow> Register \<Rightarrow> Register \<Rightarrow> int \<Rightarrow> Instruction option" where
  "store16_gpr64_gpr64_plus_gpr64_plus_s8 addr1 addr2 value offset = do {
     assert_opt (is_gpr value);
     assert_opt (is_gpr addr1);
     assert_opt (is_gpr addr2);
     assert_opt (addr1 \<noteq> addr2);
     assert_opt (addr1 \<noteq> Reg RSP);
     assert_opt (addr2 \<noteq> Reg RSP);
     assert_opt (fits_s8 offset);
     let instr = mk_Instruction 0x66;
     let instr = set_op2 0x89 instr;
     value_hw \<leftarrow> hw_u8 value;
     addr1_hw \<leftarrow> hw_u8 addr1;
     addr2_hw \<leftarrow> hw_u8 addr2;
     instr \<leftarrow> set_modrm_and_rex_for_reg_plus_reg_plus_s8
              value_hw addr1_hw addr2_hw (word_of_int offset) False instr;
     let instr = swap_op0_rex instr;
     Some instr
   }"

definition store16_gpr64_gpr64_plus_gpr64_plus_s32 ::
  "Register \<Rightarrow> Register \<Rightarrow> Register \<Rightarrow> int \<Rightarrow> Instruction option" where
  "store16_gpr64_gpr64_plus_gpr64_plus_s32 addr1 addr2 value offset = do {
     assert_opt (is_gpr value);
     assert_opt (is_gpr addr1);
     assert_opt (is_gpr addr2);
     assert_opt (addr1 \<noteq> addr2);
     assert_opt (addr1 \<noteq> Reg RSP);
     assert_opt (addr2 \<noteq> Reg RSP);
     assert_opt (fits_s32 offset);
     let instr = mk_Instruction 0x66;
     let instr = set_op2 0x89 instr;
     value_hw \<leftarrow> hw_u8 value;
     addr1_hw \<leftarrow> hw_u8 addr1;
     addr2_hw \<leftarrow> hw_u8 addr2;
     instr \<leftarrow> set_modrm_and_rex_for_reg_plus_reg_plus_s32
              value_hw addr1_hw addr2_hw (word_of_int offset) False instr;
     let instr = swap_op0_rex instr;
     Some instr
   }"

definition load16s_gpr64_gpr64_plus_gpr64_plus_s8 ::
  "Register \<Rightarrow> Register \<Rightarrow> Register \<Rightarrow> int \<Rightarrow> Instruction option" where
  "load16s_gpr64_gpr64_plus_gpr64_plus_s8 dst addr1 addr2 offset = do {
     assert_opt (is_gpr dst);
     assert_opt (is_gpr addr1);
     assert_opt (is_gpr addr2);
     assert_opt (addr1 \<noteq> addr2);
     assert_opt (addr1 \<noteq> Reg RSP);
     assert_opt (addr2 \<noteq> Reg RSP);
     assert_opt (fits_s8 offset);
     let instr = mk_Instruction 0xf;
     let instr = set_op2 0xbf instr;
     dst_hw \<leftarrow> hw_u8 dst;
     addr1_hw \<leftarrow> hw_u8 addr1;
     addr2_hw \<leftarrow> hw_u8 addr2;
     instr \<leftarrow> set_modrm_and_rex_for_reg_plus_reg_plus_s8
              dst_hw addr1_hw addr2_hw (word_of_int offset) True instr;
     Some instr
   }"

definition load16s_gpr64_gpr64_plus_gpr64_plus_s32 ::
  "Register \<Rightarrow> Register \<Rightarrow> Register \<Rightarrow> int \<Rightarrow> Instruction option" where
  "load16s_gpr64_gpr64_plus_gpr64_plus_s32 dst addr1 addr2 offset = do {
     assert_opt (is_gpr dst);
     assert_opt (is_gpr addr1);
     assert_opt (is_gpr addr2);
     assert_opt (addr1 \<noteq> addr2);
     assert_opt (addr1 \<noteq> Reg RSP);
     assert_opt (addr2 \<noteq> Reg RSP);
     assert_opt (fits_s32 offset);
     let instr = mk_Instruction 0xf;
     let instr = set_op2 0xbf instr;
     dst_hw \<leftarrow> hw_u8 dst;
     addr1_hw \<leftarrow> hw_u8 addr1;
     addr2_hw \<leftarrow> hw_u8 addr2;
     instr \<leftarrow> set_modrm_and_rex_for_reg_plus_reg_plus_s32
              dst_hw addr1_hw addr2_hw (word_of_int offset) True instr;
     Some instr
   }"

definition load16u_gpr64_gpr64_plus_gpr64 ::
  "Register \<Rightarrow> Register \<Rightarrow> Register \<Rightarrow> Instruction option" where
  "load16u_gpr64_gpr64_plus_gpr64 dst addr1 addr2 = do {
     assert_opt (is_gpr dst);
     assert_opt (is_gpr addr1);
     assert_opt (is_gpr addr2);
     assert_opt (addr1 \<noteq> addr2);
     assert_opt (addr1 \<noteq> Reg RSP);
     assert_opt (addr2 \<noteq> Reg RSP);
     let instr = mk_Instruction 0xf;
     let instr = set_op2 0xb7 instr;
     dst_hw \<leftarrow> hw_u8 dst;
     addr1_hw \<leftarrow> hw_u8 addr1;
     addr2_hw \<leftarrow> hw_u8 addr2;
     instr \<leftarrow> set_modrm_and_rex_for_reg_plus_reg_addr dst_hw addr1_hw addr2_hw True False instr;
     Some instr
   }"

definition load16u_gpr64_gpr64_plus_gpr64_plus_s8 ::
  "Register \<Rightarrow> Register \<Rightarrow> Register \<Rightarrow> int \<Rightarrow> Instruction option" where
  "load16u_gpr64_gpr64_plus_gpr64_plus_s8 dst addr1 addr2 offset = do {
     assert_opt (is_gpr dst);
     assert_opt (is_gpr addr1);
     assert_opt (is_gpr addr2);
     assert_opt (addr1 \<noteq> addr2);
     assert_opt (addr1 \<noteq> Reg RSP);
     assert_opt (addr2 \<noteq> Reg RSP);
     assert_opt (fits_s8 offset);
     let instr = mk_Instruction 0xf;
     let instr = set_op2 0xb7 instr;
     dst_hw \<leftarrow> hw_u8 dst;
     addr1_hw \<leftarrow> hw_u8 addr1;
     addr2_hw \<leftarrow> hw_u8 addr2;
     instr \<leftarrow> set_modrm_and_rex_for_reg_plus_reg_plus_s8
              dst_hw addr1_hw addr2_hw (word_of_int offset) True instr;
     Some instr
   }"

definition load16u_gpr64_gpr64_plus_gpr64_plus_s32 ::
  "Register \<Rightarrow> Register \<Rightarrow> Register \<Rightarrow> int \<Rightarrow> Instruction option" where
  "load16u_gpr64_gpr64_plus_gpr64_plus_s32 dst addr1 addr2 offset = do {
     assert_opt (is_gpr dst);
     assert_opt (is_gpr addr1);
     assert_opt (is_gpr addr2);
     assert_opt (addr1 \<noteq> addr2);
     assert_opt (addr1 \<noteq> Reg RSP);
     assert_opt (addr2 \<noteq> Reg RSP);
     assert_opt (fits_s32 offset);
     let instr = mk_Instruction 0xf;
     let instr = set_op2 0xb7 instr;
     dst_hw \<leftarrow> hw_u8 dst;
     addr1_hw \<leftarrow> hw_u8 addr1;
     addr2_hw \<leftarrow> hw_u8 addr2;
     instr \<leftarrow> set_modrm_and_rex_for_reg_plus_reg_plus_s32
              dst_hw addr1_hw addr2_hw (word_of_int offset) True instr;
     Some instr
   }"

definition load32s_gpr64_gpr64_plus_gpr64 ::
  "Register \<Rightarrow> Register \<Rightarrow> Register \<Rightarrow> Instruction option" where
  "load32s_gpr64_gpr64_plus_gpr64 dst addr1 addr2 = do {
     assert_opt (is_gpr dst);
     assert_opt (is_gpr addr1);
     assert_opt (is_gpr addr2);
     assert_opt (addr1 \<noteq> addr2);
     assert_opt (addr1 \<noteq> Reg RSP);
     assert_opt (addr2 \<noteq> Reg RSP);
     let instr = mk_Instruction 0x63;
     dst_hw \<leftarrow> hw_u8 dst;
     addr1_hw \<leftarrow> hw_u8 addr1;
     addr2_hw \<leftarrow> hw_u8 addr2;
     instr \<leftarrow> set_modrm_and_rex_for_reg_plus_reg_addr dst_hw addr1_hw addr2_hw True False instr;
     Some instr
   }"

definition store32_gpr64_gpr64_plus_gpr64 ::
  "Register \<Rightarrow> Register \<Rightarrow> Register \<Rightarrow> Instruction option" where
  "store32_gpr64_gpr64_plus_gpr64 addr1 addr2 value = do {
     assert_opt (is_gpr value);
     assert_opt (is_gpr addr1);
     assert_opt (is_gpr addr2);
     assert_opt (addr1 \<noteq> addr2);
     assert_opt (addr1 \<noteq> Reg RSP);
     assert_opt (addr2 \<noteq> Reg RSP);
     let instr = mk_Instruction 0x89;
     value_hw \<leftarrow> hw_u8 value;
     addr1_hw \<leftarrow> hw_u8 addr1;
     addr2_hw \<leftarrow> hw_u8 addr2;
     instr \<leftarrow> set_modrm_and_rex_for_reg_plus_reg_addr value_hw addr1_hw addr2_hw False False instr;
     Some instr
   }"

definition load32s_gpr64_gpr64_plus_gpr64_plus_s8 ::
  "Register \<Rightarrow> Register \<Rightarrow> Register \<Rightarrow> int \<Rightarrow> Instruction option" where
  "load32s_gpr64_gpr64_plus_gpr64_plus_s8 dst addr1 addr2 offset = do {
     assert_opt (is_gpr dst);
     assert_opt (is_gpr addr1);
     assert_opt (is_gpr addr2);
     assert_opt (addr1 \<noteq> addr2);
     assert_opt (addr1 \<noteq> Reg RSP);
     assert_opt (addr2 \<noteq> Reg RSP);
     assert_opt (fits_s8 offset);
     let instr = mk_Instruction 0x63;
     dst_hw \<leftarrow> hw_u8 dst;
     addr1_hw \<leftarrow> hw_u8 addr1;
     addr2_hw \<leftarrow> hw_u8 addr2;
     instr \<leftarrow> set_modrm_and_rex_for_reg_plus_reg_plus_s8
              dst_hw addr1_hw addr2_hw (word_of_int offset) True instr;
     Some instr
   }"

definition store32_gpr64_gpr64_plus_gpr64_plus_s8 ::
  "Register \<Rightarrow> Register \<Rightarrow> Register \<Rightarrow> int \<Rightarrow> Instruction option" where
  "store32_gpr64_gpr64_plus_gpr64_plus_s8 addr1 addr2 value offset = do {
     assert_opt (is_gpr value);
     assert_opt (is_gpr addr1);
     assert_opt (is_gpr addr2);
     assert_opt (addr1 \<noteq> addr2);
     assert_opt (addr1 \<noteq> Reg RSP);
     assert_opt (addr2 \<noteq> Reg RSP);
     assert_opt (fits_s8 offset);
     let instr = mk_Instruction 0x89;
     value_hw \<leftarrow> hw_u8 value;
     addr1_hw \<leftarrow> hw_u8 addr1;
     addr2_hw \<leftarrow> hw_u8 addr2;
     instr \<leftarrow> set_modrm_and_rex_for_reg_plus_reg_plus_s8
              value_hw addr1_hw addr2_hw (word_of_int offset) False instr;
     Some instr
   }"

definition load32s_gpr64_gpr64_plus_gpr64_plus_s32 ::
  "Register \<Rightarrow> Register \<Rightarrow> Register \<Rightarrow> int \<Rightarrow> Instruction option" where
  "load32s_gpr64_gpr64_plus_gpr64_plus_s32 dst addr1 addr2 offset = do {
     assert_opt (is_gpr dst);
     assert_opt (is_gpr addr1);
     assert_opt (is_gpr addr2);
     assert_opt (addr1 \<noteq> addr2);
     assert_opt (addr1 \<noteq> Reg RSP);
     assert_opt (addr2 \<noteq> Reg RSP);
     assert_opt (fits_s32 offset);
     let instr = mk_Instruction 0x63;
     dst_hw \<leftarrow> hw_u8 dst;
     addr1_hw \<leftarrow> hw_u8 addr1;
     addr2_hw \<leftarrow> hw_u8 addr2;
     instr \<leftarrow> set_modrm_and_rex_for_reg_plus_reg_plus_s32
              dst_hw addr1_hw addr2_hw (word_of_int offset) True instr;
     Some instr
   }"

definition store32_gpr64_gpr64_plus_gpr64_plus_s32 ::
  "Register \<Rightarrow> Register \<Rightarrow> Register \<Rightarrow> int \<Rightarrow> Instruction option" where
  "store32_gpr64_gpr64_plus_gpr64_plus_s32 addr1 addr2 value offset = do {
     assert_opt (is_gpr value);
     assert_opt (is_gpr addr1);
     assert_opt (is_gpr addr2);
     assert_opt (addr1 \<noteq> addr2);
     assert_opt (addr1 \<noteq> Reg RSP);
     assert_opt (addr2 \<noteq> Reg RSP);
     assert_opt (fits_s32 offset);
     let instr = mk_Instruction 0x89;
     value_hw \<leftarrow> hw_u8 value;
     addr1_hw \<leftarrow> hw_u8 addr1;
     addr2_hw \<leftarrow> hw_u8 addr2;
     instr \<leftarrow> set_modrm_and_rex_for_reg_plus_reg_plus_s32
              value_hw addr1_hw addr2_hw (word_of_int offset) False instr;
     Some instr
   }"

definition load32u_gpr64_gpr64_plus_gpr64 ::
  "Register \<Rightarrow> Register \<Rightarrow> Register \<Rightarrow> Instruction option" where
  "load32u_gpr64_gpr64_plus_gpr64 dst addr1 addr2 = do {
     assert_opt (is_gpr dst);
     assert_opt (is_gpr addr1);
     assert_opt (is_gpr addr2);
     assert_opt (addr1 \<noteq> addr2);
     assert_opt (addr1 \<noteq> Reg RSP);
     assert_opt (addr2 \<noteq> Reg RSP);
     let instr = mk_Instruction 0x8b;
     dst_hw \<leftarrow> hw_u8 dst;
     addr1_hw \<leftarrow> hw_u8 addr1;
     addr2_hw \<leftarrow> hw_u8 addr2;
     instr \<leftarrow> set_modrm_and_rex_for_reg_plus_reg_addr dst_hw addr1_hw addr2_hw False False instr;
     Some instr
   }"

definition load32u_gpr64_gpr64_plus_gpr64_plus_s8 ::
  "Register \<Rightarrow> Register \<Rightarrow> Register \<Rightarrow> int \<Rightarrow> Instruction option" where
  "load32u_gpr64_gpr64_plus_gpr64_plus_s8 dst addr1 addr2 offset = do {
     assert_opt (is_gpr dst);
     assert_opt (is_gpr addr1);
     assert_opt (is_gpr addr2);
     assert_opt (addr1 \<noteq> addr2);
     assert_opt (addr1 \<noteq> Reg RSP);
     assert_opt (addr2 \<noteq> Reg RSP);
     assert_opt (fits_s8 offset);
     let instr = mk_Instruction 0x8b;
     dst_hw \<leftarrow> hw_u8 dst;
     addr1_hw \<leftarrow> hw_u8 addr1;
     addr2_hw \<leftarrow> hw_u8 addr2;
     instr \<leftarrow> set_modrm_and_rex_for_reg_plus_reg_plus_s8
              dst_hw addr1_hw addr2_hw (word_of_int offset) False instr;
     Some instr
   }"

definition load32u_gpr64_gpr64_plus_gpr64_plus_s32 ::
  "Register \<Rightarrow> Register \<Rightarrow> Register \<Rightarrow> int \<Rightarrow> Instruction option" where
  "load32u_gpr64_gpr64_plus_gpr64_plus_s32 dst addr1 addr2 offset = do {
     assert_opt (is_gpr dst);
     assert_opt (is_gpr addr1);
     assert_opt (is_gpr addr2);
     assert_opt (addr1 \<noteq> addr2);
     assert_opt (addr1 \<noteq> Reg RSP);
     assert_opt (addr2 \<noteq> Reg RSP);
     assert_opt (fits_s32 offset);
     let instr = mk_Instruction 0x8b;
     dst_hw \<leftarrow> hw_u8 dst;
     addr1_hw \<leftarrow> hw_u8 addr1;
     addr2_hw \<leftarrow> hw_u8 addr2;
     instr \<leftarrow> set_modrm_and_rex_for_reg_plus_reg_plus_s32
              dst_hw addr1_hw addr2_hw (word_of_int offset) False instr;
     Some instr
   }"

definition load64_gpr64_gpr64_plus_gpr64 ::
  "Register \<Rightarrow> Register \<Rightarrow> Register \<Rightarrow> Instruction option" where
  "load64_gpr64_gpr64_plus_gpr64 dst addr1 addr2 = do {
     assert_opt (is_gpr dst);
     assert_opt (is_gpr addr1);
     assert_opt (is_gpr addr2);
     assert_opt (addr1 \<noteq> addr2);
     assert_opt (addr1 \<noteq> Reg RSP);
     assert_opt (addr2 \<noteq> Reg RSP);
     let instr = mk_Instruction 0x8b;
     dst_hw \<leftarrow> hw_u8 dst;
     addr1_hw \<leftarrow> hw_u8 addr1;
     addr2_hw \<leftarrow> hw_u8 addr2;
     instr \<leftarrow> set_modrm_and_rex_for_reg_plus_reg_addr dst_hw addr1_hw addr2_hw True False instr;
     Some instr
   }"

definition store64_gpr64_gpr64_plus_gpr64 ::
  "Register \<Rightarrow> Register \<Rightarrow> Register \<Rightarrow> Instruction option" where
  "store64_gpr64_gpr64_plus_gpr64 addr1 addr2 value = do {
     assert_opt (is_gpr value);
     assert_opt (is_gpr addr1);
     assert_opt (is_gpr addr2);
     assert_opt (addr1 \<noteq> addr2);
     assert_opt (addr1 \<noteq> Reg RSP);
     assert_opt (addr2 \<noteq> Reg RSP);
     let instr = mk_Instruction 0x89;
     value_hw \<leftarrow> hw_u8 value;
     addr1_hw \<leftarrow> hw_u8 addr1;
     addr2_hw \<leftarrow> hw_u8 addr2;
     instr \<leftarrow> set_modrm_and_rex_for_reg_plus_reg_addr value_hw addr1_hw addr2_hw True False instr;
     Some instr
   }"

definition load64_gpr64_gpr64_plus_gpr64_plus_s8 ::
  "Register \<Rightarrow> Register \<Rightarrow> Register \<Rightarrow> int \<Rightarrow> Instruction option" where
  "load64_gpr64_gpr64_plus_gpr64_plus_s8 dst addr1 addr2 offset = do {
     assert_opt (is_gpr dst);
     assert_opt (is_gpr addr1);
     assert_opt (is_gpr addr2);
     assert_opt (addr1 \<noteq> addr2);
     assert_opt (addr1 \<noteq> Reg RSP);
     assert_opt (addr2 \<noteq> Reg RSP);
     assert_opt (fits_s8 offset);
     let instr = mk_Instruction 0x8b;
     dst_hw \<leftarrow> hw_u8 dst;
     addr1_hw \<leftarrow> hw_u8 addr1;
     addr2_hw \<leftarrow> hw_u8 addr2;
     instr \<leftarrow> set_modrm_and_rex_for_reg_plus_reg_plus_s8
              dst_hw addr1_hw addr2_hw (word_of_int offset) True instr;
     Some instr
   }"

definition store64_gpr64_gpr64_plus_gpr64_plus_s8 ::
  "Register \<Rightarrow> Register \<Rightarrow> Register \<Rightarrow> int \<Rightarrow> Instruction option" where
  "store64_gpr64_gpr64_plus_gpr64_plus_s8 addr1 addr2 value offset = do {
     assert_opt (is_gpr value);
     assert_opt (is_gpr addr1);
     assert_opt (is_gpr addr2);
     assert_opt (addr1 \<noteq> addr2);
     assert_opt (addr1 \<noteq> Reg RSP);
     assert_opt (addr2 \<noteq> Reg RSP);
     assert_opt (fits_s8 offset);
     let instr = mk_Instruction 0x89;
     value_hw \<leftarrow> hw_u8 value;
     addr1_hw \<leftarrow> hw_u8 addr1;
     addr2_hw \<leftarrow> hw_u8 addr2;
     instr \<leftarrow> set_modrm_and_rex_for_reg_plus_reg_plus_s8
              value_hw addr1_hw addr2_hw (word_of_int offset) True instr;
     Some instr
   }"

definition load64_gpr64_gpr64_plus_gpr64_plus_s32 ::
  "Register \<Rightarrow> Register \<Rightarrow> Register \<Rightarrow> int \<Rightarrow> Instruction option" where
  "load64_gpr64_gpr64_plus_gpr64_plus_s32 dst addr1 addr2 offset = do {
     assert_opt (is_gpr dst);
     assert_opt (is_gpr addr1);
     assert_opt (is_gpr addr2);
     assert_opt (addr1 \<noteq> addr2);
     assert_opt (addr1 \<noteq> Reg RSP);
     assert_opt (addr2 \<noteq> Reg RSP);
     assert_opt (fits_s32 offset);
     let instr = mk_Instruction 0x8b;
     dst_hw \<leftarrow> hw_u8 dst;
     addr1_hw \<leftarrow> hw_u8 addr1;
     addr2_hw \<leftarrow> hw_u8 addr2;
     instr \<leftarrow> set_modrm_and_rex_for_reg_plus_reg_plus_s32
              dst_hw addr1_hw addr2_hw (word_of_int offset) True instr;
     Some instr
   }"

definition store64_gpr64_gpr64_plus_gpr64_plus_s32 ::
  "Register \<Rightarrow> Register \<Rightarrow> Register \<Rightarrow> int \<Rightarrow> Instruction option" where
  "store64_gpr64_gpr64_plus_gpr64_plus_s32 addr1 addr2 value offset = do {
     assert_opt (is_gpr value);
     assert_opt (is_gpr addr1);
     assert_opt (is_gpr addr2);
     assert_opt (addr1 \<noteq> addr2);
     assert_opt (addr1 \<noteq> Reg RSP);
     assert_opt (addr2 \<noteq> Reg RSP);
     assert_opt (fits_s32 offset);
     let instr = mk_Instruction 0x89;
     value_hw \<leftarrow> hw_u8 value;
     addr1_hw \<leftarrow> hw_u8 addr1;
     addr2_hw \<leftarrow> hw_u8 addr2;
     instr \<leftarrow> set_modrm_and_rex_for_reg_plus_reg_plus_s32
              value_hw addr1_hw addr2_hw (word_of_int offset) True instr;
     Some instr
   }"

definition store_goal_gpr ::
  "Register \<Rightarrow> Register \<Rightarrow> Register \<Rightarrow> int \<Rightarrow> int \<Rightarrow> Instruction option" where
  "store_goal_gpr addr value off offset sz =
    (if sz = 1 then
       (if offset = 0 then store8_gpr64_gpr64_plus_gpr64 addr off value
        else if fits_s8 offset then store8_gpr64_gpr64_plus_gpr64_plus_s8 addr off value offset
        else if fits_s32 offset then store8_gpr64_gpr64_plus_gpr64_plus_s32 addr off value offset
        else None)
     else if sz = 2 then
       (if offset = 0 then store16_gpr64_gpr64_plus_gpr64 addr off value
        else if fits_s8 offset then store16_gpr64_gpr64_plus_gpr64_plus_s8 addr off value offset
        else if fits_s32 offset then store16_gpr64_gpr64_plus_gpr64_plus_s32 addr off value offset
        else None)
     else if sz = 4 then
       (if offset = 0 then store32_gpr64_gpr64_plus_gpr64 addr off value
        else if fits_s8 offset then store32_gpr64_gpr64_plus_gpr64_plus_s8 addr off value offset
        else if fits_s32 offset then store32_gpr64_gpr64_plus_gpr64_plus_s32 addr off value offset
        else None)
     else if sz = 8 then
       (if offset = 0 then store64_gpr64_gpr64_plus_gpr64 addr off value
        else if fits_s8 offset then store64_gpr64_gpr64_plus_gpr64_plus_s8 addr off value offset
        else if fits_s32 offset then store64_gpr64_gpr64_plus_gpr64_plus_s32 addr off value offset
        else None)
     else None)"

definition load_goal_gpr ::
  "Register \<Rightarrow> Register \<Rightarrow> Register \<Rightarrow> int \<Rightarrow> int \<Rightarrow> bool \<Rightarrow> Instruction option" where
  "load_goal_gpr dst addr off offset sz sign_extend =
    (if sz = 1 then
       (if offset = 0 then
          (if sign_extend then load8s_gpr64_gpr64_plus_gpr64 dst addr off
           else load8u_gpr64_gpr64_plus_gpr64 dst addr off)
        else if fits_s8 offset then
          (if sign_extend then load8s_gpr64_gpr64_plus_gpr64_plus_s8 dst addr off offset
           else load8u_gpr64_gpr64_plus_gpr64_plus_s8 dst addr off offset)
        else if fits_s32 offset then
          (if sign_extend then load8s_gpr64_gpr64_plus_gpr64_plus_s32 dst addr off offset
           else load8u_gpr64_gpr64_plus_gpr64_plus_s32 dst addr off offset)
        else None)
     else if sz = 2 then
       (if offset = 0 then
          (if sign_extend then load16s_gpr64_gpr64_plus_gpr64 dst addr off
           else load16u_gpr64_gpr64_plus_gpr64 dst addr off)
        else if fits_s8 offset then
          (if sign_extend then load16s_gpr64_gpr64_plus_gpr64_plus_s8 dst addr off offset
           else load16u_gpr64_gpr64_plus_gpr64_plus_s8 dst addr off offset)
        else if fits_s32 offset then
          (if sign_extend then load16s_gpr64_gpr64_plus_gpr64_plus_s32 dst addr off offset
           else load16u_gpr64_gpr64_plus_gpr64_plus_s32 dst addr off offset)
        else None)
     else if sz = 4 then
       (if offset = 0 then
          (if sign_extend then load32s_gpr64_gpr64_plus_gpr64 dst addr off
           else load32u_gpr64_gpr64_plus_gpr64 dst addr off)
        else if fits_s8 offset then
          (if sign_extend then load32s_gpr64_gpr64_plus_gpr64_plus_s8 dst addr off offset
           else load32u_gpr64_gpr64_plus_gpr64_plus_s8 dst addr off offset)
        else if fits_s32 offset then
          (if sign_extend then load32s_gpr64_gpr64_plus_gpr64_plus_s32 dst addr off offset
           else load32u_gpr64_gpr64_plus_gpr64_plus_s32 dst addr off offset)
        else None)
     else if sz = 8 then
       (if offset = 0 then load64_gpr64_gpr64_plus_gpr64 dst addr off
        else if fits_s8 offset then load64_gpr64_gpr64_plus_gpr64_plus_s8 dst addr off offset
        else if fits_s32 offset then load64_gpr64_gpr64_plus_gpr64_plus_s32 dst addr off offset
        else None)
     else None)"

section \<open>XMM32 loads and stores\<close>

definition store32_xmm32_gpr64_plus_gpr64 ::
  "Register \<Rightarrow> Register \<Rightarrow> Register \<Rightarrow> Instruction option" where
  "store32_xmm32_gpr64_plus_gpr64 addr1 addr2 xmm_value = do {
     assert_opt (is_xmm xmm_value);
     assert_opt (is_gpr addr1);
     assert_opt (is_gpr addr2);
     let instr = mk_Instruction 0xf3;
     let instr = set_op2 0x0f instr;
     let instr = set_op3 0x11 instr;
     xmm_value_hw \<leftarrow> hw_u8 xmm_value;
     addr1_hw \<leftarrow> hw_u8 addr1;
     addr2_hw \<leftarrow> hw_u8 addr2;
     instr \<leftarrow> set_modrm_and_rex_for_reg_plus_reg_addr
              xmm_value_hw addr1_hw addr2_hw False False instr;
     let instr = swap_op0_rex instr;
     Some instr
   }"

definition load32_xmm32_gpr64_plus_gpr64 ::
  "Register \<Rightarrow> Register \<Rightarrow> Register \<Rightarrow> Instruction option" where
  "load32_xmm32_gpr64_plus_gpr64 xmm_dest addr1 addr2 = do {
     assert_opt (is_xmm xmm_dest);
     assert_opt (is_gpr addr1);
     assert_opt (is_gpr addr2);
     let instr = mk_Instruction 0xf3;
     let instr = set_op2 0x0f instr;
     let instr = set_op3 0x10 instr;
     xmm_dest_hw \<leftarrow> hw_u8 xmm_dest;
     addr1_hw \<leftarrow> hw_u8 addr1;
     addr2_hw \<leftarrow> hw_u8 addr2;
     instr \<leftarrow> set_modrm_and_rex_for_reg_plus_reg_addr
              xmm_dest_hw addr1_hw addr2_hw False False instr;
     let instr = swap_op0_rex instr;
     Some instr
   }"

definition store32_xmm32_gpr64_plus_gpr64_plus_s8 ::
  "Register \<Rightarrow> Register \<Rightarrow> Register \<Rightarrow> int \<Rightarrow> Instruction option" where
  "store32_xmm32_gpr64_plus_gpr64_plus_s8 addr1 addr2 xmm_value offset = do {
     assert_opt (is_xmm xmm_value);
     assert_opt (is_gpr addr1);
     assert_opt (is_gpr addr2);
     assert_opt (fits_s8 offset);
     let instr = mk_Instruction 0xf3;
     let instr = set_op2 0x0f instr;
     let instr = set_op3 0x11 instr;
     xmm_value_hw \<leftarrow> hw_u8 xmm_value;
     addr1_hw \<leftarrow> hw_u8 addr1;
     addr2_hw \<leftarrow> hw_u8 addr2;
     instr \<leftarrow> set_modrm_and_rex_for_reg_plus_reg_plus_s8
              xmm_value_hw addr1_hw addr2_hw (word_of_int offset) False instr;
     let instr = swap_op0_rex instr;
     Some instr
   }"

definition load32_xmm32_gpr64_plus_gpr64_plus_s8 ::
  "Register \<Rightarrow> Register \<Rightarrow> Register \<Rightarrow> int \<Rightarrow> Instruction option" where
  "load32_xmm32_gpr64_plus_gpr64_plus_s8 xmm_dest addr1 addr2 offset = do {
     assert_opt (is_xmm xmm_dest);
     assert_opt (is_gpr addr1);
     assert_opt (is_gpr addr2);
     assert_opt (fits_s8 offset);
     let instr = mk_Instruction 0xf3;
     let instr = set_op2 0x0f instr;
     let instr = set_op3 0x10 instr;
     xmm_dest_hw \<leftarrow> hw_u8 xmm_dest;
     addr1_hw \<leftarrow> hw_u8 addr1;
     addr2_hw \<leftarrow> hw_u8 addr2;
     instr \<leftarrow> set_modrm_and_rex_for_reg_plus_reg_plus_s8
              xmm_dest_hw addr1_hw addr2_hw (word_of_int offset) False instr;
     let instr = swap_op0_rex instr;
     Some instr
   }"

definition store32_xmm32_gpr64_plus_gpr64_plus_s32 ::
  "Register \<Rightarrow> Register \<Rightarrow> Register \<Rightarrow> int \<Rightarrow> Instruction option" where
  "store32_xmm32_gpr64_plus_gpr64_plus_s32 addr1 addr2 xmm_value offset = do {
     assert_opt (is_xmm xmm_value);
     assert_opt (is_gpr addr1);
     assert_opt (is_gpr addr2);
     assert_opt (fits_s32 offset);
     let instr = mk_Instruction 0xf3;
     let instr = set_op2 0x0f instr;
     let instr = set_op3 0x11 instr;
     xmm_value_hw \<leftarrow> hw_u8 xmm_value;
     addr1_hw \<leftarrow> hw_u8 addr1;
     addr2_hw \<leftarrow> hw_u8 addr2;
     instr \<leftarrow> set_modrm_and_rex_for_reg_plus_reg_plus_s32
              xmm_value_hw addr1_hw addr2_hw (word_of_int offset) False instr;
     let instr = swap_op0_rex instr;
     Some instr
   }"

definition lea_reg_plus_off32 ::
  "Register \<Rightarrow> Register \<Rightarrow> int \<Rightarrow> Instruction option" where
  "lea_reg_plus_off32 dest base offset = do {
     assert_opt (is_gpr dest);
     assert_opt (is_gpr base);
     assert_opt (fits_s32 offset);
     let instr = mk_Instruction 0x8d;
     dest_hw \<leftarrow> hw_u8 dest;
     base_hw \<leftarrow> hw_u8 base;
     let instr = set_modrm_rex_sib_for_reg_reg_disp dest_hw 2 base_hw True instr;
     let instr = put_imm (mk_Imm 4 (word_of_int offset)) instr;
     Some instr
   }"

definition lea_reg_plus_off8 ::
  "Register \<Rightarrow> Register \<Rightarrow> int \<Rightarrow> Instruction option" where
  "lea_reg_plus_off8 dest base offset = do {
     assert_opt (is_gpr dest);
     assert_opt (is_gpr base);
     assert_opt (fits_s8 offset);
     let instr = mk_Instruction 0x8d;
     dest_hw \<leftarrow> hw_u8 dest;
     base_hw \<leftarrow> hw_u8 base;
     let instr = set_modrm_rex_sib_for_reg_reg_disp dest_hw 1 base_hw True instr;
     let instr = put_imm (mk_Imm 1 (word_of_int offset)) instr;
     Some instr
   }"

definition lea_reg_plus_off :: "Register \<Rightarrow> Register \<Rightarrow> int \<Rightarrow> Instruction option" where
  "lea_reg_plus_off dest base offset =
    (if fits_s8 offset then lea_reg_plus_off8 dest base offset
     else if fits_s32 offset then lea_reg_plus_off32 dest base offset
     else None)"

definition store32_xmm32_gpr64_plus_s32 ::
  "Register \<Rightarrow> Register \<Rightarrow> int \<Rightarrow> Instruction option" where
  "store32_xmm32_gpr64_plus_s32 base xmm_value offset = do {
     assert_opt (is_xmm xmm_value);
     assert_opt (is_gpr base);
     assert_opt (fits_s32 offset);
     let instr = mk_Instruction 0xf3;
     let instr = set_op2 0x0f instr;
     let instr = set_op3 0x11 instr;
     xmm_value_hw \<leftarrow> hw_u8 xmm_value;
     base_hw \<leftarrow> hw_u8 base;
     let instr = set_modrm_rex_sib_for_reg_reg_disp xmm_value_hw 2 base_hw False instr;
     let instr = put_imm (mk_Imm 4 (word_of_int offset)) instr;
     let instr = swap_op0_rex instr;
     Some instr
   }"

definition store32_xmm32_gpr64_plus_s8 ::
  "Register \<Rightarrow> Register \<Rightarrow> int \<Rightarrow> Instruction option" where
  "store32_xmm32_gpr64_plus_s8 base xmm_value offset = do {
     assert_opt (is_xmm xmm_value);
     assert_opt (is_gpr base);
     assert_opt (fits_s8 offset);
     let instr = mk_Instruction 0xf3;
     let instr = set_op2 0x0f instr;
     let instr = set_op3 0x11 instr;
     xmm_value_hw \<leftarrow> hw_u8 xmm_value;
     base_hw \<leftarrow> hw_u8 base;
     let instr = set_modrm_rex_sib_for_reg_reg_disp xmm_value_hw 1 base_hw False instr;
     let instr = put_imm (mk_Imm 1 (word_of_int offset)) instr;
     let instr = swap_op0_rex instr;
     Some instr
   }"

definition load32_xmm32_gpr64_plus_gpr64_plus_s32 ::
  "Register \<Rightarrow> Register \<Rightarrow> Register \<Rightarrow> int \<Rightarrow> Instruction option" where
  "load32_xmm32_gpr64_plus_gpr64_plus_s32 xmm_dest addr1 addr2 offset = do {
     assert_opt (is_xmm xmm_dest);
     assert_opt (is_gpr addr1);
     assert_opt (is_gpr addr2);
     assert_opt (fits_s32 offset);
     let instr = mk_Instruction 0xf3;
     let instr = set_op2 0x0f instr;
     let instr = set_op3 0x10 instr;
     xmm_dest_hw \<leftarrow> hw_u8 xmm_dest;
     addr1_hw \<leftarrow> hw_u8 addr1;
     addr2_hw \<leftarrow> hw_u8 addr2;
     instr \<leftarrow> set_modrm_and_rex_for_reg_plus_reg_plus_s32
              xmm_dest_hw addr1_hw addr2_hw (word_of_int offset) False instr;
     let instr = swap_op0_rex instr;
     Some instr
   }"

definition load32_xmm32_gpr64_plus_s32 ::
  "Register \<Rightarrow> Register \<Rightarrow> int \<Rightarrow> Instruction option" where
  "load32_xmm32_gpr64_plus_s32 xmm_dest base offset = do {
     assert_opt (is_xmm xmm_dest);
     assert_opt (is_gpr base);
     assert_opt (fits_s32 offset);
     let instr = mk_Instruction 0xf3;
     let instr = set_op2 0x0f instr;
     let instr = set_op3 0x10 instr;
     xmm_dest_hw \<leftarrow> hw_u8 xmm_dest;
     base_hw \<leftarrow> hw_u8 base;
     let instr = set_modrm_rex_sib_for_reg_reg_disp xmm_dest_hw 2 base_hw False instr;
     let instr = put_imm (mk_Imm 4 (word_of_int offset)) instr;
     let instr = swap_op0_rex instr;
     Some instr
   }"

definition load32_xmm32_gpr64_plus_s8 ::
  "Register \<Rightarrow> Register \<Rightarrow> int \<Rightarrow> Instruction option" where
  "load32_xmm32_gpr64_plus_s8 xmm_dest base offset = do {
     assert_opt (is_xmm xmm_dest);
     assert_opt (is_gpr base);
     assert_opt (fits_s8 offset);
     let instr = mk_Instruction 0xf3;
     let instr = set_op2 0x0f instr;
     let instr = set_op3 0x10 instr;
     xmm_dest_hw \<leftarrow> hw_u8 xmm_dest;
     base_hw \<leftarrow> hw_u8 base;
     let instr = set_modrm_rex_sib_for_reg_reg_disp xmm_dest_hw 1 base_hw False instr;
     let instr = put_imm (mk_Imm 1 (word_of_int offset)) instr;
     let instr = swap_op0_rex instr;
     Some instr
   }"

definition load_goal_xmm32 ::
  "Register \<Rightarrow> Register \<Rightarrow> Register \<Rightarrow> int \<Rightarrow> Instruction option" where
  "load_goal_xmm32 xmm_dest addr off offset =
    (if offset = 0 then load32_xmm32_gpr64_plus_gpr64 xmm_dest addr off
     else if fits_s8 offset then load32_xmm32_gpr64_plus_gpr64_plus_s8 xmm_dest addr off offset
     else if fits_s32 offset then load32_xmm32_gpr64_plus_gpr64_plus_s32 xmm_dest addr off offset
     else None)"

definition store_goal_xmm32 ::
  "Register \<Rightarrow> Register \<Rightarrow> Register \<Rightarrow> int \<Rightarrow> Instruction option" where
  "store_goal_xmm32 addr xmm_value off offset =
    (if offset = 0 then store32_xmm32_gpr64_plus_gpr64 addr off xmm_value
     else if fits_s8 offset then store32_xmm32_gpr64_plus_gpr64_plus_s8 addr off xmm_value offset
     else if fits_s32 offset then store32_xmm32_gpr64_plus_gpr64_plus_s32 addr off xmm_value offset
     else None)"

definition store_reg_offset_xmm32 :: "Register \<Rightarrow> Register \<Rightarrow> int \<Rightarrow> Instruction option" where
  "store_reg_offset_xmm32 base xmm_value offset = do {
     assert_opt (is_gpr base);
     assert_opt (is_xmm xmm_value);
     if fits_s8 offset then store32_xmm32_gpr64_plus_s8 base xmm_value offset
     else if fits_s32 offset then store32_xmm32_gpr64_plus_s32 base xmm_value offset
     else None
   }"

definition load_reg_offset_xmm32 :: "Register \<Rightarrow> Register \<Rightarrow> int \<Rightarrow> Instruction option" where
  "load_reg_offset_xmm32 xmm_dest base offset = do {
     assert_opt (is_gpr base);
     assert_opt (is_xmm xmm_dest);
     if fits_s8 offset then load32_xmm32_gpr64_plus_s8 xmm_dest base offset
     else if fits_s32 offset then load32_xmm32_gpr64_plus_s32 xmm_dest base offset
     else None
   }"

section \<open>XMM128 loads and stores\<close>

definition store128_gpr64_xmm128 ::
  "Register \<Rightarrow> Register \<Rightarrow> Instruction option" where
  "store128_gpr64_xmm128 gpr_addr xmm_value = do {
     assert_opt (is_gpr gpr_addr);
     assert_opt (is_xmm xmm_value);
     let instr = mk_Instruction 0x66;
     let instr = set_op2 0x0f instr;
     let instr = set_op3 0x7f instr;
     xmm_value_hw \<leftarrow> hw_u8 xmm_value;
     gpr_addr_hw \<leftarrow> hw_u8 gpr_addr;
     let instr = set_modrm_and_rex_for_reg_addr xmm_value_hw gpr_addr_hw False instr;
     let instr = swap_op0_rex instr;
     Some instr
   }"

definition store128_gpr64_xmm128_s32 ::
  "Register \<Rightarrow> Register \<Rightarrow> int \<Rightarrow> Instruction option" where
  "store128_gpr64_xmm128_s32 gpr_addr xmm_value offset = do {
     assert_opt (is_gpr gpr_addr);
     assert_opt (is_xmm xmm_value);
     assert_opt (fits_s32 offset);
     let instr = mk_Instruction 0x66;
     let instr = set_op2 0x0f instr;
     let instr = set_op3 0x7f instr;
     xmm_value_hw \<leftarrow> hw_u8 xmm_value;
     gpr_addr_hw \<leftarrow> hw_u8 gpr_addr;
     let instr = set_modrm_rex_sib_for_reg_reg_disp xmm_value_hw 2 gpr_addr_hw False instr;
     let instr = put_imm (mk_Imm 4 (word_of_int offset)) instr;
     let instr = swap_op0_rex instr;
     Some instr
   }"

definition store128_gpr64_xmm128_s8 ::
  "Register \<Rightarrow> Register \<Rightarrow> int \<Rightarrow> Instruction option" where
  "store128_gpr64_xmm128_s8 gpr_addr xmm_value offset = do {
     assert_opt (is_gpr gpr_addr);
     assert_opt (is_xmm xmm_value);
     assert_opt (fits_s8 offset);
     let instr = mk_Instruction 0x66;
     let instr = set_op2 0x0f instr;
     let instr = set_op3 0x7f instr;
     xmm_value_hw \<leftarrow> hw_u8 xmm_value;
     gpr_addr_hw \<leftarrow> hw_u8 gpr_addr;
     let instr = set_modrm_rex_sib_for_reg_reg_disp xmm_value_hw 1 gpr_addr_hw False instr;
     let instr = put_imm (mk_Imm 1 (word_of_int offset)) instr;
     let instr = swap_op0_rex instr;
     Some instr
   }"

definition load128_xmm128_gpr64 ::
  "Register \<Rightarrow> Register \<Rightarrow> Instruction option" where
  "load128_xmm128_gpr64 xmm_dest gpr_addr = do {
     assert_opt (is_gpr gpr_addr);
     assert_opt (is_xmm xmm_dest);
     let instr = mk_Instruction 0x66;
     let instr = set_op2 0x0f instr;
     let instr = set_op3 0x6f instr;
     xmm_dest_hw \<leftarrow> hw_u8 xmm_dest;
     gpr_addr_hw \<leftarrow> hw_u8 gpr_addr;
     let instr = set_modrm_and_rex_for_reg_addr xmm_dest_hw gpr_addr_hw False instr;
     let instr = swap_op0_rex instr;
     Some instr
   }"

definition load128_xmm128_gpr64_s32 ::
  "Register \<Rightarrow> Register \<Rightarrow> int \<Rightarrow> Instruction option" where
  "load128_xmm128_gpr64_s32 xmm_dest gpr_addr offset = do {
     assert_opt (is_gpr gpr_addr);
     assert_opt (is_xmm xmm_dest);
     assert_opt (fits_s32 offset);
     let instr = mk_Instruction 0x66;
     let instr = set_op2 0x0f instr;
     let instr = set_op3 0x6f instr;
     xmm_dest_hw \<leftarrow> hw_u8 xmm_dest;
     gpr_addr_hw \<leftarrow> hw_u8 gpr_addr;
     let instr = set_modrm_rex_sib_for_reg_reg_disp xmm_dest_hw 2 gpr_addr_hw False instr;
     let instr = put_imm (mk_Imm 4 (word_of_int offset)) instr;
     let instr = swap_op0_rex instr;
     Some instr
   }"

definition load128_xmm128_gpr64_s8 ::
  "Register \<Rightarrow> Register \<Rightarrow> int \<Rightarrow> Instruction option" where
  "load128_xmm128_gpr64_s8 xmm_dest gpr_addr offset = do {
     assert_opt (is_gpr gpr_addr);
     assert_opt (is_xmm xmm_dest);
     assert_opt (fits_s8 offset);
     let instr = mk_Instruction 0x66;
     let instr = set_op2 0x0f instr;
     let instr = set_op3 0x6f instr;
     xmm_dest_hw \<leftarrow> hw_u8 xmm_dest;
     gpr_addr_hw \<leftarrow> hw_u8 gpr_addr;
     let instr = set_modrm_rex_sib_for_reg_reg_disp xmm_dest_hw 1 gpr_addr_hw False instr;
     let instr = put_imm (mk_Imm 1 (word_of_int offset)) instr;
     let instr = swap_op0_rex instr;
     Some instr
   }"

definition load128_xmm128_reg_offset ::
  "Register \<Rightarrow> Register \<Rightarrow> int \<Rightarrow> Instruction option" where
  "load128_xmm128_reg_offset xmm_dest base offset =
    (if offset = 0 then load128_xmm128_gpr64 xmm_dest base
     else if fits_s8 offset then load128_xmm128_gpr64_s8 xmm_dest base offset
     else if fits_s32 offset then load128_xmm128_gpr64_s32 xmm_dest base offset
     else None)"

definition store128_xmm128_reg_offset ::
  "Register \<Rightarrow> Register \<Rightarrow> int \<Rightarrow> Instruction option" where
  "store128_xmm128_reg_offset base xmm_val offset =
    (if offset = 0 then store128_gpr64_xmm128 base xmm_val
     else if fits_s8 offset then store128_gpr64_xmm128_s8 base xmm_val offset
     else if fits_s32 offset then store128_gpr64_xmm128_s32 base xmm_val offset
     else None)"

section \<open>RIP loads and stores\<close>

definition load64_rip_s32 :: "Register \<Rightarrow> int \<Rightarrow> Instruction option" where
  "load64_rip_s32 dest offset = do {
     assert_opt (is_gpr dest);
     assert_opt (fits_s32 offset);
     let instr = mk_Instruction 0x8b;
     dest_hw \<leftarrow> hw_u8 dest;
     let instr = set_modrm_and_rex_for_rip_plus_s32 dest_hw (word_of_int offset) True instr;
     Some instr
   }"

definition load32s_rip_s32 :: "Register \<Rightarrow> int \<Rightarrow> Instruction option" where
  "load32s_rip_s32 dest offset = do {
     assert_opt (is_gpr dest);
     assert_opt (fits_s32 offset);
     let instr = mk_Instruction 0x63;
     dest_hw \<leftarrow> hw_u8 dest;
     let instr = set_modrm_and_rex_for_rip_plus_s32 dest_hw (word_of_int offset) True instr;
     Some instr
   }"

definition load32u_rip_s32 :: "Register \<Rightarrow> int \<Rightarrow> Instruction option" where
  "load32u_rip_s32 dest offset = do {
     assert_opt (is_gpr dest);
     assert_opt (fits_s32 offset);
     let instr = mk_Instruction 0x8b;
     dest_hw \<leftarrow> hw_u8 dest;
     let instr = set_modrm_and_rex_for_rip_plus_s32 dest_hw (word_of_int offset) False instr;
     Some instr
   }"

definition load16u_rip_s32 :: "Register \<Rightarrow> int \<Rightarrow> Instruction option" where
  "load16u_rip_s32 dest offset = do {
     assert_opt (is_gpr dest);
     assert_opt (fits_s32 offset);
     let instr = mk_Instruction 0xf;
     let instr = set_op2 0xb7 instr;
     dest_hw \<leftarrow> hw_u8 dest;
     let instr = set_modrm_and_rex_for_rip_plus_s32 dest_hw (word_of_int offset) True instr;
     Some instr
   }"

definition load16s_rip_s32 :: "Register \<Rightarrow> int \<Rightarrow> Instruction option" where
  "load16s_rip_s32 dest offset = do {
     assert_opt (is_gpr dest);
     assert_opt (fits_s32 offset);
     let instr = mk_Instruction 0xf;
     let instr = set_op2 0xbf instr;
     dest_hw \<leftarrow> hw_u8 dest;
     let instr = set_modrm_and_rex_for_rip_plus_s32 dest_hw (word_of_int offset) True instr;
     Some instr
   }"

definition load8u_rip_s32 :: "Register \<Rightarrow> int \<Rightarrow> Instruction option" where
  "load8u_rip_s32 dest offset = do {
     assert_opt (is_gpr dest);
     assert_opt (fits_s32 offset);
     let instr = mk_Instruction 0xf;
     let instr = set_op2 0xb6 instr;
     dest_hw \<leftarrow> hw_u8 dest;
     let instr = set_modrm_and_rex_for_rip_plus_s32 dest_hw (word_of_int offset) True instr;
     Some instr
   }"

definition load8s_rip_s32 :: "Register \<Rightarrow> int \<Rightarrow> Instruction option" where
  "load8s_rip_s32 dest offset = do {
     assert_opt (is_gpr dest);
     assert_opt (fits_s32 offset);
     let instr = mk_Instruction 0xf;
     let instr = set_op2 0xbe instr;
     dest_hw \<leftarrow> hw_u8 dest;
     let instr = set_modrm_and_rex_for_rip_plus_s32 dest_hw (word_of_int offset) True instr;
     Some instr
   }"

definition static_load :: "Register \<Rightarrow> int \<Rightarrow> int \<Rightarrow> bool \<Rightarrow> Instruction option" where
  "static_load dest offset sz sign_extend =
    (if sz = 1 then (if sign_extend then load8s_rip_s32 dest offset else load8u_rip_s32 dest offset)
     else if sz = 2 then
       (if sign_extend then load16s_rip_s32 dest offset else load16u_rip_s32 dest offset)
     else if sz = 4 then
       (if sign_extend then load32s_rip_s32 dest offset else load32u_rip_s32 dest offset)
     else if sz = 8 then load64_rip_s32 dest offset
     else None)"

definition store64_rip_s32 :: "Register \<Rightarrow> int \<Rightarrow> Instruction option" where
  "store64_rip_s32 src offset = do {
     assert_opt (is_gpr src);
     assert_opt (fits_s32 offset);
     assert_opt (fits_s32 offset);
     let instr = mk_Instruction 0x89;
     src_hw \<leftarrow> hw_u8 src;
     let instr = set_modrm_and_rex_for_rip_plus_s32 src_hw (word_of_int offset) True instr;
     Some instr
   }"

definition store32_rip_s32 :: "Register \<Rightarrow> int \<Rightarrow> Instruction option" where
  "store32_rip_s32 src offset = do {
     assert_opt (is_gpr src);
     assert_opt (fits_s32 offset);
     assert_opt (fits_s32 offset);
     let instr = mk_Instruction 0x89;
     src_hw \<leftarrow> hw_u8 src;
     let instr = set_modrm_and_rex_for_rip_plus_s32 src_hw (word_of_int offset) False instr;
     Some instr
   }"

definition store16_rip_s32 :: "Register \<Rightarrow> int \<Rightarrow> Instruction option" where
  "store16_rip_s32 src offset = do {
     assert_opt (is_gpr src);
     assert_opt (fits_s32 offset);
     assert_opt (fits_s32 offset);
     let instr = mk_Instruction 0x66;
     let instr = set_op2 0x89 instr;
     src_hw \<leftarrow> hw_u8 src;
     let instr = set_modrm_and_rex_for_rip_plus_s32 src_hw (word_of_int offset) False instr;
     let instr = swap_op0_rex instr;
     Some instr
   }"

definition store8_rip_s32 :: "Register \<Rightarrow> int \<Rightarrow> Instruction option" where
  "store8_rip_s32 src offset = do {
     assert_opt (is_gpr src);
     assert_opt (fits_s32 offset);
     assert_opt (fits_s32 offset);
     let instr = mk_Instruction 0x88;
     src_hw \<leftarrow> hw_u8 src;
     let instr = set_modrm_and_rex_for_rip_plus_s32 src_hw (word_of_int offset) False instr;
     let instr = (if reg_val RBX < m_id src then add_rex instr else instr);
     Some instr
   }"

definition static_store :: "Register \<Rightarrow> int \<Rightarrow> int \<Rightarrow> Instruction option" where
  "static_store value offset sz =
    (if sz = 1 then store8_rip_s32 value offset
     else if sz = 2 then store16_rip_s32 value offset
     else if sz = 4 then store32_rip_s32 value offset
     else if sz = 8 then store64_rip_s32 value offset
     else None)"

definition static_addr :: "Register \<Rightarrow> int \<Rightarrow> Instruction option" where
  "static_addr dst offset = do {
     assert_opt (is_gpr dst);
     assert_opt (fits_s32 offset);
     let instr = mk_Instruction 0x8d;
     dst_hw \<leftarrow> hw_u8 dst;
     let instr = set_modrm_and_rex_for_rip_plus_s32 dst_hw (word_of_int offset) True instr;
     Some instr
   }"

definition static_load_xmm32 ::
  "Register \<Rightarrow> int \<Rightarrow> Instruction option" where
  "static_load_xmm32 xmm_dest offset = do {
     assert_opt (is_xmm xmm_dest);
     assert_opt (fits_s32 offset);
     let instr = mk_Instruction 0xf3;
     let instr = set_op2 0x0f instr;
     let instr = set_op3 0x10 instr;
     xmm_dest_hw \<leftarrow> hw_u8 xmm_dest;
     let instr = set_modrm_and_rex_for_rip_plus_s32 xmm_dest_hw (word_of_int offset) False instr;
     let instr = swap_op0_rex instr;
     Some instr
   }"

definition static_store_xmm32 ::
  "Register \<Rightarrow> int \<Rightarrow> Instruction option" where
  "static_store_xmm32 xmm_value offset = do {
     assert_opt (is_xmm xmm_value);
     assert_opt (fits_s32 offset);
     let instr = mk_Instruction 0xf3;
     let instr = set_op2 0x0f instr;
     let instr = set_op3 0x11 instr;
     xmm_value_hw \<leftarrow> hw_u8 xmm_value;
     let instr = set_modrm_and_rex_for_rip_plus_s32 xmm_value_hw (word_of_int offset) False instr;
     let instr = swap_op0_rex instr;
     Some instr
   }"

definition load64_gpr64_plus_s32 ::
  "Register \<Rightarrow> s32 \<Rightarrow> Register \<Rightarrow> Instruction option" where
  "load64_gpr64_plus_s32 dst_reg offset src_reg = do {
     assert_opt (is_gpr dst_reg);
     assert_opt (is_gpr src_reg);
     let instr = mk_Instruction 0x8b;
     dst_reg_hw \<leftarrow> hw_u8 dst_reg;
     src_reg_hw \<leftarrow> hw_u8 src_reg;
     let instr = set_modrm_rex_sib_for_reg_reg_disp dst_reg_hw 2 src_reg_hw True instr;
     let instr = put_disp (mk_Imm 4 (scast offset)) instr;
     Some instr
   }"

definition store64_gpr64_plus_s32 ::
  "Register \<Rightarrow> s32 \<Rightarrow> Register \<Rightarrow> Instruction option" where
  "store64_gpr64_plus_s32 addr offset value = do {
     assert_opt (is_gpr addr);
     assert_opt (is_gpr value);
     let instr = mk_Instruction 0x89;
     value_hw \<leftarrow> hw_u8 value;
     addr_hw \<leftarrow> hw_u8 addr;
     let instr = set_modrm_rex_sib_for_reg_reg_disp value_hw 2 addr_hw True instr;
     let instr = put_disp (mk_Imm 4 (scast offset)) instr;
     Some instr
   }"

end
