(* ===== verification/IGen_Ops.thy ===== *)
theory IGen_Ops
  imports IGen_Mem
begin

text \<open>
  \<^verbatim>\<open>goalc/emitter/IGen.h\<close>, second part: calls and returns, integer arithmetic, bit
  operations, shifts, jumps, scalar float arithmetic and the null instruction.
\<close>

section \<open>Function stuff\<close>

definition ret :: "Instruction option" where
  "ret = Some (mk_Instruction 0xc3)"

definition push_gpr64 :: "Register \<Rightarrow> Instruction option" where
  "push_gpr64 reg = do {
     assert_opt (is_gpr reg);
     h \<leftarrow> hw_id reg;
     if 8 \<le> h
     then Some (put_rex (mk_REX False False False True)
                  (mk_Instruction (word_of_int (0x50 + h - 8))))
     else Some (mk_Instruction (word_of_int (0x50 + h)))
   }"

definition pop_gpr64 :: "Register \<Rightarrow> Instruction option" where
  "pop_gpr64 reg = do {
     assert_opt (is_gpr reg);
     h \<leftarrow> hw_id reg;
     if 8 \<le> h
     then Some (put_rex (mk_REX False False False True)
                  (mk_Instruction (word_of_int (0x58 + h - 8))))
     else Some (mk_Instruction (word_of_int (0x58 + h)))
   }"

definition call_r64 :: "Register \<Rightarrow> Instruction option" where
  "call_r64 r = do {
     assert_opt (is_gpr r);
     reg \<leftarrow> hw_id r;
     let instr = mk_Instruction 0xff;
     let (instr, reg) = (if 8 \<le> reg then (put_rex (mk_REX False False False True) instr, reg - 8)
                         else (instr, reg));
     assert_opt (reg < 8);
     Some (put_modrm \<lparr>mr_mod = 3, mr_reg_op = 2, mr_rm = word_of_int reg\<rparr> instr)
   }"

definition jmp_r64 :: "Register \<Rightarrow> Instruction option" where
  "jmp_r64 r = do {
     assert_opt (is_gpr r);
     reg \<leftarrow> hw_id r;
     let instr = mk_Instruction 0xff;
     let (instr, reg) = (if 8 \<le> reg then (put_rex (mk_REX False False False True) instr, reg - 8)
                         else (instr, reg));
     assert_opt (reg < 8);
     Some (put_modrm \<lparr>mr_mod = 3, mr_reg_op = 4, mr_rm = word_of_int reg\<rparr> instr)
   }"

section \<open>Integer math\<close>

definition sub_gpr64_imm8s :: "Register \<Rightarrow> int \<Rightarrow> Instruction option" where
  "sub_gpr64_imm8s reg imm = do {
     assert_opt (is_gpr reg);
     assert_opt (fits_s8 imm);
     let instr = mk_Instruction 0x83;
     reg_hw \<leftarrow> hw_u8 reg;
     let instr = set_modrm_and_rex 5 reg_hw 3 True instr;
     let instr = put_imm (mk_Imm 1 (word_of_int imm)) instr;
     Some instr
   }"

definition sub_gpr64_imm32s :: "Register \<Rightarrow> int \<Rightarrow> Instruction option" where
  "sub_gpr64_imm32s reg imm = do {
     assert_opt (is_gpr reg);
     assert_opt (fits_s32 imm);
     let instr = mk_Instruction 0x81;
     reg_hw \<leftarrow> hw_u8 reg;
     let instr = set_modrm_and_rex 5 reg_hw 3 True instr;
     let instr = put_imm (mk_Imm 4 (word_of_int imm)) instr;
     Some instr
   }"

definition add_gpr64_imm8s :: "Register \<Rightarrow> int \<Rightarrow> Instruction option" where
  "add_gpr64_imm8s reg v = do {
     assert_opt (fits_s8 v);
     let instr = mk_Instruction 0x83;
     reg_hw \<leftarrow> hw_u8 reg;
     let instr = set_modrm_and_rex 0 reg_hw 3 True instr;
     let instr = put_imm (mk_Imm 1 (word_of_int v)) instr;
     Some instr
   }"

definition add_gpr64_imm32s :: "Register \<Rightarrow> int \<Rightarrow> Instruction option" where
  "add_gpr64_imm32s reg v = do {
     assert_opt (fits_s32 v);
     let instr = mk_Instruction 0x81;
     reg_hw \<leftarrow> hw_u8 reg;
     let instr = set_modrm_and_rex 0 reg_hw 3 True instr;
     let instr = put_imm (mk_Imm 4 (word_of_int v)) instr;
     Some instr
   }"

definition add_gpr64_imm :: "Register \<Rightarrow> int \<Rightarrow> Instruction option" where
  "add_gpr64_imm reg imm =
    (if fits_s8 imm then add_gpr64_imm8s reg imm
     else if fits_s32 imm then add_gpr64_imm32s reg imm
     else None)"

definition sub_gpr64_imm :: "Register \<Rightarrow> int \<Rightarrow> Instruction option" where
  "sub_gpr64_imm reg imm =
    (if fits_s8 imm then sub_gpr64_imm8s reg imm
     else if fits_s32 imm then sub_gpr64_imm32s reg imm
     else None)"

definition add_gpr64_gpr64 ::
  "Register \<Rightarrow> Register \<Rightarrow> Instruction option" where
  "add_gpr64_gpr64 dst src = do {
     let instr = mk_Instruction 0x01;
     assert_opt (is_gpr dst);
     assert_opt (is_gpr src);
     src_hw \<leftarrow> hw_u8 src;
     dst_hw \<leftarrow> hw_u8 dst;
     let instr = set_modrm_and_rex src_hw dst_hw 3 True instr;
     Some instr
   }"

definition sub_gpr64_gpr64 ::
  "Register \<Rightarrow> Register \<Rightarrow> Instruction option" where
  "sub_gpr64_gpr64 dst src = do {
     let instr = mk_Instruction 0x29;
     assert_opt (is_gpr dst);
     assert_opt (is_gpr src);
     src_hw \<leftarrow> hw_u8 src;
     dst_hw \<leftarrow> hw_u8 dst;
     let instr = set_modrm_and_rex src_hw dst_hw 3 True instr;
     Some instr
   }"

definition imul_gpr32_gpr32 ::
  "Register \<Rightarrow> Register \<Rightarrow> Instruction option" where
  "imul_gpr32_gpr32 dst src = do {
     let instr = mk_Instruction 0xf;
     let instr = set_op2 0xaf instr;
     assert_opt (is_gpr dst);
     assert_opt (is_gpr src);
     dst_hw \<leftarrow> hw_u8 dst;
     src_hw \<leftarrow> hw_u8 src;
     let instr = set_modrm_and_rex dst_hw src_hw 3 False instr;
     Some instr
   }"

definition imul_gpr64_gpr64 ::
  "Register \<Rightarrow> Register \<Rightarrow> Instruction option" where
  "imul_gpr64_gpr64 dst src = do {
     let instr = mk_Instruction 0xf;
     let instr = set_op2 0xaf instr;
     assert_opt (is_gpr dst);
     assert_opt (is_gpr src);
     dst_hw \<leftarrow> hw_u8 dst;
     src_hw \<leftarrow> hw_u8 src;
     let instr = set_modrm_and_rex dst_hw src_hw 3 True instr;
     Some instr
   }"

definition idiv_gpr32 :: "Register \<Rightarrow> Instruction option" where
  "idiv_gpr32 reg = do {
     let instr = mk_Instruction 0xf7;
     assert_opt (is_gpr reg);
     reg_hw \<leftarrow> hw_u8 reg;
     let instr = set_modrm_and_rex 7 reg_hw 3 False instr;
     Some instr
   }"

definition unsigned_div_gpr32 :: "Register \<Rightarrow> Instruction option" where
  "unsigned_div_gpr32 reg = do {
     let instr = mk_Instruction 0xf7;
     assert_opt (is_gpr reg);
     reg_hw \<leftarrow> hw_u8 reg;
     let instr = set_modrm_and_rex 6 reg_hw 3 False instr;
     Some instr
   }"

definition cdq :: "Instruction option" where
  "cdq = do {
     let instr = mk_Instruction 0x99;
     Some instr
   }"

definition movsx_r64_r32 ::
  "Register \<Rightarrow> Register \<Rightarrow> Instruction option" where
  "movsx_r64_r32 dst src = do {
     let instr = mk_Instruction 0x63;
     assert_opt (is_gpr dst);
     assert_opt (is_gpr src);
     dst_hw \<leftarrow> hw_u8 dst;
     src_hw \<leftarrow> hw_u8 src;
     let instr = set_modrm_and_rex dst_hw src_hw 3 True instr;
     Some instr
   }"

definition cmp_gpr64_gpr64 ::
  "Register \<Rightarrow> Register \<Rightarrow> Instruction option" where
  "cmp_gpr64_gpr64 a b = do {
     let instr = mk_Instruction 0x3b;
     assert_opt (is_gpr a);
     assert_opt (is_gpr b);
     a_hw \<leftarrow> hw_u8 a;
     b_hw \<leftarrow> hw_u8 b;
     let instr = set_modrm_and_rex a_hw b_hw 3 True instr;
     Some instr
   }"

definition or_gpr64_gpr64 ::
  "Register \<Rightarrow> Register \<Rightarrow> Instruction option" where
  "or_gpr64_gpr64 dst src = do {
     let instr = mk_Instruction 0x0b;
     assert_opt (is_gpr dst);
     assert_opt (is_gpr src);
     dst_hw \<leftarrow> hw_u8 dst;
     src_hw \<leftarrow> hw_u8 src;
     let instr = set_modrm_and_rex dst_hw src_hw 3 True instr;
     Some instr
   }"

section \<open>Bit stuff\<close>

definition and_gpr64_gpr64 ::
  "Register \<Rightarrow> Register \<Rightarrow> Instruction option" where
  "and_gpr64_gpr64 dst src = do {
     let instr = mk_Instruction 0x23;
     assert_opt (is_gpr dst);
     assert_opt (is_gpr src);
     dst_hw \<leftarrow> hw_u8 dst;
     src_hw \<leftarrow> hw_u8 src;
     let instr = set_modrm_and_rex dst_hw src_hw 3 True instr;
     Some instr
   }"

definition xor_gpr64_gpr64 ::
  "Register \<Rightarrow> Register \<Rightarrow> Instruction option" where
  "xor_gpr64_gpr64 dst src = do {
     let instr = mk_Instruction 0x33;
     assert_opt (is_gpr dst);
     assert_opt (is_gpr src);
     dst_hw \<leftarrow> hw_u8 dst;
     src_hw \<leftarrow> hw_u8 src;
     let instr = set_modrm_and_rex dst_hw src_hw 3 True instr;
     Some instr
   }"

definition not_gpr64 :: "Register \<Rightarrow> Instruction option" where
  "not_gpr64 reg = do {
     let instr = mk_Instruction 0xf7;
     assert_opt (is_gpr reg);
     reg_hw \<leftarrow> hw_u8 reg;
     let instr = set_modrm_and_rex 2 reg_hw 3 True instr;
     Some instr
   }"

definition shl_gpr64_cl :: "Register \<Rightarrow> Instruction option" where
  "shl_gpr64_cl reg = do {
     assert_opt (is_gpr reg);
     let instr = mk_Instruction 0xd3;
     reg_hw \<leftarrow> hw_u8 reg;
     let instr = set_modrm_and_rex 4 reg_hw 3 True instr;
     Some instr
   }"

section \<open>Shifts\<close>

definition shr_gpr64_cl :: "Register \<Rightarrow> Instruction option" where
  "shr_gpr64_cl reg = do {
     assert_opt (is_gpr reg);
     let instr = mk_Instruction 0xd3;
     reg_hw \<leftarrow> hw_u8 reg;
     let instr = set_modrm_and_rex 5 reg_hw 3 True instr;
     Some instr
   }"

definition sar_gpr64_cl :: "Register \<Rightarrow> Instruction option" where
  "sar_gpr64_cl reg = do {
     assert_opt (is_gpr reg);
     let instr = mk_Instruction 0xd3;
     reg_hw \<leftarrow> hw_u8 reg;
     let instr = set_modrm_and_rex 7 reg_hw 3 True instr;
     Some instr
   }"

definition shl_gpr64_u8 :: "Register \<Rightarrow> u8 \<Rightarrow> Instruction option" where
  "shl_gpr64_u8 reg sa = do {
     assert_opt (is_gpr reg);
     let instr = mk_Instruction 0xc1;
     reg_hw \<leftarrow> hw_u8 reg;
     let instr = set_modrm_and_rex 4 reg_hw 3 True instr;
     let instr = put_imm (mk_Imm 1 (ucast sa)) instr;
     Some instr
   }"

definition shr_gpr64_u8 :: "Register \<Rightarrow> u8 \<Rightarrow> Instruction option" where
  "shr_gpr64_u8 reg sa = do {
     assert_opt (is_gpr reg);
     let instr = mk_Instruction 0xc1;
     reg_hw \<leftarrow> hw_u8 reg;
     let instr = set_modrm_and_rex 5 reg_hw 3 True instr;
     let instr = put_imm (mk_Imm 1 (ucast sa)) instr;
     Some instr
   }"

definition sar_gpr64_u8 :: "Register \<Rightarrow> u8 \<Rightarrow> Instruction option" where
  "sar_gpr64_u8 reg sa = do {
     assert_opt (is_gpr reg);
     let instr = mk_Instruction 0xc1;
     reg_hw \<leftarrow> hw_u8 reg;
     let instr = set_modrm_and_rex 7 reg_hw 3 True instr;
     let instr = put_imm (mk_Imm 1 (ucast sa)) instr;
     Some instr
   }"

definition jmp_32 :: "Instruction option" where
  "jmp_32 = do {
     let instr = mk_Instruction 0xe9;
     let instr = put_imm (mk_Imm 4 0) instr;
     Some instr
   }"

section \<open>Control flow\<close>

definition je_32 :: "Instruction option" where
  "je_32 = do {
     let instr = mk_Instruction 0x0f;
     let instr = set_op2 0x84 instr;
     let instr = put_imm (mk_Imm 4 0) instr;
     Some instr
   }"

definition jne_32 :: "Instruction option" where
  "jne_32 = do {
     let instr = mk_Instruction 0x0f;
     let instr = set_op2 0x85 instr;
     let instr = put_imm (mk_Imm 4 0) instr;
     Some instr
   }"

definition jle_32 :: "Instruction option" where
  "jle_32 = do {
     let instr = mk_Instruction 0x0f;
     let instr = set_op2 0x8e instr;
     let instr = put_imm (mk_Imm 4 0) instr;
     Some instr
   }"

definition jge_32 :: "Instruction option" where
  "jge_32 = do {
     let instr = mk_Instruction 0x0f;
     let instr = set_op2 0x8d instr;
     let instr = put_imm (mk_Imm 4 0) instr;
     Some instr
   }"

definition jl_32 :: "Instruction option" where
  "jl_32 = do {
     let instr = mk_Instruction 0x0f;
     let instr = set_op2 0x8c instr;
     let instr = put_imm (mk_Imm 4 0) instr;
     Some instr
   }"

definition jg_32 :: "Instruction option" where
  "jg_32 = do {
     let instr = mk_Instruction 0x0f;
     let instr = set_op2 0x8f instr;
     let instr = put_imm (mk_Imm 4 0) instr;
     Some instr
   }"

definition jbe_32 :: "Instruction option" where
  "jbe_32 = do {
     let instr = mk_Instruction 0x0f;
     let instr = set_op2 0x86 instr;
     let instr = put_imm (mk_Imm 4 0) instr;
     Some instr
   }"

definition jae_32 :: "Instruction option" where
  "jae_32 = do {
     let instr = mk_Instruction 0x0f;
     let instr = set_op2 0x83 instr;
     let instr = put_imm (mk_Imm 4 0) instr;
     Some instr
   }"

definition jb_32 :: "Instruction option" where
  "jb_32 = do {
     let instr = mk_Instruction 0x0f;
     let instr = set_op2 0x82 instr;
     let instr = put_imm (mk_Imm 4 0) instr;
     Some instr
   }"

definition ja_32 :: "Instruction option" where
  "ja_32 = do {
     let instr = mk_Instruction 0x0f;
     let instr = set_op2 0x87 instr;
     let instr = put_imm (mk_Imm 4 0) instr;
     Some instr
   }"

definition cmp_flt_flt :: "Register \<Rightarrow> Register \<Rightarrow> Instruction option" where
  "cmp_flt_flt a b = do {
     assert_opt (is_xmm a);
     assert_opt (is_xmm b);
     let instr = mk_Instruction 0x0f;
     let instr = set_op2 0x2e instr;
     a_hw \<leftarrow> hw_u8 a;
     b_hw \<leftarrow> hw_u8 b;
     let instr = set_modrm_and_rex a_hw b_hw 3 False instr;
     Some instr
   }"

definition sqrts_xmm :: "Register \<Rightarrow> Register \<Rightarrow> Instruction option" where
  "sqrts_xmm dst src = do {
     assert_opt (is_xmm dst);
     assert_opt (is_xmm src);
     let instr = mk_Instruction 0xf3;
     let instr = set_op2 0x0f instr;
     let instr = set_op3 0x51 instr;
     dst_hw \<leftarrow> hw_u8 dst;
     src_hw \<leftarrow> hw_u8 src;
     let instr = set_modrm_and_rex dst_hw src_hw 3 False instr;
     let instr = swap_op0_rex instr;
     Some instr
   }"

section \<open>Float math\<close>

definition mulss_xmm_xmm ::
  "Register \<Rightarrow> Register \<Rightarrow> Instruction option" where
  "mulss_xmm_xmm dst src = do {
     assert_opt (is_xmm dst);
     assert_opt (is_xmm src);
     let instr = mk_Instruction 0xf3;
     let instr = set_op2 0x0f instr;
     let instr = set_op3 0x59 instr;
     dst_hw \<leftarrow> hw_u8 dst;
     src_hw \<leftarrow> hw_u8 src;
     let instr = set_modrm_and_rex dst_hw src_hw 3 False instr;
     let instr = swap_op0_rex instr;
     Some instr
   }"

definition divss_xmm_xmm ::
  "Register \<Rightarrow> Register \<Rightarrow> Instruction option" where
  "divss_xmm_xmm dst src = do {
     assert_opt (is_xmm dst);
     assert_opt (is_xmm src);
     let instr = mk_Instruction 0xf3;
     let instr = set_op2 0x0f instr;
     let instr = set_op3 0x5e instr;
     dst_hw \<leftarrow> hw_u8 dst;
     src_hw \<leftarrow> hw_u8 src;
     let instr = set_modrm_and_rex dst_hw src_hw 3 False instr;
     let instr = swap_op0_rex instr;
     Some instr
   }"

definition subss_xmm_xmm ::
  "Register \<Rightarrow> Register \<Rightarrow> Instruction option" where
  "subss_xmm_xmm dst src = do {
     assert_opt (is_xmm dst);
     assert_opt (is_xmm src);
     let instr = mk_Instruction 0xf3;
     let instr = set_op2 0x0f instr;
     let instr = set_op3 0x5c instr;
     dst_hw \<leftarrow> hw_u8 dst;
     src_hw \<leftarrow> hw_u8 src;
     let instr = set_modrm_and_rex dst_hw src_hw 3 False instr;
     let instr = swap_op0_rex instr;
     Some instr
   }"

definition addss_xmm_xmm ::
  "Register \<Rightarrow> Register \<Rightarrow> Instruction option" where
  "addss_xmm_xmm dst src = do {
     assert_opt (is_xmm dst);
     assert_opt (is_xmm src);
     let instr = mk_Instruction 0xf3;
     let instr = set_op2 0x0f instr;
     let instr = set_op3 0x58 instr;
     dst_hw \<leftarrow> hw_u8 dst;
     src_hw \<leftarrow> hw_u8 src;
     let instr = set_modrm_and_rex dst_hw src_hw 3 False instr;
     let instr = swap_op0_rex instr;
     Some instr
   }"

definition minss_xmm_xmm ::
  "Register \<Rightarrow> Register \<Rightarrow> Instruction option" where
  "minss_xmm_xmm dst src = do {
     assert_opt (is_xmm dst);
     assert_opt (is_xmm src);
     let instr = mk_Instruction 0xf3;
     let instr = set_op2 0x0f instr;
     let instr = set_op3 0x5d instr;
     dst_hw \<leftarrow> hw_u8 dst;
     src_hw \<leftarrow> hw_u8 src;
     let instr = set_modrm_and_rex dst_hw src_hw 3 False instr;
     let instr = swap_op0_rex instr;
     Some instr
   }"

definition maxss_xmm_xmm ::
  "Register \<Rightarrow> Register \<Rightarrow> Instruction option" where
  "maxss_xmm_xmm dst src = do {
     assert_opt (is_xmm dst);
     assert_opt (is_xmm src);
     let instr = mk_Instruction 0xf3;
     let instr = set_op2 0x0f instr;
     let instr = set_op3 0x5f instr;
     dst_hw \<leftarrow> hw_u8 dst;
     src_hw \<leftarrow> hw_u8 src;
     let instr = set_modrm_and_rex dst_hw src_hw 3 False instr;
     let instr = swap_op0_rex instr;
     Some instr
   }"

definition int32_to_float ::
  "Register \<Rightarrow> Register \<Rightarrow> Instruction option" where
  "int32_to_float dst src = do {
     assert_opt (is_xmm dst);
     assert_opt (is_gpr src);
     let instr = mk_Instruction 0xf3;
     let instr = set_op2 0x0f instr;
     let instr = set_op3 0x2a instr;
     dst_hw \<leftarrow> hw_u8 dst;
     src_hw \<leftarrow> hw_u8 src;
     let instr = set_modrm_and_rex dst_hw src_hw 3 False instr;
     let instr = swap_op0_rex instr;
     Some instr
   }"

definition float_to_int32 ::
  "Register \<Rightarrow> Register \<Rightarrow> Instruction option" where
  "float_to_int32 dst src = do {
     assert_opt (is_gpr dst);
     assert_opt (is_xmm src);
     let instr = mk_Instruction 0xf3;
     let instr = set_op2 0x0f instr;
     let instr = set_op3 0x2c instr;
     dst_hw \<leftarrow> hw_u8 dst;
     src_hw \<leftarrow> hw_u8 src;
     let instr = set_modrm_and_rex dst_hw src_hw 3 True instr;
     let instr = swap_op0_rex instr;
     Some instr
   }"

definition nop :: "Instruction option" where
  "nop = do {
     let instr = mk_Instruction 0x90;
     Some instr
   }"

section \<open>Utilities\<close>

definition null_instr :: "Instruction option" where
  "null_instr = Some ((mk_Instruction 0)\<lparr>is_null := True\<rparr>)"

end
