(* ===== verification/IGen_Vec.thy ===== *)
theory IGen_Vec
  imports IGen_Ops
begin

text \<open>
  \<^verbatim>\<open>goalc/emitter/IGen.h\<close>, third part: the AVX instructions behind the VU macro-mode
  operations, and the two dispatchers for 128-bit GOAL accesses that use them.
\<close>

section \<open>AVX\<close>

definition nop_vf :: "Instruction option" where
  "nop_vf = do {
     let instr = mk_Instruction 0xd9;
     let instr = set_op2 0xd0 instr;
     Some instr
   }"

definition wait_vf :: "Instruction option" where
  "wait_vf = do {
     let instr = mk_Instruction 0x9b;
     Some instr
   }"

definition mov_vf_vf :: "Register \<Rightarrow> Register \<Rightarrow> Instruction option" where
  "mov_vf_vf dst src = do {
     assert_opt (is_xmm dst);
     assert_opt (is_xmm src);
     src_hw \<leftarrow> hw_id src;
     dst_hw \<leftarrow> hw_id dst;
     if 8 \<le> src_hw \<and> dst_hw < 8
     then set_vex_modrm_and_rex (word_of_int src_hw) (word_of_int dst_hw) 3 P_0F False
            (mk_Instruction 0x29)
     else set_vex_modrm_and_rex (word_of_int dst_hw) (word_of_int src_hw) 3 P_0F False
            (mk_Instruction 0x28)
   }"

definition loadvf_gpr64_plus_gpr64 ::
  "Register \<Rightarrow> Register \<Rightarrow> Register \<Rightarrow> Instruction option" where
  "loadvf_gpr64_plus_gpr64 dst addr1 addr2 = do {
     assert_opt (is_xmm dst);
     assert_opt (is_gpr addr1);
     assert_opt (is_gpr addr2);
     assert_opt (addr1 \<noteq> addr2);
     assert_opt (addr1 \<noteq> Reg RSP);
     assert_opt (addr2 \<noteq> Reg RSP);
     let instr = mk_Instruction 0x28;
     dst_hw \<leftarrow> hw_u8 dst;
     addr1_hw \<leftarrow> hw_u8 addr1;
     addr2_hw \<leftarrow> hw_u8 addr2;
     instr \<leftarrow> set_vex_modrm_and_rex_for_reg_plus_reg_addr
              dst_hw addr1_hw addr2_hw P_0F False instr;
     Some instr
   }"

definition loadvf_gpr64_plus_gpr64_plus_s8 ::
  "Register \<Rightarrow> Register \<Rightarrow> Register \<Rightarrow> int \<Rightarrow> Instruction option" where
  "loadvf_gpr64_plus_gpr64_plus_s8 dst addr1 addr2 offset = do {
     assert_opt (is_xmm dst);
     assert_opt (is_gpr addr1);
     assert_opt (is_gpr addr2);
     assert_opt (addr1 \<noteq> addr2);
     assert_opt (addr1 \<noteq> Reg RSP);
     assert_opt (addr2 \<noteq> Reg RSP);
     assert_opt (fits_s8 offset);
     let instr = mk_Instruction 0x28;
     dst_hw \<leftarrow> hw_u8 dst;
     addr1_hw \<leftarrow> hw_u8 addr1;
     addr2_hw \<leftarrow> hw_u8 addr2;
     instr \<leftarrow> set_vex_modrm_and_rex_for_reg_plus_reg_plus_s8
              dst_hw addr1_hw addr2_hw (word_of_int offset) P_0F False instr;
     Some instr
   }"

definition loadvf_gpr64_plus_gpr64_plus_s32 ::
  "Register \<Rightarrow> Register \<Rightarrow> Register \<Rightarrow> int \<Rightarrow> Instruction option" where
  "loadvf_gpr64_plus_gpr64_plus_s32 dst addr1 addr2 offset = do {
     assert_opt (is_xmm dst);
     assert_opt (is_gpr addr1);
     assert_opt (is_gpr addr2);
     assert_opt (addr1 \<noteq> addr2);
     assert_opt (addr1 \<noteq> Reg RSP);
     assert_opt (addr2 \<noteq> Reg RSP);
     assert_opt (fits_s32 offset);
     let instr = mk_Instruction 0x28;
     dst_hw \<leftarrow> hw_u8 dst;
     addr1_hw \<leftarrow> hw_u8 addr1;
     addr2_hw \<leftarrow> hw_u8 addr2;
     instr \<leftarrow> set_vex_modrm_and_rex_for_reg_plus_reg_plus_s32
              dst_hw addr1_hw addr2_hw (word_of_int offset) P_0F False instr;
     Some instr
   }"

definition storevf_gpr64_plus_gpr64 ::
  "Register \<Rightarrow> Register \<Rightarrow> Register \<Rightarrow> Instruction option" where
  "storevf_gpr64_plus_gpr64 value addr1 addr2 = do {
     assert_opt (is_xmm value);
     assert_opt (is_gpr addr1);
     assert_opt (is_gpr addr2);
     assert_opt (addr1 \<noteq> addr2);
     assert_opt (addr1 \<noteq> Reg RSP);
     assert_opt (addr2 \<noteq> Reg RSP);
     let instr = mk_Instruction 0x29;
     value_hw \<leftarrow> hw_u8 value;
     addr1_hw \<leftarrow> hw_u8 addr1;
     addr2_hw \<leftarrow> hw_u8 addr2;
     instr \<leftarrow> set_vex_modrm_and_rex_for_reg_plus_reg_addr
              value_hw addr1_hw addr2_hw P_0F False instr;
     Some instr
   }"

definition storevf_gpr64_plus_gpr64_plus_s8 ::
  "Register \<Rightarrow> Register \<Rightarrow> Register \<Rightarrow> int \<Rightarrow> Instruction option" where
  "storevf_gpr64_plus_gpr64_plus_s8 value addr1 addr2 offset = do {
     assert_opt (is_xmm value);
     assert_opt (is_gpr addr1);
     assert_opt (is_gpr addr2);
     assert_opt (addr1 \<noteq> addr2);
     assert_opt (addr1 \<noteq> Reg RSP);
     assert_opt (addr2 \<noteq> Reg RSP);
     assert_opt (fits_s8 offset);
     let instr = mk_Instruction 0x29;
     value_hw \<leftarrow> hw_u8 value;
     addr1_hw \<leftarrow> hw_u8 addr1;
     addr2_hw \<leftarrow> hw_u8 addr2;
     instr \<leftarrow> set_vex_modrm_and_rex_for_reg_plus_reg_plus_s8
              value_hw addr1_hw addr2_hw (word_of_int offset) P_0F False instr;
     Some instr
   }"

definition storevf_gpr64_plus_gpr64_plus_s32 ::
  "Register \<Rightarrow> Register \<Rightarrow> Register \<Rightarrow> int \<Rightarrow> Instruction option" where
  "storevf_gpr64_plus_gpr64_plus_s32 value addr1 addr2 offset = do {
     assert_opt (is_xmm value);
     assert_opt (is_gpr addr1);
     assert_opt (is_gpr addr2);
     assert_opt (addr1 \<noteq> addr2);
     assert_opt (addr1 \<noteq> Reg RSP);
     assert_opt (addr2 \<noteq> Reg RSP);
     assert_opt (fits_s32 offset);
     let instr = mk_Instruction 0x29;
     value_hw \<leftarrow> hw_u8 value;
     addr1_hw \<leftarrow> hw_u8 addr1;
     addr2_hw \<leftarrow> hw_u8 addr2;
     instr \<leftarrow> set_vex_modrm_and_rex_for_reg_plus_reg_plus_s32
              value_hw addr1_hw addr2_hw (word_of_int offset) P_0F False instr;
     Some instr
   }"

definition loadvf_rip_plus_s32 ::
  "Register \<Rightarrow> int \<Rightarrow> Instruction option" where
  "loadvf_rip_plus_s32 dest offset = do {
     assert_opt (is_xmm dest);
     assert_opt (- 2147483648 \<le> offset);
     assert_opt (offset \<le> 2147483647);
     let instr = mk_Instruction 0x28;
     dest_hw \<leftarrow> hw_u8 dest;
     instr \<leftarrow> set_vex_modrm_and_rex_for_rip_plus_s32 dest_hw (word_of_int offset) P_0F False instr;
     Some instr
   }"

definition blend_vf ::
  "Register \<Rightarrow> Register \<Rightarrow> Register \<Rightarrow> u8 \<Rightarrow> Instruction option" where
  "blend_vf dst src1 src2 msk = do {
     assert_opt (msk AND 0b11110000 = 0);
     assert_opt (is_xmm dst);
     assert_opt (is_xmm src1);
     assert_opt (is_xmm src2);
     let instr = mk_Instruction 0x0c;
     dst_hw \<leftarrow> hw_u8 dst;
     src2_hw \<leftarrow> hw_u8 src2;
     src1_hw \<leftarrow> hw_u8 src1;
     instr \<leftarrow> set_vex_modrm_and_rex_vreg dst_hw src2_hw P_0F_3A src1_hw False P_66 instr;
     let instr = put_imm (mk_Imm 1 (ucast msk)) instr;
     Some instr
   }"

definition swizzle_vf ::
  "Register \<Rightarrow> Register \<Rightarrow> u8 \<Rightarrow> Instruction option" where
  "swizzle_vf dst src controlBytes = do {
     assert_opt (is_xmm dst);
     assert_opt (is_xmm src);
     let instr = mk_Instruction 0xc6;
     dst_hw \<leftarrow> hw_u8 dst;
     src_hw \<leftarrow> hw_u8 src;
     instr \<leftarrow> set_vex_modrm_and_rex_vreg dst_hw src_hw P_0F src_hw False P_NONE instr;
     let instr = put_imm (mk_Imm 1 (ucast controlBytes)) instr;
     Some instr
   }"

datatype VF_ELEMENT = VF_X | VF_Y | VF_Z | VF_W | VF_NONE

fun splat_vf :: "Register \<Rightarrow> Register \<Rightarrow> VF_ELEMENT \<Rightarrow> Instruction option" where
  "splat_vf dst src VF_X = swizzle_vf dst src 0b00000000"
| "splat_vf dst src VF_Y = swizzle_vf dst src 0b01010101"
| "splat_vf dst src VF_Z = swizzle_vf dst src 0b10101010"
| "splat_vf dst src VF_W = swizzle_vf dst src 0b11111111"
| "splat_vf dst src VF_NONE = None"

definition xor_vf ::
  "Register \<Rightarrow> Register \<Rightarrow> Register \<Rightarrow> Instruction option" where
  "xor_vf dst src1 src2 = do {
     assert_opt (is_xmm dst);
     assert_opt (is_xmm src1);
     assert_opt (is_xmm src2);
     let instr = mk_Instruction 0x57;
     dst_hw \<leftarrow> hw_u8 dst;
     src2_hw \<leftarrow> hw_u8 src2;
     src1_hw \<leftarrow> hw_u8 src1;
     instr \<leftarrow> set_vex_modrm_and_rex_vreg dst_hw src2_hw P_0F src1_hw False P_NONE instr;
     Some instr
   }"

definition sub_vf ::
  "Register \<Rightarrow> Register \<Rightarrow> Register \<Rightarrow> Instruction option" where
  "sub_vf dst src1 src2 = do {
     assert_opt (is_xmm dst);
     assert_opt (is_xmm src1);
     assert_opt (is_xmm src2);
     let instr = mk_Instruction 0x5c;
     dst_hw \<leftarrow> hw_u8 dst;
     src2_hw \<leftarrow> hw_u8 src2;
     src1_hw \<leftarrow> hw_u8 src1;
     instr \<leftarrow> set_vex_modrm_and_rex_vreg dst_hw src2_hw P_0F src1_hw False P_NONE instr;
     Some instr
   }"

definition add_vf ::
  "Register \<Rightarrow> Register \<Rightarrow> Register \<Rightarrow> Instruction option" where
  "add_vf dst src1 src2 = do {
     assert_opt (is_xmm dst);
     assert_opt (is_xmm src1);
     assert_opt (is_xmm src2);
     let instr = mk_Instruction 0x58;
     dst_hw \<leftarrow> hw_u8 dst;
     src2_hw \<leftarrow> hw_u8 src2;
     src1_hw \<leftarrow> hw_u8 src1;
     instr \<leftarrow> set_vex_modrm_and_rex_vreg dst_hw src2_hw P_0F src1_hw False P_NONE instr;
     Some instr
   }"

definition mul_vf ::
  "Register \<Rightarrow> Register \<Rightarrow> Register \<Rightarrow> Instruction option" where
  "mul_vf dst src1 src2 = do {
     assert_opt (is_xmm dst);
     assert_opt (is_xmm src1);
     assert_opt (is_xmm src2);
     let instr = mk_Instruction 0x59;
     dst_hw \<leftarrow> hw_u8 dst;
     src2_hw \<leftarrow> hw_u8 src2;
     src1_hw \<leftarrow> hw_u8 src1;
     instr \<leftarrow> set_vex_modrm_and_rex_vreg dst_hw src2_hw P_0F src1_hw False P_NONE instr;
     Some instr
   }"

definition max_vf ::
  "Register \<Rightarrow> Register \<Rightarrow> Register \<Rightarrow> Instruction option" where
  "max_vf dst src1 src2 = do {
     assert_opt (is_xmm dst);
     assert_opt (is_xmm src1);
     assert_opt (is_xmm src2);
     let instr = mk_Instruction 0x5f;
     dst_hw \<leftarrow> hw_u8 dst;
     src2_hw \<leftarrow> hw_u8 src2;
     src1_hw \<leftarrow> hw_u8 src1;
     instr \<leftarrow> set_vex_modrm_and_rex_vreg dst_hw src2_hw P_0F src1_hw False P_NONE instr;
     Some instr
   }"

definition min_vf ::
  "Register \<Rightarrow> Register \<Rightarrow> Register \<Rightarrow> Instruction option" where
  "min_vf dst src1 src2 = do {
     assert_opt (is_xmm dst);
     assert_opt (is_xmm src1);
     assert_opt (is_xmm src2);
     let instr = mk_Instruction 0x5d;
     dst_hw \<leftarrow> hw_u8 dst;
     src2_hw \<leftarrow> hw_u8 src2;
     src1_hw \<leftarrow> hw_u8 src1;
     instr \<leftarrow> set_vex_modrm_and_rex_vreg dst_hw src2_hw P_0F src1_hw False P_NONE instr;
     Some instr
   }"

definition div_vf ::
  "Register \<Rightarrow> Register \<Rightarrow> Register \<Rightarrow> Instruction option" where
  "div_vf dst src1 src2 = do {
     assert_opt (is_xmm dst);
     assert_opt (is_xmm src1);
     assert_opt (is_xmm src2);
     let instr = mk_Instruction 0x5e;
     dst_hw \<leftarrow> hw_u8 dst;
     src2_hw \<leftarrow> hw_u8 src2;
     src1_hw \<leftarrow> hw_u8 src1;
     instr \<leftarrow> set_vex_modrm_and_rex_vreg dst_hw src2_hw P_0F src1_hw False P_NONE instr;
     Some instr
   }"

definition sqrt_vf :: "Register \<Rightarrow> Register \<Rightarrow> Instruction option" where
  "sqrt_vf dst src = do {
     assert_opt (is_xmm dst);
     assert_opt (is_xmm src);
     let instr = mk_Instruction 0x51;
     dst_hw \<leftarrow> hw_u8 dst;
     src_hw \<leftarrow> hw_u8 src;
     instr \<leftarrow> set_vex_modrm_and_rex_vreg dst_hw src_hw P_0F 0 False P_NONE instr;
     Some instr
   }"

definition itof_vf :: "Register \<Rightarrow> Register \<Rightarrow> Instruction option" where
  "itof_vf dst src = do {
     assert_opt (is_xmm dst);
     assert_opt (is_xmm src);
     let instr = mk_Instruction 0x5b;
     dst_hw \<leftarrow> hw_u8 dst;
     src_hw \<leftarrow> hw_u8 src;
     instr \<leftarrow> set_vex_modrm_and_rex_vreg dst_hw src_hw P_0F 0 False P_NONE instr;
     Some instr
   }"

definition ftoi_vf :: "Register \<Rightarrow> Register \<Rightarrow> Instruction option" where
  "ftoi_vf dst src = do {
     assert_opt (is_xmm dst);
     assert_opt (is_xmm src);
     let instr = mk_Instruction 0x5b;
     dst_hw \<leftarrow> hw_u8 dst;
     src_hw \<leftarrow> hw_u8 src;
     instr \<leftarrow> set_vex_modrm_and_rex_vreg dst_hw src_hw P_0F 0 False P_F3 instr;
     Some instr
   }"

definition pw_sra ::
  "Register \<Rightarrow> Register \<Rightarrow> u8 \<Rightarrow> Instruction option" where
  "pw_sra dst src imm = do {
     assert_opt (is_xmm dst);
     assert_opt (is_xmm src);
     let instr = mk_Instruction 0x72;
     src_hw \<leftarrow> hw_u8 src;
     dst_hw \<leftarrow> hw_u8 dst;
     instr \<leftarrow> set_vex_modrm_and_rex_vreg 4 src_hw P_0F dst_hw False P_66 instr;
     let instr = put_imm (mk_Imm 1 (ucast imm)) instr;
     Some instr
   }"

definition pw_srl ::
  "Register \<Rightarrow> Register \<Rightarrow> u8 \<Rightarrow> Instruction option" where
  "pw_srl dst src imm = do {
     assert_opt (is_xmm dst);
     assert_opt (is_xmm src);
     let instr = mk_Instruction 0x72;
     src_hw \<leftarrow> hw_u8 src;
     dst_hw \<leftarrow> hw_u8 dst;
     instr \<leftarrow> set_vex_modrm_and_rex_vreg 2 src_hw P_0F dst_hw False P_66 instr;
     let instr = put_imm (mk_Imm 1 (ucast imm)) instr;
     Some instr
   }"

definition pw_sll ::
  "Register \<Rightarrow> Register \<Rightarrow> u8 \<Rightarrow> Instruction option" where
  "pw_sll dst src imm = do {
     assert_opt (is_xmm dst);
     assert_opt (is_xmm src);
     let instr = mk_Instruction 0x72;
     src_hw \<leftarrow> hw_u8 src;
     dst_hw \<leftarrow> hw_u8 dst;
     instr \<leftarrow> set_vex_modrm_and_rex_vreg 6 src_hw P_0F dst_hw False P_66 instr;
     let instr = put_imm (mk_Imm 1 (ucast imm)) instr;
     Some instr
   }"

definition pextlw_swapped ::
  "Register \<Rightarrow> Register \<Rightarrow> Register \<Rightarrow> Instruction option" where
  "pextlw_swapped dst src0 src1 = do {
     assert_opt (is_xmm dst);
     assert_opt (is_xmm src0);
     assert_opt (is_xmm src1);
     let instr = mk_Instruction 0x62;
     dst_hw \<leftarrow> hw_u8 dst;
     src1_hw \<leftarrow> hw_u8 src1;
     src0_hw \<leftarrow> hw_u8 src0;
     instr \<leftarrow> set_vex_modrm_and_rex_vreg dst_hw src1_hw P_0F src0_hw False P_66 instr;
     Some instr
   }"

definition pextuw_swapped ::
  "Register \<Rightarrow> Register \<Rightarrow> Register \<Rightarrow> Instruction option" where
  "pextuw_swapped dst src0 src1 = do {
     assert_opt (is_xmm dst);
     assert_opt (is_xmm src0);
     assert_opt (is_xmm src1);
     let instr = mk_Instruction 0x6a;
     dst_hw \<leftarrow> hw_u8 dst;
     src1_hw \<leftarrow> hw_u8 src1;
     src0_hw \<leftarrow> hw_u8 src0;
     instr \<leftarrow> set_vex_modrm_and_rex_vreg dst_hw src1_hw P_0F src0_hw False P_66 instr;
     Some instr
   }"

definition vpunpcklqdq ::
  "Register \<Rightarrow> Register \<Rightarrow> Register \<Rightarrow> Instruction option" where
  "vpunpcklqdq dst src0 src1 = do {
     assert_opt (is_xmm dst);
     assert_opt (is_xmm src0);
     assert_opt (is_xmm src1);
     let instr = mk_Instruction 0x6c;
     dst_hw \<leftarrow> hw_u8 dst;
     src1_hw \<leftarrow> hw_u8 src1;
     src0_hw \<leftarrow> hw_u8 src0;
     instr \<leftarrow> set_vex_modrm_and_rex_vreg dst_hw src1_hw P_0F src0_hw False P_66 instr;
     Some instr
   }"

definition pcpyld_swapped :: "Register \<Rightarrow> Register \<Rightarrow> Register \<Rightarrow> Instruction option" where
  "pcpyld_swapped dst src0 src1 = vpunpcklqdq dst src0 src1"

definition pcpyud ::
  "Register \<Rightarrow> Register \<Rightarrow> Register \<Rightarrow> Instruction option" where
  "pcpyud dst src0 src1 = do {
     assert_opt (is_xmm dst);
     assert_opt (is_xmm src0);
     assert_opt (is_xmm src1);
     let instr = mk_Instruction 0x6d;
     dst_hw \<leftarrow> hw_u8 dst;
     src1_hw \<leftarrow> hw_u8 src1;
     src0_hw \<leftarrow> hw_u8 src0;
     instr \<leftarrow> set_vex_modrm_and_rex_vreg dst_hw src1_hw P_0F src0_hw False P_66 instr;
     Some instr
   }"

definition pceqw ::
  "Register \<Rightarrow> Register \<Rightarrow> Register \<Rightarrow> Instruction option" where
  "pceqw dst src0 src1 = do {
     assert_opt (is_xmm dst);
     assert_opt (is_xmm src0);
     assert_opt (is_xmm src1);
     let instr = mk_Instruction 0x76;
     dst_hw \<leftarrow> hw_u8 dst;
     src1_hw \<leftarrow> hw_u8 src1;
     src0_hw \<leftarrow> hw_u8 src0;
     instr \<leftarrow> set_vex_modrm_and_rex_vreg dst_hw src1_hw P_0F src0_hw False P_66 instr;
     Some instr
   }"

definition vpsubd ::
  "Register \<Rightarrow> Register \<Rightarrow> Register \<Rightarrow> Instruction option" where
  "vpsubd dst src0 src1 = do {
     assert_opt (is_xmm dst);
     assert_opt (is_xmm src0);
     assert_opt (is_xmm src1);
     let instr = mk_Instruction 0xfa;
     dst_hw \<leftarrow> hw_u8 dst;
     src1_hw \<leftarrow> hw_u8 src1;
     src0_hw \<leftarrow> hw_u8 src0;
     instr \<leftarrow> set_vex_modrm_and_rex_vreg dst_hw src1_hw P_0F src0_hw False P_66 instr;
     Some instr
   }"

definition vpsrldq ::
  "Register \<Rightarrow> Register \<Rightarrow> u8 \<Rightarrow> Instruction option" where
  "vpsrldq dst src imm = do {
     assert_opt (is_xmm dst);
     assert_opt (is_xmm src);
     let instr = mk_Instruction 0x73;
     src_hw \<leftarrow> hw_u8 src;
     dst_hw \<leftarrow> hw_u8 dst;
     instr \<leftarrow> set_vex_modrm_and_rex_vreg 3 src_hw P_0F dst_hw False P_66 instr;
     let instr = put_imm (mk_Imm 1 (ucast imm)) instr;
     Some instr
   }"

definition vpslldq ::
  "Register \<Rightarrow> Register \<Rightarrow> u8 \<Rightarrow> Instruction option" where
  "vpslldq dst src imm = do {
     assert_opt (is_xmm dst);
     assert_opt (is_xmm src);
     let instr = mk_Instruction 0x73;
     src_hw \<leftarrow> hw_u8 src;
     dst_hw \<leftarrow> hw_u8 dst;
     instr \<leftarrow> set_vex_modrm_and_rex_vreg 7 src_hw P_0F dst_hw False P_66 instr;
     let instr = put_imm (mk_Imm 1 (ucast imm)) instr;
     Some instr
   }"

definition vpshuflw ::
  "Register \<Rightarrow> Register \<Rightarrow> u8 \<Rightarrow> Instruction option" where
  "vpshuflw dst src imm = do {
     assert_opt (is_xmm dst);
     assert_opt (is_xmm src);
     let instr = mk_Instruction 0x70;
     dst_hw \<leftarrow> hw_u8 dst;
     src_hw \<leftarrow> hw_u8 src;
     instr \<leftarrow> set_vex_modrm_and_rex_vreg dst_hw src_hw P_0F 0 False P_F2 instr;
     let instr = put_imm (mk_Imm 1 (ucast imm)) instr;
     Some instr
   }"

definition vpshufhw ::
  "Register \<Rightarrow> Register \<Rightarrow> u8 \<Rightarrow> Instruction option" where
  "vpshufhw dst src imm = do {
     assert_opt (is_xmm dst);
     assert_opt (is_xmm src);
     let instr = mk_Instruction 0x70;
     dst_hw \<leftarrow> hw_u8 dst;
     src_hw \<leftarrow> hw_u8 src;
     instr \<leftarrow> set_vex_modrm_and_rex_vreg dst_hw src_hw P_0F 0 False P_F3 instr;
     let instr = put_imm (mk_Imm 1 (ucast imm)) instr;
     Some instr
   }"

definition shuffle_vf ::
  "Register \<Rightarrow> Register \<Rightarrow> u8 \<Rightarrow> u8 \<Rightarrow> u8 \<Rightarrow> u8 \<Rightarrow> Instruction option" where
  "shuffle_vf dst src dx dy dz dw = do {
     assert_opt (is_xmm dst);
     assert_opt (is_xmm src);
     assert_opt (dx < 4);
     assert_opt (dy < 4);
     assert_opt (dz < 4);
     assert_opt (dw < 4);
     swizzle_vf dst src (dx + push_bit 2 dy + push_bit 4 dz + push_bit 6 dw)
   }"

definition store_goal_vf ::
  "Register \<Rightarrow> Register \<Rightarrow> Register \<Rightarrow> int \<Rightarrow> Instruction option" where
  "store_goal_vf addr value off offset =
    (if offset = 0 then storevf_gpr64_plus_gpr64 value addr off
     else if fits_s8 offset then storevf_gpr64_plus_gpr64_plus_s8 value addr off offset
     else if fits_s32 offset then storevf_gpr64_plus_gpr64_plus_s32 value addr off offset
     else None)"

definition load_goal_xmm128 ::
  "Register \<Rightarrow> Register \<Rightarrow> Register \<Rightarrow> int \<Rightarrow> Instruction option" where
  "load_goal_xmm128 dst addr off offset =
    (if offset = 0 then loadvf_gpr64_plus_gpr64 dst addr off
     else if fits_s8 offset then loadvf_gpr64_plus_gpr64_plus_s8 dst addr off offset
     else if fits_s32 offset then loadvf_gpr64_plus_gpr64_plus_s32 dst addr off offset
     else None)"

end
