(* ===== verification/X86_Decode.thy ===== *)
theory X86_Decode
  imports Prelude
begin

text \<open>
  The specification the emitter is checked against: a decoder of the x86-64 instructions the
  compiler uses, as the architecture manual defines them (prefixes, REX, VEX, ModRM, SIB,
  displacement, immediate). It reads bytes and returns the instruction in assembler form with the
  bytes that follow it. Nothing here is taken from the emitter: fields are split by division and
  remainder on the byte's value, where the emitter assembles them with shifts.

  General registers are numbered 0 to 15 as in hardware; an 8-bit operand without a REX prefix
  names \<open>AH\<close>..\<open>BH\<close> for the numbers 4 to 7 (\<open>HighByte\<close>).
\<close>

section \<open>Instructions in assembler form\<close>

datatype operand =
  Gpr nat nat                                     \<comment> \<open>width in bits, number\<close>
| HighByte nat                                    \<comment> \<open>AH, CH, DH, BH as 0 to 3\<close>
| Xmm nat
| Mem nat "nat option" "(nat \<times> nat) option" int  \<comment> \<open>width, base, index and scale, displacement\<close>
| MemRip nat int                                  \<comment> \<open>width, displacement from the next instruction\<close>
| ImmI int
| CL

datatype mnemonic =
  MOV | MOVSX | MOVZX | MOVSXD | LEA | ADD | SUB | OR_OP | AND_OP | XOR_OP | CMP | NOT_OP | DIV | IDIV
| IMUL | SHL | SHR | SAR | CDQ | CQO | PUSH | POP | CALL | JMP | RET | NOP | FNOP | FWAIT
| JCC nat
| MOVSS | CVTSI2SS | CVTTSS2SI | UCOMISS | SQRTSS | ADDSS | MULSS | SUBSS | MINSS | DIVSS | MAXSS
| MOVD | MOVDQA
| VMOVAPS | VXORPS | VADDPS | VMULPS | VSUBPS | VMINPS | VDIVPS | VMAXPS | VSQRTPS
| VCVTDQ2PS | VCVTTPS2DQ | VSHUFPS | VBLENDPS | VPSRLD | VPSRAD | VPSLLD | VPSRLDQ | VPSLLDQ
| VPUNPCKLDQ | VPUNPCKHDQ | VPUNPCKLQDQ | VPUNPCKHQDQ | VPCMPEQD | VPSUBD | VPSHUFLW | VPSHUFHW

datatype x86_insn = Insn mnemonic "operand list"

section \<open>ModRM, SIB and displacement\<close>

datatype ea =
  EA_Direct nat
| EA_Mem "nat option" "(nat \<times> nat) option" int
| EA_Rip int

definition read_s32 :: "u8 list \<Rightarrow> (int \<times> u8 list) option" where
  "read_s32 bs =
    (if 4 \<le> length bs then Some (sint (le_word (take 4 bs) :: 32 word), drop 4 bs) else None)"

definition read_s8 :: "u8 list \<Rightarrow> (int \<times> u8 list) option" where
  "read_s8 bs = (case bs of [] \<Rightarrow> None | b # bs \<Rightarrow> Some (sint b, bs))"

definition read_s64 :: "u8 list \<Rightarrow> (int \<times> u8 list) option" where
  "read_s64 bs =
    (if 8 \<le> length bs then Some (sint (le_word (take 8 bs) :: 64 word), drop 8 bs) else None)"

definition read_disp :: "nat \<Rightarrow> u8 list \<Rightarrow> (int \<times> u8 list) option" where
  "read_disp md bs =
    (if md = 0 then Some (0, bs) else if md = 1 then read_s8 bs else read_s32 bs)"

definition ext_reg :: "bool \<Rightarrow> nat \<Rightarrow> nat" where
  "ext_reg e n = (if e then n + 8 else n)"

text \<open>
  \<open>rm = 4\<close> in a memory form means a SIB byte follows; index 4 without REX.X means no index;
  base 5 with \<open>mod = 0\<close> means a 32-bit displacement and no base. \<open>rm = 5\<close> with
  \<open>mod = 0\<close> is relative to the instruction pointer.
\<close>

definition decode_sib :: "nat \<Rightarrow> bool \<Rightarrow> bool \<Rightarrow> u8 list \<Rightarrow> (ea \<times> u8 list) option" where
  "decode_sib md rx rb bs =
    (case bs of
       [] \<Rightarrow> None
     | s # bs \<Rightarrow>
         let scale = 2 ^ (unat s div 64); ix = ext_reg rx (unat s div 8 mod 8);
             bse = unat s mod 8; index = (if ix = 4 then None else Some (ix, scale))
         in if bse = 5 \<and> md = 0
            then do { (d, bs) \<leftarrow> read_s32 bs; Some (EA_Mem None index d, bs) }
            else do { (d, bs) \<leftarrow> read_disp md bs; Some (EA_Mem (Some (ext_reg rb bse)) index d, bs) })"

definition decode_modrm ::
  "bool \<Rightarrow> bool \<Rightarrow> bool \<Rightarrow> u8 list \<Rightarrow> (nat \<times> ea \<times> u8 list) option" where
  "decode_modrm rr rx rb bs =
    (case bs of
       [] \<Rightarrow> None
     | m # bs \<Rightarrow>
         let md = unat m div 64; reg = ext_reg rr (unat m div 8 mod 8); rm = unat m mod 8
         in if md = 3 then Some (reg, EA_Direct (ext_reg rb rm), bs)
            else if rm = 4 then do { (e, bs) \<leftarrow> decode_sib md rx rb bs; Some (reg, e, bs) }
            else if rm = 5 \<and> md = 0 then do { (d, bs) \<leftarrow> read_s32 bs; Some (reg, EA_Rip d, bs) }
            else do { (d, bs) \<leftarrow> read_disp md bs;
                      Some (reg, EA_Mem (Some (ext_reg rb rm)) None d, bs) })"

section \<open>Operand patterns\<close>

datatype pat =
  RM nat        \<comment> \<open>ModRM operand, general register or memory of this width\<close>
| RG nat        \<comment> \<open>ModRM reg field, general register\<close>
| XRM nat       \<comment> \<open>ModRM operand, xmm register or memory\<close>
| XRG           \<comment> \<open>ModRM reg field, xmm register\<close>
| XVV           \<comment> \<open>xmm register of VEX.vvvv\<close>
| OpReg nat    \<comment> \<open>register in the low bits of the opcode\<close>
| IB           \<comment> \<open>8-bit immediate\<close>
| ID           \<comment> \<open>32-bit immediate\<close>
| IQ           \<comment> \<open>64-bit immediate\<close>
| RCL

record env =
  e_rex :: bool
  e_W :: bool
  e_R :: bool
  e_X :: bool
  e_B :: bool
  e_vvvv :: nat
  e_pfx :: u8

definition mk_env :: "bool \<Rightarrow> bool \<Rightarrow> bool \<Rightarrow> bool \<Rightarrow> bool \<Rightarrow> nat \<Rightarrow> u8 \<Rightarrow> env" where
  "mk_env rx w r x b v p =
    \<lparr>e_rex = rx, e_W = w, e_R = r, e_X = x, e_B = b, e_vvvv = v, e_pfx = p\<rparr>"

definition gpr_operand :: "env \<Rightarrow> nat \<Rightarrow> nat \<Rightarrow> operand" where
  "gpr_operand env w n =
    (if w = 8 \<and> \<not> e_rex env \<and> 4 \<le> n then HighByte (n - 4) else Gpr w n)"

fun needs_modrm :: "pat list \<Rightarrow> bool" where
  "needs_modrm [] = False"
| "needs_modrm (p # ps) = ((case p of RM _ \<Rightarrow> True | RG _ \<Rightarrow> True | XRM _ \<Rightarrow> True | XRG \<Rightarrow> True | _ \<Rightarrow> False)
     \<or> needs_modrm ps)"

fun read_imm :: "pat list \<Rightarrow> u8 list \<Rightarrow> (int \<times> u8 list) option" where
  "read_imm [] bs = Some (0, bs)"
| "read_imm (IB # _) bs = read_s8 bs"
| "read_imm (ID # _) bs = read_s32 bs"
| "read_imm (IQ # _) bs = read_s64 bs"
| "read_imm (_ # ps) bs = read_imm ps bs"

fun rm_operand :: "nat \<Rightarrow> operand \<Rightarrow> ea \<Rightarrow> operand" where
  "rm_operand w r (EA_Direct n) = r"
| "rm_operand w r (EA_Mem b i d) = Mem w b i d"
| "rm_operand w r (EA_Rip d) = MemRip w d"

definition direct_of :: "ea \<Rightarrow> nat" where
  "direct_of e = (case e of EA_Direct n \<Rightarrow> n | _ \<Rightarrow> 0)"

fun build_operand :: "env \<Rightarrow> u8 \<Rightarrow> nat \<Rightarrow> ea \<Rightarrow> int \<Rightarrow> pat \<Rightarrow> operand" where
  "build_operand env opc reg e v (RM w) = rm_operand w (gpr_operand env w (direct_of e)) e"
| "build_operand env opc reg e v (RG w) = gpr_operand env w reg"
| "build_operand env opc reg e v (XRM w) = rm_operand w (Xmm (direct_of e)) e"
| "build_operand env opc reg e v XRG = Xmm reg"
| "build_operand env opc reg e v XVV = Xmm (e_vvvv env)"
| "build_operand env opc reg e v (OpReg w) = Gpr w (ext_reg (e_B env) (unat opc mod 8))"
| "build_operand env opc reg e v IB = ImmI v"
| "build_operand env opc reg e v ID = ImmI v"
| "build_operand env opc reg e v IQ = ImmI v"
| "build_operand env opc reg e v RCL = CL"

definition decode_operands ::
  "env \<Rightarrow> u8 \<Rightarrow> mnemonic \<times> pat list \<Rightarrow> u8 list \<Rightarrow> (x86_insn \<times> u8 list) option" where
  "decode_operands env opc spec bs =
    (let (mn, ps) = spec
     in do {
       (reg, e, bs) \<leftarrow> (if needs_modrm ps then decode_modrm (e_R env) (e_X env) (e_B env) bs
                       else Some (0, EA_Direct 0, bs));
       (v, bs) \<leftarrow> read_imm ps bs;
       Some (Insn mn (map (build_operand env opc reg e v) ps), bs)
     })"

section \<open>Opcode tables\<close>

definition operand_size :: "env \<Rightarrow> nat" where
  "operand_size env = (if e_W env then 64 else if e_pfx env = 0x66 then 16 else 32)"

text \<open>The \<open>/digit\<close> of an opcode extension: the reg field of the ModRM byte that follows.\<close>

definition opcode_ext :: "u8 list \<Rightarrow> nat" where
  "opcode_ext bs = (case bs of [] \<Rightarrow> 0 | m # _ \<Rightarrow> unat m div 8 mod 8)"

definition alu_ext :: "nat \<Rightarrow> mnemonic option" where
  "alu_ext n = (if n = 0 then Some ADD else if n = 1 then Some OR_OP else if n = 4 then Some AND_OP
    else if n = 5 then Some SUB else if n = 6 then Some XOR_OP else if n = 7 then Some CMP else None)"

definition shift_ext :: "nat \<Rightarrow> mnemonic option" where
  "shift_ext n = (if n = 4 then Some SHL else if n = 5 then Some SHR else if n = 7 then Some SAR
    else None)"

definition table1 :: "env \<Rightarrow> u8 \<Rightarrow> nat \<Rightarrow> (mnemonic \<times> pat list) option" where
  "table1 env opc n =
    (let w = operand_size env in
     if opc = 0x01 then Some (ADD, [RM w, RG w])
     else if opc = 0x0b then Some (OR_OP, [RG w, RM w])
     else if opc = 0x23 then Some (AND_OP, [RG w, RM w])
     else if opc = 0x29 then Some (SUB, [RM w, RG w])
     else if opc = 0x33 then Some (XOR_OP, [RG w, RM w])
     else if opc = 0x3b then Some (CMP, [RG w, RM w])
     else if 0x50 \<le> opc \<and> opc \<le> 0x57 then Some (PUSH, [OpReg 64])
     else if 0x58 \<le> opc \<and> opc \<le> 0x5f then Some (POP, [OpReg 64])
     else if opc = 0x63 then Some (MOVSXD, [RG w, RM 32])
     else if opc = 0x81 then map_option (\<lambda>m. (m, [RM w, ID])) (alu_ext n)
     else if opc = 0x83 then map_option (\<lambda>m. (m, [RM w, IB])) (alu_ext n)
     else if opc = 0x88 then Some (MOV, [RM 8, RG 8])
     else if opc = 0x89 then Some (MOV, [RM w, RG w])
     else if opc = 0x8b then Some (MOV, [RG w, RM w])
     else if opc = 0x8d then Some (LEA, [RG w, RM 0])
     else if opc = 0x90 then Some (NOP, [])
     else if opc = 0x99 then Some (if e_W env then CQO else CDQ, [])
     else if opc = 0x9b then Some (FWAIT, [])
     else if 0xb8 \<le> opc \<and> opc \<le> 0xbf then Some (MOV, [OpReg w, if e_W env then IQ else ID])
     else if opc = 0xc1 then map_option (\<lambda>m. (m, [RM w, IB])) (shift_ext n)
     else if opc = 0xc3 then Some (RET, [])
     else if opc = 0xc7 \<and> n = 0 then Some (MOV, [RM w, ID])
     else if opc = 0xd3 then map_option (\<lambda>m. (m, [RM w, RCL])) (shift_ext n)
     else if opc = 0xe9 then Some (JMP, [ID])
     else if opc = 0xf7 \<and> n = 2 then Some (NOT_OP, [RM w])
     else if opc = 0xf7 \<and> n = 6 then Some (DIV, [RM w])
     else if opc = 0xf7 \<and> n = 7 then Some (IDIV, [RM w])
     else if opc = 0xff \<and> n = 2 then Some (CALL, [RM 64])
     else if opc = 0xff \<and> n = 4 then Some (JMP, [RM 64])
     else None)"

definition table2 :: "env \<Rightarrow> u8 \<Rightarrow> (mnemonic \<times> pat list) option" where
  "table2 env opc =
    (let w = operand_size env; g = (if e_W env then 64 else 32) in
     if e_pfx env = 0xf3 then
       (if opc = 0x10 then Some (MOVSS, [XRG, XRM 32])
        else if opc = 0x11 then Some (MOVSS, [XRM 32, XRG])
        else if opc = 0x2a then Some (CVTSI2SS, [XRG, RM g])
        else if opc = 0x2c then Some (CVTTSS2SI, [RG g, XRM 32])
        else if opc = 0x51 then Some (SQRTSS, [XRG, XRM 32])
        else if opc = 0x58 then Some (ADDSS, [XRG, XRM 32])
        else if opc = 0x59 then Some (MULSS, [XRG, XRM 32])
        else if opc = 0x5c then Some (SUBSS, [XRG, XRM 32])
        else if opc = 0x5d then Some (MINSS, [XRG, XRM 32])
        else if opc = 0x5e then Some (DIVSS, [XRG, XRM 32])
        else if opc = 0x5f then Some (MAXSS, [XRG, XRM 32])
        else None)
     else if e_pfx env = 0x66 then
       (if opc = 0x6e then Some (MOVD, [XRG, RM g])
        else if opc = 0x7e then Some (MOVD, [RM g, XRG])
        else if opc = 0x6f then Some (MOVDQA, [XRG, XRM 128])
        else if opc = 0x7f then Some (MOVDQA, [XRM 128, XRG])
        else None)
     else if e_pfx env = 0 then
       (if opc = 0x2e then Some (UCOMISS, [XRG, XRM 32])
        else if 0x80 \<le> opc \<and> opc \<le> 0x8f then Some (JCC (unat opc mod 16), [ID])
        else if opc = 0xaf then Some (IMUL, [RG w, RM w])
        else if opc = 0xb6 then Some (MOVZX, [RG w, RM 8])
        else if opc = 0xb7 then Some (MOVZX, [RG w, RM 16])
        else if opc = 0xbe then Some (MOVSX, [RG w, RM 8])
        else if opc = 0xbf then Some (MOVSX, [RG w, RM 16])
        else None)
     else None)"

text \<open>
  AVX, 128-bit forms. An instruction with two operands requires VEX.vvvv to name no register
  (all ones in the encoding, 0 after inversion).
\<close>

definition table_vex :: "env \<Rightarrow> nat \<Rightarrow> u8 \<Rightarrow> nat \<Rightarrow> (mnemonic \<times> pat list) option" where
  "table_vex env mm opc n =
    (let p = e_pfx env; u = (e_vvvv env = 0) in
     if mm = 1 then
       (if p = 0 then
          (if opc = 0x28 \<and> u then Some (VMOVAPS, [XRG, XRM 128])
           else if opc = 0x29 \<and> u then Some (VMOVAPS, [XRM 128, XRG])
           else if opc = 0x51 \<and> u then Some (VSQRTPS, [XRG, XRM 128])
           else if opc = 0x57 then Some (VXORPS, [XRG, XVV, XRM 128])
           else if opc = 0x58 then Some (VADDPS, [XRG, XVV, XRM 128])
           else if opc = 0x59 then Some (VMULPS, [XRG, XVV, XRM 128])
           else if opc = 0x5b \<and> u then Some (VCVTDQ2PS, [XRG, XRM 128])
           else if opc = 0x5c then Some (VSUBPS, [XRG, XVV, XRM 128])
           else if opc = 0x5d then Some (VMINPS, [XRG, XVV, XRM 128])
           else if opc = 0x5e then Some (VDIVPS, [XRG, XVV, XRM 128])
           else if opc = 0x5f then Some (VMAXPS, [XRG, XVV, XRM 128])
           else if opc = 0xc6 then Some (VSHUFPS, [XRG, XVV, XRM 128, IB])
           else None)
        else if p = 0xf3 then
          (if opc = 0x5b \<and> u then Some (VCVTTPS2DQ, [XRG, XRM 128])
           else if opc = 0x70 \<and> u then Some (VPSHUFHW, [XRG, XRM 128, IB])
           else None)
        else if p = 0xf2 then
          (if opc = 0x70 \<and> u then Some (VPSHUFLW, [XRG, XRM 128, IB]) else None)
        else
          (if opc = 0x62 then Some (VPUNPCKLDQ, [XRG, XVV, XRM 128])
           else if opc = 0x6a then Some (VPUNPCKHDQ, [XRG, XVV, XRM 128])
           else if opc = 0x6c then Some (VPUNPCKLQDQ, [XRG, XVV, XRM 128])
           else if opc = 0x6d then Some (VPUNPCKHQDQ, [XRG, XVV, XRM 128])
           else if opc = 0x72 \<and> n = 2 then Some (VPSRLD, [XVV, XRM 128, IB])
           else if opc = 0x72 \<and> n = 4 then Some (VPSRAD, [XVV, XRM 128, IB])
           else if opc = 0x72 \<and> n = 6 then Some (VPSLLD, [XVV, XRM 128, IB])
           else if opc = 0x73 \<and> n = 3 then Some (VPSRLDQ, [XVV, XRM 128, IB])
           else if opc = 0x73 \<and> n = 7 then Some (VPSLLDQ, [XVV, XRM 128, IB])
           else if opc = 0x76 then Some (VPCMPEQD, [XRG, XVV, XRM 128])
           else if opc = 0xfa then Some (VPSUBD, [XRG, XVV, XRM 128])
           else None))
     else if mm = 3 \<and> p = 0x66 \<and> opc = 0x0c then Some (VBLENDPS, [XRG, XVV, XRM 128, IB])
     else None)"

section \<open>Whole instructions\<close>

definition vex_pfx :: "nat \<Rightarrow> u8" where
  "vex_pfx pp = (if pp = 0 then 0 else if pp = 1 then 0x66 else if pp = 2 then 0xf3 else 0xf2)"

text \<open>\<open>decode_vex\<close> sees the bytes after \<open>C4\<close> or \<open>C5\<close>; the fields R, X, B and vvvv are inverted.\<close>

definition decode_vex_op ::
  "nat \<Rightarrow> bool \<Rightarrow> bool \<Rightarrow> bool \<Rightarrow> u8 \<Rightarrow> u8 list \<Rightarrow> (x86_insn \<times> u8 list) option" where
  "decode_vex_op mm r x b lastb bs =
    (case bs of
       [] \<Rightarrow> None
     | opc # bs \<Rightarrow>
         let env = mk_env True False r x b (15 - unat lastb div 8 mod 16) (vex_pfx (unat lastb mod 4))
         in if bit lastb 2 then None
            else do { spec \<leftarrow> table_vex env mm opc (opcode_ext bs); decode_operands env opc spec bs })"

definition decode_vex2 :: "u8 list \<Rightarrow> (x86_insn \<times> u8 list) option" where
  "decode_vex2 bs =
    (case bs of v # bs \<Rightarrow> decode_vex_op 1 (\<not> bit v 7) False False v bs | _ \<Rightarrow> None)"

definition decode_vex3 :: "u8 list \<Rightarrow> (x86_insn \<times> u8 list) option" where
  "decode_vex3 bs =
    (case bs of v # u # bs \<Rightarrow>
       decode_vex_op (unat v mod 32) (\<not> bit v 7) (\<not> bit v 6) (\<not> bit v 5) u bs | _ \<Rightarrow> None)"

definition decode_opcode :: "env \<Rightarrow> u8 list \<Rightarrow> (x86_insn \<times> u8 list) option" where
  "decode_opcode env bs =
    (case bs of
       [] \<Rightarrow> None
     | opc # bs \<Rightarrow>
         if opc = 0x0f then
           (case bs of
              [] \<Rightarrow> None
            | opc # bs \<Rightarrow> do { spec \<leftarrow> table2 env opc; decode_operands env opc spec bs })
         else if opc = 0xd9 then
           (case bs of [] \<Rightarrow> None | b # bs \<Rightarrow> if b = 0xd0 then Some (Insn FNOP [], bs) else None)
         else do { spec \<leftarrow> table1 env opc (opcode_ext bs); decode_operands env opc spec bs })"

definition is_rex :: "u8 \<Rightarrow> bool" where
  "is_rex b \<longleftrightarrow> unat b div 16 = 4"

definition decode_rex :: "u8 \<Rightarrow> u8 list \<Rightarrow> (x86_insn \<times> u8 list) option" where
  "decode_rex p bs =
    (case bs of
       [] \<Rightarrow> None
     | b # bs' \<Rightarrow>
         if is_rex b
         then decode_opcode (mk_env True (bit b 3) (bit b 2) (bit b 1) (bit b 0) 0 p) bs'
         else decode_opcode (mk_env False False False False False 0 p) bs)"

definition decode :: "u8 list \<Rightarrow> (x86_insn \<times> u8 list) option" where
  "decode bs =
    (case bs of
       [] \<Rightarrow> None
     | b # bs' \<Rightarrow>
         if b = 0xc5 then decode_vex2 bs'
         else if b = 0xc4 then decode_vex3 bs'
         else if b = 0x66 \<or> b = 0xf3 \<or> b = 0xf2 then decode_rex b bs'
         else decode_rex 0 bs)"

end
