(* ===== verification/Emit_Lemmas.thy ===== *)
theory Emit_Lemmas
  imports IGen_Vec X86_Decode
begin

text \<open>
  The bytes the setters of \<^verbatim>\<open>Instruction.h\<close> build, read back by the fields of the
  decoder, and one lemma per addressing mode.
\<close>

named_theorems emit_simps \<open>unfolds emission and the plain setters\<close>
named_theorems decode_simps \<open>evaluates the decoder on the emitter's bytes\<close>

section \<open>ModRM and SIB bytes\<close>

definition modrm_of :: "nat \<Rightarrow> nat \<Rightarrow> nat \<Rightarrow> u8" where
  "modrm_of md reg rm = modrm_byte \<lparr>mr_mod = of_nat md, mr_reg_op = of_nat reg, mr_rm = of_nat rm\<rparr>"

lemma sib_byte_modrm:
  "sib_byte \<lparr>sib_scale = s, sib_index = i, sib_base = b\<rparr> =
   modrm_byte \<lparr>mr_mod = s, mr_reg_op = i, mr_rm = b\<rparr>"
  by (simp add: sib_byte_def modrm_byte_def)

lemma modrm_of_table:
  "list_all (\<lambda>md. list_all (\<lambda>reg. list_all (\<lambda>rm. let n = unat (modrm_of md reg rm)
      in n div 64 = md \<and> n div 8 mod 8 = reg \<and> n mod 8 = rm) [0..<8]) [0..<8]) [0..<4]"
  by code_simp

lemma modrm_of_fields [decode_simps]:
  assumes "md < 4" "reg < 8" "rm < 8"
  shows "unat (modrm_of md reg rm) div 64 = md"
    and "unat (modrm_of md reg rm) div 8 mod 8 = reg"
    and "unat (modrm_of md reg rm) mod 8 = rm"
  using modrm_of_table assms by (simp_all add: list_all_iff Let_def)

section \<open>REX and VEX bytes\<close>

abbreviation rexb :: "bool \<Rightarrow> bool \<Rightarrow> bool \<Rightarrow> bool \<Rightarrow> u8" where
  "rexb w r x b \<equiv> rex_byte (mk_REX w r x b)"

lemma rex_byte_decode [decode_simps]:
  "is_rex (rexb w r x b)"
  "bit (rexb w r x b) 3 = w" "bit (rexb w r x b) 2 = r"
  "bit (rexb w r x b) (Suc 0) = x" "bit (rexb w r x b) 0 = b"
  by (cases w; cases r; cases x; cases b; simp add: rex_byte_def mk_REX_def is_rex_def)+

lemma is_rex_neq [decode_simps]:
  "is_rex b \<Longrightarrow> b \<noteq> 0xc5" "is_rex b \<Longrightarrow> b \<noteq> 0xc4" "is_rex b \<Longrightarrow> b \<noteq> 0x66"
  "is_rex b \<Longrightarrow> b \<noteq> 0xf3" "is_rex b \<Longrightarrow> b \<noteq> 0xf2"
  by (auto simp: is_rex_def)

definition vex_b1 :: "bool \<Rightarrow> bool \<Rightarrow> bool \<Rightarrow> LeadingBytes \<Rightarrow> u8" where
  "vex_b1 r x b lb = push_bit 7 (of_bool (\<not> r)) OR push_bit 6 (of_bool (\<not> x))
     OR push_bit 5 (of_bool (\<not> b)) OR (0b11111 AND leading_bytes_val lb)"

definition vex_b2 :: "bool \<Rightarrow> nat \<Rightarrow> VexPrefix \<Rightarrow> u8" where
  "vex_b2 hi v p = push_bit 7 (of_bool hi) OR push_bit 3 (NOT (of_nat v) AND 0b1111)
     OR push_bit 2 (of_bool False) OR (vex_prefix_val p AND 0b11)"

lemma put_vex3_eq [emit_simps]:
  "put_vex3 (mk_VEX3 w r x b lb (of_nat v) p False) i =
   Some (i\<lparr>n_vex := 3, i_vex := (i_vex i)[0 := 0xc4, 1 := vex_b1 r x b lb, 2 := vex_b2 w v p]\<rparr>)"
  by (simp add: put_vex3_def vex3_emit_def mk_VEX3_def vex_b1_def vex_b2_def)

lemma put_vex2_eq [emit_simps]:
  "put_vex2 (mk_VEX2 r (of_nat v) p False) i =
   Some (i\<lparr>n_vex := 2, i_vex := (i_vex i)[0 := 0xc5, 1 := vex_b2 (\<not> r) v p]\<rparr>)"
  by (simp add: put_vex2_def vex2_emit_def mk_VEX2_def vex_b2_def)

lemma vex_b1_decode [decode_simps]:
  "bit (vex_b1 r x b lb) 7 = (\<not> r)" "bit (vex_b1 r x b lb) 6 = (\<not> x)"
  "bit (vex_b1 r x b lb) 5 = (\<not> b)"
  "unat (vex_b1 r x b P_0F) mod 32 = 1" "unat (vex_b1 r x b P_0F_3A) mod 32 = 3"
  by (cases r; cases x; cases b; cases lb; simp add: vex_b1_def)+

lemma vex_b2_table:
  "list_all (\<lambda>hi. list_all (\<lambda>v. list_all (\<lambda>p. let w = vex_b2 hi v p
      in bit w 7 = hi \<and> unat w div 8 mod 16 = 15 - v \<and> \<not> bit w 2 \<and>
         unat w mod 4 = unat (vex_prefix_val p))
      [P_NONE, P_66, P_F3, P_F2]) [0..<16]) [True, False]"
  by code_simp

lemma vex_b2_decode [decode_simps]:
  assumes "v < 16"
  shows "bit (vex_b2 hi v p) 7 = hi" and "unat (vex_b2 hi v p) div 8 mod 16 = 15 - v"
    and "\<not> bit (vex_b2 hi v p) 2" and "unat (vex_b2 hi v p) mod 4 = unat (vex_prefix_val p)"
proof -
  have "hi \<in> set [True, False]" "v \<in> set [0..<16]" "p \<in> set [P_NONE, P_66, P_F3, P_F2]"
    using assms by (cases hi; cases p; simp)+
  then show "bit (vex_b2 hi v p) 7 = hi" and "unat (vex_b2 hi v p) div 8 mod 16 = 15 - v"
    and "\<not> bit (vex_b2 hi v p) 2" and "unat (vex_b2 hi v p) mod 4 = unat (vex_prefix_val p)"
    using vex_b2_table unfolding list_all_iff Let_def by blast+
qed

section \<open>Registers as hardware numbers\<close>

text \<open>
  \<open>lo n\<close> and \<open>hi n\<close> are the two parts of a register number that the encoding keeps apart.
\<close>

definition lo :: "nat \<Rightarrow> nat" where "lo n = n mod 8"
definition hi :: "nat \<Rightarrow> bool" where "hi n \<longleftrightarrow> 8 \<le> n"

definition gpr :: "nat \<Rightarrow> Register" where "gpr n = Register (int n)"
definition xmm :: "nat \<Rightarrow> Register" where "xmm n = Register (int n + 16)"

lemma lo_less [simp]: "lo n < 8" by (simp add: lo_def)

lemma ext_reg_lo_hi [decode_simps]:
  assumes "e = hi n" "n < 16"
  shows "ext_reg e (lo n) = n"
proof (cases "8 \<le> n")
  case True
  then have "n mod 8 = n - 8" using assms(2) le_mod_geq [of 8 n] by simp
  with True assms(1) show ?thesis by (simp add: ext_reg_def hi_def lo_def)
qed (use assms in \<open>simp add: ext_reg_def hi_def lo_def\<close>)

lemma is_gpr_gpr [simp]: "n < 16 \<Longrightarrow> is_gpr (gpr n)"
  by (simp add: is_gpr_def gpr_def)

lemma is_xmm_xmm [simp]: "n < 16 \<Longrightarrow> is_xmm (xmm n)"
  by (simp add: is_xmm_def xmm_def)

lemma is_gprE:
  assumes "is_gpr r"
  obtains n where "n < 16" "r = gpr n"
proof (cases r)
  case (Register k)
  with assms have "nat (k) < 16" "r = gpr (nat (k))"
    by (simp_all add: is_gpr_def gpr_def nat_less_iff)
  then show ?thesis using that by blast
qed

lemma is_xmmE:
  assumes "is_xmm r"
  obtains n where "n < 16" "r = xmm n"
proof (cases r)
  case (Register k)
  with assms have "nat (k - 16) < 16" "r = xmm (nat (k - 16))"
    by (simp_all add: is_xmm_def xmm_def nat_less_iff)
  then show ?thesis using that by blast
qed

lemma hw_id_gpr [emit_simps]: "n < 16 \<Longrightarrow> hw_id (gpr n) = Some (int n)"
  by (simp add: hw_id_def is_gpr_def is_xmm_def gpr_def)

lemma hw_id_xmm [emit_simps]: "n < 16 \<Longrightarrow> hw_id (xmm n) = Some (int n)"
  by (simp add: hw_id_def is_gpr_def is_xmm_def xmm_def)

lemma hw_u8_gpr [emit_simps]: "n < 16 \<Longrightarrow> hw_u8 (gpr n) = Some (of_nat n)"
  by (simp add: hw_u8_def hw_id_gpr)

lemma hw_u8_xmm [emit_simps]: "n < 16 \<Longrightarrow> hw_u8 (xmm n) = Some (of_nat n)"
  by (simp add: hw_u8_def hw_id_xmm)

lemma m_id_gpr [emit_simps]: "m_id (gpr n) = int n"
  by (simp add: gpr_def)

lemma gpr_eq_iff [simp]: "gpr a = gpr b \<longleftrightarrow> a = b"
  by (simp add: gpr_def)

lemma gpr_RSP [simp]: "gpr a = Reg RSP \<longleftrightarrow> a = 4"
  by (auto simp: gpr_def Reg_eq)

text \<open>The step that begins every addressing mode.\<close>

lemma split_reg [emit_simps]:
  assumes "n < 16"
  shows "(if 8 \<le> (of_nat n :: u8) then (of_nat n - 8 :: u8, True) else (of_nat n, False)) =
    (of_nat (lo n), hi n)"
proof -
  have "n \<in> set [0..<16]" using assms by simp
  moreover have "list_all (\<lambda>n. (if 8 \<le> (of_nat n :: u8) then (of_nat n - 8 :: u8, True)
      else (of_nat n, False)) = (of_nat (lo n), hi n)) [0..<16]"
    by code_simp
  ultimately show ?thesis by (simp only: list_all_iff)
qed

lemma of_nat_lo_eq [emit_simps]:
  "((of_nat (lo n) :: u8) = 4) = (lo n = 4)" "((of_nat (lo n) :: u8) = 5) = (lo n = 5)"
proof -
  have "lo n \<in> set [0..<8]" by simp
  moreover have "list_all (\<lambda>k. ((of_nat k :: u8) = 4) = (k = 4) \<and> ((of_nat k :: u8) = 5) = (k = 5)) [0..<8]"
    by code_simp
  ultimately show "((of_nat (lo n) :: u8) = 4) = (lo n = 4)" "((of_nat (lo n) :: u8) = 5) = (lo n = 5)"
    by (simp_all only: list_all_iff)
qed

text \<open>The hand-written splits of \<^verbatim>\<open>call_r64\<close>, \<^verbatim>\<open>push_gpr64\<close> and the constant moves.\<close>

lemma int_minus_hi: "8 \<le> n \<Longrightarrow> n < 16 \<Longrightarrow> int n - 8 = int (lo n)"
  by (simp add: lo_def le_mod_geq of_nat_diff)

lemma of_nat_hi: "8 \<le> n \<Longrightarrow> n < 16 \<Longrightarrow> (of_nat n :: u8) = 8 + of_nat (lo n)"
proof -
  assume "8 \<le> n" "n < 16"
  then have "n = 8 + lo n" by (simp add: lo_def le_mod_geq)
  then have "(of_nat n :: u8) = of_nat (8 + lo n)" by (rule arg_cong)
  then show ?thesis by simp
qed

lemma hi_loE:
  assumes "n < 16"
  obtains "hi n" "8 \<le> n" "int n - 8 = int (lo n)"
      "(of_nat n :: u8) = 8 + of_nat (lo n)" | "\<not> hi n" "n < 8" "lo n = n"
proof (cases "8 \<le> n")
  case True
  with assms show ?thesis by (intro that(1)) (simp_all add: hi_def int_minus_hi of_nat_hi)
next
  case False
  then show ?thesis by (intro that(2)) (simp_all add: hi_def lo_def)
qed

lemma less_8E:
  assumes "(n :: nat) < 8"
  obtains "n = 0" | "n = 1" | "n = 2" | "n = 3" | "n = 4" | "n = 5" | "n = 6" | "n = 7"
  using assms by linarith

section \<open>Immediates and displacements\<close>

lemma imm_bytes_mk [emit_simps]:
  "imm_bytes (mk_Imm 1 v) = le_bytes (Suc 0) v" "imm_bytes (mk_Imm 4 v) = le_bytes 4 v"
  "imm_bytes (mk_Imm 8 v) = le_bytes 8 v"
  by (simp_all add: imm_bytes_def mk_Imm_def)

lemma read_s8_le_bytes: "read_s8 (le_bytes (Suc 0) (b :: u8) @ bs) = Some (sint b, bs)"
  by (simp add: read_s8_def le_bytes_def byte_of_def)

lemma read_s32_le_bytes: "read_s32 (le_bytes 4 (w :: u32) @ bs) = Some (sint w, bs)"
  by (simp add: read_s32_def)

lemma read_s64_le_bytes [decode_simps]: "read_s64 (le_bytes 8 (w :: u64) @ bs) = Some (sint w, bs)"
  by (simp add: read_s64_def)

lemma read_s8_scast [decode_simps]:
  "read_s8 (le_bytes (Suc 0) (scast (b :: u8) :: u64) @ bs) = Some (sint b, bs)"
  by (simp add: le_bytes_scast read_s8_le_bytes [simplified])

lemma read_s8_ucast [decode_simps]:
  "read_s8 (le_bytes (Suc 0) (ucast (b :: u8) :: u64) @ bs) = Some (sint b, bs)"
proof -
  have "byte_of (ucast b :: u64) 0 = b"
    by (rule bit_word_eqI) (simp add: bit_byte_of bit_ucast_iff)
  then show ?thesis by (simp add: read_s8_def le_bytes_def)
qed

lemma read_s8_zero [decode_simps]: "read_s8 (le_bytes (Suc 0) (0 :: u64) @ bs) = Some (0, bs)"
  using read_s8_ucast [of 0] by simp

lemma read_s32_scast [decode_simps]:
  "read_s32 (le_bytes 4 (scast (w :: u32) :: u64) @ bs) = Some (sint w, bs)"
  by (simp add: le_bytes_scast read_s32_le_bytes)

lemma read_s32_zero [decode_simps]: "read_s32 (le_bytes 4 (0 :: u64) @ bs) = Some (0, bs)"
  using read_s32_scast [of 0] by simp

lemma read_s8_of_int [decode_simps]:
  assumes "fits_s8 x"
  shows "read_s8 (le_bytes (Suc 0) (word_of_int x :: u64) @ bs) = Some (x, bs)"
proof -
  have "le_bytes (Suc 0) (word_of_int x :: u64) = le_bytes (Suc 0) (word_of_int x :: u8)"
    by (rule le_bytes_word_of_int) simp_all
  then show ?thesis
    by (simp only: read_s8_le_bytes sint_word_of_int_s8 [OF assms])
qed

lemma read_s32_of_int [decode_simps]:
  assumes "fits_s32 x"
  shows "read_s32 (le_bytes 4 (word_of_int x :: u64) @ bs) = Some (x, bs)"
proof -
  have "le_bytes 4 (word_of_int x :: u64) = le_bytes 4 (word_of_int x :: u32)"
    by (rule le_bytes_word_of_int) simp_all
  then show ?thesis
    by (simp only: read_s32_le_bytes sint_word_of_int_s32 [OF assms])
qed

section \<open>Addressing modes: what the setters build\<close>

text \<open>
  \<open>with_rex\<close> and \<open>with_vex\<close> are the two ways a setter records the extension bits.
\<close>

definition with_rex :: "bool \<Rightarrow> bool \<Rightarrow> bool \<Rightarrow> bool \<Rightarrow> Instruction \<Rightarrow> Instruction" where
  "with_rex w r x b i =
    (if w \<or> r \<or> x \<or> b then i\<lparr>m_rex := rexb w r x b, set_rex := True\<rparr> else i)"

definition with_vex ::
  "bool \<Rightarrow> bool \<Rightarrow> bool \<Rightarrow> LeadingBytes \<Rightarrow> nat \<Rightarrow> VexPrefix \<Rightarrow> Instruction \<Rightarrow> Instruction" where
  "with_vex r x b lb v p i =
    (if x \<or> b \<or> lb \<noteq> P_0F
     then i\<lparr>n_vex := 3, i_vex := (i_vex i)[0 := 0xc4, 1 := vex_b1 r x b lb, 2 := vex_b2 False v p]\<rparr>
     else i\<lparr>n_vex := 2, i_vex := (i_vex i)[0 := 0xc5, 1 := vex_b2 (\<not> r) v p]\<rparr>)"

definition with_modrm :: "nat \<Rightarrow> nat \<Rightarrow> nat \<Rightarrow> Instruction \<Rightarrow> Instruction" where
  "with_modrm md r m i = i\<lparr>m_modrm := modrm_of md r m, set_modrm := True\<rparr>"

definition with_sib :: "nat \<Rightarrow> nat \<Rightarrow> Instruction \<Rightarrow> Instruction" where
  "with_sib ix bs i = i\<lparr>m_sib := modrm_of 0 ix bs, set_sib := True\<rparr>"

lemma put_vex3_0 [emit_simps]:
  "put_vex3 (mk_VEX3 w r x b lb 0 p False) i =
   Some (i\<lparr>n_vex := 3, i_vex := (i_vex i)[0 := 0xc4, 1 := vex_b1 r x b lb, 2 := vex_b2 w 0 p]\<rparr>)"
  using put_vex3_eq [of w r x b lb 0 p i] by simp

lemma put_vex2_0 [emit_simps]:
  "put_vex2 (mk_VEX2 r 0 p False) i =
   Some (i\<lparr>n_vex := 2, i_vex := (i_vex i)[0 := 0xc5, 1 := vex_b2 (\<not> r) 0 p]\<rparr>)"
  using put_vex2_eq [of r 0 p i] by simp

lemma set_modrm_and_rex_direct [emit_simps]:
  assumes "r < 16" "m < 16"
  shows "set_modrm_and_rex (of_nat r) (of_nat m) 3 w i =
    with_rex w (hi r) False (hi m) (with_modrm 3 (lo r) (lo m) i)"
  using assms
  by (simp add: set_modrm_and_rex_def split_reg put_modrm_def modrm_of_def with_rex_def
      with_modrm_def put_rex_def disj_ac)

lemma lo_hi_digit: "d < 8 \<Longrightarrow> lo d = d" "d < 8 \<Longrightarrow> \<not> hi d"
  by (simp_all add: lo_def hi_def)

lemma set_modrm_and_rex_of_digit:
  "d < 8 \<Longrightarrow> m < 16 \<Longrightarrow> set_modrm_and_rex (of_nat d) (of_nat m) 3 w i =
    with_rex w False False (hi m) (with_modrm 3 d (lo m) i)"
  by (simp add: set_modrm_and_rex_direct lo_hi_digit)

lemma set_modrm_and_rex_digit [emit_simps]:
  "numeral k < (8 :: nat) \<Longrightarrow> m < 16 \<Longrightarrow> set_modrm_and_rex (numeral k) (of_nat m) 3 w i =
    with_rex w False False (hi m) (with_modrm 3 (numeral k) (lo m) i)"
  using set_modrm_and_rex_of_digit [of "numeral k" m w i] by simp

lemma set_modrm_and_rex_zero [emit_simps]:
  assumes "m < 16"
  shows "set_modrm_and_rex 0 (of_nat m) 3 w i =
    with_rex w False False (hi m) (with_modrm 3 0 (lo m) i)"
  using set_modrm_and_rex_direct [of 0 m w i] assms by (simp add: lo_def hi_def)

lemma set_vex_modrm_and_rex_direct [emit_simps]:
  assumes "r < 16" "m < 16"
  shows "set_vex_modrm_and_rex (of_nat r) (of_nat m) 3 P_0F False i =
    Some (with_vex (hi r) False (hi m) P_0F 0 P_NONE (with_modrm 3 (lo r) (lo m) i))"
  using assms
  by (simp add: set_vex_modrm_and_rex_def split_reg put_modrm_def modrm_of_def with_vex_def
      with_modrm_def put_vex3_0 put_vex2_0)

lemma set_vex_modrm_and_rex_vreg_direct [emit_simps]:
  assumes "r < 16" "m < 16"
  shows "set_vex_modrm_and_rex_vreg (of_nat r) (of_nat m) lb (of_nat v) False p i =
    Some (with_vex (hi r) False (hi m) lb v p (with_modrm 3 (lo r) (lo m) i))"
  using assms
  by (simp add: set_vex_modrm_and_rex_vreg_def split_reg put_modrm_def modrm_of_def with_vex_def
      with_modrm_def put_vex3_eq put_vex2_eq)

lemma set_vex_modrm_and_rex_vreg_0 [emit_simps]:
  assumes "r < 16" "m < 16"
  shows "set_vex_modrm_and_rex_vreg (of_nat r) (of_nat m) lb 0 False p i =
    Some (with_vex (hi r) False (hi m) lb 0 p (with_modrm 3 (lo r) (lo m) i))"
  using set_vex_modrm_and_rex_vreg_direct [of r m lb 0 p i] assms by simp

lemma set_vex_modrm_and_rex_vreg_of_digit:
  "d < 8 \<Longrightarrow> m < 16 \<Longrightarrow>
   set_vex_modrm_and_rex_vreg (of_nat d) (of_nat m) lb (of_nat v) False p i =
   Some (with_vex False False (hi m) lb v p (with_modrm 3 d (lo m) i))"
  by (simp add: set_vex_modrm_and_rex_vreg_direct lo_hi_digit)

lemma set_vex_modrm_and_rex_vreg_digit [emit_simps]:
  "numeral k < (8 :: nat) \<Longrightarrow> m < 16 \<Longrightarrow>
   set_vex_modrm_and_rex_vreg (numeral k) (of_nat m) lb (of_nat v) False p i =
   Some (with_vex False False (hi m) lb v p (with_modrm 3 (numeral k) (lo m) i))"
  using set_vex_modrm_and_rex_vreg_of_digit [of "numeral k" m lb v p i] by simp

text \<open>
  Base and index of the two-register modes: the first address register is the index unless its
  low bits are 4 (or, without displacement, the second one's are 5). GOAL accesses require two
  different registers, neither of them \<open>rsp\<close>, which makes the choice always possible.
\<close>

definition ix_of :: "bool \<Rightarrow> nat \<Rightarrow> nat \<Rightarrow> nat" where
  "ix_of flip a b = (if flip then b else a)"

definition base_of :: "bool \<Rightarrow> nat \<Rightarrow> nat \<Rightarrow> nat" where
  "base_of flip a b = (if flip then a else b)"

definition both5 :: "nat \<Rightarrow> nat \<Rightarrow> bool" where
  "both5 a b \<longleftrightarrow> lo a = 5 \<and> lo b = 5"

definition flip0 :: "nat \<Rightarrow> nat \<Rightarrow> bool" where
  "flip0 a b \<longleftrightarrow> \<not> both5 a b \<and> (lo a = 4 \<or> lo b = 5)"

definition valid2 :: "nat \<Rightarrow> nat \<Rightarrow> bool" where
  "valid2 a b \<longleftrightarrow> a < 16 \<and> b < 16 \<and> a \<noteq> b \<and> a \<noteq> 4 \<and> b \<noteq> 4"

lemma lo_4_cases: "n < 16 \<Longrightarrow> lo n = 4 \<Longrightarrow> n = 4 \<or> n = 12"
  unfolding lo_def by presburger

lemma valid2D: "valid2 a b \<Longrightarrow> a < 16" "valid2 a b \<Longrightarrow> b < 16" "valid2 a b \<Longrightarrow> lo a = 4 \<Longrightarrow> lo b \<noteq> 4"
  using lo_4_cases by (auto simp: valid2_def)

lemma valid2_asserts [decode_simps]:
  "valid2 a b \<Longrightarrow> a \<noteq> b" "valid2 a b \<Longrightarrow> a \<noteq> 4" "valid2 a b \<Longrightarrow> b \<noteq> 4"
  "valid2 a b \<Longrightarrow> a < 16" "valid2 a b \<Longrightarrow> b < 16"
  by (auto simp: valid2_def)

lemma ix_base_less [decode_simps]:
  "valid2 a b \<Longrightarrow> ix_of f a b < 16" "valid2 a b \<Longrightarrow> base_of f a b < 16"
  by (auto simp: ix_of_def base_of_def valid2_def)

lemma lo_ix_of [decode_simps]:
  "valid2 a b \<Longrightarrow> lo (ix_of (lo a = 4) a b) \<noteq> 4"
  "valid2 a b \<Longrightarrow> lo (ix_of (flip0 a b) a b) \<noteq> 4"
  "\<not> both5 a b \<Longrightarrow> lo (base_of (flip0 a b) a b) \<noteq> 5"
  by (auto simp: ix_of_def base_of_def flip0_def both5_def dest: valid2D)

lemma set_modrm_and_rex_for_reg_plus_reg_plus_s8_eq [emit_simps]:
  assumes "r < 16" "valid2 a b"
  shows "set_modrm_and_rex_for_reg_plus_reg_plus_s8 (of_nat r) (of_nat a) (of_nat b) off w i =
    (let x = ix_of (lo a = 4) a b; y = base_of (lo a = 4) a b
     in Some (put_disp (mk_Imm 1 (scast off)) (with_sib (lo x) (lo y) (with_modrm 1 (lo r) 4
          (with_rex w (hi r) (hi x) (hi y) i)))))"
  using assms valid2D [OF assms(2)]
  by (cases "lo a = 4"; cases "lo b = 4")
    (simp_all add: set_modrm_and_rex_for_reg_plus_reg_plus_s8_def split_reg of_nat_lo_eq
      ix_of_def base_of_def put_modrm_def put_sib_def put_rex_def modrm_of_def sib_byte_modrm
      with_rex_def with_vex_def with_modrm_def with_sib_def put_vex3_0 put_vex2_0 disj_ac)

lemma set_modrm_and_rex_for_reg_plus_reg_plus_s32_eq [emit_simps]:
  assumes "r < 16" "valid2 a b"
  shows "set_modrm_and_rex_for_reg_plus_reg_plus_s32 (of_nat r) (of_nat a) (of_nat b) off w i =
    (let x = ix_of (lo a = 4) a b; y = base_of (lo a = 4) a b
     in Some (put_disp (mk_Imm 4 (scast off)) (with_sib (lo x) (lo y) (with_modrm 2 (lo r) 4
          (with_rex w (hi r) (hi x) (hi y) i)))))"
  using assms valid2D [OF assms(2)]
  by (cases "lo a = 4"; cases "lo b = 4")
    (simp_all add: set_modrm_and_rex_for_reg_plus_reg_plus_s32_def split_reg of_nat_lo_eq
      ix_of_def base_of_def put_modrm_def put_sib_def put_rex_def modrm_of_def sib_byte_modrm
      with_rex_def with_vex_def with_modrm_def with_sib_def put_vex3_0 put_vex2_0 disj_ac)

lemma set_vex_modrm_and_rex_for_reg_plus_reg_plus_s8_eq [emit_simps]:
  assumes "r < 16" "valid2 a b"
  shows "set_vex_modrm_and_rex_for_reg_plus_reg_plus_s8 (of_nat r) (of_nat a) (of_nat b) off P_0F False i =
    (let x = ix_of (lo a = 4) a b; y = base_of (lo a = 4) a b
     in Some (put_disp (mk_Imm 1 (scast off)) (with_sib (lo x) (lo y) (with_modrm 1 (lo r) 4
          (with_vex (hi r) (hi x) (hi y) P_0F 0 P_NONE i)))))"
  using assms valid2D [OF assms(2)]
  by (cases "lo a = 4"; cases "lo b = 4")
    (simp_all add: set_vex_modrm_and_rex_for_reg_plus_reg_plus_s8_def split_reg of_nat_lo_eq
      ix_of_def base_of_def put_modrm_def put_sib_def put_rex_def modrm_of_def sib_byte_modrm
      with_rex_def with_vex_def with_modrm_def with_sib_def put_vex3_0 put_vex2_0 disj_ac)

lemma set_vex_modrm_and_rex_for_reg_plus_reg_plus_s32_eq [emit_simps]:
  assumes "r < 16" "valid2 a b"
  shows "set_vex_modrm_and_rex_for_reg_plus_reg_plus_s32 (of_nat r) (of_nat a) (of_nat b) off P_0F False i =
    (let x = ix_of (lo a = 4) a b; y = base_of (lo a = 4) a b
     in Some (put_disp (mk_Imm 4 (scast off)) (with_sib (lo x) (lo y) (with_modrm 2 (lo r) 4
          (with_vex (hi r) (hi x) (hi y) P_0F 0 P_NONE i)))))"
  using assms valid2D [OF assms(2)]
  by (cases "lo a = 4"; cases "lo b = 4")
    (simp_all add: set_vex_modrm_and_rex_for_reg_plus_reg_plus_s32_def split_reg of_nat_lo_eq
      ix_of_def base_of_def put_modrm_def put_sib_def put_rex_def modrm_of_def sib_byte_modrm
      with_rex_def with_vex_def with_modrm_def with_sib_def put_vex3_0 put_vex2_0 disj_ac)

lemma set_modrm_and_rex_for_reg_plus_reg_addr_eq [emit_simps]:
  assumes "r < 16" "valid2 a b"
  shows "set_modrm_and_rex_for_reg_plus_reg_addr (of_nat r) (of_nat a) (of_nat b) w False i =
    (let x = ix_of (flip0 a b) a b; y = base_of (flip0 a b) a b
     in if both5 a b
        then Some (with_sib (lo x) (lo y) (with_modrm 1 (lo r) 4
               (with_rex w (hi r) (hi x) (hi y) (put_disp (mk_Imm 1 0) i))))
        else Some (with_sib (lo x) (lo y) (with_modrm 0 (lo r) 4
               (with_rex w (hi r) (hi x) (hi y) i))))"
  using assms valid2D [OF assms(2)]
  by (cases "lo a = 4"; cases "lo b = 4"; cases "lo a = 5"; cases "lo b = 5")
    (simp_all add: set_modrm_and_rex_for_reg_plus_reg_addr_def split_reg of_nat_lo_eq both5_def flip0_def
      ix_of_def base_of_def put_modrm_def put_sib_def put_rex_def modrm_of_def sib_byte_modrm
      with_rex_def with_vex_def with_modrm_def with_sib_def put_vex3_0 put_vex2_0 disj_ac)

lemma set_vex_modrm_and_rex_for_reg_plus_reg_addr_eq [emit_simps]:
  assumes "r < 16" "valid2 a b"
  shows "set_vex_modrm_and_rex_for_reg_plus_reg_addr (of_nat r) (of_nat a) (of_nat b) P_0F False i =
    (let x = ix_of (flip0 a b) a b; y = base_of (flip0 a b) a b
     in if both5 a b
        then Some (with_sib (lo x) (lo y) (with_modrm 1 (lo r) 4
               (with_vex (hi r) (hi x) (hi y) P_0F 0 P_NONE (put_disp (mk_Imm 1 0) i))))
        else Some (with_sib (lo x) (lo y) (with_modrm 0 (lo r) 4
               (with_vex (hi r) (hi x) (hi y) P_0F 0 P_NONE i))))"
  using assms valid2D [OF assms(2)]
  by (cases "lo a = 4"; cases "lo b = 4"; cases "lo a = 5"; cases "lo b = 5")
    (simp_all add: set_vex_modrm_and_rex_for_reg_plus_reg_addr_def split_reg of_nat_lo_eq both5_def flip0_def
      ix_of_def base_of_def put_modrm_def put_sib_def put_rex_def modrm_of_def sib_byte_modrm
      with_rex_def with_vex_def with_modrm_def with_sib_def put_vex3_0 put_vex2_0 disj_ac)

lemma set_modrm_and_rex_for_reg_addr_eq [emit_simps]:
  assumes "r < 16" "m < 16"
  shows "set_modrm_and_rex_for_reg_addr (of_nat r) (of_nat m) w i =
    with_rex w (hi r) False (hi m)
      (if lo m = 4 then with_modrm 0 (lo r) 4 (with_sib 4 4 i)
       else if lo m = 5 then with_modrm 1 (lo r) 5 (put_disp (mk_Imm 1 0) i)
       else with_modrm 0 (lo r) (lo m) i)"
  using assms
  by (cases "lo m = 4"; cases "lo m = 5")
    (simp_all add: set_modrm_and_rex_for_reg_addr_def split_reg of_nat_lo_eq put_modrm_def put_sib_def
      put_rex_def put_disp_def modrm_of_def sib_byte_modrm with_rex_def with_modrm_def with_sib_def
      disj_ac)

lemma set_modrm_and_rex_for_rip_plus_s32_eq [emit_simps]:
  assumes "r < 16"
  shows "set_modrm_and_rex_for_rip_plus_s32 (of_nat r) off w i =
    put_disp (mk_Imm 4 (scast off)) (with_rex w (hi r) False False (with_modrm 0 (lo r) 5 i))"
  using assms
  by (simp add: set_modrm_and_rex_for_rip_plus_s32_def split_reg put_modrm_def put_rex_def
      modrm_of_def with_rex_def with_modrm_def disj_ac)

lemma set_vex_modrm_and_rex_for_rip_plus_s32_eq [emit_simps]:
  assumes "r < 16"
  shows "set_vex_modrm_and_rex_for_rip_plus_s32 (of_nat r) off P_0F False i =
    Some (put_disp (mk_Imm 4 (scast off))
      (with_vex (hi r) False False P_0F 0 P_NONE (with_modrm 0 (lo r) 5 i)))"
  using assms
  by (simp add: set_vex_modrm_and_rex_for_rip_plus_s32_def split_reg put_modrm_def
      modrm_of_def with_vex_def with_modrm_def put_vex2_0)

lemma set_modrm_rex_sib_for_reg_reg_disp_eq [emit_simps]:
  assumes "r < 16" "m < 16"
  shows "set_modrm_rex_sib_for_reg_reg_disp (of_nat r) (numeral md) (of_nat m) w i =
    with_rex w (hi r) False (hi m) (with_sib 4 (lo m) (with_modrm (numeral md) (lo r) 4 i))"
    and "set_modrm_rex_sib_for_reg_reg_disp (of_nat r) 1 (of_nat m) w i =
    with_rex w (hi r) False (hi m) (with_sib 4 (lo m) (with_modrm 1 (lo r) 4 i))"
  using assms
  by (simp_all add: set_modrm_rex_sib_for_reg_reg_disp_def split_reg put_modrm_def put_sib_def
      put_rex_def modrm_of_def sib_byte_modrm with_rex_def with_modrm_def with_sib_def disj_ac)

section \<open>Addressing modes: what the decoder reads\<close>

lemma decode_direct [decode_simps]:
  assumes "rr = hi r" "rb = hi m" "r < 16" "m < 16"
  shows "decode_modrm rr rx rb (modrm_of 3 (lo r) (lo m) # bs) = Some (r, EA_Direct m, bs)"
  using assms by (simp add: decode_modrm_def modrm_of_fields ext_reg_lo_hi)

lemma decode_direct_digit [decode_simps]:
  assumes "rb = hi m" "d < 8" "m < 16"
  shows "decode_modrm False rx rb (modrm_of 3 d (lo m) # bs) = Some (d, EA_Direct m, bs)"
  using assms by (simp add: decode_modrm_def modrm_of_fields ext_reg_lo_hi) (simp add: ext_reg_def)

lemma decode_sib_s8 [decode_simps]:
  assumes "rr = hi r" "rx = hi ix" "rb = hi b" "r < 16" "ix < 16" "b < 16" "lo ix \<noteq> 4"
    and "read_s8 bs = Some (d, bs')"
  shows "decode_modrm rr rx rb (modrm_of (Suc 0) (lo r) 4 # modrm_of 0 (lo ix) (lo b) # bs) =
    Some (r, EA_Mem (Some b) (Some (ix, Suc 0)) d, bs')"
proof -
  have "ix \<noteq> 4" using assms(7) by (auto simp: lo_def)
  with assms show ?thesis
    by (simp add: decode_modrm_def decode_sib_def modrm_of_fields ext_reg_lo_hi read_disp_def)
qed

lemma decode_sib_s32 [decode_simps]:
  assumes "rr = hi r" "rx = hi ix" "rb = hi b" "r < 16" "ix < 16" "b < 16" "lo ix \<noteq> 4"
    and "read_s32 bs = Some (d, bs')"
  shows "decode_modrm rr rx rb (modrm_of 2 (lo r) 4 # modrm_of 0 (lo ix) (lo b) # bs) =
    Some (r, EA_Mem (Some b) (Some (ix, Suc 0)) d, bs')"
proof -
  have "ix \<noteq> 4" using assms(7) by (auto simp: lo_def)
  with assms show ?thesis
    by (simp add: decode_modrm_def decode_sib_def modrm_of_fields ext_reg_lo_hi read_disp_def)
qed

lemma decode_sib_0 [decode_simps]:
  assumes "rr = hi r" "rx = hi ix" "rb = hi b" "r < 16" "ix < 16" "b < 16" "lo ix \<noteq> 4" "lo b \<noteq> 5"
  shows "decode_modrm rr rx rb (modrm_of 0 (lo r) 4 # modrm_of 0 (lo ix) (lo b) # bs) =
    Some (r, EA_Mem (Some b) (Some (ix, Suc 0)) 0, bs)"
proof -
  have "ix \<noteq> 4" using assms(7) by (auto simp: lo_def)
  with assms show ?thesis
    by (simp add: decode_modrm_def decode_sib_def modrm_of_fields ext_reg_lo_hi read_disp_def)
qed

lemma decode_rip [decode_simps]:
  assumes "rr = hi r" "r < 16" "read_s32 bs = Some (d, bs')"
  shows "decode_modrm rr rx rb (modrm_of 0 (lo r) 5 # bs) = Some (r, EA_Rip d, bs')"
  using assms by (simp add: decode_modrm_def modrm_of_fields ext_reg_lo_hi)

lemma decode_sib_base_s8 [decode_simps]:
  assumes "rr = hi r" "rb = hi b" "r < 16" "b < 16" "read_s8 bs = Some (d, bs')"
  shows "decode_modrm rr False rb (modrm_of (Suc 0) (lo r) 4 # modrm_of 0 4 (lo b) # bs) =
    Some (r, EA_Mem (Some b) None d, bs')"
  using assms by (simp add: decode_modrm_def decode_sib_def modrm_of_fields ext_reg_lo_hi read_disp_def)
    (simp add: ext_reg_def)

lemma decode_sib_base_s32 [decode_simps]:
  assumes "rr = hi r" "rb = hi b" "r < 16" "b < 16" "read_s32 bs = Some (d, bs')"
  shows "decode_modrm rr False rb (modrm_of 2 (lo r) 4 # modrm_of 0 4 (lo b) # bs) =
    Some (r, EA_Mem (Some b) None d, bs')"
  using assms by (simp add: decode_modrm_def decode_sib_def modrm_of_fields ext_reg_lo_hi read_disp_def)
    (simp add: ext_reg_def)

lemma decode_sib_base_0 [decode_simps]:
  assumes "rr = hi r" "rb = hi b" "r < 16" "b < 16" "lo b = 4"
  shows "decode_modrm rr False rb (modrm_of 0 (lo r) 4 # modrm_of 0 4 4 # bs) =
    Some (r, EA_Mem (Some b) None 0, bs)"
  using assms ext_reg_lo_hi [of rb b]
  by (simp add: decode_modrm_def decode_sib_def modrm_of_fields ext_reg_lo_hi read_disp_def)
    (simp add: ext_reg_def)

lemma decode_base_0 [decode_simps]:
  assumes "rr = hi r" "rb = hi b" "r < 16" "b < 16" "lo b \<noteq> 4" "lo b \<noteq> 5"
  shows "decode_modrm rr False rb (modrm_of 0 (lo r) (lo b) # bs) =
    Some (r, EA_Mem (Some b) None 0, bs)"
  using assms by (simp add: decode_modrm_def modrm_of_fields ext_reg_lo_hi read_disp_def)

lemma decode_base_5 [decode_simps]:
  assumes "rr = hi r" "rb = hi b" "r < 16" "b < 16" "lo b = 5" "read_s8 bs = Some (d, bs')"
  shows "decode_modrm rr False rb (modrm_of (Suc 0) (lo r) 5 # bs) =
    Some (r, EA_Mem (Some b) None d, bs')"
  using assms ext_reg_lo_hi [of rb b]
  by (simp add: decode_modrm_def modrm_of_fields ext_reg_lo_hi read_disp_def)

section \<open>What an emitter function must encode\<close>

definition encodes :: "Instruction option \<Rightarrow> x86_insn \<Rightarrow> bool" where
  "encodes r x \<longleftrightarrow> (\<exists>i. r = Some i \<and> (\<forall>rest. decode (emit i @ rest) = Some (x, rest)))"

text \<open>The memory operand of the two-register modes.\<close>

definition mem2 :: "nat \<Rightarrow> bool \<Rightarrow> nat \<Rightarrow> nat \<Rightarrow> int \<Rightarrow> operand" where
  "mem2 w flip a b d = Mem w (Some (base_of flip a b)) (Some (ix_of flip a b, 1)) d"

text \<open>The address a memory operand denotes, for given register contents.\<close>

fun mem_addr :: "(nat \<Rightarrow> u64) \<Rightarrow> operand \<Rightarrow> u64" where
  "mem_addr regs (Mem w b i d) =
    (case b of Some n \<Rightarrow> regs n | None \<Rightarrow> 0) +
    (case i of Some (n, s) \<Rightarrow> regs n * of_nat s | None \<Rightarrow> 0) + word_of_int d"
| "mem_addr regs _ = 0"

lemma mem_addr_mem2: "mem_addr regs (mem2 w f a b d) = regs a + regs b + word_of_int d"
  by (cases f) (simp_all add: mem2_def base_of_def ix_of_def add.commute)

lemma direct_of_EA [decode_simps]: "direct_of (EA_Direct n) = n"
  by (simp add: direct_of_def)

lemmas emit_defs = emit_def with_rex_def with_vex_def with_modrm_def with_sib_def put_disp_def
  put_imm_def set_op2_def set_op3_def mk_Instruction_def swap_op0_rex_def add_rex_def put_rex_def Let_def

lemmas decode_defs = decode_def decode_rex_def decode_opcode_def table1_def table2_def
  decode_operands_def mk_env_def operand_size_def gpr_operand_def opcode_ext_def
  is_rex_def [of "numeral _"] decode_vex2_def decode_vex3_def decode_vex_op_def table_vex_def
  vex_pfx_def alu_ext_def shift_ext_def

lemmas [decode_simps] = sint_word_of_int_s8 sint_word_of_int_s32

section \<open>Registers in the opcode byte\<close>

text \<open>
  \<^verbatim>\<open>push\<close>, \<^verbatim>\<open>pop\<close> and the constant moves add the register's low bits to the opcode;
  they and the register calls split the number by hand.
\<close>

lemma push_gpr64_eq: "n < 16 \<Longrightarrow> push_gpr64 (gpr n) =
  Some (with_rex False False False (hi n) (mk_Instruction (0x50 + of_nat (lo n))))"
  by (cases rule: hi_loE, assumption)
    (simp_all add: push_gpr64_def hw_id_gpr with_rex_def put_rex_def mk_Instruction_def)

lemma pop_gpr64_eq: "n < 16 \<Longrightarrow> pop_gpr64 (gpr n) =
  Some (with_rex False False False (hi n) (mk_Instruction (0x58 + of_nat (lo n))))"
  by (cases rule: hi_loE, assumption)
    (simp_all add: pop_gpr64_def hw_id_gpr with_rex_def put_rex_def mk_Instruction_def)

lemma call_r64_eq:
  assumes "n < 16"
  shows "call_r64 (gpr n) =
  Some (with_rex False False False (hi n) (with_modrm 3 2 (lo n) (mk_Instruction 0xff)))"
  using assms lo_less [of n]
  by (cases rule: hi_loE [OF assms])
    (simp_all add: call_r64_def hw_id_gpr put_modrm_def modrm_of_def with_rex_def with_modrm_def
      put_rex_def Let_def mk_Instruction_def del: lo_less)

lemma jmp_r64_eq:
  assumes "n < 16"
  shows "jmp_r64 (gpr n) =
  Some (with_rex False False False (hi n) (with_modrm 3 4 (lo n) (mk_Instruction 0xff)))"
  using assms lo_less [of n]
  by (cases rule: hi_loE [OF assms])
    (simp_all add: jmp_r64_def hw_id_gpr put_modrm_def modrm_of_def with_rex_def with_modrm_def
      put_rex_def Let_def mk_Instruction_def del: lo_less)

lemma mov_gpr64_u64_eq: "n < 16 \<Longrightarrow> mov_gpr64_u64 (gpr n) v =
  Some (put_imm (mk_Imm 8 v) (with_rex True False False (hi n) (mk_Instruction (0xb8 + of_nat (lo n)))))"
  by (cases rule: hi_loE, assumption)
    (simp_all add: mov_gpr64_u64_def hw_id_gpr with_rex_def put_rex_def mk_Instruction_def)

lemma mov_gpr64_u32_eq: "n < 16 \<Longrightarrow> v \<le> 0xffffffff \<Longrightarrow> mov_gpr64_u32 (gpr n) v =
  Some (put_imm (mk_Imm 4 v) (with_rex False False False (hi n) (mk_Instruction (0xb8 + of_nat (lo n)))))"
  by (cases rule: hi_loE, assumption)
    (simp_all add: mov_gpr64_u32_def hw_id_gpr with_rex_def put_rex_def mk_Instruction_def)

lemma read_s32_low:
  "read_s32 (le_bytes 4 (v :: u64) @ bs) = Some (sint (ucast v :: u32), bs)"
proof -
  have "le_bytes 4 (word_of_int (uint v) :: u64) = le_bytes 4 (word_of_int (uint v) :: u32)"
    by (rule le_bytes_word_of_int) simp_all
  then have "le_bytes 4 v = le_bytes 4 (ucast v :: u32)" by (simp add: word_of_int_uint)
  then show ?thesis by (simp only: read_s32_le_bytes)
qed

lemma decode_push: 
  "decode_opcode env ((0x50 + of_nat (lo n)) # bs) = Some (Insn PUSH [Gpr 64 (ext_reg (e_B env) (lo n))], bs)"
  "decode ((0x50 + of_nat (lo n)) # bs) = Some (Insn PUSH [Gpr 64 (lo n)], bs)"
  by (cases rule: less_8E [OF lo_less [of n]];
     simp add: decode_opcode_def table1_def decode_operands_def decode_def decode_rex_def is_rex_def mk_env_def ext_reg_def)+
lemma decode_pop: 
  "decode_opcode env ((0x58 + of_nat (lo n)) # bs) = Some (Insn POP [Gpr 64 (ext_reg (e_B env) (lo n))], bs)"
  "decode ((0x58 + of_nat (lo n)) # bs) = Some (Insn POP [Gpr 64 (lo n)], bs)"
  by (cases rule: less_8E [OF lo_less [of n]];
     simp add: decode_opcode_def table1_def decode_operands_def decode_def decode_rex_def is_rex_def mk_env_def ext_reg_def)+
lemma decode_mov_imm: 
  "decode_opcode env ((0xb8 + of_nat (lo n)) # bs) = do { (v, bs) \<leftarrow> read_imm [if e_W env then IQ else ID] bs;
      Some (Insn MOV [Gpr (operand_size env) (ext_reg (e_B env) (lo n)), ImmI v], bs) }"
  "decode ((0xb8 + of_nat (lo n)) # bs) = do { (v, bs) \<leftarrow> read_s32 bs;
      Some (Insn MOV [Gpr 32 (lo n), ImmI v], bs) }"
  by (cases rule: less_8E [OF lo_less [of n]];
     simp add: decode_opcode_def table1_def decode_operands_def decode_def decode_rex_def is_rex_def mk_env_def ext_reg_def
       operand_size_def Let_def split: prod.splits)+

lemma lo_not_hi: "\<not> hi n \<Longrightarrow> lo n = n"
  by (simp add: hi_def lo_def)

lemmas decode_rex_step = decode_def decode_rex_def decode_simps mk_env_def operand_size_def

lemmas decode_opcode_reg = decode_push decode_pop decode_mov_imm

end
