(* ===== verification/Emit_Mem_Correct.thy ===== *)
theory Emit_Mem_Correct
  imports Emit_Lemmas
begin

text \<open>
  Every move, load and store of \<open>IGen_Mem\<close> encodes the instruction its name promises: for all
  registers and all offsets its assertions admit, it returns an instruction, and the decoder of
  \<open>X86_Decode\<close> reads that instruction from the emitted bytes and leaves what follows untouched.
\<close>

named_theorems enc_intros \<open>what each emitter function encodes\<close>

lemmas enc_simps = emit_simps emit_defs decode_defs decode_simps mem2_def

lemma enc_mov_gpr64_u64 [enc_intros]:
  "\<lbrakk>d < 16\<rbrakk> \<Longrightarrow>
   encodes (mov_gpr64_u64 (gpr d) v)
     (Insn MOV [Gpr 64 d, ImmI (sint v)])"
  by (cases "hi d"; simp add: encodes_def mov_gpr64_u64_eq emit_simps emit_defs decode_opcode_reg)
    (simp_all add: decode_rex_step decode_opcode_reg)

lemma enc_mov_gpr64_u32 [enc_intros]:
  "\<lbrakk>d < 16; v \<le> 0xffffffff\<rbrakk> \<Longrightarrow>
   encodes (mov_gpr64_u32 (gpr d) v)
     (Insn MOV [Gpr 32 d, ImmI (sint (ucast v :: u32))])"
  by (cases "hi d"; simp add: encodes_def mov_gpr64_u32_eq emit_simps emit_defs decode_opcode_reg)
    (simp_all add: decode_rex_step decode_opcode_reg lo_not_hi read_s32_low)

lemma enc_mov_gpr64_gpr64 [enc_intros]:
  "\<lbrakk>d < 16; s < 16\<rbrakk> \<Longrightarrow>
   encodes (mov_gpr64_gpr64 (gpr d) (gpr s))
     (Insn MOV [Gpr 64 d, Gpr 64 s])"
  by (simp add: encodes_def mov_gpr64_gpr64_def enc_simps)

lemma enc_movd_gpr32_xmm32 [enc_intros]:
  "\<lbrakk>d < 16; s < 16\<rbrakk> \<Longrightarrow>
   encodes (movd_gpr32_xmm32 (gpr d) (xmm s))
     (Insn MOVD [Gpr 32 d, Xmm s])"
  by (cases "hi s \<or> hi d"; simp add: encodes_def movd_gpr32_xmm32_def enc_simps)

lemma enc_movd_xmm32_gpr32 [enc_intros]:
  "\<lbrakk>d < 16; s < 16\<rbrakk> \<Longrightarrow>
   encodes (movd_xmm32_gpr32 (xmm d) (gpr s))
     (Insn MOVD [Xmm d, Gpr 32 s])"
  by (cases "hi d \<or> hi s"; simp add: encodes_def movd_xmm32_gpr32_def enc_simps)

lemma enc_movq_gpr64_xmm64 [enc_intros]:
  "\<lbrakk>d < 16; s < 16\<rbrakk> \<Longrightarrow>
   encodes (movq_gpr64_xmm64 (gpr d) (xmm s))
     (Insn MOVD [Gpr 64 d, Xmm s])"
  by (simp add: encodes_def movq_gpr64_xmm64_def enc_simps)

lemma enc_movq_xmm64_gpr64 [enc_intros]:
  "\<lbrakk>d < 16; s < 16\<rbrakk> \<Longrightarrow>
   encodes (movq_xmm64_gpr64 (xmm d) (gpr s))
     (Insn MOVD [Xmm d, Gpr 64 s])"
  by (simp add: encodes_def movq_xmm64_gpr64_def enc_simps)

lemma enc_mov_xmm32_xmm32 [enc_intros]:
  "\<lbrakk>d < 16; s < 16\<rbrakk> \<Longrightarrow>
   encodes (mov_xmm32_xmm32 (xmm d) (xmm s))
     (Insn MOVSS [Xmm d, Xmm s])"
  by (cases "hi d \<or> hi s"; simp add: encodes_def mov_xmm32_xmm32_def enc_simps)

lemma enc_mov_gpr64_s32 [enc_intros]:
  "\<lbrakk>d < 16; fits_s32 v\<rbrakk> \<Longrightarrow>
   encodes (mov_gpr64_s32 (gpr d) v)
     (Insn MOV [Gpr 64 d, ImmI v])"
  by (simp add: encodes_def mov_gpr64_s32_def enc_simps)

lemma enc_load8s_gpr64_gpr64_plus_gpr64 [enc_intros]:
  "\<lbrakk>d < 16; valid2 a b\<rbrakk> \<Longrightarrow>
   encodes (load8s_gpr64_gpr64_plus_gpr64 (gpr d) (gpr a) (gpr b))
     (Insn MOVSX [Gpr 64 d, mem2 8 (flip0 a b) a b 0])"
  by (cases "both5 a b"; simp add: encodes_def load8s_gpr64_gpr64_plus_gpr64_def enc_simps)

lemma enc_load8s_gpr64_gpr64_plus_gpr64_plus_s8 [enc_intros]:
  "\<lbrakk>d < 16; valid2 a b; fits_s8 off\<rbrakk> \<Longrightarrow>
   encodes (load8s_gpr64_gpr64_plus_gpr64_plus_s8 (gpr d) (gpr a) (gpr b) off)
     (Insn MOVSX [Gpr 64 d, mem2 8 (lo a = 4) a b off])"
  by (simp add: encodes_def load8s_gpr64_gpr64_plus_gpr64_plus_s8_def enc_simps)

lemma enc_load8s_gpr64_gpr64_plus_gpr64_plus_s32 [enc_intros]:
  "\<lbrakk>d < 16; valid2 a b; fits_s32 off\<rbrakk> \<Longrightarrow>
   encodes (load8s_gpr64_gpr64_plus_gpr64_plus_s32 (gpr d) (gpr a) (gpr b) off)
     (Insn MOVSX [Gpr 64 d, mem2 8 (lo a = 4) a b off])"
  by (simp add: encodes_def load8s_gpr64_gpr64_plus_gpr64_plus_s32_def enc_simps)

lemma enc_load8u_gpr64_gpr64_plus_gpr64 [enc_intros]:
  "\<lbrakk>d < 16; valid2 a b\<rbrakk> \<Longrightarrow>
   encodes (load8u_gpr64_gpr64_plus_gpr64 (gpr d) (gpr a) (gpr b))
     (Insn MOVZX [Gpr 64 d, mem2 8 (flip0 a b) a b 0])"
  by (cases "both5 a b"; simp add: encodes_def load8u_gpr64_gpr64_plus_gpr64_def enc_simps)

lemma enc_load8u_gpr64_gpr64_plus_gpr64_plus_s8 [enc_intros]:
  "\<lbrakk>d < 16; valid2 a b; fits_s8 off\<rbrakk> \<Longrightarrow>
   encodes (load8u_gpr64_gpr64_plus_gpr64_plus_s8 (gpr d) (gpr a) (gpr b) off)
     (Insn MOVZX [Gpr 64 d, mem2 8 (lo a = 4) a b off])"
  by (simp add: encodes_def load8u_gpr64_gpr64_plus_gpr64_plus_s8_def enc_simps)

lemma enc_load8u_gpr64_gpr64_plus_gpr64_plus_s32 [enc_intros]:
  "\<lbrakk>d < 16; valid2 a b; fits_s32 off\<rbrakk> \<Longrightarrow>
   encodes (load8u_gpr64_gpr64_plus_gpr64_plus_s32 (gpr d) (gpr a) (gpr b) off)
     (Insn MOVZX [Gpr 64 d, mem2 8 (lo a = 4) a b off])"
  by (simp add: encodes_def load8u_gpr64_gpr64_plus_gpr64_plus_s32_def enc_simps)

lemma enc_load16s_gpr64_gpr64_plus_gpr64 [enc_intros]:
  "\<lbrakk>d < 16; valid2 a b\<rbrakk> \<Longrightarrow>
   encodes (load16s_gpr64_gpr64_plus_gpr64 (gpr d) (gpr a) (gpr b))
     (Insn MOVSX [Gpr 64 d, mem2 16 (flip0 a b) a b 0])"
  by (cases "both5 a b"; simp add: encodes_def load16s_gpr64_gpr64_plus_gpr64_def enc_simps)

lemma enc_load16s_gpr64_gpr64_plus_gpr64_plus_s8 [enc_intros]:
  "\<lbrakk>d < 16; valid2 a b; fits_s8 off\<rbrakk> \<Longrightarrow>
   encodes (load16s_gpr64_gpr64_plus_gpr64_plus_s8 (gpr d) (gpr a) (gpr b) off)
     (Insn MOVSX [Gpr 64 d, mem2 16 (lo a = 4) a b off])"
  by (simp add: encodes_def load16s_gpr64_gpr64_plus_gpr64_plus_s8_def enc_simps)

lemma enc_load16s_gpr64_gpr64_plus_gpr64_plus_s32 [enc_intros]:
  "\<lbrakk>d < 16; valid2 a b; fits_s32 off\<rbrakk> \<Longrightarrow>
   encodes (load16s_gpr64_gpr64_plus_gpr64_plus_s32 (gpr d) (gpr a) (gpr b) off)
     (Insn MOVSX [Gpr 64 d, mem2 16 (lo a = 4) a b off])"
  by (simp add: encodes_def load16s_gpr64_gpr64_plus_gpr64_plus_s32_def enc_simps)

lemma enc_load16u_gpr64_gpr64_plus_gpr64 [enc_intros]:
  "\<lbrakk>d < 16; valid2 a b\<rbrakk> \<Longrightarrow>
   encodes (load16u_gpr64_gpr64_plus_gpr64 (gpr d) (gpr a) (gpr b))
     (Insn MOVZX [Gpr 64 d, mem2 16 (flip0 a b) a b 0])"
  by (cases "both5 a b"; simp add: encodes_def load16u_gpr64_gpr64_plus_gpr64_def enc_simps)

lemma enc_load16u_gpr64_gpr64_plus_gpr64_plus_s8 [enc_intros]:
  "\<lbrakk>d < 16; valid2 a b; fits_s8 off\<rbrakk> \<Longrightarrow>
   encodes (load16u_gpr64_gpr64_plus_gpr64_plus_s8 (gpr d) (gpr a) (gpr b) off)
     (Insn MOVZX [Gpr 64 d, mem2 16 (lo a = 4) a b off])"
  by (simp add: encodes_def load16u_gpr64_gpr64_plus_gpr64_plus_s8_def enc_simps)

lemma enc_load16u_gpr64_gpr64_plus_gpr64_plus_s32 [enc_intros]:
  "\<lbrakk>d < 16; valid2 a b; fits_s32 off\<rbrakk> \<Longrightarrow>
   encodes (load16u_gpr64_gpr64_plus_gpr64_plus_s32 (gpr d) (gpr a) (gpr b) off)
     (Insn MOVZX [Gpr 64 d, mem2 16 (lo a = 4) a b off])"
  by (simp add: encodes_def load16u_gpr64_gpr64_plus_gpr64_plus_s32_def enc_simps)

lemma enc_load32s_gpr64_gpr64_plus_gpr64 [enc_intros]:
  "\<lbrakk>d < 16; valid2 a b\<rbrakk> \<Longrightarrow>
   encodes (load32s_gpr64_gpr64_plus_gpr64 (gpr d) (gpr a) (gpr b))
     (Insn MOVSXD [Gpr 64 d, mem2 32 (flip0 a b) a b 0])"
  by (cases "both5 a b"; simp add: encodes_def load32s_gpr64_gpr64_plus_gpr64_def enc_simps)

lemma enc_load32s_gpr64_gpr64_plus_gpr64_plus_s8 [enc_intros]:
  "\<lbrakk>d < 16; valid2 a b; fits_s8 off\<rbrakk> \<Longrightarrow>
   encodes (load32s_gpr64_gpr64_plus_gpr64_plus_s8 (gpr d) (gpr a) (gpr b) off)
     (Insn MOVSXD [Gpr 64 d, mem2 32 (lo a = 4) a b off])"
  by (simp add: encodes_def load32s_gpr64_gpr64_plus_gpr64_plus_s8_def enc_simps)

lemma enc_load32s_gpr64_gpr64_plus_gpr64_plus_s32 [enc_intros]:
  "\<lbrakk>d < 16; valid2 a b; fits_s32 off\<rbrakk> \<Longrightarrow>
   encodes (load32s_gpr64_gpr64_plus_gpr64_plus_s32 (gpr d) (gpr a) (gpr b) off)
     (Insn MOVSXD [Gpr 64 d, mem2 32 (lo a = 4) a b off])"
  by (simp add: encodes_def load32s_gpr64_gpr64_plus_gpr64_plus_s32_def enc_simps)

lemma enc_load32u_gpr64_gpr64_plus_gpr64 [enc_intros]:
  "\<lbrakk>d < 16; valid2 a b\<rbrakk> \<Longrightarrow>
   encodes (load32u_gpr64_gpr64_plus_gpr64 (gpr d) (gpr a) (gpr b))
     (Insn MOV [Gpr 32 d, mem2 32 (flip0 a b) a b 0])"
  by (cases "both5 a b"; cases "hi d \<or> hi (ix_of (flip0 a b) a b) \<or> hi (base_of (flip0 a b) a b)"; simp add: encodes_def load32u_gpr64_gpr64_plus_gpr64_def enc_simps)

lemma enc_load32u_gpr64_gpr64_plus_gpr64_plus_s8 [enc_intros]:
  "\<lbrakk>d < 16; valid2 a b; fits_s8 off\<rbrakk> \<Longrightarrow>
   encodes (load32u_gpr64_gpr64_plus_gpr64_plus_s8 (gpr d) (gpr a) (gpr b) off)
     (Insn MOV [Gpr 32 d, mem2 32 (lo a = 4) a b off])"
  by (cases "hi d \<or> hi (ix_of (lo a = 4) a b) \<or> hi (base_of (lo a = 4) a b)"; simp add: encodes_def load32u_gpr64_gpr64_plus_gpr64_plus_s8_def enc_simps)

lemma enc_load32u_gpr64_gpr64_plus_gpr64_plus_s32 [enc_intros]:
  "\<lbrakk>d < 16; valid2 a b; fits_s32 off\<rbrakk> \<Longrightarrow>
   encodes (load32u_gpr64_gpr64_plus_gpr64_plus_s32 (gpr d) (gpr a) (gpr b) off)
     (Insn MOV [Gpr 32 d, mem2 32 (lo a = 4) a b off])"
  by (cases "hi d \<or> hi (ix_of (lo a = 4) a b) \<or> hi (base_of (lo a = 4) a b)"; simp add: encodes_def load32u_gpr64_gpr64_plus_gpr64_plus_s32_def enc_simps)

lemma enc_load64_gpr64_gpr64_plus_gpr64 [enc_intros]:
  "\<lbrakk>d < 16; valid2 a b\<rbrakk> \<Longrightarrow>
   encodes (load64_gpr64_gpr64_plus_gpr64 (gpr d) (gpr a) (gpr b))
     (Insn MOV [Gpr 64 d, mem2 64 (flip0 a b) a b 0])"
  by (cases "both5 a b"; simp add: encodes_def load64_gpr64_gpr64_plus_gpr64_def enc_simps)

lemma enc_load64_gpr64_gpr64_plus_gpr64_plus_s8 [enc_intros]:
  "\<lbrakk>d < 16; valid2 a b; fits_s8 off\<rbrakk> \<Longrightarrow>
   encodes (load64_gpr64_gpr64_plus_gpr64_plus_s8 (gpr d) (gpr a) (gpr b) off)
     (Insn MOV [Gpr 64 d, mem2 64 (lo a = 4) a b off])"
  by (simp add: encodes_def load64_gpr64_gpr64_plus_gpr64_plus_s8_def enc_simps)

lemma enc_load64_gpr64_gpr64_plus_gpr64_plus_s32 [enc_intros]:
  "\<lbrakk>d < 16; valid2 a b; fits_s32 off\<rbrakk> \<Longrightarrow>
   encodes (load64_gpr64_gpr64_plus_gpr64_plus_s32 (gpr d) (gpr a) (gpr b) off)
     (Insn MOV [Gpr 64 d, mem2 64 (lo a = 4) a b off])"
  by (simp add: encodes_def load64_gpr64_gpr64_plus_gpr64_plus_s32_def enc_simps)

lemma enc_store8_gpr64_gpr64_plus_gpr64 [enc_intros]:
  "\<lbrakk>v < 16; valid2 a b\<rbrakk> \<Longrightarrow>
   encodes (store8_gpr64_gpr64_plus_gpr64 (gpr a) (gpr b) (gpr v))
     (Insn MOV [mem2 8 (flip0 a b) a b 0, Gpr 8 v])"
  by (cases "both5 a b"; cases "hi v \<or> hi (ix_of (flip0 a b) a b) \<or> hi (base_of (flip0 a b) a b)"; cases "3 < v"; simp add: encodes_def store8_gpr64_gpr64_plus_gpr64_def enc_simps)

lemma enc_store8_gpr64_gpr64_plus_gpr64_plus_s8 [enc_intros]:
  "\<lbrakk>v < 16; valid2 a b; fits_s8 off\<rbrakk> \<Longrightarrow>
   encodes (store8_gpr64_gpr64_plus_gpr64_plus_s8 (gpr a) (gpr b) (gpr v) off)
     (Insn MOV [mem2 8 (lo a = 4) a b off, Gpr 8 v])"
  by (cases "hi v \<or> hi (ix_of (lo a = 4) a b) \<or> hi (base_of (lo a = 4) a b)"; cases "3 < v"; simp add: encodes_def store8_gpr64_gpr64_plus_gpr64_plus_s8_def enc_simps)

lemma enc_store8_gpr64_gpr64_plus_gpr64_plus_s32 [enc_intros]:
  "\<lbrakk>v < 16; valid2 a b; fits_s32 off\<rbrakk> \<Longrightarrow>
   encodes (store8_gpr64_gpr64_plus_gpr64_plus_s32 (gpr a) (gpr b) (gpr v) off)
     (Insn MOV [mem2 8 (lo a = 4) a b off, Gpr 8 v])"
  by (cases "hi v \<or> hi (ix_of (lo a = 4) a b) \<or> hi (base_of (lo a = 4) a b)"; cases "3 < v"; simp add: encodes_def store8_gpr64_gpr64_plus_gpr64_plus_s32_def enc_simps)

lemma enc_store16_gpr64_gpr64_plus_gpr64 [enc_intros]:
  "\<lbrakk>v < 16; valid2 a b\<rbrakk> \<Longrightarrow>
   encodes (store16_gpr64_gpr64_plus_gpr64 (gpr a) (gpr b) (gpr v))
     (Insn MOV [mem2 16 (flip0 a b) a b 0, Gpr 16 v])"
  by (cases "both5 a b"; cases "hi v \<or> hi (ix_of (flip0 a b) a b) \<or> hi (base_of (flip0 a b) a b)"; simp add: encodes_def store16_gpr64_gpr64_plus_gpr64_def enc_simps)

lemma enc_store16_gpr64_gpr64_plus_gpr64_plus_s8 [enc_intros]:
  "\<lbrakk>v < 16; valid2 a b; fits_s8 off\<rbrakk> \<Longrightarrow>
   encodes (store16_gpr64_gpr64_plus_gpr64_plus_s8 (gpr a) (gpr b) (gpr v) off)
     (Insn MOV [mem2 16 (lo a = 4) a b off, Gpr 16 v])"
  by (cases "hi v \<or> hi (ix_of (lo a = 4) a b) \<or> hi (base_of (lo a = 4) a b)"; simp add: encodes_def store16_gpr64_gpr64_plus_gpr64_plus_s8_def enc_simps)

lemma enc_store16_gpr64_gpr64_plus_gpr64_plus_s32 [enc_intros]:
  "\<lbrakk>v < 16; valid2 a b; fits_s32 off\<rbrakk> \<Longrightarrow>
   encodes (store16_gpr64_gpr64_plus_gpr64_plus_s32 (gpr a) (gpr b) (gpr v) off)
     (Insn MOV [mem2 16 (lo a = 4) a b off, Gpr 16 v])"
  by (cases "hi v \<or> hi (ix_of (lo a = 4) a b) \<or> hi (base_of (lo a = 4) a b)"; simp add: encodes_def store16_gpr64_gpr64_plus_gpr64_plus_s32_def enc_simps)

lemma enc_store32_gpr64_gpr64_plus_gpr64 [enc_intros]:
  "\<lbrakk>v < 16; valid2 a b\<rbrakk> \<Longrightarrow>
   encodes (store32_gpr64_gpr64_plus_gpr64 (gpr a) (gpr b) (gpr v))
     (Insn MOV [mem2 32 (flip0 a b) a b 0, Gpr 32 v])"
  by (cases "both5 a b"; cases "hi v \<or> hi (ix_of (flip0 a b) a b) \<or> hi (base_of (flip0 a b) a b)"; simp add: encodes_def store32_gpr64_gpr64_plus_gpr64_def enc_simps)

lemma enc_store32_gpr64_gpr64_plus_gpr64_plus_s8 [enc_intros]:
  "\<lbrakk>v < 16; valid2 a b; fits_s8 off\<rbrakk> \<Longrightarrow>
   encodes (store32_gpr64_gpr64_plus_gpr64_plus_s8 (gpr a) (gpr b) (gpr v) off)
     (Insn MOV [mem2 32 (lo a = 4) a b off, Gpr 32 v])"
  by (cases "hi v \<or> hi (ix_of (lo a = 4) a b) \<or> hi (base_of (lo a = 4) a b)"; simp add: encodes_def store32_gpr64_gpr64_plus_gpr64_plus_s8_def enc_simps)

lemma enc_store32_gpr64_gpr64_plus_gpr64_plus_s32 [enc_intros]:
  "\<lbrakk>v < 16; valid2 a b; fits_s32 off\<rbrakk> \<Longrightarrow>
   encodes (store32_gpr64_gpr64_plus_gpr64_plus_s32 (gpr a) (gpr b) (gpr v) off)
     (Insn MOV [mem2 32 (lo a = 4) a b off, Gpr 32 v])"
  by (cases "hi v \<or> hi (ix_of (lo a = 4) a b) \<or> hi (base_of (lo a = 4) a b)"; simp add: encodes_def store32_gpr64_gpr64_plus_gpr64_plus_s32_def enc_simps)

lemma enc_store64_gpr64_gpr64_plus_gpr64 [enc_intros]:
  "\<lbrakk>v < 16; valid2 a b\<rbrakk> \<Longrightarrow>
   encodes (store64_gpr64_gpr64_plus_gpr64 (gpr a) (gpr b) (gpr v))
     (Insn MOV [mem2 64 (flip0 a b) a b 0, Gpr 64 v])"
  by (cases "both5 a b"; simp add: encodes_def store64_gpr64_gpr64_plus_gpr64_def enc_simps)

lemma enc_store64_gpr64_gpr64_plus_gpr64_plus_s8 [enc_intros]:
  "\<lbrakk>v < 16; valid2 a b; fits_s8 off\<rbrakk> \<Longrightarrow>
   encodes (store64_gpr64_gpr64_plus_gpr64_plus_s8 (gpr a) (gpr b) (gpr v) off)
     (Insn MOV [mem2 64 (lo a = 4) a b off, Gpr 64 v])"
  by (simp add: encodes_def store64_gpr64_gpr64_plus_gpr64_plus_s8_def enc_simps)

lemma enc_store64_gpr64_gpr64_plus_gpr64_plus_s32 [enc_intros]:
  "\<lbrakk>v < 16; valid2 a b; fits_s32 off\<rbrakk> \<Longrightarrow>
   encodes (store64_gpr64_gpr64_plus_gpr64_plus_s32 (gpr a) (gpr b) (gpr v) off)
     (Insn MOV [mem2 64 (lo a = 4) a b off, Gpr 64 v])"
  by (simp add: encodes_def store64_gpr64_gpr64_plus_gpr64_plus_s32_def enc_simps)

lemma enc_load32_xmm32_gpr64_plus_gpr64 [enc_intros]:
  "\<lbrakk>d < 16; valid2 a b\<rbrakk> \<Longrightarrow>
   encodes (load32_xmm32_gpr64_plus_gpr64 (xmm d) (gpr a) (gpr b))
     (Insn MOVSS [Xmm d, mem2 32 (flip0 a b) a b 0])"
  by (cases "both5 a b"; cases "hi d \<or> hi (ix_of (flip0 a b) a b) \<or> hi (base_of (flip0 a b) a b)"; simp add: encodes_def load32_xmm32_gpr64_plus_gpr64_def enc_simps)

lemma enc_load32_xmm32_gpr64_plus_gpr64_plus_s8 [enc_intros]:
  "\<lbrakk>d < 16; valid2 a b; fits_s8 off\<rbrakk> \<Longrightarrow>
   encodes (load32_xmm32_gpr64_plus_gpr64_plus_s8 (xmm d) (gpr a) (gpr b) off)
     (Insn MOVSS [Xmm d, mem2 32 (lo a = 4) a b off])"
  by (cases "hi d \<or> hi (ix_of (lo a = 4) a b) \<or> hi (base_of (lo a = 4) a b)"; simp add: encodes_def load32_xmm32_gpr64_plus_gpr64_plus_s8_def enc_simps)

lemma enc_load32_xmm32_gpr64_plus_gpr64_plus_s32 [enc_intros]:
  "\<lbrakk>d < 16; valid2 a b; fits_s32 off\<rbrakk> \<Longrightarrow>
   encodes (load32_xmm32_gpr64_plus_gpr64_plus_s32 (xmm d) (gpr a) (gpr b) off)
     (Insn MOVSS [Xmm d, mem2 32 (lo a = 4) a b off])"
  by (cases "hi d \<or> hi (ix_of (lo a = 4) a b) \<or> hi (base_of (lo a = 4) a b)"; simp add: encodes_def load32_xmm32_gpr64_plus_gpr64_plus_s32_def enc_simps)

lemma enc_store32_xmm32_gpr64_plus_gpr64 [enc_intros]:
  "\<lbrakk>v < 16; valid2 a b\<rbrakk> \<Longrightarrow>
   encodes (store32_xmm32_gpr64_plus_gpr64 (gpr a) (gpr b) (xmm v))
     (Insn MOVSS [mem2 32 (flip0 a b) a b 0, Xmm v])"
  by (cases "both5 a b"; cases "hi v \<or> hi (ix_of (flip0 a b) a b) \<or> hi (base_of (flip0 a b) a b)"; simp add: encodes_def store32_xmm32_gpr64_plus_gpr64_def enc_simps)

lemma enc_store32_xmm32_gpr64_plus_gpr64_plus_s8 [enc_intros]:
  "\<lbrakk>v < 16; valid2 a b; fits_s8 off\<rbrakk> \<Longrightarrow>
   encodes (store32_xmm32_gpr64_plus_gpr64_plus_s8 (gpr a) (gpr b) (xmm v) off)
     (Insn MOVSS [mem2 32 (lo a = 4) a b off, Xmm v])"
  by (cases "hi v \<or> hi (ix_of (lo a = 4) a b) \<or> hi (base_of (lo a = 4) a b)"; simp add: encodes_def store32_xmm32_gpr64_plus_gpr64_plus_s8_def enc_simps)

lemma enc_store32_xmm32_gpr64_plus_gpr64_plus_s32 [enc_intros]:
  "\<lbrakk>v < 16; valid2 a b; fits_s32 off\<rbrakk> \<Longrightarrow>
   encodes (store32_xmm32_gpr64_plus_gpr64_plus_s32 (gpr a) (gpr b) (xmm v) off)
     (Insn MOVSS [mem2 32 (lo a = 4) a b off, Xmm v])"
  by (cases "hi v \<or> hi (ix_of (lo a = 4) a b) \<or> hi (base_of (lo a = 4) a b)"; simp add: encodes_def store32_xmm32_gpr64_plus_gpr64_plus_s32_def enc_simps)

lemma enc_lea_reg_plus_off32 [enc_intros]:
  "\<lbrakk>d < 16; a < 16; fits_s32 off\<rbrakk> \<Longrightarrow>
   encodes (lea_reg_plus_off32 (gpr d) (gpr a) off)
     (Insn LEA [Gpr 64 d, Mem 0 (Some a) None off])"
  by (simp add: encodes_def lea_reg_plus_off32_def enc_simps)

lemma enc_store32_xmm32_gpr64_plus_s32 [enc_intros]:
  "\<lbrakk>v < 16; a < 16; fits_s32 off\<rbrakk> \<Longrightarrow>
   encodes (store32_xmm32_gpr64_plus_s32 (gpr a) (xmm v) off)
     (Insn MOVSS [Mem 32 (Some a) None off, Xmm v])"
  by (cases "hi v \<or> hi a"; simp add: encodes_def store32_xmm32_gpr64_plus_s32_def enc_simps)

lemma enc_load32_xmm32_gpr64_plus_s32 [enc_intros]:
  "\<lbrakk>d < 16; a < 16; fits_s32 off\<rbrakk> \<Longrightarrow>
   encodes (load32_xmm32_gpr64_plus_s32 (xmm d) (gpr a) off)
     (Insn MOVSS [Xmm d, Mem 32 (Some a) None off])"
  by (cases "hi d \<or> hi a"; simp add: encodes_def load32_xmm32_gpr64_plus_s32_def enc_simps)

lemma enc_store128_gpr64_xmm128_s32 [enc_intros]:
  "\<lbrakk>v < 16; a < 16; fits_s32 off\<rbrakk> \<Longrightarrow>
   encodes (store128_gpr64_xmm128_s32 (gpr a) (xmm v) off)
     (Insn MOVDQA [Mem 128 (Some a) None off, Xmm v])"
  by (cases "hi v \<or> hi a"; simp add: encodes_def store128_gpr64_xmm128_s32_def enc_simps)

lemma enc_load128_xmm128_gpr64_s32 [enc_intros]:
  "\<lbrakk>d < 16; a < 16; fits_s32 off\<rbrakk> \<Longrightarrow>
   encodes (load128_xmm128_gpr64_s32 (xmm d) (gpr a) off)
     (Insn MOVDQA [Xmm d, Mem 128 (Some a) None off])"
  by (cases "hi d \<or> hi a"; simp add: encodes_def load128_xmm128_gpr64_s32_def enc_simps)

lemma enc_lea_reg_plus_off8 [enc_intros]:
  "\<lbrakk>d < 16; a < 16; fits_s8 off\<rbrakk> \<Longrightarrow>
   encodes (lea_reg_plus_off8 (gpr d) (gpr a) off)
     (Insn LEA [Gpr 64 d, Mem 0 (Some a) None off])"
  by (simp add: encodes_def lea_reg_plus_off8_def enc_simps)

lemma enc_store32_xmm32_gpr64_plus_s8 [enc_intros]:
  "\<lbrakk>v < 16; a < 16; fits_s8 off\<rbrakk> \<Longrightarrow>
   encodes (store32_xmm32_gpr64_plus_s8 (gpr a) (xmm v) off)
     (Insn MOVSS [Mem 32 (Some a) None off, Xmm v])"
  by (cases "hi v \<or> hi a"; simp add: encodes_def store32_xmm32_gpr64_plus_s8_def enc_simps)

lemma enc_load32_xmm32_gpr64_plus_s8 [enc_intros]:
  "\<lbrakk>d < 16; a < 16; fits_s8 off\<rbrakk> \<Longrightarrow>
   encodes (load32_xmm32_gpr64_plus_s8 (xmm d) (gpr a) off)
     (Insn MOVSS [Xmm d, Mem 32 (Some a) None off])"
  by (cases "hi d \<or> hi a"; simp add: encodes_def load32_xmm32_gpr64_plus_s8_def enc_simps)

lemma enc_store128_gpr64_xmm128_s8 [enc_intros]:
  "\<lbrakk>v < 16; a < 16; fits_s8 off\<rbrakk> \<Longrightarrow>
   encodes (store128_gpr64_xmm128_s8 (gpr a) (xmm v) off)
     (Insn MOVDQA [Mem 128 (Some a) None off, Xmm v])"
  by (cases "hi v \<or> hi a"; simp add: encodes_def store128_gpr64_xmm128_s8_def enc_simps)

lemma enc_load128_xmm128_gpr64_s8 [enc_intros]:
  "\<lbrakk>d < 16; a < 16; fits_s8 off\<rbrakk> \<Longrightarrow>
   encodes (load128_xmm128_gpr64_s8 (xmm d) (gpr a) off)
     (Insn MOVDQA [Xmm d, Mem 128 (Some a) None off])"
  by (cases "hi d \<or> hi a"; simp add: encodes_def load128_xmm128_gpr64_s8_def enc_simps)

lemma enc_store128_gpr64_xmm128 [enc_intros]:
  "\<lbrakk>v < 16; a < 16\<rbrakk> \<Longrightarrow>
   encodes (store128_gpr64_xmm128 (gpr a) (xmm v))
     (Insn MOVDQA [Mem 128 (Some a) None 0, Xmm v])"
  by (cases "lo a = 4"; cases "lo a = 5"; cases "hi v"; cases "hi a"; simp add: encodes_def store128_gpr64_xmm128_def enc_simps)

lemma enc_load128_xmm128_gpr64 [enc_intros]:
  "\<lbrakk>d < 16; a < 16\<rbrakk> \<Longrightarrow>
   encodes (load128_xmm128_gpr64 (xmm d) (gpr a))
     (Insn MOVDQA [Xmm d, Mem 128 (Some a) None 0])"
  by (cases "lo a = 4"; cases "lo a = 5"; cases "hi d"; cases "hi a"; simp add: encodes_def load128_xmm128_gpr64_def enc_simps)

lemma enc_load64_gpr64_plus_s32 [enc_intros]:
  "\<lbrakk>d < 16; a < 16\<rbrakk> \<Longrightarrow>
   encodes (load64_gpr64_plus_s32 (gpr d) off (gpr a))
     (Insn MOV [Gpr 64 d, Mem 64 (Some a) None (sint off)])"
  by (simp add: encodes_def load64_gpr64_plus_s32_def enc_simps)

lemma enc_store64_gpr64_plus_s32 [enc_intros]:
  "\<lbrakk>v < 16; a < 16\<rbrakk> \<Longrightarrow>
   encodes (store64_gpr64_plus_s32 (gpr a) off (gpr v))
     (Insn MOV [Mem 64 (Some a) None (sint off), Gpr 64 v])"
  by (simp add: encodes_def store64_gpr64_plus_s32_def enc_simps)

lemma enc_load64_rip_s32 [enc_intros]:
  "\<lbrakk>d < 16; fits_s32 off\<rbrakk> \<Longrightarrow>
   encodes (load64_rip_s32 (gpr d) off)
     (Insn MOV [Gpr 64 d, MemRip 64 off])"
  by (simp add: encodes_def load64_rip_s32_def enc_simps)

lemma enc_load32s_rip_s32 [enc_intros]:
  "\<lbrakk>d < 16; fits_s32 off\<rbrakk> \<Longrightarrow>
   encodes (load32s_rip_s32 (gpr d) off)
     (Insn MOVSXD [Gpr 64 d, MemRip 32 off])"
  by (simp add: encodes_def load32s_rip_s32_def enc_simps)

lemma enc_load32u_rip_s32 [enc_intros]:
  "\<lbrakk>d < 16; fits_s32 off\<rbrakk> \<Longrightarrow>
   encodes (load32u_rip_s32 (gpr d) off)
     (Insn MOV [Gpr 32 d, MemRip 32 off])"
  by (cases "hi d"; simp add: encodes_def load32u_rip_s32_def enc_simps)

lemma enc_load16u_rip_s32 [enc_intros]:
  "\<lbrakk>d < 16; fits_s32 off\<rbrakk> \<Longrightarrow>
   encodes (load16u_rip_s32 (gpr d) off)
     (Insn MOVZX [Gpr 64 d, MemRip 16 off])"
  by (simp add: encodes_def load16u_rip_s32_def enc_simps)

lemma enc_load16s_rip_s32 [enc_intros]:
  "\<lbrakk>d < 16; fits_s32 off\<rbrakk> \<Longrightarrow>
   encodes (load16s_rip_s32 (gpr d) off)
     (Insn MOVSX [Gpr 64 d, MemRip 16 off])"
  by (simp add: encodes_def load16s_rip_s32_def enc_simps)

lemma enc_load8u_rip_s32 [enc_intros]:
  "\<lbrakk>d < 16; fits_s32 off\<rbrakk> \<Longrightarrow>
   encodes (load8u_rip_s32 (gpr d) off)
     (Insn MOVZX [Gpr 64 d, MemRip 8 off])"
  by (simp add: encodes_def load8u_rip_s32_def enc_simps)

lemma enc_load8s_rip_s32 [enc_intros]:
  "\<lbrakk>d < 16; fits_s32 off\<rbrakk> \<Longrightarrow>
   encodes (load8s_rip_s32 (gpr d) off)
     (Insn MOVSX [Gpr 64 d, MemRip 8 off])"
  by (simp add: encodes_def load8s_rip_s32_def enc_simps)

lemma enc_store64_rip_s32 [enc_intros]:
  "\<lbrakk>d < 16; fits_s32 off\<rbrakk> \<Longrightarrow>
   encodes (store64_rip_s32 (gpr d) off)
     (Insn MOV [MemRip 64 off, Gpr 64 d])"
  by (simp add: encodes_def store64_rip_s32_def enc_simps)

lemma enc_store32_rip_s32 [enc_intros]:
  "\<lbrakk>d < 16; fits_s32 off\<rbrakk> \<Longrightarrow>
   encodes (store32_rip_s32 (gpr d) off)
     (Insn MOV [MemRip 32 off, Gpr 32 d])"
  by (cases "hi d"; simp add: encodes_def store32_rip_s32_def enc_simps)

lemma enc_store16_rip_s32 [enc_intros]:
  "\<lbrakk>d < 16; fits_s32 off\<rbrakk> \<Longrightarrow>
   encodes (store16_rip_s32 (gpr d) off)
     (Insn MOV [MemRip 16 off, Gpr 16 d])"
  by (cases "hi d"; simp add: encodes_def store16_rip_s32_def enc_simps)

lemma enc_store8_rip_s32 [enc_intros]:
  "\<lbrakk>d < 16; fits_s32 off\<rbrakk> \<Longrightarrow>
   encodes (store8_rip_s32 (gpr d) off)
     (Insn MOV [MemRip 8 off, Gpr 8 d])"
  by (cases "hi d"; cases "3 < d"; simp add: encodes_def store8_rip_s32_def enc_simps)

lemma enc_static_addr [enc_intros]:
  "\<lbrakk>d < 16; fits_s32 off\<rbrakk> \<Longrightarrow>
   encodes (static_addr (gpr d) off)
     (Insn LEA [Gpr 64 d, MemRip 0 off])"
  by (simp add: encodes_def static_addr_def enc_simps)

lemma enc_static_load_xmm32 [enc_intros]:
  "\<lbrakk>d < 16; fits_s32 off\<rbrakk> \<Longrightarrow>
   encodes (static_load_xmm32 (xmm d) off)
     (Insn MOVSS [Xmm d, MemRip 32 off])"
  by (cases "hi d"; simp add: encodes_def static_load_xmm32_def enc_simps)

lemma enc_static_store_xmm32 [enc_intros]:
  "\<lbrakk>d < 16; fits_s32 off\<rbrakk> \<Longrightarrow>
   encodes (static_store_xmm32 (xmm d) off)
     (Insn MOVSS [MemRip 32 off, Xmm d])"
  by (cases "hi d"; simp add: encodes_def static_store_xmm32_def enc_simps)

end
