(* ===== verification/Emit_Ops_Correct.thy ===== *)
theory Emit_Ops_Correct
  imports Emit_Mem_Correct
begin

text \<open>
  The same for arithmetic, shifts, jumps, calls and scalar floats (\<open>IGen_Ops\<close>) and for the AVX
  operations (\<open>IGen_Vec\<close>).
\<close>

section \<open>General and scalar operations\<close>

lemma enc_push_gpr64 [enc_intros]:
  "\<lbrakk>s < 16\<rbrakk> \<Longrightarrow>
   encodes (push_gpr64 (gpr s))
     (Insn PUSH [Gpr 64 s])"
  by (cases "hi s"; simp add: encodes_def push_gpr64_eq emit_simps emit_defs decode_opcode_reg)
    (simp_all add: decode_rex_step decode_opcode_reg lo_not_hi read_s32_low)

lemma enc_pop_gpr64 [enc_intros]:
  "\<lbrakk>s < 16\<rbrakk> \<Longrightarrow>
   encodes (pop_gpr64 (gpr s))
     (Insn POP [Gpr 64 s])"
  by (cases "hi s"; simp add: encodes_def pop_gpr64_eq emit_simps emit_defs decode_opcode_reg)
    (simp_all add: decode_rex_step decode_opcode_reg lo_not_hi read_s32_low)

lemma enc_call_r64 [enc_intros]:
  "\<lbrakk>s < 16\<rbrakk> \<Longrightarrow>
   encodes (call_r64 (gpr s))
     (Insn CALL [Gpr 64 s])"
  by (cases "hi s"; simp add: encodes_def call_r64_eq enc_simps)

lemma enc_jmp_r64 [enc_intros]:
  "\<lbrakk>s < 16\<rbrakk> \<Longrightarrow>
   encodes (jmp_r64 (gpr s))
     (Insn JMP [Gpr 64 s])"
  by (cases "hi s"; simp add: encodes_def jmp_r64_eq enc_simps)

lemma enc_add_gpr64_imm8s [enc_intros]:
  "\<lbrakk>d < 16; fits_s8 v\<rbrakk> \<Longrightarrow>
   encodes (add_gpr64_imm8s (gpr d) v)
     (Insn ADD [Gpr 64 d, ImmI v])"
  by (simp add: encodes_def add_gpr64_imm8s_def enc_simps)

lemma enc_add_gpr64_imm32s [enc_intros]:
  "\<lbrakk>d < 16; fits_s32 v\<rbrakk> \<Longrightarrow>
   encodes (add_gpr64_imm32s (gpr d) v)
     (Insn ADD [Gpr 64 d, ImmI v])"
  by (simp add: encodes_def add_gpr64_imm32s_def enc_simps)

lemma enc_add_gpr64_gpr64 [enc_intros]:
  "\<lbrakk>d < 16; s < 16\<rbrakk> \<Longrightarrow>
   encodes (add_gpr64_gpr64 (gpr d) (gpr s))
     (Insn ADD [Gpr 64 d, Gpr 64 s])"
  by (simp add: encodes_def add_gpr64_gpr64_def enc_simps)

lemma enc_sub_gpr64_imm8s [enc_intros]:
  "\<lbrakk>d < 16; fits_s8 v\<rbrakk> \<Longrightarrow>
   encodes (sub_gpr64_imm8s (gpr d) v)
     (Insn SUB [Gpr 64 d, ImmI v])"
  by (simp add: encodes_def sub_gpr64_imm8s_def enc_simps)

lemma enc_sub_gpr64_imm32s [enc_intros]:
  "\<lbrakk>d < 16; fits_s32 v\<rbrakk> \<Longrightarrow>
   encodes (sub_gpr64_imm32s (gpr d) v)
     (Insn SUB [Gpr 64 d, ImmI v])"
  by (simp add: encodes_def sub_gpr64_imm32s_def enc_simps)

lemma enc_sub_gpr64_gpr64 [enc_intros]:
  "\<lbrakk>d < 16; s < 16\<rbrakk> \<Longrightarrow>
   encodes (sub_gpr64_gpr64 (gpr d) (gpr s))
     (Insn SUB [Gpr 64 d, Gpr 64 s])"
  by (simp add: encodes_def sub_gpr64_gpr64_def enc_simps)

lemma enc_imul_gpr32_gpr32 [enc_intros]:
  "\<lbrakk>d < 16; s < 16\<rbrakk> \<Longrightarrow>
   encodes (imul_gpr32_gpr32 (gpr d) (gpr s))
     (Insn IMUL [Gpr 32 d, Gpr 32 s])"
  by (cases "hi d \<or> hi s"; simp add: encodes_def imul_gpr32_gpr32_def enc_simps)

lemma enc_imul_gpr64_gpr64 [enc_intros]:
  "\<lbrakk>d < 16; s < 16\<rbrakk> \<Longrightarrow>
   encodes (imul_gpr64_gpr64 (gpr d) (gpr s))
     (Insn IMUL [Gpr 64 d, Gpr 64 s])"
  by (simp add: encodes_def imul_gpr64_gpr64_def enc_simps)

lemma enc_idiv_gpr32 [enc_intros]:
  "\<lbrakk>s < 16\<rbrakk> \<Longrightarrow>
   encodes (idiv_gpr32 (gpr s))
     (Insn IDIV [Gpr 32 s])"
  by (cases "hi s"; simp add: encodes_def idiv_gpr32_def enc_simps)

lemma enc_unsigned_div_gpr32 [enc_intros]:
  "\<lbrakk>s < 16\<rbrakk> \<Longrightarrow>
   encodes (unsigned_div_gpr32 (gpr s))
     (Insn DIV [Gpr 32 s])"
  by (cases "hi s"; simp add: encodes_def unsigned_div_gpr32_def enc_simps)

lemma enc_cdq [enc_intros]:
  "encodes cdq
     (Insn CDQ [])"
  by (simp add: encodes_def cdq_def enc_simps)

lemma enc_movsx_r64_r32 [enc_intros]:
  "\<lbrakk>d < 16; s < 16\<rbrakk> \<Longrightarrow>
   encodes (movsx_r64_r32 (gpr d) (gpr s))
     (Insn MOVSXD [Gpr 64 d, Gpr 32 s])"
  by (simp add: encodes_def movsx_r64_r32_def enc_simps)

lemma enc_cmp_gpr64_gpr64 [enc_intros]:
  "\<lbrakk>d < 16; s < 16\<rbrakk> \<Longrightarrow>
   encodes (cmp_gpr64_gpr64 (gpr d) (gpr s))
     (Insn CMP [Gpr 64 d, Gpr 64 s])"
  by (simp add: encodes_def cmp_gpr64_gpr64_def enc_simps)

lemma enc_or_gpr64_gpr64 [enc_intros]:
  "\<lbrakk>d < 16; s < 16\<rbrakk> \<Longrightarrow>
   encodes (or_gpr64_gpr64 (gpr d) (gpr s))
     (Insn OR_OP [Gpr 64 d, Gpr 64 s])"
  by (simp add: encodes_def or_gpr64_gpr64_def enc_simps)

lemma enc_and_gpr64_gpr64 [enc_intros]:
  "\<lbrakk>d < 16; s < 16\<rbrakk> \<Longrightarrow>
   encodes (and_gpr64_gpr64 (gpr d) (gpr s))
     (Insn AND_OP [Gpr 64 d, Gpr 64 s])"
  by (simp add: encodes_def and_gpr64_gpr64_def enc_simps)

lemma enc_xor_gpr64_gpr64 [enc_intros]:
  "\<lbrakk>d < 16; s < 16\<rbrakk> \<Longrightarrow>
   encodes (xor_gpr64_gpr64 (gpr d) (gpr s))
     (Insn XOR_OP [Gpr 64 d, Gpr 64 s])"
  by (simp add: encodes_def xor_gpr64_gpr64_def enc_simps)

lemma enc_not_gpr64 [enc_intros]:
  "\<lbrakk>s < 16\<rbrakk> \<Longrightarrow>
   encodes (not_gpr64 (gpr s))
     (Insn NOT_OP [Gpr 64 s])"
  by (simp add: encodes_def not_gpr64_def enc_simps)

lemma enc_shl_gpr64_cl [enc_intros]:
  "\<lbrakk>s < 16\<rbrakk> \<Longrightarrow>
   encodes (shl_gpr64_cl (gpr s))
     (Insn SHL [Gpr 64 s, CL])"
  by (simp add: encodes_def shl_gpr64_cl_def enc_simps)

lemma enc_shl_gpr64_u8 [enc_intros]:
  "\<lbrakk>s < 16\<rbrakk> \<Longrightarrow>
   encodes (shl_gpr64_u8 (gpr s) sa)
     (Insn SHL [Gpr 64 s, ImmI (sint sa)])"
  by (simp add: encodes_def shl_gpr64_u8_def enc_simps)

lemma enc_shr_gpr64_cl [enc_intros]:
  "\<lbrakk>s < 16\<rbrakk> \<Longrightarrow>
   encodes (shr_gpr64_cl (gpr s))
     (Insn SHR [Gpr 64 s, CL])"
  by (simp add: encodes_def shr_gpr64_cl_def enc_simps)

lemma enc_shr_gpr64_u8 [enc_intros]:
  "\<lbrakk>s < 16\<rbrakk> \<Longrightarrow>
   encodes (shr_gpr64_u8 (gpr s) sa)
     (Insn SHR [Gpr 64 s, ImmI (sint sa)])"
  by (simp add: encodes_def shr_gpr64_u8_def enc_simps)

lemma enc_sar_gpr64_cl [enc_intros]:
  "\<lbrakk>s < 16\<rbrakk> \<Longrightarrow>
   encodes (sar_gpr64_cl (gpr s))
     (Insn SAR [Gpr 64 s, CL])"
  by (simp add: encodes_def sar_gpr64_cl_def enc_simps)

lemma enc_sar_gpr64_u8 [enc_intros]:
  "\<lbrakk>s < 16\<rbrakk> \<Longrightarrow>
   encodes (sar_gpr64_u8 (gpr s) sa)
     (Insn SAR [Gpr 64 s, ImmI (sint sa)])"
  by (simp add: encodes_def sar_gpr64_u8_def enc_simps)

lemma enc_jmp_32 [enc_intros]:
  "encodes jmp_32
     (Insn JMP [ImmI 0])"
  by (simp add: encodes_def jmp_32_def enc_simps)

lemma enc_je_32 [enc_intros]:
  "encodes je_32
     (Insn (JCC 4) [ImmI 0])"
  by (simp add: encodes_def je_32_def enc_simps)

lemma enc_jne_32 [enc_intros]:
  "encodes jne_32
     (Insn (JCC 5) [ImmI 0])"
  by (simp add: encodes_def jne_32_def enc_simps)

lemma enc_jle_32 [enc_intros]:
  "encodes jle_32
     (Insn (JCC 14) [ImmI 0])"
  by (simp add: encodes_def jle_32_def enc_simps)

lemma enc_jge_32 [enc_intros]:
  "encodes jge_32
     (Insn (JCC 13) [ImmI 0])"
  by (simp add: encodes_def jge_32_def enc_simps)

lemma enc_jl_32 [enc_intros]:
  "encodes jl_32
     (Insn (JCC 12) [ImmI 0])"
  by (simp add: encodes_def jl_32_def enc_simps)

lemma enc_jg_32 [enc_intros]:
  "encodes jg_32
     (Insn (JCC 15) [ImmI 0])"
  by (simp add: encodes_def jg_32_def enc_simps)

lemma enc_jbe_32 [enc_intros]:
  "encodes jbe_32
     (Insn (JCC 6) [ImmI 0])"
  by (simp add: encodes_def jbe_32_def enc_simps)

lemma enc_jae_32 [enc_intros]:
  "encodes jae_32
     (Insn (JCC 3) [ImmI 0])"
  by (simp add: encodes_def jae_32_def enc_simps)

lemma enc_jb_32 [enc_intros]:
  "encodes jb_32
     (Insn (JCC 2) [ImmI 0])"
  by (simp add: encodes_def jb_32_def enc_simps)

lemma enc_ja_32 [enc_intros]:
  "encodes ja_32
     (Insn (JCC 7) [ImmI 0])"
  by (simp add: encodes_def ja_32_def enc_simps)

lemma enc_cmp_flt_flt [enc_intros]:
  "\<lbrakk>d < 16; s < 16\<rbrakk> \<Longrightarrow>
   encodes (cmp_flt_flt (xmm d) (xmm s))
     (Insn UCOMISS [Xmm d, Xmm s])"
  by (cases "hi d \<or> hi s"; simp add: encodes_def cmp_flt_flt_def enc_simps)

lemma enc_sqrts_xmm [enc_intros]:
  "\<lbrakk>d < 16; s < 16\<rbrakk> \<Longrightarrow>
   encodes (sqrts_xmm (xmm d) (xmm s))
     (Insn SQRTSS [Xmm d, Xmm s])"
  by (cases "hi d \<or> hi s"; simp add: encodes_def sqrts_xmm_def enc_simps)

lemma enc_mulss_xmm_xmm [enc_intros]:
  "\<lbrakk>d < 16; s < 16\<rbrakk> \<Longrightarrow>
   encodes (mulss_xmm_xmm (xmm d) (xmm s))
     (Insn MULSS [Xmm d, Xmm s])"
  by (cases "hi d \<or> hi s"; simp add: encodes_def mulss_xmm_xmm_def enc_simps)

lemma enc_divss_xmm_xmm [enc_intros]:
  "\<lbrakk>d < 16; s < 16\<rbrakk> \<Longrightarrow>
   encodes (divss_xmm_xmm (xmm d) (xmm s))
     (Insn DIVSS [Xmm d, Xmm s])"
  by (cases "hi d \<or> hi s"; simp add: encodes_def divss_xmm_xmm_def enc_simps)

lemma enc_subss_xmm_xmm [enc_intros]:
  "\<lbrakk>d < 16; s < 16\<rbrakk> \<Longrightarrow>
   encodes (subss_xmm_xmm (xmm d) (xmm s))
     (Insn SUBSS [Xmm d, Xmm s])"
  by (cases "hi d \<or> hi s"; simp add: encodes_def subss_xmm_xmm_def enc_simps)

lemma enc_addss_xmm_xmm [enc_intros]:
  "\<lbrakk>d < 16; s < 16\<rbrakk> \<Longrightarrow>
   encodes (addss_xmm_xmm (xmm d) (xmm s))
     (Insn ADDSS [Xmm d, Xmm s])"
  by (cases "hi d \<or> hi s"; simp add: encodes_def addss_xmm_xmm_def enc_simps)

lemma enc_minss_xmm_xmm [enc_intros]:
  "\<lbrakk>d < 16; s < 16\<rbrakk> \<Longrightarrow>
   encodes (minss_xmm_xmm (xmm d) (xmm s))
     (Insn MINSS [Xmm d, Xmm s])"
  by (cases "hi d \<or> hi s"; simp add: encodes_def minss_xmm_xmm_def enc_simps)

lemma enc_maxss_xmm_xmm [enc_intros]:
  "\<lbrakk>d < 16; s < 16\<rbrakk> \<Longrightarrow>
   encodes (maxss_xmm_xmm (xmm d) (xmm s))
     (Insn MAXSS [Xmm d, Xmm s])"
  by (cases "hi d \<or> hi s"; simp add: encodes_def maxss_xmm_xmm_def enc_simps)

lemma enc_int32_to_float [enc_intros]:
  "\<lbrakk>d < 16; s < 16\<rbrakk> \<Longrightarrow>
   encodes (int32_to_float (xmm d) (gpr s))
     (Insn CVTSI2SS [Xmm d, Gpr 32 s])"
  by (cases "hi d \<or> hi s"; simp add: encodes_def int32_to_float_def enc_simps)

lemma enc_float_to_int32 [enc_intros]:
  "\<lbrakk>d < 16; s < 16\<rbrakk> \<Longrightarrow>
   encodes (float_to_int32 (gpr d) (xmm s))
     (Insn CVTTSS2SI [Gpr 64 d, Xmm s])"
  by (simp add: encodes_def float_to_int32_def enc_simps)

lemma enc_ret [enc_intros]:
  "encodes ret
     (Insn RET [])"
  by (simp add: encodes_def ret_def enc_simps)

lemma enc_nop [enc_intros]:
  "encodes nop
     (Insn NOP [])"
  by (simp add: encodes_def nop_def enc_simps)

section \<open>AVX\<close>

lemma enc_nop_vf [enc_intros]:
  "encodes nop_vf
     (Insn FNOP [])"
  by (simp add: encodes_def nop_vf_def enc_simps)

lemma enc_wait_vf [enc_intros]:
  "encodes wait_vf
     (Insn FWAIT [])"
  by (simp add: encodes_def wait_vf_def enc_simps)

lemma enc_loadvf_gpr64_plus_gpr64 [enc_intros]:
  "\<lbrakk>d < 16; valid2 a b\<rbrakk> \<Longrightarrow>
   encodes (loadvf_gpr64_plus_gpr64 (xmm d) (gpr a) (gpr b))
     (Insn VMOVAPS [Xmm d, mem2 128 (flip0 a b) a b 0])"
  by (cases "both5 a b"; cases "hi (ix_of (flip0 a b) a b) \<or> hi (base_of (flip0 a b) a b)"; simp add: encodes_def loadvf_gpr64_plus_gpr64_def enc_simps)

lemma enc_loadvf_gpr64_plus_gpr64_plus_s8 [enc_intros]:
  "\<lbrakk>d < 16; valid2 a b; fits_s8 off\<rbrakk> \<Longrightarrow>
   encodes (loadvf_gpr64_plus_gpr64_plus_s8 (xmm d) (gpr a) (gpr b) off)
     (Insn VMOVAPS [Xmm d, mem2 128 (lo a = 4) a b off])"
  by (cases "hi (ix_of (lo a = 4) a b) \<or> hi (base_of (lo a = 4) a b)"; simp add: encodes_def loadvf_gpr64_plus_gpr64_plus_s8_def enc_simps)

lemma enc_loadvf_gpr64_plus_gpr64_plus_s32 [enc_intros]:
  "\<lbrakk>d < 16; valid2 a b; fits_s32 off\<rbrakk> \<Longrightarrow>
   encodes (loadvf_gpr64_plus_gpr64_plus_s32 (xmm d) (gpr a) (gpr b) off)
     (Insn VMOVAPS [Xmm d, mem2 128 (lo a = 4) a b off])"
  by (cases "hi (ix_of (lo a = 4) a b) \<or> hi (base_of (lo a = 4) a b)"; simp add: encodes_def loadvf_gpr64_plus_gpr64_plus_s32_def enc_simps)

lemma enc_storevf_gpr64_plus_gpr64 [enc_intros]:
  "\<lbrakk>v < 16; valid2 a b\<rbrakk> \<Longrightarrow>
   encodes (storevf_gpr64_plus_gpr64 (xmm v) (gpr a) (gpr b))
     (Insn VMOVAPS [mem2 128 (flip0 a b) a b 0, Xmm v])"
  by (cases "both5 a b"; cases "hi (ix_of (flip0 a b) a b) \<or> hi (base_of (flip0 a b) a b)"; simp add: encodes_def storevf_gpr64_plus_gpr64_def enc_simps)

lemma enc_storevf_gpr64_plus_gpr64_plus_s8 [enc_intros]:
  "\<lbrakk>v < 16; valid2 a b; fits_s8 off\<rbrakk> \<Longrightarrow>
   encodes (storevf_gpr64_plus_gpr64_plus_s8 (xmm v) (gpr a) (gpr b) off)
     (Insn VMOVAPS [mem2 128 (lo a = 4) a b off, Xmm v])"
  by (cases "hi (ix_of (lo a = 4) a b) \<or> hi (base_of (lo a = 4) a b)"; simp add: encodes_def storevf_gpr64_plus_gpr64_plus_s8_def enc_simps)

lemma enc_storevf_gpr64_plus_gpr64_plus_s32 [enc_intros]:
  "\<lbrakk>v < 16; valid2 a b; fits_s32 off\<rbrakk> \<Longrightarrow>
   encodes (storevf_gpr64_plus_gpr64_plus_s32 (xmm v) (gpr a) (gpr b) off)
     (Insn VMOVAPS [mem2 128 (lo a = 4) a b off, Xmm v])"
  by (cases "hi (ix_of (lo a = 4) a b) \<or> hi (base_of (lo a = 4) a b)"; simp add: encodes_def storevf_gpr64_plus_gpr64_plus_s32_def enc_simps)

lemma enc_loadvf_rip_plus_s32 [enc_intros]:
  "\<lbrakk>d < 16; fits_s32 off\<rbrakk> \<Longrightarrow>
   encodes (loadvf_rip_plus_s32 (xmm d) off)
     (Insn VMOVAPS [Xmm d, MemRip 128 off])"
  by (frule fits_s32D) (simp add: encodes_def loadvf_rip_plus_s32_def enc_simps)

lemma enc_mov_vf_vf [enc_intros]:
  "\<lbrakk>d < 16; s < 16\<rbrakk> \<Longrightarrow>
   encodes (mov_vf_vf (xmm d) (xmm s))
     (Insn VMOVAPS [Xmm d, Xmm s])"
  by (cases "hi s"; cases "hi d"; simp add: encodes_def mov_vf_vf_def enc_simps)

lemma enc_swizzle_vf [enc_intros]:
  "\<lbrakk>d < 16; s < 16\<rbrakk> \<Longrightarrow>
   encodes (swizzle_vf (xmm d) (xmm s) c)
     (Insn VSHUFPS [Xmm d, Xmm s, Xmm s, ImmI (sint c)])"
  by (cases "hi s"; simp add: encodes_def swizzle_vf_def enc_simps)

lemma enc_blend_vf [enc_intros]:
  "\<lbrakk>d < 16; s < 16; t < 16; c AND 0b11110000 = 0\<rbrakk> \<Longrightarrow>
   encodes (blend_vf (xmm d) (xmm s) (xmm t) c)
     (Insn VBLENDPS [Xmm d, Xmm s, Xmm t, ImmI (sint c)])"
  by (simp add: encodes_def blend_vf_def enc_simps)

lemma enc_xor_vf [enc_intros]:
  "\<lbrakk>d < 16; s < 16; t < 16\<rbrakk> \<Longrightarrow>
   encodes (xor_vf (xmm d) (xmm s) (xmm t))
     (Insn VXORPS [Xmm d, Xmm s, Xmm t])"
  by (cases "hi t"; simp add: encodes_def xor_vf_def enc_simps)

lemma enc_sub_vf [enc_intros]:
  "\<lbrakk>d < 16; s < 16; t < 16\<rbrakk> \<Longrightarrow>
   encodes (sub_vf (xmm d) (xmm s) (xmm t))
     (Insn VSUBPS [Xmm d, Xmm s, Xmm t])"
  by (cases "hi t"; simp add: encodes_def sub_vf_def enc_simps)

lemma enc_add_vf [enc_intros]:
  "\<lbrakk>d < 16; s < 16; t < 16\<rbrakk> \<Longrightarrow>
   encodes (add_vf (xmm d) (xmm s) (xmm t))
     (Insn VADDPS [Xmm d, Xmm s, Xmm t])"
  by (cases "hi t"; simp add: encodes_def add_vf_def enc_simps)

lemma enc_mul_vf [enc_intros]:
  "\<lbrakk>d < 16; s < 16; t < 16\<rbrakk> \<Longrightarrow>
   encodes (mul_vf (xmm d) (xmm s) (xmm t))
     (Insn VMULPS [Xmm d, Xmm s, Xmm t])"
  by (cases "hi t"; simp add: encodes_def mul_vf_def enc_simps)

lemma enc_max_vf [enc_intros]:
  "\<lbrakk>d < 16; s < 16; t < 16\<rbrakk> \<Longrightarrow>
   encodes (max_vf (xmm d) (xmm s) (xmm t))
     (Insn VMAXPS [Xmm d, Xmm s, Xmm t])"
  by (cases "hi t"; simp add: encodes_def max_vf_def enc_simps)

lemma enc_min_vf [enc_intros]:
  "\<lbrakk>d < 16; s < 16; t < 16\<rbrakk> \<Longrightarrow>
   encodes (min_vf (xmm d) (xmm s) (xmm t))
     (Insn VMINPS [Xmm d, Xmm s, Xmm t])"
  by (cases "hi t"; simp add: encodes_def min_vf_def enc_simps)

lemma enc_div_vf [enc_intros]:
  "\<lbrakk>d < 16; s < 16; t < 16\<rbrakk> \<Longrightarrow>
   encodes (div_vf (xmm d) (xmm s) (xmm t))
     (Insn VDIVPS [Xmm d, Xmm s, Xmm t])"
  by (cases "hi t"; simp add: encodes_def div_vf_def enc_simps)

lemma enc_pextlw_swapped [enc_intros]:
  "\<lbrakk>d < 16; s < 16; t < 16\<rbrakk> \<Longrightarrow>
   encodes (pextlw_swapped (xmm d) (xmm s) (xmm t))
     (Insn VPUNPCKLDQ [Xmm d, Xmm s, Xmm t])"
  by (cases "hi t"; simp add: encodes_def pextlw_swapped_def enc_simps)

lemma enc_pextuw_swapped [enc_intros]:
  "\<lbrakk>d < 16; s < 16; t < 16\<rbrakk> \<Longrightarrow>
   encodes (pextuw_swapped (xmm d) (xmm s) (xmm t))
     (Insn VPUNPCKHDQ [Xmm d, Xmm s, Xmm t])"
  by (cases "hi t"; simp add: encodes_def pextuw_swapped_def enc_simps)

lemma enc_vpunpcklqdq [enc_intros]:
  "\<lbrakk>d < 16; s < 16; t < 16\<rbrakk> \<Longrightarrow>
   encodes (vpunpcklqdq (xmm d) (xmm s) (xmm t))
     (Insn VPUNPCKLQDQ [Xmm d, Xmm s, Xmm t])"
  by (cases "hi t"; simp add: encodes_def vpunpcklqdq_def enc_simps)

lemma enc_pcpyud [enc_intros]:
  "\<lbrakk>d < 16; s < 16; t < 16\<rbrakk> \<Longrightarrow>
   encodes (pcpyud (xmm d) (xmm s) (xmm t))
     (Insn VPUNPCKHQDQ [Xmm d, Xmm s, Xmm t])"
  by (cases "hi t"; simp add: encodes_def pcpyud_def enc_simps)

lemma enc_pceqw [enc_intros]:
  "\<lbrakk>d < 16; s < 16; t < 16\<rbrakk> \<Longrightarrow>
   encodes (pceqw (xmm d) (xmm s) (xmm t))
     (Insn VPCMPEQD [Xmm d, Xmm s, Xmm t])"
  by (cases "hi t"; simp add: encodes_def pceqw_def enc_simps)

lemma enc_vpsubd [enc_intros]:
  "\<lbrakk>d < 16; s < 16; t < 16\<rbrakk> \<Longrightarrow>
   encodes (vpsubd (xmm d) (xmm s) (xmm t))
     (Insn VPSUBD [Xmm d, Xmm s, Xmm t])"
  by (cases "hi t"; simp add: encodes_def vpsubd_def enc_simps)

lemma enc_sqrt_vf [enc_intros]:
  "\<lbrakk>d < 16; s < 16\<rbrakk> \<Longrightarrow>
   encodes (sqrt_vf (xmm d) (xmm s))
     (Insn VSQRTPS [Xmm d, Xmm s])"
  by (cases "hi s"; simp add: encodes_def sqrt_vf_def enc_simps)

lemma enc_itof_vf [enc_intros]:
  "\<lbrakk>d < 16; s < 16\<rbrakk> \<Longrightarrow>
   encodes (itof_vf (xmm d) (xmm s))
     (Insn VCVTDQ2PS [Xmm d, Xmm s])"
  by (cases "hi s"; simp add: encodes_def itof_vf_def enc_simps)

lemma enc_ftoi_vf [enc_intros]:
  "\<lbrakk>d < 16; s < 16\<rbrakk> \<Longrightarrow>
   encodes (ftoi_vf (xmm d) (xmm s))
     (Insn VCVTTPS2DQ [Xmm d, Xmm s])"
  by (cases "hi s"; simp add: encodes_def ftoi_vf_def enc_simps)

lemma enc_pw_sra [enc_intros]:
  "\<lbrakk>d < 16; s < 16\<rbrakk> \<Longrightarrow>
   encodes (pw_sra (xmm d) (xmm s) c)
     (Insn VPSRAD [Xmm d, Xmm s, ImmI (sint c)])"
  by (cases "hi s"; simp add: encodes_def pw_sra_def enc_simps)

lemma enc_pw_srl [enc_intros]:
  "\<lbrakk>d < 16; s < 16\<rbrakk> \<Longrightarrow>
   encodes (pw_srl (xmm d) (xmm s) c)
     (Insn VPSRLD [Xmm d, Xmm s, ImmI (sint c)])"
  by (cases "hi s"; simp add: encodes_def pw_srl_def enc_simps)

lemma enc_pw_sll [enc_intros]:
  "\<lbrakk>d < 16; s < 16\<rbrakk> \<Longrightarrow>
   encodes (pw_sll (xmm d) (xmm s) c)
     (Insn VPSLLD [Xmm d, Xmm s, ImmI (sint c)])"
  by (cases "hi s"; simp add: encodes_def pw_sll_def enc_simps)

lemma enc_vpsrldq [enc_intros]:
  "\<lbrakk>d < 16; s < 16\<rbrakk> \<Longrightarrow>
   encodes (vpsrldq (xmm d) (xmm s) c)
     (Insn VPSRLDQ [Xmm d, Xmm s, ImmI (sint c)])"
  by (cases "hi s"; simp add: encodes_def vpsrldq_def enc_simps)

lemma enc_vpslldq [enc_intros]:
  "\<lbrakk>d < 16; s < 16\<rbrakk> \<Longrightarrow>
   encodes (vpslldq (xmm d) (xmm s) c)
     (Insn VPSLLDQ [Xmm d, Xmm s, ImmI (sint c)])"
  by (cases "hi s"; simp add: encodes_def vpslldq_def enc_simps)

lemma enc_vpshuflw [enc_intros]:
  "\<lbrakk>d < 16; s < 16\<rbrakk> \<Longrightarrow>
   encodes (vpshuflw (xmm d) (xmm s) c)
     (Insn VPSHUFLW [Xmm d, Xmm s, ImmI (sint c)])"
  by (cases "hi s"; simp add: encodes_def vpshuflw_def enc_simps)

lemma enc_vpshufhw [enc_intros]:
  "\<lbrakk>d < 16; s < 16\<rbrakk> \<Longrightarrow>
   encodes (vpshufhw (xmm d) (xmm s) c)
     (Insn VPSHUFHW [Xmm d, Xmm s, ImmI (sint c)])"
  by (cases "hi s"; simp add: encodes_def vpshufhw_def enc_simps)

end
