(* ===== verification/Emit_Props.thy ===== *)
theory Emit_Props
  imports Emit_Ops_Correct
begin

text \<open>
  The correctness of the instruction emitter (\<^verbatim>\<open>goalc/emitter/IGen.h\<close>, \<^verbatim>\<open>Instruction.h\<close>)
  against the decoder: what the dispatching functions and the groups of operations encode, when they
  stop on an assertion, and the contract the object generator needs of field offsets and patching.
\<close>

section \<open>Vocabulary of the properties\<close>

definition hw_num :: "Register \<Rightarrow> nat" where
  "hw_num r = nat (m_id r) mod 16"

lemma hw_num_gpr [simp]: "n < 16 \<Longrightarrow> hw_num (gpr n) = n"
  by (simp add: hw_num_def gpr_def)

lemma hw_num_xmm [simp]: "n < 16 \<Longrightarrow> hw_num (xmm n) = n"
  by (simp add: hw_num_def xmm_def nat_add_distrib)

definition goal_pair :: "Register \<Rightarrow> Register \<Rightarrow> bool" where
  "goal_pair a b \<longleftrightarrow> is_gpr a \<and> is_gpr b \<and> a \<noteq> b \<and> a \<noteq> Reg RSP \<and> b \<noteq> Reg RSP"

lemma goal_pairE:
  assumes "goal_pair r1 r2"
  obtains a b where "r1 = gpr a" "r2 = gpr b" "valid2 a b"
  using assms unfolding goal_pair_def valid2_def
  by (metis gpr_RSP is_gprE)

lemma goal_pair_gpr [simp]: "n < 16 \<Longrightarrow> goal_pair (gpr n) (gpr 15) = (n \<noteq> 4 \<and> n \<noteq> 15)"
  by (auto simp: goal_pair_def)

fun mem_width :: "operand \<Rightarrow> nat" where
  "mem_width (Mem w _ _ _) = w"
| "mem_width _ = 0"

definition goal_mem :: "nat \<Rightarrow> Register \<Rightarrow> Register \<Rightarrow> int \<Rightarrow> operand \<Rightarrow> bool" where
  "goal_mem w a b d m \<longleftrightarrow> mem_width m = w \<and>
    (\<forall>regs. mem_addr regs m = regs (hw_num a) + regs (hw_num b) + word_of_int d)"

lemma goal_mem_mem2: "valid2 a b \<Longrightarrow> goal_mem w (gpr a) (gpr b) d (mem2 w f a b d)"
  by (simp add: goal_mem_def mem_addr_mem2 valid2_def) (simp add: mem2_def)

text \<open>From one concrete encoding to the statement of a property.\<close>

lemma goal_memI:
  "valid2 a b \<Longrightarrow> encodes r (g (mem2 w f a b d)) \<Longrightarrow>
   \<exists>m. goal_mem w (gpr a) (gpr b) d m \<and> encodes r (g m)"
  using goal_mem_mem2 by blast

definition load_op :: "int \<Rightarrow> bool \<Rightarrow> mnemonic" where
  "load_op sz sx = (if sz = 8 then MOV else if sz = 4 then (if sx then MOVSXD else MOV)
     else if sx then MOVSX else MOVZX)"

definition load_dst :: "int \<Rightarrow> bool \<Rightarrow> nat \<Rightarrow> operand" where
  "load_dst sz sx d = Gpr (if sz = 4 \<and> \<not> sx then 32 else 64) d"

definition access_size :: "int \<Rightarrow> bool" where
  "access_size sz \<longleftrightarrow> sz = 1 \<or> sz = 2 \<or> sz = 4 \<or> sz = 8"

lemmas goal_load_defs = load_goal_gpr_def load_op_def load_dst_def

lemma load_goal_gpr_enc:
  assumes "is_gpr dst" "goal_pair addr off" "fits_s32 d" "access_size sz"
  shows "\<exists>m. goal_mem (nat (8 * sz)) addr off d m \<and>
    encodes (load_goal_gpr dst addr off d sz sx) (Insn (load_op sz sx) [load_dst sz sx (hw_num dst), m])"
proof -
  obtain n where n: "n < 16" "dst = gpr n" using assms(1) by (rule is_gprE)
  obtain a b where r: "addr = gpr a" "off = gpr b" and v: "valid2 a b"
    using assms(2) by (rule goal_pairE)
  have "encodes (load_goal_gpr (gpr n) (gpr a) (gpr b) d sz sx)
     (Insn (load_op sz sx) [load_dst sz sx n,
        mem2 (nat (8 * sz)) (if d = 0 then flip0 a b else lo a = 4) a b d])"
    using assms(4) n(1) v assms(3) unfolding access_size_def
    by (elim disjE; cases sx) (simp_all add: goal_load_defs enc_intros)
  then show ?thesis using n r v
    by (auto intro!: goal_memI [where g = "\<lambda>m. Insn (load_op sz sx) [load_dst sz sx n, m]"])
qed

lemma store_goal_gpr_enc:
  assumes "is_gpr src" "goal_pair addr off" "fits_s32 d" "access_size sz"
  shows "\<exists>m. goal_mem (nat (8 * sz)) addr off d m \<and>
    encodes (store_goal_gpr addr src off d sz) (Insn MOV [m, Gpr (nat (8 * sz)) (hw_num src)])"
proof -
  obtain n where n: "n < 16" "src = gpr n" using assms(1) by (rule is_gprE)
  obtain a b where r: "addr = gpr a" "off = gpr b" and v: "valid2 a b"
    using assms(2) by (rule goal_pairE)
  have "encodes (store_goal_gpr (gpr a) (gpr n) (gpr b) d sz)
     (Insn MOV [mem2 (nat (8 * sz)) (if d = 0 then flip0 a b else lo a = 4) a b d, Gpr (nat (8 * sz)) n])"
    using assms(4) n(1) v assms(3) unfolding access_size_def
    by (elim disjE) (simp_all add: store_goal_gpr_def enc_intros)
  then show ?thesis using n r v
    by (auto intro!: goal_memI [where g = "\<lambda>m. Insn MOV [m, Gpr (nat (8 * sz)) n]"])
qed

lemma fits_0 [simp]: "fits_s8 0" "fits_s32 0"
  by (simp_all add: fits_s8_def fits_s32_def)

lemmas load_fns =
  load8s_gpr64_gpr64_plus_gpr64_def load8u_gpr64_gpr64_plus_gpr64_def
  load8s_gpr64_gpr64_plus_gpr64_plus_s8_def load8u_gpr64_gpr64_plus_gpr64_plus_s8_def
  load8s_gpr64_gpr64_plus_gpr64_plus_s32_def load8u_gpr64_gpr64_plus_gpr64_plus_s32_def
  load16s_gpr64_gpr64_plus_gpr64_def load16u_gpr64_gpr64_plus_gpr64_def
  load16s_gpr64_gpr64_plus_gpr64_plus_s8_def load16u_gpr64_gpr64_plus_gpr64_plus_s8_def
  load16s_gpr64_gpr64_plus_gpr64_plus_s32_def load16u_gpr64_gpr64_plus_gpr64_plus_s32_def
  load32s_gpr64_gpr64_plus_gpr64_def load32u_gpr64_gpr64_plus_gpr64_def
  load32s_gpr64_gpr64_plus_gpr64_plus_s8_def load32u_gpr64_gpr64_plus_gpr64_plus_s8_def
  load32s_gpr64_gpr64_plus_gpr64_plus_s32_def load32u_gpr64_gpr64_plus_gpr64_plus_s32_def
  load64_gpr64_gpr64_plus_gpr64_def load64_gpr64_gpr64_plus_gpr64_plus_s8_def
  load64_gpr64_gpr64_plus_gpr64_plus_s32_def

lemmas store_fns =
  store8_gpr64_gpr64_plus_gpr64_def store8_gpr64_gpr64_plus_gpr64_plus_s8_def
  store8_gpr64_gpr64_plus_gpr64_plus_s32_def
  store16_gpr64_gpr64_plus_gpr64_def store16_gpr64_gpr64_plus_gpr64_plus_s8_def
  store16_gpr64_gpr64_plus_gpr64_plus_s32_def
  store32_gpr64_gpr64_plus_gpr64_def store32_gpr64_gpr64_plus_gpr64_plus_s8_def
  store32_gpr64_gpr64_plus_gpr64_plus_s32_def
  store64_gpr64_gpr64_plus_gpr64_def store64_gpr64_gpr64_plus_gpr64_plus_s8_def
  store64_gpr64_gpr64_plus_gpr64_plus_s32_def

lemma encodes_Some: "encodes r x \<Longrightarrow> r \<noteq> None"
  by (auto simp: encodes_def)

lemma load_goal_gpr_rejects:
  assumes "\<not> (is_gpr dst \<and> goal_pair addr off \<and> fits_s32 d \<and> access_size sz)"
  shows "load_goal_gpr dst addr off d sz sx = None"
  using assms
  by (auto simp: load_goal_gpr_def goal_pair_def access_size_def load_fns fits_s8_s32)

lemma store_goal_gpr_rejects:
  assumes "\<not> (is_gpr src \<and> goal_pair addr off \<and> fits_s32 d \<and> access_size sz)"
  shows "store_goal_gpr addr src off d sz = None"
  using assms
  by (auto simp: store_goal_gpr_def goal_pair_def access_size_def store_fns fits_s8_s32)


lemma load_goal_gpr_defined:
  "(load_goal_gpr dst addr off d sz sx \<noteq> None) =
     (is_gpr dst \<and> goal_pair addr off \<and> fits_s32 d \<and> access_size sz)"
  by (metis encodes_Some load_goal_gpr_enc load_goal_gpr_rejects)

lemma store_goal_gpr_defined:
  "(store_goal_gpr addr src off d sz \<noteq> None) =
     (is_gpr src \<and> goal_pair addr off \<and> fits_s32 d \<and> access_size sz)"
  by (metis encodes_Some store_goal_gpr_enc store_goal_gpr_rejects)

text \<open>C1. \<^verbatim>\<open>load_goal_gpr\<close> and \<^verbatim>\<open>store_goal_gpr\<close>, for 1, 2, 4 or 8 bytes and any offset that fits
  32 bits, encode the move of that width (zero or sign extending for a load) whose memory operand,
  for every content of the registers, addresses \<open>addr + off + offset\<close>: the choice of displacement
  size, the exchange of base and index and the REX bits never change the address, and a byte store
  never names a high-byte register.
\<close>

theorem goal_gpr_access_encodes:
  assumes "is_gpr r" "goal_pair addr off" "fits_s32 d" "access_size sz"
  shows "(\<exists>m. goal_mem (nat (8 * sz)) addr off d m \<and>
      encodes (load_goal_gpr r addr off d sz sx) (Insn (load_op sz sx) [load_dst sz sx (hw_num r), m])) \<and>
    (\<exists>m. goal_mem (nat (8 * sz)) addr off d m \<and>
      encodes (store_goal_gpr addr r off d sz) (Insn MOV [m, Gpr (nat (8 * sz)) (hw_num r)]))"
  using load_goal_gpr_enc [OF assms, of sx] store_goal_gpr_enc [OF assms] by (rule conjI)

theorem goal_gpr_access_witness:
  "\<exists>m. goal_mem 8 (gpr 3) (gpr 15) (-8) m \<and>
     encodes (store_goal_gpr (gpr 3) (gpr 6) (gpr 15) (-8) 1) (Insn MOV [m, Gpr 8 6])"
  using goal_gpr_access_encodes [of "gpr 6" "gpr 3" "gpr 15" "-8" 1 True]
  by (simp add: access_size_def fits_s32_def)

text \<open>C4. \<^verbatim>\<open>load_goal_gpr\<close> and \<^verbatim>\<open>store_goal_gpr\<close> stop on an assertion exactly when an operand is not a
  general register, the two address registers are equal or one of them is \<open>rsp\<close>, the offset does
  not fit 32 bits, or the size is none of 1, 2, 4, 8; in every other case they return an instruction.
\<close>

theorem goal_access_defined_iff:
  "(load_goal_gpr dst addr off d sz sx \<noteq> None) =
     (is_gpr dst \<and> goal_pair addr off \<and> fits_s32 d \<and> access_size sz) \<and>
   (store_goal_gpr addr src off d sz \<noteq> None) =
     (is_gpr src \<and> goal_pair addr off \<and> fits_s32 d \<and> access_size sz)"
  by (rule conjI [OF load_goal_gpr_defined store_goal_gpr_defined])

text \<open>C18. \<^verbatim>\<open>load_goal_xmm32\<close>, \<^verbatim>\<open>store_goal_xmm32\<close>, \<^verbatim>\<open>load_goal_xmm128\<close> and \<^verbatim>\<open>store_goal_vf\<close> encode
  \<open>movss\<close> and \<open>vmovaps\<close> with the memory operand \<open>addr + off + offset\<close> for every offset that fits
  32 bits.
\<close>

theorem goal_xmm_encodes:
  assumes "is_xmm x" "goal_pair addr off" "fits_s32 d"
  shows "(\<exists>m. goal_mem 32 addr off d m \<and>
      encodes (load_goal_xmm32 x addr off d) (Insn MOVSS [Xmm (hw_num x), m]) \<and>
      encodes (store_goal_xmm32 addr x off d) (Insn MOVSS [m, Xmm (hw_num x)])) \<and>
    (\<exists>m. goal_mem 128 addr off d m \<and>
      encodes (load_goal_xmm128 x addr off d) (Insn VMOVAPS [Xmm (hw_num x), m]) \<and>
      encodes (store_goal_vf addr x off d) (Insn VMOVAPS [m, Xmm (hw_num x)]))"
proof -
  obtain n where n: "n < 16" "x = xmm n" using assms(1) by (rule is_xmmE)
  obtain a b where r: "addr = gpr a" "off = gpr b" and v: "valid2 a b"
    using assms(2) by (rule goal_pairE)
  let ?m = "\<lambda>w. mem2 w (if d = 0 then flip0 a b else lo a = 4) a b d"
  have "encodes (load_goal_xmm32 x addr off d) (Insn MOVSS [Xmm (hw_num x), ?m 32])"
    "encodes (store_goal_xmm32 addr x off d) (Insn MOVSS [?m 32, Xmm (hw_num x)])"
    "encodes (load_goal_xmm128 x addr off d) (Insn VMOVAPS [Xmm (hw_num x), ?m 128])"
    "encodes (store_goal_vf addr x off d) (Insn VMOVAPS [?m 128, Xmm (hw_num x)])"
    using n(1) v assms(3)
    by (simp_all add: n r load_goal_xmm32_def store_goal_xmm32_def load_goal_xmm128_def
        store_goal_vf_def enc_intros)
  then show ?thesis
    unfolding r using goal_mem_mem2 [OF v] by blast
qed

theorem goal_xmm_witness:
  "\<exists>m. goal_mem 128 (gpr 3) (gpr 15) 1024 m \<and>
     encodes (load_goal_xmm128 (xmm 9) (gpr 3) (gpr 15) 1024) (Insn VMOVAPS [Xmm 9, m])"
  using goal_xmm_encodes [of "xmm 9" "gpr 3" "gpr 15" 1024] by (auto simp: fits_s32_def)

text \<open>C20. The functions that take one base register and a constant (\<^verbatim>\<open>lea_reg_plus_off\<close> and the 32- and
  128-bit \<open>xmm\<close> spills) encode exactly \<open>[base + offset]\<close>, \<open>rsp\<close>, \<open>rbp\<close>, \<open>r12\<close> and \<open>r13\<close> included,
  whose numbers the ModRM byte treats specially.
\<close>

theorem reg_offset_encodes:
  assumes "is_gpr base" "fits_s32 d" "is_gpr r" "is_xmm x"
  shows "encodes (lea_reg_plus_off r base d) (Insn LEA [Gpr 64 (hw_num r), Mem 0 (Some (hw_num base)) None d]) \<and>
    encodes (load_reg_offset_xmm32 x base d) (Insn MOVSS [Xmm (hw_num x), Mem 32 (Some (hw_num base)) None d]) \<and>
    encodes (store_reg_offset_xmm32 base x d) (Insn MOVSS [Mem 32 (Some (hw_num base)) None d, Xmm (hw_num x)]) \<and>
    encodes (load128_xmm128_reg_offset x base d) (Insn MOVDQA [Xmm (hw_num x), Mem 128 (Some (hw_num base)) None d]) \<and>
    encodes (store128_xmm128_reg_offset base x d) (Insn MOVDQA [Mem 128 (Some (hw_num base)) None d, Xmm (hw_num x)])"
  using assms
  by (auto elim!: is_gprE is_xmmE simp: lea_reg_plus_off_def load_reg_offset_xmm32_def assert_opt_def
      store_reg_offset_xmm32_def load128_xmm128_reg_offset_def store128_xmm128_reg_offset_def enc_intros)

theorem reg_offset_witness:
  "encodes (lea_reg_plus_off (gpr 0) (gpr 12) 300) (Insn LEA [Gpr 64 0, Mem 0 (Some 12) None 300])"
  using reg_offset_encodes [of "gpr 12" 300 "gpr 0" "xmm 0"] by (simp add: fits_s32_def)

lemma static_enc:
  assumes "is_gpr r" "fits_s32 d" "access_size sz"
  shows "encodes (static_load r d sz sx) (Insn (load_op sz sx) [load_dst sz sx (hw_num r), MemRip (nat (8 * sz)) d])"
    and "encodes (static_store r d sz) (Insn MOV [MemRip (nat (8 * sz)) d, Gpr (nat (8 * sz)) (hw_num r)])"
    and "encodes (static_addr r d) (Insn LEA [Gpr 64 (hw_num r), MemRip 0 d])"
proof -
  obtain n where n: "n < 16" "r = gpr n" using assms(1) by (rule is_gprE)
  show "encodes (static_load r d sz sx) (Insn (load_op sz sx) [load_dst sz sx (hw_num r), MemRip (nat (8 * sz)) d])"
    "encodes (static_store r d sz) (Insn MOV [MemRip (nat (8 * sz)) d, Gpr (nat (8 * sz)) (hw_num r)])"
    "encodes (static_addr r d) (Insn LEA [Gpr 64 (hw_num r), MemRip 0 d])"
    using assms(3) n(1) assms(2) unfolding access_size_def n(2)
    by (elim disjE; cases sx; simp add: static_load_def static_store_def load_op_def load_dst_def enc_intros)+
qed

text \<open>C22. The two-register integer operations encode the instruction of their name on the two registers, in
  the order destination, source, for all sixteen registers.
\<close>

theorem gpr_ops_encode:
  assumes "is_gpr dst" "is_gpr src"
  shows "list_all (\<lambda>(f, mn). encodes (f dst src) (Insn mn [Gpr 64 (hw_num dst), Gpr 64 (hw_num src)]))
      [(mov_gpr64_gpr64, MOV), (add_gpr64_gpr64, ADD), (sub_gpr64_gpr64, SUB), (imul_gpr64_gpr64, IMUL),
       (cmp_gpr64_gpr64, CMP), (or_gpr64_gpr64, OR_OP), (and_gpr64_gpr64, AND_OP), (xor_gpr64_gpr64, XOR_OP)] \<and>
    encodes (imul_gpr32_gpr32 dst src) (Insn IMUL [Gpr 32 (hw_num dst), Gpr 32 (hw_num src)]) \<and>
    encodes (movsx_r64_r32 dst src) (Insn MOVSXD [Gpr 64 (hw_num dst), Gpr 32 (hw_num src)])"
  using assms by (auto elim!: is_gprE simp: enc_intros)

theorem gpr_ops_witness:
  "encodes (sub_gpr64_gpr64 (gpr 13) (gpr 4)) (Insn SUB [Gpr 64 13, Gpr 64 4])"
  using gpr_ops_encode [of "gpr 13" "gpr 4"] by simp

text \<open>C23. \<^verbatim>\<open>add_gpr64_imm\<close> and \<^verbatim>\<open>sub_gpr64_imm\<close> encode an addition of the constant whichever immediate size
  they choose, and the three constant moves encode the constant they were given.
\<close>

theorem gpr_imm_ops_encode:
  assumes "is_gpr r" "fits_s32 v" "w \<le> 0xffffffff"
  shows "encodes (add_gpr64_imm r v) (Insn ADD [Gpr 64 (hw_num r), ImmI v]) \<and>
    encodes (sub_gpr64_imm r v) (Insn SUB [Gpr 64 (hw_num r), ImmI v]) \<and>
    encodes (mov_gpr64_s32 r v) (Insn MOV [Gpr 64 (hw_num r), ImmI v]) \<and>
    encodes (mov_gpr64_u64 r q) (Insn MOV [Gpr 64 (hw_num r), ImmI (sint q)]) \<and>
    encodes (mov_gpr64_u32 r w) (Insn MOV [Gpr 32 (hw_num r), ImmI (sint (ucast w :: u32))])"
  using assms
  by (auto elim!: is_gprE simp: add_gpr64_imm_def sub_gpr64_imm_def enc_intros)

theorem gpr_imm_ops_witness:
  "encodes (add_gpr64_imm (gpr 4) (-128)) (Insn ADD [Gpr 64 4, ImmI (-128)])"
  using gpr_imm_ops_encode [of "gpr 4" "-128" 0 0] by (simp add: fits_s32_def)

text \<open>The one-register operations (stack, calls and jumps through a register, complement, division, shifts
  by \<open>cl\<close> or by a constant) encode the instruction of their name on that register.
\<close>

lemma gpr_unary_ops_encode:
  assumes "is_gpr r"
  shows "list_all (\<lambda>(f, mn, ops). encodes (f r) (Insn mn (Gpr (if mn = DIV \<or> mn = IDIV then 32 else 64) (hw_num r) # ops)))
      [(push_gpr64, PUSH, []), (pop_gpr64, POP, []), (call_r64, CALL, []), (jmp_r64, JMP, []),
       (not_gpr64, NOT_OP, []), (idiv_gpr32, IDIV, []), (unsigned_div_gpr32, DIV, []),
       (shl_gpr64_cl, SHL, [CL]), (shr_gpr64_cl, SHR, [CL]), (sar_gpr64_cl, SAR, [CL])] \<and>
    list_all (\<lambda>(f, mn). encodes (f r sa) (Insn mn [Gpr 64 (hw_num r), ImmI (sint sa)]))
      [(shl_gpr64_u8, SHL), (shr_gpr64_u8, SHR), (sar_gpr64_u8, SAR)]"
  using assms by (auto elim!: is_gprE simp: enc_intros)

theorem gpr_unary_ops_witness:
  "encodes (push_gpr64 (gpr 15)) (Insn PUSH [Gpr 64 15])"
  using gpr_unary_ops_encode [of "gpr 15" 0] by simp



text \<open>C21. The vector operations encode the AVX instruction of their name with the destination in the reg
  field, the first source in VEX.vvvv and the second in the ModRM operand, in the two- or three-byte
  prefix form; \<^verbatim>\<open>mov_vf_vf\<close> is a \<open>vmovaps\<close> from source to destination in both of its encodings.
\<close>

theorem vf_ops_encode:
  assumes "is_xmm dst" "is_xmm s1" "is_xmm s2" "c AND 0b11110000 = 0"
  shows "list_all (\<lambda>(f, mn). encodes (f dst s1 s2) (Insn mn [Xmm (hw_num dst), Xmm (hw_num s1), Xmm (hw_num s2)]))
      [(xor_vf, VXORPS), (sub_vf, VSUBPS), (add_vf, VADDPS), (mul_vf, VMULPS), (max_vf, VMAXPS),
       (min_vf, VMINPS), (div_vf, VDIVPS), (pextlw_swapped, VPUNPCKLDQ), (pextuw_swapped, VPUNPCKHDQ),
       (vpunpcklqdq, VPUNPCKLQDQ), (pcpyld_swapped, VPUNPCKLQDQ), (pcpyud, VPUNPCKHQDQ),
       (pceqw, VPCMPEQD), (vpsubd, VPSUBD)] \<and>
    list_all (\<lambda>(f, mn). encodes (f dst s1) (Insn mn [Xmm (hw_num dst), Xmm (hw_num s1)]))
      [(mov_vf_vf, VMOVAPS), (sqrt_vf, VSQRTPS), (itof_vf, VCVTDQ2PS), (ftoi_vf, VCVTTPS2DQ)] \<and>
    list_all (\<lambda>(f, mn). encodes (f dst s1 c) (Insn mn [Xmm (hw_num dst), Xmm (hw_num s1), ImmI (sint c)]))
      [(pw_sra, VPSRAD), (pw_srl, VPSRLD), (pw_sll, VPSLLD), (vpsrldq, VPSRLDQ), (vpslldq, VPSLLDQ),
       (vpshuflw, VPSHUFLW), (vpshufhw, VPSHUFHW)] \<and>
    encodes (blend_vf dst s1 s2 c) (Insn VBLENDPS [Xmm (hw_num dst), Xmm (hw_num s1), Xmm (hw_num s2), ImmI (sint c)])"
  using assms by (auto elim!: is_gprE is_xmmE simp: pcpyld_swapped_def enc_intros)

theorem vf_ops_witness:
  "encodes (sub_vf (xmm 1) (xmm 10) (xmm 15)) (Insn VSUBPS [Xmm 1, Xmm 10, Xmm 15])"
  using vf_ops_encode [of "xmm 1" "xmm 10" "xmm 15" 0] by simp


section \<open>Lengths, field offsets and patching\<close>

text \<open>
  An instruction's bytes are those before the displacement, then the displacement, then the
  immediate; the linker later overwrites one of the last two in place.
\<close>

definition emit_head :: "Instruction \<Rightarrow> u8 list" where
  "emit_head i = take (n_vex i) (i_vex i) @ (if set_rex i then [m_rex i] else []) @ [i_op i]
     @ (if op2_set i then [i_op2 i] else []) @ (if op3_set i then [i_op3 i] else [])
     @ (if set_modrm i then [m_modrm i] else []) @ (if set_sib i then [m_sib i] else [])"

definition emit_disp :: "Instruction \<Rightarrow> u8 list" where
  "emit_disp i = (if set_disp_imm i then imm_bytes (i_disp i) else [])"

definition emit_imm :: "Instruction \<Rightarrow> u8 list" where
  "emit_imm i = (if set_imm i then imm_bytes (i_imm i) else [])"

definition vex_ok :: "Instruction \<Rightarrow> bool" where
  "vex_ok i \<longleftrightarrow> n_vex i \<le> length (i_vex i)"

lemma imm_size_mk [simp]: "imm_size (mk_Imm n v) = n"
  by (simp add: mk_Imm_def)

lemma emit_split: "\<not> is_null i \<Longrightarrow> emit i = emit_head i @ emit_disp i @ emit_imm i"
  by (simp add: emit_def emit_head_def emit_disp_def emit_imm_def)

lemma length_emit_head: "vex_ok i \<Longrightarrow> length (emit_head i) =
    n_vex i + of_bool (set_rex i) + 1 + of_bool (op2_set i) + of_bool (op3_set i)
    + of_bool (set_modrm i) + of_bool (set_sib i)"
  by (simp add: emit_head_def vex_ok_def)

lemma length_emit_disp: "length (emit_disp i) = get_disp_size i"
  by (simp add: emit_disp_def imm_bytes_def get_disp_size_def)

lemma length_emit_imm: "length (emit_imm i) = get_imm_size i"
  by (simp add: emit_imm_def imm_bytes_def get_imm_size_def)

lemma offset_of_disp_eq:
  "\<not> is_null i \<Longrightarrow> vex_ok i \<Longrightarrow> offset_of_disp i =
    (if set_disp_imm i then Some (length (emit_head i)) else None)"
  by (simp add: offset_of_disp_def assert_opt_def length_emit_head)

lemma offset_of_imm_eq:
  "\<not> is_null i \<Longrightarrow> vex_ok i \<Longrightarrow> offset_of_imm i =
    (if set_imm i then Some (length (emit_head i) + get_disp_size i) else None)"
  by (simp add: offset_of_imm_def assert_opt_def length_emit_head get_disp_size_def)

text \<open>C19. \<^verbatim>\<open>Instruction::length\<close> is the number \<^verbatim>\<open>Instruction::emit\<close> returns: the bytes counted
  ahead of time are the bytes written.
\<close>

theorem instr_length_counts_emit:
  assumes "n_vex i \<le> length (i_vex i)"
  shows "instr_length i = emit_count i"
proof (cases "is_null i")
  case False
  with assms show ?thesis
    by (simp add: instr_length_def emit_count_def emit_split length_emit_head length_emit_disp
        length_emit_imm get_disp_size_def get_imm_size_def vex_ok_def)
qed (simp add: instr_length_def emit_count_def emit_def)

theorem instr_length_witness:
  "instr_length ((mk_Instruction 0xe9)\<lparr>set_imm := True, i_imm := mk_Imm 4 7\<rparr>) = 5"
proof -
  let ?i = "(mk_Instruction 0xe9)\<lparr>set_imm := True, i_imm := mk_Imm 4 7\<rparr>"
  have "instr_length ?i = emit_count ?i"
    by (rule instr_length_counts_emit) (simp add: mk_Instruction_def)
  also have "\<dots> = 5" by (simp add: emit_count_def emit_def mk_Instruction_def imm_bytes_mk)
  finally show ?thesis .
qed

lemma emit_head_upd [simp]:
  "emit_head (i\<lparr>i_disp := m\<rparr>) = emit_head i" "emit_head (i\<lparr>i_imm := m\<rparr>) = emit_head i"
  by (simp_all add: emit_head_def)

lemma emit_disp_upd [simp]:
  "emit_disp (i\<lparr>i_imm := m\<rparr>) = emit_disp i" "emit_imm (i\<lparr>i_disp := m\<rparr>) = emit_imm i"
  "set_disp_imm i \<Longrightarrow> emit_disp (i\<lparr>i_disp := m\<rparr>) = imm_bytes m"
  "set_imm i \<Longrightarrow> emit_imm (i\<lparr>i_imm := m\<rparr>) = imm_bytes m"
  by (simp_all add: emit_disp_def emit_imm_def)

lemma patch_append3: "length bs = length ys \<Longrightarrow> patch (length xs) bs (xs @ ys @ zs) = xs @ bs @ zs"
  by (simp add: patch_def)

lemma patch_disp_emit:
  assumes "\<not> is_null i" "vex_ok i" "offset_of_disp i = Some k" "imm_size m = imm_size (i_disp i)"
  shows "patch k (imm_bytes m) (emit i) = emit (i\<lparr>i_disp := m\<rparr>)"
proof -
  have s: "set_disp_imm i" "k = length (emit_head i)"
    using assms by (auto simp: offset_of_disp_eq split: if_splits)
  moreover have "length (imm_bytes m) = length (emit_disp i)"
    using s(1) assms(4) by (simp add: emit_disp_def imm_bytes_def)
  ultimately show ?thesis using assms(1) by (simp add: emit_split patch_append3)
qed

lemma patch_imm_emit:
  assumes "\<not> is_null i" "vex_ok i" "offset_of_imm i = Some k" "imm_size m = imm_size (i_imm i)"
  shows "patch k (imm_bytes m) (emit i) = emit (i\<lparr>i_imm := m\<rparr>)"
proof -
  have s: "set_imm i" "k = length (emit_head i @ emit_disp i)"
    using assms by (auto simp: offset_of_imm_eq length_emit_disp split: if_splits)
  moreover have "length (imm_bytes m) = length (emit_imm i)"
    using s(1) assms(4) by (simp add: emit_imm_def imm_bytes_def)
  ultimately show ?thesis
    using assms(1) patch_append3 [of "imm_bytes m" "emit_imm i" "emit_head i @ emit_disp i" "[]"]
    by (simp add: emit_split)
qed

definition patchable :: "(Instruction \<Rightarrow> nat option) \<Rightarrow> Instruction option \<Rightarrow> (int \<Rightarrow> x86_insn) \<Rightarrow> bool" where
  "patchable offs r x \<longleftrightarrow> (\<exists>i k. r = Some i \<and> offs i = Some k \<and> k + 4 \<le> length (emit i) \<and>
     (\<forall>(v :: u32) rest. decode (patch k (le_bytes 4 v) (emit i) @ rest) = Some (x (sint v), rest)))"

definition jumps :: "(Instruction option \<times> mnemonic) list" where
  "jumps = [(jmp_32, JMP), (jb_32, JCC 2), (jae_32, JCC 3), (je_32, JCC 4), (jne_32, JCC 5), (jbe_32, JCC 6),
     (ja_32, JCC 7), (jl_32, JCC 12), (jge_32, JCC 13), (jle_32, JCC 14), (jg_32, JCC 15)]"

lemmas jump_fns = jmp_32_def jb_32_def jae_32_def je_32_def jne_32_def jbe_32_def ja_32_def jl_32_def
  jge_32_def jle_32_def jg_32_def

lemma le_bytes_4_s32: "le_bytes 4 (v :: u32) = imm_bytes (mk_Imm 4 (scast v))"
  by (simp add: emit_simps le_bytes_scast)

text \<open>A jump with its placeholder replaced is the jump with that displacement.\<close>

lemma patchable_immI:
  assumes "r = Some i" "\<not> is_null i" "vex_ok i" "set_imm i" "imm_size (i_imm i) = 4"
    and "\<And>v :: u32. encodes (Some (i\<lparr>i_imm := mk_Imm 4 (scast v)\<rparr>)) (x (sint v))"
  shows "patchable offset_of_imm r x"
proof -
  obtain k where k: "offset_of_imm i = Some k" using assms by (simp add: offset_of_imm_eq)
  then have "k + 4 \<le> length (emit i)"
    using assms by (auto simp: offset_of_imm_eq emit_split length_emit_disp length_emit_imm get_imm_size_def)
  moreover have "decode (patch k (le_bytes 4 v) (emit i) @ rest) = Some (x (sint v), rest)"
    for v :: u32 and rest
    using patch_imm_emit [OF assms(2,3) k, of "mk_Imm 4 (scast v)"] assms(5) assms(6) [of v]
    by (simp add: le_bytes_4_s32 encodes_def)
  ultimately show ?thesis using assms(1) k by (auto simp: patchable_def)
qed

lemma vex_ok_simps [simp]: "n_vex i = 0 \<Longrightarrow> vex_ok i"
  by (simp add: vex_ok_def)

lemma patchable_jumps:
  "patchable offset_of_imm jmp_32 (\<lambda>d. Insn JMP [ImmI d])"
  "patchable offset_of_imm jb_32 (\<lambda>d. Insn (JCC 2) [ImmI d])"
  "patchable offset_of_imm jae_32 (\<lambda>d. Insn (JCC 3) [ImmI d])"
  "patchable offset_of_imm je_32 (\<lambda>d. Insn (JCC 4) [ImmI d])"
  "patchable offset_of_imm jne_32 (\<lambda>d. Insn (JCC 5) [ImmI d])"
  "patchable offset_of_imm jbe_32 (\<lambda>d. Insn (JCC 6) [ImmI d])"
  "patchable offset_of_imm ja_32 (\<lambda>d. Insn (JCC 7) [ImmI d])"
  "patchable offset_of_imm jl_32 (\<lambda>d. Insn (JCC 12) [ImmI d])"
  "patchable offset_of_imm jge_32 (\<lambda>d. Insn (JCC 13) [ImmI d])"
  "patchable offset_of_imm jle_32 (\<lambda>d. Insn (JCC 14) [ImmI d])"
  "patchable offset_of_imm jg_32 (\<lambda>d. Insn (JCC 15) [ImmI d])"
  unfolding jump_fns Let_def
  by (rule patchable_immI [OF refl]; simp add: encodes_def enc_simps)+

text \<open>C2. Every jump is emitted with a zero placeholder that the object generator overwrites: writing any
  32-bit value over the four bytes at \<^verbatim>\<open>offset_of_imm\<close> gives the same jump, with the same
  condition, by that displacement.
\<close>

theorem jumps_patchable:
  "list_all (\<lambda>(j, mn). patchable offset_of_imm j (\<lambda>d. Insn mn [ImmI d])) jumps"
  by (simp add: jumps_def patchable_jumps)

text \<open>The instructions that address static data: built with offset 0, patched by the linker.\<close>

definition rip_slot :: "(int \<Rightarrow> Instruction option) \<Rightarrow> bool" where
  "rip_slot r \<longleftrightarrow> (\<exists>i. r 0 = Some i \<and> \<not> is_null i \<and> vex_ok i \<and> set_disp_imm i \<and>
     imm_size (i_disp i) = 4 \<and> (\<forall>v :: u32. r (sint v) = Some (i\<lparr>i_disp := mk_Imm 4 (scast v)\<rparr>)))"

lemma patchable_dispI:
  assumes "rip_slot r" "\<And>d. fits_s32 d \<Longrightarrow> encodes (r d) (x d)"
  shows "patchable offset_of_disp (r 0) x"
proof -
  obtain i where i: "r 0 = Some i" "\<not> is_null i" "vex_ok i" "set_disp_imm i" "imm_size (i_disp i) = 4"
    and upd: "\<And>v :: u32. r (sint v) = Some (i\<lparr>i_disp := mk_Imm 4 (scast v)\<rparr>)"
    using assms(1) unfolding rip_slot_def by blast
  obtain k where k: "offset_of_disp i = Some k" using i by (simp add: offset_of_disp_eq)
  then have "k + 4 \<le> length (emit i)"
    using i by (auto simp: offset_of_disp_eq emit_split length_emit_disp get_disp_size_def)
  moreover have "decode (patch k (le_bytes 4 v) (emit i) @ rest) = Some (x (sint v), rest)"
    for v :: u32 and rest
  proof -
    have "fits_s32 (sint v)" using sint_range_size [of v] by (simp add: fits_s32_def word_size)
    then have "encodes (Some (i\<lparr>i_disp := mk_Imm 4 (scast v)\<rparr>)) (x (sint v))"
      using assms(2) upd by metis
    then show ?thesis
      using patch_disp_emit [OF i(2,3) k, of "mk_Imm 4 (scast v)"] i(5)
      by (simp add: le_bytes_4_s32 encodes_def)
  qed
  ultimately show ?thesis using i(1) k by (auto simp: patchable_def)
qed

lemma fits_s32_sint [simp]: "fits_s32 (sint (v :: u32))"
  using sint_range_size [of v] by (simp add: fits_s32_def word_size)

lemma rip_slot_static_addr: "d < 16 \<Longrightarrow> rip_slot (static_addr (gpr d))"
  by (simp add: rip_slot_def static_addr_def emit_simps emit_defs)
lemma rip_slot_static_load:
   "d < 16 \<Longrightarrow> access_size sz \<Longrightarrow> rip_slot (\<lambda>v. static_load (gpr d) v sz sx)"
  unfolding access_size_def
  by (elim disjE; cases sx; cases "hi d"; simp add: rip_slot_def static_load_def load64_rip_s32_def
     load32s_rip_s32_def load32u_rip_s32_def  load16s_rip_s32_def load16u_rip_s32_def
      load8s_rip_s32_def load8u_rip_s32_def emit_simps emit_defs)
lemma rip_slot_static_store:
   "d < 16 \<Longrightarrow> access_size sz \<Longrightarrow> rip_slot (\<lambda>v. static_store (gpr d) v sz)"
  unfolding access_size_def
  by (elim disjE; cases "hi d"; cases "3 < d"; simp add: rip_slot_def static_store_def store64_rip_s32_def
     store32_rip_s32_def store16_rip_s32_def store8_rip_s32_def emit_simps emit_defs)

lemma unat_lanes:
  assumes "(x :: u8) < 4" "y < 4" "z < 4" "w < 4"
  shows "unat (x + push_bit 2 y + push_bit 4 z + push_bit 6 w) =
    unat x + 4 * unat y + 16 * unat z + 64 * unat w"
proof -
  have b: "unat x < 4" "unat y < 4" "unat z < 4" "unat w < 4"
    using assms by (simp_all add: word_less_nat_alt)
  let ?n = "unat x + 4 * unat y + 16 * unat z + 64 * unat w"
  have "x + push_bit 2 y + push_bit 4 z + push_bit 6 w = of_nat ?n"
    by (simp add: push_bit_eq_mult)
  moreover have "unat (of_nat ?n :: u8) = ?n"
    using b by (simp only: unat_of_nat take_bit_eq_mod) simp
  ultimately show ?thesis by (simp only:)
qed

lemma base4_step: "(a :: nat) < 4 \<Longrightarrow> (a + 4 * k) div 4 = k \<and> (a + 4 * k) mod 4 = a"
  by simp

lemma base4_digits:
  assumes "(a :: nat) < 4" "b < 4" "c < 4" "d < 4"
  shows "(a + 4 * b + 16 * c + 64 * d) mod 4 = a" "(a + 4 * b + 16 * c + 64 * d) div 4 mod 4 = b"
    "(a + 4 * b + 16 * c + 64 * d) div 16 mod 4 = c" "(a + 4 * b + 16 * c + 64 * d) div 64 mod 4 = d"
proof -
  have "n div 16 = n div 4 div 4" "n div 64 = n div 4 div 4 div 4" for n :: nat
    by (simp_all add: div_mult2_eq [symmetric])
  moreover have "a + 4 * b + 16 * c + 64 * d = a + 4 * (b + 4 * (c + 4 * d))" by simp
  ultimately show "(a + 4 * b + 16 * c + 64 * d) mod 4 = a"
    "(a + 4 * b + 16 * c + 64 * d) div 4 mod 4 = b"
    "(a + 4 * b + 16 * c + 64 * d) div 16 mod 4 = c" "(a + 4 * b + 16 * c + 64 * d) div 64 mod 4 = d"
    using assms by (simp_all only: base4_step mod_less)
qed

text \<open>\<^verbatim>\<open>shuffle_vf\<close> packs its four lane numbers into the control byte so that lane k of the
  destination selects the source lane it was given.
\<close>

lemma vf_shuffle_encodes:
  assumes "is_xmm dst" "is_xmm src" "dx < 4" "dy < 4" "dz < 4" "dw < 4"
  shows "\<exists>c :: u8. encodes (shuffle_vf dst src dx dy dz dw)
      (Insn VSHUFPS [Xmm (hw_num dst), Xmm (hw_num src), Xmm (hw_num src), ImmI (sint c)]) \<and>
    map (\<lambda>p. unat c div p mod 4) [1, 4, 16, 64] = map unat [dx, dy, dz, dw]"
proof -
  let ?c = "dx + push_bit 2 dy + push_bit 4 dz + push_bit 6 dw"
  have "map (\<lambda>p. unat ?c div p mod 4) [1, 4, 16, 64] = map unat [dx, dy, dz, dw]"
    using assms(3-6) by (simp add: unat_lanes word_less_nat_alt base4_digits)
  moreover have "encodes (shuffle_vf dst src dx dy dz dw)
      (Insn VSHUFPS [Xmm (hw_num dst), Xmm (hw_num src), Xmm (hw_num src), ImmI (sint ?c)])"
    using assms by (auto elim!: is_xmmE simp: shuffle_vf_def assert_opt_def enc_intros)
  ultimately show ?thesis by blast
qed

theorem vf_shuffle_witness:
  "\<exists>c :: u8. encodes (shuffle_vf (xmm 1) (xmm 9) 3 0 2 1) (Insn VSHUFPS [Xmm 1, Xmm 9, Xmm 9, ImmI (sint c)])"
  using vf_shuffle_encodes [of "xmm 1" "xmm 9" 3 0 2 1] by auto

text \<open>C3. An access to static data is emitted with offset 0 and completed by the linker: overwriting the four
  bytes at \<^verbatim>\<open>offset_of_disp\<close> of \<^verbatim>\<open>static_load\<close>, \<^verbatim>\<open>static_store\<close> or \<^verbatim>\<open>static_addr\<close> with a
  32-bit value gives the same access at that displacement from the next instruction.
\<close>

theorem static_refs_patchable:
  assumes "is_gpr r" "access_size sz"
  shows "patchable offset_of_disp (static_load r 0 sz sx)
      (\<lambda>d. Insn (load_op sz sx) [load_dst sz sx (hw_num r), MemRip (nat (8 * sz)) d]) \<and>
    patchable offset_of_disp (static_store r 0 sz)
      (\<lambda>d. Insn MOV [MemRip (nat (8 * sz)) d, Gpr (nat (8 * sz)) (hw_num r)]) \<and>
    patchable offset_of_disp (static_addr r 0) (\<lambda>d. Insn LEA [Gpr 64 (hw_num r), MemRip 0 d])"
proof -
  obtain n where n: "n < 16" "r = gpr n" using assms(1) by (rule is_gprE)
  have "patchable offset_of_disp (static_load r 0 sz sx)
      (\<lambda>d. Insn (load_op sz sx) [load_dst sz sx (hw_num r), MemRip (nat (8 * sz)) d])"
    using rip_slot_static_load [OF n(1) assms(2)] static_enc(1) [OF assms(1) _ assms(2)]
    unfolding n(2) by (rule patchable_dispI)
  moreover have "patchable offset_of_disp (static_store r 0 sz)
      (\<lambda>d. Insn MOV [MemRip (nat (8 * sz)) d, Gpr (nat (8 * sz)) (hw_num r)])"
    using rip_slot_static_store [OF n(1) assms(2)] static_enc(2) [OF assms(1) _ assms(2)]
    unfolding n(2) by (rule patchable_dispI)
  moreover have "patchable offset_of_disp (static_addr r 0) (\<lambda>d. Insn LEA [Gpr 64 (hw_num r), MemRip 0 d])"
    using rip_slot_static_addr [OF n(1)] static_enc(3) [OF assms(1) _ assms(2)]
    unfolding n(2) by (rule patchable_dispI)
  ultimately show ?thesis by simp
qed

theorem static_refs_witness:
  "patchable offset_of_disp (static_load (gpr 10) 0 4 False)
     (\<lambda>d. Insn MOV [Gpr 32 10, MemRip 32 d])"
  using static_refs_patchable [of "gpr 10" 4 False]
  by (simp add: access_size_def load_op_def load_dst_def)

end
