(* ===== verification/ObjectGen.thy ===== *)
theory ObjectGen
  imports Instr_Encoding
begin

text \<open>
  The object file generator, \<^verbatim>\<open>goalc/emitter/ObjectGenerator.h\<close> and \<^verbatim>\<open>.cpp\<close>, with
  \<^verbatim>\<open>ObjectFileData\<close> and the link kinds of \<^verbatim>\<open>common/link_types.h\<close>: the user adds functions,
  instructions and static data and asks for links; \<^verbatim>\<open>generate_data_v3\<close> lays them out, patches jumps,
  and writes the link tables and the header.

  Indices and offsets, C++ \<^verbatim>\<open>int\<close>s and \<^verbatim>\<open>size_t\<close>s, are unbounded \<open>int\<close>s and \<open>nat\<close>s here and become
  words where they are written to the file; sizes stay far below \<open>2^31\<close>. The \<^verbatim>\<open>FunctionDebugInfo\<close>
  a function points to is part of its \<^verbatim>\<open>FunctionData\<close> (each function has one of its own), so
  the \<^verbatim>\<open>debug\<close> pointer of a \<^verbatim>\<open>FunctionRecord\<close> is not repeated. The type system is the argument
  \<open>method_count\<close>, \<^verbatim>\<open>get_type_method_count\<close>, with \<open>None\<close> for the exception of an unknown type.
\<close>

section \<open>Link kinds and segments\<close>

definition N_SEG :: nat where "N_SEG = 3"

definition MAIN_SEGMENT :: int where "MAIN_SEGMENT = 0"
definition DEBUG_SEGMENT :: int where "DEBUG_SEGMENT = 1"
definition TOP_LEVEL_SEGMENT :: int where "TOP_LEVEL_SEGMENT = 2"

definition LINK_TABLE_END :: u8 where "LINK_TABLE_END = 0"
definition LINK_SYMBOL_OFFSET :: u8 where "LINK_SYMBOL_OFFSET = 1"
definition LINK_TYPE_PTR :: u8 where "LINK_TYPE_PTR = 2"
definition LINK_DISTANCE_TO_OTHER_SEG_64 :: u8 where "LINK_DISTANCE_TO_OTHER_SEG_64 = 3"
definition LINK_DISTANCE_TO_OTHER_SEG_32 :: u8 where "LINK_DISTANCE_TO_OTHER_SEG_32 = 4"
definition LINK_PTR :: u8 where "LINK_PTR = 5"

definition POINTER_SIZE :: nat where "POINTER_SIZE = 4"

definition GOAL_VERSION_MAJOR :: u16 where "GOAL_VERSION_MAJOR = 0"
definition GOAL_VERSION_MINOR :: u16 where "GOAL_VERSION_MINOR = 8"

section \<open>Records\<close>

record FunctionRecord =
  fn_seg :: int
  fn_func_id :: int

record IR_Record =
  ir_seg :: int
  ir_func_id :: int
  ir_ir_id :: int

record InstructionRecord =
  in_seg :: int
  in_func_id :: int
  in_ir_id :: int
  in_instr_id :: int

record StaticRecord =
  st_seg :: int
  st_static_id :: int

datatype InstrKind = PROLOGUE | IR_KIND | EPILOGUE

record InstructionInfo =
  info_instruction :: Instruction
  info_kind :: InstrKind
  info_ir_idx :: int
  info_offset :: int

record FunctionDebugInfo =
  dbg_offset_in_seg :: nat
  dbg_length :: nat
  dbg_seg :: int
  dbg_name :: string
  dbg_irs :: "string list"
  dbg_instructions :: "InstructionInfo list"
  dbg_generated_code :: "u8 list"
  dbg_stack_usage :: "int option"

record FunctionData =
  fd_instructions :: "Instruction list"
  fd_ir_to_instruction :: "int list"
  fd_instruction_to_byte_in_data :: "int list"
  fd_min_align :: nat
  fd_debug :: FunctionDebugInfo

record StaticData =
  sd_data :: "u8 list"
  sd_min_align :: nat
  sd_location :: int

type_synonym StaticTypeLink = "StaticRecord \<times> int"
type_synonym StaticSymbolLink = "StaticRecord \<times> int"

record StaticDataPointerLink =
  sdp_source :: StaticRecord
  sdp_offset_in_source :: int
  sdp_dest :: StaticRecord
  sdp_offset_in_dest :: int

record StaticFunctionPointerLink =
  sfp_source :: StaticRecord
  sfp_offset_in_source :: int
  sfp_dest :: FunctionRecord

record SymbolInstrLink =
  sil_rec :: InstructionRecord
  sil_is_mem_access :: bool

record RipFuncLink =
  rfl_instr :: InstructionRecord
  rfl_target :: FunctionRecord

record RipDataLink =
  rdl_instr :: InstructionRecord
  rdl_data :: StaticRecord
  rdl_offset :: int

record RipLink =
  rl_instr :: InstructionRecord
  rl_target_segment :: int
  rl_offset_in_segment :: int

record JumpLink =
  jl_jump_instr :: InstructionRecord
  jl_dest :: IR_Record

record PointerLink =
  pl_segment :: int
  pl_source :: int
  pl_dest :: int

type_synonym 'a seg_vector = "'a list list"
type_synonym 'a seg_map = "'a smap list"

record ObjectGenerator =
  m_data_by_seg :: "u8 seg_vector"
  m_link_by_seg :: "u8 seg_vector"
  m_function_data_by_seg :: "FunctionData seg_vector"
  m_static_data_by_seg :: "StaticData seg_vector"
  m_static_type_temp_links_by_seg :: "StaticTypeLink seg_map"
  m_jump_temp_links_by_seg :: "JumpLink seg_vector"
  m_symbol_instr_temp_links_by_seg :: "SymbolInstrLink seg_map"
  m_static_sym_temp_links_by_seg :: "StaticSymbolLink seg_map"
  m_static_data_temp_ptr_links_by_seg :: "StaticDataPointerLink seg_vector"
  m_static_function_temp_ptr_links_by_seg :: "StaticFunctionPointerLink seg_vector"
  m_rip_func_temp_links_by_seg :: "RipFuncLink seg_vector"
  m_rip_data_temp_links_by_seg :: "RipDataLink seg_vector"
  m_type_ptr_links_by_seg :: "int seg_map"
  m_sym_links_by_seg :: "int seg_map"
  m_rip_links_by_seg :: "RipLink seg_vector"
  m_pointer_links_by_seg :: "PointerLink seg_vector"
  m_all_function_records :: "FunctionRecord list"

definition empty_segs :: "'a list list" where
  "empty_segs = replicate N_SEG []"

definition new_ObjectGenerator :: ObjectGenerator where
  "new_ObjectGenerator =
    \<lparr>m_data_by_seg = empty_segs, m_link_by_seg = empty_segs, m_function_data_by_seg = empty_segs,
     m_static_data_by_seg = empty_segs, m_static_type_temp_links_by_seg = empty_segs,
     m_jump_temp_links_by_seg = empty_segs, m_symbol_instr_temp_links_by_seg = empty_segs,
     m_static_sym_temp_links_by_seg = empty_segs, m_static_data_temp_ptr_links_by_seg = empty_segs,
     m_static_function_temp_ptr_links_by_seg = empty_segs, m_rip_func_temp_links_by_seg = empty_segs,
     m_rip_data_temp_links_by_seg = empty_segs, m_type_ptr_links_by_seg = empty_segs,
     m_sym_links_by_seg = empty_segs, m_rip_links_by_seg = empty_segs,
     m_pointer_links_by_seg = empty_segs, m_all_function_records = []\<rparr>"

record ObjectFileData =
  of_segment_data :: "u8 list list"
  of_link_tables :: "u8 list list"
  of_header :: "u8 list"

text \<open>\<^verbatim>\<open>v.at(i).push_back(x)\<close>\<close>

definition push_at :: "'a list list \<Rightarrow> int \<Rightarrow> 'a \<Rightarrow> 'a list list option" where
  "push_at xss i x = modify_at xss i (\<lambda>xs. xs @ [x])"

definition push_map_at :: "'a smap list \<Rightarrow> int \<Rightarrow> string \<Rightarrow> 'a \<Rightarrow> 'a smap list option" where
  "push_map_at ms i k x = modify_at ms i (smap_push k x)"

section \<open>Step 1: adding functions, instructions, static data\<close>

definition add_function_to_seg ::
  "int \<Rightarrow> FunctionDebugInfo \<Rightarrow> nat \<Rightarrow> ObjectGenerator \<Rightarrow> (FunctionRecord \<times> ObjectGenerator) option" where
  "add_function_to_seg seg debug min_align g = do {
     fs \<leftarrow> array_at (m_function_data_by_seg g) seg;
     let r = \<lparr>fn_seg = seg, fn_func_id = int (length fs)\<rparr>;
     fss \<leftarrow> push_at (m_function_data_by_seg g) seg
       \<lparr>fd_instructions = [], fd_ir_to_instruction = [], fd_instruction_to_byte_in_data = [],
        fd_min_align = min_align, fd_debug = debug\<rparr>;
     Some (r, g\<lparr>m_function_data_by_seg := fss,
                m_all_function_records := m_all_function_records g @ [r]\<rparr>)
   }"

definition get_existing_function_record :: "ObjectGenerator \<Rightarrow> int \<Rightarrow> FunctionRecord option" where
  "get_existing_function_record g f_idx = array_at (m_all_function_records g) f_idx"

definition get_function :: "ObjectGenerator \<Rightarrow> int \<Rightarrow> int \<Rightarrow> FunctionData option" where
  "get_function g seg k = do { fs \<leftarrow> array_at (m_function_data_by_seg g) seg; array_at fs k }"

definition set_function :: "ObjectGenerator \<Rightarrow> int \<Rightarrow> int \<Rightarrow> FunctionData \<Rightarrow> ObjectGenerator" where
  "set_function g seg k f =
     g\<lparr>m_function_data_by_seg := (m_function_data_by_seg g)
         [nat seg := (m_function_data_by_seg g ! nat seg)[nat k := f]]\<rparr>"

definition add_ir ::
  "FunctionRecord \<Rightarrow> string \<Rightarrow> ObjectGenerator \<Rightarrow> (IR_Record \<times> ObjectGenerator) option" where
  "add_ir func debug_print g = do {
     f \<leftarrow> get_function g (fn_seg func) (fn_func_id func);
     let r = \<lparr>ir_seg = fn_seg func, ir_func_id = fn_func_id func,
              ir_ir_id = int (length (fd_ir_to_instruction f))\<rparr>;
     let f = f\<lparr>fd_ir_to_instruction := fd_ir_to_instruction f @ [int (length (fd_instructions f))]\<rparr>;
     assert_opt (int (length (dbg_irs (fd_debug f))) = ir_ir_id r);
     let f = f\<lparr>fd_debug := (fd_debug f)\<lparr>dbg_irs := dbg_irs (fd_debug f) @ [debug_print]\<rparr>\<rparr>;
     Some (r, set_function g (fn_seg func) (fn_func_id func) f)
   }"

definition get_future_ir_record :: "ObjectGenerator \<Rightarrow> FunctionRecord \<Rightarrow> int \<Rightarrow> IR_Record option" where
  "get_future_ir_record g func ir_id = do {
     fs \<leftarrow> array_at (m_function_data_by_seg g) (fn_seg func);
     assert_opt (fn_func_id func = int (length fs) - 1);
     Some \<lparr>ir_seg = fn_seg func, ir_func_id = fn_func_id func, ir_ir_id = ir_id\<rparr>
   }"

definition get_future_ir_record_in_same_func :: "IR_Record \<Rightarrow> int \<Rightarrow> IR_Record" where
  "get_future_ir_record_in_same_func irec ir_id =
     \<lparr>ir_seg = ir_seg irec, ir_func_id = ir_func_id irec, ir_ir_id = ir_id\<rparr>"

definition add_instr ::
  "Instruction \<Rightarrow> IR_Record \<Rightarrow> ObjectGenerator \<Rightarrow> (InstructionRecord \<times> ObjectGenerator) option" where
  "add_instr inst ir g = do {
     f \<leftarrow> get_function g (ir_seg ir) (ir_func_id ir);
     assert_opt (ir_ir_id ir = int (length (fd_ir_to_instruction f)) - 1);
     let r = \<lparr>in_seg = ir_seg ir, in_func_id = ir_func_id ir, in_ir_id = ir_ir_id ir,
              in_instr_id = int (length (fd_instructions f))\<rparr>;
     let f = f\<lparr>fd_instructions := fd_instructions f @ [inst]\<rparr>;
     let info = \<lparr>info_instruction = inst, info_kind = IR_KIND, info_ir_idx = ir_ir_id ir,
                 info_offset = -1\<rparr>;
     let f = f\<lparr>fd_debug := (fd_debug f)\<lparr>dbg_instructions := dbg_instructions (fd_debug f) @ [info]\<rparr>\<rparr>;
     Some (r, set_function g (ir_seg ir) (ir_func_id ir) f)
   }"

definition add_instr_no_ir ::
  "FunctionRecord \<Rightarrow> Instruction \<Rightarrow> InstrKind \<Rightarrow> ObjectGenerator \<Rightarrow> ObjectGenerator option" where
  "add_instr_no_ir func inst kind g = do {
     let info = \<lparr>info_instruction = inst, info_kind = kind, info_ir_idx = -1, info_offset = -1\<rparr>;
     f \<leftarrow> get_function g (fn_seg func) (fn_func_id func);
     let f = f\<lparr>fd_instructions := fd_instructions f @ [inst]\<rparr>;
     let f = f\<lparr>fd_debug := (fd_debug f)\<lparr>dbg_instructions := dbg_instructions (fd_debug f) @ [info]\<rparr>\<rparr>;
     Some (set_function g (fn_seg func) (fn_func_id func) f)
   }"

definition add_static_to_seg ::
  "int \<Rightarrow> nat \<Rightarrow> ObjectGenerator \<Rightarrow> (StaticRecord \<times> ObjectGenerator) option" where
  "add_static_to_seg seg min_align g = do {
     ss \<leftarrow> array_at (m_static_data_by_seg g) seg;
     let r = \<lparr>st_seg = seg, st_static_id = int (length ss)\<rparr>;
     sss \<leftarrow> push_at (m_static_data_by_seg g) seg
       \<lparr>sd_data = [], sd_min_align = min_align, sd_location = -1\<rparr>;
     Some (r, g\<lparr>m_static_data_by_seg := sss\<rparr>)
   }"

definition get_static :: "ObjectGenerator \<Rightarrow> int \<Rightarrow> int \<Rightarrow> StaticData option" where
  "get_static g seg k = do { ss \<leftarrow> array_at (m_static_data_by_seg g) seg; array_at ss k }"

text \<open>\<^verbatim>\<open>get_static_data\<close> returns a reference; the caller writes the object's bytes through it.\<close>

definition get_static_data :: "ObjectGenerator \<Rightarrow> StaticRecord \<Rightarrow> u8 list option" where
  "get_static_data g r = map_option sd_data (get_static g (st_seg r) (st_static_id r))"

definition write_static_data :: "StaticRecord \<Rightarrow> u8 list \<Rightarrow> ObjectGenerator \<Rightarrow> ObjectGenerator option" where
  "write_static_data r bs g = do {
     s \<leftarrow> get_static g (st_seg r) (st_static_id r);
     Some (g\<lparr>m_static_data_by_seg := (m_static_data_by_seg g)
       [nat (st_seg r) := (m_static_data_by_seg g ! nat (st_seg r))
         [nat (st_static_id r) := s\<lparr>sd_data := bs\<rparr>]]\<rparr>)
   }"

section \<open>Step 1: links\<close>

definition link_static_type_ptr ::
  "StaticRecord \<Rightarrow> int \<Rightarrow> string \<Rightarrow> ObjectGenerator \<Rightarrow> ObjectGenerator option" where
  "link_static_type_ptr r offset type_name g = do {
     ms \<leftarrow> push_map_at (m_static_type_temp_links_by_seg g) (st_seg r) type_name (r, offset);
     Some (g\<lparr>m_static_type_temp_links_by_seg := ms\<rparr>)
   }"

definition link_instruction_jump ::
  "InstructionRecord \<Rightarrow> IR_Record \<Rightarrow> ObjectGenerator \<Rightarrow> ObjectGenerator option" where
  "link_instruction_jump jump_instr destination g = do {
     assert_opt (in_seg jump_instr = ir_seg destination);
     assert_opt (in_func_id jump_instr = ir_func_id destination);
     ls \<leftarrow> push_at (m_jump_temp_links_by_seg g) (in_seg jump_instr)
       \<lparr>jl_jump_instr = jump_instr, jl_dest = destination\<rparr>;
     Some (g\<lparr>m_jump_temp_links_by_seg := ls\<rparr>)
   }"

definition link_instruction_symbol_mem ::
  "InstructionRecord \<Rightarrow> string \<Rightarrow> ObjectGenerator \<Rightarrow> ObjectGenerator option" where
  "link_instruction_symbol_mem r name g = do {
     ms \<leftarrow> push_map_at (m_symbol_instr_temp_links_by_seg g) (in_seg r) name
       \<lparr>sil_rec = r, sil_is_mem_access = True\<rparr>;
     Some (g\<lparr>m_symbol_instr_temp_links_by_seg := ms\<rparr>)
   }"

definition link_instruction_symbol_ptr ::
  "InstructionRecord \<Rightarrow> string \<Rightarrow> ObjectGenerator \<Rightarrow> ObjectGenerator option" where
  "link_instruction_symbol_ptr r name g = do {
     ms \<leftarrow> push_map_at (m_symbol_instr_temp_links_by_seg g) (in_seg r) name
       \<lparr>sil_rec = r, sil_is_mem_access = False\<rparr>;
     Some (g\<lparr>m_symbol_instr_temp_links_by_seg := ms\<rparr>)
   }"

definition link_static_symbol_ptr ::
  "StaticRecord \<Rightarrow> int \<Rightarrow> string \<Rightarrow> ObjectGenerator \<Rightarrow> ObjectGenerator option" where
  "link_static_symbol_ptr r offset name g = do {
     ms \<leftarrow> push_map_at (m_static_sym_temp_links_by_seg g) (st_seg r) name (r, offset);
     Some (g\<lparr>m_static_sym_temp_links_by_seg := ms\<rparr>)
   }"

definition link_static_pointer_to_data ::
  "StaticRecord \<Rightarrow> int \<Rightarrow> StaticRecord \<Rightarrow> int \<Rightarrow> ObjectGenerator \<Rightarrow> ObjectGenerator option" where
  "link_static_pointer_to_data source source_offset dest dest_offset g = do {
     assert_opt (st_seg source = st_seg dest);
     ls \<leftarrow> push_at (m_static_data_temp_ptr_links_by_seg g) (st_seg source)
       \<lparr>sdp_source = source, sdp_offset_in_source = source_offset, sdp_dest = dest,
        sdp_offset_in_dest = dest_offset\<rparr>;
     Some (g\<lparr>m_static_data_temp_ptr_links_by_seg := ls\<rparr>)
   }"

definition link_static_pointer_to_function ::
  "StaticRecord \<Rightarrow> int \<Rightarrow> FunctionRecord \<Rightarrow> ObjectGenerator \<Rightarrow> ObjectGenerator option" where
  "link_static_pointer_to_function source source_offset target_func g = do {
     assert_opt (fn_seg target_func = st_seg source);
     ls \<leftarrow> push_at (m_static_function_temp_ptr_links_by_seg g) (st_seg source)
       \<lparr>sfp_source = source, sfp_offset_in_source = source_offset, sfp_dest = target_func\<rparr>;
     Some (g\<lparr>m_static_function_temp_ptr_links_by_seg := ls\<rparr>)
   }"

definition link_instruction_static ::
  "InstructionRecord \<Rightarrow> StaticRecord \<Rightarrow> int \<Rightarrow> ObjectGenerator \<Rightarrow> ObjectGenerator option" where
  "link_instruction_static instr target_static offset g = do {
     ls \<leftarrow> push_at (m_rip_data_temp_links_by_seg g) (in_seg instr)
       \<lparr>rdl_instr = instr, rdl_data = target_static, rdl_offset = offset\<rparr>;
     Some (g\<lparr>m_rip_data_temp_links_by_seg := ls\<rparr>)
   }"

definition link_instruction_to_function ::
  "InstructionRecord \<Rightarrow> FunctionRecord \<Rightarrow> ObjectGenerator \<Rightarrow> ObjectGenerator option" where
  "link_instruction_to_function instr target_func g = do {
     ls \<leftarrow> push_at (m_rip_func_temp_links_by_seg g) (in_seg instr)
       \<lparr>rfl_instr = instr, rfl_target = target_func\<rparr>;
     Some (g\<lparr>m_rip_func_temp_links_by_seg := ls\<rparr>)
   }"

section \<open>Step 2: memory layout\<close>

text \<open>
  \<open>place_instrs\<close> is the loop over a function's instructions: \<open>idx\<close> is its counter. An instruction
  is emitted to a buffer of 128 bytes; writing past it is undefined behaviour (\<open>None\<close>).
\<close>

fun place_instrs ::
  "nat \<Rightarrow> Instruction list \<Rightarrow> FunctionData \<times> u8 list \<Rightarrow> (FunctionData \<times> u8 list) option" where
  "place_instrs idx [] (f, data) = Some (f, data)"
| "place_instrs idx (instr # instrs) (f, data) = do {
     assert_opt (length (emit instr) \<le> 128);
     let count = emit_count instr;
     assert_opt (count < 128);
     let f = f\<lparr>fd_instruction_to_byte_in_data := fd_instruction_to_byte_in_data f @ [int (length data)]\<rparr>;
     infos \<leftarrow> modify_at (dbg_instructions (fd_debug f)) (int idx)
       (\<lambda>info. info\<lparr>info_offset := int (length data) - int (dbg_offset_in_seg (fd_debug f))\<rparr>);
     let f = f\<lparr>fd_debug := (fd_debug f)\<lparr>dbg_instructions := infos\<rparr>\<rparr>;
     place_instrs (Suc idx) instrs (f, data @ take (unat count) (emit instr))
   }"

text \<open>Returns the location of the type tag with the updated function and data.\<close>

definition place_function ::
  "int \<Rightarrow> FunctionData \<Rightarrow> u8 list \<Rightarrow> (nat \<times> FunctionData \<times> u8 list) option" where
  "place_function seg f data = do {
     data \<leftarrow> pad_to (fd_min_align f) data;
     let tag = length data;
     let data = data @ replicate POINTER_SIZE 0xae;
     let f = f\<lparr>fd_debug := (fd_debug f)\<lparr>dbg_offset_in_seg := length data, dbg_seg := seg\<rparr>\<rparr>;
     (f, data) \<leftarrow> place_instrs 0 (fd_instructions f) (f, data);
     let f = f\<lparr>fd_debug := (fd_debug f)\<lparr>dbg_length := length data - dbg_offset_in_seg (fd_debug f)\<rparr>\<rparr>;
     Some (tag, f, data)
   }"

text \<open>The functions of one segment, in order; the tags go to \<open>types[''function'']\<close>.\<close>

fun place_functions ::
  "int \<Rightarrow> FunctionData list \<Rightarrow> int smap \<Rightarrow> u8 list \<Rightarrow> (FunctionData list \<times> int smap \<times> u8 list) option" where
  "place_functions seg [] types data = Some ([], types, data)"
| "place_functions seg (f # fs) types data = do {
     (tag, f, data) \<leftarrow> place_function seg f data;
     (fs, types, data) \<leftarrow> place_functions seg fs (smap_push ''function'' (int tag) types) data;
     Some (f # fs, types, data)
   }"

fun place_statics :: "StaticData list \<Rightarrow> u8 list \<Rightarrow> (StaticData list \<times> u8 list) option" where
  "place_statics [] data = Some ([], data)"
| "place_statics (s # ss) data = do {
     data \<leftarrow> pad_to (sd_min_align s) data;
     let s = s\<lparr>sd_location := int (length data)\<rparr>;
     (ss, data) \<leftarrow> place_statics ss (data @ sd_data s);
     Some (s # ss, data)
   }"

text \<open>The two loops over the segments, each from the last segment to the first.\<close>

definition segs_down :: "int list" where
  "segs_down = map int (rev [0..<N_SEG])"

definition layout_functions_seg :: "int \<Rightarrow> ObjectGenerator \<Rightarrow> ObjectGenerator option" where
  "layout_functions_seg seg g = do {
     fs \<leftarrow> array_at (m_function_data_by_seg g) seg;
     types \<leftarrow> array_at (m_type_ptr_links_by_seg g) seg;
     data \<leftarrow> array_at (m_data_by_seg g) seg;
     (fs, types, data) \<leftarrow> place_functions seg fs types data;
     Some (g\<lparr>m_function_data_by_seg := update_at (m_function_data_by_seg g) seg fs,
             m_type_ptr_links_by_seg := update_at (m_type_ptr_links_by_seg g) seg types,
             m_data_by_seg := update_at (m_data_by_seg g) seg data\<rparr>)
   }"

definition layout_statics_seg :: "int \<Rightarrow> ObjectGenerator \<Rightarrow> ObjectGenerator option" where
  "layout_statics_seg seg g = do {
     ss \<leftarrow> array_at (m_static_data_by_seg g) seg;
     data \<leftarrow> array_at (m_data_by_seg g) seg;
     (ss, data) \<leftarrow> place_statics ss data;
     Some (g\<lparr>m_static_data_by_seg := update_at (m_static_data_by_seg g) seg ss,
             m_data_by_seg := update_at (m_data_by_seg g) seg data\<rparr>)
   }"

section \<open>Step 3: links and jumps, now that the layout is known\<close>

text \<open>A loop over a map of vectors: every name in order, every element of its vector in order.\<close>

definition for_links :: "(string \<Rightarrow> 'a \<Rightarrow> 's \<Rightarrow> 's option) \<Rightarrow> 'a smap \<Rightarrow> 's \<Rightarrow> 's option" where
  "for_links f m = fold_opt (\<lambda>(name, links). fold_opt (f name) links) m"

definition handle_temp_static_type_links :: "int \<Rightarrow> ObjectGenerator \<Rightarrow> ObjectGenerator option" where
  "handle_temp_static_type_links seg g = do {
     m \<leftarrow> array_at (m_static_type_temp_links_by_seg g) seg;
     for_links (\<lambda>type_name (r, offset) g. do {
       assert_opt (seg = st_seg r);
       static_object \<leftarrow> get_static g seg (st_static_id r);
       let total_offset = sd_location static_object + offset;
       ms \<leftarrow> push_map_at (m_type_ptr_links_by_seg g) seg type_name total_offset;
       Some (g\<lparr>m_type_ptr_links_by_seg := ms\<rparr>)
     }) m g
   }"

definition handle_temp_static_sym_links :: "int \<Rightarrow> ObjectGenerator \<Rightarrow> ObjectGenerator option" where
  "handle_temp_static_sym_links seg g = do {
     m \<leftarrow> array_at (m_static_sym_temp_links_by_seg g) seg;
     for_links (\<lambda>sym_name (r, offset) g. do {
       assert_opt (seg = st_seg r);
       static_object \<leftarrow> get_static g seg (st_static_id r);
       let total_offset = sd_location static_object + offset;
       ms \<leftarrow> push_map_at (m_sym_links_by_seg g) seg sym_name total_offset;
       Some (g\<lparr>m_sym_links_by_seg := ms\<rparr>)
     }) m g
   }"

definition push_pointer_link :: "int \<Rightarrow> PointerLink \<Rightarrow> ObjectGenerator \<Rightarrow> ObjectGenerator option" where
  "push_pointer_link seg l g = do {
     ls \<leftarrow> push_at (m_pointer_links_by_seg g) seg l;
     Some (g\<lparr>m_pointer_links_by_seg := ls\<rparr>)
   }"

definition handle_temp_static_ptr_links :: "int \<Rightarrow> ObjectGenerator \<Rightarrow> ObjectGenerator option" where
  "handle_temp_static_ptr_links seg g = do {
     data_links \<leftarrow> array_at (m_static_data_temp_ptr_links_by_seg g) seg;
     g \<leftarrow> fold_opt (\<lambda>link g. do {
       source_object \<leftarrow> get_static g seg (st_static_id (sdp_source link));
       dest_object \<leftarrow> get_static g seg (st_static_id (sdp_dest link));
       push_pointer_link seg
         \<lparr>pl_segment = seg, pl_source = sd_location source_object + sdp_offset_in_source link,
          pl_dest = sd_location dest_object + sdp_offset_in_dest link\<rparr> g
     }) data_links g;
     function_links \<leftarrow> array_at (m_static_function_temp_ptr_links_by_seg g) seg;
     fold_opt (\<lambda>link g. do {
       source_object \<leftarrow> get_static g seg (st_static_id (sfp_source link));
       dest_function \<leftarrow> get_function g seg (fn_func_id (sfp_dest link));
       assert_opt (fn_seg (sfp_dest link) = seg);
       loc \<leftarrow> array_at (fd_instruction_to_byte_in_data dest_function) 0;
       push_pointer_link seg
         \<lparr>pl_segment = seg, pl_source = sd_location source_object + sfp_offset_in_source link,
          pl_dest = loc\<rparr> g
     }) function_links g
   }"

text \<open>\<^verbatim>\<open>patch_data<s32>\<close>\<close>

definition patch_data_s32 :: "int \<Rightarrow> int \<Rightarrow> int \<Rightarrow> ObjectGenerator \<Rightarrow> ObjectGenerator option" where
  "patch_data_s32 seg offset x g = do {
     data \<leftarrow> array_at (m_data_by_seg g) seg;
     assert_opt (0 \<le> offset);
     assert_opt (nat offset + 4 \<le> length data);
     Some (g\<lparr>m_data_by_seg := update_at (m_data_by_seg g) seg
       (patch (nat offset) (le_bytes 4 (word_of_int x :: u32)) data)\<rparr>)
   }"

definition patch_jump :: "int \<Rightarrow> JumpLink \<Rightarrow> ObjectGenerator \<Rightarrow> ObjectGenerator option" where
  "patch_jump seg link g = do {
     let jump = jl_jump_instr link;
     let dest = jl_dest link;
     function \<leftarrow> get_function g seg (in_func_id jump);
     assert_opt (in_func_id jump = ir_func_id dest);
     assert_opt (in_seg jump = seg);
     assert_opt (ir_seg dest = seg);
     jump_instr \<leftarrow> array_at (fd_instructions function) (in_instr_id jump);
     assert_opt (get_imm_size jump_instr = 4);
     instr_loc \<leftarrow> array_at (fd_instruction_to_byte_in_data function) (in_instr_id jump);
     imm_offset \<leftarrow> offset_of_imm jump_instr;
     let patch_location = instr_loc + int imm_offset;
     source_rip \<leftarrow> array_at (fd_instruction_to_byte_in_data function) (in_instr_id jump + 1);
     dest_instr \<leftarrow> array_at (fd_ir_to_instruction function) (ir_ir_id dest);
     dest_rip \<leftarrow> array_at (fd_instruction_to_byte_in_data function) dest_instr;
     patch_data_s32 seg patch_location (dest_rip - source_rip) g
   }"

definition handle_temp_jump_links :: "int \<Rightarrow> ObjectGenerator \<Rightarrow> ObjectGenerator option" where
  "handle_temp_jump_links seg g = do {
     links \<leftarrow> array_at (m_jump_temp_links_by_seg g) seg;
     fold_opt (patch_jump seg) links g
   }"

definition handle_temp_instr_sym_links :: "int \<Rightarrow> ObjectGenerator \<Rightarrow> ObjectGenerator option" where
  "handle_temp_instr_sym_links seg g = do {
     m \<leftarrow> array_at (m_symbol_instr_temp_links_by_seg g) seg;
     for_links (\<lambda>sym_name link g. do {
       assert_opt (seg = in_seg (sil_rec link));
       function \<leftarrow> get_function g seg (in_func_id (sil_rec link));
       instruction \<leftarrow> array_at (fd_instructions function) (in_instr_id (sil_rec link));
       offset_of_instruction \<leftarrow>
         array_at (fd_instruction_to_byte_in_data function) (in_instr_id (sil_rec link));
       offset_in_instruction \<leftarrow>
         (if sil_is_mem_access link then offset_of_disp instruction else offset_of_imm instruction);
       (if sil_is_mem_access link then assert_opt (get_disp_size instruction = 4)
        else assert_opt (get_imm_size instruction = 4));
       ms \<leftarrow> push_map_at (m_sym_links_by_seg g) seg sym_name
         (offset_of_instruction + int offset_in_instruction);
       Some (g\<lparr>m_sym_links_by_seg := ms\<rparr>)
     }) m g
   }"

definition push_rip_link :: "int \<Rightarrow> RipLink \<Rightarrow> ObjectGenerator \<Rightarrow> ObjectGenerator option" where
  "push_rip_link seg l g = do {
     ls \<leftarrow> push_at (m_rip_links_by_seg g) seg l;
     Some (g\<lparr>m_rip_links_by_seg := ls\<rparr>)
   }"

definition handle_temp_rip_func_links :: "int \<Rightarrow> ObjectGenerator \<Rightarrow> ObjectGenerator option" where
  "handle_temp_rip_func_links seg g = do {
     links \<leftarrow> array_at (m_rip_func_temp_links_by_seg g) seg;
     fold_opt (\<lambda>link g. do {
       target_func \<leftarrow> get_function g (fn_seg (rfl_target link)) (fn_func_id (rfl_target link));
       loc \<leftarrow> array_at (fd_instruction_to_byte_in_data target_func) 0;
       push_rip_link seg
         \<lparr>rl_instr = rfl_instr link, rl_target_segment = fn_seg (rfl_target link),
          rl_offset_in_segment = loc\<rparr> g
     }) links g
   }"

definition handle_temp_rip_data_links :: "int \<Rightarrow> ObjectGenerator \<Rightarrow> ObjectGenerator option" where
  "handle_temp_rip_data_links seg g = do {
     links \<leftarrow> array_at (m_rip_data_temp_links_by_seg g) seg;
     fold_opt (\<lambda>link g. do {
       target \<leftarrow> get_static g (st_seg (rdl_data link)) (st_static_id (rdl_data link));
       push_rip_link seg
         \<lparr>rl_instr = rdl_instr link, rl_target_segment = st_seg (rdl_data link),
          rl_offset_in_segment = sd_location target + rdl_offset link\<rparr> g
     }) links g
   }"

definition handle_links_seg :: "int \<Rightarrow> ObjectGenerator \<Rightarrow> ObjectGenerator option" where
  "handle_links_seg seg g = do {
     g \<leftarrow> handle_temp_static_type_links seg g;
     g \<leftarrow> handle_temp_static_sym_links seg g;
     g \<leftarrow> handle_temp_jump_links seg g;
     g \<leftarrow> handle_temp_instr_sym_links seg g;
     g \<leftarrow> handle_temp_rip_func_links seg g;
     g \<leftarrow> handle_temp_rip_data_links seg g;
     handle_temp_static_ptr_links seg g
   }"

section \<open>Step 4: link tables\<close>

definition push_u32 :: "int \<Rightarrow> u8 list" where
  "push_u32 x = le_bytes 4 (word_of_int x :: u32)"

definition push_cstr :: "string \<Rightarrow> u8 list" where
  "push_cstr name = map of_char name @ [0]"

text \<open>The bytes each function appends to the segment's link table.\<close>

definition emit_link_symbol :: "int smap \<Rightarrow> u8 list" where
  "emit_link_symbol m = concat (map (\<lambda>(name, offsets).
     LINK_SYMBOL_OFFSET # push_cstr name @ push_u32 (int (length offsets)) @ concat (map push_u32 offsets)) m)"

fun emit_link_type_pointer :: "(string \<Rightarrow> int option) \<Rightarrow> int smap \<Rightarrow> u8 list option" where
  "emit_link_type_pointer method_count [] = Some []"
| "emit_link_type_pointer method_count ((name, offsets) # m) =
    (if offsets = [] then emit_link_type_pointer method_count m
     else do {
       n \<leftarrow> method_count name;
       rest \<leftarrow> emit_link_type_pointer method_count m;
       Some (LINK_TYPE_PTR # push_cstr name @ [word_of_int n] @ push_u32 (int (length offsets))
         @ concat (map push_u32 offsets) @ rest)
     })"

fun emit_link_ptr :: "PointerLink list \<Rightarrow> u8 list option" where
  "emit_link_ptr [] = Some []"
| "emit_link_ptr (l # ls) = do {
     assert_opt (0 \<le> pl_dest l);
     assert_opt (0 \<le> pl_source l);
     rest \<leftarrow> emit_link_ptr ls;
     Some (LINK_PTR # push_u32 (pl_source l) @ push_u32 (pl_dest l) @ rest)
   }"

fun emit_link_rip :: "ObjectGenerator \<Rightarrow> RipLink list \<Rightarrow> u8 list option" where
  "emit_link_rip g [] = Some []"
| "emit_link_rip g (l # ls) = do {
     src_func \<leftarrow> get_function g (in_seg (rl_instr l)) (in_func_id (rl_instr l));
     next_loc \<leftarrow> array_at (fd_instruction_to_byte_in_data src_func) (in_instr_id (rl_instr l) + 1);
     assert_opt (0 \<le> rl_offset_in_segment l);
     src_instr \<leftarrow> array_at (fd_instructions src_func) (in_instr_id (rl_instr l));
     assert_opt (get_disp_size src_instr = 4);
     instr_loc \<leftarrow> array_at (fd_instruction_to_byte_in_data src_func) (in_instr_id (rl_instr l));
     disp_offset \<leftarrow> offset_of_disp src_instr;
     rest \<leftarrow> emit_link_rip g ls;
     Some (LINK_DISTANCE_TO_OTHER_SEG_32 # [word_of_int (rl_target_segment l)] @ push_u32 next_loc
       @ push_u32 (rl_offset_in_segment l) @ push_u32 (instr_loc + int disp_offset) @ rest)
   }"

definition emit_link_table ::
  "(string \<Rightarrow> int option) \<Rightarrow> int \<Rightarrow> ObjectGenerator \<Rightarrow> ObjectGenerator option" where
  "emit_link_table method_count seg g = do {
     syms \<leftarrow> array_at (m_sym_links_by_seg g) seg;
     types \<leftarrow> array_at (m_type_ptr_links_by_seg g) seg;
     type_bytes \<leftarrow> emit_link_type_pointer method_count types;
     rips \<leftarrow> array_at (m_rip_links_by_seg g) seg;
     rip_bytes \<leftarrow> emit_link_rip g rips;
     ptrs \<leftarrow> array_at (m_pointer_links_by_seg g) seg;
     ptr_bytes \<leftarrow> emit_link_ptr ptrs;
     out \<leftarrow> array_at (m_link_by_seg g) seg;
     Some (g\<lparr>m_link_by_seg := update_at (m_link_by_seg g) seg
       (out @ emit_link_symbol syms @ type_bytes @ rip_bytes @ ptr_bytes @ [LINK_TABLE_END])\<rparr>)
   }"

section \<open>Step 5: header, and the whole generation\<close>

text \<open>
  One of the two loops that fill the table of offsets and sizes, from the last segment to the
  first: \<open>offset\<close> is the running \<^verbatim>\<open>u32\<close>.
\<close>

definition size_offsets :: "u8 list list \<Rightarrow> u32 \<Rightarrow> u32 \<times> (u32 \<times> u32) list" where
  "size_offsets vs offset =
     fold (\<lambda>i (offset, table).
         let sz = of_nat (length (vs ! nat i))
         in (offset + sz, update_at table i (offset, sz)))
       segs_down (offset, replicate N_SEG (0, 0))"

definition push_table :: "(u32 \<times> u32) list \<Rightarrow> u8 list" where
  "push_table t = concat (map (\<lambda>(offset, sz). le_bytes 4 offset @ le_bytes 4 sz) t)"

definition generate_header_v3 :: "ObjectGenerator \<Rightarrow> u8 list" where
  "generate_header_v3 g =
    (let magic = map of_char ''GOAL'';
         offset = 2 + 2;
         offset = offset + 4;
         offset = offset + 4;
         offset = offset + 4 * of_nat N_SEG * 4;
         offset = offset + 4;
         (_, link_seg) = size_offsets (m_link_by_seg g) offset;
         total_link_size = sum_list (map (\<lambda>i. int (length (m_link_by_seg g ! nat i))) segs_down);
         (_, code_seg) = size_offsets (m_data_by_seg g) 0
     in magic @ le_bytes 2 GOAL_VERSION_MAJOR @ le_bytes 2 GOAL_VERSION_MINOR
        @ le_bytes 4 (3 :: u32) @ le_bytes 4 (of_nat N_SEG :: u32)
        @ push_table link_seg @ push_table code_seg
        @ push_u32 (64 + 4 + total_link_size))"

text \<open>Step 4.5: every function's debug info gets the bytes it was compiled to.\<close>

definition collect_code :: "u8 list \<Rightarrow> FunctionData \<Rightarrow> FunctionData option" where
  "collect_code data f = do {
     start \<leftarrow> array_at (fd_instruction_to_byte_in_data f) 0;
     Some (f\<lparr>fd_debug := (fd_debug f)
       \<lparr>dbg_generated_code := take (dbg_length (fd_debug f)) (drop (nat start) data)\<rparr>\<rparr>)
   }"

fun collect_codes :: "u8 list \<Rightarrow> FunctionData list \<Rightarrow> FunctionData list option" where
  "collect_codes data [] = Some []"
| "collect_codes data (f # fs) = do {
     f \<leftarrow> collect_code data f;
     fs \<leftarrow> collect_codes data fs;
     Some (f # fs)
   }"

definition collect_seg :: "int \<Rightarrow> ObjectGenerator \<Rightarrow> ObjectGenerator option" where
  "collect_seg seg g = do {
     fs \<leftarrow> array_at (m_function_data_by_seg g) seg;
     data \<leftarrow> array_at (m_data_by_seg g) seg;
     fs \<leftarrow> collect_codes data fs;
     Some (g\<lparr>m_function_data_by_seg := update_at (m_function_data_by_seg g) seg fs\<rparr>)
   }"

text \<open>
  The members \<^verbatim>\<open>m_data_by_seg\<close> and \<^verbatim>\<open>m_link_by_seg\<close> are moved into the result; the generator that
  is returned beside it still shows the other members, with the debug info of every function.
\<close>

definition layout_all :: "ObjectGenerator \<Rightarrow> ObjectGenerator option" where
  "layout_all g = do {
     g \<leftarrow> fold_opt layout_functions_seg segs_down g;
     fold_opt layout_statics_seg segs_down g
   }"

definition generate_data_v3 ::
  "(string \<Rightarrow> int option) \<Rightarrow> ObjectGenerator \<Rightarrow> (ObjectFileData \<times> ObjectGenerator) option" where
  "generate_data_v3 method_count g = do {
     g \<leftarrow> layout_all g;
     g \<leftarrow> fold_opt handle_links_seg segs_down g;
     g \<leftarrow> fold_opt (emit_link_table method_count) segs_down g;
     g \<leftarrow> fold_opt collect_seg (rev segs_down) g;
     Some (\<lparr>of_segment_data = m_data_by_seg g, of_link_tables = m_link_by_seg g,
            of_header = generate_header_v3 g\<rparr>,
           g\<lparr>m_data_by_seg := empty_segs, m_link_by_seg := empty_segs\<rparr>)
   }"

section \<open>The file\<close>

definition to_vector :: "ObjectFileData \<Rightarrow> u8 list" where
  "to_vector d = of_header d
     @ concat (map (\<lambda>seg. of_link_tables d ! nat seg) segs_down)
     @ concat (map (\<lambda>seg. of_segment_data d ! nat seg) segs_down)"

end
