(* ===== verification/Obj_Layout.thy ===== *)
theory Obj_Layout
  imports ObjectGen Emit_Props
begin

text \<open>
  The memory layout \<^verbatim>\<open>generate_data_v3\<close> computes: where each function and instruction is, that the
  ranges are disjoint, and that patching a jump changes nothing but its own displacement.
\<close>

section \<open>Positions of instructions\<close>

definition code :: "FunctionData \<Rightarrow> u8 list" where
  "code f = concat (map emit (fd_instructions f))"

fun offsets :: "nat \<Rightarrow> Instruction list \<Rightarrow> nat list" where
  "offsets s [] = []"
| "offsets s (i # is) = s # offsets (s + length (emit i)) is"

lemma length_offsets [simp]: "length (offsets s is) = length is"
  by (induction s "is" rule: offsets.induct) simp_all

lemma nth_offsets:
  "j < length is \<Longrightarrow> offsets s is ! j = s + length (concat (map emit (take j is)))"
proof (induction s "is" arbitrary: j rule: offsets.induct)
  case (2 s i "is")
  then show ?case by (cases j) simp_all
qed simp

lemma concat_split:
  "j < length is \<Longrightarrow> concat (map emit is) =
     concat (map emit (take j is)) @ emit (is ! j) @ concat (map emit (drop (Suc j) is))"
  by (metis append_take_drop_id concat.simps(2) concat_append id_take_nth_drop list.simps(9) map_append)

text \<open>\<open>fn_at data s f\<close>: the first instruction of \<open>f\<close> is at \<open>s\<close>, after an aligned type tag.\<close>

definition fn_at :: "u8 list \<Rightarrow> nat \<Rightarrow> FunctionData \<Rightarrow> bool" where
  "fn_at data s f \<longleftrightarrow>
     fd_instruction_to_byte_in_data f = map int (offsets s (fd_instructions f)) \<and>
     s + length (code f) \<le> length data \<and> take (length (code f)) (drop s data) = code f \<and>
     4 \<le> s \<and> (s - 4) mod fd_min_align f = 0 \<and> take 4 (drop (s - 4) data) = replicate 4 0xae"

fun fns_at :: "u8 list \<Rightarrow> nat \<Rightarrow> FunctionData list \<Rightarrow> bool" where
  "fns_at data start [] = True"
| "fns_at data start (f # fs) = (\<exists>s\<ge>start. fn_at data s f \<and> fns_at data (s + length (code f)) fs)"

lemma fn_at_append: "fn_at data s f \<Longrightarrow> fn_at (data @ x) s f"
  by (auto simp: fn_at_def)

lemma fns_at_append: "fns_at data start fs \<Longrightarrow> fns_at (data @ x) start fs"
  by (induction data start fs rule: fns_at.induct) (auto intro: fn_at_append)

section \<open>The layout loops\<close>

lemma emit_count_buffer:
  "length (emit i) \<le> 128 \<Longrightarrow> take (unat (emit_count i)) (emit i) = emit i"
  by (simp add: emit_count_def unat_of_nat take_bit_nat_eq_self)

definition same_code :: "FunctionData \<Rightarrow> FunctionData \<Rightarrow> bool" where
  "same_code f f' \<longleftrightarrow> fd_instructions f' = fd_instructions f \<and>
     fd_ir_to_instruction f' = fd_ir_to_instruction f \<and> fd_min_align f' = fd_min_align f"

lemma same_code_refl [simp]: "same_code f f"
  by (simp add: same_code_def)

lemma same_code_code: "same_code f f' \<Longrightarrow> code f' = code f"
  by (simp add: same_code_def code_def)

lemma place_instrs_Some:
  assumes "place_instrs idx is (f, data) = Some (f', data')"
  shows "data' = data @ concat (map emit is)" (is ?A)
    and "fd_instruction_to_byte_in_data f' =
      fd_instruction_to_byte_in_data f @ map int (offsets (length data) is)" (is ?B)
    and "same_code f f'" (is ?C)
    and "dbg_offset_in_seg (fd_debug f') = dbg_offset_in_seg (fd_debug f)" (is ?D)
    and "dbg_seg (fd_debug f') = dbg_seg (fd_debug f)" (is ?E)
proof -
  have "?A \<and> ?B \<and> ?C \<and> ?D \<and> ?E"
    using assms
  proof (induction "is" arbitrary: idx f data)
    case (Cons i "is")
    from Cons.prems obtain infos where len: "length (emit i) \<le> 128"
      and rec: "place_instrs (Suc idx) is
        (f\<lparr>fd_instruction_to_byte_in_data := fd_instruction_to_byte_in_data f @ [int (length data)],
           fd_debug := (fd_debug f)\<lparr>dbg_instructions := infos\<rparr>\<rparr>, data @ emit i) = Some (f', data')"
      by (auto simp: bind_eq_Some_conv Let_def emit_count_buffer)
    from Cons.IH [OF rec] show ?case by (simp add: same_code_def)
  qed simp
  then show ?A ?B ?C ?D ?E by simp_all
qed

lemma place_function_Some:
  assumes "place_function seg f data = Some (tag, f', data')"
    and "fd_instruction_to_byte_in_data f = []"
  shows "\<exists>k. tag = length data + k \<and> tag mod fd_min_align f = 0 \<and>
      data' = data @ replicate k 0 @ replicate 4 0xae @ code f \<and>
      fd_instruction_to_byte_in_data f' = map int (offsets (tag + 4) (fd_instructions f)) \<and>
      same_code f f' \<and> dbg_offset_in_seg (fd_debug f') = tag + 4 \<and>
      dbg_length (fd_debug f') = length (code f)"
proof -
  have "fd_min_align f \<noteq> 0"
    using assms(1) by (intro notI) (simp add: place_function_def pad_to_0)
  then obtain k where k: "pad_to (fd_min_align f) data = Some (data @ replicate k 0)"
    "(length data + k) mod fd_min_align f = 0"
    using pad_to_Some [of "fd_min_align f" data] by auto
  let ?d = "data @ replicate k 0 @ replicate 4 (0xae :: u8)"
  let ?f = "f\<lparr>fd_debug := (fd_debug f)\<lparr>dbg_offset_in_seg := length data + k + 4, dbg_seg := seg\<rparr>\<rparr>"
  obtain f1 where p: "place_instrs 0 (fd_instructions f) (?f, ?d) = Some (f1, data')"
    and tag: "tag = length data + k"
    and f': "f' = f1\<lparr>fd_debug := (fd_debug f1)
      \<lparr>dbg_length := length data' - dbg_offset_in_seg (fd_debug f1)\<rparr>\<rparr>"
    using assms(1) k(1)
    by (auto simp: place_function_def bind_eq_Some_conv Let_def POINTER_SIZE_def)
  show ?thesis
    using place_instrs_Some [OF p] assms(2) tag f' k(2)
    by (intro exI [of _ k]) (simp add: same_code_def code_def add.assoc)
qed

lemma place_functions_Some:
  assumes "place_functions seg fs types data = Some (fs', types', data')"
    and "\<forall>f\<in>set fs. fd_instruction_to_byte_in_data f = []"
  shows "(\<exists>ext. data' = data @ ext) \<and> fns_at data' (length data) fs' \<and> list_all2 same_code fs fs'"
  using assms
proof (induction fs arbitrary: types data fs' types' data')
  case (Cons f fs)
  from Cons.prems obtain tag f1 data1 fs1 where
    p: "place_function seg f data = Some (tag, f1, data1)"
    and q: "place_functions seg fs (smap_push ''function'' (int tag) types) data1 = Some (fs1, types', data')"
    and fs': "fs' = f1 # fs1"
    by (auto simp: bind_eq_Some_conv)
  obtain k where k: "tag = length data + k" "tag mod fd_min_align f = 0"
      "data1 = data @ replicate k 0 @ replicate 4 0xae @ code f"
      "fd_instruction_to_byte_in_data f1 = map int (offsets (tag + 4) (fd_instructions f))"
      "same_code f f1"
    using place_function_Some [OF p] Cons.prems(2) by auto
  have at: "fn_at data1 (tag + 4) f1"
    using k same_code_code [OF k(5)] by (simp add: fn_at_def same_code_def)
  obtain ext where ih: "data' = data1 @ ext" "fns_at data' (length data1) fs1" "list_all2 same_code fs fs1"
    using Cons.IH [OF q] Cons.prems(2) by auto
  have "length data1 = tag + 4 + length (code f1)"
    using k same_code_code [OF k(5)] by simp
  then have "fns_at data' (length data) fs'"
    using at ih k(1) fn_at_append [OF at, of ext] unfolding fs' fns_at.simps
    by (intro exI [of _ "tag + 4"]) simp
  then show ?case using ih k fs' by auto
qed simp


lemma place_statics_Some:
  assumes "place_statics ss data = Some (ss', data')"
  shows "(\<exists>ext. data' = data @ ext) \<and> list_all2 (\<lambda>s s'. sd_data s' = sd_data s \<and>
      sd_min_align s' = sd_min_align s \<and> 0 \<le> sd_location s' \<and>
      nat (sd_location s') mod sd_min_align s = 0 \<and>
      nat (sd_location s') + length (sd_data s) \<le> length data' \<and>
      take (length (sd_data s)) (drop (nat (sd_location s')) data') = sd_data s) ss ss'"
  using assms
proof (induction ss arbitrary: data ss' data')
  case (Cons s ss)
  have "sd_min_align s \<noteq> 0" using Cons.prems by (intro notI) (simp add: pad_to_0)
  then obtain k where k: "pad_to (sd_min_align s) data = Some (data @ replicate k 0)"
    "(length data + k) mod sd_min_align s = 0"
    using pad_to_Some [of "sd_min_align s" data] by auto
  obtain ss1 where p: "place_statics ss (data @ replicate k 0 @ sd_data s) = Some (ss1, data')"
    and ss': "ss' = s\<lparr>sd_location := int (length data + k)\<rparr> # ss1"
    using Cons.prems k(1) by (auto simp: bind_eq_Some_conv Let_def)
  from Cons.IH [OF p] obtain ext where "data' = (data @ replicate k 0 @ sd_data s) @ ext"
    by auto
  with Cons.IH [OF p] ss' k(2) show ?case by (auto simp: nat_int_add)
qed simp

section \<open>Disjoint ranges\<close>

definition pos :: "FunctionData list \<Rightarrow> nat \<Rightarrow> nat \<Rightarrow> nat" where
  "pos fs k j = nat (fd_instruction_to_byte_in_data (fs ! k) ! j)"

definition ilen :: "FunctionData list \<Rightarrow> nat \<Rightarrow> nat \<Rightarrow> nat" where
  "ilen fs k j = length (emit (fd_instructions (fs ! k) ! j))"

definition valid :: "FunctionData list \<Rightarrow> nat \<Rightarrow> nat \<Rightarrow> bool" where
  "valid fs k j \<longleftrightarrow> k < length fs \<and> j < length (fd_instructions (fs ! k))"

text \<open>The bytes of instruction \<open>j\<close> of function \<open>k\<close>.\<close>

definition slice :: "u8 list \<Rightarrow> FunctionData list \<Rightarrow> nat \<Rightarrow> nat \<Rightarrow> u8 list" where
  "slice data fs k j = take (ilen fs k j) (drop (pos fs k j) data)"

lemma fns_at_nth:
  assumes "fns_at data start fs" "k < length fs"
  shows "\<exists>s\<ge>start. fn_at data s (fs ! k) \<and>
    (\<forall>k'. k < k' \<longrightarrow> k' < length fs \<longrightarrow> (\<exists>s'\<ge>s + length (code (fs ! k)). fn_at data s' (fs ! k')))"
  using assms
proof (induction data start fs arbitrary: k rule: fns_at.induct)
  case (2 data start f fs)
  from 2(2) obtain s where s: "start \<le> s" "fn_at data s f" "fns_at data (s + length (code f)) fs" by auto
  show ?case
  proof (cases k)
    case 0
    have "\<exists>s'\<ge>s + length (code f). fn_at data s' ((f # fs) ! k')"
      if "0 < k'" "k' < length (f # fs)" for k'
      using that 2(1) [OF s(3), of "k' - 1"] by (cases k') auto
    with s 0 show ?thesis by auto
  next
    case (Suc k1)
    then have "k1 < length fs" using 2(3) by simp
    from 2(1) [OF s(3) this] obtain t where t: "s + length (code f) \<le> t" "fn_at data t (fs ! k1)"
      "\<And>k'. k1 < k' \<Longrightarrow> k' < length fs \<Longrightarrow> \<exists>s'\<ge>t + length (code (fs ! k1)). fn_at data s' (fs ! k')"
      by blast
    have "\<exists>s'\<ge>t + length (code ((f # fs) ! k)). fn_at data s' ((f # fs) ! k')"
      if "k < k'" "k' < length (f # fs)" for k'
      using that t(3) [of "k' - 1"] Suc by (cases k') auto
    with t s Suc show ?thesis by (intro exI [of _ t]) auto
  qed
qed simp

lemma fn_at_pos:
  assumes "fn_at data s (fs ! k)" "valid fs k j"
  shows "pos fs k j = s + length (concat (map emit (take j (fd_instructions (fs ! k)))))"
    and "pos fs k j + ilen fs k j \<le> s + length (code (fs ! k))"
    and "slice data fs k j = emit (fd_instructions (fs ! k) ! j)"
proof -
  let ?is = "fd_instructions (fs ! k)"
  have j: "j < length ?is" using assms(2) by (simp add: valid_def)
  show p: "pos fs k j = s + length (concat (map emit (take j ?is)))"
    using assms(1) j by (simp add: pos_def fn_at_def nth_offsets)
  have c: "code (fs ! k) = concat (map emit (take j ?is)) @ emit (?is ! j) @ concat (map emit (drop (Suc j) ?is))"
    unfolding code_def by (rule concat_split [OF j])
  show "pos fs k j + ilen fs k j \<le> s + length (code (fs ! k))"
    by (simp add: p c ilen_def)
  obtain rest where "drop s data = code (fs ! k) @ rest"
    using assms(1) by (metis append_take_drop_id fn_at_def)
  then have "drop (pos fs k j) data = emit (?is ! j) @ concat (map emit (drop (Suc j) ?is)) @ rest"
    unfolding p add.commute [of s] drop_drop [symmetric] by (simp add: c)
  then show "slice data fs k j = emit (?is ! j)"
    by (simp add: slice_def ilen_def)
qed


lemma fns_at_slices:
  assumes "fns_at data start fs" "valid fs k j"
  shows "slice data fs k j = emit (fd_instructions (fs ! k) ! j) \<and>
    pos fs k j + ilen fs k j \<le> length data"
proof -
  have "k < length fs" using assms(2) by (simp add: valid_def)
  from fns_at_nth [OF assms(1) this] obtain s where s: "fn_at data s (fs ! k)" by blast
  then have "s + length (code (fs ! k)) \<le> length data" by (simp add: fn_at_def)
  with fn_at_pos [OF s assms(2)] show ?thesis by linarith
qed

lemma pos_next:
  assumes "fns_at data start fs" "valid fs k j" "valid fs k (Suc j)"
  shows "pos fs k (Suc j) = pos fs k j + ilen fs k j"
proof -
  have k: "k < length fs" using assms(2) by (simp add: valid_def)
  from fns_at_nth [OF assms(1) k] obtain s where s: "fn_at data s (fs ! k)" by blast
  have "j < length (fd_instructions (fs ! k))" using assms(2) by (simp add: valid_def)
  then show ?thesis
    by (simp add: fn_at_pos(1) [OF s assms(2)] fn_at_pos(1) [OF s assms(3)] ilen_def
        take_Suc_conv_app_nth)
qed

lemma concat_take_mono:
  assumes "j < j'" "j < length is"
  shows "length (concat (map emit (take j is))) + length (emit (is ! j)) \<le>
    length (concat (map emit (take j' is)))"
proof -
  have "take j' is = take (Suc j) is @ take (j' - Suc j) (drop (Suc j) is)"
    using assms(1) take_add [of "Suc j" "j' - Suc j" "is"] by simp
  then show ?thesis using assms(2) by (simp add: take_Suc_conv_app_nth)
qed

text \<open>Two instructions share no byte.\<close>

lemma slices_disjoint:
  assumes "fns_at data start fs" "valid fs k j" "valid fs k' j'" "k < k' \<or> (k = k' \<and> j < j')"
  shows "pos fs k j + ilen fs k j \<le> pos fs k' j'"
proof -
  have k: "k < length fs" "k' < length fs" using assms(2,3) by (simp_all add: valid_def)
  from fns_at_nth [OF assms(1) k(1)] obtain s where s: "fn_at data s (fs ! k)"
    and later: "\<And>k'. k < k' \<Longrightarrow> k' < length fs \<Longrightarrow> \<exists>s'\<ge>s + length (code (fs ! k)). fn_at data s' (fs ! k')"
    by blast
  show ?thesis
  proof (cases "k < k'")
    case True
    from later [OF True k(2)] obtain s' where s': "s + length (code (fs ! k)) \<le> s'" "fn_at data s' (fs ! k')"
      by blast
    show ?thesis
      using fn_at_pos(2) [OF s assms(2)] fn_at_pos(1) [OF s'(2) assms(3)] s'(1) by linarith
  next
    case False
    then have eq: "k' = k" "j < j'" using assms(4) by auto
    let ?is = "fd_instructions (fs ! k)"
    have "j < length ?is" using assms(2) by (simp add: valid_def)
    then show ?thesis
      using concat_take_mono [OF eq(2), of ?is] fn_at_pos(1) [OF s assms(2)] fn_at_pos(1) [OF s, of j'] assms(3)
      by (simp add: eq(1) ilen_def)
  qed
qed

section \<open>Patching jumps\<close>

text \<open>The bytes the segment holds while jumps are patched: \<open>B k j\<close> for instruction \<open>j\<close> of \<open>k\<close>.\<close>

definition holds_code :: "FunctionData list \<Rightarrow> (nat \<Rightarrow> nat \<Rightarrow> u8 list) \<Rightarrow> u8 list \<Rightarrow> bool" where
  "holds_code fs B data \<longleftrightarrow>
     (\<forall>k j. valid fs k j \<longrightarrow> slice data fs k j = B k j \<and> pos fs k j + ilen fs k j \<le> length data)"

definition apart :: "FunctionData list \<Rightarrow> bool" where
  "apart fs \<longleftrightarrow> (\<forall>k j k' j'. valid fs k j \<longrightarrow> valid fs k' j' \<longrightarrow> (k, j) \<noteq> (k', j') \<longrightarrow>
     pos fs k j + ilen fs k j \<le> pos fs k' j' \<or> pos fs k' j' + ilen fs k' j' \<le> pos fs k j)"

lemma fns_at_apart: "fns_at data start fs \<Longrightarrow> apart fs"
  unfolding apart_def
  by (metis linorder_neqE_nat slices_disjoint)

lemma take_drop_patch_inside:
  assumes "p + n \<le> length data" "off + length bs \<le> n"
  shows "take n (drop p (patch (p + off) bs data)) = patch off bs (take n (drop p data))"
proof (rule nth_equalityI)
  show "length (take n (drop p (patch (p + off) bs data))) = length (patch off bs (take n (drop p data)))"
    using assms by simp
  fix i assume "i < length (take n (drop p (patch (p + off) bs data)))"
  then have "i < n" by simp
  with assms show "take n (drop p (patch (p + off) bs data)) ! i = patch off bs (take n (drop p data)) ! i"
    by (simp add: nth_patch)
qed

lemma holds_code_patch:
  assumes "holds_code fs B data" "apart fs" "valid fs k j" "off + length bs \<le> ilen fs k j"
  shows "holds_code fs (B(k := (B k)(j := patch off bs (B k j)))) (patch (pos fs k j + off) bs data)"
proof -
  let ?d = "patch (pos fs k j + off) bs data"
  have at: "slice data fs k j = B k j" "pos fs k j + ilen fs k j \<le> length data"
    using assms(1,3) by (auto simp: holds_code_def)
  then have len: "length ?d = length data" using assms(4) by simp
  have "slice ?d fs k' j' = (B(k := (B k)(j := patch off bs (B k j)))) k' j' \<and>
      pos fs k' j' + ilen fs k' j' \<le> length ?d" if v: "valid fs k' j'" for k' j'
  proof (cases "(k', j') = (k, j)")
    case True
    then show ?thesis
      using at len take_drop_patch_inside [OF at(2) assms(4)] by (simp add: slice_def)
  next
    case False
    have h: "slice data fs k' j' = B k' j'" "pos fs k' j' + ilen fs k' j' \<le> length data"
      using assms(1) v by (auto simp: holds_code_def)
    have "pos fs k j + ilen fs k j \<le> pos fs k' j' \<or> pos fs k' j' + ilen fs k' j' \<le> pos fs k j"
      using assms(2,3) v False unfolding apart_def by metis
    then have "slice ?d fs k' j' = slice data fs k' j'"
      unfolding slice_def using at(2) h(2) assms(4)
      by (intro patch_slice_other) auto
    with False h len show ?thesis by auto
  qed
  then show ?thesis by (simp add: holds_code_def)
qed

end
