(* ===== verification/Obj_Build.thy ===== *)
theory Obj_Build
  imports ObjectGen
begin

text \<open>
  The states an \<^verbatim>\<open>ObjectGenerator\<close> can be in before \<^verbatim>\<open>generate_data_v3\<close>, as a step relation over
  its public functions, and the invariant every step keeps.
\<close>

section \<open>Reachable states\<close>

definition new_debug :: "FunctionDebugInfo \<Rightarrow> bool" where
  "new_debug d \<longleftrightarrow> dbg_irs d = [] \<and> dbg_instructions d = []"

inductive built :: "ObjectGenerator \<Rightarrow> bool" where
  built_new: "built new_ObjectGenerator"
| built_function: "built g \<Longrightarrow> new_debug d \<Longrightarrow> add_function_to_seg seg d al g = Some (fr, g') \<Longrightarrow> built g'"
| built_ir: "built g \<Longrightarrow> add_ir fr name g = Some (ir, g') \<Longrightarrow> built g'"
| built_instr: "built g \<Longrightarrow> add_instr i ir g = Some (jr, g') \<Longrightarrow> built g'"
| built_instr_no_ir: "built g \<Longrightarrow> add_instr_no_ir fr i kind g = Some g' \<Longrightarrow> built g'"
| built_static: "built g \<Longrightarrow> add_static_to_seg seg al g = Some (sr, g') \<Longrightarrow> built g'"
| built_write: "built g \<Longrightarrow> write_static_data sr bs g = Some g' \<Longrightarrow> built g'"
| built_type_link: "built g \<Longrightarrow> link_static_type_ptr sr off name g = Some g' \<Longrightarrow> built g'"
| built_jump_link: "built g \<Longrightarrow> link_instruction_jump jr ir g = Some g' \<Longrightarrow> built g'"
| built_sym_mem_link: "built g \<Longrightarrow> link_instruction_symbol_mem jr name g = Some g' \<Longrightarrow> built g'"
| built_sym_ptr_link: "built g \<Longrightarrow> link_instruction_symbol_ptr jr name g = Some g' \<Longrightarrow> built g'"
| built_static_sym_link: "built g \<Longrightarrow> link_static_symbol_ptr sr off name g = Some g' \<Longrightarrow> built g'"
| built_data_link: "built g \<Longrightarrow> link_static_pointer_to_data sr off dr doff g = Some g' \<Longrightarrow> built g'"
| built_function_link: "built g \<Longrightarrow> link_static_pointer_to_function sr off fr g = Some g' \<Longrightarrow> built g'"
| built_rip_data_link: "built g \<Longrightarrow> link_instruction_static jr sr off g = Some g' \<Longrightarrow> built g'"
| built_rip_function_link: "built g \<Longrightarrow> link_instruction_to_function jr fr g = Some g' \<Longrightarrow> built g'"

section \<open>The invariant\<close>

text \<open>A function before its layout: no addresses yet, debug info in step with the code.\<close>

definition fn_inv :: "FunctionData \<Rightarrow> bool" where
  "fn_inv f \<longleftrightarrow> fd_instruction_to_byte_in_data f = [] \<and>
     length (dbg_instructions (fd_debug f)) = length (fd_instructions f) \<and>
     length (dbg_irs (fd_debug f)) = length (fd_ir_to_instruction f) \<and>
     (\<forall>x\<in>set (fd_ir_to_instruction f). 0 \<le> x \<and> x \<le> int (length (fd_instructions f)))"

definition all_fns :: "(FunctionData \<Rightarrow> bool) \<Rightarrow> ObjectGenerator \<Rightarrow> bool" where
  "all_fns P g \<longleftrightarrow> (\<forall>fs\<in>set (m_function_data_by_seg g). \<forall>f\<in>set fs. P f)"

definition gen_inv :: "ObjectGenerator \<Rightarrow> bool" where
  "gen_inv g \<longleftrightarrow>
     m_data_by_seg g = empty_segs \<and> m_link_by_seg g = empty_segs \<and>
     m_type_ptr_links_by_seg g = empty_segs \<and> m_sym_links_by_seg g = empty_segs \<and>
     m_rip_links_by_seg g = empty_segs \<and> m_pointer_links_by_seg g = empty_segs \<and>
     length (m_function_data_by_seg g) = N_SEG \<and> length (m_static_data_by_seg g) = N_SEG \<and>
     length (m_jump_temp_links_by_seg g) = N_SEG \<and>
     length (m_static_type_temp_links_by_seg g) = N_SEG \<and>
     length (m_symbol_instr_temp_links_by_seg g) = N_SEG \<and>
     length (m_static_sym_temp_links_by_seg g) = N_SEG \<and>
     length (m_static_data_temp_ptr_links_by_seg g) = N_SEG \<and>
     length (m_static_function_temp_ptr_links_by_seg g) = N_SEG \<and>
     length (m_rip_func_temp_links_by_seg g) = N_SEG \<and>
     length (m_rip_data_temp_links_by_seg g) = N_SEG \<and>
     all_fns fn_inv g"

lemma gen_inv_new: "gen_inv new_ObjectGenerator"
  by (simp add: gen_inv_def new_ObjectGenerator_def all_fns_def empty_segs_def)

lemma push_at_Some:
  "push_at xss i x = Some yss \<longleftrightarrow>
     0 \<le> i \<and> nat i < length xss \<and> yss = xss[nat i := xss ! nat i @ [x]]"
  by (simp add: push_at_def modify_at_Some)

lemma push_map_at_Some:
  "push_map_at ms i k x = Some ms' \<longleftrightarrow>
     0 \<le> i \<and> nat i < length ms \<and> ms' = ms[nat i := smap_push k x (ms ! nat i)]"
  by (simp add: push_map_at_def modify_at_Some)

lemma get_function_Some:
  "get_function g seg k = Some f \<longleftrightarrow>
     0 \<le> seg \<and> nat seg < length (m_function_data_by_seg g) \<and>
     0 \<le> k \<and> nat k < length (m_function_data_by_seg g ! nat seg) \<and>
     m_function_data_by_seg g ! nat seg ! nat k = f"
  by (auto simp: get_function_def bind_eq_Some_conv)

lemma all_fns_get:
  "all_fns P g \<Longrightarrow> get_function g seg k = Some f \<Longrightarrow> P f"
  unfolding all_fns_def get_function_Some by (metis nth_mem)

lemma all_fns_set:
  assumes "all_fns P g" "P f"
  shows "all_fns P (set_function g seg k f)"
  unfolding all_fns_def
proof (intro ballI)
  fix fs x assume fs: "fs \<in> set (m_function_data_by_seg (set_function g seg k f))" "x \<in> set fs"
  let ?fss = "m_function_data_by_seg g"
  show "P x"
  proof (cases "nat seg < length ?fss")
    case True
    then have "fs \<in> set ?fss \<or> fs = (?fss ! nat seg)[nat k := f]"
      using fs(1) set_update_subset_insert [of ?fss "nat seg"] by (auto simp: set_function_def)
    moreover have "?fss ! nat seg \<in> set ?fss" using True by simp
    ultimately show ?thesis
      using assms fs(2) set_update_subset_insert [of "?fss ! nat seg" "nat k" f]
      by (auto simp: all_fns_def)
  next
    case False
    then show ?thesis using assms fs by (auto simp: all_fns_def set_function_def list_update_beyond)
  qed
qed

lemma gen_inv_set_function:
  "gen_inv g \<Longrightarrow> fn_inv f \<Longrightarrow> gen_inv (set_function g seg k f)"
  using all_fns_set [of fn_inv g f seg k]
  by (simp add: gen_inv_def set_function_def)

lemma gen_inv_add_function:
  assumes "gen_inv g" "new_debug d" "add_function_to_seg seg d al g = Some (fr, g')"
  shows "gen_inv g'"
proof -
  let ?f = "\<lparr>fd_instructions = [], fd_ir_to_instruction = [], fd_instruction_to_byte_in_data = [],
        fd_min_align = al, fd_debug = d\<rparr>"
  let ?fss = "m_function_data_by_seg g"
  have "fn_inv ?f" using assms(2) by (simp add: fn_inv_def new_debug_def)
  moreover have g': "0 \<le> seg" "nat seg < length ?fss"
    "m_function_data_by_seg g' = ?fss[nat seg := ?fss ! nat seg @ [?f]]"
    using assms(3) by (auto simp: add_function_to_seg_def bind_eq_Some_conv push_at_Some Let_def)
  ultimately have "all_fns fn_inv g'"
    using assms(1) set_update_subset_insert [of ?fss "nat seg" "?fss ! nat seg @ [?f]"] nth_mem [OF g'(2)]
    unfolding all_fns_def gen_inv_def by fastforce
  with assms(1,3) g' show ?thesis
    by (auto simp: gen_inv_def add_function_to_seg_def bind_eq_Some_conv Let_def)
qed

lemma gen_inv_add_ir: "gen_inv g \<Longrightarrow> add_ir fr name g = Some (ir, g') \<Longrightarrow> gen_inv g'"
  by (auto simp: add_ir_def bind_eq_Some_conv Let_def intro!: gen_inv_set_function)
    (auto simp: fn_inv_def gen_inv_def dest!: all_fns_get)

lemma gen_inv_add_instr: "gen_inv g \<Longrightarrow> add_instr i ir g = Some (jr, g') \<Longrightarrow> gen_inv g'"
  by (auto simp: add_instr_def bind_eq_Some_conv Let_def intro!: gen_inv_set_function)
    (force simp: fn_inv_def gen_inv_def dest!: all_fns_get)

lemma gen_inv_add_instr_no_ir: "gen_inv g \<Longrightarrow> add_instr_no_ir fr i kind g = Some g' \<Longrightarrow> gen_inv g'"
  by (auto simp: add_instr_no_ir_def bind_eq_Some_conv Let_def intro!: gen_inv_set_function)
    (force simp: fn_inv_def gen_inv_def dest!: all_fns_get)

lemmas link_fns = link_static_type_ptr_def link_instruction_jump_def link_instruction_symbol_mem_def
  link_instruction_symbol_ptr_def link_static_symbol_ptr_def link_static_pointer_to_data_def
  link_static_pointer_to_function_def link_instruction_static_def link_instruction_to_function_def
  add_static_to_seg_def write_static_data_def

lemma gen_inv_links:
  assumes "gen_inv g"
  shows "add_static_to_seg seg al g = Some (sr, g2) \<Longrightarrow> gen_inv g2"
    and "write_static_data sr bs g = Some g2 \<Longrightarrow> gen_inv g2"
    and "link_static_type_ptr sr off name g = Some g2 \<Longrightarrow> gen_inv g2"
    and "link_instruction_jump jr ir g = Some g2 \<Longrightarrow> gen_inv g2"
    and "link_instruction_symbol_mem jr name g = Some g2 \<Longrightarrow> gen_inv g2"
    and "link_instruction_symbol_ptr jr name g = Some g2 \<Longrightarrow> gen_inv g2"
    and "link_static_symbol_ptr sr off name g = Some g2 \<Longrightarrow> gen_inv g2"
    and "link_static_pointer_to_data sr off dr doff g = Some g2 \<Longrightarrow> gen_inv g2"
    and "link_static_pointer_to_function sr off fr g = Some g2 \<Longrightarrow> gen_inv g2"
    and "link_instruction_static jr sr off g = Some g2 \<Longrightarrow> gen_inv g2"
    and "link_instruction_to_function jr fr g = Some g2 \<Longrightarrow> gen_inv g2"
  using assms
  by (auto simp: link_fns bind_eq_Some_conv push_at_Some push_map_at_Some gen_inv_def all_fns_def Let_def)

lemma built_inv: "built g \<Longrightarrow> gen_inv g"
  by (induction rule: built.induct)
    (blast intro: gen_inv_new gen_inv_add_function gen_inv_add_ir gen_inv_add_instr
      gen_inv_add_instr_no_ir gen_inv_links)+

end
