(* ===== verification/Obj_Generate.thy ===== *)
theory Obj_Generate
  imports Obj_Layout Obj_Build
begin

text \<open>
  \<^verbatim>\<open>generate_data_v3\<close> as a whole: what each step leaves alone, where code ends up, and that every
  jump of the finished segment reaches the instruction its link names.
\<close>

section \<open>Segment by segment\<close>

lemma segs_down_eq: "segs_down = [2, 1, 0]"
  by (simp add: segs_down_def N_SEG_def upt_rec)

lemma N_SEG_cases: "s < N_SEG \<Longrightarrow> s = 0 \<or> s = 1 \<or> s = 2"
  by (auto simp: N_SEG_def)

definition fns :: "ObjectGenerator \<Rightarrow> nat \<Rightarrow> FunctionData list" where
  "fns g s = m_function_data_by_seg g ! s"

definition seg_data :: "ObjectGenerator \<Rightarrow> nat \<Rightarrow> u8 list" where
  "seg_data g s = m_data_by_seg g ! s"

definition arrays :: "ObjectGenerator \<Rightarrow> bool" where
  "arrays g \<longleftrightarrow> length (m_data_by_seg g) = N_SEG \<and> length (m_function_data_by_seg g) = N_SEG"

text \<open>What the later steps keep of the generator.\<close>

definition same_layout :: "ObjectGenerator \<Rightarrow> ObjectGenerator \<Rightarrow> bool" where
  "same_layout g g' \<longleftrightarrow>
     m_function_data_by_seg g' = m_function_data_by_seg g \<and>
     m_static_data_by_seg g' = m_static_data_by_seg g \<and>
     m_jump_temp_links_by_seg g' = m_jump_temp_links_by_seg g \<and>
     length (m_data_by_seg g') = length (m_data_by_seg g)"

lemma same_layout_trans: "same_layout a b \<Longrightarrow> same_layout b c \<Longrightarrow> same_layout a c"
  by (simp add: same_layout_def)

lemma same_layout_refl [simp]: "same_layout g g"
  by (simp add: same_layout_def)

definition same_code_data :: "ObjectGenerator \<Rightarrow> ObjectGenerator \<Rightarrow> bool" where
  "same_code_data g g' \<longleftrightarrow> same_layout g g' \<and> m_data_by_seg g' = m_data_by_seg g"

lemma fold_opt_same:
  assumes "fold_opt f xs s = Some t" "\<And>x s t. f x s = Some t \<Longrightarrow> same_code_data s t"
  shows "same_code_data s t"
  using assms(1)
  by (rule fold_opt_invariant) (auto simp: same_code_data_def dest!: assms(2) intro: same_layout_trans)

lemma for_links_same:
  assumes "for_links f m s = Some t" "\<And>k x s t. f k x s = Some t \<Longrightarrow> same_code_data s t"
  shows "same_code_data s t"
  using assms(1) unfolding for_links_def
  by (rule fold_opt_same) (auto intro: fold_opt_same assms(2))

lemma handle_static_type_same:
  "handle_temp_static_type_links seg g = Some g' \<Longrightarrow> same_code_data g g'"
  unfolding handle_temp_static_type_links_def bind_eq_Some_conv
  by (elim exE conjE, erule for_links_same)
    (auto simp: bind_eq_Some_conv same_code_data_def same_layout_def Let_def split: prod.splits)

lemma handle_static_sym_same:
  "handle_temp_static_sym_links seg g = Some g' \<Longrightarrow> same_code_data g g'"
  unfolding handle_temp_static_sym_links_def bind_eq_Some_conv
  by (elim exE conjE, erule for_links_same)
    (auto simp: bind_eq_Some_conv same_code_data_def same_layout_def Let_def split: prod.splits)

lemma handle_instr_sym_same:
  "handle_temp_instr_sym_links seg g = Some g' \<Longrightarrow> same_code_data g g'"
  unfolding handle_temp_instr_sym_links_def bind_eq_Some_conv
  by (elim exE conjE, erule for_links_same)
    (auto simp: bind_eq_Some_conv same_code_data_def same_layout_def Let_def split: prod.splits)

lemma push_rip_same: "push_rip_link seg l g = Some g' \<Longrightarrow> same_code_data g g'"
  by (auto simp: push_rip_link_def bind_eq_Some_conv same_code_data_def same_layout_def)

lemma push_pointer_same: "push_pointer_link seg l g = Some g' \<Longrightarrow> same_code_data g g'"
  by (auto simp: push_pointer_link_def bind_eq_Some_conv same_code_data_def same_layout_def)

lemma handle_rip_func_same:
  "handle_temp_rip_func_links seg g = Some g' \<Longrightarrow> same_code_data g g'"
  unfolding handle_temp_rip_func_links_def bind_eq_Some_conv
  by (elim exE conjE, erule fold_opt_same) (auto intro: push_rip_same simp: bind_eq_Some_conv)

lemma handle_rip_data_same:
  "handle_temp_rip_data_links seg g = Some g' \<Longrightarrow> same_code_data g g'"
  unfolding handle_temp_rip_data_links_def bind_eq_Some_conv
  by (elim exE conjE, erule fold_opt_same) (auto intro: push_rip_same simp: bind_eq_Some_conv)

lemma same_code_data_trans: "same_code_data a b \<Longrightarrow> same_code_data b c \<Longrightarrow> same_code_data a c"
  by (auto simp: same_code_data_def intro: same_layout_trans)

lemma handle_static_ptr_same:
  "handle_temp_static_ptr_links seg g = Some g' \<Longrightarrow> same_code_data g g'"
  unfolding handle_temp_static_ptr_links_def bind_eq_Some_conv
  by (elim exE conjE, rule same_code_data_trans, erule fold_opt_same,
      (auto intro: push_pointer_same simp: bind_eq_Some_conv)[1], erule fold_opt_same)
    (auto intro: push_pointer_same simp: bind_eq_Some_conv)

section \<open>Jumps\<close>

definition jump_key :: "JumpLink \<Rightarrow> nat \<times> nat" where
  "jump_key l = (nat (in_func_id (jl_jump_instr l)), nat (in_instr_id (jl_jump_instr l)))"

text \<open>What a jump link means for a laid out segment: the displacement to write and where.\<close>

definition jump_disp :: "FunctionData list \<Rightarrow> JumpLink \<Rightarrow> int" where
  "jump_disp fs l =
    (let f = fs ! fst (jump_key l); loc = fd_instruction_to_byte_in_data f
     in loc ! nat (fd_ir_to_instruction f ! nat (ir_ir_id (jl_dest l))) - loc ! Suc (snd (jump_key l)))"

definition jump_bytes :: "FunctionData list \<Rightarrow> JumpLink \<Rightarrow> u8 list" where
  "jump_bytes fs l =
    (let i = fd_instructions (fs ! fst (jump_key l)) ! snd (jump_key l)
     in patch (the (offset_of_imm i)) (le_bytes 4 (word_of_int (jump_disp fs l) :: u32)) (emit i))"

text \<open>The instructions the emitter offers for \<^verbatim>\<open>link_instruction_jump\<close>.\<close>

definition is_jump :: "Instruction \<Rightarrow> mnemonic \<Rightarrow> bool" where
  "is_jump i mn \<longleftrightarrow> (Some i, mn) \<in> set jumps"

lemma is_jump_patchable: "is_jump i mn \<Longrightarrow> patchable offset_of_imm (Some i) (\<lambda>d. Insn mn [ImmI d])"
  by (auto simp: is_jump_def jumps_def patchable_jumps)

definition links_jumps :: "FunctionData list \<Rightarrow> JumpLink \<Rightarrow> bool" where
  "links_jumps fs l \<longleftrightarrow> valid fs (fst (jump_key l)) (snd (jump_key l)) \<and> (\<exists>mn. is_jump (fd_instructions (fs ! fst (jump_key l)) ! snd (jump_key l)) mn)"

lemma patch_jump_Some:
  assumes "patch_jump (int s) l g = Some g'" and "jump_key l = (k, j)" and "f = fns g s ! k"
  shows "\<exists>off d. s < length (m_data_by_seg g) \<and> s < length (m_function_data_by_seg g) \<and> k < length (fns g s) \<and>
    j < length (fd_instructions f) \<and> Suc j < length (fd_instruction_to_byte_in_data f) \<and>
    nat (ir_ir_id (jl_dest l)) < length (fd_ir_to_instruction f) \<and>
    d = fd_ir_to_instruction f ! nat (ir_ir_id (jl_dest l)) \<and> 0 \<le> d \<and>
    nat d < length (fd_instruction_to_byte_in_data f) \<and>
    offset_of_imm (fd_instructions f ! j) = Some off \<and>
    g' = g\<lparr>m_data_by_seg := (m_data_by_seg g)[s :=
      patch (nat (fd_instruction_to_byte_in_data f ! j + int off))
        (le_bytes 4 (word_of_int (jump_disp (fns g s) l) :: u32)) (seg_data g s)]\<rparr>"
proof -
  let ?loc = "fd_instruction_to_byte_in_data f"
  obtain off d where
    f: "get_function g (int s) (in_func_id (jl_jump_instr l)) = Some f" and
    j: "0 \<le> in_instr_id (jl_jump_instr l)" "nat (in_instr_id (jl_jump_instr l)) < length (fd_instructions f)" and
    off: "offset_of_imm (fd_instructions f ! nat (in_instr_id (jl_jump_instr l))) = Some off" and
    src: "nat (in_instr_id (jl_jump_instr l) + 1) < length ?loc" and
    d: "nat (ir_ir_id (jl_dest l)) < length (fd_ir_to_instruction f)"
       "d = fd_ir_to_instruction f ! nat (ir_ir_id (jl_dest l))" "0 \<le> d" "nat d < length ?loc" and
    p: "patch_data_s32 (int s) (?loc ! nat (in_instr_id (jl_jump_instr l)) + int off)
          (?loc ! nat d - ?loc ! nat (in_instr_id (jl_jump_instr l) + 1)) g = Some g'"
    using assms(1,2) unfolding assms(3) fns_def
    by (auto simp: patch_jump_def bind_eq_Some_conv Let_def get_function_Some jump_key_def)
  have jk: "nat (in_instr_id (jl_jump_instr l)) = j" "nat (in_instr_id (jl_jump_instr l) + 1) = Suc j"
    using assms(2) j(1) by (auto simp: jump_key_def)
  have "?loc ! nat d - ?loc ! Suc j = jump_disp (fns g s) l"
    by (simp add: jump_disp_def assms(2,3) d(2) Let_def)
  then have "g' = g\<lparr>m_data_by_seg := (m_data_by_seg g)[s :=
      patch (nat (?loc ! j + int off))
        (le_bytes 4 (word_of_int (jump_disp (fns g s) l) :: u32)) (seg_data g s)]\<rparr> \<and>
      s < length (m_data_by_seg g)"
    using p unfolding jk by (auto simp: patch_data_s32_def bind_eq_Some_conv update_at_def seg_data_def)
  moreover have "k < length (fns g s)" "s < length (m_function_data_by_seg g)"
    using f assms(2) by (auto simp: get_function_Some fns_def jump_key_def)
  ultimately show ?thesis
    using j off src d unfolding jk by blast
qed

definition link_bounds :: "FunctionData list \<Rightarrow> JumpLink \<Rightarrow> bool" where
  "link_bounds fs l \<longleftrightarrow>
    (let f = fs ! fst (jump_key l); d = fd_ir_to_instruction f ! nat (ir_ir_id (jl_dest l))
     in fst (jump_key l) < length fs \<and>
        Suc (snd (jump_key l)) < length (fd_instruction_to_byte_in_data f) \<and>
        nat (ir_ir_id (jl_dest l)) < length (fd_ir_to_instruction f) \<and>
        0 \<le> d \<and> nat d < length (fd_instruction_to_byte_in_data f))"

lemma patch_jump_bounds: "patch_jump (int s) l g = Some g' \<Longrightarrow> link_bounds (fns g s) l"
  using patch_jump_Some [OF _ prod.collapse [symmetric] refl, of s l g g'] by (auto simp: link_bounds_def Let_def)

lemma patch_jump_same: "patch_jump (int s) l g = Some g' \<Longrightarrow> same_layout g g'"
  using patch_jump_Some [OF _ prod.collapse [symmetric] refl, of s l g g'] by (auto simp: same_layout_def)

lemma patch_jump_other: "patch_jump (int s) l g = Some g' \<Longrightarrow> t \<noteq> s \<Longrightarrow> seg_data g' t = seg_data g t"
  using patch_jump_Some [OF _ prod.collapse [symmetric] refl, of s l g g'] by (auto simp: seg_data_def)

text \<open>
  The contents of the segment while the links are processed: an instruction that is the jump of a
  processed link has its patched bytes, every other instruction its emitted bytes.
\<close>

definition patched_code :: "FunctionData list \<Rightarrow> JumpLink list \<Rightarrow> nat \<Rightarrow> nat \<Rightarrow> u8 list" where
  "patched_code fs ls k j =
    (case find (\<lambda>l. jump_key l = (k, j)) ls of
       Some l \<Rightarrow> jump_bytes fs l
     | None \<Rightarrow> emit (fd_instructions (fs ! k) ! j))"

lemma find_snoc:
  "find P (xs @ [x]) = (case find P xs of None \<Rightarrow> if P x then Some x else None | Some y \<Rightarrow> Some y)"
  by (induction xs) auto

lemma find_key_append:
  assumes "jump_key l \<notin> jump_key ` set ls"
  shows "find (\<lambda>x. jump_key x = (k, j)) (ls @ [l]) =
    (if jump_key l = (k, j) then Some l else find (\<lambda>x. jump_key x = (k, j)) ls)"
proof (cases "jump_key l = (k, j)")
  case True
  then have "find (\<lambda>x. jump_key x = (k, j)) ls = None"
    using assms by (simp add: find_None_iff) (metis image_eqI)
  with True show ?thesis by (simp add: find_snoc)
qed (simp add: find_snoc split: option.split)

lemma patched_code_snoc:
  assumes "jump_key l = (k, j)" "(k, j) \<notin> jump_key ` set ls"
  shows "patched_code fs (ls @ [l]) =
    (patched_code fs ls)(k := (patched_code fs ls k)(j := jump_bytes fs l))"
  using assms find_key_append [of l ls] by (auto simp: patched_code_def fun_eq_iff)

lemma jump_imm_in_emit:
  assumes "is_jump i mn" "offset_of_imm i = Some off"
  shows "off + 4 \<le> length (emit i)"
  using is_jump_patchable [OF assms(1)] assms(2) by (auto simp: patchable_def)

lemma patch_jumps:
  assumes "fold_opt (patch_jump (int s)) ls g = Some g'"
    and "holds_code (fns g s) (patched_code (fns g s) done) (seg_data g s)" "apart (fns g s)"
    and "\<forall>k<length (fns g s). \<forall>x\<in>set (fd_instruction_to_byte_in_data (fns g s ! k)). 0 \<le> x"
    and "\<forall>k<length (fns g s). length (fd_instruction_to_byte_in_data (fns g s ! k)) = length (fd_instructions (fns g s ! k))"
    and "\<forall>l\<in>set ls. links_jumps (fns g s) l" and "distinct (map jump_key (done @ ls))"
  shows "holds_code (fns g s) (patched_code (fns g s) (done @ ls)) (seg_data g' s) \<and>
    length (seg_data g' s) = length (seg_data g s)"
  using assms
proof (induction ls arbitrary: g "done")
  case (Cons l ls)
  from Cons.prems(1) obtain g1 where p: "patch_jump (int s) l g = Some g1"
    and rest: "fold_opt (patch_jump (int s)) ls g1 = Some g'"
    by (auto simp: bind_eq_Some_conv)
  obtain k j where key: "jump_key l = (k, j)" by (cases "jump_key l")
  let ?f = "fns g s ! k" let ?fs = "fns g s"
  from patch_jump_Some [OF p key refl] obtain off where
    b: "s < length (m_data_by_seg g)" "k < length ?fs" "j < length (fd_instructions ?f)"
    and off: "offset_of_imm (fd_instructions ?f ! j) = Some off"
    and g1: "g1 = g\<lparr>m_data_by_seg := (m_data_by_seg g)[s :=
      patch (nat (fd_instruction_to_byte_in_data ?f ! j + int off))
        (le_bytes 4 (word_of_int (jump_disp ?fs l) :: u32)) (seg_data g s)]\<rparr>"
    by blast
  have same: "fns g1 s = ?fs" by (simp add: g1 fns_def)
  have v: "valid ?fs k j" using b by (simp add: valid_def)
  have "0 \<le> fd_instruction_to_byte_in_data ?f ! j"
    using Cons.prems(4,5) b(2,3) by auto
  then have pos: "nat (fd_instruction_to_byte_in_data ?f ! j + int off) = pos ?fs k j + off"
    by (simp add: pos_def nat_add_distrib)
  obtain mn where "is_jump (fd_instructions ?f ! j) mn"
    using Cons.prems(6) key by (auto simp: links_jumps_def)
  then have fits: "off + length (le_bytes 4 (word_of_int (jump_disp ?fs l) :: u32)) \<le> ilen ?fs k j"
    using jump_imm_in_emit off by (simp add: ilen_def)
  have new: "(k, j) \<notin> jump_key ` set done" using Cons.prems(7) key by auto
  then have "patched_code ?fs done k j = emit (fd_instructions ?f ! j)"
    by (auto simp: patched_code_def find_Some_iff split: option.split) (metis image_eqI nth_mem)
  then have "patched_code ?fs (done @ [l]) = (patched_code ?fs done)
      (k := (patched_code ?fs done k)(j := patch off (le_bytes 4 (word_of_int (jump_disp ?fs l) :: u32))
         (patched_code ?fs done k j)))"
    by (simp add: patched_code_snoc [OF key new] jump_bytes_def key off Let_def)
  moreover have d1: "seg_data g1 s = patch (pos ?fs k j + off)
      (le_bytes 4 (word_of_int (jump_disp ?fs l) :: u32)) (seg_data g s)"
    using b(1) by (simp add: g1 pos seg_data_def)
  ultimately have "holds_code (fns g1 s) (patched_code (fns g1 s) (done @ [l])) (seg_data g1 s)"
    using holds_code_patch [OF Cons.prems(2,3) v fits] by (simp add: same)
  moreover have "length (seg_data g1 s) = length (seg_data g s)"
    using Cons.prems(2) v fits unfolding d1 holds_code_def by (intro length_patch) fastforce
  ultimately show ?case
    using Cons.IH [OF rest, of "done @ [l]"] Cons.prems(3-7) by (simp add: same)
qed simp

section \<open>From the added code to the laid out segment\<close>

lemma layout_functions_seg_Some:
  assumes "layout_functions_seg (int s) g = Some g'"
  shows "\<exists>fs types data. place_functions (int s) (fns g s) (m_type_ptr_links_by_seg g ! s) (seg_data g s)
      = Some (fs, types, data) \<and> s < length (m_function_data_by_seg g) \<and> s < length (m_data_by_seg g) \<and>
    g' = g\<lparr>m_function_data_by_seg := (m_function_data_by_seg g)[s := fs],
           m_type_ptr_links_by_seg := (m_type_ptr_links_by_seg g)[s := types],
           m_data_by_seg := (m_data_by_seg g)[s := data]\<rparr>"
  using assms
  by (auto simp: layout_functions_seg_def bind_eq_Some_conv update_at_def fns_def seg_data_def)

lemma layout_statics_seg_Some:
  assumes "layout_statics_seg (int s) g = Some g'"
  shows "\<exists>ss data. place_statics (m_static_data_by_seg g ! s) (seg_data g s) = Some (ss, data) \<and>
    s < length (m_static_data_by_seg g) \<and> s < length (m_data_by_seg g) \<and>
    g' = g\<lparr>m_static_data_by_seg := (m_static_data_by_seg g)[s := ss],
           m_data_by_seg := (m_data_by_seg g)[s := data]\<rparr>"
  using assms
  by (auto simp: layout_statics_seg_def bind_eq_Some_conv update_at_def seg_data_def)

text \<open>The functions of segment \<open>s\<close> of \<open>g'\<close> are those of \<open>g\<close>, laid out in its data.\<close>

definition laid_out :: "ObjectGenerator \<Rightarrow> ObjectGenerator \<Rightarrow> nat \<Rightarrow> bool" where
  "laid_out g g' s \<longleftrightarrow> fns_at (seg_data g' s) 0 (fns g' s) \<and> list_all2 same_code (fns g s) (fns g' s)"

lemma segs_loop:
  assumes "fold_opt F segs_down g = Some g'"
  obtains g1 g2 where "F (int 2) g = Some g1" "F (int 1) g1 = Some g2" "F (int 0) g2 = Some g'"
  using assms by (auto simp: segs_down_eq bind_eq_Some_conv)

definition seg_shape :: "ObjectGenerator \<Rightarrow> ObjectGenerator \<Rightarrow> bool" where
  "seg_shape g g' \<longleftrightarrow> length (m_data_by_seg g') = length (m_data_by_seg g) \<and>
     length (m_function_data_by_seg g') = length (m_function_data_by_seg g) \<and>
     m_jump_temp_links_by_seg g' = m_jump_temp_links_by_seg g"

lemma layout_functions_seg_step:
  assumes "layout_functions_seg (int s) g = Some g'" "seg_data g s = []"
    and "\<forall>f\<in>set (fns g s). fd_instruction_to_byte_in_data f = []"
  shows "laid_out g g' s" "seg_shape g g'"
    and "\<And>t. t \<noteq> s \<Longrightarrow> fns g' t = fns g t" "\<And>t. t \<noteq> s \<Longrightarrow> seg_data g' t = seg_data g t"
proof -
  from layout_functions_seg_Some [OF assms(1)] obtain fs types data where
    p: "place_functions (int s) (fns g s) (m_type_ptr_links_by_seg g ! s) (seg_data g s) = Some (fs, types, data)"
    and s: "s < length (m_function_data_by_seg g)" "s < length (m_data_by_seg g)"
    and g': "g' = g\<lparr>m_function_data_by_seg := (m_function_data_by_seg g)[s := fs],
           m_type_ptr_links_by_seg := (m_type_ptr_links_by_seg g)[s := types],
           m_data_by_seg := (m_data_by_seg g)[s := data]\<rparr>"
    by blast
  have new: "fns g' s = fs" "seg_data g' s = data" using s by (simp_all add: g' fns_def seg_data_def)
  show "laid_out g g' s"
    using place_functions_Some [OF p assms(3)] assms(2) by (simp add: laid_out_def new)
  show "seg_shape g g'" by (simp add: g' seg_shape_def)
  show "\<And>t. t \<noteq> s \<Longrightarrow> fns g' t = fns g t" "\<And>t. t \<noteq> s \<Longrightarrow> seg_data g' t = seg_data g t"
    by (simp_all add: g' fns_def seg_data_def)
qed

lemma layout_statics_seg_step:
  assumes "layout_statics_seg (int s) g = Some g'"
  shows "\<exists>ext. seg_data g' t = seg_data g t @ ext" "seg_shape g g'" "fns g' t = fns g t"
proof -
  from layout_statics_seg_Some [OF assms] obtain ss data where
    p: "place_statics (m_static_data_by_seg g ! s) (seg_data g s) = Some (ss, data)"
    and s: "s < length (m_data_by_seg g)"
    and g': "g' = g\<lparr>m_static_data_by_seg := (m_static_data_by_seg g)[s := ss],
           m_data_by_seg := (m_data_by_seg g)[s := data]\<rparr>"
    by blast
  from place_statics_Some [OF p] obtain ext where "data = seg_data g s @ ext" by auto
  then show "\<exists>ext. seg_data g' t = seg_data g t @ ext"
    using s by (cases "t = s") (auto simp: g' seg_data_def)
  show "seg_shape g g'" "fns g' t = fns g t" by (simp_all add: g' seg_shape_def fns_def)
qed

lemma gen_inv_fresh:
  assumes "gen_inv g" "s < N_SEG"
  shows "seg_data g s = []" "\<forall>f\<in>set (fns g s). fd_instruction_to_byte_in_data f = []"
  using assms by (auto simp: gen_inv_def seg_data_def empty_segs_def all_fns_def fns_def fn_inv_def)

lemma laid_out_functions:
  assumes "fold_opt layout_functions_seg segs_down g = Some g'" "gen_inv g" "s < N_SEG"
  shows "laid_out g g' s \<and> seg_shape g g'"
proof -
  from assms(1) obtain g1 g2 where
    p: "layout_functions_seg (int 2) g = Some g1" "layout_functions_seg (int 1) g1 = Some g2"
       "layout_functions_seg (int 0) g2 = Some g'" by (rule segs_loop)
  note fresh = gen_inv_fresh [OF assms(2)]
  have N: "0 < N_SEG" "1 < N_SEG" "2 < N_SEG" by (simp_all add: N_SEG_def)
  note a = layout_functions_seg_step [OF p(1) fresh(1) [OF N(3)] fresh(2) [OF N(3)]]
  have f1: "seg_data g1 1 = []" "\<forall>f\<in>set (fns g1 1). fd_instruction_to_byte_in_data f = []"
    using a(3,4) [of 1] fresh(1) [OF N(2)] fresh(2) [OF N(2)] by simp_all
  note b = layout_functions_seg_step [OF p(2) f1]
  have f2: "seg_data g2 0 = []" "\<forall>f\<in>set (fns g2 0). fd_instruction_to_byte_in_data f = []"
    using a(3,4) [of 0] b(3,4) [of 0] fresh(1) [OF N(1)] fresh(2) [OF N(1)] by simp_all
  note c = layout_functions_seg_step [OF p(3) f2]
  show ?thesis
    using N_SEG_cases [OF assms(3)] a b c
    by (elim disjE) (auto simp: laid_out_def seg_shape_def)
qed

lemma laid_out_all:
  assumes "layout_all g = Some g'" "gen_inv g" "s < N_SEG"
  shows "laid_out g g' s \<and> seg_shape g g'"
proof -
  from assms(1) obtain g1 where g1: "fold_opt layout_functions_seg segs_down g = Some g1"
    and g2: "fold_opt layout_statics_seg segs_down g1 = Some g'"
    by (auto simp: layout_all_def bind_eq_Some_conv)
  from g2 have "(\<exists>ext. seg_data g' s = seg_data g1 s @ ext) \<and> seg_shape g1 g' \<and> fns g' s = fns g1 s"
  proof (rule segs_loop)
    fix a b
    assume st: "layout_statics_seg (int 2) g1 = Some a" "layout_statics_seg (int 1) a = Some b"
      "layout_statics_seg (int 0) b = Some g'"
    show ?thesis
      using layout_statics_seg_step(1,3) [OF st(1), of s] layout_statics_seg_step(1,3) [OF st(2), of s]
        layout_statics_seg_step(1,3) [OF st(3), of s] st [THEN layout_statics_seg_step(2)]
      by (auto simp: seg_shape_def)
  qed
  with laid_out_functions [OF g1 assms(2,3)] show ?thesis
    by (auto simp: laid_out_def seg_shape_def fns_at_append)
qed

section \<open>After the links are handled\<close>

definition jump_links :: "ObjectGenerator \<Rightarrow> nat \<Rightarrow> JumpLink list" where
  "jump_links g s = m_jump_temp_links_by_seg g ! s"

text \<open>What is asked of the jump links of a segment: jump instructions, each linked once.\<close>

definition jumps_ok :: "ObjectGenerator \<Rightarrow> nat \<Rightarrow> bool" where
  "jumps_ok g s \<longleftrightarrow> distinct (map jump_key (jump_links g s)) \<and>
     (\<forall>l\<in>set (jump_links g s). links_jumps (fns g s) l)"

lemma handle_jumps_Some:
  assumes "handle_temp_jump_links (int s) g = Some g'"
  shows "fold_opt (patch_jump (int s)) (jump_links g s) g = Some g'"
    and "same_layout g g'" and "\<And>t. t \<noteq> s \<Longrightarrow> seg_data g' t = seg_data g t"
proof -
  show f: "fold_opt (patch_jump (int s)) (jump_links g s) g = Some g'"
    using assms by (auto simp: handle_temp_jump_links_def bind_eq_Some_conv jump_links_def)
  from f show "same_layout g g'"
    by (rule fold_opt_invariant [where P = "same_layout g"])
      (auto dest!: patch_jump_same intro: same_layout_trans)
  show "seg_data g' t = seg_data g t" if "t \<noteq> s" for t
    using f by (rule fold_opt_frame [where g = "\<lambda>g. seg_data g t"]) (rule patch_jump_other [OF _ that])
qed

lemma patch_jumps_bounds:
  "fold_opt (patch_jump (int s)) ls g = Some g' \<Longrightarrow> \<forall>l\<in>set ls. link_bounds (fns g s) l"
proof (induction ls arbitrary: g)
  case (Cons l ls)
  then obtain g1 where p: "patch_jump (int s) l g = Some g1" "fold_opt (patch_jump (int s)) ls g1 = Some g'"
    by (auto simp: bind_eq_Some_conv)
  have "fns g1 s = fns g s" using patch_jump_same [OF p(1)] by (simp add: same_layout_def fns_def)
  with Cons.IH [OF p(2)] patch_jump_bounds [OF p(1)] show ?case by simp
qed simp

lemma handle_links_seg_Some:
  assumes "handle_links_seg (int s) g = Some g'"
  shows "\<exists>g1 g2. same_code_data g g1 \<and> handle_temp_jump_links (int s) g1 = Some g2 \<and> same_code_data g2 g'"
  using assms
  by (auto simp: handle_links_seg_def bind_eq_Some_conv)
    (metis handle_static_type_same handle_static_sym_same handle_instr_sym_same handle_rip_func_same
      handle_rip_data_same handle_static_ptr_same same_code_data_trans)

lemma same_code_data_seg: "same_code_data g g' \<Longrightarrow> seg_data g' t = seg_data g t \<and> fns g' t = fns g t
    \<and> jump_links g' t = jump_links g t \<and> same_layout g g'"
  by (simp add: same_code_data_def same_layout_def seg_data_def fns_def jump_links_def)

lemma same_layout_seg: "same_layout g g' \<Longrightarrow> fns g' t = fns g t \<and> jump_links g' t = jump_links g t"
  by (simp add: same_layout_def fns_def jump_links_def)

definition laid_nonneg :: "FunctionData list \<Rightarrow> bool" where
  "laid_nonneg fs \<longleftrightarrow> (\<forall>k<length fs. (\<forall>x\<in>set (fd_instruction_to_byte_in_data (fs ! k)). 0 \<le> x) \<and>
     length (fd_instruction_to_byte_in_data (fs ! k)) = length (fd_instructions (fs ! k)))"

lemma fns_at_nonneg:
  assumes "fns_at data start fs"
  shows "laid_nonneg fs"
  unfolding laid_nonneg_def
proof (intro allI impI)
  fix k assume "k < length fs"
  from fns_at_nth [OF assms this] obtain s where "fn_at data s (fs ! k)" by blast
  then show "(\<forall>x\<in>set (fd_instruction_to_byte_in_data (fs ! k)). 0 \<le> x) \<and>
      length (fd_instruction_to_byte_in_data (fs ! k)) = length (fd_instructions (fs ! k))"
    by (auto simp: fn_at_def)
qed

lemma handle_links_seg_step:
  assumes "handle_links_seg (int s) g = Some g'"
  shows "same_layout g g'" "\<And>t. t \<noteq> s \<Longrightarrow> seg_data g' t = seg_data g t"
    and "fns_at (seg_data g s) 0 (fns g s) \<Longrightarrow> jumps_ok g s \<Longrightarrow>
      holds_code (fns g s) (patched_code (fns g s) (jump_links g s)) (seg_data g' s) \<and>
      length (seg_data g' s) = length (seg_data g s)"
    and "\<forall>l\<in>set (jump_links g s). link_bounds (fns g s) l"
proof -
  from handle_links_seg_Some [OF assms] obtain g1 g2 where
    a: "same_code_data g g1" and p: "handle_temp_jump_links (int s) g1 = Some g2"
    and b: "same_code_data g2 g'" by blast
  note a' = same_code_data_seg [OF a] and b' = same_code_data_seg [OF b] and j = handle_jumps_Some [OF p]
  show "same_layout g g'" using a' b' j(2) same_layout_trans by blast
  show "seg_data g' t = seg_data g t" if "t \<noteq> s" for t using a' b' j(3) [OF that] by simp
  show "\<forall>l\<in>set (jump_links g s). link_bounds (fns g s) l"
    using patch_jumps_bounds [OF j(1)] a' by simp
  assume at: "fns_at (seg_data g s) 0 (fns g s)" and ok: "jumps_ok g s"
  have "holds_code (fns g s) (patched_code (fns g s) []) (seg_data g s)"
    using fns_at_slices [OF at] by (simp add: holds_code_def patched_code_def)
  then have "holds_code (fns g1 s) (patched_code (fns g1 s) ([] @ jump_links g1 s)) (seg_data g2 s) \<and>
      length (seg_data g2 s) = length (seg_data g1 s)"
    using patch_jumps [OF j(1), of "[]"] fns_at_apart [OF at] fns_at_nonneg [OF at] ok a'
    by (simp add: laid_nonneg_def jumps_ok_def)
  then show "holds_code (fns g s) (patched_code (fns g s) (jump_links g s)) (seg_data g' s) \<and>
      length (seg_data g' s) = length (seg_data g s)"
    using a' b' by simp
qed

lemma same_layout_jumps_ok: "same_layout g g' \<Longrightarrow> jumps_ok g' s = jumps_ok g s"
  by (simp add: jumps_ok_def same_layout_seg)

lemma handled_all:
  assumes "fold_opt handle_links_seg segs_down g = Some g'" "s < N_SEG"
    and "fns_at (seg_data g s) 0 (fns g s)" "jumps_ok g s"
  shows "same_layout g g' \<and> length (seg_data g' s) = length (seg_data g s) \<and>
    (\<forall>l\<in>set (jump_links g s). link_bounds (fns g s) l) \<and>
    holds_code (fns g s) (patched_code (fns g s) (jump_links g s)) (seg_data g' s)"
proof -
  from assms(1) obtain g1 g2 where
    p: "handle_links_seg (int 2) g = Some g1" "handle_links_seg (int 1) g1 = Some g2"
       "handle_links_seg (int 0) g2 = Some g'" by (rule segs_loop)
  note a = handle_links_seg_step [OF p(1)] and b = handle_links_seg_step [OF p(2)]
    and c = handle_links_seg_step [OF p(3)]
  have l: "same_layout g g'" "same_layout g g1" "same_layout g g2"
    using a(1) b(1) c(1) same_layout_trans by blast+
  note e = l [THEN same_layout_seg] and ok = l [THEN same_layout_jumps_ok]
  from N_SEG_cases [OF assms(2)] show ?thesis
  proof (elim disjE)
    assume s: "s = 2"
    with a(3,4) assms(3,4) b(2) [of 2] c(2) [of 2] l(1) show ?thesis by simp
  next
    assume s: "s = 1"
    have "seg_data g1 1 = seg_data g 1" using a(2) by simp
    with b(3,4) assms(3,4) c(2) [of 1] l(1) e ok s show ?thesis by simp
  next
    assume s: "s = 0"
    have "seg_data g2 0 = seg_data g 0" using a(2) [of 0] b(2) [of 0] by simp
    with c(3,4) assms(3,4) l(1) e ok s show ?thesis by simp
  qed
qed

section \<open>Link tables and debug info\<close>

lemma emit_link_table_same: "emit_link_table mc seg g = Some g' \<Longrightarrow> same_code_data g g'"
  by (auto simp: emit_link_table_def bind_eq_Some_conv same_code_data_def same_layout_def)

definition same_place :: "FunctionData \<Rightarrow> FunctionData \<Rightarrow> bool" where
  "same_place f f' \<longleftrightarrow> same_code f f' \<and>
     fd_instruction_to_byte_in_data f' = fd_instruction_to_byte_in_data f"

lemma same_place_list_refl [simp]: "list_all2 same_place fs fs"
  by (simp add: list_all2_refl same_place_def)

lemma same_place_trans: "list_all2 same_place a b \<Longrightarrow> list_all2 same_place b c \<Longrightarrow> list_all2 same_place a c"
  by (erule (1) list_all2_trans [rotated]) (simp add: same_place_def same_code_def)

lemma collect_codes_same: "collect_codes data fs = Some fs' \<Longrightarrow> list_all2 same_place fs fs'"
proof (induction fs arbitrary: fs')
  case (Cons f fs)
  then show ?case
    by (auto simp: collect_code_def bind_eq_Some_conv same_place_def same_code_def)
qed simp

definition same_places :: "ObjectGenerator \<Rightarrow> ObjectGenerator \<Rightarrow> bool" where
  "same_places g g' \<longleftrightarrow> m_data_by_seg g' = m_data_by_seg g \<and>
     m_link_by_seg g' = m_link_by_seg g \<and>
     (\<forall>t. list_all2 same_place (fns g t) (fns g' t))"

lemma collect_seg_same: "collect_seg seg g = Some g' \<Longrightarrow> same_places g g'"
proof -
  assume a: "collect_seg seg g = Some g'"
  then obtain fs where c: "collect_codes (m_data_by_seg g ! nat seg) (m_function_data_by_seg g ! nat seg) = Some fs"
    and s: "nat seg < length (m_function_data_by_seg g)"
    and g': "g' = g\<lparr>m_function_data_by_seg := (m_function_data_by_seg g)[nat seg := fs]\<rparr>"
    by (auto simp: collect_seg_def bind_eq_Some_conv update_at_def)
  have "list_all2 same_place (fns g t) (fns g' t)" for t
    using collect_codes_same [OF c] s by (cases "t = nat seg") (simp_all add: g' fns_def)
  then show ?thesis by (simp add: same_places_def g')
qed

lemma same_places_refl [simp]: "same_places g g"
  by (simp add: same_places_def)

lemma same_places_trans: "same_places a b \<Longrightarrow> same_places b c \<Longrightarrow> same_places a c"
  unfolding same_places_def using same_place_trans by metis

lemma collect_all_same:
  assumes "fold_opt collect_seg ss g = Some g'"
  shows "same_places g g'"
  using assms
  by (rule fold_opt_invariant [where P = "same_places g"])
    (auto dest: collect_seg_same intro: same_places_trans)

lemma generate_steps:
  assumes "generate_data_v3 mc g = Some (out, g')"
  obtains g1 g2 g3 g4 where "layout_all g = Some g1" "fold_opt handle_links_seg segs_down g1 = Some g2"
    "fold_opt (emit_link_table mc) segs_down g2 = Some g3" "same_code_data g2 g3"
    "same_places g3 g4" "of_segment_data out = m_data_by_seg g4" "of_link_tables out = m_link_by_seg g4"
    "of_header out = generate_header_v3 g4" "m_function_data_by_seg g' = m_function_data_by_seg g4"
proof -
  obtain g1 g2 g3 g4 where *: "layout_all g = Some g1" "fold_opt handle_links_seg segs_down g1 = Some g2"
    "fold_opt (emit_link_table mc) segs_down g2 = Some g3" "fold_opt collect_seg (rev segs_down) g3 = Some g4"
    "out = \<lparr>of_segment_data = m_data_by_seg g4, of_link_tables = m_link_by_seg g4,
            of_header = generate_header_v3 g4\<rparr>"
    "g' = g4\<lparr>m_data_by_seg := empty_segs, m_link_by_seg := empty_segs\<rparr>"
    using assms unfolding generate_data_v3_def bind_eq_Some_conv by blast
  show ?thesis
    using that [OF *(1-3) fold_opt_same [OF *(3) emit_link_table_same] collect_all_same [OF *(4)]] *(5,6)
    by simp
qed

text \<open>Nothing the layout lemmas speak of depends on the debug info.\<close>

lemma same_place_nth:
  assumes "list_all2 same_place fs fs'" "k < length fs"
  shows "fd_instructions (fs' ! k) = fd_instructions (fs ! k)"
    "fd_ir_to_instruction (fs' ! k) = fd_ir_to_instruction (fs ! k)"
    "fd_instruction_to_byte_in_data (fs' ! k) = fd_instruction_to_byte_in_data (fs ! k)"
  using list_all2_nthD [OF assms] by (simp_all add: same_place_def same_code_def)

lemma same_place_valid:
  assumes "list_all2 same_place fs fs'"
  shows "valid fs' k j = valid fs k j"
  using list_all2_lengthD [OF assms] by (auto simp: valid_def same_place_nth [OF assms])

lemma same_place_eqs:
  assumes "list_all2 same_place fs fs'" "valid fs k j"
  shows "pos fs' k j = pos fs k j" "ilen fs' k j = ilen fs k j" "slice data fs' k j = slice data fs k j"
  using assms by (simp_all add: valid_def pos_def ilen_def slice_def same_place_nth)

lemma same_place_jump_bytes:
  assumes "list_all2 same_place fs fs'" "valid fs (fst (jump_key l)) (snd (jump_key l))"
  shows "jump_bytes fs' l = jump_bytes fs l" "jump_disp fs' l = jump_disp fs l"
  using assms by (simp_all add: jump_bytes_def jump_disp_def valid_def same_place_nth Let_def)

lemma same_place_patched_code:
  assumes "list_all2 same_place fs fs'" "\<forall>l\<in>set ls. links_jumps fs l" "valid fs k j"
  shows "patched_code fs' ls k j = patched_code fs ls k j"
proof (cases "find (\<lambda>l. jump_key l = (k, j)) ls")
  case None
  then show ?thesis using assms(1,3) by (simp add: patched_code_def valid_def same_place_nth)
next
  case (Some l)
  then have "jump_key l = (k, j)" by (auto simp: find_Some_iff)
  then show ?thesis using Some assms(3) same_place_jump_bytes [OF assms(1), of l] by (simp add: patched_code_def)
qed

lemma same_place_layout:
  assumes "list_all2 same_place fs fs'"
  shows "laid_nonneg fs \<Longrightarrow> laid_nonneg fs'" "apart fs \<Longrightarrow> apart fs'"
    and "holds_code fs B data \<Longrightarrow> (\<And>k j. valid fs k j \<Longrightarrow> B' k j = B k j) \<Longrightarrow> holds_code fs' B' data"
  using list_all2_lengthD [OF assms]
  by (auto simp: laid_nonneg_def apart_def holds_code_def same_place_valid [OF assms]
      same_place_eqs [OF assms] same_place_nth [OF assms])

lemma jumps_ok_same_code:
  assumes "list_all2 same_code (fns g s) (fns g' s)" "jump_links g' s = jump_links g s" "jumps_ok g s"
  shows "jumps_ok g' s"
  using assms list_all2_lengthD [OF assms(1)] list_all2_nthD [OF assms(1)]
  unfolding jumps_ok_def links_jumps_def valid_def same_code_def by auto

text \<open>The finished segment, for a generator in any state its public functions lead to.\<close>

lemma generated_code:
  assumes "generate_data_v3 mc g = Some (out, g')" "gen_inv g" "s < N_SEG" "jumps_ok g s"
  shows "list_all2 same_code (fns g s) (fns g' s)"
    and "laid_nonneg (fns g' s)" and "apart (fns g' s)"
    and "holds_code (fns g' s) (patched_code (fns g' s) (jump_links g s)) (of_segment_data out ! s)"
    and "valid (fns g' s) k (Suc j) \<Longrightarrow> pos (fns g' s) k (Suc j) = pos (fns g' s) k j + ilen (fns g' s) k j"
    and "\<forall>l\<in>set (jump_links g s). links_jumps (fns g' s) l \<and> link_bounds (fns g' s) l"
proof -
  obtain g1 g2 g3 g4 where
    l: "layout_all g = Some g1" and h: "fold_opt handle_links_seg segs_down g1 = Some g2"
    and t: "same_code_data g2 g3" "same_places g3 g4"
    and out: "of_segment_data out = m_data_by_seg g4" "m_function_data_by_seg g' = m_function_data_by_seg g4"
    using assms(1) by (rule generate_steps)
  from laid_out_all [OF l assms(2,3)] have at: "fns_at (seg_data g1 s) 0 (fns g1 s)"
    and sc: "list_all2 same_code (fns g s) (fns g1 s)" and sh: "seg_shape g g1"
    by (auto simp: laid_out_def)
  have j1: "jump_links g1 s = jump_links g s" using sh by (simp add: seg_shape_def jump_links_def)
  have ok: "jumps_ok g1 s" using jumps_ok_same_code [OF sc j1 assms(4)] .
  note H = handled_all [OF h assms(3) at ok]
  have f3: "fns g3 s = fns g1 s" "seg_data g3 s = seg_data g2 s"
    using same_code_data_seg [OF t(1), of s] same_layout_seg [of g1 g2 s] H by simp_all
  have "list_all2 same_place (fns g3 s) (fns g4 s)" "fns g' s = fns g4 s"
    using t(2) out(2) by (simp_all add: same_places_def, simp add: fns_def)
  then have sp: "list_all2 same_place (fns g1 s) (fns g' s)" by (simp add: f3)
  have d: "of_segment_data out ! s = seg_data g2 s"
    using t(2) f3(2) out(1) by (simp add: same_places_def seg_data_def)
  show sc': "list_all2 same_code (fns g s) (fns g' s)"
    using sc sp by (rule list_all2_trans [rotated]) (simp add: same_place_def same_code_def)
  show "laid_nonneg (fns g' s)" "apart (fns g' s)"
    using same_place_layout(1,2) [OF sp] fns_at_nonneg [OF at] fns_at_apart [OF at] by blast+
  have links: "\<forall>l\<in>set (jump_links g s). links_jumps (fns g1 s) l"
    using ok j1 by (simp add: jumps_ok_def)
  have H': "holds_code (fns g1 s) (patched_code (fns g1 s) (jump_links g s)) (seg_data g2 s)"
    using H j1 by simp
  show "holds_code (fns g' s) (patched_code (fns g' s) (jump_links g s)) (of_segment_data out ! s)"
    unfolding d using sp H' by (rule same_place_layout(3)) (rule same_place_patched_code [OF sp links])
  have "\<forall>l\<in>set (jump_links g s). link_bounds (fns g1 s) l" using H j1 by simp
  with links show "\<forall>l\<in>set (jump_links g s). links_jumps (fns g' s) l \<and> link_bounds (fns g' s) l"
    using same_place_valid [OF sp] same_place_nth [OF sp] list_all2_lengthD [OF sp]
    by (auto simp: links_jumps_def link_bounds_def valid_def Let_def)
  show "pos (fns g' s) k (Suc j) = pos (fns g' s) k j + ilen (fns g' s) k j" if "valid (fns g' s) k (Suc j)"
  proof -
    have "valid (fns g1 s) k (Suc j)" "valid (fns g1 s) k j"
      using that same_place_valid [OF sp] by (auto simp: valid_def)
    then show ?thesis
      using pos_next [OF at] by (simp add: same_place_eqs [OF sp])
  qed
qed

section \<open>Every jump reaches its destination\<close>

lemma find_key:
  "distinct (map jump_key ls) \<Longrightarrow> l \<in> set ls \<Longrightarrow> find (\<lambda>x. jump_key x = jump_key l) ls = Some l"
  by (induction ls) auto

lemma drop_slice:
  "pos fs k j + ilen fs k j \<le> length data \<Longrightarrow>
   drop (pos fs k j) data = slice data fs k j @ drop (pos fs k j + ilen fs k j) data"
  unfolding slice_def by (metis append_take_drop_id add.commute drop_drop)

definition link_fn :: "FunctionData list \<Rightarrow> JumpLink \<Rightarrow> FunctionData" where
  "link_fn fs l = fs ! fst (jump_key l)"

definition link_instr :: "FunctionData list \<Rightarrow> JumpLink \<Rightarrow> Instruction" where
  "link_instr fs l = fd_instructions (link_fn fs l) ! snd (jump_key l)"

definition link_rip :: "FunctionData list \<Rightarrow> JumpLink \<Rightarrow> int" where
  "link_rip fs l = fd_instruction_to_byte_in_data (link_fn fs l) ! snd (jump_key l)"

definition link_next_rip :: "FunctionData list \<Rightarrow> JumpLink \<Rightarrow> int" where
  "link_next_rip fs l = fd_instruction_to_byte_in_data (link_fn fs l) ! Suc (snd (jump_key l))"

definition link_dest_rip :: "FunctionData list \<Rightarrow> JumpLink \<Rightarrow> int" where
  "link_dest_rip fs l = fd_instruction_to_byte_in_data (link_fn fs l) !
     nat (fd_ir_to_instruction (link_fn fs l) ! nat (ir_ir_id (jl_dest l)))"

end
