(* ===== verification/Link_Format.thy ===== *)
theory Link_Format
  imports Obj_Generate
begin

text \<open>
  The link table as a language: the entries a table holds, a parser for it that knows nothing of
  the generator, and the round trip: what \<^verbatim>\<open>emit_link_table\<close> writes parses to the links it was
  given. The runtime linker reads the same language from memory.
\<close>

section \<open>Entries and parser\<close>

datatype LinkEntry =
  SymbolEntry string "u32 list"          \<comment> \<open>name, places to patch\<close>
| TypeEntry string u8 "u32 list"         \<comment> \<open>name, method count, places to patch\<close>
| Dist32Entry u8 u32 u32 u32             \<comment> \<open>target segment, offset in mine, offset in target, patch\<close>
| Dist64Entry u8 u32 u32 u32
| PtrEntry u32 u32                       \<comment> \<open>patch, value\<close>

fun read_cstr :: "nat \<Rightarrow> u8 list \<Rightarrow> (string \<times> u8 list) option" where
  "read_cstr n [] = None"
| "read_cstr n (b # bs) =
    (if b = 0 then Some ([], bs)
     else if n = 0 then None
     else do { (s, bs) \<leftarrow> read_cstr (n - 1) bs; Some (char_of (unat b) # s, bs) })"

definition read_u8 :: "u8 list \<Rightarrow> (u8 \<times> u8 list) option" where
  "read_u8 bs = (case bs of [] \<Rightarrow> None | b # bs \<Rightarrow> Some (b, bs))"

definition read_u32 :: "u8 list \<Rightarrow> (u32 \<times> u8 list) option" where
  "read_u32 bs = (if 4 \<le> length bs then Some (le_word (take 4 bs), drop 4 bs) else None)"

fun read_u32s :: "nat \<Rightarrow> u8 list \<Rightarrow> (u32 list \<times> u8 list) option" where
  "read_u32s 0 bs = Some ([], bs)"
| "read_u32s (Suc n) bs = do {
     (x, bs) \<leftarrow> read_u32 bs;
     (xs, bs) \<leftarrow> read_u32s n bs;
     Some (x # xs, bs)
   }"

text \<open>A name is at most 255 bytes, the buffer of the reader less its terminator.\<close>

definition parse_entry :: "u8 \<Rightarrow> u8 list \<Rightarrow> (LinkEntry \<times> u8 list) option" where
  "parse_entry kind bs =
    (if kind = LINK_SYMBOL_OFFSET then do {
       (name, bs) \<leftarrow> read_cstr 255 bs;
       (n, bs) \<leftarrow> read_u32 bs;
       (xs, bs) \<leftarrow> read_u32s (unat n) bs;
       Some (SymbolEntry name xs, bs)
     }
     else if kind = LINK_TYPE_PTR then do {
       (name, bs) \<leftarrow> read_cstr 255 bs;
       (methods, bs) \<leftarrow> read_u8 bs;
       (n, bs) \<leftarrow> read_u32 bs;
       (xs, bs) \<leftarrow> read_u32s (unat n) bs;
       Some (TypeEntry name methods xs, bs)
     }
     else if kind = LINK_DISTANCE_TO_OTHER_SEG_32 \<or> kind = LINK_DISTANCE_TO_OTHER_SEG_64 then do {
       (seg, bs) \<leftarrow> read_u8 bs;
       (mine, bs) \<leftarrow> read_u32 bs;
       (tgt, bs) \<leftarrow> read_u32 bs;
       (p, bs) \<leftarrow> read_u32 bs;
       Some (if kind = LINK_DISTANCE_TO_OTHER_SEG_32 then Dist32Entry seg mine tgt p
             else Dist64Entry seg mine tgt p, bs)
     }
     else if kind = LINK_PTR then do {
       (p, bs) \<leftarrow> read_u32 bs;
       (v, bs) \<leftarrow> read_u32 bs;
       Some (PtrEntry p v, bs)
     }
     else None)"

lemma read_cstr_shorter: "read_cstr n bs = Some (s, bs') \<Longrightarrow> length bs' < length bs"
  by (induction n bs arbitrary: s bs' rule: read_cstr.induct)
    (auto simp: bind_eq_Some_conv split: if_splits)

lemma read_u8_shorter: "read_u8 bs = Some (x, bs') \<Longrightarrow> length bs' < length bs"
  by (auto simp: read_u8_def split: list.splits)

lemma read_u32_shorter: "read_u32 bs = Some (x, bs') \<Longrightarrow> length bs' < length bs"
  by (auto simp: read_u32_def split: if_splits)

lemma read_u32s_shorter: "read_u32s n bs = Some (xs, bs') \<Longrightarrow> length bs' \<le> length bs"
  by (induction n bs arbitrary: xs bs' rule: read_u32s.induct)
    (fastforce simp: bind_eq_Some_conv dest: read_u32_shorter)+

lemma parse_entry_shorter: "parse_entry k bs = Some (e, bs') \<Longrightarrow> length bs' < length bs"
  by (auto simp: parse_entry_def bind_eq_Some_conv split: if_splits
      dest!: read_cstr_shorter read_u8_shorter read_u32_shorter read_u32s_shorter)

function parse_table :: "u8 list \<Rightarrow> (LinkEntry list \<times> u8 list) option" where
  "parse_table bs =
    (case bs of
       [] \<Rightarrow> None
     | kind # bs \<Rightarrow>
         if kind = LINK_TABLE_END then Some ([], bs)
         else (case parse_entry kind bs of
             None \<Rightarrow> None
           | Some (e, bs) \<Rightarrow> do { (es, bs) \<leftarrow> parse_table bs; Some (e # es, bs) }))"
  by pat_completeness auto
termination
  by (relation "measure length") (auto dest: parse_entry_shorter)

declare parse_table.simps [simp del]

lemma parse_table_end [simp]: "parse_table (LINK_TABLE_END # bs) = Some ([], bs)"
  by (simp add: parse_table.simps)

lemma parse_table_entry:
  "kind \<noteq> LINK_TABLE_END \<Longrightarrow> parse_entry kind bs = Some (e, bs') \<Longrightarrow>
   parse_table (kind # bs) = do { (es, r) \<leftarrow> parse_table bs'; Some (e # es, r) }"
  by (simp add: parse_table.simps)

section \<open>What was written is read\<close>

definition name_ok :: "string \<Rightarrow> bool" where
  "name_ok s \<longleftrightarrow> length s < 256 \<and> (\<forall>c\<in>set s. of_char c \<noteq> (0 :: nat))"

lemma of_char_eq_0_u8: "(of_char c :: u8) = 0 \<longleftrightarrow> of_char c = (0 :: nat)"
  by (simp add: word_unat_eq_iff)

lemma read_cstr_push:
  "length s \<le> n \<Longrightarrow> \<forall>c\<in>set s. of_char c \<noteq> (0 :: nat) \<Longrightarrow> read_cstr n (push_cstr s @ bs) = Some (s, bs)"
  by (induction s arbitrary: n) (simp_all add: push_cstr_def of_char_eq_0_u8)

lemma read_u32_push [simp]: "read_u32 (push_u32 x @ bs) = Some (word_of_int x, bs)"
  by (simp add: read_u32_def push_u32_def)

lemma read_u32s_push:
  "read_u32s (length xs) (concat (map push_u32 xs) @ bs) = Some (map word_of_int xs, bs)"
  by (induction xs) simp_all

section \<open>The round trip\<close>

text \<open>The entries each list of links becomes, in the order they are written.\<close>

definition sym_entries :: "int smap \<Rightarrow> LinkEntry list" where
  "sym_entries m = map (\<lambda>(name, offs). SymbolEntry name (map word_of_int offs)) m"

definition type_entries :: "(string \<Rightarrow> int option) \<Rightarrow> int smap \<Rightarrow> LinkEntry list" where
  "type_entries mc m = map (\<lambda>(name, offs). TypeEntry name (word_of_int (the (mc name))) (map word_of_int offs))
     (filter (\<lambda>(name, offs). offs \<noteq> []) m)"

definition rip_entry :: "ObjectGenerator \<Rightarrow> RipLink \<Rightarrow> LinkEntry" where
  "rip_entry g l = (let f = fns g (nat (in_seg (rl_instr l))) ! nat (in_func_id (rl_instr l));
       j = nat (in_instr_id (rl_instr l));
       loc = (\<lambda>j. fd_instruction_to_byte_in_data f ! j)
     in Dist32Entry (word_of_int (rl_target_segment l)) (word_of_int (loc (Suc j)))
          (word_of_int (rl_offset_in_segment l))
          (word_of_int (loc j + int (the (offset_of_disp (fd_instructions f ! j))))))"

definition ptr_entry :: "PointerLink \<Rightarrow> LinkEntry" where
  "ptr_entry l = PtrEntry (word_of_int (pl_source l)) (word_of_int (pl_dest l))"

definition link_entries :: "(string \<Rightarrow> int option) \<Rightarrow> ObjectGenerator \<Rightarrow> nat \<Rightarrow> LinkEntry list" where
  "link_entries mc g s = sym_entries (m_sym_links_by_seg g ! s)
     @ type_entries mc (m_type_ptr_links_by_seg g ! s)
     @ map (rip_entry g) (m_rip_links_by_seg g ! s)
     @ map ptr_entry (m_pointer_links_by_seg g ! s)"

definition names_ok :: "int smap \<Rightarrow> bool" where
  "names_ok m \<longleftrightarrow> (\<forall>(name, offs)\<in>set m. name_ok name \<and> length offs < 2 ^ 32)"

text \<open>A block of bytes that reads as the entries \<open>es\<close>, whatever follows it.\<close>

definition reads_as :: "u8 list \<Rightarrow> LinkEntry list \<Rightarrow> bool" where
  "reads_as bs es \<longleftrightarrow> (\<forall>rest. parse_table (bs @ rest) =
     do { (es', r) \<leftarrow> parse_table rest; Some (es @ es', r) })"

lemma reads_as_Nil [simp]: "reads_as [] []"
  by (simp add: reads_as_def)

lemma reads_as_append: "reads_as a x \<Longrightarrow> reads_as b y \<Longrightarrow> reads_as (a @ b) (x @ y)"
  by (simp add: reads_as_def bind_assoc case_prod_unfold)

lemma reads_as_entry:
  assumes "kind \<noteq> LINK_TABLE_END" "\<And>rest. parse_entry kind (bs @ rest) = Some (e, rest)"
  shows "reads_as (kind # bs) [e]"
  using assms by (simp add: reads_as_def parse_table_entry)

lemma reads_as_end: "reads_as bs es \<Longrightarrow> parse_table (bs @ [LINK_TABLE_END]) = Some (es, [])"
  by (simp add: reads_as_def)

lemmas link_kinds = LINK_TABLE_END_def LINK_SYMBOL_OFFSET_def LINK_TYPE_PTR_def LINK_PTR_def
  LINK_DISTANCE_TO_OTHER_SEG_64_def LINK_DISTANCE_TO_OTHER_SEG_32_def

lemma nat_word_u32: "n < 2 ^ 32 \<Longrightarrow> unat (word_of_int (int n) :: u32) = n"
  by (simp add: unat_of_nat take_bit_nat_eq_self)

lemma symbols_read:
  "names_ok m \<Longrightarrow> reads_as (emit_link_symbol m) (sym_entries m)"
proof (induction m)
  case (Cons x m)
  obtain name offs where x: "x = (name, offs)" by (cases x)
  with Cons.prems have n: "length name \<le> 255" "\<forall>c\<in>set name. of_char c \<noteq> (0 :: nat)"
    and l: "length offs < 2 ^ 32" and m: "names_ok m"
    by (auto simp: names_ok_def name_ok_def)
  have "reads_as (LINK_SYMBOL_OFFSET # push_cstr name @ push_u32 (int (length offs)) @ concat (map push_u32 offs))
      [SymbolEntry name (map word_of_int offs)]"
    using read_cstr_push [OF n] nat_word_u32 [OF l] read_u32s_push [of offs]
    by (intro reads_as_entry) (simp_all add: parse_entry_def link_kinds)
  from reads_as_append [OF this Cons.IH [OF m]] show ?case
    by (simp add: x emit_link_symbol_def sym_entries_def)
qed (simp add: emit_link_symbol_def sym_entries_def)

lemma types_read:
  "names_ok m \<Longrightarrow> emit_link_type_pointer mc m = Some bs \<Longrightarrow> reads_as bs (type_entries mc m)"
proof (induction mc m arbitrary: bs rule: emit_link_type_pointer.induct)
  case (2 mc name offs m)
  then have n: "length name \<le> 255" "\<forall>c\<in>set name. of_char c \<noteq> (0 :: nat)"
    and l: "length offs < 2 ^ 32" and m: "names_ok m"
    by (auto simp: names_ok_def name_ok_def)
  show ?case
  proof (cases "offs = []")
    case True
    with 2 m show ?thesis by (simp add: type_entries_def)
  next
    case False
    with 2(4) obtain k bs1 where k: "mc name = Some k" and b: "emit_link_type_pointer mc m = Some bs1"
      and bs: "bs = (LINK_TYPE_PTR # push_cstr name @ [word_of_int k] @ push_u32 (int (length offs))
         @ concat (map push_u32 offs)) @ bs1"
      by (auto simp: bind_eq_Some_conv)
    have "reads_as (LINK_TYPE_PTR # push_cstr name @ [word_of_int k] @ push_u32 (int (length offs))
         @ concat (map push_u32 offs)) [TypeEntry name (word_of_int k) (map word_of_int offs)]"
      using read_cstr_push [OF n] nat_word_u32 [OF l] read_u32s_push [of offs]
      by (intro reads_as_entry) (simp_all add: parse_entry_def link_kinds read_u8_def)
    from reads_as_append [OF this 2(2) [OF False k m b]] show ?thesis
      using False by (simp add: bs type_entries_def k)
  qed
qed (simp add: type_entries_def)

lemma ptrs_read: "emit_link_ptr ls = Some bs \<Longrightarrow> reads_as bs (map ptr_entry ls)"
proof (induction ls arbitrary: bs)
  case (Cons l ls)
  then obtain bs1 where b: "emit_link_ptr ls = Some bs1"
    and bs: "bs = (LINK_PTR # push_u32 (pl_source l) @ push_u32 (pl_dest l)) @ bs1"
    by (auto simp: bind_eq_Some_conv)
  have "reads_as (LINK_PTR # push_u32 (pl_source l) @ push_u32 (pl_dest l)) [ptr_entry l]"
    by (intro reads_as_entry) (simp_all add: parse_entry_def link_kinds ptr_entry_def)
  from reads_as_append [OF this Cons.IH [OF b]] show ?case by (simp add: bs)
qed simp

lemma rips_read: "emit_link_rip g ls = Some bs \<Longrightarrow> reads_as bs (map (rip_entry g) ls)"
proof (induction ls arbitrary: bs)
  case (Cons l ls)
  let ?f = "fns g (nat (in_seg (rl_instr l))) ! nat (in_func_id (rl_instr l))"
  let ?j = "nat (in_instr_id (rl_instr l))"
  let ?loc = "\<lambda>j. fd_instruction_to_byte_in_data ?f ! j"
  let ?e = "LINK_DISTANCE_TO_OTHER_SEG_32 # [word_of_int (rl_target_segment l)] @ push_u32 (?loc (Suc ?j))
       @ push_u32 (rl_offset_in_segment l)
       @ push_u32 (?loc ?j + int (the (offset_of_disp (fd_instructions ?f ! ?j))))"
  obtain bs1 where b: "emit_link_rip g ls = Some bs1" and bs: "bs = ?e @ bs1"
    using Cons.prems
    by (auto simp: bind_eq_Some_conv get_function_Some fns_def nat_add_distrib)
  have "reads_as ?e [rip_entry g l]"
    by (intro reads_as_entry) (simp_all add: parse_entry_def link_kinds rip_entry_def read_u8_def Let_def)
  from reads_as_append [OF this Cons.IH [OF b]] show ?case by (simp add: bs)
qed simp

lemma emit_link_table_reads:
  assumes "emit_link_table mc (int s) g = Some g'" "m_link_by_seg g ! s = []"
    and "names_ok (m_sym_links_by_seg g ! s)" "names_ok (m_type_ptr_links_by_seg g ! s)"
  shows "parse_table (m_link_by_seg g' ! s) = Some (link_entries mc g s, [])"
proof -
  let ?syms = "m_sym_links_by_seg g ! s" let ?types = "m_type_ptr_links_by_seg g ! s"
  obtain type_bytes rip_bytes ptr_bytes where
    t: "emit_link_type_pointer mc ?types = Some type_bytes"
    and r: "emit_link_rip g (m_rip_links_by_seg g ! s) = Some rip_bytes"
    and p: "emit_link_ptr (m_pointer_links_by_seg g ! s) = Some ptr_bytes"
    and g': "m_link_by_seg g' ! s = (emit_link_symbol ?syms @ type_bytes @ rip_bytes @ ptr_bytes) @ [LINK_TABLE_END]"
    using assms(1,2) by (auto simp: emit_link_table_def bind_eq_Some_conv update_at_def)
  have "reads_as (emit_link_symbol ?syms @ type_bytes @ rip_bytes @ ptr_bytes) (link_entries mc g s)"
    unfolding link_entries_def
    by (intro reads_as_append symbols_read types_read rips_read ptrs_read assms t r p)
  then show ?thesis unfolding g' by (rule reads_as_end)
qed

end
