(* ===== verification/Obj_Links.thy ===== *)
theory Obj_Links
  imports Link_Format
begin

text \<open>
  Which links end up in the tables: the lists \<^verbatim>\<open>handle_temp_*\<close> fill hold, for every request made
  through the public functions, the place the layout gave it, in the order of the requests, and
  nothing else.
\<close>

section \<open>Places\<close>

text \<open>A request names an object and an offset in it, or a field of an instruction.\<close>

definition static_place :: "ObjectGenerator \<Rightarrow> nat \<Rightarrow> StaticRecord \<times> int \<Rightarrow> int" where
  "static_place g s l = sd_location (m_static_data_by_seg g ! s ! nat (st_static_id (fst l))) + snd l"

definition instr_of :: "ObjectGenerator \<Rightarrow> nat \<Rightarrow> InstructionRecord \<Rightarrow> Instruction" where
  "instr_of g s r = fd_instructions (fns g s ! nat (in_func_id r)) ! nat (in_instr_id r)"

definition instr_loc :: "ObjectGenerator \<Rightarrow> nat \<Rightarrow> InstructionRecord \<Rightarrow> int" where
  "instr_loc g s r = fd_instruction_to_byte_in_data (fns g s ! nat (in_func_id r)) ! nat (in_instr_id r)"

definition sym_field :: "bool \<Rightarrow> Instruction \<Rightarrow> nat" where
  "sym_field mem i = the (if mem then offset_of_disp i else offset_of_imm i)"

definition instr_place :: "ObjectGenerator \<Rightarrow> nat \<Rightarrow> SymbolInstrLink \<Rightarrow> int" where
  "instr_place g s l = instr_loc g s (sil_rec l)
     + int (sym_field (sil_is_mem_access l) (instr_of g s (sil_rec l)))"

definition fn_entry :: "ObjectGenerator \<Rightarrow> nat \<Rightarrow> int \<Rightarrow> int" where
  "fn_entry g s k = fd_instruction_to_byte_in_data (fns g s ! nat k) ! 0"

definition fn_tag :: "FunctionData \<Rightarrow> int" where
  "fn_tag f = int (dbg_offset_in_seg (fd_debug f)) - 4"

definition func_rip :: "ObjectGenerator \<Rightarrow> RipFuncLink \<Rightarrow> RipLink" where
  "func_rip g l = \<lparr>rl_instr = rfl_instr l, rl_target_segment = fn_seg (rfl_target l),
     rl_offset_in_segment = fn_entry g (nat (fn_seg (rfl_target l))) (fn_func_id (rfl_target l))\<rparr>"

definition data_rip :: "ObjectGenerator \<Rightarrow> RipDataLink \<Rightarrow> RipLink" where
  "data_rip g l = \<lparr>rl_instr = rdl_instr l, rl_target_segment = st_seg (rdl_data l),
     rl_offset_in_segment = static_place g (nat (st_seg (rdl_data l))) (rdl_data l, rdl_offset l)\<rparr>"

definition data_ptr :: "ObjectGenerator \<Rightarrow> nat \<Rightarrow> StaticDataPointerLink \<Rightarrow> PointerLink" where
  "data_ptr g s l = \<lparr>pl_segment = int s, pl_source = static_place g s (sdp_source l, sdp_offset_in_source l),
     pl_dest = static_place g s (sdp_dest l, sdp_offset_in_dest l)\<rparr>"

definition fn_ptr :: "ObjectGenerator \<Rightarrow> nat \<Rightarrow> StaticFunctionPointerLink \<Rightarrow> PointerLink" where
  "fn_ptr g s l = \<lparr>pl_segment = int s, pl_source = static_place g s (sfp_source l, sfp_offset_in_source l),
     pl_dest = fn_entry g s (fn_func_id (sfp_dest l))\<rparr>"

section \<open>Loops that push\<close>

definition push_all :: "('b \<Rightarrow> 'a) \<Rightarrow> 'b smap \<Rightarrow> 'a smap \<Rightarrow> 'a smap" where
  "push_all V m acc = fold (\<lambda>(k, xs). fold (\<lambda>x. smap_push k (V x)) xs) m acc"

lemma push_one_key:
  "smap_sorted acc \<Longrightarrow> smap_sorted (fold (\<lambda>x. smap_push k (V x)) xs acc) \<and>
   smap_get (fold (\<lambda>x. smap_push k (V x)) xs acc) name =
     (if name = k then smap_get acc k @ map V xs else smap_get acc name)"
  by (induction xs arbitrary: acc) (auto simp: smap_push_sorted smap_get_push)

lemma smap_get_push_all:
  "smap_sorted m \<Longrightarrow> smap_sorted acc \<Longrightarrow>
   smap_sorted (push_all V m acc) \<and>
   smap_get (push_all V m acc) name = smap_get acc name @ map V (smap_get m name)"
proof (induction m arbitrary: acc)
  case (Cons x m)
  obtain k xs where x: "x = (k, xs)" by (cases x)
  have notin: "map_of m k = None"
    using Cons.prems(1) unfolding x map_of_eq_None_iff smap_sorted_Cons by auto
  have m: "smap_sorted m" using Cons.prems(1) by (simp add: x smap_sorted_Cons)
  show ?case
    using push_one_key [OF Cons.prems(2), of k V xs] Cons.IH [OF m] notin
    by (auto simp: push_all_def x smap_get_def)
qed (simp add: push_all_def smap_get_def)

lemma for_links_pushes:
  assumes "for_links f m g = Some g'" "U acc = g"
    and body: "\<And>k x acc g2. f k x (U acc) = Some g2 \<Longrightarrow> g2 = U (smap_push k (V x) acc)"
  shows "g' = U (push_all V m acc)"
proof -
  have one: "fold_opt (f k) xs (U acc) = Some g' \<Longrightarrow> g' = U (fold (\<lambda>x. smap_push k (V x)) xs acc)"
    for k xs acc g'
    by (induction xs arbitrary: acc) (auto simp: bind_eq_Some_conv dest!: body)
  show ?thesis
    using assms(1) unfolding for_links_def push_all_def assms(2) [symmetric]
    by (induction m arbitrary: acc) (auto simp: bind_eq_Some_conv dest!: one)
qed

lemma fold_opt_pushes:
  assumes "fold_opt f xs g = Some g'" "U acc = g"
    and "\<And>x acc g2. f x (U acc) = Some g2 \<Longrightarrow> g2 = U (acc @ [V x])"
  shows "g' = U (acc @ map V xs)"
  using assms(1) unfolding assms(2) [symmetric]
  by (induction xs arbitrary: acc) (fastforce simp: bind_eq_Some_conv dest!: assms(3))+

section \<open>Each handler\<close>

lemma get_static_Some:
  "get_static g seg k = Some d \<longleftrightarrow>
     0 \<le> seg \<and> nat seg < length (m_static_data_by_seg g) \<and>
     0 \<le> k \<and> nat k < length (m_static_data_by_seg g ! nat seg) \<and>
     m_static_data_by_seg g ! nat seg ! nat k = d"
  by (auto simp: get_static_def bind_eq_Some_conv)

definition set_types where
  "set_types s g y = g\<lparr>m_type_ptr_links_by_seg := (m_type_ptr_links_by_seg g)[s := y]\<rparr>"

definition set_syms where
  "set_syms s g y = g\<lparr>m_sym_links_by_seg := (m_sym_links_by_seg g)[s := y]\<rparr>"

definition set_rips where
  "set_rips s g y = g\<lparr>m_rip_links_by_seg := (m_rip_links_by_seg g)[s := y]\<rparr>"

definition set_ptrs where
  "set_ptrs s g y = g\<lparr>m_pointer_links_by_seg := (m_pointer_links_by_seg g)[s := y]\<rparr>"

lemmas setters = set_types_def set_syms_def set_rips_def set_ptrs_def

lemma set_ids:
  "set_types s g (m_type_ptr_links_by_seg g ! s) = g" "set_syms s g (m_sym_links_by_seg g ! s) = g"
  "set_rips s g (m_rip_links_by_seg g ! s) = g" "set_ptrs s g (m_pointer_links_by_seg g ! s) = g"
  by (simp_all add: setters)

lemma static_types_pushed:
  assumes "handle_temp_static_type_links (int s) g = Some g'"
  shows "g' = set_types s g (push_all (static_place g s) (m_static_type_temp_links_by_seg g ! s)
    (m_type_ptr_links_by_seg g ! s))"
  using assms unfolding handle_temp_static_type_links_def bind_eq_Some_conv array_at_Some nat_int
  by - (elim exE conjE, hypsubst, rule for_links_pushes [where U = "set_types s g", OF _ set_ids(1)], assumption,
    auto simp: bind_eq_Some_conv get_static_Some push_map_at_Some static_place_def set_types_def
      split: prod.splits)

lemma static_syms_pushed:
  assumes "handle_temp_static_sym_links (int s) g = Some g'"
  shows "g' = set_syms s g (push_all (static_place g s) (m_static_sym_temp_links_by_seg g ! s)
    (m_sym_links_by_seg g ! s))"
  using assms unfolding handle_temp_static_sym_links_def bind_eq_Some_conv array_at_Some nat_int
  by - (elim exE conjE, hypsubst, rule for_links_pushes [where U = "set_syms s g", OF _ set_ids(2)], assumption,
    auto simp: bind_eq_Some_conv get_static_Some push_map_at_Some static_place_def set_syms_def
      split: prod.splits)

lemma instr_syms_pushed:
  assumes "handle_temp_instr_sym_links (int s) g = Some g'"
  shows "g' = set_syms s g (push_all (instr_place g s) (m_symbol_instr_temp_links_by_seg g ! s)
    (m_sym_links_by_seg g ! s))"
  using assms unfolding handle_temp_instr_sym_links_def bind_eq_Some_conv array_at_Some nat_int
  by - (elim exE conjE, hypsubst, rule for_links_pushes [where U = "set_syms s g", OF _ set_ids(2)], assumption,
    auto simp: bind_eq_Some_conv get_function_Some push_map_at_Some instr_place_def instr_loc_def
      instr_of_def sym_field_def fns_def set_syms_def)

lemma func_rips_pushed:
  assumes "handle_temp_rip_func_links (int s) g = Some g'"
  shows "g' = set_rips s g (m_rip_links_by_seg g ! s @ map (func_rip g) (m_rip_func_temp_links_by_seg g ! s))"
  using assms unfolding handle_temp_rip_func_links_def bind_eq_Some_conv array_at_Some nat_int
  by - (elim exE conjE, hypsubst, rule fold_opt_pushes [where U = "set_rips s g", OF _ set_ids(3)], assumption,
    auto simp: bind_eq_Some_conv get_function_Some push_rip_link_def push_at_Some func_rip_def
      fn_entry_def fns_def set_rips_def)

lemma data_rips_pushed:
  assumes "handle_temp_rip_data_links (int s) g = Some g'"
  shows "g' = set_rips s g (m_rip_links_by_seg g ! s @ map (data_rip g) (m_rip_data_temp_links_by_seg g ! s))"
  using assms unfolding handle_temp_rip_data_links_def bind_eq_Some_conv array_at_Some nat_int
  by - (elim exE conjE, hypsubst, rule fold_opt_pushes [where U = "set_rips s g", OF _ set_ids(3)], assumption,
    auto simp: bind_eq_Some_conv get_static_Some push_rip_link_def push_at_Some data_rip_def
      static_place_def set_rips_def)

lemma static_ptrs_pushed:
  assumes "handle_temp_static_ptr_links (int s) g = Some g'"
  shows "g' = set_ptrs s g (m_pointer_links_by_seg g ! s
    @ map (data_ptr g s) (m_static_data_temp_ptr_links_by_seg g ! s)
    @ map (fn_ptr g s) (m_static_function_temp_ptr_links_by_seg g ! s))"
proof -
  let ?p = "m_pointer_links_by_seg g ! s @ map (data_ptr g s) (m_static_data_temp_ptr_links_by_seg g ! s)"
  obtain g1 where
    1: "fold_opt (\<lambda>link g. do {
       source_object \<leftarrow> get_static g (int s) (st_static_id (sdp_source link));
       dest_object \<leftarrow> get_static g (int s) (st_static_id (sdp_dest link));
       push_pointer_link (int s)
         \<lparr>pl_segment = int s, pl_source = sd_location source_object + sdp_offset_in_source link,
          pl_dest = sd_location dest_object + sdp_offset_in_dest link\<rparr> g
     }) (m_static_data_temp_ptr_links_by_seg g ! s) g = Some g1"
    and 2: "fold_opt (\<lambda>link g. do {
       source_object \<leftarrow> get_static g (int s) (st_static_id (sfp_source link));
       dest_function \<leftarrow> get_function g (int s) (fn_func_id (sfp_dest link));
       assert_opt (fn_seg (sfp_dest link) = int s);
       loc \<leftarrow> array_at (fd_instruction_to_byte_in_data dest_function) 0;
       push_pointer_link (int s)
         \<lparr>pl_segment = int s, pl_source = sd_location source_object + sfp_offset_in_source link,
          pl_dest = loc\<rparr> g
     }) (m_static_function_temp_ptr_links_by_seg g1 ! s) g1 = Some g'"
    using assms unfolding handle_temp_static_ptr_links_def bind_eq_Some_conv by auto
  have g1: "g1 = set_ptrs s g ?p"
    using 1 by (rule fold_opt_pushes [where U = "set_ptrs s g", OF _ set_ids(4)])
      (auto simp: bind_eq_Some_conv get_static_Some push_pointer_link_def push_at_Some data_ptr_def
        static_place_def set_ptrs_def)
  then have "m_static_function_temp_ptr_links_by_seg g1 = m_static_function_temp_ptr_links_by_seg g"
    by (simp add: set_ptrs_def)
  moreover have "g' = set_ptrs s g (?p @ map (fn_ptr g s) (m_static_function_temp_ptr_links_by_seg g1 ! s))"
    using 2 g1 [symmetric] by (rule fold_opt_pushes [where U = "set_ptrs s g"])
      (auto simp: bind_eq_Some_conv get_static_Some get_function_Some push_pointer_link_def push_at_Some
        fn_ptr_def static_place_def fn_entry_def fns_def set_ptrs_def)
  ultimately show ?thesis by simp
qed

lemma jumps_data_only:
  assumes "handle_temp_jump_links (int s) g = Some g'"
  shows "\<exists>d. g' = g\<lparr>m_data_by_seg := d\<rparr>"
proof -
  have step: "patch_jump seg l g1 = Some g2 \<Longrightarrow> \<exists>d. g2 = g1\<lparr>m_data_by_seg := d\<rparr>" for seg l g1 g2
    by (auto simp: patch_jump_def patch_data_s32_def bind_eq_Some_conv Let_def)
  have "fold_opt (patch_jump (int s)) ls g = Some g' \<Longrightarrow> \<exists>d. g' = g\<lparr>m_data_by_seg := d\<rparr>" for ls
    by (erule fold_opt_invariant [where P = "\<lambda>g'. \<exists>d. g' = g\<lparr>m_data_by_seg := d\<rparr>"])
      (auto dest!: step intro: exI [of _ "m_data_by_seg g"])
  then show ?thesis using assms by (auto simp: handle_temp_jump_links_def bind_eq_Some_conv)
qed

section \<open>All the handlers of a segment\<close>

text \<open>Places depend on the layout only.\<close>

lemma places_cong:
  assumes "m_function_data_by_seg g' = m_function_data_by_seg g"
    "m_static_data_by_seg g' = m_static_data_by_seg g"
  shows "static_place g' = static_place g" "instr_place g' = instr_place g"
    "func_rip g' = func_rip g" "data_rip g' = data_rip g" "data_ptr g' = data_ptr g" "fn_ptr g' = fn_ptr g"
proof -
  have f: "fns g' = fns g" using assms(1) by (simp add: fns_def fun_eq_iff)
  show p: "static_place g' = static_place g" using assms(2) by (simp add: static_place_def fun_eq_iff)
  show "instr_place g' = instr_place g" by (simp add: instr_place_def instr_loc_def instr_of_def f fun_eq_iff)
  show "func_rip g' = func_rip g" by (simp add: func_rip_def fn_entry_def f fun_eq_iff)
  show "data_rip g' = data_rip g" by (simp add: data_rip_def p fun_eq_iff)
  show "data_ptr g' = data_ptr g" by (simp add: data_ptr_def p fun_eq_iff)
  show "fn_ptr g' = fn_ptr g" by (simp add: fn_ptr_def fn_entry_def f p fun_eq_iff)
qed

definition types_of :: "ObjectGenerator \<Rightarrow> nat \<Rightarrow> int smap \<Rightarrow> int smap" where
  "types_of g s = push_all (static_place g s) (m_static_type_temp_links_by_seg g ! s)"

definition syms_of :: "ObjectGenerator \<Rightarrow> nat \<Rightarrow> int smap \<Rightarrow> int smap" where
  "syms_of g s acc = push_all (instr_place g s) (m_symbol_instr_temp_links_by_seg g ! s)
     (push_all (static_place g s) (m_static_sym_temp_links_by_seg g ! s) acc)"

definition rips_of :: "ObjectGenerator \<Rightarrow> nat \<Rightarrow> RipLink list" where
  "rips_of g s = map (func_rip g) (m_rip_func_temp_links_by_seg g ! s)
     @ map (data_rip g) (m_rip_data_temp_links_by_seg g ! s)"

definition ptrs_of :: "ObjectGenerator \<Rightarrow> nat \<Rightarrow> PointerLink list" where
  "ptrs_of g s = map (data_ptr g s) (m_static_data_temp_ptr_links_by_seg g ! s)
     @ map (fn_ptr g s) (m_static_function_temp_ptr_links_by_seg g ! s)"

lemmas links_of = types_of_def syms_of_def rips_of_def ptrs_of_def

definition with_links :: "nat \<Rightarrow> ObjectGenerator \<Rightarrow> ObjectGenerator" where
  "with_links s g = g\<lparr>
     m_type_ptr_links_by_seg := (m_type_ptr_links_by_seg g)[s := types_of g s (m_type_ptr_links_by_seg g ! s)],
     m_sym_links_by_seg := (m_sym_links_by_seg g)[s := syms_of g s (m_sym_links_by_seg g ! s)],
     m_rip_links_by_seg := (m_rip_links_by_seg g)[s := m_rip_links_by_seg g ! s @ rips_of g s],
     m_pointer_links_by_seg := (m_pointer_links_by_seg g)[s := m_pointer_links_by_seg g ! s @ ptrs_of g s]\<rparr>"

lemma nth_update_same: "xs[s := f (xs[s := y] ! s)] = xs[s := f y]"
  by (cases "s < length xs") (simp_all add: list_update_beyond)

lemma handle_links_seg_links:
  assumes "handle_links_seg (int s) g = Some g'"
  shows "\<exists>d. g' = (with_links s g)\<lparr>m_data_by_seg := d\<rparr>"
proof -
  obtain g1 g2 g3 g4 g5 g6 where h:
    "handle_temp_static_type_links (int s) g = Some g1" "handle_temp_static_sym_links (int s) g1 = Some g2"
    "handle_temp_jump_links (int s) g2 = Some g3" "handle_temp_instr_sym_links (int s) g3 = Some g4"
    "handle_temp_rip_func_links (int s) g4 = Some g5" "handle_temp_rip_data_links (int s) g5 = Some g6"
    "handle_temp_static_ptr_links (int s) g6 = Some g'"
    using assms by (auto simp: handle_links_seg_def bind_eq_Some_conv)
  note e1 = static_types_pushed [OF h(1)]
  note e2 = static_syms_pushed [OF h(2)]
  obtain d where e3: "g3 = g2\<lparr>m_data_by_seg := d\<rparr>" using jumps_data_only [OF h(3)] by blast
  note e4 = instr_syms_pushed [OF h(4)] and e5 = func_rips_pushed [OF h(5)]
    and e6 = data_rips_pushed [OF h(6)] and e7 = static_ptrs_pushed [OF h(7)]
  define T where "T = types_of g s (m_type_ptr_links_by_seg g ! s)"
  define A where "A = push_all (static_place g s) (m_static_sym_temp_links_by_seg g ! s) (m_sym_links_by_seg g ! s)"
  have g1: "g1 = set_types s g T" by (simp add: e1 T_def types_of_def)
  have p1: "static_place g1 = static_place g" by (rule places_cong) (simp_all add: g1 setters)
  have g2: "g2 = set_syms s g1 A" by (simp add: e2 p1 A_def) (simp add: g1 setters)
  have p3: "instr_place g3 = instr_place g" by (rule places_cong) (simp_all add: e3 g2 g1 setters)
  define S where "S = syms_of g s (m_sym_links_by_seg g ! s)"
  have "g4 = set_syms s g3 (push_all (instr_place g s) (m_symbol_instr_temp_links_by_seg g ! s)
      ((m_sym_links_by_seg g)[s := A] ! s))"
    by (simp add: e4 p3) (simp add: e3 g2 g1 setters)
  then have g4: "g4 = (set_syms s (set_types s g T) S)\<lparr>m_data_by_seg := d\<rparr>"
    unfolding e3 g2 g1 by (simp add: setters S_def syms_of_def A_def [symmetric] nth_update_same)
  have p4: "func_rip g4 = func_rip g" by (rule places_cong) (simp_all add: g4 setters)
  have p5: "data_rip g5 = data_rip g" by (rule places_cong) (simp_all add: e5 g4 setters)
  have p6: "data_ptr g6 = data_ptr g" "fn_ptr g6 = fn_ptr g"
    by (rule places_cong; simp add: e6 e5 g4 setters)+
  have g5: "g5 = set_rips s g4 (m_rip_links_by_seg g ! s @ map (func_rip g) (m_rip_func_temp_links_by_seg g ! s))"
    by (simp add: e5 p4) (simp add: g4 setters)
  have "g6 = set_rips s g5 ((m_rip_links_by_seg g)[s := m_rip_links_by_seg g ! s
      @ map (func_rip g) (m_rip_func_temp_links_by_seg g ! s)] ! s
      @ map (data_rip g) (m_rip_data_temp_links_by_seg g ! s))"
    by (simp add: e6 p5) (simp add: g5 g4 setters)
  then have g6: "g6 = set_rips s g4 (m_rip_links_by_seg g ! s @ rips_of g s)"
    unfolding g5 using nth_update_same [of "m_rip_links_by_seg g" s "\<lambda>x. x @ map (data_rip g) (m_rip_data_temp_links_by_seg g ! s)"]
    by (simp add: setters rips_of_def g4)
  have "g' = set_ptrs s g6 (m_pointer_links_by_seg g ! s @ ptrs_of g s)"
    by (simp add: e7 p6 ptrs_of_def) (simp add: g6 g4 setters)
  then have "g' = (with_links s g)\<lparr>m_data_by_seg := d\<rparr>"
    unfolding g6 g4 with_links_def T_def [symmetric] S_def [symmetric] by (simp add: setters)
  then show ?thesis ..
qed

section \<open>All segments\<close>

definition requests where
  "requests g = (m_static_type_temp_links_by_seg g, m_symbol_instr_temp_links_by_seg g,
     m_static_sym_temp_links_by_seg g, m_static_data_temp_ptr_links_by_seg g,
     m_static_function_temp_ptr_links_by_seg g, m_rip_func_temp_links_by_seg g,
     m_rip_data_temp_links_by_seg g)"

definition tables where
  "tables g s = (m_type_ptr_links_by_seg g ! s, m_sym_links_by_seg g ! s, m_rip_links_by_seg g ! s,
     m_pointer_links_by_seg g ! s)"

definition linked_tables where
  "linked_tables g s = (types_of g s (m_type_ptr_links_by_seg g ! s), syms_of g s (m_sym_links_by_seg g ! s),
     m_rip_links_by_seg g ! s @ rips_of g s, m_pointer_links_by_seg g ! s @ ptrs_of g s)"

definition table_arrays where
  "table_arrays g \<longleftrightarrow> length (m_type_ptr_links_by_seg g) = N_SEG \<and> length (m_sym_links_by_seg g) = N_SEG \<and>
     length (m_rip_links_by_seg g) = N_SEG \<and> length (m_pointer_links_by_seg g) = N_SEG"

text \<open>The layout and the requests, all that the tables are made from.\<close>

definition link_inputs where
  "link_inputs g = (m_function_data_by_seg g, m_static_data_by_seg g, requests g)"

lemma linked_tables_cong:
  assumes "link_inputs g' = link_inputs g" "tables g' s = tables g s"
  shows "linked_tables g' s = linked_tables g s"
proof -
  have eqs: "m_function_data_by_seg g' = m_function_data_by_seg g" "m_static_data_by_seg g' = m_static_data_by_seg g"
    using assms(1) by (simp_all add: link_inputs_def)
  show ?thesis
    using assms by (simp add: linked_tables_def links_of places_cong [OF eqs] link_inputs_def requests_def tables_def)
qed

lemma handle_links_seg_tables:
  assumes "handle_links_seg (int s) g = Some g'" "table_arrays g" "s < N_SEG"
  shows "link_inputs g' = link_inputs g" "table_arrays g'" "tables g' s = linked_tables g s"
    and "t \<noteq> s \<Longrightarrow> tables g' t = tables g t"
  using handle_links_seg_links [OF assms(1)] assms(2,3)
  by (auto simp: with_links_def link_inputs_def requests_def table_arrays_def tables_def linked_tables_def)

lemma handle_all_tables:
  assumes "fold_opt handle_links_seg segs_down g = Some g'" "table_arrays g" "s < N_SEG"
  shows "link_inputs g' = link_inputs g" "tables g' s = linked_tables g s"
proof -
  obtain g1 g2 where h: "handle_links_seg (int 2) g = Some g1" "handle_links_seg (int 1) g1 = Some g2"
    "handle_links_seg (int 0) g2 = Some g'"
    using assms(1) by (rule segs_loop)
  have n: "2 < N_SEG" "1 < N_SEG" "0 < N_SEG" by (simp_all add: N_SEG_def)
  note a = handle_links_seg_tables [OF h(1) assms(2) n(1)]
  note b = handle_links_seg_tables [OF h(2) a(2) n(2)]
  note c = handle_links_seg_tables [OF h(3) b(2) n(3)]
  show "link_inputs g' = link_inputs g" using a(1) b(1) c(1) by simp
  have l1: "linked_tables g1 1 = linked_tables g 1" by (rule linked_tables_cong) (simp_all add: a)
  have l0: "linked_tables g2 0 = linked_tables g 0" by (rule linked_tables_cong) (simp_all add: a b)
  from N_SEG_cases [OF assms(3)] show "tables g' s = linked_tables g s"
    using a(3) b(3) c(3) a(4) b(4) c(4) l1 l0 by (elim disjE) simp_all
qed

text \<open>Before the links are handled, the tables hold the type tags of the functions.\<close>

definition push_tags :: "FunctionData list \<Rightarrow> int smap \<Rightarrow> int smap" where
  "push_tags fs = fold (\<lambda>f. smap_push ''function'' (fn_tag f)) fs"

lemma place_functions_types:
  assumes "place_functions seg fs types data = Some (fs', types', data')"
    and "\<forall>f\<in>set fs. fd_instruction_to_byte_in_data f = []"
  shows "types' = push_tags fs' types"
  using assms
proof (induction fs arbitrary: types data fs' types' data')
  case (Cons f fs)
  from Cons.prems obtain tag f1 data1 fs1 where
    p: "place_function seg f data = Some (tag, f1, data1)"
    and q: "place_functions seg fs (smap_push ''function'' (int tag) types) data1 = Some (fs1, types', data')"
    and fs': "fs' = f1 # fs1"
    by (auto simp: bind_eq_Some_conv)
  have "fn_tag f1 = int tag" using place_function_Some [OF p] Cons.prems(2) by (auto simp: fn_tag_def)
  with Cons.IH [OF q] Cons.prems(2) show ?case by (simp add: fs' push_tags_def)
qed (simp add: push_tags_def)

lemma layout_all_tables:
  assumes "layout_all g = Some g'" "gen_inv g" "s < N_SEG"
  shows "requests g' = requests g" "table_arrays g'" "tables g' s = (push_tags (fns g' s) [], [], [], [])"
proof -
  obtain h where h: "fold_opt layout_functions_seg segs_down g = Some h"
    and st: "fold_opt layout_statics_seg segs_down h = Some g'"
    using assms(1) by (auto simp: layout_all_def bind_eq_Some_conv)
  have st': "(requests g', m_type_ptr_links_by_seg g', m_sym_links_by_seg g', m_rip_links_by_seg g',
      m_pointer_links_by_seg g', m_function_data_by_seg g') =
    (requests h, m_type_ptr_links_by_seg h, m_sym_links_by_seg h, m_rip_links_by_seg h,
      m_pointer_links_by_seg h, m_function_data_by_seg h)"
    using st by (rule fold_opt_frame) (auto simp: layout_statics_seg_def bind_eq_Some_conv requests_def)
  have hh: "(requests h, m_sym_links_by_seg h, m_rip_links_by_seg h, m_pointer_links_by_seg h,
      length (m_type_ptr_links_by_seg h)) =
    (requests g, m_sym_links_by_seg g, m_rip_links_by_seg g, m_pointer_links_by_seg g,
      length (m_type_ptr_links_by_seg g))"
    using h by (rule fold_opt_frame) (auto simp: layout_functions_seg_def bind_eq_Some_conv requests_def)
  show "requests g' = requests g" using st' hh by simp
  show "table_arrays g'" using st' hh assms(2) by (simp add: table_arrays_def gen_inv_def empty_segs_def)
  obtain g1 g2 where l: "layout_functions_seg (int 2) g = Some g1" "layout_functions_seg (int 1) g1 = Some g2"
    "layout_functions_seg (int 0) g2 = Some h"
    using h by (rule segs_loop)
  have clean: "\<forall>f\<in>set (fns g t). fd_instruction_to_byte_in_data f = []" if "t < N_SEG" for t
    using assms(2) that by (auto simp: gen_inv_def all_fns_def fn_inv_def fns_def)
  have step: "m_type_ptr_links_by_seg y ! t = push_tags (fns y t) (m_type_ptr_links_by_seg x ! t)"
    "\<And>u. u \<noteq> t \<Longrightarrow> fns y u = fns x u \<and> m_type_ptr_links_by_seg y ! u = m_type_ptr_links_by_seg x ! u"
    if "layout_functions_seg (int t) x = Some y" "\<forall>f\<in>set (fns x t). fd_instruction_to_byte_in_data f = []"
      "length (m_type_ptr_links_by_seg x) = N_SEG" "t < N_SEG" for x y t
    using layout_functions_seg_Some [OF that(1)] that(2-4)
    by (auto simp: fns_def dest!: place_functions_types)
  have n: "2 < N_SEG" "1 < N_SEG" "0 < N_SEG" by (simp_all add: N_SEG_def)
  have len: "length (m_type_ptr_links_by_seg y) = length (m_type_ptr_links_by_seg x)"
    if "layout_functions_seg (int t) x = Some y" for x y t
    using layout_functions_seg_Some [OF that] by auto
  have len0: "length (m_type_ptr_links_by_seg g) = N_SEG" "\<And>t. t < N_SEG \<Longrightarrow> m_type_ptr_links_by_seg g ! t = []"
    using assms(2) by (simp_all add: gen_inv_def empty_segs_def)
  note a = step [OF l(1) clean [OF n(1)] len0(1) n(1)]
  have c1: "\<forall>f\<in>set (fns g1 1). fd_instruction_to_byte_in_data f = []" using clean [OF n(2)] a(2) [of 1] by simp
  note b = step [OF l(2) c1 _ n(2)]
  have c0: "\<forall>f\<in>set (fns g2 0). fd_instruction_to_byte_in_data f = []"
    using clean [OF n(3)] a(2) [of 0] b(2) [of 0] len [OF l(1)] len0(1) by simp
  note c = step [OF l(3) c0 _ n(3)]
  have "m_type_ptr_links_by_seg h ! s = push_tags (fns h s) []"
    using N_SEG_cases [OF assms(3)] a b c len [OF l(1)] len [OF l(2)] len0 n by (elim disjE) simp_all
  moreover have "fns g' s = fns h s" using st' by (simp add: fns_def)
  ultimately show "tables g' s = (push_tags (fns g' s) [], [], [], [])"
    using st' hh assms(2,3) by (simp add: tables_def gen_inv_def empty_segs_def)
qed

section \<open>The request maps are maps\<close>

definition maps_sorted :: "ObjectGenerator \<Rightarrow> bool" where
  "maps_sorted g \<longleftrightarrow> list_all smap_sorted (m_static_type_temp_links_by_seg g) \<and>
     list_all smap_sorted (m_symbol_instr_temp_links_by_seg g) \<and>
     list_all smap_sorted (m_static_sym_temp_links_by_seg g)"

lemma push_map_sorted:
  "push_map_at ms i k x = Some ms' \<Longrightarrow> list_all smap_sorted ms \<Longrightarrow> list_all smap_sorted ms'"
  by (auto simp: push_map_at_Some list_all_length nth_list_update smap_push_sorted)

lemma built_maps_sorted: "built g \<Longrightarrow> maps_sorted g"
proof (induction rule: built.induct)
  case built_new
  then show ?case
    by (simp add: maps_sorted_def new_ObjectGenerator_def empty_segs_def list_all_length)
qed (auto simp: maps_sorted_def add_function_to_seg_def add_ir_def add_instr_def add_instr_no_ir_def
    set_function_def link_fns bind_eq_Some_conv Let_def intro: push_map_sorted)

section \<open>The finished generator\<close>

text \<open>What places and tags are made from survives the collection of the generated code.\<close>

definition code_view :: "FunctionData \<Rightarrow> Instruction list \<times> int list \<times> int" where
  "code_view f = (fd_instructions f, fd_instruction_to_byte_in_data f, fn_tag f)"

definition same_view :: "ObjectGenerator \<Rightarrow> ObjectGenerator \<Rightarrow> bool" where
  "same_view g g' \<longleftrightarrow> m_static_data_by_seg g' = m_static_data_by_seg g \<and> requests g' = requests g \<and>
     (\<forall>s. map code_view (fns g' s) = map code_view (fns g s))"

lemma nth_map_eq:
  assumes "map h xs = map h ys"
  shows "h (xs ! k) = h (ys ! k)"
proof (cases "k < length xs")
  case True
  with assms show ?thesis by (metis map_eq_imp_length_eq nth_map)
next
  case False
  moreover have "length ys = length xs" using assms by (metis length_map)
  ultimately have "xs ! k = ys ! k"
    using nth_append [of xs "[]" k] nth_append [of ys "[]" k] by simp
  then show ?thesis by simp
qed

lemma same_view_places:
  assumes "same_view g g'"
  shows "types_of g' = types_of g" "syms_of g' = syms_of g" "rips_of g' = rips_of g"
    "ptrs_of g' = ptrs_of g" "push_tags (fns g' s) = push_tags (fns g s)"
proof -
  have "code_view (fns g' s ! k) = code_view (fns g s ! k)" for s k
    using assms by (intro nth_map_eq) (simp add: same_view_def)
  then have f: "fd_instructions (fns g' s ! k) = fd_instructions (fns g s ! k)"
    "fd_instruction_to_byte_in_data (fns g' s ! k) = fd_instruction_to_byte_in_data (fns g s ! k)" for s k
    by (simp_all add: code_view_def)
  have p: "static_place g' = static_place g" using assms by (simp add: static_place_def fun_eq_iff same_view_def)
  have q: "instr_place g' = instr_place g" by (simp add: instr_place_def instr_loc_def instr_of_def f fun_eq_iff)
  have r: "func_rip g' = func_rip g" "data_rip g' = data_rip g" "data_ptr g' = data_ptr g" "fn_ptr g' = fn_ptr g"
    by (simp_all add: func_rip_def data_rip_def data_ptr_def fn_ptr_def fn_entry_def f p fun_eq_iff)
  show "types_of g' = types_of g" "syms_of g' = syms_of g" "rips_of g' = rips_of g" "ptrs_of g' = ptrs_of g"
    using assms by (simp_all add: links_of p q r fun_eq_iff same_view_def requests_def)
  have t: "push_tags fs = fold (smap_push ''function'') (map (snd \<circ> snd \<circ> code_view) fs)" for fs
    by (simp add: push_tags_def fold_map comp_def code_view_def)
  have "map (snd \<circ> snd \<circ> code_view) (fns g' s) = map (snd \<circ> snd \<circ> code_view) (fns g s)"
    using assms unfolding same_view_def by (metis map_map)
  then show "push_tags (fns g' s) = push_tags (fns g s)" by (simp add: t)
qed

lemma collect_codes_view: "collect_codes data fs = Some fs' \<Longrightarrow> map code_view fs' = map code_view fs"
  by (induction fs arbitrary: fs')
    (auto simp: collect_code_def bind_eq_Some_conv code_view_def fn_tag_def)

lemma collect_seg_view: "collect_seg seg g = Some g' \<Longrightarrow> same_view g g' \<and> tables g' s = tables g s"
  by (auto simp: collect_seg_def bind_eq_Some_conv same_view_def requests_def fns_def update_at_def
      tables_def nth_list_update dest!: collect_codes_view)

lemma same_view_trans: "same_view a b \<Longrightarrow> same_view b c \<Longrightarrow> same_view a c"
  by (simp add: same_view_def)

lemma collect_all_view:
  assumes "fold_opt collect_seg ss g = Some g'"
  shows "same_view g g' \<and> tables g' s = tables g s"
  using assms
  by (rule fold_opt_invariant [where P = "\<lambda>g'. same_view g g' \<and> tables g' s = tables g s"])
    (auto simp: same_view_def [of g g] dest!: collect_seg_view [where s = s] intro: same_view_trans)

lemma emit_link_table_view: "emit_link_table mc seg g = Some g' \<Longrightarrow> \<exists>l. g' = g\<lparr>m_link_by_seg := l\<rparr>"
  by (auto simp: emit_link_table_def bind_eq_Some_conv)

lemma generated_tables:
  assumes "generate_data_v3 mc g = Some (out, g')" "gen_inv g" "s < N_SEG"
  shows "tables g' s = (types_of g' s (push_tags (fns g' s) []), syms_of g' s [], rips_of g' s, ptrs_of g' s)"
    and "requests g' = requests g"
proof -
  obtain g1 g2 g3 g4 where st: "layout_all g = Some g1" "fold_opt handle_links_seg segs_down g1 = Some g2"
    "fold_opt (emit_link_table mc) segs_down g2 = Some g3" "fold_opt collect_seg (rev segs_down) g3 = Some g4"
    and g': "g' = g4\<lparr>m_data_by_seg := empty_segs, m_link_by_seg := empty_segs\<rparr>"
    using assms(1) unfolding generate_data_v3_def bind_eq_Some_conv by blast
  note a = layout_all_tables [OF st(1) assms(2,3)]
  note b = handle_all_tables [OF st(2) a(2) assms(3)]
  obtain l where c: "g3 = g2\<lparr>m_link_by_seg := l\<rparr>"
  proof -
    have "\<exists>l. g3 = g2\<lparr>m_link_by_seg := l\<rparr>"
      using st(3) by (rule fold_opt_invariant [where P = "\<lambda>g3. \<exists>l. g3 = g2\<lparr>m_link_by_seg := l\<rparr>"])
        (auto dest!: emit_link_table_view intro: exI [of _ "m_link_by_seg g2"])
    then show thesis using that by blast
  qed
  note d = collect_all_view [OF st(4), of s]
  have v: "same_view g1 g'"
  proof -
    have "same_view g1 g3" using b(1) c by (simp add: same_view_def link_inputs_def requests_def fns_def)
    moreover have "same_view g4 g'" by (simp add: g' same_view_def requests_def fns_def)
    ultimately show ?thesis using d same_view_trans by blast
  qed
  have "tables g' s = tables g4 s" by (simp add: g' tables_def)
  also have "\<dots> = tables g2 s" using d c by (simp add: tables_def)
  also have "\<dots> = linked_tables g1 s" by (rule b(2))
  also have "\<dots> = (types_of g1 s (push_tags (fns g1 s) []), syms_of g1 s [], rips_of g1 s, ptrs_of g1 s)"
    using a(3) by (simp add: linked_tables_def tables_def)
  finally show "tables g' s = (types_of g' s (push_tags (fns g' s) []), syms_of g' s [], rips_of g' s, ptrs_of g' s)"
    by (simp add: same_view_places [OF v])
  show "requests g' = requests g" using v a(1) by (simp add: same_view_def)
qed

lemma push_tags_get:
  "smap_sorted acc \<Longrightarrow> smap_sorted (push_tags fs acc) \<and> smap_get (push_tags fs acc) name =
     (if name = ''function'' then smap_get acc name @ map fn_tag fs else smap_get acc name)"
  by (induction fs arbitrary: acc) (auto simp: push_tags_def smap_push_sorted smap_get_push)

lemma maps_sorted_nth:
  assumes "maps_sorted g" "gen_inv g" "s < N_SEG"
  shows "smap_sorted (m_static_type_temp_links_by_seg g ! s)"
    "smap_sorted (m_symbol_instr_temp_links_by_seg g ! s)" "smap_sorted (m_static_sym_temp_links_by_seg g ! s)"
  using assms by (simp_all add: maps_sorted_def gen_inv_def list_all_length)

section \<open>The link tables of the result\<close>

lemma rip_entry_cong:
  assumes "\<And>s. map code_view (fns g' s) = map code_view (fns g s)"
  shows "rip_entry g' l = rip_entry g l"
proof -
  have "code_view (fns g' s ! k) = code_view (fns g s ! k)" for s k
    by (intro nth_map_eq assms)
  then show ?thesis by (simp add: rip_entry_def code_view_def Let_def)
qed

lemma link_entries_cong:
  assumes "\<And>s. map code_view (fns g' s) = map code_view (fns g s)" "tables g' s = tables g s"
  shows "link_entries mc g' s = link_entries mc g s"
  using assms by (simp add: link_entries_def tables_def rip_entry_cong [OF assms(1)] cong: map_cong)

lemma emit_tables_read:
  assumes "fold_opt (emit_link_table mc) segs_down g = Some g'" "m_link_by_seg g = empty_segs" "s < N_SEG"
    and "names_ok (m_sym_links_by_seg g ! s)" "names_ok (m_type_ptr_links_by_seg g ! s)"
  shows "parse_table (m_link_by_seg g' ! s) = Some (link_entries mc g s, [])"
proof -
  obtain g1 g2 where h: "emit_link_table mc (int 2) g = Some g1" "emit_link_table mc (int 1) g1 = Some g2"
    "emit_link_table mc (int 0) g2 = Some g'"
    using assms(1) by (rule segs_loop)
  have same: "fns y = fns x \<and> tables y u = tables x u \<and> m_sym_links_by_seg y = m_sym_links_by_seg x \<and>
      m_type_ptr_links_by_seg y = m_type_ptr_links_by_seg x \<and>
      (\<forall>v. v \<noteq> t \<longrightarrow> m_link_by_seg y ! v = m_link_by_seg x ! v)"
    if "emit_link_table mc (int t) x = Some y" for t x y u
    using that by (auto simp: emit_link_table_def bind_eq_Some_conv fns_def tables_def update_at_def fun_eq_iff)
  note a = same [OF h(1)] and b = same [OF h(2)] and c = same [OF h(3)]
  have e: "link_entries mc g1 u = link_entries mc g u" "link_entries mc g2 u = link_entries mc g u" for u
    using a [of u] b [of u] by (intro link_entries_cong; simp)+
  have n: "m_link_by_seg g ! u = []" if "u < N_SEG" for u using assms(2) that by (simp add: empty_segs_def)
  show ?thesis
    using N_SEG_cases [OF assms(3)]
  proof (elim disjE)
    assume s: "s = 2"
    from emit_link_table_reads [OF h(1)] show ?thesis using assms(3-5) n [of 2] b c s by simp
  next
    assume s: "s = 1"
    from emit_link_table_reads [OF h(2)] show ?thesis using assms(3-5) n [of 1] a c s e by simp
  next
    assume s: "s = 0"
    from emit_link_table_reads [OF h(3)] show ?thesis using assms(3-5) n [of 0] a b s e by simp
  qed
qed

lemma links_not_written:
  assumes "layout_all g = Some g1" "fold_opt handle_links_seg segs_down g1 = Some g2"
  shows "m_link_by_seg g2 = m_link_by_seg g"
proof -
  obtain h where h: "fold_opt layout_functions_seg segs_down g = Some h"
    "fold_opt layout_statics_seg segs_down h = Some g1"
    using assms(1) by (auto simp: layout_all_def bind_eq_Some_conv)
  have "m_link_by_seg h = m_link_by_seg g"
    using h(1) by (rule fold_opt_frame) (auto simp: layout_functions_seg_def bind_eq_Some_conv)
  moreover have "m_link_by_seg g1 = m_link_by_seg h"
    using h(2) by (rule fold_opt_frame) (auto simp: layout_statics_seg_def bind_eq_Some_conv)
  moreover obtain x1 x2 where "handle_links_seg (int 2) g1 = Some x1" "handle_links_seg (int 1) x1 = Some x2"
    "handle_links_seg (int 0) x2 = Some g2"
    using assms(2) by (rule segs_loop)
  then have "m_link_by_seg g2 = m_link_by_seg g1"
    using handle_links_seg_links [of 2 g1 x1] handle_links_seg_links [of 1 x1 x2] handle_links_seg_links [of 0 x2 g2]
    by (auto simp: with_links_def)
  ultimately show ?thesis by simp
qed

lemma generated_table_reads:
  assumes "generate_data_v3 mc g = Some (out, g')" "gen_inv g" "s < N_SEG"
    and "names_ok (m_sym_links_by_seg g' ! s)" "names_ok (m_type_ptr_links_by_seg g' ! s)"
  shows "parse_table (of_link_tables out ! s) = Some (link_entries mc g' s, [])"
proof -
  obtain g1 g2 g3 g4 where st: "layout_all g = Some g1" "fold_opt handle_links_seg segs_down g1 = Some g2"
    "fold_opt (emit_link_table mc) segs_down g2 = Some g3" "fold_opt collect_seg (rev segs_down) g3 = Some g4"
    and out: "of_link_tables out = m_link_by_seg g4"
    and g': "g' = g4\<lparr>m_data_by_seg := empty_segs, m_link_by_seg := empty_segs\<rparr>"
    using assms(1) unfolding generate_data_v3_def bind_eq_Some_conv by auto
  note d = collect_all_view [OF st(4), of s]
  have l4: "m_link_by_seg g4 = m_link_by_seg g3"
    using st(4) by (rule fold_opt_frame) (auto simp: collect_seg_def bind_eq_Some_conv)
  have "(m_function_data_by_seg g3, tables g3 s) = (m_function_data_by_seg g2, tables g2 s)"
    using st(3) by (rule fold_opt_frame) (auto dest!: emit_link_table_view simp: tables_def)
  then have v: "tables g' s = tables g2 s" "\<And>t. map code_view (fns g' t) = map code_view (fns g2 t)"
    using d by (simp_all add: g' tables_def same_view_def fns_def)
  have "parse_table (m_link_by_seg g3 ! s) = Some (link_entries mc g2 s, [])"
    using assms(2-5) v(1) links_not_written [OF st(1,2)]
    by (intro emit_tables_read [OF st(3)]) (simp_all add: gen_inv_def tables_def)
  then show ?thesis by (simp add: out l4 link_entries_cong [OF v(2,1)])
qed

section \<open>The header locates everything\<close>

definition file_u32 :: "u8 list \<Rightarrow> nat \<Rightarrow> nat" where
  "file_u32 file off = unat (le_word (take 4 (drop off file)) :: u32)"

text \<open>Link table and code of segment \<open>s\<close>, found with the table of offsets and sizes alone.\<close>

definition table_in_file :: "u8 list \<Rightarrow> nat \<Rightarrow> u8 list" where
  "table_in_file file s = take (file_u32 file (20 + 8 * s)) (drop (4 + file_u32 file (16 + 8 * s)) file)"

definition segment_in_file :: "u8 list \<Rightarrow> nat \<Rightarrow> u8 list" where
  "segment_in_file file s = take (file_u32 file (44 + 8 * s))
     (drop (file_u32 file 64 + file_u32 file (40 + 8 * s)) file)"

lemma size_offsets_eq:
  "size_offsets [a, b, c] x = (x + of_nat (length c + length b + length a),
     [(x + of_nat (length c + length b), of_nat (length a)), (x + of_nat (length c), of_nat (length b)),
      (x, of_nat (length c))])"
  by (simp add: size_offsets_def segs_down_eq update_at_def N_SEG_def Let_def numeral_3_eq_3 numeral_2_eq_2)

lemma three_lists:
  assumes "length xs = N_SEG"
  shows "xs = [xs ! 0, xs ! 1, xs ! 2]"
  using assms by (intro nth_equalityI) (auto simp: N_SEG_def nth_Cons' less_Suc_eq numeral_3_eq_3 numeral_2_eq_2)

lemma sum_u32: "a + b < 2 ^ 32 \<Longrightarrow> unat (of_nat a + of_nat b :: u32) = a + b"
  by (metis nat_word_u32 of_int_of_nat_eq of_nat_add)

lemma header_bytes:
  assumes "m_link_by_seg g = [l0, l1, l2]" "m_data_by_seg g = [d0, d1, d2]"
  shows "generate_header_v3 g = map of_char ''GOAL''
    @ le_bytes 2 GOAL_VERSION_MAJOR @ le_bytes 2 GOAL_VERSION_MINOR @ le_bytes 4 (3 :: u32) @ le_bytes 4 (3 :: u32)
    @ concat (map (\<lambda>n. le_bytes 4 (of_nat n :: u32))
      [64 + length l2 + length l1, length l0, 64 + length l2, length l1, 64, length l2,
       length d2 + length d1, length d0, length d2, length d1, 0, length d2,
       68 + length l2 + length l1 + length l0])"
proof -
  have "68 + (\<Sum>i\<leftarrow>segs_down. int (length (m_link_by_seg g ! nat i))) =
      int (68 + length l2 + length l1 + length l0)"
    by (simp add: segs_down_eq assms)
  then have tot: "push_u32 (68 + (\<Sum>i\<leftarrow>segs_down. int (length (m_link_by_seg g ! nat i)))) =
      le_bytes 4 (of_nat (68 + length l2 + length l1 + length l0) :: u32)"
    by (simp only: push_u32_def of_int_of_nat_eq)
  show ?thesis
    unfolding generate_header_v3_def assms size_offsets_eq Let_def split_conv N_SEG_def
    by (simp add: tot [unfolded assms] push_table_def add.assoc)
qed

lemma drop_u32s:
  "drop (4 * k) (concat (map (\<lambda>n. le_bytes 4 (of_nat n :: u32)) ns)) =
   concat (map (\<lambda>n. le_bytes 4 (of_nat n :: u32)) (drop k ns))"
proof (induction ns arbitrary: k)
  case (Cons n ns)
  then show ?case by (cases k) simp_all
qed simp

lemma header_locates_all:
  assumes "length file < 2 ^ 32"
    and cat: "file = generate_header_v3 g @ (l2 @ l1 @ l0) @ (d2 @ d1 @ d0)"
    and g: "m_link_by_seg g = [l0, l1, l2]" "m_data_by_seg g = [d0, d1, d2]"
  shows "length (generate_header_v3 g) = 68"
    and "file_u32 file 64 = 68 + length l2 + length l1 + length l0"
    and "s < N_SEG \<Longrightarrow> table_in_file file s = [l0, l1, l2] ! s"
    and "s < N_SEG \<Longrightarrow> segment_in_file file s = [d0, d1, d2] ! s"
proof -
  let ?ns = "[64 + length l2 + length l1, length l0, 64 + length l2, length l1, 64, length l2,
       length d2 + length d1, length d0, length d2, length d1, 0, length d2,
       68 + length l2 + length l1 + length l0]"
  let ?magic = "map of_char ''GOAL'' @ le_bytes 2 GOAL_VERSION_MAJOR @ le_bytes 2 GOAL_VERSION_MINOR
      @ le_bytes 4 (3 :: u32) @ le_bytes 4 (3 :: u32) :: u8 list"
  note h = header_bytes [OF g]
  show len: "length (generate_header_v3 g) = 68" unfolding h by simp
  have f: "file = ?magic @ concat (map (\<lambda>n. le_bytes 4 (of_nat n :: u32)) ?ns) @ (l2 @ l1 @ l0) @ (d2 @ d1 @ d0)"
    unfolding cat h by (simp only: append_assoc)
  have total: "length file = 68 + length l2 + length l1 + length l0 + length d2 + length d1 + length d0"
    unfolding cat using len by simp
  have field: "file_u32 file (16 + 4 * k) = ?ns ! k" if "k < 13" for k
  proof -
    have m: "length ?magic = 16" by simp
    have "drop (16 + 4 * k) file = drop (4 * k) (drop 16 file)" by (simp add: add.commute)
    also have "drop 16 file = concat (map (\<lambda>n. le_bytes 4 (of_nat n :: u32)) ?ns) @ (l2 @ l1 @ l0) @ (d2 @ d1 @ d0)"
      unfolding f using m by (metis append_eq_conv_conj)
    also have "drop (4 * k) \<dots> = concat (map (\<lambda>n. le_bytes 4 (of_nat n :: u32)) (drop k ?ns))
        @ (l2 @ l1 @ l0) @ (d2 @ d1 @ d0)"
      using that unfolding drop_append drop_u32s by simp
    also have "drop k ?ns = ?ns ! k # drop (Suc k) ?ns"
      using that by (intro Cons_nth_drop_Suc [symmetric]) simp
    finally have "file_u32 file (16 + 4 * k) = unat (of_nat (?ns ! k) :: u32)"
      by (simp add: file_u32_def)
    have "\<forall>n\<in>set ?ns. n < 2 ^ 32" using assms(1) total by simp
    moreover have "?ns ! k \<in> set ?ns" using that by (intro nth_mem) simp
    ultimately have "?ns ! k < 2 ^ 32" by blast
    then have "unat (of_nat (?ns ! k) :: u32) = ?ns ! k"
      using nat_word_u32 [of "?ns ! k"] by (simp only: of_int_of_nat_eq)
    with \<open>file_u32 file (16 + 4 * k) = _\<close> show ?thesis by simp
  qed
  show t: "file_u32 file 64 = 68 + length l2 + length l1 + length l0" using field [of 12] by simp
  show "table_in_file file s = [l0, l1, l2] ! s" if "s < N_SEG"
    using N_SEG_cases [OF that] field [of 0] field [of 1] field [of 2] field [of 3] field [of 4] field [of 5]
    by (elim disjE) (simp_all add: table_in_file_def cat len)
  show "segment_in_file file s = [d0, d1, d2] ! s" if "s < N_SEG"
    using N_SEG_cases [OF that] field [of 6] field [of 7] field [of 8] field [of 9] field [of 10] field [of 11] t
    by (elim disjE) (simp_all add: segment_in_file_def cat len)
qed

lemma smap_get_Nil [simp]: "smap_get [] n = []"
  by (simp add: smap_get_def)

section \<open>The file of a generated program\<close>

lemma generated_arrays:
  assumes "generate_data_v3 mc g = Some (out, g')" "gen_inv g"
  obtains h where "of_header out = generate_header_v3 h" "of_link_tables out = m_link_by_seg h"
    "of_segment_data out = m_data_by_seg h" "length (m_link_by_seg h) = N_SEG" "length (m_data_by_seg h) = N_SEG"
proof -
  obtain g1 g2 g3 g4 where st: "layout_all g = Some g1" "fold_opt handle_links_seg segs_down g1 = Some g2"
    "fold_opt (emit_link_table mc) segs_down g2 = Some g3" "fold_opt collect_seg (rev segs_down) g3 = Some g4"
    and out: "of_link_tables out = m_link_by_seg g4" "of_segment_data out = m_data_by_seg g4"
      "of_header out = generate_header_v3 g4"
    using assms(1) unfolding generate_data_v3_def bind_eq_Some_conv by auto
  have l: "length (m_link_by_seg g2) = N_SEG"
    using links_not_written [OF st(1,2)] assms(2) by (simp add: gen_inv_def empty_segs_def)
  have "length (m_link_by_seg g3) = length (m_link_by_seg g2)"
    using st(3) by (rule fold_opt_frame) (auto simp: emit_link_table_def bind_eq_Some_conv)
  moreover have "(m_link_by_seg g4, m_data_by_seg g4) = (m_link_by_seg g3, m_data_by_seg g3)"
    using st(4) by (rule fold_opt_frame) (auto simp: collect_seg_def bind_eq_Some_conv)
  moreover have "length (m_data_by_seg g3) = length (m_data_by_seg g)"
  proof -
    have "m_data_by_seg g3 = m_data_by_seg g2"
      using st(3) by (rule fold_opt_frame) (auto dest!: emit_link_table_view)
    moreover have "length (m_data_by_seg g1) = length (m_data_by_seg g)"
      using laid_out_all [OF st(1) assms(2), of 0] by (simp add: N_SEG_def seg_shape_def)
    moreover have "same_layout g1 g2"
      using st(2) by (rule segs_loop) (blast dest: handle_links_seg_step(1) intro: same_layout_trans)
    ultimately show ?thesis by (simp add: same_layout_def)
  qed
  ultimately show ?thesis using that [of g4] out l assms(2) by (simp add: gen_inv_def empty_segs_def)
qed

lemma generated_file:
  assumes "generate_data_v3 mc g = Some (out, g')" "gen_inv g" "length (to_vector out) < 2 ^ 32" "s < N_SEG"
  shows "table_in_file (to_vector out) s = of_link_tables out ! s"
    and "segment_in_file (to_vector out) s = of_segment_data out ! s"
proof -
  obtain h where h: "of_header out = generate_header_v3 h" "of_link_tables out = m_link_by_seg h"
    "of_segment_data out = m_data_by_seg h" "length (m_link_by_seg h) = N_SEG" "length (m_data_by_seg h) = N_SEG"
    using assms(1,2) by (rule generated_arrays)
  note three = three_lists [OF h(4)] three_lists [OF h(5)]
  have "to_vector out = generate_header_v3 h @ (m_link_by_seg h ! 2 @ m_link_by_seg h ! 1 @ m_link_by_seg h ! 0)
      @ (m_data_by_seg h ! 2 @ m_data_by_seg h ! 1 @ m_data_by_seg h ! 0)"
    by (simp add: to_vector_def h segs_down_eq)
  note L = header_locates_all [OF assms(3) this three]
  show "table_in_file (to_vector out) s = of_link_tables out ! s"
    using L(3) [OF assms(4)] three(1) by (metis h(2))
  show "segment_in_file (to_vector out) s = of_segment_data out ! s"
    using L(4) [OF assms(4)] three(2) by (metis h(3))
qed

end
