(* ===== verification/Obj_Props.thy ===== *)
theory Obj_Props
  imports Obj_Links
begin

text \<open>
  The properties of the object file generator, with a program built through its public functions
  on which each of them applies.
\<close>

section \<open>A small program\<close>

text \<open>
  A main segment with one function (a jump over a symbol load to a call of a second function and
  a load of static data) and one static object; a debug segment with another function.
\<close>

definition no_debug :: FunctionDebugInfo where
  "no_debug = \<lparr>dbg_offset_in_seg = 0, dbg_length = 0, dbg_seg = 0, dbg_name = [], dbg_irs = [],
     dbg_instructions = [], dbg_generated_code = [], dbg_stack_usage = None\<rparr>"

definition demo :: "ObjectGenerator option" where
  "demo = do {
     (f, g) \<leftarrow> add_function_to_seg MAIN_SEGMENT no_debug 16 new_ObjectGenerator;
     (h, g) \<leftarrow> add_function_to_seg DEBUG_SEGMENT no_debug 16 g;
     (d, g) \<leftarrow> add_static_to_seg MAIN_SEGMENT 16 g;
     g \<leftarrow> write_static_data d [0, 0, 0, 0, 1, 2, 3, 4] g;
     g \<leftarrow> link_static_type_ptr d 0 ''string'' g;
     g \<leftarrow> link_static_symbol_ptr d 4 ''x'' g;
     g \<leftarrow> link_static_pointer_to_data d 4 d 0 g;
     (i0, g) \<leftarrow> add_ir f ''if'' g;
     je \<leftarrow> je_32;
     (j, g) \<leftarrow> add_instr je i0 g;
     ld \<leftarrow> load32s_gpr64_gpr64_plus_gpr64_plus_s32 (Reg RAX) (Reg R14) (Reg R15) 0;
     (y, g) \<leftarrow> add_instr ld i0 g;
     g \<leftarrow> link_instruction_symbol_mem y ''x'' g;
     (i1, g) \<leftarrow> add_ir f ''call'' g;
     la \<leftarrow> static_addr (Reg RCX) 0;
     (a, g) \<leftarrow> add_instr la i1 g;
     g \<leftarrow> link_instruction_to_function a h g;
     r \<leftarrow> ret;
     g \<leftarrow> add_instr_no_ir f r EPILOGUE g;
     g \<leftarrow> add_instr_no_ir h r EPILOGUE g;
     link_instruction_jump j i1 g
   }"

text \<open>Whatever the program of calls makes of a built generator is built.\<close>

definition builds :: "ObjectGenerator option \<Rightarrow> bool" where
  "builds m \<longleftrightarrow> (\<forall>g. m = Some g \<longrightarrow> built g)"

lemma builds_call:
  assumes "\<And>x g. m = Some (x, g) \<Longrightarrow> built g" "\<And>x g. built g \<Longrightarrow> builds (k x g)"
  shows "builds (do { (x, g) \<leftarrow> m; k x g })"
  using assms by (auto simp: builds_def bind_eq_Some_conv)

lemma builds_update:
  assumes "\<And>g. m = Some g \<Longrightarrow> built g" "\<And>g. built g \<Longrightarrow> builds (k g)"
  shows "builds (do { g \<leftarrow> m; k g })"
  using assms by (auto simp: builds_def bind_eq_Some_conv)

lemma builds_instr: "(\<And>i :: Instruction. builds (k i)) \<Longrightarrow> builds (do { i \<leftarrow> m; k i })"
  by (auto simp: builds_def bind_eq_Some_conv)

lemma builds_last: "(\<And>g. m = Some g \<Longrightarrow> built g) \<Longrightarrow> builds m"
  by (simp add: builds_def)

lemma demo_builds: "builds demo"
  unfolding demo_def
  apply (rule builds_call, erule built_function [OF built_new, rotated], simp add: new_debug_def no_debug_def)
  apply (rule builds_call, erule built_function [rotated 2], assumption, simp add: new_debug_def no_debug_def)
  apply (rule builds_call, erule built_static [rotated], assumption)
  apply (rule builds_update, erule built_write [rotated], assumption)
  apply (rule builds_update, erule built_type_link [rotated], assumption)
  apply (rule builds_update, erule built_static_sym_link [rotated], assumption)
  apply (rule builds_update, erule built_data_link [rotated], assumption)
  apply (rule builds_call, erule built_ir [rotated], assumption)
  apply (rule builds_instr, rule builds_call, erule built_instr [rotated], assumption)
  apply (rule builds_instr, rule builds_call, erule built_instr [rotated], assumption)
  apply (rule builds_update, erule built_sym_mem_link [rotated], assumption)
  apply (rule builds_call, erule built_ir [rotated], assumption)
  apply (rule builds_instr, rule builds_call, erule built_instr [rotated], assumption)
  apply (rule builds_update, erule built_rip_function_link [rotated], assumption)
  apply (rule builds_instr, rule builds_update, erule built_instr_no_ir [rotated], assumption)
  apply (rule builds_update, erule built_instr_no_ir [rotated], assumption)
  apply (rule builds_last, erule built_jump_link [rotated], assumption)
  done

definition demo_run :: "(ObjectFileData \<times> ObjectGenerator) option" where
  "demo_run = do { g \<leftarrow> demo; generate_data_v3 (\<lambda>_. Some 9) g }"

lemma demo_run_ok: "demo_run \<noteq> None"
  by code_simp

definition demo_gen :: ObjectGenerator where
  "demo_gen = the demo"

definition demo_out :: ObjectFileData where
  "demo_out = fst (the demo_run)"

definition demo_end :: ObjectGenerator where
  "demo_end = snd (the demo_run)"

lemma demo_Some: "demo = Some demo_gen"
proof -
  have "demo \<noteq> None" using demo_run_ok by (intro notI) (simp add: demo_run_def)
  then show ?thesis unfolding demo_gen_def by simp
qed

lemma demo_built: "built demo_gen"
  using demo_builds demo_Some unfolding builds_def by blast

lemma demo_generated: "generate_data_v3 (\<lambda>_. Some 9) demo_gen = Some (demo_out, demo_end)"
proof -
  have "demo_run = generate_data_v3 (\<lambda>_. Some 9) demo_gen" by (simp add: demo_run_def demo_Some)
  moreover have "demo_run = Some (demo_out, demo_end)"
    using demo_run_ok unfolding demo_out_def demo_end_def prod.collapse by simp
  ultimately show ?thesis by (rule subst)
qed

lemma links_jumps_code [code]:
  "links_jumps fs l \<longleftrightarrow> valid fs (fst (jump_key l)) (snd (jump_key l)) \<and>
     Some (fd_instructions (fs ! fst (jump_key l)) ! snd (jump_key l)) \<in> set (map fst jumps)"
  by (force simp: links_jumps_def is_jump_def)

lemma demo_jumps: "jumps_ok demo_gen 0"
  by code_simp

lemma demo_tables:
  "m_sym_links_by_seg demo_end ! 0 = [(''x'', [36, 14])]"
  "m_type_ptr_links_by_seg demo_end ! 0 = [(''function'', [0]), (''string'', [32])]"
  "length (to_vector demo_out) < 300"
  by code_simp+

lemma demo_names:
  "names_ok (m_sym_links_by_seg demo_end ! 0)" "names_ok (m_type_ptr_links_by_seg demo_end ! 0)"
  by (simp_all add: demo_tables names_ok_def name_ok_def)

section \<open>Code\<close>

text \<open>
  C26. Every jump reaches its destination. Whatever program was added through the public functions, if
  every jump link is on a jump instruction and each is linked once, then decoding the finished segment
  at a linked jump gives that jump with the displacement from the next instruction to the first
  instruction of the destination IR, and decoding goes on at the next instruction.
\<close>

theorem jumps_reach_destination:
  assumes "built g" "generate_data_v3 mc g = Some (out, g')" "s < N_SEG" "jumps_ok g s"
    and "l \<in> set (jump_links g s)" "is_jump (link_instr (fns g' s) l) mn"
    and "length (of_segment_data out ! s) < 2 ^ 31"
  shows "decode (drop (nat (link_rip (fns g' s) l)) (of_segment_data out ! s)) =
    Some (Insn mn [ImmI (link_dest_rip (fns g' s) l - link_next_rip (fns g' s) l)],
      drop (nat (link_next_rip (fns g' s) l)) (of_segment_data out ! s))"
proof -
  note G = generated_code [OF assms(2) built_inv [OF assms(1)] assms(3,4)]
  define k j where "k = fst (jump_key l)" and "j = snd (jump_key l)"
  let ?fs = "fns g' s" let ?d = "of_segment_data out ! s" let ?f = "?fs ! k"
  let ?loc = "fd_instruction_to_byte_in_data ?f" let ?i = "fd_instructions ?f ! j"
  have lb: "links_jumps ?fs l" "link_bounds ?fs l" using G(6) assms(5) by auto
  have len: "length ?loc = length (fd_instructions ?f)" and nn: "\<forall>x\<in>set ?loc. 0 \<le> x"
    using G(2) lb(2) by (auto simp: laid_nonneg_def link_bounds_def k_def Let_def)
  have v: "valid ?fs k j" "valid ?fs k (Suc j)"
    using lb(2) len by (auto simp: link_bounds_def valid_def k_def j_def Let_def)
  define di where "di = nat (fd_ir_to_instruction ?f ! nat (ir_ir_id (jl_dest l)))"
  have di: "valid ?fs k di"
    using lb(2) len by (auto simp: link_bounds_def valid_def k_def di_def Let_def)
  have hold: "slice ?d ?fs k' j' = patched_code ?fs (jump_links g s) k' j'"
    "pos ?fs k' j' + ilen ?fs k' j' \<le> length ?d" if "valid ?fs k' j'" for k' j'
    using G(4) that by (auto simp: holds_code_def)
  have key: "jump_key l = (k, j)" by (simp add: k_def j_def)
  have "distinct (map jump_key (jump_links g s))" using assms(4) by (simp add: jumps_ok_def)
  then have sl: "slice ?d ?fs k j = jump_bytes ?fs l"
    using find_key [OF _ assms(5)] hold(1) [OF v(1)] by (simp add: patched_code_def key)
  have rip: "link_rip ?fs l = ?loc ! j" "link_next_rip ?fs l = ?loc ! Suc j" "link_dest_rip ?fs l = ?loc ! di"
    by (simp_all add: link_rip_def link_next_rip_def link_dest_rip_def link_fn_def k_def j_def di_def)
  have nonneg: "0 \<le> ?loc ! x" if "valid ?fs k x" for x
    using nn that len by (simp add: valid_def)
  have bound: "?loc ! x < 2 ^ 31" if "valid ?fs k x" for x
    using hold(2) [OF that] assms(7) nonneg [OF that] by (simp add: pos_def)
  have disp: "jump_disp ?fs l = ?loc ! di - ?loc ! Suc j"
    by (simp add: jump_disp_def k_def j_def di_def Let_def)
  have "fits_s32 (jump_disp ?fs l)"
    using nonneg [OF di] nonneg [OF v(2)] bound [OF di] bound [OF v(2)] by (simp add: fits_s32_def disp)
  then have sint: "sint (word_of_int (jump_disp ?fs l) :: u32) = ?loc ! di - ?loc ! Suc j"
    by (simp only: sint_word_of_int_s32 disp)
  have "is_jump ?i mn" using assms(6) by (simp add: link_instr_def link_fn_def k_def j_def)
  from is_jump_patchable [OF this] obtain off where off: "offset_of_imm ?i = Some off"
    and dec: "\<And>(v :: u32) rest. decode (patch off (le_bytes 4 v) (emit ?i) @ rest) = Some (Insn mn [ImmI (sint v)], rest)"
    by (auto simp: patchable_def)
  have jb: "jump_bytes ?fs l = patch off (le_bytes 4 (word_of_int (jump_disp ?fs l) :: u32)) (emit ?i)"
    by (simp add: jump_bytes_def off Let_def flip: k_def j_def)
  have "drop (pos ?fs k j) ?d = jump_bytes ?fs l @ drop (pos ?fs k (Suc j)) ?d"
    using drop_slice [OF hold(2) [OF v(1)]] G(5) [OF v(2)] sl by simp
  then show ?thesis
    unfolding rip by (simp add: jb dec sint flip: pos_def)
qed

theorem jumps_reach_destination_witness:
  "decode (drop 4 (of_segment_data demo_out ! 0)) = Some (Insn (JCC 4) [ImmI 8], drop 10 (of_segment_data demo_out ! 0))"
proof -
  let ?l = "hd (jump_links demo_gen 0)"
  have l: "?l \<in> set (jump_links demo_gen 0)" "Some (link_instr (fns demo_end 0) ?l) = je_32"
    "length (of_segment_data demo_out ! 0) < 200" "link_rip (fns demo_end 0) ?l = 4"
    "link_next_rip (fns demo_end 0) ?l = 10" "link_dest_rip (fns demo_end 0) ?l = 18"
    by code_simp+
  from l(2) have "is_jump (link_instr (fns demo_end 0) ?l) (JCC 4)"
    by (simp add: is_jump_def jumps_def)
  then show ?thesis
    using jumps_reach_destination [OF demo_built demo_generated _ demo_jumps l(1)] l(3-6)
    by (simp add: N_SEG_def)
qed

text \<open>
  C27. The other instructions are placed unchanged: the bytes at the address the layout gave to an
  instruction that is not a linked jump are the bytes \<^verbatim>\<open>emit\<close> makes of the instruction that was added.
\<close>

theorem code_in_place:
  assumes "built g" "generate_data_v3 mc g = Some (out, g')" "s < N_SEG" "jumps_ok g s"
    and "valid (fns g' s) k j" "(k, j) \<notin> jump_key ` set (jump_links g s)"
  shows "slice (of_segment_data out ! s) (fns g' s) k j = emit (fd_instructions (fns g s ! k) ! j)"
proof -
  note G = generated_code [OF assms(2) built_inv [OF assms(1)] assms(3,4)]
  have "slice (of_segment_data out ! s) (fns g' s) k j = patched_code (fns g' s) (jump_links g s) k j"
    using G(4) assms(5) by (simp add: holds_code_def)
  also have "find (\<lambda>l. jump_key l = (k, j)) (jump_links g s) = None"
    using assms(6) by (force simp: find_None_iff)
  then have "patched_code (fns g' s) (jump_links g s) k j = emit (fd_instructions (fns g' s ! k) ! j)"
    by (simp add: patched_code_def)
  also have "fd_instructions (fns g' s ! k) = fd_instructions (fns g s ! k)"
    using list_all2_nthD2 [OF G(1), of k] assms(5) by (simp add: same_code_def valid_def)
  finally show ?thesis .
qed

theorem code_in_place_witness:
  "take 1 (drop 25 (of_segment_data demo_out ! 0)) = [0xc3]"
proof -
  have v: "valid (fns demo_end 0) 0 3" "(0, 3) \<notin> jump_key ` set (jump_links demo_gen 0)"
    "emit (fd_instructions (fns demo_gen 0 ! 0) ! 3) = [0xc3]" "pos (fns demo_end 0) 0 3 = 25"
    "ilen (fns demo_end 0) 0 3 = 1"
    by code_simp+
  then show ?thesis
    using code_in_place [OF demo_built demo_generated _ demo_jumps v(1,2)] by (simp add: N_SEG_def slice_def)
qed

section \<open>Links\<close>

text \<open>
  C28. Round trip of the link table: the bytes \<^verbatim>\<open>emit_link_table\<close> wrote for a segment, read by a parser
  of the format alone, are the entries of the links the generator ended with, and nothing is left
  over; names have fewer than 256 characters and no null character.
\<close>

theorem link_table_round_trip:
  assumes "built g" "generate_data_v3 mc g = Some (out, g')" "s < N_SEG"
    and "names_ok (m_sym_links_by_seg g' ! s)" "names_ok (m_type_ptr_links_by_seg g' ! s)"
  shows "parse_table (of_link_tables out ! s) = Some (link_entries mc g' s, [])"
  using assms(2) built_inv [OF assms(1)] assms(3-5) by (rule generated_table_reads)

theorem link_table_round_trip_witness:
  "parse_table (of_link_tables demo_out ! 0) =
     Some ([SymbolEntry ''x'' [36, 14], TypeEntry ''function'' 9 [0], TypeEntry ''string'' 9 [32],
            Dist32Entry 1 25 4 21, PtrEntry 36 32], [])"
proof -
  have "link_entries (\<lambda>_. Some 9) demo_end 0 = [SymbolEntry ''x'' [36, 14], TypeEntry ''function'' 9 [0],
      TypeEntry ''string'' 9 [32], Dist32Entry 1 25 4 21, PtrEntry 36 32]"
    by code_simp
  then show ?thesis
    using link_table_round_trip [OF demo_built demo_generated, of 0] demo_names by (simp add: N_SEG_def)
qed

text \<open>
  C29. The tables are complete and hold nothing else: for every symbol, the places in its entry are
  those of the requests made for it, in order, each where the layout put the object or the field;
  type pointers likewise, after the tags of the functions for \<^verbatim>\<open>function\<close>; one distance entry for each
  instruction that names a function or static data; one pointer entry for each static pointer.
\<close>

theorem link_tables_complete:
  assumes "built g" "generate_data_v3 mc g = Some (out, g')" "s < N_SEG"
  shows "smap_get (m_sym_links_by_seg g' ! s) name =
      map (static_place g' s) (smap_get (m_static_sym_temp_links_by_seg g ! s) name) @
      map (instr_place g' s) (smap_get (m_symbol_instr_temp_links_by_seg g ! s) name) \<and>
    smap_get (m_type_ptr_links_by_seg g' ! s) name =
      (if name = ''function'' then map fn_tag (fns g' s) else []) @
      map (static_place g' s) (smap_get (m_static_type_temp_links_by_seg g ! s) name) \<and>
    m_rip_links_by_seg g' ! s =
      map (func_rip g') (m_rip_func_temp_links_by_seg g ! s) @
      map (data_rip g') (m_rip_data_temp_links_by_seg g ! s) \<and>
    m_pointer_links_by_seg g' ! s =
      map (data_ptr g' s) (m_static_data_temp_ptr_links_by_seg g ! s) @
      map (fn_ptr g' s) (m_static_function_temp_ptr_links_by_seg g ! s)"
proof -
  note T = generated_tables [OF assms(2) built_inv [OF assms(1)] assms(3)]
  note S = maps_sorted_nth [OF built_maps_sorted [OF assms(1)] built_inv [OF assms(1)] assms(3)]
  have r: "requests g' = requests g" by (rule T(2))
  have e: "smap_sorted []" "smap_sorted (push_tags (fns g' s) [])"
    using push_tags_get [of "[]"] by simp_all
  have p: "smap_sorted (push_all (static_place g' s) (m_static_sym_temp_links_by_seg g ! s) [])"
    using smap_get_push_all [OF S(3) e(1)] by blast
  show ?thesis
    using T(1) r smap_get_push_all [OF S(2) p, of "instr_place g' s" name]
      smap_get_push_all [OF S(3) e(1), of "static_place g' s" name]
      smap_get_push_all [OF S(1) e(2), of "static_place g' s" name] push_tags_get [OF e(1), of "fns g' s" name]
    by (simp add: tables_def links_of requests_def)
qed

theorem link_tables_complete_witness:
  "smap_get (m_sym_links_by_seg demo_end ! 0) ''x'' = [36, 14]"
proof -
  have v: "map (static_place demo_end 0) (smap_get (m_static_sym_temp_links_by_seg demo_gen ! 0) ''x'') @
      map (instr_place demo_end 0) (smap_get (m_symbol_instr_temp_links_by_seg demo_gen ! 0) ''x'') = [36, 14]"
    by code_simp
  show ?thesis
    using link_tables_complete [OF demo_built demo_generated, of 0 "''x''"] unfolding v by (simp add: N_SEG_def)
qed

section \<open>The file\<close>

text \<open>
  C30. The header locates everything: for a file below 4 GB, reading the offset and size fields of
  the header finds, for each segment, exactly its link table and exactly its code and data.
\<close>

theorem header_locates:
  assumes "built g" "generate_data_v3 mc g = Some (out, g')" "length (to_vector out) < 2 ^ 32" "s < N_SEG"
  shows "table_in_file (to_vector out) s = of_link_tables out ! s \<and>
    segment_in_file (to_vector out) s = of_segment_data out ! s"
  using generated_file [OF assms(2) built_inv [OF assms(1)] assms(3,4)] by simp

theorem header_locates_witness:
  "table_in_file (to_vector demo_out) 1 = of_link_tables demo_out ! 1 \<and>
   segment_in_file (to_vector demo_out) 1 = of_segment_data demo_out ! 1"
  using header_locates [OF demo_built demo_generated, of 1] demo_tables(3) by (simp add: N_SEG_def)

text \<open>
  C31. In every state the public functions lead to, nothing has been laid out or linked, every segment
  has its lists, each function's debug info describes as many instructions and IRs as were added, and
  every IR begins at an instruction of its function (or at its end).
\<close>

theorem generator_invariant:
  assumes "built g"
  shows "gen_inv g \<and> maps_sorted g"
  using assms built_inv built_maps_sorted by blast

theorem generator_invariant_witness:
  "gen_inv demo_gen \<and> maps_sorted demo_gen"
  by (rule generator_invariant [OF demo_built])

end
