(* ===== verification/Ram.thy ===== *)
theory Ram
  imports Containers
begin

text \<open>
  The main memory of the console, \<^verbatim>\<open>g_ee_main_mem\<close>, as the C++ kernel sees it through \<^verbatim>\<open>Ptr<T>\<close> of
  \<^verbatim>\<open>game/kernel/Ptr.h\<close>: bytes at 32-bit addresses, with loads and stores of little-endian words. An
  access outside the \<open>EE_MAIN_MEM_SIZE\<close> bytes of the array is undefined behaviour in C++; here it
  reads and writes the byte of that address, so what is proved speaks of addresses below that size.
\<close>

type_synonym ram = "u32 \<Rightarrow> u8"

definition EE_MAIN_MEM_SIZE :: nat where
  "EE_MAIN_MEM_SIZE = 128 * (1 * 2 ^ 20)"

section \<open>Blocks of addresses\<close>

text \<open>The \<open>n\<close> addresses from \<open>a\<close> on.\<close>

definition in_block :: "u32 \<Rightarrow> nat \<Rightarrow> u32 \<Rightarrow> bool" where
  "in_block a n x \<longleftrightarrow> unat (x - a) < n"

definition blocks_apart :: "u32 \<Rightarrow> nat \<Rightarrow> u32 \<Rightarrow> nat \<Rightarrow> bool" where
  "blocks_apart a n b k \<longleftrightarrow> (\<forall>x. in_block a n x \<longrightarrow> \<not> in_block b k x)"

lemma blocks_apart_sym: "blocks_apart a n b k \<Longrightarrow> blocks_apart b k a n"
  by (auto simp: blocks_apart_def)

lemma blocks_apart_sub:
  "blocks_apart a n b k \<Longrightarrow> n' \<le> n \<Longrightarrow> k' \<le> k \<Longrightarrow> blocks_apart a n' b k'"
  unfolding blocks_apart_def in_block_def by (meson order.strict_trans2)

lemma unat_minus_u32: "unat (x - a :: u32) = (if a \<le> x then unat x - unat a else 2 ^ 32 + unat x - unat a)"
  using unat_sub_if' [of x a] unsigned_less [of a] by (auto simp: word_le_nat_alt)

lemma in_block_nat:
  assumes "unat a + n \<le> 2 ^ 32"
  shows "in_block a n x \<longleftrightarrow> unat a \<le> unat x \<and> unat x < unat a + n"
proof -
  have "unat a < 2 ^ 32" using unsigned_less [of a] by simp
  then show ?thesis using assms by (auto simp: in_block_def unat_minus_u32 word_le_nat_alt split: if_splits)
qed

lemma blocks_apartI:
  assumes "unat a + n \<le> 2 ^ 32" "unat b + k \<le> 2 ^ 32" "unat a + n \<le> unat b \<or> unat b + k \<le> unat a"
  shows "blocks_apart a n b k"
  using assms by (auto simp: blocks_apart_def in_block_nat)

lemma blocks_apart_fields:
  assumes "i + n \<le> j \<or> j + k \<le> i" "i + n \<le> 2 ^ 32" "j + k \<le> 2 ^ 32"
  shows "blocks_apart (h + of_nat i) n (h + of_nat j) k"
proof -
  have *: "blocks_apart (h + of_nat i) n (h + of_nat j) k" if "i + n \<le> j" "j + k \<le> 2 ^ 32" for i n j k
    unfolding blocks_apart_def in_block_def
  proof (intro allI impI notI)
    fix x assume x: "unat (x - (h + of_nat i)) < n" "unat (x - (h + of_nat j)) < k"
    define y where "y = x - (h + of_nat i)"
    define e :: u32 where "e = of_nat (j - i)"
    have "x - (h + of_nat j) = y - e" using that by (simp add: y_def e_def of_nat_diff)
    then have "unat (y - e) < k" using x(2) by simp
    moreover have "j - i < 2 ^ 32" using that x(2) by simp
    then have "unat e = j - i" unfolding e_def by (simp add: unat_of_nat take_bit_nat_eq_self del: of_nat_diff)
    moreover have "unat y < n" using x(1) by (simp add: y_def)
    ultimately show False
      using that unat_minus_u32 [of y e] by (simp add: word_le_nat_alt split: if_splits)
  qed
  from assms(1) show ?thesis
    using * [of i n j k] * [of j k i n] assms(2,3) blocks_apart_sym by blast
qed

section \<open>Loads and stores\<close>

definition bytes_at :: "ram \<Rightarrow> u32 \<Rightarrow> nat \<Rightarrow> u8 list" where
  "bytes_at m a n = map (\<lambda>i. m (a + of_nat i)) [0..<n]"

definition store_bytes :: "u32 \<Rightarrow> u8 list \<Rightarrow> ram \<Rightarrow> ram" where
  "store_bytes a bs m = (\<lambda>x. if unat (x - a) < length bs then bs ! unat (x - a) else m x)"

definition load32 :: "ram \<Rightarrow> u32 \<Rightarrow> u32" where
  "load32 m a = le_word (bytes_at m a 4)"

definition store32 :: "u32 \<Rightarrow> u32 \<Rightarrow> ram \<Rightarrow> ram" where
  "store32 a v = store_bytes a (le_bytes 4 v)"

definition load16 :: "ram \<Rightarrow> u32 \<Rightarrow> u16" where
  "load16 m a = le_word (bytes_at m a 2)"

definition store16 :: "u32 \<Rightarrow> u16 \<Rightarrow> ram \<Rightarrow> ram" where
  "store16 a v = store_bytes a (le_bytes 2 v)"

text \<open>\<^verbatim>\<open>memset\<close> and \<^verbatim>\<open>memcpy\<close> of regions that do not overlap.\<close>

definition memset :: "u32 \<Rightarrow> u8 \<Rightarrow> nat \<Rightarrow> ram \<Rightarrow> ram" where
  "memset a v n m = (\<lambda>x. if in_block a n x then v else m x)"

definition memcpy :: "u32 \<Rightarrow> u32 \<Rightarrow> nat \<Rightarrow> ram \<Rightarrow> ram" where
  "memcpy dst src n m = store_bytes dst (bytes_at m src n) m"

lemma length_bytes_at [simp]: "length (bytes_at m a n) = n"
  by (simp add: bytes_at_def)

lemma store_bytes_outside: "\<not> in_block a (length bs) x \<Longrightarrow> store_bytes a bs m x = m x"
  by (simp add: store_bytes_def in_block_def)

lemma memset_outside: "\<not> in_block a n x \<Longrightarrow> memset a v n m x = m x"
  by (simp add: memset_def)

lemma in_block_offset: "i < n \<Longrightarrow> n \<le> 2 ^ 32 \<Longrightarrow> in_block a n (a + of_nat i)"
  by (simp add: in_block_def unat_of_nat take_bit_nat_eq_self)

lemma bytes_at_cong:
  assumes "\<And>x. in_block a n x \<Longrightarrow> m' x = m x" "n \<le> 2 ^ 32"
  shows "bytes_at m' a n = bytes_at m a n"
  using assms in_block_offset [of _ n a] by (simp add: bytes_at_def)

lemma bytes_at_store_same:
  "length bs \<le> 2 ^ 32 \<Longrightarrow> bytes_at (store_bytes a bs m) a (length bs) = bs"
  by (intro nth_equalityI) (simp_all add: bytes_at_def store_bytes_def unat_of_nat take_bit_nat_eq_self)

lemma bytes_at_store_other:
  "blocks_apart a n b (length bs) \<Longrightarrow> n \<le> 2 ^ 32 \<Longrightarrow> bytes_at (store_bytes b bs m) a n = bytes_at m a n"
  by (rule bytes_at_cong) (auto simp: blocks_apart_def intro: store_bytes_outside)

lemma load32_cong: "(\<And>x. in_block a 4 x \<Longrightarrow> m' x = m x) \<Longrightarrow> load32 m' a = load32 m a"
  by (simp add: load32_def bytes_at_cong [of a 4 m' m])

lemma load32_store32_same [simp]: "load32 (store32 a v m) a = v"
  using bytes_at_store_same [of "le_bytes 4 v" a m] by (simp add: load32_def store32_def)

lemma load32_store32_other: "blocks_apart a 4 b 4 \<Longrightarrow> load32 (store32 b v m) a = load32 m a"
  by (rule load32_cong) (auto simp: blocks_apart_def store32_def intro: store_bytes_outside)

lemma load32_store_bytes_other:
  "blocks_apart a 4 b (length bs) \<Longrightarrow> load32 (store_bytes b bs m) a = load32 m a"
  by (rule load32_cong) (auto simp: blocks_apart_def intro: store_bytes_outside)

lemma load32_memset_other: "blocks_apart a 4 b n \<Longrightarrow> load32 (memset b v n m) a = load32 m a"
  by (rule load32_cong) (auto simp: blocks_apart_def intro: memset_outside)

lemma store32_outside: "\<not> in_block a 4 x \<Longrightarrow> store32 a v m x = m x"
  by (simp add: store32_def store_bytes_outside)

lemma load16_store16_same [simp]: "load16 (store16 a v m) a = v"
  using bytes_at_store_same [of "le_bytes 2 v" a m] by (simp add: load16_def store16_def)

lemma load16_store16_other: "blocks_apart a 2 b 2 \<Longrightarrow> load16 (store16 b v m) a = load16 m a"
  using bytes_at_store_other [of a 2 b "le_bytes 2 v" m] by (simp add: load16_def store16_def)

lemma load32_store16_other: "blocks_apart a 4 b 2 \<Longrightarrow> load32 (store16 b v m) a = load32 m a"
  by (simp add: store16_def load32_store_bytes_other)

lemma load16_store32_other: "blocks_apart a 2 b 4 \<Longrightarrow> load16 (store32 b v m) a = load16 m a"
  using bytes_at_store_other [of a 2 b "le_bytes 4 v" m] by (simp add: load16_def store32_def)

end
