(* ===== verification/Alloc_Spec.thy ===== *)
theory Alloc_Spec
  imports Prelude
begin

text \<open>
  What a client may rely on of an allocator that never frees: blocks come out of the free addresses
  and leave them, and what was outside the free addresses keeps its contents. Proved once here for
  every sequence of requests.
\<close>

section \<open>Runs of requests\<close>

text \<open>A refused request changes nothing and the run goes on; the blocks are listed in order.\<close>

fun alloc_run :: "('r \<Rightarrow> 's \<Rightarrow> ('s \<times> nat set) option) \<Rightarrow> 'r list \<Rightarrow> 's \<Rightarrow> 's \<times> nat set list" where
  "alloc_run alloc [] s = (s, [])"
| "alloc_run alloc (r # rs) s =
    (case alloc r s of
       None \<Rightarrow> alloc_run alloc rs s
     | Some (s, b) \<Rightarrow> let (t, bs) = alloc_run alloc rs s in (t, b # bs))"

definition all_disjoint :: "nat set list \<Rightarrow> bool" where
  "all_disjoint bs \<longleftrightarrow> sorted_wrt (\<lambda>a b. a \<inter> b = {}) bs"

section \<open>Disjoint blocks\<close>

locale region_alloc =
  fixes inv :: "'s \<Rightarrow> bool"
    and free :: "'s \<Rightarrow> nat set"
    and alloc :: "'r \<Rightarrow> 's \<Rightarrow> ('s \<times> nat set) option"
  assumes alloc_inv: "inv s \<Longrightarrow> alloc r s = Some (s', b) \<Longrightarrow> inv s'"
    and alloc_block: "inv s \<Longrightarrow> alloc r s = Some (s', b) \<Longrightarrow> b \<subseteq> free s"
    and alloc_free: "inv s \<Longrightarrow> alloc r s = Some (s', b) \<Longrightarrow> free s' \<subseteq> free s - b"
begin

lemma run_keeps:
  assumes "alloc_run alloc rs s = (t, bs)" "inv s"
  shows "inv t \<and> free t \<subseteq> free s - \<Union>(set bs) \<and> \<Union>(set bs) \<subseteq> free s"
  using assms
proof (induction rs arbitrary: s bs)
  case (Cons r rs)
  show ?case
  proof (cases "alloc r s")
    case None
    with Cons show ?thesis by simp
  next
    case (Some x)
    obtain s' b where x: "x = (s', b)" by (cases x)
    with Some Cons.prems obtain bs' where bs: "alloc_run alloc rs s' = (t, bs')" "bs = b # bs'"
      by (auto split: prod.splits)
    have f: "alloc r s = Some (s', b)" using Some x by simp
    note a = alloc_inv [OF Cons.prems(2) f] alloc_block [OF Cons.prems(2) f] alloc_free [OF Cons.prems(2) f]
    note ih = Cons.IH [OF bs(1) a(1)]
    have "free t \<subseteq> free s - \<Union>(set bs)" using ih a(3) by (auto simp: bs(2))
    moreover have "\<Union>(set bs) \<subseteq> free s" using ih a(2,3) by (auto simp: bs(2))
    ultimately show ?thesis using ih by blast
  qed
qed simp

lemma run_disjoint:
  assumes "alloc_run alloc rs s = (t, bs)" "inv s"
  shows "all_disjoint bs"
  using assms
proof (induction rs arbitrary: s bs)
  case (Cons r rs)
  show ?case
  proof (cases "alloc r s")
    case None
    with Cons show ?thesis by simp
  next
    case (Some x)
    obtain s' b where x: "x = (s', b)" by (cases x)
    with Some Cons.prems obtain bs' where bs: "alloc_run alloc rs s' = (t, bs')" "bs = b # bs'"
      by (auto split: prod.splits)
    have i: "inv s'" using alloc_inv [OF Cons.prems(2)] Some x by simp
    have "\<Union>(set bs') \<subseteq> free s - b"
      using run_keeps [OF bs(1) i] alloc_free [OF Cons.prems(2)] Some x by blast
    with Cons.IH [OF bs(1) i] show ?thesis by (auto simp: all_disjoint_def bs(2))
  qed
qed (simp add: all_disjoint_def)

end

section \<open>Contents\<close>

text \<open>\<open>kept s\<close> are the addresses whose contents no allocation may touch.\<close>

locale storage_alloc = region_alloc +
  fixes read :: "'s \<Rightarrow> nat \<Rightarrow> 'v"
    and kept :: "'s \<Rightarrow> nat set"
  assumes alloc_kept: "inv s \<Longrightarrow> alloc r s = Some (s', b) \<Longrightarrow> kept s \<union> b \<subseteq> kept s'"
    and alloc_reads: "inv s \<Longrightarrow> alloc r s = Some (s', b) \<Longrightarrow> x \<in> kept s \<Longrightarrow> read s' x = read s x"
begin

lemma run_reads:
  assumes "alloc_run alloc rs s = (t, bs)" "inv s" "x \<in> kept s"
  shows "read t x = read s x"
  using assms
proof (induction rs arbitrary: s bs)
  case (Cons r rs)
  show ?case
  proof (cases "alloc r s")
    case None
    with Cons show ?thesis by simp
  next
    case (Some y)
    obtain s' b where y: "y = (s', b)" by (cases y)
    with Some Cons.prems(1) obtain bs' where bs: "alloc_run alloc rs s' = (t, bs')"
      by (auto split: prod.splits)
    note a = alloc_inv [OF Cons.prems(2)] alloc_kept [OF Cons.prems(2)] alloc_reads [OF Cons.prems(2)]
    have "read t x = read s' x" using Cons.IH [OF bs a(1)] Some y a(2) Cons.prems(3) by blast
    with a(3) Some y Cons.prems(3) show ?thesis by simp
  qed
qed simp

text \<open>A block that was handed out keeps what is written in it, whatever is requested later.\<close>

lemma block_reads:
  assumes "inv s" "alloc r s = Some (s', b)" "alloc_run alloc rs s' = (t, bs)" "x \<in> b"
  shows "read t x = read s' x"
  using assms alloc_inv [OF assms(1,2)] alloc_kept [OF assms(1,2)] run_reads [OF assms(3)] by blast

end

end
