(* ===== verification/Kmalloc.thy ===== *)
theory Kmalloc
  imports Ram Alloc_Spec
begin

text \<open>
  The kernel heap allocator, \<^verbatim>\<open>game/kernel/kmalloc.cpp\<close> and \<^verbatim>\<open>.h\<close>: two bump allocators that grow
  towards each other in the memory between \<^verbatim>\<open>base\<close> and \<^verbatim>\<open>top_base\<close>. A \<^verbatim>\<open>kheapinfo\<close> lives in main
  memory, and its fields are read and written there. A \<^verbatim>\<open>memset\<close> of a negative size is undefined
  behaviour (\<open>None\<close>); the messages are not modelled.
\<close>

section \<open>The heap record in memory\<close>

definition GLOBAL_HEAP_INFO_ADDR :: u32 where "GLOBAL_HEAP_INFO_ADDR = 0x13AD00"
definition DEBUG_HEAP_INFO_ADDR :: u32 where "DEBUG_HEAP_INFO_ADDR = 0x13AD10"

definition KMALLOC_TOP :: u32 where "KMALLOC_TOP = 0x2000"
definition KMALLOC_MEMSET :: u32 where "KMALLOC_MEMSET = 0x1000"
definition KMALLOC_ALIGN_256 :: u32 where "KMALLOC_ALIGN_256 = 0x100"
definition KMALLOC_ALIGN_64 :: u32 where "KMALLOC_ALIGN_64 = 0x40"
definition KMALLOC_ALIGN_16 :: u32 where "KMALLOC_ALIGN_16 = 0x10"

text \<open>The value of \<^verbatim>\<open>kglobalheap\<close> after \<^verbatim>\<open>kmalloc_init_globals\<close>.\<close>

definition kglobalheap :: u32 where "kglobalheap = GLOBAL_HEAP_INFO_ADDR"
definition kdebugheap :: u32 where "kdebugheap = DEBUG_HEAP_INFO_ADDR"

definition heap_base :: "ram \<Rightarrow> u32 \<Rightarrow> u32" where "heap_base m h = load32 m h"
definition heap_top :: "ram \<Rightarrow> u32 \<Rightarrow> u32" where "heap_top m h = load32 m (h + 4)"
definition heap_current :: "ram \<Rightarrow> u32 \<Rightarrow> u32" where "heap_current m h = load32 m (h + 8)"
definition heap_top_base :: "ram \<Rightarrow> u32 \<Rightarrow> u32" where "heap_top_base m h = load32 m (h + 12)"

definition set_heap_base :: "u32 \<Rightarrow> u32 \<Rightarrow> ram \<Rightarrow> ram" where "set_heap_base h v = store32 h v"
definition set_heap_top :: "u32 \<Rightarrow> u32 \<Rightarrow> ram \<Rightarrow> ram" where "set_heap_top h v = store32 (h + 4) v"
definition set_heap_current :: "u32 \<Rightarrow> u32 \<Rightarrow> ram \<Rightarrow> ram" where "set_heap_current h v = store32 (h + 8) v"
definition set_heap_top_base :: "u32 \<Rightarrow> u32 \<Rightarrow> ram \<Rightarrow> ram" where "set_heap_top_base h v = store32 (h + 12) v"

section \<open>Operations\<close>

text \<open>\<^verbatim>\<open>std::memset(p, 0, (size_t)size)\<close>\<close>

definition clear_mem :: "u32 \<Rightarrow> s32 \<Rightarrow> ram \<Rightarrow> ram option" where
  "clear_mem a sz m = (if 0 \<le> sint sz then Some (memset a 0 (unat sz) m) else None)"

definition kinitheap :: "u32 \<Rightarrow> u32 \<Rightarrow> s32 \<Rightarrow> ram \<Rightarrow> (ram \<times> u32) option" where
  "kinitheap heap mem sz m = do {
     let m = set_heap_base heap mem m;
     let m = set_heap_current heap mem m;
     let m = set_heap_top heap (mem + sz) m;
     let m = set_heap_top_base heap (heap_top m heap) m;
     m \<leftarrow> clear_mem mem sz m;
     Some (m, heap)
   }"

definition kheapused :: "ram \<Rightarrow> u32 \<Rightarrow> u32" where
  "kheapused m heap = heap_current m heap - heap_base m heap"

definition kmalloc :: "u32 \<Rightarrow> s32 \<Rightarrow> u32 \<Rightarrow> ram \<Rightarrow> (ram \<times> u32) option" where
  "kmalloc heap sz flags m =
    (let alignment_flag = flags AND 0xfff;
         heap = (if heap = 0 then kglobalheap else heap)
     in
     if flags AND KMALLOC_TOP = 0 then
       let memstart =
         (if alignment_flag = KMALLOC_ALIGN_64 then 0xffffffc0 AND (heap_current m heap + 0x40 - 1)
          else if alignment_flag = KMALLOC_ALIGN_256 then 0xffffff00 AND (heap_current m heap + 0x100 - 1)
          else 0xfffffff0 AND (heap_current m heap + 0x10 - 1))
       in
       if sz = 0 then Some (m, memstart)
       else
         let memend = memstart + sz in
         if heap_top m heap < memend then Some (m, 0)
         else
           let m = set_heap_current heap memend m in
           do {
             m \<leftarrow> (if flags AND KMALLOC_MEMSET \<noteq> 0 then clear_mem memstart sz m else Some m);
             Some (m, memstart)
           }
     else
       let alignment_flag = (if alignment_flag = 0 then KMALLOC_ALIGN_16 else alignment_flag);
           memstart = (heap_top m heap - sz) AND (- alignment_flag)
       in
       if sz = 0 then Some (m, memstart)
       else if memstart \<le> heap_current m heap then Some (m, 0)
       else
         let m = set_heap_top heap memstart m in
         do {
           m \<leftarrow> (if flags AND KMALLOC_MEMSET \<noteq> 0 then clear_mem memstart sz m else Some m);
           Some (m, memstart)
         })"

text \<open>\<^verbatim>\<open>kfree\<close> frees nothing.\<close>

definition kfree :: "u32 \<Rightarrow> ram \<Rightarrow> ram" where
  "kfree a m = m"

section \<open>Alignment of words\<close>

lemma mask_down:
  assumes "n < 32"
  shows "unat (a AND NOT (mask n) :: u32) = unat a - unat a mod 2 ^ n"
proof -
  have "a AND NOT (mask n) = push_bit n (drop_bit n a)"
    by (rule bit_word_eqI) (auto simp: bit_simps)
  moreover have "unat (push_bit n (drop_bit n a)) = unat a div 2 ^ n * 2 ^ n"
  proof -
    have "unat a div 2 ^ n * 2 ^ n \<le> unat a" by simp
    moreover have "unat a < 2 ^ 32" using unsigned_less [of a] by simp
    ultimately have "unat a div 2 ^ n * 2 ^ n < 2 ^ 32" by linarith
    moreover have "unat (push_bit n (drop_bit n a)) = take_bit 32 (unat a div 2 ^ n * 2 ^ n)"
      using \<open>unat a < 2 ^ 32\<close> unfolding unsigned_push_bit_eq unsigned_drop_bit_eq
      by (simp add: drop_bit_eq_div push_bit_eq_mult take_bit_nat_eq_self)
    ultimately show ?thesis by (simp add: take_bit_nat_eq_self)
  qed
  ultimately show ?thesis by (metis minus_mod_eq_div_mult)
qed

lemma mask_words:
  "(0xffffffc0 :: u32) = NOT (mask 6)" "(0xffffff00 :: u32) = NOT (mask 8)" "(0xfffffff0 :: u32) = NOT (mask 4)"
  "(- 0x40 :: u32) = NOT (mask 6)" "(- 0x100 :: u32) = NOT (mask 8)" "(- 0x10 :: u32) = NOT (mask 4)"
  by (simp_all add: mask_eq_exp_minus_1)

section \<open>The fields of the record\<close>

lemma field_apart:
  "blocks_apart (h + 4) 4 h 4" "blocks_apart (h + 8) 4 h 4" "blocks_apart (h + 12) 4 h 4"
  "blocks_apart (h + 8) 4 (h + 4) 4" "blocks_apart (h + 12) 4 (h + 4) 4" "blocks_apart (h + 12) 4 (h + 8) 4"
  using blocks_apart_fields [of 4 4 0 4 h] blocks_apart_fields [of 8 4 0 4 h] blocks_apart_fields [of 12 4 0 4 h]
    blocks_apart_fields [of 8 4 4 4 h] blocks_apart_fields [of 12 4 4 4 h] blocks_apart_fields [of 12 4 8 4 h]
  by simp_all

lemmas field_apart_both = field_apart field_apart [THEN blocks_apart_sym]

lemmas heap_fields = heap_base_def heap_top_def heap_current_def heap_top_base_def
lemmas heap_setters = set_heap_base_def set_heap_top_def set_heap_current_def set_heap_top_base_def

lemma heap_after_set [simp]:
  "heap_top (set_heap_current h v m) h = heap_top m h"
  "heap_current (set_heap_current h v m) h = v"
  "heap_base (set_heap_current h v m) h = heap_base m h"
  "heap_top_base (set_heap_current h v m) h = heap_top_base m h"
  "heap_top (set_heap_top h v m) h = v"
  "heap_current (set_heap_top h v m) h = heap_current m h"
  "heap_base (set_heap_top h v m) h = heap_base m h"
  "heap_top_base (set_heap_top h v m) h = heap_top_base m h"
  by (simp_all add: heap_fields heap_setters load32_store32_other field_apart_both)

text \<open>The whole record, as one block.\<close>

lemma in_field:
  assumes "in_block (h + of_nat i) 4 x" "i + 4 \<le> 16"
  shows "in_block h 16 x"
proof -
  have u: "unat (x - (h + of_nat i)) < 4" using assms(1) by (simp add: in_block_def)
  have "x - h = (x - (h + of_nat i)) + of_nat i" by simp
  moreover have "unat (of_nat i :: u32) = i" using assms(2) by (simp add: unat_of_nat take_bit_nat_eq_self)
  ultimately have "unat (x - h) < 16"
    using u assms(2) unat_plus_if' [of "x - (h + of_nat i)" "of_nat i :: u32"] by simp
  then show ?thesis by (simp add: in_block_def)
qed

lemma heap_outside_record:
  assumes "blocks_apart h 16 a n"
  shows "heap_base (memset a v n m) h = heap_base m h" "heap_top (memset a v n m) h = heap_top m h"
    "heap_current (memset a v n m) h = heap_current m h" "heap_top_base (memset a v n m) h = heap_top_base m h"
proof -
  have "blocks_apart (h + of_nat i) 4 a n" if "i + 4 \<le> 16" for i
    using assms in_field [OF _ that] by (auto simp: blocks_apart_def)
  from this [of 0] this [of 4] this [of 8] this [of 12]
  show "heap_base (memset a v n m) h = heap_base m h" "heap_top (memset a v n m) h = heap_top m h"
    "heap_current (memset a v n m) h = heap_current m h" "heap_top_base (memset a v n m) h = heap_top_base m h"
    by (simp_all add: heap_fields load32_memset_other)
qed

lemma set_outside_record:
  assumes "\<not> in_block h 16 x"
  shows "set_heap_current h v m x = m x" "set_heap_top h v m x = m x"
proof -
  have "\<not> in_block (h + 8) 4 x" "\<not> in_block (h + 4) 4 x"
    using assms in_field [of h 8 x] in_field [of h 4 x] by auto
  then show "set_heap_current h v m x = m x" "set_heap_top h v m x = m x"
    by (simp_all add: heap_setters store32_def store_bytes_outside)
qed

section \<open>Invariant and abstract allocator\<close>

definition heap_ok :: "u32 \<Rightarrow> ram \<Rightarrow> bool" where
  "heap_ok h m \<longleftrightarrow> h \<noteq> 0 \<and> 0 < heap_base m h \<and> heap_base m h \<le> heap_current m h \<and>
     heap_current m h \<le> heap_top m h \<and> heap_top m h \<le> heap_top_base m h \<and>
     unat (heap_top_base m h) \<le> EE_MAIN_MEM_SIZE \<and> unat h + 16 \<le> 2 ^ 32 \<and>
     (unat h + 16 \<le> unat (heap_base m h) \<or> heap_top_base m h \<le> h)"

definition free_range :: "u32 \<Rightarrow> ram \<Rightarrow> nat set" where
  "free_range h m = {unat (heap_current m h) ..< unat (heap_top m h)}"

definition align_of :: "u32 \<Rightarrow> nat" where
  "align_of flags = (if flags AND 0xfff = KMALLOC_ALIGN_64 then 64
     else if flags AND 0xfff = KMALLOC_ALIGN_256 then 256 else 16)"

definition align_up :: "nat \<Rightarrow> nat \<Rightarrow> nat" where
  "align_up a c = (c + a - 1) - (c + a - 1) mod a"

definition align_down :: "nat \<Rightarrow> nat \<Rightarrow> nat" where
  "align_down a t = t - t mod a"

text \<open>
  What the caller asks for: a positive size, an alignment the code knows, and from the top no more
  than the address of the top itself.
\<close>

definition request_ok :: "u32 \<Rightarrow> s32 \<Rightarrow> u32 \<Rightarrow> ram \<Rightarrow> bool" where
  "request_ok h sz flags m \<longleftrightarrow> 0 < sint sz \<and>
     flags AND 0xfff \<in> {0, KMALLOC_ALIGN_16, KMALLOC_ALIGN_64, KMALLOC_ALIGN_256} \<and>
     (flags AND KMALLOC_TOP \<noteq> 0 \<longrightarrow> unat sz \<le> unat (heap_top m h))"

text \<open>The allocator on numbers: the new block and the new bounds of the free range.\<close>

definition abs_alloc :: "bool \<Rightarrow> nat \<Rightarrow> nat \<Rightarrow> nat \<times> nat \<Rightarrow> (nat \<times> nat \<times> nat) option" where
  "abs_alloc from_top a n = (\<lambda>(c, t).
     if from_top then (let p = align_down a (t - n) in if p \<le> c then None else Some (p, c, p))
     else (let p = align_up a c in if t < p + n then None else Some (p, p + n, t)))"

lemma align_up_props: "0 < a \<Longrightarrow> c \<le> align_up a c \<and> align_up a c mod a = 0 \<and> align_up a c < c + a"
proof -
  assume a: "0 < a"
  let ?x = "c + a - 1"
  have "?x mod a < a" using a by simp
  moreover have "(?x - ?x mod a) mod a = 0" by (metis minus_mod_eq_div_mult mod_mult_self2_is_0)
  moreover have "?x mod a \<le> ?x" by simp
  ultimately show ?thesis using a unfolding align_up_def by linarith
qed

lemma align_down_props: "align_down a t \<le> t \<and> align_down a t mod a = 0"
  by (simp add: align_down_def)

lemma positive_size:
  assumes "0 < sint (sz :: s32)"
  shows "0 < unat sz" "unat sz < 2 ^ 31" "sz \<noteq> 0"
proof -
  show "sz \<noteq> 0" using assms by auto
  then show "0 < unat sz" by (simp add: unat_gt_0)
  have b: "\<not> bit sz 31" using assms bit_last_iff [of sz] by simp
  have "sz = take_bit 31 sz"
  proof (rule bit_word_eqI)
    fix k assume "k < LENGTH(32)"
    then show "bit sz k \<longleftrightarrow> bit (take_bit 31 sz) k" using b by (cases "k = 31") (auto simp: bit_take_bit_iff)
  qed
  then have "unat sz = take_bit 31 (unat sz)" by (metis unsigned_take_bit_eq)
  then show "unat sz < 2 ^ 31" by (metis take_bit_nat_less_exp)
qed

section \<open>The code refines the abstract allocator\<close>

lemma unat_bottom:
  assumes "unat c + 255 < 2 ^ 32" "a = 2 ^ n" "n \<in> {4, 6, 8}"
  shows "unat (NOT (mask n) AND (c + of_nat a - 1) :: u32) = align_up a (unat c)"
proof -
  have a: "0 < a" "a \<le> 256" using assms(2,3) by auto
  define e :: u32 where "e = of_nat (a - 1)"
  have c: "c + of_nat a - 1 = c + e" using a by (simp add: e_def of_nat_diff)
  have "unat e = a - 1" unfolding e_def using a by (simp add: unat_of_nat take_bit_nat_eq_self del: of_nat_diff)
  then have "unat (c + e) = unat c + a - 1" using a assms(1) unat_plus_if' [of c e] by simp
  then have "unat (c + of_nat a - 1) = unat c + a - 1" by (simp only: c)
  then show ?thesis
    using mask_down [of n "c + of_nat a - 1"] assms(2,3) by (auto simp: align_up_def and.commute)
qed

lemma unat_top:
  assumes "unat sz \<le> unat t" "a = 2 ^ n" "n \<in> {4, 6, 8}"
  shows "unat ((t - sz) AND NOT (mask n) :: u32) = align_down a (unat t - unat sz)"
  using mask_down [of n "t - sz"] assms by (auto simp: align_down_def unat_minus_u32 word_le_nat_alt)

text \<open>What a successful allocation of \<open>n\<close> bytes at \<open>p\<close> does to memory.\<close>

definition allocated :: "u32 \<Rightarrow> u32 \<Rightarrow> nat \<Rightarrow> u32 \<Rightarrow> ram \<Rightarrow> ram \<Rightarrow> bool" where
  "allocated h flags n p m m' \<longleftrightarrow>
     heap_base m' h = heap_base m h \<and> heap_top_base m' h = heap_top_base m h \<and>
     (\<forall>x. \<not> in_block h 16 x \<and> \<not> in_block p n x \<longrightarrow> m' x = m x) \<and>
     (\<forall>x. in_block p n x \<longrightarrow> m' x = (if flags AND KMALLOC_MEMSET \<noteq> 0 then 0 else m x))"

text \<open>Setting a bound, then clearing the block if asked.\<close>

lemma finish_allocation:
  assumes "blocks_apart h 16 p (unat sz)" "0 < sint sz"
    and m1: "m1 = set_heap_current h v m \<or> m1 = set_heap_top h v m"
  shows "\<exists>m'. (if flags AND KMALLOC_MEMSET \<noteq> 0 then clear_mem p sz m1 else Some m1) = Some m' \<and>
    allocated h flags (unat sz) p m m' \<and> heap_current m' h = heap_current m1 h \<and> heap_top m' h = heap_top m1 h"
proof -
  have out: "\<And>x. in_block p (unat sz) x \<Longrightarrow> \<not> in_block h 16 x" using assms(1) by (auto simp: blocks_apart_def)
  have eq: "\<And>x. \<not> in_block h 16 x \<Longrightarrow> m1 x = m x" using m1 by (auto simp: set_outside_record)
  have f: "heap_base m1 h = heap_base m h" "heap_top_base m1 h = heap_top_base m h" using m1 by auto
  show ?thesis
  proof (cases "flags AND KMALLOC_MEMSET = 0")
    case True
    then show ?thesis using f eq out by (simp add: allocated_def)
  next
    case False
    then show ?thesis
      using f eq out assms(2) heap_outside_record [OF assms(1)]
      by (auto simp: allocated_def clear_mem_def memset_def)
  qed
qed

lemma align_mask:
  assumes "flags AND 0xfff \<in> {0, KMALLOC_ALIGN_16, KMALLOC_ALIGN_64, KMALLOC_ALIGN_256}"
  obtains n where "align_of flags = 2 ^ n" "n \<in> {4, 6, 8 :: nat}"
    "\<And>c :: u32. (if flags AND 0xfff = KMALLOC_ALIGN_64 then 0xffffffc0 AND (c + 0x40 - 1)
          else if flags AND 0xfff = KMALLOC_ALIGN_256 then 0xffffff00 AND (c + 0x100 - 1)
          else 0xfffffff0 AND (c + 0x10 - 1)) = NOT (mask n) AND (c + of_nat (align_of flags) - 1)"
    "- (if flags AND 0xfff = 0 then KMALLOC_ALIGN_16 else flags AND 0xfff) = NOT (mask n)"
proof -
  have "\<exists>n. align_of flags = 2 ^ n \<and> n \<in> {4, 6, 8} \<and>
    (\<forall>c :: u32. (if flags AND 0xfff = KMALLOC_ALIGN_64 then 0xffffffc0 AND (c + 0x40 - 1)
          else if flags AND 0xfff = KMALLOC_ALIGN_256 then 0xffffff00 AND (c + 0x100 - 1)
          else 0xfffffff0 AND (c + 0x10 - 1)) = NOT (mask n) AND (c + of_nat (align_of flags) - 1)) \<and>
    - (if flags AND 0xfff = 0 then KMALLOC_ALIGN_16 else flags AND 0xfff) = NOT (mask n)"
  proof (cases "flags AND 0xfff = KMALLOC_ALIGN_64")
    case True
    then show ?thesis
      by (intro exI [of _ 6]) (simp add: align_of_def KMALLOC_ALIGN_64_def mask_words [symmetric])
  next
    case n64: False
    show ?thesis
    proof (cases "flags AND 0xfff = KMALLOC_ALIGN_256")
      case True
      then show ?thesis
        by (intro exI [of _ 8])
          (simp add: align_of_def KMALLOC_ALIGN_64_def KMALLOC_ALIGN_256_def mask_words [symmetric])
    next
      case False
      then show ?thesis using n64 assms
        by (intro exI [of _ 4]) (auto simp: align_of_def KMALLOC_ALIGN_16_def mask_words [symmetric])
    qed
  qed
  then show thesis using that by blast
qed

lemma heap_not_null: "heap_ok h m \<Longrightarrow> (if h = 0 then kglobalheap else h) = h"
  by (simp add: heap_ok_def)

lemma heap_ok_after:
  assumes "heap_ok h m" "allocated h flags n p m m'"
    and "heap_current m h \<le> heap_current m' h" "heap_current m' h \<le> heap_top m' h" "heap_top m' h \<le> heap_top m h"
  shows "heap_ok h m'"
proof -
  have "heap_base m' h = heap_base m h" "heap_top_base m' h = heap_top_base m h"
    using assms(2) by (simp_all add: allocated_def)
  then show ?thesis using assms(1,3-5) unfolding heap_ok_def word_le_nat_alt word_less_nat_alt by auto
qed

definition kmalloc_spec :: "u32 \<Rightarrow> s32 \<Rightarrow> u32 \<Rightarrow> ram \<Rightarrow> (ram \<times> u32) option \<Rightarrow> bool" where
  "kmalloc_spec h sz flags m r \<longleftrightarrow>
    (case abs_alloc (flags AND KMALLOC_TOP \<noteq> 0) (align_of flags) (unat sz)
            (unat (heap_current m h), unat (heap_top m h)) of
       None \<Rightarrow> r = Some (m, 0)
     | Some (q, c, t) \<Rightarrow> (\<exists>m' p. r = Some (m', p) \<and> unat p = q \<and> p \<noteq> 0 \<and> heap_ok h m' \<and>
         unat (heap_current m' h) = c \<and> unat (heap_top m' h) = t \<and> allocated h flags (unat sz) p m m'))"

lemma kmalloc_bottom:
  assumes "heap_ok h m" "request_ok h sz flags m" "flags AND KMALLOC_TOP = 0"
  shows "kmalloc_spec h sz flags m (kmalloc h sz flags m)"
proof -
  let ?c = "heap_current m h" let ?t = "heap_top m h" let ?a = "align_of flags"
  obtain n where n: "?a = 2 ^ n" "n \<in> {4, 6, 8 :: nat}"
    and start: "\<And>c :: u32. (if flags AND 0xfff = KMALLOC_ALIGN_64 then 0xffffffc0 AND (c + 0x40 - 1)
          else if flags AND 0xfff = KMALLOC_ALIGN_256 then 0xffffff00 AND (c + 0x100 - 1)
          else 0xfffffff0 AND (c + 0x10 - 1)) = NOT (mask n) AND (c + of_nat ?a - 1)"
    using assms(2) align_mask [of flags] unfolding request_ok_def by metis
  define p where "p = NOT (mask n) AND (?c + of_nat ?a - 1)"
  have top: "unat ?t \<le> 2 ^ 27" "unat ?c \<le> unat ?t"
    using assms(1) by (auto simp: heap_ok_def EE_MAIN_MEM_SIZE_def word_le_nat_alt)
  then have p: "unat p = align_up ?a (unat ?c)"
    using unat_bottom [of ?c ?a n] n by (simp add: p_def)
  have up: "unat ?c \<le> unat p" "unat p < unat ?c + 256"
    using align_up_props [of ?a "unat ?c"] n(2) unfolding p n(1) by auto
  have sz: "0 < sint sz" "0 < unat sz" "unat sz < 2 ^ 31" "sz \<noteq> 0"
    using assms(2) positive_size [of sz] by (auto simp: request_ok_def)
  have fin: "unat (p + sz) = unat p + unat sz"
    using up top sz unat_plus_if' [of p sz] by simp
  have c0: "0 < unat ?c" using assms(1) by (auto simp: heap_ok_def word_le_nat_alt word_less_nat_alt)
  have k: "kmalloc h sz flags m = (if ?t < p + sz then Some (m, 0) else
      do { m \<leftarrow> (if flags AND KMALLOC_MEMSET \<noteq> 0 then clear_mem p sz (set_heap_current h (p + sz) m)
                 else Some (set_heap_current h (p + sz) m)); Some (m, p) })"
    unfolding kmalloc_def Let_def heap_not_null [OF assms(1)] start p_def [symmetric]
    using assms(3) sz(4) by simp
  show ?thesis
  proof (cases "?t < p + sz")
    case True
    then have "unat ?t < align_up ?a (unat ?c) + unat sz" using fin p by (simp add: word_less_nat_alt)
    then show ?thesis using True k assms(3) by (simp add: kmalloc_spec_def abs_alloc_def Let_def)
  next
    case False
    then have fits: "unat p + unat sz \<le> unat ?t" using fin by (simp add: word_less_nat_alt)
    have "blocks_apart h 16 p (unat sz)"
      using assms(1) fits up(1) top by (intro blocks_apartI) (auto simp: heap_ok_def word_le_nat_alt)
    from finish_allocation [OF this sz(1), of "set_heap_current h (p + sz) m" "p + sz" m flags]
    obtain m' where m': "(if flags AND KMALLOC_MEMSET \<noteq> 0 then clear_mem p sz (set_heap_current h (p + sz) m)
        else Some (set_heap_current h (p + sz) m)) = Some m'" "allocated h flags (unat sz) p m m'"
      "heap_current m' h = p + sz" "heap_top m' h = ?t"
      by auto
    have "heap_ok h m'"
      using assms(1) m'(2) by (rule heap_ok_after) (use up fin fits m' in \<open>auto simp: word_le_nat_alt\<close>)
    moreover have "p \<noteq> 0" using c0 up(1) by auto
    ultimately show ?thesis
      using False k m' assms(3) fits fin p by (auto simp: kmalloc_spec_def abs_alloc_def Let_def)
  qed
qed

lemma kmalloc_top:
  assumes "heap_ok h m" "request_ok h sz flags m" "flags AND KMALLOC_TOP \<noteq> 0"
  shows "kmalloc_spec h sz flags m (kmalloc h sz flags m)"
proof -
  let ?c = "heap_current m h" let ?t = "heap_top m h" let ?a = "align_of flags"
  obtain n where n: "?a = 2 ^ n" "n \<in> {4, 6, 8 :: nat}"
    and start: "- (if flags AND 0xfff = 0 then KMALLOC_ALIGN_16 else flags AND 0xfff) = NOT (mask n)"
    using assms(2) align_mask [of flags] unfolding request_ok_def by metis
  define p where "p = (?t - sz) AND NOT (mask n)"
  have top: "unat ?t \<le> 2 ^ 27" "unat ?c \<le> unat ?t"
    using assms(1) by (auto simp: heap_ok_def EE_MAIN_MEM_SIZE_def word_le_nat_alt)
  have sz: "0 < sint sz" "0 < unat sz" "unat sz \<le> unat ?t" "sz \<noteq> 0"
    using assms(2,3) positive_size [of sz] by (auto simp: request_ok_def)
  have p: "unat p = align_down ?a (unat ?t - unat sz)"
    using unat_top [OF sz(3) n] by (simp add: p_def)
  have down: "unat p + unat sz \<le> unat ?t"
    using align_down_props [of ?a "unat ?t - unat sz"] sz(3) unfolding p by linarith
  have k: "kmalloc h sz flags m = (if p \<le> ?c then Some (m, 0) else
      do { m \<leftarrow> (if flags AND KMALLOC_MEMSET \<noteq> 0 then clear_mem p sz (set_heap_top h p m)
                 else Some (set_heap_top h p m)); Some (m, p) })"
    unfolding kmalloc_def Let_def heap_not_null [OF assms(1)] start p_def [symmetric]
    using assms(3) sz(4) by simp
  show ?thesis
  proof (cases "p \<le> ?c")
    case True
    then show ?thesis using k assms(3) p by (simp add: kmalloc_spec_def abs_alloc_def Let_def word_le_nat_alt)
  next
    case False
    then have c: "unat ?c < unat p" by (simp add: word_le_nat_alt)
    have "blocks_apart h 16 p (unat sz)"
      using assms(1) down c top by (intro blocks_apartI) (auto simp: heap_ok_def word_le_nat_alt)
    from finish_allocation [OF this sz(1), of "set_heap_top h p m" p m flags]
    obtain m' where m': "(if flags AND KMALLOC_MEMSET \<noteq> 0 then clear_mem p sz (set_heap_top h p m)
        else Some (set_heap_top h p m)) = Some m'" "allocated h flags (unat sz) p m m'"
      "heap_current m' h = ?c" "heap_top m' h = p"
      by auto
    have "heap_ok h m'"
      using assms(1) m'(2) by (rule heap_ok_after) (use c down m' in \<open>auto simp: word_le_nat_alt\<close>)
    moreover have "p \<noteq> 0" using c by auto
    ultimately show ?thesis
      using False k m' assms(3) c p by (auto simp: kmalloc_spec_def abs_alloc_def Let_def)
  qed
qed

lemma kmalloc_refines:
  "heap_ok h m \<Longrightarrow> request_ok h sz flags m \<Longrightarrow> kmalloc_spec h sz flags m (kmalloc h sz flags m)"
  using kmalloc_bottom kmalloc_top by blast

section \<open>The heap as an allocator of blocks\<close>

text \<open>Requests outside the contract, and requests that do not fit, are refused.\<close>

definition kalloc :: "u32 \<Rightarrow> s32 \<times> u32 \<Rightarrow> ram \<Rightarrow> (ram \<times> nat set) option" where
  "kalloc h r m = (case r of (sz, flags) \<Rightarrow>
     if request_ok h sz flags m then
       (case kmalloc h sz flags m of
          Some (m', p) \<Rightarrow> if p = 0 then None else Some (m', {unat p ..< unat p + unat sz})
        | None \<Rightarrow> None)
     else None)"

definition ram_read :: "ram \<Rightarrow> nat \<Rightarrow> u8" where
  "ram_read m x = m (of_nat x)"

text \<open>Everything but the record and the free range is kept.\<close>

definition kept_range :: "u32 \<Rightarrow> ram \<Rightarrow> nat set" where
  "kept_range h m = {x. x < 2 ^ 32 \<and> \<not> in_block h 16 (of_nat x) \<and> x \<notin> free_range h m}"

lemma kalloc_Some:
  assumes "kalloc h r m = Some (m', b)" "heap_ok h m"
  obtains sz flags p where "r = (sz, flags)" "b = {unat p ..< unat p + unat sz}" "heap_ok h m'"
    "allocated h flags (unat sz) p m m'" "unat (heap_current m h) \<le> unat p"
    "unat p + unat sz \<le> unat (heap_top m h)" "unat p mod align_of flags = 0"
    "unat (heap_current m' h) = unat (heap_current m h) \<and> unat (heap_top m' h) = unat p \<or>
     unat (heap_current m' h) = unat p + unat sz \<and> heap_top m' h = heap_top m h"
proof -
  obtain sz flags where r: "r = (sz, flags)" by (cases r)
  with assms(1) obtain p where ok: "request_ok h sz flags m"
    and k: "kmalloc h sz flags m = Some (m', p)" "p \<noteq> 0" and b: "b = {unat p ..< unat p + unat sz}"
    by (auto simp: kalloc_def split: if_splits option.splits)
  have a: "0 < align_of flags" by (simp add: align_of_def)
  from kmalloc_refines [OF assms(2) ok] k obtain c t where
    abs: "abs_alloc (flags AND KMALLOC_TOP \<noteq> 0) (align_of flags) (unat sz)
      (unat (heap_current m h), unat (heap_top m h)) = Some (unat p, c, t)"
    and m': "heap_ok h m'" "unat (heap_current m' h) = c" "unat (heap_top m' h) = t"
      "allocated h flags (unat sz) p m m'"
    by (auto simp: kmalloc_spec_def split: option.splits)
  have sz: "flags AND KMALLOC_TOP \<noteq> 0 \<longrightarrow> unat sz \<le> unat (heap_top m h)"
    using ok by (simp add: request_ok_def)
  show thesis
  proof (cases "flags AND KMALLOC_TOP = 0")
    case True
    with abs have "unat p = align_up (align_of flags) (unat (heap_current m h))"
      "c = unat p + unat sz" "t = unat (heap_top m h)" "unat p + unat sz \<le> unat (heap_top m h)"
      by (auto simp: abs_alloc_def Let_def split: if_splits)
    then show thesis
      using that [OF r b m'(1,4)] align_up_props [OF a, of "unat (heap_current m h)"] m'(2,3)
      by (auto simp: word_unat_eq_iff)
  next
    case False
    with abs have "unat p = align_down (align_of flags) (unat (heap_top m h) - unat sz)"
      "c = unat (heap_current m h)" "t = unat p" "unat (heap_current m h) < unat p"
      by (auto simp: abs_alloc_def Let_def split: if_splits)
    then show thesis
      using that [OF r b m'(1,4)] align_down_props [of "align_of flags" "unat (heap_top m h) - unat sz"] m'(2,3) sz False
      by auto
  qed
qed

lemma block_of_nat:
  assumes "unat p + n \<le> 2 ^ 32" "x < 2 ^ 32"
  shows "in_block p n (of_nat x) \<longleftrightarrow> unat p \<le> x \<and> x < unat p + n"
  using assms by (simp add: in_block_nat unat_of_nat take_bit_nat_eq_self)

lemma heap_bounds:
  assumes "heap_ok h m"
  shows "unat (heap_top m h) \<le> 2 ^ 27" "unat (heap_current m h) \<le> unat (heap_top m h)"
    and "unat h + 16 \<le> unat (heap_current m h) \<or> unat (heap_top m h) \<le> unat h" "unat h + 16 \<le> 2 ^ 32"
  using assms by (auto simp: heap_ok_def EE_MAIN_MEM_SIZE_def word_le_nat_alt)

interpretation km: storage_alloc "heap_ok h" "free_range h" "kalloc h" ram_read "kept_range h" for h
proof
  fix m r m' b
  assume ok: "heap_ok h m" and k: "kalloc h r m = Some (m', b)"
  from k ok obtain sz flags p where p: "r = (sz, flags)" "b = {unat p ..< unat p + unat sz}" "heap_ok h m'"
    "allocated h flags (unat sz) p m m'" "unat (heap_current m h) \<le> unat p"
    "unat p + unat sz \<le> unat (heap_top m h)" "unat p mod align_of flags = 0"
    "unat (heap_current m' h) = unat (heap_current m h) \<and> unat (heap_top m' h) = unat p \<or>
     unat (heap_current m' h) = unat p + unat sz \<and> heap_top m' h = heap_top m h"
    by (rule kalloc_Some)
  note B = heap_bounds [OF ok]
  show "heap_ok h m'" by (rule p(3))
  show "b \<subseteq> free_range h m" using p(2,5,6) by (auto simp: free_range_def)
  show "free_range h m' \<subseteq> free_range h m - b" using p(2,5,6,8) by (auto simp: free_range_def)
  have rec: "\<not> in_block h 16 (of_nat y)" if "y \<in> b" for y
    using that p(2,5,6) B block_of_nat [of h 16 y] by auto
  show "kept_range h m \<union> b \<subseteq> kept_range h m'"
    using p(2,5,6,8) B rec by (auto simp: kept_range_def free_range_def)
  show "ram_read m' x = ram_read m x" if x: "x \<in> kept_range h m" for x
  proof -
    have "\<not> in_block p (unat sz) (of_nat x)"
      using x p(5,6) B block_of_nat [of p "unat sz" x] by (auto simp: kept_range_def free_range_def)
    with x p(4) show ?thesis by (simp add: ram_read_def allocated_def kept_range_def)
  qed
qed

section \<open>Initialisation\<close>

lemma kinitheap_ok:
  assumes "heap \<noteq> 0" "unat heap + 16 \<le> 2 ^ 32" "0 < mem" "0 \<le> sint sz"
    and "unat mem + unat sz \<le> EE_MAIN_MEM_SIZE" "unat heap + 16 \<le> unat mem \<or> unat mem + unat sz \<le> unat heap"
  shows "\<exists>m'. kinitheap heap mem sz m = Some (m', heap) \<and> heap_ok heap m' \<and>
    free_range heap m' = {unat mem ..< unat mem + unat sz} \<and> kheapused m' heap = 0 \<and>
    (\<forall>x. in_block mem (unat sz) x \<longrightarrow> m' x = 0)"
proof -
  define m1 where "m1 = set_heap_top_base heap (mem + sz)
    (set_heap_top heap (mem + sz) (set_heap_current heap mem (set_heap_base heap mem m)))"
  have k: "kinitheap heap mem sz m = Some (memset mem 0 (unat sz) m1, heap)"
    using assms(4) by (simp add: kinitheap_def Let_def clear_mem_def m1_def)
  have lim: "unat mem + unat sz \<le> 2 ^ 27" using assms(5) by (simp add: EE_MAIN_MEM_SIZE_def)
  then have u: "unat (mem + sz) = unat mem + unat sz" using unat_plus_if' [of mem sz] by simp
  have f: "heap_base m1 heap = mem" "heap_current m1 heap = mem" "heap_top m1 heap = mem + sz"
    "heap_top_base m1 heap = mem + sz"
    by (simp_all add: m1_def heap_fields heap_setters load32_store32_other field_apart_both)
  have apart: "blocks_apart heap 16 mem (unat sz)"
    using assms(2,6) lim by (intro blocks_apartI) auto
  note h = heap_outside_record [OF apart, of 0 m1, unfolded f]
  have "heap_ok heap (memset mem 0 (unat sz) m1)"
    using assms u by (auto simp: heap_ok_def h word_le_nat_alt word_less_nat_alt)
  moreover have "free_range heap (memset mem 0 (unat sz) m1) = {unat mem ..< unat mem + unat sz}"
    by (simp add: free_range_def h u)
  moreover have "kheapused (memset mem 0 (unat sz) m1) heap = 0" by (simp add: kheapused_def h)
  moreover have "\<forall>x. in_block mem (unat sz) x \<longrightarrow> memset mem 0 (unat sz) m1 x = 0" by (simp add: memset_def)
  ultimately show ?thesis unfolding k by blast
qed

section \<open>A request the top allocator gets wrong\<close>

text \<open>
  The top allocator computes \<^verbatim>\<open>top - size\<close> in 32 bits. A size above the address of the top wraps
  around, the result compares above \<^verbatim>\<open>current\<close>, and the request succeeds with an address beyond the
  end of the heap (and of the memory) instead of being refused.
\<close>

lemma kmalloc_top_wraps:
  assumes "heap_ok h m" "0 < sint sz" "heap_top m h < sz"
  shows "\<exists>p. kmalloc h sz KMALLOC_TOP m = Some (set_heap_top h p m, p) \<and> heap_top_base m h < p \<and>
    EE_MAIN_MEM_SIZE < unat p"
proof -
  define p where "p = (heap_top m h - sz) AND NOT (mask 4)"
  note B = heap_bounds [OF assms(1)]
  have sz: "unat sz < 2 ^ 31" "sz \<noteq> 0" using positive_size [OF assms(2)] by auto
  have w: "unat (heap_top m h - sz) = 2 ^ 32 + unat (heap_top m h) - unat sz"
    using assms(3) by (simp add: unat_minus_u32)
  have "unat (heap_top m h - sz) - unat (heap_top m h - sz) mod 16 = unat p"
    using mask_down [of 4 "heap_top m h - sz"] by (simp add: p_def)
  moreover have "unat (heap_top m h - sz) mod 16 < 16" by simp
  moreover have "2147483648 < unat (heap_top m h - sz)" using w sz(1) by simp
  ultimately have big: "2147483632 < unat p" by linarith
  have base: "unat (heap_top_base m h) \<le> 2 ^ 27"
    using assms(1) by (simp add: heap_ok_def EE_MAIN_MEM_SIZE_def)
  have c: "\<not> p \<le> heap_current m h" using big B by (simp add: word_le_nat_alt)
  have "kmalloc h sz KMALLOC_TOP m = Some (set_heap_top h p m, p)"
    using assms(1) sz(2) c
    by (simp add: kmalloc_def Let_def heap_ok_def KMALLOC_TOP_def KMALLOC_ALIGN_16_def KMALLOC_MEMSET_def
        p_def mask_words(6) [symmetric])
  moreover have "heap_top_base m h < p" using big base by (simp add: word_less_nat_alt)
  moreover have "EE_MAIN_MEM_SIZE < unat p" using big by (simp add: EE_MAIN_MEM_SIZE_def)
  ultimately show ?thesis by blast
qed

end
