(* ===== verification/Goal_Constants.thy ===== *)
theory Goal_Constants
  imports Prelude
begin

text \<open>
  Constants that the compiler and the runtime share (\<^verbatim>\<open>common/goal_constants.h\<close>, \<^verbatim>\<open>common/symbols.h\<close>) with those of
  \<^verbatim>\<open>game/kernel/kscheme.h\<close>. The negative ones are wrapped.
\<close>

definition BASIC_OFFSET :: u32 where "BASIC_OFFSET = 4"
definition PAIR_OFFSET :: u32 where "PAIR_OFFSET = 2"
definition GOAL_MAX_SYMBOLS :: u32 where "GOAL_MAX_SYMBOLS = 0x2000"
definition SYM_INFO_OFFSET :: u32 where "SYM_INFO_OFFSET = 0xff34"
definition OFFSET_MASK :: u32 where "OFFSET_MASK = 7"
definition EMPTY_HASH :: u32 where "EMPTY_HASH = 0x8454B6E6"
definition CRC_POLY :: u32 where "CRC_POLY = 0x04c11db7"
definition DEFAULT_METHOD_COUNT :: u32 where "DEFAULT_METHOD_COUNT = 12"
definition FALLBACK_UNKNOWN_METHOD_COUNT :: u32 where "FALLBACK_UNKNOWN_METHOD_COUNT = 44"

definition FIX_SYM_EMPTY_CAR :: u32 where "FIX_SYM_EMPTY_CAR = - 0xc"
definition FIX_SYM_EMPTY_PAIR :: u32 where "FIX_SYM_EMPTY_PAIR = - 0xa"
definition FIX_SYM_EMPTY_CDR :: u32 where "FIX_SYM_EMPTY_CDR = - 0x8"
definition FIX_SYM_FALSE :: u32 where "FIX_SYM_FALSE = 0"
definition FIX_SYM_TRUE :: u32 where "FIX_SYM_TRUE = 8"
definition FIX_SYM_FUNCTION_TYPE :: u32 where "FIX_SYM_FUNCTION_TYPE = 0x10"
definition FIX_SYM_STRING_TYPE :: u32 where "FIX_SYM_STRING_TYPE = 0x20"
definition FIX_SYM_SYMBOL_TYPE :: u32 where "FIX_SYM_SYMBOL_TYPE = 0x28"
definition FIX_SYM_TYPE_TYPE :: u32 where "FIX_SYM_TYPE_TYPE = 0x30"
definition FIX_SYM_OBJECT_TYPE :: u32 where "FIX_SYM_OBJECT_TYPE = 0x38"
definition FIX_SYM_LINK_BLOCK :: u32 where "FIX_SYM_LINK_BLOCK = 0x40"
definition FIX_SYM_PROCESS_TYPE :: u32 where "FIX_SYM_PROCESS_TYPE = 0xC8"
definition FIX_SYM_GLOBAL_HEAP :: u32 where "FIX_SYM_GLOBAL_HEAP = 0x140"
definition FIX_SYM_DEBUG_HEAP :: u32 where "FIX_SYM_DEBUG_HEAP = 0x148"
definition FIX_SYM_LOADING_LEVEL :: u32 where "FIX_SYM_LOADING_LEVEL = 0x150"
definition FIX_SYM_PROCESS_LEVEL_HEAP :: u32 where "FIX_SYM_PROCESS_LEVEL_HEAP = 0x160"
definition FIX_SYM_SCRATCH :: u32 where "FIX_SYM_SCRATCH = 0x170"
definition FIX_SYM_ZERO_FUNC :: u32 where "FIX_SYM_ZERO_FUNC = 0x180"
definition FIX_FIXED_SYM_END_OFFSET :: u32 where "FIX_FIXED_SYM_END_OFFSET = 0x1d0"

text \<open>The bytes of a string.\<close>

definition str_bytes :: "string \<Rightarrow> u8 list" where
  "str_bytes name = map of_char name"

end
