(* ===== verification/Kscheme.thy ===== *)
theory Kscheme
  imports Kmalloc Goal_Constants
begin

text \<open>
  The GOAL runtime, \<^verbatim>\<open>game/kernel/kscheme.cpp\<close> and \<^verbatim>\<open>.h\<close>: objects on the kernel heaps, the symbol
  table, types. The global variables are the record \<open>kernel\<close>; symbols, strings and types are addresses
  in its main memory. A pointer that is 0 when it is dereferenced fails the assertion of \<^verbatim>\<open>Ptr\<close>
  (\<open>None\<close>). Results of type \<^verbatim>\<open>u64\<close> are 32-bit addresses here. A loop \<open>i = start; i < end; i += 8\<close> runs
  over \<open>slots start end\<close>; it assumes that \<open>end\<close> is not within 8 of the end of the address space.
  Messages are not modelled, nor are the functions that call into compiled GOAL code.
\<close>

section \<open>State\<close>

record kernel =
  k_ram :: ram
  k_FastLink :: u32
  k_symbol_slot :: u32
  k_SymbolTable2 :: u32
  k_LastSymbol :: u32
  k_NumSymbols :: s32
  k_EnableMethodSet :: u32
  k_s7 :: u32
  k_MasterDebug :: u32
  k_DiskBoot :: u32
  k_DebugSegment :: u32

text \<open>Field \<open>off\<close> of the object \<open>p\<close> points to, and its assignment.\<close>

definition rd :: "u32 \<Rightarrow> u32 \<Rightarrow> kernel \<Rightarrow> u32 option" where
  "rd p off s = (if p = 0 then None else Some (load32 (k_ram s) (p + off)))"

definition wr :: "u32 \<Rightarrow> u32 \<Rightarrow> u32 \<Rightarrow> kernel \<Rightarrow> kernel option" where
  "wr p off v s = (if p = 0 then None else Some (s\<lparr>k_ram := store32 (p + off) v (k_ram s)\<rparr>))"

definition rd16 :: "u32 \<Rightarrow> u32 \<Rightarrow> kernel \<Rightarrow> u16 option" where
  "rd16 p off s = (if p = 0 then None else Some (load16 (k_ram s) (p + off)))"

definition wr16 :: "u32 \<Rightarrow> u32 \<Rightarrow> u16 \<Rightarrow> kernel \<Rightarrow> kernel option" where
  "wr16 p off v s = (if p = 0 then None else Some (s\<lparr>k_ram := store16 (p + off) v (k_ram s)\<rparr>))"

text \<open>The bytes written by \<^verbatim>\<open>x.c()[i] = ...\<close>, from the address on.\<close>

definition wr_bytes :: "u32 \<Rightarrow> u8 list \<Rightarrow> kernel \<Rightarrow> kernel option" where
  "wr_bytes p bs s = (if p = 0 then None else Some (s\<lparr>k_ram := store_bytes p bs (k_ram s)\<rparr>))"

definition k_kmalloc :: "u32 \<Rightarrow> s32 \<Rightarrow> u32 \<Rightarrow> kernel \<Rightarrow> (u32 \<times> kernel) option" where
  "k_kmalloc heap sz flags s = do {
     (m, p) \<leftarrow> kmalloc heap sz flags (k_ram s);
     Some (p, s\<lparr>k_ram := m\<rparr>)
   }"

text \<open>The fields of a symbol, of its info, and of a type; the characters of a string.\<close>

definition sym_info :: "u32 \<Rightarrow> u32" where "sym_info symb = symb + SYM_INFO_OFFSET"
definition info_hash :: u32 where "info_hash = 0"
definition info_str :: u32 where "info_str = 4"
definition string_len :: u32 where "string_len = 0"
definition string_data :: u32 where "string_data = 4"
definition type_symbol :: u32 where "type_symbol = 0"
definition type_parent :: u32 where "type_parent = 4"
definition type_allocated_size :: u32 where "type_allocated_size = 8"
definition type_padded_size :: u32 where "type_padded_size = 10"
definition type_heap_base :: u32 where "type_heap_base = 12"
definition type_num_methods :: u32 where "type_num_methods = 14"
definition type_method :: "u32 \<Rightarrow> u32" where "type_method i = 16 + 4 * i"

section \<open>Hashing\<close>

definition crc_bit :: "u32 \<Rightarrow> u32" where
  "crc_bit n = (if n AND 0x80000000 \<noteq> 0 then push_bit 1 n XOR CRC_POLY else push_bit 1 n)"

text \<open>Entry \<open>i\<close> of \<^verbatim>\<open>crc_table\<close> after \<^verbatim>\<open>init_crc\<close>.\<close>

definition crc_table :: "u8 \<Rightarrow> u32" where
  "crc_table i = (crc_bit ^^ 8) (push_bit 24 (ucast i))"

definition crc_step :: "u32 \<Rightarrow> u8 \<Rightarrow> u32" where
  "crc_step crc b = crc_table (ucast (drop_bit 24 crc)) XOR (push_bit 8 crc OR ucast b)"

definition crc32 :: "u8 list \<Rightarrow> u32 option" where
  "crc32 data = (let crc = foldl crc_step 0 data in if NOT crc = 0 then None else Some (NOT crc))"

section \<open>Objects\<close>

definition is_kheap_symbol :: "u32 \<Rightarrow> bool" where
  "is_kheap_symbol off \<longleftrightarrow> off = FIX_SYM_GLOBAL_HEAP \<or> off = FIX_SYM_DEBUG_HEAP \<or>
     off = FIX_SYM_PROCESS_LEVEL_HEAP \<or> off = FIX_SYM_LOADING_LEVEL"

text \<open>What \<^verbatim>\<open>alloc_from_heap\<close> reads of the type, for the name of the allocation.\<close>

definition alloc_name_ok :: "u32 \<Rightarrow> kernel \<Rightarrow> unit option" where
  "alloc_name_ok type s =
    (if type = 0 then Some ()
     else do {
       symbol \<leftarrow> rd type type_symbol s;
       if symbol = 0 then Some ()
       else do {
         gstr \<leftarrow> rd (sym_info symbol) info_str s;
         len \<leftarrow> rd gstr string_len s;
         Some ()
       }
     })"

definition alloc_from_heap :: "u32 \<Rightarrow> u32 \<Rightarrow> s32 \<Rightarrow> kernel \<Rightarrow> (u32 \<times> kernel) option" where
  "alloc_from_heap heapSymbol type sz s = do {
     assert_opt (0 < sint sz);
     let alignedSize = sz + 0xf;
     let alignedSize = (if sint alignedSize < 0 then alignedSize + 0xf else alignedSize);
     let alignedSize = push_bit 4 (signed_drop_bit 4 alignedSize);
     let heapOffset = heapSymbol - k_s7 s;
     if is_kheap_symbol heapOffset then do {
       alloc_name_ok type s;
       heap \<leftarrow> rd heapSymbol 0 s;
       k_kmalloc heap sz KMALLOC_MEMSET s
     }
     else if heapOffset = FIX_SYM_PROCESS_TYPE then None
     else if heapOffset = FIX_SYM_SCRATCH then None
     else do {
       assert_opt (heapSymbol \<noteq> 0);
       m \<leftarrow> clear_mem heapSymbol alignedSize (k_ram s);
       Some (heapSymbol, s\<lparr>k_ram := m\<rparr>)
     }
   }"

definition alloc_heap_memory :: "u32 \<Rightarrow> u32 \<Rightarrow> kernel \<Rightarrow> (u32 \<times> kernel) option" where
  "alloc_heap_memory heap sz = alloc_from_heap heap 0 sz"

definition alloc_heap_object :: "u32 \<Rightarrow> u32 \<Rightarrow> u32 \<Rightarrow> kernel \<Rightarrow> (u32 \<times> kernel) option" where
  "alloc_heap_object heap type sz s = do {
     (mem, s) \<leftarrow> alloc_from_heap heap type sz s;
     if mem = 0 then Some (0, s)
     else do {
       s \<leftarrow> wr mem 0 type s;
       Some (mem + BASIC_OFFSET, s)
     }
   }"

definition new_structure :: "u32 \<Rightarrow> u32 \<Rightarrow> kernel \<Rightarrow> (u32 \<times> kernel) option" where
  "new_structure heap type s = do {
     sz \<leftarrow> rd16 type type_allocated_size s;
     alloc_from_heap heap type (ucast sz) s
   }"

definition new_dynamic_structure :: "u32 \<Rightarrow> u32 \<Rightarrow> u32 \<Rightarrow> kernel \<Rightarrow> (u32 \<times> kernel) option" where
  "new_dynamic_structure heap_symbol type sz = alloc_from_heap heap_symbol type sz"

definition new_basic :: "u32 \<Rightarrow> u32 \<Rightarrow> kernel \<Rightarrow> (u32 \<times> kernel) option" where
  "new_basic heap type s = do {
     sz \<leftarrow> rd16 type type_allocated_size s;
     alloc_heap_object heap type (ucast sz) s
   }"

definition new_pair :: "u32 \<Rightarrow> u32 \<Rightarrow> u32 \<Rightarrow> u32 \<Rightarrow> kernel \<Rightarrow> (u32 \<times> kernel) option" where
  "new_pair heap type car cdr s = do {
     sz \<leftarrow> rd16 type type_allocated_size s;
     (mem, s) \<leftarrow> alloc_from_heap heap type (ucast sz) s;
     if mem = 0 then Some (0, s)
     else do {
       s \<leftarrow> wr mem 0 car s;
       s \<leftarrow> wr mem 4 cdr s;
       Some (mem + PAIR_OFFSET, s)
     }
   }"

text \<open>\<^verbatim>\<open>*(s7 + FIX_SYM_...)\<close>\<close>

definition fixed_value :: "u32 \<Rightarrow> kernel \<Rightarrow> u32 option" where
  "fixed_value off s = rd (k_s7 s + off) 0 s"

definition make_string :: "u32 \<Rightarrow> kernel \<Rightarrow> (u32 \<times> kernel) option" where
  "make_string sz s = do {
     let mem_size = sz + 1;
     let mem_size = (if mem_size < 8 then 8 else mem_size);
     string_type \<leftarrow> fixed_value FIX_SYM_STRING_TYPE s;
     (mem, s) \<leftarrow> alloc_heap_object (k_s7 s + FIX_SYM_GLOBAL_HEAP) string_type (mem_size + BASIC_OFFSET + 4) s;
     s \<leftarrow> (if mem \<noteq> 0 then wr mem string_len sz s else Some s);
     Some (mem, s)
   }"

definition make_string_from_c :: "string \<Rightarrow> kernel \<Rightarrow> (u32 \<times> kernel) option" where
  "make_string_from_c c_str s = do {
     let str_size = length c_str;
     let mem_size = (if str_size + 1 < 8 then 8 else str_size + 1);
     string_type \<leftarrow> fixed_value FIX_SYM_STRING_TYPE s;
     (mem, s) \<leftarrow> alloc_heap_object (k_s7 s + FIX_SYM_GLOBAL_HEAP) string_type
       (of_nat (mem_size + unat BASIC_OFFSET + 4)) s;
     s \<leftarrow> wr mem string_len (of_nat str_size) s;
     s \<leftarrow> wr_bytes (mem + 4) (str_bytes c_str @ [0]) s;
     Some (mem, s)
   }"

definition alloc_function_object :: "u32 \<Rightarrow> kernel \<Rightarrow> (u32 \<times> kernel) option" where
  "alloc_function_object sz s = do {
     function_type \<leftarrow> fixed_value FIX_SYM_FUNCTION_TYPE s;
     alloc_heap_object (k_s7 s + FIX_SYM_GLOBAL_HEAP) function_type sz s
   }"

definition make_nothing_func :: "kernel \<Rightarrow> (u32 \<times> kernel) option" where
  "make_nothing_func s = do {
     (mem, s) \<leftarrow> alloc_function_object 0x14 s;
     s \<leftarrow> wr_bytes mem [0xc3] s;
     Some (mem, s)
   }"

definition make_zero_func :: "kernel \<Rightarrow> (u32 \<times> kernel) option" where
  "make_zero_func s = do {
     (mem, s) \<leftarrow> alloc_function_object 0x14 s;
     s \<leftarrow> wr_bytes mem [0x31, 0xc0, 0xc3] s;
     Some (mem, s)
   }"

text \<open>The trampolines on Linux: \<open>func\<close> and \<open>trampoline\<close> are addresses of the host.\<close>

definition make_function_from_c_linux :: "u64 \<Rightarrow> u64 \<Rightarrow> kernel \<Rightarrow> (u32 \<times> kernel) option" where
  "make_function_from_c_linux trampoline func s = do {
     (mem, s) \<leftarrow> alloc_function_object 0x40 s;
     s \<leftarrow> wr_bytes mem ([0x48, 0xb8] @ le_bytes 8 func @ [0x50] @ [0x48, 0xb8] @ le_bytes 8 trampoline
       @ [0xff, 0xe0]) s;
     Some (mem, s)
   }"

section \<open>Symbols\<close>

text \<open>\<^verbatim>\<open>!strcmp(p, name)\<close> for the C string at \<open>p\<close>.\<close>

fun str_at :: "ram \<Rightarrow> u32 \<Rightarrow> u8 list \<Rightarrow> bool" where
  "str_at m p [] = (m p = 0)"
| "str_at m p (c # cs) = (m p = c \<and> str_at m (p + 1) cs)"

definition slots :: "u32 \<Rightarrow> u32 \<Rightarrow> u32 list" where
  "slots start end' = map (\<lambda>k. start + 8 * of_nat k) [0 ..< (unat end' - unat start + 7) div 8]"

definition symbol_named :: "u32 \<Rightarrow> string \<Rightarrow> u32 \<Rightarrow> kernel \<Rightarrow> bool option" where
  "symbol_named hash name symb s = do {
     h \<leftarrow> rd (sym_info symb) info_hash s;
     if h = hash then do {
       str \<leftarrow> rd (sym_info symb) info_str s;
       assert_opt (str \<noteq> 0);
       Some (str_at (k_ram s) (str + string_data) (str_bytes name))
     } else Some False
   }"

fun find_fixed :: "u32 \<Rightarrow> string \<Rightarrow> u32 list \<Rightarrow> kernel \<Rightarrow> u32 option" where
  "find_fixed hash name [] s = Some 0"
| "find_fixed hash name (i # is) s = do {
     found \<leftarrow> symbol_named hash name i s;
     if found then Some i else find_fixed hash name is s
   }"

definition find_symbol_in_fixed_area :: "u32 \<Rightarrow> string \<Rightarrow> kernel \<Rightarrow> u32 option" where
  "find_symbol_in_fixed_area hash name s =
     find_fixed hash name (slots (k_s7 s) (k_s7 s + FIX_FIXED_SYM_END_OFFSET)) s"

fun find_slots :: "u32 \<Rightarrow> string \<Rightarrow> u32 list \<Rightarrow> kernel \<Rightarrow> (u32 \<times> kernel) option" where
  "find_slots hash name [] s = Some (1, s)"
| "find_slots hash name (i # is) s = do {
     found \<leftarrow> symbol_named hash name i s;
     if found then Some (i, s)
     else do {
       h \<leftarrow> rd (sym_info i) info_hash s;
       if h = 0 then do {
         let s = s\<lparr>k_symbol_slot := i\<rparr>;
         symb \<leftarrow> find_symbol_in_fixed_area hash name s;
         Some (symb, s)
       }
       else find_slots hash name is s
     }
   }"

definition find_symbol_in_area :: "u32 \<Rightarrow> string \<Rightarrow> u32 \<Rightarrow> u32 \<Rightarrow> kernel \<Rightarrow> (u32 \<times> kernel) option" where
  "find_symbol_in_area hash name start end' = find_slots hash name (slots start end')"

text \<open>The signed 16-bit offset of the first probed slot, \<^verbatim>\<open>sh2\<close>.\<close>

definition hash_offset :: "u32 \<Rightarrow> s32" where
  "hash_offset hash = signed_drop_bit 0x10 (push_bit 0x13 hash)"

definition find_symbol_from_c :: "string \<Rightarrow> kernel \<Rightarrow> (u32 \<times> kernel) option" where
  "find_symbol_from_c name s = do {
     let s = s\<lparr>k_symbol_slot := 0\<rparr>;
     hash \<leftarrow> crc32 (str_bytes name);
     if hash = EMPTY_HASH \<and> name = ''_empty_'' then Some (k_s7 s + FIX_SYM_EMPTY_PAIR, s)
     else
       let sh2 = hash_offset hash in
       if 0 < sint sh2 then do {
         (probe, s) \<leftarrow> find_symbol_in_area hash name (k_s7 s + sh2) (k_LastSymbol s) s;
         if probe \<noteq> 1 then Some (probe, s)
         else do {
           (probe, s) \<leftarrow> find_symbol_in_area hash name (k_SymbolTable2 s) (k_s7 s - 0x10) s;
           if probe = 1 then do {
             symb \<leftarrow> find_symbol_in_fixed_area hash name s;
             Some (symb, s)
           } else Some (probe, s)
         }
       }
       else do {
         (probe, s) \<leftarrow> find_symbol_in_area hash name (k_s7 s + sh2) (k_s7 s - 0x10) s;
         if probe \<noteq> 1 then Some (probe, s)
         else do {
           (probe, s) \<leftarrow> find_symbol_in_area hash name (k_s7 s + FIX_FIXED_SYM_END_OFFSET) (k_LastSymbol s) s;
           if probe = 1 then do {
             symb \<leftarrow> find_symbol_in_fixed_area hash name s;
             Some (symb, s)
           } else Some (probe, s)
         }
       }
   }"

definition intern_from_c :: "string \<Rightarrow> kernel \<Rightarrow> (u32 \<times> kernel) option" where
  "intern_from_c name s = do {
     (symbol, s) \<leftarrow> find_symbol_from_c name s;
     if symbol \<noteq> 0 then Some (symbol, s)
     else do {
       let symbol = k_symbol_slot s;
       symbol_type \<leftarrow> fixed_value FIX_SYM_SYMBOL_TYPE s;
       s \<leftarrow> wr symbol (- 4) symbol_type s;
       hash \<leftarrow> crc32 (str_bytes name);
       (str, s) \<leftarrow> make_string_from_c name s;
       s \<leftarrow> wr (sym_info symbol) info_str str s;
       s \<leftarrow> wr (sym_info symbol) info_hash hash s;
       let s = s\<lparr>k_NumSymbols := k_NumSymbols s + 1\<rparr>;
       Some (symbol, s)
     }
   }"

definition set_fixed_symbol :: "u32 \<Rightarrow> string \<Rightarrow> u32 \<Rightarrow> kernel \<Rightarrow> (u32 \<times> kernel) option" where
  "set_fixed_symbol offset name value s = do {
     let symb = k_s7 s + offset;
     typ \<leftarrow> fixed_value FIX_SYM_SYMBOL_TYPE s;
     s \<leftarrow> wr symb (- 4) typ s;
     (str, s) \<leftarrow> make_string_from_c name s;
     s \<leftarrow> wr (sym_info symb) info_str str s;
     hash \<leftarrow> crc32 (str_bytes name);
     s \<leftarrow> wr (sym_info symb) info_hash hash s;
     s \<leftarrow> wr symb 0 value s;
     let s = s\<lparr>k_NumSymbols := k_NumSymbols s + 1\<rparr>;
     Some (symb, s)
   }"

definition make_raw_function_symbol_from_c :: "string \<Rightarrow> u32 \<Rightarrow> kernel \<Rightarrow> (u32 \<times> kernel) option" where
  "make_raw_function_symbol_from_c name value s = do {
     (symb, s) \<leftarrow> intern_from_c name s;
     s \<leftarrow> wr symb 0 value s;
     Some (value, s)
   }"

section \<open>Types\<close>

definition size_of_type :: "u32 \<Rightarrow> u32" where
  "size_of_type method_count = (4 * method_count + 0x23) AND 0xfffffff0"

definition alloc_and_init_type :: "u32 \<Rightarrow> u32 \<Rightarrow> kernel \<Rightarrow> (u32 \<times> kernel) option" where
  "alloc_and_init_type symb method_count s = do {
     type_type \<leftarrow> fixed_value FIX_SYM_TYPE_TYPE s;
     (new_type, s) \<leftarrow> alloc_heap_object (k_s7 s + FIX_SYM_GLOBAL_HEAP) type_type (size_of_type method_count) s;
     s \<leftarrow> wr symb 0 new_type s;
     Some (new_type, s)
   }"

definition intern_type_from_c :: "string \<Rightarrow> u64 \<Rightarrow> kernel \<Rightarrow> (u32 \<times> kernel) option" where
  "intern_type_from_c name methods s = do {
     (symbol, s) \<leftarrow> intern_from_c name s;
     sym_value \<leftarrow> rd symbol 0 s;
     if sym_value = 0 then do {
       let n_methods = (if methods = 0 then DEFAULT_METHOD_COUNT
                        else if methods = 1 then FALLBACK_UNKNOWN_METHOD_COUNT else ucast methods);
       (type, s) \<leftarrow> alloc_and_init_type symbol n_methods s;
       s \<leftarrow> wr type type_symbol symbol s;
       s \<leftarrow> wr16 type type_num_methods (ucast n_methods) s;
       Some (type, s)
     }
     else do {
       n \<leftarrow> rd16 sym_value type_num_methods s;
       assert_opt (\<not> size_of_type (ucast n) < size_of_type (ucast methods));
       Some (sym_value, s)
     }
   }"

definition set_type_values :: "u32 \<Rightarrow> u32 \<Rightarrow> u64 \<Rightarrow> kernel \<Rightarrow> (u32 \<times> kernel) option" where
  "set_type_values type parent flags s = do {
     s \<leftarrow> wr type type_parent parent s;
     let allocated_size = ucast (flags AND 0xffff);
     s \<leftarrow> wr16 type type_allocated_size allocated_size s;
     s \<leftarrow> wr16 type type_heap_base (ucast (drop_bit 16 flags AND 0xffff)) s;
     s \<leftarrow> wr16 type type_padded_size ((allocated_size + 0xf) AND 0xfff0) s;
     let new_methods = ucast (drop_bit 32 flags AND 0xffff);
     n \<leftarrow> rd16 type type_num_methods s;
     s \<leftarrow> (if n < new_methods then wr16 type type_num_methods new_methods s else Some s);
     Some (type, s)
   }"

text \<open>The copy of the first \<open>n\<close> methods, in order.\<close>

definition copy_method_slots :: "u32 \<Rightarrow> u32 \<Rightarrow> nat \<Rightarrow> kernel \<Rightarrow> kernel option" where
  "copy_method_slots child parent n = fold_opt (\<lambda>i s. do {
     f \<leftarrow> rd parent (type_method (of_nat i)) s;
     wr child (type_method (of_nat i)) f s
   }) [0 ..< n]"

text \<open>\<^verbatim>\<open>new_type\<close> is given the name of the symbol; \<^verbatim>\<open>intern_type\<close> reads it from the string.\<close>

definition new_type :: "u32 \<Rightarrow> string \<Rightarrow> u32 \<Rightarrow> u64 \<Rightarrow> kernel \<Rightarrow> (u32 \<times> kernel) option" where
  "new_type symbol name parent flags s = do {
     str \<leftarrow> rd (sym_info symbol) info_str s;
     assert_opt (str \<noteq> 0 \<and> str_at (k_ram s) (str + string_data) (str_bytes name));
     let n_methods = ucast (drop_bit 32 flags AND 0xffff);
     let n_methods = (if n_methods = 0 then DEFAULT_METHOD_COUNT else n_methods);
     assert_opt (n_methods < 127);
     (new_type, s) \<leftarrow> intern_type_from_c name (ucast n_methods) s;
     assert_opt (new_type \<noteq> 0 \<and> parent \<noteq> 0);
     s \<leftarrow> copy_method_slots new_type parent (unat n_methods) s;
     set_type_values new_type parent flags s
   }"

definition set_fixed_type ::
  "u32 \<Rightarrow> string \<Rightarrow> u32 \<Rightarrow> u64 \<Rightarrow> u32 \<Rightarrow> u32 \<Rightarrow> kernel \<Rightarrow> (u32 \<times> kernel) option" where
  "set_fixed_type offset name parent_symbol flags print inspect s = do {
     let type_sym = k_s7 s + offset;
     symbol_value \<leftarrow> rd type_sym 0 s;
     symbol_type \<leftarrow> fixed_value FIX_SYM_SYMBOL_TYPE s;
     s \<leftarrow> wr type_sym (- 4) symbol_type s;
     (str, s) \<leftarrow> make_string_from_c name s;
     s \<leftarrow> wr (sym_info type_sym) info_str str s;
     hash \<leftarrow> crc32 (str_bytes name);
     s \<leftarrow> wr (sym_info type_sym) info_hash hash s;
     let s = s\<lparr>k_NumSymbols := k_NumSymbols s + 1\<rparr>;
     (new_type, s) \<leftarrow>
       (if symbol_value = 0 then alloc_and_init_type type_sym (ucast (drop_bit 32 flags AND 0xffff)) s
        else Some (symbol_value, s));
     type_type \<leftarrow> fixed_value FIX_SYM_TYPE_TYPE s;
     s \<leftarrow> wr new_type (- 4) type_type s;
     s \<leftarrow> wr new_type type_symbol type_sym s;
     parent_type \<leftarrow> rd parent_symbol 0 s;
     (_, s) \<leftarrow> set_type_values new_type parent_type flags s;
     f \<leftarrow> rd parent_type (type_method 0) s;
     s \<leftarrow> wr new_type (type_method 0) f s;
     f \<leftarrow> rd parent_type (type_method 1) s;
     s \<leftarrow> wr new_type (type_method 1) f s;
     f \<leftarrow> (if print = 0 then rd parent_type (type_method 2) s else Some print);
     s \<leftarrow> wr new_type (type_method 2) f s;
     f \<leftarrow> (if inspect = 0 then rd parent_type (type_method 3) s else Some inspect);
     s \<leftarrow> wr new_type (type_method 3) f s;
     f \<leftarrow> fixed_value FIX_SYM_ZERO_FUNC s;
     s \<leftarrow> wr new_type (type_method 4) f s;
     f \<leftarrow> rd parent_type (type_method 5) s;
     s \<leftarrow> wr new_type (type_method 5) f s;
     f \<leftarrow> rd parent_type (type_method 6) s;
     s \<leftarrow> wr new_type (type_method 6) f s;
     Some (new_type, s)
   }"

text \<open>A cycle of parents that does not lead to \<^verbatim>\<open>object\<close> loops forever, which is \<open>None\<close>.\<close>

partial_function (option) typep_loop :: "u32 \<Rightarrow> u32 \<Rightarrow> kernel \<Rightarrow> bool option" where
  "typep_loop t1 t2 s = do {
     t1 \<leftarrow> rd t1 type_parent s;
     if t1 = t2 then Some True
     else if t1 = 0 then Some False
     else do {
       object_type \<leftarrow> fixed_value FIX_SYM_OBJECT_TYPE s;
       if t1 \<noteq> object_type then typep_loop t1 t2 s else Some False
     }
   }"

definition type_typep :: "u32 \<Rightarrow> u32 \<Rightarrow> kernel \<Rightarrow> u32 option" where
  "type_typep t1 t2 s =
    (if t1 = t2 then Some (k_s7 s + FIX_SYM_TRUE)
     else do {
       b \<leftarrow> typep_loop t1 t2 s;
       Some (if b then k_s7 s + FIX_SYM_TRUE else k_s7 s)
     })"

text \<open>\<open>in_goal_memory\<close> is the test of several functions that an address can be an object.\<close>

definition in_goal_memory :: "u32 \<Rightarrow> kernel \<Rightarrow> bool" where
  "in_goal_memory p s \<longleftrightarrow>
     \<not> ((p < k_SymbolTable2 s \<or> 0x7ffffff < p) \<and> (p < 0x84000 \<or> 0x100000 \<le> p))"

text \<open>The body of the two loops of \<^verbatim>\<open>method_set\<close> over the symbols.\<close>

definition method_set_symbol :: "u32 \<Rightarrow> u32 \<Rightarrow> u32 \<Rightarrow> u32 \<Rightarrow> u32 \<Rightarrow> kernel \<Rightarrow> kernel option" where
  "method_set_symbol type method_id existing_method method symb s = do {
     symValue \<leftarrow> rd symb 0 s;
     if \<not> in_goal_memory symValue s then Some s
     else if symValue AND OFFSET_MASK \<noteq> BASIC_OFFSET then Some s
     else do {
       objType \<leftarrow> rd (symValue - 4) 0 s;
       type_type \<leftarrow> fixed_value FIX_SYM_TYPE_TYPE s;
       if objType \<noteq> type_type then Some s
       else do {
         n \<leftarrow> rd16 symValue type_num_methods s;
         if ucast n \<le> method_id then Some s
         else do {
           f \<leftarrow> rd symValue (type_method method_id) s;
           if f \<noteq> existing_method then Some s
           else do {
             t \<leftarrow> type_typep symValue type s;
             if t = k_s7 s then Some s
             else wr symValue (type_method method_id) method s
           }
         }
       }
     }
   }"

definition method_set :: "u32 \<Rightarrow> u32 \<Rightarrow> u32 \<Rightarrow> kernel \<Rightarrow> (u32 \<times> kernel) option" where
  "method_set type method_id method s = do {
     existing_method \<leftarrow> rd type (type_method method_id) s;
     if method = 0 then Some (0, s)
     else do {
       method \<leftarrow>
         (if method = 1 then Some 0
          else if method = 2 then do {
            parent \<leftarrow> rd type type_parent s;
            rd parent (type_method method_id) s
          }
          else Some method);
       s \<leftarrow> wr type (type_method method_id) method s;
       enabled \<leftarrow> rd (k_EnableMethodSet s) 0 s;
       s \<leftarrow> (if enabled \<noteq> 0 \<or> (k_FastLink s = 0 \<and> k_MasterDebug s \<noteq> 0 \<and> k_DiskBoot s = 0) then
              fold_opt (method_set_symbol type method_id existing_method method)
                (slots (k_s7 s) (k_LastSymbol s) @ slots (k_SymbolTable2 s) (k_s7 s)) s
            else Some s);
       Some (method, s)
     }
   }"

definition asize_of_basic :: "u32 \<Rightarrow> kernel \<Rightarrow> u16 option" where
  "asize_of_basic it s = do {
     type \<leftarrow> rd (it - BASIC_OFFSET) 0 s;
     rd16 type type_allocated_size s
   }"

definition pack_type_flag :: "u64 \<Rightarrow> u64 \<Rightarrow> u64 \<Rightarrow> u64" where
  "pack_type_flag methods hbase sz = push_bit 32 methods + push_bit 16 hbase + sz"

end
