(* ===== verification/Probe_Table.thy ===== *)
theory Probe_Table
  imports Prelude
begin

text \<open>
  An open-addressing table that only grows: a key is looked for along its own path until it or an
  empty slot is met; then the slots of a fixed area are searched. The table is a function from slots to
  keys. Proved here once: the table implements a finite map from keys to slots.
\<close>

definition find_key :: "('i \<Rightarrow> 'k option) \<Rightarrow> 'k \<Rightarrow> 'i list \<Rightarrow> 'i option" where
  "find_key T k xs = List.find (\<lambda>i. T i = Some k) xs"

text \<open>Where a probe for \<open>k\<close> stops: at the key or at an empty slot.\<close>

definition first_stop :: "('i \<Rightarrow> 'k option) \<Rightarrow> 'k \<Rightarrow> 'i list \<Rightarrow> 'i option" where
  "first_stop T k xs = List.find (\<lambda>i. T i = Some k \<or> T i = None) xs"

definition probe_lookup :: "('k \<Rightarrow> 'i list) \<Rightarrow> 'i list \<Rightarrow> ('i \<Rightarrow> 'k option) \<Rightarrow> 'k \<Rightarrow> 'i option" where
  "probe_lookup path fixed T k =
    (case first_stop T k (path k) of
       Some i \<Rightarrow> if T i = Some k then Some i else find_key T k fixed
     | None \<Rightarrow> find_key T k fixed)"

text \<open>The slot a new key goes to.\<close>

definition probe_free :: "('k \<Rightarrow> 'i list) \<Rightarrow> ('i \<Rightarrow> 'k option) \<Rightarrow> 'k \<Rightarrow> 'i option" where
  "probe_free path T k =
    (case first_stop T k (path k) of Some i \<Rightarrow> if T i = None then Some i else None | None \<Rightarrow> None)"

section \<open>Searching lists\<close>

lemma find_Some_split:
  "List.find P xs = Some x \<longleftrightarrow> (\<exists>us vs. xs = us @ x # vs \<and> P x \<and> (\<forall>u \<in> set us. \<not> P u))"
proof
  assume "List.find P xs = Some x"
  then obtain n where n: "n < length xs" "P (xs ! n)" "x = xs ! n" "\<forall>j<n. \<not> P (xs ! j)"
    by (auto simp: find_Some_iff)
  then have "xs = take n xs @ x # drop (Suc n) xs" by (simp add: id_take_nth_drop)
  moreover have "\<forall>u \<in> set (take n xs). \<not> P u" using n by (auto simp: in_set_conv_nth)
  ultimately show "\<exists>us vs. xs = us @ x # vs \<and> P x \<and> (\<forall>u \<in> set us. \<not> P u)" using n by metis
next
  assume "\<exists>us vs. xs = us @ x # vs \<and> P x \<and> (\<forall>u \<in> set us. \<not> P u)"
  then obtain us vs where "xs = us @ x # vs" "P x" "\<forall>u \<in> set us. \<not> P u" by blast
  then show "List.find P xs = Some x" by (induction us arbitrary: xs) auto
qed

lemma find_SomeI: "xs = us @ x # vs \<Longrightarrow> P x \<Longrightarrow> \<forall>u \<in> set us. \<not> P u \<Longrightarrow> List.find P xs = Some x"
  using find_Some_split [of P xs x] by blast

lemma find_key_Some: "find_key T k xs = Some i \<Longrightarrow> i \<in> set xs \<and> T i = Some k"
  by (auto simp: find_key_def find_Some_split)

lemma find_key_None: "find_key T k xs = None \<longleftrightarrow> (\<forall>i \<in> set xs. T i \<noteq> Some k)"
  by (auto simp: find_key_def find_None_iff)

lemma probe_free_Some: "probe_free path T k = Some i \<Longrightarrow> i \<in> set (path k) \<and> T i = None"
  by (auto simp: probe_free_def first_stop_def find_Some_split split: option.splits if_splits)

section \<open>The laws\<close>

locale probe_table =
  fixes path :: "'k \<Rightarrow> 'i list"
    and fixed :: "'i list"
    and slots :: "'i set"
  assumes path_slots: "set (path k) \<subseteq> slots"
    and fixed_slots: "set fixed \<subseteq> slots"
begin

text \<open>No key is out of reach of its probe.\<close>

definition consistent :: "('i \<Rightarrow> 'k option) \<Rightarrow> bool" where
  "consistent T \<longleftrightarrow> (\<forall>i \<in> slots. \<forall>k. T i = Some k \<longrightarrow> probe_lookup path fixed T k = Some i)"

lemma lookup_slot: "probe_lookup path fixed T k = Some i \<Longrightarrow> i \<in> slots \<and> T i = Some k"
  using path_slots [of k] fixed_slots
  by (auto simp: probe_lookup_def first_stop_def find_Some_split dest: find_key_Some
      split: option.splits if_splits)

lemma lookup_iff: "consistent T \<Longrightarrow> probe_lookup path fixed T k = Some i \<longleftrightarrow> i \<in> slots \<and> T i = Some k"
  using lookup_slot by (auto simp: consistent_def)

lemma lookup_None: "consistent T \<Longrightarrow> probe_lookup path fixed T k = None \<longleftrightarrow> (\<forall>i \<in> slots. T i \<noteq> Some k)"
  using lookup_iff [of T k] by (metis option.exhaust option.distinct(1))

text \<open>A key that was found is found again after another one is put into an empty slot.\<close>

lemma lookup_reaches:
  assumes "consistent T" "T i = None" "k' \<noteq> k" "probe_lookup path fixed T k' = Some j"
  shows "probe_lookup path fixed (T(i \<mapsto> k)) k' = Some j"
proof (cases "probe_lookup path fixed (T(i \<mapsto> k)) k'")
  case (Some j')
  then have "j' \<in> slots \<and> (T(i \<mapsto> k)) j' = Some k'" by (rule lookup_slot)
  with assms(2,3) have "probe_lookup path fixed T k' = Some j'"
    using lookup_iff [OF assms(1)] by (auto split: if_splits)
  with assms(4) Some show ?thesis by simp
next
  case None
  have j: "T j = Some k'" using lookup_slot [OF assms(4)] by simp
  then have ji: "j \<noteq> i" using assms(2) by auto
  let ?S = "first_stop (T(i \<mapsto> k)) k' (path k')"
  from None have nofix: "find_key (T(i \<mapsto> k)) k' fixed = None"
    by (auto simp: probe_lookup_def split: option.splits if_splits)
  then have "j \<notin> set fixed" using j ji by (auto simp: find_key_None)
  then have "find_key T k' fixed \<noteq> Some j" using find_key_Some by metis
  then have "first_stop T k' (path k') = Some j"
    using assms(4) by (auto simp: probe_lookup_def split: option.splits if_splits)
  then obtain us vs where p: "path k' = us @ j # vs" "\<forall>u \<in> set us. T u \<noteq> Some k' \<and> T u \<noteq> None"
    by (auto simp: first_stop_def find_Some_split)
  then have "\<forall>u \<in> set us. (T(i \<mapsto> k)) u \<noteq> Some k' \<and> (T(i \<mapsto> k)) u \<noteq> None" using assms(3) by auto
  then have "?S = Some j"
    unfolding first_stop_def using p(1) j ji by (intro find_SomeI [of _ us j vs]) simp_all
  with j ji have "probe_lookup path fixed (T(i \<mapsto> k)) k' = Some j" by (simp add: probe_lookup_def)
  with None show ?thesis by simp
qed

text \<open>A new key in its free slot, or anywhere in the fixed area, is found there.\<close>

lemma lookup_new:
  assumes "consistent T" "probe_lookup path fixed T k = None" "T i = None"
    and "probe_free path T k = Some i \<or> i \<in> set fixed"
  shows "probe_lookup path fixed (T(i \<mapsto> k)) k = Some i"
proof -
  have only: "j = i" if "probe_lookup path fixed (T(i \<mapsto> k)) k = Some j" for j
    using lookup_slot [OF that] assms(2) lookup_None [OF assms(1)] by (auto split: if_splits)
  have "probe_lookup path fixed (T(i \<mapsto> k)) k \<noteq> None"
  proof (cases "i \<in> set fixed")
    case True
    then have "find_key (T(i \<mapsto> k)) k fixed \<noteq> None" by (auto simp: find_key_None)
    then show ?thesis by (auto simp: probe_lookup_def split: option.splits)
  next
    case False
    then have "first_stop T k (path k) = Some i"
      using assms(4) by (auto simp: probe_free_def split: option.splits if_splits)
    then obtain us vs where p: "path k = us @ i # vs" "\<forall>u \<in> set us. T u \<noteq> Some k \<and> T u \<noteq> None"
      by (auto simp: first_stop_def find_Some_split)
    then have "\<forall>u \<in> set us. u \<noteq> i" using assms(3) by auto
    then have "first_stop (T(i \<mapsto> k)) k (path k) = Some i"
      unfolding first_stop_def using p by (intro find_SomeI [of _ us i vs]) simp_all
    then show ?thesis by (simp add: probe_lookup_def)
  qed
  with only show ?thesis by auto
qed

text \<open>Putting a new key into the table adds it to the map, and nothing else changes.\<close>

lemma put_map:
  assumes "consistent T" "probe_lookup path fixed T k = None" "T i = None" "i \<in> slots"
    and "probe_free path T k = Some i \<or> i \<in> set fixed"
  shows "probe_lookup path fixed (T(i \<mapsto> k)) = (probe_lookup path fixed T)(k \<mapsto> i)"
    and "consistent (T(i \<mapsto> k))"
proof -
  note new = lookup_new [OF assms(1-3,5)]
  show eq: "probe_lookup path fixed (T(i \<mapsto> k)) = (probe_lookup path fixed T)(k \<mapsto> i)"
  proof
    fix k'
    consider "k' = k" | "k' \<noteq> k" "probe_lookup path fixed T k' = None"
      | j where "k' \<noteq> k" "probe_lookup path fixed T k' = Some j" by fastforce
    then show "probe_lookup path fixed (T(i \<mapsto> k)) k' = ((probe_lookup path fixed T)(k \<mapsto> i)) k'"
    proof cases
      case 1
      then show ?thesis using new by simp
    next
      case 2
      then have "probe_lookup path fixed (T(i \<mapsto> k)) k' \<noteq> Some j" for j
        using lookup_slot [of "T(i \<mapsto> k)" k' j] lookup_None [OF assms(1)] by (auto split: if_splits)
      then show ?thesis using 2 by auto
    next
      case (3 j)
      then show ?thesis using lookup_reaches [OF assms(1,3)] by simp
    qed
  qed
  show "consistent (T(i \<mapsto> k))"
    unfolding consistent_def eq
    using assms(1,2) lookup_None [OF assms(1)] by (auto simp: consistent_def split: if_splits)
qed

lemma free_slot: "probe_free path T k = Some i \<Longrightarrow> i \<in> slots \<and> T i = None"
  using probe_free_Some [of path T k i] path_slots by blast

end

end
