(* ===== verification/Kscheme_Strings.thy ===== *)
theory Kscheme_Strings
  imports Kscheme Probe_Table
begin

text \<open>
  Names, hashes and strings of the runtime: C strings in memory, the slots of the symbol table as
  addresses, and what making a string on the heap does to memory.
\<close>

section \<open>Hashes of names\<close>

lemma funpow8: "(f ^^ 8) x = f (f (f (f (f (f (f (f x)))))))"
  by (simp add: numeral_eq_Suc)

lemmas crc_eval = crc32_def crc_step_def str_bytes_def crc_table_def funpow8 crc_bit_def CRC_POLY_def

lemma empty_hash: "crc32 (str_bytes ''_empty_'') = Some EMPTY_HASH"
  by (simp add: crc_eval EMPTY_HASH_def)

lemma crc32_nonzero: "crc32 bs = Some h \<Longrightarrow> h \<noteq> 0"
  by (auto simp: crc32_def Let_def split: if_splits)

section \<open>C strings\<close>

definition c_name :: "string \<Rightarrow> bool" where
  "c_name name \<longleftrightarrow> 0 \<notin> set (str_bytes name)"

lemma length_str_bytes [simp]: "length (str_bytes name) = length name"
  by (simp add: str_bytes_def)

lemma str_bytes_inj: "str_bytes a = str_bytes b \<longleftrightarrow> a = b"
proof -
  have "inj (of_char :: char \<Rightarrow> u8)"
  proof (rule injI)
    fix c d :: char assume "(of_char c :: u8) = of_char d"
    then have "unat (of_char c :: u8) = unat (of_char d :: u8)" by (rule arg_cong)
    then show "c = d" by simp
  qed
  then show ?thesis by (simp add: str_bytes_def inj_map_eq_map)
qed

lemma bytes_at_Suc: "bytes_at m p (Suc n) = m p # bytes_at m (p + 1) n"
  by (simp add: bytes_at_def upt_conv_Cons map_Suc_upt [symmetric] comp_def add.assoc del: upt_Suc)

lemma str_at_bytes: "str_at m p cs \<longleftrightarrow> bytes_at m p (length cs + 1) = cs @ [0]"
  by (induction cs arbitrary: p) (simp_all add: bytes_at_Suc, simp add: bytes_at_def)

lemma str_at_unique:
  assumes "str_at m p as" "str_at m p bs" "0 \<notin> set as" "0 \<notin> set bs"
  shows "as = bs"
  using assms
proof (induction as arbitrary: bs p)
  case Nil
  then show ?case by (cases bs) auto
next
  case (Cons a as)
  then show ?case by (cases bs) auto
qed

lemma str_at_cong:
  assumes "\<And>x. in_block p (length cs + 1) x \<Longrightarrow> m' x = m x" "length cs < 2 ^ 32"
  shows "str_at m' p cs = str_at m p cs"
  using bytes_at_cong [of p "length cs + 1" m' m] assms by (simp add: str_at_bytes)

lemma str_at_store: "length cs < 2 ^ 32 \<Longrightarrow> str_at (store_bytes p (cs @ [0]) m) p cs"
  using bytes_at_store_same [of "cs @ [0]" p m] by (simp add: str_at_bytes)

section \<open>Slots\<close>

lemma set_slots:
  assumes "unat b + 8 \<le> 2 ^ 32"
  shows "i \<in> set (slots a b) \<longleftrightarrow> unat a \<le> unat i \<and> unat i < unat b \<and> 8 dvd (unat i - unat a)"
proof
  assume "i \<in> set (slots a b)"
  then obtain k where k: "i = a + 8 * of_nat k" "k \<in> {0 ..< (unat b - unat a + 7) div 8}"
    unfolding slots_def set_map set_upt by (rule imageE)
  from k(2) have "k < (unat b - unat a + 7) div 8" by simp
  then have "8 * k < unat b - unat a" by linarith
  then have lt: "unat a + 8 * k < unat b" by simp
  define e :: u32 where "e = of_nat (8 * k)"
  have "unat e = 8 * k" unfolding e_def using lt assms by (simp only: unat_of_nat) (simp add: take_bit_nat_eq_self)
  then have "unat i = unat a + 8 * k"
    using lt assms unat_plus_if' [of a e] by (simp add: k(1) e_def)
  then show "unat a \<le> unat i \<and> unat i < unat b \<and> 8 dvd (unat i - unat a)" using lt by simp
next
  assume r: "unat a \<le> unat i \<and> unat i < unat b \<and> 8 dvd (unat i - unat a)"
  then obtain k where k: "unat i - unat a = 8 * k" by blast
  then have "unat i = unat a + 8 * k" using r by linarith
  then have "of_nat (unat i) = (of_nat (unat a + 8 * k) :: u32)" by (rule arg_cong)
  then have "i = a + 8 * of_nat k" by simp
  moreover have "k < (unat b - unat a + 7) div 8" using k r by linarith
  ultimately show "i \<in> set (slots a b)" by (auto simp: slots_def)
qed


section \<open>The heap under the runtime\<close>

text \<open>Addresses that no allocation on the heap \<open>h\<close> changes.\<close>

definition off_heap :: "u32 \<Rightarrow> ram \<Rightarrow> u32 \<Rightarrow> bool" where
  "off_heap h m x \<longleftrightarrow> \<not> in_block h 16 x \<and> unat x \<notin> free_range h m"

lemma heap_same_record:
  assumes "\<And>x. in_block h 16 x \<Longrightarrow> m' x = m x"
  shows "heap_base m' h = heap_base m h" "heap_top m' h = heap_top m h"
    "heap_current m' h = heap_current m h" "heap_top_base m' h = heap_top_base m h"
proof -
  have "load32 m' (h + of_nat i) = load32 m (h + of_nat i)" if "i + 4 \<le> 16" for i
    using assms in_field [OF _ that] by (intro load32_cong) auto
  from this [of 0] this [of 4] this [of 8] this [of 12]
  show "heap_base m' h = heap_base m h" "heap_top m' h = heap_top m h"
    "heap_current m' h = heap_current m h" "heap_top_base m' h = heap_top_base m h"
    by (simp_all add: heap_fields)
qed

lemma heap_ok_same: "(\<And>x. in_block h 16 x \<Longrightarrow> m' x = m x) \<Longrightarrow> heap_ok h m' = heap_ok h m"
  using heap_same_record [of h m' m] by (simp add: heap_ok_def)

lemma free_range_same: "(\<And>x. in_block h 16 x \<Longrightarrow> m' x = m x) \<Longrightarrow> free_range h m' = free_range h m"
  using heap_same_record [of h m' m] by (simp add: free_range_def)

lemma request_memset: "0 < sint sz \<Longrightarrow> request_ok h sz KMALLOC_MEMSET m"
  by (simp add: request_ok_def KMALLOC_MEMSET_def KMALLOC_TOP_def)

text \<open>A cleared allocation from the bottom that fits.\<close>

lemma kmalloc_fits:
  assumes ok: "heap_ok h m" and sz: "0 < sint sz"
    and fits: "align_up 16 (unat (heap_current m h)) + unat sz \<le> unat (heap_top m h)"
  obtains m' p where "kmalloc h sz KMALLOC_MEMSET m = Some (m', p)" "p \<noteq> 0" "heap_ok h m'"
    "unat p = align_up 16 (unat (heap_current m h))" "unat p + unat sz \<le> EE_MAIN_MEM_SIZE"
    "heap_current m' h = p + sz" "heap_top m' h = heap_top m h"
    "\<And>x. in_block p (unat sz) x \<Longrightarrow> unat x \<in> free_range h m \<and> \<not> in_block h 16 x"
    "\<And>x. in_block p (unat sz) x \<Longrightarrow> m' x = 0"
    "\<And>x. \<not> in_block h 16 x \<Longrightarrow> \<not> in_block p (unat sz) x \<Longrightarrow> m' x = m x"
    "\<And>x. off_heap h m x \<Longrightarrow> off_heap h m' x \<and> m' x = m x"
    "\<And>x. in_block p (unat sz) x \<Longrightarrow> off_heap h m' x"
proof -
  have a: "align_of KMALLOC_MEMSET = 16"
    by (simp add: align_of_def KMALLOC_MEMSET_def KMALLOC_ALIGN_64_def KMALLOC_ALIGN_256_def)
  have t: "KMALLOC_MEMSET AND KMALLOC_TOP = 0" "KMALLOC_MEMSET AND KMALLOC_MEMSET \<noteq> 0"
    by (simp_all add: KMALLOC_MEMSET_def KMALLOC_TOP_def)
  from kmalloc_refines [OF ok request_memset [OF sz]] fits
  obtain m' p where k: "kmalloc h sz KMALLOC_MEMSET m = Some (m', p)" "p \<noteq> 0" "heap_ok h m'"
    "unat p = align_up 16 (unat (heap_current m h))" "unat (heap_current m' h) = unat p + unat sz"
    "unat (heap_top m' h) = unat (heap_top m h)" "allocated h KMALLOC_MEMSET (unat sz) p m m'"
    by (auto simp: kmalloc_spec_def abs_alloc_def t a Let_def)
  note B = heap_bounds [OF ok]
  have up: "unat (heap_current m h) \<le> unat p"
    using align_up_props [of 16 "unat (heap_current m h)"] k(4) by simp
  have lim: "unat p + unat sz \<le> 2 ^ 27" using fits k(4) B(1) by simp
  have cur: "heap_current m' h = p + sz"
    using k(5) lim unat_plus_if' [of p sz] by (simp add: word_unat_eq_iff)
  have top: "heap_top m' h = heap_top m h" using k(6) by (simp add: word_unat_eq_iff)
  have blk: "in_block p (unat sz) x \<longleftrightarrow> unat p \<le> unat x \<and> unat x < unat p + unat sz" for x
    using lim by (intro in_block_nat) simp
  have rec: "in_block h 16 x \<longleftrightarrow> unat h \<le> unat x \<and> unat x < unat h + 16" for x
    using B(4) by (intro in_block_nat) simp
  have fr: "unat x \<in> free_range h m \<and> \<not> in_block h 16 x" if "in_block p (unat sz) x" for x
    using that blk rec up fits k(4) B(3) by (auto simp: free_range_def)
  have z: "m' x = 0" if "in_block p (unat sz) x" for x using k(7) that t by (simp add: allocated_def)
  have o: "m' x = m x" if "\<not> in_block h 16 x" "\<not> in_block p (unat sz) x" for x
    using k(7) that by (simp add: allocated_def)
  have off: "off_heap h m' x \<and> m' x = m x" if "off_heap h m x" for x
    using that o [of x] fr [of x] up k(5) top by (auto simp: off_heap_def free_range_def)
  have bo: "off_heap h m' x" if "in_block p (unat sz) x" for x
    using that fr [OF that] blk k(5) by (auto simp: off_heap_def free_range_def)
  show thesis
    by (rule that [OF k(1-4) _ cur top fr z o off bo]) (use lim in \<open>auto simp: EE_MAIN_MEM_SIZE_def\<close>)
qed


section \<open>New strings\<close>

definition string_alloc_size :: "string \<Rightarrow> nat" where
  "string_alloc_size name = (if length name + 1 < 8 then 8 else length name + 1) + 8"

definition string_room :: "u32 \<Rightarrow> string \<Rightarrow> ram \<Rightarrow> bool" where
  "string_room h name m \<longleftrightarrow>
     align_up 16 (unat (heap_current m h)) + string_alloc_size name \<le> unat (heap_top m h)"

lemma in_block_sub:
  assumes "in_block (p + of_nat i) n x" "i + n \<le> k" "k < 2 ^ 32"
  shows "in_block p k x"
proof -
  have u: "unat (x - (p + of_nat i)) < n" using assms(1) by (simp add: in_block_def)
  have "x - p = (x - (p + of_nat i)) + of_nat i" by simp
  moreover have "unat (of_nat i :: u32) = i" using assms(2,3) by (simp add: unat_of_nat take_bit_nat_eq_self)
  ultimately have "unat (x - p) = unat (x - (p + of_nat i)) + i"
    using u assms(2,3) unat_plus_if' [of "x - (p + of_nat i)" "of_nat i :: u32"] by simp
  then show ?thesis using u assms(2) by (simp add: in_block_def)
qed

lemma small_size:
  assumes "0 < n" "n \<le> 2 ^ 27"
  shows "0 < sint (of_nat n :: s32)" "unat (of_nat n :: s32) = n"
proof -
  show "unat (of_nat n :: s32) = n" using assms by (simp add: unat_of_nat take_bit_nat_eq_self)
  have "sint (word_of_int (int n) :: s32) = int n"
    using assms by (intro sint_word_of_int_s32) (simp add: fits_s32_def)
  then show "0 < sint (of_nat n :: s32)" using assms by simp
qed

text \<open>What the string object needs of the kernel.\<close>

definition strings_ready :: "kernel \<Rightarrow> u32 \<Rightarrow> bool" where
  "strings_ready s h \<longleftrightarrow> k_s7 s + FIX_SYM_STRING_TYPE \<noteq> 0 \<and> k_s7 s + FIX_SYM_GLOBAL_HEAP \<noteq> 0 \<and>
     load32 (k_ram s) (k_s7 s + FIX_SYM_GLOBAL_HEAP) = h \<and> heap_ok h (k_ram s) \<and>
     alloc_name_ok (load32 (k_ram s) (k_s7 s + FIX_SYM_STRING_TYPE)) s = Some ()"

lemma alloc_global:
  assumes "strings_ready s h" "0 < sint sz" "t = load32 (k_ram s) (k_s7 s + FIX_SYM_STRING_TYPE)"
  shows "alloc_from_heap (k_s7 s + FIX_SYM_GLOBAL_HEAP) t sz s = k_kmalloc h sz KMALLOC_MEMSET s"
  using assms
  by (simp add: alloc_from_heap_def strings_ready_def is_kheap_symbol_def rd_def Let_def)

lemma make_string_from_c_ok:
  assumes ready: "strings_ready s h" and room: "string_room h name (k_ram s)"
  obtains str m' where "make_string_from_c name s = Some (str, s\<lparr>k_ram := m'\<rparr>)" "str \<noteq> 0" "heap_ok h m'"
    "str_at m' (str + string_data) (str_bytes name)" "load32 m' (str + string_len) = of_nat (length name)"
    "\<And>x. in_block str (4 + length name + 1) x \<Longrightarrow>
       off_heap h m' x \<and> unat x \<in> free_range h (k_ram s) \<and> \<not> in_block h 16 x"
    "\<And>x. off_heap h (k_ram s) x \<Longrightarrow> off_heap h m' x \<and> m' x = k_ram s x"
proof -
  let ?n = "string_alloc_size name" let ?sz = "of_nat ?n :: s32" let ?m = "k_ram s"
  define t where "t = load32 ?m (k_s7 s + FIX_SYM_STRING_TYPE)"
  have ok: "heap_ok h ?m" using ready by (simp add: strings_ready_def)
  have n: "0 < ?n" "?n \<le> 2 ^ 27" "length name + 9 \<le> ?n" "8 \<le> ?n"
    using room heap_bounds [OF ok] by (auto simp: string_room_def string_alloc_size_def)
  note sz = small_size [OF n(1,2)]
  have fits: "align_up 16 (unat (heap_current ?m h)) + unat ?sz \<le> unat (heap_top ?m h)"
    using room by (simp add: string_room_def sz(2) del: of_nat_add)
  obtain m1 p where k: "kmalloc h ?sz KMALLOC_MEMSET ?m = Some (m1, p)" "p \<noteq> 0" "heap_ok h m1"
    "unat p + unat ?sz \<le> EE_MAIN_MEM_SIZE"
    and blk: "\<And>x. in_block p (unat ?sz) x \<Longrightarrow> unat x \<in> free_range h ?m \<and> \<not> in_block h 16 x"
    and off: "\<And>x. off_heap h ?m x \<Longrightarrow> off_heap h m1 x \<and> m1 x = ?m x"
    and new: "\<And>x. in_block p (unat ?sz) x \<Longrightarrow> off_heap h m1 x"
    by (rule kmalloc_fits [OF ok sz(1) fits]) blast
  define m' where "m' = store_bytes (p + 8) (str_bytes name @ [0])
    (store32 (p + 4) (of_nat (length name)) (store32 p t m1))"
  have p8: "p + 4 \<noteq> 0" "p + 8 \<noteq> 0"
    using k(4) unat_plus_if' [of p 4] unat_plus_if' [of p 8] by (auto simp: EE_MAIN_MEM_SIZE_def unat_eq_0 [symmetric])
  have call: "make_string_from_c name s = Some (p + 4, s\<lparr>k_ram := m'\<rparr>)"
  proof -
    have e: "(if length name + 1 < 8 then 8 else length name + 1) + unat BASIC_OFFSET + 4 = ?n"
      by (simp add: string_alloc_size_def BASIC_OFFSET_def)
    have "alloc_heap_object (k_s7 s + FIX_SYM_GLOBAL_HEAP) t ?sz s = Some (p + 4, s\<lparr>k_ram := store32 p t m1\<rparr>)"
      using k(1,2) alloc_global [OF ready sz(1) t_def]
      by (simp add: alloc_heap_object_def k_kmalloc_def wr_def BASIC_OFFSET_def)
    moreover have "fixed_value FIX_SYM_STRING_TYPE s = Some t"
      using ready by (simp add: fixed_value_def rd_def strings_ready_def t_def)
    ultimately show ?thesis
      unfolding make_string_from_c_def Let_def e
      by (simp add: wr_def wr_bytes_def p8 m'_def string_len_def add.assoc)
  qed
  have inside: "m' x = m1 x" if "\<not> in_block p ?n x" for x
  proof -
    have "\<not> in_block p 4 x" "\<not> in_block (p + 4) 4 x" "\<not> in_block (p + 8) (length name + 1) x"
      using that in_block_sub [of p 0 4 x ?n] in_block_sub [of p 4 4 x ?n]
        in_block_sub [of p 8 "length name + 1" x ?n] n by auto
    then show ?thesis by (simp add: m'_def store32_def store_bytes_outside)
  qed
  have rec: "m' x = m1 x" if "in_block h 16 x" for x using inside [of x] blk [of x] that sz(2) by auto
  have fr: "off_heap h m' = off_heap h m1"
    using free_range_same [of h m' m1] rec by (simp add: off_heap_def fun_eq_iff)
  have keep: "off_heap h m' x \<and> m' x = ?m x" if "off_heap h ?m x" for x
  proof -
    have "\<not> in_block p ?n x" using blk [of x] that sz(2) by (auto simp: off_heap_def)
    then show ?thesis using off [OF that] inside fr by simp
  qed
  have mem: "off_heap h m' x \<and> unat x \<in> free_range h ?m \<and> \<not> in_block h 16 x"
    if "in_block (p + 4) (4 + length name + 1) x" for x
  proof -
    have "in_block p ?n x" using that in_block_sub [of p 4 "4 + length name + 1" x ?n] n by simp
    then show ?thesis using blk [of x] new [of x] sz(2) fr by simp
  qed
  have len: "load32 m' (p + 4 + string_len) = of_nat (length name)"
  proof -
    have "blocks_apart (p + 4) 4 (p + 8) (length (str_bytes name @ [0]))"
      using blocks_apart_fields [of 4 4 8 "length name + 1" p] n by simp
    then show ?thesis by (simp add: m'_def string_len_def load32_store_bytes_other)
  qed
  have str: "str_at m' (p + 4 + string_data) (str_bytes name)"
    using str_at_store [of "str_bytes name" "p + 8"] n by (simp add: m'_def string_data_def add.assoc)
  have "heap_ok h m'" using heap_ok_same [of h m' m1] rec k(3) by simp
  from that [OF call p8(1) this str len mem keep] show thesis .
qed

end
