(* ===== verification/Symbol_Table.thy ===== *)
theory Symbol_Table
  imports Kscheme_Strings
begin

text \<open>
  The symbol table in memory represents a function from slots to names, and the searches of
  \<^verbatim>\<open>kscheme.cpp\<close> are the lookups of \<open>Probe_Table\<close> on it.
\<close>

section \<open>Layout\<close>

text \<open>
  \<^verbatim>\<open>InitHeapAndSymbol\<close> takes \<^verbatim>\<open>0x20000\<close> bytes for the table: the slots from \<^verbatim>\<open>SymbolTable2\<close> to
  \<^verbatim>\<open>LastSymbol\<close> with \<^verbatim>\<open>s7\<close> in the middle, then the hash and the name of each.
\<close>

definition table_base :: "kernel \<Rightarrow> u32" where
  "table_base s = k_SymbolTable2 s - BASIC_OFFSET"

definition table_layout :: "kernel \<Rightarrow> bool" where
  "table_layout s \<longleftrightarrow> k_s7 s = table_base s + 0x8004 \<and> k_LastSymbol s = table_base s + 0xff00 \<and>
     table_base s \<noteq> 0 \<and> unat (table_base s) + 0x20000 \<le> EE_MAIN_MEM_SIZE"

definition sym_slots :: "kernel \<Rightarrow> u32 set" where
  "sym_slots s = set (slots (k_SymbolTable2 s) (k_LastSymbol s))"

definition fixed_slots :: "kernel \<Rightarrow> u32 list" where
  "fixed_slots s = slots (k_s7 s) (k_s7 s + FIX_FIXED_SYM_END_OFFSET)"

text \<open>The slots \<^verbatim>\<open>find_symbol_from_c\<close> probes for a name, in order.\<close>

definition probe_path :: "kernel \<Rightarrow> string \<Rightarrow> u32 list" where
  "probe_path s name =
    (let sh2 = hash_offset (the (crc32 (str_bytes name))) in
     if 0 < sint sh2 then slots (k_s7 s + sh2) (k_LastSymbol s) @ slots (k_SymbolTable2 s) (k_s7 s - 0x10)
     else slots (k_s7 s + sh2) (k_s7 s - 0x10) @ slots (k_s7 s + FIX_FIXED_SYM_END_OFFSET) (k_LastSymbol s))"

lemma hash_offset_bounds:
  "- 0x8000 \<le> sint (hash_offset h)" "sint (hash_offset h) < 0x8000" "8 dvd sint (hash_offset h)"
proof -
  let ?w = "push_bit 0x13 h :: u32"
  have e: "sint (hash_offset h) = drop_bit 0x10 (sint ?w)"
    by (simp add: hash_offset_def sint_signed_drop_bit_eq)
  have "- (2 ^ 31) \<le> sint ?w" "sint ?w < 2 ^ 31"
    using sint_greater_eq [of ?w] sint_less [of ?w] by simp_all
  then show "- 0x8000 \<le> sint (hash_offset h)" "sint (hash_offset h) < 0x8000"
    unfolding e drop_bit_eq_div
    using zdiv_mono1 [of "- 2147483648" "sint ?w" 65536] zdiv_mono1 [of "sint ?w" 2147483647 65536] by simp_all
  have "take_bit 3 (sint (hash_offset h)) = 0"
    unfolding e by (rule bit_eqI) (auto simp: bit_simps)
  then show "8 dvd sint (hash_offset h)" by (simp add: take_bit_eq_0_iff)
qed

lemma uint_plus_sint:
  assumes "0 \<le> uint a + sint b" "uint a + sint b < 2 ^ 32"
  shows "uint (a + b :: u32) = uint a + sint b"
proof -
  have "uint (word_of_int x :: u32) = take_bit 32 x" for x by (simp add: unsigned_of_int)
  moreover have "a + b = word_of_int (uint a + sint b)" by simp
  ultimately have "uint (a + b) = take_bit 32 (uint a + sint b)" by metis
  then show ?thesis using assms by (simp add: take_bit_int_eq_self)
qed

lemma layout_nat:
  assumes "table_layout s"
  shows "unat (k_SymbolTable2 s) = unat (table_base s) + 4" "unat (k_s7 s) = unat (table_base s) + 0x8004"
    "unat (k_LastSymbol s) = unat (table_base s) + 0xff00" "0 < unat (table_base s)"
    "unat (table_base s) \<le> 2 ^ 27"
    "unat (k_s7 s - 0x10) = unat (table_base s) + 0x7ff4"
    "unat (k_s7 s + FIX_FIXED_SYM_END_OFFSET) = unat (table_base s) + 0x81d4"
proof -
  let ?b = "table_base s"
  have b: "unat ?b + 0x20000 \<le> 2 ^ 27" "?b \<noteq> 0"
    using assms by (auto simp: table_layout_def EE_MAIN_MEM_SIZE_def)
  have t: "k_SymbolTable2 s = ?b + 4" by (simp add: table_base_def BASIC_OFFSET_def)
  have s: "k_s7 s = ?b + 0x8004" "k_LastSymbol s = ?b + 0xff00" using assms by (simp_all add: table_layout_def)
  have m: "k_s7 s - 0x10 = ?b + 0x7ff4" "k_s7 s + FIX_FIXED_SYM_END_OFFSET = ?b + 0x81d4"
    by (simp_all add: s FIX_FIXED_SYM_END_OFFSET_def)
  note add = unat_plus_if' [of ?b 4] unat_plus_if' [of ?b "0x8004"] unat_plus_if' [of ?b "0xff00"]
    unat_plus_if' [of ?b "0x7ff4"] unat_plus_if' [of ?b "0x81d4"]
  show "unat (k_SymbolTable2 s) = unat ?b + 4" "unat (k_s7 s) = unat ?b + 0x8004"
    "unat (k_LastSymbol s) = unat ?b + 0xff00" "0 < unat ?b" "unat ?b \<le> 2 ^ 27"
    unfolding t s using b add by (auto simp: unat_gt_0)
  show "unat (k_s7 s - 0x10) = unat ?b + 0x7ff4"
    "unat (k_s7 s + FIX_FIXED_SYM_END_OFFSET) = unat ?b + 0x81d4"
    unfolding m using b add by auto
qed

text \<open>A slot is at a multiple of 8 into the table.\<close>

lemma in_sym_slots:
  assumes "table_layout s"
  shows "i \<in> sym_slots s \<longleftrightarrow> unat (table_base s) + 4 \<le> unat i \<and> unat i < unat (table_base s) + 0xff00 \<and>
    8 dvd (unat i - (unat (table_base s) + 4))"
  unfolding sym_slots_def using layout_nat [OF assms] by (subst set_slots) auto

lemma slots_sub:
  assumes "table_layout s" "unat (table_base s) + 4 \<le> unat a" "unat b \<le> unat (table_base s) + 0xff00"
    "8 dvd (unat a - (unat (table_base s) + 4))"
  shows "set (slots a b) \<subseteq> sym_slots s"
proof
  fix i assume "i \<in> set (slots a b)"
  moreover have "unat b + 8 \<le> 2 ^ 32" using assms(3) layout_nat(5) [OF assms(1)] by simp
  ultimately have i: "unat a \<le> unat i" "unat i < unat b" "8 dvd (unat i - unat a)"
    by (simp_all add: set_slots)
  have "unat i - (unat (table_base s) + 4) = (unat i - unat a) + (unat a - (unat (table_base s) + 4))"
    using i(1) assms(2) by linarith
  moreover have "8 dvd ((unat i - unat a) + (unat a - (unat (table_base s) + 4)))"
    using i(3) assms(4) by (rule dvd_add)
  ultimately show "i \<in> sym_slots s"
    using i(1,2) assms(2,3) unfolding in_sym_slots [OF assms(1)] by simp
qed

lemma path_in_table:
  assumes "table_layout s"
  shows "set (probe_path s name) \<subseteq> sym_slots s" "set (fixed_slots s) \<subseteq> sym_slots s"
proof -
  note L = layout_nat [OF assms]
  let ?o = "hash_offset (the (crc32 (str_bytes name)))" let ?b = "unat (table_base s)"
  obtain z where z: "sint ?o = 8 * z" using hash_offset_bounds(3) by blast
  note hb = hash_offset_bounds(1,2) [of "the (crc32 (str_bytes name))"]
  have u: "uint (k_s7 s) = int ?b + 0x8004" using arg_cong [OF L(2), of int] by simp
  moreover have "?b \<le> 134217728" using L(5) by simp
  ultimately have "0 \<le> uint (k_s7 s) + sint ?o" "uint (k_s7 s) + sint ?o < 4294967296" using hb by linarith+
  then have "uint (k_s7 s + ?o) = int ?b + 0x8004 + sint ?o"
    using uint_plus_sint [of "k_s7 s" ?o] u by simp
  then have "int (unat (k_s7 s + ?o)) = int ?b + 4 + 8 * (z + 0x1000)" unfolding z by simp
  moreover define y where "y = nat (z + 0x1000)"
  then have "int y = z + 0x1000" using hb unfolding z by linarith
  ultimately have "int (unat (k_s7 s + ?o)) = int (?b + 4 + 8 * y)" by (simp del: uint_nat)
  then have eq: "unat (k_s7 s + ?o) = ?b + 4 + 8 * y" by (simp only: of_nat_eq_iff)
  then have o: "?b + 4 \<le> unat (k_s7 s + ?o)" and d: "8 dvd (unat (k_s7 s + ?o) - (?b + 4))" by simp_all
  note sub = slots_sub [OF assms]
  have "set (slots (k_s7 s + ?o) (k_LastSymbol s)) \<subseteq> sym_slots s"
    "set (slots (k_s7 s + ?o) (k_s7 s - 0x10)) \<subseteq> sym_slots s"
    "set (slots (k_SymbolTable2 s) (k_s7 s - 0x10)) \<subseteq> sym_slots s"
    "set (slots (k_s7 s + FIX_FIXED_SYM_END_OFFSET) (k_LastSymbol s)) \<subseteq> sym_slots s"
    by (intro sub; use o d L in simp)+
  then show "set (probe_path s name) \<subseteq> sym_slots s" by (simp add: probe_path_def Let_def)
  show "set (fixed_slots s) \<subseteq> sym_slots s"
    unfolding fixed_slots_def by (intro sub; use L in simp)
qed

section \<open>The table in memory\<close>

definition slot_hash :: "kernel \<Rightarrow> u32 \<Rightarrow> u32" where
  "slot_hash s i = load32 (k_ram s) (sym_info i + info_hash)"

definition slot_str :: "kernel \<Rightarrow> u32 \<Rightarrow> u32" where
  "slot_str s i = load32 (k_ram s) (sym_info i + info_str)"

text \<open>A name of the table lies outside it, where neither the table nor the heap \<open>h\<close> is written.\<close>

definition slot_holds :: "kernel \<Rightarrow> u32 \<Rightarrow> u32 \<Rightarrow> string \<Rightarrow> bool" where
  "slot_holds s h i n \<longleftrightarrow> c_name n \<and> crc32 (str_bytes n) = Some (slot_hash s i) \<and> slot_str s i \<noteq> 0 \<and>
     str_at (k_ram s) (slot_str s i + string_data) (str_bytes n) \<and> length n < 2 ^ 27 \<and>
     (\<forall>x. in_block (slot_str s i) (4 + length n + 1) x \<longrightarrow>
        off_heap h (k_ram s) x \<and> \<not> in_block (table_base s) 0x20000 x)"

definition symbols_at :: "kernel \<Rightarrow> u32 \<Rightarrow> (u32 \<Rightarrow> string option) \<Rightarrow> bool" where
  "symbols_at s h T \<longleftrightarrow>
     (\<forall>i \<in> sym_slots s. case T i of None \<Rightarrow> slot_hash s i = 0 | Some n \<Rightarrow> slot_holds s h i n)"

lemma symbols_atD:
  assumes "symbols_at s h T" "i \<in> sym_slots s"
  shows "T i = None \<Longrightarrow> slot_hash s i = 0" "T i = Some n \<Longrightarrow> slot_holds s h i n"
  using assms by (auto simp: symbols_at_def split: option.splits)

lemma slot_update [simp]:
  "slot_hash (s\<lparr>k_symbol_slot := j\<rparr>) = slot_hash s" "slot_str (s\<lparr>k_symbol_slot := j\<rparr>) = slot_str s"
  "table_base (s\<lparr>k_symbol_slot := j\<rparr>) = table_base s" "sym_slots (s\<lparr>k_symbol_slot := j\<rparr>) = sym_slots s"
  "fixed_slots (s\<lparr>k_symbol_slot := j\<rparr>) = fixed_slots s" "table_layout (s\<lparr>k_symbol_slot := j\<rparr>) = table_layout s"
  by (simp_all add: slot_hash_def slot_str_def table_base_def sym_slots_def fixed_slots_def table_layout_def fun_eq_iff)

lemma slot_holds_slot [simp]: "slot_holds (s\<lparr>k_symbol_slot := j\<rparr>) = slot_holds s"
  by (simp add: slot_holds_def fun_eq_iff)

lemma symbols_at_slot [simp]: "symbols_at (s\<lparr>k_symbol_slot := j\<rparr>) h T = symbols_at s h T"
  by (simp add: symbols_at_def cong: option.case_cong)

lemma symbol_named_slot [simp]: "symbol_named h n i (s\<lparr>k_symbol_slot := j\<rparr>) = symbol_named h n i s"
  by (simp add: symbol_named_def rd_def)

lemma find_fixed_slot [simp]: "find_fixed h n is (s\<lparr>k_symbol_slot := j\<rparr>) = find_fixed h n is s"
  by (induction "is") (simp_all cong: if_cong)

section \<open>The search follows the table\<close>

lemma info_nonzero:
  assumes "table_layout s" "i \<in> sym_slots s"
  shows "sym_info i \<noteq> 0" "unat (sym_info i) = unat i + 0xff34"
proof -
  have "unat i < 2 ^ 27 + 0x10000" using assms layout_nat(5) [OF assms(1)] by (simp add: in_sym_slots)
  then show "unat (sym_info i) = unat i + 0xff34"
    using unat_plus_if' [of i "0xff34"] by (simp add: sym_info_def SYM_INFO_OFFSET_def)
  then show "sym_info i \<noteq> 0" by (metis add_eq_0_iff_both_eq_0 unsigned_0 zero_neq_numeral)
qed

lemma symbol_named_ok:
  assumes "table_layout s" "symbols_at s h T" "i \<in> sym_slots s" "c_name name"
    and hash: "crc32 (str_bytes name) = Some hash"
  shows "symbol_named hash name i s = Some (T i = Some name)"
proof (cases "T i")
  case None
  then have "slot_hash s i = 0" using symbols_atD(1) [OF assms(2,3)] by simp
  then show ?thesis
    using None info_nonzero [OF assms(1,3)] crc32_nonzero [OF hash]
    by (simp add: symbol_named_def rd_def slot_hash_def)
next
  case (Some n)
  from symbols_atD(2) [OF assms(2,3) Some] have n: "slot_holds s h i n" .
  show ?thesis
  proof (cases "slot_hash s i = hash")
    case True
    have "str_at (k_ram s) (slot_str s i + string_data) (str_bytes name) \<longleftrightarrow> n = name"
      using n assms(4) str_at_unique [of "k_ram s" "slot_str s i + string_data" "str_bytes n" "str_bytes name"]
      by (auto simp: slot_holds_def c_name_def str_bytes_inj)
    then show ?thesis
      using Some True n info_nonzero [OF assms(1,3)]
      by (simp add: symbol_named_def rd_def slot_hash_def slot_str_def slot_holds_def)
  next
    case False
    then have "n \<noteq> name" using n hash by (auto simp: slot_holds_def)
    then show ?thesis
      using Some False info_nonzero [OF assms(1,3)] by (simp add: symbol_named_def rd_def slot_hash_def)
  qed
qed

lemma find_fixed_ok:
  assumes "table_layout s" "symbols_at s h T" "c_name name" "crc32 (str_bytes name) = Some hash"
    and "set is \<subseteq> sym_slots s"
  shows "find_fixed hash name is s = Some (case find_key T name is of Some i \<Rightarrow> i | None \<Rightarrow> 0)"
  using assms(5)
proof (induction "is")
  case (Cons i "is")
  then show ?case using symbol_named_ok [OF assms(1,2) _ assms(3,4), of i] by (simp add: find_key_def)
qed (simp add: find_key_def)

definition fixed_result :: "kernel \<Rightarrow> (u32 \<Rightarrow> string option) \<Rightarrow> string \<Rightarrow> u32" where
  "fixed_result s T name = (case find_key T name (fixed_slots s) of Some i \<Rightarrow> i | None \<Rightarrow> 0)"

lemma find_symbol_in_fixed_area_ok:
  assumes "table_layout s" "symbols_at s h T" "c_name name" "crc32 (str_bytes name) = Some hash"
  shows "find_symbol_in_fixed_area hash name s = Some (fixed_result s T name)"
  using find_fixed_ok [OF assms path_in_table(2) [OF assms(1)]]
  by (simp add: find_symbol_in_fixed_area_def fixed_result_def fixed_slots_def)

lemma find_slots_ok:
  assumes "table_layout s" "symbols_at s h T" "c_name name" "crc32 (str_bytes name) = Some hash"
    and "set is \<subseteq> sym_slots s"
  shows "find_slots hash name is s = Some
    (case first_stop T name is of
       None \<Rightarrow> (1, s)
     | Some i \<Rightarrow> if T i = Some name then (i, s) else (fixed_result s T name, s\<lparr>k_symbol_slot := i\<rparr>))"
  using assms(5)
proof (induction "is")
  case (Cons i "is")
  then have i: "i \<in> sym_slots s" by simp
  note named = symbol_named_ok [OF assms(1,2) i assms(3,4)]
  have "rd (sym_info i) info_hash s = Some (slot_hash s i)"
    using info_nonzero [OF assms(1) i] by (simp add: rd_def slot_hash_def)
  moreover have "slot_hash s i = 0 \<longleftrightarrow> T i = None"
    using symbols_atD [OF assms(2) i] crc32_nonzero by (cases "T i") (auto simp: slot_holds_def)
  moreover have "find_symbol_in_fixed_area hash name (s\<lparr>k_symbol_slot := i\<rparr>) = Some (fixed_result s T name)"
    using find_symbol_in_fixed_area_ok [OF assms(1-4)] by (simp add: find_symbol_in_fixed_area_def)
  ultimately show ?case using Cons named by (simp add: first_stop_def)
qed (simp add: first_stop_def)

lemma first_stop_append:
  "first_stop T k (xs @ ys) = (case first_stop T k xs of None \<Rightarrow> first_stop T k ys | Some i \<Rightarrow> Some i)"
  by (induction xs) (simp_all add: first_stop_def)

lemma find_key_slot:
  assumes "table_layout s"
  shows "fixed_result s T name \<noteq> 1" "i \<in> sym_slots s \<Longrightarrow> i \<noteq> 1" "i \<in> sym_slots s \<Longrightarrow> i \<noteq> 0"
proof -
  show 1: "i \<noteq> 1" if "i \<in> sym_slots s" for i using that by (auto simp: in_sym_slots [OF assms])
  show "i \<noteq> 0" if "i \<in> sym_slots s" for i using that by (auto simp: in_sym_slots [OF assms])
  show "fixed_result s T name \<noteq> 1"
    using 1 path_in_table(2) [OF assms]
    by (auto simp: fixed_result_def split: option.splits dest: find_key_Some)
qed

definition sym_lookup :: "kernel \<Rightarrow> (u32 \<Rightarrow> string option) \<Rightarrow> string \<Rightarrow> u32 option" where
  "sym_lookup s T = probe_lookup (probe_path s) (fixed_slots s) T"

definition sym_free :: "kernel \<Rightarrow> (u32 \<Rightarrow> string option) \<Rightarrow> string \<Rightarrow> u32 option" where
  "sym_free s T = probe_free (probe_path s) T"

text \<open>\<^verbatim>\<open>find_symbol_from_c\<close> is the lookup; \<^verbatim>\<open>symbol_slot\<close> is left at the free slot the probe met.\<close>

lemma find_symbol_from_c_ok:
  assumes "table_layout s" "symbols_at s h T" "c_name name" "crc32 (str_bytes name) = Some hash"
    and "name \<noteq> ''_empty_''"
  shows "find_symbol_from_c name s = Some
    (case sym_lookup s T name of Some i \<Rightarrow> i | None \<Rightarrow> 0,
     s\<lparr>k_symbol_slot := (case sym_free s T name of Some i \<Rightarrow> i | None \<Rightarrow> 0)\<rparr>)"
proof -
  let ?s = "s\<lparr>k_symbol_slot := 0\<rparr>"
  have L: "table_layout ?s" "symbols_at ?s h T" "sym_slots ?s = sym_slots s" "fixed_result ?s T name = fixed_result s T name"
    using assms(1,2) by (simp_all add: fixed_result_def)
  note P = path_in_table(1) [OF assms(1), of name]
  note F = find_key_slot [OF assms(1)]
  have area: "find_slots hash name is ?s = Some
    (case first_stop T name is of None \<Rightarrow> (1, ?s)
     | Some i \<Rightarrow> if T i = Some name then (i, ?s) else (fixed_result s T name, s\<lparr>k_symbol_slot := i\<rparr>))"
    if "set is \<subseteq> sym_slots s" for "is"
    using find_slots_ok [OF L(1,2) assms(3,4)] that L(3,4) by (simp split: option.splits)
  have fixed: "find_symbol_in_fixed_area hash name ?s = Some (fixed_result s T name)"
    using find_symbol_in_fixed_area_ok [OF L(1,2) assms(3,4)] L(4) by simp
  have two: "(do { (probe, t) \<leftarrow> find_slots hash name xs ?s;
       if probe \<noteq> 1 then Some (probe, t)
       else do { (probe, t) \<leftarrow> find_slots hash name (f t) t;
         if probe = 1 then do { symb \<leftarrow> find_symbol_in_fixed_area hash name t; Some (symb, t) } else Some (probe, t) } }) =
     Some (case sym_lookup s T name of Some i \<Rightarrow> i | None \<Rightarrow> 0,
       s\<lparr>k_symbol_slot := (case sym_free s T name of Some i \<Rightarrow> i | None \<Rightarrow> 0)\<rparr>)"
    if p: "probe_path s name = xs @ ys" and f: "\<And>j. f (s\<lparr>k_symbol_slot := j\<rparr>) = ys" for xs ys f
  proof -
    have sub: "set xs \<subseteq> sym_slots s" "set ys \<subseteq> sym_slots s" using P p by auto
    have in1: "i \<in> sym_slots s \<and> (T i = Some name \<or> T i = None)" if "first_stop T name zs = Some i" "set zs \<subseteq> sym_slots s" for i zs
      using that by (auto simp: first_stop_def find_Some_split)
    note R = f sym_lookup_def probe_lookup_def sym_free_def probe_free_def p first_stop_append
      fixed_result_def [of s T name, symmetric]
    show ?thesis
    proof (cases "first_stop T name xs")
      case None
      show ?thesis
      proof (cases "first_stop T name ys")
        case None2: None
        show ?thesis using None None2 fixed by (simp add: R area [OF sub(1)] area [OF sub(2)])
      next
        case (Some i)
        show ?thesis
          using None Some in1 [OF Some sub(2)] F fixed by (auto simp: R area [OF sub(1)] area [OF sub(2)])
      qed
    next
      case (Some i)
      then show ?thesis using in1 [OF Some sub(1)] F by (auto simp: R area [OF sub(1)])
    qed
  qed
  show ?thesis
  proof (cases "0 < sint (hash_offset hash)")
    case True
    then have "probe_path s name = slots (k_s7 s + hash_offset hash) (k_LastSymbol s) @ slots (k_SymbolTable2 s) (k_s7 s - 0x10)"
      using assms(4) by (simp add: probe_path_def)
    from two [OF this, of "\<lambda>t. slots (k_SymbolTable2 t) (k_s7 t - 0x10)"] True show ?thesis
      using assms(4,5) by (simp add: find_symbol_from_c_def find_symbol_in_area_def Let_def cong: if_cong)
  next
    case False
    then have "probe_path s name = slots (k_s7 s + hash_offset hash) (k_s7 s - 0x10) @
      slots (k_s7 s + FIX_FIXED_SYM_END_OFFSET) (k_LastSymbol s)"
      using assms(4) by (simp add: probe_path_def)
    from two [OF this, of "\<lambda>t. slots (k_s7 t + FIX_FIXED_SYM_END_OFFSET) (k_LastSymbol t)"] False show ?thesis
      using assms(4,5) by (simp add: find_symbol_from_c_def find_symbol_in_area_def Let_def cong: if_cong)
  qed
qed

end
