(* ===== verification/Symbol_Intern.thy ===== *)
theory Symbol_Intern
  imports Symbol_Table
begin

text \<open>
  Interning keeps the invariant of the table: what the operations write, and where.
\<close>

section \<open>The invariant\<close>

definition table_slots :: "kernel \<Rightarrow> u32 set" where
  "table_slots s = (if table_layout s then sym_slots s else UNIV)"

interpretation symtab: probe_table "probe_path s" "fixed_slots s" "table_slots s" for s
  by unfold_locales (simp_all add: table_slots_def path_in_table)

text \<open>The type of strings may not be set up yet; if it is, it has a symbol of the table or none.\<close>

definition string_type_ok :: "kernel \<Rightarrow> u32 \<Rightarrow> (u32 \<Rightarrow> string option) \<Rightarrow> bool" where
  "string_type_ok s h T \<longleftrightarrow>
    (let t = load32 (k_ram s) (k_s7 s + FIX_SYM_STRING_TYPE); symbol = load32 (k_ram s) t in
     t = 0 \<or>
     (\<forall>x. in_block t 4 x \<longrightarrow> off_heap h (k_ram s) x \<and> \<not> in_block (table_base s) 0x20000 x) \<and>
     (symbol = 0 \<or> symbol \<in> sym_slots s \<and> T symbol \<noteq> None))"

definition symtab_ok :: "kernel \<Rightarrow> u32 \<Rightarrow> (u32 \<Rightarrow> string option) \<Rightarrow> bool" where
  "symtab_ok s h T \<longleftrightarrow> table_layout s \<and> heap_ok h (k_ram s) \<and>
     load32 (k_ram s) (k_s7 s + FIX_SYM_GLOBAL_HEAP) = h \<and>
     (\<forall>x. in_block (table_base s) 0x20000 x \<longrightarrow> off_heap h (k_ram s) x) \<and>
     symbols_at s h T \<and> string_type_ok s h T \<and> symtab.consistent s T"

section \<open>Addresses of the table\<close>

lemma table_block:
  assumes "table_layout s"
  shows "in_block (table_base s) 0x20000 x \<longleftrightarrow>
    unat (table_base s) \<le> unat x \<and> unat x < unat (table_base s) + 0x20000"
  using layout_nat(5) [OF assms] by (intro in_block_nat) simp

lemma slot_bounds:
  assumes "table_layout s" "i \<in> sym_slots s"
  obtains k where "unat i = unat (table_base s) + 4 + 8 * k" "8 * k < 0xfefc"
proof -
  from assms(2) have r: "unat (table_base s) + 4 \<le> unat i" "unat i < unat (table_base s) + 0xff00"
    "8 dvd (unat i - (unat (table_base s) + 4))"
    by (simp_all add: in_sym_slots [OF assms(1)])
  from r(3) obtain k where "unat i - (unat (table_base s) + 4) = 8 * k" by blast
  then show thesis using that [of k] r(1,2) by linarith
qed

text \<open>The tag of a slot and the two words of its information, as ranges of addresses.\<close>

lemma slot_blocks:
  assumes "table_layout s" "i \<in> sym_slots s"
  shows "in_block (i - 4) 4 x \<longleftrightarrow> unat i - 4 \<le> unat x \<and> unat x < unat i"
    "in_block i 4 x \<longleftrightarrow> unat i \<le> unat x \<and> unat x < unat i + 4"
    "in_block (sym_info i + info_hash) 4 x \<longleftrightarrow> unat i + 0xff34 \<le> unat x \<and> unat x < unat i + 0xff38"
    "in_block (sym_info i + info_str) 4 x \<longleftrightarrow> unat i + 0xff38 \<le> unat x \<and> unat x < unat i + 0xff3c"
proof -
  obtain k where k: "unat i = unat (table_base s) + 4 + 8 * k" "8 * k < 0xfefc"
    by (rule slot_bounds [OF assms])
  note b = layout_nat(4,5) [OF assms(1)]
  have u: "unat (i - 4) = unat i - 4" using unat_minus_u32 [of i 4] k by (simp add: word_le_nat_alt)
  have v: "unat (sym_info i + 4) = unat i + 0xff38"
    using info_nonzero(2) [OF assms] unat_plus_if' [of "sym_info i" 4] k b by simp
  show "in_block (i - 4) 4 x \<longleftrightarrow> unat i - 4 \<le> unat x \<and> unat x < unat i"
    using in_block_nat [of "i - 4" 4 x] u k b by auto
  show "in_block i 4 x \<longleftrightarrow> unat i \<le> unat x \<and> unat x < unat i + 4"
    using in_block_nat [of i 4 x] k b by simp
  show "in_block (sym_info i + info_hash) 4 x \<longleftrightarrow> unat i + 0xff34 \<le> unat x \<and> unat x < unat i + 0xff38"
    using in_block_nat [of "sym_info i" 4 x] info_nonzero(2) [OF assms] k b by (simp add: info_hash_def)
  show "in_block (sym_info i + info_str) 4 x \<longleftrightarrow> unat i + 0xff38 \<le> unat x \<and> unat x < unat i + 0xff3c"
    using in_block_nat [of "sym_info i + 4" 4 x] v k b by (simp add: info_str_def)
qed

lemma fixed_symbol_slots:
  assumes "table_layout s"
  shows "k_s7 s + FIX_SYM_STRING_TYPE \<in> sym_slots s" "k_s7 s + FIX_SYM_GLOBAL_HEAP \<in> sym_slots s"
    "k_s7 s + FIX_SYM_SYMBOL_TYPE \<in> sym_slots s"
proof -
  note b = layout_nat(2,5) [OF assms]
  have "unat (k_s7 s + n) = unat (table_base s) + 0x8004 + unat n" if "unat n < 0x1000" for n
    using b that unat_plus_if' [of "k_s7 s" n] by simp
  then show "k_s7 s + FIX_SYM_STRING_TYPE \<in> sym_slots s" "k_s7 s + FIX_SYM_GLOBAL_HEAP \<in> sym_slots s"
    "k_s7 s + FIX_SYM_SYMBOL_TYPE \<in> sym_slots s"
    by (simp_all add: in_sym_slots [OF assms] FIX_SYM_STRING_TYPE_def FIX_SYM_GLOBAL_HEAP_def FIX_SYM_SYMBOL_TYPE_def)
qed

section \<open>Filling a slot\<close>

text \<open>
  What \<open>intern_from_c\<close> and \<open>set_fixed_symbol\<close> do to memory: \<open>m'\<close> differs from \<open>m\<close> only in the tag, the hash
  and the name of the slot, in free memory of the heap and in the record of the heap.
\<close>

definition slot_filled :: "kernel \<Rightarrow> u32 \<Rightarrow> u32 \<Rightarrow> string \<Rightarrow> ram \<Rightarrow> bool" where
  "slot_filled s h i name m' \<longleftrightarrow> heap_ok h m' \<and>
     (\<forall>x. off_heap h (k_ram s) x \<longrightarrow> off_heap h m' x \<and>
        (m' x = k_ram s x \<or> in_block (i - 4) 4 x \<or> in_block (sym_info i + info_hash) 4 x \<or>
         in_block (sym_info i + info_str) 4 x \<or> in_block i 4 x)) \<and>
     slot_holds (s\<lparr>k_ram := m'\<rparr>) h i name"

lemma filled_load:
  assumes "slot_filled s h i name m'" "table_layout s" "i \<in> sym_slots s" 
    and "\<And>x. in_block a 4 x \<Longrightarrow> off_heap h (k_ram s) x \<and> \<not> in_block (i - 4) 4 x \<and> \<not> in_block i 4 x \<and>
      \<not> in_block (sym_info i + info_hash) 4 x \<and> \<not> in_block (sym_info i + info_str) 4 x"
  shows "load32 m' a = load32 (k_ram s) a"
  using assms(1,4) by (intro load32_cong) (auto simp: slot_filled_def)

lemma filled_ok:
  assumes ok: "symtab_ok s h T" and fill: "slot_filled s h i name m'"
    and i: "i \<in> sym_slots s" "T i = None" and new: "sym_lookup s T name = None"
    and place: "sym_free s T name = Some i \<or> i \<in> set (fixed_slots s)"
    and heap: "i = k_s7 s + FIX_SYM_GLOBAL_HEAP \<or> i = k_s7 s + FIX_SYM_STRING_TYPE \<Longrightarrow>
      load32 m' i = load32 (k_ram s) i"
  shows "symtab_ok (s\<lparr>k_ram := m'\<rparr>) h (T(i \<mapsto> name)) \<and>
    sym_lookup s (T(i \<mapsto> name)) = (sym_lookup s T)(name \<mapsto> i)"
proof -
  let ?s = "s\<lparr>k_ram := m'\<rparr>" let ?m = "k_ram s" let ?b = "unat (table_base s)"
  have lay: "table_layout s" and tab: "\<And>x. in_block (table_base s) 0x20000 x \<Longrightarrow> off_heap h ?m x"
    and syms: "symbols_at s h T" and cons: "symtab.consistent s T"
    and hp: "load32 ?m (k_s7 s + FIX_SYM_GLOBAL_HEAP) = h"
    using ok by (auto simp: symtab_ok_def)
  have [simp]: "table_base ?s = table_base s" "sym_slots ?s = sym_slots s" "table_layout ?s = table_layout s"
    "probe_path ?s = probe_path s" "fixed_slots ?s = fixed_slots s" "table_slots ?s = table_slots s"
    by (simp_all add: table_base_def sym_slots_def table_layout_def probe_path_def fixed_slots_def table_slots_def fun_eq_iff Let_def
        cong: if_cong)
  note tb = table_block [OF lay] and load = filled_load [OF fill lay i(1)]
  obtain k where k: "unat i = ?b + 4 + 8 * k" "8 * k < 0xfefc" by (rule slot_bounds [OF lay i(1)])
  note ib = slot_blocks [OF lay i(1)]
  have keep: "off_heap h m' x" if "off_heap h ?m x" for x using fill that by (simp add: slot_filled_def)
  have outer: "m' x = ?m x" if "off_heap h ?m x" "\<not> in_block (table_base s) 0x20000 x" for x
    using fill that k by (auto simp: slot_filled_def ib tb)
  have vals: "load32 m' j = load32 ?m j" if j: "j \<in> sym_slots s" "j \<noteq> i" for j
  proof (rule load)
    obtain l where l: "unat j = ?b + 4 + 8 * l" "8 * l < 0xfefc" by (rule slot_bounds [OF lay j(1)])
    have "k \<noteq> l" using j(2) k(1) l(1) by (auto simp: word_unat_eq_iff)
    then show "off_heap h ?m x \<and> \<not> in_block (i - 4) 4 x \<and> \<not> in_block i 4 x \<and>
      \<not> in_block (sym_info i + info_hash) 4 x \<and> \<not> in_block (sym_info i + info_str) 4 x" if "in_block j 4 x" for x
      using that tab [of x] k l unfolding ib tb slot_blocks [OF lay j(1)] by (cases "k < l") auto
  qed
  have infos: "slot_hash ?s j = slot_hash s j \<and> slot_str ?s j = slot_str s j" if j: "j \<in> sym_slots s" "j \<noteq> i" for j
  proof -
    obtain l where l: "unat j = ?b + 4 + 8 * l" "8 * l < 0xfefc" by (rule slot_bounds [OF lay j(1)])
    have "k \<noteq> l" using j(2) k(1) l(1) by (auto simp: word_unat_eq_iff)
    then have "8 * k + 8 \<le> 8 * l \<or> 8 * l + 8 \<le> 8 * k" by linarith
    then have "off_heap h ?m x \<and> \<not> in_block (i - 4) 4 x \<and> \<not> in_block i 4 x \<and>
      \<not> in_block (sym_info i + info_hash) 4 x \<and> \<not> in_block (sym_info i + info_str) 4 x"
      if "in_block (sym_info j + info_hash) 4 x \<or> in_block (sym_info j + info_str) 4 x" for x
      using that tab [of x] k l unfolding ib tb slot_blocks [OF lay j(1)] by auto
    then show ?thesis unfolding slot_hash_def slot_str_def using load by simp
  qed
  have holds: "slot_holds ?s h j n" if j: "j \<in> sym_slots s" "j \<noteq> i" and n: "slot_holds s h j n" for j n
  proof -
    have o: "off_heap h ?m x \<and> \<not> in_block (table_base s) 0x20000 x" if "in_block (slot_str s j) (4 + length n + 1) x" for x
      using n that by (simp add: slot_holds_def)
    have "str_at m' (slot_str s j + string_data) (str_bytes n) = str_at ?m (slot_str s j + string_data) (str_bytes n)"
    proof (rule str_at_cong)
      show "length (str_bytes n) < 2 ^ 32" using n by (simp add: slot_holds_def)
      fix x assume "in_block (slot_str s j + string_data) (length (str_bytes n) + 1) x"
      then have "in_block (slot_str s j) (4 + length n + 1) x"
        using in_block_sub [of "slot_str s j" 4 "length n + 1" x "4 + length n + 1"] n
        by (simp add: string_data_def slot_holds_def)
      then show "m' x = ?m x" using o outer by blast
    qed
    then show ?thesis using n o keep infos [OF j] by (auto simp: slot_holds_def)
  qed
  have syms': "symbols_at ?s h (T(i \<mapsto> name))"
    unfolding symbols_at_def
  proof
    fix j assume j: "j \<in> sym_slots ?s"
    show "case (T(i \<mapsto> name)) j of None \<Rightarrow> slot_hash ?s j = 0 | Some n \<Rightarrow> slot_holds ?s h j n"
    proof (cases "j = i")
      case True
      then show ?thesis using fill by (simp add: slot_filled_def)
    next
      case False
      then show ?thesis
        using symbols_atD [OF syms] j infos [of j] holds [of j] by (auto split: option.splits)
    qed
  qed
  have st: "string_type_ok ?s h (T(i \<mapsto> name))"
  proof -
    let ?t = "load32 ?m (k_s7 s + FIX_SYM_STRING_TYPE)"
    have t: "load32 m' (k_s7 s + FIX_SYM_STRING_TYPE) = ?t"
      using vals fixed_symbol_slots(1) [OF lay] heap by metis
    have old: "?t = 0 \<or> (\<forall>x. in_block ?t 4 x \<longrightarrow> off_heap h ?m x \<and> \<not> in_block (table_base s) 0x20000 x) \<and>
      (load32 ?m ?t = 0 \<or> load32 ?m ?t \<in> sym_slots s \<and> T (load32 ?m ?t) \<noteq> None)"
      using ok by (simp add: symtab_ok_def string_type_ok_def Let_def)
    show ?thesis
    proof (cases "?t = 0")
      case True
      then show ?thesis by (simp add: string_type_ok_def t)
    next
      case False
      then have "load32 m' ?t = load32 ?m ?t" using old outer by (intro load32_cong) blast
      then show ?thesis using False old keep by (auto simp: string_type_ok_def t Let_def)
    qed
  qed
  have put: "sym_lookup s (T(i \<mapsto> name)) = (sym_lookup s T)(name \<mapsto> i)" "symtab.consistent s (T(i \<mapsto> name))"
    using symtab.put_map [OF cons new [unfolded sym_lookup_def] i(2)] i(1) place
    by (auto simp: sym_lookup_def sym_free_def table_slots_def lay)
  have "load32 m' (k_s7 s + FIX_SYM_GLOBAL_HEAP) = h"
    using vals fixed_symbol_slots(2) [OF lay] heap hp by metis
  moreover have "symtab.consistent ?s (T(i \<mapsto> name))"
    using put(2) by (simp add: symtab.consistent_def)
  ultimately show ?thesis
    using put(1) syms' st lay fill keep tab by (auto simp: symtab_ok_def slot_filled_def)
qed

section \<open>Interning\<close>

lemma symtab_strings_ready:
  assumes "symtab_ok s h T"
  shows "strings_ready s h"
proof -
  have lay: "table_layout s" using assms by (simp add: symtab_ok_def)
  note F = fixed_symbol_slots [OF lay] and nz = find_key_slot(3) [OF lay]
  let ?t = "load32 (k_ram s) (k_s7 s + FIX_SYM_STRING_TYPE)"
  have "alloc_name_ok ?t s = Some ()"
  proof (cases "?t = 0 \<or> load32 (k_ram s) ?t = 0")
    case True
    then show ?thesis by (auto simp: alloc_name_ok_def rd_def type_symbol_def)
  next
    case False
    let ?y = "load32 (k_ram s) ?t"
    from False assms have y: "?y \<in> sym_slots s" "T ?y \<noteq> None"
      by (auto simp: symtab_ok_def string_type_ok_def Let_def)
    then obtain n where "slot_holds s h ?y n"
      using assms symbols_atD(2) [of s h T ?y] by (auto simp: symtab_ok_def)
    then have "load32 (k_ram s) (sym_info ?y + info_str) \<noteq> 0" by (simp add: slot_holds_def slot_str_def)
    then show ?thesis
      using False info_nonzero(1) [OF lay y(1)] by (simp add: alloc_name_ok_def rd_def type_symbol_def)
  qed
  then show ?thesis using assms F nz by (auto simp: strings_ready_def symtab_ok_def)
qed

text \<open>Stores into the table do not touch the heap.\<close>

lemma table_store:
  assumes "\<And>x. in_block (table_base s) 0x20000 x \<Longrightarrow> off_heap h m x"
    and "\<And>x. in_block a 4 x \<Longrightarrow> in_block (table_base s) 0x20000 x"
  shows "heap_ok h (store32 a v m) = heap_ok h m" "off_heap h (store32 a v m) = off_heap h m"
    "heap_current (store32 a v m) h = heap_current m h" "heap_top (store32 a v m) h = heap_top m h"
proof -
  have r: "store32 a v m x = m x" if "in_block h 16 x" for x
  proof -
    have "\<not> in_block a 4 x" using assms that by (auto simp: off_heap_def)
    then show ?thesis by (simp add: store32_def store_bytes_outside)
  qed
  show "heap_ok h (store32 a v m) = heap_ok h m" by (rule heap_ok_same) (rule r)
  show "off_heap h (store32 a v m) = off_heap h m"
    unfolding off_heap_def fun_eq_iff using free_range_same [of h "store32 a v m" m] r by blast
  show "heap_current (store32 a v m) h = heap_current m h" "heap_top (store32 a v m) h = heap_top m h"
    using heap_same_record [of h "store32 a v m" m] r by blast+
qed

text \<open>The slot's own words are inside the table, and apart.\<close>

lemma slot_in_table:
  assumes "table_layout s" "i \<in> sym_slots s" "in_block (i - 4) 4 x \<or> in_block i 4 x \<or>
      in_block (sym_info i + info_hash) 4 x \<or> in_block (sym_info i + info_str) 4 x"
  shows "in_block (table_base s) 0x20000 x"
proof -
  obtain k where k: "unat i = unat (table_base s) + 4 + 8 * k" "8 * k < 0xfefc" by (rule slot_bounds [OF assms(1,2)])
  then show ?thesis using assms(3) unfolding slot_blocks [OF assms(1,2)] table_block [OF assms(1)] by auto
qed

lemma slot_words_apart:
  assumes "table_layout s" "i \<in> sym_slots s"
  shows "blocks_apart (sym_info i + info_str) 4 (sym_info i + info_hash) 4"
    "blocks_apart (sym_info i + info_str) 4 i 4" "blocks_apart (sym_info i + info_hash) 4 i 4"
  unfolding blocks_apart_def slot_blocks [OF assms] by auto

lemma tag_apart:
  assumes "table_layout s" "i \<in> sym_slots s" "j \<in> sym_slots s"
  shows "blocks_apart j 4 (i - 4) 4" "blocks_apart (sym_info j + info_str) 4 (i - 4) 4"
proof -
  obtain k where k: "unat i = unat (table_base s) + 4 + 8 * k" "8 * k < 0xfefc" by (rule slot_bounds [OF assms(1,2)])
  obtain l where l: "unat j = unat (table_base s) + 4 + 8 * l" "8 * l < 0xfefc" by (rule slot_bounds [OF assms(1,3)])
  have "8 * k \<le> 8 * l \<or> 8 * l + 8 \<le> 8 * k" by (cases "k \<le> l") auto
  then show "blocks_apart j 4 (i - 4) 4"
    unfolding blocks_apart_def slot_blocks [OF assms(1,2)] slot_blocks [OF assms(1,3)] k l by auto
  show "blocks_apart (sym_info j + info_str) 4 (i - 4) 4"
    unfolding blocks_apart_def slot_blocks [OF assms(1,2)] slot_blocks [OF assms(1,3)] k l using k(2) by auto
qed

text \<open>The first write, of the tag, leaves the kernel ready to make the string.\<close>

lemma tag_store_ready:
  assumes ok: "symtab_ok s h T" and i: "i \<in> sym_slots s"
  shows "strings_ready (s\<lparr>k_ram := store32 (i - 4) t (k_ram s)\<rparr>) h"
proof -
  let ?m = "k_ram s" let ?m1 = "store32 (i - 4) t (k_ram s)" let ?s = "s\<lparr>k_ram := store32 (i - 4) t (k_ram s)\<rparr>"
  let ?t = "load32 ?m (k_s7 s + FIX_SYM_STRING_TYPE)"
  have lay: "table_layout s" and tab: "\<And>x. in_block (table_base s) 0x20000 x \<Longrightarrow> off_heap h ?m x"
    using ok by (auto simp: symtab_ok_def)
  note F = fixed_symbol_slots [OF lay]
  note r = symtab_strings_ready [OF ok]
  have old: "?t = 0 \<or> (\<forall>x. in_block ?t 4 x \<longrightarrow> \<not> in_block (table_base s) 0x20000 x) \<and>
    (load32 ?m ?t = 0 \<or> load32 ?m ?t \<in> sym_slots s)"
    using ok by (auto simp: symtab_ok_def string_type_ok_def Let_def)
  have "alloc_name_ok ?t ?s = Some ()"
  proof (cases "?t = 0")
    case False
    with old have "blocks_apart ?t 4 (i - 4) 4"
      using slot_in_table [OF lay i] by (auto simp: blocks_apart_def)
    then have "load32 ?m1 ?t = load32 ?m ?t" by (rule load32_store32_other)
    moreover have "load32 ?m1 (sym_info y + info_str) = load32 ?m (sym_info y + info_str)" if "y \<in> sym_slots s" for y
      using tag_apart(2) [OF lay i that] by (rule load32_store32_other)
    ultimately show ?thesis
      using r old False by (auto simp: strings_ready_def alloc_name_ok_def rd_def type_symbol_def split: if_splits)
  qed (simp add: alloc_name_ok_def)
  moreover have "heap_ok h ?m1"
    using table_store(1) [of s h ?m "i - 4" t, OF tab] slot_in_table [OF lay i] ok by (simp add: symtab_ok_def)
  ultimately show ?thesis
    using r tag_apart(1) [OF lay i F(1)] tag_apart(1) [OF lay i F(2)]
    by (simp add: strings_ready_def load32_store32_other)
qed

text \<open>The last writes, of the name, the hash and perhaps the value, fill the slot.\<close>

lemma fill_words:
  assumes lay: "table_layout s" and i: "i \<in> sym_slots s"
    and name: "c_name name" "crc32 (str_bytes name) = Some hash" "length name < 2 ^ 27"
    and str: "str \<noteq> 0" "heap_ok h m2" "str_at m2 (str + string_data) (str_bytes name)"
    and blk: "\<And>x. in_block str (4 + length name + 1) x \<Longrightarrow> off_heap h m2 x \<and> \<not> in_block (table_base s) 0x20000 x"
    and tab: "\<And>x. in_block (table_base s) 0x20000 x \<Longrightarrow> off_heap h m2 x"
    and off: "\<And>x. off_heap h (k_ram s) x \<Longrightarrow> off_heap h m2 x \<and> (m2 x = k_ram s x \<or> in_block (i - 4) 4 x)"
    and m4: "m4 = store32 (sym_info i + info_hash) hash (store32 (sym_info i + info_str) str m2)"
    and m': "m' = m4 \<or> m' = store32 i v m4"
  shows "slot_filled s h i name m'"
proof -
  note sub = slot_in_table [OF lay i] and dis = slot_words_apart [OF lay i]
  let ?m3 = "store32 (sym_info i + info_str) str m2"
  have H3: "heap_ok h ?m3" "off_heap h ?m3 = off_heap h m2"
    using table_store(1,2) [of s h m2 "sym_info i + info_str" str, OF tab] sub str(2) by auto
  then have H4: "heap_ok h m4" "off_heap h m4 = off_heap h m2"
    unfolding m4 using table_store(1,2) [of s h ?m3 "sym_info i + info_hash" hash] tab sub by auto
  then have H': "heap_ok h m'" "off_heap h m' = off_heap h m2"
    using m' table_store(1,2) [of s h m4 i v] tab sub by auto
  have w: "m' x = m2 x" if "\<not> in_block i 4 x" "\<not> in_block (sym_info i + info_hash) 4 x"
    "\<not> in_block (sym_info i + info_str) 4 x" for x
    using m' that by (auto simp: m4 store32_outside)
  have same: "m' x = m2 x" if "\<not> in_block (table_base s) 0x20000 x" for x
    using that sub [of x] w [of x] by blast
  have "load32 m4 (sym_info i + info_hash) = hash" "load32 m4 (sym_info i + info_str) = str"
    using dis(1) by (simp_all add: m4 load32_store32_other)
  then have ld: "load32 m' (sym_info i + info_hash) = hash" "load32 m' (sym_info i + info_str) = str"
    using m' dis(2,3) by (auto simp: load32_store32_other)
  have "str_at m' (str + string_data) (str_bytes name) = str_at m2 (str + string_data) (str_bytes name)"
  proof (rule str_at_cong)
    show "length (str_bytes name) < 2 ^ 32" using name(3) by simp
    fix x assume "in_block (str + string_data) (length (str_bytes name) + 1) x"
    then have "in_block str (4 + length name + 1) x"
      using in_block_sub [of str 4 "length name + 1" x "4 + length name + 1"] name(3) by (simp add: string_data_def)
    then show "m' x = m2 x" using blk same by blast
  qed
  then have "slot_holds (s\<lparr>k_ram := m'\<rparr>) h i name"
    using ld name str(1,3) blk H'(2) by (simp add: slot_holds_def slot_hash_def slot_str_def table_base_def)
  moreover have "off_heap h m' x \<and> (m' x = k_ram s x \<or> in_block (i - 4) 4 x \<or> in_block (sym_info i + info_hash) 4 x \<or>
       in_block (sym_info i + info_str) 4 x \<or> in_block i 4 x)" if "off_heap h (k_ram s) x" for x
    using off [OF that] H'(2) w [of x] by metis
  ultimately show ?thesis using H'(1) by (simp add: slot_filled_def)
qed

lemma fill_slot:
  assumes ok: "symtab_ok s h T" and i: "i \<in> sym_slots s"
    and name: "c_name name" "crc32 (str_bytes name) = Some hash" and room: "string_room h name (k_ram s)"
  obtains str m2 where
    "make_string_from_c name (s\<lparr>k_ram := store32 (i - 4) t (k_ram s)\<rparr>) = Some (str, s\<lparr>k_ram := m2\<rparr>)"
    "\<And>m' v. m' = store32 (sym_info i + info_hash) hash (store32 (sym_info i + info_str) str m2) \<or>
       m' = store32 i v (store32 (sym_info i + info_hash) hash (store32 (sym_info i + info_str) str m2)) \<Longrightarrow>
       slot_filled s h i name m'"
    "load32 m2 i = load32 (k_ram s) i"
proof -
  let ?m = "k_ram s" let ?m1 = "store32 (i - 4) t (k_ram s)"
  have lay: "table_layout s" and tab: "\<And>x. in_block (table_base s) 0x20000 x \<Longrightarrow> off_heap h ?m x"
    using ok by (auto simp: symtab_ok_def)
  note sub = slot_in_table [OF lay i]
  have H: "off_heap h ?m1 = off_heap h ?m" "heap_current ?m1 h = heap_current ?m h" "heap_top ?m1 h = heap_top ?m h"
    using table_store(2-4) [of s h ?m "i - 4" t, OF tab] sub by auto
  have room1: "string_room h name (k_ram (s\<lparr>k_ram := ?m1\<rparr>))" using room H(2,3) by (simp add: string_room_def)
  obtain str m2 where st: "make_string_from_c name (s\<lparr>k_ram := ?m1\<rparr>) = Some (str, s\<lparr>k_ram := m2\<rparr>)" "str \<noteq> 0" "heap_ok h m2"
    "str_at m2 (str + string_data) (str_bytes name)"
    and blk: "\<And>x. in_block str (4 + length name + 1) x \<Longrightarrow> off_heap h m2 x \<and> unat x \<in> free_range h ?m1"
    and off: "\<And>x. off_heap h ?m1 x \<Longrightarrow> off_heap h m2 x \<and> m2 x = ?m1 x"
    by (rule make_string_from_c_ok [OF tag_store_ready [OF ok i] room1]) simp
  have tab2: "off_heap h m2 x" if "in_block (table_base s) 0x20000 x" for x using tab [OF that] off H(1) by simp
  have strtab: "off_heap h m2 x \<and> \<not> in_block (table_base s) 0x20000 x" if "in_block str (4 + length name + 1) x" for x
    using blk [OF that] tab [of x] unfolding H(1) [symmetric] by (auto simp: off_heap_def)
  have off2: "off_heap h m2 x \<and> (m2 x = ?m x \<or> in_block (i - 4) 4 x)" if "off_heap h ?m x" for x
    using off [of x] that H(1) store32_outside [of "i - 4" x] by auto
  have len: "length name < 2 ^ 27"
    using room heap_bounds(1) [of h ?m] ok by (auto simp: string_room_def string_alloc_size_def symtab_ok_def split: if_splits)
  have "load32 m2 i = load32 ?m1 i" using off H(1) tab sub by (intro load32_cong) auto
  then have v: "load32 m2 i = load32 ?m i" using tag_apart(1) [OF lay i i] by (simp add: load32_store32_other)
  show thesis
  proof (rule that [OF st(1) _ v])
    fix m' v
    assume a: "m' = store32 (sym_info i + info_hash) hash (store32 (sym_info i + info_str) str m2) \<or>
      m' = store32 i v (store32 (sym_info i + info_hash) hash (store32 (sym_info i + info_str) str m2))"
    show "slot_filled s h i name m'"
      by (rule fill_words [OF lay i name len st(2-4) _ _ _ refl a]) (erule strtab tab2 off2)+
  qed
qed

text \<open>The counters play no part.\<close>

lemma symtab_count:
  "symtab_ok (s\<lparr>k_symbol_slot := j\<rparr>) h T = symtab_ok s h T" "symtab_ok (s\<lparr>k_NumSymbols := n\<rparr>) h T = symtab_ok s h T"
proof -
  have n: "slot_hash (s\<lparr>k_NumSymbols := n\<rparr>) = slot_hash s" "slot_str (s\<lparr>k_NumSymbols := n\<rparr>) = slot_str s"
    "table_base (s\<lparr>k_NumSymbols := n\<rparr>) = table_base s" "sym_slots (s\<lparr>k_NumSymbols := n\<rparr>) = sym_slots s"
    "fixed_slots (s\<lparr>k_NumSymbols := n\<rparr>) = fixed_slots s" "table_layout (s\<lparr>k_NumSymbols := n\<rparr>) = table_layout s"
    by (simp_all add: slot_hash_def slot_str_def table_base_def sym_slots_def fixed_slots_def table_layout_def fun_eq_iff)
  have h: "slot_holds (s\<lparr>k_NumSymbols := n\<rparr>) = slot_holds s" by (simp add: slot_holds_def fun_eq_iff n)
  have p: "probe_path (s\<lparr>k_NumSymbols := n\<rparr>) = probe_path s" "probe_path (s\<lparr>k_symbol_slot := j\<rparr>) = probe_path s"
    by (simp_all add: probe_path_def fun_eq_iff Let_def cong: if_cong)
  show "symtab_ok (s\<lparr>k_symbol_slot := j\<rparr>) h T = symtab_ok s h T" "symtab_ok (s\<lparr>k_NumSymbols := n\<rparr>) h T = symtab_ok s h T"
    by (simp_all add: symtab_ok_def string_type_ok_def symbols_at_def symtab.consistent_def table_slots_def n h p
        cong: option.case_cong)
qed

lemma intern_old:
  assumes "symtab_ok s h T" "c_name name" "crc32 (str_bytes name) = Some hash" "name \<noteq> ''_empty_''"
    and "sym_lookup s T name = Some i"
  shows "\<exists>j. intern_from_c name s = Some (i, s\<lparr>k_symbol_slot := j\<rparr>)"
proof -
  have lay: "table_layout s" "symbols_at s h T" using assms(1) by (auto simp: symtab_ok_def)
  have "i \<in> sym_slots s"
    using symtab.lookup_slot [OF assms(5) [unfolded sym_lookup_def]] lay by (simp add: table_slots_def)
  then have "i \<noteq> 0" using find_key_slot(3) [OF lay(1)] by simp
  then show ?thesis
    using find_symbol_from_c_ok [OF lay assms(2-4)] assms(5) by (auto simp: intern_from_c_def)
qed

lemma slot_filled_slot: "slot_filled (s\<lparr>k_symbol_slot := j\<rparr>) h i name m' = slot_filled s h i name m'"
  by (simp add: slot_filled_def slot_holds_def slot_hash_def slot_str_def table_base_def)

lemma intern_new:
  assumes ok: "symtab_ok s h T" and name: "c_name name" "crc32 (str_bytes name) = Some hash" "name \<noteq> ''_empty_''"
    and new: "sym_lookup s T name = None" and free: "sym_free s T name = Some i"
    and room: "string_room h name (k_ram s)"
  obtains m' where
    "intern_from_c name s = Some (i, s\<lparr>k_ram := m', k_symbol_slot := i, k_NumSymbols := k_NumSymbols s + 1\<rparr>)"
    "symtab_ok (s\<lparr>k_ram := m'\<rparr>) h (T(i \<mapsto> name))" "sym_lookup s (T(i \<mapsto> name)) = (sym_lookup s T)(name \<mapsto> i)"
    "load32 m' i = load32 (k_ram s) i" "slot_filled s h i name m'"
proof -
  have lay: "table_layout s" "symbols_at s h T" using ok by (auto simp: symtab_ok_def)
  have i: "i \<in> sym_slots s" "T i = None"
    using symtab.free_slot [OF free [unfolded sym_free_def]] lay by (auto simp: table_slots_def)
  note nz = find_key_slot(3) [OF lay(1) i(1)] info_nonzero(1) [OF lay(1) i(1)]
  note sy = find_key_slot(3) [OF lay(1) fixed_symbol_slots(3) [OF lay(1)]]
  define t where "t = load32 (k_ram s) (k_s7 s + FIX_SYM_SYMBOL_TYPE)"
  let ?s = "s\<lparr>k_symbol_slot := i\<rparr>"
  have ok': "symtab_ok ?s h T" "i \<in> sym_slots ?s" "string_room h name (k_ram ?s)"
    using ok i(1) room by (simp_all add: symtab_count)
  obtain str m2 where f: "make_string_from_c name (?s\<lparr>k_ram := store32 (i - 4) t (k_ram s)\<rparr>) = Some (str, ?s\<lparr>k_ram := m2\<rparr>)"
    and fill: "slot_filled s h i name (store32 (sym_info i + info_hash) hash (store32 (sym_info i + info_str) str m2))"
    and val: "load32 m2 i = load32 (k_ram s) i"
    by (rule fill_slot [OF ok'(1,2) name(1,2) ok'(3), of t]) (simp add: slot_filled_slot)
  let ?m' = "store32 (sym_info i + info_hash) hash (store32 (sym_info i + info_str) str m2)"
  have "intern_from_c name s = Some (i, s\<lparr>k_ram := ?m', k_symbol_slot := i, k_NumSymbols := k_NumSymbols s + 1\<rparr>)"
    using find_symbol_from_c_ok [OF lay name] new free sy nz name(2) f
    by (simp add: intern_from_c_def wr_def t_def fixed_value_def rd_def)
  moreover have v: "load32 ?m' i = load32 (k_ram s) i"
    using slot_words_apart [OF lay(1) i(1)] val by (simp add: load32_store32_other blocks_apart_sym)
  ultimately show thesis
    using that filled_ok [OF ok fill i new disjI1 [OF free] v] fill by blast
qed


text \<open>Without room for the string the program stops.\<close>

lemma make_string_no_room:
  assumes ready: "strings_ready s h" and "\<not> string_room h name (k_ram s)" "length name < 2 ^ 27"
  shows "make_string_from_c name s = None"
proof -
  let ?n = "string_alloc_size name" let ?sz = "of_nat ?n :: s32" let ?m = "k_ram s"
  define t where "t = load32 ?m (k_s7 s + FIX_SYM_STRING_TYPE)"
  have e: "(if length name + 1 < 8 then 8 else length name + 1) + unat BASIC_OFFSET + 4 = ?n"
    by (simp add: string_alloc_size_def BASIC_OFFSET_def)
  have n: "?n < 2 ^ 28" "0 < ?n" using assms(3) by (auto simp: string_alloc_size_def)
  have u: "unat ?sz = ?n" using n by (simp only: unat_of_nat) (simp add: take_bit_nat_eq_self)
  have "sint (word_of_int (int ?n) :: s32) = int ?n" using n by (intro sint_word_of_int_s32) (simp add: fits_s32_def)
  then have pos: "0 < sint ?sz" using n by simp
  have ok: "heap_ok h ?m" using ready by (simp add: strings_ready_def)
  have a: "align_of KMALLOC_MEMSET = 16" "KMALLOC_MEMSET AND KMALLOC_TOP = 0"
    by (simp_all add: align_of_def KMALLOC_MEMSET_def KMALLOC_ALIGN_64_def KMALLOC_ALIGN_256_def KMALLOC_TOP_def)
  have "kmalloc h ?sz KMALLOC_MEMSET ?m = Some (?m, 0)"
    using kmalloc_refines [OF ok request_memset [OF pos]] assms(2)
    by (simp add: kmalloc_spec_def abs_alloc_def a u Let_def string_room_def not_le split: if_splits)
  then have "alloc_heap_object (k_s7 s + FIX_SYM_GLOBAL_HEAP) t ?sz s = Some (0, s)"
    using alloc_global [OF ready pos t_def] by (simp add: alloc_heap_object_def k_kmalloc_def)
  moreover have "fixed_value FIX_SYM_STRING_TYPE s = Some t"
    using ready by (simp add: fixed_value_def rd_def strings_ready_def t_def)
  ultimately show ?thesis unfolding make_string_from_c_def Let_def e by (simp add: wr_def)
qed

lemma intern_needs:
  assumes ok: "symtab_ok s h T" and name: "c_name name" "crc32 (str_bytes name) = Some hash" "name \<noteq> ''_empty_''"
    and new: "sym_lookup s T name = None" and len: "length name < 2 ^ 27" and ret: "intern_from_c name s = Some r"
  obtains i where "sym_free s T name = Some i" "string_room h name (k_ram s)"
proof -
  have lay: "table_layout s" "symbols_at s h T" using ok by (auto simp: symtab_ok_def)
  note sy = find_key_slot(3) [OF lay(1) fixed_symbol_slots(3) [OF lay(1)]]
  note f = find_symbol_from_c_ok [OF lay name]
  from ret obtain i where free: "sym_free s T name = Some i"
    using f new sy by (cases "sym_free s T name") (simp_all add: intern_from_c_def wr_def fixed_value_def rd_def)
  have i: "i \<in> sym_slots s"
    using symtab.free_slot [OF free [unfolded sym_free_def]] lay by (auto simp: table_slots_def)
  let ?s = "s\<lparr>k_symbol_slot := i\<rparr>"
  define t where "t = load32 (k_ram s) (k_s7 s + FIX_SYM_SYMBOL_TYPE)"
  let ?s1 = "?s\<lparr>k_ram := store32 (i - 4) t (k_ram ?s)\<rparr>"
  have ok': "symtab_ok ?s h T" "i \<in> sym_slots ?s" using ok i by (simp_all add: symtab_count)
  have ready: "strings_ready ?s1 h" by (rule tag_store_ready [OF ok'])
  have tab: "\<And>x. in_block (table_base s) 0x20000 x \<Longrightarrow> off_heap h (k_ram s) x"
    using ok by (auto simp: symtab_ok_def)
  have "string_room h name (k_ram ?s1) = string_room h name (k_ram s)"
    using table_store(3,4) [of s h "k_ram s" "i - 4" t, OF tab] slot_in_table [OF lay(1) i] by (simp add: string_room_def)
  moreover have "make_string_from_c name ?s1 \<noteq> None"
  proof
    assume "make_string_from_c name ?s1 = None"
    then have "intern_from_c name s = None"
      using f new free sy find_key_slot(3) [OF lay(1) i] name(2)
      by (simp add: intern_from_c_def wr_def t_def fixed_value_def rd_def)
    with ret show False by simp
  qed
  ultimately have "string_room h name (k_ram s)" using make_string_no_room [OF ready _ len] by auto
  then show thesis using that free by blast
qed

lemma intern_ok:
  assumes ok: "symtab_ok s h T" and name: "c_name name" "length name < 2 ^ 27" "name \<noteq> ''_empty_''"
    and ret: "intern_from_c name s = Some (p, s')"
  obtains T' where "symtab_ok s' h T'" "sym_lookup s' T' = (sym_lookup s T)(name \<mapsto> p)" "p \<in> sym_slots s"
    "k_s7 s' = k_s7 s" "k_SymbolTable2 s' = k_SymbolTable2 s" "k_LastSymbol s' = k_LastSymbol s"
proof -
  have lay: "table_layout s" using ok by (auto simp: symtab_ok_def)
  from ret obtain hash where hash: "crc32 (str_bytes name) = Some hash"
    by (cases "crc32 (str_bytes name)") (auto simp: intern_from_c_def find_symbol_from_c_def)
  have "probe_path (s\<lparr>k_symbol_slot := j\<rparr>) = probe_path s"
    "probe_path (s\<lparr>k_ram := m, k_symbol_slot := j, k_NumSymbols := n\<rparr>) = probe_path s" for j m n
    by (simp_all add: probe_path_def fun_eq_iff Let_def cong: if_cong)
  then have same: "sym_lookup (s\<lparr>k_symbol_slot := j\<rparr>) = sym_lookup s"
    "sym_lookup (s\<lparr>k_ram := m, k_symbol_slot := j, k_NumSymbols := n\<rparr>) = sym_lookup s" for j m n
    by (simp_all add: sym_lookup_def [abs_def] fixed_slots_def)
  show thesis
  proof (cases "sym_lookup s T name")
    case (Some i)
    obtain j where "s' = s\<lparr>k_symbol_slot := j\<rparr>" "p = i" using intern_old [OF ok name(1) hash name(3) Some] ret by auto
    then show thesis
      using that [of T] ok same Some symtab.lookup_slot [OF Some [unfolded sym_lookup_def]] lay
      by (simp add: symtab_count table_slots_def fun_upd_idem)
  next
    case None
    obtain i where free: "sym_free s T name = Some i" "string_room h name (k_ram s)"
      by (rule intern_needs [OF ok name(1) hash name(3) None name(2) ret])
    obtain m' where m': "intern_from_c name s = Some (i, s\<lparr>k_ram := m', k_symbol_slot := i, k_NumSymbols := k_NumSymbols s + 1\<rparr>)"
      "symtab_ok (s\<lparr>k_ram := m'\<rparr>) h (T(i \<mapsto> name))" "sym_lookup s (T(i \<mapsto> name)) = (sym_lookup s T)(name \<mapsto> i)"
      by (rule intern_new [OF ok name(1) hash name(3) None free])
    then have s': "s' = s\<lparr>k_ram := m', k_symbol_slot := i, k_NumSymbols := k_NumSymbols s + 1\<rparr>" "p = i" using ret by auto
    have "i \<in> sym_slots s"
      using symtab.free_slot [OF free(1) [unfolded sym_free_def]] lay by (auto simp: table_slots_def)
    then show thesis
      using that [of "T(i \<mapsto> name)"] m'(2,3) s' same by (simp add: symtab_count)
  qed
qed

section \<open>Fixed symbols\<close>

lemma fixed_symbol_offset:
  assumes "table_layout s" "k_s7 s + off \<in> set (fixed_slots s)"
  shows "k_s7 s + off \<in> sym_slots s"
  using path_in_table(2) [OF assms(1)] assms(2) by blast

lemma set_fixed_ok:
  assumes ok: "symtab_ok s h T" and name: "c_name name" "crc32 (str_bytes name) = Some hash"
    and off: "k_s7 s + off \<in> set (fixed_slots s)" "off \<noteq> FIX_SYM_GLOBAL_HEAP" "off \<noteq> FIX_SYM_STRING_TYPE"
    and new: "sym_lookup s T name = None" "T (k_s7 s + off) = None" and room: "string_room h name (k_ram s)"
  obtains m' where
    "set_fixed_symbol off name v s = Some (k_s7 s + off, s\<lparr>k_ram := m', k_NumSymbols := k_NumSymbols s + 1\<rparr>)"
    "symtab_ok (s\<lparr>k_ram := m'\<rparr>) h (T(k_s7 s + off \<mapsto> name))"
    "sym_lookup s (T(k_s7 s + off \<mapsto> name)) = (sym_lookup s T)(name \<mapsto> k_s7 s + off)"
    "load32 m' (k_s7 s + off) = v"
proof -
  let ?i = "k_s7 s + off"
  have lay: "table_layout s" using ok by (auto simp: symtab_ok_def)
  note i = fixed_symbol_offset [OF lay off(1)]
  note nz = find_key_slot(3) [OF lay i] info_nonzero(1) [OF lay i]
  note sy = find_key_slot(3) [OF lay fixed_symbol_slots(3) [OF lay]]
  define t where "t = load32 (k_ram s) (k_s7 s + FIX_SYM_SYMBOL_TYPE)"
  obtain str m2 where f: "make_string_from_c name (s\<lparr>k_ram := store32 (?i - 4) t (k_ram s)\<rparr>) = Some (str, s\<lparr>k_ram := m2\<rparr>)"
    and fill: "slot_filled s h ?i name
      (store32 ?i v (store32 (sym_info ?i + info_hash) hash (store32 (sym_info ?i + info_str) str m2)))"
    by (rule fill_slot [OF ok i name room, of t]) blast
  let ?m' = "store32 ?i v (store32 (sym_info ?i + info_hash) hash (store32 (sym_info ?i + info_str) str m2))"
  have "set_fixed_symbol off name v s = Some (?i, s\<lparr>k_ram := ?m', k_NumSymbols := k_NumSymbols s + 1\<rparr>)"
    using sy nz name(2) f by (simp add: set_fixed_symbol_def wr_def t_def fixed_value_def rd_def Let_def)
  moreover have "symtab_ok (s\<lparr>k_ram := ?m'\<rparr>) h (T(?i \<mapsto> name)) \<and>
    sym_lookup s (T(?i \<mapsto> name)) = (sym_lookup s T)(name \<mapsto> ?i)"
    using off(2,3) by (intro filled_ok [OF ok fill i new(2,1) disjI2 [OF off(1)]]) simp
  ultimately show thesis using that by simp
qed


end
