(* ===== verification/Kscheme_Types.thy ===== *)
theory Kscheme_Types
  imports Kscheme
begin

text \<open>Types of the runtime: the chain of parents, and the fields that the flags of a type set.\<close>

section \<open>Types\<close>

text \<open>The \<open>n\<close>-th parent of a type.\<close>

definition ancestor :: "kernel \<Rightarrow> nat \<Rightarrow> u32 \<Rightarrow> u32" where
  "ancestor s n t = ((\<lambda>t. load32 (k_ram s) (t + type_parent)) ^^ n) t"

text \<open>The chain of parents ends, after \<open>n\<close> steps, at \<^verbatim>\<open>object\<close> or at a type without a parent.\<close>

definition chain_ends :: "kernel \<Rightarrow> u32 \<Rightarrow> nat \<Rightarrow> bool" where
  "chain_ends s t n \<longleftrightarrow> t \<noteq> 0 \<and> 0 < n \<and>
     (let top = load32 (k_ram s) (k_s7 s + FIX_SYM_OBJECT_TYPE) in
      (\<forall>k. 0 < k \<and> k < n \<longrightarrow> ancestor s k t \<noteq> 0 \<and> ancestor s k t \<noteq> top) \<and>
      (ancestor s n t = 0 \<or> ancestor s n t = top))"

lemma ancestor_Suc: "ancestor s (Suc n) t = ancestor s n (load32 (k_ram s) (t + type_parent))"
  by (simp only: ancestor_def funpow_Suc_right comp_apply)

lemma ancestor_0: "ancestor s 0 t = t"
  by (simp add: ancestor_def)

lemma chain_step:
  assumes "chain_ends s t (Suc n)" "0 < n"
  shows "chain_ends s (load32 (k_ram s) (t + type_parent)) n"
proof -
  have "ancestor s k (load32 (k_ram s) (t + type_parent)) = ancestor s (Suc k) t" for k by (simp add: ancestor_Suc)
  moreover have "ancestor s 1 t = load32 (k_ram s) (t + type_parent)" by (simp add: ancestor_def)
  moreover have "ancestor s 1 t \<noteq> 0" using assms by (auto simp: chain_ends_def Let_def)
  ultimately show ?thesis using assms by (auto simp: chain_ends_def Let_def)
qed

lemma typep_loop_chain:
  assumes "chain_ends s t n" "k_s7 s + FIX_SYM_OBJECT_TYPE \<noteq> 0"
  shows "typep_loop t t2 s = Some (\<exists>k \<in> {1..n}. ancestor s k t = t2)"
  using assms(1)
proof (induction n arbitrary: t)
  case 0
  then show ?case by (simp add: chain_ends_def)
next
  case (Suc n)
  let ?p = "load32 (k_ram s) (t + type_parent)" let ?top = "load32 (k_ram s) (k_s7 s + FIX_SYM_OBJECT_TYPE)"
  have one: "ancestor s 1 t = ?p" by (simp add: ancestor_def)
  have unroll: "typep_loop t t2 s = (if ?p = t2 then Some True else if ?p = 0 then Some False
     else if ?p \<noteq> ?top then typep_loop ?p t2 s else Some False)"
    using Suc.prems assms(2)
    by (subst typep_loop.simps) (simp add: rd_def fixed_value_def chain_ends_def cong: if_cong)
  have split: "(\<exists>k \<in> {1..Suc n}. ancestor s k t = t2) \<longleftrightarrow> ?p = t2 \<or> (\<exists>k \<in> {1..n}. ancestor s k ?p = t2)"
  proof -
    have "{1..Suc n} = insert 1 (Suc ` {1..n})" by (auto simp: image_Suc_atLeastAtMost)
    then show ?thesis by (simp add: ancestor_Suc ancestor_0 del: image_Suc_atLeastAtMost)
  qed
  show ?case
  proof (cases "n = 0")
    case True
    then have "?p = 0 \<or> ?p = ?top" using Suc.prems one by (simp add: chain_ends_def Let_def)
    then show ?thesis using True unfolding unroll split by auto
  next
    case False
    then have "?p \<noteq> 0" "?p \<noteq> ?top" using Suc.prems one by (auto simp: chain_ends_def Let_def)
    then show ?thesis
      using Suc.IH [OF chain_step [OF Suc.prems]] False unfolding unroll split by simp
  qed
qed

lemma type_typep_chain:
  assumes "chain_ends s t1 n" "k_s7 s + FIX_SYM_OBJECT_TYPE \<noteq> 0"
  shows "type_typep t1 t2 s = Some (if \<exists>k \<le> n. ancestor s k t1 = t2 then k_s7 s + FIX_SYM_TRUE else k_s7 s)"
proof -
  have "(\<exists>k \<le> n. ancestor s k t1 = t2) \<longleftrightarrow> t1 = t2 \<or> (\<exists>k \<in> {1..n}. ancestor s k t1 = t2)"
  proof -
    have "{..n} = insert 0 {1..n}" by auto
    then have "(\<exists>k \<in> {..n}. ancestor s k t1 = t2) \<longleftrightarrow> t1 = t2 \<or> (\<exists>k \<in> {1..n}. ancestor s k t1 = t2)"
      by (simp add: ancestor_0)
    then show ?thesis by auto
  qed
  then show ?thesis using typep_loop_chain [OF assms, of t2] by (simp add: type_typep_def)
qed

text \<open>Fields of a type.\<close>

lemma type_fields_apart:
  "blocks_apart (t + 4) 4 (t + 8) 2" "blocks_apart (t + 4) 4 (t + 10) 2" "blocks_apart (t + 4) 4 (t + 12) 2"
  "blocks_apart (t + 4) 4 (t + 14) 2" "blocks_apart (t + 8) 2 (t + 10) 2" "blocks_apart (t + 8) 2 (t + 12) 2"
  "blocks_apart (t + 8) 2 (t + 14) 2" "blocks_apart (t + 10) 2 (t + 12) 2" "blocks_apart (t + 10) 2 (t + 14) 2"
  "blocks_apart (t + 12) 2 (t + 14) 2" "blocks_apart (t + 14) 2 (t + 4) 4" "blocks_apart (t + 12) 2 (t + 10) 2"
  "blocks_apart (t + 14) 2 (t + 8) 2" "blocks_apart (t + 14) 2 (t + 10) 2" "blocks_apart (t + 14) 2 (t + 12) 2"
  using blocks_apart_fields [of 4 4 8 2 t] blocks_apart_fields [of 4 4 10 2 t] blocks_apart_fields [of 4 4 12 2 t]
    blocks_apart_fields [of 4 4 14 2 t] blocks_apart_fields [of 8 2 10 2 t] blocks_apart_fields [of 8 2 12 2 t]
    blocks_apart_fields [of 8 2 14 2 t] blocks_apart_fields [of 10 2 12 2 t] blocks_apart_fields [of 10 2 14 2 t]
    blocks_apart_fields [of 12 2 14 2 t] blocks_apart_fields [of 14 2 4 4 t] blocks_apart_fields [of 12 2 10 2 t]
    blocks_apart_fields [of 14 2 8 2 t] blocks_apart_fields [of 14 2 10 2 t] blocks_apart_fields [of 14 2 12 2 t]
  by simp_all

lemma flag_fields:
  fixes methods hbase sz :: u64
  assumes "methods < 0x10000" "hbase < 0x10000" "sz < 0x10000"
  shows "ucast (pack_type_flag methods hbase sz AND 0xffff) = (ucast sz :: u16)"
    "ucast (drop_bit 16 (pack_type_flag methods hbase sz) AND 0xffff) = (ucast hbase :: u16)"
    "ucast (drop_bit 32 (pack_type_flag methods hbase sz) AND 0xffff) = (ucast methods :: u16)"
proof -
  have lt: "\<not> bit w k" if "w < 0x10000" "16 \<le> k" for w :: u64 and k
  proof -
    have "w = take_bit 16 w" using that(1)
      by (simp add: word_unat_eq_iff unsigned_take_bit_eq take_bit_nat_eq_self word_less_nat_alt)
    then show ?thesis using that(2) by (metis bit_take_bit_iff not_le)
  qed
  have d1: "push_bit 32 methods + push_bit 16 hbase = push_bit 32 methods OR push_bit 16 hbase"
    by (rule disjunctive_add) (auto simp: bit_simps lt [OF assms(2)])
  have d2: "pack_type_flag methods hbase sz = (push_bit 32 methods OR push_bit 16 hbase) OR sz"
    unfolding pack_type_flag_def d1 by (rule disjunctive_add) (auto simp: bit_simps lt [OF assms(3)])
  have m: "0xffff = (mask 16 :: u64)" by (simp add: mask_eq_exp_minus_1)
  show "ucast (pack_type_flag methods hbase sz AND 0xffff) = (ucast sz :: u16)"
    "ucast (drop_bit 16 (pack_type_flag methods hbase sz) AND 0xffff) = (ucast hbase :: u16)"
    "ucast (drop_bit 32 (pack_type_flag methods hbase sz) AND 0xffff) = (ucast methods :: u16)"
    unfolding d2 m
    by (rule bit_word_eqI; auto simp: bit_simps lt [OF assms(1)] lt [OF assms(2)] lt [OF assms(3)])+
qed

lemma set_type_values_ok:
  assumes "type \<noteq> 0"
  shows "\<exists>s'. set_type_values type parent flags s = Some (type, s') \<and> rd type type_parent s' = Some parent \<and>
    rd16 type type_allocated_size s' = Some (ucast (flags AND 0xffff)) \<and>
    rd16 type type_heap_base s' = Some (ucast (drop_bit 16 flags AND 0xffff)) \<and>
    rd16 type type_padded_size s' = Some ((ucast (flags AND 0xffff) + 0xf) AND 0xfff0) \<and>
    rd16 type type_num_methods s' =
      Some (max (load16 (k_ram s) (type + type_num_methods)) (ucast (drop_bit 32 flags AND 0xffff)))"
  using assms
  by (auto simp: set_type_values_def rd_def wr_def rd16_def wr16_def Let_def type_parent_def type_allocated_size_def
      type_heap_base_def type_padded_size_def type_num_methods_def load16_store16_other load32_store16_other
      type_fields_apart max_def not_less load16_store32_other)

end
