(* ===== verification/Kmalloc_Props.thy ===== *)
theory Kmalloc_Props
  imports Kmalloc
begin

text \<open>
  The properties of the kernel heap, with a heap set up by \<^verbatim>\<open>kinitheap\<close> on which each applies.
\<close>

section \<open>A heap\<close>

definition demo_ram :: ram where
  "demo_ram = fst (the (kinitheap 0x13AD00 0x140000 0x10000 (\<lambda>_. 0)))"

lemma demo_heap:
  "heap_ok 0x13AD00 demo_ram" "free_range 0x13AD00 demo_ram = {0x140000 ..< 0x150000}"
  using kinitheap_ok [of "0x13AD00" "0x140000" "0x10000" "\<lambda>_. 0"]
  by (auto simp: demo_ram_def EE_MAIN_MEM_SIZE_def)

lemma demo_bounds:
  "unat (heap_current demo_ram 0x13AD00) = 0x140000" "unat (heap_top demo_ram 0x13AD00) = 0x150000"
proof -
  let ?c = "unat (heap_current demo_ram 0x13AD00)" and ?t = "unat (heap_top demo_ram 0x13AD00)"
  have eq: "{?c ..< ?t} = {0x140000 ..< 0x150000 :: nat}" using demo_heap(2) by (simp add: free_range_def)
  then have "(0x140000 :: nat) \<in> {?c ..< ?t}" by simp
  then have "?c < ?t" by simp
  with eq show "?c = 0x140000" "?t = 0x150000" by (simp_all add: atLeastLessThan_eq_iff)
qed

section \<open>Properties\<close>

text \<open>
  C34. \<^verbatim>\<open>kmalloc\<close> implements the two-sided bump allocator on numbers: on a well-formed heap every request
  within the contract returns; it is refused (0, memory unchanged) exactly when the abstract one
  does not fit, and otherwise returns the abstract block, moves the bound the abstract allocator
  moves, leaves the heap well-formed, clears the block if asked to, and changes no byte outside the
  block and the record.
\<close>

theorem kmalloc_refines_bump:
  assumes "heap_ok h m" "request_ok h sz flags m"
  shows "kmalloc_spec h sz flags m (kmalloc h sz flags m)"
  using assms by (rule kmalloc_refines)

theorem kmalloc_refines_bump_witness:
  "\<exists>m p. kmalloc 0x13AD00 100 KMALLOC_ALIGN_64 demo_ram = Some (m, p) \<and> unat p = 0x140000 \<and>
     unat (heap_current m 0x13AD00) = 0x140064"
proof -
  have r: "request_ok 0x13AD00 100 KMALLOC_ALIGN_64 demo_ram"
    by (simp add: request_ok_def KMALLOC_ALIGN_64_def KMALLOC_TOP_def)
  from kmalloc_refines_bump [OF demo_heap(1) r] show ?thesis
    by (simp add: kmalloc_spec_def demo_bounds abs_alloc_def KMALLOC_TOP_def KMALLOC_ALIGN_64_def align_of_def
        align_up_def Let_def) blast
qed





text \<open>
  \<^verbatim>\<open>kinitheap\<close> makes a well-formed heap: empty, all of its memory free and zero, for memory inside
  the EE main memory that does not overlap the record.
\<close>

lemma kinitheap_ready:
  assumes "heap \<noteq> 0" "unat heap + 16 \<le> 2 ^ 32" "0 < mem" "0 \<le> sint sz"
    and "unat mem + unat sz \<le> EE_MAIN_MEM_SIZE" "unat heap + 16 \<le> unat mem \<or> unat mem + unat sz \<le> unat heap"
  shows "\<exists>m'. kinitheap heap mem sz m = Some (m', heap) \<and> heap_ok heap m' \<and>
    free_range heap m' = {unat mem ..< unat mem + unat sz} \<and> kheapused m' heap = 0 \<and>
    (\<forall>x. in_block mem (unat sz) x \<longrightarrow> m' x = 0)"
  using assms by (rule kinitheap_ok)

theorem kinitheap_ready_witness:
  "\<exists>m'. kinitheap 0x13AD10 0x5000000 0x2000000 (\<lambda>_. 7) = Some (m', 0x13AD10) \<and> heap_ok 0x13AD10 m' \<and>
    free_range 0x13AD10 m' = {0x5000000 ..< 0x7000000}"
  using kinitheap_ready [of "0x13AD10" "0x5000000" "0x2000000" "\<lambda>_. 7"] by (auto simp: EE_MAIN_MEM_SIZE_def)

text \<open>
  C40. The top allocator does not refuse every request that does not fit: a size above the address of
  the top wraps around in \<^verbatim>\<open>top - size\<close>, and the call returns an address beyond the end of the heap and
  of main memory. This is the request that \<open>request_ok\<close> excludes above.
\<close>

theorem kmalloc_top_overflow:
  assumes "heap_ok h m" "0 < sint sz" "heap_top m h < sz"
  shows "\<exists>p. kmalloc h sz KMALLOC_TOP m = Some (set_heap_top h p m, p) \<and> heap_top_base m h < p \<and>
    EE_MAIN_MEM_SIZE < unat p"
  using assms by (rule kmalloc_top_wraps)

theorem kmalloc_top_overflow_witness:
  "\<exists>p m. kmalloc 0x13AD00 0x200000 KMALLOC_TOP demo_ram = Some (m, p) \<and> EE_MAIN_MEM_SIZE < unat p"
proof -
  have "heap_top demo_ram 0x13AD00 < 0x200000" using demo_bounds(2) by (simp add: word_less_nat_alt)
  from kmalloc_top_overflow [OF demo_heap(1) _ this] show ?thesis by auto
qed

end
