(* ===== verification/Kscheme_Props.thy ===== *)
theory Kscheme_Props
  imports Symbol_Intern Kscheme_Types Kmalloc_Props
begin

text \<open>
  The properties of the runtime's symbols and types, with a small kernel on which each applies.
\<close>

section \<open>The table as a map\<close>

definition symbol_of :: "kernel \<Rightarrow> string \<Rightarrow> u32 option" where
  "symbol_of s name =
    (case find_symbol_from_c name s of Some (p, _) \<Rightarrow> if p = 0 then None else Some p | None \<Rightarrow> None)"

definition symbol_table :: "kernel \<Rightarrow> u32 \<Rightarrow> bool" where
  "symbol_table s h \<longleftrightarrow> (\<exists>T. symtab_ok s h T)"

fun intern_all :: "string list \<Rightarrow> kernel \<Rightarrow> (u32 list \<times> kernel) option" where
  "intern_all [] s = Some ([], s)"
| "intern_all (n # ns) s = do {
     (p, s) \<leftarrow> intern_from_c n s;
     (ps, s) \<leftarrow> intern_all ns s;
     Some (p # ps, s)
   }"

definition plain_name :: "string \<Rightarrow> bool" where
  "plain_name n \<longleftrightarrow> c_name n \<and> length n < 2 ^ 27 \<and> n \<noteq> ''_empty_''"

lemma symbol_of_lookup:
  assumes "symtab_ok s h T" "plain_name n"
  shows "symbol_of s n = (if crc32 (str_bytes n) = None then None else sym_lookup s T n)"
proof (cases "crc32 (str_bytes n)")
  case None
  then show ?thesis by (simp add: symbol_of_def find_symbol_from_c_def)
next
  case (Some hash)
  have lay: "table_layout s" "symbols_at s h T" using assms(1) by (auto simp: symtab_ok_def)
  have "i \<noteq> 0" if "sym_lookup s T n = Some i" for i
    using that symtab.lookup_slot [of s T n i] find_key_slot(3) [OF lay(1), of i] lay(1)
    by (auto simp: sym_lookup_def table_slots_def)
  then show ?thesis
    using find_symbol_from_c_ok [OF lay _ Some] assms(2) Some
    by (auto simp: symbol_of_def plain_name_def split: option.splits)
qed

lemma intern_map:
  assumes "symbol_table s h" "plain_name name" "intern_from_c name s = Some (p, s')"
  shows "symbol_table s' h \<and> (\<forall>n. plain_name n \<longrightarrow> symbol_of s' n = ((symbol_of s)(name \<mapsto> p)) n) \<and>
    symbol_of s name \<in> {None, Some p}"
proof -
  from assms(1) obtain T where T: "symtab_ok s h T" by (auto simp: symbol_table_def)
  from assms(2) have name: "c_name name" "length name < 2 ^ 27" "name \<noteq> ''_empty_''" by (auto simp: plain_name_def)
  obtain T' where T': "symtab_ok s' h T'" "sym_lookup s' T' = (sym_lookup s T)(name \<mapsto> p)"
    by (rule intern_ok [OF T name assms(3)])
  have hash: "crc32 (str_bytes name) \<noteq> None"
    using assms(3) by (cases "crc32 (str_bytes name)") (auto simp: intern_from_c_def find_symbol_from_c_def)
  have "symbol_of s' n = ((symbol_of s)(name \<mapsto> p)) n" if "plain_name n" for n
    using symbol_of_lookup [OF T that] symbol_of_lookup [OF T'(1) that] T'(2) hash by auto
  moreover have "symbol_of s name \<in> {None, Some p}"
  proof (cases "sym_lookup s T name")
    case None
    then show ?thesis using symbol_of_lookup [OF T assms(2)] by simp
  next
    case (Some i)
    from hash obtain hv where "crc32 (str_bytes name) = Some hv" by blast
    from intern_old [OF T name(1) this name(3) Some] have "p = i" using assms(3) by auto
    then show ?thesis using symbol_of_lookup [OF T assms(2)] Some by simp
  qed
  ultimately show ?thesis using T'(1) by (auto simp: symbol_table_def)
qed

text \<open>Distinct names have distinct symbols.\<close>

lemma symbol_of_inj:
  assumes "symbol_table s h" "plain_name a" "plain_name b" "symbol_of s a = Some p" "symbol_of s b = Some p"
  shows "a = b"
proof -
  from assms(1) obtain T where T: "symtab_ok s h T" by (auto simp: symbol_table_def)
  have "sym_lookup s T a = Some p" "sym_lookup s T b = Some p"
    using assms(4,5) symbol_of_lookup [OF T assms(2)] symbol_of_lookup [OF T assms(3)] by (auto split: if_splits)
  then show ?thesis using symtab.lookup_slot [of s T _ p] by (metis option.inject sym_lookup_def)
qed

lemma intern_all_map:
  assumes "symbol_table s h" "\<forall>n \<in> set names. plain_name n" "intern_all names s = Some (ps, s')"
  shows "symbol_table s' h \<and> length ps = length names \<and> list_all2 (\<lambda>n p. symbol_of s' n = Some p) names ps \<and>
    (\<forall>n p. plain_name n \<longrightarrow> symbol_of s n = Some p \<longrightarrow> symbol_of s' n = Some p)"
  using assms
proof (induction names arbitrary: s ps)
  case (Cons n names)
  from Cons.prems(3) obtain p s1 qs where c: "intern_from_c n s = Some (p, s1)" "intern_all names s1 = Some (qs, s')"
    "ps = p # qs"
    by (auto simp: bind_eq_Some_conv)
  have n: "plain_name n" using Cons.prems(2) by simp
  note m = intern_map [OF Cons.prems(1) n c(1)]
  have s1: "symbol_table s1 h" using m by blast
  have ih: "symbol_table s' h \<and> length qs = length names \<and> list_all2 (\<lambda>n p. symbol_of s' n = Some p) names qs \<and>
    (\<forall>n p. plain_name n \<longrightarrow> symbol_of s1 n = Some p \<longrightarrow> symbol_of s' n = Some p)"
    using Cons.IH [OF s1 _ c(2)] Cons.prems(2) by simp
  have "symbol_of s1 n = Some p" using m n by simp
  then have "symbol_of s' n = Some p" using ih n by blast
  moreover have "symbol_of s1 k = Some q" if "plain_name k" "symbol_of s k = Some q" for k q
    using m that by (cases "k = n") auto
  ultimately show ?case using ih c(3) by auto
qed simp

section \<open>A kernel\<close>

text \<open>The heap of \<open>demo_ram\<close>, and an empty table at \<^verbatim>\<open>0x160000\<close>.\<close>

definition demo_kernel :: kernel where
  "demo_kernel = \<lparr>k_ram = store32 0x168144 0x13AD00 demo_ram, k_FastLink = 0, k_symbol_slot = 0,
     k_SymbolTable2 = 0x160004, k_LastSymbol = 0x16ff00, k_NumSymbols = 0, k_EnableMethodSet = 0,
     k_s7 = 0x168004, k_MasterDebug = 0, k_DiskBoot = 0, k_DebugSegment = 0\<rparr>"

lemma demo_zero: "\<not> in_block 0x13AD00 16 x \<Longrightarrow> demo_ram x = 0"
proof -
  assume "\<not> in_block 0x13AD00 16 x"
  then have o: "\<not> in_block (0x13AD00 + of_nat i) 4 x" if "i + 4 \<le> 16" for i
    using that in_field by blast
  note o4 = o [of 0] o [of 4] o [of 8] o [of 12]
  let ?h = "0x13AD00 :: u32"
  define m where "m = set_heap_top ?h 0x150000 (set_heap_current ?h 0x140000 (set_heap_base ?h 0x140000 (\<lambda>_. 0)))"
  have e: "demo_ram = memset 0x140000 0 0x10000 (set_heap_top_base ?h (heap_top m ?h) m)"
    by (simp add: demo_ram_def kinitheap_def clear_mem_def Let_def m_def)
  have "m x = 0" using o4 by (simp add: m_def heap_setters store32_def store_bytes_outside)
  then show "demo_ram x = 0"
    using o4 by (simp add: e memset_def set_heap_top_base_def store32_def store_bytes_outside)
qed

lemma demo_layout: "table_layout demo_kernel" "table_base demo_kernel = 0x160000"
  by (simp_all add: table_layout_def table_base_def demo_kernel_def BASIC_OFFSET_def EE_MAIN_MEM_SIZE_def)

lemma demo_rec: "in_block 0x13AD00 16 x \<longleftrightarrow> 0x13AD00 \<le> unat x \<and> unat x < 0x13AD10"
  using in_block_nat [of "0x13AD00" 16 x] by simp

lemma demo_tab: "in_block 0x160000 0x20000 x \<longleftrightarrow> 0x160000 \<le> unat x \<and> unat x < 0x180000"
  using in_block_nat [of "0x160000" "0x20000" x] by simp

lemma demo_symtab: "symtab_ok demo_kernel 0x13AD00 (\<lambda>_. None)"
proof -
  let ?m = "store32 0x168144 0x13AD00 demo_ram" let ?h = "0x13AD00 :: u32"
  have blk: "in_block 0x168144 4 x \<longleftrightarrow> 0x168144 \<le> unat x \<and> unat x < 0x168148" for x
    using in_block_nat [of "0x168144" 4 x] by simp
  have r: "?m x = demo_ram x" if "in_block ?h 16 x" for x
    using that blk [of x] demo_rec [of x] by (intro store32_outside) auto
  have ok: "heap_ok ?h ?m" using heap_ok_same [of ?h ?m demo_ram, OF r] demo_heap(1) by simp
  have fr: "free_range ?h ?m = {0x140000 ..< 0x150000}" using free_range_same [of ?h ?m demo_ram, OF r] demo_heap(2) by simp
  have off: "off_heap ?h ?m x" if "0x160000 \<le> unat x" for x using that by (simp add: off_heap_def fr demo_rec)
  have z: "load32 ?m a = 0" if "0x160000 \<le> unat a \<and> unat a < 0x168140 \<or> 0x168148 \<le> unat a \<and> unat a < 0x180000" for a
  proof -
    have "in_block a 4 x \<longleftrightarrow> unat a \<le> unat x \<and> unat x < unat a + 4" for x using that by (intro in_block_nat) auto
    then have "load32 ?m a = load32 (\<lambda>_. 0) a"
      using that by (intro load32_cong) (auto simp: store32_outside blk demo_zero demo_rec)
    then show ?thesis by (simp add: load32_def bytes_at_def numeral_eq_Suc)
  qed
  note nat = layout_nat [OF demo_layout(1)]
  have hash: "slot_hash demo_kernel i = 0" if "i \<in> sym_slots demo_kernel" for i
  proof -
    have "0x160004 \<le> unat i \<and> unat i < 0x16ff00"
      using that in_sym_slots [OF demo_layout(1), of i] by (simp add: demo_layout(2))
    then show ?thesis
      using z [of "sym_info i"] info_nonzero(2) [OF demo_layout(1) that]
      by (simp add: slot_hash_def info_hash_def demo_kernel_def)
  qed
  show ?thesis
    unfolding symtab_ok_def demo_layout(2)
    using demo_layout(1) ok hash z [of "0x168024"] off demo_tab
    by (auto simp: symbols_at_def symtab.consistent_def string_type_ok_def demo_kernel_def Let_def
        FIX_SYM_GLOBAL_HEAP_def FIX_SYM_STRING_TYPE_def)
qed


lemma demo_free:
  assumes "length name < 100"
  obtains i where "sym_lookup demo_kernel (\<lambda>_. None) name = None" "sym_free demo_kernel (\<lambda>_. None) name = Some i"
    "string_room 0x13AD00 name (k_ram demo_kernel)"
proof -
  have "probe_path demo_kernel name \<noteq> []"
    by (simp add: probe_path_def Let_def slots_def demo_kernel_def FIX_FIXED_SYM_END_OFFSET_def)
  then obtain i rest where p: "probe_path demo_kernel name = i # rest" by (cases "probe_path demo_kernel name") auto
  then have free: "sym_free demo_kernel (\<lambda>_. None) name = Some i" by (simp add: sym_free_def probe_free_def first_stop_def)
  have none: "sym_lookup demo_kernel (\<lambda>_. None) name = None"
    by (auto simp: sym_lookup_def probe_lookup_def p first_stop_def find_key_def find_None_iff)
  have rec: "store32 0x168144 0x13AD00 demo_ram x = demo_ram x" if "in_block 0x13AD00 16 x" for x
    using that demo_rec [of x] in_block_nat [of "0x168144" 4 x] by (intro store32_outside) auto
  have "string_room 0x13AD00 name (k_ram demo_kernel)"
    using assms heap_same_record [of "0x13AD00" "store32 0x168144 0x13AD00 demo_ram" demo_ram, OF rec]
    by (simp add: string_room_def demo_kernel_def demo_bounds align_up_def string_alloc_size_def)
  then show thesis using that none free by blast
qed

lemma demo_name: "plain_name ''abc''" "crc32 (str_bytes ''abc'') = Some 0xFF9E9D9C"
  by (simp_all add: plain_name_def c_name_def crc_eval)

lemma demo_intern: "intern_from_c ''abc'' demo_kernel \<noteq> None"
proof -
  obtain i where free: "sym_lookup demo_kernel (\<lambda>_. None) ''abc'' = None"
    "sym_free demo_kernel (\<lambda>_. None) ''abc'' = Some i" "string_room 0x13AD00 ''abc'' (k_ram demo_kernel)"
    by (rule demo_free [of "''abc''"]) simp
  have n: "c_name ''abc''" "''abc'' \<noteq> ''_empty_''" using demo_name by (simp_all add: plain_name_def)
  from intern_new [OF demo_symtab n(1) demo_name(2) n(2) free] show ?thesis by blast
qed

lemma demo_table: "symbol_table demo_kernel 0x13AD00"
  using demo_symtab by (auto simp: symbol_table_def)

text \<open>Types at \<^verbatim>\<open>0x3000\<close>, its parent \<^verbatim>\<open>0x2000\<close> and \<^verbatim>\<open>object\<close> at \<^verbatim>\<open>0x1000\<close>.\<close>

definition demo_types :: kernel where
  "demo_types = demo_kernel\<lparr>k_ram := store32 0x16803c 0x1000 (store32 0x2004 0x1000 (store32 0x3004 0x2000 (\<lambda>_. 0)))\<rparr>"

lemma load32_apart:
  "unat a + 4 \<le> 2 ^ 32 \<Longrightarrow> unat b + 4 \<le> 2 ^ 32 \<Longrightarrow> unat a + 4 \<le> unat b \<or> unat b + 4 \<le> unat a \<Longrightarrow>
    load32 (store32 b v m) a = load32 m a"
  by (intro load32_store32_other blocks_apartI)

lemma demo_chain: "chain_ends demo_types 0x3000 2" "ancestor demo_types 1 0x3000 = 0x2000" "ancestor demo_types 2 0x3000 = 0x1000"
proof -
  let ?m = "store32 0x16803c 0x1000 (store32 0x2004 0x1000 (store32 0x3004 0x2000 (\<lambda>_. 0)))"
  have l: "load32 ?m 0x3004 = 0x2000" "load32 ?m 0x2004 = 0x1000" "load32 ?m 0x16803c = 0x1000"
    by (simp_all add: load32_apart)
  then show a: "ancestor demo_types 1 0x3000 = 0x2000" "ancestor demo_types 2 0x3000 = 0x1000"
    by (simp_all add: ancestor_def demo_types_def type_parent_def numeral_2_eq_2)
  have top: "load32 (k_ram demo_types) (k_s7 demo_types + FIX_SYM_OBJECT_TYPE) = 0x1000"
    using l(3) by (simp add: demo_types_def demo_kernel_def FIX_SYM_OBJECT_TYPE_def)
  have "ancestor demo_types k 0x3000 = 0x2000" if "0 < k" "k < 2" for k
  proof -
    have "k = 1" using that by simp
    then show ?thesis using a(1) by simp
  qed
  then show "chain_ends demo_types 0x3000 2" using a(2) by (simp add: chain_ends_def top)
qed

section \<open>Properties\<close>

text \<open>
  C32. \<^verbatim>\<open>intern_from_c\<close> implements a finite map from names to symbols: whenever it returns, the table stays
  well-formed, the name is found at the symbol returned, that symbol was the one found before if the name
  was there, and every other name is found where it was, or is still absent.
\<close>

theorem intern_adds_symbol:
  assumes "symbol_table s h" "plain_name name" "intern_from_c name s = Some (p, s')"
  shows "symbol_table s' h \<and> (\<forall>n. plain_name n \<longrightarrow> symbol_of s' n = ((symbol_of s)(name \<mapsto> p)) n) \<and>
    symbol_of s name \<in> {None, Some p}"
  using assms by (rule intern_map)

theorem intern_adds_symbol_witness:
  "\<exists>p s. intern_from_c ''abc'' demo_kernel = Some (p, s) \<and> symbol_of s ''abc'' = Some p"
proof -
  obtain p s where c: "intern_from_c ''abc'' demo_kernel = Some (p, s)" using demo_intern by auto
  from intern_adds_symbol [OF demo_table demo_name(1) c] demo_name(1) c show ?thesis by simp
qed

text \<open>
  C33. Symbols are unique and permanent: after any sequence of names has been interned, each of them is
  found at the symbol its own call returned, two calls returned the same symbol exactly when the names
  are equal, and every symbol that was there before is still found.
\<close>

theorem interned_symbols_unique:
  assumes "symbol_table s h" "\<forall>n \<in> set names. plain_name n" "intern_all names s = Some (ps, s')"
    and "j < length names" "k < length names"
  shows "symbol_of s' (names ! j) = Some (ps ! j) \<and> (ps ! j = ps ! k \<longleftrightarrow> names ! j = names ! k) \<and>
    (\<forall>n p. plain_name n \<longrightarrow> symbol_of s n = Some p \<longrightarrow> symbol_of s' n = Some p)"
proof -
  note m = intern_all_map [OF assms(1-3)]
  have f: "symbol_of s' (names ! i) = Some (ps ! i)" if "i < length names" for i
    using m that by (auto dest: list_all2_nthD)
  have "names ! j = names ! k" if "ps ! j = ps ! k"
    using symbol_of_inj [of s' h "names ! j" "names ! k" "ps ! k"] m f [OF assms(4)] f [OF assms(5)] assms(2,4,5) that
    by simp
  moreover have "ps ! j = ps ! k" if "names ! j = names ! k" using f [OF assms(4)] f [OF assms(5)] that by simp
  ultimately show ?thesis using m f [OF assms(4)] by blast
qed

theorem interned_symbols_unique_witness:
  "\<exists>p s. intern_all [''abc''] demo_kernel = Some ([p], s) \<and> symbol_of s ''abc'' = Some p"
proof -
  obtain p s where c: "intern_all [''abc''] demo_kernel = Some ([p], s)" using demo_intern by auto
  from interned_symbols_unique [OF demo_table _ c, of 0 0] demo_name(1) c show ?thesis by simp
qed

text \<open>
  C37. A new name is interned whenever its probe meets an empty slot and the heap has room for the
  string: the call returns that slot, and the value the slot held is kept.
\<close>

theorem intern_returns_slot:
  assumes "symtab_ok s h T" "plain_name name" "crc32 (str_bytes name) = Some hash"
    and "sym_lookup s T name = None" "sym_free s T name = Some i" "string_room h name (k_ram s)"
  shows "\<exists>s'. intern_from_c name s = Some (i, s') \<and> symtab_ok s' h (T(i \<mapsto> name)) \<and>
    load32 (k_ram s') i = load32 (k_ram s) i \<and> k_NumSymbols s' = k_NumSymbols s + 1"
proof -
  have n: "c_name name" "name \<noteq> ''_empty_''" using assms(2) by (auto simp: plain_name_def)
  obtain m' where m: "intern_from_c name s = Some (i, s\<lparr>k_ram := m', k_symbol_slot := i, k_NumSymbols := k_NumSymbols s + 1\<rparr>)"
    "symtab_ok (s\<lparr>k_ram := m'\<rparr>) h (T(i \<mapsto> name))" "load32 m' i = load32 (k_ram s) i"
    by (rule intern_new [OF assms(1) n(1) assms(3) n(2) assms(4-6)])
  then show ?thesis by (simp add: symtab_count)
qed

theorem intern_returns_slot_witness:
  "\<exists>i s. intern_from_c ''abc'' demo_kernel = Some (i, s) \<and> k_NumSymbols s = 1"
proof -
  obtain i where free: "sym_lookup demo_kernel (\<lambda>_. None) ''abc'' = None"
    "sym_free demo_kernel (\<lambda>_. None) ''abc'' = Some i" "string_room 0x13AD00 ''abc'' (k_ram demo_kernel)"
    by (rule demo_free [of "''abc''"]) simp
  from intern_returns_slot [OF demo_symtab demo_name free] show ?thesis by (auto simp: demo_kernel_def)
qed

text \<open>
  The empty pair is found by its name: \<^verbatim>\<open>EMPTY_HASH\<close> is the hash of \<^verbatim>\<open>_empty_\<close>, so the search returns the
  address of the pair without looking at the table.
\<close>

lemma find_empty_pair:
  "find_symbol_from_c ''_empty_'' s = Some (k_s7 s + FIX_SYM_EMPTY_PAIR, s\<lparr>k_symbol_slot := 0\<rparr>)"
  by (simp add: find_symbol_from_c_def empty_hash)

text \<open>
  C38. \<^verbatim>\<open>type_typep\<close> returns for every type whose chain of parents ends, and answers whether the second type
  is on the chain, the ends included.
\<close>

theorem type_typep_ancestor:
  assumes "chain_ends s t1 n" "k_s7 s + FIX_SYM_OBJECT_TYPE \<noteq> 0"
  shows "type_typep t1 t2 s = Some (if \<exists>k \<le> n. ancestor s k t1 = t2 then k_s7 s + FIX_SYM_TRUE else k_s7 s)"
  using assms by (rule type_typep_chain)

theorem type_typep_ancestor_witness:
  "type_typep 0x3000 0x1000 demo_types = Some 0x16800c \<and> type_typep 0x3000 0x4000 demo_types = Some 0x168004"
proof -
  have o: "k_s7 demo_types + FIX_SYM_OBJECT_TYPE \<noteq> 0" by (simp add: demo_types_def demo_kernel_def FIX_SYM_OBJECT_TYPE_def)
  have "{..2 :: nat} = {0, 1, 2}" by auto
  then have "(\<exists>k \<in> {..2}. ancestor demo_types k 0x3000 = t) \<longleftrightarrow> t = 0x3000 \<or> t = 0x2000 \<or> t = 0x1000" for t
    using demo_chain(2,3) by (auto simp: ancestor_0)
  then have c: "(\<exists>k \<le> 2. ancestor demo_types k 0x3000 = t) \<longleftrightarrow> t = 0x3000 \<or> t = 0x2000 \<or> t = 0x1000" for t
    by (simp add: Bex_def)
  have s7: "k_s7 demo_types = 0x168004" by (simp add: demo_types_def demo_kernel_def)
  from type_typep_ancestor [OF demo_chain(1) o] show ?thesis unfolding c by (simp add: s7 FIX_SYM_TRUE_def)
qed

text \<open>
  C39. The flags of a type round-trip: what \<^verbatim>\<open>pack_type_flag\<close> packs is what \<^verbatim>\<open>set_type_values\<close> stores, and the method
  count never shrinks.
\<close>

theorem type_flags_round_trip:
  fixes methods hbase sz :: u64
  assumes "type \<noteq> 0" "methods < 0x10000" "hbase < 0x10000" "sz < 0x10000"
  shows "\<exists>s'. set_type_values type parent (pack_type_flag methods hbase sz) s = Some (type, s') \<and>
    rd type type_parent s' = Some parent \<and> rd16 type type_allocated_size s' = Some (ucast sz) \<and>
    rd16 type type_heap_base s' = Some (ucast hbase) \<and>
    rd16 type type_num_methods s' = Some (max (load16 (k_ram s) (type + type_num_methods)) (ucast methods))"
  using set_type_values_ok [OF assms(1), of parent "pack_type_flag methods hbase sz" s]
  unfolding flag_fields [OF assms(2-4)] by blast

theorem type_flags_round_trip_witness:
  "\<exists>s'. set_type_values 0x1000 0x2000 (pack_type_flag 9 0 16) demo_kernel = Some (0x1000, s') \<and>
    rd16 0x1000 type_allocated_size s' = Some 16"
  using type_flags_round_trip [of "0x1000" 9 0 16 "0x2000" demo_kernel] by auto

end
