(* ===== verification/IRegSet.thy ===== *)
theory IRegSet
  imports Containers
begin

text \<open>
  \<^verbatim>\<open>goalc/regalloc/IRegSet.h\<close>: sets of variable numbers as bit vectors of 64-bit words that grow on
  demand. Variable numbers are natural; a negative one would shift by a negative amount. The binary
  operations also resize the other operand, which does not change the set; they return both.
\<close>

section \<open>The class\<close>

record IRegSet =
  rs_data :: "u64 list"
  rs_bits :: nat

definition rs_empty :: IRegSet where
  "rs_empty = \<lparr>rs_data = [], rs_bits = 0\<rparr>"

text \<open>\<^verbatim>\<open>std::vector::resize\<close>\<close>

definition resize_vec :: "nat \<Rightarrow> u64 list \<Rightarrow> u64 list" where
  "resize_vec n xs = take n xs @ replicate (n - length xs) 0"

definition rs_resize :: "nat \<Rightarrow> IRegSet \<Rightarrow> IRegSet" where
  "rs_resize bits s =
    (if rs_bits s < bits then
       let new_vector_size = (bits + 63) div 64
       in \<lparr>rs_data = resize_vec new_vector_size (rs_data s), rs_bits = new_vector_size * 64\<rparr>
     else s)"

definition rs_insert :: "nat \<Rightarrow> IRegSet \<Rightarrow> IRegSet" where
  "rs_insert x s =
    (let s = rs_resize (x + 1) s; word = x div 64; b = x mod 64
     in s\<lparr>rs_data := (rs_data s)[word := (rs_data s ! word) OR push_bit b 1]\<rparr>)"

definition rs_clear :: "IRegSet \<Rightarrow> IRegSet" where
  "rs_clear s = s\<lparr>rs_data := map (\<lambda>_. 0) (rs_data s)\<rparr>"

text \<open>\<^verbatim>\<open>operator[]\<close> resizes, too.\<close>

definition rs_index :: "nat \<Rightarrow> IRegSet \<Rightarrow> bool \<times> IRegSet" where
  "rs_index x s =
    (let s = rs_resize (x + 1) s; word = x div 64; b = x mod 64
     in ((rs_data s ! word) AND push_bit b 1 \<noteq> 0, s))"

definition rs_size :: "IRegSet \<Rightarrow> nat" where
  "rs_size s = rs_bits s"

definition rs_equal :: "IRegSet \<Rightarrow> IRegSet \<Rightarrow> bool" where
  "rs_equal s t =
    (let n = min (length (rs_data s)) (length (rs_data t))
     in (\<forall>i \<in> set [0 ..< n]. rs_data s ! i = rs_data t ! i) \<and>
        (\<forall>j \<in> set [n ..< length (rs_data s)]. rs_data s ! j = 0) \<and>
        (\<forall>j \<in> set [n ..< length (rs_data t)]. rs_data t ! j = 0))"

definition make_max_size :: "IRegSet \<Rightarrow> IRegSet \<Rightarrow> IRegSet \<times> IRegSet" where
  "make_max_size s other =
    (if rs_size other < rs_size s then (s, rs_resize (rs_size s) other)
     else (rs_resize (rs_size other) s, other))"

definition bitwise_and_not :: "IRegSet \<Rightarrow> IRegSet \<Rightarrow> IRegSet \<times> IRegSet" where
  "bitwise_and_not s other =
    (let (s, other) = make_max_size s other
     in (s\<lparr>rs_data := map (\<lambda>i. (rs_data s ! i) AND NOT (rs_data other ! i)) [0 ..< length (rs_data s)]\<rparr>, other))"

definition bitwise_or :: "IRegSet \<Rightarrow> IRegSet \<Rightarrow> IRegSet \<times> IRegSet" where
  "bitwise_or s other =
    (let (s, other) = make_max_size s other
     in (s\<lparr>rs_data := map (\<lambda>i. (rs_data s ! i) OR (rs_data other ! i)) [0 ..< length (rs_data s)]\<rparr>, other))"

section \<open>The set it stands for\<close>

definition rs_ok :: "IRegSet \<Rightarrow> bool" where
  "rs_ok s \<longleftrightarrow> rs_bits s = 64 * length (rs_data s)"

definition members :: "IRegSet \<Rightarrow> nat set" where
  "members s = {x. x div 64 < length (rs_data s) \<and> bit (rs_data s ! (x div 64)) (x mod 64)}"

lemma members_bound: "rs_ok s \<Longrightarrow> x \<in> members s \<Longrightarrow> x < rs_size s"
  by (simp add: rs_ok_def members_def rs_size_def div_less_iff_less_mult mult.commute)

lemma finite_members: "rs_ok s \<Longrightarrow> finite (members s)"
  using members_bound [of s] by (intro finite_subset [of "members s" "{..<rs_size s}"]) auto

lemma rs_empty_ok [simp]: "rs_ok rs_empty" "members rs_empty = {}"
  by (simp_all add: rs_ok_def rs_empty_def members_def)

lemma resize_vec_grow: "length xs \<le> n \<Longrightarrow> resize_vec n xs = xs @ replicate (n - length xs) 0"
  by (simp add: resize_vec_def)

lemma members_padded: "rs_data t = rs_data s @ replicate k 0 \<Longrightarrow> members t = members s"
proof -
  assume t: "rs_data t = rs_data s @ replicate k 0"
  have "x \<in> members t \<longleftrightarrow> x \<in> members s" for x
    by (cases "x div 64 < length (rs_data s)") (auto simp: members_def t nth_append)
  then show ?thesis by blast
qed

lemma rs_resize_ok [simp]:
  assumes "rs_ok s"
  shows "rs_ok (rs_resize n s)" "members (rs_resize n s) = members s" "rs_size (rs_resize n s) \<ge> n"
    "rs_size (rs_resize n s) \<ge> rs_size s"
proof -
  have len: "length (rs_data s) \<le> (n + 63) div 64" if "rs_bits s < n" using that assms by (simp add: rs_ok_def)
  show "rs_ok (rs_resize n s)" "rs_size (rs_resize n s) \<ge> n" "rs_size (rs_resize n s) \<ge> rs_size s"
    using assms len by (auto simp: rs_resize_def rs_ok_def Let_def resize_vec_grow rs_size_def)
  show "members (rs_resize n s) = members s"
    using len members_padded [of "rs_resize n s" s "(n + 63) div 64 - length (rs_data s)"]
    by (cases "rs_bits s < n") (simp_all add: rs_resize_def Let_def resize_vec_grow)
qed

lemma rs_insert_ok [simp]:
  assumes "rs_ok s"
  shows "rs_ok (rs_insert x s)" "members (rs_insert x s) = insert x (members s)"
proof -
  define t where "t = rs_resize (x + 1) s"
  have t: "rs_ok t" "members t = members s" "x < rs_size t"
    using rs_resize_ok [OF assms, of "x + 1"] by (simp_all add: t_def)
  then have w: "x div 64 < length (rs_data t)" by (simp add: rs_ok_def rs_size_def div_less_iff_less_mult mult.commute)
  have i: "rs_insert x s = t\<lparr>rs_data := (rs_data t)[x div 64 := (rs_data t ! (x div 64)) OR push_bit (x mod 64) 1]\<rparr>"
    by (simp add: rs_insert_def Let_def t_def)
  show "rs_ok (rs_insert x s)" using t(1) by (simp add: i rs_ok_def)
  have "y \<in> members (rs_insert x s) \<longleftrightarrow> y = x \<or> y \<in> members t" for y
  proof (cases "y div 64 = x div 64")
    case True
    have "y = x \<longleftrightarrow> y mod 64 = x mod 64" using True div_mult_mod_eq [of y 64] div_mult_mod_eq [of x 64] by metis
    then show ?thesis using True w by (auto simp: members_def i bit_simps)
  next
    case False
    then show ?thesis by (auto simp: members_def i)
  qed
  then show "members (rs_insert x s) = insert x (members s)" using t(2) by auto
qed

lemma rs_clear_ok [simp]: "rs_ok s \<Longrightarrow> rs_ok (rs_clear s)" "members (rs_clear s) = {}"
  by (auto simp: rs_clear_def rs_ok_def members_def)

lemma rs_index_ok [simp]:
  assumes "rs_ok s"
  shows "fst (rs_index x s) \<longleftrightarrow> x \<in> members s" "rs_ok (snd (rs_index x s))" "members (snd (rs_index x s)) = members s"
proof -
  define t where "t = rs_resize (x + 1) s"
  have t: "rs_ok t" "members t = members s" "x < rs_size t"
    using rs_resize_ok [OF assms, of "x + 1"] by (simp_all add: t_def)
  then have w: "x div 64 < length (rs_data t)" by (simp add: rs_ok_def rs_size_def div_less_iff_less_mult mult.commute)
  have "a AND push_bit k 1 \<noteq> 0 \<longleftrightarrow> bit a k" if "k < 64" for a :: u64 and k
  proof -
    have "a AND push_bit k 1 = (if bit a k then push_bit k 1 else 0)"
      using that by (intro bit_word_eqI) (auto simp: bit_simps)
    then show ?thesis using that by (simp add: push_bit_eq_mult)
  qed
  from this [of "x mod 64"] have "fst (rs_index x s) \<longleftrightarrow> bit (rs_data t ! (x div 64)) (x mod 64)"
    unfolding rs_index_def Let_def t_def by simp
  then show "fst (rs_index x s) \<longleftrightarrow> x \<in> members s" using w t(2) by (auto simp: members_def)
  show "rs_ok (snd (rs_index x s))" "members (snd (rs_index x s)) = members s"
    using t by (simp_all add: rs_index_def Let_def t_def)
qed

lemma make_max_size_ok:
  assumes "rs_ok s" "rs_ok t" "make_max_size s t = (s', t')"
  shows "rs_ok s'" "rs_ok t'" "members s' = members s" "members t' = members t"
    "length (rs_data s') = length (rs_data t')"
proof -
  show "rs_ok s'" "rs_ok t'" "members s' = members s" "members t' = members t"
    using assms by (auto simp: make_max_size_def split: if_splits)
  have "rs_size (rs_resize (rs_size b) a) = rs_size b" if "rs_ok a" "rs_ok b" "rs_size a \<le> rs_size b" for a b
    using that by (auto simp: rs_resize_def rs_ok_def rs_size_def Let_def)
  then have "rs_size s' = rs_size t'"
    using assms by (auto simp: make_max_size_def split: if_splits)
  then show "length (rs_data s') = length (rs_data t')"
    using \<open>rs_ok s'\<close> \<open>rs_ok t'\<close> by (simp add: rs_ok_def rs_size_def)
qed

lemma bitwise_ok [simp]:
  assumes "rs_ok s" "rs_ok t"
  shows "rs_ok (fst (bitwise_and_not s t))" "members (fst (bitwise_and_not s t)) = members s - members t"
    "rs_ok (fst (bitwise_or s t))" "members (fst (bitwise_or s t)) = members s \<union> members t"
    "rs_ok (snd (bitwise_and_not s t))" "members (snd (bitwise_and_not s t)) = members t"
    "rs_ok (snd (bitwise_or s t))" "members (snd (bitwise_or s t)) = members t"
proof -
  obtain s' t' where m: "make_max_size s t = (s', t')" by fastforce
  note ok = make_max_size_ok [OF assms m]
  have "members (s'\<lparr>rs_data := map (\<lambda>i. (rs_data s' ! i) AND NOT (rs_data t' ! i)) [0 ..< length (rs_data s')]\<rparr>) =
      members s' - members t'"
    "members (s'\<lparr>rs_data := map (\<lambda>i. (rs_data s' ! i) OR (rs_data t' ! i)) [0 ..< length (rs_data s')]\<rparr>) =
      members s' \<union> members t'"
    using ok(5) by (auto simp: members_def bit_simps)
  then show "rs_ok (fst (bitwise_and_not s t))" "members (fst (bitwise_and_not s t)) = members s - members t"
    "rs_ok (fst (bitwise_or s t))" "members (fst (bitwise_or s t)) = members s \<union> members t"
    "rs_ok (snd (bitwise_and_not s t))" "members (snd (bitwise_and_not s t)) = members t"
    "rs_ok (snd (bitwise_or s t))" "members (snd (bitwise_or s t)) = members t"
    using ok by (simp_all add: bitwise_and_not_def bitwise_or_def m rs_ok_def)
qed

lemma zero_word_members: "j < length (rs_data s) \<Longrightarrow> rs_data s ! j = 0 \<longleftrightarrow> (\<forall>x \<in> members s. x div 64 \<noteq> j)"
proof
  assume j: "j < length (rs_data s)" and none: "\<forall>x \<in> members s. x div 64 \<noteq> j"
  show "rs_data s ! j = 0"
  proof (rule bit_word_eqI)
    fix k assume k: "k < LENGTH(64)"
    have e: "(64 * j + k) div 64 = j" "(64 * j + k) mod 64 = k" using k by simp_all
    have "64 * j + k \<notin> members s" using none e(1) by metis
    then show "bit (rs_data s ! j) k \<longleftrightarrow> bit (0 :: u64) k"
      using j e by (simp add: members_def)
  qed
qed (auto simp: members_def)

lemma same_word_members:
  assumes "j < length (rs_data s)" "j < length (rs_data t)" "members s = members t"
  shows "rs_data s ! j = rs_data t ! j"
proof (rule bit_word_eqI)
  fix k assume k: "k < LENGTH(64)"
  have e: "(64 * j + k) div 64 = j" "(64 * j + k) mod 64 = k" using k by simp_all
  have "64 * j + k \<in> members s \<longleftrightarrow> 64 * j + k \<in> members t" using assms(3) by simp
  then show "bit (rs_data s ! j) k \<longleftrightarrow> bit (rs_data t ! j) k" using assms(1,2) e by (simp add: members_def)
qed

lemma rs_equal_members: "rs_equal s t \<longleftrightarrow> members s = members t"
proof
  assume e: "rs_equal s t"
  let ?n = "min (length (rs_data s)) (length (rs_data t))"
  have same: "rs_data s ! i = rs_data t ! i" if "i < ?n" for i using e that by (simp add: rs_equal_def Let_def)
  have zs: "rs_data s ! i = 0" if "?n \<le> i" "i < length (rs_data s)" for i
    using e that by (simp add: rs_equal_def Let_def)
  have zt: "rs_data t ! i = 0" if "?n \<le> i" "i < length (rs_data t)" for i
    using e that by (simp add: rs_equal_def Let_def)
  have "x \<in> members s \<longleftrightarrow> x \<in> members t" for x
    using same [of "x div 64"] zs [of "x div 64"] zt [of "x div 64"]
    by (cases "x div 64 < ?n") (auto simp: members_def)
  then show "members s = members t" by blast
next
  assume eq: "members s = members t"
  let ?n = "min (length (rs_data s)) (length (rs_data t))"
  have small: "x div 64 < ?n" if "x \<in> members s" for x
    using that eq by (auto simp: members_def)
  have "rs_data s ! j = 0" if "?n \<le> j" "j < length (rs_data s)" for j
    using small zero_word_members [OF that(2)] that(1) by (metis leD)
  moreover have "rs_data t ! j = 0" if "?n \<le> j" "j < length (rs_data t)" for j
    using small eq zero_word_members [OF that(2)] that(1) by (metis leD)
  ultimately show "rs_equal s t"
    using same_word_members [OF _ _ eq] by (auto simp: rs_equal_def Let_def)
qed

end
