(* ===== verification/RegAlloc_Types.thy ===== *)
theory RegAlloc_Types
  imports Registers IRegSet
begin

text \<open>
  The data of the register allocator (\<^verbatim>\<open>goalc/regalloc\<close>: \<^verbatim>\<open>IRegister.h\<close>, \<^verbatim>\<open>allocate.h\<close>,
  \<^verbatim>\<open>allocate_common.h\<close>, \<^verbatim>\<open>Allocator.h\<close>) and the operations of a live range. A failed assertion, an
  exception and an access out of range are \<open>None\<close>.
\<close>

section \<open>Variables and instructions\<close>

record IRegister =
  ireg_class :: RegClass
  ireg_id :: int

definition no_ireg :: IRegister where
  "no_ireg = \<lparr>ireg_class = INVALID_CLASS, ireg_id = - 1\<rparr>"

record IRegConstraint =
  con_ireg :: IRegister
  con_instr_idx :: int
  contrain_everywhere :: bool
  desired_register :: Register

record RegAllocInstr =
  clobber :: "Register list"
  exclude :: "Register list"
  ri_write :: "IRegister list"
  ri_read :: "IRegister list"
  jumps :: "int list"
  fallthrough :: bool
  is_move :: bool

definition reads :: "RegAllocInstr \<Rightarrow> int \<Rightarrow> bool" where
  "reads i v \<longleftrightarrow> list_ex (\<lambda>x. ireg_id x = v) (ri_read i)"

definition writes :: "RegAllocInstr \<Rightarrow> int \<Rightarrow> bool" where
  "writes i v \<longleftrightarrow> list_ex (\<lambda>x. ireg_id x = v) (ri_write i)"

record AllocationInput =
  instructions :: "RegAllocInstr list"
  constraints :: "IRegConstraint list"
  force_on_stack_regs :: "int set"
  max_vars :: int
  stack_slots_for_stack_vars :: int
  is_asm_function :: bool

definition add_instruction :: "RegAllocInstr \<Rightarrow> AllocationInput \<Rightarrow> AllocationInput \<times> int" where
  "add_instruction i inp =
    (let inp = inp\<lparr>instructions := instructions inp @ [i]\<rparr> in (inp, int (length (instructions inp)) - 1))"

section \<open>Assignments\<close>

datatype Kind = STACK | REGISTER | UNASSIGNED

record Assignment =
  as_kind :: Kind
  as_reg :: Register
  stack_slot :: int
  spilled :: bool

definition no_reg :: Register where
  "no_reg = mk_Register (- 1)"

definition no_assignment :: Assignment where
  "no_assignment = \<lparr>as_kind = UNASSIGNED, as_reg = no_reg, stack_slot = - 1, spilled = False\<rparr>"

text \<open>An \<^verbatim>\<open>Assignment\<close> whose kind and register have been set.\<close>

definition in_reg :: "Register \<Rightarrow> Assignment" where
  "in_reg r = no_assignment\<lparr>as_reg := r, as_kind := REGISTER\<rparr>"

definition occupies_same_reg :: "Assignment \<Rightarrow> Assignment \<Rightarrow> bool" where
  "occupies_same_reg a other \<longleftrightarrow> as_reg other = as_reg a \<and> as_reg a \<noteq> no_reg"

definition occupies_reg :: "Assignment \<Rightarrow> Register \<Rightarrow> bool" where
  "occupies_reg a r \<longleftrightarrow> as_reg a = r \<and> as_reg a \<noteq> no_reg"

definition is_assigned :: "Assignment \<Rightarrow> bool" where
  "is_assigned a \<longleftrightarrow> as_kind a \<noteq> UNASSIGNED"

definition enable_fancy_coloring :: bool where "enable_fancy_coloring = True"
definition move_eliminator :: bool where "move_eliminator = True"
definition allow_read_write_same_reg :: bool where "allow_read_write_same_reg = True"

section \<open>Live ranges\<close>

record LiveInfo =
  li_min :: int
  li_max :: int
  is_alive :: "bool list"
  indices_of_alive :: "int list"
  li_var :: int
  seen :: bool
  has_constraint :: bool
  assignment :: "Assignment list"
  best_hint :: Assignment

definition new_LiveInfo :: "int \<Rightarrow> int \<Rightarrow> LiveInfo" where
  "new_LiveInfo start end =
    \<lparr>li_min = start, li_max = end, is_alive = [], indices_of_alive = [], li_var = - 1, seen = False,
     has_constraint = False, assignment = [], best_hint = no_assignment\<rparr>"

definition add_live_instruction :: "int \<Rightarrow> LiveInfo \<Rightarrow> LiveInfo option" where
  "add_live_instruction value l = do {
    assert_opt (0 \<le> value);
    let l = (if li_max l < value then l\<lparr>li_max := value\<rparr> else l);
    let l = (if value < li_min l then l\<lparr>li_min := value\<rparr> else l);
    Some (l\<lparr>indices_of_alive := indices_of_alive l @ [value], seen := True\<rparr>) }"

definition is_live_at_instr :: "LiveInfo \<Rightarrow> int \<Rightarrow> bool option" where
  "is_live_at_instr l value =
    (if li_min l \<le> value \<and> value \<le> li_max l then
       (if enable_fancy_coloring then array_at (is_alive l) (value - li_min l) else Some True)
     else Some False)"

definition becomes_live_at_instr :: "LiveInfo \<Rightarrow> int \<Rightarrow> bool option" where
  "becomes_live_at_instr l idx =
    (if enable_fancy_coloring then
       (if idx = li_min l then Some True
        else if idx < li_min l \<or> li_max l < idx then Some False
        else do {
          assert_opt (li_min l < idx);
          here \<leftarrow> array_at (is_alive l) (idx - li_min l);
          if here then do {
            prev \<leftarrow> array_at (is_alive l) (idx - li_min l - 1);
            Some (\<not> prev) }
          else Some False })
     else Some (idx = li_min l))"

definition dies_next_at_instr :: "LiveInfo \<Rightarrow> int \<Rightarrow> bool option" where
  "dies_next_at_instr l idx =
    (if enable_fancy_coloring then
       (if idx = li_max l then Some True
        else if idx < li_min l \<or> li_max l < idx then Some False
        else do {
          assert_opt (idx < li_max l);
          here \<leftarrow> array_at (is_alive l) (idx - li_min l);
          if here then do {
            later \<leftarrow> array_at (is_alive l) (idx - li_min l + 1);
            Some (\<not> later) }
          else Some False })
     else Some (idx = li_max l))"

definition resize_list :: "nat \<Rightarrow> 'a \<Rightarrow> 'a list \<Rightarrow> 'a list" where
  "resize_list n x xs = take n xs @ replicate (n - length xs) x"

definition prepare_for_allocation :: "int \<Rightarrow> LiveInfo \<Rightarrow> LiveInfo option" where
  "prepare_for_allocation i l =
    (let l = l\<lparr>li_var := i\<rparr> in
     if \<not> seen l then Some l
     else do {
       assert_opt (0 \<le> li_max l - li_min l);
       let n = nat (li_max l - li_min l + 1);
       let l = l\<lparr>assignment := resize_list n no_assignment (assignment l), is_alive := resize_list n False (is_alive l)\<rparr>;
       fold_opt (\<lambda>x l. do {
           alive \<leftarrow> modify_at (is_alive l) (x - li_min l) (\<lambda>_. True);
           Some (l\<lparr>is_alive := alive\<rparr>) })
         (indices_of_alive l) l })"

definition constrain_at_one :: "int \<Rightarrow> Register \<Rightarrow> LiveInfo \<Rightarrow> LiveInfo option" where
  "constrain_at_one i r l = do {
    assert_opt (li_min l \<le> i \<and> i \<le> li_max l);
    as \<leftarrow> modify_at (assignment l) (i - li_min l) (\<lambda>_. in_reg r);
    Some (l\<lparr>assignment := as, has_constraint := True, best_hint := in_reg r\<rparr>) }"

definition constrain_everywhere :: "Register \<Rightarrow> LiveInfo \<Rightarrow> LiveInfo option" where
  "constrain_everywhere r l = do {
    l \<leftarrow> fold_opt (\<lambda>i l. do {
        as \<leftarrow> modify_at (assignment l) (i - li_min l) (\<lambda>_. in_reg r);
        Some (l\<lparr>assignment := as\<rparr>) })
      [li_min l .. li_max l] l;
    Some (l\<lparr>has_constraint := True, best_hint := in_reg r\<rparr>) }"

definition conflicts_at :: "LiveInfo \<Rightarrow> int \<Rightarrow> Assignment \<Rightarrow> bool option" where
  "conflicts_at l i a = do {
    assert_opt (li_min l \<le> i \<and> i \<le> li_max l);
    mine \<leftarrow> array_at (assignment l) (i - li_min l);
    Some (occupies_same_reg mine a) }"

definition conflicts_at_reg :: "LiveInfo \<Rightarrow> int \<Rightarrow> Register \<Rightarrow> bool option" where
  "conflicts_at_reg l i r = do {
    assert_opt (li_min l \<le> i \<and> i \<le> li_max l);
    mine \<leftarrow> array_at (assignment l) (i - li_min l);
    Some (occupies_same_reg mine (in_reg r)) }"

definition assign_no_overwrite :: "Assignment \<Rightarrow> LiveInfo \<Rightarrow> LiveInfo option" where
  "assign_no_overwrite a l = do {
    assert_opt (seen l);
    assert_opt (is_assigned a);
    fold_opt (\<lambda>i l. do {
        mine \<leftarrow> array_at (assignment l) (i - li_min l);
        if is_assigned mine \<and> \<not> occupies_same_reg mine a then None
        else Some (l\<lparr>assignment := update_at (assignment l) (i - li_min l) a\<rparr>) })
      [li_min l .. li_max l] l }"

definition get_at :: "LiveInfo \<Rightarrow> int \<Rightarrow> Assignment option" where
  "get_at l i = do {
    assert_opt (li_min l \<le> i \<and> i \<le> li_max l);
    array_at (assignment l) (i - li_min l) }"

definition li_size :: "LiveInfo \<Rightarrow> int" where
  "li_size l = 1 + li_max l - li_min l"

definition overlaps :: "LiveInfo \<Rightarrow> LiveInfo \<Rightarrow> bool" where
  "overlaps l other \<longleftrightarrow> max (li_min l) (li_min other) \<le> min (li_max l) (li_max other)"

section \<open>Blocks, the allocator's state and its result\<close>

record StackOp =
  op_slot :: int
  op_reg :: Register
  op_reg_class :: RegClass
  op_load :: bool
  op_store :: bool

record RegAllocBasicBlock =
  instr_idx :: "int list"
  succ_of :: "int list"
  pred_of :: "int list"
  live :: "IRegSet list"
  dead :: "IRegSet list"
  use_set :: IRegSet
  defs_set :: IRegSet
  input_set :: IRegSet
  output_set :: IRegSet
  is_entry :: bool
  is_exit :: bool
  block_idx :: int

definition new_block :: RegAllocBasicBlock where
  "new_block =
    \<lparr>instr_idx = [], succ_of = [], pred_of = [], live = [], dead = [], use_set = rs_empty,
     defs_set = rs_empty, input_set = rs_empty, output_set = rs_empty, is_entry = False, is_exit = False,
     block_idx = - 1\<rparr>"

record RegAllocCache =
  basic_blocks :: "RegAllocBasicBlock list"
  live_ranges :: "LiveInfo list"
  max_var :: int
  was_colored :: "bool list"
  iregs :: "IRegister list"
  stack_ops :: "StackOp list list"
  var_to_stack_slot :: "int \<rightharpoonup> int"
  current_stack_slot :: int
  used_stack :: bool
  is_asm_func :: bool
  live_ranges_by_instr :: "int list list"

definition new_cache :: RegAllocCache where
  "new_cache =
    \<lparr>basic_blocks = [], live_ranges = [], max_var = - 1, was_colored = [], iregs = [], stack_ops = [],
     var_to_stack_slot = Map.empty, current_stack_slot = 0, used_stack = False, is_asm_func = False,
     live_ranges_by_instr = []\<rparr>"

record AllocationResult =
  res_ok :: bool
  res_assignment :: "Assignment list list"
  ass_as_ranges :: "LiveInfo list"
  used_saved_regs :: "Register list"
  stack_slots_for_spills :: int
  stack_slots_for_vars :: int
  res_stack_ops :: "StackOp list list"
  needs_aligned_stack_for_spills :: bool

definition new_result :: AllocationResult where
  "new_result =
    \<lparr>res_ok = False, res_assignment = [], ass_as_ranges = [], used_saved_regs = [],
     stack_slots_for_spills = 0, stack_slots_for_vars = 0, res_stack_ops = [],
     needs_aligned_stack_for_spills = False\<rparr>"

definition total_stack_slots :: "AllocationResult \<Rightarrow> int" where
  "total_stack_slots r = stack_slots_for_spills r + stack_slots_for_vars r"

definition get_slot_for_var :: "AllocationResult \<Rightarrow> int \<Rightarrow> int option" where
  "get_slot_for_var r slot = do { assert_opt (slot < stack_slots_for_vars r); Some slot }"

definition get_slot_for_spill :: "AllocationResult \<Rightarrow> int \<Rightarrow> int option" where
  "get_slot_for_spill r slot = do {
    assert_opt (slot < stack_slots_for_spills r); Some (slot + stack_slots_for_vars r) }"

section \<open>Loops that stop at the first failure\<close>

primrec all_opt :: "('a \<Rightarrow> bool option) \<Rightarrow> 'a list \<Rightarrow> bool option" where
  "all_opt p [] = Some True"
| "all_opt p (x # xs) = do { b \<leftarrow> p x; if b then all_opt p xs else Some False }"

text \<open>Every element is tested, and the result is whether all tests succeeded (\<^verbatim>\<open>ok = false\<close> without a break).\<close>

primrec check_opt :: "('a \<Rightarrow> bool option) \<Rightarrow> 'a list \<Rightarrow> bool option" where
  "check_opt p [] = Some True"
| "check_opt p (x # xs) = do { b \<leftarrow> p x; r \<leftarrow> check_opt p xs; Some (b \<and> r) }"

lemma all_opt_True: "all_opt p xs = Some True \<longleftrightarrow> (\<forall>x \<in> set xs. p x = Some True)"
  by (induction xs) (auto simp: bind_eq_Some_conv)

lemma check_opt_True: "check_opt p xs = Some True \<longleftrightarrow> (\<forall>x \<in> set xs. p x = Some True)"
  by (induction xs) (auto simp: bind_eq_Some_conv)

end
