(* ===== verification/Liveness.thy ===== *)
theory Liveness
  imports RegAlloc_Types
begin

text \<open>
  \<^verbatim>\<open>goalc/regalloc/Allocator.cpp\<close>, first half: basic blocks and liveness.
\<close>

section \<open>Basic blocks\<close>

definition dividers :: "AllocationInput \<Rightarrow> int list" where
  "dividers inp =
    [0, int (length (instructions inp))] @
    concat (map (\<lambda>(i, instr). if jumps instr \<noteq> [] then (int i + 1) # jumps instr else [])
      (enumerate 0 (instructions inp)))"

fun make_blocks :: "int list \<Rightarrow> RegAllocBasicBlock list \<Rightarrow> RegAllocBasicBlock list" where
  "make_blocks (d # e # ds) bs =
    make_blocks (e # ds)
      (if d \<noteq> e then bs @ [new_block\<lparr>instr_idx := [d .. e - 1], block_idx := int (length bs)\<rparr>] else bs)"
| "make_blocks _ bs = bs"

definition mark_ends :: "RegAllocBasicBlock list \<Rightarrow> RegAllocBasicBlock list" where
  "mark_ends bs =
    (if bs = [] then bs
     else let bs = bs[0 := (hd bs)\<lparr>is_entry := True\<rparr>]
          in bs[length bs - 1 := (last bs)\<lparr>is_exit := True\<rparr>])"

definition find_basic_block_to_target :: "RegAllocBasicBlock list \<Rightarrow> int \<Rightarrow> int option" where
  "find_basic_block_to_target bs instr =
    (case filter (\<lambda>i. instr_idx (bs ! i) \<noteq> [] \<and> hd (instr_idx (bs ! i)) = instr) [0 ..< length bs] of
       [i] \<Rightarrow> Some (int i)
     | _ \<Rightarrow> None)"

definition add_pred :: "int \<Rightarrow> RegAllocBasicBlock \<Rightarrow> RegAllocBasicBlock" where
  "add_pred p b = b\<lparr>pred_of := pred_of b @ [p]\<rparr>"

definition add_succ :: "int \<Rightarrow> RegAllocBasicBlock \<Rightarrow> RegAllocBasicBlock" where
  "add_succ s b = b\<lparr>succ_of := succ_of b @ [s]\<rparr>"

text \<open>\<^verbatim>\<open>blocks.at(s).pred.push_back(i); blocks[i].succ.push_back(s)\<close>\<close>

definition link_to :: "nat \<Rightarrow> int \<Rightarrow> RegAllocBasicBlock list \<Rightarrow> RegAllocBasicBlock list option" where
  "link_to i s bs = do {
    bs \<leftarrow> modify_at bs s (add_pred (block_idx (bs ! i)));
    Some (bs[i := add_succ s (bs ! i)]) }"

definition link_block :: "RegAllocInstr list \<Rightarrow> nat \<Rightarrow> RegAllocBasicBlock list \<Rightarrow> RegAllocBasicBlock list option" where
  "link_block instrs i bs = do {
    assert_opt (instr_idx (bs ! i) \<noteq> []);
    last_instr \<leftarrow> array_at instrs (last (instr_idx (bs ! i)));
    bs \<leftarrow> (if fallthrough last_instr then
             let next_idx = block_idx (bs ! i) + 1
             in if next_idx < int (length bs) then link_to i next_idx bs else Some bs
           else Some bs);
    fold_opt (\<lambda>target bs. do {
        s \<leftarrow> find_basic_block_to_target bs target;
        link_to i s bs })
      (jumps last_instr) bs }"

definition find_basic_blocks :: "RegAllocCache \<Rightarrow> AllocationInput \<Rightarrow> RegAllocCache option" where
  "find_basic_blocks cache inp = do {
    let bs = mark_ends (make_blocks (sort (dividers inp)) (basic_blocks cache));
    bs \<leftarrow> fold_opt (link_block (instructions inp)) [0 ..< length bs] bs;
    Some (cache\<lparr>basic_blocks := bs\<rparr>) }"

section \<open>Liveness\<close>

definition insert_ireg :: "IRegister \<Rightarrow> IRegSet \<Rightarrow> IRegSet" where
  "insert_ireg x = rs_insert (nat (ireg_id x))"

text \<open>One step of \<^verbatim>\<open>analyze_liveliness_phase1\<close>: instruction number \<open>i\<close> of the block.\<close>

definition kill_written :: "IRegister \<Rightarrow> IRegSet \<times> IRegSet \<Rightarrow> IRegSet \<times> IRegSet" where
  "kill_written x s =
    (case s of (lv, dd) \<Rightarrow>
       case rs_index (nat (ireg_id x)) lv of (is_read, lv) \<Rightarrow>
         (lv, if \<not> is_read then insert_ireg x dd else dd))"

definition phase1_step :: "RegAllocInstr list \<Rightarrow> nat \<Rightarrow> RegAllocBasicBlock \<Rightarrow> RegAllocBasicBlock option" where
  "phase1_step instrs i b = do {
    ii \<leftarrow> array_at (instr_idx b) (int i);
    instr \<leftarrow> array_at instrs ii;
    lv \<leftarrow> array_at (live b) (int i);
    dd \<leftarrow> array_at (dead b) (int i);
    let lv = fold insert_ireg (ri_read instr) (rs_clear lv);
    let (lv, dd) = fold kill_written (ri_write instr) (lv, rs_clear dd);
    let (us, dd) = bitwise_and_not (use_set b) dd;
    let (us, lv) = bitwise_or us lv;
    let (df, lv) = bitwise_and_not (defs_set b) lv;
    let (df, dd) = bitwise_or df dd;
    Some (b\<lparr>live := (live b)[i := lv], dead := (dead b)[i := dd], use_set := us, defs_set := df\<rparr>) }"

definition phase1 :: "RegAllocInstr list \<Rightarrow> RegAllocBasicBlock \<Rightarrow> RegAllocBasicBlock option" where
  "phase1 instrs b = fold_opt (phase1_step instrs) (rev [0 ..< length (instr_idx b)]) b"

text \<open>
  \<^verbatim>\<open>out.bitwise_or(blocks.at(s).input)\<close> for every successor: the operand is resized in place, also when
  the block is its own successor.
\<close>

definition or_input :: "int \<Rightarrow> IRegSet \<times> RegAllocBasicBlock list \<Rightarrow> (IRegSet \<times> RegAllocBasicBlock list) option" where
  "or_input s st = do {
    let (acc, bs) = st;
    b \<leftarrow> array_at bs s;
    let (acc, inp) = bitwise_or acc (input_set b);
    Some (acc, update_at bs s (b\<lparr>input_set := inp\<rparr>)) }"

definition phase2 :: "nat \<Rightarrow> RegAllocBasicBlock list \<Rightarrow> (bool \<times> RegAllocBasicBlock list) option" where
  "phase2 i bs = do {
    (out, bs) \<leftarrow> fold_opt or_input (succ_of (bs ! i)) (defs_set (bs ! i), bs);
    let b = bs ! i;
    let inp = use_set b;
    let (temp, df) = bitwise_and_not out (defs_set b);
    let b = b\<lparr>defs_set := df\<rparr>;
    let (inp, temp) = bitwise_or inp temp;
    if \<not> rs_equal inp (input_set b) \<or> \<not> rs_equal out (output_set b) then
      Some (True, bs[i := b\<lparr>input_set := inp, output_set := out\<rparr>])
    else Some (False, bs[i := b]) }"

definition phase2_pass :: "RegAllocBasicBlock list \<Rightarrow> (bool \<times> RegAllocBasicBlock list) option" where
  "phase2_pass bs =
    fold_opt (\<lambda>i (changed, bs). do {
        (c, bs) \<leftarrow> phase2 i bs;
        Some (changed \<or> c, bs) })
      [0 ..< length bs] (False, bs)"

text \<open>The \<^verbatim>\<open>do ... while (changed)\<close> loop; not to return is \<open>None\<close>.\<close>

partial_function (option) phase2_loop :: "RegAllocBasicBlock list \<Rightarrow> RegAllocBasicBlock list option" where
  "phase2_loop bs = do {
    r \<leftarrow> phase2_pass bs;
    if fst r then phase2_loop (snd r) else Some (snd r) }"

declare phase2_loop.simps [code]

definition phase3_step :: "nat \<Rightarrow> IRegSet \<times> RegAllocBasicBlock \<Rightarrow> (IRegSet \<times> RegAllocBasicBlock) option" where
  "phase3_step i st = do {
    let (live_local, b) = st;
    lv \<leftarrow> array_at (live b) (int i);
    dd \<leftarrow> array_at (dead b) (int i);
    let (new_live, dd) = bitwise_and_not live_local dd;
    let (new_live, lv) = bitwise_or new_live lv;
    Some (new_live, b\<lparr>live := (live b)[i := live_local], dead := (dead b)[i := dd]\<rparr>) }"

definition phase3 :: "nat \<Rightarrow> RegAllocBasicBlock list \<Rightarrow> RegAllocBasicBlock list option" where
  "phase3 i bs = do {
    (live_local, bs) \<leftarrow> fold_opt or_input (succ_of (bs ! i)) (rs_empty, bs);
    (_, b) \<leftarrow> fold_opt phase3_step (rev [0 ..< length (instr_idx (bs ! i))]) (live_local, bs ! i);
    Some (bs[i := b]) }"

section \<open>Live ranges\<close>

definition make_alive :: "int \<Rightarrow> int \<Rightarrow> LiveInfo list \<Rightarrow> LiveInfo list option" where
  "make_alive v i lrs = do {
    l \<leftarrow> array_at lrs v;
    l \<leftarrow> add_live_instruction i l;
    Some (update_at lrs v l) }"

definition ranges_from_use :: "RegAllocInstr list \<Rightarrow> RegAllocBasicBlock \<Rightarrow> LiveInfo list \<Rightarrow> LiveInfo list option" where
  "ranges_from_use instrs b lrs =
    fold_opt (\<lambda>i lrs. do {
        inst \<leftarrow> array_at instrs i;
        fold_opt (\<lambda>x. make_alive (ireg_id x) i) (ri_read inst @ ri_write inst) lrs })
      (instr_idx b) lrs"

text \<open>\<^verbatim>\<open>block.live[i][j]\<close> below the size does not resize.\<close>

definition ranges_from_live :: "RegAllocBasicBlock \<Rightarrow> LiveInfo list \<Rightarrow> LiveInfo list option" where
  "ranges_from_live b lrs = do {
    assert_opt (length (live b) = length (instr_idx b));
    fold_opt (\<lambda>i lrs.
        fold_opt (\<lambda>j lrs.
            if fst (rs_index j (live b ! i)) then make_alive (int j) (instr_idx b ! i) lrs else Some lrs)
          [0 ..< rs_size (live b ! i)] lrs)
      [0 ..< length (live b)] lrs }"

definition compute_live_ranges :: "RegAllocCache \<Rightarrow> AllocationInput \<Rightarrow> RegAllocCache option" where
  "compute_live_ranges cache inp = do {
    assert_opt (0 \<le> max_var cache);
    let lrs = resize_list (nat (max_var cache)) (new_LiveInfo (int (length (instructions inp))) 0) (live_ranges cache);
    lrs \<leftarrow> fold_opt (\<lambda>b lrs. do {
        lrs \<leftarrow> ranges_from_use (instructions inp) b lrs;
        ranges_from_live b lrs })
      (basic_blocks cache) lrs;
    lrs \<leftarrow> fold_opt (\<lambda>con lrs.
        if \<not> contrain_everywhere con then make_alive (ireg_id (con_ireg con)) (con_instr_idx con) lrs else Some lrs)
      (constraints inp) lrs;
    Some (cache\<lparr>live_ranges := lrs\<rparr>) }"

definition record_iregs :: "RegAllocInstr list \<Rightarrow> IRegister list \<Rightarrow> IRegister list option" where
  "record_iregs instrs rs =
    fold_opt (\<lambda>instr. fold_opt (\<lambda>x rs. modify_at rs (ireg_id x) (\<lambda>_. x)) (ri_write instr @ ri_read instr)) instrs rs"

definition prepare_all :: "LiveInfo list \<Rightarrow> LiveInfo list option" where
  "prepare_all lrs =
    fold_opt (\<lambda>i lrs. do {
        l \<leftarrow> prepare_for_allocation (int i) (lrs ! i);
        Some (lrs[i := l]) })
      [0 ..< length lrs] lrs"

definition index_live_ranges :: "LiveInfo list \<Rightarrow> int list list \<Rightarrow> int list list option" where
  "index_live_ranges lrs by =
    fold_opt (\<lambda>v by.
        if seen (lrs ! v) then
          fold_opt (\<lambda>i by. do {
              here \<leftarrow> is_live_at_instr (lrs ! v) i;
              if here then modify_at by i (\<lambda>vs. vs @ [int v]) else Some by })
            [li_min (lrs ! v) .. li_max (lrs ! v)] by
        else Some by)
      [0 ..< length lrs] by"

definition analyze_liveliness :: "RegAllocCache \<Rightarrow> AllocationInput \<Rightarrow> RegAllocCache option" where
  "analyze_liveliness cache inp = do {
    let cache = cache\<lparr>max_var := max_vars inp\<rparr>;
    assert_opt (0 \<le> max_var cache);
    rs \<leftarrow> record_iregs (instructions inp) (resize_list (nat (max_var cache)) no_ireg (iregs cache));
    let cache = cache\<lparr>was_colored := resize_list (nat (max_var cache)) False (was_colored cache), iregs := rs\<rparr>;
    bs \<leftarrow> fold_opt (\<lambda>i bs. do {
        let b = bs ! i;
        let n = length (instr_idx b);
        b \<leftarrow> phase1 (instructions inp) (b\<lparr>live := resize_list n rs_empty (live b), dead := resize_list n rs_empty (dead b)\<rparr>);
        Some (bs[i := b]) })
      [0 ..< length (basic_blocks cache)] (basic_blocks cache);
    bs \<leftarrow> phase2_loop bs;
    bs \<leftarrow> fold_opt phase3 [0 ..< length bs] bs;
    cache \<leftarrow> compute_live_ranges (cache\<lparr>basic_blocks := bs\<rparr>) inp;
    lrs \<leftarrow> prepare_all (live_ranges cache);
    let n = length (instructions inp);
    by \<leftarrow> index_live_ranges lrs (resize_list n [] (live_ranges_by_instr cache));
    Some (cache\<lparr>live_ranges := lrs, stack_ops := resize_list n [] (stack_ops cache), live_ranges_by_instr := by\<rparr>) }"

end
