(* ===== verification/Flow_System.thy ===== *)
theory Flow_System
  imports Main
begin

text \<open>
  The interface of an iterative data-flow analysis: a monotone system of set equations, one per node,
  over a finite universe. Recomputing one node at a time from the empty assignment only grows the
  sets, stays below every solution, and must stop; when a full sweep changes nothing, the assignment
  is the least solution.
\<close>

locale flow_system =
  fixes F :: "nat \<Rightarrow> (nat \<Rightarrow> 'a set) \<Rightarrow> 'a set"
    and U :: "'a set"
  assumes mono: "(\<And>c. f c \<subseteq> g c) \<Longrightarrow> F b f \<subseteq> F b g"
    and bounded: "(\<And>c. f c \<subseteq> U) \<Longrightarrow> F b f \<subseteq> U"
    and finite_U: "finite U"
begin

definition growing :: "(nat \<Rightarrow> 'a set) \<Rightarrow> bool" where
  "growing f \<longleftrightarrow> (\<forall>b. f b \<subseteq> F b f) \<and> (\<forall>b. f b \<subseteq> U)"

definition recompute :: "nat \<Rightarrow> (nat \<Rightarrow> 'a set) \<Rightarrow> nat \<Rightarrow> 'a set" where
  "recompute b f = f(b := F b f)"

definition slack :: "nat \<Rightarrow> (nat \<Rightarrow> 'a set) \<Rightarrow> nat" where
  "slack n f = (\<Sum>b<n. card (U - f b))"

lemma growing_empty: "growing (\<lambda>_. {})"
  by (simp add: growing_def)

lemma growing_bound: "growing f \<Longrightarrow> F b f \<subseteq> U"
  by (rule bounded) (simp add: growing_def)

lemma recompute_above: "growing f \<Longrightarrow> f c \<subseteq> recompute b f c"
  by (auto simp: growing_def recompute_def)

lemma growing_recompute:
  assumes "growing f"
  shows "growing (recompute b f)"
proof -
  have "F c f \<subseteq> F c (recompute b f)" for c by (rule mono) (rule recompute_above [OF assms])
  then have "recompute b f c \<subseteq> F c (recompute b f)" for c
    using assms by (cases "c = b") (auto simp: growing_def recompute_def)
  moreover have "recompute b f c \<subseteq> U" for c
    using assms growing_bound [OF assms] by (auto simp: growing_def recompute_def)
  ultimately show ?thesis by (simp add: growing_def)
qed

lemma recompute_below:
  assumes "\<And>c. f c \<subseteq> g c" "F b g \<subseteq> g b"
  shows "recompute b f c \<subseteq> g c"
proof -
  have "F b f \<subseteq> F b g" by (rule mono) (rule assms(1))
  then show ?thesis using assms(1) [of c] assms(2) by (cases "c = b") (auto simp: recompute_def)
qed

lemma slack_mono:
  assumes "\<And>c. f c \<subseteq> g c"
  shows "slack n g \<le> slack n f"
  unfolding slack_def by (intro sum_mono card_mono) (use assms finite_U in auto)

lemma slack_strict:
  assumes "\<And>c. f c \<subseteq> g c" "b < n" "f b \<noteq> g b" "g b \<subseteq> U"
  shows "slack n g < slack n f"
  unfolding slack_def
proof (rule sum_strict_mono_ex1)
  show "\<forall>c \<in> {..<n}. card (U - g c) \<le> card (U - f c)"
    using assms(1) finite_U by (auto intro!: card_mono)
  have "U - g b \<subset> U - f b" using assms(1) [of b] assms(3,4) by blast
  then show "\<exists>c \<in> {..<n}. card (U - g c) < card (U - f c)"
    using assms(2) finite_U by (auto intro!: psubset_card_mono bexI [of _ b])
qed simp

definition sweep :: "nat list \<Rightarrow> (nat \<Rightarrow> 'a set) \<Rightarrow> nat \<Rightarrow> 'a set" where
  "sweep bs f = fold recompute bs f"

lemma sweep_simps [simp]: "sweep [] f = f" "sweep (b # bs) f = sweep bs (recompute b f)"
  by (simp_all add: sweep_def)

lemma sweep_growing: "growing f \<Longrightarrow> growing (sweep bs f)"
  by (induction bs arbitrary: f) (simp_all add: growing_recompute)

lemma sweep_above: "growing f \<Longrightarrow> f c \<subseteq> sweep bs f c"
proof (induction bs arbitrary: f)
  case (Cons b bs)
  show ?case using Cons.IH [OF growing_recompute [OF Cons.prems]] recompute_above [OF Cons.prems] by fastforce
qed simp

lemma sweep_below: "(\<And>c. f c \<subseteq> g c) \<Longrightarrow> (\<And>b. b \<in> set bs \<Longrightarrow> F b g \<subseteq> g b) \<Longrightarrow> sweep bs f c \<subseteq> g c"
proof (induction bs arbitrary: f)
  case (Cons b bs)
  have "recompute b f d \<subseteq> g d" for d by (rule recompute_below) (use Cons.prems in auto)
  then show ?case using Cons.IH [of "recompute b f"] Cons.prems by simp
qed simp

lemma sweep_unchanged:
  assumes "growing f" "sweep bs f = f" "b \<in> set bs"
  shows "F b f = f b"
  using assms
proof (induction bs)
  case (Cons a bs)
  have "recompute a f c \<subseteq> f c" for c
    using sweep_above [OF growing_recompute [OF Cons.prems(1)], of a c bs] Cons.prems(2) by simp
  then have same: "recompute a f = f" using recompute_above [OF Cons.prems(1)] by blast
  then have "F a f = f a" by (metis fun_upd_same recompute_def)
  with same show ?case using Cons by auto
qed simp

lemma sweep_outside: "b \<notin> set bs \<Longrightarrow> sweep bs f b = f b"
  by (induction bs arbitrary: f) (auto simp: recompute_def)

lemma sweep_slack:
  assumes "growing f" "sweep bs f \<noteq> f" "set bs \<subseteq> {..<n}"
  shows "slack n (sweep bs f) < slack n f"
proof -
  obtain b where b: "sweep bs f b \<noteq> f b" using assms(2) by blast
  then have "b < n" using sweep_outside [of b bs f] assms(3) by blast
  moreover have "sweep bs f b \<subseteq> U" using sweep_growing [OF assms(1)] by (simp add: growing_def)
  ultimately show ?thesis
    using b sweep_above [OF assms(1)] by (intro slack_strict [where b = b]) auto
qed

end

end
