(* ===== verification/Live_Phases.thy ===== *)
theory Live_Phases
  imports Liveness Flow_System
begin

text \<open>
  The three liveness passes as set equations: phase 1 composes the transfer functions of a block's
  instructions, a step of phase 2 recomputes one node of a \<open>flow_system\<close>, and phase 3 unrolls the
  block again. The views forget the representation of the sets.
\<close>

section \<open>Transfer functions\<close>

definition rd :: "RegAllocInstr \<Rightarrow> nat set" where
  "rd i = (\<lambda>x. nat (ireg_id x)) ` set (ri_read i)"

definition wr :: "RegAllocInstr \<Rightarrow> nat set" where
  "wr i = (\<lambda>x. nat (ireg_id x)) ` set (ri_write i)"

definition tr :: "RegAllocInstr \<Rightarrow> nat set \<Rightarrow> nat set" where
  "tr i X = rd i \<union> (X - wr i)"

abbreviation back_code :: "RegAllocInstr list \<Rightarrow> nat set \<Rightarrow> nat set" where
  "back_code ins X \<equiv> foldr tr ins X"

definition code_of :: "RegAllocInstr list \<Rightarrow> RegAllocBasicBlock \<Rightarrow> RegAllocInstr list" where
  "code_of instrs b = map (\<lambda>i. instrs ! nat i) (instr_idx b)"

definition block_ok :: "RegAllocBasicBlock \<Rightarrow> bool" where
  "block_ok b \<longleftrightarrow>
    rs_ok (use_set b) \<and> rs_ok (defs_set b) \<and> rs_ok (input_set b) \<and> rs_ok (output_set b) \<and>
    list_all rs_ok (live b) \<and> list_all rs_ok (dead b) \<and>
    length (live b) = length (instr_idx b) \<and> length (dead b) = length (instr_idx b)"

definition in_code :: "RegAllocInstr list \<Rightarrow> RegAllocBasicBlock \<Rightarrow> bool" where
  "in_code instrs b \<longleftrightarrow> (\<forall>i \<in> set (instr_idx b). 0 \<le> i \<and> i < int (length instrs))"

lemma list_all_update: "list_all P xs \<Longrightarrow> P x \<Longrightarrow> list_all P (xs[i := x])"
  by (auto simp: list_all_iff dest!: subsetD [OF set_update_subset_insert])

section \<open>Phase 1\<close>

lemma fold_insert_ireg:
  "rs_ok s \<Longrightarrow> rs_ok (fold insert_ireg xs s) \<and>
     members (fold insert_ireg xs s) = members s \<union> (\<lambda>x. nat (ireg_id x)) ` set xs"
  by (induction xs arbitrary: s) (auto simp: insert_ireg_def)

lemma fold_kill_written:
  assumes "rs_ok lv" "rs_ok dd" "fold kill_written xs (lv, dd) = (lv', dd')"
  shows "rs_ok lv' \<and> rs_ok dd' \<and> members lv' = members lv \<and>
    members dd' = members dd \<union> ((\<lambda>x. nat (ireg_id x)) ` set xs - members lv)"
  using assms
proof (induction xs arbitrary: lv dd)
  case (Cons x xs)
  obtain r lv1 where r: "rs_index (nat (ireg_id x)) lv = (r, lv1)" by fastforce
  have i: "r \<longleftrightarrow> nat (ireg_id x) \<in> members lv" "rs_ok lv1" "members lv1 = members lv"
    using rs_index_ok [OF Cons.prems(1), of "nat (ireg_id x)"] by (simp_all add: r)
  have "fold kill_written xs (lv1, if \<not> r then insert_ireg x dd else dd) = (lv', dd')"
    using Cons.prems(3) kill_written_def [of x "(lv, dd)"] by (simp add: r)
  from Cons.IH [OF i(2) _ this] show ?case
    using i Cons.prems(2) by (auto simp: insert_ireg_def split: if_splits)
qed simp

lemma phase1_step_Some:
  assumes ok: "block_ok b" "in_code instrs b" "i < length (instr_idx b)"
  defines "ins \<equiv> code_of instrs b ! i"
  obtains b' where "phase1_step instrs i b = Some b'" "block_ok b'"
    "instr_idx b' = instr_idx b" "succ_of b' = succ_of b" "input_set b' = input_set b" "output_set b' = output_set b"
    "members (use_set b') = (members (use_set b) - (wr ins - rd ins)) \<union> rd ins"
    "members (defs_set b') = (members (defs_set b) - rd ins) \<union> (wr ins - rd ins)"
    "map members (live b') = (map members (live b))[i := rd ins]"
    "map members (dead b') = (map members (dead b))[i := wr ins - rd ins]"
proof -
  have ii: "0 \<le> instr_idx b ! i" "nat (instr_idx b ! i) < length instrs"
    using ok(2,3) by (auto simp: in_code_def all_set_conv_all_nth nat_less_iff)
  have ins: "instrs ! nat (instr_idx b ! i) = ins" using ok(3) by (simp add: ins_def code_of_def)
  have len: "i < length (live b)" "i < length (dead b)" using ok by (simp_all add: block_ok_def)
  have sets: "rs_ok (live b ! i)" "rs_ok (dead b ! i)" "rs_ok (use_set b)" "rs_ok (defs_set b)"
    using ok len by (simp_all add: block_ok_def list_all_length)
  define lv where "lv = fold insert_ireg (ri_read ins) (rs_clear (live b ! i))"
  have lv: "rs_ok lv" "members lv = rd ins"
    using fold_insert_ireg [of "rs_clear (live b ! i)" "ri_read ins"] sets by (simp_all add: lv_def rd_def)
  obtain lv1 dd1 where k: "fold kill_written (ri_write ins) (lv, rs_clear (dead b ! i)) = (lv1, dd1)" by fastforce
  have d: "rs_ok lv1" "rs_ok dd1" "members lv1 = rd ins" "members dd1 = wr ins - rd ins"
    using fold_kill_written [OF lv(1) _ k] sets lv(2) by (simp_all add: wr_def)
  obtain us2 dd2 where s2: "bitwise_and_not (use_set b) dd1 = (us2, dd2)" by fastforce
  obtain us3 lv3 where s3: "bitwise_or us2 lv1 = (us3, lv3)" by fastforce
  obtain df4 lv4 where s4: "bitwise_and_not (defs_set b) lv3 = (df4, lv4)" by fastforce
  obtain df5 dd5 where s5: "bitwise_or df4 dd2 = (df5, dd5)" by fastforce
  have m2: "rs_ok us2" "rs_ok dd2" "members us2 = members (use_set b) - members dd1" "members dd2 = members dd1"
    using bitwise_ok [OF sets(3) d(2)] by (simp_all add: s2)
  have m3: "rs_ok us3" "rs_ok lv3" "members us3 = members us2 \<union> members lv1" "members lv3 = members lv1"
    using bitwise_ok [OF m2(1) d(1)] by (simp_all add: s3)
  have m4: "rs_ok df4" "rs_ok lv4" "members df4 = members (defs_set b) - members lv3" "members lv4 = members lv3"
    using bitwise_ok [OF sets(4) m3(2)] by (simp_all add: s4)
  have m5: "rs_ok df5" "rs_ok dd5" "members df5 = members df4 \<union> members dd2" "members dd5 = members dd2"
    using bitwise_ok [OF m4(1) m2(2)] by (simp_all add: s5)
  define b' where "b' = b\<lparr>live := (live b)[i := lv4], dead := (dead b)[i := dd5], use_set := us3, defs_set := df5\<rparr>"
  have arr: "array_at (instr_idx b) (int i) = Some (instr_idx b ! i)" "array_at instrs (instr_idx b ! i) = Some ins"
    "array_at (live b) (int i) = Some (live b ! i)" "array_at (dead b) (int i) = Some (dead b ! i)"
    using ok(3) ii len ins by simp_all
  have "phase1_step instrs i b = Some b'"
    by (simp only: phase1_step_def arr bind.bind_lunit Let_def lv_def [symmetric] k s2 s3 s4 s5 prod.case b'_def)
  moreover have "block_ok b'"
    using ok(1) m3(1) m4(2) m5(1,2) by (simp add: block_ok_def b'_def list_all_update)
  ultimately show ?thesis
    by (rule that) (simp_all add: b'_def map_update m2 m3 m4 m5 d)
qed

text \<open>What phase 1 has established when the instructions from number \<open>k\<close> on have been done.\<close>

definition done_from :: "RegAllocInstr list \<Rightarrow> nat \<Rightarrow> RegAllocBasicBlock \<Rightarrow> bool" where
  "done_from instrs k b \<longleftrightarrow>
    (\<forall>X. members (use_set b) \<union> (X - members (defs_set b)) = back_code (drop k (code_of instrs b)) X) \<and>
    (\<forall>j < length (instr_idx b). k \<le> j \<longrightarrow>
       members (live b ! j) = rd (code_of instrs b ! j) \<and>
       members (dead b ! j) = wr (code_of instrs b ! j) - rd (code_of instrs b ! j))"

lemma tr_compose: "(u - (w - r)) \<union> r \<union> (X - ((d - r) \<union> (w - r))) = r \<union> ((u \<union> (X - d)) - w)"
  by blast

lemma phase1_from:
  assumes "k \<le> length (instr_idx b)" "block_ok b" "in_code instrs b" "done_from instrs k b"
  shows "\<exists>b'. fold_opt (phase1_step instrs) (rev [0 ..< k]) b = Some b' \<and> block_ok b' \<and> done_from instrs 0 b' \<and>
    instr_idx b' = instr_idx b \<and> succ_of b' = succ_of b \<and> input_set b' = input_set b \<and> output_set b' = output_set b"
  using assms
proof (induction k arbitrary: b)
  case (Suc k)
  let ?c = "code_of instrs b"
  have k: "k < length (instr_idx b)" using Suc.prems(1) by simp
  obtain b1 where b1: "phase1_step instrs k b = Some b1" "block_ok b1"
    "instr_idx b1 = instr_idx b" "succ_of b1 = succ_of b" "input_set b1 = input_set b" "output_set b1 = output_set b"
    "members (use_set b1) = (members (use_set b) - (wr (?c ! k) - rd (?c ! k))) \<union> rd (?c ! k)"
    "members (defs_set b1) = (members (defs_set b) - rd (?c ! k)) \<union> (wr (?c ! k) - rd (?c ! k))"
    "map members (live b1) = (map members (live b))[k := rd (?c ! k)]"
    "map members (dead b1) = (map members (dead b))[k := wr (?c ! k) - rd (?c ! k)]"
    using phase1_step_Some [OF Suc.prems(2,3) k] by metis
  have c: "code_of instrs b1 = ?c" using b1(3) by (simp add: code_of_def)
  have lens: "length (live b1) = length (instr_idx b)" "length (dead b1) = length (instr_idx b)"
    "length (live b) = length (instr_idx b)" "length (dead b) = length (instr_idx b)"
    using b1(2,3) Suc.prems(2) by (simp_all add: block_ok_def)
  have drop: "drop k ?c = ?c ! k # drop (Suc k) ?c" 
    using k Cons_nth_drop_Suc [of k ?c] by (simp add: code_of_def)
  have "members (use_set b1) \<union> (X - members (defs_set b1)) = back_code (drop k ?c) X" for X
    using Suc.prems(4) unfolding b1(7,8) tr_compose by (simp add: done_from_def drop tr_def)
  moreover have "members (live b1 ! j) = rd (?c ! j) \<and> members (dead b1 ! j) = wr (?c ! j) - rd (?c ! j)"
    if j: "j < length (instr_idx b)" "k \<le> j" for j
  proof -
    have "members (live b1 ! j) = (map members (live b))[k := rd (?c ! k)] ! j"
      "members (dead b1 ! j) = (map members (dead b))[k := wr (?c ! k) - rd (?c ! k)] ! j"
      using b1(9,10) lens j(1) by (metis nth_map)+
    then show ?thesis
      using j lens Suc.prems(4) by (cases "j = k") (auto simp: done_from_def)
  qed
  ultimately have "done_from instrs k b1" unfolding done_from_def c b1(3) by blast
  moreover have "in_code instrs b1" using Suc.prems(3) b1(3) by (simp add: in_code_def)
  ultimately obtain b' where "fold_opt (phase1_step instrs) (rev [0 ..< k]) b1 = Some b'" "block_ok b'"
    "done_from instrs 0 b'" "instr_idx b' = instr_idx b1" "succ_of b' = succ_of b1"
    "input_set b' = input_set b1" "output_set b' = output_set b1"
    using Suc.IH [of b1] k b1(2,3) by auto
  then show ?case using b1 by simp
qed auto

definition prepared :: "RegAllocBasicBlock \<Rightarrow> bool" where
  "prepared b \<longleftrightarrow> block_ok b \<and> members (use_set b) = {} \<and> members (defs_set b) = {}"

lemma phase1_Some:
  assumes "prepared b" "in_code instrs b"
  obtains b' where "phase1 instrs b = Some b'" "block_ok b'" "done_from instrs 0 b'"
    "instr_idx b' = instr_idx b" "succ_of b' = succ_of b" "input_set b' = input_set b" "output_set b' = output_set b"
proof -
  have "done_from instrs (length (instr_idx b)) b"
    using assms by (auto simp: prepared_def done_from_def code_of_def)
  with phase1_from [OF order_refl _ assms(2)] assms(1) that show thesis
    unfolding phase1_def prepared_def by blast
qed

section \<open>Phase 2\<close>

text \<open>What phase 2 does not change, and what it computes.\<close>

definition view :: "RegAllocBasicBlock \<Rightarrow> int list \<times> int list \<times> IRegSet list \<times> IRegSet list \<times> nat set \<times> nat set" where
  "view b = (instr_idx b, succ_of b, live b, dead b, members (use_set b), members (defs_set b))"

definition flow :: "RegAllocBasicBlock \<Rightarrow> (nat + nat) set" where
  "flow b = Inl ` members (input_set b) \<union> Inr ` members (output_set b)"

definition blocks_ok :: "RegAllocBasicBlock list \<Rightarrow> bool" where
  "blocks_ok bs \<longleftrightarrow> (\<forall>b \<in> set bs. block_ok b \<and> (\<forall>s \<in> set (succ_of b). 0 \<le> s \<and> s < int (length bs)))"

definition inputs_of :: "RegAllocBasicBlock list \<Rightarrow> int list \<Rightarrow> nat set" where
  "inputs_of bs ss = (\<Union>s \<in> set ss. members (input_set (bs ! nat s)))"

lemma flow_eq_iff: "flow b = flow b' \<longleftrightarrow> members (input_set b) = members (input_set b') \<and> members (output_set b) = members (output_set b')"
  unfolding flow_def by blast

lemma blocks_okD:
  assumes "blocks_ok bs" "i < length bs"
  shows "block_ok (bs ! i)" "\<And>s. s \<in> set (succ_of (bs ! i)) \<Longrightarrow> 0 \<le> s \<and> s < int (length bs)"
  using assms by (auto simp: blocks_ok_def)

lemma blocks_ok_update:
  assumes "blocks_ok bs" "i < length bs" "block_ok b" "succ_of b = succ_of (bs ! i)"
  shows "blocks_ok (bs[i := b])"
proof -
  have "block_ok c \<and> (\<forall>s \<in> set (succ_of c). 0 \<le> s \<and> s < int (length bs))" if "c \<in> set (bs[i := b])" for c
    using that assms nth_mem [OF assms(2)] set_update_subset_insert [of bs i b] unfolding blocks_ok_def by (metis insertE subsetD)
  then show ?thesis by (simp add: blocks_ok_def)
qed

lemma map_views_nth:
  "map view bs' = map view bs \<Longrightarrow> i < length bs \<Longrightarrow> view (bs' ! i) = view (bs ! i)"
  by (metis length_map nth_map)

lemma inputs_of_flow:
  assumes "map flow bs' = map flow bs" "\<forall>s \<in> set ss. 0 \<le> s \<and> s < int (length bs)"
  shows "inputs_of bs' ss = inputs_of bs ss"
proof -
  have "members (input_set (bs' ! nat s)) = members (input_set (bs ! nat s))" if "s \<in> set ss" for s
  proof -
    have "nat s < length bs" "length bs' = length bs" using assms that map_eq_imp_length_eq by fastforce+
    then have "flow (bs' ! nat s) = flow (bs ! nat s)" using assms(1) by (metis nth_map)
    then show ?thesis by (simp add: flow_eq_iff)
  qed
  then show ?thesis by (simp add: inputs_of_def)
qed

lemma or_inputs_Some:
  assumes "blocks_ok bs" "rs_ok acc" "\<forall>s \<in> set ss. 0 \<le> s \<and> s < int (length bs)"
  shows "\<exists>acc' bs'. fold_opt or_input ss (acc, bs) = Some (acc', bs') \<and> rs_ok acc' \<and> blocks_ok bs' \<and>
    members acc' = members acc \<union> inputs_of bs ss \<and> map view bs' = map view bs \<and> map flow bs' = map flow bs"
  using assms
proof (induction ss arbitrary: acc bs)
  case (Cons s ss)
  let ?b = "bs ! nat s"
  have s: "0 \<le> s" "nat s < length bs" using Cons.prems(3) by (auto simp: nat_less_iff)
  have b: "block_ok ?b" using blocks_okD [OF Cons.prems(1) s(2)] by simp
  then have inp_ok: "rs_ok (input_set ?b)" by (simp add: block_ok_def)
  obtain acc1 inp1 where o: "bitwise_or acc (input_set ?b) = (acc1, inp1)" by fastforce
  have m: "rs_ok acc1" "rs_ok inp1" "members acc1 = members acc \<union> members (input_set ?b)"
    "members inp1 = members (input_set ?b)"
    using bitwise_ok [OF Cons.prems(2) inp_ok] by (simp_all add: o)
  define bs1 where "bs1 = bs[nat s := ?b\<lparr>input_set := inp1\<rparr>]"
  have a: "array_at bs s = Some ?b" using s by simp
  have step: "or_input s (acc, bs) = Some (acc1, bs1)"
    by (simp add: or_input_def a o bs1_def update_at_def)
  have v: "map view bs1 = map view bs"
    using s by (simp add: bs1_def map_update view_def list_update_same_conv)
  have f: "map flow bs1 = map flow bs"
    using s m by (simp add: bs1_def map_update flow_def list_update_same_conv)
  have ok1: "blocks_ok bs1"
    unfolding bs1_def using b m by (intro blocks_ok_update Cons.prems(1) s(2)) (simp_all add: block_ok_def)
  have len: "length bs1 = length bs" by (simp add: bs1_def)
  obtain acc' bs' where IH: "fold_opt or_input ss (acc1, bs1) = Some (acc', bs')" "rs_ok acc'" "blocks_ok bs'"
    "members acc' = members acc1 \<union> inputs_of bs1 ss" "map view bs' = map view bs1" "map flow bs' = map flow bs1"
    using Cons.IH [OF ok1 m(1)] Cons.prems(3) len by auto
  have "inputs_of bs1 ss = inputs_of bs ss"
    using inputs_of_flow [OF f] Cons.prems(3) by simp
  then have "members acc' = members acc \<union> inputs_of bs (s # ss)"
    using IH(4) m(3) by (auto simp: inputs_of_def)
  then show ?case using step IH v f by simp
qed (simp add: inputs_of_def)

text \<open>The equation of a node, over the views.\<close>

definition new_output :: "RegAllocBasicBlock list \<Rightarrow> nat \<Rightarrow> nat set" where
  "new_output bs i = members (defs_set (bs ! i)) \<union> inputs_of bs (succ_of (bs ! i))"

definition new_input :: "RegAllocBasicBlock list \<Rightarrow> nat \<Rightarrow> nat set" where
  "new_input bs i = members (use_set (bs ! i)) \<union> (new_output bs i - members (defs_set (bs ! i)))"

lemma phase2_Some:
  assumes ok: "blocks_ok bs" and i: "i < length bs"
  obtains c bs' where "phase2 i bs = Some (c, bs')" "blocks_ok bs'" "map view bs' = map view bs"
    "map flow bs' = (map flow bs)[i := Inl ` new_input bs i \<union> Inr ` new_output bs i]"
    "c \<longleftrightarrow> map flow bs' \<noteq> map flow bs"
proof -
  note bi = blocks_okD [OF ok i]
  have "rs_ok (defs_set (bs ! i))" using bi(1) by (simp add: block_ok_def)
  then obtain out bs1 where o: "fold_opt or_input (succ_of (bs ! i)) (defs_set (bs ! i), bs) = Some (out, bs1)"
    "rs_ok out" "blocks_ok bs1" "members out = new_output bs i" "map view bs1 = map view bs" "map flow bs1 = map flow bs"
    using or_inputs_Some [OF ok, of "defs_set (bs ! i)" "succ_of (bs ! i)"] bi(2) unfolding new_output_def by blast
  let ?b = "bs1 ! i"
  have i1: "i < length bs1" using i o(5) map_eq_imp_length_eq by metis
  have b1: "block_ok ?b" using blocks_okD [OF o(3) i1] by simp
  then have s1: "rs_ok (use_set ?b)" "rs_ok (defs_set ?b)" "rs_ok (input_set ?b)" "rs_ok (output_set ?b)"
    by (simp_all add: block_ok_def)
  have v1: "view ?b = view (bs ! i)" using map_views_nth [OF o(5) i] .
  obtain temp df where t: "bitwise_and_not out (defs_set ?b) = (temp, df)" by fastforce
  obtain inp temp' where n: "bitwise_or (use_set ?b) temp = (inp, temp')" by fastforce
  have mt: "rs_ok temp" "rs_ok df" "members temp = members out - members (defs_set ?b)" "members df = members (defs_set ?b)"
    using bitwise_ok [OF o(2) s1(2)] by (simp_all add: t)
  have mi: "rs_ok inp" "members inp = new_input bs i"
    using bitwise_ok [OF s1(1) mt(1)] o(4) mt(3) v1 by (simp_all add: n view_def new_input_def)
  define c where "c = (\<not> rs_equal inp (input_set ?b) \<or> \<not> rs_equal out (output_set ?b))"
  define b' where "b' = (if c then ?b\<lparr>defs_set := df, input_set := inp, output_set := out\<rparr> else ?b\<lparr>defs_set := df\<rparr>)"
  have step: "phase2 i bs = Some (c, bs1[i := b'])"
    unfolding phase2_def o(1) by (simp add: t n Let_def c_def b'_def)
  have fb: "flow b' = Inl ` new_input bs i \<union> Inr ` new_output bs i"
    using mi(2) o(4) by (auto simp: b'_def flow_def c_def rs_equal_members)
  have "flow ?b = flow b' \<longleftrightarrow> \<not> c"
    unfolding flow_eq_iff by (auto simp: b'_def c_def rs_equal_members)
  moreover have "flow ?b = flow (bs ! i)" using o(6) i i1 by (metis nth_map)
  ultimately have c: "c \<longleftrightarrow> map flow (bs1[i := b']) \<noteq> map flow bs"
    using i o(6) by (simp add: map_update list_update_same_conv)
  have vb: "view b' = view ?b" using mt(4) by (simp add: b'_def view_def)
  have "block_ok b'" using b1 mt(2) mi(1) o(2) by (simp add: b'_def block_ok_def)
  moreover have "succ_of b' = succ_of ?b" by (simp add: b'_def)
  ultimately have "blocks_ok (bs1[i := b'])"
    by (intro blocks_ok_update o(3) i1)
  moreover have "map view (bs1[i := b']) = map view bs"
    using vb v1 i o(5) by (simp add: map_update list_update_same_conv)
  moreover have "map flow (bs1[i := b']) = (map flow bs)[i := Inl ` new_input bs i \<union> Inr ` new_output bs i]"
    using fb o(6) by (simp add: map_update)
  ultimately show thesis using that [OF step] c by blast
qed

definition flows :: "RegAllocBasicBlock list \<Rightarrow> nat \<Rightarrow> (nat + nat) set" where
  "flows bs i = (if i < length bs then flow (bs ! i) else {})"

definition eqn :: "RegAllocBasicBlock list \<Rightarrow> nat \<Rightarrow> (nat \<Rightarrow> (nat + nat) set) \<Rightarrow> (nat + nat) set" where
  "eqn bs i f =
    (if i < length bs then
       let inp = (\<Union>s \<in> set (succ_of (bs ! i)). {x. Inl x \<in> f (nat s)});
           out = members (defs_set (bs ! i)) \<union> inp
       in Inl ` (members (use_set (bs ! i)) \<union> (out - members (defs_set (bs ! i)))) \<union> Inr ` out
     else {})"

definition universe :: "RegAllocBasicBlock list \<Rightarrow> (nat + nat) set" where
  "universe bs =
    (let A = (\<Union>b \<in> set bs. members (use_set b) \<union> members (defs_set b)) in Inl ` A \<union> Inr ` A)"

lemma members_below: "members s \<subseteq> {x. x < 64 * length (rs_data s)}"
  by (auto simp: members_def div_less_iff_less_mult mult.commute)

lemma finite_all_members: "finite (members s)"
  by (rule finite_subset [OF members_below]) simp

interpretation liveness: flow_system "eqn bs" "universe bs" for bs
proof (unfold_locales, goal_cases)
  case (1 f g b)
  let ?inp = "\<lambda>f. \<Union>s \<in> set (succ_of (bs ! b)). {x. Inl x \<in> f (nat s)}"
  have "?inp f \<subseteq> ?inp g" using 1 by blast
  then have "Inl ` (U \<union> (D \<union> ?inp f - D)) \<union> Inr ` (D \<union> ?inp f) \<subseteq>
      Inl ` (U \<union> (D \<union> ?inp g - D)) \<union> Inr ` (D \<union> ?inp g)" for U D :: "nat set"
    by (intro Un_mono image_mono Diff_mono order_refl)
  then show ?case by (simp only: eqn_def Let_def split: if_split) blast
next
  case (2 f b)
  let ?A = "\<Union>b \<in> set bs. members (use_set b) \<union> members (defs_set b)"
  let ?inp = "\<Union>s \<in> set (succ_of (bs ! b)). {x. Inl x \<in> f (nat s)}"
  have "?inp \<subseteq> ?A"
  proof
    fix x assume "x \<in> ?inp"
    then obtain c where "Inl x \<in> f c" by blast
    then have "Inl x \<in> universe bs" using 2 by blast
    then show "x \<in> ?A" by (auto simp: universe_def Let_def)
  qed
  moreover have "members (use_set (bs ! b)) \<subseteq> ?A" "members (defs_set (bs ! b)) \<subseteq> ?A" if "b < length bs"
    using nth_mem [OF that] by blast+
  ultimately have "Inl ` (members (use_set (bs ! b)) \<union> (members (defs_set (bs ! b)) \<union> ?inp - members (defs_set (bs ! b)))) \<union>
      Inr ` (members (defs_set (bs ! b)) \<union> ?inp) \<subseteq> Inl ` ?A \<union> Inr ` ?A" if "b < length bs"
    using that by (intro Un_mono image_mono) blast+
  then show ?case by (simp only: eqn_def universe_def Let_def split: if_split) blast
next
  case 3
  show ?case by (auto simp: universe_def Let_def finite_all_members)
qed

lemma eqn_flows: "i < length bs \<Longrightarrow> blocks_ok bs \<Longrightarrow> eqn bs i (flows bs) = Inl ` new_input bs i \<union> Inr ` new_output bs i"
proof -
  assume i: "i < length bs" and ok: "blocks_ok bs"
  have "{x. Inl x \<in> flows bs (nat s)} = members (input_set (bs ! nat s))" if "s \<in> set (succ_of (bs ! i))" for s
    using blocks_okD(2) [OF ok i that] by (auto simp: flows_def flow_def nat_less_iff)
  then have "(\<Union>s \<in> set (succ_of (bs ! i)). {x. Inl x \<in> flows bs (nat s)}) = inputs_of bs (succ_of (bs ! i))"
    by (simp add: inputs_of_def)
  then show ?thesis using i by (simp add: eqn_def new_input_def new_output_def Let_def)
qed

lemma eqn_view:
  assumes "map view bs' = map view bs"
  shows "eqn bs' = eqn bs"
proof (intro ext)
  fix i f
  have len: "length bs' = length bs" using assms map_eq_imp_length_eq by metis
  show "eqn bs' i f = eqn bs i f"
  proof (cases "i < length bs")
    case True
    then have "view (bs' ! i) = view (bs ! i)" using map_views_nth [OF assms] by simp
    then show ?thesis using len by (simp add: eqn_def view_def Let_def)
  qed (simp add: eqn_def len)
qed

lemma universe_view:
  assumes "map view bs' = map view bs"
  shows "universe bs' = universe bs"
proof -
  have u: "(\<Union>b \<in> set xs. members (use_set b) \<union> members (defs_set b)) =
      (\<Union>v \<in> set (map view xs). case v of (_, _, _, _, u, d) \<Rightarrow> u \<union> d)" for xs
    by (simp add: view_def)
  show ?thesis by (simp only: universe_def u assms)
qed

lemma flow_view:
  assumes v: "map view bs' = map view bs"
  shows "liveness.growing bs' = liveness.growing bs" "liveness.sweep bs' = liveness.sweep bs"
    "liveness.slack bs' = liveness.slack bs"
proof -
  note e = eqn_view [OF v] and u = universe_view [OF v]
  show "liveness.growing bs' = liveness.growing bs" by (rule ext) (simp only: liveness.growing_def e u)
  have "liveness.recompute bs' = liveness.recompute bs" by (intro ext) (simp only: liveness.recompute_def e)
  then show "liveness.sweep bs' = liveness.sweep bs" by (intro ext) (simp only: liveness.sweep_def)
  show "liveness.slack bs' = liveness.slack bs" by (intro ext) (simp only: liveness.slack_def u)
qed

lemma map_flow_flows:
  assumes "length bs' = length bs"
  shows "map flow bs' = map flow bs \<longleftrightarrow> flows bs' = flows bs"
    "i < length bs \<Longrightarrow> map flow bs' = (map flow bs)[i := X] \<Longrightarrow> flows bs' = (flows bs)(i := X)"
proof -
  show "map flow bs' = map flow bs \<longleftrightarrow> flows bs' = flows bs"
    using assms by (auto simp: flows_def fun_eq_iff list_eq_iff_nth_eq split: if_splits)
  assume i: "i < length bs" and e: "map flow bs' = (map flow bs)[i := X]"
  have "flow (bs' ! j) = (if j = i then X else flow (bs ! j))" if "j < length bs" for j
    using arg_cong [OF e, of "\<lambda>l. l ! j"] that assms i by simp
  then show "flows bs' = (flows bs)(i := X)" using i assms by (auto simp: flows_def fun_eq_iff)
qed

lemma phase2_pass_from:
  assumes "blocks_ok bs" "set is \<subseteq> {..<length bs}" "liveness.growing bs (flows bs)"
  shows "\<exists>c bs'. fold_opt (\<lambda>i (changed, bs). do { (c, bs) \<leftarrow> phase2 i bs; Some (changed \<or> c, bs) }) is (c0, bs) = Some (c, bs') \<and>
    blocks_ok bs' \<and> map view bs' = map view bs \<and> flows bs' = liveness.sweep bs is (flows bs) \<and>
    (c \<longleftrightarrow> c0 \<or> flows bs' \<noteq> flows bs)"
  using assms
proof (induction "is" arbitrary: bs c0)
  case (Cons i js)
  have i: "i < length bs" using Cons.prems(2) by simp
  obtain c1 bs1 where p: "phase2 i bs = Some (c1, bs1)" "blocks_ok bs1" "map view bs1 = map view bs"
    "map flow bs1 = (map flow bs)[i := Inl ` new_input bs i \<union> Inr ` new_output bs i]" "c1 \<longleftrightarrow> map flow bs1 \<noteq> map flow bs"
    using phase2_Some [OF Cons.prems(1) i] by metis
  have len: "length bs1 = length bs" using p(3) map_eq_imp_length_eq by metis
  have f1: "flows bs1 = liveness.recompute bs i (flows bs)"
    using map_flow_flows(2) [OF len i p(4)] eqn_flows [OF i Cons.prems(1)] by (simp add: liveness.recompute_def)
  have g1: "liveness.growing bs (flows bs1)" unfolding f1 by (rule liveness.growing_recompute [OF Cons.prems(3)])
  then have "liveness.growing bs1 (flows bs1)" using flow_view(1) [OF p(3)] by simp
  then obtain c bs' where q: "fold_opt (\<lambda>i (changed, bs). do { (c, bs) \<leftarrow> phase2 i bs; Some (changed \<or> c, bs) }) js (c0 \<or> c1, bs1) = Some (c, bs')"
    "blocks_ok bs'" "map view bs' = map view bs1" "flows bs' = liveness.sweep bs1 js (flows bs1)"
    "c \<longleftrightarrow> (c0 \<or> c1) \<or> flows bs' \<noteq> flows bs1"
    using Cons.IH [OF p(2), of "c0 \<or> c1"] Cons.prems(2) len by auto
  have fl: "flows bs' = liveness.sweep bs (i # js) (flows bs)"
    using q(4) flow_view(2) [OF p(3)] f1 by simp
  have "flows bs1 c \<subseteq> flows bs' c" "flows bs c \<subseteq> flows bs1 c" for c
    using liveness.sweep_above [OF g1] q(4) flow_view(2) [OF p(3)] liveness.recompute_above [OF Cons.prems(3)] f1 by metis+
  then have "flows bs' = flows bs \<longleftrightarrow> flows bs1 = flows bs \<and> flows bs' = flows bs1"
    by (metis ext subset_antisym)
  moreover have "c1 \<longleftrightarrow> flows bs1 \<noteq> flows bs" using p(5) map_flow_flows(1) [OF len] by simp
  ultimately have "c \<longleftrightarrow> c0 \<or> flows bs' \<noteq> flows bs" using q(5) by blast
  then show ?case using p(1,3) q(1,2,3) fl by simp
qed simp

text \<open>The loop returns, and what it returns is the least solution of the equations.\<close>

lemma phase2_loop_Some:
  assumes "blocks_ok bs" "liveness.growing bs (flows bs)"
  shows "\<exists>bs'. phase2_loop bs = Some bs' \<and> blocks_ok bs' \<and> map view bs' = map view bs \<and>
    (\<forall>i < length bs. eqn bs i (flows bs') = flows bs' i) \<and>
    (\<forall>g. (\<forall>c. flows bs c \<subseteq> g c) \<longrightarrow> (\<forall>i. eqn bs i g \<subseteq> g i) \<longrightarrow> (\<forall>c. flows bs' c \<subseteq> g c))"
  using assms
proof (induction "liveness.slack bs (length bs) (flows bs)" arbitrary: bs rule: less_induct)
  case less
  let ?is = "[0 ..< length bs]"
  obtain c bs1 where p: "phase2_pass bs = Some (c, bs1)" "blocks_ok bs1" "map view bs1 = map view bs"
    "flows bs1 = liveness.sweep bs ?is (flows bs)" "c \<longleftrightarrow> flows bs1 \<noteq> flows bs"
  proof -
    have "set ?is \<subseteq> {..<length bs}" by auto
    from phase2_pass_from [OF less.prems(1) this less.prems(2), of False]
    show ?thesis using that unfolding phase2_pass_def by blast
  qed
  have len: "length bs1 = length bs" using p(3) map_eq_imp_length_eq by metis
  have e: "eqn bs1 = eqn bs" using eqn_view [OF p(3)] .
  have below1: "\<forall>c. flows bs1 c \<subseteq> g c" if "\<forall>c. flows bs c \<subseteq> g c" "\<forall>i. eqn bs i g \<subseteq> g i" for g
    using liveness.sweep_below [of "flows bs" g ?is bs] that p(4) by simp
  show ?case
  proof (cases c)
    case False
    then have "phase2_loop bs = Some bs1" by (simp add: phase2_loop.simps p(1))
    moreover have "eqn bs i (flows bs1) = flows bs1 i" if "i < length bs" for i
      using liveness.sweep_unchanged [OF less.prems(2), of ?is i] that p(4,5) False by simp
    ultimately show ?thesis using p(2,3) below1 by blast
  next
    case True
    then have neq: "liveness.sweep bs ?is (flows bs) \<noteq> flows bs" using p(4,5) by simp
    have "liveness.slack bs (length bs) (flows bs1) < liveness.slack bs (length bs) (flows bs)"
      unfolding p(4) by (rule liveness.sweep_slack [OF less.prems(2) neq]) auto
    moreover note flow_view(3) [OF p(3)]
    moreover have "liveness.growing bs1 (flows bs1)"
      using liveness.sweep_growing [OF less.prems(2), of ?is] p(4) flow_view(1) [OF p(3)] by simp
    ultimately obtain bs' where b: "phase2_loop bs1 = Some bs'" "blocks_ok bs'" "map view bs' = map view bs1"
      "\<forall>i < length bs1. eqn bs1 i (flows bs') = flows bs' i"
      "\<And>g. \<forall>c. flows bs1 c \<subseteq> g c \<Longrightarrow> \<forall>i. eqn bs1 i g \<subseteq> g i \<Longrightarrow> \<forall>c. flows bs' c \<subseteq> g c"
      using less.hyps [of bs1] p(2) len by auto
    have "phase2_loop bs = Some bs'" using True b(1) by (subst phase2_loop.simps) (simp add: p(1))
    then show ?thesis using b(2-5) p(3) e len below1 by (intro exI [of _ bs']) simp
  qed
qed

section \<open>Phase 3\<close>

definition phase1_at :: "RegAllocInstr list \<Rightarrow> RegAllocBasicBlock \<Rightarrow> nat \<Rightarrow> bool" where
  "phase1_at instrs b j \<longleftrightarrow>
    members (live b ! j) = rd (code_of instrs b ! j) \<and>
    members (dead b ! j) = wr (code_of instrs b ! j) - rd (code_of instrs b ! j)"

definition statics :: "RegAllocBasicBlock \<Rightarrow> int list \<times> int list \<times> IRegSet \<times> IRegSet \<times> IRegSet \<times> IRegSet" where
  "statics b = (instr_idx b, succ_of b, use_set b, defs_set b, input_set b, output_set b)"

lemma done_from_phase1_at: "done_from instrs 0 b \<Longrightarrow> j < length (instr_idx b) \<Longrightarrow> phase1_at instrs b j"
  by (simp add: done_from_def phase1_at_def)

lemma phase3_step_Some:
  assumes "block_ok b" "rs_ok X" "k < length (instr_idx b)" "phase1_at instrs b k"
  obtains X' b' where "phase3_step k (X, b) = Some (X', b')" "block_ok b'" "rs_ok X'" "statics b' = statics b"
    "members X' = tr (code_of instrs b ! k) (members X)" "live b' = (live b)[k := X]"
    "\<And>j. members (dead b' ! j) = members (dead b ! j)"
proof -
  have len: "k < length (live b)" "k < length (dead b)" using assms by (simp_all add: block_ok_def)
  have ok: "rs_ok (live b ! k)" "rs_ok (dead b ! k)"
    using assms(1) len by (simp_all add: block_ok_def list_all_length)
  obtain n1 dd where n1: "bitwise_and_not X (dead b ! k) = (n1, dd)" by fastforce
  obtain n2 lv where n2: "bitwise_or n1 (live b ! k) = (n2, lv)" by fastforce
  have m1: "rs_ok n1" "rs_ok dd" "members n1 = members X - members (dead b ! k)" "members dd = members (dead b ! k)"
    using bitwise_ok [OF assms(2) ok(2)] by (simp_all add: n1)
  have m2: "rs_ok n2" "members n2 = members n1 \<union> members (live b ! k)"
    using bitwise_ok [OF m1(1) ok(1)] by (simp_all add: n2)
  define b' where "b' = b\<lparr>live := (live b)[k := X], dead := (dead b)[k := dd]\<rparr>"
  have "phase3_step k (X, b) = Some (n2, b')"
    using len by (simp add: phase3_step_def n1 n2 b'_def)
  moreover have "members n2 = tr (code_of instrs b ! k) (members X)"
    using assms(4) by (auto simp: m1 m2 phase1_at_def tr_def)
  moreover have "block_ok b'"
    using assms(1,2) m1(2) by (simp add: block_ok_def b'_def list_all_update)
  moreover have "members (dead b' ! j) = members (dead b ! j)" for j
    using m1(4) len by (cases "j = k") (simp_all add: b'_def)
  ultimately show thesis using m2(1) by (intro that [of n2 b']) (simp_all add: b'_def statics_def)
qed

lemma phase3_from:
  assumes "k \<le> length (instr_idx b)" "block_ok b" "rs_ok X" "\<forall>j < k. phase1_at instrs b j"
  shows "\<exists>X' b'. fold_opt phase3_step (rev [0 ..< k]) (X, b) = Some (X', b') \<and> block_ok b' \<and> statics b' = statics b \<and>
    (\<forall>j < k. members (live b' ! j) = back_code (drop (Suc j) (take k (code_of instrs b))) (members X)) \<and>
    (\<forall>j \<ge> k. live b' ! j = live b ! j)"
  using assms
proof (induction k arbitrary: X b)
  case (Suc k)
  let ?c = "code_of instrs b"
  have k: "k < length (instr_idx b)" using Suc.prems(1) by simp
  obtain X1 b1 where s: "phase3_step k (X, b) = Some (X1, b1)" "block_ok b1" "rs_ok X1" "statics b1 = statics b"
    "members X1 = tr (?c ! k) (members X)" "live b1 = (live b)[k := X]"
    "\<And>j. members (dead b1 ! j) = members (dead b ! j)"
    using phase3_step_Some [OF Suc.prems(2,3) k] Suc.prems(4) by blast
  have c: "code_of instrs b1 = ?c" "length (instr_idx b1) = length (instr_idx b)"
    using s(4) by (simp_all add: code_of_def statics_def)
  have "\<forall>j < k. phase1_at instrs b1 j"
    using Suc.prems(4) s(6,7) c by (simp add: phase1_at_def)
  then obtain X' b' where IH: "fold_opt phase3_step (rev [0 ..< k]) (X1, b1) = Some (X', b')" "block_ok b'"
    "statics b' = statics b1"
    "\<forall>j < k. members (live b' ! j) = back_code (drop (Suc j) (take k ?c)) (members X1)"
    "\<forall>j \<ge> k. live b' ! j = live b1 ! j"
    using Suc.IH [of b1 X1] k s(2,3) c by auto
  have klen: "k < length ?c" "k < length (live b)" using k Suc.prems(2) by (simp_all add: code_of_def block_ok_def)
  have take: "take (Suc k) ?c = take k ?c @ [?c ! k]" using klen by (simp add: take_Suc_conv_app_nth)
  have "members (live b' ! j) = back_code (drop (Suc j) (take (Suc k) ?c)) (members X)" if "j < Suc k" for j
    using that IH(4,5) s(5,6) klen by (cases "j = k") (auto simp: take less_Suc_eq)
  moreover have "live b' ! j = live b ! j" if "j \<ge> Suc k" for j
    using that IH(5) s(6) by simp
  ultimately show ?case using s(1,4) IH(1,2,3) by simp
qed auto

lemma phase3_Some:
  assumes ok: "blocks_ok bs" and i: "i < length bs" and d: "\<forall>j < length (instr_idx (bs ! i)). phase1_at instrs (bs ! i) j"
  obtains bs' where "phase3 i bs = Some bs'" "blocks_ok bs'" "length bs' = length bs" "map flow bs' = map flow bs"
    "\<And>j. j \<noteq> i \<Longrightarrow> j < length bs \<Longrightarrow> view (bs' ! j) = view (bs ! j)"
    "instr_idx (bs' ! i) = instr_idx (bs ! i)" "succ_of (bs' ! i) = succ_of (bs ! i)"
    "\<And>k. k < length (instr_idx (bs ! i)) \<Longrightarrow>
       members (live (bs' ! i) ! k) = back_code (drop (Suc k) (code_of instrs (bs ! i))) (inputs_of bs (succ_of (bs ! i)))"
proof -
  note bi = blocks_okD [OF ok i]
  obtain X bs1 where o: "fold_opt or_input (succ_of (bs ! i)) (rs_empty, bs) = Some (X, bs1)" "rs_ok X" "blocks_ok bs1"
    "members X = inputs_of bs (succ_of (bs ! i))" "map view bs1 = map view bs" "map flow bs1 = map flow bs"
    using or_inputs_Some [OF ok rs_empty_ok(1), of "succ_of (bs ! i)"] bi(2) rs_empty_ok(2) by auto
  have len: "length bs1 = length bs" using o(5) map_eq_imp_length_eq by metis
  have b1: "block_ok (bs1 ! i)" using blocks_okD(1) [OF o(3)] i len by simp
  have v: "view (bs1 ! i) = view (bs ! i)" using map_views_nth [OF o(5) i] .
  have code: "code_of instrs (bs1 ! i) = code_of instrs (bs ! i)" using v by (simp add: view_def code_of_def)
  have "\<forall>j < length (instr_idx (bs1 ! i)). phase1_at instrs (bs1 ! i) j"
    using d v code by (simp add: view_def phase1_at_def)
  then obtain X' b' where p: "fold_opt phase3_step (rev [0 ..< length (instr_idx (bs1 ! i))]) (X, bs1 ! i) = Some (X', b')"
    "block_ok b'" "statics b' = statics (bs1 ! i)"
    "\<forall>j < length (instr_idx (bs1 ! i)). members (live b' ! j) =
       back_code (drop (Suc j) (take (length (instr_idx (bs1 ! i))) (code_of instrs (bs1 ! i)))) (members X)"
    using phase3_from [OF order_refl b1 o(2)] by blast
  have st: "instr_idx b' = instr_idx (bs ! i)" "succ_of b' = succ_of (bs ! i)" "flow b' = flow (bs ! i)"
    using p(3) v nth_map [of i bs1 flow] nth_map [of i bs flow] i len o(6)
    by (simp_all add: statics_def view_def flow_def)
  have "phase3 i bs = Some (bs1[i := b'])"
    by (simp add: phase3_def o(1) p(1))
  moreover have "blocks_ok (bs1[i := b'])"
    using st v i len by (intro blocks_ok_update o(3) p(2)) (simp_all add: view_def)
  moreover have "map flow (bs1[i := b']) = map flow bs"
    using st(3) o(6) i by (simp add: map_update list_update_same_conv)
  moreover have "view (bs1[i := b'] ! j) = view (bs ! j)" if "j \<noteq> i" "j < length bs" for j
    using map_views_nth [OF o(5) that(2)] that(1) by simp
  moreover have "members (live (bs1[i := b'] ! i) ! k) =
      back_code (drop (Suc k) (code_of instrs (bs ! i))) (inputs_of bs (succ_of (bs ! i)))"
    if "k < length (instr_idx (bs ! i))" for k
    using that p(4) v i len o(4) code by (simp add: view_def) (simp add: code_of_def)
  ultimately show thesis using st len i by (intro that [of "bs1[i := b']"]) auto
qed

end
