(* ===== verification/Block_Layout.thy ===== *)
theory Block_Layout
  imports Liveness
begin

text \<open>
  \<^verbatim>\<open>find_basic_blocks\<close> cuts the function into consecutive blocks: a block is entered at its first
  instruction only and left at its last, and its successors are the blocks where control can go.
\<close>

section \<open>Cutting\<close>

definition cut_block :: "nat \<Rightarrow> int \<Rightarrow> int \<Rightarrow> RegAllocBasicBlock" where
  "cut_block k d e = new_block\<lparr>instr_idx := [d .. e - 1], block_idx := int k\<rparr>"

fun cuts :: "nat \<Rightarrow> int list \<Rightarrow> RegAllocBasicBlock list" where
  "cuts k (d # e # ds) = (if d \<noteq> e then cut_block k d e # cuts (Suc k) (e # ds) else cuts k (e # ds))"
| "cuts k _ = []"

lemma make_blocks_cut: "make_blocks ds bs = bs @ cuts (length bs) ds"
  by (induction ds bs rule: make_blocks.induct) (auto simp: cut_block_def)

text \<open>The blocks cover \<open>a\<close> up to \<open>e\<close> in order.\<close>

fun chain :: "int \<Rightarrow> RegAllocBasicBlock list \<Rightarrow> int \<Rightarrow> bool" where
  "chain a [] e \<longleftrightarrow> a = e"
| "chain a (b # bs) e \<longleftrightarrow> (\<exists>m > a. instr_idx b = [a .. m - 1] \<and> chain m bs e)"

lemma chain_cut: "sorted (d # ds) \<Longrightarrow> chain d (cuts k (d # ds)) (last (d # ds))"
proof (induction k "d # ds" arbitrary: d ds rule: cuts.induct)
  case (1 k d e ds)
  then show ?case by (auto simp: cut_block_def intro!: exI [of _ e])
qed simp

lemma chain_le: "chain a bs e \<Longrightarrow> a \<le> e"
  by (induction bs arbitrary: a) fastforce+

lemma chain_nth:
  assumes "chain a bs e" "i < length bs"
  obtains s t where "a \<le> s" "s < t" "t \<le> e" "instr_idx (bs ! i) = [s .. t - 1]"
    "Suc i < length bs \<Longrightarrow> instr_idx (bs ! Suc i) \<noteq> [] \<and> hd (instr_idx (bs ! Suc i)) = t"
    "Suc i = length bs \<Longrightarrow> t = e"
  using assms
proof (induction bs arbitrary: a i thesis)
  case (Cons b bs)
  obtain m where m: "a < m" "instr_idx b = [a .. m - 1]" "chain m bs e" using Cons.prems(2) by auto
  show ?case
  proof (cases i)
    case 0
    have nxt: "instr_idx (bs ! 0) \<noteq> [] \<and> hd (instr_idx (bs ! 0)) = m" if "bs \<noteq> []"
      using that m(3) by (cases bs) (auto simp: upto_rec1)
    show ?thesis
      by (rule Cons.prems(1) [of a m]) (use 0 m chain_le [OF m(3)] nxt in auto)
  next
    case (Suc j)
    obtain s t where "m \<le> s" "s < t" "t \<le> e" "instr_idx (bs ! j) = [s .. t - 1]"
      "Suc j < length bs \<Longrightarrow> instr_idx (bs ! Suc j) \<noteq> [] \<and> hd (instr_idx (bs ! Suc j)) = t"
      "Suc j = length bs \<Longrightarrow> t = e"
      using Cons.IH [OF _ m(3), of j] Cons.prems(3) Suc by auto
    then show ?thesis using m(1) Suc by (intro Cons.prems(1) [of s t]) auto
  qed
qed simp

lemma hd_upto [simp]: "(s :: int) \<le> t \<Longrightarrow> hd [s .. t] = s"
  by (simp add: upto_rec1)

lemma last_upto [simp]: "(s :: int) \<le> t \<Longrightarrow> last [s .. t] = t"
  by (simp add: upto_rec2)

lemma chain_cover:
  assumes "chain a bs e" "a \<le> x" "x < e"
  shows "\<exists>i < length bs. x \<in> set (instr_idx (bs ! i))"
  using assms
proof (induction bs arbitrary: a)
  case (Cons b bs)
  then obtain m where m: "a < m" "instr_idx b = [a .. m - 1]" "chain m bs e" by auto
  show ?case
  proof (cases "x < m")
    case True
    then show ?thesis using m(2) Cons.prems(2) by (intro exI [of _ 0]) simp
  next
    case False
    then obtain i where "i < length bs" "x \<in> set (instr_idx (bs ! i))" using Cons.IH [OF m(3)] Cons.prems(3) by auto
    then show ?thesis by (intro exI [of _ "Suc i"]) simp
  qed
qed simp

lemma chain_heads_less:
  assumes "chain a bs e" "i < j" "j < length bs" "x \<in> set (instr_idx (bs ! i))"
  shows "x < hd (instr_idx (bs ! j))"
  using assms
proof (induction bs arbitrary: a i j)
  case (Cons b bs)
  then obtain m where m: "a < m" "instr_idx b = [a .. m - 1]" "chain m bs e" by auto
  obtain k where k: "j = Suc k" "k < length bs" using Cons.prems(2,3) by (cases j) auto
  show ?case
  proof (cases i)
    case 0
    obtain s t where "m \<le> s" "s < t" "instr_idx (bs ! k) = [s .. t - 1]" using chain_nth [OF m(3) k(2)] by metis
    then show ?thesis using 0 m(2) k(1) Cons.prems(4) by simp
  next
    case (Suc l)
    then show ?thesis using Cons.IH [OF m(3), of l k] Cons.prems k by simp
  qed
qed simp

lemma chain_unique:
  assumes "chain a bs e" "i < length bs" "j < length bs" "x \<in> set (instr_idx (bs ! i))" "x \<in> set (instr_idx (bs ! j))"
  shows "i = j"
proof -
  have ge: "hd (instr_idx (bs ! k)) \<le> x" if "k < length bs" "x \<in> set (instr_idx (bs ! k))" for k
    using chain_nth [OF assms(1) that(1)] that(2) by (metis atLeastAtMost_iff hd_upto linorder_not_less set_upto zle_diff1_eq)
  show ?thesis
    using chain_heads_less [OF assms(1), of i j x] chain_heads_less [OF assms(1), of j i x] ge assms(2-5)
    by (metis linorder_neqE_nat linorder_not_less)
qed

definition cut_clean :: "int list \<Rightarrow> RegAllocBasicBlock \<Rightarrow> bool" where
  "cut_clean ds b \<longleftrightarrow> (\<forall>i \<in> set (instr_idx b). i \<noteq> hd (instr_idx b) \<longrightarrow> i \<notin> set ds)"

lemma cut_ge: "sorted (d # ds) \<Longrightarrow> b \<in> set (cuts k (d # ds)) \<Longrightarrow> i \<in> set (instr_idx b) \<Longrightarrow> d \<le> hd (instr_idx b) \<and> hd (instr_idx b) \<le> i"
proof (induction k "d # ds" arbitrary: d ds rule: cuts.induct)
  case (1 k d e ds)
  show ?case
  proof (cases "d \<noteq> e \<and> b = cut_block k d e")
    case True
    then show ?thesis using 1(3,5) by (auto simp: cut_block_def)
  next
    case False
    then have "e \<le> hd (instr_idx b) \<and> hd (instr_idx b) \<le> i"
      using 1(1,2,3,4,5) by (auto split: if_splits)
    then show ?thesis using 1(3) by auto
  qed
qed simp

lemma cut_clean_cut: "sorted (d # ds) \<Longrightarrow> b \<in> set (cuts k (d # ds)) \<Longrightarrow> cut_clean (d # ds) b"
proof (induction k "d # ds" arbitrary: d ds rule: cuts.induct)
  case (1 k d e ds)
  show ?case
  proof (cases "d \<noteq> e \<and> b = cut_block k d e")
    case True
    then show ?thesis using 1(3) by (auto simp: cut_clean_def cut_block_def)
  next
    case False
    then have b: "b \<in> set (cuts k (e # ds)) \<and> d = e \<or> b \<in> set (cuts (Suc k) (e # ds)) \<and> d \<noteq> e" using 1(4) by (auto split: if_splits)
    then have c: "cut_clean (e # ds) b" using 1(1,2,3) by (cases "d = e") auto
    have "i \<noteq> d" if "i \<in> set (instr_idx b)" "i \<noteq> hd (instr_idx b)" for i
      using b cut_ge [of e ds b _ i] that 1(3) by fastforce
    then show ?thesis using c by (simp add: cut_clean_def)
  qed
qed simp

lemma cut_starts: "sorted (d # ds) \<Longrightarrow> x \<in> set (d # ds) \<Longrightarrow> x < last (d # ds) \<Longrightarrow>
  \<exists>b \<in> set (cuts k (d # ds)). instr_idx b \<noteq> [] \<and> hd (instr_idx b) = x"
proof (induction k "d # ds" arbitrary: d ds rule: cuts.induct)
  case (1 k d e ds)
  show ?case
  proof (cases "d = e")
    case True
    then show ?thesis using 1 by auto
  next
    case False
    show ?thesis
    proof (cases "x = d")
      case True
      then show ?thesis using False 1(3) by (auto simp: cut_block_def upto_rec1)
    next
      case F2: False
      then show ?thesis using 1(1) [OF False] 1(3-5) False by auto
    qed
  qed
qed simp

lemma cut_nth: "i < length (cuts k ds) \<Longrightarrow> \<exists>d e. cuts k ds ! i = cut_block (k + i) d e"
proof (induction k ds arbitrary: i rule: cuts.induct)
  case (1 k d e ds)
  show ?case
  proof (cases "d = e")
    case False
    then show ?thesis using 1(1) [OF False, of "i - 1"] 1(3) by (cases i) auto
  qed (use 1 in simp)
qed auto

section \<open>Linking\<close>

definition core :: "RegAllocBasicBlock \<Rightarrow> RegAllocBasicBlock" where
  "core b = b\<lparr>succ_of := [], pred_of := []\<rparr>"

definition succs :: "RegAllocInstr list \<Rightarrow> RegAllocBasicBlock list \<Rightarrow> nat \<Rightarrow> int list option" where
  "succs instrs bs i = do {
    instr \<leftarrow> array_at instrs (last (instr_idx (bs ! i)));
    ts \<leftarrow> those (map (find_basic_block_to_target bs) (jumps instr));
    Some ((if fallthrough instr \<and> Suc i < length bs then [int i + 1] else []) @ ts) }"

lemma core_fields: "core b = core b' \<Longrightarrow> instr_idx b = instr_idx b' \<and> block_idx b = block_idx b'"
  by (cases b, cases b') (simp add: core_def)

lemma map_core_nth: "map core bs' = map core bs \<Longrightarrow> i < length bs \<Longrightarrow> core (bs' ! i) = core (bs ! i)"
  by (metis length_map nth_map)

lemma find_core:
  assumes "map core bs' = map core bs"
  shows "find_basic_block_to_target bs' = find_basic_block_to_target bs"
proof -
  have len: "length bs' = length bs" using assms map_eq_imp_length_eq by metis
  have "filter (\<lambda>i. instr_idx (bs' ! i) \<noteq> [] \<and> hd (instr_idx (bs' ! i)) = x) [0 ..< length bs'] =
      filter (\<lambda>i. instr_idx (bs ! i) \<noteq> [] \<and> hd (instr_idx (bs ! i)) = x) [0 ..< length bs]" for x
    using core_fields [OF map_core_nth [OF assms]] len by (intro filter_cong) auto
  then show ?thesis by (simp add: fun_eq_iff find_basic_block_to_target_def)
qed

lemma succs_core:
  assumes "map core bs' = map core bs" "i < length bs"
  shows "succs instrs bs' i = succs instrs bs i"
  using core_fields [OF map_core_nth [OF assms]] find_core [OF assms(1)] map_eq_imp_length_eq [OF assms(1)]
  by (simp add: succs_def)

lemma find_range: "find_basic_block_to_target bs x = Some s \<Longrightarrow>
  0 \<le> s \<and> nat s < length bs \<and> instr_idx (bs ! nat s) \<noteq> [] \<and> hd (instr_idx (bs ! nat s)) = x"
proof -
  assume f: "find_basic_block_to_target bs x = Some s"
  then obtain i where i: "filter (\<lambda>i. instr_idx (bs ! i) \<noteq> [] \<and> hd (instr_idx (bs ! i)) = x) [0 ..< length bs] = [i]" "s = int i"
    by (auto simp: find_basic_block_to_target_def split: list.splits)
  then have "i \<in> set (filter (\<lambda>i. instr_idx (bs ! i) \<noteq> [] \<and> hd (instr_idx (bs ! i)) = x) [0 ..< length bs])" by simp
  then show ?thesis using i(2) by simp
qed

lemma map_update_same [simp]: "(map f xs)[i := f (xs ! i)] = map f xs"
  by (metis list_update_id map_update)

definition linked :: "nat \<Rightarrow> int list \<Rightarrow> RegAllocBasicBlock list \<Rightarrow> RegAllocBasicBlock list \<Rightarrow> bool" where
  "linked i ss bs bs' \<longleftrightarrow> map core bs' = map core bs \<and> map succ_of bs' = (map succ_of bs)[i := succ_of (bs ! i) @ ss]"

lemma linked_refl: "i < length bs \<Longrightarrow> linked i [] bs bs"
  by (simp add: linked_def)

lemma linked_trans:
  assumes "linked i ss bs bs1" "linked i ts bs1 bs2" "i < length bs"
  shows "linked i (ss @ ts) bs bs2"
proof -
  have "length bs1 = length bs" using assms(1) map_eq_imp_length_eq unfolding linked_def by metis
  then have "succ_of (bs1 ! i) = succ_of (bs ! i) @ ss"
    using assms(1,3) nth_map [of i bs1 succ_of] by (simp add: linked_def)
  then show ?thesis using assms(1,2) by (simp add: linked_def)
qed

lemma link_to_Some:
  assumes "i < length bs" "0 \<le> s" "nat s < length bs"
  shows "\<exists>bs'. link_to i s bs = Some bs' \<and> linked i [s] bs bs'"
proof -
  let ?b1 = "bs[nat s := add_pred (block_idx (bs ! i)) (bs ! nat s)]"
  have m: "modify_at bs s (add_pred (block_idx (bs ! i))) = Some ?b1"
    using assms by (simp add: modify_at_Some)
  have c: "core (add_pred p b) = core b" "core (add_succ s b) = core b" "succ_of (add_pred p b) = succ_of b" for p b
    by (simp_all add: core_def add_pred_def add_succ_def)
  have s1: "succ_of (?b1 ! i) = succ_of (bs ! i)" "core (?b1 ! i) = core (bs ! i)"
    using assms c by (cases "i = nat s"; simp)+
  have "map core (?b1[i := add_succ s (?b1 ! i)]) = map core bs"
    using assms c s1 by (simp add: map_update list_update_same_conv)
  moreover have "map succ_of (?b1[i := add_succ s (?b1 ! i)]) = (map succ_of bs)[i := succ_of (bs ! i) @ [s]]"
    using assms c s1 by (simp add: map_update list_update_same_conv add_succ_def)
  ultimately show ?thesis by (simp add: link_to_def m linked_def Let_def)
qed

lemma link_targets:
  assumes "i < length bs"
  shows "case those (map (find_basic_block_to_target bs) js) of
      None \<Rightarrow> fold_opt (\<lambda>t bs. do { s \<leftarrow> find_basic_block_to_target bs t; link_to i s bs }) js bs = None
    | Some ts \<Rightarrow> \<exists>bs'. fold_opt (\<lambda>t bs. do { s \<leftarrow> find_basic_block_to_target bs t; link_to i s bs }) js bs = Some bs' \<and>
        linked i ts bs bs'"
  using assms
proof (induction js arbitrary: bs)
  case (Cons j js)
  show ?case
  proof (cases "find_basic_block_to_target bs j")
    case (Some s)
    then obtain bs1 where l: "link_to i s bs = Some bs1" "linked i [s] bs bs1"
      using link_to_Some [OF Cons.prems] find_range by metis
    have "find_basic_block_to_target bs1 = find_basic_block_to_target bs" "i < length bs1"
      using l(2) find_core map_eq_imp_length_eq Cons.prems unfolding linked_def by metis+
    with Cons.IH [of bs1] Some l show ?thesis
      using linked_trans [OF l(2) _ Cons.prems] by (auto split: option.splits)
  qed simp
qed (simp add: linked_refl)

lemma link_block_cases:
  assumes "i < length bs" "block_idx (bs ! i) = int i" "instr_idx (bs ! i) \<noteq> []"
  shows "case succs instrs bs i of
      None \<Rightarrow> link_block instrs i bs = None
    | Some ss \<Rightarrow> \<exists>bs'. link_block instrs i bs = Some bs' \<and> linked i ss bs bs'"
proof (cases "array_at instrs (last (instr_idx (bs ! i)))")
  case None
  then show ?thesis using assms(3) by (simp add: link_block_def succs_def del: array_at_None)
next
  case (Some ins)
  let ?ft = "if fallthrough ins \<and> Suc i < length bs then [int i + 1] else []"
  define step1 where "step1 = (if fallthrough ins then
             let next_idx = block_idx (bs ! i) + 1
             in if next_idx < int (length bs) then link_to i next_idx bs else Some bs
           else Some bs)"
  have "\<exists>bs1. step1 = Some bs1 \<and> linked i ?ft bs bs1"
    using link_to_Some [OF assms(1), of "int i + 1"] linked_refl [OF assms(1)] assms(2)
    by (auto simp: step1_def Let_def nat_add_distrib)
  then obtain bs1 where b1: "step1 = Some bs1" "linked i ?ft bs bs1" by blast
  have f1: "find_basic_block_to_target bs1 = find_basic_block_to_target bs" "i < length bs1"
    using b1(2) find_core map_eq_imp_length_eq assms(1) unfolding linked_def by metis+
  have eq: "link_block instrs i bs = fold_opt (\<lambda>t bs. do { s \<leftarrow> find_basic_block_to_target bs t; link_to i s bs }) (jumps ins) bs1"
    using assms(3) b1(1) by (simp add: link_block_def Some step1_def del: array_at_Some)
  have ss: "succs instrs bs i = map_option ((@) ?ft) (those (map (find_basic_block_to_target bs) (jumps ins)))"
    by (cases "those (map (find_basic_block_to_target bs) (jumps ins))") (simp_all add: succs_def Some del: array_at_Some)
  show ?thesis
    using link_targets [OF f1(2), of "jumps ins"] linked_trans [OF b1(2) _ assms(1)]
    unfolding eq ss f1(1) by (auto split: option.splits)
qed

lemma link_all_cases:
  assumes "k \<le> length bs"
    and fresh: "\<forall>i < length bs. block_idx (bs ! i) = int i \<and> instr_idx (bs ! i) \<noteq> [] \<and> succ_of (bs ! i) = []"
  shows "case fold_opt (link_block instrs) [0 ..< k] bs of
      None \<Rightarrow> \<exists>i < k. succs instrs bs i = None
    | Some bs' \<Rightarrow> map core bs' = map core bs \<and>
        (\<forall>i < length bs. if i < k then succs instrs bs i = Some (succ_of (bs' ! i)) else succ_of (bs' ! i) = [])"
  using assms(1)
proof (induction k)
  case 0
  then show ?case using fresh by simp
next
  case (Suc k)
  show ?case
  proof (cases "fold_opt (link_block instrs) [0 ..< k] bs")
    case None
    then show ?thesis using Suc by (auto simp: fold_opt_append less_Suc_eq)
  next
    case (Some bs1)
    then have IH: "map core bs1 = map core bs"
      "\<And>i. i < length bs \<Longrightarrow> if i < k then succs instrs bs i = Some (succ_of (bs1 ! i)) else succ_of (bs1 ! i) = []"
      using Suc by auto
    have len: "length bs1 = length bs" using IH(1) map_eq_imp_length_eq by metis
    have k: "k < length bs" using Suc.prems by simp
    have s1: "succs instrs bs1 k = succs instrs bs k" by (rule succs_core [OF IH(1) k])
    have "block_idx (bs1 ! k) = int k" "instr_idx (bs1 ! k) \<noteq> []"
      using core_fields [OF map_core_nth [OF IH(1) k]] fresh k by auto
    from link_block_cases [OF _ this, of instrs] k len
    have c: "case succs instrs bs k of
        None \<Rightarrow> link_block instrs k bs1 = None
      | Some ss \<Rightarrow> \<exists>bs'. link_block instrs k bs1 = Some bs' \<and> linked k ss bs1 bs'" using s1 by simp
    show ?thesis
    proof (cases "succs instrs bs k")
      case None
      then show ?thesis using c Some by (auto simp: fold_opt_append)
    next
      case (Some ss)
      then obtain bs' where b: "link_block instrs k bs1 = Some bs'" "linked k ss bs1 bs'" using c by auto
      have "length bs' = length bs" using b(2) len map_eq_imp_length_eq unfolding linked_def by metis
      then have "succ_of (bs' ! i) = (map succ_of bs1)[k := succ_of (bs1 ! k) @ ss] ! i" if "i < length bs" for i
        using b(2) that unfolding linked_def by (metis nth_map)
      then have "if i < Suc k then succs instrs bs i = Some (succ_of (bs' ! i)) else succ_of (bs' ! i) = []"
        if "i < length bs" for i
        using IH(2) [OF that] IH(2) [OF k] that len Some by (cases "i = k") (auto simp: less_Suc_eq)
      moreover have "map core bs' = map core bs" using b(2) IH(1) by (simp add: linked_def)
      ultimately show ?thesis
        using \<open>fold_opt (link_block instrs) [0 ..< k] bs = Some bs1\<close> b(1) by (simp add: fold_opt_append)
    qed
  qed
qed

section \<open>The layout\<close>

definition fresh_block :: "RegAllocBasicBlock \<Rightarrow> bool" where
  "fresh_block b \<longleftrightarrow> live b = [] \<and> dead b = [] \<and> use_set b = rs_empty \<and> defs_set b = rs_empty \<and>
    input_set b = rs_empty \<and> output_set b = rs_empty"

definition layout :: "RegAllocInstr list \<Rightarrow> RegAllocBasicBlock list \<Rightarrow> bool" where
  "layout instrs bs \<longleftrightarrow>
    chain 0 bs (int (length instrs)) \<and>
    (\<forall>b \<in> set bs. fresh_block b \<and> (\<forall>i \<in> set (instr_idx b). i \<noteq> last (instr_idx b) \<longrightarrow> jumps (instrs ! nat i) = [])) \<and>
    (\<forall>i < length bs. succs instrs bs i = Some (succ_of (bs ! i)))"

lemma chain_map: "map instr_idx bs' = map instr_idx bs \<Longrightarrow> chain a bs' e = chain a bs e"
proof (induction bs arbitrary: a bs')
  case (Cons b bs)
  then obtain c cs where bs': "bs' = c # cs" "instr_idx c = instr_idx b" "map instr_idx cs = map instr_idx bs"
    by (cases bs') auto
  show ?case using Cons.IH [OF bs'(3)] bs'(1,2) by simp
qed simp

lemma mark_ends_nth:
  assumes "i < length bs"
  shows "\<exists>x y. mark_ends bs ! i = (bs ! i)\<lparr>is_entry := x, is_exit := y\<rparr>"
proof -
  have same: "b = b\<lparr>is_entry := is_entry b, is_exit := is_exit b\<rparr>" for b :: RegAllocBasicBlock by simp
  let ?m = "\<lambda>i. (bs[0 := (hd bs)\<lparr>is_entry := True\<rparr>]) ! i"
  have ne: "bs \<noteq> []" using assms by auto
  have m: "\<exists>x. ?m j = (bs ! j)\<lparr>is_entry := x, is_exit := is_exit (bs ! j)\<rparr>" if "j < length bs" for j
    using that ne by (cases "j = 0") (auto simp: hd_conv_nth intro: exI [of _ "is_entry (bs ! j)"])
  have last: "last (bs[0 := (hd bs)\<lparr>is_entry := True\<rparr>]) = ?m (length bs - 1)"
    using ne by (simp add: last_conv_nth)
  show ?thesis
  proof (cases "i = length bs - 1")
    case True
    obtain x where "?m i = (bs ! i)\<lparr>is_entry := x, is_exit := is_exit (bs ! i)\<rparr>" using m [OF assms] by blast
    then have "mark_ends bs ! i = (bs ! i)\<lparr>is_entry := x, is_exit := True\<rparr>"
      using True ne assms last by (simp add: mark_ends_def Let_def)
    then show ?thesis by blast
  next
    case False
    then have "mark_ends bs ! i = ?m i" using ne by (simp add: mark_ends_def Let_def)
    then show ?thesis using m [OF assms] by metis
  qed
qed

lemma length_mark_ends [simp]: "length (mark_ends bs) = length bs"
  by (simp add: mark_ends_def Let_def)

definition raw_blocks :: "AllocationInput \<Rightarrow> RegAllocBasicBlock list" where
  "raw_blocks inp = mark_ends (cuts 0 (sort (dividers inp)))"

lemma raw_block_nth:
  assumes "i < length (raw_blocks inp)"
  defines "b \<equiv> raw_blocks inp ! i"
  shows "fresh_block b" "block_idx b = int i" "succ_of b = []" "instr_idx b = instr_idx (cuts 0 (sort (dividers inp)) ! i)"
proof -
  have i: "i < length (cuts 0 (sort (dividers inp)))" using assms(1) by (simp add: raw_blocks_def)
  obtain x y where b: "b = (cuts 0 (sort (dividers inp)) ! i)\<lparr>is_entry := x, is_exit := y\<rparr>"
    using mark_ends_nth [OF i] by (auto simp: b_def raw_blocks_def)
  obtain d e where c: "cuts 0 (sort (dividers inp)) ! i = cut_block i d e" using cut_nth [OF i] by auto
  show "fresh_block b" "block_idx b = int i" "succ_of b = []" "instr_idx b = instr_idx (cuts 0 (sort (dividers inp)) ! i)"
    unfolding b c by (simp_all add: fresh_block_def cut_block_def new_block_def)
qed

lemma set_dividers:
  "set (dividers inp) = {0, int (length (instructions inp))} \<union>
    (\<Union>i < length (instructions inp). if jumps (instructions inp ! i) \<noteq> [] then insert (int i + 1) (set (jumps (instructions inp ! i))) else {})"
proof -
  have "(\<Union>x \<in> set (enumerate 0 xs). f x) = (\<Union>i < length xs. f (i, xs ! i))" for f :: "nat \<times> RegAllocInstr \<Rightarrow> int set" and xs
  proof (intro equalityI subsetI)
    fix y assume "y \<in> (\<Union>i < length xs. f (i, xs ! i))"
    then obtain i where i: "i < length xs" "y \<in> f (i, xs ! i)" by auto
    then have "(i, xs ! i) \<in> set (enumerate 0 xs)" by (simp add: in_set_enumerate_eq)
    then show "y \<in> (\<Union>x \<in> set (enumerate 0 xs). f x)" using i(2) by blast
  qed (auto simp: in_set_enumerate_eq)
  then show ?thesis by (auto simp: dividers_def split: if_splits)
qed

lemma raw_blocks_facts:
  fixes inp :: AllocationInput
  defines "ds \<equiv> sort (dividers inp)"
  shows "chain (hd ds) (raw_blocks inp) (last ds)" "hd ds \<le> 0" "int (length (instructions inp)) \<le> last ds"
    "\<And>b. b \<in> set (raw_blocks inp) \<Longrightarrow> cut_clean ds b"
    "\<And>x. x \<in> set ds \<Longrightarrow> x < last ds \<Longrightarrow> \<exists>i < length (raw_blocks inp). instr_idx (raw_blocks inp ! i) \<noteq> [] \<and> hd (instr_idx (raw_blocks inp ! i)) = x"
proof -
  have "set ds = set (dividers inp)" by (simp add: ds_def)
  then have in_ds: "0 \<in> set ds" "int (length (instructions inp)) \<in> set ds" by (auto simp: set_dividers)
  then obtain d es where ds: "ds = d # es" by (cases ds) auto
  have sorted: "sorted (d # es)" using ds by (simp add: ds_def flip: ds)
  have le_last: "x \<le> last ds" if "x \<in> set ds" for x
    using that sorted ds by (metis in_set_conv_nth last_conv_nth length_pos_if_in_set less_numeral_extra(3) list.size(3) sorted_nth_mono Suc_pred' diff_less less_Suc_eq_le zero_less_one length_greater_0_conv)
  show "hd ds \<le> 0" using in_ds(1) sorted by (auto simp: ds)
  show "int (length (instructions inp)) \<le> last ds" using le_last in_ds(2) by blast
  have len: "length (raw_blocks inp) = length (cuts 0 ds)" by (simp add: raw_blocks_def ds_def)
  have idx: "map instr_idx (raw_blocks inp) = map instr_idx (cuts 0 ds)"
    using raw_block_nth(4) len by (auto simp: list_eq_iff_nth_eq ds_def)
  show "chain (hd ds) (raw_blocks inp) (last ds)"
    using chain_cut [OF sorted, of 0] chain_map [OF idx] by (simp add: ds)
  have nth: "instr_idx (raw_blocks inp ! i) = instr_idx (cuts 0 ds ! i)" if "i < length (raw_blocks inp)" for i
    using raw_block_nth(4) [OF that] by (simp add: ds_def)
  show "cut_clean ds b" if b: "b \<in> set (raw_blocks inp)" for b
  proof -
    obtain i where i: "i < length (raw_blocks inp)" "b = raw_blocks inp ! i" using b by (metis in_set_conv_nth)
    have "i < length (cuts 0 ds)" using i(1) len by simp
    from nth_mem [OF this] have "cut_clean ds (cuts 0 ds ! i)" unfolding ds by (rule cut_clean_cut [OF sorted])
    then show ?thesis using nth [OF i(1)] i(2) by (simp add: cut_clean_def)
  qed
  show "\<exists>i < length (raw_blocks inp). instr_idx (raw_blocks inp ! i) \<noteq> [] \<and> hd (instr_idx (raw_blocks inp ! i)) = x"
    if x: "x \<in> set ds" "x < last ds" for x
  proof -
    obtain b where b: "b \<in> set (cuts 0 ds)" "instr_idx b \<noteq> []" "hd (instr_idx b) = x"
      using cut_starts [OF sorted, of x 0] x unfolding ds by blast
    then obtain i where i: "i < length (cuts 0 ds)" "cuts 0 ds ! i = b" by (meson in_set_conv_nth)
    then show ?thesis using b(2,3) nth [of i] len by (intro exI [of _ i]) simp
  qed
qed

lemma find_basic_blocks_cases:
  assumes "basic_blocks cache = []"
  shows "case find_basic_blocks cache inp of
      None \<Rightarrow> \<exists>i < length (raw_blocks inp). succs (instructions inp) (raw_blocks inp) i = None
    | Some c \<Rightarrow> c = cache\<lparr>basic_blocks := basic_blocks c\<rparr> \<and> map core (basic_blocks c) = map core (raw_blocks inp) \<and>
        (\<forall>i < length (raw_blocks inp). succs (instructions inp) (raw_blocks inp) i = Some (succ_of (basic_blocks c ! i)))"
proof -
  have f: "find_basic_blocks cache inp = do {
      bs \<leftarrow> fold_opt (link_block (instructions inp)) [0 ..< length (raw_blocks inp)] (raw_blocks inp);
      Some (cache\<lparr>basic_blocks := bs\<rparr>) }"
    using assms by (simp add: find_basic_blocks_def make_blocks_cut raw_blocks_def Let_def)
  have "instr_idx (raw_blocks inp ! i) \<noteq> []" if i: "i < length (raw_blocks inp)" for i
  proof -
    obtain s t where "s < t" "instr_idx (raw_blocks inp ! i) = [s .. t - 1]"
      using chain_nth [OF raw_blocks_facts(1) i] by metis
    then show ?thesis by simp
  qed
  then show ?thesis
    using link_all_cases [of "length (raw_blocks inp)" "raw_blocks inp" "instructions inp"] raw_block_nth(2,3)
    unfolding f by (auto split: option.splits)
qed

lemma succs_last: "succs instrs bs i = Some ss \<Longrightarrow> 0 \<le> last (instr_idx (bs ! i)) \<and> last (instr_idx (bs ! i)) < int (length instrs)"
  by (auto simp: succs_def bind_eq_Some_conv nat_less_iff)

text \<open>A divider outside the function makes the function stop at the block that it cuts.\<close>

lemma dividers_inside:
  assumes ok: "\<forall>i < length (raw_blocks inp). succs (instructions inp) (raw_blocks inp) i \<noteq> None"
  shows "chain 0 (raw_blocks inp) (int (length (instructions inp)))"
proof -
  let ?ds = "sort (dividers inp)" and ?n = "int (length (instructions inp))" and ?bs = "raw_blocks inp"
  note facts = raw_blocks_facts [where inp = inp]
  have in_ds: "0 \<in> set ?ds" "?n \<in> set ?ds" by (auto simp: set_dividers)
  have ends: "0 \<le> t - 1" "t - 1 < ?n" if i: "i < length ?bs" "instr_idx (?bs ! i) = [s .. t - 1]" "s < t" for i s t
    using ok i succs_last by fastforce+
  have clean: "x \<notin> set ?ds" if "i < length ?bs" "instr_idx (?bs ! i) = [s .. t - 1]" "s < x" "x < t" for i s t x
    using facts(4) [OF nth_mem [OF that(1)]] that by (auto simp: cut_clean_def)
  have "hd ?ds = 0"
  proof (rule ccontr)
    assume "hd ?ds \<noteq> 0"
    then have neg: "hd ?ds < 0" using facts(2) by simp
    have "?ds \<noteq> []" using in_ds(1) by (metis empty_iff set_empty)
    then have "hd ?ds < last ?ds" "hd ?ds \<in> set ?ds" using facts(3) neg by (simp_all del: sort_key_simps set_sort)
    then obtain i where i: "i < length ?bs" "hd (instr_idx (?bs ! i)) = hd ?ds" using facts(5) by blast
    obtain s t where st: "s < t" "instr_idx (?bs ! i) = [s .. t - 1]" using chain_nth [OF facts(1) i(1)] by metis
    then have "s < 0" using i(2) neg by simp
    then have "\<not> 0 < t" using clean [OF i(1) st(2), of 0] in_ds(1) by blast
    then show False using ends(1) [OF i(1) st(2,1)] by simp
  qed
  moreover have "last ?ds = ?n"
  proof (rule ccontr)
    assume "last ?ds \<noteq> ?n"
    then have "?n < last ?ds" using facts(3) by simp
    then obtain i where i: "i < length ?bs" "hd (instr_idx (?bs ! i)) = ?n" using facts(5) in_ds by blast
    obtain s t where st: "s < t" "instr_idx (?bs ! i) = [s .. t - 1]" using chain_nth [OF facts(1) i(1)] by metis
    then show False using ends(2) [OF i(1) st(2,1)] i(2) by simp
  qed
  ultimately show ?thesis using facts(1) by simp
qed

lemma find_basic_blocks_layout:
  assumes "find_basic_blocks cache inp = Some c" "basic_blocks cache = []"
  shows "layout (instructions inp) (basic_blocks c)" "c = cache\<lparr>basic_blocks := basic_blocks c\<rparr>"
proof -
  let ?bs = "raw_blocks inp" and ?n = "int (length (instructions inp))"
  have c: "c = cache\<lparr>basic_blocks := basic_blocks c\<rparr>" "map core (basic_blocks c) = map core ?bs"
    "\<And>i. i < length ?bs \<Longrightarrow> succs (instructions inp) ?bs i = Some (succ_of (basic_blocks c ! i))"
    using find_basic_blocks_cases [OF assms(2), of inp] assms(1) by auto
  show "c = cache\<lparr>basic_blocks := basic_blocks c\<rparr>" by fact
  have len: "length (basic_blocks c) = length ?bs" using c(2) map_eq_imp_length_eq by metis
  have core: "core (basic_blocks c ! i) = core (?bs ! i)" if "i < length ?bs" for i
    using map_core_nth [OF c(2) that] .
  have idx: "map instr_idx (basic_blocks c) = map instr_idx ?bs"
    using core_fields [OF core] len by (auto simp: list_eq_iff_nth_eq)
  have chain: "chain 0 ?bs ?n" by (rule dividers_inside) (simp add: c(3))
  have fresh: "fresh_block (basic_blocks c ! i)" if "i < length ?bs" for i
    using raw_block_nth(1) [OF that] core [OF that]
    by (cases "basic_blocks c ! i", cases "?bs ! i") (simp add: fresh_block_def core_def)
  have inner: "jumps (instructions inp ! nat x) = []"
    if i: "i < length ?bs" "x \<in> set (instr_idx (?bs ! i))" "x \<noteq> last (instr_idx (?bs ! i))" for i x
  proof (rule ccontr)
    assume j: "jumps (instructions inp ! nat x) \<noteq> []"
    obtain s t where st: "0 \<le> s" "s < t" "t \<le> ?n" "instr_idx (?bs ! i) = [s .. t - 1]"
      using chain_nth [OF chain i(1)] by metis
    then have x: "0 \<le> x" "s \<le> x" "x < t - 1" "nat x < length (instructions inp)" using i(2,3) by auto
    have "x + 1 \<in> set (sort (dividers inp))"
      using j x(1,4) by (auto simp: set_dividers intro!: bexI [of _ "nat x"])
    moreover have "x + 1 \<in> set (instr_idx (?bs ! i))" "x + 1 \<noteq> hd (instr_idx (?bs ! i))" using st(2,4) x by auto
    ultimately show False using raw_blocks_facts(4) [OF nth_mem [OF i(1)]] by (auto simp: cut_clean_def)
  qed
  show "layout (instructions inp) (basic_blocks c)"
    unfolding layout_def
  proof (intro conjI ballI allI impI)
    show "chain 0 (basic_blocks c) ?n" using chain chain_map [OF idx] by simp
  next
    fix b assume "b \<in> set (basic_blocks c)"
    then obtain i where i: "i < length ?bs" "b = basic_blocks c ! i" by (metis in_set_conv_nth len)
    then show "fresh_block b" using fresh by simp
    fix x assume "x \<in> set (instr_idx b)" "x \<noteq> last (instr_idx b)"
    then show "jumps (instructions inp ! nat x) = []"
      using inner [OF i(1)] core_fields [OF core [OF i(1)]] i(2) by simp
  next
    fix i assume "i < length (basic_blocks c)"
    then show "succs (instructions inp) (basic_blocks c) i = Some (succ_of (basic_blocks c ! i))"
      using succs_core [OF c(2)] c(3) len by simp
  qed
qed

definition jumps_inside :: "AllocationInput \<Rightarrow> bool" where
  "jumps_inside inp \<longleftrightarrow>
    (\<forall>ins \<in> set (instructions inp). \<forall>t \<in> set (jumps ins). 0 \<le> t \<and> t < int (length (instructions inp)))"

lemma those_Some: "(\<forall>x \<in> set xs. f x \<noteq> None) \<Longrightarrow> \<exists>ys. those (map f xs) = Some ys"
  by (induction xs) auto

lemma find_start:
  assumes "chain a bs e" "i < length bs" "instr_idx (bs ! i) \<noteq> []"
  shows "find_basic_block_to_target bs (hd (instr_idx (bs ! i))) = Some (int i)"
proof -
  have "j = i" if "j < length bs" "instr_idx (bs ! j) \<noteq> []" "hd (instr_idx (bs ! j)) = hd (instr_idx (bs ! i))" for j
    using chain_unique [OF assms(1) that(1) assms(2), of "hd (instr_idx (bs ! j))"] that(2,3) assms(3)
    by (metis list.set_sel(1))
  then have "filter (\<lambda>j. instr_idx (bs ! j) \<noteq> [] \<and> hd (instr_idx (bs ! j)) = hd (instr_idx (bs ! i))) [0 ..< length bs] =
      filter (\<lambda>j. j = i) [0 ..< length bs]"
    using assms(3) by (intro filter_cong) auto
  moreover have "filter (\<lambda>j. j = i) [0 ..< n] = (if i < n then [i] else [])" for n
    by (induction n) auto
  ultimately show ?thesis using assms(2) by (simp add: find_basic_block_to_target_def)
qed

lemma find_basic_blocks_total:
  assumes "jumps_inside inp" "basic_blocks cache = []"
  shows "\<exists>c. find_basic_blocks cache inp = Some c"
proof -
  let ?bs = "raw_blocks inp" and ?ds = "sort (dividers inp)" and ?n = "int (length (instructions inp))"
  note facts = raw_blocks_facts [where inp = inp]
  have range: "0 \<le> x \<and> x \<le> ?n" if "x \<in> set ?ds" for x
  proof -
    have "0 \<le> t \<and> t < ?n" if "i < length (instructions inp)" "t \<in> set (jumps (instructions inp ! i))" for i t
      using assms(1) nth_mem [OF that(1)] that(2) by (simp add: jumps_inside_def)
    then show ?thesis using that by (fastforce simp: set_dividers split: if_splits)
  qed
  have "0 \<in> set ?ds" by (simp add: set_dividers)
  then have ne: "?ds \<noteq> []" by (metis empty_iff set_empty)
  have e: "hd ?ds = 0" "last ?ds = ?n"
    using range [OF hd_in_set [OF ne]] range [OF last_in_set [OF ne]] facts(2,3) by linarith+
  then have chain: "chain 0 ?bs ?n" using facts(1) by simp
  have "succs (instructions inp) ?bs i \<noteq> None" if i: "i < length ?bs" for i
  proof -
    obtain s t where st: "0 \<le> s" "s < t" "t \<le> ?n" "instr_idx (?bs ! i) = [s .. t - 1]"
      using chain_nth [OF chain i] by metis
    then have arr: "array_at (instructions inp) (last (instr_idx (?bs ! i))) = Some (instructions inp ! nat (t - 1))" by auto
    have "find_basic_block_to_target ?bs x \<noteq> None" if x: "x \<in> set (jumps (instructions inp ! nat (t - 1)))" for x
    proof -
      have l: "nat (t - 1) < length (instructions inp)" using st by simp
      then have "x \<in> set ?ds" using x by (auto simp: set_dividers intro!: bexI [of _ "nat (t - 1)"])
      moreover have "x < ?n" using assms(1) nth_mem [OF l] x by (simp add: jumps_inside_def)
      ultimately obtain k where "k < length ?bs" "instr_idx (?bs ! k) \<noteq> []" "hd (instr_idx (?bs ! k)) = x"
        using facts(5) e(2) by metis
      then show ?thesis using find_start [OF chain] by fastforce
    qed
    then obtain ts where "those (map (find_basic_block_to_target ?bs) (jumps (instructions inp ! nat (t - 1)))) = Some ts"
      using those_Some by metis
    then show ?thesis by (simp add: succs_def arr del: array_at_Some)
  qed
  then show ?thesis using find_basic_blocks_cases [OF assms(2), of inp] by (fastforce split: option.splits)
qed

end
