(* ===== verification/Live_Correct.thy ===== *)
theory Live_Correct
  imports Live_Phases Block_Layout
begin

text \<open>
  What the liveness analysis computes: a variable is in the set of an instruction exactly when some
  path from behind the instruction reads it before it is written.
\<close>

section \<open>Liveness along paths\<close>

definition flows_to :: "RegAllocInstr list \<Rightarrow> nat \<Rightarrow> nat \<Rightarrow> bool" where
  "flows_to instrs i j \<longleftrightarrow>
    j < length instrs \<and> ((fallthrough (instrs ! i) \<and> j = Suc i) \<or> int j \<in> set (jumps (instrs ! i)))"

inductive live_in :: "RegAllocInstr list \<Rightarrow> int \<Rightarrow> nat \<Rightarrow> bool" for instrs v where
  read: "i < length instrs \<Longrightarrow> reads (instrs ! i) v \<Longrightarrow> live_in instrs v i"
| pass: "i < length instrs \<Longrightarrow> \<not> writes (instrs ! i) v \<Longrightarrow> flows_to instrs i j \<Longrightarrow> live_in instrs v j \<Longrightarrow> live_in instrs v i"

inductive_cases live_inE: "live_in instrs v i"

definition live_out :: "RegAllocInstr list \<Rightarrow> int \<Rightarrow> nat \<Rightarrow> bool" where
  "live_out instrs v i \<longleftrightarrow> (\<exists>j. flows_to instrs i j \<and> live_in instrs v j)"

text \<open>The compiler only drops the fall-through edge of an instruction that jumps.\<close>

definition jumps_or_falls :: "RegAllocInstr list \<Rightarrow> bool" where
  "jumps_or_falls instrs \<longleftrightarrow> (\<forall>ins \<in> set instrs. fallthrough ins \<or> jumps ins \<noteq> [])"

definition ids_below :: "int \<Rightarrow> RegAllocInstr list \<Rightarrow> bool" where
  "ids_below m instrs \<longleftrightarrow>
    (\<forall>ins \<in> set instrs. \<forall>x \<in> set (ri_read ins) \<union> set (ri_write ins). 0 \<le> ireg_id x \<and> ireg_id x < m)"

lemma rd_wr:
  assumes "ids_below m instrs" "i < length instrs"
  shows "v \<in> rd (instrs ! i) \<longleftrightarrow> reads (instrs ! i) (int v)" "v \<in> wr (instrs ! i) \<longleftrightarrow> writes (instrs ! i) (int v)"
  using assms nth_mem [OF assms(2)]
  by (force simp: ids_below_def rd_def wr_def reads_def writes_def list_ex_iff image_iff)+

lemma live_in_unfold:
  assumes "i < length instrs"
  shows "live_in instrs v i \<longleftrightarrow> reads (instrs ! i) v \<or> (\<not> writes (instrs ! i) v \<and> live_out instrs v i)"
  using assms by (auto simp: live_out_def intro: live_in.intros elim: live_inE)

section \<open>Control flow between the blocks\<close>

lemma those_set: "those (map f xs) = Some ys \<Longrightarrow> set (map Some ys) = f ` set xs"
proof (induction xs arbitrary: ys)
  case (Cons x xs)
  then obtain y zs where "f x = Some y" "those (map f xs) = Some zs" "ys = y # zs" by (auto split: option.splits)
  then show ?case using Cons.IH by simp
qed simp

lemma succs_Some:
  assumes "succs instrs bs b = Some ss"
  obtains ins ts where "array_at instrs (last (instr_idx (bs ! b))) = Some ins"
    "those (map (find_basic_block_to_target bs) (jumps ins)) = Some ts"
    "ss = (if fallthrough ins \<and> Suc b < length bs then [int b + 1] else []) @ ts"
proof -
  obtain ins where i: "array_at instrs (last (instr_idx (bs ! b))) = Some ins"
    using assms unfolding succs_def by (cases "array_at instrs (last (instr_idx (bs ! b)))") (simp_all del: array_at_None)
  obtain ts where "those (map (find_basic_block_to_target bs) (jumps ins)) = Some ts"
    using assms unfolding succs_def i by (cases "those (map (find_basic_block_to_target bs) (jumps ins))") simp_all
  then show thesis using that [OF i] assms unfolding succs_def i by simp
qed

lemma layout_block:
  assumes "layout instrs bs" "b < length bs"
  obtains s t where "s < t" "t \<le> length instrs" "instr_idx (bs ! b) = [int s .. int t - 1]"
    "Suc b < length bs \<Longrightarrow> hd (instr_idx (bs ! Suc b)) = int t" "Suc b = length bs \<Longrightarrow> t = length instrs"
proof -
  obtain s t where "0 \<le> s" "s < t" "t \<le> int (length instrs)" "instr_idx (bs ! b) = [s .. t - 1]"
    "Suc b < length bs \<Longrightarrow> instr_idx (bs ! Suc b) \<noteq> [] \<and> hd (instr_idx (bs ! Suc b)) = t"
    "Suc b = length bs \<Longrightarrow> t = int (length instrs)"
    using assms chain_nth [of 0 bs "int (length instrs)" b] unfolding layout_def by metis
  then show thesis using that [of "nat s" "nat t"] by simp
qed

lemma nth_upto: "k < nat (t - s) \<Longrightarrow> [s .. t - 1] ! k = s + int k"
  by (rule nth_upto) simp

lemma flows_inside:
  assumes "layout instrs bs" "jumps_or_falls instrs" "b < length bs" "Suc k < length (instr_idx (bs ! b))"
  shows "flows_to instrs (nat (instr_idx (bs ! b) ! k)) j \<longleftrightarrow> j = nat (instr_idx (bs ! b) ! Suc k)"
proof -
  obtain s t where st: "s < t" "t \<le> length instrs" "instr_idx (bs ! b) = [int s .. int t - 1]"
    using layout_block [OF assms(1,3)] by metis
  have k: "Suc k < t - s" using assms(4) st by simp
  then have "instr_idx (bs ! b) ! k = int (s + k)" "instr_idx (bs ! b) ! Suc k = int (Suc (s + k))"
    unfolding st(3) by (subst nth_upto; simp)+
  then have n: "nat (instr_idx (bs ! b) ! k) = s + k" "nat (instr_idx (bs ! b) ! Suc k) = Suc (s + k)" by simp_all
  have "int (s + k) \<in> set (instr_idx (bs ! b))" "int (s + k) \<noteq> last (instr_idx (bs ! b))" using k st by auto
  then have "jumps (instrs ! (s + k)) = []"
    using assms(1) nth_mem [OF assms(3)] unfolding layout_def by (metis nat_int)
  moreover have "s + k < length instrs" "Suc (s + k) < length instrs" using k st by auto
  ultimately show ?thesis using n assms(2) nth_mem [of "s + k" instrs] by (auto simp: flows_to_def jumps_or_falls_def)
qed

lemma flows_between:
  assumes "layout instrs bs" "b < length bs"
  shows "flows_to instrs (nat (last (instr_idx (bs ! b)))) j \<longleftrightarrow>
    (\<exists>s \<in> set (succ_of (bs ! b)). int j = hd (instr_idx (bs ! nat s)))"
proof -
  obtain s t where st: "s < t" "t \<le> length instrs" "instr_idx (bs ! b) = [int s .. int t - 1]"
    "Suc b < length bs \<Longrightarrow> hd (instr_idx (bs ! Suc b)) = int t" "Suc b = length bs \<Longrightarrow> t = length instrs"
    using layout_block [OF assms] by metis
  let ?ins = "instrs ! (t - 1)"
  have lst: "last (instr_idx (bs ! b)) = int (t - 1)" using st by simp
  have "succs instrs bs b = Some (succ_of (bs ! b))" using assms by (simp add: layout_def)
  moreover have "array_at instrs (last (instr_idx (bs ! b))) = Some ?ins" unfolding lst using st(1,2) by (intro array_at_nat) simp
  ultimately obtain ts where ts: "those (map (find_basic_block_to_target bs) (jumps ?ins)) = Some ts"
    "succ_of (bs ! b) = (if fallthrough ?ins \<and> Suc b < length bs then [int b + 1] else []) @ ts"
    by (metis option.inject succs_Some)
  have targets: "Some ` set ts = find_basic_block_to_target bs ` set (jumps ?ins)" using those_set [OF ts(1)] by simp
  have preimage: "\<exists>x \<in> set (jumps ?ins). find_basic_block_to_target bs x = Some u" if u: "u \<in> set ts" for u
  proof -
    have "Some u \<in> find_basic_block_to_target bs ` set (jumps ?ins)" unfolding targets [symmetric] using u by (rule imageI)
    then show ?thesis by (fastforce)
  qed
  have inside: "hd (instr_idx (bs ! nat u)) < int (length instrs)" if "find_basic_block_to_target bs x = Some u" for u x
  proof -
    have u: "nat u < length bs" using find_range [OF that] by simp
    obtain s' t' where "s' < t'" "t' \<le> length instrs" "instr_idx (bs ! nat u) = [int s' .. int t' - 1]"
      using layout_block [OF assms(1) u] by metis
    then show ?thesis by simp
  qed
  have jump: "int j \<in> set (jumps ?ins) \<longleftrightarrow> (\<exists>u \<in> set ts. int j = hd (instr_idx (bs ! nat u)))"
  proof
    assume j: "int j \<in> set (jumps ?ins)"
    then obtain u where u: "u \<in> set ts" "find_basic_block_to_target bs (int j) = Some u" using targets by blast
    then show "\<exists>u \<in> set ts. int j = hd (instr_idx (bs ! nat u))" using find_range [OF u(2)] by (intro bexI [of _ u]) simp_all
  next
    assume "\<exists>u \<in> set ts. int j = hd (instr_idx (bs ! nat u))"
    then obtain u where u: "u \<in> set ts" "int j = hd (instr_idx (bs ! nat u))" by blast
    obtain x where x: "x \<in> set (jumps ?ins)" "find_basic_block_to_target bs x = Some u" using preimage [OF u(1)] by blast
    then show "int j \<in> set (jumps ?ins)" using find_range [OF x(2)] u(2) by simp
  qed
  have range: "j < length instrs" if u: "u \<in> set ts" "int j = hd (instr_idx (bs ! nat u))" for u
  proof -
    obtain x where "find_basic_block_to_target bs x = Some u" using preimage [OF u(1)] by blast
    from inside [OF this] show ?thesis using u(2) by simp
  qed
  have fall: "fallthrough ?ins \<and> j = t \<and> j < length instrs \<longleftrightarrow>
      fallthrough ?ins \<and> Suc b < length bs \<and> int j = hd (instr_idx (bs ! nat (int b + 1)))"
  proof (cases "Suc b < length bs")
    case True
    obtain s' t' where "s' < t'" "t' \<le> length instrs" "instr_idx (bs ! Suc b) = [int s' .. int t' - 1]"
      using layout_block [OF assms(1) True] by metis
    then show ?thesis using st(4) [OF True] True by (auto simp: nat_add_distrib)
  next
    case False
    then show ?thesis using st(5) assms(2) by auto
  qed
  have "flows_to instrs (t - 1) j \<longleftrightarrow> (fallthrough ?ins \<and> j = t \<and> j < length instrs) \<or> (int j \<in> set (jumps ?ins) \<and> j < length instrs)"
    using st(1) by (auto simp: flows_to_def)
  also have "\<dots> \<longleftrightarrow> (\<exists>s \<in> set (succ_of (bs ! b)). int j = hd (instr_idx (bs ! nat s)))"
    unfolding fall jump using range by (auto simp: ts(2))
  finally show ?thesis using lst by simp
qed

section \<open>The solution is path liveness\<close>

text \<open>The blocks when phase 2 has ended: every node satisfies its equation.\<close>

definition instr_at :: "RegAllocBasicBlock \<Rightarrow> nat \<Rightarrow> nat" where
  "instr_at b k = nat (instr_idx b ! k)"

lemma instr_at_range:
  assumes "layout instrs bs" "b < length bs" "k < length (instr_idx (bs ! b))"
  shows "instr_at (bs ! b) k < length instrs" "code_of instrs (bs ! b) ! k = instrs ! instr_at (bs ! b) k"
proof -
  obtain s t where st: "s < t" "t \<le> length instrs" "instr_idx (bs ! b) = [int s .. int t - 1]"
    using layout_block [OF assms(1,2)] by metis
  then have "instr_idx (bs ! b) ! k \<in> {int s .. int t - 1}" using nth_mem [OF assms(3)] by simp
  then show "instr_at (bs ! b) k < length instrs" using st(2) by (auto simp: instr_at_def)
  show "code_of instrs (bs ! b) ! k = instrs ! instr_at (bs ! b) k" using assms(3) by (simp add: code_of_def instr_at_def)
qed

lemma last_instr_at: "instr_idx b \<noteq> [] \<Longrightarrow> nat (last (instr_idx b)) = instr_at b (length (instr_idx b) - 1)"
  by (simp add: instr_at_def last_conv_nth)

lemma hd_instr_at: "instr_idx b \<noteq> [] \<Longrightarrow> nat (hd (instr_idx b)) = instr_at b 0"
  by (simp add: instr_at_def hd_conv_nth)

lemma drop_code:
  "k < length (instr_idx b) \<Longrightarrow> drop k (code_of instrs b) = code_of instrs b ! k # drop (Suc k) (code_of instrs b)"
  using Cons_nth_drop_Suc [of k "code_of instrs b"] by (simp add: code_of_def)

lemma instr_idx_nonempty: "layout instrs bs \<Longrightarrow> b < length bs \<Longrightarrow> instr_idx (bs ! b) \<noteq> []"
  by (metis layout_block of_nat_less_iff set_upto atLeastAtMost_iff empty_iff empty_set order_refl zle_diff1_eq)

text \<open>Soundness: sets below path liveness behind a block stay below it in the block.\<close>

lemma back_code_sound:
  assumes lay: "layout instrs bs" "jumps_or_falls instrs" "ids_below m instrs" "b < length bs"
    and X: "\<And>v. v \<in> X \<Longrightarrow> live_out instrs (int v) (nat (last (instr_idx (bs ! b))))"
    and k: "k < length (instr_idx (bs ! b))"
    and v: "v \<in> back_code (drop (Suc k) (code_of instrs (bs ! b))) X"
  shows "live_out instrs (int v) (instr_at (bs ! b) k)"
  using k v
proof (induction "length (instr_idx (bs ! b)) - Suc k" arbitrary: k)
  case 0
  then have k: "k = length (instr_idx (bs ! b)) - 1" "length (code_of instrs (bs ! b)) \<le> Suc k" by (simp_all add: code_of_def)
  then have "v \<in> X" using 0(3) by simp
  then show ?case using X last_instr_at [OF instr_idx_nonempty [OF lay(1,4)]] unfolding k(1) by metis
next
  case (Suc n)
  then have k1: "Suc k < length (instr_idx (bs ! b))" by simp
  let ?i = "instr_at (bs ! b) (Suc k)"
  note i = instr_at_range [OF lay(1,4) k1]
  have "v \<in> tr (instrs ! ?i) (back_code (drop (Suc (Suc k)) (code_of instrs (bs ! b))) X)"
    using Suc.prems(2) by (simp add: drop_code [OF k1] i(2))
  then have "reads (instrs ! ?i) (int v) \<or> (\<not> writes (instrs ! ?i) (int v) \<and> live_out instrs (int v) ?i)"
    using Suc.hyps(1) [of "Suc k"] Suc.hyps(2) k1 rd_wr [OF lay(3) i(1)] by (auto simp: tr_def)
  then have "live_in instrs (int v) ?i" by (simp add: live_in_unfold [OF i(1)])
  then show ?case
    using flows_inside [OF lay(1,2,4) k1] unfolding live_out_def instr_at_def by blast
qed

lemma back_code_sound_head:
  assumes lay: "layout instrs bs" "jumps_or_falls instrs" "ids_below m instrs" "b < length bs"
    and X: "\<And>v. v \<in> X \<Longrightarrow> live_out instrs (int v) (nat (last (instr_idx (bs ! b))))"
    and v: "v \<in> back_code (code_of instrs (bs ! b)) X"
  shows "live_in instrs (int v) (instr_at (bs ! b) 0)"
proof -
  have k: "0 < length (instr_idx (bs ! b))" using instr_idx_nonempty [OF lay(1,4)] by simp
  note i = instr_at_range [OF lay(1,4) k]
  have "v \<in> tr (instrs ! instr_at (bs ! b) 0) (back_code (drop (Suc 0) (code_of instrs (bs ! b))) X)"
    using v drop_code [OF k, of instrs] unfolding i(2) by (metis drop0 foldr_Cons o_apply)
  then show ?thesis
    using back_code_sound [OF lay X k] rd_wr [OF lay(3) i(1)] unfolding live_in_unfold [OF i(1)] tr_def by blast
qed

lemma layout_succ:
  assumes "layout instrs bs" "b < length bs" "s \<in> set (succ_of (bs ! b))"
  shows "nat s < length bs"
proof -
  have "succs instrs bs b = Some (succ_of (bs ! b))" using assms(1,2) by (simp add: layout_def)
  then obtain ins ts where "array_at instrs (last (instr_idx (bs ! b))) = Some ins"
    and ts: "those (map (find_basic_block_to_target bs) (jumps ins)) = Some ts"
    "succ_of (bs ! b) = (if fallthrough ins \<and> Suc b < length bs then [int b + 1] else []) @ ts"
    by (rule succs_Some)
  show ?thesis
  proof (cases "s \<in> set ts")
    case True
    then have "Some s \<in> find_basic_block_to_target bs ` set (jumps ins)" using those_set [OF ts(1)] by (metis image_eqI set_map)
    then obtain x where "find_basic_block_to_target bs x = Some s" by auto
    then show ?thesis using find_range by blast
  next
    case False
    then show ?thesis using assms(3) ts(2) by (auto split: if_splits)
qed
qed

lemma live_out_last:
  assumes "layout instrs bs" "b < length bs"
  shows "live_out instrs v (nat (last (instr_idx (bs ! b)))) \<longleftrightarrow>
    (\<exists>s \<in> set (succ_of (bs ! b)). nat s < length bs \<and> live_in instrs v (instr_at (bs ! nat s) 0))"
proof -
  note succ = layout_succ [OF assms]
  have head: "int j = hd (instr_idx (bs ! nat s)) \<longleftrightarrow> j = instr_at (bs ! nat s) 0" if s: "s \<in> set (succ_of (bs ! b))" for j s
  proof -
    obtain s' t where st: "s' < t" "instr_idx (bs ! nat s) = [int s' .. int t - 1]"
      using layout_block [OF assms(1) succ [OF s]] by metis
    then have "instr_at (bs ! nat s) 0 = s'" by (simp add: instr_at_def nth_upto)
    then show ?thesis using st by auto
  qed
  show ?thesis
  proof
    assume "live_out instrs v (nat (last (instr_idx (bs ! b))))"
    then obtain j s where "live_in instrs v j" "s \<in> set (succ_of (bs ! b))" "int j = hd (instr_idx (bs ! nat s))"
      unfolding live_out_def flows_between [OF assms] by blast
    then show "\<exists>s \<in> set (succ_of (bs ! b)). nat s < length bs \<and> live_in instrs v (instr_at (bs ! nat s) 0)"
      using head succ by metis
  next
    assume "\<exists>s \<in> set (succ_of (bs ! b)). nat s < length bs \<and> live_in instrs v (instr_at (bs ! nat s) 0)"
    then obtain s where "s \<in> set (succ_of (bs ! b))" "live_in instrs v (instr_at (bs ! nat s) 0)" by blast
    then show "live_out instrs v (nat (last (instr_idx (bs ! b))))"
      unfolding live_out_def flows_between [OF assms] using head by metis
  qed
qed

text \<open>Completeness: at a solution, every variable live at an instruction has reached it.\<close>

definition solved :: "RegAllocInstr list \<Rightarrow> RegAllocBasicBlock list \<Rightarrow> bool" where
  "solved instrs bs \<longleftrightarrow>
    (\<forall>b < length bs. members (input_set (bs ! b)) = back_code (code_of instrs (bs ! b)) (inputs_of bs (succ_of (bs ! b))))"

lemma tr_iff: "v \<in> tr ins X \<longleftrightarrow> v \<in> rd ins \<or> (v \<in> X \<and> v \<notin> wr ins)"
  by (simp add: tr_def)

lemma map_eq_nth: "map f xs = map f ys \<Longrightarrow> i < length xs \<Longrightarrow> f (xs ! i) = f (ys ! i)"
  by (metis length_map nth_map)

lemma solution_complete:
  assumes lay: "layout instrs bs'" "jumps_or_falls instrs" "ids_below m instrs"
    and same: "map instr_idx bs = map instr_idx bs'" "map succ_of bs = map succ_of bs'"
    and sol: "solved instrs bs"
    and live: "live_in instrs (int v) i"
  shows "b < length bs \<Longrightarrow> k < length (instr_idx (bs ! b)) \<Longrightarrow> instr_at (bs ! b) k = i \<Longrightarrow>
    v \<in> back_code (drop k (code_of instrs (bs ! b))) (inputs_of bs (succ_of (bs ! b)))"
  using live
proof (induction arbitrary: b k rule: live_in.induct)
  case (read i)
  have len: "length bs = length bs'" using same(1) map_eq_imp_length_eq by metis
  have "code_of instrs (bs ! b) ! k = instrs ! i" using read(4,5) by (simp add: code_of_def instr_at_def)
  then show ?case
    using drop_code [OF read(4), of instrs] rd_wr [OF lay(3) read(1)] read(2) by (simp add: tr_def)
next
  case (pass i j)
  have len: "length bs = length bs'" using same(1) map_eq_imp_length_eq by metis
  have bb: "instr_idx (bs ! b) = instr_idx (bs' ! b)" "succ_of (bs ! b) = succ_of (bs' ! b)"
    using map_eq_nth [OF same(1) pass.prems(1)] map_eq_nth [OF same(2) pass.prems(1)] .
  have c: "code_of instrs (bs ! b) ! k = instrs ! i" using pass.prems(2,3) by (simp add: code_of_def instr_at_def)
  have nw: "v \<notin> wr (instrs ! i)" using rd_wr [OF lay(3) pass(1)] pass(2) by simp
  have b': "b < length bs'" using pass.prems(1) len by simp
  have "v \<in> back_code (drop (Suc k) (code_of instrs (bs ! b))) (inputs_of bs (succ_of (bs ! b)))"
  proof (cases "Suc k < length (instr_idx (bs ! b))")
    case True
    then have "j = instr_at (bs ! b) (Suc k)"
      using flows_inside [OF lay(1,2) b', of k j] pass.hyps(3) pass.prems(3) bb(1) by (simp add: instr_at_def)
    then show ?thesis using pass.IH [OF pass.prems(1) True] by simp
  next
    case False
    then have k: "k = length (instr_idx (bs ! b)) - 1" using pass.prems(2) by simp
    have ne: "instr_idx (bs' ! b) \<noteq> []" using instr_idx_nonempty [OF lay(1) b'] .
    have "nat (last (instr_idx (bs' ! b))) = i"
      using last_instr_at [OF ne] pass.prems(3) bb(1) k by (simp add: instr_at_def)
    obtain s where s: "s \<in> set (succ_of (bs' ! b))" "int j = hd (instr_idx (bs' ! nat s))"
      using flows_between [OF lay(1) b', of j] pass(3) \<open>nat (last (instr_idx (bs' ! b))) = i\<close> by blast
    have s': "nat s < length bs'"
      using layout_succ [OF lay(1) b' s(1)] by simp
    have ne': "instr_idx (bs' ! nat s) \<noteq> []" using instr_idx_nonempty [OF lay(1) s'] .
    have ss: "instr_idx (bs ! nat s) = instr_idx (bs' ! nat s)" using map_eq_nth [OF same(1)] s' len by simp
    have "instr_at (bs ! nat s) 0 = j" using hd_instr_at [OF ne'] s(2) ss by (simp add: instr_at_def)
    then have "v \<in> back_code (code_of instrs (bs ! nat s)) (inputs_of bs (succ_of (bs ! nat s)))"
      using pass.IH [of "nat s" 0] s' len ne' ss by simp
    then have "v \<in> inputs_of bs (succ_of (bs ! b))"
      using sol s' len s(1) bb(2) by (auto simp: solved_def inputs_of_def)
    then show ?thesis using False by (simp add: code_of_def)
  qed
  then show ?case
    using drop_code [OF pass.prems(2), of instrs] c nw by (simp add: tr_iff)
qed

section \<open>The passes together\<close>

text \<open>A loop that replaces every element.\<close>

lemma fold_opt_nth_from:
  assumes "k \<le> length xs"
  shows "fold_opt (\<lambda>i xs. do { y \<leftarrow> f i (xs ! i); Some (xs[i := y]) }) [0 ..< k] xs = Some ys \<longleftrightarrow>
    length ys = length xs \<and> (\<forall>i < length xs. if i < k then f i (xs ! i) = Some (ys ! i) else ys ! i = xs ! i)"
  using assms
proof (induction k arbitrary: ys)
  case 0
  show ?case by (auto simp: list_eq_iff_nth_eq)
next
  case (Suc k)
  have k: "k < length xs" "k \<le> length xs" using Suc.prems by simp_all
  have "fold_opt (\<lambda>i xs. do { y \<leftarrow> f i (xs ! i); Some (xs[i := y]) }) [0 ..< Suc k] xs = Some ys \<longleftrightarrow>
      (\<exists>zs y. (length zs = length xs \<and> (\<forall>i < length xs. if i < k then f i (xs ! i) = Some (zs ! i) else zs ! i = xs ! i)) \<and>
        f k (zs ! k) = Some y \<and> ys = zs[k := y])"
    by (auto simp: fold_opt_append bind_eq_Some_conv Suc.IH [OF k(2)])
  also have "\<dots> \<longleftrightarrow> length ys = length xs \<and>
      (\<forall>i < length xs. if i < Suc k then f i (xs ! i) = Some (ys ! i) else ys ! i = xs ! i)" (is "?l \<longleftrightarrow> ?r")
  proof
    assume ?l
    then obtain zs y where zs: "length zs = length xs" "f k (zs ! k) = Some y" "ys = zs[k := y]"
      "\<And>i. i < length xs \<Longrightarrow> if i < k then f i (xs ! i) = Some (zs ! i) else zs ! i = xs ! i" by blast
    have "if i < Suc k then f i (xs ! i) = Some (ys ! i) else ys ! i = xs ! i" if "i < length xs" for i
      using zs(4) [OF that] zs(1-3) k(1) zs(4) [OF k(1)] by (cases "i = k") (auto simp: less_Suc_eq)
    moreover have "length ys = length xs" using zs(1,3) by simp
    ultimately show ?r by blast
  next
    assume r: ?r
    define zs where "zs = ys[k := xs ! k]"
    have "if i < k then f i (xs ! i) = Some (zs ! i) else zs ! i = xs ! i" if "i < length xs" for i
      using r that by (cases "i = k") (auto simp: zs_def less_Suc_eq)
    moreover have "f k (zs ! k) = Some (ys ! k)" "ys = zs[k := ys ! k]" using r k(1) by (simp_all add: zs_def)
    moreover have "length zs = length xs" using r by (simp add: zs_def)
    ultimately show ?l by blast
  qed
  finally show ?case .
qed

lemma fold_opt_nth:
  "fold_opt (\<lambda>i xs. do { y \<leftarrow> f i (xs ! i); Some (xs[i := y]) }) [0 ..< length xs] xs = Some ys \<longleftrightarrow>
    length ys = length xs \<and> (\<forall>i < length xs. f i (xs ! i) = Some (ys ! i))"
  by (auto simp: fold_opt_nth_from)

definition phase1_all :: "RegAllocInstr list \<Rightarrow> RegAllocBasicBlock list \<Rightarrow> RegAllocBasicBlock list option" where
  "phase1_all instrs bs =
    fold_opt (\<lambda>i bs. do {
        let b = bs ! i;
        let n = length (instr_idx b);
        b \<leftarrow> phase1 instrs (b\<lparr>live := resize_list n rs_empty (live b), dead := resize_list n rs_empty (dead b)\<rparr>);
        Some (bs[i := b]) })
      [0 ..< length bs] bs"

lemma layout_in_code: "layout instrs bs \<Longrightarrow> b < length bs \<Longrightarrow> in_code instrs (bs ! b)"
proof -
  assume "layout instrs bs" "b < length bs"
  then obtain s t where "s < t" "t \<le> length instrs" "instr_idx (bs ! b) = [int s .. int t - 1]" using layout_block by metis
  then show ?thesis by (auto simp: in_code_def)
qed

lemma layout_succ_nonneg:
  assumes "layout instrs bs" "b < length bs" "s \<in> set (succ_of (bs ! b))"
  shows "0 \<le> s"
proof -
  have "succs instrs bs b = Some (succ_of (bs ! b))" using assms(1,2) by (simp add: layout_def)
  then obtain ins ts where "array_at instrs (last (instr_idx (bs ! b))) = Some ins"
    and ts: "those (map (find_basic_block_to_target bs) (jumps ins)) = Some ts"
    "succ_of (bs ! b) = (if fallthrough ins \<and> Suc b < length bs then [int b + 1] else []) @ ts"
    by (rule succs_Some)
  show ?thesis
  proof (cases "s \<in> set ts")
    case True
    then have "Some s \<in> find_basic_block_to_target bs ` set (jumps ins)" using those_set [OF ts(1)] by (metis image_eqI set_map)
    then obtain x where "find_basic_block_to_target bs x = Some s" by auto
    then show ?thesis using find_range by blast
  next
    case False
    then show ?thesis using assms(3) ts(2) by (auto split: if_splits)
  qed
qed

text \<open>What holds of the blocks between the passes.\<close>

definition analysed1 :: "RegAllocInstr list \<Rightarrow> RegAllocBasicBlock list \<Rightarrow> RegAllocBasicBlock list \<Rightarrow> bool" where
  "analysed1 instrs bs0 bs \<longleftrightarrow>
    blocks_ok bs \<and> map instr_idx bs = map instr_idx bs0 \<and> map succ_of bs = map succ_of bs0 \<and>
    (\<forall>b \<in> set bs. done_from instrs 0 b)"

lemma phase1_all_Some:
  assumes lay: "layout instrs bs0"
  obtains bs where "phase1_all instrs bs0 = Some bs" "analysed1 instrs bs0 bs" "flows bs = (\<lambda>_. {})"
proof -
  let ?f = "\<lambda>b. phase1 instrs (b\<lparr>live := resize_list (length (instr_idx b)) rs_empty (live b),
      dead := resize_list (length (instr_idx b)) rs_empty (dead b)\<rparr>)"
  have "\<exists>c. ?f b = Some c \<and> block_ok c \<and> done_from instrs 0 c \<and> instr_idx c = instr_idx b \<and> succ_of c = succ_of b \<and>
      flow c = {}" if b: "b \<in> set bs0" for b
  proof -
    have f: "fresh_block b" using lay b by (simp add: layout_def)
    let ?b = "b\<lparr>live := resize_list (length (instr_idx b)) rs_empty (live b), dead := resize_list (length (instr_idx b)) rs_empty (dead b)\<rparr>"
    have "prepared ?b"
      using f by (simp add: prepared_def block_ok_def fresh_block_def resize_list_def list_all_length)
    moreover have "in_code instrs ?b"
      using b layout_in_code [OF lay] by (metis (no_types, lifting) in_set_conv_nth in_code_def RegAllocBasicBlock.select_convs(1) RegAllocBasicBlock.surjective RegAllocBasicBlock.update_convs(4,5))
    ultimately obtain c where c: "phase1 instrs ?b = Some c" "block_ok c" "done_from instrs 0 c"
      "instr_idx c = instr_idx ?b" "succ_of c = succ_of ?b" "input_set c = input_set ?b" "output_set c = output_set ?b"
      by (rule phase1_Some)
    then show ?thesis using f by (intro exI [of _ c]) (simp add: flow_def fresh_block_def)
  qed
  then obtain g where g: "\<And>b. b \<in> set bs0 \<Longrightarrow> ?f b = Some (g b) \<and> block_ok (g b) \<and> done_from instrs 0 (g b) \<and>
      instr_idx (g b) = instr_idx b \<and> succ_of (g b) = succ_of b \<and> flow (g b) = {}" by metis
  let ?bs = "map g bs0"
  have "phase1_all instrs bs0 = Some ?bs"
    unfolding phase1_all_def Let_def by (rule fold_opt_nth [THEN iffD2]) (simp add: g)
  moreover have "blocks_ok ?bs"
    using g layout_succ [OF lay] layout_succ_nonneg [OF lay] by (fastforce simp: blocks_ok_def in_set_conv_nth nat_less_iff)
  then have "analysed1 instrs bs0 ?bs" using g by (simp add: analysed1_def)
  moreover have "flows ?bs = (\<lambda>_. {})" using g by (simp add: flows_def fun_eq_iff)
  ultimately show thesis by (rule that)
qed

lemma done_from_view: "view c = view b \<Longrightarrow> done_from instrs k c = done_from instrs k b"
  by (simp add: view_def done_from_def code_of_def)

lemma analysed1_view:
  assumes "analysed1 instrs bs0 bs" "map view bs' = map view bs" "blocks_ok bs'"
  shows "analysed1 instrs bs0 bs'"
proof -
  have len: "length bs' = length bs" using assms(2) map_eq_imp_length_eq by metis
  have v: "view (bs' ! i) = view (bs ! i)" if "i < length bs" for i using map_views_nth [OF assms(2) that] .
  then have "map instr_idx bs' = map instr_idx bs" "map succ_of bs' = map succ_of bs"
    using len by (auto simp: list_eq_iff_nth_eq view_def)
  moreover have "\<forall>b \<in> set bs'. done_from instrs 0 b"
    using assms(1) len done_from_view [OF v] unfolding analysed1_def by (metis in_set_conv_nth)
  ultimately show ?thesis using assms(1,3) by (simp add: analysed1_def)
qed

lemma new_input_back:
  assumes "analysed1 instrs bs0 bs" "i < length bs"
  shows "new_input bs i = back_code (code_of instrs (bs ! i)) (inputs_of bs (succ_of (bs ! i)))"
proof -
  have "done_from instrs 0 (bs ! i)" using assms by (simp add: analysed1_def)
  then have "members (use_set (bs ! i)) \<union> (X - members (defs_set (bs ! i))) = back_code (code_of instrs (bs ! i)) X" for X
    by (simp add: done_from_def)
  moreover have "new_input bs i = members (use_set (bs ! i)) \<union> (inputs_of bs (succ_of (bs ! i)) - members (defs_set (bs ! i)))"
    by (auto simp: new_input_def new_output_def)
  ultimately show ?thesis by simp
qed

text \<open>Phase 2 returns a solution below path liveness.\<close>

lemma phase2_correct:
  assumes lay: "layout instrs bs0" "jumps_or_falls instrs" "ids_below m instrs"
    and a: "analysed1 instrs bs0 bs1" and empty: "flows bs1 = (\<lambda>_. {})"
  obtains bs where "phase2_loop bs1 = Some bs" "analysed1 instrs bs0 bs" "solved instrs bs"
    "\<And>b v. b < length bs0 \<Longrightarrow> v \<in> members (input_set (bs ! b)) \<Longrightarrow> live_in instrs (int v) (instr_at (bs0 ! b) 0)"
proof -
  have ok: "blocks_ok bs1" using a by (simp add: analysed1_def)
  have len1: "length bs1 = length bs0" using a map_eq_imp_length_eq unfolding analysed1_def by metis
  have "liveness.growing bs1 (flows bs1)" unfolding empty by (rule liveness.growing_empty)
  then obtain bs where bs: "phase2_loop bs1 = Some bs" "blocks_ok bs" "map view bs = map view bs1"
    "\<And>i. i < length bs1 \<Longrightarrow> eqn bs1 i (flows bs) = flows bs i"
    "\<And>g. \<forall>c. flows bs1 c \<subseteq> g c \<Longrightarrow> \<forall>i. eqn bs1 i g \<subseteq> g i \<Longrightarrow> \<forall>c. flows bs c \<subseteq> g c"
    using phase2_loop_Some [OF ok] by blast
  have len: "length bs = length bs1" using bs(3) map_eq_imp_length_eq by metis
  have a2: "analysed1 instrs bs0 bs" by (rule analysed1_view [OF a bs(3,2)])
  have "members (input_set (bs ! b)) = new_input bs b" if "b < length bs" for b
  proof -
    have "flows bs b = Inl ` new_input bs b \<union> Inr ` new_output bs b"
      using bs(4) [of b] eqn_flows [OF that bs(2)] eqn_view [OF bs(3)] that len by simp
    then have "flow (bs ! b) = Inl ` new_input bs b \<union> Inr ` new_output bs b" using that by (simp add: flows_def)
    then show ?thesis unfolding flow_def by blast
  qed
  then have sol: "solved instrs bs" using new_input_back [OF a2] by (simp add: solved_def)
  define g where "g = (\<lambda>b. if b < length bs0 then Inl ` {v. live_in instrs (int v) (instr_at (bs0 ! b) 0)} \<union> range Inr else {} :: (nat + nat) set)"
  have idx1: "instr_idx (bs1 ! b) = instr_idx (bs0 ! b)" "succ_of (bs1 ! b) = succ_of (bs0 ! b)" if "b < length bs0" for b
    using a map_eq_nth [of instr_idx bs1 bs0 b] map_eq_nth [of succ_of bs1 bs0 b] that len1 by (simp_all add: analysed1_def)
  have "eqn bs1 b g \<subseteq> g b" for b
  proof (cases "b < length bs0")
    case True
    let ?inp = "\<Union>s \<in> set (succ_of (bs1 ! b)). {x. Inl x \<in> g (nat s)}"
    have X: "live_out instrs (int v) (nat (last (instr_idx (bs0 ! b))))" if "v \<in> ?inp" for v
      using that idx1 [OF True] unfolding live_out_last [OF lay(1) True] by (auto simp: g_def split: if_splits)
    have "done_from instrs 0 (bs1 ! b)" using a True len1 by (simp add: analysed1_def)
    then have "members (use_set (bs1 ! b)) \<union> (?inp - members (defs_set (bs1 ! b))) = back_code (code_of instrs (bs0 ! b)) ?inp"
      using idx1 [OF True] by (simp add: done_from_def code_of_def)
    then have "members (use_set (bs1 ! b)) \<union> (members (defs_set (bs1 ! b)) \<union> ?inp - members (defs_set (bs1 ! b))) \<subseteq>
        {v. live_in instrs (int v) (instr_at (bs0 ! b) 0)}"
      using back_code_sound_head [OF lay True X] by blast
    then show ?thesis using True len1 unfolding eqn_def g_def Let_def by auto
  next
    case False
    then show ?thesis using len1 by (simp add: eqn_def)
  qed
  then have below: "flows bs b \<subseteq> g b" for b using bs(5) [of g] empty by simp
  have "live_in instrs (int v) (instr_at (bs0 ! b) 0)" if "b < length bs0" "v \<in> members (input_set (bs ! b))" for b v
  proof -
    have "Inl v \<in> flows bs b" using that len len1 by (simp add: flows_def flow_def)
    then show ?thesis using below [of b] that(1) by (auto simp: g_def)
  qed
  then show thesis using that bs(1) a2 sol by blast
qed

definition live_sets_exact :: "RegAllocInstr list \<Rightarrow> RegAllocBasicBlock \<Rightarrow> bool" where
  "live_sets_exact instrs b \<longleftrightarrow>
    (\<forall>k < length (instr_idx b). \<forall>v. v \<in> members (live b ! k) \<longleftrightarrow> live_out instrs (int v) (instr_at b k))"

lemma inputs_of_eq: "map flow bs' = map flow bs \<Longrightarrow> blocks_ok bs \<Longrightarrow> i < length bs \<Longrightarrow>
  inputs_of bs' (succ_of (bs ! i)) = inputs_of bs (succ_of (bs ! i))"
  by (rule inputs_of_flow) (auto dest: blocks_okD)

lemma block_live_exact:
  assumes lay: "layout instrs bs0" "jumps_or_falls instrs" "ids_below m instrs"
    and a: "analysed1 instrs bs0 bs" "solved instrs bs"
    and sound: "\<And>b v. b < length bs0 \<Longrightarrow> v \<in> members (input_set (bs ! b)) \<Longrightarrow> live_in instrs (int v) (instr_at (bs0 ! b) 0)"
    and b: "b < length bs0" and k: "k < length (instr_idx (bs0 ! b))"
  shows "v \<in> back_code (drop (Suc k) (code_of instrs (bs ! b))) (inputs_of bs (succ_of (bs ! b))) \<longleftrightarrow>
    live_out instrs (int v) (instr_at (bs0 ! b) k)"
proof -
  have same: "map instr_idx bs = map instr_idx bs0" "map succ_of bs = map succ_of bs0" "length bs = length bs0"
    using a(1) map_eq_imp_length_eq unfolding analysed1_def by metis+
  have idx: "instr_idx (bs ! c) = instr_idx (bs0 ! c)" "succ_of (bs ! c) = succ_of (bs0 ! c)" if "c < length bs0" for c
    using map_eq_nth [OF same(1)] map_eq_nth [OF same(2)] that same(3) by simp_all
  have code: "code_of instrs (bs ! c) = code_of instrs (bs0 ! c)" if "c < length bs0" for c
    using idx [OF that] by (simp add: code_of_def)
  note complete = solution_complete [OF lay same(1,2) a(2)]
  have inp: "v \<in> inputs_of bs (succ_of (bs ! b)) \<longleftrightarrow> live_out instrs (int v) (nat (last (instr_idx (bs0 ! b))))" for v
  proof
    assume "v \<in> inputs_of bs (succ_of (bs ! b))"
    then obtain s where s: "s \<in> set (succ_of (bs0 ! b))" "v \<in> members (input_set (bs ! nat s))"
      using idx [OF b] by (auto simp: inputs_of_def)
    then show "live_out instrs (int v) (nat (last (instr_idx (bs0 ! b))))"
      unfolding live_out_last [OF lay(1) b] using sound layout_succ [OF lay(1) b s(1)] by blast
  next
    assume "live_out instrs (int v) (nat (last (instr_idx (bs0 ! b))))"
    then obtain s where s: "s \<in> set (succ_of (bs0 ! b))" "nat s < length bs0" "live_in instrs (int v) (instr_at (bs0 ! nat s) 0)"
      unfolding live_out_last [OF lay(1) b] by blast
    have ne: "0 < length (instr_idx (bs ! nat s))" using instr_idx_nonempty [OF lay(1) s(2)] idx [OF s(2)] by simp
    have "v \<in> back_code (code_of instrs (bs ! nat s)) (inputs_of bs (succ_of (bs ! nat s)))"
      using complete [OF s(3), of "nat s" 0] s(2) same(3) ne idx [OF s(2)] by (simp add: instr_at_def)
    then show "v \<in> inputs_of bs (succ_of (bs ! b))"
      using a(2) s(1,2) same(3) idx [OF b] by (auto simp: solved_def inputs_of_def)
  qed
  show ?thesis
  proof
    assume "v \<in> back_code (drop (Suc k) (code_of instrs (bs ! b))) (inputs_of bs (succ_of (bs ! b)))"
    then show "live_out instrs (int v) (instr_at (bs0 ! b) k)"
      using back_code_sound [OF lay b _ k, of "inputs_of bs (succ_of (bs ! b))"] inp code [OF b] by simp
  next
    assume out: "live_out instrs (int v) (instr_at (bs0 ! b) k)"
    show "v \<in> back_code (drop (Suc k) (code_of instrs (bs ! b))) (inputs_of bs (succ_of (bs ! b)))"
    proof (cases "Suc k < length (instr_idx (bs0 ! b))")
      case True
      then have "live_in instrs (int v) (instr_at (bs0 ! b) (Suc k))"
        using out flows_inside [OF lay(1,2) b True] by (auto simp: live_out_def instr_at_def)
      then show ?thesis using complete [of v _ b "Suc k"] True b same(3) idx [OF b] by (simp add: instr_at_def)
    next
      case False
      then have "k = length (instr_idx (bs0 ! b)) - 1" using k by simp
      then have "live_out instrs (int v) (nat (last (instr_idx (bs0 ! b))))"
        using out last_instr_at [OF instr_idx_nonempty [OF lay(1) b]] by simp
      then show ?thesis using inp False idx [OF b] by (simp add: code_of_def)
    qed
  qed
qed

end
