(* ===== verification/Live_Ranges.thy ===== *)
theory Live_Ranges
  imports Live_Correct
begin

text \<open>
  From the live sets to live ranges: what \<^verbatim>\<open>analyze_liveliness\<close> leaves in the allocator's state.
\<close>

section \<open>Loops that collect and loops that cannot fail\<close>

lemma fold_opt_total:
  assumes "P s" "\<And>x s. x \<in> set xs \<Longrightarrow> P s \<Longrightarrow> \<exists>t. f x s = Some t \<and> P t"
  shows "\<exists>t. fold_opt f xs s = Some t \<and> P t"
  using assms
proof (induction xs arbitrary: s)
  case (Cons x xs)
  then obtain t where "f x s = Some t" "P t" by (meson list.set_intros(1))
  with Cons show ?case by simp
qed simp

lemma fold_opt_collect:
  assumes "fold_opt f xs s = Some t" "I s"
    and "\<And>x s t. x \<in> set xs \<Longrightarrow> I s \<Longrightarrow> f x s = Some t \<Longrightarrow> I t \<and> g t = g s \<union> P x"
  shows "I t \<and> g t = g s \<union> (\<Union>x \<in> set xs. P x)"
  using assms
proof (induction xs arbitrary: s)
  case (Cons x xs)
  obtain u where u: "f x s = Some u" "fold_opt f xs u = Some t" using Cons.prems(1) by (auto simp: bind_eq_Some_conv)
  have s: "I u \<and> g u = g s \<union> P x" by (rule Cons.prems(3) [OF _ Cons.prems(2) u(1)]) simp
  have "I t \<and> g t = g u \<union> (\<Union>x \<in> set xs. P x)"
  proof (rule Cons.IH [OF u(2)])
    show "I u" using s by simp
  qed (rule Cons.prems(3), simp_all)
  with s show ?case by (simp add: Un_assoc)
qed simp

section \<open>Phase 3 for all blocks\<close>

lemma phase3_all_from:
  assumes a: "analysed1 instrs bs0 bs" and k: "k \<le> length bs"
  shows "\<exists>bs'. fold_opt phase3 [0 ..< k] bs = Some bs' \<and> blocks_ok bs' \<and> length bs' = length bs \<and> map flow bs' = map flow bs \<and>
    (\<forall>j < length bs. if k \<le> j then view (bs' ! j) = view (bs ! j)
       else instr_idx (bs' ! j) = instr_idx (bs ! j) \<and>
         (\<forall>l < length (instr_idx (bs ! j)). members (live (bs' ! j) ! l) =
            back_code (drop (Suc l) (code_of instrs (bs ! j))) (inputs_of bs (succ_of (bs ! j)))))"
  using k
proof (induction k)
  case 0
  show ?case using a by (simp add: analysed1_def)
next
  case (Suc k)
  then obtain bs1 where b1: "fold_opt phase3 [0 ..< k] bs = Some bs1" "blocks_ok bs1" "length bs1 = length bs"
    "map flow bs1 = map flow bs"
    "\<And>j. j < length bs \<Longrightarrow> if k \<le> j then view (bs1 ! j) = view (bs ! j)
       else instr_idx (bs1 ! j) = instr_idx (bs ! j) \<and>
         (\<forall>l < length (instr_idx (bs ! j)). members (live (bs1 ! j) ! l) =
            back_code (drop (Suc l) (code_of instrs (bs ! j))) (inputs_of bs (succ_of (bs ! j))))"
    by auto
  have k: "k < length bs" "k < length bs1" using Suc.prems b1(3) by simp_all
  have vk: "view (bs1 ! k) = view (bs ! k)" using b1(5) [OF k(1)] by simp
  have "done_from instrs 0 (bs ! k)" using a k(1) by (simp add: analysed1_def)
  then have d: "\<forall>j < length (instr_idx (bs1 ! k)). phase1_at instrs (bs1 ! k) j"
    using done_from_view [OF vk] done_from_phase1_at by blast
  obtain bs' where b': "phase3 k bs1 = Some bs'" "blocks_ok bs'" "length bs' = length bs1" "map flow bs' = map flow bs1"
    "\<And>j. j \<noteq> k \<Longrightarrow> j < length bs1 \<Longrightarrow> view (bs' ! j) = view (bs1 ! j)"
    "instr_idx (bs' ! k) = instr_idx (bs1 ! k)" "succ_of (bs' ! k) = succ_of (bs1 ! k)"
    "\<And>l. l < length (instr_idx (bs1 ! k)) \<Longrightarrow>
       members (live (bs' ! k) ! l) = back_code (drop (Suc l) (code_of instrs (bs1 ! k))) (inputs_of bs1 (succ_of (bs1 ! k)))"
    using phase3_Some [OF b1(2) k(2) d] by metis
  have vk': "instr_idx (bs1 ! k) = instr_idx (bs ! k)" "succ_of (bs1 ! k) = succ_of (bs ! k)" "code_of instrs (bs1 ! k) = code_of instrs (bs ! k)"
    using vk by (simp_all add: view_def code_of_def)
  have inp: "inputs_of bs1 (succ_of (bs ! k)) = inputs_of bs (succ_of (bs ! k))"
    using inputs_of_eq [OF b1(4) _ k(1)] a by (simp add: analysed1_def)
  have "if Suc k \<le> j then view (bs' ! j) = view (bs ! j)
       else instr_idx (bs' ! j) = instr_idx (bs ! j) \<and>
         (\<forall>l < length (instr_idx (bs ! j)). members (live (bs' ! j) ! l) =
            back_code (drop (Suc l) (code_of instrs (bs ! j))) (inputs_of bs (succ_of (bs ! j))))" if j: "j < length bs" for j
  proof (cases "j = k")
    case True
    then show ?thesis using b'(6,8) vk' inp by simp
  next
    case False
    then have "view (bs' ! j) = view (bs1 ! j)" using b'(5) j b1(3) by simp
    then show ?thesis using b1(5) [OF j] False by (simp add: view_def split: if_splits)
  qed
  then show ?case using b1 b'(1-4) by (simp add: fold_opt_append)
qed

text \<open>The blocks after all passes.\<close>

definition live_passes :: "RegAllocInstr list \<Rightarrow> RegAllocBasicBlock list \<Rightarrow> RegAllocBasicBlock list option" where
  "live_passes instrs bs = do {
    bs \<leftarrow> phase1_all instrs bs;
    bs \<leftarrow> phase2_loop bs;
    fold_opt phase3 [0 ..< length bs] bs }"

lemma live_passes_Some:
  assumes lay: "layout instrs bs0" "jumps_or_falls instrs" "ids_below m instrs"
  obtains bs where "live_passes instrs bs0 = Some bs" "blocks_ok bs" "map instr_idx bs = map instr_idx bs0"
    "\<forall>b \<in> set bs. live_sets_exact instrs b"
proof -
  obtain bs1 where bs1: "phase1_all instrs bs0 = Some bs1" "analysed1 instrs bs0 bs1" "flows bs1 = (\<lambda>_. {})"
    by (rule phase1_all_Some [OF lay(1)])
  obtain bs2 where bs2: "phase2_loop bs1 = Some bs2" "analysed1 instrs bs0 bs2" "solved instrs bs2"
    "\<And>b v. b < length bs0 \<Longrightarrow> v \<in> members (input_set (bs2 ! b)) \<Longrightarrow> live_in instrs (int v) (instr_at (bs0 ! b) 0)"
    by (rule phase2_correct [OF lay bs1(2,3)]) blast
  obtain bs where bs: "fold_opt phase3 [0 ..< length bs2] bs2 = Some bs" "blocks_ok bs" "length bs = length bs2"
    "\<And>j. j < length bs2 \<Longrightarrow> instr_idx (bs ! j) = instr_idx (bs2 ! j) \<and>
         (\<forall>l < length (instr_idx (bs2 ! j)). members (live (bs ! j) ! l) =
            back_code (drop (Suc l) (code_of instrs (bs2 ! j))) (inputs_of bs2 (succ_of (bs2 ! j))))"
    using phase3_all_from [OF bs2(2) order_refl] by auto
  have idx2: "map instr_idx bs2 = map instr_idx bs0" using bs2(2) by (simp add: analysed1_def)
  then have len: "length bs2 = length bs0" using map_eq_imp_length_eq by metis
  have idx: "map instr_idx bs = map instr_idx bs0" using bs(3,4) idx2 len by (metis nth_equalityI length_map nth_map)
  have "live_sets_exact instrs (bs ! j)" if "j < length bs" for j
  proof -
    have j: "j < length bs0" "j < length bs2" using that bs(3) len by simp_all
    have e: "instr_idx (bs ! j) = instr_idx (bs0 ! j)" "instr_idx (bs2 ! j) = instr_idx (bs0 ! j)"
      using map_eq_nth [OF idx that] map_eq_nth [OF idx2 j(2)] by simp_all
    show ?thesis
      unfolding live_sets_exact_def
      using bs(4) [OF j(2)] block_live_exact [OF lay bs2(2,3,4) j(1)] e by (simp add: instr_at_def)
  qed
  then have "\<forall>b \<in> set bs. live_sets_exact instrs b" by (metis in_set_conv_nth)
  moreover have "live_passes instrs bs0 = Some bs" by (simp add: live_passes_def bs1(1) bs2(1) bs(1))
  ultimately show thesis using bs(2) idx by (intro that)
qed

section \<open>Marking\<close>

text \<open>A live range under construction.\<close>

definition marks_ok :: "int \<Rightarrow> LiveInfo \<Rightarrow> bool" where
  "marks_ok n l \<longleftrightarrow>
    (\<forall>i \<in> set (indices_of_alive l). 0 \<le> i \<and> li_min l \<le> i \<and> i \<le> li_max l) \<and>
    (li_min l = n \<or> li_min l \<in> set (indices_of_alive l)) \<and>
    (li_max l = 0 \<or> li_max l \<in> set (indices_of_alive l)) \<and>
    (seen l \<longleftrightarrow> indices_of_alive l \<noteq> []) \<and>
    (indices_of_alive l = [] \<longrightarrow> li_min l = n \<and> li_max l = 0) \<and>
    is_alive l = [] \<and> assignment l = [] \<and> \<not> has_constraint l \<and> best_hint l = no_assignment"

definition ranges_ok :: "int \<Rightarrow> nat \<Rightarrow> LiveInfo list \<Rightarrow> bool" where
  "ranges_ok n m lrs \<longleftrightarrow> length lrs = m \<and> (\<forall>l \<in> set lrs. marks_ok n l)"

definition marks :: "LiveInfo list \<Rightarrow> (int \<times> int) set" where
  "marks lrs = {(v, i). 0 \<le> v \<and> nat v < length lrs \<and> i \<in> set (indices_of_alive (lrs ! nat v))}"

lemma add_live_instruction_ok:
  assumes "marks_ok n l" "add_live_instruction i l = Some l'"
  shows "0 \<le> i" "marks_ok n l'" "indices_of_alive l' = indices_of_alive l @ [i]"
proof -
  have i: "0 \<le> i" and l': "l' = (let l = (if li_max l < i then l\<lparr>li_max := i\<rparr> else l);
      l = (if i < li_min l then l\<lparr>li_min := i\<rparr> else l)
      in l\<lparr>indices_of_alive := indices_of_alive l @ [i], seen := True\<rparr>)"
    using assms(2) by (auto simp: add_live_instruction_def Let_def assert_opt_def split: if_splits)
  show "0 \<le> i" by fact
  show "indices_of_alive l' = indices_of_alive l @ [i]" by (simp add: l' Let_def)
  show "marks_ok n l'"
    using assms(1) i unfolding l' marks_ok_def Let_def by (auto split: if_splits)
qed

lemma make_alive_ok:
  assumes "ranges_ok n m lrs" "make_alive v i lrs = Some lrs'"
  shows "0 \<le> v \<and> nat v < m \<and> 0 \<le> i \<and> ranges_ok n m lrs' \<and> marks lrs' = insert (v, i) (marks lrs)"
proof -
  obtain l' where v: "0 \<le> v" "nat v < length lrs" and l': "add_live_instruction i (lrs ! nat v) = Some l'"
    "lrs' = lrs[nat v := l']"
    using assms(2) by (auto simp: make_alive_def bind_eq_Some_conv update_at_def)
  have "marks_ok n (lrs ! nat v)" using assms(1) v by (simp add: ranges_ok_def)
  note a = add_live_instruction_ok [OF this l'(1)]
  have "ranges_ok n m lrs'"
    using assms(1) a(2) l'(2) by (auto simp: ranges_ok_def dest!: subsetD [OF set_update_subset_insert])
  moreover have "marks lrs' = insert (v, i) (marks lrs)"
    using v a(3) l'(2) by (auto simp: marks_def nth_list_update split: if_splits)
  ultimately show ?thesis using v a(1) assms(1) by (simp add: ranges_ok_def)
qed

lemma make_alive_Some: "0 \<le> v \<Longrightarrow> nat v < length lrs \<Longrightarrow> 0 \<le> i \<Longrightarrow> \<exists>lrs'. make_alive v i lrs = Some lrs'"
proof -
  assume v: "0 \<le> v" "nat v < length lrs" "0 \<le> i"
  then have "array_at lrs v = Some (lrs ! nat v)" by simp
  then show ?thesis using v(3) by (simp add: make_alive_def add_live_instruction_def Let_def del: array_at_Some)
qed

definition ids :: "IRegister list \<Rightarrow> int set" where
  "ids xs = ireg_id ` set xs"

lemma ranges_from_use_ok:
  assumes "ranges_from_use instrs b lrs = Some lrs'" "ranges_ok n m lrs"
  shows "ranges_ok n m lrs' \<and> marks lrs' = marks lrs \<union>
    (\<Union>i \<in> set (instr_idx b). (\<lambda>v. (v, i)) ` ids (ri_read (instrs ! nat i) @ ri_write (instrs ! nat i)))"
  using assms(1) unfolding ranges_from_use_def
proof (rule fold_opt_collect [where I = "ranges_ok n m"])
  show "ranges_ok n m lrs" by fact
  fix i lrs lrs' assume ok: "ranges_ok n m lrs"
    and "(do { inst \<leftarrow> array_at instrs i; fold_opt (\<lambda>x. make_alive (ireg_id x) i) (ri_read inst @ ri_write inst) lrs }) = Some lrs'"
  then have "fold_opt (\<lambda>x. make_alive (ireg_id x) i) (ri_read (instrs ! nat i) @ ri_write (instrs ! nat i)) lrs = Some lrs'"
    by (auto simp: bind_eq_Some_conv)
  then have "ranges_ok n m lrs' \<and> marks lrs' = marks lrs \<union>
      (\<Union>x \<in> set (ri_read (instrs ! nat i) @ ri_write (instrs ! nat i)). {(ireg_id x, i)})"
    by (rule fold_opt_collect [where I = "ranges_ok n m"]) (use ok make_alive_ok in auto)
  then show "ranges_ok n m lrs' \<and> marks lrs' = marks lrs \<union>
      (\<lambda>v. (v, i)) ` ids (ri_read (instrs ! nat i) @ ri_write (instrs ! nat i))"
    by (auto simp: ids_def)
qed

lemma ranges_from_live_ok:
  assumes "ranges_from_live b lrs = Some lrs'" "ranges_ok n m lrs" "block_ok b"
  shows "ranges_ok n m lrs' \<and> marks lrs' = marks lrs \<union>
    (\<Union>k < length (instr_idx b). (\<lambda>v. (int v, instr_idx b ! k)) ` members (live b ! k))"
proof -
  have len: "length (live b) = length (instr_idx b)" using assms(3) by (simp add: block_ok_def)
  let ?step = "\<lambda>i lrs. fold_opt (\<lambda>j lrs. if fst (rs_index j (live b ! i)) then make_alive (int j) (instr_idx b ! i) lrs else Some lrs)
      [0 ..< rs_size (live b ! i)] lrs"
  have "fold_opt ?step [0 ..< length (live b)] lrs = Some lrs'" using assms(1) by (auto simp: ranges_from_live_def)
  then have "ranges_ok n m lrs' \<and> marks lrs' = marks lrs \<union>
    (\<Union>k \<in> set [0 ..< length (live b)]. (\<lambda>v. (int v, instr_idx b ! k)) ` members (live b ! k))"
  proof (rule fold_opt_collect [where I = "ranges_ok n m"])
    show "ranges_ok n m lrs" by fact
    fix k lrs lrs' assume k: "k \<in> set [0 ..< length (live b)]" and ok: "ranges_ok n m lrs" and st: "?step k lrs = Some lrs'"
    have rs: "rs_ok (live b ! k)" using assms(3) k by (simp add: block_ok_def list_all_length)
    have "ranges_ok n m lrs' \<and> marks lrs' = marks lrs \<union>
        (\<Union>j \<in> set [0 ..< rs_size (live b ! k)]. if j \<in> members (live b ! k) then {(int j, instr_idx b ! k)} else {})"
      using st by (rule fold_opt_collect [where I = "ranges_ok n m"]) (use ok make_alive_ok rs in \<open>auto split: if_splits\<close>)
    then show "ranges_ok n m lrs' \<and> marks lrs' = marks lrs \<union> (\<lambda>v. (int v, instr_idx b ! k)) ` members (live b ! k)"
      using members_bound [OF rs] by (auto split: if_splits)
  qed
  then show ?thesis using len by (simp add: atLeast0LessThan)
qed

section \<open>Where a variable is alive\<close>

definition alive :: "AllocationInput \<Rightarrow> int \<Rightarrow> int \<Rightarrow> bool" where
  "alive inp v i \<longleftrightarrow>
    (0 \<le> i \<and> i < int (length (instructions inp)) \<and>
      (reads (instructions inp ! nat i) v \<or> writes (instructions inp ! nat i) v \<or> live_out (instructions inp) v (nat i))) \<or>
    (\<exists>con \<in> set (constraints inp). \<not> contrain_everywhere con \<and> ireg_id (con_ireg con) = v \<and> con_instr_idx con = i)"

lemma live_in_reads: "live_in instrs v i \<Longrightarrow> \<exists>j < length instrs. reads (instrs ! j) v"
  by (induction rule: live_in.induct) auto

lemma live_out_nonneg: "ids_below m instrs \<Longrightarrow> live_out instrs v i \<Longrightarrow> 0 \<le> v \<and> v < m"
  using live_in_reads nth_mem by (fastforce simp: live_out_def ids_below_def reads_def list_ex_iff)

lemma ids_reads: "v \<in> ids (ri_read ins @ ri_write ins) \<longleftrightarrow> reads ins v \<or> writes ins v"
  by (auto simp: ids_def reads_def writes_def list_ex_iff)

lemma compute_live_ranges_ok:
  assumes c: "compute_live_ranges cache inp = Some c'" "live_ranges cache = []"
    and lay: "layout (instructions inp) bs0" "map instr_idx (basic_blocks cache) = map instr_idx bs0"
    and ok: "blocks_ok (basic_blocks cache)" "\<forall>b \<in> set (basic_blocks cache). live_sets_exact (instructions inp) b"
    and ids_ok: "ids_below m' (instructions inp)"
  shows "0 \<le> max_var cache" "c' = cache\<lparr>live_ranges := live_ranges c'\<rparr>"
    "ranges_ok (int (length (instructions inp))) (nat (max_var cache)) (live_ranges c')"
    "marks (live_ranges c') = {(v, i). alive inp v i}"
proof -
  let ?n = "int (length (instructions inp))" and ?m = "nat (max_var cache)" and ?bs = "basic_blocks cache"
  let ?r0 = "resize_list ?m (new_LiveInfo ?n 0) []"
  let ?instrs = "instructions inp"
  obtain lrs lrs' where f: "fold_opt (\<lambda>b lrs. do { lrs \<leftarrow> ranges_from_use ?instrs b lrs; ranges_from_live b lrs }) ?bs ?r0 = Some lrs"
    "fold_opt (\<lambda>con lrs. if \<not> contrain_everywhere con then make_alive (ireg_id (con_ireg con)) (con_instr_idx con) lrs else Some lrs)
      (constraints inp) lrs = Some lrs'" and r: "0 \<le> max_var cache" "c' = cache\<lparr>live_ranges := lrs'\<rparr>"
    using c by (auto simp: compute_live_ranges_def bind_eq_Some_conv)
  show "0 \<le> max_var cache" by fact
  show "c' = cache\<lparr>live_ranges := live_ranges c'\<rparr>" using r(2) by simp
  have r0: "ranges_ok ?n ?m ?r0" "marks ?r0 = {}"
    by (auto simp: ranges_ok_def resize_list_def marks_ok_def new_LiveInfo_def marks_def)
  let ?P = "\<lambda>b. (\<Union>i \<in> set (instr_idx b). (\<lambda>v. (v, i)) ` ids (ri_read (?instrs ! nat i) @ ri_write (?instrs ! nat i))) \<union>
      (\<Union>k < length (instr_idx b). (\<lambda>v. (int v, instr_idx b ! k)) ` members (live b ! k))"
  have s1: "ranges_ok ?n ?m lrs \<and> marks lrs = marks ?r0 \<union> (\<Union>b \<in> set ?bs. ?P b)"
    using f(1)
  proof (rule fold_opt_collect [where I = "ranges_ok ?n ?m"])
    show "ranges_ok ?n ?m ?r0" by (rule r0(1))
    fix b lrs lrs' assume b: "b \<in> set ?bs" and o: "ranges_ok ?n ?m lrs"
      and st: "(do { lrs \<leftarrow> ranges_from_use ?instrs b lrs; ranges_from_live b lrs }) = Some lrs'"
    obtain l1 where l1: "ranges_from_use ?instrs b lrs = Some l1" "ranges_from_live b l1 = Some lrs'"
      using st by (auto simp: bind_eq_Some_conv)
    have b_ok: "block_ok b" using ok(1) b by (simp add: blocks_ok_def)
    note u = ranges_from_use_ok [OF l1(1) o]
    show "ranges_ok ?n ?m lrs' \<and> marks lrs' = marks lrs \<union> ?P b"
      using ranges_from_live_ok [OF l1(2) u [THEN conjunct1] b_ok] u by (simp only: Un_assoc)
  qed
  have s2: "ranges_ok ?n ?m lrs' \<and> marks lrs' = marks lrs \<union>
      (\<Union>con \<in> set (constraints inp). if contrain_everywhere con then {} else {(ireg_id (con_ireg con), con_instr_idx con)})"
    using f(2) by (rule fold_opt_collect [where I = "ranges_ok ?n ?m"])
      (use s1 make_alive_ok in \<open>auto split: if_splits\<close>)
  show "ranges_ok ?n ?m (live_ranges c')" using s2 r(2) by simp
  have len: "length ?bs = length bs0" using lay(2) map_eq_imp_length_eq by metis
  have blocks: "(v, i) \<in> (\<Union>b \<in> set ?bs. ?P b) \<longleftrightarrow> 0 \<le> i \<and> i < ?n \<and>
      (reads (?instrs ! nat i) v \<or> writes (?instrs ! nat i) v \<or> live_out ?instrs v (nat i))" for v i
  proof -
    have P: "(v, i) \<in> ?P b \<longleftrightarrow> i \<in> set (instr_idx b) \<and>
        (reads (?instrs ! nat i) v \<or> writes (?instrs ! nat i) v \<or> live_out ?instrs v (nat i))" if b: "b \<in> set ?bs" for b
    proof -
      have ex: "live_sets_exact ?instrs b" using ok(2) b by simp
      have "(v, i) \<in> (\<Union>k < length (instr_idx b). (\<lambda>v. (int v, instr_idx b ! k)) ` members (live b ! k)) \<longleftrightarrow>
          i \<in> set (instr_idx b) \<and> live_out ?instrs v (nat i)"
      proof
        assume "i \<in> set (instr_idx b) \<and> live_out ?instrs v (nat i)"
        then obtain k where k: "k < length (instr_idx b)" "instr_idx b ! k = i" "live_out ?instrs (int (nat v)) (nat i)" "0 \<le> v"
          using live_out_nonneg [OF ids_ok] by (metis in_set_conv_nth int_nat_eq)
        then have "nat v \<in> members (live b ! k)" using ex by (simp add: live_sets_exact_def instr_at_def)
        then show "(v, i) \<in> (\<Union>k < length (instr_idx b). (\<lambda>v. (int v, instr_idx b ! k)) ` members (live b ! k))"
          using k by (auto intro!: bexI [of _ k] image_eqI [of _ _ "nat v"])
      qed (use ex in \<open>auto simp: live_sets_exact_def instr_at_def\<close>)
      moreover have "(v, i) \<in> (\<Union>i \<in> set (instr_idx b). (\<lambda>v. (v, i)) ` ids (ri_read (?instrs ! nat i) @ ri_write (?instrs ! nat i))) \<longleftrightarrow>
          i \<in> set (instr_idx b) \<and> v \<in> ids (ri_read (?instrs ! nat i) @ ri_write (?instrs ! nat i))" by blast
      ultimately show ?thesis unfolding ids_reads by blast
    qed
    have cover: "(\<exists>b \<in> set ?bs. i \<in> set (instr_idx b)) \<longleftrightarrow> 0 \<le> i \<and> i < ?n"
    proof
      assume "0 \<le> i \<and> i < ?n"
      then obtain j where "j < length bs0" "i \<in> set (instr_idx (bs0 ! j))"
        using chain_cover lay(1) unfolding layout_def by blast
      then show "\<exists>b \<in> set ?bs. i \<in> set (instr_idx b)" using map_eq_nth [OF lay(2), of j] len by (metis nth_mem)
    next
      assume "\<exists>b \<in> set ?bs. i \<in> set (instr_idx b)"
      then obtain j where "j < length bs0" "i \<in> set (instr_idx (bs0 ! j))"
        using map_eq_nth [OF lay(2)] len by (metis in_set_conv_nth)
      then show "0 \<le> i \<and> i < ?n" using layout_in_code [OF lay(1)] by (auto simp: in_code_def)
    qed
    show ?thesis using P cover by (metis (no_types, lifting) UN_iff)
  qed
  have con: "(v, i) \<in> (\<Union>con \<in> set (constraints inp). if contrain_everywhere con then {} else {(ireg_id (con_ireg con), con_instr_idx con)}) \<longleftrightarrow>
      (\<exists>con \<in> set (constraints inp). \<not> contrain_everywhere con \<and> ireg_id (con_ireg con) = v \<and> con_instr_idx con = i)" for v i
    by (auto split: if_splits)
  have "(v, i) \<in> marks lrs' \<longleftrightarrow> alive inp v i" for v i
    by (simp only: s2 [THEN conjunct2] s1 [THEN conjunct2] r0(2) Un_iff blocks con alive_def empty_iff simp_thms)
  then have "marks lrs' = {(v, i). alive inp v i}" by auto
  then show "marks (live_ranges c') = {(v, i). alive inp v i}" using r(2) by simp
qed

section \<open>Finished live ranges\<close>

lemma mark_alive_fold:
  assumes "\<forall>x \<in> set xs. li_min l \<le> x \<and> x \<le> li_max l" "length (is_alive l) = nat (li_max l - li_min l + 1)"
  shows "\<exists>al. fold_opt (\<lambda>x l. do { alive \<leftarrow> modify_at (is_alive l) (x - li_min l) (\<lambda>_. True); Some (l\<lparr>is_alive := alive\<rparr>) }) xs l =
      Some (l\<lparr>is_alive := al\<rparr>) \<and> length al = length (is_alive l) \<and>
    (\<forall>i. li_min l \<le> i \<and> i \<le> li_max l \<longrightarrow> (al ! nat (i - li_min l) \<longleftrightarrow> is_alive l ! nat (i - li_min l) \<or> i \<in> set xs))"
  using assms
proof (induction xs arbitrary: l)
  case (Cons x xs)
  let ?l = "l\<lparr>is_alive := (is_alive l)[nat (x - li_min l) := True]\<rparr>"
  have x: "li_min l \<le> x" "x \<le> li_max l" "nat (x - li_min l) < length (is_alive l)" using Cons.prems by auto
  then have step: "modify_at (is_alive l) (x - li_min l) (\<lambda>_. True) = Some ((is_alive l)[nat (x - li_min l) := True])"
    by (simp add: modify_at_Some)
  obtain al where al: "fold_opt (\<lambda>x l. do { alive \<leftarrow> modify_at (is_alive l) (x - li_min l) (\<lambda>_. True); Some (l\<lparr>is_alive := alive\<rparr>) }) xs ?l =
      Some (?l\<lparr>is_alive := al\<rparr>)" "length al = length (is_alive l)"
    "\<forall>i. li_min l \<le> i \<and> i \<le> li_max l \<longrightarrow> (al ! nat (i - li_min l) \<longleftrightarrow> is_alive ?l ! nat (i - li_min l) \<or> i \<in> set xs)"
    using Cons.IH [of ?l] Cons.prems by auto
  have "is_alive ?l ! nat (i - li_min l) \<longleftrightarrow> is_alive l ! nat (i - li_min l) \<or> i = x" if "li_min l \<le> i" for i
    using that x by (cases "i = x") (auto simp: nth_list_update nat_eq_iff)
  then show ?case using step al by (intro exI [of _ al]) auto
next
  case (Nil l)
  then show ?case by (intro exI [of _ "is_alive l"]) simp
qed

text \<open>A live range that is ready for colouring: where it is alive, and nothing assigned yet.\<close>

definition range_ready :: "int \<Rightarrow> int \<Rightarrow> int set \<Rightarrow> LiveInfo \<Rightarrow> bool" where
  "range_ready n v A l \<longleftrightarrow>
    li_var l = v \<and> \<not> has_constraint l \<and> best_hint l = no_assignment \<and> (seen l \<longleftrightarrow> A \<noteq> {}) \<and>
    (if seen l then
       (\<forall>i \<in> A. 0 \<le> i \<and> li_min l \<le> i \<and> i \<le> li_max l) \<and> (li_min l = n \<or> li_min l \<in> A) \<and> (li_max l = 0 \<or> li_max l \<in> A) \<and>
       length (is_alive l) = nat (li_max l - li_min l + 1) \<and>
       (\<forall>i. li_min l \<le> i \<and> i \<le> li_max l \<longrightarrow> (is_alive l ! nat (i - li_min l) \<longleftrightarrow> i \<in> A)) \<and>
       assignment l = replicate (nat (li_max l - li_min l + 1)) no_assignment
     else li_min l = n \<and> li_max l = 0 \<and> assignment l = [])"

lemma prepare_for_allocation_ok:
  assumes "marks_ok n l"
  shows "\<exists>l'. prepare_for_allocation v l = Some l' \<and> range_ready n v (set (indices_of_alive l)) l'"
proof (cases "seen l")
  case False
  then show ?thesis using assms by (auto simp: prepare_for_allocation_def marks_ok_def range_ready_def Let_def)
next
  case True
  have m: "\<forall>i \<in> set (indices_of_alive l). 0 \<le> i \<and> li_min l \<le> i \<and> i \<le> li_max l" "indices_of_alive l \<noteq> []"
    using assms True by (simp_all add: marks_ok_def)
  then have le: "li_min l \<le> li_max l" by (metis list.set_intros(1) neq_Nil_conv order_trans)
  let ?n = "nat (li_max l - li_min l + 1)"
  let ?l = "l\<lparr>li_var := v, assignment := replicate ?n no_assignment, is_alive := replicate ?n False\<rparr>"
  have r: "resize_list k x [] = replicate k x" for k :: nat and x :: 'a by (simp add: resize_list_def)
  have start: "(l\<lparr>li_var := v\<rparr>)\<lparr>assignment := resize_list ?n no_assignment (assignment (l\<lparr>li_var := v\<rparr>)),
      is_alive := resize_list ?n False (is_alive (l\<lparr>li_var := v\<rparr>))\<rparr> = ?l"
    using assms by (simp add: marks_ok_def resize_list_def)
  obtain al where al: "fold_opt (\<lambda>x l. do { alive \<leftarrow> modify_at (is_alive l) (x - li_min l) (\<lambda>_. True); Some (l\<lparr>is_alive := alive\<rparr>) })
      (indices_of_alive l) ?l = Some (?l\<lparr>is_alive := al\<rparr>)" "length al = ?n"
    "\<forall>i. li_min l \<le> i \<and> i \<le> li_max l \<longrightarrow> (al ! nat (i - li_min l) \<longleftrightarrow> is_alive ?l ! nat (i - li_min l) \<or> i \<in> set (indices_of_alive l))"
    using mark_alive_fold [of "indices_of_alive l" ?l] m(1) by auto
  have p: "prepare_for_allocation v l = Some (?l\<lparr>is_alive := al\<rparr>)"
    using True le al(1) assms by (simp add: prepare_for_allocation_def Let_def marks_ok_def resize_list_def)
  have "range_ready n v (set (indices_of_alive l)) (?l\<lparr>is_alive := al\<rparr>)"
    using True assms al(2,3) m by (simp add: range_ready_def marks_ok_def)
  with p show ?thesis by blast
qed

lemma prepare_all_ok:
  assumes "ranges_ok n m lrs"
  obtains lrs' where "prepare_all lrs = Some lrs'" "length lrs' = m"
    "\<And>v. v < m \<Longrightarrow> range_ready n (int v) {i. (int v, i) \<in> marks lrs} (lrs' ! v)"
proof -
  have len: "length lrs = m" using assms by (simp add: ranges_ok_def)
  have "\<exists>l'. prepare_for_allocation (int v) (lrs ! v) = Some l' \<and> range_ready n (int v) {i. (int v, i) \<in> marks lrs} l'" if "v < m" for v
  proof -
    have "marks_ok n (lrs ! v)" "{i. (int v, i) \<in> marks lrs} = set (indices_of_alive (lrs ! v))"
      using that len assms by (auto simp: ranges_ok_def marks_def)
    then show ?thesis using prepare_for_allocation_ok by metis
  qed
  then obtain g where g: "\<And>v. v < m \<Longrightarrow> prepare_for_allocation (int v) (lrs ! v) = Some (g v) \<and>
      range_ready n (int v) {i. (int v, i) \<in> marks lrs} (g v)" by metis
  have "prepare_all lrs = Some (map g [0 ..< m])"
    unfolding prepare_all_def using g len by (intro fold_opt_nth [THEN iffD2]) simp
  then show thesis using g by (intro that [of "map g [0 ..< m]"]) simp_all
qed

definition pairs_of :: "int list list \<Rightarrow> (int \<times> int) set" where
  "pairs_of by = {(v, i). 0 \<le> i \<and> nat i < length by \<and> v \<in> set (by ! nat i)}"

lemma index_step:
  assumes "modify_at by i (\<lambda>vs. vs @ [v]) = Some by'"
  shows "length by' = length by" "pairs_of by' = insert (v, i) (pairs_of by)"
  using assms by (auto simp: modify_at_Some pairs_of_def nth_list_update split: if_splits)

lemma index_live_ranges_ok:
  assumes idx: "index_live_ranges lrs (replicate n []) = Some by"
    and rdy: "\<And>v. v < length lrs \<Longrightarrow> range_ready n' (int v) (A (int v)) (lrs ! v)"
  shows "length by = n \<and> pairs_of by = {(v, i). 0 \<le> v \<and> nat v < length lrs \<and> i \<in> A v}"
proof -
  let ?in = "\<lambda>v i by. do { here \<leftarrow> is_live_at_instr (lrs ! v) i; if here then modify_at by i (\<lambda>vs. vs @ [int v]) else Some by }"
  let ?P = "\<lambda>v. {(int v, i) |i. i \<in> A (int v)}"
  have "length by = n \<and> pairs_of by = pairs_of (replicate n []) \<union> (\<Union>v \<in> set [0 ..< length lrs]. ?P v)"
    using idx unfolding index_live_ranges_def
  proof (rule fold_opt_collect [where I = "\<lambda>by. length by = n"])
    fix v and ys ys' :: "int list list"
    assume v: "v \<in> set [0 ..< length lrs]" and len: "length ys = n"
      and st: "(if seen (lrs ! v) then fold_opt (?in v) [li_min (lrs ! v) .. li_max (lrs ! v)] ys else Some ys) = Some ys'"
    note r = rdy [of v]
    show "length ys' = n \<and> pairs_of ys' = pairs_of ys \<union> ?P v"
    proof (cases "seen (lrs ! v)")
      case False
      then show ?thesis using st len r v by (auto simp: range_ready_def)
    next
      case True
      then have "fold_opt (?in v) [li_min (lrs ! v) .. li_max (lrs ! v)] ys = Some ys'" using st by simp
      then have "length ys' = n \<and> pairs_of ys' = pairs_of ys \<union>
          (\<Union>i \<in> set [li_min (lrs ! v) .. li_max (lrs ! v)]. if i \<in> A (int v) then {(int v, i)} else {})"
      proof (rule fold_opt_collect [where I = "\<lambda>by. length by = n"])
        fix i and ys ys' :: "int list list" assume i: "i \<in> set [li_min (lrs ! v) .. li_max (lrs ! v)]" and len: "length ys = n" and st: "?in v i ys = Some ys'"
        have "is_live_at_instr (lrs ! v) i = Some (i \<in> A (int v))"
          using i r v True by (auto simp: is_live_at_instr_def enable_fancy_coloring_def range_ready_def)
        then show "length ys' = n \<and> pairs_of ys' = pairs_of ys \<union> (if i \<in> A (int v) then {(int v, i)} else {})"
          using st len index_step [of _ i "int v" ys'] by (auto split: if_splits)
      qed (rule len)
      moreover have "(\<Union>i \<in> set [li_min (lrs ! v) .. li_max (lrs ! v)]. if i \<in> A (int v) then {(int v, i)} else {}) = ?P v"
        using r v True by (auto simp: range_ready_def split: if_splits)
      ultimately show ?thesis by simp
    qed
  qed simp
  moreover have "pairs_of (replicate n []) = {}" by (auto simp: pairs_of_def)
  moreover have "(\<Union>v \<in> set [0 ..< length lrs]. ?P v) = {(v, i). 0 \<le> v \<and> nat v < length lrs \<and> i \<in> A v}"
    by (auto intro!: bexI [of _ "nat _"])
  ultimately show ?thesis by simp
qed

end
