(* ===== verification/Live_Analysis.thy ===== *)
theory Live_Analysis
  imports Live_Ranges
begin

text \<open>
  \<^verbatim>\<open>analyze_liveliness\<close> as a whole: what it leaves in the allocator's state, and that it returns on every
  function whose jumps and variables are in range.
\<close>

section \<open>Variables in range\<close>

lemma fold_opt_all:
  assumes "fold_opt f xs s = Some t" "\<And>x s t. x \<in> set xs \<Longrightarrow> f x s = Some t \<Longrightarrow> length t = length s \<and> Q (length s) x"
  shows "length t = length s \<and> (\<forall>x \<in> set xs. Q (length s) x)"
  using assms
proof (induction xs arbitrary: s)
  case (Cons x xs)
  obtain u where u: "f x s = Some u" "fold_opt f xs u = Some t" using Cons.prems(1) by (auto simp: bind_eq_Some_conv)
  have "length u = length s \<and> Q (length s) x" by (rule Cons.prems(2) [OF _ u(1)]) simp
  moreover from this have "length t = length u \<and> (\<forall>x \<in> set xs. Q (length u) x)"
    using Cons.IH [OF u(2)] Cons.prems(2) by (metis list.set_intros(2))
  ultimately show ?case by simp
qed simp

lemma record_iregs_ok:
  assumes "record_iregs instrs rs = Some rs'"
  shows "length rs' = length rs \<and> ids_below (int (length rs)) instrs"
proof -
  have "length rs' = length rs \<and> (\<forall>ins \<in> set instrs. \<forall>x \<in> set (ri_write ins @ ri_read ins). 0 \<le> ireg_id x \<and> ireg_id x < int (length rs))"
    using assms unfolding record_iregs_def
  proof (rule fold_opt_all)
    fix ins and s t :: "IRegister list" assume "fold_opt (\<lambda>x rs. modify_at rs (ireg_id x) (\<lambda>_. x)) (ri_write ins @ ri_read ins) s = Some t"
    then show "length t = length s \<and> (\<forall>x \<in> set (ri_write ins @ ri_read ins). 0 \<le> ireg_id x \<and> ireg_id x < int (length s))"
      by (rule fold_opt_all) (auto simp: modify_at_Some nat_less_iff)
  qed
  then show ?thesis by (auto simp: ids_below_def)
qed

lemma record_iregs_total:
  assumes "ids_below (int (length rs)) instrs"
  shows "\<exists>rs'. record_iregs instrs rs = Some rs'"
proof -
  have "\<exists>t. record_iregs instrs rs = Some t \<and> length t = length rs"
    unfolding record_iregs_def
  proof (rule fold_opt_total [where P = "\<lambda>t. length t = length rs"])
    fix ins and s :: "IRegister list" assume ins: "ins \<in> set instrs" and len: "length s = length rs"
    show "\<exists>t. fold_opt (\<lambda>x rs. modify_at rs (ireg_id x) (\<lambda>_. x)) (ri_write ins @ ri_read ins) s = Some t \<and> length t = length rs"
      using len
    proof (rule fold_opt_total [where P = "\<lambda>t. length t = length rs"])
      fix x and t :: "IRegister list" assume "x \<in> set (ri_write ins @ ri_read ins)" "length t = length rs"
      then show "\<exists>u. modify_at t (ireg_id x) (\<lambda>_. x) = Some u \<and> length u = length rs"
        using assms ins by (auto simp: ids_below_def modify_at_Some nat_less_iff)
    qed
  qed simp
  then show ?thesis by blast
qed

section \<open>The state after the analysis\<close>

definition num_instrs :: "AllocationInput \<Rightarrow> int" where
  "num_instrs inp = int (length (instructions inp))"

text \<open>The variables have their live ranges, nothing is assigned, and the ranges are indexed by instruction.\<close>

definition analysed :: "AllocationInput \<Rightarrow> RegAllocCache \<Rightarrow> bool" where
  "analysed inp c \<longleftrightarrow>
    max_var c = max_vars inp \<and> 0 \<le> max_vars inp \<and> length (live_ranges c) = nat (max_vars inp) \<and>
    (\<forall>v < length (live_ranges c). range_ready (num_instrs inp) (int v) {i. alive inp (int v) i} (live_ranges c ! v)) \<and>
    length (live_ranges_by_instr c) = length (instructions inp) \<and>
    pairs_of (live_ranges_by_instr c) = {(v, i). alive inp v i} \<and>
    (\<forall>v i. alive inp v i \<longrightarrow> 0 \<le> v \<and> v < max_vars inp \<and> 0 \<le> i \<and> i < num_instrs inp) \<and>
    length (was_colored c) = nat (max_vars inp) \<and> length (iregs c) = nat (max_vars inp) \<and>
    length (stack_ops c) = length (instructions inp)"

lemma analyze_liveliness_steps:
  "analyze_liveliness cache inp = do {
    assert_opt (0 \<le> max_vars inp);
    rs \<leftarrow> record_iregs (instructions inp) (resize_list (nat (max_vars inp)) no_ireg (iregs cache));
    bs \<leftarrow> live_passes (instructions inp) (basic_blocks cache);
    cache \<leftarrow> compute_live_ranges (cache\<lparr>max_var := max_vars inp,
      was_colored := resize_list (nat (max_vars inp)) False (was_colored cache), iregs := rs, basic_blocks := bs\<rparr>) inp;
    lrs \<leftarrow> prepare_all (live_ranges cache);
    by \<leftarrow> index_live_ranges lrs (resize_list (length (instructions inp)) [] (live_ranges_by_instr cache));
    Some (cache\<lparr>live_ranges := lrs, stack_ops := resize_list (length (instructions inp)) [] (stack_ops cache),
      live_ranges_by_instr := by\<rparr>) }"
  by (simp add: analyze_liveliness_def live_passes_def phase1_all_def Let_def)

lemma resize_Nil [simp]: "resize_list n x [] = replicate n x"
  by (simp add: resize_list_def)

abbreviation start_cache :: "AllocationInput \<Rightarrow> RegAllocCache" where
  "start_cache inp \<equiv> new_cache\<lparr>is_asm_func := is_asm_function inp\<rparr>"

lemma start_cache_fields: "basic_blocks (start_cache inp) = []"
  by (simp add: new_cache_def)

lemma analyze_ok:
  assumes f: "find_basic_blocks (start_cache inp) inp = Some c0" and a: "analyze_liveliness c0 inp = Some c"
    and j: "jumps_or_falls (instructions inp)"
  shows "analysed inp c" "ids_below (max_vars inp) (instructions inp)"
    "\<forall>b \<in> set (basic_blocks c). live_sets_exact (instructions inp) b"
    "var_to_stack_slot c = Map.empty" "current_stack_slot c = 0"
proof -
  let ?instrs = "instructions inp" and ?m = "nat (max_vars inp)" and ?n = "num_instrs inp"
  note lay = find_basic_blocks_layout [OF f start_cache_fields]
  have c0: "iregs c0 = []" "was_colored c0 = []" "live_ranges c0 = []" "live_ranges_by_instr c0 = []" "stack_ops c0 = []"
    "var_to_stack_slot c0 = Map.empty" "current_stack_slot c0 = 0"
    by (subst lay(2); simp add: new_cache_def)+
  obtain rs bs c1 lrs idx where st: "0 \<le> max_vars inp" "record_iregs ?instrs (replicate ?m no_ireg) = Some rs"
    "live_passes ?instrs (basic_blocks c0) = Some bs"
    "compute_live_ranges (c0\<lparr>max_var := max_vars inp, was_colored := replicate ?m False, iregs := rs, basic_blocks := bs\<rparr>) inp = Some c1"
    "prepare_all (live_ranges c1) = Some lrs"
    "index_live_ranges lrs (resize_list (length ?instrs) [] (live_ranges_by_instr c1)) = Some idx"
    and c: "c = c1\<lparr>live_ranges := lrs, stack_ops := resize_list (length ?instrs) [] (stack_ops c1), live_ranges_by_instr := idx\<rparr>"
    using a unfolding analyze_liveliness_steps by (auto simp: bind_eq_Some_conv c0)
  let ?c = "c0\<lparr>max_var := max_vars inp, was_colored := replicate ?m False, iregs := rs, basic_blocks := bs\<rparr>"
  show below: "ids_below (max_vars inp) ?instrs" using record_iregs_ok [OF st(2)] st(1) by simp
  obtain bs' where b: "live_passes ?instrs (basic_blocks c0) = Some bs'" "blocks_ok bs'" "map instr_idx bs' = map instr_idx (basic_blocks c0)"
    "\<forall>b \<in> set bs'. live_sets_exact ?instrs b"
    by (rule live_passes_Some [OF lay(1) j below])
  then have bs: "bs' = bs" using st(3) by simp
  have comp: "c1 = ?c\<lparr>live_ranges := live_ranges c1\<rparr>" "ranges_ok ?n ?m (live_ranges c1)" "marks (live_ranges c1) = {(v, i). alive inp v i}"
    using compute_live_ranges_ok [OF st(4), of "basic_blocks c0" "max_vars inp"] lay(1) b below unfolding bs num_instrs_def
    by (simp_all add: c0)
  obtain lrs' where l: "prepare_all (live_ranges c1) = Some lrs'" "length lrs' = ?m"
    "\<And>v. v < ?m \<Longrightarrow> range_ready ?n (int v) {i. (int v, i) \<in> marks (live_ranges c1)} (lrs' ! v)"
    by (rule prepare_all_ok [OF comp(2)]) blast
  have lrs: "lrs' = lrs" using l(1) st(5) by simp
  have ready: "range_ready ?n (int v) {i. alive inp (int v) i} (lrs ! v)" if "v < ?m" for v
    using l(3) [OF that] comp(3) lrs by simp
  have c1: "live_ranges_by_instr c1 = []" "stack_ops c1 = []" "basic_blocks c1 = bs" "var_to_stack_slot c1 = Map.empty"
    "current_stack_slot c1 = 0" "max_var c1 = max_vars inp" "length (was_colored c1) = ?m" "iregs c1 = rs"
    by (subst comp(1); simp add: c0)+
  have ix: "length idx = length ?instrs \<and> pairs_of idx = {(v, i). 0 \<le> v \<and> nat v < length lrs \<and> alive inp v i}"
    using index_live_ranges_ok [of lrs "length ?instrs" idx ?n "\<lambda>v. {i. alive inp v i}"] st(6) ready l(2) lrs by (simp add: c1)
  have range: "0 \<le> v \<and> v < max_vars inp \<and> 0 \<le> i \<and> i < ?n" if al: "alive inp v i" for v i
  proof -
    have "(v, i) \<in> marks (live_ranges c1)" using al comp(3) by simp
    then have v: "0 \<le> v" "nat v < ?m" using comp(2) by (auto simp: marks_def ranges_ok_def)
    then have "(v, i) \<in> pairs_of idx" using ix al l(2) lrs by simp
    then show ?thesis using v ix by (auto simp: pairs_of_def num_instrs_def nat_less_iff)
  qed
  have "0 \<le> v \<and> nat v < length lrs \<and> alive inp v i \<longleftrightarrow> alive inp v i" for v i
    using range [of v i] l(2) lrs by (cases "alive inp v i") (simp_all add: nat_less_iff)
  then have "pairs_of idx = {(v, i). alive inp v i}" using ix by simp
  then show "analysed inp c"
    using st(1) l(2) lrs ready ix range record_iregs_ok [OF st(2)]
    by (simp add: analysed_def c c1)
  show "\<forall>b \<in> set (basic_blocks c). live_sets_exact ?instrs b" using b(4) bs by (simp add: c c1)
  show "var_to_stack_slot c = Map.empty" "current_stack_slot c = 0" by (simp_all add: c c1)
qed

section \<open>The analysis returns\<close>

definition input_ok :: "AllocationInput \<Rightarrow> bool" where
  "input_ok inp \<longleftrightarrow>
    0 \<le> max_vars inp \<and> jumps_inside inp \<and> jumps_or_falls (instructions inp) \<and> ids_below (max_vars inp) (instructions inp) \<and>
    (\<forall>con \<in> set (constraints inp). 0 \<le> ireg_id (con_ireg con) \<and> ireg_id (con_ireg con) < max_vars inp \<and>
      (contrain_everywhere con \<or> (0 \<le> con_instr_idx con \<and> con_instr_idx con < num_instrs inp)))"

lemma make_alive_total:
  assumes "ranges_ok n m lrs" "0 \<le> v" "v < int m" "0 \<le> i"
  shows "\<exists>lrs'. make_alive v i lrs = Some lrs' \<and> ranges_ok n m lrs'"
  using assms make_alive_Some [of v lrs i] make_alive_ok [OF assms(1)] by (force simp: ranges_ok_def nat_less_iff)

lemma compute_live_ranges_total:
  assumes ok: "input_ok inp" "max_var cache = max_vars inp" "live_ranges cache = []"
    and lay: "layout (instructions inp) bs0" "map instr_idx (basic_blocks cache) = map instr_idx bs0"
    and bs: "blocks_ok (basic_blocks cache)" "\<forall>b \<in> set (basic_blocks cache). live_sets_exact (instructions inp) b"
  shows "\<exists>c. compute_live_ranges cache inp = Some c"
proof -
  let ?n = "num_instrs inp" and ?m = "nat (max_vars inp)" and ?bs = "basic_blocks cache" and ?instrs = "instructions inp"
  let ?r0 = "replicate ?m (new_LiveInfo ?n 0)" and ?I = "ranges_ok (num_instrs inp) (nat (max_vars inp))"
  have m: "0 \<le> max_vars inp" and below: "ids_below (max_vars inp) ?instrs" using ok(1) by (simp_all add: input_ok_def)
  have inside: "0 \<le> i \<and> nat i < length ?instrs" if b: "b \<in> set ?bs" "i \<in> set (instr_idx b)" for b i
  proof -
    obtain j where j: "j < length ?bs" "?bs ! j = b" using b(1) by (metis in_set_conv_nth)
    then have "j < length bs0" "instr_idx (bs0 ! j) = instr_idx b"
      using lay(2) map_eq_nth [OF lay(2) j(1)] map_eq_imp_length_eq by metis+
    then show ?thesis using layout_in_code [OF lay(1)] b(2) by (auto simp: in_code_def nat_less_iff)
  qed
  have use: "\<exists>t. ranges_from_use ?instrs b s = Some t \<and> ?I t" if b: "b \<in> set ?bs" and s: "?I s" for b s
    unfolding ranges_from_use_def
  proof (rule fold_opt_total [where P = ?I, OF s])
    fix i s assume i: "i \<in> set (instr_idx b)" and s: "?I s"
    then have arr: "array_at ?instrs i = Some (?instrs ! nat i)" and mem: "?instrs ! nat i \<in> set ?instrs"
      using inside [OF b i] by simp_all
    have "\<exists>t. fold_opt (\<lambda>x. make_alive (ireg_id x) i) (ri_read (?instrs ! nat i) @ ri_write (?instrs ! nat i)) s = Some t \<and> ?I t"
    proof (rule fold_opt_total [where P = ?I, OF s])
      fix x s assume x: "x \<in> set (ri_read (?instrs ! nat i) @ ri_write (?instrs ! nat i))" and s: "?I s"
      show "\<exists>t. make_alive (ireg_id x) i s = Some t \<and> ?I t"
        using below mem x inside [OF b i] m by (intro make_alive_total [OF s]) (auto simp: ids_below_def)
    qed
    then show "\<exists>t. (do { inst \<leftarrow> array_at ?instrs i; fold_opt (\<lambda>x. make_alive (ireg_id x) i) (ri_read inst @ ri_write inst) s }) = Some t \<and> ?I t"
      by (simp add: arr del: array_at_Some)
  qed
  have live: "\<exists>t. ranges_from_live b s = Some t \<and> ?I t" if b: "b \<in> set ?bs" and s: "?I s" for b s
  proof -
    have bok: "block_ok b" using bs(1) b by (simp add: blocks_ok_def)
    then have len: "length (live b) = length (instr_idx b)" by (simp add: block_ok_def)
    have "\<exists>t. fold_opt (\<lambda>i lrs. fold_opt (\<lambda>j lrs. if fst (rs_index j (live b ! i)) then make_alive (int j) (instr_idx b ! i) lrs else Some lrs)
        [0 ..< rs_size (live b ! i)] lrs) [0 ..< length (live b)] s = Some t \<and> ?I t"
    proof (rule fold_opt_total [where P = ?I, OF s])
      fix k s assume k: "k \<in> set [0 ..< length (live b)]" and s: "?I s"
      then have rs: "rs_ok (live b ! k)" using bok by (simp add: block_ok_def list_all_length)
      show "\<exists>t. fold_opt (\<lambda>j lrs. if fst (rs_index j (live b ! k)) then make_alive (int j) (instr_idx b ! k) lrs else Some lrs)
          [0 ..< rs_size (live b ! k)] s = Some t \<and> ?I t"
      proof (rule fold_opt_total [where P = ?I, OF s])
        fix j s assume s: "?I s"
        have "0 \<le> instr_idx b ! k" using inside [OF b nth_mem, of k] k len by simp
        moreover have "int j < max_vars inp" if "j \<in> members (live b ! k)"
          using that bs(2) b k len live_out_nonneg [OF below] by (auto simp: live_sets_exact_def)
        ultimately show "\<exists>t. (if fst (rs_index j (live b ! k)) then make_alive (int j) (instr_idx b ! k) s else Some s) = Some t \<and> ?I t"
          using make_alive_total [OF s, of "int j" "instr_idx b ! k"] s rs m by simp
      qed
    qed
    then show ?thesis using len by (simp add: ranges_from_live_def)
  qed
  have r0: "?I ?r0" by (auto simp: ranges_ok_def marks_ok_def new_LiveInfo_def)
  have "\<exists>t. fold_opt (\<lambda>b lrs. do { lrs \<leftarrow> ranges_from_use ?instrs b lrs; ranges_from_live b lrs }) ?bs ?r0 = Some t \<and> ?I t"
  proof (rule fold_opt_total [where P = ?I, OF r0])
    fix b s assume b: "b \<in> set ?bs" and s: "?I s"
    obtain u where u: "ranges_from_use ?instrs b s = Some u" "?I u" using use [OF b s] by blast
    with live [OF b u(2)] show "\<exists>t. (do { lrs \<leftarrow> ranges_from_use ?instrs b s; ranges_from_live b lrs }) = Some t \<and> ?I t" by simp
  qed
  then obtain lrs where l: "fold_opt (\<lambda>b lrs. do { lrs \<leftarrow> ranges_from_use ?instrs b lrs; ranges_from_live b lrs }) ?bs ?r0 = Some lrs" "?I lrs"
    by blast
  have "\<exists>t. fold_opt (\<lambda>con lrs. if \<not> contrain_everywhere con then make_alive (ireg_id (con_ireg con)) (con_instr_idx con) lrs else Some lrs)
      (constraints inp) lrs = Some t \<and> ?I t"
    by (rule fold_opt_total [where P = ?I, OF l(2)])
      (use ok(1) make_alive_total m in \<open>auto simp: input_ok_def\<close>)
  then obtain lrs' where "fold_opt (\<lambda>con lrs. if \<not> contrain_everywhere con then make_alive (ireg_id (con_ireg con)) (con_instr_idx con) lrs else Some lrs)
      (constraints inp) lrs = Some lrs'" by blast
  then show ?thesis
    using l(1) m ok(2,3) by (simp add: compute_live_ranges_def num_instrs_def)
qed

lemma index_live_ranges_total:
  assumes rdy: "\<And>v. v < length lrs \<Longrightarrow> range_ready n' (int v) (A (int v)) (lrs ! v)"
    and A: "\<And>v i. i \<in> A v \<Longrightarrow> 0 \<le> i \<and> nat i < n"
  shows "\<exists>idx. index_live_ranges lrs (replicate n []) = Some idx"
proof -
  have "\<exists>idx. index_live_ranges lrs (replicate n []) = Some idx \<and> length idx = n"
    unfolding index_live_ranges_def
  proof (rule fold_opt_total [where P = "\<lambda>idx. length idx = n"])
    fix v and s :: "int list list" assume v: "v \<in> set [0 ..< length lrs]" and len: "length s = n"
    let ?in = "\<lambda>i by. do { here \<leftarrow> is_live_at_instr (lrs ! v) i; if here then modify_at by i (\<lambda>vs. vs @ [int v]) else Some by }"
    have r: "range_ready n' (int v) (A (int v)) (lrs ! v)" using rdy v by simp
    have "\<exists>t. fold_opt ?in [li_min (lrs ! v) .. li_max (lrs ! v)] s = Some t \<and> length t = n" if sn: "seen (lrs ! v)"
      using len
    proof (rule fold_opt_total [where P = "\<lambda>idx. length idx = n"])
      fix i and s :: "int list list" assume i: "i \<in> set [li_min (lrs ! v) .. li_max (lrs ! v)]" and len: "length s = n"
      have "is_live_at_instr (lrs ! v) i = Some (i \<in> A (int v))"
        using i r sn by (auto simp: is_live_at_instr_def enable_fancy_coloring_def range_ready_def)
      then show "\<exists>t. ?in i s = Some t \<and> length t = n"
        using A [of i "int v"] len by (cases "i \<in> A (int v)") (simp_all add: modify_at_Some)
    qed
    then show "\<exists>t. (if seen (lrs ! v) then fold_opt ?in [li_min (lrs ! v) .. li_max (lrs ! v)] s else Some s) = Some t \<and> length t = n"
      using len by auto
  qed simp
  then show ?thesis by blast
qed

lemma analyze_total:
  assumes ok: "input_ok inp"
  shows "\<exists>c0 c. find_basic_blocks (start_cache inp) inp = Some c0 \<and> analyze_liveliness c0 inp = Some c"
proof -
  let ?instrs = "instructions inp" and ?m = "nat (max_vars inp)" and ?n = "num_instrs inp"
  have m: "0 \<le> max_vars inp" and j: "jumps_or_falls ?instrs" and below: "ids_below (max_vars inp) ?instrs" and jin: "jumps_inside inp"
    using ok by (simp_all add: input_ok_def)
  obtain c0 where f: "find_basic_blocks (start_cache inp) inp = Some c0"
    using find_basic_blocks_total [OF jin start_cache_fields] by blast
  note lay = find_basic_blocks_layout [OF f start_cache_fields]
  have c0: "iregs c0 = []" "was_colored c0 = []" "live_ranges c0 = []" "live_ranges_by_instr c0 = []" "stack_ops c0 = []"
    by (subst lay(2); simp add: new_cache_def)+
  obtain rs where rs: "record_iregs ?instrs (replicate ?m no_ireg) = Some rs"
    using record_iregs_total [of "replicate ?m no_ireg" ?instrs] below m by auto
  obtain bs where b: "live_passes ?instrs (basic_blocks c0) = Some bs" "blocks_ok bs" "map instr_idx bs = map instr_idx (basic_blocks c0)"
    "\<forall>b \<in> set bs. live_sets_exact ?instrs b"
    by (rule live_passes_Some [OF lay(1) j below])
  let ?c = "c0\<lparr>max_var := max_vars inp, was_colored := replicate ?m False, iregs := rs, basic_blocks := bs\<rparr>"
  obtain c1 where c1: "compute_live_ranges ?c inp = Some c1"
    using compute_live_ranges_total [OF ok, of ?c "basic_blocks c0"] lay(1) b by (auto simp: c0)
  have comp: "c1 = ?c\<lparr>live_ranges := live_ranges c1\<rparr>" "ranges_ok ?n ?m (live_ranges c1)" "marks (live_ranges c1) = {(v, i). alive inp v i}"
    using compute_live_ranges_ok [OF c1, of "basic_blocks c0" "max_vars inp"] lay(1) b below unfolding num_instrs_def
    by (simp_all add: c0)
  obtain lrs where l: "prepare_all (live_ranges c1) = Some lrs" "length lrs = ?m"
    "\<And>v. v < ?m \<Longrightarrow> range_ready ?n (int v) {i. (int v, i) \<in> marks (live_ranges c1)} (lrs ! v)"
    by (rule prepare_all_ok [OF comp(2)]) blast
  have by1: "live_ranges_by_instr c1 = []" by (subst comp(1)) (simp add: c0)
  have "\<exists>idx. index_live_ranges lrs (replicate (length ?instrs) []) = Some idx"
  proof (rule index_live_ranges_total)
    show "range_ready ?n (int v) {i. alive inp (int v) i} (lrs ! v)" if "v < length lrs" for v
      using l(3) [of v] that l(2) comp(3) by simp
    show "0 \<le> i \<and> nat i < length ?instrs" if al: "i \<in> {i. alive inp v i}" for v i
      using al ok by (auto simp: alive_def input_ok_def num_instrs_def nat_less_iff)
  qed
  then obtain idx where "index_live_ranges lrs (replicate (length ?instrs) []) = Some idx" by blast
  then have "\<exists>c. analyze_liveliness c0 inp = Some c"
    unfolding analyze_liveliness_steps using m rs b(1) c1 l(1) by1 by (simp add: c0)
  with f show ?thesis by blast
qed

end
