(* ===== verification/Coloring.thy ===== *)
theory Coloring
  imports Liveness
begin

text \<open>
  \<^verbatim>\<open>goalc/regalloc/Allocator.cpp\<close>, second half, and \<^verbatim>\<open>allocate.cpp\<close>: constraints, colouring, spilling and the
  top-level function. Printing is left out.
\<close>

section \<open>Constraints\<close>

definition on_range :: "int \<Rightarrow> (LiveInfo \<Rightarrow> LiveInfo option) \<Rightarrow> RegAllocCache \<Rightarrow> RegAllocCache option" where
  "on_range v f cache = do {
    l \<leftarrow> array_at (live_ranges cache) v;
    l \<leftarrow> f l;
    Some (cache\<lparr>live_ranges := update_at (live_ranges cache) v l\<rparr>) }"

definition do_constrained_alloc :: "RegAllocCache \<Rightarrow> AllocationInput \<Rightarrow> RegAllocCache option" where
  "do_constrained_alloc cache inp =
    fold_opt (\<lambda>con cache.
        if contrain_everywhere con then
          on_range (ireg_id (con_ireg con)) (constrain_everywhere (desired_register con)) cache
        else
          on_range (ireg_id (con_ireg con)) (constrain_at_one (con_instr_idx con) (desired_register con)) cache)
      (constraints inp) cache"

definition check_constraint :: "RegAllocCache \<Rightarrow> IRegConstraint \<Rightarrow> bool option" where
  "check_constraint cache con = do {
    lr \<leftarrow> array_at (live_ranges cache) (ireg_id (con_ireg con));
    if contrain_everywhere con then
      check_opt (\<lambda>i. conflicts_at_reg lr i (desired_register con)) [li_min lr .. li_max lr]
    else conflicts_at_reg lr (con_instr_idx con) (desired_register con) }"

text \<open>Two live ranges at an instruction do not already share a register.\<close>

definition check_pair :: "RegAllocCache \<Rightarrow> int \<Rightarrow> int \<Rightarrow> int \<Rightarrow> bool option" where
  "check_pair cache i idx1 idx2 = do {
    lr1 \<leftarrow> array_at (live_ranges cache) idx1;
    if idx1 = idx2 then Some True
    else do {
      lr2 \<leftarrow> array_at (live_ranges cache) idx2;
      ass1 \<leftarrow> get_at lr1 i;
      if as_kind ass1 \<noteq> UNASSIGNED then do {
        ass2 \<leftarrow> get_at lr2 i;
        Some (\<not> occupies_same_reg ass1 ass2) }
      else Some True } }"

definition check_constrained_alloc :: "RegAllocCache \<Rightarrow> AllocationInput \<Rightarrow> bool option" where
  "check_constrained_alloc cache inp = do {
    ok1 \<leftarrow> check_opt (check_constraint cache) (constraints inp);
    ok2 \<leftarrow> check_opt (\<lambda>i. do {
        idxs \<leftarrow> array_at (live_ranges_by_instr cache) i;
        check_opt (\<lambda>idx1. check_opt (check_pair cache i idx1) idxs) idxs })
      [0 .. int (length (instructions inp)) - 1];
    Some (ok1 \<and> ok2) }"

section \<open>Can a variable have a register?\<close>

definition assign_var_no_check :: "int \<Rightarrow> Assignment \<Rightarrow> RegAllocCache \<Rightarrow> RegAllocCache option" where
  "assign_var_no_check v a cache = on_range v (assign_no_overwrite a) cache"

text \<open>Two ranges may meet in a register at an instruction where one ends and the other begins.\<close>

definition hand_over :: "LiveInfo \<Rightarrow> LiveInfo \<Rightarrow> int \<Rightarrow> RegAllocInstr \<Rightarrow> bool option" where
  "hand_over lr other_lr i instr = do {
    dies \<leftarrow> dies_next_at_instr lr i;
    if dies then do {
      begins \<leftarrow> becomes_live_at_instr other_lr i;
      Some (begins \<and> (allow_read_write_same_reg \<or> is_move instr)) }
    else Some False }"

definition allowed_by_move_eliminator :: "RegAllocInstr list \<Rightarrow> LiveInfo \<Rightarrow> LiveInfo \<Rightarrow> int \<Rightarrow> bool option" where
  "allowed_by_move_eliminator instrs lr other_lr i =
    (if move_eliminator then do {
       instr \<leftarrow> array_at instrs i;
       if enable_fancy_coloring then do {
         a \<leftarrow> hand_over lr other_lr i instr;
         begins \<leftarrow> becomes_live_at_instr lr i;
         b \<leftarrow> (if begins then do {
                  dies \<leftarrow> dies_next_at_instr other_lr i;
                  Some (dies \<and> (allow_read_write_same_reg \<or> is_move instr)) }
                else Some False);
         Some (a \<or> b) }
       else Some ((i = li_max lr \<and> i = li_min other_lr \<and> is_move instr) \<or>
                  (i = li_min lr \<and> i = li_min other_lr \<and> is_move instr)) }
     else Some False)"

text \<open>The loop body over the other ranges that are live at instruction \<open>i\<close>.\<close>

definition no_conflict :: "RegAllocCache \<Rightarrow> AllocationInput \<Rightarrow> int \<Rightarrow> LiveInfo \<Rightarrow> Assignment \<Rightarrow> int \<Rightarrow> int \<Rightarrow> bool option" where
  "no_conflict cache inp v lr a i other_idx = do {
    other_lr \<leftarrow> array_at (live_ranges cache) other_idx;
    if li_var other_lr = v then Some True
    else do {
      conflict \<leftarrow> conflicts_at other_lr i a;
      if conflict then allowed_by_move_eliminator (instructions inp) lr other_lr i
      else Some True } }"

definition avoids_clobber :: "AllocationInput \<Rightarrow> Assignment \<Rightarrow> int \<Rightarrow> bool option" where
  "avoids_clobber inp a i = do {
    instr \<leftarrow> array_at (instructions inp) i;
    Some (list_all (\<lambda>r. \<not> occupies_reg a r) (clobber instr)) }"

definition avoids_exclude :: "AllocationInput \<Rightarrow> Assignment \<Rightarrow> int \<Rightarrow> bool option" where
  "avoids_exclude inp a i = do {
    instr \<leftarrow> array_at (instructions inp) i;
    Some (list_all (\<lambda>r. \<not> occupies_reg a r) (exclude instr)) }"

definition can_var_be_assigned :: "int \<Rightarrow> Assignment \<Rightarrow> RegAllocCache \<Rightarrow> AllocationInput \<Rightarrow> bool option" where
  "can_var_be_assigned v a cache inp = do {
    lr \<leftarrow> array_at (live_ranges cache) v;
    let range = [li_min lr .. li_max lr];
    c1 \<leftarrow> all_opt (\<lambda>i. do {
        others \<leftarrow> array_at (live_ranges_by_instr cache) i;
        all_opt (no_conflict cache inp v lr a i) others }) range;
    if \<not> c1 then Some False else do {
    c2 \<leftarrow> all_opt (avoids_clobber inp a) [li_min lr + 1 .. li_max lr - 1];
    if \<not> c2 then Some False else do {
    c3 \<leftarrow> all_opt (avoids_exclude inp a) range;
    if \<not> c3 then Some False else
    all_opt (\<lambda>i.
        if has_constraint lr then do {
          mine \<leftarrow> array_at (assignment lr) (i - li_min lr);
          Some (is_assigned mine \<longrightarrow> occupies_same_reg a mine) }
        else Some True) range }}}"

definition assignment_ok_at :: "int \<Rightarrow> int \<Rightarrow> Assignment \<Rightarrow> RegAllocCache \<Rightarrow> AllocationInput \<Rightarrow> bool option" where
  "assignment_ok_at v idx a cache inp = do {
    lr \<leftarrow> array_at (live_ranges cache) v;
    others \<leftarrow> array_at (live_ranges_by_instr cache) idx;
    c1 \<leftarrow> all_opt (no_conflict cache inp v lr a idx) others;
    if \<not> c1 then Some False else do {
    c2 \<leftarrow> (if idx \<noteq> li_min lr \<and> idx \<noteq> li_max lr then avoids_clobber inp a idx else Some True);
    if \<not> c2 then Some False else do {
    c3 \<leftarrow> avoids_exclude inp a idx;
    if \<not> c3 then Some False else do {
    mine \<leftarrow> array_at (assignment lr) (idx - li_min lr);
    Some (is_assigned mine \<longrightarrow> occupies_same_reg a mine) }}}}"

definition try_assignment_for_var :: "int \<Rightarrow> Assignment \<Rightarrow> AllocationInput \<Rightarrow> RegAllocCache \<Rightarrow> (bool \<times> RegAllocCache) option" where
  "try_assignment_for_var v a inp cache = do {
    ok \<leftarrow> can_var_be_assigned v a cache inp;
    if ok then do {
      cache \<leftarrow> assign_var_no_check v a cache;
      Some (True, cache) }
    else Some (False, cache) }"

section \<open>Spilling\<close>

fun slot_size :: "RegClass \<Rightarrow> int option" where
  "slot_size INT_128 = Some 2"
| "slot_size VECTOR_FLOAT = Some 2"
| "slot_size FLOAT = Some 1"
| "slot_size GPR_64 = Some 1"
| "slot_size INVALID_CLASS = None"

definition get_stack_slot_for_var :: "int \<Rightarrow> RegAllocCache \<Rightarrow> (int \<times> RegAllocCache) option" where
  "get_stack_slot_for_var v cache = do {
    info \<leftarrow> array_at (iregs cache) v;
    size \<leftarrow> slot_size (ireg_class info);
    case var_to_stack_slot cache v of
      None \<Rightarrow>
        let slot = (if size = 2 \<and> odd (current_stack_slot cache) then current_stack_slot cache + 1
                    else current_stack_slot cache)
        in Some (slot, cache\<lparr>current_stack_slot := slot + size,
                             var_to_stack_slot := (var_to_stack_slot cache)(v \<mapsto> slot)\<rparr>)
    | Some slot \<Rightarrow> Some (slot, cache) }"

definition get_default_alloc_order_for_var_spill :: "int \<Rightarrow> RegAllocCache \<Rightarrow> Register list option" where
  "get_default_alloc_order_for_var_spill v cache = do {
    info \<leftarrow> array_at (iregs cache) v;
    assert_opt (ireg_class info \<noteq> INVALID_CLASS);
    kind \<leftarrow> reg_class_to_hw (ireg_class info);
    (case kind of
       GPR \<Rightarrow> Some (m_gpr_spill_temp_alloc_order gRegInfo)
     | XMM \<Rightarrow> Some (m_xmm_spill_temp_alloc_order gRegInfo)
     | INVALID \<Rightarrow> None) }"

definition get_default_alloc_order_for_var :: "int \<Rightarrow> RegAllocCache \<Rightarrow> bool \<Rightarrow> Register list option" where
  "get_default_alloc_order_for_var v cache get_all = do {
    info \<leftarrow> array_at (iregs cache) v;
    assert_opt (ireg_class info \<noteq> INVALID_CLASS);
    kind \<leftarrow> reg_class_to_hw (ireg_class info);
    if kind = GPR \<or> kind = INVALID then
      (if \<not> get_all \<and> is_asm_func cache then Some (m_gpr_temp_only_alloc_order gRegInfo)
       else Some (m_gpr_alloc_order gRegInfo))
    else if kind = XMM then
      (if \<not> get_all \<and> is_asm_func cache then Some (m_xmm_temp_only_alloc_order gRegInfo)
       else Some (m_xmm_alloc_order gRegInfo))
    else None }"

text \<open>The first register of the list that passes the test, as the loop with its \<^verbatim>\<open>break\<close> finds it.\<close>

primrec first_ok :: "(Register \<Rightarrow> bool option) \<Rightarrow> Register list \<Rightarrow> Register option option" where
  "first_ok p [] = Some None"
| "first_ok p (r # rs) = do { ok \<leftarrow> p r; if ok then Some (Some r) else first_ok p rs }"

text \<open>The register for a spilled variable that the instruction reads or writes: the hint, or the first that fits.\<close>

definition pick_temp :: "int \<Rightarrow> int \<Rightarrow> Assignment \<Rightarrow> RegAllocCache \<Rightarrow> AllocationInput \<Rightarrow> Register option" where
  "pick_temp v i hint cache inp = do {
    from_hint \<leftarrow> (if as_kind hint = REGISTER then do {
                    ok \<leftarrow> assignment_ok_at v i hint cache inp;
                    Some (if ok then as_reg hint else no_reg) }
                  else Some no_reg);
    reg_order \<leftarrow> get_default_alloc_order_for_var_spill v cache;
    if from_hint = no_reg then do {
      found \<leftarrow> first_ok (\<lambda>r. assignment_ok_at v i (in_reg r) cache inp) reg_order;
      r \<leftarrow> found;
      assert_opt (r \<noteq> no_reg);
      Some r }
    else Some from_hint }"

definition set_assignment :: "int \<Rightarrow> int \<Rightarrow> Assignment \<Rightarrow> RegAllocCache \<Rightarrow> RegAllocCache option" where
  "set_assignment v i a cache =
    on_range v (\<lambda>l. do {
        as \<leftarrow> modify_at (assignment l) (i - li_min l) (\<lambda>_. a);
        Some (l\<lparr>assignment := as\<rparr>) }) cache"

text \<open>One instruction of the range; the state is the hint so far and the allocator.\<close>

definition spill_at :: "int \<Rightarrow> AllocationInput \<Rightarrow> int \<Rightarrow> Assignment \<times> RegAllocCache \<Rightarrow> (Assignment \<times> RegAllocCache) option" where
  "spill_at v inp i st = do {
    let (hint, cache) = st;
    lr \<leftarrow> array_at (live_ranges cache) v;
    info \<leftarrow> array_at (iregs cache) v;
    current \<leftarrow> array_at (assignment lr) (i - li_min lr);
    op \<leftarrow> array_at (instructions inp) i;
    (hint, reg, cache) \<leftarrow>
      (if is_assigned current then do {
         ok \<leftarrow> assignment_ok_at v i current cache inp;
         assert_opt ok;
         (slot, cache) \<leftarrow> get_stack_slot_for_var v cache;
         cache \<leftarrow> set_assignment v i (current\<lparr>spilled := True, stack_slot := slot\<rparr>) cache;
         Some (current, as_reg current, cache) }
       else do {
         let spill = no_assignment\<lparr>spilled := True, as_kind := STACK, as_reg := no_reg\<rparr>;
         spill \<leftarrow> (if reads op v \<or> writes op v then do {
                     r \<leftarrow> pick_temp v i hint cache inp;
                     Some (spill\<lparr>as_reg := r, as_kind := REGISTER\<rparr>) }
                   else Some spill);
         (slot, cache) \<leftarrow> get_stack_slot_for_var v cache;
         cache \<leftarrow> set_assignment v i (spill\<lparr>stack_slot := slot\<rparr>) cache;
         Some (hint, as_reg spill, cache) });
    (slot, cache) \<leftarrow> get_stack_slot_for_var v cache;
    if reads op v \<or> writes op v then do {
      ops \<leftarrow> modify_at (stack_ops cache) i (\<lambda>ops. ops @
        [\<lparr>op_slot = slot, op_reg = reg, op_reg_class = ireg_class info, op_load = reads op v, op_store = writes op v\<rparr>]);
      Some (hint, cache\<lparr>stack_ops := ops\<rparr>) }
    else Some (hint, cache) }"

definition try_spill_coloring :: "int \<Rightarrow> AllocationInput \<Rightarrow> RegAllocCache \<Rightarrow> RegAllocCache option" where
  "try_spill_coloring v inp cache = do {
    lr \<leftarrow> array_at (live_ranges cache) v;
    (_, cache) \<leftarrow> fold_opt (spill_at v inp) [li_min lr .. li_max lr] (no_assignment, cache);
    Some cache }"

section \<open>One variable\<close>

definition try_move :: "int \<Rightarrow> IRegister list \<Rightarrow> int \<Rightarrow> Register list \<Rightarrow> AllocationInput \<Rightarrow> RegAllocCache \<Rightarrow> (bool \<times> RegAllocCache) option" where
  "try_move v partners i all_reg_order inp cache =
    (case partners of
       [] \<Rightarrow> None
     | p # _ \<Rightarrow> do {
         l \<leftarrow> array_at (live_ranges cache) (ireg_id p);
         possible_coloring \<leftarrow> get_at l i;
         if is_assigned possible_coloring \<and> as_reg possible_coloring \<in> set all_reg_order then
           try_assignment_for_var v possible_coloring inp cache
         else Some (False, cache) })"

primrec try_regs :: "int \<Rightarrow> AllocationInput \<Rightarrow> Register list \<Rightarrow> bool \<times> RegAllocCache \<Rightarrow> (bool \<times> RegAllocCache) option" where
  "try_regs v inp [] st = Some st"
| "try_regs v inp (r # rs) st =
    (if fst st then Some st
     else do {
       st \<leftarrow> try_assignment_for_var v (in_reg r) inp (snd st);
       try_regs v inp rs st })"

definition color_in_register :: "int \<Rightarrow> AllocationInput \<Rightarrow> RegAllocCache \<Rightarrow> (bool \<times> RegAllocCache) option" where
  "color_in_register v inp cache = do {
    lr \<leftarrow> array_at (live_ranges cache) v;
    (colored, cache) \<leftarrow> (if is_assigned (best_hint lr) then try_assignment_for_var v (best_hint lr) inp cache
                          else Some (False, cache));
    reg_order \<leftarrow> get_default_alloc_order_for_var v cache False;
    all_reg_order \<leftarrow> get_default_alloc_order_for_var v cache True;
    (colored, cache) \<leftarrow>
      (if \<not> colored \<and> move_eliminator then do {
         first_instr \<leftarrow> array_at (instructions inp) (li_min lr);
         last_instr \<leftarrow> array_at (instructions inp) (li_max lr);
         (colored, cache) \<leftarrow> (if is_move last_instr then try_move v (ri_write last_instr) (li_max lr) all_reg_order inp cache
                               else Some (False, cache));
         if \<not> colored \<and> is_move first_instr then try_move v (ri_read first_instr) (li_min lr) all_reg_order inp cache
         else Some (colored, cache) }
       else Some (colored, cache));
    try_regs v inp reg_order (colored, cache) }"

definition do_allocation_for_var :: "int \<Rightarrow> AllocationInput \<Rightarrow> RegAllocCache \<Rightarrow> RegAllocCache option" where
  "do_allocation_for_var v inp cache = do {
    let can_be_in_register = v \<notin> force_on_stack_regs inp;
    (colored, cache) \<leftarrow> (if can_be_in_register then color_in_register v inp cache else Some (False, cache));
    cache \<leftarrow> (if \<not> colored then do {
                 cache \<leftarrow> try_spill_coloring v inp cache;
                 Some (cache\<lparr>used_stack := True\<rparr>) }
               else Some cache);
    done \<leftarrow> modify_at (was_colored cache) v (\<lambda>_. True);
    Some (cache\<lparr>was_colored := done\<rparr>) }"

section \<open>The allocator\<close>

definition allocation_order :: "RegAllocCache \<Rightarrow> int list" where
  "allocation_order cache =
    map int (filter (\<lambda>i. seen (live_ranges cache ! i) \<and> has_constraint (live_ranges cache ! i)) [0 ..< length (live_ranges cache)]) @
    map int (filter (\<lambda>i. seen (live_ranges cache ! i) \<and> \<not> has_constraint (live_ranges cache ! i)) [0 ..< length (live_ranges cache)])"

definition run_allocator :: "AllocationInput \<Rightarrow> RegAllocCache \<Rightarrow> RegAllocCache option" where
  "run_allocator inp cache = fold_opt (\<lambda>v. do_allocation_for_var v inp) (allocation_order cache) cache"

definition copy_assignments :: "AllocationInput \<Rightarrow> LiveInfo \<Rightarrow> Assignment list option" where
  "copy_assignments inp lr =
    fold_opt (\<lambda>j x. do {
        a \<leftarrow> get_at lr j;
        modify_at x j (\<lambda>_. a) })
      [li_min lr .. li_max lr] (replicate (length (instructions inp)) no_assignment)"

definition map_opt :: "('a \<Rightarrow> 'b option) \<Rightarrow> 'a list \<Rightarrow> 'b list option" where
  "map_opt f xs = fold_opt (\<lambda>x ys. do { y \<leftarrow> f x; Some (ys @ [y]) }) xs []"

text \<open>Whether some range uses the register; both loops stop at the first use.\<close>

definition uses_saved :: "RegAllocCache \<Rightarrow> Register \<Rightarrow> bool option" where
  "uses_saved cache sr = do {
    unused \<leftarrow> all_opt (\<lambda>lr. all_opt (\<lambda>i. do { a \<leftarrow> get_at lr i; Some (as_reg a \<noteq> sr) }) [li_min lr .. li_max lr])
      (live_ranges cache);
    Some (\<not> unused) }"

definition used_saved :: "RegAllocCache \<Rightarrow> Register list option" where
  "used_saved cache =
    fold_opt (\<lambda>sr used. do { u \<leftarrow> uses_saved cache sr; Some (if u then used @ [sr] else used) }) (m_saved_all gRegInfo) []"

definition allocate_registers :: "AllocationInput \<Rightarrow> AllocationResult option" where
  "allocate_registers inp = do {
    let cache = new_cache\<lparr>is_asm_func := is_asm_function inp\<rparr>;
    cache \<leftarrow> find_basic_blocks cache inp;
    cache \<leftarrow> analyze_liveliness cache inp;
    cache \<leftarrow> do_constrained_alloc cache inp;
    ok \<leftarrow> check_constrained_alloc cache inp;
    if \<not> ok then Some new_result
    else do {
      cache \<leftarrow> run_allocator inp cache;
      as \<leftarrow> map_opt (\<lambda>i. do { lr \<leftarrow> array_at (live_ranges cache) i; copy_assignments inp lr }) [0 .. max_var cache - 1];
      used \<leftarrow> used_saved cache;
      Some (new_result\<lparr>res_ok := True, needs_aligned_stack_for_spills := used_stack cache,
        stack_slots_for_spills := current_stack_slot cache, stack_slots_for_vars := stack_slots_for_stack_vars inp,
        res_assignment := as, used_saved_regs := used, ass_as_ranges := live_ranges cache,
        res_stack_ops := stack_ops cache\<rparr>) }}"

end
