(* ===== verification/Color_Correct.thy ===== *)
theory Color_Correct
  imports Live_Analysis Coloring
begin

text \<open>
  What the colouring keeps: the ranges stay as they are, a register that is set stays set, and two
  variables share a register at an instruction only where one hands it over to the other.
\<close>

section \<open>Reading the state\<close>

abbreviation lr :: "RegAllocCache \<Rightarrow> int \<Rightarrow> LiveInfo" where
  "lr c v \<equiv> live_ranges c ! nat v"

definition in_range :: "LiveInfo \<Rightarrow> int \<Rightarrow> bool" where
  "in_range l i \<longleftrightarrow> li_min l \<le> i \<and> i \<le> li_max l"

definition entry :: "LiveInfo \<Rightarrow> int \<Rightarrow> Assignment" where
  "entry l i = assignment l ! nat (i - li_min l)"

definition hands_over :: "LiveInfo \<Rightarrow> LiveInfo \<Rightarrow> int \<Rightarrow> bool" where
  "hands_over l l' i \<longleftrightarrow>
    (dies_next_at_instr l i = Some True \<and> becomes_live_at_instr l' i = Some True) \<or>
    (becomes_live_at_instr l i = Some True \<and> dies_next_at_instr l' i = Some True)"

lemma hands_over_sym: "hands_over l l' i \<longleftrightarrow> hands_over l' l i"
  by (auto simp: hands_over_def)

text \<open>The part of a live range that colouring does not touch.\<close>

definition extent :: "LiveInfo \<Rightarrow> int \<times> int \<times> bool list \<times> int \<times> bool" where
  "extent l = (li_min l, li_max l, is_alive l, li_var l, seen l)"

lemma extent_same:
  assumes "extent l = extent l'"
  shows "li_min l = li_min l'" "li_max l = li_max l'" "is_alive l = is_alive l'" "li_var l = li_var l'" "seen l = seen l'"
    "in_range l = in_range l'" "dies_next_at_instr l = dies_next_at_instr l'" "becomes_live_at_instr l = becomes_live_at_instr l'"
proof -
  show e: "li_min l = li_min l'" "li_max l = li_max l'" "is_alive l = is_alive l'" "li_var l = li_var l'" "seen l = seen l'"
    using assms by (simp_all add: extent_def)
  show "in_range l = in_range l'" by (intro ext) (simp only: in_range_def e)
  show "dies_next_at_instr l = dies_next_at_instr l'" by (intro ext) (simp only: dies_next_at_instr_def e)
  show "becomes_live_at_instr l = becomes_live_at_instr l'" by (intro ext) (simp only: becomes_live_at_instr_def e)
qed

lemma hands_over_extent: "extent l = extent k \<Longrightarrow> extent l' = extent k' \<Longrightarrow> hands_over l l' i = hands_over k k' i"
  using extent_same(7,8) [of l k] extent_same(7,8) [of l' k'] by (simp add: hands_over_def)

text \<open>Two states with the same ranges, up to what is assigned.\<close>

definition same_extent :: "RegAllocCache \<Rightarrow> RegAllocCache \<Rightarrow> bool" where
  "same_extent c c' \<longleftrightarrow>
    length (live_ranges c') = length (live_ranges c) \<and> live_ranges_by_instr c' = live_ranges_by_instr c \<and> max_var c' = max_var c \<and>
    (\<forall>v < length (live_ranges c). extent (live_ranges c' ! v) = extent (live_ranges c ! v) \<and>
       length (assignment (live_ranges c' ! v)) = length (assignment (live_ranges c ! v)))"

lemma same_extent_refl [simp]: "same_extent c c"
  by (simp add: same_extent_def)

lemma same_extent_trans: "same_extent a b \<Longrightarrow> same_extent b c \<Longrightarrow> same_extent a c"
  by (simp add: same_extent_def)

definition ranges_wf :: "AllocationInput \<Rightarrow> RegAllocCache \<Rightarrow> bool" where
  "ranges_wf inp c \<longleftrightarrow>
    length (live_ranges c) = nat (max_vars inp) \<and>
    (\<forall>v < length (live_ranges c). li_var (live_ranges c ! v) = int v \<and>
      (seen (live_ranges c ! v) \<longleftrightarrow> (\<exists>i. alive inp (int v) i)) \<and>
      (seen (live_ranges c ! v) \<longrightarrow>
        length (assignment (live_ranges c ! v)) = nat (li_max (live_ranges c ! v) - li_min (live_ranges c ! v) + 1) \<and>
        (\<forall>i. alive inp (int v) i \<longrightarrow> in_range (live_ranges c ! v) i) \<and>
        0 \<le> li_min (live_ranges c ! v) \<and> li_max (live_ranges c ! v) < num_instrs inp)) \<and>
    length (live_ranges_by_instr c) = length (instructions inp) \<and>
    (\<forall>v i. alive inp v i \<longrightarrow> 0 \<le> v \<and> v < max_vars inp \<and> 0 \<le> i \<and> i < num_instrs inp \<and>
       v \<in> set (live_ranges_by_instr c ! nat i)) \<and>
    (\<forall>i < length (instructions inp). \<forall>v \<in> set (live_ranges_by_instr c ! i). alive inp v (int i))"

lemma ranges_wf_same:
  assumes "same_extent c c'" "ranges_wf inp c"
  shows "ranges_wf inp c'"
proof -
  note s = assms(1) [unfolded same_extent_def] and w = assms(2) [unfolded ranges_wf_def]
  have "li_var (live_ranges c' ! v) = int v \<and> (seen (live_ranges c' ! v) \<longleftrightarrow> (\<exists>i. alive inp (int v) i)) \<and>
      (seen (live_ranges c' ! v) \<longrightarrow>
        length (assignment (live_ranges c' ! v)) = nat (li_max (live_ranges c' ! v) - li_min (live_ranges c' ! v) + 1) \<and>
        (\<forall>i. alive inp (int v) i \<longrightarrow> in_range (live_ranges c' ! v) i) \<and>
        0 \<le> li_min (live_ranges c' ! v) \<and> li_max (live_ranges c' ! v) < num_instrs inp)" if "v < length (live_ranges c')" for v
  proof -
    have v: "v < length (live_ranges c)" using s that by simp
    then have "extent (live_ranges c' ! v) = extent (live_ranges c ! v)"
      "length (assignment (live_ranges c' ! v)) = length (assignment (live_ranges c ! v))" using s by blast+
    then show ?thesis using w v by (simp add: extent_same [of "live_ranges c' ! v" "live_ranges c ! v"])
  qed
  moreover have "length (live_ranges c') = length (live_ranges c)" "live_ranges_by_instr c' = live_ranges_by_instr c"
    using s by blast+
  ultimately show ?thesis using w unfolding ranges_wf_def by metis
qed

lemma range_ready_bounds:
  assumes "range_ready n v A l" "A \<noteq> {}" "\<forall>i \<in> A. 0 \<le> i \<and> i < n"
  shows "li_min l \<in> A" "li_max l \<in> A"
proof -
  obtain i where i: "i \<in> A" using assms(2) by blast
  have r: "\<forall>i \<in> A. 0 \<le> i \<and> li_min l \<le> i \<and> i \<le> li_max l" "li_min l = n \<or> li_min l \<in> A" "li_max l = 0 \<or> li_max l \<in> A"
    using assms(1,2) by (simp_all add: range_ready_def)
  show "li_min l \<in> A" using r(1,2) i assms(3) by force
  show "li_max l \<in> A"
  proof (cases "li_max l = 0")
    case True
    then have "i = 0" using r(1) i by force
    then show ?thesis using i True by simp
  qed (use r(3) in blast)
qed

lemma analysed_ranges_wf:
  assumes "analysed inp c"
  shows "ranges_wf inp c"
proof -
  note a = assms [unfolded analysed_def]
  have range: "0 \<le> v \<and> v < max_vars inp \<and> 0 \<le> i \<and> i < num_instrs inp" if "alive inp v i" for v i using a that by blast
  have v: "li_var (live_ranges c ! v) = int v \<and> (seen (live_ranges c ! v) \<longleftrightarrow> (\<exists>i. alive inp (int v) i)) \<and>
      (seen (live_ranges c ! v) \<longrightarrow>
        length (assignment (live_ranges c ! v)) = nat (li_max (live_ranges c ! v) - li_min (live_ranges c ! v) + 1) \<and>
        (\<forall>i. alive inp (int v) i \<longrightarrow> in_range (live_ranges c ! v) i) \<and>
        0 \<le> li_min (live_ranges c ! v) \<and> li_max (live_ranges c ! v) < num_instrs inp)" if "v < length (live_ranges c)" for v
  proof -
    let ?l = "live_ranges c ! v" and ?A = "{i. alive inp (int v) i}"
    have r: "range_ready (num_instrs inp) (int v) ?A ?l" using a that by blast
    have "li_min ?l \<in> ?A" "li_max ?l \<in> ?A" if "seen ?l"
      using range_ready_bounds [OF r] that r range by (auto simp: range_ready_def)
    then show ?thesis using r range by (simp add: range_ready_def in_range_def) blast
  qed
  have "(v, i) \<in> pairs_of (live_ranges_by_instr c) \<longleftrightarrow> alive inp v i" for v i using a by blast
  then have p: "alive inp v i \<longleftrightarrow> 0 \<le> i \<and> nat i < length (instructions inp) \<and> v \<in> set (live_ranges_by_instr c ! nat i)" for v i
    using a by (auto simp: pairs_of_def)
  have len: "length (live_ranges c) = nat (max_vars inp)" "length (live_ranges_by_instr c) = length (instructions inp)"
    using a by blast+
  show ?thesis
    unfolding ranges_wf_def
  proof (intro conjI allI impI ballI)
    fix v i assume al: "alive inp v i"
    show "0 \<le> v" "v < max_vars inp" "0 \<le> i" "i < num_instrs inp" using range [OF al] by blast+
    show "v \<in> set (live_ranges_by_instr c ! nat i)" using p al by blast
  next
    fix i v assume i: "i < length (instructions inp)" "v \<in> set (live_ranges_by_instr c ! i)"
    then show "alive inp v (int i)" using p [of v "int i"] by simp
  qed (use v len in blast)+
qed

section \<open>When an assignment fits\<close>

abbreviation ins_at :: "AllocationInput \<Rightarrow> int \<Rightarrow> RegAllocInstr" where
  "ins_at inp i \<equiv> instructions inp ! nat i"

definition free_at :: "AllocationInput \<Rightarrow> RegAllocCache \<Rightarrow> int \<Rightarrow> int \<Rightarrow> Register \<Rightarrow> bool" where
  "free_at inp c v i r \<longleftrightarrow>
    (\<forall>w. alive inp w i \<longrightarrow> w \<noteq> v \<longrightarrow> as_reg (entry (lr c w) i) = r \<longrightarrow> r \<noteq> no_reg \<longrightarrow> hands_over (lr c v) (lr c w) i)"

definition obeys :: "AllocationInput \<Rightarrow> LiveInfo \<Rightarrow> int \<Rightarrow> Assignment \<Rightarrow> bool" where
  "obeys inp l i a \<longleftrightarrow>
    (\<forall>r \<in> set (exclude (ins_at inp i)). \<not> occupies_reg a r) \<and>
    (li_min l < i \<and> i < li_max l \<longrightarrow> (\<forall>r \<in> set (clobber (ins_at inp i)). \<not> occupies_reg a r))"

definition fits :: "AllocationInput \<Rightarrow> RegAllocCache \<Rightarrow> int \<Rightarrow> int \<Rightarrow> Assignment \<Rightarrow> bool" where
  "fits inp c v i a \<longleftrightarrow> free_at inp c v i (as_reg a) \<and> obeys inp (lr c v) i a \<and>
    (is_assigned (entry (lr c v) i) \<longrightarrow> as_reg a = as_reg (entry (lr c v) i))"

lemma hand_over_True: "hand_over l l' i instr = Some True \<Longrightarrow>
  dies_next_at_instr l i = Some True \<and> becomes_live_at_instr l' i = Some True"
  by (auto simp: hand_over_def bind_eq_Some_conv split: if_splits)

lemma allowed_hands_over:
  assumes "allowed_by_move_eliminator instrs l l' i = Some True"
  shows "hands_over l l' i"
proof -
  obtain instr a b begins where h: "hand_over l l' i instr = Some a" "becomes_live_at_instr l i = Some begins"
    "(if begins then do { dies \<leftarrow> dies_next_at_instr l' i; Some (dies \<and> (allow_read_write_same_reg \<or> is_move instr)) } else Some False) = Some b"
    "a \<or> b"
    using assms unfolding allowed_by_move_eliminator_def move_eliminator_def enable_fancy_coloring_def
    by (auto simp: bind_eq_Some_conv simp del: array_at_Some)
  show ?thesis
  proof (cases a)
    case True
    then show ?thesis using hand_over_True h(1) by (auto simp: hands_over_def)
  next
    case False
    then show ?thesis using h(2-4) by (auto simp: hands_over_def bind_eq_Some_conv split: if_splits)
  qed
qed

lemma ranges_wfD:
  assumes "ranges_wf inp c" "alive inp v i"
  shows "0 \<le> v" "nat v < length (live_ranges c)" "0 \<le> i" "nat i < length (instructions inp)" "seen (lr c v)" "in_range (lr c v) i"
    "v \<in> set (live_ranges_by_instr c ! nat i)" "li_var (lr c v) = v"
proof -
  have al: "0 \<le> v \<and> v < max_vars inp \<and> 0 \<le> i \<and> i < num_instrs inp \<and> v \<in> set (live_ranges_by_instr c ! nat i)"
    using assms unfolding ranges_wf_def by blast
  then show "0 \<le> v" "0 \<le> i" "v \<in> set (live_ranges_by_instr c ! nat i)" "nat i < length (instructions inp)"
    by (simp_all add: num_instrs_def nat_less_iff)
  have len: "length (live_ranges c) = nat (max_vars inp)" using assms(1) unfolding ranges_wf_def by blast
  then show n: "nat v < length (live_ranges c)" using al by simp
  have "int (nat v) = v" using al by simp
  then show "seen (lr c v)" "in_range (lr c v) i" "li_var (lr c v) = v"
    using assms n unfolding ranges_wf_def by metis+
qed

lemma seen_range:
  assumes "ranges_wf inp c" "0 \<le> v" "nat v < length (live_ranges c)" "seen (lr c v)"
  shows "0 \<le> li_min (lr c v)" "li_max (lr c v) < num_instrs inp"
    "length (assignment (lr c v)) = nat (li_max (lr c v) - li_min (lr c v) + 1)" "li_var (lr c v) = v"
    "li_min (lr c v) \<le> li_max (lr c v)"
proof -
  show a: "0 \<le> li_min (lr c v)" "li_max (lr c v) < num_instrs inp"
    "length (assignment (lr c v)) = nat (li_max (lr c v) - li_min (lr c v) + 1)" "li_var (lr c v) = v"
    using assms unfolding ranges_wf_def by (metis int_nat_eq)+
  obtain i where "alive inp v i" using assms unfolding ranges_wf_def by (metis int_nat_eq)
  then show "li_min (lr c v) \<le> li_max (lr c v)" using ranges_wfD(6) [OF assms(1)] by (fastforce simp: in_range_def)
qed

lemma no_conflict_free:
  assumes wf: "ranges_wf inp c" and i: "0 \<le> i" "i < num_instrs inp"
    and all: "all_opt (no_conflict c inp v (lr c v) a i) (live_ranges_by_instr c ! nat i) = Some True"
  shows "free_at inp c v i (as_reg a)"
  unfolding free_at_def
proof (intro allI impI)
  fix w assume w: "alive inp w i" "w \<noteq> v" "as_reg (entry (lr c w) i) = as_reg a" "as_reg a \<noteq> no_reg"
  note d = ranges_wfD [OF wf w(1)]
  have nc: "no_conflict c inp v (lr c v) a i w = Some True" using all d(7) by (simp add: all_opt_True)
  have arr: "array_at (live_ranges c) w = Some (lr c w)" using d(1,2) by simp
  have "conflicts_at (lr c w) i a \<noteq> Some False"
    using d(6) w(3,4) by (auto simp: conflicts_at_def in_range_def bind_eq_Some_conv entry_def occupies_same_reg_def)
  then show "hands_over (lr c v) (lr c w) i"
    using nc d(8) w(2) allowed_hands_over unfolding no_conflict_def arr
    by (auto simp: bind_eq_Some_conv split: if_splits)
qed

lemma avoids_True:
  "avoids_clobber inp a i = Some True \<longleftrightarrow> 0 \<le> i \<and> nat i < length (instructions inp) \<and> (\<forall>r \<in> set (clobber (ins_at inp i)). \<not> occupies_reg a r)"
  "avoids_exclude inp a i = Some True \<longleftrightarrow> 0 \<le> i \<and> nat i < length (instructions inp) \<and> (\<forall>r \<in> set (exclude (ins_at inp i)). \<not> occupies_reg a r)"
  by (auto simp: avoids_clobber_def avoids_exclude_def bind_eq_Some_conv list_all_iff)

lemma can_var_be_assigned_fits:
  assumes wf: "ranges_wf inp c" and v: "0 \<le> v" "nat v < length (live_ranges c)" "seen (lr c v)"
    and ok: "can_var_be_assigned v a c inp = Some True" and i: "in_range (lr c v) i"
  shows "free_at inp c v i (as_reg a)" "obeys inp (lr c v) i a"
proof -
  let ?l = "lr c v"
  have arr: "array_at (live_ranges c) v = Some ?l" using v by simp
  have st: "all_opt (\<lambda>i. do { others \<leftarrow> array_at (live_ranges_by_instr c) i; all_opt (no_conflict c inp v ?l a i) others })
      [li_min ?l .. li_max ?l] = Some True"
    "all_opt (avoids_clobber inp a) [li_min ?l + 1 .. li_max ?l - 1] = Some True"
    "all_opt (avoids_exclude inp a) [li_min ?l .. li_max ?l] = Some True"
    using ok unfolding can_var_be_assigned_def arr by (auto simp: bind_eq_Some_conv Let_def split: if_splits)
  note s = seen_range [OF wf v]
  have inr: "0 \<le> i" "i < num_instrs inp" using i s(1,2) by (auto simp: in_range_def)
  have "all_opt (no_conflict c inp v ?l a i) (live_ranges_by_instr c ! nat i) = Some True"
    using st(1) i by (auto simp: all_opt_True in_range_def bind_eq_Some_conv)
  then show "free_at inp c v i (as_reg a)" by (rule no_conflict_free [OF wf inr])
  show "obeys inp (lr c v) i a"
    using st(2,3) i by (auto simp: all_opt_True in_range_def obeys_def avoids_True)
qed

lemma assignment_ok_at_fits:
  assumes wf: "ranges_wf inp c" and v: "0 \<le> v" "nat v < length (live_ranges c)" "seen (lr c v)"
    and ok: "assignment_ok_at v i a c inp = Some True" and i: "in_range (lr c v) i"
  shows "fits inp c v i a"
proof -
  let ?l = "lr c v"
  have arr: "array_at (live_ranges c) v = Some ?l" using v by simp
  have st: "all_opt (no_conflict c inp v ?l a i) (live_ranges_by_instr c ! nat i) = Some True"
    "i \<noteq> li_min ?l \<and> i \<noteq> li_max ?l \<Longrightarrow> avoids_clobber inp a i = Some True"
    "avoids_exclude inp a i = Some True" "is_assigned (entry ?l i) \<Longrightarrow> occupies_same_reg a (entry ?l i)"
    using ok unfolding assignment_ok_at_def arr by (auto simp: bind_eq_Some_conv entry_def split: if_splits)
  note s = seen_range [OF wf v]
  have inr: "0 \<le> i" "i < num_instrs inp" using i s(1,2) by (auto simp: in_range_def)
  show ?thesis
    unfolding fits_def obeys_def
    using no_conflict_free [OF wf inr st(1)] st(2-4) by (auto simp: avoids_True occupies_same_reg_def)
qed

section \<open>The invariant of the colouring\<close>

definition entry_ok :: "Assignment \<Rightarrow> bool" where
  "entry_ok a \<longleftrightarrow> (as_kind a = REGISTER \<longleftrightarrow> as_reg a \<noteq> no_reg)"

text \<open>A register may be asked for by a constraint or come from one of the orders for spilled variables, which contain the others.\<close>

definition legal_reg :: "AllocationInput \<Rightarrow> Register \<Rightarrow> bool" where
  "legal_reg inp r \<longleftrightarrow> r \<in> desired_register ` set (constraints inp) \<or>
    r \<in> set (m_gpr_spill_temp_alloc_order gRegInfo) \<or> r \<in> set (m_xmm_spill_temp_alloc_order gRegInfo)"

definition var_ok :: "RegAllocCache \<Rightarrow> int \<Rightarrow> bool" where
  "var_ok c v \<longleftrightarrow> 0 \<le> v \<and> nat v < length (live_ranges c) \<and> seen (lr c v)"

definition shared_ok :: "AllocationInput \<Rightarrow> RegAllocCache \<Rightarrow> bool" where
  "shared_ok inp c \<longleftrightarrow>
    (\<forall>v w i. alive inp v i \<longrightarrow> alive inp w i \<longrightarrow> v \<noteq> w \<longrightarrow>
       as_reg (entry (lr c v) i) = as_reg (entry (lr c w) i) \<longrightarrow> as_reg (entry (lr c v) i) \<noteq> no_reg \<longrightarrow>
       hands_over (lr c v) (lr c w) i)"

definition colored_at :: "AllocationInput \<Rightarrow> LiveInfo \<Rightarrow> int \<Rightarrow> int \<Rightarrow> bool" where
  "colored_at inp l v i \<longleftrightarrow>
    is_assigned (entry l i) \<and> obeys inp l i (entry l i) \<and>
    (reads (ins_at inp i) v \<or> writes (ins_at inp i) v \<longrightarrow> as_kind (entry l i) = REGISTER)"

definition entries_ok :: "AllocationInput \<Rightarrow> RegAllocCache \<Rightarrow> bool" where
  "entries_ok inp c \<longleftrightarrow>
    (\<forall>v i. var_ok c v \<longrightarrow> in_range (lr c v) i \<longrightarrow>
       entry_ok (entry (lr c v) i) \<and> (as_reg (entry (lr c v) i) = no_reg \<or> legal_reg inp (as_reg (entry (lr c v) i))))"

definition keeps_regs :: "RegAllocCache \<Rightarrow> RegAllocCache \<Rightarrow> bool" where
  "keeps_regs c c' \<longleftrightarrow>
    (\<forall>v i. var_ok c v \<longrightarrow> in_range (lr c v) i \<longrightarrow> as_reg (entry (lr c v) i) \<noteq> no_reg \<longrightarrow>
       as_reg (entry (lr c' v) i) = as_reg (entry (lr c v) i))"

definition hints_ok :: "AllocationInput \<Rightarrow> RegAllocCache \<Rightarrow> bool" where
  "hints_ok inp c \<longleftrightarrow>
    (\<forall>v. var_ok c v \<longrightarrow> is_assigned (best_hint (lr c v)) \<longrightarrow>
       entry_ok (best_hint (lr c v)) \<and> as_kind (best_hint (lr c v)) = REGISTER \<and> legal_reg inp (as_reg (best_hint (lr c v))))"

definition coloring :: "AllocationInput \<Rightarrow> RegAllocCache \<Rightarrow> int set \<Rightarrow> RegAllocCache \<Rightarrow> bool" where
  "coloring inp c1 D c \<longleftrightarrow>
    ranges_wf inp c \<and> same_extent c1 c \<and> shared_ok inp c \<and> entries_ok inp c \<and> keeps_regs c1 c \<and> hints_ok inp c \<and>
    (\<forall>v \<in> D. var_ok c v \<and> (\<forall>i. in_range (lr c v) i \<longrightarrow> colored_at inp (lr c v) v i)) \<and>
    (\<forall>v i. var_ok c v \<longrightarrow> v \<notin> D \<longrightarrow> in_range (lr c v) i \<longrightarrow> as_kind (entry (lr c v) i) \<noteq> STACK)"

text \<open>Giving one variable new entries, each of which fits.\<close>

definition recolored :: "int \<Rightarrow> RegAllocCache \<Rightarrow> RegAllocCache \<Rightarrow> bool" where
  "recolored v c c' \<longleftrightarrow>
    (\<exists>as. length as = length (assignment (lr c v)) \<and>
      live_ranges c' = (live_ranges c)[nat v := (lr c v)\<lparr>assignment := as\<rparr>]) \<and>
    live_ranges_by_instr c' = live_ranges_by_instr c \<and> max_var c' = max_var c"

lemma recolored_other: "recolored v c c' \<Longrightarrow> 0 \<le> v \<Longrightarrow> 0 \<le> w \<Longrightarrow> w \<noteq> v \<Longrightarrow> lr c' w = lr c w"
  by (auto simp: recolored_def)

lemma recolored_extent:
  assumes "recolored v c c'" "nat v < length (live_ranges c)"
  shows "same_extent c c'" "extent (lr c' v) = extent (lr c v)" "best_hint (lr c' v) = best_hint (lr c v)"
    "length (assignment (lr c' v)) = length (assignment (lr c v))" "has_constraint (lr c' v) = has_constraint (lr c v)"
proof -
  obtain as where as: "length as = length (assignment (lr c v))" "live_ranges c' = (live_ranges c)[nat v := (lr c v)\<lparr>assignment := as\<rparr>]"
    "live_ranges_by_instr c' = live_ranges_by_instr c" "max_var c' = max_var c" using assms(1) by (auto simp: recolored_def)
  show e: "extent (lr c' v) = extent (lr c v)" "best_hint (lr c' v) = best_hint (lr c v)"
    "length (assignment (lr c' v)) = length (assignment (lr c v))" "has_constraint (lr c' v) = has_constraint (lr c v)"
    using as(1,2) assms(2) by (simp_all add: extent_def)
  show "same_extent c c'"
    unfolding same_extent_def
  proof (intro conjI allI impI)
    fix w assume w: "w < length (live_ranges c)"
    show "extent (live_ranges c' ! w) = extent (live_ranges c ! w)"
      "length (assignment (live_ranges c' ! w)) = length (assignment (live_ranges c ! w))"
      using e as w by (cases "w = nat v"; simp)+
  qed (use as in simp_all)
qed

lemma recolor:
  assumes col: "coloring inp c1 D c" and v: "var_ok c v" and r: "recolored v c c'"
    and fit: "\<And>i. in_range (lr c v) i \<Longrightarrow> fits inp c v i (entry (lr c' v) i)"
    and ent: "\<And>i. in_range (lr c v) i \<Longrightarrow> entry_ok (entry (lr c' v) i) \<and> is_assigned (entry (lr c' v) i) \<and>
      (as_reg (entry (lr c' v) i) = no_reg \<or> legal_reg inp (as_reg (entry (lr c' v) i))) \<and>
      (reads (ins_at inp i) v \<or> writes (ins_at inp i) v \<longrightarrow> as_kind (entry (lr c' v) i) = REGISTER)"
  shows "coloring inp c1 (insert v D) c'"
proof -
  have vv: "0 \<le> v" "nat v < length (live_ranges c)" "seen (lr c v)" using v by (simp_all add: var_ok_def)
  note x = recolored_extent [OF r vv(2)] and other = recolored_other [OF r vv(1)]
  note c = col [unfolded coloring_def]
  have wf: "ranges_wf inp c" using c by blast
  have wf': "ranges_wf inp c'" using ranges_wf_same [OF x(1)] wf by blast
  have len: "length (live_ranges c') = length (live_ranges c)" using x(1) by (simp add: same_extent_def)
  have ext: "extent (lr c' w) = extent (lr c w)" if "0 \<le> w" for w using x(2) other [OF that] by (cases "w = v") simp_all
  note ext' = extent_same [OF ext]
  have ho: "hands_over (lr c' u) (lr c' w) i = hands_over (lr c u) (lr c w) i" if "0 \<le> u" "0 \<le> w" for u w i
    by (rule hands_over_extent [OF ext [OF that(1)] ext [OF that(2)]])
  have vok: "var_ok c' w \<longleftrightarrow> var_ok c w" for w using ext'(5) len by (auto simp: var_ok_def)
  have share_v: "hands_over (lr c v) (lr c w) i"
    if "alive inp v i" "alive inp w i" "w \<noteq> v" "as_reg (entry (lr c' v) i) = as_reg (entry (lr c w) i)" "as_reg (entry (lr c' v) i) \<noteq> no_reg" for w i
    using fit [of i] ranges_wfD(6) [OF wf that(1)] that unfolding fits_def free_at_def by auto
  have "shared_ok inp c'"
    unfolding shared_ok_def
  proof (intro allI impI)
    fix u w i assume a: "alive inp u i" "alive inp w i" "u \<noteq> w" "as_reg (entry (lr c' u) i) = as_reg (entry (lr c' w) i)" "as_reg (entry (lr c' u) i) \<noteq> no_reg"
    have nn: "0 \<le> u" "0 \<le> w" using ranges_wfD(1) [OF wf] a(1,2) by blast+
    show "hands_over (lr c' u) (lr c' w) i"
      unfolding ho [OF nn]
    proof (cases "u = v")
      case True
      then show "hands_over (lr c u) (lr c w) i" using share_v [of i w] a other [OF nn(2)] by simp
    next
      case F: False
      show "hands_over (lr c u) (lr c w) i"
      proof (cases "w = v")
        case True
        then have "hands_over (lr c w) (lr c u) i" using share_v [of i u] a other [OF nn(1) F] by simp
        then show ?thesis using hands_over_sym by blast
      next
        case False
        then show ?thesis using c a other [OF nn(1) F] other [OF nn(2) False] by (simp add: shared_ok_def)
      qed
    qed
  qed
  moreover have "entries_ok inp c'"
    unfolding entries_ok_def
  proof (intro allI impI)
    fix w i assume w: "var_ok c' w" "in_range (lr c' w) i"
    then have nn: "0 \<le> w" by (simp add: var_ok_def)
    show "entry_ok (entry (lr c' w) i) \<and> (as_reg (entry (lr c' w) i) = no_reg \<or> legal_reg inp (as_reg (entry (lr c' w) i)))"
      using c w ent [of i] other [OF nn] ext'(6) [OF nn] vok by (cases "w = v") (auto simp: entries_ok_def)
  qed
  moreover have "keeps_regs c1 c'"
    unfolding keeps_regs_def
  proof (intro allI impI)
    fix w i assume w: "var_ok c1 w" "in_range (lr c1 w) i" "as_reg (entry (lr c1 w) i) \<noteq> no_reg"
    then have nn: "0 \<le> w" by (simp add: var_ok_def)
    have old: "as_reg (entry (lr c w) i) = as_reg (entry (lr c1 w) i)" using c w by (simp add: keeps_regs_def)
    show "as_reg (entry (lr c' w) i) = as_reg (entry (lr c1 w) i)"
    proof (cases "w = v")
      case True
      have "extent (lr c v) = extent (lr c1 v)" using c w(1) True by (auto simp: same_extent_def var_ok_def)
      then have inr: "in_range (lr c v) i" using extent_same(6) w(2) True by metis
      have "entry_ok (entry (lr c v) i)" using c v inr by (simp add: entries_ok_def)
      then have "is_assigned (entry (lr c v) i)" using old w(3) True by (auto simp: entry_ok_def is_assigned_def)
      then show ?thesis using fit [OF inr] old True by (simp add: fits_def)
    qed (use old other [OF nn] in simp)
  qed
  moreover have "hints_ok inp c'"
    using c x(3) other vok unfolding hints_ok_def by (metis var_ok_def)
  moreover have "colored_at inp (lr c' w) w i" if w: "w \<in> insert v D" "in_range (lr c' w) i" for w i
  proof (cases "w = v")
    case True
    then have "in_range (lr c v) i" using w(2) ext'(6) [OF vv(1)] by simp
    then show ?thesis
      using fit [of i] ent [of i] True ext'(1,2) [OF vv(1)] by (simp add: colored_at_def fits_def obeys_def)
  next
    case False
    then have "w \<in> D" using w(1) by simp
    moreover from this have "0 \<le> w" using c by (auto simp: var_ok_def)
    ultimately show ?thesis using c other [OF _ False] w(2) by auto
  qed
  moreover have "\<forall>w \<in> insert v D. var_ok c' w" using c v vok by blast
  moreover have "as_kind (entry (lr c' w) i) \<noteq> STACK" if "var_ok c' w" "w \<notin> insert v D" "in_range (lr c' w) i" for w i
  proof -
    have w: "var_ok c w" "0 \<le> w" using that(1) vok by (blast, simp add: var_ok_def)
    have "\<forall>v i. var_ok c v \<longrightarrow> v \<notin> D \<longrightarrow> in_range (lr c v) i \<longrightarrow> as_kind (entry (lr c v) i) \<noteq> STACK" using c by blast
    then show ?thesis using w other [OF w(2)] that(2,3) by simp
  qed
  ultimately show ?thesis
    unfolding coloring_def using wf' same_extent_trans [OF _ x(1), of c1] c by meson
qed

section \<open>Trying a register\<close>

lemma entry_update:
  assumes "li_min l \<le> i" "nat (i - li_min l) < length (assignment l)" "li_min l \<le> j"
  shows "entry (l\<lparr>assignment := update_at (assignment l) (i - li_min l) a\<rparr>) j = (if j = i then a else entry l j)"
proof (cases "j = i")
  case False
  then have "nat (j - li_min l) \<noteq> nat (i - li_min l)" using assms by simp
  then show ?thesis using False by (simp add: entry_def update_at_def)
qed (use assms in \<open>simp add: entry_def update_at_def\<close>)

lemma assign_fold:
  assumes "fold_opt (\<lambda>i l. do {
        mine \<leftarrow> array_at (assignment l) (i - li_min l);
        if is_assigned mine \<and> \<not> occupies_same_reg mine a then None
        else Some (l\<lparr>assignment := update_at (assignment l) (i - li_min l) a\<rparr>) }) is l = Some l'"
    and "distinct is" "\<forall>i \<in> set is. li_min l \<le> i"
  shows "\<exists>as. l' = l\<lparr>assignment := as\<rparr> \<and> length as = length (assignment l) \<and>
    (\<forall>j \<ge> li_min l. entry l' j = (if j \<in> set is then a else entry l j)) \<and>
    (\<forall>i \<in> set is. is_assigned (entry l i) \<longrightarrow> as_reg a = as_reg (entry l i))"
  using assms
proof (induction "is" arbitrary: l)
  case Nil
  then show ?case by (intro exI [of _ "assignment l"]) simp
next
  case (Cons i js)
  let ?l = "l\<lparr>assignment := update_at (assignment l) (i - li_min l) a\<rparr>"
  have i: "li_min l \<le> i" "nat (i - li_min l) < length (assignment l)"
    "is_assigned (entry l i) \<Longrightarrow> as_reg a = as_reg (entry l i)"
    and f: "fold_opt (\<lambda>i l. do {
        mine \<leftarrow> array_at (assignment l) (i - li_min l);
        if is_assigned mine \<and> \<not> occupies_same_reg mine a then None
        else Some (l\<lparr>assignment := update_at (assignment l) (i - li_min l) a\<rparr>) }) js ?l = Some l'"
    using Cons.prems(1) by (auto simp: bind_eq_Some_conv entry_def occupies_same_reg_def split: if_splits)
  have e: "entry ?l j = (if j = i then a else entry l j)" if "li_min l \<le> j" for j
    using entry_update [OF i(1,2) that] .
  obtain as where as: "l' = ?l\<lparr>assignment := as\<rparr>" "length as = length (assignment l)"
    "\<And>j. li_min l \<le> j \<Longrightarrow> entry l' j = (if j \<in> set js then a else entry ?l j)"
    "\<And>k. k \<in> set js \<Longrightarrow> is_assigned (entry ?l k) \<Longrightarrow> as_reg a = as_reg (entry ?l k)"
    using Cons.IH [OF f] Cons.prems(2,3) by auto
  show ?case
  proof (intro exI [of _ as] conjI allI impI ballI)
    show "l' = l\<lparr>assignment := as\<rparr>" using as(1) by simp
    show "length as = length (assignment l)" by fact
    show "entry l' j = (if j \<in> set (i # js) then a else entry l j)" if "li_min l \<le> j" for j
      unfolding as(3) [OF that] e [OF that] by simp
    show "as_reg a = as_reg (entry l k)" if k: "k \<in> set (i # js)" "is_assigned (entry l k)" for k
    proof (cases "k = i")
      case False
      then have "entry ?l k = entry l k" "k \<in> set js" using e [of k] k(1) Cons.prems(3) by simp_all
      then show ?thesis using as(4) [of k] k(2) by simp
    qed (use i(3) k(2) in simp)
  qed
qed

lemma on_range_Some:
  assumes "on_range v f c = Some c'"
  obtains l where "0 \<le> v" "nat v < length (live_ranges c)" "f (lr c v) = Some l"
    "c' = c\<lparr>live_ranges := (live_ranges c)[nat v := l]\<rparr>"
  using assms by (auto simp: on_range_def bind_eq_Some_conv update_at_def)

lemma try_assignment_ok:
  assumes col: "coloring inp c1 D c" and v: "var_ok c v"
    and a: "as_kind a = REGISTER" "entry_ok a" "legal_reg inp (as_reg a)"
    and tr: "try_assignment_for_var v a inp c = Some (b, c')"
  shows "if b then coloring inp c1 (insert v D) c' else c' = c"
proof (cases b)
  case False
  then show ?thesis using tr by (auto simp: try_assignment_for_var_def bind_eq_Some_conv split: if_splits)
next
  case True
  then have can: "can_var_be_assigned v a c inp = Some True" and asg: "assign_var_no_check v a c = Some c'"
    using tr by (auto simp: try_assignment_for_var_def bind_eq_Some_conv split: if_splits)
  have vv: "0 \<le> v" "nat v < length (live_ranges c)" "seen (lr c v)" using v by (simp_all add: var_ok_def)
  have wf: "ranges_wf inp c" using col by (simp add: coloring_def)
  obtain l where l: "assign_no_overwrite a (lr c v) = Some l" "c' = c\<lparr>live_ranges := (live_ranges c)[nat v := l]\<rparr>"
    using asg unfolding assign_var_no_check_def by (rule on_range_Some) auto
  have "fold_opt (\<lambda>i l. do {
        mine \<leftarrow> array_at (assignment l) (i - li_min l);
        if is_assigned mine \<and> \<not> occupies_same_reg mine a then None
        else Some (l\<lparr>assignment := update_at (assignment l) (i - li_min l) a\<rparr>) })
      [li_min (lr c v) .. li_max (lr c v)] (lr c v) = Some l"
    using l(1) by (simp add: assign_no_overwrite_def)
  then obtain as where as: "l = (lr c v)\<lparr>assignment := as\<rparr>" "length as = length (assignment (lr c v))"
    "\<forall>j \<ge> li_min (lr c v). entry l j = (if j \<in> set [li_min (lr c v) .. li_max (lr c v)] then a else entry (lr c v) j)"
    "\<forall>i \<in> set [li_min (lr c v) .. li_max (lr c v)]. is_assigned (entry (lr c v) i) \<longrightarrow> as_reg a = as_reg (entry (lr c v) i)"
    using assign_fold [of a "[li_min (lr c v) .. li_max (lr c v)]" "lr c v" l] by auto
  have r: "recolored v c c'" using l(2) as(1,2) by (auto simp: recolored_def)
  have lv: "lr c' v = l" using l(2) vv by simp
  have e: "entry (lr c' v) i = a" if "in_range (lr c v) i" for i
    using as(3) that by (simp add: lv in_range_def)
  have "coloring inp c1 (insert v D) c'"
  proof (rule recolor [OF col v r])
    fix i assume i: "in_range (lr c v) i"
    show "fits inp c v i (entry (lr c' v) i)"
      unfolding e [OF i] fits_def
      using can_var_be_assigned_fits [OF wf vv can i] as(4) i by (auto simp: in_range_def)
    show "entry_ok (entry (lr c' v) i) \<and> is_assigned (entry (lr c' v) i) \<and>
      (as_reg (entry (lr c' v) i) = no_reg \<or> legal_reg inp (as_reg (entry (lr c' v) i))) \<and>
      (reads (ins_at inp i) v \<or> writes (ins_at inp i) v \<longrightarrow> as_kind (entry (lr c' v) i) = REGISTER)"
      unfolding e [OF i] using a by (simp add: is_assigned_def)
  qed
  then show ?thesis using True by simp
qed

section \<open>Spilling\<close>

lemma set_assignment_Some:
  assumes "set_assignment v i a c = Some c'" "li_min (lr c v) \<le> i"
  shows "recolored v c c'" "entry (lr c' v) i = a" "\<And>j. li_min (lr c v) \<le> j \<Longrightarrow> j \<noteq> i \<Longrightarrow> entry (lr c' v) j = entry (lr c v) j"
proof -
  obtain l where v: "0 \<le> v" "nat v < length (live_ranges c)"
    and l: "(do { as \<leftarrow> modify_at (assignment (lr c v)) (i - li_min (lr c v)) (\<lambda>_. a); Some ((lr c v)\<lparr>assignment := as\<rparr>) }) = Some l"
    "c' = c\<lparr>live_ranges := (live_ranges c)[nat v := l]\<rparr>"
    using assms(1) unfolding set_assignment_def by (rule on_range_Some) auto
  then have i: "nat (i - li_min (lr c v)) < length (assignment (lr c v))"
    "l = (lr c v)\<lparr>assignment := update_at (assignment (lr c v)) (i - li_min (lr c v)) a\<rparr>"
    by (auto simp: bind_eq_Some_conv modify_at_Some update_at_def)
  show "recolored v c c'"
    unfolding recolored_def
    by (intro conjI exI [of _ "update_at (assignment (lr c v)) (i - li_min (lr c v)) a"]) (simp_all add: l(2) i(2))
  have lv: "lr c' v = l" using l(2) v by simp
  note u = entry_update [OF assms(2) i(1)]
  show "entry (lr c' v) i = a" using u [OF assms(2), of a] by (simp add: lv i(2))
  show "entry (lr c' v) j = entry (lr c v) j" if "li_min (lr c v) \<le> j" "j \<noteq> i" for j
    using u [OF that(1), of a] that(2) by (simp add: lv i(2))
qed

lemma recolored_trans:
  assumes "recolored v a b" "recolored v b c" "nat v < length (live_ranges a)"
  shows "recolored v a c"
proof -
  obtain as where as: "length as = length (assignment (lr a v))" "live_ranges b = (live_ranges a)[nat v := (lr a v)\<lparr>assignment := as\<rparr>]"
    "live_ranges_by_instr b = live_ranges_by_instr a" "max_var b = max_var a" using assms(1) by (auto simp: recolored_def)
  obtain bs where "length bs = length (assignment (lr b v))" "live_ranges c = (live_ranges b)[nat v := (lr b v)\<lparr>assignment := bs\<rparr>]"
    "live_ranges_by_instr c = live_ranges_by_instr b" "max_var c = max_var b" using assms(2) by (auto simp: recolored_def)
  then show ?thesis unfolding recolored_def using as assms(3) by (intro conjI exI [of _ bs]) simp_all
qed

lemma recolored_stack:
  "live_ranges c' = live_ranges c \<Longrightarrow> live_ranges_by_instr c' = live_ranges_by_instr c \<Longrightarrow> max_var c' = max_var c \<Longrightarrow> recolored v c c'"
  unfolding recolored_def by (intro conjI exI [of _ "assignment (lr c v)"]) simp_all

lemma get_stack_slot_frame:
  assumes "get_stack_slot_for_var v c = Some (s, c')"
  shows "live_ranges c' = live_ranges c" "live_ranges_by_instr c' = live_ranges_by_instr c" "iregs c' = iregs c" "stack_ops c' = stack_ops c" "max_var c' = max_var c"
  using assms by (auto simp: get_stack_slot_for_var_def bind_eq_Some_conv Let_def split: option.splits)

lemma fits_recolored:
  assumes r: "recolored v c c'" and v: "var_ok c v" and wf: "ranges_wf inp c"
    and same: "entry (lr c' v) i = entry (lr c v) i"
  shows "fits inp c' v i a \<longleftrightarrow> fits inp c v i a"
proof -
  have vv: "0 \<le> v" "nat v < length (live_ranges c)" using v by (simp_all add: var_ok_def)
  note e = recolored_extent(2) [OF r vv(2)]
  have "(w \<noteq> v \<longrightarrow> as_reg (entry (lr c' w) i) = q \<longrightarrow> q \<noteq> no_reg \<longrightarrow> hands_over (lr c' v) (lr c' w) i) \<longleftrightarrow>
      (w \<noteq> v \<longrightarrow> as_reg (entry (lr c w) i) = q \<longrightarrow> q \<noteq> no_reg \<longrightarrow> hands_over (lr c v) (lr c w) i)" if "alive inp w i" for w q
    using recolored_other [OF r vv(1) ranges_wfD(1) [OF wf that]] hands_over_extent [OF e refl] by auto
  then have "free_at inp c' v i q = free_at inp c v i q" for q unfolding free_at_def by blast
  moreover have "obeys inp (lr c' v) i a = obeys inp (lr c v) i a" using extent_same(1,2) [OF e] by (simp add: obeys_def)
  ultimately show ?thesis using same by (simp add: fits_def)
qed

lemma first_ok_Some: "first_ok p rs = Some (Some r) \<Longrightarrow> r \<in> set rs \<and> p r = Some True"
  by (induction rs) (auto simp: bind_eq_Some_conv split: if_splits)

lemma spill_order_legal: "get_default_alloc_order_for_var_spill v c = Some rs \<Longrightarrow> r \<in> set rs \<Longrightarrow> legal_reg inp r"
proof -
  assume a: "get_default_alloc_order_for_var_spill v c = Some rs" "r \<in> set rs"
  then obtain kind where "(case kind of GPR \<Rightarrow> Some (m_gpr_spill_temp_alloc_order gRegInfo)
      | XMM \<Rightarrow> Some (m_xmm_spill_temp_alloc_order gRegInfo) | INVALID \<Rightarrow> None) = Some rs"
    unfolding get_default_alloc_order_for_var_spill_def by (auto simp: bind_eq_Some_conv)
  then show ?thesis using a(2) by (cases kind) (auto simp: legal_reg_def)
qed

lemma in_reg_fields [simp]: "as_kind (in_reg r) = REGISTER" "as_reg (in_reg r) = r"
  by (simp_all add: in_reg_def)

text \<open>What the entry of a spilled variable satisfies.\<close>

definition good_entry :: "AllocationInput \<Rightarrow> RegAllocCache \<Rightarrow> int \<Rightarrow> int \<Rightarrow> Assignment \<Rightarrow> bool" where
  "good_entry inp c v i a \<longleftrightarrow> fits inp c v i a \<and> entry_ok a \<and> is_assigned a \<and> (as_reg a = no_reg \<or> legal_reg inp (as_reg a)) \<and>
    (reads (ins_at inp i) v \<or> writes (ins_at inp i) v \<longrightarrow> as_kind a = REGISTER)"

definition hint_ok :: "AllocationInput \<Rightarrow> Assignment \<Rightarrow> bool" where
  "hint_ok inp h \<longleftrightarrow> (as_kind h = REGISTER \<longrightarrow> as_reg h \<noteq> no_reg \<and> legal_reg inp (as_reg h))"

lemma fits_cong: "as_reg a = as_reg b \<Longrightarrow> fits inp c v i a \<longleftrightarrow> fits inp c v i b"
  by (simp add: fits_def obeys_def occupies_reg_def)

lemma pick_temp_ok:
  assumes wf: "ranges_wf inp c" and v: "0 \<le> v" "nat v < length (live_ranges c)" "seen (lr c v)" and i: "in_range (lr c v) i"
    and h: "hint_ok inp hint" and p: "pick_temp v i hint c inp = Some r"
  shows "r \<noteq> no_reg" "legal_reg inp r" "\<And>a. as_reg a = r \<Longrightarrow> fits inp c v i a"
proof -
  obtain fh ro where fh: "(if as_kind hint = REGISTER then do { ok \<leftarrow> assignment_ok_at v i hint c inp; Some (if ok then as_reg hint else no_reg) }
      else Some no_reg) = Some fh" and ro: "get_default_alloc_order_for_var_spill v c = Some ro"
    and rest: "(if fh = no_reg then do {
      found \<leftarrow> first_ok (\<lambda>r. assignment_ok_at v i (in_reg r) c inp) ro;
      r \<leftarrow> found; assert_opt (r \<noteq> no_reg); Some r } else Some fh) = Some r"
  proof -
    let ?fh = "if as_kind hint = REGISTER then do { ok \<leftarrow> assignment_ok_at v i hint c inp; Some (if ok then as_reg hint else no_reg) } else Some no_reg"
    obtain fh where f: "?fh = Some fh" using p unfolding pick_temp_def by (cases ?fh) simp_all
    obtain ro where g: "get_default_alloc_order_for_var_spill v c = Some ro"
      using p unfolding pick_temp_def f by (cases "get_default_alloc_order_for_var_spill v c") simp_all
    show thesis using that [OF f g] p unfolding pick_temp_def f g by simp
  qed
  have "r \<noteq> no_reg \<and> legal_reg inp r \<and> (\<exists>a. as_reg a = r \<and> fits inp c v i a)"
  proof (cases "fh = no_reg")
    case True
    then have "first_ok (\<lambda>r. assignment_ok_at v i (in_reg r) c inp) ro = Some (Some r)" "r \<noteq> no_reg"
      using rest by (auto simp: bind_eq_Some_conv assert_opt_def split: if_splits)
    note fo = first_ok_Some [OF this(1)]
    have "fits inp c v i (in_reg r)" using assignment_ok_at_fits [OF wf v _ i] fo by simp
    then show ?thesis using spill_order_legal [OF ro] fo \<open>r \<noteq> no_reg\<close> by (metis in_reg_fields(2))
  next
    case False
    then have "as_kind hint = REGISTER" "r = as_reg hint" "assignment_ok_at v i hint c inp = Some True"
      using fh rest by (auto simp: bind_eq_Some_conv split: if_splits)
    then show ?thesis using h assignment_ok_at_fits [OF wf v _ i] by (auto simp: hint_ok_def)
  qed
  then obtain b where b: "r \<noteq> no_reg" "legal_reg inp r" "as_reg b = r" "fits inp c v i b" by blast
  show "r \<noteq> no_reg" "legal_reg inp r" by fact+
  show "fits inp c v i a" if "as_reg a = r" for a using fits_cong [of a b] that b(3,4) by simp
qed

text \<open>One instruction of the loop.\<close>

lemma spill_at_ok:
  assumes wf: "ranges_wf inp c" and v: "var_ok c v" and i: "in_range (lr c v) i"
    and ent: "entry_ok (entry (lr c v) i)" "as_reg (entry (lr c v) i) = no_reg \<or> legal_reg inp (as_reg (entry (lr c v) i))"
    and ns: "as_kind (entry (lr c v) i) \<noteq> STACK"
    and h: "hint_ok inp hint" and s: "spill_at v inp i (hint, c) = Some (hint', c')"
  shows "recolored v c c'" "good_entry inp c v i (entry (lr c' v) i)" "hint_ok inp hint'"
    "\<And>j. li_min (lr c v) \<le> j \<Longrightarrow> j \<noteq> i \<Longrightarrow> entry (lr c' v) j = entry (lr c v) j"
proof -
  have vv: "0 \<le> v" "nat v < length (live_ranges c)" "seen (lr c v)" using v by (simp_all add: var_ok_def)
  have imin: "li_min (lr c v) \<le> i" using i by (simp add: in_range_def)
  note sr = seen_range [OF wf vv]
  have ilen: "0 \<le> i" "nat i < length (instructions inp)" using i sr(1,2) by (auto simp: in_range_def num_instrs_def nat_less_iff)
  have elen: "nat (i - li_min (lr c v)) < length (assignment (lr c v))" using i sr(3) by (auto simp: in_range_def)
  let ?cur = "entry (lr c v) i" and ?op = "ins_at inp i"
  let ?used = "reads ?op v \<or> writes ?op v"
  have arr: "array_at (live_ranges c) v = Some (lr c v)" "array_at (assignment (lr c v)) (i - li_min (lr c v)) = Some ?cur"
    "array_at (instructions inp) i = Some ?op"
    using vv ilen elen imin by (simp_all add: entry_def)
  define mid where "mid = (if is_assigned ?cur then do {
         ok \<leftarrow> assignment_ok_at v i ?cur c inp;
         assert_opt ok;
         (slot, cache) \<leftarrow> get_stack_slot_for_var v c;
         cache \<leftarrow> set_assignment v i (?cur\<lparr>spilled := True, stack_slot := slot\<rparr>) cache;
         Some (?cur, as_reg ?cur, cache) }
       else do {
         let spill = no_assignment\<lparr>spilled := True, as_kind := STACK, as_reg := no_reg\<rparr>;
         spill \<leftarrow> (if ?used then do {
                     r \<leftarrow> pick_temp v i hint c inp;
                     Some (spill\<lparr>as_reg := r, as_kind := REGISTER\<rparr>) }
                   else Some spill);
         (slot, cache) \<leftarrow> get_stack_slot_for_var v c;
         cache \<leftarrow> set_assignment v i (spill\<lparr>stack_slot := slot\<rparr>) cache;
         Some (hint, as_reg spill, cache) })"
  obtain reg c1 slot c2 where m: "mid = Some (hint', reg, c1)" and g2: "get_stack_slot_for_var v c1 = Some (slot, c2)"
    and c': "live_ranges c' = live_ranges c2" "live_ranges_by_instr c' = live_ranges_by_instr c2" "max_var c' = max_var c2"
  proof -
    have eq: "spill_at v inp i (hint, c) = do {
        info \<leftarrow> array_at (iregs c) v;
        (hint, reg, cache) \<leftarrow> mid;
        (slot, cache) \<leftarrow> get_stack_slot_for_var v cache;
        if ?used then do {
          ops \<leftarrow> modify_at (stack_ops cache) i (\<lambda>ops. ops @
            [\<lparr>op_slot = slot, op_reg = reg, op_reg_class = ireg_class info, op_load = reads ?op v, op_store = writes ?op v\<rparr>]);
          Some (hint, cache\<lparr>stack_ops := ops\<rparr>) }
        else Some (hint, cache) }"
      by (simp only: spill_at_def arr mid_def Let_def prod.case bind.bind_lunit)
    obtain info where i: "array_at (iregs c) v = Some info" using s unfolding eq by (cases "array_at (iregs c) v") (simp_all del: array_at_None)
    obtain h1 reg c1 where m: "mid = Some (h1, reg, c1)" using s unfolding eq i by (cases mid) auto
    obtain slot c2 where g: "get_stack_slot_for_var v c1 = Some (slot, c2)"
      using s unfolding eq i m by (cases "get_stack_slot_for_var v c1") auto
    have "(if ?used then do {
          ops \<leftarrow> modify_at (stack_ops c2) i (\<lambda>ops. ops @
            [\<lparr>op_slot = slot, op_reg = reg, op_reg_class = ireg_class info, op_load = reads ?op v, op_store = writes ?op v\<rparr>]);
          Some (h1, c2\<lparr>stack_ops := ops\<rparr>) }
        else Some (h1, c2)) = Some (hint', c')"
      using s unfolding eq by (simp add: i m g del: array_at_Some)
    then have "h1 = hint'" "live_ranges c' = live_ranges c2" "live_ranges_by_instr c' = live_ranges_by_instr c2" "max_var c' = max_var c2"
      by (auto simp: bind_eq_Some_conv split: if_splits)
    then show thesis using that [of reg c1 slot c2] m g by simp
  qed
  have "\<exists>c0 a. live_ranges c0 = live_ranges c \<and> live_ranges_by_instr c0 = live_ranges_by_instr c \<and> max_var c0 = max_var c \<and>
      set_assignment v i a c0 = Some c1 \<and> good_entry inp c v i a \<and> hint_ok inp hint'"
  proof (cases "is_assigned ?cur")
    case True
    obtain slot c0 where ok: "assignment_ok_at v i ?cur c inp = Some True" and g: "get_stack_slot_for_var v c = Some (slot, c0)"
      and st: "set_assignment v i (?cur\<lparr>spilled := True, stack_slot := slot\<rparr>) c0 = Some c1" "hint' = ?cur"
    proof -
      let ?st = "\<lambda>slot c0. set_assignment v i (?cur\<lparr>spilled := True, stack_slot := slot\<rparr>) c0"
      have mt: "do {
         ok \<leftarrow> assignment_ok_at v i ?cur c inp;
         assert_opt ok;
         (slot, cache) \<leftarrow> get_stack_slot_for_var v c;
         cache \<leftarrow> ?st slot cache;
         Some (?cur, as_reg ?cur, cache) } = Some (hint', reg, c1)"
        using m True unfolding mid_def by simp
      then have ok: "assignment_ok_at v i ?cur c inp = Some True" by (cases "assignment_ok_at v i ?cur c inp") (simp_all add: assert_opt_def split: if_splits)
      obtain slot c0 where g: "get_stack_slot_for_var v c = Some (slot, c0)"
        using mt unfolding ok by (cases "get_stack_slot_for_var v c") (auto simp: assert_opt_def)
      have "?st slot c0 = Some c1 \<and> hint' = ?cur"
        using mt unfolding ok g by (cases "?st slot c0") (simp_all add: assert_opt_def)
      then show thesis using that [OF ok g] by blast
    qed
    have fit: "fits inp c v i ?cur" using assignment_ok_at_fits [OF wf vv ok i] .
    have e: "entry_ok ?cur \<and> (as_reg ?cur = no_reg \<or> legal_reg inp (as_reg ?cur))" using ent by blast
    have reg: "as_kind ?cur = REGISTER" using True ns by (cases "as_kind ?cur") (simp_all add: is_assigned_def)
    have "good_entry inp c v i (?cur\<lparr>spilled := True, stack_slot := slot\<rparr>)"
      using fit e reg fits_cong [of "?cur\<lparr>spilled := True, stack_slot := slot\<rparr>" ?cur]
      by (auto simp: good_entry_def entry_ok_def is_assigned_def)
    moreover have "hint_ok inp hint'" using e reg st(2) by (auto simp: hint_ok_def entry_ok_def)
    ultimately show ?thesis using get_stack_slot_frame [OF g] st(1) by blast
  next
    case False
    let ?sp = "no_assignment\<lparr>spilled := True, as_kind := STACK, as_reg := no_reg\<rparr>"
    obtain spill slot c0 where sp: "(if ?used then do { r \<leftarrow> pick_temp v i hint c inp; Some (?sp\<lparr>as_reg := r, as_kind := REGISTER\<rparr>) } else Some ?sp) = Some spill"
      and g: "get_stack_slot_for_var v c = Some (slot, c0)" and st: "set_assignment v i (spill\<lparr>stack_slot := slot\<rparr>) c0 = Some c1" "hint' = hint"
    proof -
      let ?s = "if ?used then do { r \<leftarrow> pick_temp v i hint c inp; Some (?sp\<lparr>as_reg := r, as_kind := REGISTER\<rparr>) } else Some ?sp"
      let ?st = "\<lambda>spill slot c0. set_assignment v i (spill\<lparr>stack_slot := slot\<rparr>) c0"
      have mt: "do {
         spill \<leftarrow> ?s;
         (slot, cache) \<leftarrow> get_stack_slot_for_var v c;
         cache \<leftarrow> ?st spill slot cache;
         Some (hint, as_reg spill, cache) } = Some (hint', reg, c1)"
        using m False unfolding mid_def Let_def by simp
      obtain spill where sp: "?s = Some spill" using mt by (cases ?s) simp_all
      obtain slot c0 where g: "get_stack_slot_for_var v c = Some (slot, c0)"
        using mt unfolding sp by (cases "get_stack_slot_for_var v c") auto
      have "?st spill slot c0 = Some c1 \<and> hint' = hint"
        using mt unfolding sp g by (cases "?st spill slot c0") simp_all
      then show thesis using that [OF sp g] by blast
    qed
    have "good_entry inp c v i (spill\<lparr>stack_slot := slot\<rparr>)"
    proof (cases ?used)
      case True
      then obtain r where r: "pick_temp v i hint c inp = Some r" "spill = ?sp\<lparr>as_reg := r, as_kind := REGISTER\<rparr>"
        using sp by (auto simp: bind_eq_Some_conv)
      note pt = pick_temp_ok [OF wf vv i h r(1)]
      show ?thesis using pt(1,2) pt(3) [of "spill\<lparr>stack_slot := slot\<rparr>"] r(2)
        by (simp add: good_entry_def entry_ok_def is_assigned_def)
    next
      case F: False
      then have "spill = ?sp" using sp by simp
      then show ?thesis using F False
        by (simp add: good_entry_def entry_ok_def is_assigned_def fits_def free_at_def obeys_def occupies_reg_def)
    qed
    then show ?thesis using get_stack_slot_frame [OF g] st h by blast
  qed
  then obtain c0 a where c0: "live_ranges c0 = live_ranges c" "live_ranges_by_instr c0 = live_ranges_by_instr c" "max_var c0 = max_var c"
    and st: "set_assignment v i a c0 = Some c1" and good: "good_entry inp c v i a" and h': "hint_ok inp hint'" by blast
  have lmin: "li_min (lr c0 v) \<le> i" using imin c0(1) by simp
  note sa = set_assignment_Some [OF st lmin]
  have lr': "live_ranges c' = live_ranges c1" "live_ranges_by_instr c' = live_ranges_by_instr c1" "max_var c' = max_var c1"
    using c' get_stack_slot_frame [OF g2] by simp_all
  show "recolored v c c'" using sa(1) lr' c0 by (simp add: recolored_def)
  show "good_entry inp c v i (entry (lr c' v) i)" using sa(2) lr' good by simp
  show "hint_ok inp hint'" by fact
  show "entry (lr c' v) j = entry (lr c v) j" if "li_min (lr c v) \<le> j" "j \<noteq> i" for j
    using sa(3) [of j] that lr' c0(1) by simp
qed

lemma coloringD:
  assumes "coloring inp c1 D c"
  shows "ranges_wf inp c" "same_extent c1 c" "shared_ok inp c" "entries_ok inp c" "keeps_regs c1 c" "hints_ok inp c"
    "\<And>v. v \<in> D \<Longrightarrow> var_ok c v" "\<And>v i. v \<in> D \<Longrightarrow> in_range (lr c v) i \<Longrightarrow> colored_at inp (lr c v) v i"
    "\<And>v i. var_ok c v \<Longrightarrow> v \<notin> D \<Longrightarrow> in_range (lr c v) i \<Longrightarrow> as_kind (entry (lr c v) i) \<noteq> STACK"
  using assms unfolding coloring_def by blast+

lemma spill_fold:
  assumes wf: "ranges_wf inp c" and ent: "entries_ok inp c" and v: "var_ok c v"
    and ns: "\<And>i. in_range (lr c v) i \<Longrightarrow> as_kind (entry (lr c v) i) \<noteq> STACK"
  shows "fold_opt (spill_at v inp) is (hint, k) = Some (hint', c') \<Longrightarrow> recolored v c k \<Longrightarrow> hint_ok inp hint \<Longrightarrow> distinct is \<Longrightarrow>
    (\<And>i. i \<in> set is \<Longrightarrow> in_range (lr c v) i \<and> entry (lr k v) i = entry (lr c v) i) \<Longrightarrow>
    recolored v c c' \<and> (\<forall>i \<in> set is. good_entry inp c v i (entry (lr c' v) i)) \<and>
    (\<forall>j \<ge> li_min (lr c v). j \<notin> set is \<longrightarrow> entry (lr c' v) j = entry (lr k v) j)"
proof (induction "is" arbitrary: hint k)
  case (Cons i js)
  have vv: "0 \<le> v" "nat v < length (live_ranges c)" using v by (simp_all add: var_ok_def)
  note rk = Cons.prems(2) and here = Cons.prems(5) [of i]
  note x = recolored_extent [OF rk vv(2)] and e = extent_same [OF recolored_extent(2) [OF rk vv(2)]]
  have wfk: "ranges_wf inp k" by (rule ranges_wf_same [OF x(1) wf])
  have vk: "var_ok k v" using v e(5) x(1) by (simp add: var_ok_def same_extent_def)
  have i: "in_range (lr c v) i" "entry (lr k v) i = entry (lr c v) i" using here by simp_all
  then have ik: "in_range (lr k v) i" using e(6) by simp
  obtain h1 k1 where s: "spill_at v inp i (hint, k) = Some (h1, k1)" and f: "fold_opt (spill_at v inp) js (h1, k1) = Some (hint', c')"
    using Cons.prems(1) by (cases "spill_at v inp i (hint, k)") auto
  have ent': "entry_ok (entry (lr k v) i)" "as_reg (entry (lr k v) i) = no_reg \<or> legal_reg inp (as_reg (entry (lr k v) i))"
    "as_kind (entry (lr k v) i) \<noteq> STACK"
    using ent v i ns [OF i(1)] by (simp_all add: entries_ok_def)
  note sp = spill_at_ok [OF wfk vk ik ent' Cons.prems(3) s]
  have r1: "recolored v c k1" by (rule recolored_trans [OF rk sp(1) vv(2)])
  have good: "good_entry inp c v i (entry (lr k1 v) i)"
    using sp(2) fits_recolored [OF rk v wf i(2)] by (simp add: good_entry_def)
  have un: "in_range (lr c v) j \<and> entry (lr k1 v) j = entry (lr c v) j" if "j \<in> set js" for j
    using Cons.prems(5) [of j] sp(4) [of j] that Cons.prems(4) e(1) by (auto simp: in_range_def)
  have dist: "distinct js" and nin: "i \<notin> set js" using Cons.prems(4) by simp_all
  note IH = Cons.IH [OF f r1 sp(3) dist un]
  have imin: "li_min (lr c v) \<le> i" using i(1) by (simp add: in_range_def)
  show ?case
  proof (intro conjI ballI allI impI)
    show "recolored v c c'" using IH by blast
    show "good_entry inp c v j (entry (lr c' v) j)" if "j \<in> set (i # js)" for j
      using IH good nin imin that by (cases "j = i") auto
    show "entry (lr c' v) j = entry (lr k v) j" if "li_min (lr c v) \<le> j" "j \<notin> set (i # js)" for j
      using IH sp(4) [of j] that e(1) by auto
  qed
qed simp

lemma try_spill_coloring_ok:
  assumes col: "coloring inp c1 D c" and v: "var_ok c v" "v \<notin> D" and s: "try_spill_coloring v inp c = Some c'"
  shows "coloring inp c1 (insert v D) c'"
proof -
  have arr: "array_at (live_ranges c) v = Some (lr c v)" using v(1) by (simp add: var_ok_def)
  obtain h where f: "fold_opt (spill_at v inp) [li_min (lr c v) .. li_max (lr c v)] (no_assignment, c) = Some (h, c')"
    using s unfolding try_spill_coloring_def arr by (auto simp: bind_eq_Some_conv)
  have "hint_ok inp no_assignment" by (simp add: hint_ok_def no_assignment_def)
  then have sp: "recolored v c c' \<and> (\<forall>i \<in> set [li_min (lr c v) .. li_max (lr c v)]. good_entry inp c v i (entry (lr c' v) i))"
    using spill_fold [OF coloringD(1,4) [OF col] v(1) coloringD(9) [OF col v] f] recolored_stack [of c c v]
    by (auto simp: in_range_def)
  then have g: "good_entry inp c v i (entry (lr c' v) i)" if "in_range (lr c v) i" for i
    using that by (simp add: in_range_def)
  show ?thesis using recolor [OF col v(1)] sp g by (simp add: good_entry_def)
qed

end
