(* ===== verification/Color_Run.thy ===== *)
theory Color_Run
  imports Color_Correct
begin

text \<open>
  The allocator over all variables: each one that is coloured joins the coloured variables of the
  invariant, whichever way it gets its registers.
\<close>

section \<open>The orders in which registers are tried\<close>

lemma no_reg_not_usable: "\<not> is_gpr no_reg" "\<not> is_xmm no_reg"
  by code_simp+

lemma alloc_orders:
  "set (m_gpr_alloc_order gRegInfo) \<union> set (m_gpr_temp_only_alloc_order gRegInfo) \<subseteq> set (m_gpr_spill_temp_alloc_order gRegInfo) - {no_reg}"
  "set (m_xmm_alloc_order gRegInfo) \<union> set (m_xmm_temp_only_alloc_order gRegInfo) \<subseteq> set (m_xmm_spill_temp_alloc_order gRegInfo) - {no_reg}"
  by code_simp+

lemma default_order_legal:
  assumes "get_default_alloc_order_for_var v c b = Some rs" "r \<in> set rs"
  shows "legal_reg inp r" "r \<noteq> no_reg"
proof -
  have "rs \<in> {m_gpr_temp_only_alloc_order gRegInfo, m_gpr_alloc_order gRegInfo, m_xmm_temp_only_alloc_order gRegInfo, m_xmm_alloc_order gRegInfo}"
    using assms(1) by (auto simp: get_default_alloc_order_for_var_def bind_eq_Some_conv split: if_splits)
  then show "legal_reg inp r" "r \<noteq> no_reg"
    using assms(2) alloc_orders unfolding legal_reg_def by blast+
qed

section \<open>Registers for one variable\<close>

text \<open>The outcome of an attempt: the variable is coloured, or nothing has changed.\<close>

definition attempt :: "AllocationInput \<Rightarrow> RegAllocCache \<Rightarrow> int set \<Rightarrow> int \<Rightarrow> RegAllocCache \<Rightarrow> bool \<times> RegAllocCache \<Rightarrow> bool" where
  "attempt inp c1 D v c st \<longleftrightarrow> (if fst st then coloring inp c1 (insert v D) (snd st) else snd st = c)"

lemma attempt_register:
  assumes "coloring inp c1 D c" "var_ok c v" "as_kind a = REGISTER" "entry_ok a" "legal_reg inp (as_reg a)"
    "try_assignment_for_var v a inp c = Some st"
  shows "attempt inp c1 D v c st"
  using try_assignment_ok [OF assms(1-5), of "fst st" "snd st"] assms(6) by (simp add: attempt_def split: if_splits)

lemma try_regs_ok:
  assumes col: "coloring inp c1 D c" and v: "var_ok c v"
  shows "try_regs v inp rs st = Some st' \<Longrightarrow> attempt inp c1 D v c st \<Longrightarrow> \<forall>r \<in> set rs. legal_reg inp r \<and> r \<noteq> no_reg \<Longrightarrow>
    attempt inp c1 D v c st'"
proof (induction rs arbitrary: st)
  case (Cons r rs)
  show ?case
  proof (cases "fst st")
    case False
    then have same: "snd st = c" using Cons.prems(2) by (simp add: attempt_def)
    obtain st1 where t: "try_assignment_for_var v (in_reg r) inp c = Some st1" "try_regs v inp rs st1 = Some st'"
      using Cons.prems(1) False same by (auto simp: bind_eq_Some_conv)
    have "attempt inp c1 D v c st1"
      using Cons.prems(3) by (intro attempt_register [OF col v _ _ _ t(1)]) (simp_all add: entry_ok_def)
    then show ?thesis using Cons.IH [OF t(2)] Cons.prems(3) by simp
  qed (use Cons.prems in simp)
qed simp

lemma try_move_ok:
  assumes col: "coloring inp c1 D c" and v: "var_ok c v" and i: "0 \<le> i" "i < num_instrs inp"
    and p: "\<And>p. p \<in> set partners \<Longrightarrow> reads (ins_at inp i) (ireg_id p) \<or> writes (ins_at inp i) (ireg_id p)"
    and order: "\<forall>r \<in> set order. legal_reg inp r \<and> r \<noteq> no_reg"
    and t: "try_move v partners i order inp c = Some st"
  shows "attempt inp c1 D v c st"
proof (cases partners)
  case Nil
  then show ?thesis using t by (simp add: try_move_def)
next
  case (Cons q qs)
  let ?w = "ireg_id q"
  have al: "alive inp ?w i" using p [of q] Cons i by (auto simp: alive_def num_instrs_def)
  note w = ranges_wfD [OF coloringD(1) [OF col] al]
  have arr: "array_at (live_ranges c) ?w = Some (lr c ?w)" using w(1,2) by simp
  obtain a where g: "get_at (lr c ?w) i = Some a"
    and rest: "(if is_assigned a \<and> as_reg a \<in> set order then try_assignment_for_var v a inp c else Some (False, c)) = Some st"
    using t unfolding try_move_def Cons by (cases "get_at (lr c ?w) i") (simp_all add: arr del: array_at_Some)
  have a: "a = entry (lr c ?w) i" using g by (auto simp: get_at_def entry_def bind_eq_Some_conv)
  have "entry_ok a" using coloringD(4) [OF col] w unfolding a entries_ok_def var_ok_def by blast
  moreover from this have "as_kind a = REGISTER" if "as_reg a \<in> set order" using order that by (auto simp: entry_ok_def)
  ultimately show ?thesis
    using rest attempt_register [OF col v _ _ _, of a st] order by (auto simp: attempt_def split: if_splits)
qed

lemma color_in_register_ok:
  assumes col: "coloring inp c1 D c" and v: "var_ok c v" and t: "color_in_register v inp c = Some st"
  shows "attempt inp c1 D v c st"
proof -
  let ?l = "lr c v"
  have vv: "0 \<le> v" "nat v < length (live_ranges c)" "seen ?l" using v by (simp_all add: var_ok_def)
  have arr: "array_at (live_ranges c) v = Some ?l" using vv by simp
  note sr = seen_range [OF coloringD(1) [OF col] vv]
  have ends: "0 \<le> li_min ?l" "li_min ?l < num_instrs inp" "0 \<le> li_max ?l" "li_max ?l < num_instrs inp" using sr by simp_all
  then have ins: "array_at (instructions inp) (li_min ?l) = Some (ins_at inp (li_min ?l))"
    "array_at (instructions inp) (li_max ?l) = Some (ins_at inp (li_max ?l))"
    by (simp_all add: num_instrs_def nat_less_iff)
  have rw: "p \<in> set (ri_read op) \<Longrightarrow> reads op (ireg_id p)" "p \<in> set (ri_write op) \<Longrightarrow> writes op (ireg_id p)" for p op
    by (auto simp: reads_def writes_def list_ex_iff)
  let ?first_instr = "ins_at inp (li_min ?l)" and ?last_instr = "ins_at inp (li_max ?l)"
  let ?last = "\<lambda>ao. if is_move ?last_instr then try_move v (ri_write ?last_instr) (li_max ?l) ao inp c else Some (False, c)"
  let ?s1 = "if is_assigned (best_hint ?l) then try_assignment_for_var v (best_hint ?l) inp c else Some (False, c)"
  have eq: "color_in_register v inp c = do {
    s1 \<leftarrow> ?s1;
    ro \<leftarrow> get_default_alloc_order_for_var v (snd s1) False;
    ao \<leftarrow> get_default_alloc_order_for_var v (snd s1) True;
    s3 \<leftarrow> (if \<not> fst s1 then do {
             s2 \<leftarrow> (if is_move ?last_instr then try_move v (ri_write ?last_instr) (li_max ?l) ao inp (snd s1) else Some (False, snd s1));
             if \<not> fst s2 \<and> is_move ?first_instr then try_move v (ri_read ?first_instr) (li_min ?l) ao inp (snd s2) else Some s2 }
           else Some s1);
    try_regs v inp ro s3 }"
    by (simp add: color_in_register_def arr ins case_prod_beta' move_eliminator_def del: array_at_Some cong: if_cong)
  obtain s1 where s1: "?s1 = Some s1" using t unfolding eq by (cases ?s1) simp_all
  have a1: "attempt inp c1 D v c s1"
  proof (cases "is_assigned (best_hint ?l)")
    case True
    then have "entry_ok (best_hint ?l) \<and> as_kind (best_hint ?l) = REGISTER \<and> legal_reg inp (as_reg (best_hint ?l))"
      using coloringD(6) [OF col] v by (simp add: hints_ok_def)
    then show ?thesis using attempt_register [OF col v, of "best_hint ?l" s1] s1 True by simp
  qed (use s1 in \<open>auto simp: attempt_def\<close>)
  show ?thesis
  proof (cases "fst s1")
    case True
    then have "try_regs v inp ro s1 = Some s1" for ro by (cases ro) simp_all
    then have "st = s1" using t unfolding eq s1 using True by (auto simp: bind_eq_Some_conv)
    then show ?thesis using a1 by simp
  next
    case False
    then have c: "snd s1 = c" using a1 by (simp add: attempt_def)
    obtain ro ao s2 where ro: "get_default_alloc_order_for_var v c False = Some ro" and ao: "get_default_alloc_order_for_var v c True = Some ao"
      and s2: "?last ao = Some s2" and rest: "(if \<not> fst s2 \<and> is_move ?first_instr then try_move v (ri_read ?first_instr) (li_min ?l) ao inp (snd s2) else Some s2) \<bind> try_regs v inp ro = Some st"
      using t unfolding eq s1 using False c by (auto simp: bind_eq_Some_conv simp del: array_at_Some)
    have legal: "\<forall>r \<in> set ro. legal_reg inp r \<and> r \<noteq> no_reg" "\<forall>r \<in> set ao. legal_reg inp r \<and> r \<noteq> no_reg"
      using default_order_legal [OF ro] default_order_legal [OF ao] by blast+
    have a2: "attempt inp c1 D v c s2"
      using s2 try_move_ok [OF col v ends(3,4) _ legal(2), of "ri_write ?last_instr" s2] rw(2) False
      by (auto simp: attempt_def split: if_splits)
    obtain s3 where s3: "(if \<not> fst s2 \<and> is_move ?first_instr then try_move v (ri_read ?first_instr) (li_min ?l) ao inp (snd s2) else Some s2) = Some s3"
      "try_regs v inp ro s3 = Some st"
      using rest by (auto simp: bind_eq_Some_conv)
    have "attempt inp c1 D v c s3"
    proof (cases "\<not> fst s2 \<and> is_move ?first_instr")
      case True
      then have "snd s2 = c" using a2 by (simp add: attempt_def)
      then show ?thesis using s3(1) True try_move_ok [OF col v ends(1,2) _ legal(2), of "ri_read ?first_instr" s3] rw(1) by simp
    qed (use s3(1) a2 in auto)
    then show ?thesis by (rule try_regs_ok [OF col v s3(2) _ legal(1)])
  qed
qed

lemma coloring_frame:
  assumes "live_ranges c' = live_ranges c" "live_ranges_by_instr c' = live_ranges_by_instr c" "max_var c' = max_var c"
  shows "coloring inp c1 D c' \<longleftrightarrow> coloring inp c1 D c"
  unfolding coloring_def ranges_wf_def same_extent_def shared_ok_def entries_ok_def keeps_regs_def hints_ok_def var_ok_def assms ..

lemma do_allocation_ok:
  assumes col: "coloring inp c1 D c" and v: "var_ok c v" "v \<notin> D" and t: "do_allocation_for_var v inp c = Some c'"
  shows "coloring inp c1 (insert v D) c'"
proof -
  let ?s = "if v \<notin> force_on_stack_regs inp then color_in_register v inp c else Some (False, c)"
  have eq: "do_allocation_for_var v inp c = do {
      s \<leftarrow> ?s;
      c \<leftarrow> (if \<not> fst s then do { c \<leftarrow> try_spill_coloring v inp (snd s); Some (c\<lparr>used_stack := True\<rparr>) } else Some (snd s));
      ops \<leftarrow> modify_at (was_colored c) v (\<lambda>_. True);
      Some (c\<lparr>was_colored := ops\<rparr>) }"
    by (simp add: do_allocation_for_var_def case_prod_beta' Let_def cong: if_cong)
  obtain s where s: "?s = Some s" using t unfolding eq by (cases ?s) simp_all
  have a: "attempt inp c1 D v c s"
    using s color_in_register_ok [OF col v(1), of s] by (auto simp: attempt_def split: if_splits)
  let ?c = "if \<not> fst s then do { c \<leftarrow> try_spill_coloring v inp (snd s); Some (c\<lparr>used_stack := True\<rparr>) } else Some (snd s)"
  obtain c2 where c2: "?c = Some c2" using t unfolding eq s by (cases ?c) simp_all
  have "coloring inp c1 (insert v D) c2"
  proof (cases "fst s")
    case False
    then obtain c3 where "try_spill_coloring v inp c = Some c3" "c2 = c3\<lparr>used_stack := True\<rparr>"
      using c2 a by (auto simp: attempt_def bind_eq_Some_conv)
    then show ?thesis using try_spill_coloring_ok [OF col v] coloring_frame [of c2 c3] by simp
  qed (use a c2 in \<open>simp add: attempt_def\<close>)
  moreover have "live_ranges c' = live_ranges c2" "live_ranges_by_instr c' = live_ranges_by_instr c2" "max_var c' = max_var c2"
    using t unfolding eq s using c2 by (auto simp: bind_eq_Some_conv)
  ultimately show ?thesis using coloring_frame by blast
qed

section \<open>All variables\<close>

lemma var_ok_same: "same_extent c c' \<Longrightarrow> var_ok c' v \<longleftrightarrow> var_ok c v"
  using extent_same(5) [of "lr c' v" "lr c v"] by (auto simp: var_ok_def same_extent_def)

lemma allocate_vars_ok:
  "fold_opt (\<lambda>v. do_allocation_for_var v inp) vs c = Some c' \<Longrightarrow> coloring inp c1 D c \<Longrightarrow> distinct vs \<Longrightarrow>
    (\<And>v. v \<in> set vs \<Longrightarrow> var_ok c1 v \<and> v \<notin> D) \<Longrightarrow> coloring inp c1 (D \<union> set vs) c'"
proof (induction vs arbitrary: c D)
  case (Cons v vs)
  obtain k where k: "do_allocation_for_var v inp c = Some k" "fold_opt (\<lambda>v. do_allocation_for_var v inp) vs k = Some c'"
    using Cons.prems(1) by (auto simp: bind_eq_Some_conv)
  have "var_ok c v" "v \<notin> D" using Cons.prems(4) [of v] var_ok_same [OF coloringD(2) [OF Cons.prems(2)]] by simp_all
  then have "coloring inp c1 (insert v D) k" using do_allocation_ok [OF Cons.prems(2) _ _ k(1)] by blast
  then show ?case using Cons.IH [OF k(2)] Cons.prems(3,4) by force
qed simp

lemma allocation_order_all: "distinct (allocation_order c)" "set (allocation_order c) = {v. var_ok c v}"
proof -
  show "distinct (allocation_order c)"
    unfolding allocation_order_def by (auto simp: distinct_map inj_on_def)
  show "set (allocation_order c) = {v. var_ok c v}"
  proof -
    have "set (allocation_order c) = int ` {i. i < length (live_ranges c) \<and> seen (live_ranges c ! i)}"
      unfolding allocation_order_def by auto
    moreover have "v \<in> int ` {i. i < length (live_ranges c) \<and> seen (live_ranges c ! i)} \<longleftrightarrow> var_ok c v" for v
      by (auto simp: var_ok_def intro: image_eqI [of _ _ "nat v"])
    ultimately show ?thesis by blast
  qed
qed

lemma run_allocator_ok:
  assumes "coloring inp c {} c" "run_allocator inp c = Some c'"
  shows "coloring inp c {v. var_ok c v} c'"
  using allocate_vars_ok [of inp "allocation_order c" c c' c "{}"] assms allocation_order_all [of c]
  by (simp add: run_allocator_def)

section \<open>Constraints\<close>

text \<open>Each entry and each hint is unset or asked for by a constraint on the variable.\<close>

definition constrained_regs :: "AllocationInput \<Rightarrow> int \<Rightarrow> Assignment set" where
  "constrained_regs inp v = insert no_assignment ((\<lambda>con. in_reg (desired_register con)) ` {con \<in> set (constraints inp). ireg_id (con_ireg con) = v})"

definition constrained_only :: "AllocationInput \<Rightarrow> RegAllocCache \<Rightarrow> bool" where
  "constrained_only inp c \<longleftrightarrow>
    (\<forall>v. var_ok c v \<longrightarrow> best_hint (lr c v) \<in> constrained_regs inp v \<and>
      set (assignment (lr c v)) \<subseteq> constrained_regs inp v)"

lemma constrain_at_one_Some:
  assumes "constrain_at_one i r l = Some l'"
  shows "extent l' = extent l" "length (assignment l') = length (assignment l)"
    "set (assignment l') \<subseteq> insert (in_reg r) (set (assignment l))" "best_hint l' = in_reg r"
  using assms
  by (auto simp: constrain_at_one_def bind_eq_Some_conv extent_def modify_at_Some dest: subsetD [OF set_update_subset_insert])

lemma constrain_fold:
  assumes "fold_opt (\<lambda>i l. do { as \<leftarrow> modify_at (assignment l) (i - li_min l) (\<lambda>_. a); Some (l\<lparr>assignment := as\<rparr>) }) is l = Some l'"
  shows "extent l' = extent l \<and> length (assignment l') = length (assignment l) \<and> set (assignment l') \<subseteq> insert a (set (assignment l))"
  using assms
proof (induction "is" arbitrary: l)
  case (Cons i js)
  obtain k where k: "(do { as \<leftarrow> modify_at (assignment l) (i - li_min l) (\<lambda>_. a); Some (l\<lparr>assignment := as\<rparr>) }) = Some k"
    and f: "fold_opt (\<lambda>i l. do { as \<leftarrow> modify_at (assignment l) (i - li_min l) (\<lambda>_. a); Some (l\<lparr>assignment := as\<rparr>) }) js k = Some l'"
    using Cons.prems by (auto simp: bind_eq_Some_conv)
  have "extent k = extent l" "length (assignment k) = length (assignment l)" "set (assignment k) \<subseteq> insert a (set (assignment l))"
    using k by (auto simp: bind_eq_Some_conv extent_def modify_at_Some dest: subsetD [OF set_update_subset_insert])
  then show ?case using Cons.IH [OF f] by auto
qed auto

lemma constrain_everywhere_Some:
  assumes "constrain_everywhere r l = Some l'"
  shows "extent l' = extent l" "length (assignment l') = length (assignment l)"
    "set (assignment l') \<subseteq> insert (in_reg r) (set (assignment l))" "best_hint l' = in_reg r"
proof -
  obtain k where k: "fold_opt (\<lambda>i l. do { as \<leftarrow> modify_at (assignment l) (i - li_min l) (\<lambda>_. in_reg r); Some (l\<lparr>assignment := as\<rparr>) })
      [li_min l .. li_max l] l = Some k" and l': "l' = k\<lparr>has_constraint := True, best_hint := in_reg r\<rparr>"
    using assms by (auto simp: constrain_everywhere_def bind_eq_Some_conv)
  show "extent l' = extent l" "length (assignment l') = length (assignment l)"
    "set (assignment l') \<subseteq> insert (in_reg r) (set (assignment l))" "best_hint l' = in_reg r"
    using constrain_fold [OF k] by (auto simp: l' extent_def)
qed

lemma on_range_constrained:
  assumes t: "on_range v f c = Some c'" and con: "constrained_only inp c"
    and f: "\<And>l'. f (lr c v) = Some l' \<Longrightarrow> extent l' = extent (lr c v) \<and> length (assignment l') = length (assignment (lr c v)) \<and>
      set (assignment l') \<subseteq> insert a (set (assignment (lr c v))) \<and> best_hint l' = a"
    and a: "a \<in> constrained_regs inp v"
  shows "same_extent c c' \<and> constrained_only inp c'"
proof -
  obtain l where l: "0 \<le> v" "nat v < length (live_ranges c)" "f (lr c v) = Some l" "c' = c\<lparr>live_ranges := (live_ranges c)[nat v := l]\<rparr>"
    using t by (rule on_range_Some) blast
  note fl = f [OF l(3)]
  have same: "same_extent c c'"
    unfolding same_extent_def using l(2) fl by (auto simp: l(4) nth_list_update)
  moreover have "constrained_only inp c'"
    unfolding constrained_only_def
  proof (intro allI impI)
    fix w assume "var_ok c' w"
    then have w: "var_ok c w" using var_ok_same [OF same] by simp
    then have "best_hint (lr c w) \<in> constrained_regs inp w \<and> set (assignment (lr c w)) \<subseteq> constrained_regs inp w"
      using con by (simp add: constrained_only_def)
    moreover have "w \<noteq> v \<longrightarrow> nat w \<noteq> nat v" using l(1) w by (auto simp: var_ok_def)
    ultimately show "best_hint (lr c' w) \<in> constrained_regs inp w \<and> set (assignment (lr c' w)) \<subseteq> constrained_regs inp w"
      using fl l a by (cases "w = v") auto
  qed
  ultimately show ?thesis by blast
qed

lemma do_constrained_alloc_ok:
  assumes "do_constrained_alloc c inp = Some c'" "constrained_only inp c"
  shows "same_extent c c' \<and> constrained_only inp c'"
proof -
  let ?f = "\<lambda>con cache. if contrain_everywhere con then
          on_range (ireg_id (con_ireg con)) (constrain_everywhere (desired_register con)) cache
        else on_range (ireg_id (con_ireg con)) (constrain_at_one (con_instr_idx con) (desired_register con)) cache"
  have "fold_opt ?f cons k = Some k' \<Longrightarrow> set cons \<subseteq> set (constraints inp) \<Longrightarrow> constrained_only inp k \<Longrightarrow>
      same_extent k k' \<and> constrained_only inp k'" for cons k k'
  proof (induction cons arbitrary: k)
    case (Cons con cons)
    obtain m where m: "?f con k = Some m" "fold_opt ?f cons m = Some k'" using Cons.prems(1) by (auto simp: bind_eq_Some_conv)
    have a: "in_reg (desired_register con) \<in> constrained_regs inp (ireg_id (con_ireg con))"
      using Cons.prems(2) by (auto simp: constrained_regs_def)
    have "same_extent k m \<and> constrained_only inp m"
    proof (cases "contrain_everywhere con")
      case True
      then show ?thesis using m(1) on_range_constrained [OF _ Cons.prems(3) _ a] constrain_everywhere_Some by auto
    next
      case False
      then show ?thesis using m(1) on_range_constrained [OF _ Cons.prems(3) _ a] constrain_at_one_Some by auto
    qed
    then show ?case using Cons.IH [OF m(2)] Cons.prems(2) same_extent_trans by auto
  qed simp
  then show ?thesis using assms unfolding do_constrained_alloc_def by blast
qed

definition constraints_met :: "AllocationInput \<Rightarrow> RegAllocCache \<Rightarrow> bool" where
  "constraints_met inp c \<longleftrightarrow>
    (\<forall>con \<in> set (constraints inp). let v = ireg_id (con_ireg con) in
       var_ok c v \<longrightarrow>
       (\<forall>i. in_range (lr c v) i \<and> (contrain_everywhere con \<or> i = con_instr_idx con) \<longrightarrow>
          as_reg (entry (lr c v) i) = desired_register con \<and> desired_register con \<noteq> no_reg))"

lemma conflicts_at_reg_True: "conflicts_at_reg l i r = Some True \<Longrightarrow> in_range l i \<and> as_reg (entry l i) = r \<and> r \<noteq> no_reg"
  by (auto simp: conflicts_at_reg_def bind_eq_Some_conv in_range_def entry_def occupies_same_reg_def)

lemma check_constraint_True:
  assumes wf: "ranges_wf inp c" and t: "check_constraint c con = Some True" and v: "var_ok c (ireg_id (con_ireg con))"
  shows "in_range (lr c (ireg_id (con_ireg con))) i \<and> (contrain_everywhere con \<or> i = con_instr_idx con) \<Longrightarrow>
      as_reg (entry (lr c (ireg_id (con_ireg con))) i) = desired_register con"
    "desired_register con \<noteq> no_reg"
proof -
  let ?l = "lr c (ireg_id (con_ireg con))"
  have vv: "0 \<le> ireg_id (con_ireg con)" "nat (ireg_id (con_ireg con)) < length (live_ranges c)" "seen ?l"
    using v by (simp_all add: var_ok_def)
  have arr: "array_at (live_ranges c) (ireg_id (con_ireg con)) = Some ?l" using vv by simp
  have ch: "if contrain_everywhere con then (\<forall>i. in_range ?l i \<longrightarrow> conflicts_at_reg ?l i (desired_register con) = Some True)
      else conflicts_at_reg ?l (con_instr_idx con) (desired_register con) = Some True"
    using t unfolding check_constraint_def arr by (auto simp: check_opt_True in_range_def)
  have "in_range ?l (li_min ?l)" using seen_range(5) [OF wf vv] by (simp add: in_range_def)
  then show "desired_register con \<noteq> no_reg" using ch conflicts_at_reg_True by (auto split: if_splits)
  show "as_reg (entry ?l i) = desired_register con" if "in_range ?l i \<and> (contrain_everywhere con \<or> i = con_instr_idx con)"
    using ch conflicts_at_reg_True that by (auto split: if_splits)
qed

lemma check_pair_True:
  assumes "check_pair c i v w = Some True" "v \<noteq> w" "0 \<le> v" "nat v < length (live_ranges c)" "0 \<le> w" "nat w < length (live_ranges c)"
    "as_reg (entry (lr c v) i) = as_reg (entry (lr c w) i)" "as_kind (entry (lr c v) i) \<noteq> UNASSIGNED"
  shows "as_reg (entry (lr c v) i) = no_reg"
  using assms by (auto simp: check_pair_def bind_eq_Some_conv get_at_def occupies_same_reg_def entry_def)

lemma analysed_constrained_only:
  assumes "analysed inp c"
  shows "constrained_only inp c"
  unfolding constrained_only_def
proof (intro allI impI)
  fix v assume v: "var_ok c v"
  have "\<forall>v < length (live_ranges c). range_ready (num_instrs inp) (int v) {i. alive inp (int v) i} (live_ranges c ! v)"
    using assms unfolding analysed_def by blast
  moreover have "int (nat v) = v" "nat v < length (live_ranges c)" using v by (simp_all add: var_ok_def)
  ultimately have r: "range_ready (num_instrs inp) v {i. alive inp v i} (lr c v)" by metis
  then have "assignment (lr c v) = replicate (nat (li_max (lr c v) - li_min (lr c v) + 1)) no_assignment"
    using v by (simp add: range_ready_def var_ok_def)
  then show "best_hint (lr c v) \<in> constrained_regs inp v \<and> set (assignment (lr c v)) \<subseteq> constrained_regs inp v"
    using r by (simp add: range_ready_def constrained_regs_def set_replicate_conv_if)
qed

lemma start_coloring:
  assumes a: "analysed inp c0" and d: "do_constrained_alloc c0 inp = Some c" and ch: "check_constrained_alloc c inp = Some True"
  shows "coloring inp c {} c" "constraints_met inp c" "same_extent c0 c"
proof -
  note dc = do_constrained_alloc_ok [OF d analysed_constrained_only [OF a]]
  show same: "same_extent c0 c" using dc by blast
  have wf: "ranges_wf inp c" using ranges_wf_same [OF same analysed_ranges_wf [OF a]] .
  have c1: "check_constraint c con = Some True" if "con \<in> set (constraints inp)" for con
    using ch that by (auto simp: check_constrained_alloc_def bind_eq_Some_conv check_opt_True)
  have c2: "check_pair c i v w = Some True" if "0 \<le> i" "i < num_instrs inp" "v \<in> set (live_ranges_by_instr c ! nat i)" "w \<in> set (live_ranges_by_instr c ! nat i)" for i v w
    using ch that by (auto simp: check_constrained_alloc_def bind_eq_Some_conv check_opt_True num_instrs_def)
  note con = check_constraint_True [OF wf c1]
  show "constraints_met inp c" using con unfolding constraints_met_def Let_def by blast
  have set_ok: "a = no_assignment \<or> (as_kind a = REGISTER \<and> entry_ok a \<and> legal_reg inp (as_reg a))"
    if "var_ok c v" "a \<in> constrained_regs inp v" for a v
    using that con(2) by (auto simp: constrained_regs_def entry_ok_def legal_reg_def)
  have entry_in: "entry (lr c v) i \<in> constrained_regs inp v" if "var_ok c v" "in_range (lr c v) i" for v i
  proof -
    have "nat (i - li_min (lr c v)) < length (assignment (lr c v))"
      using seen_range(3) [OF wf, of v] that by (auto simp: var_ok_def in_range_def)
    then have "entry (lr c v) i \<in> set (assignment (lr c v))" by (simp add: entry_def)
    then show ?thesis using dc that(1) by (auto simp: constrained_only_def)
  qed
  have none: "entry_ok no_assignment" "as_reg no_assignment = no_reg" "as_kind no_assignment = UNASSIGNED" "\<not> is_assigned no_assignment"
    by (simp_all add: entry_ok_def no_assignment_def is_assigned_def)
  have ent: "entries_ok inp c"
    unfolding entries_ok_def using set_ok entry_in none by metis
  moreover have "hints_ok inp c"
    unfolding hints_ok_def using set_ok dc none(4) unfolding constrained_only_def by metis
  moreover have "as_kind (entry (lr c v) i) \<noteq> STACK" if "var_ok c v" "in_range (lr c v) i" for v i
    using set_ok [OF that(1) entry_in [OF that]] none(3) by auto
  moreover have "shared_ok inp c"
    unfolding shared_ok_def
  proof (intro allI impI)
    fix v w i assume vw: "alive inp v i" "alive inp w i" "v \<noteq> w" "as_reg (entry (lr c v) i) = as_reg (entry (lr c w) i)" "as_reg (entry (lr c v) i) \<noteq> no_reg"
    note v = ranges_wfD [OF wf vw(1)] and w = ranges_wfD [OF wf vw(2)]
    have p: "check_pair c i v w = Some True" using c2 v(3,4,7) w(7) by (simp add: num_instrs_def nat_less_iff)
    have "entry_ok (entry (lr c v) i)" using ent v by (simp add: entries_ok_def var_ok_def)
    then have "as_kind (entry (lr c v) i) \<noteq> UNASSIGNED" using vw(5) by (simp add: entry_ok_def)
    then show "hands_over (lr c v) (lr c w) i" using check_pair_True [OF p vw(3) v(1,2) w(1,2) vw(4)] vw(5) by blast
  qed
  ultimately show "coloring inp c {} c"
    using wf unfolding coloring_def by (simp add: keeps_regs_def)
qed

end
