(* ===== verification/Alloc_Result.thy ===== *)
theory Alloc_Result
  imports Color_Run
begin

text \<open>
  The result of \<^verbatim>\<open>allocate_registers\<close> in terms of the instructions: where a variable is alive, and the
  place the result gives it there.
\<close>

section \<open>Copying the ranges into the result\<close>

definition loc :: "AllocationResult \<Rightarrow> int \<Rightarrow> int \<Rightarrow> Assignment" where
  "loc res v i = res_assignment res ! nat v ! nat i"

lemma copy_fold:
  assumes "fold_opt (\<lambda>j x. do { a \<leftarrow> get_at l j; modify_at x j (\<lambda>_. a) }) js x = Some x'" "distinct js"
  shows "length x' = length x \<and> (\<forall>j \<in> set js. 0 \<le> j \<and> x' ! nat j = entry l j) \<and> (\<forall>k. int k \<notin> set js \<longrightarrow> x' ! k = x ! k)"
  using assms
proof (induction js arbitrary: x)
  case (Cons j js)
  obtain y where y: "(do { a \<leftarrow> get_at l j; modify_at x j (\<lambda>_. a) }) = Some y"
    and f: "fold_opt (\<lambda>j x. do { a \<leftarrow> get_at l j; modify_at x j (\<lambda>_. a) }) js y = Some x'"
    using Cons.prems(1) by (auto simp: bind_eq_Some_conv)
  have s: "0 \<le> j" "nat j < length x" "y = x[nat j := entry l j]"
    using y by (auto simp: bind_eq_Some_conv modify_at_Some get_at_def entry_def)
  have "x' ! nat j = y ! nat j" using Cons.IH [OF f] Cons.prems(2) s(1) by simp
  then show ?case using Cons.IH [OF f] Cons.prems(2) s by (auto simp: nth_list_update)
qed simp

lemma copy_assignments_ok:
  assumes "copy_assignments inp l = Some x"
  shows "length x = length (instructions inp)" "in_range l i \<Longrightarrow> 0 \<le> i \<and> x ! nat i = entry l i"
  using copy_fold [OF assms [unfolded copy_assignments_def]] by (simp_all add: in_range_def)

lemma map_opt_Some:
  assumes "map_opt f xs = Some ys"
  shows "length ys = length xs" "k < length xs \<Longrightarrow> f (xs ! k) = Some (ys ! k)"
proof -
  have "fold_opt (\<lambda>x ys. do { y \<leftarrow> f x; Some (ys @ [y]) }) xs zs = Some ys \<Longrightarrow>
      \<exists>us. ys = zs @ us \<and> length us = length xs \<and> (\<forall>k < length xs. f (xs ! k) = Some (us ! k))" for zs
  proof (induction xs arbitrary: zs)
    case (Cons x xs)
    then obtain y where y: "f x = Some y" "fold_opt (\<lambda>x ys. do { y \<leftarrow> f x; Some (ys @ [y]) }) xs (zs @ [y]) = Some ys"
      by (auto simp: bind_eq_Some_conv)
    from Cons.IH [OF y(2)] obtain us where "ys = (zs @ [y]) @ us" "length us = length xs" "\<forall>k < length xs. f (xs ! k) = Some (us ! k)"
      by blast
    then show ?case using y(1) by (intro exI [of _ "y # us"]) (simp add: nth_Cons')
  qed simp
  from this [of "[]"] assms have "length ys = length xs \<and> (\<forall>k < length xs. f (xs ! k) = Some (ys ! k))"
    by (auto simp: map_opt_def)
  then show "length ys = length xs" "k < length xs \<Longrightarrow> f (xs ! k) = Some (ys ! k)" by blast+
qed

section \<open>Saved registers\<close>

lemma all_opt_Some: "all_opt p xs = Some b \<Longrightarrow> b \<longleftrightarrow> (\<forall>x \<in> set xs. p x = Some True)"
  by (cases b) (simp_all flip: all_opt_True)

lemma uses_saved_Some:
  assumes "uses_saved c r = Some u" "l \<in> set (live_ranges c)" "in_range l i" "as_reg (entry l i) = r"
  shows u
proof -
  let ?p = "\<lambda>l. all_opt (\<lambda>i. do { a \<leftarrow> get_at l i; Some (as_reg a \<noteq> r) }) [li_min l .. li_max l]"
  obtain b where b: "all_opt ?p (live_ranges c) = Some b" "u = (\<not> b)"
    using assms(1) by (auto simp: uses_saved_def bind_eq_Some_conv)
  have "?p l \<noteq> Some True"
    using assms(3,4) by (auto simp: all_opt_True bind_eq_Some_conv get_at_def in_range_def entry_def)
  then show u using all_opt_Some [OF b(1)] b(2) assms(2) by auto
qed

lemma used_saved_Some:
  assumes "used_saved c = Some us" "r \<in> set (m_saved_all gRegInfo)" "l \<in> set (live_ranges c)" "in_range l i" "as_reg (entry l i) = r"
  shows "r \<in> set us"
proof -
  let ?f = "\<lambda>sr used. do { u \<leftarrow> uses_saved c sr; Some (if u then used @ [sr] else used) }"
  have "fold_opt ?f rs acc = Some us \<Longrightarrow> r \<in> set rs \<or> r \<in> set acc \<Longrightarrow> r \<in> set us" for rs acc
  proof (induction rs arbitrary: acc)
    case (Cons s rs)
    obtain u where u: "uses_saved c s = Some u" "fold_opt ?f rs (if u then acc @ [s] else acc) = Some us"
      using Cons.prems(1) by (auto simp: bind_eq_Some_conv)
    have "r \<in> set rs \<or> r \<in> set (if u then acc @ [s] else acc)"
      using Cons.prems(2) uses_saved_Some [OF u(1) assms(3,4)] assms(5) by auto
    then show ?case using Cons.IH [OF u(2)] by blast
  qed simp
  then show ?thesis using assms(1,2) unfolding used_saved_def by blast
qed

section \<open>The result\<close>

lemma allocate_registers_steps:
  assumes "allocate_registers inp = Some res" "res_ok res"
  obtains c0 ca c1 c as used where "find_basic_blocks (start_cache inp) inp = Some c0" "analyze_liveliness c0 inp = Some ca"
    "do_constrained_alloc ca inp = Some c1" "check_constrained_alloc c1 inp = Some True" "run_allocator inp c1 = Some c"
    "map_opt (\<lambda>i. do { lr \<leftarrow> array_at (live_ranges c) i; copy_assignments inp lr }) [0 .. max_var c - 1] = Some as"
    "used_saved c = Some used"
    "res = new_result\<lparr>res_ok := True, needs_aligned_stack_for_spills := used_stack c,
        stack_slots_for_spills := current_stack_slot c, stack_slots_for_vars := stack_slots_for_stack_vars inp,
        res_assignment := as, used_saved_regs := used, ass_as_ranges := live_ranges c, res_stack_ops := stack_ops c\<rparr>"
proof -
  have no: "\<not> res_ok new_result" by (simp add: new_result_def)
  show thesis
    using assms no unfolding allocate_registers_def Let_def
    by (auto simp: bind_eq_Some_conv split: if_splits intro: that)
qed

lemma result_entry:
  assumes st: "map_opt (\<lambda>i. do { lr \<leftarrow> array_at (live_ranges c) i; copy_assignments inp lr }) [0 .. max_var c - 1] = Some as"
    and v: "0 \<le> v" "nat v < length as" and i: "0 \<le> i" "nat i < length (as ! nat v)"
  shows "as ! nat v ! nat i = no_assignment \<or>
    (lr c v \<in> set (live_ranges c) \<and> in_range (lr c v) i \<and> as ! nat v ! nat i = entry (lr c v) i)"
proof -
  have k: "nat v < length [0 .. max_var c - 1]" using map_opt_Some(1) [OF st] v(2) by simp
  then have "[0 .. max_var c - 1] ! nat v = v" using v(1) by simp
  then obtain l where l: "array_at (live_ranges c) v = Some l" and x: "copy_assignments inp l = Some (as ! nat v)"
    using map_opt_Some(2) [OF st k] by (auto simp: bind_eq_Some_conv)
  have lv: "l = lr c v" "lr c v \<in> set (live_ranges c)" using l by auto
  note cf = copy_fold [OF x [unfolded copy_assignments_def], simplified]
  show ?thesis
  proof (cases "in_range (lr c v) i")
    case True
    then show ?thesis using copy_assignments_ok(2) [OF x] lv by simp
  next
    case False
    then have "as ! nat v ! nat i = replicate (length (instructions inp)) no_assignment ! nat i"
      using cf i(1) lv(1) by (auto simp: in_range_def)
    then show ?thesis using i(2) cf by simp
  qed
qed

lemma saved_reported:
  assumes a: "allocate_registers inp = Some res" and v: "0 \<le> v" "nat v < length (res_assignment res)"
    and i: "0 \<le> i" "nat i < length (res_assignment res ! nat v)" and r: "as_reg (loc res v i) \<in> set (m_saved_all gRegInfo)"
  shows "as_reg (loc res v i) \<in> set (used_saved_regs res)"
proof (cases "res_ok res")
  case False
  have "res_assignment new_result = []" by (simp add: new_result_def)
  then have "res = new_result \<Longrightarrow> False" using v by auto
  moreover have "res = new_result" using a False unfolding allocate_registers_def Let_def
    by (auto simp: bind_eq_Some_conv split: if_splits)
  ultimately show ?thesis by blast
next
  case True
  obtain c0 ca c1 c as used where st:
    "map_opt (\<lambda>i. do { lr \<leftarrow> array_at (live_ranges c) i; copy_assignments inp lr }) [0 .. max_var c - 1] = Some as"
    "used_saved c = Some used"
    and res: "res = new_result\<lparr>res_ok := True, needs_aligned_stack_for_spills := used_stack c,
        stack_slots_for_spills := current_stack_slot c, stack_slots_for_vars := stack_slots_for_stack_vars inp,
        res_assignment := as, used_saved_regs := used, ass_as_ranges := live_ranges c, res_stack_ops := stack_ops c\<rparr>"
    by (rule allocate_registers_steps [OF a True]) blast
  have l: "loc res v i = as ! nat v ! nat i" by (simp add: loc_def res)
  have no: "as_reg no_assignment \<notin> set (m_saved_all gRegInfo)" by code_simp
  have "as ! nat v ! nat i = no_assignment \<or>
    (lr c v \<in> set (live_ranges c) \<and> in_range (lr c v) i \<and> as ! nat v ! nat i = entry (lr c v) i)"
    using result_entry [OF st(1) v(1)] v(2) i by (simp add: res)
  then have e: "lr c v \<in> set (live_ranges c)" "in_range (lr c v) i" "loc res v i = entry (lr c v) i" using r no by (auto simp: l)
  then show ?thesis using used_saved_Some [OF st(2) r, of "lr c v" i] by (simp add: res)
qed

text \<open>Handing over a register, seen from the instructions.\<close>

lemma ready_ends:
  assumes r: "range_ready n v A l" and sn: "seen l"
  shows "dies_next_at_instr l i = Some True \<Longrightarrow> i + 1 \<notin> A" "becomes_live_at_instr l i = Some True \<Longrightarrow> i - 1 \<notin> A"
proof -
  have len: "length (is_alive l) = nat (li_max l - li_min l + 1)"
    and at: "\<And>i. li_min l \<le> i \<Longrightarrow> i \<le> li_max l \<Longrightarrow> is_alive l ! nat (i - li_min l) \<longleftrightarrow> i \<in> A"
    and inside: "\<And>i. i \<in> A \<Longrightarrow> li_min l \<le> i \<and> i \<le> li_max l"
    using r sn by (simp_all add: range_ready_def)
  show "i + 1 \<notin> A" if d: "dies_next_at_instr l i = Some True"
  proof (cases "i = li_max l")
    case False
    then have "li_min l \<le> i" "i < li_max l" "array_at (is_alive l) (i - li_min l + 1) = Some False"
      using d by (auto simp: dies_next_at_instr_def enable_fancy_coloring_def bind_eq_Some_conv split: if_splits)
    then show ?thesis using at [of "i + 1"] by (simp add: algebra_simps)
  qed (use inside [of "i + 1"] in auto)
  show "i - 1 \<notin> A" if d: "becomes_live_at_instr l i = Some True"
  proof (cases "i = li_min l")
    case False
    then have "li_min l < i" "i \<le> li_max l" "array_at (is_alive l) (i - li_min l - 1) = Some False"
      using d by (auto simp: becomes_live_at_instr_def enable_fancy_coloring_def bind_eq_Some_conv split: if_splits)
    then show ?thesis using at [of "i - 1"] by (simp add: algebra_simps)
  qed (use inside [of "i - 1"] in auto)
qed

definition takes_over :: "AllocationInput \<Rightarrow> int \<Rightarrow> int \<Rightarrow> int \<Rightarrow> bool" where
  "takes_over inp v w i \<longleftrightarrow> \<not> alive inp v (i + 1) \<and> \<not> alive inp w (i - 1)"

lemma hands_over_takes_over:
  assumes a: "analysed inp ca" and s: "same_extent ca c" and h: "hands_over (lr c v) (lr c w) i"
    and v: "alive inp v i" and w: "alive inp w i"
  shows "takes_over inp v w i \<or> takes_over inp w v i"
proof -
  have rd: "range_ready (num_instrs inp) u {i. alive inp u i} (lr ca u)" "seen (lr ca u)"
    "dies_next_at_instr (lr c u) = dies_next_at_instr (lr ca u)" "becomes_live_at_instr (lr c u) = becomes_live_at_instr (lr ca u)"
    if u: "alive inp u i" for u
  proof -
    note d = ranges_wfD [OF analysed_ranges_wf [OF a] u]
    have "\<forall>v < length (live_ranges ca). range_ready (num_instrs inp) (int v) {i. alive inp (int v) i} (live_ranges ca ! v)"
      using a unfolding analysed_def by blast
    then show "range_ready (num_instrs inp) u {i. alive inp u i} (lr ca u)" using d(1,2) by (metis int_nat_eq)
    show "seen (lr ca u)" by fact
    have "extent (lr c u) = extent (lr ca u)" using s d(2) by (simp add: same_extent_def)
    from extent_same(7,8) [OF this]
    show "dies_next_at_instr (lr c u) = dies_next_at_instr (lr ca u)" "becomes_live_at_instr (lr c u) = becomes_live_at_instr (lr ca u)" .
  qed
  show ?thesis
    using h ready_ends [OF rd(1,2) [OF v]] ready_ends [OF rd(1,2) [OF w]] rd(3,4) [OF v] rd(3,4) [OF w]
    unfolding hands_over_def takes_over_def by auto
qed

text \<open>What a successful run gives, at every instruction where a variable is alive.\<close>

lemma allocated:
  assumes a: "allocate_registers inp = Some res" "res_ok res" and j: "jumps_or_falls (instructions inp)"
  obtains ca c1 c where "analysed inp ca" "same_extent ca c" "coloring inp c1 {v. var_ok c v} c" "constraints_met inp c"
    "\<And>v i. var_ok c v \<Longrightarrow> in_range (lr c v) i \<Longrightarrow> loc res v i = entry (lr c v) i"
    "used_saved c = Some (used_saved_regs res)" "ass_as_ranges res = live_ranges c" "res_stack_ops res = stack_ops c"
    "stack_slots_for_spills res = current_stack_slot c"
proof -
  obtain c0 ca c1 c as used where st: "find_basic_blocks (start_cache inp) inp = Some c0" "analyze_liveliness c0 inp = Some ca"
    "do_constrained_alloc ca inp = Some c1" "check_constrained_alloc c1 inp = Some True" "run_allocator inp c1 = Some c"
    "map_opt (\<lambda>i. do { lr \<leftarrow> array_at (live_ranges c) i; copy_assignments inp lr }) [0 .. max_var c - 1] = Some as"
    "used_saved c = Some used"
    and res: "res = new_result\<lparr>res_ok := True, needs_aligned_stack_for_spills := used_stack c,
        stack_slots_for_spills := current_stack_slot c, stack_slots_for_vars := stack_slots_for_stack_vars inp,
        res_assignment := as, used_saved_regs := used, ass_as_ranges := live_ranges c, res_stack_ops := stack_ops c\<rparr>"
    by (rule allocate_registers_steps [OF a]) blast
  note an = analyze_ok(1) [OF st(1,2) j]
  note start = start_coloring [OF an st(3,4)]
  note col = run_allocator_ok [OF start(1) st(5)]
  have same: "same_extent ca c" using same_extent_trans [OF start(3) coloringD(2) [OF col]] .
  have vok: "var_ok c v \<longleftrightarrow> var_ok c1 v" for v using var_ok_same [OF coloringD(2) [OF col]] .
  have keeps: "keeps_regs c1 c" using coloringD(5) [OF col] .
  have met: "constraints_met inp c"
    unfolding constraints_met_def Let_def
  proof (intro ballI impI allI)
    fix con i assume con: "con \<in> set (constraints inp)" and v: "var_ok c (ireg_id (con_ireg con))"
      and i: "in_range (lr c (ireg_id (con_ireg con))) i \<and> (contrain_everywhere con \<or> i = con_instr_idx con)"
    let ?v = "ireg_id (con_ireg con)"
    have v1: "var_ok c1 ?v" using v vok by simp
    then have "extent (lr c ?v) = extent (lr c1 ?v)" using coloringD(2) [OF col] by (simp add: same_extent_def var_ok_def)
    then have i1: "in_range (lr c1 ?v) i" using i extent_same(6) by metis
    then have "as_reg (entry (lr c1 ?v) i) = desired_register con" "desired_register con \<noteq> no_reg"
      using start(2) con v1 i by (auto simp: constraints_met_def Let_def)
    then show "as_reg (entry (lr c ?v) i) = desired_register con \<and> desired_register con \<noteq> no_reg"
      using keeps v1 i1 by (simp add: keeps_regs_def)
  qed
  have mv: "max_var c = max_vars inp" "length (live_ranges c) = nat (max_vars inp)"
    using same an by (simp_all add: same_extent_def analysed_def)
  have loc: "loc res v i = entry (lr c v) i" if v: "var_ok c v" "in_range (lr c v) i" for v i
  proof -
    have k: "nat v < length [0 .. max_var c - 1]" and vth: "[0 .. max_var c - 1] ! nat v = v"
      using v mv by (auto simp: var_ok_def)
    have arr: "array_at (live_ranges c) v = Some (lr c v)" using v(1) by (simp add: var_ok_def)
    have "copy_assignments inp (lr c v) = Some (as ! nat v)"
      using map_opt_Some(2) [OF st(6) k] unfolding vth arr by simp
    from copy_assignments_ok(2) [OF this v(2)] show ?thesis by (simp add: loc_def res)
  qed
  have "coloring inp c1 {v. var_ok c v} c" using col vok by simp
  then show thesis by (rule that [OF an same _ met loc]) (use st(7) res in simp_all)
qed

end
