(* ===== verification/Alloc_Example.thy ===== *)
theory Alloc_Example
  imports Live_Analysis Coloring
begin

text \<open>
  A function through the whole register allocator, one pass at a time: two variables that live across a
  branch, a constraint, and a value written at the head of the else branch that nothing reads.
\<close>

definition example_instr :: RegAllocInstr where
  "example_instr = \<lparr>clobber = [], exclude = [], ri_write = [], ri_read = [], jumps = [], fallthrough = True, is_move = False\<rparr>"

definition gpr_var :: "int \<Rightarrow> IRegister" where
  "gpr_var v = \<lparr>ireg_class = GPR_64, ireg_id = v\<rparr>"

definition example :: AllocationInput where
  "example =
    \<lparr>instructions =
      [example_instr\<lparr>ri_write := [gpr_var 0]\<rparr>,
       example_instr\<lparr>ri_write := [gpr_var 1]\<rparr>,
       example_instr\<lparr>ri_read := [gpr_var 1], jumps := [4]\<rparr>,
       example_instr\<lparr>jumps := [6], fallthrough := False\<rparr>,
       example_instr\<lparr>ri_write := [gpr_var 2]\<rparr>,
       example_instr\<lparr>ri_read := [gpr_var 0, gpr_var 1]\<rparr>,
       example_instr],
     constraints = [\<lparr>con_ireg = gpr_var 1, con_instr_idx = 1, contrain_everywhere = False, desired_register = Reg RBX\<rparr>],
     force_on_stack_regs = {}, max_vars = 3, stack_slots_for_stack_vars = 0, is_asm_function = False\<rparr>"

text \<open>The states between the passes, each evaluated from the one before.\<close>

abbreviation one_word :: "u64 \<Rightarrow> IRegSet" where
  "one_word w \<equiv> \<lparr>rs_data = [w], rs_bits = 64\<rparr>"

definition example_blocks :: "RegAllocBasicBlock list" where
  "example_blocks =
    [\<lparr>instr_idx = [0, 1, 2], succ_of = [1, 2], pred_of = [], live = [],
      dead = [],
      use_set = rs_empty, defs_set = rs_empty,
      input_set = rs_empty, output_set = rs_empty, is_entry = True, is_exit = False,
      block_idx = 0\<rparr>,
     \<lparr>instr_idx = [3], succ_of = [3], pred_of = [0], live = [],
      dead = [],
      use_set = rs_empty, defs_set = rs_empty,
      input_set = rs_empty, output_set = rs_empty, is_entry = False, is_exit = False,
      block_idx = 1\<rparr>,
     \<lparr>instr_idx = [4, 5], succ_of = [3], pred_of = [0], live = [],
      dead = [],
      use_set = rs_empty, defs_set = rs_empty,
      input_set = rs_empty, output_set = rs_empty, is_entry = False, is_exit = False,
      block_idx = 2\<rparr>,
     \<lparr>instr_idx = [6], succ_of = [], pred_of = [1, 2], live = [],
      dead = [],
      use_set = rs_empty, defs_set = rs_empty,
      input_set = rs_empty, output_set = rs_empty, is_entry = False, is_exit = True,
      block_idx = 3\<rparr>]"

definition example_blocks1 :: "RegAllocBasicBlock list" where
  "example_blocks1 =
    [\<lparr>instr_idx = [0, 1, 2], succ_of = [1, 2], pred_of = [], live = [one_word 0, one_word 0, one_word 2],
      dead = [one_word 1, one_word 2, one_word 0],
      use_set = one_word 0, defs_set = one_word 3,
      input_set = rs_empty, output_set = rs_empty, is_entry = True, is_exit = False,
      block_idx = 0\<rparr>,
     \<lparr>instr_idx = [3], succ_of = [3], pred_of = [0], live = [rs_empty],
      dead = [rs_empty],
      use_set = rs_empty, defs_set = rs_empty,
      input_set = rs_empty, output_set = rs_empty, is_entry = False, is_exit = False,
      block_idx = 1\<rparr>,
     \<lparr>instr_idx = [4, 5], succ_of = [3], pred_of = [0], live = [one_word 0, one_word 3],
      dead = [one_word 4, one_word 0],
      use_set = one_word 3, defs_set = one_word 4,
      input_set = rs_empty, output_set = rs_empty, is_entry = False, is_exit = False,
      block_idx = 2\<rparr>,
     \<lparr>instr_idx = [6], succ_of = [], pred_of = [1, 2], live = [rs_empty],
      dead = [rs_empty],
      use_set = rs_empty, defs_set = rs_empty,
      input_set = rs_empty, output_set = rs_empty, is_entry = False, is_exit = True,
      block_idx = 3\<rparr>]"

definition example_blocks2 :: "RegAllocBasicBlock list" where
  "example_blocks2 =
    [\<lparr>instr_idx = [0, 1, 2], succ_of = [1, 2], pred_of = [], live = [one_word 0, one_word 0, one_word 2],
      dead = [one_word 1, one_word 2, one_word 0],
      use_set = one_word 0, defs_set = one_word 3,
      input_set = one_word 0, output_set = one_word 3, is_entry = True, is_exit = False,
      block_idx = 0\<rparr>,
     \<lparr>instr_idx = [3], succ_of = [3], pred_of = [0], live = [rs_empty],
      dead = [rs_empty],
      use_set = rs_empty, defs_set = rs_empty,
      input_set = one_word 0, output_set = rs_empty, is_entry = False, is_exit = False,
      block_idx = 1\<rparr>,
     \<lparr>instr_idx = [4, 5], succ_of = [3], pred_of = [0], live = [one_word 0, one_word 3],
      dead = [one_word 4, one_word 0],
      use_set = one_word 3, defs_set = one_word 4,
      input_set = one_word 3, output_set = one_word 4, is_entry = False, is_exit = False,
      block_idx = 2\<rparr>,
     \<lparr>instr_idx = [6], succ_of = [], pred_of = [1, 2], live = [rs_empty],
      dead = [rs_empty],
      use_set = rs_empty, defs_set = rs_empty,
      input_set = one_word 0, output_set = rs_empty, is_entry = False, is_exit = True,
      block_idx = 3\<rparr>]"

definition example_blocks3 :: "RegAllocBasicBlock list" where
  "example_blocks3 =
    [\<lparr>instr_idx = [0, 1, 2], succ_of = [1, 2], pred_of = [], live = [one_word 0, one_word 0, one_word 2],
      dead = [one_word 1, one_word 2, one_word 0],
      use_set = one_word 0, defs_set = one_word 3,
      input_set = one_word 0, output_set = one_word 3, is_entry = True, is_exit = False,
      block_idx = 0\<rparr>,
     \<lparr>instr_idx = [3], succ_of = [3], pred_of = [0], live = [rs_empty],
      dead = [rs_empty],
      use_set = rs_empty, defs_set = one_word 0,
      input_set = one_word 0, output_set = rs_empty, is_entry = False, is_exit = False,
      block_idx = 1\<rparr>,
     \<lparr>instr_idx = [4, 5], succ_of = [3], pred_of = [0], live = [one_word 0, one_word 3],
      dead = [one_word 4, one_word 0],
      use_set = one_word 3, defs_set = one_word 4,
      input_set = one_word 3, output_set = one_word 4, is_entry = False, is_exit = False,
      block_idx = 2\<rparr>,
     \<lparr>instr_idx = [6], succ_of = [], pred_of = [1, 2], live = [rs_empty],
      dead = [rs_empty],
      use_set = rs_empty, defs_set = rs_empty,
      input_set = one_word 0, output_set = rs_empty, is_entry = False, is_exit = True,
      block_idx = 3\<rparr>]"

definition example_blocks4 :: "RegAllocBasicBlock list" where
  "example_blocks4 =
    [\<lparr>instr_idx = [0, 1, 2], succ_of = [1, 2], pred_of = [], live = [one_word 1, one_word 3, one_word 3],
      dead = [one_word 1, one_word 2, one_word 0],
      use_set = one_word 0, defs_set = one_word 3,
      input_set = one_word 0, output_set = one_word 3, is_entry = True, is_exit = False,
      block_idx = 0\<rparr>,
     \<lparr>instr_idx = [3], succ_of = [3], pred_of = [0], live = [one_word 0],
      dead = [one_word 0],
      use_set = rs_empty, defs_set = one_word 0,
      input_set = one_word 0, output_set = rs_empty, is_entry = False, is_exit = False,
      block_idx = 1\<rparr>,
     \<lparr>instr_idx = [4, 5], succ_of = [3], pred_of = [0], live = [one_word 3, one_word 0],
      dead = [one_word 4, one_word 0],
      use_set = one_word 3, defs_set = one_word 4,
      input_set = one_word 3, output_set = one_word 4, is_entry = False, is_exit = False,
      block_idx = 2\<rparr>,
     \<lparr>instr_idx = [6], succ_of = [], pred_of = [1, 2], live = [rs_empty],
      dead = [rs_empty],
      use_set = rs_empty, defs_set = rs_empty,
      input_set = one_word 0, output_set = rs_empty, is_entry = False, is_exit = True,
      block_idx = 3\<rparr>]"

definition example_ranges :: "LiveInfo list" where
  "example_ranges =
    [\<lparr>li_min = 0, li_max = 5, is_alive = [True, True, True, False, True, True], indices_of_alive = [0, 0, 1, 2, 5, 4],
      li_var = 0, seen = True, has_constraint = False,
      assignment = [no_assignment, no_assignment, no_assignment, no_assignment, no_assignment, no_assignment],
      best_hint = no_assignment\<rparr>,
     \<lparr>li_min = 1, li_max = 5, is_alive = [True, True, False, True, True], indices_of_alive = [1, 2, 1, 2, 5, 4, 1],
      li_var = 1, seen = True, has_constraint = False,
      assignment = [no_assignment, no_assignment, no_assignment, no_assignment, no_assignment],
      best_hint = no_assignment\<rparr>,
     \<lparr>li_min = 4, li_max = 4, is_alive = [True], indices_of_alive = [4],
      li_var = 2, seen = True, has_constraint = False,
      assignment = [no_assignment],
      best_hint = no_assignment\<rparr>]"

definition example_cache :: RegAllocCache where
  "example_cache = new_cache\<lparr>basic_blocks := example_blocks4, live_ranges := example_ranges, max_var := 3,
    was_colored := [False, False, False], iregs := [gpr_var 0, gpr_var 1, gpr_var 2],
    stack_ops := [[], [], [], [], [], [], []], live_ranges_by_instr := [[0], [0, 1], [0, 1], [], [0, 1, 2], [0, 1], []]\<rparr>"

lemma find_basic_blocks_frame:
  "map_option basic_blocks (find_basic_blocks c inp) = Some bs \<Longrightarrow> find_basic_blocks c inp = Some (c\<lparr>basic_blocks := bs\<rparr>)"
  by (auto simp: find_basic_blocks_def Let_def bind_eq_Some_conv)

lemma compute_live_ranges_frame:
  "map_option live_ranges (compute_live_ranges c inp) = Some ls \<Longrightarrow> compute_live_ranges c inp = Some (c\<lparr>live_ranges := ls\<rparr>)"
  by (auto simp: compute_live_ranges_def Let_def bind_eq_Some_conv)

lemma example_find_blocks: "find_basic_blocks (start_cache example) example = Some (new_cache\<lparr>basic_blocks := example_blocks\<rparr>)"
proof -
  have "map_option basic_blocks (find_basic_blocks (start_cache example) example) = Some example_blocks" by code_simp
  from find_basic_blocks_frame [OF this] show ?thesis by (simp add: example_def new_cache_def)
qed

lemma example_phase1: "phase1_all (instructions example) example_blocks = Some example_blocks1"
  by code_simp

lemma example_pass1: "phase2_pass example_blocks1 = Some (True, example_blocks2)"
  by code_simp

lemma example_pass2: "phase2_pass example_blocks2 = Some (False, example_blocks3)"
  by code_simp

lemma example_phase3: "fold_opt phase3 [0 ..< length example_blocks3] example_blocks3 = Some example_blocks4"
  by code_simp

lemma example_live_passes: "live_passes (instructions example) example_blocks = Some example_blocks4"
  by (simp add: live_passes_def example_phase1 example_pass1 example_pass2 example_phase3 phase2_loop.simps)

definition example_marks :: "LiveInfo list" where
  "example_marks =
    [(new_LiveInfo 7 0)\<lparr>li_min := 0, li_max := 5, indices_of_alive := [0, 0, 1, 2, 5, 4], seen := True\<rparr>, (new_LiveInfo 7 0)\<lparr>li_min := 1, li_max := 5, indices_of_alive := [1, 2, 1, 2, 5, 4, 1], seen := True\<rparr>, (new_LiveInfo 7 0)\<lparr>li_min := 4, li_max := 4, indices_of_alive := [4], seen := True\<rparr>]"

definition example_marks0 :: "LiveInfo list" where
  "example_marks0 =
    [(new_LiveInfo 7 0)\<lparr>li_min := 0, li_max := 5, indices_of_alive := [0, 0, 1, 2, 5, 4], seen := True\<rparr>, (new_LiveInfo 7 0)\<lparr>li_min := 1, li_max := 5, indices_of_alive := [1, 2, 1, 2, 5, 4], seen := True\<rparr>, (new_LiveInfo 7 0)\<lparr>li_min := 4, li_max := 4, indices_of_alive := [4], seen := True\<rparr>]"

text \<open>Reading the bits of the sets one by one is slow; the sets of the example are initial segments.\<close>

definition bits_of :: "IRegSet \<Rightarrow> nat list" where
  "bits_of s = filter (\<lambda>j. fst (rs_index j s)) [0 ..< rs_size s]"

lemma fold_opt_filter: "fold_opt (\<lambda>j s. if P j then f j s else Some s) xs s = fold_opt f (filter P xs) s"
  by (induction xs arbitrary: s) auto

lemma fold_opt_map: "fold_opt f (map g xs) s = fold_opt (\<lambda>x. f (g x)) xs s"
  by (induction xs arbitrary: s) auto

lemma ranges_from_live_bits:
  assumes "length (live b) = length (instr_idx b)"
  shows "ranges_from_live b lrs =
    fold_opt (\<lambda>(i, vs). fold_opt (\<lambda>j. make_alive (int j) i) vs) (zip (instr_idx b) (map bits_of (live b))) lrs"
proof -
  have "zip (instr_idx b) (map bits_of (live b)) = map (\<lambda>k. (instr_idx b ! k, bits_of (live b ! k))) [0 ..< length (live b)]"
    using assms by (intro nth_equalityI) simp_all
  then show ?thesis using assms by (simp add: ranges_from_live_def fold_opt_filter fold_opt_map bits_of_def)
qed

lemma bits_of_segment:
  assumes "n \<le> 64"
  shows "bits_of (one_word (mask n)) = [0 ..< n]"
proof -
  have ok: "rs_ok (one_word (mask n))" by (simp add: rs_ok_def)
  have "fst (rs_index j (one_word (mask n))) \<longleftrightarrow> j < n" if "j < 64" for j
    using that assms by (simp add: rs_index_ok(1) [OF ok] members_def bit_mask_iff)
  then have "bits_of (one_word (mask n)) = filter (\<lambda>j. j < n) [0 ..< 64]"
    unfolding bits_of_def by (intro filter_cong) (simp_all add: rs_size_def)
  also have "\<dots> = [0 ..< n]"
  proof -
    have "[0 ..< 64] = [0 ..< n] @ [n ..< 64]" using assms by (metis le0 upt_add_eq_append le_add_diff_inverse)
    then show ?thesis by (simp add: filter_id_conv)
  qed
  finally show ?thesis .
qed

lemma example_bits:
  "bits_of rs_empty = []" "bits_of (one_word 0) = []" "bits_of (one_word 1) = [0]" "bits_of (one_word 3) = [0, 1]"
  using bits_of_segment [of 0] bits_of_segment [of 1] bits_of_segment [of 2]
  by (simp_all add: mask_eq_exp_minus_1 upt_rec) (simp add: bits_of_def rs_empty_def rs_size_def)

lemma ranges_from_blocks_bits:
  assumes "list_all2 (\<lambda>b vss. length (live b) = length (instr_idx b) \<and> map bits_of (live b) = vss) bs vsss"
  shows "fold_opt (\<lambda>b lrs. do { lrs \<leftarrow> ranges_from_use instrs b lrs; ranges_from_live b lrs }) bs lrs =
    fold_opt (\<lambda>(b, vss) lrs. do { lrs \<leftarrow> ranges_from_use instrs b lrs;
        fold_opt (\<lambda>(i, vs). fold_opt (\<lambda>j. make_alive (int j) i) vs) (zip (instr_idx b) vss) lrs })
      (zip bs vsss) lrs"
  using assms
proof (induction arbitrary: lrs rule: list_all2_induct)
  case (Cons b bs vss vsss)
  then show ?case by (simp add: ranges_from_live_bits [of b])
qed simp

lemma example_blocks_marks:
  "fold_opt (\<lambda>b lrs. do { lrs \<leftarrow> ranges_from_use (instructions example) b lrs; ranges_from_live b lrs }) example_blocks4
    (replicate 3 (new_LiveInfo 7 0)) = Some example_marks0"
proof -
  have "list_all2 (\<lambda>b vss. length (live b) = length (instr_idx b) \<and> map bits_of (live b) = vss) example_blocks4
      [[[0], [0, 1], [0, 1]], [[]], [[0, 1], []], [[]]]"
    by (simp add: example_blocks4_def example_bits)
  from ranges_from_blocks_bits [OF this] show ?thesis by (simp only:) code_simp
qed

lemma example_compute:
  "compute_live_ranges (new_cache\<lparr>max_var := 3, was_colored := [False, False, False],
      iregs := [gpr_var 0, gpr_var 1, gpr_var 2], basic_blocks := example_blocks4\<rparr>) example =
    Some (new_cache\<lparr>max_var := 3, was_colored := [False, False, False],
      iregs := [gpr_var 0, gpr_var 1, gpr_var 2], basic_blocks := example_blocks4, live_ranges := example_marks\<rparr>)"
proof -
  have m: "fold_opt (\<lambda>con lrs. if \<not> contrain_everywhere con then make_alive (ireg_id (con_ireg con)) (con_instr_idx con) lrs else Some lrs)
      (constraints example) example_marks0 = Some example_marks" by code_simp
  have e: "length (instructions example) = 7" by (simp add: example_def)
  show ?thesis
    using example_blocks_marks m by (simp add: compute_live_ranges_def Let_def assert_opt_def e new_cache_def)
qed

lemma example_record: "record_iregs (instructions example) [no_ireg, no_ireg, no_ireg] = Some [gpr_var 0, gpr_var 1, gpr_var 2]"
  by code_simp

lemma example_prepare: "prepare_all example_marks = Some example_ranges"
  by code_simp

lemma example_index: "index_live_ranges example_ranges [[], [], [], [], [], [], []] = Some [[0], [0, 1], [0, 1], [], [0, 1, 2], [0, 1], []]"
  by code_simp

lemma example_analyze: "analyze_liveliness (new_cache\<lparr>basic_blocks := example_blocks\<rparr>) example = Some example_cache"
proof -
  have e: "max_vars example = 3" "length (instructions example) = 7" by (simp_all add: example_def)
  have n: "iregs new_cache = []" "was_colored new_cache = []" "live_ranges_by_instr new_cache = []" "stack_ops new_cache = []"
    by (simp_all add: new_cache_def)
  show ?thesis
    unfolding analyze_liveliness_steps
    by (simp add: e n example_record example_live_passes example_compute example_prepare example_index assert_opt_def
        example_cache_def resize_list_def numeral_eq_Suc)
qed

definition example_colored :: "LiveInfo list" where
  "example_colored =
    [\<lparr>li_min = 0, li_max = 5, is_alive = [True, True, True, False, True, True], indices_of_alive = [0, 0, 1, 2, 5, 4],
      li_var = 0, seen = True, has_constraint = False,
      assignment = [in_reg (Register 0), in_reg (Register 0), in_reg (Register 0), in_reg (Register 0), in_reg (Register 0), in_reg (Register 0)],
      best_hint = \<lparr>as_kind = UNASSIGNED, as_reg = Register (- 1), stack_slot = - 1, spilled = False\<rparr>\<rparr>,
     \<lparr>li_min = 1, li_max = 5, is_alive = [True, True, False, True, True], indices_of_alive = [1, 2, 1, 2, 5, 4, 1],
      li_var = 1, seen = True, has_constraint = True,
      assignment = [in_reg (Register 3), in_reg (Register 3), in_reg (Register 3), in_reg (Register 3), in_reg (Register 3)],
      best_hint = in_reg (Register 3)\<rparr>,
     \<lparr>li_min = 4, li_max = 4, is_alive = [True], indices_of_alive = [4],
      li_var = 2, seen = True, has_constraint = False,
      assignment = [in_reg (Register 0)],
      best_hint = \<lparr>as_kind = UNASSIGNED, as_reg = Register (- 1), stack_slot = - 1, spilled = False\<rparr>\<rparr>]"

definition example_result :: "AllocationResult" where
  "example_result =
    \<lparr>res_ok = True, res_assignment = [[in_reg (Register 0), in_reg (Register 0), in_reg (Register 0), in_reg (Register 0), in_reg (Register 0), in_reg (Register 0), no_assignment], [no_assignment, in_reg (Register 3), in_reg (Register 3), in_reg (Register 3), in_reg (Register 3), in_reg (Register 3), no_assignment], [no_assignment, no_assignment, no_assignment, no_assignment, in_reg (Register 0), no_assignment, no_assignment]],
      ass_as_ranges = example_colored, used_saved_regs = [Register 3], stack_slots_for_spills = 0, stack_slots_for_vars = 0,
      res_stack_ops = [[], [], [], [], [], [], []], needs_aligned_stack_for_spills = False\<rparr>"

lemma example_colors:
  "(do { cache \<leftarrow> do_constrained_alloc example_cache example;
      ok \<leftarrow> check_constrained_alloc cache example;
      if \<not> ok then Some new_result
      else do {
        cache \<leftarrow> run_allocator example cache;
        as \<leftarrow> map_opt (\<lambda>i. do { lr \<leftarrow> array_at (live_ranges cache) i; copy_assignments example lr }) [0 .. max_var cache - 1];
        used \<leftarrow> used_saved cache;
        Some (new_result\<lparr>res_ok := True, needs_aligned_stack_for_spills := used_stack cache,
          stack_slots_for_spills := current_stack_slot cache, stack_slots_for_vars := stack_slots_for_stack_vars example,
          res_assignment := as, used_saved_regs := used, ass_as_ranges := live_ranges cache,
          res_stack_ops := stack_ops cache\<rparr>) }}) = Some example_result"
  by code_simp

lemma example_allocated: "allocate_registers example = Some example_result"
proof -
  have s: "is_asm_function example = False" by (simp add: example_def)
  show ?thesis
    unfolding allocate_registers_def Let_def s
    using example_find_blocks example_analyze example_colors by (simp add: s new_cache_def)
qed

end
