(* ===== verification/RegAlloc_Props.thy ===== *)
theory RegAlloc_Props
  imports Alloc_Result Alloc_Example
begin

text \<open>
  The properties of the register allocator, each applied to the example.
\<close>

section \<open>The instructions of the example\<close>

lemma example_size: "length (instructions example) = 7" "max_vars example = 3"
  by (simp_all add: example_def)

lemma example_instrs:
  "instructions example ! 0 = example_instr\<lparr>ri_write := [gpr_var 0]\<rparr>"
  "instructions example ! Suc 0 = example_instr\<lparr>ri_write := [gpr_var 1]\<rparr>"
  "instructions example ! 2 = example_instr\<lparr>ri_read := [gpr_var 1], jumps := [4]\<rparr>"
  "instructions example ! 3 = example_instr\<lparr>jumps := [6], fallthrough := False\<rparr>"
  "instructions example ! 4 = example_instr\<lparr>ri_write := [gpr_var 2]\<rparr>"
  "instructions example ! 5 = example_instr\<lparr>ri_read := [gpr_var 0, gpr_var 1]\<rparr>"
  "instructions example ! 6 = example_instr"
  by (simp_all add: example_def)

lemmas example_facts = example_size example_instrs example_instr_def gpr_var_def reads_def writes_def flows_to_def

lemma example_shape: "jumps_or_falls (instructions example)" "input_ok example" "res_ok example_result"
  by code_simp+

lemma example_live_in: "live_in (instructions example) 0 5" "live_in (instructions example) 1 5"
  "live_in (instructions example) 0 4" "live_in (instructions example) 1 4"
  "live_in (instructions example) 0 2" "live_in (instructions example) 1 2"
proof -
  show l5: "live_in (instructions example) 0 5" "live_in (instructions example) 1 5"
    by (rule live_in.read; simp add: example_facts)+
  show l4: "live_in (instructions example) 0 4" "live_in (instructions example) 1 4"
    using l5 by (auto intro!: live_in.pass [where j = 5] simp: example_facts)
  show "live_in (instructions example) 0 2" "live_in (instructions example) 1 2"
    using l4 by (auto intro!: live_in.pass [where j = 4] simp: example_facts)
qed

lemma example_live_out: "live_out (instructions example) 0 1" "live_out (instructions example) 1 1"
  "live_out (instructions example) 0 4" "live_out (instructions example) 0 2"
proof -
  have "flows_to (instructions example) 1 2" "flows_to (instructions example) 4 5" "flows_to (instructions example) 2 4"
    by (simp_all add: example_facts)
  then show "live_out (instructions example) 0 1" "live_out (instructions example) 1 1"
    "live_out (instructions example) 0 4" "live_out (instructions example) 0 2"
    using example_live_in unfolding live_out_def by blast+
qed

lemma example_alive: "alive example 0 4" "alive example 2 4" "alive example 1 1"
  using example_live_out by (auto simp: alive_def example_facts)

lemma example_loc: "loc example_result 0 4 = in_reg (Register 0)" "loc example_result 2 4 = in_reg (Register 0)"
  "loc example_result 0 1 = in_reg (Register 0)" "loc example_result 1 1 = in_reg (Register 3)"
  "loc example_result 0 2 = in_reg (Register 0)"
  by code_simp+

section \<open>Liveness\<close>

text \<open>
  C5. The analysis returns on every function whose jumps stay inside it and whose variables are in
  range, although phase 2 runs until nothing changes, and the set it leaves for an instruction is
  exactly the set of the variables that some path from behind the instruction reads before writing.
\<close>

theorem liveness_is_path_liveness:
  assumes "input_ok inp"
  shows "\<exists>c0 c. find_basic_blocks (start_cache inp) inp = Some c0 \<and> analyze_liveliness c0 inp = Some c \<and>
    (\<forall>b \<in> set (basic_blocks c). \<forall>k < length (instr_idx b).
       members (live b ! k) = {v. live_out (instructions inp) (int v) (nat (instr_idx b ! k))})"
proof -
  obtain c0 c where c: "find_basic_blocks (start_cache inp) inp = Some c0" "analyze_liveliness c0 inp = Some c"
    using analyze_total [OF assms] by blast
  have "\<forall>b \<in> set (basic_blocks c). live_sets_exact (instructions inp) b"
    using analyze_ok(3) [OF c] assms by (simp add: input_ok_def)
  then have "\<forall>b \<in> set (basic_blocks c). \<forall>k < length (instr_idx b).
      members (live b ! k) = {v. live_out (instructions inp) (int v) (nat (instr_idx b ! k))}"
    by (auto simp: live_sets_exact_def instr_at_def)
  then show ?thesis using c by blast
qed

lemma liveness_is_path_liveness_witness:
  "\<exists>c0 c. find_basic_blocks (start_cache example) example = Some c0 \<and> analyze_liveliness c0 example = Some c \<and>
    (\<forall>b \<in> set (basic_blocks c). \<forall>k < length (instr_idx b).
       members (live b ! k) = {v. live_out (instructions example) (int v) (nat (instr_idx b ! k))})"
  by (rule liveness_is_path_liveness [OF example_shape(2)])

section \<open>Who may share a register\<close>

lemma live_in_alive:
  assumes "live_in (instructions inp) v i"
  shows "alive inp v (int i)"
proof -
  have "i < length (instructions inp)" using assms by (auto elim: live_inE)
  then show ?thesis using assms live_in_unfold [of i "instructions inp" v] by (auto simp: alive_def)
qed

lemma live_out_alive:
  assumes "live_out (instructions inp) v i" "i < length (instructions inp)"
  shows "alive inp v (int i)" "jumps (instructions inp ! i) = [] \<Longrightarrow> alive inp v (int i + 1)"
proof -
  show "alive inp v (int i)" using assms by (simp add: alive_def)
  show "alive inp v (int i + 1)" if "jumps (instructions inp ! i) = []"
    using assms that live_in_alive [of inp v "Suc i"] by (auto simp: live_out_def flows_to_def add.commute)
qed

lemma shared_takes_over:
  assumes a: "allocate_registers inp = Some res" "res_ok res" and j: "jumps_or_falls (instructions inp)"
    and al: "alive inp v i" "alive inp w i" and ne: "v \<noteq> w"
    and same: "as_reg (loc res v i) = as_reg (loc res w i)" "as_reg (loc res v i) \<noteq> no_reg"
  shows "takes_over inp v w i \<or> takes_over inp w v i"
proof -
  obtain ca c1 c where c: "analysed inp ca" "same_extent ca c" "coloring inp c1 {v. var_ok c v} c"
    and loc: "\<And>v i. var_ok c v \<Longrightarrow> in_range (lr c v) i \<Longrightarrow> loc res v i = entry (lr c v) i"
    by (rule allocated [OF a j]) blast
  have l: "loc res u i = entry (lr c u) i" if "alive inp u i" for u
    using ranges_wfD [OF coloringD(1) [OF c(3)] that] by (intro loc) (simp_all add: var_ok_def)
  have "hands_over (lr c v) (lr c w) i"
    using coloringD(3) [OF c(3)] al ne same unfolding l [OF al(1)] l [OF al(2)] shared_ok_def by blast
  then show ?thesis using hands_over_takes_over [OF c(1,2) _ al] by blast
qed

lemma alive_entry:
  assumes a: "allocate_registers inp = Some res" "res_ok res" and j: "jumps_or_falls (instructions inp)" and al: "alive inp v i"
  shows "is_assigned (loc res v i)" "as_kind (loc res v i) = REGISTER \<longleftrightarrow> as_reg (loc res v i) \<noteq> no_reg"
    "as_reg (loc res v i) = no_reg \<or> legal_reg inp (as_reg (loc res v i))"
    "reads (ins_at inp i) v \<or> writes (ins_at inp i) v \<Longrightarrow> as_kind (loc res v i) = REGISTER"
    "as_reg (loc res v i) \<noteq> no_reg \<Longrightarrow> as_reg (loc res v i) \<notin> set (exclude (ins_at inp i))"
    "as_reg (loc res v i) \<noteq> no_reg \<Longrightarrow> alive inp v (i - 1) \<Longrightarrow> alive inp v (i + 1) \<Longrightarrow> as_reg (loc res v i) \<notin> set (clobber (ins_at inp i))"
    "con \<in> set (constraints inp) \<Longrightarrow> ireg_id (con_ireg con) = v \<Longrightarrow> contrain_everywhere con \<or> con_instr_idx con = i \<Longrightarrow>
      as_reg (loc res v i) = desired_register con"
proof -
  obtain ca c1 c where c: "analysed inp ca" "same_extent ca c" "coloring inp c1 {v. var_ok c v} c" "constraints_met inp c"
    and loc: "\<And>v i. var_ok c v \<Longrightarrow> in_range (lr c v) i \<Longrightarrow> loc res v i = entry (lr c v) i"
    by (rule allocated [OF a j]) blast
  note wf = coloringD(1) [OF c(3)]
  note d = ranges_wfD [OF wf al]
  have vok: "var_ok c v" using d by (simp add: var_ok_def)
  note l = loc [OF vok d(6)]
  have col: "colored_at inp (lr c v) v i" using coloringD(8) [OF c(3) _ d(6)] vok by simp
  have ent: "entry_ok (entry (lr c v) i) \<and> (as_reg (entry (lr c v) i) = no_reg \<or> legal_reg inp (as_reg (entry (lr c v) i)))"
    using coloringD(4) [OF c(3)] vok d(6) by (simp add: entries_ok_def)
  show "is_assigned (loc res v i)" "reads (ins_at inp i) v \<or> writes (ins_at inp i) v \<Longrightarrow> as_kind (loc res v i) = REGISTER"
    using col by (simp_all add: l colored_at_def)
  show "as_kind (loc res v i) = REGISTER \<longleftrightarrow> as_reg (loc res v i) \<noteq> no_reg"
    "as_reg (loc res v i) = no_reg \<or> legal_reg inp (as_reg (loc res v i))"
    using ent by (simp_all add: l entry_ok_def)
  show "as_reg (loc res v i) \<notin> set (exclude (ins_at inp i))" if "as_reg (loc res v i) \<noteq> no_reg"
    using col that by (auto simp: l colored_at_def obeys_def occupies_reg_def)
  show "as_reg (loc res v i) \<notin> set (clobber (ins_at inp i))"
    if "as_reg (loc res v i) \<noteq> no_reg" "alive inp v (i - 1)" "alive inp v (i + 1)"
    using col that(1) ranges_wfD(6) [OF wf that(2)] ranges_wfD(6) [OF wf that(3)]
    by (auto simp: l colored_at_def obeys_def occupies_reg_def in_range_def)
  show "as_reg (loc res v i) = desired_register con"
    if "con \<in> set (constraints inp)" "ireg_id (con_ireg con) = v" "contrain_everywhere con \<or> con_instr_idx con = i"
    using c(4) that vok d(6) unfolding l constraints_met_def Let_def by blast
qed

text \<open>
  C9. Two variables that are alive at an instruction are given the same register there only where one
  follows the other in the listing: one of them is not alive at the next instruction, the other not at
  the one before.
\<close>

theorem shared_register_changes_hands:
  assumes "allocate_registers inp = Some res" "res_ok res" "jumps_or_falls (instructions inp)"
    and "alive inp v i" "alive inp w i" "v \<noteq> w"
    and "as_reg (loc res v i) = as_reg (loc res w i)" "as_reg (loc res v i) \<noteq> no_reg"
  shows "(\<not> alive inp v (i + 1) \<and> \<not> alive inp w (i - 1)) \<or> (\<not> alive inp w (i + 1) \<and> \<not> alive inp v (i - 1))"
  using shared_takes_over [OF assms] by (simp add: takes_over_def)

lemma shared_register_changes_hands_witness:
  "(\<not> alive example 0 5 \<and> \<not> alive example 2 3) \<or> (\<not> alive example 2 5 \<and> \<not> alive example 0 3)"
proof -
  have "as_reg (loc example_result 0 4) = as_reg (loc example_result 2 4)" "as_reg (loc example_result 0 4) \<noteq> no_reg"
    unfolding example_loc by code_simp+
  from shared_register_changes_hands [OF example_allocated example_shape(3,1) example_alive(1,2) _ this]
  show ?thesis by simp
qed



text \<open>
  C11. The result is complete and keeps to the rules: every variable has a place wherever it is alive,
  and a register wherever the instruction reads or writes it; a register comes from the tables or from a
  constraint, is not one that the instruction excludes, nor one that it clobbers while the variable
  lives on; and every constraint is honoured.
\<close>

theorem assigned_registers_are_allowed:
  assumes "allocate_registers inp = Some res" "res_ok res" "jumps_or_falls (instructions inp)" and "alive inp v i"
  shows "is_assigned (loc res v i) \<and>
    (as_kind (loc res v i) = REGISTER \<longleftrightarrow> as_reg (loc res v i) \<noteq> no_reg) \<and>
    (reads (ins_at inp i) v \<or> writes (ins_at inp i) v \<longrightarrow> as_kind (loc res v i) = REGISTER) \<and>
    (as_reg (loc res v i) \<noteq> no_reg \<longrightarrow>
      as_reg (loc res v i) \<in> desired_register ` set (constraints inp) \<union> set (m_gpr_spill_temp_alloc_order gRegInfo) \<union>
        set (m_xmm_spill_temp_alloc_order gRegInfo) \<and>
      as_reg (loc res v i) \<notin> set (exclude (ins_at inp i)) \<and>
      (alive inp v (i - 1) \<and> alive inp v (i + 1) \<longrightarrow> as_reg (loc res v i) \<notin> set (clobber (ins_at inp i)))) \<and>
    (\<forall>con \<in> set (constraints inp). ireg_id (con_ireg con) = v \<and> (contrain_everywhere con \<or> con_instr_idx con = i) \<longrightarrow>
      as_reg (loc res v i) = desired_register con)"
proof -
  note e = alive_entry [OF assms]
  have "as_reg (loc res v i) \<in> desired_register ` set (constraints inp) \<union> set (m_gpr_spill_temp_alloc_order gRegInfo) \<union>
        set (m_xmm_spill_temp_alloc_order gRegInfo)" if "as_reg (loc res v i) \<noteq> no_reg"
    using e(3) that by (auto simp: legal_reg_def)
  then show ?thesis using e by blast
qed

lemma assigned_registers_are_allowed_witness:
  "as_kind (loc example_result 1 1) = REGISTER \<and> as_reg (loc example_result 1 1) = Reg RBX"
  using assigned_registers_are_allowed [OF example_allocated example_shape(3,1) example_alive(3)]
  by (simp add: example_facts example_def)

text \<open>
  C12. No saved register is used behind the caller's back: whichever register the result gives to a
  variable at an instruction, temporaries of spilled variables included, it is reported in
  \<^verbatim>\<open>used_saved_regs\<close> if the callee has to save it.
\<close>

theorem saved_registers_are_reported:
  assumes "allocate_registers inp = Some res" "0 \<le> v" "nat v < length (res_assignment res)"
    and "0 \<le> i" "nat i < length (res_assignment res ! nat v)"
    and "as_reg (loc res v i) \<in> set (m_saved_all gRegInfo)"
  shows "as_reg (loc res v i) \<in> set (used_saved_regs res)"
  by (rule saved_reported [OF assms])

lemma saved_registers_are_reported_witness: "Register 3 \<in> set (used_saved_regs example_result)"
proof -
  have "nat 1 < length (res_assignment example_result) \<and> nat 1 < length (res_assignment example_result ! nat 1)"
    "as_reg (loc example_result 1 1) \<in> set (m_saved_all gRegInfo)"
    unfolding example_loc by code_simp+
  then show ?thesis using saved_registers_are_reported [OF example_allocated, of 1 1] by (simp add: example_loc)
qed


end
