(* ===== verification/X86_Exec.thy ===== *)
theory X86_Exec
  imports Emit_Props
begin

unbundle bit_operations_syntax

text \<open>
  What the instructions of a prologue, an epilogue, a spill and a constant do on an x86-64 processor, as
  the architecture manual defines them. Only the instructions that this part of the compiler
  uses are given a meaning; flags are left out. An aligned access to an address that is not a
  multiple of 16 faults, which is \<open>None\<close>.
\<close>

record machine =
  gprs :: "nat \<Rightarrow> u64"
  xmms :: "nat \<Rightarrow> 128 word"
  ram :: "u64 \<Rightarrow> u8"
  rip :: u64

abbreviation rsp :: "machine \<Rightarrow> u64" where
  "rsp s \<equiv> gprs s 4"

definition put_ram :: "u64 \<Rightarrow> u8 list \<Rightarrow> (u64 \<Rightarrow> u8) \<Rightarrow> u64 \<Rightarrow> u8" where
  "put_ram a bs m = (\<lambda>x. if unat (x - a) < length bs then bs ! unat (x - a) else m x)"

definition get_ram :: "nat \<Rightarrow> u64 \<Rightarrow> (u64 \<Rightarrow> u8) \<Rightarrow> u8 list" where
  "get_ram n a m = map (\<lambda>i. m (a + of_nat i)) [0 ..< n]"

definition load64 :: "u64 \<Rightarrow> (u64 \<Rightarrow> u8) \<Rightarrow> u64" where
  "load64 a m = le_word (get_ram 8 a m)"

definition load128 :: "u64 \<Rightarrow> (u64 \<Rightarrow> u8) \<Rightarrow> 128 word" where
  "load128 a m = le_word (get_ram 16 a m)"

definition set_gpr :: "nat \<Rightarrow> u64 \<Rightarrow> machine \<Rightarrow> machine" where
  "set_gpr n v s = s\<lparr>gprs := (gprs s)(n := v)\<rparr>"

definition aligned16 :: "u64 \<Rightarrow> bool" where
  "aligned16 a \<longleftrightarrow> unat a mod 16 = 0"

fun exec_push :: "operand list \<Rightarrow> machine \<Rightarrow> machine option" where
  "exec_push [Gpr w r] s =
     (if w = 64 then Some (s\<lparr>gprs := (gprs s)(4 := rsp s - 8), ram := put_ram (rsp s - 8) (le_bytes 8 (gprs s r)) (ram s)\<rparr>)
      else None)"
| "exec_push _ s = None"

fun exec_pop :: "operand list \<Rightarrow> machine \<Rightarrow> machine option" where
  "exec_pop [Gpr w r] s =
     (if w = 64 then Some (s\<lparr>gprs := (gprs s)(4 := rsp s + 8, r := load64 (rsp s) (ram s))\<rparr>) else None)"
| "exec_pop _ s = None"

fun exec_arith :: "(u64 \<Rightarrow> u64 \<Rightarrow> u64) \<Rightarrow> operand list \<Rightarrow> machine \<Rightarrow> machine option" where
  "exec_arith f [Gpr w r, ImmI i] s = (if w = 64 then Some (set_gpr r (f (gprs s r) (word_of_int i)) s) else None)"
| "exec_arith f [Gpr w r, Gpr w' r'] s = (if w = 64 \<and> w' = 64 then Some (set_gpr r (f (gprs s r) (gprs s r')) s) else None)"
| "exec_arith f _ s = None"

fun exec_mov :: "operand list \<Rightarrow> machine \<Rightarrow> machine option" where
  "exec_mov [Gpr w r, ImmI i] s =
     (if w = 64 then Some (set_gpr r (word_of_int i) s)
      else if w = 32 then Some (set_gpr r (ucast (word_of_int i :: 32 word)) s) else None)"
| "exec_mov [Gpr w r, Gpr w' r'] s = (if w = 64 \<and> w' = 64 then Some (set_gpr r (gprs s r') s) else None)"
| "exec_mov [Gpr w r, Mem w' b ix d] s =
     (if w = 64 \<and> w' = 64 then Some (set_gpr r (load64 (mem_addr (gprs s) (Mem w' b ix d)) (ram s)) s) else None)"
| "exec_mov [Mem w' b ix d, Gpr w r] s =
     (if w = 64 \<and> w' = 64 then
        Some (s\<lparr>ram := put_ram (mem_addr (gprs s) (Mem w' b ix d)) (le_bytes 8 (gprs s r)) (ram s)\<rparr>) else None)"
| "exec_mov _ s = None"

fun exec_movdqa :: "operand list \<Rightarrow> machine \<Rightarrow> machine option" where
  "exec_movdqa [Mem w b ix d, Xmm x] s =
     (let a = mem_addr (gprs s) (Mem w b ix d)
      in if aligned16 a then Some (s\<lparr>ram := put_ram a (le_bytes 16 (xmms s x)) (ram s)\<rparr>) else None)"
| "exec_movdqa [Xmm x, Mem w b ix d] s =
     (let a = mem_addr (gprs s) (Mem w b ix d)
      in if aligned16 a then Some (s\<lparr>xmms := (xmms s)(x := load128 a (ram s))\<rparr>) else None)"
| "exec_movdqa _ s = None"

primrec exec :: "x86_insn \<Rightarrow> machine \<Rightarrow> machine option" where
  "exec (Insn m ops) s =
     (if m = PUSH then exec_push ops s
      else if m = POP then exec_pop ops s
      else if m = ADD then exec_arith (+) ops s
      else if m = SUB then exec_arith (-) ops s
      else if m = XOR_OP then exec_arith (XOR) ops s
      else if m = MOV then exec_mov ops s
      else if m = MOVDQA then exec_movdqa ops s
      else if m = RET \<and> ops = [] then
        Some (s\<lparr>gprs := (gprs s)(4 := rsp s + 8), rip := load64 (rsp s) (ram s)\<rparr>)
      else None)"

text \<open>Straight-line code: the instructions the emitter functions encode, one after the other.\<close>

definition runs :: "Instruction option list \<Rightarrow> machine \<Rightarrow> machine \<Rightarrow> bool" where
  "runs is s t \<longleftrightarrow> (\<exists>xs. list_all2 encodes is xs \<and> fold_opt exec xs s = Some t)"

section \<open>Running straight-line code\<close>

lemma encodes_unique: "encodes i x \<Longrightarrow> encodes i y \<Longrightarrow> x = y"
  by (metis encodes_def option.inject prod.inject)

lemma runs_Nil [simp]: "runs [] s t \<longleftrightarrow> s = t"
  by (simp add: runs_def)

lemma runs_Cons: "encodes i x \<Longrightarrow> exec x s = Some u \<Longrightarrow> runs is u t \<Longrightarrow> runs (i # is) s t"
  unfolding runs_def by (metis fold_opt.simps(2) list_all2_Cons bind.bind_lunit)

lemma fold_opt_append': "fold_opt f (xs @ ys) s = Option.bind (fold_opt f xs s) (fold_opt f ys)"
  by (induction xs arbitrary: s) (auto split: bind_splits)

lemma runs_append: "runs is s u \<Longrightarrow> runs js u t \<Longrightarrow> runs (is @ js) s t"
  unfolding runs_def by (metis fold_opt_append' list_all2_appendI bind.bind_lunit)

lemma runs_one: "encodes i x \<Longrightarrow> exec x s = Some t \<Longrightarrow> runs [i] s t"
  by (rule runs_Cons) simp_all

lemma runs_deterministic: "runs is s t \<Longrightarrow> runs is s t' \<Longrightarrow> t = t'"
proof -
  have "list_all2 encodes is xs \<Longrightarrow> list_all2 encodes is ys \<Longrightarrow> xs = ys" for xs ys
    by (induction "is" arbitrary: xs ys) (auto simp: list_all2_Cons1 intro: encodes_unique)
  then show "runs is s t \<Longrightarrow> runs is s t' \<Longrightarrow> t = t'" by (fastforce simp: runs_def)
qed

section \<open>Bytes on the stack\<close>

text \<open>Addresses are the stack pointer at some time plus a distance of less than \<open>2 ^ 40\<close> bytes.\<close>

definition spot :: "u64 \<Rightarrow> int \<Rightarrow> u64" where
  "spot a k = a + word_of_int k"

definition near :: "int \<Rightarrow> bool" where
  "near d \<longleftrightarrow> - (2 ^ 40) < d \<and> d < 2 ^ 40"

lemma spot_0 [simp]: "spot a 0 = a"
  by (simp add: spot_def)

lemma spot_add: "spot a x + word_of_int y = spot a (x + y)"
  by (simp add: spot_def wi_hom_add [symmetric])

lemma spot_sub: "spot a x - word_of_int y = spot a (x - y)"
  by (simp add: spot_def wi_hom_sub [symmetric])

lemma spot_numeral: "spot a x + numeral k = spot a (x + numeral k)" "spot a x - numeral k = spot a (x - numeral k)"
  using spot_add [of a x "numeral k"] spot_sub [of a x "numeral k"] by simp_all

lemma unat_word_of_int_diff:
  "0 \<le> d \<Longrightarrow> d < 2 ^ 64 \<Longrightarrow> unat (word_of_int d :: u64) = nat d"
  by (simp add: unsigned_of_int take_bit_int_eq_self)

lemma wrap_negative:
  assumes "- (2 ^ 63) < d" "d < 0"
  shows "unat (word_of_int d :: u64) = nat (d + 2 ^ 64)"
proof -
  have "(word_of_int d :: u64) = word_of_int (d + 2 ^ 64)" by (simp add: word_of_int_eq_iff take_bit_eq_mod)
  then have "unat (word_of_int d :: u64) = unat (word_of_int (d + 2 ^ 64) :: u64)" by (simp only:)
  also have "\<dots> = nat (d + 2 ^ 64)" using assms by (intro unat_word_of_int_diff) simp_all
  finally show ?thesis .
qed

lemma not_in_block:
  assumes "- (2 ^ 42) < d" "d < 2 ^ 42" "n < 2 ^ 40" "d < 0 \<or> int n \<le> d"
  shows "\<not> unat (word_of_int d :: u64) < n"
proof (cases "d < 0")
  case True
  then have "unat (word_of_int d :: u64) = nat (d + 2 ^ 64)" using assms(1) by (intro wrap_negative) auto
  then show ?thesis using assms True by (simp add: nat_less_iff)
next
  case False
  then have "unat (word_of_int d :: u64) = nat d" using assms(2) by (intro unat_word_of_int_diff) auto
  then show ?thesis using assms(4) False by (simp add: nat_less_iff)
qed

lemma put_ram_other:
  assumes "near x" "near y" "length bs < 2 ^ 40" "y < x \<or> x + int (length bs) \<le> y"
  shows "put_ram (spot a x) bs m (spot a y) = m (spot a y)"
proof -
  have e: "spot a y - spot a x = (word_of_int (y - x) :: u64)"
    by (simp add: spot_def wi_hom_sub [symmetric])
  have "\<not> unat (word_of_int (y - x) :: u64) < length bs"
    by (rule not_in_block) (use assms in \<open>auto simp: near_def\<close>)
  then show ?thesis by (simp only: put_ram_def e if_False)
qed

lemma get_ram_put_ram: "length bs = n \<Longrightarrow> n < 2 ^ 40 \<Longrightarrow> get_ram n a (put_ram a bs m) = bs"
  by (intro nth_equalityI) (simp_all add: get_ram_def put_ram_def unat_of_nat take_bit_nat_eq_self)

lemma get_ram_cong:
  assumes "\<And>k. 0 \<le> k \<Longrightarrow> k < int n \<Longrightarrow> m (spot a (x + k)) = m' (spot a (x + k))"
  shows "get_ram n (spot a x) m = get_ram n (spot a x) m'"
proof -
  have "m (spot a x + of_nat i) = m' (spot a x + of_nat i)" if "i < n" for i
  proof -
    have e: "spot a x + of_nat i = spot a (x + int i)" by (simp add: spot_def wi_hom_add [symmetric])
    show ?thesis unfolding e using assms [of "int i"] that by linarith
  qed
  then show ?thesis by (simp add: get_ram_def)
qed

text \<open>Two memories that agree from an address upwards.\<close>

definition same_above :: "u64 \<Rightarrow> int \<Rightarrow> (u64 \<Rightarrow> u8) \<Rightarrow> (u64 \<Rightarrow> u8) \<Rightarrow> bool" where
  "same_above a d m m' \<longleftrightarrow> (\<forall>k. d \<le> k \<longrightarrow> near k \<longrightarrow> m' (spot a k) = m (spot a k))"

lemma same_above_refl [simp]: "same_above a d m m"
  by (simp add: same_above_def)

lemma same_above_trans: "same_above a d m m' \<Longrightarrow> same_above a d' m' m'' \<Longrightarrow> same_above a (max d d') m m''"
  by (simp add: same_above_def)

lemma same_above_mono: "same_above a d m m' \<Longrightarrow> d \<le> d' \<Longrightarrow> same_above a d' m m'"
  by (simp add: same_above_def)

lemma same_above_put:
  "near x \<Longrightarrow> length bs < 2 ^ 40 \<Longrightarrow> x + int (length bs) \<le> d \<Longrightarrow> same_above a d m (put_ram (spot a x) bs m)"
  by (simp add: same_above_def put_ram_other)

lemma get_ram_above:
  "same_above a d m m' \<Longrightarrow> d \<le> x \<Longrightarrow> near (x + int n) \<Longrightarrow> near d \<Longrightarrow>
   get_ram n (spot a x) m' = get_ram n (spot a x) m"
  by (rule get_ram_cong) (simp add: same_above_def near_def del: of_int_add)

end
