(* ===== verification/IR.thy ===== *)
theory IR
  imports IGen_Vec ObjectGen RegAlloc_Types
begin

text \<open>
  The intermediate representation of a function (\<^verbatim>\<open>goalc/compiler/IR.h\<close>, \<^verbatim>\<open>IR.cpp\<close>, \<^verbatim>\<open>Val.h\<close>, \<^verbatim>\<open>Label.h\<close>) and
  what it tells the register allocator. A pointer to a \<^verbatim>\<open>RegVal\<close>, a \<^verbatim>\<open>Label\<close>, a \<^verbatim>\<open>StaticObject\<close> or a \<^verbatim>\<open>FunctionEnv\<close> is the
  number of that object in its owner's list, so that a change to the object is seen by every
  instruction that refers to it.
\<close>

section \<open>Values and labels\<close>

record RegVal =
  rv_ireg :: IRegister
  rlet_constraint :: "Register option"
  forced_on_stack :: bool

type_synonym reg = nat
type_synonym label = nat

record MemLoadInfo =
  mi_reg :: RegClass
  mi_sign_extend :: bool
  mi_size :: int

section \<open>Instructions\<close>

datatype IntegerMathKind =
  ADD_64 | SUB_64 | IMUL_32 | IMUL_64 | IDIV_32 | UDIV_32 | SHLV_64 | SARV_64 | SHRV_64 | SHL_64 |
  SAR_64 | SHR_64 | IMOD_32 | OR_64 | AND_64 | XOR_64 | NOT_64

datatype FloatMathKind = DIV_SS | MUL_SS | ADD_SS | SUB_SS | MIN_SS | MAX_SS | SQRT_SS

datatype ConditionKind = NOT_EQUAL | EQUAL | LEQ | LT | GT | GEQ | INVALID_CONDITION

record Condition =
  c_kind :: ConditionKind
  c_a :: reg
  c_b :: reg
  is_signed :: bool
  is_float :: bool

datatype VFMath3Kind = VF_XOR | VF_SUB | VF_ADD | VF_MUL | VF_MAX | VF_MIN | VF_DIV
datatype Int128Math3Kind = PEXTLW | PEXTUW | PCPYUD | PCPYLD | PCEQW | PSUBW
datatype Int128Math2Kind = PW_SLL | PW_SRL | PW_SRA | KIND_VPSRLDQ | KIND_VPSLLDQ | KIND_VPSHUFLW | KIND_VPSHUFHW
datatype VFMath2Kind = ITOF | FTOI

text \<open>
  The classes derived from \<^verbatim>\<open>IR\<close>, with their members in the order of the constructor. An \<^verbatim>\<open>IR_GotoLabel\<close> whose label
  is not resolved has no label; for \<^verbatim>\<open>IR_ConditionalBranch\<close> the flag is separate. The second constructor of
  \<^verbatim>\<open>IR_IntegerMath\<close> leaves the argument null.
\<close>

datatype (plugins only: code) IR =
  IR_Return reg reg Register
| IR_LoadConstant64 reg u64
| IR_LoadSymbolPointer reg string
| IR_SetSymbolValue string reg
| IR_GetSymbolValue reg string bool
| IR_RegSet reg reg
| IR_FunctionCall reg reg "reg list" "Register list" "Register option"
| IR_RegValAddr reg reg
| IR_StaticVarAddr reg nat
| IR_StaticVarLoad reg nat
| IR_FunctionAddr reg nat
| IR_IntegerMath IntegerMathKind reg "reg option" u8
| IR_FloatMath FloatMathKind reg reg
| IR_GotoLabel "label option"
| IR_ConditionalBranch Condition label bool
| IR_Null
| IR_ValueReset "reg list"
| IR_FloatToInt reg reg
| IR_IntToFloat reg reg
| IR_GetStackAddr reg int
| IR_Nop
| IR_LoadConstOffset reg int reg MemLoadInfo bool
| IR_StoreConstOffset reg int reg int bool
| IR_AsmRet bool
| IR_AsmFNop
| IR_AsmFWait
| IR_AsmPush bool reg
| IR_AsmPop bool reg
| IR_AsmSub bool reg reg
| IR_AsmAdd bool reg reg
| IR_GetSymbolValueAsm bool reg string bool
| IR_JumpReg bool reg
| IR_RegSetAsm bool reg reg
| IR_VFMath3Asm bool reg reg reg VFMath3Kind
| IR_Int128Math3Asm bool reg reg reg Int128Math3Kind
| IR_VFMath2Asm bool reg reg VFMath2Kind
| IR_Int128Math2Asm bool reg reg Int128Math2Kind "int option"
| IR_BlendVF bool reg reg reg u8
| IR_SplatVF bool reg reg VF_ELEMENT
| IR_SwizzleVF bool reg reg u8
| IR_SqrtVF bool reg reg

section \<open>For the register allocator\<close>

definition new_rai :: RegAllocInstr where
  "new_rai = \<lparr>clobber = [], exclude = [], ri_write = [], ri_read = [], jumps = [], fallthrough = True, is_move = False\<rparr>"

definition rai :: "IRegister list \<Rightarrow> IRegister list \<Rightarrow> RegAllocInstr" where
  "rai wr rd = new_rai\<lparr>ri_write := wr, ri_read := rd\<rparr>"

definition temp_regs :: "Register list" where
  "temp_regs = map (\<lambda>i. mk_Register (int i))
     (filter (\<lambda>i. info_temp (m_info gRegInfo ! i)) [0 ..< N_REGS])"

definition label_idx :: "int list \<Rightarrow> label \<Rightarrow> int" where
  "label_idx labels l = labels ! l"

definition condition_to_rai :: "RegVal list \<Rightarrow> Condition \<Rightarrow> RegAllocInstr" where
  "condition_to_rai regs c = rai [] [rv_ireg (regs ! c_a c), rv_ireg (regs ! c_b c)]"

text \<open>Asm instructions without colouring tell the allocator nothing.\<close>

definition rai_if :: "bool \<Rightarrow> IRegister list \<Rightarrow> IRegister list \<Rightarrow> RegAllocInstr" where
  "rai_if use_coloring wr rd = (if use_coloring then rai wr rd else new_rai)"

definition rai_Return ::
  "RegVal list \<Rightarrow> reg \<Rightarrow> reg \<Rightarrow> RegAllocInstr option" where
  "rai_Return regs return_reg value = (let r = rv_ireg (regs ! return_reg); v = rv_ireg (regs ! value)
      in Some ((rai [r] [v])\<lparr>is_move := ireg_class v = ireg_class r\<rparr>))"

definition rai_RegSet ::
  "RegVal list \<Rightarrow> reg \<Rightarrow> reg \<Rightarrow> RegAllocInstr option" where
  "rai_RegSet regs dest src = (let d = rv_ireg (regs ! dest); s = rv_ireg (regs ! src)
      in Some ((rai [d] [s])\<lparr>is_move := ireg_class d = ireg_class s\<rparr>))"

definition rai_FunctionCall ::
  "RegVal list \<Rightarrow> reg \<Rightarrow> reg \<Rightarrow> reg list \<Rightarrow> RegAllocInstr option" where
  "rai_FunctionCall regs func rt args = Some ((rai [rv_ireg (regs ! func), rv_ireg (regs ! rt)]
        (rv_ireg (regs ! func) # map (\<lambda>a. rv_ireg (regs ! a)) args))\<lparr>clobber := temp_regs\<rparr>)"

definition rai_IntegerMath ::
  "RegVal list \<Rightarrow> IntegerMathKind \<Rightarrow> reg \<Rightarrow> reg option \<Rightarrow> RegAllocInstr option" where
  "rai_IntegerMath regs kind dest arg = do {
     args \<leftarrow> (if kind \<noteq> NOT_64 \<and> kind \<noteq> SHL_64 \<and> kind \<noteq> SAR_64 \<and> kind \<noteq> SHR_64
               then do { a \<leftarrow> arg; Some [rv_ireg (regs ! a)] } else Some []);
     Some ((rai [rv_ireg (regs ! dest)] (rv_ireg (regs ! dest) # args))\<lparr>
       exclude := (if kind = IDIV_32 \<or> kind = IMOD_32 \<or> kind = UDIV_32 then [Reg RDX] else [])\<rparr>) }"

definition rai_FloatMath ::
  "RegVal list \<Rightarrow> FloatMathKind \<Rightarrow> reg \<Rightarrow> reg \<Rightarrow> RegAllocInstr option" where
  "rai_FloatMath regs kind dest arg = Some (rai [rv_ireg (regs ! dest)]
       ((if kind \<noteq> SQRT_SS then [rv_ireg (regs ! dest)] else []) @ [rv_ireg (regs ! arg)]))"

definition rai_GotoLabel ::
  "int list \<Rightarrow> label option \<Rightarrow> RegAllocInstr option" where
  "rai_GotoLabel labels dest = do {
     l \<leftarrow> dest;
     Some (new_rai\<lparr>jumps := [label_idx labels l], fallthrough := False\<rparr>) }"

definition rai_ConditionalBranch ::
  "RegVal list \<Rightarrow> int list \<Rightarrow> Condition \<Rightarrow> label \<Rightarrow> bool \<Rightarrow> RegAllocInstr option" where
  "rai_ConditionalBranch regs labels c label resolved = do {
     assert_opt resolved;
     Some ((condition_to_rai regs c)\<lparr>jumps := [label_idx labels label]\<rparr>) }"

definition rai_ValueReset ::
  "RegVal list \<Rightarrow> reg list \<Rightarrow> RegAllocInstr option" where
  "rai_ValueReset regs args = Some (rai (map (\<lambda>a. rv_ireg (regs ! a)) args) [])"

definition rai_FloatToInt ::
  "RegVal list \<Rightarrow> reg \<Rightarrow> reg \<Rightarrow> RegAllocInstr option" where
  "rai_FloatToInt regs dest src = Some (rai [rv_ireg (regs ! dest)] [rv_ireg (regs ! src)])"

definition rai_IntToFloat ::
  "RegVal list \<Rightarrow> reg \<Rightarrow> reg \<Rightarrow> RegAllocInstr option" where
  "rai_IntToFloat regs dest src = Some (rai [rv_ireg (regs ! dest)] [rv_ireg (regs ! src)])"

definition rai_LoadConstOffset ::
  "RegVal list \<Rightarrow> reg \<Rightarrow> reg \<Rightarrow> RegAllocInstr option" where
  "rai_LoadConstOffset regs dest base = Some (rai [rv_ireg (regs ! dest)] [rv_ireg (regs ! base)])"

definition rai_StoreConstOffset ::
  "RegVal list \<Rightarrow> reg \<Rightarrow> reg \<Rightarrow> RegAllocInstr option" where
  "rai_StoreConstOffset regs value base = Some (rai [] [rv_ireg (regs ! value), rv_ireg (regs ! base)])"

text \<open>The call through the class \<^verbatim>\<open>IR\<close>.\<close>

primrec to_rai :: "RegVal list \<Rightarrow> int list \<Rightarrow> IR \<Rightarrow> RegAllocInstr option" where
  "to_rai regs labels (IR_Return return_reg value x2) = rai_Return regs return_reg value"
| "to_rai regs labels (IR_LoadConstant64 dest x1) = Some (rai [rv_ireg (regs ! dest)] [])"
| "to_rai regs labels (IR_LoadSymbolPointer dest x1) = Some (rai [rv_ireg (regs ! dest)] [])"
| "to_rai regs labels (IR_SetSymbolValue x0 src) = Some (rai [] [rv_ireg (regs ! src)])"
| "to_rai regs labels (IR_GetSymbolValue dest x1 x2) = Some (rai [rv_ireg (regs ! dest)] [])"
| "to_rai regs labels (IR_RegSet dest src) = rai_RegSet regs dest src"
| "to_rai regs labels (IR_FunctionCall func rt args x3 x4) = rai_FunctionCall regs func rt args"
| "to_rai regs labels (IR_RegValAddr dest x1) = Some (rai [rv_ireg (regs ! dest)] [])"
| "to_rai regs labels (IR_StaticVarAddr dest x1) = Some (rai [rv_ireg (regs ! dest)] [])"
| "to_rai regs labels (IR_StaticVarLoad dest x1) = Some (rai [rv_ireg (regs ! dest)] [])"
| "to_rai regs labels (IR_FunctionAddr dest x1) = Some (rai [rv_ireg (regs ! dest)] [])"
| "to_rai regs labels (IR_IntegerMath kind dest arg x3) = rai_IntegerMath regs kind dest arg"
| "to_rai regs labels (IR_FloatMath kind dest arg) = rai_FloatMath regs kind dest arg"
| "to_rai regs labels (IR_GotoLabel dest) = rai_GotoLabel labels dest"
| "to_rai regs labels (IR_ConditionalBranch c label resolved) = rai_ConditionalBranch regs labels c label resolved"
| "to_rai regs labels IR_Null = Some new_rai"
| "to_rai regs labels (IR_ValueReset args) = rai_ValueReset regs args"
| "to_rai regs labels (IR_FloatToInt dest src) = rai_FloatToInt regs dest src"
| "to_rai regs labels (IR_IntToFloat dest src) = rai_IntToFloat regs dest src"
| "to_rai regs labels (IR_GetStackAddr dest x1) = Some (rai [rv_ireg (regs ! dest)] [])"
| "to_rai regs labels IR_Nop = Some new_rai"
| "to_rai regs labels (IR_LoadConstOffset dest x1 base x3 x4) = rai_LoadConstOffset regs dest base"
| "to_rai regs labels (IR_StoreConstOffset value x1 base x3 x4) = rai_StoreConstOffset regs value base"
| "to_rai regs labels (IR_AsmRet x0) = Some new_rai"
| "to_rai regs labels IR_AsmFNop = Some new_rai"
| "to_rai regs labels IR_AsmFWait = Some new_rai"
| "to_rai regs labels (IR_AsmPush uc src) = Some (rai_if uc [] [rv_ireg (regs ! src)])"
| "to_rai regs labels (IR_AsmPop uc dst) = Some (rai_if uc [rv_ireg (regs ! dst)] [])"
| "to_rai regs labels (IR_AsmSub uc dst src) = Some (rai_if uc [rv_ireg (regs ! dst)] [rv_ireg (regs ! dst), rv_ireg (regs ! src)])"
| "to_rai regs labels (IR_AsmAdd uc dst src) = Some (rai_if uc [rv_ireg (regs ! dst)] [rv_ireg (regs ! dst), rv_ireg (regs ! src)])"
| "to_rai regs labels (IR_GetSymbolValueAsm uc dest x2 x3) = Some (rai_if uc [rv_ireg (regs ! dest)] [])"
| "to_rai regs labels (IR_JumpReg uc src) = Some (rai_if uc [] [rv_ireg (regs ! src)])"
| "to_rai regs labels (IR_RegSetAsm uc dst src) = Some (rai_if uc [rv_ireg (regs ! dst)] [rv_ireg (regs ! src)])"
| "to_rai regs labels (IR_VFMath3Asm uc dst src1 src2 x4) = Some (rai_if uc [rv_ireg (regs ! dst)] [rv_ireg (regs ! src1), rv_ireg (regs ! src2)])"
| "to_rai regs labels (IR_Int128Math3Asm uc dst src1 src2 x4) = Some (rai_if uc [rv_ireg (regs ! dst)] [rv_ireg (regs ! src1), rv_ireg (regs ! src2)])"
| "to_rai regs labels (IR_VFMath2Asm uc dst src x3) = Some (rai_if uc [rv_ireg (regs ! dst)] [rv_ireg (regs ! src)])"
| "to_rai regs labels (IR_Int128Math2Asm uc dst src x3 x4) = Some (rai_if uc [rv_ireg (regs ! dst)] [rv_ireg (regs ! src)])"
| "to_rai regs labels (IR_BlendVF uc dst src1 src2 x4) = Some (rai_if uc [rv_ireg (regs ! dst)] [rv_ireg (regs ! src1), rv_ireg (regs ! src2)])"
| "to_rai regs labels (IR_SplatVF uc dst src x3) = Some (rai_if uc [rv_ireg (regs ! dst)] [rv_ireg (regs ! src)])"
| "to_rai regs labels (IR_SwizzleVF uc dst src x3) = Some (rai_if uc [rv_ireg (regs ! dst)] [rv_ireg (regs ! src)])"
| "to_rai regs labels (IR_SqrtVF uc dst src) = Some (rai_if uc [rv_ireg (regs ! dst)] [rv_ireg (regs ! src)])"

definition constrain_at :: "IRegister \<Rightarrow> int \<Rightarrow> Register \<Rightarrow> IRegConstraint" where
  "constrain_at x i r = \<lparr>con_ireg = x, con_instr_idx = i, contrain_everywhere = False, desired_register = r\<rparr>"

text \<open>
  A \<^verbatim>\<open>RegVal\<close> is never a \<^verbatim>\<open>None\<close>, so the cast in \<^verbatim>\<open>IR_Return::add_constraints\<close> fails. Fewer argument
  registers than arguments is an access out of range.
\<close>

definition add_constraints :: "RegVal list \<Rightarrow> int \<Rightarrow> IR \<Rightarrow> IRegConstraint list \<Rightarrow> IRegConstraint list option" where
  "add_constraints regs my_id ir cs =
    (case ir of
       IR_Return return_reg _ ret_reg \<Rightarrow> Some (cs @ [constrain_at (rv_ireg (regs ! return_reg)) my_id ret_reg])
     | IR_FunctionCall _ rt args arg_regs ret_reg \<Rightarrow> do {
         assert_opt (length args \<le> length arg_regs);
         Some (cs @ map (\<lambda>(a, r). constrain_at (rv_ireg (regs ! a)) my_id r) (zip args arg_regs) @
           (case ret_reg of None \<Rightarrow> [] | Some r \<Rightarrow> [constrain_at (rv_ireg (regs ! rt)) my_id r])) }
     | _ \<Rightarrow> Some cs)"

end
