(* ===== verification/Static_Object.thy ===== *)
theory Static_Object
  imports ObjectGen Goal_Constants
begin

text \<open>
  Static data of a file (\<^verbatim>\<open>goalc/compiler/StaticObject.cpp\<close>, \<^verbatim>\<open>ConstantValue.h\<close>) and how it is written into
  the object file. References to other static objects and to functions are their numbers in the file. A
  float is its four bytes. The record of an object is set when it is generated; an object that refers
  to one that is generated later finds the initial record there.
\<close>

section \<open>Constants and references\<close>

definition integer_fits :: "int \<Rightarrow> int \<Rightarrow> bool \<Rightarrow> bool option" where
  "integer_fits v n sg =
    (if n = 1 then Some (if sg then - (2 ^ 7) \<le> v \<and> v \<le> 2 ^ 7 - 1 else 0 \<le> v \<and> v \<le> 2 ^ 8 - 1)
     else if n = 2 then Some (if sg then - (2 ^ 15) \<le> v \<and> v \<le> 2 ^ 15 - 1 else 0 \<le> v \<and> v \<le> 2 ^ 16 - 1)
     else if n = 4 then Some (if sg then - (2 ^ 31) \<le> v \<and> v \<le> 2 ^ 31 - 1 else 0 \<le> v \<and> v \<le> 2 ^ 32 - 1)
     else if n = 8 then Some True
     else None)"

record ConstantValue =
  cv_value :: "u8 list"
  cv_size :: int

text \<open>The constructor copies \<^verbatim>\<open>size\<close> bytes into an array of 16.\<close>

definition new_ConstantValue :: "u8 list \<Rightarrow> int \<Rightarrow> ConstantValue option" where
  "new_ConstantValue data n = do {
    assert_opt (n = 8 \<or> n = 16);
    Some \<lparr>cv_value = take (nat n) data @ replicate (16 - nat n) 0, cv_size = n\<rparr> }"

definition value_64 :: "ConstantValue \<Rightarrow> int option" where
  "value_64 c = do { assert_opt (cv_size c = 8); Some (sint (le_word (take 8 (cv_value c)) :: u64)) }"

definition value_128_lo :: "ConstantValue \<Rightarrow> u64 option" where
  "value_128_lo c = do { assert_opt (cv_size c = 16); Some (le_word (take 8 (cv_value c))) }"

definition value_128_hi :: "ConstantValue \<Rightarrow> u64 option" where
  "value_128_hi c = do { assert_opt (cv_size c = 16); Some (le_word (take 8 (drop 8 (cv_value c)))) }"

definition uses_gpr :: "ConstantValue \<Rightarrow> bool" where
  "uses_gpr c \<longleftrightarrow> cv_size c = 8"

text \<open>The bytes to be copied, or \<open>None\<close> inside when the value does not fit.\<close>

definition copy_to :: "ConstantValue \<Rightarrow> int \<Rightarrow> bool \<Rightarrow> u8 list option option" where
  "copy_to c n sg =
    (if cv_size c = 8 then do {
       v \<leftarrow> value_64 c;
       ok \<leftarrow> integer_fits v n sg;
       Some (if ok then Some (take (nat n) (cv_value c)) else None) }
     else if cv_size c = 16 then Some (if n = 16 then Some (take 16 (cv_value c)) else None)
     else None)"

datatype StaticResult =
  STRUCTURE_REFERENCE nat
| CONSTANT_DATA ConstantValue
| STATIC_SYMBOL string
| STATIC_TYPE string int
| FUNCTION_REFERENCE nat
| INVALID_RESULT

definition constant_s32 :: "StaticResult \<Rightarrow> s32 option" where
  "constant_s32 r =
    (case r of
       CONSTANT_DATA c \<Rightarrow> do {
         v \<leftarrow> value_64 c;
         ok \<leftarrow> integer_fits v 4 True;
         assert_opt ok;
         Some (word_of_int v) }
     | _ \<Rightarrow> None)"

definition constant_u64 :: "StaticResult \<Rightarrow> u64 option" where
  "constant_u64 r = (case r of CONSTANT_DATA c \<Rightarrow> map_option word_of_int (value_64 c) | _ \<Rightarrow> None)"

section \<open>Objects\<close>

record SymbolRecord =
  sym_offset :: int
  sym_name :: string

record PointerRecord =
  ptr_offset_in_this :: int
  ptr_dest :: nat
  ptr_offset_in_dest :: int

record FuncRecord =
  frec_func :: nat
  frec_offset_in_this :: int

record StaticStructure =
  ss_data :: "u8 list"
  ss_seg :: int
  ss_types :: "SymbolRecord list"
  ss_symbols :: "SymbolRecord list"
  ss_pointers :: "PointerRecord list"
  ss_functions :: "FuncRecord list"
  ss_offset :: int

definition new_StaticStructure :: "int \<Rightarrow> StaticStructure" where
  "new_StaticStructure seg =
    \<lparr>ss_data = [], ss_seg = seg, ss_types = [], ss_symbols = [], ss_pointers = [], ss_functions = [], ss_offset = 0\<rparr>"

definition set_offset :: "int \<Rightarrow> StaticStructure \<Rightarrow> StaticStructure" where
  "set_offset off s = s\<lparr>ss_offset := off\<rparr>"

definition add_symbol_record :: "string \<Rightarrow> int \<Rightarrow> StaticStructure \<Rightarrow> StaticStructure" where
  "add_symbol_record name off s = s\<lparr>ss_symbols := ss_symbols s @ [\<lparr>sym_offset = off, sym_name = name\<rparr>]\<rparr>"

definition add_pointer_record :: "int \<Rightarrow> nat \<Rightarrow> int \<Rightarrow> StaticStructure \<Rightarrow> StaticStructure" where
  "add_pointer_record off dest off_in_dest s =
    s\<lparr>ss_pointers := ss_pointers s @ [\<lparr>ptr_offset_in_this = off, ptr_dest = dest, ptr_offset_in_dest = off_in_dest\<rparr>]\<rparr>"

definition add_type_record :: "string \<Rightarrow> int \<Rightarrow> StaticStructure \<Rightarrow> StaticStructure" where
  "add_type_record name off s = s\<lparr>ss_types := ss_types s @ [\<lparr>sym_offset = off, sym_name = name\<rparr>]\<rparr>"

definition add_function_record :: "nat \<Rightarrow> int \<Rightarrow> StaticStructure \<Rightarrow> StaticStructure" where
  "add_function_record f off s = s\<lparr>ss_functions := ss_functions s @ [\<lparr>frec_func = f, frec_offset_in_this = off\<rparr>]\<rparr>"

text \<open>The classes derived from \<^verbatim>\<open>StaticObject\<close>.\<close>

datatype StaticBody =
  StaticFloat "u8 list" int
| PlainStructure StaticStructure
| StaticBasic StaticStructure string
| StaticString StaticStructure string string
| StaticPair StaticStructure StaticResult StaticResult

record StaticObject =
  st_rec :: StaticRecord
  st_body :: StaticBody

definition new_StaticRecord :: StaticRecord where
  "new_StaticRecord = \<lparr>st_seg = - 1, st_static_id = - 1\<rparr>"

definition new_StaticBasic :: "int \<Rightarrow> string \<Rightarrow> StaticStructure" where
  "new_StaticBasic seg type_name = add_type_record type_name 0 (new_StaticStructure seg)"

definition new_StaticString :: "string \<Rightarrow> int \<Rightarrow> StaticObject" where
  "new_StaticString text_data seg =
    \<lparr>st_rec = new_StaticRecord, st_body = StaticString (new_StaticBasic seg ''string'') ''string'' text_data\<rparr>"

definition new_StaticPair :: "StaticResult \<Rightarrow> StaticResult \<Rightarrow> int \<Rightarrow> StaticObject" where
  "new_StaticPair car cdr seg = \<lparr>st_rec = new_StaticRecord, st_body = StaticPair (new_StaticStructure seg) car cdr\<rparr>"

definition get_addr_offset :: "StaticBody \<Rightarrow> int" where
  "get_addr_offset b =
    (case b of
       StaticFloat _ _ \<Rightarrow> 0
     | PlainStructure s \<Rightarrow> ss_offset s
     | StaticBasic _ _ \<Rightarrow> uint BASIC_OFFSET
     | StaticString _ _ _ \<Rightarrow> uint BASIC_OFFSET
     | StaticPair _ _ _ \<Rightarrow> uint PAIR_OFFSET)"

record LoadInfo =
  requires_load :: bool
  load_size :: int
  load_signed :: bool
  prefer_xmm :: bool

definition get_load_info :: "StaticBody \<Rightarrow> LoadInfo" where
  "get_load_info b =
    (case b of
       StaticFloat _ _ \<Rightarrow> \<lparr>requires_load = True, load_size = 4, load_signed = False, prefer_xmm = True\<rparr>
     | _ \<Rightarrow> \<lparr>requires_load = False, load_size = - 1, load_signed = False, prefer_xmm = False\<rparr>)"

section \<open>Writing them\<close>

text \<open>\<^verbatim>\<open>generate_structure\<close>; \<open>func_idx\<close> has \<^verbatim>\<open>idx_in_file\<close> of every function.\<close>

definition generate_structure ::
  "StaticObject list \<Rightarrow> int list \<Rightarrow> StaticStructure \<Rightarrow> ObjectGenerator \<Rightarrow> (StaticRecord \<times> ObjectGenerator) option" where
  "generate_structure statics func_idx s g = do {
    (r, g) \<leftarrow> add_static_to_seg (ss_seg s) 16 g;
    d \<leftarrow> get_static_data g r;
    g \<leftarrow> write_static_data r (d @ ss_data s) g;
    g \<leftarrow> fold_opt (\<lambda>y. link_static_symbol_ptr r (sym_offset y) (sym_name y)) (ss_symbols s) g;
    g \<leftarrow> fold_opt (\<lambda>p. link_static_pointer_to_data r (ptr_offset_in_this p) (st_rec (statics ! ptr_dest p)) (ptr_offset_in_dest p))
      (ss_pointers s) g;
    g \<leftarrow> fold_opt (\<lambda>t. link_static_type_ptr r (sym_offset t) (sym_name t)) (ss_types s) g;
    g \<leftarrow> fold_opt (\<lambda>f g. do {
        fr \<leftarrow> get_existing_function_record g (func_idx ! frec_func f);
        link_static_pointer_to_function r (frec_offset_in_this f) fr g })
      (ss_functions s) g;
    Some (r, g) }"

text \<open>\<^verbatim>\<open>memcpy(data.data() + offset, ...)\<close>\<close>

definition put_bytes :: "nat \<Rightarrow> u8 list \<Rightarrow> u8 list \<Rightarrow> u8 list" where
  "put_bytes off bs data = take off data @ bs @ drop (off + length bs) data"

text \<open>A type or a function in a pair is skipped.\<close>

definition generate_item :: "StaticObject list \<Rightarrow> StaticResult \<Rightarrow> nat \<Rightarrow> StaticStructure \<Rightarrow> StaticStructure option" where
  "generate_item statics item off s =
    (case item of
       STRUCTURE_REFERENCE k \<Rightarrow> Some (add_pointer_record (int off) k (get_addr_offset (st_body (statics ! k))) s)
     | STATIC_SYMBOL name \<Rightarrow>
         Some ((add_symbol_record name (int off) s)\<lparr>ss_data := put_bytes off (le_bytes 4 (0xffffffff :: u32)) (ss_data s)\<rparr>)
     | CONSTANT_DATA _ \<Rightarrow> do {
         v \<leftarrow> constant_s32 item;
         Some (s\<lparr>ss_data := put_bytes off (le_bytes 4 v) (ss_data s)\<rparr>) }
     | _ \<Rightarrow> Some s)"

definition resize_data :: "nat \<Rightarrow> u8 list \<Rightarrow> u8 list" where
  "resize_data n d = take n d @ replicate (n - length d) 0"

text \<open>The object with its record set, and for a pair with its data.\<close>

definition generate ::
  "StaticObject list \<Rightarrow> int list \<Rightarrow> StaticObject \<Rightarrow> ObjectGenerator \<Rightarrow> (StaticObject \<times> ObjectGenerator) option" where
  "generate statics func_idx x g =
    (case st_body x of
       StaticFloat value seg \<Rightarrow> do {
         (r, g) \<leftarrow> add_static_to_seg seg 4 g;
         d \<leftarrow> get_static_data g r;
         g \<leftarrow> write_static_data r (d @ value) g;
         Some (x\<lparr>st_rec := r\<rparr>, g) }
     | StaticString s type_name txt \<Rightarrow> do {
         (r, g) \<leftarrow> add_static_to_seg (ss_seg s) 16 g;
         d \<leftarrow> get_static_data g r;
         g \<leftarrow> link_static_type_ptr r (int (length d)) ''string'' g;
         g \<leftarrow> write_static_data r
           (d @ replicate POINTER_SIZE 0xbe @ le_bytes 4 (of_nat (length txt) :: u32) @ str_bytes txt @ [0]) g;
         Some (x\<lparr>st_rec := r\<rparr>, g) }
     | PlainStructure s \<Rightarrow> do {
         (r, g) \<leftarrow> generate_structure statics func_idx s g;
         Some (x\<lparr>st_rec := r\<rparr>, g) }
     | StaticBasic s _ \<Rightarrow> do {
         (r, g) \<leftarrow> generate_structure statics func_idx s g;
         Some (x\<lparr>st_rec := r\<rparr>, g) }
     | StaticPair s car cdr \<Rightarrow> do {
         let s = s\<lparr>ss_data := resize_data (2 * POINTER_SIZE) (ss_data s)\<rparr>;
         s \<leftarrow> generate_item statics car 0 s;
         s \<leftarrow> generate_item statics cdr 4 s;
         (r, g) \<leftarrow> generate_structure statics func_idx s g;
         Some (x\<lparr>st_rec := r, st_body := StaticPair s car cdr\<rparr>, g) })"

end
