(* ===== verification/IR_Codegen.thy ===== *)
theory IR_Codegen
  imports IR Static_Object
begin

text \<open>
  Code generation for one instruction of the intermediate representation (\<^verbatim>\<open>do_codegen\<close> of the classes in
  \<^verbatim>\<open>goalc/compiler/IR.cpp\<close>). A failed assertion and an exception are \<open>None\<close>; so is an instruction that \<^verbatim>\<open>IGen\<close>
  refuses to encode.
\<close>

section \<open>The registers of a value\<close>

definition GPR_SIZE :: int where "GPR_SIZE = 8"
definition XMM_SIZE :: int where "XMM_SIZE = 16"

text \<open>What code generation reads of the function: its values, labels, allocation, and of the file.\<close>

record codegen_env =
  ce_regs :: "RegVal list"
  ce_labels :: "int list"
  ce_allocs :: AllocationResult
  ce_statics :: "StaticObject list"
  ce_func_idx :: "int list"

definition get_reg :: "codegen_env \<Rightarrow> IR_Record \<Rightarrow> reg \<Rightarrow> Register option" where
  "get_reg env irec k =
    (let rv = ce_regs env ! k; range = ass_as_ranges (ce_allocs env) in
     case rlet_constraint rv of
       Some r \<Rightarrow> do {
         assert_opt (ireg_id (rv_ireg rv) < int (length range));
         lr \<leftarrow> array_at range (ireg_id (rv_ireg rv));
         assert_opt (li_min lr \<le> ir_ir_id irec \<and> ir_ir_id irec \<le> li_max lr);
         ass_reg \<leftarrow> get_at lr (ir_ir_id irec);
         assert_opt (as_kind ass_reg = REGISTER);
         assert_opt (as_reg ass_reg = r);
         Some r }
     | None \<Rightarrow> do {
         lr \<leftarrow> array_at range (ireg_id (rv_ireg rv));
         ass \<leftarrow> get_at lr (ir_ir_id irec);
         assert_opt (as_kind ass = REGISTER);
         Some (as_reg ass) })"

definition get_stack_offset :: "codegen_env \<Rightarrow> reg \<Rightarrow> int option" where
  "get_stack_offset env k =
    (let rv = ce_regs env ! k in
     case rlet_constraint rv of
       Some _ \<Rightarrow> None
     | None \<Rightarrow> do {
         assert_opt (forced_on_stack rv);
         lr \<leftarrow> array_at (ass_as_ranges (ce_allocs env)) (ireg_id (rv_ireg rv));
         ass \<leftarrow> array_at (assignment lr) 0;
         slot \<leftarrow> get_slot_for_spill (ce_allocs env) (stack_slot ass);
         assert_opt (0 \<le> slot);
         Some (slot * 8) })"

definition get_no_color_reg :: "codegen_env \<Rightarrow> reg \<Rightarrow> Register option" where
  "get_no_color_reg env k = rlet_constraint (ce_regs env ! k)"

definition get_reg_asm :: "codegen_env \<Rightarrow> IR_Record \<Rightarrow> bool \<Rightarrow> reg \<Rightarrow> Register option" where
  "get_reg_asm env irec use_coloring k = (if use_coloring then get_reg env irec k else get_no_color_reg env k)"

section \<open>Emitting\<close>

definition emit_instr :: "IR_Record \<Rightarrow> Instruction option \<Rightarrow> ObjectGenerator \<Rightarrow> (InstructionRecord \<times> ObjectGenerator) option" where
  "emit_instr irec i g = do { i \<leftarrow> i; add_instr i irec g }"

definition emit_all :: "IR_Record \<Rightarrow> Instruction option list \<Rightarrow> ObjectGenerator \<Rightarrow> ObjectGenerator option" where
  "emit_all irec is g = fold_opt (\<lambda>i g. do { (_, g) \<leftarrow> emit_instr irec i g; Some g }) is g"

definition load_constant :: "u64 \<Rightarrow> Register \<Rightarrow> Instruction option" where
  "load_constant value dest_reg =
    (let svalue = sint value in
     if svalue = 0 then xor_gpr64_gpr64 dest_reg dest_reg
     else if 0 < svalue then
       (if svalue < 4294967295 then mov_gpr64_u32 dest_reg value else mov_gpr64_u64 dest_reg value)
     else
       (if - 2147483648 \<le> svalue then mov_gpr64_s32 dest_reg svalue else mov_gpr64_u64 dest_reg value))"

definition is_xmm128_class :: "RegClass \<Rightarrow> bool" where
  "is_xmm128_class c \<longleftrightarrow> c = VECTOR_FLOAT \<or> c = INT_128"

text \<open>The instruction of \<^verbatim>\<open>regset_common\<close>.\<close>

definition move_instr :: "RegClass \<Rightarrow> RegClass \<Rightarrow> Register \<Rightarrow> Register \<Rightarrow> Instruction option" where
  "move_instr src_class dst_class src_reg dst_reg =
    (if src_class = GPR_64 \<and> dst_class = GPR_64 then
       (if src_reg = dst_reg then null_instr else mov_gpr64_gpr64 dst_reg src_reg)
     else if src_class = FLOAT \<and> dst_class = FLOAT then
       (if src_reg = dst_reg then null_instr else mov_xmm32_xmm32 dst_reg src_reg)
     else if is_xmm128_class src_class \<and> is_xmm128_class dst_class then
       (if src_reg = dst_reg then null_instr else mov_vf_vf dst_reg src_reg)
     else if src_class = FLOAT \<and> dst_class = GPR_64 then movd_gpr32_xmm32 dst_reg src_reg
     else if src_class = GPR_64 \<and> dst_class = FLOAT then movd_xmm32_gpr32 dst_reg src_reg
     else if is_xmm128_class src_class \<and> dst_class = FLOAT then mov_xmm32_xmm32 dst_reg src_reg
     else if src_class = FLOAT \<and> is_xmm128_class dst_class then mov_xmm32_xmm32 dst_reg src_reg
     else if src_class = GPR_64 \<and> is_xmm128_class dst_class then movq_xmm64_gpr64 dst_reg src_reg
     else if is_xmm128_class src_class \<and> dst_class = GPR_64 then movq_gpr64_xmm64 dst_reg src_reg
     else None)"

definition class_of :: "codegen_env \<Rightarrow> reg \<Rightarrow> RegClass" where
  "class_of env k = ireg_class (rv_ireg (ce_regs env ! k))"

definition regset_common ::
  "codegen_env \<Rightarrow> IR_Record \<Rightarrow> reg \<Rightarrow> reg \<Rightarrow> bool \<Rightarrow> ObjectGenerator \<Rightarrow> ObjectGenerator option" where
  "regset_common env irec dst src use_coloring g = do {
    src_reg \<leftarrow> get_reg_asm env irec use_coloring src;
    dst_reg \<leftarrow> get_reg_asm env irec use_coloring dst;
    emit_all irec [move_instr (class_of env src) (class_of env dst) src_reg dst_reg] g }"

text \<open>The code of \<^verbatim>\<open>IR_IntegerMath\<close>, once the registers are known; \<open>arg\<close> is absent where it is not read.\<close>

definition integer_math :: "IntegerMathKind \<Rightarrow> Register \<Rightarrow> Register option \<Rightarrow> u8 \<Rightarrow> Instruction option list option" where
  "integer_math kind dest arg shift_amount =
    (case kind of
       NOT_64 \<Rightarrow> Some [not_gpr64 dest]
     | SHL_64 \<Rightarrow> Some [shl_gpr64_u8 dest shift_amount]
     | SHR_64 \<Rightarrow> Some [shr_gpr64_u8 dest shift_amount]
     | SAR_64 \<Rightarrow> Some [sar_gpr64_u8 dest shift_amount]
     | _ \<Rightarrow> do {
         a \<leftarrow> arg;
         (case kind of
            ADD_64 \<Rightarrow> Some [add_gpr64_gpr64 dest a]
          | SUB_64 \<Rightarrow> Some [sub_gpr64_gpr64 dest a]
          | AND_64 \<Rightarrow> Some [and_gpr64_gpr64 dest a]
          | OR_64 \<Rightarrow> Some [or_gpr64_gpr64 dest a]
          | XOR_64 \<Rightarrow> Some [xor_gpr64_gpr64 dest a]
          | SHLV_64 \<Rightarrow> do { assert_opt (a = Reg RCX); Some [shl_gpr64_cl dest] }
          | SHRV_64 \<Rightarrow> do { assert_opt (a = Reg RCX); Some [shr_gpr64_cl dest] }
          | SARV_64 \<Rightarrow> do { assert_opt (a = Reg RCX); Some [sar_gpr64_cl dest] }
          | IMUL_32 \<Rightarrow> Some [imul_gpr32_gpr32 dest a, movsx_r64_r32 dest dest]
          | IMUL_64 \<Rightarrow> Some [imul_gpr64_gpr64 dest a]
          | IDIV_32 \<Rightarrow> Some [cdq, idiv_gpr32 a, movsx_r64_r32 dest (Reg RAX)]
          | UDIV_32 \<Rightarrow> Some [xor_gpr64_gpr64 (Reg RDX) (Reg RDX), unsigned_div_gpr32 a, movsx_r64_r32 dest (Reg RAX)]
          | _ \<Rightarrow> Some [cdq, idiv_gpr32 a, movsx_r64_r32 dest (Reg RDX)]) })"

definition float_math :: "FloatMathKind \<Rightarrow> Register \<Rightarrow> Register \<Rightarrow> Instruction option" where
  "float_math kind =
    (case kind of
       DIV_SS \<Rightarrow> divss_xmm_xmm | MUL_SS \<Rightarrow> mulss_xmm_xmm | ADD_SS \<Rightarrow> addss_xmm_xmm | SUB_SS \<Rightarrow> subss_xmm_xmm
     | MAX_SS \<Rightarrow> maxss_xmm_xmm | MIN_SS \<Rightarrow> minss_xmm_xmm | SQRT_SS \<Rightarrow> sqrts_xmm)"

definition branch_instr :: "Condition \<Rightarrow> Instruction option" where
  "branch_instr c =
    (case c_kind c of
       EQUAL \<Rightarrow> je_32
     | NOT_EQUAL \<Rightarrow> jne_32
     | LEQ \<Rightarrow> (if is_signed c then jle_32 else jbe_32)
     | GEQ \<Rightarrow> (if is_signed c then jge_32 else jae_32)
     | LT \<Rightarrow> (if is_signed c then jl_32 else jb_32)
     | GT \<Rightarrow> (if is_signed c then jg_32 else ja_32)
     | INVALID_CONDITION \<Rightarrow> None)"

definition vf_math3 :: "VFMath3Kind \<Rightarrow> Register \<Rightarrow> Register \<Rightarrow> Register \<Rightarrow> Instruction option" where
  "vf_math3 kind =
    (case kind of VF_XOR \<Rightarrow> xor_vf | VF_SUB \<Rightarrow> sub_vf | VF_ADD \<Rightarrow> add_vf | VF_MUL \<Rightarrow> mul_vf | VF_MAX \<Rightarrow> max_vf
     | VF_MIN \<Rightarrow> min_vf | VF_DIV \<Rightarrow> div_vf)"

text \<open>The sources are swapped where the processor has them the other way round.\<close>

definition int128_math3 :: "Int128Math3Kind \<Rightarrow> Register \<Rightarrow> Register \<Rightarrow> Register \<Rightarrow> Instruction option" where
  "int128_math3 kind dst src1 src2 =
    (case kind of PEXTLW \<Rightarrow> pextlw_swapped dst src2 src1 | PEXTUW \<Rightarrow> pextuw_swapped dst src2 src1
     | PCPYLD \<Rightarrow> pcpyld_swapped dst src2 src1 | PCPYUD \<Rightarrow> pcpyud dst src1 src2 | PCEQW \<Rightarrow> pceqw dst src1 src2
     | PSUBW \<Rightarrow> vpsubd dst src1 src2)"

definition int128_math2 :: "Int128Math2Kind \<Rightarrow> Register \<Rightarrow> Register \<Rightarrow> u8 \<Rightarrow> Instruction option" where
  "int128_math2 kind =
    (case kind of PW_SLL \<Rightarrow> pw_sll | PW_SRL \<Rightarrow> pw_srl | PW_SRA \<Rightarrow> pw_sra | KIND_VPSRLDQ \<Rightarrow> vpsrldq
     | KIND_VPSLLDQ \<Rightarrow> vpslldq | KIND_VPSHUFLW \<Rightarrow> vpshuflw | KIND_VPSHUFHW \<Rightarrow> vpshufhw)"

definition vf_math2 :: "VFMath2Kind \<Rightarrow> Register \<Rightarrow> Register \<Rightarrow> Instruction option" where
  "vf_math2 kind = (case kind of ITOF \<Rightarrow> itof_vf | FTOI \<Rightarrow> ftoi_vf)"

section \<open>All instructions\<close>

definition emit_symbol_mem :: "IR_Record \<Rightarrow> Instruction option \<Rightarrow> string \<Rightarrow> ObjectGenerator \<Rightarrow> ObjectGenerator option" where
  "emit_symbol_mem irec i name g = do {
    (r, g) \<leftarrow> emit_instr irec i g;
    link_instruction_symbol_mem r name g }"

definition emit_jump :: "IR_Record \<Rightarrow> Instruction option \<Rightarrow> int \<Rightarrow> ObjectGenerator \<Rightarrow> ObjectGenerator option" where
  "emit_jump irec i dest g = do {
    (r, g) \<leftarrow> emit_instr irec i g;
    link_instruction_jump r (get_future_ir_record_in_same_func irec dest) g }"

definition load_symbol_value :: "bool \<Rightarrow> Register \<Rightarrow> Instruction option" where
  "load_symbol_value sext dst =
    (if sext then load32s_gpr64_gpr64_plus_gpr64_plus_s32 dst get_st_reg get_offset_reg 0x0badbeef
     else load32u_gpr64_gpr64_plus_gpr64_plus_s32 dst get_st_reg get_offset_reg 0x0badbeef)"

definition load_const_offset :: "RegClass \<Rightarrow> MemLoadInfo \<Rightarrow> Register \<Rightarrow> Register \<Rightarrow> int \<Rightarrow> Instruction option" where
  "load_const_offset c info dest base off =
    (if c = GPR_64 then load_goal_gpr dest base get_offset_reg off (mi_size info) (mi_sign_extend info)
     else if c = FLOAT \<and> mi_size info = 4 \<and> \<not> mi_sign_extend info \<and> mi_reg info = FLOAT then
       load_goal_xmm32 dest base get_offset_reg off
     else if is_xmm128_class c \<and> mi_size info = 16 \<and> \<not> mi_sign_extend info \<and> mi_reg info = c then
       load_goal_xmm128 dest base get_offset_reg off
     else None)"

definition store_const_offset :: "RegClass \<Rightarrow> int \<Rightarrow> Register \<Rightarrow> Register \<Rightarrow> int \<Rightarrow> Instruction option" where
  "store_const_offset c sz base value off =
    (if c = GPR_64 then store_goal_gpr base value get_offset_reg off sz
     else if c = FLOAT \<and> sz = 4 then store_goal_xmm32 base value get_offset_reg off
     else if is_xmm128_class c \<and> sz = 16 then store_goal_vf base value get_offset_reg off
     else None)"

definition codegen_Return ::
  "codegen_env \<Rightarrow> IR_Record \<Rightarrow> reg \<Rightarrow> reg \<Rightarrow> ObjectGenerator \<Rightarrow> ObjectGenerator option" where
  "codegen_Return env irec return_reg value g = do {
     val_reg \<leftarrow> get_reg env irec value;
     dest_reg \<leftarrow> get_reg env irec return_reg;
     if val_reg = dest_reg then emit_all irec [null_instr] g
     else regset_common env irec return_reg value True g }"

definition codegen_LoadConstant64 ::
  "codegen_env \<Rightarrow> IR_Record \<Rightarrow> reg \<Rightarrow> u64 \<Rightarrow> ObjectGenerator \<Rightarrow> ObjectGenerator option" where
  "codegen_LoadConstant64 env irec dest value g = do {
     dest_reg \<leftarrow> get_reg env irec dest;
     emit_all irec [load_constant value dest_reg] g }"

definition codegen_LoadSymbolPointer ::
  "codegen_env \<Rightarrow> IR_Record \<Rightarrow> reg \<Rightarrow> string \<Rightarrow> ObjectGenerator \<Rightarrow> ObjectGenerator option" where
  "codegen_LoadSymbolPointer env irec dest name g = do {
     dest_reg \<leftarrow> get_reg env irec dest;
     if name = ''#f'' then emit_all irec [mov_gpr64_gpr64 dest_reg get_st_reg] g
     else if name = ''#t'' then emit_all irec [lea_reg_plus_off8 dest_reg get_st_reg (sint FIX_SYM_TRUE)] g
     else if name = ''_empty_'' then emit_all irec [lea_reg_plus_off8 dest_reg get_st_reg (sint FIX_SYM_EMPTY_PAIR)] g
     else do {
       (r, g) \<leftarrow> emit_instr irec (lea_reg_plus_off32 dest_reg get_st_reg 0x0afecafe) g;
       link_instruction_symbol_ptr r name g } }"

definition codegen_SetSymbolValue ::
  "codegen_env \<Rightarrow> IR_Record \<Rightarrow> string \<Rightarrow> reg \<Rightarrow> ObjectGenerator \<Rightarrow> ObjectGenerator option" where
  "codegen_SetSymbolValue env irec dest src g = do {
     src_reg \<leftarrow> get_reg env irec src;
     emit_symbol_mem irec (store32_gpr64_gpr64_plus_gpr64_plus_s32 get_st_reg get_offset_reg src_reg 0x0badbeef) dest g }"

definition codegen_GetSymbolValue ::
  "codegen_env \<Rightarrow> IR_Record \<Rightarrow> reg \<Rightarrow> string \<Rightarrow> bool \<Rightarrow> ObjectGenerator \<Rightarrow> ObjectGenerator option" where
  "codegen_GetSymbolValue env irec dest src sext g = do {
     dst_reg \<leftarrow> get_reg env irec dest;
     emit_symbol_mem irec (load_symbol_value sext dst_reg) src g }"

definition codegen_FunctionCall ::
  "codegen_env \<Rightarrow> IR_Record \<Rightarrow> reg \<Rightarrow> ObjectGenerator \<Rightarrow> ObjectGenerator option" where
  "codegen_FunctionCall env irec func g = do {
     freg \<leftarrow> get_reg env irec func;
     emit_all irec [add_gpr64_gpr64 freg get_offset_reg, call_r64 freg] g }"

definition codegen_RegValAddr ::
  "codegen_env \<Rightarrow> IR_Record \<Rightarrow> reg \<Rightarrow> reg \<Rightarrow> ObjectGenerator \<Rightarrow> ObjectGenerator option" where
  "codegen_RegValAddr env irec dest src g = do {
     stack_offset \<leftarrow> get_stack_offset env src;
     dst \<leftarrow> get_reg env irec dest;
     emit_all irec [lea_reg_plus_off dst (Reg RSP) stack_offset, sub_gpr64_gpr64 dst get_offset_reg] g }"

definition codegen_StaticVarAddr ::
  "codegen_env \<Rightarrow> IR_Record \<Rightarrow> reg \<Rightarrow> nat \<Rightarrow> ObjectGenerator \<Rightarrow> ObjectGenerator option" where
  "codegen_StaticVarAddr env irec dest src g = do {
     dr \<leftarrow> get_reg env irec dest;
     (r, g) \<leftarrow> emit_instr irec (static_addr dr 0) g;
     g \<leftarrow> link_instruction_static r (st_rec (ce_statics env ! src)) (get_addr_offset (st_body (ce_statics env ! src))) g;
     emit_all irec [sub_gpr64_gpr64 dr get_offset_reg] g }"

definition codegen_StaticVarLoad ::
  "codegen_env \<Rightarrow> IR_Record \<Rightarrow> reg \<Rightarrow> nat \<Rightarrow> ObjectGenerator \<Rightarrow> ObjectGenerator option" where
  "codegen_StaticVarLoad env irec dest src g = (let obj = ce_statics env ! src; load_info = get_load_info (st_body obj) in do {
        assert_opt (get_addr_offset (st_body obj) = 0);
        dr \<leftarrow> get_reg env irec dest;
        i \<leftarrow> (if class_of env dest = FLOAT then do {
               assert_opt (\<not> load_signed load_info);
               assert_opt (load_size load_info = 4);
               assert_opt (requires_load load_info);
               Some (static_load_xmm32 dr 0) }
             else if class_of env dest = VECTOR_FLOAT then Some (loadvf_rip_plus_s32 dr 0)
             else None);
        (r, g) \<leftarrow> emit_instr irec i g;
        link_instruction_static r (st_rec obj) 0 g })"

definition codegen_FunctionAddr ::
  "codegen_env \<Rightarrow> IR_Record \<Rightarrow> reg \<Rightarrow> nat \<Rightarrow> ObjectGenerator \<Rightarrow> ObjectGenerator option" where
  "codegen_FunctionAddr env irec dest src g = do {
     dr \<leftarrow> get_reg env irec dest;
     (r, g) \<leftarrow> emit_instr irec (static_addr dr 0) g;
     f \<leftarrow> get_existing_function_record g (ce_func_idx env ! src);
     g \<leftarrow> link_instruction_to_function r f g;
     emit_all irec [sub_gpr64_gpr64 dr get_offset_reg] g }"

definition codegen_IntegerMath ::
  "codegen_env \<Rightarrow> IR_Record \<Rightarrow> IntegerMathKind \<Rightarrow> reg \<Rightarrow> reg option \<Rightarrow> u8 \<Rightarrow> ObjectGenerator \<Rightarrow> ObjectGenerator option" where
  "codegen_IntegerMath env irec kind dest arg shift_amount g = do {
     dr \<leftarrow> get_reg env irec dest;
     ar \<leftarrow> (if kind = NOT_64 then do { assert_opt (arg = None); Some None }
           else if kind = SHL_64 \<or> kind = SHR_64 \<or> kind = SAR_64 then Some None
           else do { a \<leftarrow> arg; map_option Some (get_reg env irec a) });
     is \<leftarrow> integer_math kind dr ar shift_amount;
     emit_all irec is g }"

definition codegen_FloatMath ::
  "codegen_env \<Rightarrow> IR_Record \<Rightarrow> FloatMathKind \<Rightarrow> reg \<Rightarrow> reg \<Rightarrow> ObjectGenerator \<Rightarrow> ObjectGenerator option" where
  "codegen_FloatMath env irec kind dest arg g = do {
     dr \<leftarrow> get_reg env irec dest;
     ar \<leftarrow> get_reg env irec arg;
     emit_all irec [float_math kind dr ar] g }"

definition codegen_GotoLabel ::
  "codegen_env \<Rightarrow> IR_Record \<Rightarrow> label option \<Rightarrow> ObjectGenerator \<Rightarrow> ObjectGenerator option" where
  "codegen_GotoLabel env irec dest g = do {
     l \<leftarrow> dest;
     emit_jump irec jmp_32 (label_idx (ce_labels env) l) g }"

definition codegen_ConditionalBranch ::
  "codegen_env \<Rightarrow> IR_Record \<Rightarrow> Condition \<Rightarrow> label \<Rightarrow> bool \<Rightarrow> ObjectGenerator \<Rightarrow> ObjectGenerator option" where
  "codegen_ConditionalBranch env irec c label resolved g = do {
     assert_opt resolved;
     assert_opt (c_kind c \<noteq> INVALID_CONDITION);
     a \<leftarrow> get_reg env irec (c_a c);
     b \<leftarrow> get_reg env irec (c_b c);
     g \<leftarrow> emit_all irec [if is_float c then cmp_flt_flt a b else cmp_gpr64_gpr64 a b] g;
     emit_jump irec (branch_instr c) (label_idx (ce_labels env) label) g }"

definition codegen_FloatToInt ::
  "codegen_env \<Rightarrow> IR_Record \<Rightarrow> reg \<Rightarrow> reg \<Rightarrow> ObjectGenerator \<Rightarrow> ObjectGenerator option" where
  "codegen_FloatToInt env irec dest src g = do {
     dr \<leftarrow> get_reg env irec dest;
     sr \<leftarrow> get_reg env irec src;
     emit_all irec [float_to_int32 dr sr] g }"

definition codegen_IntToFloat ::
  "codegen_env \<Rightarrow> IR_Record \<Rightarrow> reg \<Rightarrow> reg \<Rightarrow> ObjectGenerator \<Rightarrow> ObjectGenerator option" where
  "codegen_IntToFloat env irec dest src g = do {
     dr \<leftarrow> get_reg env irec dest;
     sr \<leftarrow> get_reg env irec src;
     emit_all irec [int32_to_float dr sr] g }"

definition codegen_GetStackAddr ::
  "codegen_env \<Rightarrow> IR_Record \<Rightarrow> reg \<Rightarrow> int \<Rightarrow> ObjectGenerator \<Rightarrow> ObjectGenerator option" where
  "codegen_GetStackAddr env irec dest slot g = do {
     dest_reg \<leftarrow> get_reg env irec dest;
     slot \<leftarrow> get_slot_for_var (ce_allocs env) slot;
     let off = GPR_SIZE * slot;
     emit_all irec
       [if off = 0 then mov_gpr64_gpr64 dest_reg (Reg RSP) else lea_reg_plus_off dest_reg (Reg RSP) off,
        sub_gpr64_gpr64 dest_reg get_offset_reg] g }"

definition codegen_LoadConstOffset ::
  "codegen_env \<Rightarrow> IR_Record \<Rightarrow> reg \<Rightarrow> int \<Rightarrow> reg \<Rightarrow> MemLoadInfo \<Rightarrow> bool \<Rightarrow> ObjectGenerator \<Rightarrow> ObjectGenerator option" where
  "codegen_LoadConstOffset env irec dest offset base info uc g = do {
     dest_reg \<leftarrow> get_reg_asm env irec uc dest;
     base_reg \<leftarrow> get_reg_asm env irec uc base;
     emit_all irec [load_const_offset (class_of env dest) info dest_reg base_reg offset] g }"

definition codegen_StoreConstOffset ::
  "codegen_env \<Rightarrow> IR_Record \<Rightarrow> reg \<Rightarrow> int \<Rightarrow> reg \<Rightarrow> int \<Rightarrow> bool \<Rightarrow> ObjectGenerator \<Rightarrow> ObjectGenerator option" where
  "codegen_StoreConstOffset env irec value offset base sz uc g = do {
     base_reg \<leftarrow> get_reg_asm env irec uc base;
     value_reg \<leftarrow> get_reg_asm env irec uc value;
     emit_all irec [store_const_offset (class_of env value) sz base_reg value_reg offset] g }"

definition codegen_AsmPush ::
  "codegen_env \<Rightarrow> IR_Record \<Rightarrow> bool \<Rightarrow> reg \<Rightarrow> ObjectGenerator \<Rightarrow> ObjectGenerator option" where
  "codegen_AsmPush env irec uc src g = do {
     sr \<leftarrow> get_reg_asm env irec uc src;
     emit_all irec [push_gpr64 sr] g }"

definition codegen_AsmPop ::
  "codegen_env \<Rightarrow> IR_Record \<Rightarrow> bool \<Rightarrow> reg \<Rightarrow> ObjectGenerator \<Rightarrow> ObjectGenerator option" where
  "codegen_AsmPop env irec uc dst g = do {
     dr \<leftarrow> get_reg_asm env irec uc dst;
     emit_all irec [pop_gpr64 dr] g }"

definition codegen_AsmSub ::
  "codegen_env \<Rightarrow> IR_Record \<Rightarrow> bool \<Rightarrow> reg \<Rightarrow> reg \<Rightarrow> ObjectGenerator \<Rightarrow> ObjectGenerator option" where
  "codegen_AsmSub env irec uc dst src g = do {
     dr \<leftarrow> get_reg_asm env irec uc dst;
     sr \<leftarrow> get_reg_asm env irec uc src;
     emit_all irec [sub_gpr64_gpr64 dr sr] g }"

definition codegen_AsmAdd ::
  "codegen_env \<Rightarrow> IR_Record \<Rightarrow> bool \<Rightarrow> reg \<Rightarrow> reg \<Rightarrow> ObjectGenerator \<Rightarrow> ObjectGenerator option" where
  "codegen_AsmAdd env irec uc dst src g = do {
     dr \<leftarrow> get_reg_asm env irec uc dst;
     sr \<leftarrow> get_reg_asm env irec uc src;
     emit_all irec [add_gpr64_gpr64 dr sr] g }"

definition codegen_GetSymbolValueAsm ::
  "codegen_env \<Rightarrow> IR_Record \<Rightarrow> bool \<Rightarrow> reg \<Rightarrow> string \<Rightarrow> bool \<Rightarrow> ObjectGenerator \<Rightarrow> ObjectGenerator option" where
  "codegen_GetSymbolValueAsm env irec uc dest name sext g = do {
     dst_reg \<leftarrow> get_reg_asm env irec uc dest;
     emit_symbol_mem irec (load_symbol_value sext dst_reg) name g }"

definition codegen_JumpReg ::
  "codegen_env \<Rightarrow> IR_Record \<Rightarrow> bool \<Rightarrow> reg \<Rightarrow> ObjectGenerator \<Rightarrow> ObjectGenerator option" where
  "codegen_JumpReg env irec uc src g = do {
     sr \<leftarrow> get_reg_asm env irec uc src;
     emit_all irec [jmp_r64 sr] g }"

definition codegen_VFMath3Asm ::
  "codegen_env \<Rightarrow> IR_Record \<Rightarrow> bool \<Rightarrow> reg \<Rightarrow> reg \<Rightarrow> reg \<Rightarrow> VFMath3Kind \<Rightarrow> ObjectGenerator \<Rightarrow> ObjectGenerator option" where
  "codegen_VFMath3Asm env irec uc dst src1 src2 kind g = do {
     dr \<leftarrow> get_reg_asm env irec uc dst;
     s1 \<leftarrow> get_reg_asm env irec uc src1;
     s2 \<leftarrow> get_reg_asm env irec uc src2;
     emit_all irec [vf_math3 kind dr s1 s2] g }"

definition codegen_Int128Math3Asm ::
  "codegen_env \<Rightarrow> IR_Record \<Rightarrow> bool \<Rightarrow> reg \<Rightarrow> reg \<Rightarrow> reg \<Rightarrow> Int128Math3Kind \<Rightarrow> ObjectGenerator \<Rightarrow> ObjectGenerator option" where
  "codegen_Int128Math3Asm env irec uc dst src1 src2 kind g = do {
     dr \<leftarrow> get_reg_asm env irec uc dst;
     s1 \<leftarrow> get_reg_asm env irec uc src1;
     s2 \<leftarrow> get_reg_asm env irec uc src2;
     emit_all irec [int128_math3 kind dr s1 s2] g }"

definition codegen_VFMath2Asm ::
  "codegen_env \<Rightarrow> IR_Record \<Rightarrow> bool \<Rightarrow> reg \<Rightarrow> reg \<Rightarrow> VFMath2Kind \<Rightarrow> ObjectGenerator \<Rightarrow> ObjectGenerator option" where
  "codegen_VFMath2Asm env irec uc dst src kind g = do {
     dr \<leftarrow> get_reg_asm env irec uc dst;
     sr \<leftarrow> get_reg_asm env irec uc src;
     emit_all irec [vf_math2 kind dr sr] g }"

definition codegen_Int128Math2Asm ::
  "codegen_env \<Rightarrow> IR_Record \<Rightarrow> bool \<Rightarrow> reg \<Rightarrow> reg \<Rightarrow> Int128Math2Kind \<Rightarrow> int option \<Rightarrow> ObjectGenerator \<Rightarrow> ObjectGenerator option" where
  "codegen_Int128Math2Asm env irec uc dst src kind imm g = do {
     dr \<leftarrow> get_reg_asm env irec uc dst;
     sr \<leftarrow> get_reg_asm env irec uc src;
     v \<leftarrow> imm;
     assert_opt (0 \<le> v);
     assert_opt (v \<le> 255);
     emit_all irec [int128_math2 kind dr sr (word_of_int v)] g }"

definition codegen_BlendVF ::
  "codegen_env \<Rightarrow> IR_Record \<Rightarrow> bool \<Rightarrow> reg \<Rightarrow> reg \<Rightarrow> reg \<Rightarrow> u8 \<Rightarrow> ObjectGenerator \<Rightarrow> ObjectGenerator option" where
  "codegen_BlendVF env irec uc dst src1 src2 m g = do {
     dr \<leftarrow> get_reg_asm env irec uc dst;
     s1 \<leftarrow> get_reg_asm env irec uc src1;
     s2 \<leftarrow> get_reg_asm env irec uc src2;
     emit_all irec [blend_vf dr s1 s2 m] g }"

definition codegen_SplatVF ::
  "codegen_env \<Rightarrow> IR_Record \<Rightarrow> bool \<Rightarrow> reg \<Rightarrow> reg \<Rightarrow> VF_ELEMENT \<Rightarrow> ObjectGenerator \<Rightarrow> ObjectGenerator option" where
  "codegen_SplatVF env irec uc dst src element g = do {
     dr \<leftarrow> get_reg_asm env irec uc dst;
     sr \<leftarrow> get_reg_asm env irec uc src;
     emit_all irec [splat_vf dr sr element] g }"

definition codegen_SwizzleVF ::
  "codegen_env \<Rightarrow> IR_Record \<Rightarrow> bool \<Rightarrow> reg \<Rightarrow> reg \<Rightarrow> u8 \<Rightarrow> ObjectGenerator \<Rightarrow> ObjectGenerator option" where
  "codegen_SwizzleVF env irec uc dst src control g = do {
     dr \<leftarrow> get_reg_asm env irec uc dst;
     sr \<leftarrow> get_reg_asm env irec uc src;
     emit_all irec [swizzle_vf dr sr control] g }"

definition codegen_SqrtVF ::
  "codegen_env \<Rightarrow> IR_Record \<Rightarrow> bool \<Rightarrow> reg \<Rightarrow> reg \<Rightarrow> ObjectGenerator \<Rightarrow> ObjectGenerator option" where
  "codegen_SqrtVF env irec uc dst src g = do {
     dr \<leftarrow> get_reg_asm env irec uc dst;
     sr \<leftarrow> get_reg_asm env irec uc src;
     emit_all irec [sqrt_vf dr sr] g }"

text \<open>The call through the class \<^verbatim>\<open>IR\<close>.\<close>

primrec do_codegen :: "codegen_env \<Rightarrow> IR_Record \<Rightarrow> IR \<Rightarrow> ObjectGenerator \<Rightarrow> ObjectGenerator option" where
  "do_codegen env irec (IR_Return return_reg value ret_reg) g = codegen_Return env irec return_reg value g"
| "do_codegen env irec (IR_LoadConstant64 dest value) g = codegen_LoadConstant64 env irec dest value g"
| "do_codegen env irec (IR_LoadSymbolPointer dest name) g = codegen_LoadSymbolPointer env irec dest name g"
| "do_codegen env irec (IR_SetSymbolValue dest src) g = codegen_SetSymbolValue env irec dest src g"
| "do_codegen env irec (IR_GetSymbolValue dest src sext) g = codegen_GetSymbolValue env irec dest src sext g"
| "do_codegen env irec (IR_RegSet dest src) g = regset_common env irec dest src True g"
| "do_codegen env irec (IR_FunctionCall func rt args arg_regs ret_reg) g = codegen_FunctionCall env irec func g"
| "do_codegen env irec (IR_RegValAddr dest src) g = codegen_RegValAddr env irec dest src g"
| "do_codegen env irec (IR_StaticVarAddr dest src) g = codegen_StaticVarAddr env irec dest src g"
| "do_codegen env irec (IR_StaticVarLoad dest src) g = codegen_StaticVarLoad env irec dest src g"
| "do_codegen env irec (IR_FunctionAddr dest src) g = codegen_FunctionAddr env irec dest src g"
| "do_codegen env irec (IR_IntegerMath kind dest arg shift_amount) g = codegen_IntegerMath env irec kind dest arg shift_amount g"
| "do_codegen env irec (IR_FloatMath kind dest arg) g = codegen_FloatMath env irec kind dest arg g"
| "do_codegen env irec (IR_GotoLabel dest) g = codegen_GotoLabel env irec dest g"
| "do_codegen env irec (IR_ConditionalBranch c label resolved) g = codegen_ConditionalBranch env irec c label resolved g"
| "do_codegen env irec IR_Null g = Some g"
| "do_codegen env irec (IR_ValueReset args) g = Some g"
| "do_codegen env irec (IR_FloatToInt dest src) g = codegen_FloatToInt env irec dest src g"
| "do_codegen env irec (IR_IntToFloat dest src) g = codegen_IntToFloat env irec dest src g"
| "do_codegen env irec (IR_GetStackAddr dest slot) g = codegen_GetStackAddr env irec dest slot g"
| "do_codegen env irec IR_Nop g = emit_all irec [nop] g"
| "do_codegen env irec (IR_LoadConstOffset dest offset base info uc) g = codegen_LoadConstOffset env irec dest offset base info uc g"
| "do_codegen env irec (IR_StoreConstOffset value offset base sz uc) g = codegen_StoreConstOffset env irec value offset base sz uc g"
| "do_codegen env irec (IR_AsmRet uc) g = emit_all irec [ret] g"
| "do_codegen env irec IR_AsmFNop g = emit_all irec [nop_vf] g"
| "do_codegen env irec IR_AsmFWait g = emit_all irec [wait_vf] g"
| "do_codegen env irec (IR_AsmPush uc src) g = codegen_AsmPush env irec uc src g"
| "do_codegen env irec (IR_AsmPop uc dst) g = codegen_AsmPop env irec uc dst g"
| "do_codegen env irec (IR_AsmSub uc dst src) g = codegen_AsmSub env irec uc dst src g"
| "do_codegen env irec (IR_AsmAdd uc dst src) g = codegen_AsmAdd env irec uc dst src g"
| "do_codegen env irec (IR_GetSymbolValueAsm uc dest name sext) g = codegen_GetSymbolValueAsm env irec uc dest name sext g"
| "do_codegen env irec (IR_JumpReg uc src) g = codegen_JumpReg env irec uc src g"
| "do_codegen env irec (IR_RegSetAsm uc dst src) g = regset_common env irec dst src uc g"
| "do_codegen env irec (IR_VFMath3Asm uc dst src1 src2 kind) g = codegen_VFMath3Asm env irec uc dst src1 src2 kind g"
| "do_codegen env irec (IR_Int128Math3Asm uc dst src1 src2 kind) g = codegen_Int128Math3Asm env irec uc dst src1 src2 kind g"
| "do_codegen env irec (IR_VFMath2Asm uc dst src kind) g = codegen_VFMath2Asm env irec uc dst src kind g"
| "do_codegen env irec (IR_Int128Math2Asm uc dst src kind imm) g = codegen_Int128Math2Asm env irec uc dst src kind imm g"
| "do_codegen env irec (IR_BlendVF uc dst src1 src2 m) g = codegen_BlendVF env irec uc dst src1 src2 m g"
| "do_codegen env irec (IR_SplatVF uc dst src element) g = codegen_SplatVF env irec uc dst src element g"
| "do_codegen env irec (IR_SwizzleVF uc dst src control) g = codegen_SwizzleVF env irec uc dst src control g"
| "do_codegen env irec (IR_SqrtVF uc dst src) g = codegen_SqrtVF env irec uc dst src g"

end
