(* ===== verification/Function_Env.thy ===== *)
theory Function_Env
  imports IR_Codegen Coloring "HOL-Library.Signed_Division"
begin

text \<open>
  What the compiler keeps of a function and of a file (\<^verbatim>\<open>FunctionEnv\<close> and \<^verbatim>\<open>FileEnv\<close> of
  \<^verbatim>\<open>goalc/compiler/Env.h\<close>, \<^verbatim>\<open>Env.cpp\<close>) and the register allocation of a file (\<^verbatim>\<open>Compiler::color_object_file\<close>).
  The types of values, which code generation does not read, and the environments of the tree above a
  function are left out. \<^verbatim>\<open>Label\<close> objects are numbered, and \<open>fe_label_idx\<close> has their \<^verbatim>\<open>idx\<close>.
\<close>

section \<open>Functions\<close>

record FunctionEnv =
  fe_name :: string
  fe_segment :: int
  idx_in_file :: int
  fe_is_asm_func :: bool
  asm_func_saved_regs :: bool
  fe_code :: "IR list"
  fe_iregs :: "RegVal list"
  fe_constraints :: "IRegConstraint list"
  fe_alloc_result :: AllocationResult
  aligned_stack_required :: bool
  stack_var_slots_used :: int
  fe_label_idx :: "int list"
  fe_labels :: "string \<rightharpoonup> label"
  unresolved_gotos :: "(nat \<times> string) list"
  unresolved_cond_gotos :: "(nat \<times> string) list"

definition new_FunctionEnv :: "string \<Rightarrow> FunctionEnv" where
  "new_FunctionEnv name =
    \<lparr>fe_name = name, fe_segment = - 1, idx_in_file = - 1, fe_is_asm_func = False, asm_func_saved_regs = False,
     fe_code = [], fe_iregs = [], fe_constraints = [], fe_alloc_result = new_result,
     aligned_stack_required = False, stack_var_slots_used = 0, fe_label_idx = [], fe_labels = (\<lambda>_. None),
     unresolved_gotos = [], unresolved_cond_gotos = []\<rparr>"

definition emit_ir :: "IR \<Rightarrow> FunctionEnv \<Rightarrow> FunctionEnv option" where
  "emit_ir ir f = do {
    cs \<leftarrow> add_constraints (fe_iregs f) (int (length (fe_code f))) ir (fe_constraints f);
    Some (f\<lparr>fe_constraints := cs, fe_code := fe_code f @ [ir]\<rparr>) }"

definition constrain :: "IRegConstraint \<Rightarrow> FunctionEnv \<Rightarrow> FunctionEnv" where
  "constrain c f = f\<lparr>fe_constraints := fe_constraints f @ [c]\<rparr>"

definition make_ireg :: "RegClass \<Rightarrow> FunctionEnv \<Rightarrow> (reg \<times> FunctionEnv) option" where
  "make_ireg c f = do {
    assert_opt (c \<noteq> INVALID_CLASS);
    let rv = \<lparr>rv_ireg = \<lparr>ireg_class = c, ireg_id = int (length (fe_iregs f))\<rparr>, rlet_constraint = None, forced_on_stack = False\<rparr>;
    Some (length (fe_iregs f), f\<lparr>fe_iregs := fe_iregs f @ [rv]\<rparr>) }"

definition alloc_unnamed_label :: "FunctionEnv \<Rightarrow> label \<times> FunctionEnv" where
  "alloc_unnamed_label f = (length (fe_label_idx f), f\<lparr>fe_label_idx := fe_label_idx f @ [- 1]\<rparr>)"

text \<open>The statement \<^verbatim>\<open>label->idx = fenv->code().size()\<close> of the compiler's control flow.\<close>

definition place_label :: "label \<Rightarrow> FunctionEnv \<Rightarrow> FunctionEnv" where
  "place_label l f = f\<lparr>fe_label_idx := (fe_label_idx f)[l := int (length (fe_code f))]\<rparr>"

text \<open>\<^verbatim>\<open>compile_label\<close> and \<^verbatim>\<open>compile_goto\<close>, for the label space of the function itself.\<close>

definition add_label :: "string \<Rightarrow> FunctionEnv \<Rightarrow> FunctionEnv option" where
  "add_label name f = do {
    assert_opt (fe_labels f name = None);
    let (l, f) = alloc_unnamed_label f;
    Some (place_label l (f\<lparr>fe_labels := (fe_labels f)(name \<mapsto> l)\<rparr>)) }"

definition add_goto :: "string \<Rightarrow> FunctionEnv \<Rightarrow> FunctionEnv option" where
  "add_goto name f =
    emit_ir (IR_GotoLabel None) (f\<lparr>unresolved_gotos := unresolved_gotos f @ [(length (fe_code f), name)]\<rparr>)"

definition require_aligned_stack :: "FunctionEnv \<Rightarrow> FunctionEnv" where
  "require_aligned_stack f = f\<lparr>aligned_stack_required := True\<rparr>"

text \<open>
  The number of slots is a C++ division, which rounds towards zero. The result is the first slot and
  the number of slots of the new variable.
\<close>

definition slots_for :: "int \<Rightarrow> int" where
  "slots_for bytes = (bytes + GPR_SIZE - 1) sdiv GPR_SIZE"

definition allocate_stack_variable :: "int \<Rightarrow> FunctionEnv \<Rightarrow> (int \<times> int) \<times> FunctionEnv" where
  "allocate_stack_variable size_bytes f =
    (let f = require_aligned_stack f; slots = slots_for size_bytes
     in ((stack_var_slots_used f, slots), f\<lparr>stack_var_slots_used := stack_var_slots_used f + slots\<rparr>))"

text \<open>\<^verbatim>\<open>while (x % a) x++\<close>\<close>

function next_multiple :: "int \<Rightarrow> int \<Rightarrow> int" where
  "next_multiple a x = (if a = 0 \<or> a dvd x then x else next_multiple a (x + 1))"
  by auto

lemma next_multiple_step:
  "a \<noteq> 0 \<Longrightarrow> \<not> a dvd x \<Longrightarrow> 0 < (- x) mod \<bar>a\<bar> \<and> (- (x + 1)) mod \<bar>a\<bar> < (- x) mod \<bar>a\<bar>" for a x :: int
proof -
  assume a: "a \<noteq> 0" and n: "\<not> a dvd x"
  have p: "0 < (- x) mod \<bar>a\<bar>"
    using a n pos_mod_sign [of "\<bar>a\<bar>" "- x"] by (auto simp: order_less_le mod_eq_0_iff_dvd)
  have "(- x) mod \<bar>a\<bar> < \<bar>a\<bar>" using a by simp
  then have "(- (x + 1)) mod \<bar>a\<bar> = (- x) mod \<bar>a\<bar> - 1"
    using p mod_diff_left_eq [of "- x" "\<bar>a\<bar>" 1] by (simp add: mod_pos_pos_trivial)
  then show ?thesis using p by simp
qed

termination next_multiple
  by (relation "measure (\<lambda>(a, x). nat ((- x) mod \<bar>a\<bar>))") (auto simp: next_multiple_step simp del: minus_add_distrib)

declare next_multiple.simps [simp del]

definition allocate_aligned_stack_variable :: "int \<Rightarrow> int \<Rightarrow> FunctionEnv \<Rightarrow> ((int \<times> int) \<times> FunctionEnv) option" where
  "allocate_aligned_stack_variable size_bytes align_bytes f = do {
    let f = require_aligned_stack f;
    assert_opt (align_bytes \<le> 16);
    let align_slots = slots_for align_bytes;
    assert_opt (align_slots \<noteq> 0 \<and> align_bytes \<noteq> 0);
    let start = next_multiple align_slots (stack_var_slots_used f);
    let slots = slots_for (next_multiple align_bytes size_bytes);
    Some ((start, slots), f\<lparr>stack_var_slots_used := start + slots\<rparr>) }"

section \<open>Gotos\<close>

definition resolve_goto :: "(string \<rightharpoonup> label) \<Rightarrow> nat \<times> string \<Rightarrow> IR list \<Rightarrow> IR list option" where
  "resolve_goto labels gt code_list = do {
    l \<leftarrow> labels (snd gt);
    ir \<leftarrow> array_at code_list (int (fst gt));
    (case ir of
       IR_GotoLabel None \<Rightarrow> Some (code_list[fst gt := IR_GotoLabel (Some l)])
     | _ \<Rightarrow> None) }"

definition resolve_cond_goto :: "(string \<rightharpoonup> label) \<Rightarrow> nat \<times> string \<Rightarrow> IR list \<Rightarrow> IR list option" where
  "resolve_cond_goto labels gt code_list = do {
    l \<leftarrow> labels (snd gt);
    ir \<leftarrow> array_at code_list (int (fst gt));
    (case ir of
       IR_ConditionalBranch c _ _ \<Rightarrow> Some (code_list[fst gt := IR_ConditionalBranch c l True])
     | _ \<Rightarrow> None) }"

definition resolve_gotos :: "FunctionEnv \<Rightarrow> FunctionEnv option" where
  "resolve_gotos f = do {
    c \<leftarrow> fold_opt (resolve_goto (fe_labels f)) (unresolved_gotos f) (fe_code f);
    c \<leftarrow> fold_opt (resolve_cond_goto (fe_labels f)) (unresolved_cond_gotos f) c;
    Some (f\<lparr>fe_code := c\<rparr>) }"

definition finish :: "FunctionEnv \<Rightarrow> FunctionEnv option" where
  "finish f = resolve_gotos f"

section \<open>Files\<close>

record FileEnv =
  file_name :: string
  m_functions :: "FunctionEnv list"
  m_statics :: "StaticObject list"
  anon_func_counter :: int
  top_level_func :: "nat option"

definition new_FileEnv :: "string \<Rightarrow> FileEnv" where
  "new_FileEnv name = \<lparr>file_name = name, m_functions = [], m_statics = [], anon_func_counter = 0, top_level_func = None\<rparr>"

definition add_function :: "FunctionEnv \<Rightarrow> FileEnv \<Rightarrow> FileEnv option" where
  "add_function fe env = do {
    assert_opt (idx_in_file fe = - 1);
    assert_opt (fe_name fe \<noteq> []);
    Some (env\<lparr>m_functions := m_functions env @ [fe\<lparr>idx_in_file := int (length (m_functions env))\<rparr>]\<rparr>) }"

definition add_static :: "StaticObject \<Rightarrow> FileEnv \<Rightarrow> FileEnv" where
  "add_static s env = env\<lparr>m_statics := m_statics env @ [s]\<rparr>"

definition add_top_level_function :: "FunctionEnv \<Rightarrow> FileEnv \<Rightarrow> FileEnv" where
  "add_top_level_function fe env =
    env\<lparr>m_functions := m_functions env @ [fe], top_level_func := Some (length (m_functions env))\<rparr>"

definition is_empty_file :: "FileEnv \<Rightarrow> bool" where
  "is_empty_file env \<longleftrightarrow>
    length (m_functions env) = 1 \<and> top_level_func env = Some 0 \<and> fe_code (m_functions env ! 0) = []"

section \<open>Register allocation\<close>

definition map_rai :: "FunctionEnv \<Rightarrow> RegAllocInstr list option" where
  "map_rai f = map_opt (to_rai (fe_iregs f) (fe_label_idx f)) (fe_code f)"

definition allocation_input :: "FunctionEnv \<Rightarrow> AllocationInput option" where
  "allocation_input f = do {
    is \<leftarrow> map_rai f;
    Some \<lparr>instructions = is, constraints = fe_constraints f,
          force_on_stack_regs = set (map (ireg_id \<circ> rv_ireg) (filter forced_on_stack (fe_iregs f))),
          max_vars = int (length (fe_iregs f)),
          stack_slots_for_stack_vars = stack_var_slots_used f,
          is_asm_function = fe_is_asm_func f\<rparr> }"

definition color_function :: "FunctionEnv \<Rightarrow> FunctionEnv option" where
  "color_function f = do {
    inp \<leftarrow> allocation_input f;
    r \<leftarrow> allocate_registers inp;
    Some (f\<lparr>fe_alloc_result := r\<rparr>) }"

definition color_object_file :: "FileEnv \<Rightarrow> FileEnv option" where
  "color_object_file env = do {
    fs \<leftarrow> map_opt color_function (m_functions env);
    Some (env\<lparr>m_functions := fs\<rparr>) }"

end
