(* ===== verification/Goal_Codegen.thy ===== *)
theory Goal_Codegen
  imports Function_Env
begin

text \<open>
  From a coloured file to an object file (\<^verbatim>\<open>goalc/compiler/CodeGenerator.cpp\<close>). The text of an
  instruction for the debug information (\<^verbatim>\<open>IR::print\<close>) is a parameter.
\<close>

definition env_of :: "FileEnv \<Rightarrow> FunctionEnv \<Rightarrow> codegen_env" where
  "env_of fe f =
    \<lparr>ce_regs = fe_iregs f, ce_labels = fe_label_idx f, ce_allocs = fe_alloc_result f,
     ce_statics = m_statics fe, ce_func_idx = map idx_in_file (m_functions fe)\<rparr>"

section \<open>Prologue and epilogue\<close>

text \<open>The instructions are computed first and then added one after the other.\<close>

definition saved_xmms_of :: "AllocationResult \<Rightarrow> Register list" where
  "saved_xmms_of allocs = filter is_xmm (used_saved_regs allocs)"

definition saved_gprs_of :: "AllocationResult \<Rightarrow> Register list" where
  "saved_gprs_of allocs = filter is_gpr (used_saved_regs allocs)"

definition n_xmm_backups :: "AllocationResult \<Rightarrow> int" where
  "n_xmm_backups allocs = int (length (saved_xmms_of allocs))"

definition xmm_backup_stack_offset :: "AllocationResult \<Rightarrow> int" where
  "xmm_backup_stack_offset allocs = 8 + XMM_SIZE * n_xmm_backups allocs"

definition xmm_backup_code :: "AllocationResult \<Rightarrow> Instruction option list" where
  "xmm_backup_code allocs =
    (if 0 < n_xmm_backups allocs then
       sub_gpr64_imm (Reg RSP) (xmm_backup_stack_offset allocs) #
       map (\<lambda>(i, r). store128_xmm128_reg_offset (Reg RSP) r (int i * XMM_SIZE)) (enumerate 0 (saved_xmms_of allocs))
     else [])"

definition gpr_backup_code :: "AllocationResult \<Rightarrow> Instruction option list" where
  "gpr_backup_code allocs = map push_gpr64 (saved_gprs_of allocs)"

definition manual_offset :: "AllocationResult \<Rightarrow> int" where
  "manual_offset allocs = GPR_SIZE * (stack_slots_for_spills allocs + stack_slots_for_vars allocs)"

text \<open>The value of \<^verbatim>\<open>stack_offset\<close> before the alignment is looked at.\<close>

definition stack_offset_of :: "AllocationResult \<Rightarrow> int" where
  "stack_offset_of allocs =
    (if 0 < n_xmm_backups allocs then xmm_backup_stack_offset allocs else 0) +
    GPR_SIZE * int (length (saved_gprs_of allocs)) + manual_offset allocs"

record frame =
  fr_manual :: int
  fr_bonus_push :: bool
  fr_stack_offset :: int
  fr_align_code :: "Instruction option list"

definition needs_frame :: "AllocationResult \<Rightarrow> bool \<Rightarrow> bool" where
  "needs_frame allocs aligned \<longleftrightarrow> manual_offset allocs \<noteq> 0 \<or> needs_aligned_stack_for_spills allocs \<or> aligned"

definition make_frame :: "AllocationResult \<Rightarrow> bool \<Rightarrow> frame option" where
  "make_frame allocs aligned =
    (let m = manual_offset allocs; off = stack_offset_of allocs in
     if needs_frame allocs aligned then do {
       let adjust = (off mod 16 = 0);
       let bonus = (adjust \<and> m = 0);
       let m = (if adjust \<and> m \<noteq> 0 then m + 8 else m);
       let off = (if adjust then off + 8 else off);
       push \<leftarrow> (if bonus then do { r \<leftarrow> get_saved_gpr gRegInfo 0; Some [push_gpr64 r] } else Some []);
       assert_opt (off mod 16 \<noteq> 0);
       Some \<lparr>fr_manual = m, fr_bonus_push = bonus, fr_stack_offset = off,
             fr_align_code = push @ (if m \<noteq> 0 then [sub_gpr64_imm (Reg RSP) m] else [])\<rparr> }
     else Some \<lparr>fr_manual = m, fr_bonus_push = False, fr_stack_offset = off, fr_align_code = []\<rparr>)"

definition prologue_code :: "AllocationResult \<Rightarrow> frame \<Rightarrow> Instruction option list" where
  "prologue_code allocs fr = xmm_backup_code allocs @ gpr_backup_code allocs @ fr_align_code fr"

definition align_restore_code :: "AllocationResult \<Rightarrow> bool \<Rightarrow> frame \<Rightarrow> Instruction option list option" where
  "align_restore_code allocs aligned fr =
    (if needs_frame allocs aligned then do {
       let add = (if fr_manual fr \<noteq> 0 then [add_gpr64_imm (Reg RSP) (fr_manual fr)] else []);
       pop \<leftarrow> (if fr_bonus_push fr then do {
                assert_opt (fr_manual fr = 0);
                r \<leftarrow> get_saved_gpr gRegInfo 0;
                Some [pop_gpr64 r] }
              else Some []);
       Some (add @ pop) }
     else Some [])"

definition gpr_restore_code :: "AllocationResult \<Rightarrow> Instruction option list" where
  "gpr_restore_code allocs = map pop_gpr64 (rev (saved_gprs_of allocs))"

definition xmm_restore_code :: "AllocationResult \<Rightarrow> Instruction option list" where
  "xmm_restore_code allocs =
    (if 0 < n_xmm_backups allocs then
       map (\<lambda>(j, r). load128_xmm128_reg_offset r (Reg RSP) (int j * XMM_SIZE)) (rev (enumerate 0 (saved_xmms_of allocs)))
       @ [add_gpr64_imm (Reg RSP) (xmm_backup_stack_offset allocs)]
     else [])"

definition epilogue_code :: "AllocationResult \<Rightarrow> bool \<Rightarrow> frame \<Rightarrow> Instruction option list option" where
  "epilogue_code allocs aligned fr = do {
    a \<leftarrow> align_restore_code allocs aligned fr;
    Some (a @ gpr_restore_code allocs @ xmm_restore_code allocs @ [ret]) }"

section \<open>Spills\<close>

definition spill_load :: "AllocationResult \<Rightarrow> StackOp \<Rightarrow> Instruction option" where
  "spill_load allocs op = do {
    slot \<leftarrow> get_slot_for_spill allocs (op_slot op);
    if is_gpr (op_reg op) \<and> op_reg_class op = GPR_64 then
      load64_gpr64_plus_s32 (op_reg op) (word_of_int (slot * GPR_SIZE)) (Reg RSP)
    else if is_xmm (op_reg op) \<and> op_reg_class op = FLOAT then
      load_reg_offset_xmm32 (op_reg op) (Reg RSP) (slot * GPR_SIZE)
    else if is_xmm (op_reg op) \<and> is_xmm128_class (op_reg_class op) then
      load128_xmm128_reg_offset (op_reg op) (Reg RSP) (slot * GPR_SIZE)
    else None }"

definition spill_store :: "AllocationResult \<Rightarrow> StackOp \<Rightarrow> Instruction option" where
  "spill_store allocs op = do {
    slot \<leftarrow> get_slot_for_spill allocs (op_slot op);
    if is_gpr (op_reg op) \<and> op_reg_class op = GPR_64 then
      store64_gpr64_plus_s32 (Reg RSP) (word_of_int (slot * GPR_SIZE)) (op_reg op)
    else if is_xmm (op_reg op) \<and> op_reg_class op = FLOAT then
      store_reg_offset_xmm32 (Reg RSP) (op_reg op) (slot * GPR_SIZE)
    else if is_xmm (op_reg op) \<and> is_xmm128_class (op_reg_class op) then
      store128_xmm128_reg_offset (Reg RSP) (op_reg op) (slot * GPR_SIZE)
    else None }"

section \<open>Functions\<close>

definition emit_no_ir :: "FunctionRecord \<Rightarrow> InstrKind \<Rightarrow> Instruction option list \<Rightarrow> ObjectGenerator \<Rightarrow> ObjectGenerator option" where
  "emit_no_ir f_rec kind is g = fold_opt (\<lambda>i g. do { i \<leftarrow> i; add_instr_no_ir f_rec i kind g }) is g"

definition set_stack_usage :: "FunctionRecord \<Rightarrow> int \<Rightarrow> ObjectGenerator \<Rightarrow> ObjectGenerator option" where
  "set_stack_usage f_rec n g = do {
    f \<leftarrow> get_function g (fn_seg f_rec) (fn_func_id f_rec);
    Some (set_function g (fn_seg f_rec) (fn_func_id f_rec) (f\<lparr>fd_debug := (fd_debug f)\<lparr>dbg_stack_usage := Some n\<rparr>\<rparr>)) }"

text \<open>One instruction of the intermediate representation with the loads before it and the stores after it.\<close>

definition do_ir ::
  "(IR \<Rightarrow> string) \<Rightarrow> codegen_env \<Rightarrow> FunctionRecord \<Rightarrow> nat \<times> IR \<Rightarrow> ObjectGenerator \<Rightarrow> ObjectGenerator option" where
  "do_ir print_ir env f_rec k g = do {
    (i_rec, g) \<leftarrow> add_ir f_rec (print_ir (snd k)) g;
    ops \<leftarrow> array_at (res_stack_ops (ce_allocs env)) (int (fst k));
    g \<leftarrow> emit_all i_rec (map (spill_load (ce_allocs env)) (filter op_load ops)) g;
    g \<leftarrow> do_codegen env i_rec (snd k) g;
    emit_all i_rec (map (spill_store (ce_allocs env)) (filter op_store ops)) g }"

definition do_goal_function :: "(IR \<Rightarrow> string) \<Rightarrow> FileEnv \<Rightarrow> FunctionEnv \<Rightarrow> int \<Rightarrow> ObjectGenerator \<Rightarrow> ObjectGenerator option" where
  "do_goal_function print_ir fe env f_idx g = do {
    f_rec \<leftarrow> get_existing_function_record g f_idx;
    let allocs = fe_alloc_result env;
    let aligned = aligned_stack_required env;
    fr \<leftarrow> make_frame allocs aligned;
    g \<leftarrow> emit_no_ir f_rec PROLOGUE (prologue_code allocs fr) g;
    g \<leftarrow> set_stack_usage f_rec (fr_stack_offset fr) g;
    g \<leftarrow> fold_opt (do_ir print_ir (env_of fe env) f_rec) (enumerate 0 (fe_code env)) g;
    ep \<leftarrow> epilogue_code allocs aligned fr;
    emit_no_ir f_rec EPILOGUE ep g }"

text \<open>One instruction of an assembly function, which may not use the stack.\<close>

definition do_asm_ir ::
  "(IR \<Rightarrow> string) \<Rightarrow> codegen_env \<Rightarrow> FunctionRecord \<Rightarrow> nat \<times> IR \<Rightarrow> ObjectGenerator \<Rightarrow> ObjectGenerator option" where
  "do_asm_ir print_ir env f_rec k g = do {
    (i_rec, g) \<leftarrow> add_ir f_rec (print_ir (snd k)) g;
    ops \<leftarrow> array_at (res_stack_ops (ce_allocs env)) (int (fst k));
    assert_opt (ops = []);
    do_codegen env i_rec (snd k) g }"

definition do_asm_function ::
  "(IR \<Rightarrow> string) \<Rightarrow> FileEnv \<Rightarrow> FunctionEnv \<Rightarrow> int \<Rightarrow> bool \<Rightarrow> ObjectGenerator \<Rightarrow> ObjectGenerator option" where
  "do_asm_function print_ir fe env f_idx allow_saved_regs g = do {
    f_rec \<leftarrow> get_existing_function_record g f_idx;
    let allocs = fe_alloc_result env;
    assert_opt (allow_saved_regs \<or> used_saved_regs allocs = []);
    assert_opt (stack_slots_for_spills allocs = 0);
    assert_opt (stack_slots_for_vars allocs = 0);
    fold_opt (do_asm_ir print_ir (env_of fe env) f_rec) (enumerate 0 (fe_code env)) g }"

definition do_function :: "(IR \<Rightarrow> string) \<Rightarrow> FileEnv \<Rightarrow> FunctionEnv \<Rightarrow> int \<Rightarrow> ObjectGenerator \<Rightarrow> ObjectGenerator option" where
  "do_function print_ir fe env f_idx g =
    (if fe_is_asm_func env then do_asm_function print_ir fe env f_idx (asm_func_saved_regs env) g
     else do_goal_function print_ir fe env f_idx g)"

section \<open>Files\<close>

definition new_FunctionDebugInfo :: "string \<Rightarrow> FunctionDebugInfo" where
  "new_FunctionDebugInfo name =
    \<lparr>dbg_offset_in_seg = 0, dbg_length = 0, dbg_seg = 0, dbg_name = name, dbg_irs = [], dbg_instructions = [],
     dbg_generated_code = [], dbg_stack_usage = None\<rparr>"

text \<open>
  The names are those seen in this file and those of the \<^verbatim>\<open>DebugInfo\<close>. An address of a function uses
  its number in the file, which must be its number in the object.
\<close>

definition declare_function ::
  "FunctionEnv \<Rightarrow> string set \<times> string set \<times> ObjectGenerator \<Rightarrow> (string set \<times> string set \<times> ObjectGenerator) option" where
  "declare_function f s = do {
    let (names, debug_names, g) = s;
    assert_opt (fe_name f \<notin> names);
    assert_opt (fe_name f \<notin> debug_names);
    (_, g) \<leftarrow> add_function_to_seg (fe_segment f) (new_FunctionDebugInfo (fe_name f)) 16 g;
    Some (insert (fe_name f) names, insert (fe_name f) debug_names, g) }"

definition generate_static :: "nat \<Rightarrow> FileEnv \<times> ObjectGenerator \<Rightarrow> (FileEnv \<times> ObjectGenerator) option" where
  "generate_static k s = do {
    let (fe, g) = s;
    (x, g) \<leftarrow> generate (m_statics fe) (map idx_in_file (m_functions fe)) (m_statics fe ! k) g;
    Some (fe\<lparr>m_statics := (m_statics fe)[k := x]\<rparr>, g) }"

definition run ::
  "(IR \<Rightarrow> string) \<Rightarrow> (string \<Rightarrow> int option) \<Rightarrow> string set \<Rightarrow> FileEnv \<Rightarrow> (u8 list \<times> ObjectGenerator) option" where
  "run print_ir method_count debug_names fe = do {
    (_, _, g) \<leftarrow> fold_opt declare_function (m_functions fe) ({}, debug_names, new_ObjectGenerator);
    (fe, g) \<leftarrow> fold_opt generate_static [0 ..< length (m_statics fe)] (fe, g);
    g \<leftarrow> fold_opt (\<lambda>(i, f). do_function print_ir fe f (int i)) (enumerate 0 (m_functions fe)) g;
    (d, g) \<leftarrow> generate_data_v3 method_count g;
    Some (to_vector d, g) }"

text \<open>The debug information is cleared first.\<close>

definition codegen_object_file ::
  "(IR \<Rightarrow> string) \<Rightarrow> (string \<Rightarrow> int option) \<Rightarrow> FileEnv \<Rightarrow> (u8 list \<times> ObjectGenerator) option" where
  "codegen_object_file print_ir method_count fe = run print_ir method_count {} fe"

end
