(* ===== verification/Frame_Runs.thy ===== *)
theory Frame_Runs
  imports X86_Exec Goal_Codegen
begin

text \<open>
  What the parts of a prologue and of an epilogue do to the machine: saving registers below an address and
  loading them back. Addresses are a reference address \<open>a\<close> plus a distance.
\<close>

section \<open>Registers and alignment\<close>

lemma RSP_gpr [simp]: "Reg RSP = gpr 4"
  by (rule sym) simp

lemma aligned16_uint: "aligned16 a \<longleftrightarrow> uint a mod 16 = 0"
proof -
  have "int (unat a mod 16) = uint a mod 16" by (simp add: zmod_int)
  then show ?thesis unfolding aligned16_def by linarith
qed

lemma uint_add_mod: "uint (w + word_of_int z :: u64) mod 16 = (uint w + z) mod 16"
proof -
  have "uint (w + word_of_int z :: u64) = (uint w + z) mod 2 ^ 64"
    by (simp add: uint_word_ariths unsigned_of_int take_bit_eq_mod mod_simps)
  then show ?thesis by (simp add: mod_mod_cancel)
qed

lemma aligned16_add: "aligned16 w \<Longrightarrow> z mod 16 = 0 \<Longrightarrow> aligned16 (w + word_of_int z)"
  by (simp add: aligned16_uint uint_add_mod mod_add_eq [symmetric])

lemma enc_sub_imm: "d < 16 \<Longrightarrow> fits_s32 v \<Longrightarrow> encodes (sub_gpr64_imm (gpr d) v) (Insn SUB [Gpr 64 d, ImmI v])"
  by (simp add: sub_gpr64_imm_def enc_sub_gpr64_imm8s enc_sub_gpr64_imm32s)

lemma enc_add_imm: "d < 16 \<Longrightarrow> fits_s32 v \<Longrightarrow> encodes (add_gpr64_imm (gpr d) v) (Insn ADD [Gpr 64 d, ImmI v])"
  by (simp add: add_gpr64_imm_def enc_add_gpr64_imm8s enc_add_gpr64_imm32s)

lemma enc_store128_offset:
  "a < 16 \<Longrightarrow> v < 16 \<Longrightarrow> fits_s32 off \<Longrightarrow>
   encodes (store128_xmm128_reg_offset (gpr a) (xmm v) off) (Insn MOVDQA [Mem 128 (Some a) None off, Xmm v])"
  by (simp add: store128_xmm128_reg_offset_def enc_store128_gpr64_xmm128 enc_store128_gpr64_xmm128_s8 enc_store128_gpr64_xmm128_s32)

lemma enc_load128_offset:
  "a < 16 \<Longrightarrow> v < 16 \<Longrightarrow> fits_s32 off \<Longrightarrow>
   encodes (load128_xmm128_reg_offset (xmm v) (gpr a) off) (Insn MOVDQA [Xmm v, Mem 128 (Some a) None off])"
  by (simp add: load128_xmm128_reg_offset_def enc_load128_xmm128_gpr64 enc_load128_xmm128_gpr64_s8 enc_load128_xmm128_gpr64_s32)

definition savable :: "nat list \<Rightarrow> bool" where
  "savable ns \<longleftrightarrow> (\<forall>n \<in> set ns. n < 16 \<and> n \<noteq> 4)"

section \<open>Pushes and pops\<close>

lemma pushes:
  assumes "savable ns" "rsp s = spot a x" "- (2 ^ 39) < x - 8 * int (length ns)" "x < 2 ^ 39"
  shows "\<exists>t. runs (map (\<lambda>n. push_gpr64 (gpr n)) ns) s t
     \<and> gprs t = (gprs s)(4 := spot a (x - 8 * int (length ns))) \<and> xmms t = xmms s \<and> rip t = rip s
     \<and> same_above a x (ram s) (ram t)
     \<and> (\<forall>i < length ns. load64 (spot a (x - 8 * (int i + 1))) (ram t) = gprs s (ns ! i))"
  using assms
proof (induction ns arbitrary: s x)
  case Nil
  then show ?case by auto
next
  case (Cons n ns)
  define u where "u = s\<lparr>gprs := (gprs s)(4 := rsp s - 8), ram := put_ram (rsp s - 8) (le_bytes 8 (gprs s n)) (ram s)\<rparr>"
  have n: "n < 16" "n \<noteq> 4" "savable ns" using Cons.prems(1) by (auto simp: savable_def)
  have r: "rsp s - 8 = spot a (x - 8)" by (simp add: Cons.prems(2) spot_numeral)
  have e: "exec (Insn PUSH [Gpr 64 n]) s = Some u" by (simp add: u_def)
  have p: "rsp u = spot a (x - 8)" "- (2 ^ 39) < x - 8 - 8 * int (length ns)" "x - 8 < 2 ^ 39"
    using Cons.prems(3,4) by (simp_all add: u_def r)
  obtain t where t: "runs (map (\<lambda>n. push_gpr64 (gpr n)) ns) u t"
    "gprs t = (gprs u)(4 := spot a (x - 8 - 8 * int (length ns)))" "xmms t = xmms u" "rip t = rip u"
    "same_above a (x - 8) (ram u) (ram t)"
    "\<forall>i < length ns. load64 (spot a (x - 8 - 8 * (int i + 1))) (ram t) = gprs u (ns ! i)"
    using Cons.IH [OF n(3) p] by blast
  have near: "near (x - 8)" using Cons.prems(3,4) by (simp add: near_def)
  have u_ram: "ram u = put_ram (spot a (x - 8)) (le_bytes 8 (gprs s n)) (ram s)" by (simp add: u_def r)
  have "same_above a x (ram s) (ram u)" unfolding u_ram by (rule same_above_put) (simp_all add: near)
  with t(5) have above: "same_above a x (ram s) (ram t)"
    using same_above_trans [of a x "ram s" "ram u" "x - 8"] by (simp add: max_def)
  have top: "load64 (spot a (x - 8)) (ram t) = gprs s n"
  proof -
    have "get_ram 8 (spot a (x - 8)) (ram t) = get_ram 8 (spot a (x - 8)) (ram u)"
      using t(5) by (rule get_ram_above) (use Cons.prems(3,4) in \<open>auto simp: near_def\<close>)
    also have "\<dots> = le_bytes 8 (gprs s n)" unfolding u_ram by (rule get_ram_put_ram) simp_all
    finally show ?thesis by (simp add: load64_def)
  qed
  have rest: "load64 (spot a (x - 8 * (int i + 1))) (ram t) = gprs s ((n # ns) ! i)" if "i < length (n # ns)" for i
  proof (cases i)
    case 0
    then show ?thesis using top by simp
  next
    case (Suc j)
    then have "ns ! j \<noteq> 4" "j < length ns" using that n(3) by (auto simp: savable_def)
    then show ?thesis using t(6) Suc by (auto simp: u_def algebra_simps)
  qed
  show ?case
    using runs_Cons [OF enc_push_gpr64 [OF n(1)] e t(1)] t(2-4) above rest
    by (intro exI [of _ t]) (auto simp: u_def algebra_simps)
qed

lemma pops:
  assumes "savable ns" "distinct ns" "rsp s = spot a x"
    "\<And>i. i < length ns \<Longrightarrow> load64 (spot a (x + 8 * int i)) (ram s) = v (ns ! i)"
  shows "\<exists>t. runs (map (\<lambda>n. pop_gpr64 (gpr n)) ns) s t
     \<and> gprs t = (\<lambda>n. if n = 4 then spot a (x + 8 * int (length ns)) else if n \<in> set ns then v n else gprs s n)
     \<and> xmms t = xmms s \<and> ram t = ram s \<and> rip t = rip s"
  using assms
proof (induction ns arbitrary: s x)
  case Nil
  then show ?case by (intro exI [of _ s]) auto
next
  case (Cons n ns)
  define u where "u = s\<lparr>gprs := (gprs s)(4 := rsp s + 8, n := load64 (rsp s) (ram s))\<rparr>"
  have n: "n < 16" "n \<noteq> 4" "savable ns" using Cons.prems(1) by (auto simp: savable_def)
  have r: "rsp s + 8 = spot a (x + 8)" by (simp add: Cons.prems(3) spot_numeral)
  have v: "load64 (rsp s) (ram s) = v n" using Cons.prems(4) [of 0] by (simp add: Cons.prems(3))
  have e: "exec (Insn POP [Gpr 64 n]) s = Some u" by (simp add: u_def)
  have "load64 (spot a (x + 8 + 8 * int i)) (ram u) = v (ns ! i)" if "i < length ns" for i
    using Cons.prems(4) [of "Suc i"] that by (simp add: u_def algebra_simps)
  moreover have "rsp u = spot a (x + 8)" "distinct ns" using n(2) Cons.prems(2) by (simp_all add: u_def r)
  ultimately obtain t where t: "runs (map (\<lambda>n. pop_gpr64 (gpr n)) ns) u t"
    "gprs t = (\<lambda>n. if n = 4 then spot a (x + 8 + 8 * int (length ns)) else if n \<in> set ns then v n else gprs u n)"
    "xmms t = xmms u" "ram t = ram u" "rip t = rip u"
    using Cons.IH [OF n(3), of u "x + 8"] by blast
  have "gprs t = (\<lambda>m. if m = 4 then spot a (x + 8 * int (length (n # ns))) else if m \<in> set (n # ns) then v m else gprs s m)"
    using t(2) Cons.prems(2) n(2) by (auto simp: u_def v fun_eq_iff algebra_simps)
  then show ?case using runs_Cons [OF enc_pop_gpr64 [OF n(1)] e t(1)] t(3-5) by (intro exI [of _ t]) (auto simp: u_def)
qed

section \<open>The 128-bit registers\<close>

lemma rsp_operand: "mem_addr g (Mem 128 (Some 4) None d) = g 4 + word_of_int d"
  by simp

lemma xmm_stores:
  assumes "\<forall>n \<in> set ns. n < 16" "rsp s = spot a x" "aligned16 (rsp s)"
    "- (2 ^ 39) < x" "x + 16 * int (k + length ns) < 2 ^ 30"  "x \<le> 0" "16 * int (k + length ns) < 2 ^ 31"
  shows "\<exists>t. runs (map (\<lambda>(i, r). store128_xmm128_reg_offset (Reg RSP) r (int i * XMM_SIZE)) (enumerate k (map xmm ns))) s t
     \<and> gprs t = gprs s \<and> xmms t = xmms s \<and> rip t = rip s
     \<and> (\<forall>y. near y \<longrightarrow> y < x + 16 * int k \<or> x + 16 * int (k + length ns) \<le> y \<longrightarrow> ram t (spot a y) = ram s (spot a y))
     \<and> (\<forall>i < length ns. load128 (spot a (x + 16 * int (k + i))) (ram t) = xmms s (ns ! i))"
  using assms
proof (induction ns arbitrary: s k)
  case Nil
  then show ?case by auto
next
  case (Cons n ns)
  let ?p = "x + 16 * int k"
  define u where "u = s\<lparr>ram := put_ram (spot a ?p) (le_bytes 16 (xmms s n)) (ram s)\<rparr>"
  have addr: "rsp s + word_of_int (int k * 16) = spot a ?p"
    by (simp only: Cons.prems(2) spot_add mult.commute)
  have "aligned16 (rsp s + word_of_int (int k * 16))" using Cons.prems(3) by (rule aligned16_add) simp
  then have e: "exec (Insn MOVDQA [Mem 128 (Some 4) None (int k * 16), Xmm n]) s = Some u"
    by (simp add: u_def addr Let_def del: of_int_mult of_int_add)
  have enc: "encodes (store128_xmm128_reg_offset (gpr 4) (xmm n) (int k * 16)) (Insn MOVDQA [Mem 128 (Some 4) None (int k * 16), Xmm n])"
    using Cons.prems(1,7) by (intro enc_store128_offset) (auto simp: fits_s32_def)
  have p: "\<forall>n \<in> set ns. n < 16" "rsp u = spot a x" "aligned16 (rsp u)" "- (2 ^ 39) < x"
    "x + 16 * int (Suc k + length ns) < 2 ^ 30" "x \<le> 0" "16 * int (Suc k + length ns) < 2 ^ 31"
    using Cons.prems by (simp_all add: u_def)
  have u_ram: "ram u = put_ram (spot a ?p) (le_bytes 16 (xmms s n)) (ram s)" by (simp add: u_def)
  obtain t where t: "runs (map (\<lambda>(i, r). store128_xmm128_reg_offset (Reg RSP) r (int i * XMM_SIZE)) (enumerate (Suc k) (map xmm ns))) u t"
    "gprs t = gprs u" "xmms t = xmms u" "rip t = rip u"
    "\<And>y. near y \<Longrightarrow> y < x + 16 * int (Suc k) \<or> x + 16 * int (Suc k + length ns) \<le> y \<Longrightarrow> ram t (spot a y) = ram u (spot a y)"
    "\<And>i. i < length ns \<Longrightarrow> load128 (spot a (x + 16 * int (Suc k + i))) (ram t) = xmms u (ns ! i)"
    using Cons.IH [OF p] Cons.prems by blast
  have near: "near ?p" using Cons.prems(4-6) by (simp add: near_def)
  have keep: "ram t (spot a y) = ram s (spot a y)"
    if "near y" "y < ?p \<or> x + 16 * int (k + length (n # ns)) \<le> y" for y
  proof -
    have "ram t (spot a y) = ram u (spot a y)" using that by (intro t(5)) auto
    also have "\<dots> = ram s (spot a y)"
      unfolding u_ram by (rule put_ram_other) (use that near in auto)
    finally show ?thesis .
  qed
  have first: "load128 (spot a ?p) (ram t) = xmms s n"
  proof -
    have "get_ram 16 (spot a ?p) (ram t) = get_ram 16 (spot a ?p) (ram u)"
      by (intro get_ram_cong t(5)) (use Cons.prems(4-6) in \<open>auto simp: near_def\<close>)
    also have "\<dots> = le_bytes 16 (xmms s n)" unfolding u_ram by (rule get_ram_put_ram) simp_all
    finally show ?thesis by (simp add: load128_def le_word_le_bytes)
  qed
  have all: "load128 (spot a (x + 16 * int (k + i))) (ram t) = xmms s ((n # ns) ! i)" if "i < length (n # ns)" for i
    using first t(6) [of "i - 1"] that by (cases i) (auto simp: u_def)
  show ?case
    using runs_Cons [OF enc e t(1)] t(2-4) keep all
    by (intro exI [of _ t]) (auto simp: u_def XMM_SIZE_def mult.commute)
qed

lemma xmm_loads:
  assumes "\<forall>(j, n) \<in> set ps. n < 16 \<and> 16 * int j < 2 ^ 31" "distinct (map snd ps)" "rsp s = spot a x" "aligned16 (rsp s)"
    "\<And>j n. (j, n) \<in> set ps \<Longrightarrow> load128 (spot a (x + 16 * int j)) (ram s) = v n"
  shows "\<exists>t. runs (map (\<lambda>(j, n). load128_xmm128_reg_offset (xmm n) (Reg RSP) (int j * XMM_SIZE)) ps) s t
     \<and> gprs t = gprs s \<and> ram t = ram s \<and> rip t = rip s
     \<and> xmms t = (\<lambda>n. if n \<in> snd ` set ps then v n else xmms s n)"
  using assms
proof (induction ps arbitrary: s)
  case Nil
  then show ?case by (intro exI [of _ s]) auto
next
  case (Cons p ps)
  obtain j n where pjn: "p = (j, n)" by (cases p)
  define u where "u = s\<lparr>xmms := (xmms s)(n := v n)\<rparr>"
  have n: "n < 16" "16 * int j < 2 ^ 31" using Cons.prems(1) by (auto simp: pjn)
  have addr: "rsp s + word_of_int (int j * 16) = spot a (x + 16 * int j)"
    by (simp only: Cons.prems(3) spot_add mult.commute)
  have "load128 (rsp s + word_of_int (int j * 16)) (ram s) = v n" unfolding addr by (rule Cons.prems(5)) (simp add: pjn)
  moreover have "aligned16 (rsp s + word_of_int (int j * 16))" using Cons.prems(4) by (rule aligned16_add) simp
  ultimately have e: "exec (Insn MOVDQA [Xmm n, Mem 128 (Some 4) None (int j * 16)]) s = Some u"
    by (simp add: u_def Let_def del: of_int_mult)
  have enc: "encodes (load128_xmm128_reg_offset (xmm n) (gpr 4) (int j * 16)) (Insn MOVDQA [Xmm n, Mem 128 (Some 4) None (int j * 16)])"
    using n by (intro enc_load128_offset) (auto simp: fits_s32_def)
  have p: "\<forall>(j, n) \<in> set ps. n < 16 \<and> 16 * int j < 2 ^ 31" "distinct (map snd ps)" "rsp u = spot a x" "aligned16 (rsp u)"
    "\<And>j n. (j, n) \<in> set ps \<Longrightarrow> load128 (spot a (x + 16 * int j)) (ram u) = v n"
    using Cons.prems by (simp_all add: u_def)
  obtain t where t: "runs (map (\<lambda>(j, n). load128_xmm128_reg_offset (xmm n) (Reg RSP) (int j * XMM_SIZE)) ps) u t"
    "gprs t = gprs u" "ram t = ram u" "rip t = rip u" "xmms t = (\<lambda>n. if n \<in> snd ` set ps then v n else xmms u n)"
    using Cons.IH [OF p] by blast
  have "runs (map (\<lambda>(j, n). load128_xmm128_reg_offset (xmm n) (Reg RSP) (int j * XMM_SIZE)) (p # ps)) s t"
    using runs_Cons [OF enc e t(1)] by (simp add: pjn XMM_SIZE_def)
  then show ?case using t(2-5) by (intro exI [of _ t]) (auto simp: u_def pjn)
qed

end
