(* ===== verification/Frame_Correct.thy ===== *)
theory Frame_Correct
  imports Frame_Runs
begin

text \<open>
  A prologue followed by any code that keeps the stack pointer and the frame, followed by the epilogue,
  gives every saved register its value back and returns to the caller.
\<close>

section \<open>Saving and restoring\<close>

definition xmm_area :: "nat list \<Rightarrow> int" where
  "xmm_area xs = (if xs = [] then 0 else 8 + 16 * int (length xs))"

definition save_area :: "nat list \<Rightarrow> nat list \<Rightarrow> int" where
  "save_area gs xs = xmm_area xs + 8 * int (length gs)"

text \<open>The registers of a machine are in memory below the address \<open>a\<close>.\<close>

definition saved_in :: "u64 \<Rightarrow> nat list \<Rightarrow> nat list \<Rightarrow> machine \<Rightarrow> (u64 \<Rightarrow> u8) \<Rightarrow> bool" where
  "saved_in a gs xs s m \<longleftrightarrow>
    (\<forall>i < length xs. load128 (spot a (- xmm_area xs + 16 * int i)) m = xmms s (xs ! i)) \<and>
    (\<forall>i < length gs. load64 (spot a (- xmm_area xs - 8 * (int i + 1))) m = gprs s (gs ! i))"

text \<open>The numbers of the saved registers of a result.\<close>

definition saves :: "AllocationResult \<Rightarrow> nat list \<Rightarrow> nat list \<Rightarrow> bool" where
  "saves allocs gs xs \<longleftrightarrow>
    saved_gprs_of allocs = map gpr gs \<and> saved_xmms_of allocs = map xmm xs \<and> savable gs \<and>
    (\<forall>n \<in> set xs. n < 16) \<and> distinct gs \<and> distinct xs \<and> length gs \<le> 16 \<and> length xs \<le> 16"

lemma saves_sizes:
  assumes "saves allocs gs xs"
  shows "n_xmm_backups allocs = int (length xs)" "0 < n_xmm_backups allocs \<longleftrightarrow> xs \<noteq> []"
    "xs \<noteq> [] \<Longrightarrow> xmm_backup_stack_offset allocs = xmm_area xs"
    "stack_offset_of allocs = save_area gs xs + manual_offset allocs"
    "0 \<le> xmm_area xs" "xmm_area xs \<le> 264" "save_area gs xs \<le> 392" "save_area gs xs mod 8 = 0"
  using assms
  by (auto simp: saves_def n_xmm_backups_def xmm_backup_stack_offset_def xmm_area_def stack_offset_of_def
      save_area_def XMM_SIZE_def GPR_SIZE_def)

definition same_in :: "u64 \<Rightarrow> int \<Rightarrow> int \<Rightarrow> (u64 \<Rightarrow> u8) \<Rightarrow> (u64 \<Rightarrow> u8) \<Rightarrow> bool" where
  "same_in a x y m m' \<longleftrightarrow> (\<forall>k. x \<le> k \<longrightarrow> k < y \<longrightarrow> m' (spot a k) = m (spot a k))"

lemma get_ram_same_in: "same_in a x y m m' \<Longrightarrow> x \<le> z \<Longrightarrow> z + int n \<le> y \<Longrightarrow> get_ram n (spot a z) m' = get_ram n (spot a z) m"
  by (rule get_ram_cong) (auto simp: same_in_def)

lemma same_above_in: "same_above a d m m' \<Longrightarrow> d \<le> x \<Longrightarrow> - (2 ^ 40) < x \<Longrightarrow> y \<le> 2 ^ 40 \<Longrightarrow> same_in a x y m m'"
  by (auto simp: same_above_def same_in_def near_def)

lemma same_in_mono: "same_in a x y m m' \<Longrightarrow> x \<le> x' \<Longrightarrow> y' \<le> y \<Longrightarrow> same_in a x' y' m m'"
  by (auto simp: same_in_def)

lemma same_in_trans: "same_in a x y m m' \<Longrightarrow> same_in a x y m' m'' \<Longrightarrow> same_in a x y m m''"
  by (simp add: same_in_def)

lemma saved_in_kept:
  assumes "saved_in a gs xs s m" "same_in a (- save_area gs xs) 0 m m'" "saves allocs gs xs"
  shows "saved_in a gs xs s m'"
proof -
  note sz = saves_sizes [OF assms(3)]
  have "load128 (spot a (- xmm_area xs + 16 * int i)) m' = load128 (spot a (- xmm_area xs + 16 * int i)) m" if "i < length xs" for i
    unfolding load128_def by (subst get_ram_same_in [OF assms(2)]) (use that in \<open>auto simp: save_area_def xmm_area_def\<close>)
  moreover have "load64 (spot a (- xmm_area xs - 8 * (int i + 1))) m' = load64 (spot a (- xmm_area xs - 8 * (int i + 1))) m"
    if "i < length gs" for i
    unfolding load64_def by (subst get_ram_same_in [OF assms(2)]) (use that sz in \<open>auto simp: save_area_def\<close>)
  ultimately show ?thesis using assms(1) by (simp add: saved_in_def)
qed

lemma set_enumerate_map: "(j, n) \<in> set (enumerate 0 xs) \<longleftrightarrow> j < length xs \<and> xs ! j = n"
  by (auto simp: in_set_enumerate_eq)

lemma save_registers:
  assumes S: "saves allocs gs xs" and al: "uint (rsp s) mod 16 = 8"
  shows "\<exists>t. runs (xmm_backup_code allocs @ gpr_backup_code allocs) s t
     \<and> gprs t = (gprs s)(4 := spot (rsp s) (- save_area gs xs)) \<and> xmms t = xmms s \<and> rip t = rip s
     \<and> same_above (rsp s) 0 (ram s) (ram t) \<and> saved_in (rsp s) gs xs s (ram t)"
proof -
  let ?a = "rsp s" and ?x = "- xmm_area xs"
  note sz = saves_sizes [OF S]
  have S': "saved_gprs_of allocs = map gpr gs" "saved_xmms_of allocs = map xmm xs" "savable gs" "\<forall>n \<in> set xs. n < 16"
    "length gs \<le> 16" "length xs \<le> 16"
    using S by (simp_all add: saves_def)
  have "\<exists>t. runs (xmm_backup_code allocs) s t \<and> gprs t = (gprs s)(4 := spot ?a ?x) \<and> xmms t = xmms s \<and> rip t = rip s
     \<and> same_above ?a 0 (ram s) (ram t) \<and> (\<forall>i < length xs. load128 (spot ?a (?x + 16 * int i)) (ram t) = xmms s (xs ! i))"
  proof (cases "xs = []")
    case True
    then show ?thesis using sz(2) by (intro exI [of _ s]) (simp add: xmm_backup_code_def xmm_area_def)
  next
    case False
    define u where "u = set_gpr 4 (spot ?a ?x) s"
    have e: "exec (Insn SUB [Gpr 64 4, ImmI (xmm_backup_stack_offset allocs)]) s = Some u"
      using spot_sub [of ?a 0 "xmm_area xs"] by (simp add: u_def sz(3) False)
    have enc: "encodes (sub_gpr64_imm (Reg RSP) (xmm_backup_stack_offset allocs))
        (Insn SUB [Gpr 64 4, ImmI (xmm_backup_stack_offset allocs)])"
      using sz(5,6) enc_sub_imm [of 4 "xmm_backup_stack_offset allocs"] by (simp add: sz(3) False fits_s32_def)
    have "uint (spot ?a ?x) mod 16 = 0"
      using al False unfolding spot_def uint_add_mod by (simp add: xmm_area_def mod_simps) presburger
    then have p: "\<forall>n \<in> set xs. n < 16" "rsp u = spot ?a ?x" "aligned16 (rsp u)" "- (2 ^ 39) < ?x"
        "?x + 16 * int (0 + length xs) < 2 ^ 30" "?x \<le> 0" "16 * int (0 + length xs) < 2 ^ 31"
      using S' sz(5,6) by (auto simp: u_def set_gpr_def aligned16_uint xmm_area_def)
    obtain t where t: "runs (map (\<lambda>(i, r). store128_xmm128_reg_offset (Reg RSP) r (int i * XMM_SIZE)) (enumerate 0 (map xmm xs))) u t"
      "gprs t = gprs u" "xmms t = xmms u" "rip t = rip u"
      "\<And>y. near y \<Longrightarrow> y < ?x + 16 * int 0 \<or> ?x + 16 * int (0 + length xs) \<le> y \<Longrightarrow> ram t (spot ?a y) = ram u (spot ?a y)"
      "\<And>i. i < length xs \<Longrightarrow> load128 (spot ?a (?x + 16 * int (0 + i))) (ram t) = xmms u (xs ! i)"
      using xmm_stores [OF p] by blast
    have "runs (xmm_backup_code allocs) s t"
      using runs_Cons [OF enc e t(1)] False sz(2) by (simp add: xmm_backup_code_def S'(2))
    moreover have "same_above ?a 0 (ram s) (ram t)"
      using t(5) False by (auto simp: same_above_def u_def set_gpr_def xmm_area_def)
    ultimately show ?thesis using t(2-4,6) by (intro exI [of _ t]) (auto simp: u_def set_gpr_def)
  qed
  then obtain t where t: "runs (xmm_backup_code allocs) s t" "gprs t = (gprs s)(4 := spot ?a ?x)" "xmms t = xmms s" "rip t = rip s"
    "same_above ?a 0 (ram s) (ram t)" "\<forall>i < length xs. load128 (spot ?a (?x + 16 * int i)) (ram t) = xmms s (xs ! i)" by blast
  have q: "rsp t = spot ?a ?x" "- (2 ^ 39) < ?x - 8 * int (length gs)" "?x < 2 ^ 39"
    using t(2) sz(5,6) S'(5) by simp_all
  obtain v where v: "runs (map (\<lambda>n. push_gpr64 (gpr n)) gs) t v"
    "gprs v = (gprs t)(4 := spot ?a (?x - 8 * int (length gs)))" "xmms v = xmms t" "rip v = rip t" "same_above ?a ?x (ram t) (ram v)"
    "\<forall>i < length gs. load64 (spot ?a (?x - 8 * (int i + 1))) (ram v) = gprs t (gs ! i)"
    using pushes [OF S'(3) q] by blast
  have "gpr_backup_code allocs = map (\<lambda>n. push_gpr64 (gpr n)) gs" by (simp add: gpr_backup_code_def S'(1))
  then have r: "runs (xmm_backup_code allocs @ gpr_backup_code allocs) s v" using t(1) v(1) by (simp add: runs_append)
  have above: "same_above ?a 0 (ram s) (ram v)" using same_above_trans [OF t(5) v(5)] by (rule same_above_mono) (use sz(5) in simp)
  have "load128 (spot ?a (?x + 16 * int i)) (ram v) = xmms s (xs ! i)" if "i < length xs" for i
  proof -
    have "get_ram 16 (spot ?a (?x + 16 * int i)) (ram v) = get_ram 16 (spot ?a (?x + 16 * int i)) (ram t)"
      using v(5) by (rule get_ram_above) (use that sz(5,6) S'(6) in \<open>auto simp: near_def\<close>)
    then show ?thesis using t(6) that by (simp add: load128_def)
  qed
  moreover have "gprs t (gs ! i) = gprs s (gs ! i)" if "i < length gs" for i
    using S'(3) that t(2) by (auto simp: savable_def)
  ultimately have "saved_in ?a gs xs s (ram v)" using v(6) by (simp add: saved_in_def)
  then show ?thesis using r above v(2-4) t(2-4) by (intro exI [of _ v]) (auto simp: save_area_def algebra_simps)
qed

lemma restore_registers:
  assumes S: "saves allocs gs xs" and al: "uint a mod 16 = 8" and u: "rsp u = spot a (- save_area gs xs)" "saved_in a gs xs s (ram u)"
  shows "\<exists>t. runs (gpr_restore_code allocs @ xmm_restore_code allocs @ [ret]) u t
     \<and> rsp t = a + 8 \<and> rip t = load64 a (ram u) \<and> ram t = ram u
     \<and> (\<forall>n. n \<noteq> 4 \<longrightarrow> gprs t n = (if n \<in> set gs then gprs s n else gprs u n))
     \<and> (\<forall>n. xmms t n = (if n \<in> set xs then xmms s n else xmms u n))"
proof -
  let ?x = "- xmm_area xs"
  note sz = saves_sizes [OF S]
  have S': "saved_gprs_of allocs = map gpr gs" "saved_xmms_of allocs = map xmm xs" "savable gs" "\<forall>n \<in> set xs. n < 16"
    "distinct gs" "distinct xs" "length gs \<le> 16" "length xs \<le> 16"
    using S by (simp_all add: saves_def)
  have sv: "savable (rev gs)" "distinct (rev gs)" using S'(3,5) by (simp_all add: savable_def)
  have "load64 (spot a (- save_area gs xs + 8 * int i)) (ram u) = gprs s (rev gs ! i)" if "i < length (rev gs)" for i
  proof -
    let ?j = "length gs - 1 - i"
    have "\<forall>i < length gs. load64 (spot a (?x - 8 * (int i + 1))) (ram u) = gprs s (gs ! i)" using u(2) unfolding saved_in_def by blast
    then have "load64 (spot a (?x - 8 * (int ?j + 1))) (ram u) = gprs s (gs ! ?j)" using that by (elim allE [of _ ?j]) auto
    moreover have "?x - 8 * (int ?j + 1) = - save_area gs xs + 8 * int i" using that by (simp add: save_area_def of_nat_diff)
    ultimately show ?thesis using that by (simp only: rev_nth length_rev diff_Suc_1 diff_diff_eq plus_1_eq_Suc)
  qed
  from pops [OF sv u(1) this]
  obtain v where v: "runs (map (\<lambda>n. pop_gpr64 (gpr n)) (rev gs)) u v"
    "gprs v = (\<lambda>n. if n = 4 then spot a (- save_area gs xs + 8 * int (length (rev gs))) else if n \<in> set (rev gs) then gprs s n else gprs u n)"
    "xmms v = xmms u" "ram v = ram u" "rip v = rip u" by blast
  have code: "gpr_restore_code allocs = map (\<lambda>n. pop_gpr64 (gpr n)) (rev gs)"
    by (simp add: gpr_restore_code_def S'(1) rev_map)
  have rsp_v: "rsp v = spot a ?x" by (simp add: v(2) save_area_def)
  have "\<exists>w. runs (xmm_restore_code allocs) v w \<and> gprs w = (gprs v)(4 := a) \<and> ram w = ram v \<and> rip w = rip v
     \<and> xmms w = (\<lambda>n. if n \<in> set xs then xmms s n else xmms v n)"
  proof (cases "xs = []")
    case True
    then show ?thesis using sz(2) rsp_v by (intro exI [of _ v]) (auto simp: xmm_restore_code_def xmm_area_def fun_eq_iff)
  next
    case False
    let ?ps = "rev (enumerate 0 xs)"
    have "uint (spot a ?x) mod 16 = 0"
      using al False unfolding spot_def uint_add_mod by (simp add: xmm_area_def mod_simps) presburger
    then have al': "aligned16 (rsp v)" by (simp add: rsp_v aligned16_uint)
    have p1: "\<forall>(j, n) \<in> set ?ps. n < 16 \<and> 16 * int j < 2 ^ 31"
      using S'(4,8) by (auto simp: set_enumerate_map)
    have p2: "distinct (map snd ?ps)" using S'(6) by (simp flip: rev_map)
    have ld: "load128 (spot a (?x + 16 * int j)) (ram v) = xmms s n" if "(j, n) \<in> set ?ps" for j n
      using that u(2) by (auto simp: set_enumerate_map saved_in_def v(4))
    obtain w where w: "runs (map (\<lambda>(j, n). load128_xmm128_reg_offset (xmm n) (Reg RSP) (int j * XMM_SIZE)) ?ps) v w"
      "gprs w = gprs v" "ram w = ram v" "rip w = rip v" "xmms w = (\<lambda>n. if n \<in> snd ` set ?ps then xmms s n else xmms v n)"
      using xmm_loads [where v = "xmms s", OF p1 p2 rsp_v al' ld] by blast
    define z where "z = set_gpr 4 a w"
    have e: "exec (Insn ADD [Gpr 64 4, ImmI (xmm_backup_stack_offset allocs)]) w = Some z"
      using spot_add [of a ?x "xmm_area xs"] by (simp add: z_def sz(3) False w(2) rsp_v)
    have enc: "encodes (add_gpr64_imm (Reg RSP) (xmm_backup_stack_offset allocs))
        (Insn ADD [Gpr 64 4, ImmI (xmm_backup_stack_offset allocs)])"
      using sz(5,6) enc_add_imm [of 4 "xmm_backup_stack_offset allocs"] by (simp add: sz(3) False fits_s32_def)
    have c: "xmm_restore_code allocs = map (\<lambda>(j, n). load128_xmm128_reg_offset (xmm n) (Reg RSP) (int j * XMM_SIZE)) ?ps
        @ [add_gpr64_imm (Reg RSP) (xmm_backup_stack_offset allocs)]"
      using False sz(2) by (simp add: xmm_restore_code_def S'(2) enumerate_map_upt rev_map case_prod_beta' enumerate_eq_zip zip_map2)
    have "runs (xmm_restore_code allocs) v z" unfolding c by (rule runs_append [OF w(1) runs_one [OF enc e]])
    moreover have "snd ` set ?ps = set xs" by (simp flip: set_map)
    ultimately show ?thesis using w(2-5) by (intro exI [of _ z]) (auto simp: z_def set_gpr_def)
  qed
  then obtain w where w: "runs (xmm_restore_code allocs) v w" "gprs w = (gprs v)(4 := a)" "ram w = ram v" "rip w = rip v"
     "xmms w = (\<lambda>n. if n \<in> set xs then xmms s n else xmms v n)" by blast
  define t where "t = w\<lparr>gprs := (gprs w)(4 := rsp w + 8), rip := load64 (rsp w) (ram w)\<rparr>"
  have "runs [ret] w t" by (rule runs_one [OF enc_ret]) (simp add: t_def)
  then have "runs (gpr_restore_code allocs @ xmm_restore_code allocs @ [ret]) u t"
    using v(1) w(1) unfolding code by (intro runs_append)
  then show ?thesis using v(2-5) w(2-5) by (intro exI [of _ t]) (auto simp: t_def)
qed

section \<open>The whole frame\<close>

definition stack_slots_ok :: "AllocationResult \<Rightarrow> bool" where
  "stack_slots_ok allocs \<longleftrightarrow> 0 \<le> manual_offset allocs \<and> manual_offset allocs < 2 ^ 30"

lemma manual_mod_8: "manual_offset allocs mod 8 = 0"
  by (simp add: manual_offset_def GPR_SIZE_def)

lemma first_saved_gpr: "get_saved_gpr gRegInfo 0 = Some (gpr 3)"
  by code_simp

lemma mod_8_16: "(x :: int) mod 8 = 0 \<Longrightarrow> x mod 16 = 0 \<or> x mod 16 = 8"
  by presburger

text \<open>The four kinds of frames.\<close>

lemma make_frame_cases:
  assumes "make_frame allocs aligned = Some fr" "saves allocs gs xs"
  obtains
    (none) "\<not> needs_frame allocs aligned" "fr_manual fr = 0" "\<not> fr_bonus_push fr"
      "fr_stack_offset fr = save_area gs xs" "fr_align_code fr = []"
  | (push) "needs_frame allocs aligned" "fr_manual fr = 0" "fr_bonus_push fr" "fr_stack_offset fr = save_area gs xs + 8"
      "fr_align_code fr = [push_gpr64 (gpr 3)]" "fr_stack_offset fr mod 16 = 8"
  | (sub) "needs_frame allocs aligned" "\<not> fr_bonus_push fr" "fr_stack_offset fr = save_area gs xs + fr_manual fr"
      "fr_align_code fr = (if fr_manual fr \<noteq> 0 then [sub_gpr64_imm (Reg RSP) (fr_manual fr)] else [])"
      "fr_stack_offset fr mod 16 = 8" "fr_manual fr \<le> manual_offset allocs + 8" "manual_offset allocs \<le> fr_manual fr"
proof -
  note sz = saves_sizes [OF assms(2)]
  have m8: "stack_offset_of allocs mod 8 = 0" using sz(4,8) manual_mod_8 [of allocs] by presburger
  show thesis
  proof (cases "needs_frame allocs aligned")
    case False
    then show thesis using assms(1) none sz(4) by (auto simp: make_frame_def needs_frame_def)
  next
    case True
    show thesis
    proof (cases "stack_offset_of allocs mod 16 = 0 \<and> manual_offset allocs = 0")
      case a: True
      then show thesis
        using assms(1) True sz(4)
        by (intro push) (auto simp: make_frame_def Let_def first_saved_gpr mod_simps bind_eq_Some_conv)
    next
      case a: False
      show thesis
      proof (cases "stack_offset_of allocs mod 16 = 0")
        case adj: True
        then have "(stack_offset_of allocs + 8) mod 16 = 8" by presburger
        then show thesis using assms(1) True a adj sz(4)
          by (intro sub) (auto simp: make_frame_def Let_def bind_eq_Some_conv split: if_splits)
      next
        case adj: False
        then show thesis using assms(1) True sz(4) mod_8_16 [OF m8]
          by (intro sub) (auto simp: make_frame_def Let_def bind_eq_Some_conv split: if_splits)
      qed
    qed
  qed
qed

lemma spot_spot: "spot (spot a x) y = spot a (x + y)"
  by (simp add: spot_def wi_hom_add [symmetric])

lemma same_in_shift: "same_in (spot a x) y z m m' \<longleftrightarrow> same_in a (x + y) (x + z) m m'"
proof
  assume L: "same_in (spot a x) y z m m'"
  have "m' (spot a k) = m (spot a k)" if "x + y \<le> k" "k < x + z" for k
    using L [unfolded same_in_def, rule_format, of "k - x"] that by (simp add: spot_spot)
  then show "same_in a (x + y) (x + z) m m'" by (simp add: same_in_def)
qed (simp add: same_in_def spot_spot)

text \<open>The registers of a machine that a result saves.\<close>

definition same_reg :: "machine \<Rightarrow> machine \<Rightarrow> Register \<Rightarrow> bool" where
  "same_reg s t r \<longleftrightarrow> (\<forall>n < 16. (r = gpr n \<longrightarrow> gprs t n = gprs s n) \<and> (r = xmm n \<longrightarrow> xmms t n = xmms s n))"

lemma prologue_runs:
  assumes fr: "make_frame allocs aligned = Some fr" and S: "saves allocs gs xs" and ok: "stack_slots_ok allocs"
    and al: "uint (rsp s) mod 16 = 8"
  shows "\<exists>b. runs (prologue_code allocs fr) s b \<and> gprs b = (gprs s)(4 := spot (rsp s) (- fr_stack_offset fr)) \<and> xmms b = xmms s
     \<and> same_above (rsp s) 0 (ram s) (ram b) \<and> saved_in (rsp s) gs xs s (ram b)
     \<and> (fr_bonus_push fr \<longrightarrow> load64 (spot (rsp s) (- save_area gs xs - 8)) (ram b) = gprs s 3)"
proof -
  let ?a = "rsp s" and ?x = "- save_area gs xs"
  note sz = saves_sizes [OF S]
  obtain t where t: "runs (xmm_backup_code allocs @ gpr_backup_code allocs) s t" "gprs t = (gprs s)(4 := spot ?a ?x)"
    "xmms t = xmms s" "same_above ?a 0 (ram s) (ram t)" "saved_in ?a gs xs s (ram t)"
    using save_registers [OF S al] by blast
  have run: "runs (prologue_code allocs fr) s b" if "runs (fr_align_code fr) t b" for b
    using runs_append [OF t(1) that] by (simp add: prologue_code_def)
  from fr S show ?thesis
  proof (cases rule: make_frame_cases)
    case none
    then show ?thesis using run [of t] t by (intro exI [of _ t]) simp
  next
    case push
    have q: "savable [3]" "rsp t = spot ?a ?x" "- (2 ^ 39) < ?x - 8 * int (length [3 :: nat])" "?x < 2 ^ 39"
      using t(2) sz(5,7) by (simp_all add: savable_def save_area_def)
    obtain b where b: "runs (map (\<lambda>n. push_gpr64 (gpr n)) [3]) t b" "gprs b = (gprs t)(4 := spot ?a (?x - 8 * int (length [3 :: nat])))"
      "xmms b = xmms t" "same_above ?a ?x (ram t) (ram b)"
      "\<forall>i < length [3 :: nat]. load64 (spot ?a (?x - 8 * (int i + 1))) (ram b) = gprs t ([3] ! i)"
      using pushes [OF q] by blast
    have "saved_in ?a gs xs s (ram b)"
      by (rule saved_in_kept [OF t(5) same_above_in [OF b(4)] S]) (use sz(7) in auto)
    moreover have "same_above ?a 0 (ram s) (ram b)"
      using same_above_trans [OF t(4) b(4)] by (rule same_above_mono) (use sz(5) in \<open>simp add: save_area_def\<close>)
    ultimately show ?thesis using run [of b] b push t(2,3) by (intro exI [of _ b]) simp
  next
    case sub
    show ?thesis
    proof (cases "fr_manual fr = 0")
      case True
      then show ?thesis using run [of t] sub t by (intro exI [of _ t]) simp
    next
      case False
      define b where "b = set_gpr 4 (spot ?a (- fr_stack_offset fr)) t"
      have "exec (Insn SUB [Gpr 64 4, ImmI (fr_manual fr)]) t = Some b"
        by (simp add: b_def t(2) spot_sub sub(3))
      moreover have "encodes (sub_gpr64_imm (Reg RSP) (fr_manual fr)) (Insn SUB [Gpr 64 4, ImmI (fr_manual fr)])"
        using enc_sub_imm [of 4 "fr_manual fr"] sub(6,7) ok by (simp add: fits_s32_def stack_slots_ok_def)
      ultimately have "runs (fr_align_code fr) t b" using sub(4) False by (simp add: runs_one)
      then show ?thesis using run [of b] t sub(2) by (intro exI [of _ b]) (simp add: b_def set_gpr_def)
    qed
  qed
qed

lemma epilogue_runs:
  assumes fr: "make_frame allocs aligned = Some fr" and S: "saves allocs gs xs" and ok: "stack_slots_ok allocs"
    and al: "uint a mod 16 = 8" and ep: "epilogue_code allocs aligned fr = Some ep"
    and u: "rsp u = spot a (- fr_stack_offset fr)" "saved_in a gs xs s (ram u)"
      "fr_bonus_push fr \<longrightarrow> load64 (spot a (- save_area gs xs - 8)) (ram u) = gprs s 3"
  shows "\<exists>t. runs ep u t \<and> rsp t = a + 8 \<and> rip t = load64 a (ram u) \<and> ram t = ram u
     \<and> (\<forall>n. n \<noteq> 4 \<longrightarrow> gprs t n = (if n \<in> set gs \<or> (n = 3 \<and> fr_bonus_push fr) then gprs s n else gprs u n))
     \<and> (\<forall>n. xmms t n = (if n \<in> set xs then xmms s n else xmms u n))"
proof -
  let ?x = "- save_area gs xs"
  let ?rest = "gpr_restore_code allocs @ xmm_restore_code allocs @ [ret]"
  have "\<exists>al v. ep = al @ ?rest \<and> runs al u v \<and> ram v = ram u \<and> xmms v = xmms u
     \<and> gprs v = (\<lambda>n. if n = 4 then spot a ?x else if n = 3 \<and> fr_bonus_push fr then gprs s 3 else gprs u n)"
    using fr S
  proof (cases rule: make_frame_cases)
    case none
    then show ?thesis using ep u(1)
      by (intro exI [of _ "[]"] exI [of _ u]) (auto simp: epilogue_code_def align_restore_code_def fun_eq_iff)
  next
    case push
    have "\<And>i. i < length [3 :: nat] \<Longrightarrow> load64 (spot a (?x - 8 + 8 * int i)) (ram u) = gprs s ([3] ! i)"
      using u(3) push(3) by simp
    moreover have "savable [3]" "distinct [3 :: nat]" "rsp u = spot a (?x - 8)"
      using u(1) push(4) by (simp_all add: savable_def)
    ultimately obtain v where v: "runs (map (\<lambda>n. pop_gpr64 (gpr n)) [3]) u v"
      "gprs v = (\<lambda>n. if n = 4 then spot a (?x - 8 + 8 * int (length [3 :: nat])) else if n \<in> set [3] then gprs s n else gprs u n)"
      "xmms v = xmms u" "ram v = ram u"
      using pops [of "[3]" u a "?x - 8" "gprs s"] by blast
    have g: "gprs v = (\<lambda>n. if n = 4 then spot a ?x else if n = 3 \<and> fr_bonus_push fr then gprs s 3 else gprs u n)"
      using v(2) push(3) by (simp add: fun_eq_iff)
    have "ep = [pop_gpr64 (gpr 3)] @ ?rest"
      using ep push(1-3) by (simp add: epilogue_code_def align_restore_code_def first_saved_gpr)
    then show ?thesis using v(1,3,4) g by (intro exI [of _ "[pop_gpr64 (gpr 3)]"] exI [of _ v]) simp
  next
    case sub
    show ?thesis
    proof (cases "fr_manual fr = 0")
      case True
      then show ?thesis using ep u(1) sub
        by (intro exI [of _ "[]"] exI [of _ u]) (auto simp: epilogue_code_def align_restore_code_def fun_eq_iff)
    next
      case False
      define v where "v = set_gpr 4 (spot a ?x) u"
      have "exec (Insn ADD [Gpr 64 4, ImmI (fr_manual fr)]) u = Some v"
        by (simp add: v_def u(1) spot_add sub(3))
      moreover have "encodes (add_gpr64_imm (Reg RSP) (fr_manual fr)) (Insn ADD [Gpr 64 4, ImmI (fr_manual fr)])"
        using enc_add_imm [of 4 "fr_manual fr"] sub(6,7) ok by (simp add: fits_s32_def stack_slots_ok_def)
      ultimately have "runs [add_gpr64_imm (Reg RSP) (fr_manual fr)] u v" by (simp add: runs_one)
      moreover have "ep = [add_gpr64_imm (Reg RSP) (fr_manual fr)] @ ?rest"
        using ep sub(1,2) False by (simp add: epilogue_code_def align_restore_code_def)
      ultimately show ?thesis using sub(2)
        by (intro exI [of _ "[add_gpr64_imm (Reg RSP) (fr_manual fr)]"] exI [of _ v]) (auto simp: v_def set_gpr_def fun_eq_iff)
    qed
  qed
  then obtain al v where v: "ep = al @ ?rest" "runs al u v" "ram v = ram u" "xmms v = xmms u"
    "gprs v = (\<lambda>n. if n = 4 then spot a ?x else if n = 3 \<and> fr_bonus_push fr then gprs s 3 else gprs u n)" by blast
  have "rsp v = spot a ?x" "saved_in a gs xs s (ram v)" using v(3,5) u(2) by simp_all
  from restore_registers [OF S assms(4) this]
  obtain t where t: "runs ?rest v t" "rsp t = a + 8" "rip t = load64 a (ram v)" "ram t = ram v"
    "\<forall>n. n \<noteq> 4 \<longrightarrow> gprs t n = (if n \<in> set gs then gprs s n else gprs v n)"
    "\<forall>n. xmms t n = (if n \<in> set xs then xmms s n else xmms v n)" by blast
  show ?thesis
    using runs_append [OF v(2) t(1)] t(2-6) v(1,3-5) by (intro exI [of _ t]) auto
qed

end
