(* ===== verification/Codegen_Append.thy ===== *)
theory Codegen_Append
  imports Goal_Codegen Obj_Build
begin

text \<open>
  Code generation for a function only adds instructions behind those the function has, so that the code
  of a function is its prologue, the code of its body and its epilogue.
\<close>

section \<open>Adding instructions to a function\<close>

definition grows :: "int \<Rightarrow> int \<Rightarrow> Instruction list \<Rightarrow> ObjectGenerator \<Rightarrow> ObjectGenerator \<Rightarrow> bool" where
  "grows seg k is g g' \<longleftrightarrow>
    (\<forall>f. get_function g seg k = Some f \<longrightarrow> (\<exists>f'. get_function g' seg k = Some f' \<and> fd_instructions f' = fd_instructions f @ is))"

lemma grows_refl [simp]: "grows seg k [] g g"
  by (simp add: grows_def)

lemma grows_trans: "grows seg k is g g' \<Longrightarrow> grows seg k js g' g'' \<Longrightarrow> grows seg k (is @ js) g g''"
  by (fastforce simp: grows_def)

lemma grows_same: "m_function_data_by_seg g' = m_function_data_by_seg g \<Longrightarrow> grows seg k [] g g'"
  by (simp add: grows_def get_function_def)

lemma get_set_function:
  assumes "get_function g seg k = Some f"
  shows "get_function (set_function g seg k f') seg k = Some f'"
  using assms by (auto simp: get_function_def set_function_def array_at_def bind_eq_Some_conv split: if_splits)

lemma add_instr_no_ir_grows:
  "add_instr_no_ir r i kind g = Some g' \<Longrightarrow> grows (fn_seg r) (fn_func_id r) [i] g g'"
  by (auto simp: add_instr_no_ir_def Let_def bind_eq_Some_conv grows_def get_set_function)

lemma emit_no_ir_grows:
  "emit_no_ir r kind is g = Some g' \<Longrightarrow> \<exists>xs. is = map Some xs \<and> grows (fn_seg r) (fn_func_id r) xs g g'"
proof (induction "is" arbitrary: g)
  case (Cons i "is")
  then obtain x g1 where x: "i = Some x" "add_instr_no_ir r x kind g = Some g1" "emit_no_ir r kind is g1 = Some g'"
    by (auto simp: emit_no_ir_def bind_eq_Some_conv)
  from Cons.IH [OF x(3)] obtain xs where xs: "is = map Some xs" "grows (fn_seg r) (fn_func_id r) xs g1 g'" by blast
  then show ?case using grows_trans [OF add_instr_no_ir_grows [OF x(2)] xs(2)] x(1)
    by (intro exI [of _ "x # xs"]) simp
qed (simp add: emit_no_ir_def)

section \<open>The body\<close>

text \<open>A step of code generation that adds some instructions to the function.\<close>

definition adds :: "int \<Rightarrow> int \<Rightarrow> (ObjectGenerator \<Rightarrow> ObjectGenerator option) \<Rightarrow> bool" where
  "adds seg k F \<longleftrightarrow> (\<forall>g g'. F g = Some g' \<longrightarrow> (\<exists>is. grows seg k is g g'))"

named_theorems adds_intros

lemma adds_Some [adds_intros]: "adds seg k Some"
  unfolding adds_def by (metis grows_refl option.inject)

lemma adds_None [adds_intros]: "adds seg k (\<lambda>g. None)"
  by (simp add: adds_def)

lemma adds_seq [adds_intros]: "adds seg k F \<Longrightarrow> adds seg k G \<Longrightarrow> adds seg k (\<lambda>g. Option.bind (F g) G)"
  by (fastforce simp: adds_def bind_eq_Some_conv intro: grows_trans)

lemma adds_read: "(\<And>x. adds seg k (F x)) \<Longrightarrow> adds seg k (\<lambda>g. Option.bind (p g) (\<lambda>x. F x g))"
  by (fastforce simp: adds_def bind_eq_Some_conv)

lemma adds_let [adds_intros]: "(\<And>x. adds seg k (F x)) \<Longrightarrow> adds seg k (\<lambda>g. let x = v in F x g)"
  by simp

lemma adds_if [adds_intros]: "(b \<Longrightarrow> adds seg k F) \<Longrightarrow> (\<not> b \<Longrightarrow> adds seg k G) \<Longrightarrow> adds seg k (\<lambda>g. if b then F g else G g)"
  by (cases b) simp_all

text \<open>A step that also returns the record of an instruction.\<close>

definition adds_rec :: "int \<Rightarrow> int \<Rightarrow> (ObjectGenerator \<Rightarrow> ('r \<times> ObjectGenerator) option) \<Rightarrow> bool" where
  "adds_rec seg k F \<longleftrightarrow> (\<forall>g r g'. F g = Some (r, g') \<longrightarrow> (\<exists>is. grows seg k is g g'))"

lemma adds_rec_seq [adds_intros]:
  "adds_rec seg k F \<Longrightarrow> (\<And>r. adds seg k (K r)) \<Longrightarrow> adds seg k (\<lambda>g. Option.bind (F g) (\<lambda>(r, g). K r g))"
  by (fastforce simp: adds_rec_def adds_def bind_eq_Some_conv intro: grows_trans)

lemma adds_fold [adds_intros]: "(\<And>x. adds seg k (F x)) \<Longrightarrow> adds seg k (fold_opt F xs)"
proof (induction xs)
  case (Cons x xs)
  then show ?case using adds_seq [of seg k "F x" "fold_opt F xs"] by (simp add: adds_def)
qed (simp add: adds_def exI [of _ "[]"])

lemma adds_emit_instr [adds_intros]:
  assumes "seg = ir_seg r" "k = ir_func_id r"
  shows "adds_rec seg k (emit_instr r i)"
  unfolding adds_rec_def
proof (intro allI impI)
  fix g x g' assume "emit_instr r i g = Some (x, g')"
  then obtain j where "add_instr j r g = Some (x, g')" by (auto simp: emit_instr_def bind_eq_Some_conv)
  then have "grows seg k [j] g g'"
    by (auto simp: add_instr_def Let_def bind_eq_Some_conv grows_def get_set_function assms)
  then show "\<exists>is. grows seg k is g g'" ..
qed

lemma adds_emit_all [adds_intros]: "seg = ir_seg r \<Longrightarrow> k = ir_func_id r \<Longrightarrow> adds seg k (emit_all r is)"
  unfolding emit_all_def by (intro adds_intros) simp_all

lemma adds_same:
  assumes "\<And>g g'. F g = Some g' \<Longrightarrow> m_function_data_by_seg g' = m_function_data_by_seg g"
  shows "adds seg k F"
  unfolding adds_def using assms grows_same by blast

lemmas link_defs = link_instruction_symbol_mem_def link_instruction_symbol_ptr_def link_instruction_jump_def
  link_instruction_static_def link_instruction_to_function_def

lemma adds_links [adds_intros]:
  "adds seg k (link_instruction_symbol_mem r name)" "adds seg k (link_instruction_symbol_ptr r name)"
  "adds seg k (link_instruction_jump r dest)" "adds seg k (link_instruction_static r st off)"
  "adds seg k (link_instruction_to_function r f)"
  by (rule adds_same; auto simp: link_defs Let_def bind_eq_Some_conv split: if_splits)+

lemmas adds_steps = adds_seq adds_rec_seq adds_emit_all adds_emit_instr adds_links adds_if adds_let adds_Some adds_None adds_read

lemmas codegen_defs = codegen_Return_def codegen_LoadConstant64_def codegen_LoadSymbolPointer_def codegen_SetSymbolValue_def
  codegen_GetSymbolValue_def codegen_FunctionCall_def codegen_RegValAddr_def codegen_StaticVarAddr_def codegen_StaticVarLoad_def
  codegen_FunctionAddr_def codegen_IntegerMath_def codegen_FloatMath_def codegen_GotoLabel_def codegen_ConditionalBranch_def
  codegen_FloatToInt_def codegen_IntToFloat_def codegen_GetStackAddr_def codegen_LoadConstOffset_def codegen_StoreConstOffset_def
  codegen_AsmPush_def codegen_AsmPop_def codegen_AsmSub_def codegen_AsmAdd_def codegen_GetSymbolValueAsm_def codegen_JumpReg_def
  codegen_VFMath3Asm_def codegen_Int128Math3Asm_def codegen_VFMath2Asm_def codegen_Int128Math2Asm_def codegen_BlendVF_def
  codegen_SplatVF_def codegen_SwizzleVF_def codegen_SqrtVF_def regset_common_def emit_symbol_mem_def emit_jump_def

lemma adds_do_codegen:
  assumes "seg = ir_seg r" "k = ir_func_id r"
  shows "adds seg k (do_codegen env r ir)"
proof -
  have "adds seg k (\<lambda>g. do_codegen env r ir g)"
    by (cases ir; simp only: do_codegen.simps codegen_defs)
      ((rule adds_steps assms)+)
  then show ?thesis .
qed

lemma add_ir_grows:
  assumes "add_ir r txt g = Some (irec, g')"
  shows "grows (fn_seg r) (fn_func_id r) [] g g'" "fn_seg r = ir_seg irec" "fn_func_id r = ir_func_id irec"
  using assms by (auto simp: add_ir_def Let_def bind_eq_Some_conv grows_def get_set_function)

lemma adds_do_ir: "adds (fn_seg r) (fn_func_id r) (do_ir print_ir env r x)"
  unfolding adds_def
proof (intro allI impI)
  fix g g' assume "do_ir print_ir env r x g = Some g'"
  then have h: "do_ir print_ir env r x g = Some g'" .
  then obtain irec g1 where a: "add_ir r (print_ir (snd x)) g = Some (irec, g1)"
    by (cases "add_ir r (print_ir (snd x)) g") (auto simp: do_ir_def)
  obtain ops where "array_at (res_stack_ops (ce_allocs env)) (int (fst x)) = Some ops"
    using h by (cases "array_at (res_stack_ops (ce_allocs env)) (int (fst x))") (simp_all add: do_ir_def a)
  then have a2: "Option.bind (emit_all irec (map (spill_load (ce_allocs env)) (filter op_load ops)) g1)
       (\<lambda>g. Option.bind (do_codegen env irec (snd x) g)
          (emit_all irec (map (spill_store (ce_allocs env)) (filter op_store ops)))) = Some g'"
    using h by (simp add: do_ir_def a)
  note r = add_ir_grows [OF a(1)]
  have "adds (fn_seg r) (fn_func_id r) (\<lambda>g1. Option.bind (emit_all irec (map (spill_load (ce_allocs env)) (filter op_load ops)) g1)
       (\<lambda>g. Option.bind (do_codegen env irec (snd x) g)
          (emit_all irec (map (spill_store (ce_allocs env)) (filter op_store ops)))))"
    by (intro adds_seq adds_emit_all adds_do_codegen r(2,3))
  then obtain "is" where "grows (fn_seg r) (fn_func_id r) is g1 g'" using a2 unfolding adds_def by blast
  then show "\<exists>is. grows (fn_seg r) (fn_func_id r) is g g'" using grows_trans [OF r(1)] by blast
qed

lemma set_stack_usage_grows:
  "set_stack_usage r n g = Some g' \<Longrightarrow> grows (fn_seg r) (fn_func_id r) [] g g'"
  by (auto simp: set_stack_usage_def bind_eq_Some_conv grows_def get_set_function)

lemma do_goal_function_shape:
  assumes "do_goal_function print_ir fe env f_idx g = Some g'" "get_existing_function_record g f_idx = Some r"
  obtains fr P B E where "make_frame (fe_alloc_result env) (aligned_stack_required env) = Some fr"
    "prologue_code (fe_alloc_result env) fr = map Some P"
    "epilogue_code (fe_alloc_result env) (aligned_stack_required env) fr = Some (map Some E)"
    "grows (fn_seg r) (fn_func_id r) (P @ B @ E) g g'"
proof -
  let ?al = "fe_alloc_result env"
  obtain fr g1 g2 g3 ep where
    fr: "make_frame ?al (aligned_stack_required env) = Some fr"
    and g1: "emit_no_ir r PROLOGUE (prologue_code ?al fr) g = Some g1"
    and g2: "set_stack_usage r (fr_stack_offset fr) g1 = Some g2"
    and g3: "fold_opt (do_ir print_ir (env_of fe env) r) (enumerate 0 (fe_code env)) g2 = Some g3"
    and ep: "epilogue_code ?al (aligned_stack_required env) fr = Some ep"
    and g4: "emit_no_ir r EPILOGUE ep g3 = Some g'"
    using assms by (auto simp: do_goal_function_def Let_def bind_eq_Some_conv)
  obtain P where P: "prologue_code ?al fr = map Some P" "grows (fn_seg r) (fn_func_id r) P g g1"
    using emit_no_ir_grows [OF g1] by blast
  have "adds (fn_seg r) (fn_func_id r) (fold_opt (do_ir print_ir (env_of fe env) r) (enumerate 0 (fe_code env)))"
    by (rule adds_fold) (rule adds_do_ir)
  then obtain B where B: "grows (fn_seg r) (fn_func_id r) B g2 g3" using g3 unfolding adds_def by blast
  obtain E where E: "ep = map Some E" "grows (fn_seg r) (fn_func_id r) E g3 g'"
    using emit_no_ir_grows [OF g4] by blast
  have "grows (fn_seg r) (fn_func_id r) (P @ [] @ B @ E) g g'"
    by (intro grows_trans [OF P(2)] grows_trans [OF set_stack_usage_grows [OF g2]] grows_trans [OF B E(2)])
  then show thesis using that fr P(1) ep E(1) by simp
qed

end
