(* ===== verification/Spill_Example.thy ===== *)
theory Spill_Example
  imports Goal_Codegen Alloc_Example
begin

text \<open>
  A function with one vector that must be on the stack and one stack slot of its own, through the register
  allocator.
\<close>

definition vec :: IRegister where
  "vec = \<lparr>ireg_class = VECTOR_FLOAT, ireg_id = 0\<rparr>"

definition vec_input :: AllocationInput where
  "vec_input = \<lparr>instructions = [example_instr\<lparr>ri_write := [vec]\<rparr>, example_instr\<lparr>ri_read := [vec]\<rparr>], constraints = [],
     force_on_stack_regs = {0}, max_vars = 1, stack_slots_for_stack_vars = 1, is_asm_function = False\<rparr>"

definition vec_block :: "IRegSet list \<Rightarrow> IRegSet list \<Rightarrow> IRegSet \<Rightarrow> IRegSet \<Rightarrow> IRegSet \<Rightarrow> IRegSet \<Rightarrow> RegAllocBasicBlock" where
  "vec_block lv dd us de inp out =
    \<lparr>instr_idx = [0, 1], succ_of = [], pred_of = [], live = lv, dead = dd, use_set = us, defs_set = de,
     input_set = inp, output_set = out, is_entry = True, is_exit = True, block_idx = 0\<rparr>"

definition vec_blocks :: "RegAllocBasicBlock list" where
  "vec_blocks = [vec_block [] [] rs_empty rs_empty rs_empty rs_empty]"

definition vec_blocks1 :: "RegAllocBasicBlock list" where
  "vec_blocks1 = [vec_block [one_word 0, one_word 1] [one_word 1, one_word 0] (one_word 0) (one_word 1) rs_empty rs_empty]"

definition vec_blocks2 :: "RegAllocBasicBlock list" where
  "vec_blocks2 = [vec_block [one_word 0, one_word 1] [one_word 1, one_word 0] (one_word 0) (one_word 1) (one_word 0) (one_word 1)]"

definition vec_blocks3 :: "RegAllocBasicBlock list" where
  "vec_blocks3 = [vec_block [one_word 1, rs_empty] [one_word 1, one_word 0] (one_word 0) (one_word 1) (one_word 0) (one_word 1)]"

lemma vec_find_blocks: "find_basic_blocks (start_cache vec_input) vec_input = Some (new_cache\<lparr>basic_blocks := vec_blocks\<rparr>)"
proof -
  have "map_option basic_blocks (find_basic_blocks (start_cache vec_input) vec_input) = Some vec_blocks" by code_simp
  from find_basic_blocks_frame [OF this] show ?thesis by (simp add: vec_input_def new_cache_def)
qed

lemma vec_phase1: "phase1_all (instructions vec_input) vec_blocks = Some vec_blocks1"
  by code_simp

lemma vec_pass1: "phase2_pass vec_blocks1 = Some (True, vec_blocks2)"
  by code_simp

lemma vec_pass2: "phase2_pass vec_blocks2 = Some (False, vec_blocks2)"
  by code_simp

lemma vec_phase3: "fold_opt phase3 [0 ..< length vec_blocks2] vec_blocks2 = Some vec_blocks3"
  by code_simp

lemma vec_live_passes: "live_passes (instructions vec_input) vec_blocks = Some vec_blocks3"
  by (simp add: live_passes_def vec_phase1 vec_pass1 vec_pass2 vec_phase3 phase2_loop.simps)

definition vec_marks :: "LiveInfo list" where
  "vec_marks = [(new_LiveInfo 2 0)\<lparr>li_min := 0, li_max := 1, indices_of_alive := [0, 1, 0], seen := True\<rparr>]"

lemma vec_blocks_marks:
  "fold_opt (\<lambda>b lrs. do { lrs \<leftarrow> ranges_from_use (instructions vec_input) b lrs; ranges_from_live b lrs }) vec_blocks3
    (replicate 1 (new_LiveInfo 2 0)) = Some vec_marks"
proof -
  have "list_all2 (\<lambda>b vss. length (live b) = length (instr_idx b) \<and> map bits_of (live b) = vss) vec_blocks3 [[[0], []]]"
    by (simp add: vec_blocks3_def vec_block_def example_bits)
  from ranges_from_blocks_bits [OF this] show ?thesis by (simp only:) code_simp
qed

lemma vec_compute:
  "compute_live_ranges (new_cache\<lparr>max_var := 1, was_colored := [False], iregs := [vec], basic_blocks := vec_blocks3\<rparr>) vec_input =
    Some (new_cache\<lparr>max_var := 1, was_colored := [False], iregs := [vec], basic_blocks := vec_blocks3, live_ranges := vec_marks\<rparr>)"
  using vec_blocks_marks by (simp add: compute_live_ranges_def Let_def vec_input_def new_cache_def)

definition vec_ranges :: "LiveInfo list" where
  "vec_ranges =
    [\<lparr>li_min = 0, li_max = 1, is_alive = [True, True], indices_of_alive = [0, 1, 0], li_var = 0, seen = True,
      has_constraint = False, assignment = [no_assignment, no_assignment], best_hint = no_assignment\<rparr>]"

definition vec_cache :: RegAllocCache where
  "vec_cache = new_cache\<lparr>basic_blocks := vec_blocks3, live_ranges := vec_ranges, max_var := 1, was_colored := [False],
    iregs := [vec], stack_ops := [[], []], live_ranges_by_instr := [[0], [0]]\<rparr>"

lemma vec_record: "record_iregs (instructions vec_input) [no_ireg] = Some [vec]"
  by code_simp

lemma vec_prepare: "prepare_all vec_marks = Some vec_ranges"
  by code_simp

lemma vec_index: "index_live_ranges vec_ranges [[], []] = Some [[0], [0]]"
  by code_simp

lemma vec_analyze: "analyze_liveliness (new_cache\<lparr>basic_blocks := vec_blocks\<rparr>) vec_input = Some vec_cache"
proof -
  have e: "max_vars vec_input = 1" "length (instructions vec_input) = 2" by (simp_all add: vec_input_def)
  have n: "iregs new_cache = []" "was_colored new_cache = []" "live_ranges_by_instr new_cache = []" "stack_ops new_cache = []"
    by (simp_all add: new_cache_def)
  show ?thesis
    unfolding analyze_liveliness_steps
    by (simp add: e n vec_record vec_live_passes vec_compute vec_prepare vec_index assert_opt_def
        vec_cache_def resize_list_def numeral_eq_Suc)
qed

definition vec_assigned :: Assignment where
  "vec_assigned = \<lparr>as_kind = REGISTER, as_reg = Reg XMM0, stack_slot = 0, spilled = True\<rparr>"

definition vec_op :: "bool \<Rightarrow> StackOp" where
  "vec_op ld = \<lparr>op_slot = 0, op_reg = Reg XMM0, op_reg_class = VECTOR_FLOAT, op_load = ld, op_store = (\<not> ld)\<rparr>"

definition vec_result :: AllocationResult where
  "vec_result =
    \<lparr>res_ok = True, res_assignment = [[vec_assigned, vec_assigned]],
     ass_as_ranges = [(vec_ranges ! 0)\<lparr>assignment := [vec_assigned, vec_assigned]\<rparr>], used_saved_regs = [],
     stack_slots_for_spills = 2, stack_slots_for_vars = 1, res_stack_ops = [[vec_op False], [vec_op True]],
     needs_aligned_stack_for_spills = True\<rparr>"

lemma vec_colors:
  "(do { cache \<leftarrow> do_constrained_alloc vec_cache vec_input;
      ok \<leftarrow> check_constrained_alloc cache vec_input;
      if \<not> ok then Some new_result
      else do {
        cache \<leftarrow> run_allocator vec_input cache;
        as \<leftarrow> map_opt (\<lambda>i. do { lr \<leftarrow> array_at (live_ranges cache) i; copy_assignments vec_input lr }) [0 .. max_var cache - 1];
        used \<leftarrow> used_saved cache;
        Some (new_result\<lparr>res_ok := True, needs_aligned_stack_for_spills := used_stack cache,
          stack_slots_for_spills := current_stack_slot cache, stack_slots_for_vars := stack_slots_for_stack_vars vec_input,
          res_assignment := as, used_saved_regs := used, ass_as_ranges := live_ranges cache,
          res_stack_ops := stack_ops cache\<rparr>) }}) = Some vec_result"
  by code_simp

lemma vec_allocated: "allocate_registers vec_input = Some vec_result"
proof -
  have s: "is_asm_function vec_input = False" by (simp add: vec_input_def)
  show ?thesis
    unfolding allocate_registers_def Let_def s
    using vec_find_blocks vec_analyze vec_colors by (simp add: s new_cache_def)
qed

end
