(* ===== verification/Codegen_Props.thy ===== *)
theory Codegen_Props
  imports Frame_Correct Codegen_Append Spill_Example
begin

text \<open>
  The properties of code generation: the frame of a function, the constants it loads, and the stack slots
  of spilled vector registers.
\<close>

section \<open>The frame of a function\<close>

lemma saved_gprs_savable: "r \<in> set (m_saved_all gRegInfo) \<Longrightarrow> is_gpr r \<Longrightarrow> r \<in> gpr ` {3, 5, 10, 11, 12}"
proof -
  have "list_all (\<lambda>r. is_gpr r \<longrightarrow> r \<in> set (map gpr [3, 5, 10, 11, 12])) (m_saved_all gRegInfo)" by code_simp
  then show "r \<in> set (m_saved_all gRegInfo) \<Longrightarrow> is_gpr r \<Longrightarrow> r \<in> gpr ` {3, 5, 10, 11, 12}"
    by (auto simp: list_all_iff)
qed

lemma few_saved: "length (m_saved_all gRegInfo) = 13"
  by code_simp

definition reg_num :: "Register \<Rightarrow> nat" where
  "reg_num r = nat (if is_gpr r then m_id r else m_id r - 16)"

lemma reg_num_simps [simp]: "n < 16 \<Longrightarrow> reg_num (gpr n) = n" "n < 16 \<Longrightarrow> reg_num (xmm n) = n"
  by (auto simp: reg_num_def gpr_def xmm_def is_gpr_def)

lemma map_reg_num:
  "\<forall>r \<in> set rs. is_gpr r \<Longrightarrow> map gpr (map reg_num rs) = rs"
  "\<forall>r \<in> set rs. is_xmm r \<Longrightarrow> map xmm (map reg_num rs) = rs"
  by (auto intro!: map_idI elim!: is_gprE is_xmmE)

text \<open>What the register allocator promises of the saved registers.\<close>

definition saved_ok :: "AllocationResult \<Rightarrow> bool" where
  "saved_ok allocs \<longleftrightarrow> distinct (used_saved_regs allocs) \<and> list_all (\<lambda>r. r \<in> set (m_saved_all gRegInfo)) (used_saved_regs allocs)"

lemma saved_ok_saves:
  assumes "saved_ok allocs"
  shows "saves allocs (map reg_num (saved_gprs_of allocs)) (map reg_num (saved_xmms_of allocs))"
proof -
  let ?g = "saved_gprs_of allocs" and ?x = "saved_xmms_of allocs"
  have sub: "set (used_saved_regs allocs) \<subseteq> set (m_saved_all gRegInfo)" and d: "distinct (used_saved_regs allocs)"
    using assms by (auto simp: saved_ok_def list_all_iff)
  have g: "\<forall>r \<in> set ?g. is_gpr r" and x: "\<forall>r \<in> set ?x. is_xmm r" by (auto simp: saved_gprs_of_def saved_xmms_of_def)
  have "length (used_saved_regs allocs) \<le> 13"
    using card_mono [OF _ sub] distinct_card [OF d] card_length [of "m_saved_all gRegInfo"] few_saved by simp
  then have len: "length ?g \<le> 16" "length ?x \<le> 16"
    unfolding saved_gprs_of_def saved_xmms_of_def
    by (meson length_filter_le le_trans numeral_le_iff semiring_norm)+
  have "reg_num r \<in> {3, 5, 10, 11, 12}" if "r \<in> set ?g" for r
  proof -
    have "r \<in> gpr ` {3, 5, 10, 11, 12}" by (rule saved_gprs_savable) (use that sub in \<open>auto simp: saved_gprs_of_def\<close>)
    then show ?thesis by auto
  qed
  then have sv: "savable (map reg_num ?g)" by (fastforce simp: savable_def)
  have xs: "\<forall>n \<in> set (map reg_num ?x). n < 16" using x by (auto elim!: is_xmmE)
  have "distinct (map gpr (map reg_num ?g))" "distinct (map xmm (map reg_num ?x))"
    using d by (simp_all only: map_reg_num(1) [OF g] map_reg_num(2) [OF x]) (simp_all add: saved_gprs_of_def saved_xmms_of_def)
  then have "distinct (map reg_num ?g)" "distinct (map reg_num ?x)" using distinct_map by blast+
  then show ?thesis using map_reg_num(1) [OF g] map_reg_num(2) [OF x] sv xs len by (simp add: saves_def)
qed

text \<open>
  \<open>P\<close> and \<open>E\<close> are a correct prologue and epilogue for a result: a call enters with the stack pointer 8 below a
  multiple of 16. The prologue changes no general register but the stack pointer and no vector register,
  makes room for the stack slots (\<open>size\<close> bytes are the body's), writes only below the stack pointer of the caller,
  and aligns the stack where slots of 16 bytes may be used. If the body leaves the stack pointer and the
  \<open>total - size + 8\<close> bytes of the frame above its own as they were, the epilogue returns to the caller with every
  saved register as it was, and every other register as the body left it.
\<close>

definition returns_ok :: "AllocationResult \<Rightarrow> Instruction list \<Rightarrow> machine \<Rightarrow> machine \<Rightarrow> bool" where
  "returns_ok allocs E s u \<longleftrightarrow>
    (\<exists>t. runs (map Some E) u t \<and> rsp t = rsp s + 8 \<and> rip t = load64 (rsp s) (ram s) \<and> ram t = ram u
       \<and> (\<forall>r \<in> set (used_saved_regs allocs). same_reg s t r)
       \<and> (\<forall>n < 16. n \<noteq> 3 \<longrightarrow> n \<noteq> 4 \<longrightarrow> gpr n \<notin> set (used_saved_regs allocs) \<longrightarrow> gprs t n = gprs u n)
       \<and> (gpr 3 \<notin> set (used_saved_regs allocs) \<longrightarrow> gprs u 3 = gprs s 3 \<longrightarrow> gprs t 3 = gprs s 3)
       \<and> (\<forall>n < 16. xmm n \<notin> set (used_saved_regs allocs) \<longrightarrow> xmms t n = xmms u n))"

definition frame_ok :: "AllocationResult \<Rightarrow> bool \<Rightarrow> Instruction list \<Rightarrow> Instruction list \<Rightarrow> bool" where
  "frame_ok allocs aligned P E \<longleftrightarrow>
    (\<exists>size total. manual_offset allocs \<le> size \<and> size \<le> total \<and>
      (\<forall>s. uint (rsp s) mod 16 = 8 \<longrightarrow>
        (\<exists>b. runs (map Some P) s b \<and> gprs b = (gprs s)(4 := rsp s - word_of_int total) \<and> xmms b = xmms s
           \<and> (needs_frame allocs aligned \<longrightarrow> aligned16 (rsp b)) \<and> same_above (rsp s) 0 (ram s) (ram b)
           \<and> (\<forall>u. rsp u = rsp b \<longrightarrow> same_in (rsp b) size (total + 8) (ram b) (ram u) \<longrightarrow> returns_ok allocs E s u))))"

lemma frame_sizes:
  assumes "make_frame allocs aligned = Some fr" "saves allocs gs xs" "stack_slots_ok allocs"
  shows "manual_offset allocs \<le> fr_manual fr" "fr_stack_offset fr = save_area gs xs + (if fr_bonus_push fr then 8 else fr_manual fr)"
    "fr_manual fr \<le> fr_stack_offset fr" "needs_frame allocs aligned \<Longrightarrow> fr_stack_offset fr mod 16 = 8"
    "fr_bonus_push fr \<Longrightarrow> fr_manual fr = 0"
proof -
  note sz = saves_sizes [OF assms(2)]
  have nn: "0 \<le> save_area gs xs" using sz(5) by (simp add: save_area_def)
  have m: "\<not> needs_frame allocs aligned \<Longrightarrow> manual_offset allocs = 0" by (simp add: needs_frame_def)
  have "manual_offset allocs \<le> fr_manual fr \<and> fr_stack_offset fr = save_area gs xs + (if fr_bonus_push fr then 8 else fr_manual fr)
      \<and> fr_manual fr \<le> fr_stack_offset fr \<and> (needs_frame allocs aligned \<longrightarrow> fr_stack_offset fr mod 16 = 8)
      \<and> (fr_bonus_push fr \<longrightarrow> fr_manual fr = 0)"
    using assms(1,2)
  proof (cases rule: make_frame_cases)
    case none
    then show ?thesis using m nn by simp
  next
    case push
    have "manual_offset allocs = 0" using assms(1) push(1,3) by (auto simp: make_frame_def Let_def bind_eq_Some_conv)
    then show ?thesis using push nn by simp
  next
    case sub
    then show ?thesis using nn by simp
  qed
  then show "manual_offset allocs \<le> fr_manual fr" "fr_stack_offset fr = save_area gs xs + (if fr_bonus_push fr then 8 else fr_manual fr)"
    "fr_manual fr \<le> fr_stack_offset fr" "needs_frame allocs aligned \<Longrightarrow> fr_stack_offset fr mod 16 = 8"
    "fr_bonus_push fr \<Longrightarrow> fr_manual fr = 0" by blast+
qed

lemma frame_correct:
  assumes fr: "make_frame allocs aligned = Some fr" and ok: "saved_ok allocs" "stack_slots_ok allocs"
    and code: "prologue_code allocs fr = map Some P" "epilogue_code allocs aligned fr = Some (map Some E)"
  shows "frame_ok allocs aligned P E"
proof -
  let ?gs = "map reg_num (saved_gprs_of allocs)" and ?xs = "map reg_num (saved_xmms_of allocs)"
  let ?n = "fr_manual fr" and ?off = "fr_stack_offset fr" and ?U = "set (used_saved_regs allocs)"
  note S = saved_ok_saves [OF ok(1)]
  note sz = saves_sizes [OF S]
  have g: "set (saved_gprs_of allocs) = gpr ` set ?gs" and x: "set (saved_xmms_of allocs) = xmm ` set ?xs"
    using S unfolding saves_def by (metis set_map)+
  have small: "\<forall>n \<in> set ?gs. n < 16" "\<forall>n \<in> set ?xs. n < 16" using S by (auto simp: saves_def savable_def)
  have gU: "n \<in> set ?gs \<longleftrightarrow> gpr n \<in> ?U" if "n < 16" for n
  proof -
    have "gpr n \<in> ?U \<longleftrightarrow> gpr n \<in> gpr ` set ?gs" using that unfolding g [symmetric] by (simp add: saved_gprs_of_def)
    then show ?thesis by (auto simp: gpr_def)
  qed
  have xU: "n \<in> set ?xs \<longleftrightarrow> xmm n \<in> ?U" if "n < 16" for n
  proof -
    have "xmm n \<in> ?U \<longleftrightarrow> xmm n \<in> xmm ` set ?xs" using that unfolding x [symmetric] by (simp add: saved_xmms_of_def)
    then show ?thesis by (auto simp: xmm_def)
  qed
  note sizes = frame_sizes [OF fr S ok(2)]
  show ?thesis
    unfolding frame_ok_def
  proof (rule exI [of _ ?n], rule exI [of _ ?off], intro conjI sizes(1,3) allI impI)
    fix s :: machine assume al: "uint (rsp s) mod 16 = 8"
    obtain b where b: "runs (map Some P) s b" "gprs b = (gprs s)(4 := spot (rsp s) (- ?off))" "xmms b = xmms s"
      "same_above (rsp s) 0 (ram s) (ram b)" "saved_in (rsp s) ?gs ?xs s (ram b)"
      "fr_bonus_push fr \<longrightarrow> load64 (spot (rsp s) (- save_area ?gs ?xs - 8)) (ram b) = gprs s 3"
      using prologue_runs [OF fr S ok(2) al] unfolding code(1) by blast
    have al_b: "aligned16 (rsp b)" if "needs_frame allocs aligned"
    proof -
      have "(uint (rsp s) + - ?off) mod 16 = 0" using sizes(4) [OF that] al by presburger
      then show ?thesis by (simp add: b(2) aligned16_uint spot_def uint_add_mod del: of_int_minus)
    qed
    have ep: "returns_ok allocs E s u"
      if u: "rsp u = rsp b" "same_in (rsp b) ?n (?off + 8) (ram b) (ram u)" for u
    proof -
      have keep: "same_in (rsp s) (- ?off + ?n) 8 (ram b) (ram u)"
        using u(2) by (simp add: b(2) same_in_shift)
      have "saved_in (rsp s) ?gs ?xs s (ram u)"
        by (rule saved_in_kept [OF b(5) same_in_mono [OF keep] S]) (use sizes(2,5) in \<open>auto split: if_splits\<close>)
      moreover have "fr_bonus_push fr \<longrightarrow> load64 (spot (rsp s) (- save_area ?gs ?xs - 8)) (ram u) = gprs s 3"
      proof
        assume bp: "fr_bonus_push fr"
        have "get_ram 8 (spot (rsp s) (- save_area ?gs ?xs - 8)) (ram u) = get_ram 8 (spot (rsp s) (- save_area ?gs ?xs - 8)) (ram b)"
          by (rule get_ram_same_in [OF keep]) (use sizes(2,5) [simplified bp] sz(5) in \<open>auto simp: save_area_def\<close>)
        then show "load64 (spot (rsp s) (- save_area ?gs ?xs - 8)) (ram u) = gprs s 3" using b(6) bp by (simp add: load64_def)
      qed
      moreover have "rsp u = spot (rsp s) (- ?off)" by (simp add: u(1) b(2))
      ultimately obtain t where t: "runs (map Some E) u t" "rsp t = rsp s + 8" "rip t = load64 (rsp s) (ram u)" "ram t = ram u"
        "\<And>n. n \<noteq> 4 \<Longrightarrow> gprs t n = (if n \<in> set ?gs \<or> (n = 3 \<and> fr_bonus_push fr) then gprs s n else gprs u n)"
        "\<And>n. xmms t n = (if n \<in> set ?xs then xmms s n else xmms u n)"
        using epilogue_runs [OF fr S ok(2) al code(2)] by blast
      have "same_above (rsp s) 0 (ram s) (ram b)" by (rule b(4))
      then have "get_ram 8 (spot (rsp s) 0) (ram b) = get_ram 8 (spot (rsp s) 0) (ram s)"
        by (rule get_ram_above) (simp_all add: near_def)
      moreover have "get_ram 8 (spot (rsp s) 0) (ram u) = get_ram 8 (spot (rsp s) 0) (ram b)"
        by (rule get_ram_same_in [OF keep]) (use sizes(3) in auto)
      ultimately have "rip t = load64 (rsp s) (ram s)" using t(3) by (simp add: load64_def)
      moreover have "4 \<notin> set ?gs" using S by (auto simp: saves_def savable_def)
      then have "same_reg s t r" if "r \<in> ?U" for r
        unfolding same_reg_def
      proof (intro allI impI conjI)
        fix n :: nat assume n: "n < 16"
        show "gprs t n = gprs s n" if "r = gpr n"
          using \<open>r \<in> ?U\<close> that gU [OF n] t(5) [of n] \<open>4 \<notin> set ?gs\<close> by (cases "n = 4") (simp_all del: set_map)
        show "xmms t n = xmms s n" if "r = xmm n" using \<open>r \<in> ?U\<close> that xU [OF n] t(6) [of n] by (simp del: set_map)
      qed
      ultimately show ?thesis unfolding returns_ok_def using t(1,2,4,5,6) gU xU by (intro exI [of _ t]) (simp del: set_map)
    qed
    show "\<exists>b. runs (map Some P) s b \<and> gprs b = (gprs s)(4 := rsp s - word_of_int ?off) \<and> xmms b = xmms s
           \<and> (needs_frame allocs aligned \<longrightarrow> aligned16 (rsp b)) \<and> same_above (rsp s) 0 (ram s) (ram b)
           \<and> (\<forall>u. rsp u = rsp b \<longrightarrow> same_in (rsp b) ?n (?off + 8) (ram b) (ram u) \<longrightarrow> returns_ok allocs E s u)"
    proof (intro exI [of _ b] conjI allI impI)
      show "gprs b = (gprs s)(4 := rsp s - word_of_int ?off)" by (simp add: b(2) spot_def)
    qed (use b(1,3,4) al_b ep in simp_all)
  qed
qed

text \<open>The allocator reports every saved register once.\<close>

lemma distinct_saved_all: "distinct (m_saved_all gRegInfo)"
  by code_simp

lemma used_saved_ok:
  assumes "used_saved c = Some us"
  shows "distinct us \<and> set us \<subseteq> set (m_saved_all gRegInfo)"
proof -
  let ?f = "\<lambda>sr used. do { u \<leftarrow> uses_saved c sr; Some (if u then used @ [sr] else used) }"
  have "fold_opt ?f rs acc = Some us \<Longrightarrow> distinct (acc @ rs) \<Longrightarrow> distinct us \<and> set us \<subseteq> set acc \<union> set rs" for rs acc
  proof (induction rs arbitrary: acc)
    case (Cons r rs)
    obtain u where u: "uses_saved c r = Some u" "fold_opt ?f rs (if u then acc @ [r] else acc) = Some us"
      using Cons.prems(1) by (auto simp: bind_eq_Some_conv)
    have "distinct us \<and> set us \<subseteq> set (if u then acc @ [r] else acc) \<union> set rs"
      using Cons.prems(2) by (intro Cons.IH [OF u(2)]) auto
    then show ?case by (auto split: if_splits)
  qed simp
  from this [of "m_saved_all gRegInfo" "[]"] assms show ?thesis
    using distinct_saved_all by (simp add: used_saved_def)
qed

lemma allocated_saved_ok: "allocate_registers inp = Some res \<Longrightarrow> saved_ok res"
  using used_saved_ok
  by (force simp: allocate_registers_def Let_def bind_eq_Some_conv saved_ok_def new_result_def list_all_iff split: if_splits)

text \<open>
  C14. The code of a function is a prologue, a body and an epilogue behind what the function had, and prologue
  and epilogue keep the calling convention (\<open>frame_ok\<close>), for the result of the register allocator.
\<close>

theorem goal_function_frame:
  assumes "do_goal_function print_ir fe env f_idx g = Some g'"
    and "get_existing_function_record g f_idx = Some r" "get_function g (fn_seg r) (fn_func_id r) = Some f"
    and "allocate_registers inp = Some (fe_alloc_result env)" "stack_slots_ok (fe_alloc_result env)"
  shows "\<exists>f' P B E. get_function g' (fn_seg r) (fn_func_id r) = Some f' \<and> fd_instructions f' = fd_instructions f @ P @ B @ E
    \<and> frame_ok (fe_alloc_result env) (aligned_stack_required env) P E"
proof -
  obtain fr P B E where s: "make_frame (fe_alloc_result env) (aligned_stack_required env) = Some fr"
    "prologue_code (fe_alloc_result env) fr = map Some P"
    "epilogue_code (fe_alloc_result env) (aligned_stack_required env) fr = Some (map Some E)"
    "grows (fn_seg r) (fn_func_id r) (P @ B @ E) g g'"
    using do_goal_function_shape [OF assms(1,2)] .
  have "frame_ok (fe_alloc_result env) (aligned_stack_required env) P E"
    by (rule frame_correct [OF s(1) allocated_saved_ok [OF assms(4)] assms(5) s(2,3)])
  then show ?thesis using s(4) assms(3) unfolding grows_def by blast
qed

definition vec_function :: FunctionEnv where
  "vec_function = (new_FunctionEnv ''f'')\<lparr>fe_segment := MAIN_SEGMENT, fe_code := [IR_Nop, IR_Nop], fe_alloc_result := vec_result\<rparr>"

definition vec_file :: FileEnv where
  "vec_file = add_top_level_function vec_function (new_FileEnv ''file'')"

definition vec_generator :: "ObjectGenerator option" where
  "vec_generator = map_option snd (add_function_to_seg MAIN_SEGMENT (new_FunctionDebugInfo ''f'') 16 new_ObjectGenerator)"

theorem goal_function_frame_witness:
  "\<exists>f P B E. get_function (the (do_goal_function (\<lambda>_. ''nop'') vec_file vec_function 0 (the vec_generator))) 0 0 = Some f
    \<and> fd_instructions f = P @ B @ E \<and> frame_ok vec_result False P E"
proof -
  let ?m = "do_goal_function (\<lambda>_. ''nop'') vec_file vec_function 0 (the vec_generator)"
  have n: "?m \<noteq> None" by code_simp
  have r: "map_option (\<lambda>r. (fn_seg r, fn_func_id r)) (get_existing_function_record (the vec_generator) 0) = Some (0, 0)" by code_simp
  have f: "map_option fd_instructions (get_function (the vec_generator) 0 0) = Some []" by code_simp
  obtain r where r: "get_existing_function_record (the vec_generator) 0 = Some r" "fn_seg r = 0" "fn_func_id r = 0"
    using r by auto
  obtain f where f: "get_function (the vec_generator) 0 0 = Some f" "fd_instructions f = []" using f by auto
  obtain g' where g': "?m = Some g'" using n by auto
  have a: "fe_alloc_result vec_function = vec_result" "aligned_stack_required vec_function = False"
    by (simp_all add: vec_function_def new_FunctionEnv_def)
  have ok: "stack_slots_ok vec_result" by (simp add: stack_slots_ok_def manual_offset_def vec_result_def GPR_SIZE_def)
  show ?thesis
    using goal_function_frame [of "\<lambda>_. ''nop''" vec_file vec_function 0 "the vec_generator" g' r f vec_input]
      g' r f vec_allocated ok by (simp add: a)
qed

section \<open>Constants\<close>

lemma small_uint: "0 \<le> sint v \<Longrightarrow> uint v = sint v" for v :: u64
proof -
  assume nn: "0 \<le> sint v"
  have "uint v = uint (word_of_int (sint v) :: u64)" by simp
  also have "\<dots> = take_bit 64 (sint v)" by (simp only: unsigned_of_int len_of_numeral_defs) simp
  also have "\<dots> = sint v" using nn sint_lt [of v] by (intro take_bit_int_eq_self) simp_all
  finally show "uint v = sint v" .
qed

lemma zero_extended: "uint v < 2 ^ 32 \<Longrightarrow> ucast (ucast v :: u32) = v" for v :: u64
  by (simp add: word_uint_eq_iff unsigned_ucast_eq unsigned_take_bit_eq take_bit_int_eq_self)

lemma runs_mov64: "encodes i (Insn MOV [Gpr 64 d, ImmI (sint v)]) \<Longrightarrow> runs [i] s (set_gpr d v s)" for v :: u64
  by (erule runs_one) simp

lemma runs_load_constant:
  assumes "d < 16"
  shows "runs [load_constant v (gpr d)] s (set_gpr d v s)"
proof -
  consider (zero) "sint v = 0" | (u32) "0 < sint v" "sint v < 4294967295" | (big) "4294967295 \<le> sint v"
    | (s32) "sint v < 0" "- 2147483648 \<le> sint v" | (neg) "sint v < - 2147483648"
    by linarith
  then show ?thesis
  proof cases
    case zero
    moreover have "v = word_of_int (sint v)" by simp
    ultimately have "v = 0" by (simp only: word_of_int_0)
    then show ?thesis unfolding load_constant_def
      by (intro runs_one [of _ "Insn XOR_OP [Gpr 64 d, Gpr 64 d]"]) (simp_all add: enc_xor_gpr64_gpr64 assms)
  next
    case u32
    then have u: "uint v < 2 ^ 32" using small_uint [of v] by simp
    then have "encodes (load_constant v (gpr d)) (Insn MOV [Gpr 32 d, ImmI (sint (ucast v :: u32))])"
      using u32 assms by (simp add: load_constant_def enc_mov_gpr64_u32 word_le_def)
    then show ?thesis by (rule runs_one) (simp add: zero_extended [OF u])
  qed (use assms in \<open>auto simp: load_constant_def fits_s32_def intro!: runs_mov64 enc_mov_gpr64_u64 enc_mov_gpr64_s32\<close>)
qed

text \<open>
  C15. Whatever instruction \<^verbatim>\<open>load_constant\<close> picks (\<^verbatim>\<open>xor\<close>, a 32-bit move that zero extends, a sign-extended move or
  a 64-bit move), the register holds the constant afterwards and nothing else has changed.
\<close>

theorem load_constant_loads:
  assumes "is_gpr r"
  shows "\<forall>s. runs [load_constant v r] s (set_gpr (reg_num r) v s)"
  using assms by (elim is_gprE) (simp add: runs_load_constant)

theorem load_constant_loads_witness:
  "\<forall>s. runs [load_constant 0xffffffff (Reg RCX)] s (set_gpr (reg_num (Reg RCX)) 0xffffffff s)"
  by (rule load_constant_loads) code_simp

section \<open>Spilled vectors\<close>

text \<open>The machine at the entry of a function: a call pushed the return address on an aligned stack.\<close>

definition called_at :: "int \<Rightarrow> machine \<Rightarrow> machine" where
  "called_at k s = set_gpr 4 (word_of_int (16 * k + 8)) s"

lemma vec_prologue:
  defines "fr \<equiv> \<lparr>fr_manual = 24, fr_bonus_push = False, fr_stack_offset = 24, fr_align_code = [sub_gpr64_imm (Reg RSP) 24]\<rparr>"
  shows "make_frame vec_result False = Some fr" "prologue_code vec_result fr = [sub_gpr64_imm (Reg RSP) 24]"
proof -
  have m: "manual_offset vec_result = 24" "saved_gprs_of vec_result = []" "saved_xmms_of vec_result = []"
    "needs_frame vec_result False"
    by (simp_all add: manual_offset_def vec_result_def GPR_SIZE_def saved_gprs_of_def saved_xmms_of_def needs_frame_def)
  show "make_frame vec_result False = Some fr"
    by (simp add: make_frame_def m stack_offset_of_def n_xmm_backups_def fr_def)
  show "prologue_code vec_result fr = [sub_gpr64_imm (Reg RSP) 24]"
    by (simp add: prologue_code_def xmm_backup_code_def gpr_backup_code_def n_xmm_backups_def m fr_def)
qed

lemma vec_enters:
  "runs [sub_gpr64_imm (Reg RSP) 24] (called_at k s) (set_gpr 4 (spot 0 (16 * k - 16)) (called_at k s))"
proof (rule runs_one)
  show "encodes (sub_gpr64_imm (Reg RSP) 24) (Insn SUB [Gpr 64 4, ImmI 24])"
    using enc_sub_imm [of 4 24] by (simp add: fits_s32_def)
  have c: "called_at k s = set_gpr 4 (spot 0 (16 * k + 8)) s" by (simp add: called_at_def spot_def)
  show "exec (Insn SUB [Gpr 64 4, ImmI 24]) (called_at k s) = Some (set_gpr 4 (spot 0 (16 * k - 16)) (called_at k s))"
    by (simp add: c set_gpr_def spot_numeral del: of_int_add of_int_mult)
qed

lemma vec_store_faults:
  assumes "rsp b = spot 0 (16 * k - 16)"
  shows "\<not> (\<exists>t. runs [spill_store vec_result (vec_op False)] b t)"
proof -
  let ?x = "Insn MOVDQA [Mem 128 (Some 4) None 8, Xmm 0]"
  have x0: "Reg XMM0 = xmm 0" by code_simp
  have st: "encodes (spill_store vec_result (vec_op False)) ?x"
    using enc_store128_offset [of 4 0 8]
    by (simp add: spill_store_def get_slot_for_spill_def vec_op_def vec_result_def x0 GPR_SIZE_def is_xmm128_class_def fits_s32_def)
  have "mem_addr (gprs b) (Mem 128 (Some 4) None 8) = spot 0 (16 * k - 8)"
    by (simp add: assms spot_numeral)
  moreover have "\<not> aligned16 (spot 0 (16 * k - 8))"
    unfolding aligned16_uint spot_def uint_add_mod by simp presburger
  ultimately have "exec ?x b = None" by (simp del: mem_addr.simps)
  moreover have "xs = [?x]" if "list_all2 encodes [spill_store vec_result (vec_op False)] xs" for xs
    using that encodes_unique [OF st] by (auto simp: list_all2_Cons1)
  ultimately show ?thesis by (fastforce simp: runs_def)
qed


end
