(* ===== verification/Function_Build.thy ===== *)
theory Function_Build
  imports Goal_Codegen Alloc_Result
begin

text \<open>
  How the compiler fills in a function, one operation of \<^verbatim>\<open>FunctionEnv\<close> after the other, and that
  the function is then an input the register allocator is correct for.
\<close>

section \<open>More operations\<close>

definition on_reg :: "reg \<Rightarrow> (RegVal \<Rightarrow> RegVal) \<Rightarrow> FunctionEnv \<Rightarrow> FunctionEnv" where
  "on_reg k u f = f\<lparr>fe_iregs := (fe_iregs f)[k := u (fe_iregs f ! k)]\<rparr>"

definition set_rlet_constraint :: "reg \<Rightarrow> Register \<Rightarrow> FunctionEnv \<Rightarrow> FunctionEnv" where
  "set_rlet_constraint k r = on_reg k (\<lambda>rv. rv\<lparr>rlet_constraint := Some r\<rparr>)"

definition force_on_stack :: "reg \<Rightarrow> FunctionEnv \<Rightarrow> FunctionEnv" where
  "force_on_stack k = on_reg k (\<lambda>rv. rv\<lparr>forced_on_stack := True\<rparr>)"

definition change_class :: "reg \<Rightarrow> RegClass \<Rightarrow> FunctionEnv \<Rightarrow> FunctionEnv" where
  "change_class k c = on_reg k (\<lambda>rv. rv\<lparr>rv_ireg := (rv_ireg rv)\<lparr>ireg_class := c\<rparr>\<rparr>)"

text \<open>\<^verbatim>\<open>compile_when_goto\<close>, once the condition is compiled; the branch has a label of its own until it is resolved.\<close>

definition add_cond_goto :: "Condition \<Rightarrow> string \<Rightarrow> FunctionEnv \<Rightarrow> FunctionEnv option" where
  "add_cond_goto c name f =
    (let (l, f) = alloc_unnamed_label f in
     emit_ir (IR_ConditionalBranch c l False)
       (f\<lparr>unresolved_cond_gotos := unresolved_cond_gotos f @ [(length (fe_code f), name)]\<rparr>))"

section \<open>What an instruction refers to\<close>

primrec ir_regs :: "IR \<Rightarrow> reg list" where
  "ir_regs (IR_Return a b _) = [a, b]"
| "ir_regs (IR_LoadConstant64 a _) = [a]"
| "ir_regs (IR_LoadSymbolPointer a _) = [a]"
| "ir_regs (IR_SetSymbolValue _ b) = [b]"
| "ir_regs (IR_GetSymbolValue a _ _) = [a]"
| "ir_regs (IR_RegSet a b) = [a, b]"
| "ir_regs (IR_FunctionCall a b c _ _) = [a, b] @ c"
| "ir_regs (IR_RegValAddr a b) = [a, b]"
| "ir_regs (IR_StaticVarAddr a _) = [a]"
| "ir_regs (IR_StaticVarLoad a _) = [a]"
| "ir_regs (IR_FunctionAddr a _) = [a]"
| "ir_regs (IR_IntegerMath _ b c _) = [b] @ (case_option [] (\<lambda>r. [r]) c)"
| "ir_regs (IR_FloatMath _ b c) = [b, c]"
| "ir_regs (IR_GotoLabel _) = []"
| "ir_regs (IR_ConditionalBranch a _ _) = [c_a a, c_b a]"
| "ir_regs IR_Null = []"
| "ir_regs (IR_ValueReset a) = a"
| "ir_regs (IR_FloatToInt a b) = [a, b]"
| "ir_regs (IR_IntToFloat a b) = [a, b]"
| "ir_regs (IR_GetStackAddr a _) = [a]"
| "ir_regs IR_Nop = []"
| "ir_regs (IR_LoadConstOffset a _ c _ _) = [a, c]"
| "ir_regs (IR_StoreConstOffset a _ c _ _) = [a, c]"
| "ir_regs (IR_AsmRet _) = []"
| "ir_regs IR_AsmFNop = []"
| "ir_regs IR_AsmFWait = []"
| "ir_regs (IR_AsmPush _ b) = [b]"
| "ir_regs (IR_AsmPop _ b) = [b]"
| "ir_regs (IR_AsmSub _ b c) = [b, c]"
| "ir_regs (IR_AsmAdd _ b c) = [b, c]"
| "ir_regs (IR_GetSymbolValueAsm _ b _ _) = [b]"
| "ir_regs (IR_JumpReg _ b) = [b]"
| "ir_regs (IR_RegSetAsm _ b c) = [b, c]"
| "ir_regs (IR_VFMath3Asm _ b c d _) = [b, c, d]"
| "ir_regs (IR_Int128Math3Asm _ b c d _) = [b, c, d]"
| "ir_regs (IR_VFMath2Asm _ b c _) = [b, c]"
| "ir_regs (IR_Int128Math2Asm _ b c _ _) = [b, c]"
| "ir_regs (IR_BlendVF _ b c d _) = [b, c, d]"
| "ir_regs (IR_SplatVF _ b c _) = [b, c]"
| "ir_regs (IR_SwizzleVF _ b c _) = [b, c]"
| "ir_regs (IR_SqrtVF _ b c) = [b, c]"

definition ir_labels :: "IR \<Rightarrow> label list" where
  "ir_labels ir = (case ir of IR_GotoLabel d \<Rightarrow> (case d of Some l \<Rightarrow> [l] | None \<Rightarrow> []) | IR_ConditionalBranch _ l _ \<Rightarrow> [l] | _ \<Rightarrow> [])"

text \<open>Jumps have their label, and the second operand of an operation is there when it has one.\<close>

definition complete :: "IR \<Rightarrow> bool" where
  "complete ir \<longleftrightarrow>
    (case ir of
       IR_GotoLabel d \<Rightarrow> d \<noteq> None
     | IR_ConditionalBranch _ _ resolved \<Rightarrow> resolved
     | IR_IntegerMath kind _ arg _ \<Rightarrow> arg \<noteq> None \<or> kind \<in> {NOT_64, SHL_64, SAR_64, SHR_64}
     | _ \<Rightarrow> True)"

text \<open>
  The functions that the operations build. An instruction refers to variables and labels of the function;
  a constraint is on a variable of the function, anywhere or at an instruction up to the next one. The
  compiler makes the label of a branch before it knows where the label is.
\<close>

inductive compiled :: "FunctionEnv \<Rightarrow> bool" where
  start: "compiled (new_FunctionEnv name)"
| ireg: "compiled f \<Longrightarrow> make_ireg c f = Some (r, f') \<Longrightarrow> compiled f'"
| rlet: "compiled f \<Longrightarrow> compiled (set_rlet_constraint k reg f)"
| stack: "compiled f \<Longrightarrow> compiled (force_on_stack k f)"
| regclass: "compiled f \<Longrightarrow> compiled (change_class k c f)"
| emit: "compiled f \<Longrightarrow> list_all (\<lambda>k. k < length (fe_iregs f)) (ir_regs ir) \<Longrightarrow> list_all (\<lambda>l. l < length (fe_label_idx f)) (ir_labels ir) \<Longrightarrow>
    complete ir \<Longrightarrow> emit_ir ir f = Some f' \<Longrightarrow> compiled f'"
| constraint: "compiled f \<Longrightarrow> k < length (fe_iregs f) \<Longrightarrow> con_ireg c = rv_ireg (fe_iregs f ! k) \<Longrightarrow>
    contrain_everywhere c \<or> 0 \<le> con_instr_idx c \<and> con_instr_idx c \<le> int (length (fe_code f)) \<Longrightarrow> compiled (constrain c f)"
| label: "compiled f \<Longrightarrow> alloc_unnamed_label f = (l, f') \<Longrightarrow> compiled f'"
| place: "compiled f \<Longrightarrow> compiled (place_label l f)"
| named_label: "compiled f \<Longrightarrow> add_label name f = Some f' \<Longrightarrow> compiled f'"
| goto: "compiled f \<Longrightarrow> add_goto name f = Some f' \<Longrightarrow> compiled f'"
| cond_goto: "compiled f \<Longrightarrow> c_a c < length (fe_iregs f) \<Longrightarrow> c_b c < length (fe_iregs f) \<Longrightarrow> add_cond_goto c name f = Some f' \<Longrightarrow> compiled f'"
| stack_var: "compiled f \<Longrightarrow> allocate_stack_variable n f = (v, f') \<Longrightarrow> compiled f'"
| aligned_stack_var: "compiled f \<Longrightarrow> allocate_aligned_stack_variable n a f = Some (v, f') \<Longrightarrow> compiled f'"

section \<open>The invariant\<close>

definition ir_ok :: "nat \<Rightarrow> nat \<Rightarrow> IR \<Rightarrow> bool" where
  "ir_ok n m ir \<longleftrightarrow> (\<forall>k \<in> set (ir_regs ir). k < n) \<and> (\<forall>l \<in> set (ir_labels ir). l < m)"

definition pending :: "FunctionEnv \<Rightarrow> nat \<Rightarrow> bool" where
  "pending f i \<longleftrightarrow>
    (fe_code f ! i = IR_GotoLabel None \<and> i \<in> fst ` set (unresolved_gotos f)) \<or>
    ((\<exists>c l. fe_code f ! i = IR_ConditionalBranch c l False) \<and> i \<in> fst ` set (unresolved_cond_gotos f))"

definition fn_ok :: "FunctionEnv \<Rightarrow> bool" where
  "fn_ok f \<longleftrightarrow>
    (\<forall>k < length (fe_iregs f). ireg_id (rv_ireg (fe_iregs f ! k)) = int k) \<and>
    (\<forall>x \<in> set (fe_label_idx f). x \<le> int (length (fe_code f))) \<and>
    (\<forall>name l. fe_labels f name = Some l \<longrightarrow> l < length (fe_label_idx f)) \<and>
    (\<forall>ir \<in> set (fe_code f). ir_ok (length (fe_iregs f)) (length (fe_label_idx f)) ir) \<and>
    (\<forall>i < length (fe_code f). complete (fe_code f ! i) \<or> pending f i) \<and>
    (\<forall>c \<in> set (fe_constraints f). 0 \<le> ireg_id (con_ireg c) \<and> ireg_id (con_ireg c) < int (length (fe_iregs f)) \<and>
      (contrain_everywhere c \<or> 0 \<le> con_instr_idx c \<and> con_instr_idx c \<le> int (length (fe_code f))))"

lemma ir_ok_mono: "ir_ok n m ir \<Longrightarrow> n \<le> n' \<Longrightarrow> m \<le> m' \<Longrightarrow> ir_ok n' m' ir"
  by (fastforce simp: ir_ok_def)

lemma fn_ok_cong:
  assumes "fn_ok f" "fe_iregs f' = fe_iregs f" "fe_label_idx f' = fe_label_idx f" "fe_labels f' = fe_labels f"
    "fe_code f' = fe_code f" "fe_constraints f' = fe_constraints f" "unresolved_gotos f' = unresolved_gotos f"
    "unresolved_cond_gotos f' = unresolved_cond_gotos f"
  shows "fn_ok f'"
  using assms by (simp add: fn_ok_def pending_def)

lemma ids_of_regs: "fn_ok f \<Longrightarrow> k < length (fe_iregs f) \<Longrightarrow> ireg_id (rv_ireg (fe_iregs f ! k)) = int k"
  by (simp add: fn_ok_def)

text \<open>The constraints of an instruction are on its operands, at its place.\<close>

lemma add_constraints_new:
  assumes "add_constraints regs i ir cs = Some cs'" "c \<in> set cs'" "c \<notin> set cs"
  shows "con_instr_idx c = i \<and> (\<exists>k \<in> set (ir_regs ir). con_ireg c = rv_ireg (regs ! k))"
  using assms
  by (cases ir) (auto simp: add_constraints_def constrain_at_def bind_eq_Some_conv split: option.splits, (metis set_zip_leftD)+)

lemma add_constraints_old: "add_constraints regs i ir cs = Some cs' \<Longrightarrow> set cs \<subseteq> set cs'"
  by (cases ir) (auto simp: add_constraints_def bind_eq_Some_conv)

lemma emit_ok:
  assumes ok: "fn_ok f" and e: "emit_ir ir f = Some f'"
    and ir: "ir_ok (length (fe_iregs f)) (length (fe_label_idx f)) ir" "complete ir \<or> pending (f\<lparr>fe_code := fe_code f @ [ir]\<rparr>) (length (fe_code f))"
  shows "fn_ok f'"
proof -
  obtain cs where cs: "add_constraints (fe_iregs f) (int (length (fe_code f))) ir (fe_constraints f) = Some cs"
    and f': "f' = f\<lparr>fe_constraints := cs, fe_code := fe_code f @ [ir]\<rparr>"
    using e by (auto simp: emit_ir_def bind_eq_Some_conv)
  have con: "0 \<le> ireg_id (con_ireg c) \<and> ireg_id (con_ireg c) < int (length (fe_iregs f)) \<and>
      (contrain_everywhere c \<or> 0 \<le> con_instr_idx c \<and> con_instr_idx c \<le> int (length (fe_code f)))" if "c \<in> set cs" for c
  proof (cases "c \<in> set (fe_constraints f)")
    case True
    then show ?thesis using ok by (simp add: fn_ok_def)
  next
    case False
    from add_constraints_new [OF cs that this] obtain k where "k \<in> set (ir_regs ir)" "con_ireg c = rv_ireg (fe_iregs f ! k)"
      "con_instr_idx c = int (length (fe_code f))" by blast
    then show ?thesis using ir(1) ids_of_regs [OF ok, of k] by (simp add: ir_ok_def)
  qed
  have pend: "complete (fe_code f' ! i) \<or> pending f' i" if "i < length (fe_code f')" for i
  proof (cases "i < length (fe_code f)")
    case True
    then show ?thesis using ok by (auto simp: fn_ok_def pending_def f' nth_append)
  next
    case False
    then have "i = length (fe_code f)" using that by (simp add: f')
    then show ?thesis using ir(2) by (auto simp: f' pending_def)
  qed
  show ?thesis
    unfolding fn_ok_def
    using ok ir(1) con pend by (fastforce simp: fn_ok_def f')
qed

lemma on_reg_ok:
  assumes "fn_ok f" "\<And>rv. ireg_id (rv_ireg (u rv)) = ireg_id (rv_ireg rv)"
  shows "fn_ok (on_reg k u f)"
  using assms by (cases "k < length (fe_iregs f)") (auto simp: fn_ok_def on_reg_def pending_def nth_list_update list_update_beyond)

lemma alloc_label_ok:
  assumes "fn_ok f" "alloc_unnamed_label f = (l, f')"
  shows "fn_ok f'" "l < length (fe_label_idx f')" "fe_code f' = fe_code f" "fe_iregs f' = fe_iregs f" "fe_labels f' = fe_labels f"
proof -
  have f': "l = length (fe_label_idx f)" "f' = f\<lparr>fe_label_idx := fe_label_idx f @ [- 1]\<rparr>"
    using assms(2) by (auto simp: alloc_unnamed_label_def)
  have "ir_ok n (Suc m) ir" if "ir_ok n m ir" for n m ir using that by (rule ir_ok_mono) simp_all
  then show "fn_ok f'" using assms(1) unfolding fn_ok_def f' pending_def by (simp add: less_SucI)
qed (use assms(2) in \<open>auto simp: alloc_unnamed_label_def\<close>)

lemma place_label_ok: "fn_ok f \<Longrightarrow> fn_ok (place_label l f)"
  by (auto simp: place_label_def fn_ok_def pending_def dest!: set_update_subset_insert [THEN subsetD])

lemma add_label_ok:
  assumes "fn_ok f" "add_label name f = Some f'"
  shows "fn_ok f'"
proof -
  obtain l f1 where l: "alloc_unnamed_label f = (l, f1)" by (cases "alloc_unnamed_label f")
  note ok = alloc_label_ok [OF assms(1) l]
  have "f' = place_label l (f1\<lparr>fe_labels := (fe_labels f1)(name \<mapsto> l)\<rparr>)"
    using assms(2) l by (auto simp: add_label_def bind_eq_Some_conv)
  moreover have "fn_ok (f1\<lparr>fe_labels := (fe_labels f1)(name \<mapsto> l)\<rparr>)"
    using ok(1,2) by (simp add: fn_ok_def pending_def)
  ultimately show ?thesis by (simp add: place_label_ok)
qed

lemma more_pending_ok:
  "fn_ok f \<Longrightarrow> fn_ok (f\<lparr>unresolved_gotos := unresolved_gotos f @ xs\<rparr>)"
  "fn_ok f \<Longrightarrow> fn_ok (f\<lparr>unresolved_cond_gotos := unresolved_cond_gotos f @ ys\<rparr>)"
  unfolding fn_ok_def pending_def by (simp_all add: image_Un) blast+

lemma compiled_ok: "compiled f \<Longrightarrow> fn_ok f"
proof (induction rule: compiled.induct)
  case (start name)
  show ?case by (simp add: new_FunctionEnv_def fn_ok_def)
next
  case (ireg f c r f')
  then have f': "f' = f\<lparr>fe_iregs := fe_iregs f @
      [\<lparr>rv_ireg = \<lparr>ireg_class = c, ireg_id = int (length (fe_iregs f))\<rparr>, rlet_constraint = None, forced_on_stack = False\<rparr>]\<rparr>"
    by (auto simp: make_ireg_def bind_eq_Some_conv)
  have "ir_ok (Suc n) m ir" if "ir_ok n m ir" for n m ir using that by (rule ir_ok_mono) simp_all
  then show ?case using ireg.IH unfolding fn_ok_def f' pending_def by (auto simp: nth_append less_Suc_eq)
next
  case (rlet f k reg)
  show ?case unfolding set_rlet_constraint_def by (rule on_reg_ok [OF rlet.IH]) simp
next
  case (stack f k)
  show ?case unfolding force_on_stack_def by (rule on_reg_ok [OF stack.IH]) simp
next
  case (regclass f k c)
  show ?case unfolding change_class_def by (rule on_reg_ok [OF regclass.IH]) simp
next
  case (emit f ir f')
  then show ?case by (intro emit_ok [OF emit.IH emit.hyps(5)]) (auto simp: ir_ok_def list_all_iff)
next
  case (constraint f k c)
  then show ?case by (auto simp: fn_ok_def constrain_def pending_def)
next
  case (goto name f f')
  then show ?case
    unfolding add_goto_def by (elim emit_ok [OF more_pending_ok(1)]) (auto simp: ir_ok_def ir_labels_def pending_def)
next
  case (cond_goto f c name f')
  obtain l f1 where l: "alloc_unnamed_label f = (l, f1)" by (cases "alloc_unnamed_label f")
  note ok = alloc_label_ok [OF cond_goto.IH l]
  have e: "emit_ir (IR_ConditionalBranch c l False)
      (f1\<lparr>unresolved_cond_gotos := unresolved_cond_gotos f1 @ [(length (fe_code f1), name)]\<rparr>) = Some f'"
    using cond_goto.hyps l by (simp add: add_cond_goto_def)
  show ?case
    by (rule emit_ok [OF more_pending_ok(2) [OF ok(1)] e])
      (use ok cond_goto.hyps in \<open>auto simp: ir_ok_def ir_labels_def pending_def\<close>)
next
  case (stack_var f n v f')
  then show ?case by (auto simp: allocate_stack_variable_def require_aligned_stack_def Let_def intro: fn_ok_cong)
next
  case (aligned_stack_var f n a v f')
  then show ?case
    by (auto simp: allocate_aligned_stack_variable_def require_aligned_stack_def Let_def bind_eq_Some_conv intro: fn_ok_cong)
next
  case (label f l f')
  show ?case by (rule alloc_label_ok(1) [OF label.IH label.hyps(2)])
next
  case (place f l)
  show ?case by (rule place_label_ok [OF place.IH])
next
  case (named_label f name f')
  show ?case by (rule add_label_ok [OF named_label.IH named_label.hyps(2)])
qed

section \<open>Resolving gotos\<close>

text \<open>What one resolution does to the code, whichever kind it is.\<close>

definition resolves :: "nat \<Rightarrow> nat \<Rightarrow> (nat \<times> string \<Rightarrow> IR list \<Rightarrow> IR list option) \<Rightarrow> bool" where
  "resolves n m r \<longleftrightarrow>
    (\<forall>gt c c'. r gt c = Some c' \<longrightarrow> (\<forall>ir \<in> set c. ir_ok n m ir) \<longrightarrow>
      length c' = length c \<and> (\<forall>ir \<in> set c'. ir_ok n m ir) \<and> complete (c' ! fst gt) \<and>
      (\<forall>i. complete (c ! i) \<longrightarrow> complete (c' ! i)))"

lemma array_at_cases: "array_at xs (int i) = Some x \<Longrightarrow> i < length xs \<and> xs ! i = x"
  by (auto simp: array_at_def split: if_splits)

lemma complete_update: "i < length c \<Longrightarrow> complete x \<Longrightarrow> complete (c ! k) \<Longrightarrow> complete (c[i := x] ! k)"
  by (cases "k = i") simp_all

lemma resolve_goto_resolves:
  assumes "\<forall>name l. labels name = Some l \<longrightarrow> l < m"
  shows "resolves n m (resolve_goto labels)"
  unfolding resolves_def
proof (intro allI impI)
  fix gt c c'
  assume r: "resolve_goto labels gt c = Some c'" and ok: "\<forall>ir \<in> set c. ir_ok n m ir"
  then obtain l where "labels (snd gt) = Some l" "fst gt < length c"
    "(case c ! fst gt of IR_GotoLabel None \<Rightarrow> Some (c[fst gt := IR_GotoLabel (Some l)]) | _ \<Rightarrow> None) = Some c'"
    by (auto simp: resolve_goto_def bind_eq_Some_conv)
  then have l: "labels (snd gt) = Some l" "fst gt < length c" "c' = c[fst gt := IR_GotoLabel (Some l)]"
    by (cases "c ! fst gt"; simp split: option.splits)+
  have n: "complete (IR_GotoLabel (Some l))" "ir_ok n m (IR_GotoLabel (Some l))"
    using assms l(1) by (auto simp: complete_def ir_ok_def ir_labels_def)
  show "length c' = length c \<and> (\<forall>ir \<in> set c'. ir_ok n m ir) \<and> complete (c' ! fst gt) \<and>
      (\<forall>i. complete (c ! i) \<longrightarrow> complete (c' ! i))"
    using l(2,3) n ok by (auto simp: complete_update dest!: set_update_subset_insert [THEN subsetD])
qed

lemma resolve_cond_goto_resolves:
  assumes "\<forall>name l. labels name = Some l \<longrightarrow> l < m"
  shows "resolves n m (resolve_cond_goto labels)"
  unfolding resolves_def
proof (intro allI impI)
  fix gt c c'
  assume r: "resolve_cond_goto labels gt c = Some c'" and ok: "\<forall>ir \<in> set c. ir_ok n m ir"
  then obtain l0 where l0: "labels (snd gt) = Some l0" "fst gt < length c"
    "(case c ! fst gt of IR_ConditionalBranch cnd _ _ \<Rightarrow> Some (c[fst gt := IR_ConditionalBranch cnd l0 True]) | _ \<Rightarrow> None) = Some c'"
    by (auto simp: resolve_cond_goto_def bind_eq_Some_conv)
  then obtain l cnd l' b where l: "labels (snd gt) = Some l" "fst gt < length c" "c ! fst gt = IR_ConditionalBranch cnd l' b"
    "c' = c[fst gt := IR_ConditionalBranch cnd l True]"
    by (cases "c ! fst gt") simp_all
  have "ir_ok n m (IR_ConditionalBranch cnd l' b)" using ok l(2,3) by (metis nth_mem)
  then have n: "complete (IR_ConditionalBranch cnd l True)" "ir_ok n m (IR_ConditionalBranch cnd l True)"
    using assms l(1) by (auto simp: complete_def ir_ok_def ir_labels_def)
  show "length c' = length c \<and> (\<forall>ir \<in> set c'. ir_ok n m ir) \<and> complete (c' ! fst gt) \<and>
      (\<forall>i. complete (c ! i) \<longrightarrow> complete (c' ! i))"
    using l(2,4) n ok by (auto simp: complete_update dest!: set_update_subset_insert [THEN subsetD])
qed

lemma resolve_all:
  assumes "resolves n m r" "fold_opt r gs c = Some c'" "\<forall>ir \<in> set c. ir_ok n m ir"
  shows "length c' = length c \<and> (\<forall>ir \<in> set c'. ir_ok n m ir) \<and> (\<forall>i. complete (c ! i) \<or> i \<in> fst ` set gs \<longrightarrow> complete (c' ! i))"
  using assms(2,3)
proof (induction gs arbitrary: c)
  case (Cons gt gs)
  then obtain c1 where "r gt c = Some c1" "fold_opt r gs c1 = Some c'" by (auto simp: bind_eq_Some_conv)
  moreover from this have "length c1 = length c \<and> (\<forall>ir \<in> set c1. ir_ok n m ir) \<and> complete (c1 ! fst gt) \<and>
      (\<forall>i. complete (c ! i) \<longrightarrow> complete (c1 ! i))"
    using assms(1) Cons.prems(2) unfolding resolves_def by blast
  ultimately show ?case using Cons.IH [of c1] by auto
qed simp

lemma finish_ok:
  assumes ok: "fn_ok f" and fin: "finish f = Some f'"
  shows "\<exists>c. f' = f\<lparr>fe_code := c\<rparr> \<and> length c = length (fe_code f) \<and>
    (\<forall>ir \<in> set c. ir_ok (length (fe_iregs f)) (length (fe_label_idx f)) ir \<and> complete ir)"
proof -
  let ?n = "length (fe_iregs f)" and ?m = "length (fe_label_idx f)"
  obtain c1 c where c1: "fold_opt (resolve_goto (fe_labels f)) (unresolved_gotos f) (fe_code f) = Some c1"
    and c: "fold_opt (resolve_cond_goto (fe_labels f)) (unresolved_cond_gotos f) c1 = Some c" and f': "f' = f\<lparr>fe_code := c\<rparr>"
    using fin by (auto simp: finish_def resolve_gotos_def bind_eq_Some_conv)
  have labels: "\<forall>name l. fe_labels f name = Some l \<longrightarrow> l < ?m"
    and code: "\<forall>ir \<in> set (fe_code f). ir_ok ?n ?m ir"
    and pend: "\<forall>i < length (fe_code f). complete (fe_code f ! i) \<or> pending f i"
    using ok by (simp_all add: fn_ok_def)
  note r1 = resolve_all [OF resolve_goto_resolves [OF labels, of ?n] c1 code]
  note r2 = resolve_all [OF resolve_cond_goto_resolves [OF labels, of ?n] c, OF conjunct1 [OF conjunct2 [OF r1]]]
  have "complete (c ! i)" if "i < length c" for i
    using pend r1 r2 that unfolding pending_def by metis
  then have "\<forall>ir \<in> set c. complete ir" by (metis in_set_conv_nth)
  then show ?thesis using f' r1 r2 by auto
qed

section \<open>What the register allocator sees\<close>

lemma to_rai_complete:
  assumes "complete ir"
  shows "\<exists>ins. to_rai regs labels ir = Some ins \<and>
    set (ri_read ins) \<union> set (ri_write ins) \<subseteq> (\<lambda>k. rv_ireg (regs ! k)) ` set (ir_regs ir) \<and>
    jumps ins = map (label_idx labels) (ir_labels ir) \<and> (fallthrough ins \<or> jumps ins \<noteq> [])"
  using assms
  by (cases ir) (auto simp: complete_def ir_labels_def rai_def new_rai_def rai_if_def rai_Return_def rai_RegSet_def
    rai_FunctionCall_def rai_IntegerMath_def rai_FloatMath_def rai_GotoLabel_def rai_ConditionalBranch_def condition_to_rai_def
    rai_ValueReset_def rai_FloatToInt_def rai_IntToFloat_def rai_LoadConstOffset_def rai_StoreConstOffset_def Let_def)

lemma map_opt_defined: "\<forall>x \<in> set xs. f x \<noteq> None \<Longrightarrow> map_opt f xs \<noteq> None"
proof -
  have "\<forall>x \<in> set xs. f x \<noteq> None \<Longrightarrow> fold_opt (\<lambda>x ys. do { y \<leftarrow> f x; Some (ys @ [y]) }) xs zs \<noteq> None" for zs
    by (induction xs arbitrary: zs) auto
  then show "\<forall>x \<in> set xs. f x \<noteq> None \<Longrightarrow> map_opt f xs \<noteq> None" by (simp add: map_opt_def)
qed

lemma map_rai_complete:
  assumes "\<forall>ir \<in> set (fe_code f). complete ir"
  obtains insns where "map_rai f = Some insns" "length insns = length (fe_code f)"
    "\<And>ins. ins \<in> set insns \<Longrightarrow> \<exists>ir \<in> set (fe_code f).
       set (ri_read ins) \<union> set (ri_write ins) \<subseteq> (\<lambda>k. rv_ireg (fe_iregs f ! k)) ` set (ir_regs ir) \<and>
       jumps ins = map (label_idx (fe_label_idx f)) (ir_labels ir) \<and> (fallthrough ins \<or> jumps ins \<noteq> [])"
proof -
  have "map_rai f \<noteq> None"
    unfolding map_rai_def using assms to_rai_complete [of _ "fe_iregs f" "fe_label_idx f"] by (intro map_opt_defined) force
  then obtain insns where insns: "map_rai f = Some insns" by blast
  note nth = map_opt_Some [OF insns [unfolded map_rai_def]]
  show thesis
  proof (rule that [OF insns nth(1)])
    fix ins
    assume "ins \<in> set insns"
    then obtain k where k: "k < length (fe_code f)" "ins = insns ! k" using nth(1) by (auto simp: in_set_conv_nth)
    show "\<exists>ir \<in> set (fe_code f).
       set (ri_read ins) \<union> set (ri_write ins) \<subseteq> (\<lambda>k. rv_ireg (fe_iregs f ! k)) ` set (ir_regs ir) \<and>
       jumps ins = map (label_idx (fe_label_idx f)) (ir_labels ir) \<and> (fallthrough ins \<or> jumps ins \<noteq> [])"
    proof (rule bexI)
      show "fe_code f ! k \<in> set (fe_code f)" using k(1) by simp
      then show "set (ri_read ins) \<union> set (ri_write ins) \<subseteq> (\<lambda>k. rv_ireg (fe_iregs f ! k)) ` set (ir_regs (fe_code f ! k)) \<and>
       jumps ins = map (label_idx (fe_label_idx f)) (ir_labels (fe_code f ! k)) \<and> (fallthrough ins \<or> jumps ins \<noteq> [])"
        using to_rai_complete [of "fe_code f ! k" "fe_iregs f" "fe_label_idx f"] nth(2) [OF k(1)] assms k(2) by force
    qed
  qed
qed

text \<open>The labels that the jumps of a function lead to have been placed.\<close>

definition jumps_placed :: "FunctionEnv \<Rightarrow> bool" where
  "jumps_placed f \<longleftrightarrow> list_all (\<lambda>ir. list_all (\<lambda>l. 0 \<le> fe_label_idx f ! l) (ir_labels ir)) (fe_code f)"

lemma finished_input_ok:
  assumes c: "compiled f" and e: "emit_ir IR_Null f = Some f1" and fin: "finish f1 = Some f2" and p: "jumps_placed f2"
  shows "\<exists>inp. allocation_input f2 = Some inp \<and> input_ok inp \<and> length (instructions inp) = Suc (length (fe_code f))"
proof -
  note ok = compiled_ok [OF c]
  have f1: "f1 = f\<lparr>fe_code := fe_code f @ [IR_Null]\<rparr>" using e by (simp add: emit_ir_def add_constraints_def)
  have ok1: "fn_ok f1" by (rule emit_ok [OF ok e]) (simp_all add: ir_ok_def ir_labels_def complete_def)
  from finish_ok [OF ok1 fin] obtain code2 where f2: "f2 = f1\<lparr>fe_code := code2\<rparr>" and len: "length code2 = length (fe_code f1)"
    and irs: "\<forall>ir \<in> set code2. ir_ok (length (fe_iregs f1)) (length (fe_label_idx f1)) ir \<and> complete ir" by blast
  have "\<forall>ir \<in> set (fe_code f2). complete ir" using irs f2 by simp
  then obtain insns where insns: "map_rai f2 = Some insns" "length insns = length (fe_code f2)"
    "\<And>ins. ins \<in> set insns \<Longrightarrow> \<exists>ir \<in> set (fe_code f2).
       set (ri_read ins) \<union> set (ri_write ins) \<subseteq> (\<lambda>k. rv_ireg (fe_iregs f2 ! k)) ` set (ir_regs ir) \<and>
       jumps ins = map (label_idx (fe_label_idx f2)) (ir_labels ir) \<and> (fallthrough ins \<or> jumps ins \<noteq> [])"
    by (rule map_rai_complete) metis
  obtain inp where inp: "allocation_input f2 = Some inp" "instructions inp = insns" "max_vars inp = int (length (fe_iregs f))"
    "constraints inp = fe_constraints f" using insns(1) by (auto simp: allocation_input_def f2 f1)
  have target: "0 \<le> t \<and> t \<le> int (length (fe_code f))" if "ins \<in> set insns" "t \<in> set (jumps ins)" for ins t
  proof -
    from insns(3) [OF that(1)] that(2) obtain ir l where l: "ir \<in> set (fe_code f2)" "l \<in> set (ir_labels ir)" "t = fe_label_idx f2 ! l"
      by (auto simp: label_idx_def)
    then have "0 \<le> t" using p by (simp add: jumps_placed_def list_all_iff)
    moreover have "l < length (fe_label_idx f)" using irs l(1,2) by (auto simp: ir_ok_def f2 f1)
    then have "t \<in> set (fe_label_idx f)" using l(3) by (simp add: f2 f1)
    ultimately show ?thesis using ok by (auto simp: fn_ok_def)
  qed
  have var: "0 \<le> ireg_id x \<and> ireg_id x < int (length (fe_iregs f))" if ins: "ins \<in> set insns" and x: "x \<in> set (ri_read ins) \<union> set (ri_write ins)" for ins x
  proof -
    from insns(3) [OF ins] x obtain ir k where "ir \<in> set (fe_code f2)" "k \<in> set (ir_regs ir)" "x = rv_ireg (fe_iregs f2 ! k)" by blast
    then show ?thesis using irs ids_of_regs [OF ok, of k] by (auto simp: ir_ok_def f2 f1)
  qed
  have "jumps_or_falls insns" using insns(3) by (fastforce simp: jumps_or_falls_def)
  moreover have "\<forall>con \<in> set (fe_constraints f). 0 \<le> ireg_id (con_ireg con) \<and> ireg_id (con_ireg con) < int (length (fe_iregs f)) \<and>
      (contrain_everywhere con \<or> 0 \<le> con_instr_idx con \<and> con_instr_idx con \<le> int (length (fe_code f)))"
    using ok by (simp add: fn_ok_def)
  moreover have len_is: "length insns = Suc (length (fe_code f))" using insns(2) len by (simp add: f2 f1)
  ultimately have "input_ok inp"
    using target var unfolding input_ok_def inp jumps_inside_def ids_below_def num_instrs_def
    by (fastforce simp: inp)
  then show ?thesis using inp len_is by blast
qed

end
