(* ===== verification/Function_Props.thy ===== *)
theory Function_Props
  imports Function_Build
begin

text \<open>
  Every function that is built with the operations of the compiler is a proper input for the register allocator.
\<close>

section \<open>An example\<close>

text \<open>A loop: a label, a conditional jump back to it, a jump to the end, and the end.\<close>

definition loop_name :: string where
  "loop_name = ''count''"

definition loop_regs :: "FunctionEnv option" where
  "loop_regs = do {
    (r, f) \<leftarrow> make_ireg GPR_64 (new_FunctionEnv loop_name);
    (r, f) \<leftarrow> make_ireg GPR_64 f;
    (r, f) \<leftarrow> make_ireg GPR_64 f;
    Some f }"

definition loop_cond :: Condition where
  "loop_cond = \<lparr>c_kind = NOT_EQUAL, c_a = 0, c_b = 1, is_signed = True, is_float = False\<rparr>"

definition loop_fn :: "FunctionEnv option" where
  "loop_fn = do {
    f \<leftarrow> loop_regs;
    f \<leftarrow> emit_ir (IR_LoadConstant64 0 0) f;
    f \<leftarrow> add_label ''top'' f;
    f \<leftarrow> emit_ir (IR_IntegerMath NOT_64 0 None 0) f;
    f \<leftarrow> emit_ir (IR_LoadConstant64 1 10) f;
    f \<leftarrow> add_cond_goto loop_cond ''top'' f;
    f \<leftarrow> add_goto ''end'' f;
    f \<leftarrow> add_label ''end'' f;
    emit_ir (IR_Return 2 0 (Reg RAX)) f }"

lemma loop_code:
  "map_option fe_code loop_fn = Some [IR_LoadConstant64 0 0, IR_IntegerMath NOT_64 0 None 0, IR_LoadConstant64 1 10,
     IR_ConditionalBranch loop_cond 1 False, IR_GotoLabel None, IR_Return 2 0 (Reg RAX)]"
  by code_simp

lemma emit_ir_keeps: "emit_ir ir f = Some f' \<Longrightarrow> fe_iregs f' = fe_iregs f \<and> fe_label_idx f' = fe_label_idx f"
  by (auto simp: emit_ir_def bind_eq_Some_conv)

lemma add_keeps_iregs:
  "add_label name f = Some f' \<Longrightarrow> fe_iregs f' = fe_iregs f"
  "add_goto name f = Some f' \<Longrightarrow> fe_iregs f' = fe_iregs f"
  "add_cond_goto c name f = Some f' \<Longrightarrow> fe_iregs f' = fe_iregs f"
  by (auto simp: add_label_def add_goto_def add_cond_goto_def alloc_unnamed_label_def place_label_def bind_eq_Some_conv
    dest!: emit_ir_keeps)

lemma loop_regs_compiled: "\<exists>f. loop_regs = Some f \<and> compiled f \<and> length (fe_iregs f) = 3"
proof -
  have new: "make_ireg GPR_64 f = Some (length (fe_iregs f), snd (the (make_ireg GPR_64 f)))" for f
    by (simp add: make_ireg_def)
  let ?f0 = "new_FunctionEnv loop_name" and ?g = "\<lambda>f. snd (the (make_ireg GPR_64 f))"
  have "compiled (?g (?g (?g ?f0)))"
    by (intro compiled.ireg [OF compiled.ireg [OF compiled.ireg [OF compiled.start new] new] new])
  moreover have "loop_regs = Some (?g (?g (?g ?f0)))" by (simp add: loop_regs_def make_ireg_def)
  moreover have "length (fe_iregs (?g (?g (?g ?f0)))) = 3" by (simp add: make_ireg_def new_FunctionEnv_def)
  ultimately show ?thesis by blast
qed

lemma loop_fn_compiled: "\<exists>f. loop_fn = Some f \<and> compiled f"
proof -
  have "loop_fn \<noteq> None" using loop_code by auto
  then obtain f0 f1 f2 f3 f4 f5 f6 f7 f where f: "loop_regs = Some f0" "emit_ir (IR_LoadConstant64 0 0) f0 = Some f1"
    "add_label ''top'' f1 = Some f2" "emit_ir (IR_IntegerMath NOT_64 0 None 0) f2 = Some f3"
    "emit_ir (IR_LoadConstant64 1 10) f3 = Some f4" "add_cond_goto loop_cond ''top'' f4 = Some f5"
    "add_goto ''end'' f5 = Some f6" "add_label ''end'' f6 = Some f7" "emit_ir (IR_Return 2 0 (Reg RAX)) f7 = Some f"
    unfolding loop_fn_def by (auto simp: bind_eq_Some_conv simp del: One_nat_def)
  have fn: "loop_fn = Some f" unfolding loop_fn_def f Option.bind.simps by (rule refl)
  have f0: "compiled f0" "length (fe_iregs f0) = 3" using loop_regs_compiled f(1) by (metis option.inject)+
  note keeps = emit_ir_keeps [OF f(2)] add_keeps_iregs(1) [OF f(3)] emit_ir_keeps [OF f(4)] emit_ir_keeps [OF f(5)]
    add_keeps_iregs(3) [OF f(6)] add_keeps_iregs(2) [OF f(7)] add_keeps_iregs(1) [OF f(8)]
  have n: "length (fe_iregs f2) = 3" "length (fe_iregs f3) = 3" "length (fe_iregs f4) = 3" "length (fe_iregs f7) = 3"
    using keeps f0(2) by simp_all
  have "compiled f1" by (rule compiled.emit [OF f0(1) _ _ _ f(2)]) (simp_all add: f0 ir_labels_def complete_def)
  then have "compiled f2" by (rule compiled.named_label) (rule f(3))
  then have "compiled f3" by (rule compiled.emit [OF _ _ _ _ f(4)]) (simp_all add: n ir_labels_def complete_def)
  then have "compiled f4" by (rule compiled.emit [OF _ _ _ _ f(5)]) (simp_all add: n ir_labels_def complete_def)
  then have "compiled f5" by (rule compiled.cond_goto [OF _ _ _ f(6)]) (simp_all add: n loop_cond_def)
  then have "compiled f6" by (rule compiled.goto) (rule f(7))
  then have "compiled f7" by (rule compiled.named_label) (rule f(8))
  then have "compiled f" by (rule compiled.emit [OF _ _ _ _ f(9)]) (simp_all add: n ir_labels_def complete_def)
  then show ?thesis using fn by blast
qed

lemma loop_finished:
  "\<exists>f f1 f2. loop_fn = Some f \<and> emit_ir IR_Null f = Some f1 \<and> finish f1 = Some f2 \<and> jumps_placed f2"
proof -
  have "map_option jumps_placed (loop_fn \<bind> (\<lambda>f. emit_ir IR_Null f \<bind> finish)) = Some True" by code_simp
  then show ?thesis by (auto simp: bind_eq_Some_conv)
qed

section \<open>The property\<close>

text \<open>
  C16. Every function that is built by the operations of the compiler, ends with the null instruction and whose gotos are
  resolved and lead to placed labels is a proper input for the register allocator: no instruction is without an
  operand or a target, variables and constraints are in range, and jumps stay inside the function. Cutting it into
  blocks and the liveness analysis return, with the exact live sets.
\<close>

theorem compiled_function_analysed:
  assumes "compiled f" "emit_ir IR_Null f = Some f1" "finish f1 = Some f2" "jumps_placed f2"
  shows "\<exists>inp c0 c. allocation_input f2 = Some inp \<and> length (instructions inp) = Suc (length (fe_code f)) \<and> input_ok inp \<and>
    find_basic_blocks (start_cache inp) inp = Some c0 \<and> analyze_liveliness c0 inp = Some c \<and>
    (\<forall>b \<in> set (basic_blocks c). live_sets_exact (instructions inp) b)"
proof -
  obtain inp where inp: "allocation_input f2 = Some inp" "input_ok inp" "length (instructions inp) = Suc (length (fe_code f))"
    using finished_input_ok [OF assms] by blast
  then obtain c0 c where c: "find_basic_blocks (start_cache inp) inp = Some c0" "analyze_liveliness c0 inp = Some c"
    using analyze_total by blast
  then show ?thesis using inp analyze_ok(3) [OF c] by (auto simp: input_ok_def)
qed

lemma compiled_function_analysed_witness:
  "\<exists>f f2 inp c0 c. loop_fn = Some f \<and> allocation_input f2 = Some inp \<and> length (instructions inp) = Suc (length (fe_code f)) \<and> input_ok inp \<and>
    find_basic_blocks (start_cache inp) inp = Some c0 \<and> analyze_liveliness c0 inp = Some c \<and>
    (\<forall>b \<in> set (basic_blocks c). live_sets_exact (instructions inp) b)"
proof -
  obtain f f1 f2 where f: "loop_fn = Some f" "emit_ir IR_Null f = Some f1" "finish f1 = Some f2" "jumps_placed f2"
    using loop_finished by blast
  have "compiled f" using loop_fn_compiled f(1) by (metis option.inject)
  from compiled_function_analysed [OF this f(2-4)] show ?thesis using f(1) by blast
qed

end
