(* ===== verification/Klink.thy ===== *)
theory Klink
  imports Kscheme ObjectGen
begin

text \<open>
  The linker of the runtime (\<^verbatim>\<open>game/kernel/klink.cpp\<close>): it takes an object file in main memory, moves its segments
  or its data to a heap, and writes the addresses of symbols, types and other segments into them. Compiled
  GOAL code is the parameter \<open>goal\<close>: the state after a call of the function at an address. A null
  pointer that is used is \<open>None\<close>; so is a call of the function at address 0, and an index behind the three
  segments of a header. Messages, the clock and the cache are left out.
\<close>

section \<open>State\<close>

record link_control =
  m_object_data :: u32
  m_entry :: u32
  m_object_name :: string
  m_object_size :: s32
  m_heap :: u32
  m_flags :: u32
  m_heap_top :: u32
  m_keep_debug :: bool
  m_link_block_ptr :: u32
  m_code_size :: u32
  m_code_start :: u32
  m_state :: u32
  m_segment_process :: u32
  m_link_version :: u32
  m_heap_gap :: s32
  m_original_object_location :: u32
  m_reloc_ptr :: u32
  m_base_ptr :: u32
  m_loc_ptr :: u32
  m_table_toggle :: bool
  m_opengoal :: bool

definition zero_link_control :: link_control where
  "zero_link_control =
    \<lparr>m_object_data = 0, m_entry = 0, m_object_name = [], m_object_size = 0, m_heap = 0, m_flags = 0, m_heap_top = 0,
     m_keep_debug = False, m_link_block_ptr = 0, m_code_size = 0, m_code_start = 0, m_state = 0, m_segment_process = 0,
     m_link_version = 0, m_heap_gap = 0, m_original_object_location = 0, m_reloc_ptr = 0, m_base_ptr = 0, m_loc_ptr = 0,
     m_table_toggle = False, m_opengoal = False\<rparr>"

text \<open>The fields behind the version are left as they are.\<close>

definition reset_link_control :: "link_control \<Rightarrow> link_control" where
  "reset_link_control lc =
    lc\<lparr>m_object_data := 0, m_entry := 0, m_object_name := [], m_object_size := 0, m_heap := 0, m_flags := 0, m_heap_top := 0,
       m_keep_debug := False, m_link_block_ptr := 0, m_code_size := 0, m_code_start := 0, m_state := 0, m_segment_process := 0,
       m_link_version := 0\<rparr>"

record linker =
  l_kernel :: kernel
  gfunc_774 :: u32
  saved_link_control :: link_control

type_synonym goal_code = "u32 \<Rightarrow> u32 \<Rightarrow> u32 \<Rightarrow> u32 \<Rightarrow> linker \<Rightarrow> linker option"

definition klink_init_globals :: "linker \<Rightarrow> linker" where
  "klink_init_globals s = s\<lparr>saved_link_control := reset_link_control (saved_link_control s), gfunc_774 := 0\<rparr>"

abbreviation mem :: "linker \<Rightarrow> ram" where
  "mem s \<equiv> k_ram (l_kernel s)"

definition on_ram :: "(ram \<Rightarrow> ram) \<Rightarrow> linker \<Rightarrow> linker" where
  "on_ram f s = s\<lparr>l_kernel := (l_kernel s)\<lparr>k_ram := f (mem s)\<rparr>\<rparr>"

text \<open>\<^verbatim>\<open>*p\<close> and its assignment, for 32-bit values and for bytes.\<close>

definition get :: "u32 \<Rightarrow> linker \<Rightarrow> u32 option" where
  "get p s = do { assert_opt (p \<noteq> 0); Some (load32 (mem s) p) }"

definition put :: "u32 \<Rightarrow> u32 \<Rightarrow> linker \<Rightarrow> linker option" where
  "put p v s = do { assert_opt (p \<noteq> 0); Some (on_ram (store32 p v) s) }"

definition get8 :: "u32 \<Rightarrow> linker \<Rightarrow> u8 option" where
  "get8 p s = do { assert_opt (p \<noteq> 0); Some (mem s p) }"

text \<open>An operation of the kernel, as one of the linker.\<close>

definition in_kernel :: "(kernel \<Rightarrow> ('a \<times> kernel) option) \<Rightarrow> linker \<Rightarrow> ('a \<times> linker) option" where
  "in_kernel f s = do { (x, k) \<leftarrow> f (l_kernel s); Some (x, s\<lparr>l_kernel := k\<rparr>) }"

definition call_goal :: "goal_code \<Rightarrow> u32 \<Rightarrow> u32 \<Rightarrow> u32 \<Rightarrow> u32 \<Rightarrow> linker \<Rightarrow> linker option" where
  "call_goal goal f a b c s = do { assert_opt (f \<noteq> 0); goal f a b c s }"

text \<open>A C string in main memory.\<close>

partial_function (option) c_string :: "ram \<Rightarrow> u32 \<Rightarrow> string option" where
  "c_string m p = (if m p = 0 then Some [] else do { cs \<leftarrow> c_string m (p + 1); Some (char_of (unat (m p)) # cs) })"

section \<open>Copying\<close>

definition memmove :: "u32 \<Rightarrow> u32 \<Rightarrow> u32 \<Rightarrow> linker \<Rightarrow> linker" where
  "memmove dst src n = on_ram (memcpy dst src (unat n))"

definition ultimate_memcpy :: "goal_code \<Rightarrow> u32 \<Rightarrow> u32 \<Rightarrow> u32 \<Rightarrow> linker \<Rightarrow> linker option" where
  "ultimate_memcpy goal dst src n s = do {
     assert_opt (dst \<noteq> 0 \<and> src \<noteq> 0);
     if dst AND 0xf = 0 \<and> src AND 0xf = 0 \<and> n AND 0xf = 0 \<and> 0xfff < n then do {
       s \<leftarrow> (if gfunc_774 s = 0 then do {
               (symb, s) \<leftarrow> in_kernel (find_symbol_from_c ''ultimate-memcpy'') s;
               v \<leftarrow> get symb s;
               let s = (if v = 0 then memmove dst src n s else s);
               v \<leftarrow> get symb s;
               Some (s\<lparr>gfunc_774 := v\<rparr>) }
             else Some s);
       call_goal goal (gfunc_774 s) dst src n s }
     else Some (memmove dst src n s) }"

section \<open>Beginning\<close>

definition LINK_FLAG_OUTPUT_LOAD :: u32 where "LINK_FLAG_OUTPUT_LOAD = 0x1"
definition LINK_FLAG_EXECUTE :: u32 where "LINK_FLAG_EXECUTE = 0x4"
definition LINK_FLAG_FORCE_DEBUG :: u32 where "LINK_FLAG_FORCE_DEBUG = 0x10"
definition LINK_FLAG_FORCE_FAST_LINK :: u32 where "LINK_FLAG_FORCE_FAST_LINK = 0x20"

text \<open>Fields of \<^verbatim>\<open>LinkHeaderV2\<close>, \<^verbatim>\<open>LinkHeaderV4\<close> and \<^verbatim>\<open>ObjectFileHeader\<close>.\<close>

definition header_type_tag :: u32 where "header_type_tag = 0"
definition header_len :: u32 where "header_len = 4"
definition header_version :: u32 where "header_version = 8"
definition header_code_size :: u32 where "header_code_size = 12"
definition ofh_version_major :: u32 where "ofh_version_major = 0"
definition object_file_version :: u32 where "object_file_version = 4"
definition segment_count :: u32 where "segment_count = 8"
definition link_info_offset :: "nat \<Rightarrow> u32" where "link_info_offset seg = 12 + 8 * of_nat seg"
definition code_info_offset :: "nat \<Rightarrow> u32" where "code_info_offset seg = 36 + 8 * of_nat seg"
definition code_info_size :: "nat \<Rightarrow> u32" where "code_info_size seg = 40 + 8 * of_nat seg"
definition link_block_length :: u32 where "link_block_length = 60"

definition is_opengoal_object :: "u32 \<Rightarrow> linker \<Rightarrow> bool option" where
  "is_opengoal_object data s = do {
     type_tag \<leftarrow> get (data + header_type_tag) s;
     version \<leftarrow> get (data + header_version) s;
     Some (\<not> (type_tag = 0xffffffff \<and> (version = 2 \<or> version = 4))) }"

text \<open>What both formats do with the link block: leave it where it is, or move it to the top of the heap.\<close>

definition claim_link_block :: "goal_code \<Rightarrow> u32 \<Rightarrow> link_control \<Rightarrow> linker \<Rightarrow> (link_control \<times> linker) option" where
  "claim_link_block goal len lc s =
    (let heap = m_heap lc; lb = m_link_block_ptr lc; data = m_object_data lc in
     if lb < heap_base (mem s) heap \<or> heap_top (mem s) heap \<le> lb then
       Some (lc, if heap_base (mem s) heap \<le> data \<and> data < heap_top (mem s) heap \<and> data < heap_current (mem s) heap
                 then on_ram (set_heap_current heap data) s else s)
     else do {
       (new_link_block, s) \<leftarrow> in_kernel (k_kmalloc heap len KMALLOC_TOP) s;
       let old_link_block = lb - BASIC_OFFSET;
       s \<leftarrow> ultimate_memcpy goal new_link_block old_link_block len s;
       let lc = lc\<lparr>m_link_block_ptr := new_link_block + BASIC_OFFSET\<rparr>;
       Some (lc, if old_link_block < heap_current (mem s) heap then on_ram (set_heap_current heap old_link_block) s else s) })"

definition keep_debug :: "link_control \<Rightarrow> linker \<Rightarrow> link_control" where
  "keep_debug lc s =
    (if m_flags lc AND LINK_FLAG_FORCE_DEBUG \<noteq> 0 \<and> k_MasterDebug (l_kernel s) \<noteq> 0 \<and> k_DiskBoot (l_kernel s) = 0
     then lc\<lparr>m_keep_debug := True\<rparr> else lc)"

definition start_link :: "u32 \<Rightarrow> string \<Rightarrow> s32 \<Rightarrow> u32 \<Rightarrow> u32 \<Rightarrow> bool \<Rightarrow> link_control \<Rightarrow> linker \<Rightarrow> link_control" where
  "start_link object_file name sz heap flags opengoal lc s =
    lc\<lparr>m_object_data := object_file, m_object_name := name, m_object_size := sz, m_heap := heap, m_flags := flags, m_entry := 0,
       m_heap_top := heap_top (mem s) heap, m_keep_debug := False, m_opengoal := opengoal,
       m_link_block_ptr := object_file + BASIC_OFFSET, m_code_size := 0, m_code_start := object_file, m_state := 0,
       m_segment_process := 0\<rparr>"

definition begin_v3 :: "goal_code \<Rightarrow> link_control \<Rightarrow> linker \<Rightarrow> (link_control \<times> linker) option" where
  "begin_v3 goal lc s = do {
     let ofh = m_link_block_ptr lc;
     assert_opt (ofh \<noteq> 0 \<and> load16 (mem s) (ofh + ofh_version_major) = 0);
     let version = load32 (mem s) (ofh + object_file_version);
     let len = load32 (mem s) (ofh + link_block_length);
     let lc = lc\<lparr>m_link_version := version\<rparr>;
     assert_opt (version < 4);
     claim_link_block goal len (lc\<lparr>m_object_data := m_object_data lc + len\<rparr>) s }"

definition begin_v2 :: "goal_code \<Rightarrow> link_control \<Rightarrow> linker \<Rightarrow> (link_control \<times> linker) option" where
  "begin_v2 goal lc s = do {
     let header = m_link_block_ptr lc - 4;
     let version = load32 (mem s) (header + header_version);
     let len = load32 (mem s) (header + header_len);
     let lc = lc\<lparr>m_link_version := version\<rparr>;
     if version < 4 then
       claim_link_block goal len (lc\<lparr>m_object_data := m_object_data lc + len, m_code_size := m_object_size lc - len\<rparr>) s
     else
       let code_size = load32 (mem s) (header + header_code_size) in
       Some (lc\<lparr>m_link_block_ptr := m_object_data lc + code_size + 16 + BASIC_OFFSET, m_object_data := m_object_data lc + 16,
                m_code_size := code_size\<rparr>, s) }"

definition link_control_begin ::
  "goal_code \<Rightarrow> u32 \<Rightarrow> string \<Rightarrow> s32 \<Rightarrow> u32 \<Rightarrow> u32 \<Rightarrow> link_control \<Rightarrow> linker \<Rightarrow> (link_control \<times> linker) option" where
  "link_control_begin goal object_file name sz heap flags lc s = do {
     opengoal \<leftarrow> is_opengoal_object object_file s;
     assert_opt (heap \<noteq> 0);
     let lc = start_link object_file name sz heap flags opengoal lc s;
     (lc, s) \<leftarrow> (if opengoal then begin_v3 goal lc s else begin_v2 goal lc s);
     Some (keep_debug lc s, s) }"

section \<open>Version 3: code\<close>

text \<open>
  Names in the link table: at most 255 characters, which is what the buffer holds. The results are the name and the
  number of bytes read.
\<close>

fun read_name :: "nat \<Rightarrow> ram \<Rightarrow> u32 \<Rightarrow> (string \<times> u32) option" where
  "read_name 0 m p = (if m p = 0 then Some ([], 1) else None)"
| "read_name (Suc n) m p =
    (if m p = 0 then Some ([], 1)
     else do { (cs, k) \<leftarrow> read_name n m (p + 1); Some (char_of (unat (m p)) # cs, k + 1) })"

text \<open>The loop over the offsets of a name, which are at \<open>offsets\<close>.\<close>

definition patch_all :: "(u32 \<Rightarrow> linker \<Rightarrow> linker option) \<Rightarrow> u32 \<Rightarrow> u32 \<Rightarrow> linker \<Rightarrow> linker option" where
  "patch_all f offs n s = fold_opt (\<lambda>i s. f (load32 (mem s) (offs + 4 * of_nat i)) s) [0 ..< unat n] s"

definition typelink_v3 :: "u32 \<Rightarrow> u32 \<Rightarrow> linker \<Rightarrow> (u32 \<times> linker) option" where
  "typelink_v3 link data s = do {
     assert_opt (link \<noteq> 0);
     (sym_name, seek) \<leftarrow> read_name 255 (mem s) link;
     let method_count = mem s (link + seek);
     let seek = seek + 1;
     (type_ptr, s) \<leftarrow> in_kernel (intern_type_from_c sym_name (ucast method_count)) s;
     let offs = link + seek;
     offset_count \<leftarrow> get offs s;
     assert_opt (offset_count = 0 \<or> offs + 4 \<noteq> 0);
     s \<leftarrow> patch_all (\<lambda>off. put (data + off) type_ptr) (offs + 4) offset_count s;
     Some (seek + 4 + 4 * offset_count, s) }"

definition patch_symbol :: "u32 \<Rightarrow> u32 \<Rightarrow> u32 \<Rightarrow> linker \<Rightarrow> linker option" where
  "patch_symbol symb data off s = do {
     x \<leftarrow> get (data + off) s;
     if x = - 1 then put (data + off) symb s
     else put (data + off) (symb - k_s7 (l_kernel s)) s }"

definition symlink_v3 :: "u32 \<Rightarrow> u32 \<Rightarrow> linker \<Rightarrow> (u32 \<times> linker) option" where
  "symlink_v3 link data s = do {
     assert_opt (link \<noteq> 0);
     (sym_name, seek) \<leftarrow> read_name 255 (mem s) link;
     (symb, s) \<leftarrow> in_kernel (intern_from_c sym_name) s;
     let offs = link + seek;
     offset_count \<leftarrow> get offs s;
     assert_opt (offset_count = 0 \<or> offs + 4 \<noteq> 0);
     s \<leftarrow> patch_all (patch_symbol symb data) (offs + 4) offset_count s;
     Some (seek + 4 + 4 * offset_count, s) }"

text \<open>\<^verbatim>\<open>ofh->code_infos[seg].offset\<close> of the header at \<open>lb\<close>.\<close>

definition code_offset :: "u32 \<Rightarrow> nat \<Rightarrow> linker \<Rightarrow> u32 option" where
  "code_offset lb seg s = do { assert_opt (seg < N_SEG); Some (load32 (mem s) (lb + code_info_offset seg)) }"

definition cross_seg_dist_link_v3 :: "u32 \<Rightarrow> u32 \<Rightarrow> nat \<Rightarrow> u32 \<Rightarrow> linker \<Rightarrow> (u32 \<times> linker) option" where
  "cross_seg_dist_link_v3 link lb current_seg sz s = do {
     target_seg \<leftarrow> get8 link s;
     assert_opt (ucast target_seg < load32 (mem s) (lb + segment_count));
     assert_opt (link + 1 \<noteq> 0);
     current \<leftarrow> code_offset lb current_seg s;
     target \<leftarrow> code_offset lb (unat target_seg) s;
     let mine = load32 (mem s) (link + 1) + current;
     let tgt = load32 (mem s) (link + 5) + target;
     let offset_of_patch = load32 (mem s) (link + 9) + current;
     let diff = (if target = 0 then - mine else tgt - mine);
     s \<leftarrow> (if sz = 4 then put offset_of_patch diff s
           else do {
             assert_opt (sz = 8 \<and> offset_of_patch \<noteq> 0);
             Some (on_ram (store_bytes offset_of_patch (le_bytes 8 (scast diff :: u64))) s) });
     Some (1 + 3 * 4, s) }"

definition ptr_link_v3 :: "u32 \<Rightarrow> u32 \<Rightarrow> nat \<Rightarrow> linker \<Rightarrow> (u32 \<times> linker) option" where
  "ptr_link_v3 link lb current_seg s = do {
     assert_opt (link \<noteq> 0);
     current \<leftarrow> code_offset lb current_seg s;
     let patch_loc = load32 (mem s) link + current;
     let patch_value = load32 (mem s) (link + 4) + current;
     s \<leftarrow> put patch_loc patch_value s;
     Some (8, s) }"

text \<open>State 0: the segments are copied to their heaps, the last one first. The result is whether there was memory.\<close>

definition set_code_offset :: "u32 \<Rightarrow> nat \<Rightarrow> u32 \<Rightarrow> linker \<Rightarrow> linker" where
  "set_code_offset lb seg v = on_ram (store32 (lb + code_info_offset seg) v)"

definition set_code_size :: "u32 \<Rightarrow> nat \<Rightarrow> u32 \<Rightarrow> linker \<Rightarrow> linker" where
  "set_code_size lb seg v = on_ram (store32 (lb + code_info_size seg) v)"

definition copy_segment :: "goal_code \<Rightarrow> u32 \<Rightarrow> u32 \<Rightarrow> u32 \<Rightarrow> nat \<Rightarrow> linker \<Rightarrow> (bool \<times> linker) option" where
  "copy_segment goal heap flags lb seg s =
    (let sz = load32 (mem s) (lb + code_info_size seg) in
     if sz = 0 then Some (True, set_code_offset lb seg 0 s)
     else do {
       let src = load32 (mem s) (lb + code_info_offset seg);
       (dst, s) \<leftarrow> in_kernel (k_kmalloc heap sz flags) s;
       let s = set_code_offset lb seg dst s;
       if dst = 0 then Some (False, s)
       else do {
         s \<leftarrow> ultimate_memcpy goal dst src (load32 (mem s) (lb + code_info_size seg)) s;
         Some (True, s) } })"

definition place_segment :: "goal_code \<Rightarrow> link_control \<Rightarrow> nat \<Rightarrow> linker \<Rightarrow> (bool \<times> linker) option" where
  "place_segment goal lc seg s = do {
     assert_opt (seg < N_SEG);
     let lb = m_link_block_ptr lc;
     let s = on_ram (\<lambda>m. store32 (lb + link_info_offset seg) (load32 m (lb + link_info_offset seg) + lb) m) s;
     let s = on_ram (\<lambda>m. store32 (lb + code_info_offset seg) (load32 m (lb + code_info_offset seg) + m_object_data lc) m) s;
     if int seg = DEBUG_SEGMENT then
       (if k_DebugSegment (l_kernel s) = 0 then Some (True, set_code_size lb seg 0 (set_code_offset lb seg 0 s))
        else copy_segment goal kdebugheap 0 lb seg s)
     else if int seg = MAIN_SEGMENT then copy_segment goal (m_heap lc) 0 lb seg s
     else copy_segment goal (m_heap lc) KMALLOC_TOP lb seg s }"

fun place_segments :: "goal_code \<Rightarrow> link_control \<Rightarrow> nat list \<Rightarrow> linker \<Rightarrow> (bool \<times> linker) option" where
  "place_segments goal lc [] s = Some (True, s)"
| "place_segments goal lc (seg # segs) s = do {
     (ok, s) \<leftarrow> place_segment goal lc seg s;
     if ok then place_segments goal lc segs s else Some (False, s) }"

text \<open>One entry of the link table of a segment, whose kind has been read.\<close>

definition link_entry_v3 :: "u32 \<Rightarrow> nat \<Rightarrow> u8 \<Rightarrow> u32 \<Rightarrow> linker \<Rightarrow> (u32 \<times> linker) option" where
  "link_entry_v3 lb seg kind lp s = do {
     data \<leftarrow> code_offset lb seg s;
     if kind = LINK_SYMBOL_OFFSET then symlink_v3 lp data s
     else if kind = LINK_TYPE_PTR then typelink_v3 lp data s
     else if kind = LINK_DISTANCE_TO_OTHER_SEG_64 then cross_seg_dist_link_v3 lp lb seg 8 s
     else if kind = LINK_DISTANCE_TO_OTHER_SEG_32 then cross_seg_dist_link_v3 lp lb seg 4 s
     else if kind = LINK_PTR then ptr_link_v3 lp lb seg s
     else None }"

partial_function (option) link_table_v3 :: "u32 \<Rightarrow> nat \<Rightarrow> u32 \<Rightarrow> linker \<Rightarrow> linker option" where
  "link_table_v3 lb seg lp s = do {
     kind \<leftarrow> get8 lp s;
     if kind = LINK_TABLE_END then Some s
     else do {
       (n, s) \<leftarrow> link_entry_v3 lb seg kind (lp + 1) s;
       link_table_v3 lb seg (lp + 1 + n) s } }"

definition work_v3 :: "goal_code \<Rightarrow> link_control \<Rightarrow> linker \<Rightarrow> (u32 \<times> link_control \<times> linker) option" where
  "work_v3 goal lc s =
    (let lb = m_link_block_ptr lc; segs = load32 (mem s) (lb + segment_count) in
     if m_state lc = 0 then do {
       (ok, s) \<leftarrow> place_segments goal lc (rev [0 ..< unat segs]) s;
       if ok then Some (0, lc\<lparr>m_state := 1, m_segment_process := 0\<rparr>, s) else Some (1, lc, s) }
     else if m_state lc = 1 then
       (if m_segment_process lc < segs then do {
          let seg = unat (m_segment_process lc);
          code \<leftarrow> code_offset lb seg s;
          s \<leftarrow> (if code \<noteq> 0 then link_table_v3 lb seg (load32 (mem s) (lb + link_info_offset seg)) s else Some s);
          Some (0, lc\<lparr>m_segment_process := m_segment_process lc + 1\<rparr>, s) }
        else do {
          code \<leftarrow> code_offset lb (nat TOP_LEVEL_SEGMENT) s;
          Some (1, lc\<lparr>m_entry := code + 4\<rparr>, s) })
     else Some (1, lc, s))"

section \<open>Versions 2 and 4: data\<close>

text \<open>The distance that \<^verbatim>\<open>c_symlink2\<close> reads at an address, with its flags, and the number of its bytes.\<close>

definition read_distance :: "ram \<Rightarrow> u32 \<Rightarrow> u32 \<times> u32" where
  "read_distance m p =
    (let result = ucast (m p) :: u32 in
     if result AND 3 = 0 then (result, 1)
     else let result = push_bit 8 (ucast (m (p + 1))) OR result in
       if result AND 2 = 0 then (result, 2)
       else let result = push_bit 16 (ucast (m (p + 2))) OR result in
         if result AND 1 = 0 then (result, 3)
         else (push_bit 24 (ucast (m (p + 3))) OR result, 4))"

partial_function (option) c_symlink2_loop :: "u32 \<Rightarrow> u32 \<Rightarrow> u32 \<Rightarrow> linker \<Rightarrow> (u32 \<times> linker) option" where
  "c_symlink2_loop obj link_obj reloc s =
    (let (result, n) = read_distance (mem s) reloc; reloc = reloc + n; obj = obj + (result AND 0xfffffffc) in do {
     v \<leftarrow> get obj s;
     assert_opt (v = 0xffffffff);
     s \<leftarrow> put obj link_obj s;
     if mem s reloc \<noteq> 0 then c_symlink2_loop obj link_obj reloc s else Some (reloc + 1, s) })"

definition c_symlink2 :: "u32 \<Rightarrow> u32 \<Rightarrow> u32 \<Rightarrow> linker \<Rightarrow> (u32 \<times> linker) option" where
  "c_symlink2 obj_data link_obj reloc_table s = do {
     assert_opt (reloc_table \<noteq> 0);
     c_symlink2_loop obj_data link_obj reloc_table s }"

text \<open>The words of a run get the base address added; \<open>loc\<close> moves behind them.\<close>

primrec fix_words :: "nat \<Rightarrow> u32 \<Rightarrow> u32 \<Rightarrow> linker \<Rightarrow> (u32 \<times> linker) option" where
  "fix_words 0 base loc s = Some (loc, s)"
| "fix_words (Suc n) base loc s = do {
     assert_opt (unat loc mod 4 = 0);
     c \<leftarrow> get loc s;
     s \<leftarrow> put loc (c + base) s;
     fix_words n base (loc + 4) s }"

text \<open>
  The table of pointers, a byte at a time. After a byte of 255 the mode stays, unless a 0 follows; after any
  other byte it changes, and a 0 ends the table.
\<close>

partial_function (option) fix_pointers :: "u32 \<Rightarrow> u32 \<Rightarrow> u32 \<Rightarrow> bool \<Rightarrow> linker \<Rightarrow> (u32 \<times> linker) option" where
  "fix_pointers base reloc loc toggle s = do {
     count \<leftarrow> get8 reloc s;
     let reloc = reloc + 1;
     (loc, s) \<leftarrow> (if \<not> toggle then Some (loc + 4 * ucast count, s) else fix_words (unat count) base loc s);
     next \<leftarrow> get8 reloc s;
     if count = 0xff then
       (if next = 0 then fix_pointers base (reloc + 1) loc (\<not> toggle) s else fix_pointers base reloc loc toggle s)
     else if next = 0 then Some (reloc, s)
     else fix_pointers base reloc loc (\<not> toggle) s }"

text \<open>One name of the symbol table of the object; the result is the address behind it.\<close>

definition link_name_v2 :: "u32 \<Rightarrow> u32 \<Rightarrow> linker \<Rightarrow> (u32 \<times> linker) option" where
  "link_name_v2 obj reloc s = do {
     relocation \<leftarrow> get8 reloc s;
     let reloc = reloc + 1;
     (reloc, name, goalObj, s) \<leftarrow>
       (if relocation AND 0x80 = 0 then do {
          let reloc = (if 9 < relocation then reloc - 1 else reloc);
          assert_opt (reloc \<noteq> 0);
          name \<leftarrow> c_string (mem s) reloc;
          (goalObj, s) \<leftarrow> in_kernel (intern_from_c name) s;
          Some (reloc, name, goalObj, s) }
        else do {
          let nMethods = relocation AND 0x7f;
          let nMethods = (if nMethods = 0 then 1 else nMethods);
          assert_opt (reloc \<noteq> 0);
          name \<leftarrow> c_string (mem s) reloc;
          (goalObj, s) \<leftarrow> in_kernel (intern_type_from_c name (ucast nMethods)) s;
          Some (reloc, name, goalObj, s) });
     c_symlink2 obj goalObj (reloc + of_nat (length name) + 1) s }"

partial_function (option) link_names_v2 :: "u32 \<Rightarrow> u32 \<Rightarrow> linker \<Rightarrow> (u32 \<times> linker) option" where
  "link_names_v2 obj reloc s = do {
     (reloc, s) \<leftarrow> link_name_v2 obj reloc s;
     next \<leftarrow> get8 reloc s;
     if next = 0 then Some (reloc, s) else link_names_v2 obj reloc s }"

definition LINK_V2_STATE_INIT_COPY :: u32 where "LINK_V2_STATE_INIT_COPY = 0"
definition LINK_V2_STATE_OFFSETS :: u32 where "LINK_V2_STATE_OFFSETS = 1"
definition LINK_V2_STATE_SYMBOL_TABLE :: u32 where "LINK_V2_STATE_SYMBOL_TABLE = 2"
definition OBJ_V2_CLOSE_ENOUGH :: int where "OBJ_V2_CLOSE_ENOUGH = 0x90"
definition OBJ_V2_MAX_TRANSFER :: u32 where "OBJ_V2_MAX_TRANSFER = 0x80000"

text \<open>State 0. \<open>Inl\<close> is what the call returns when it stops here; \<open>Inr\<close> goes on with the next state.\<close>

definition move_data ::
  "goal_code \<Rightarrow> link_control \<Rightarrow> linker \<Rightarrow> ((u32 + unit) \<times> link_control \<times> linker) option" where
  "move_data goal lc s = do {
     (lc, s, ok) \<leftarrow>
       (if m_segment_process lc = 0 then do {
          (data, s) \<leftarrow> in_kernel (k_kmalloc (m_heap lc) (m_code_size lc) 0) s;
          Some (lc\<lparr>m_original_object_location := m_object_data lc, m_object_data := data\<rparr>, s, data \<noteq> 0) }
        else Some (lc, s, True));
     if \<not> ok then Some (Inl 1, lc, s)
     else do {
       let dst = m_object_data lc + m_segment_process lc;
       let source = m_original_object_location lc + m_segment_process lc;
       let sz = m_code_size lc - m_segment_process lc;
       if OBJ_V2_MAX_TRANSFER < sz then do {
         s \<leftarrow> ultimate_memcpy goal dst source OBJ_V2_MAX_TRANSFER s;
         Some (Inl 0, lc\<lparr>m_segment_process := m_segment_process lc + OBJ_V2_MAX_TRANSFER\<rparr>, s) }
       else if sz \<noteq> 0 then do {
         s \<leftarrow> ultimate_memcpy goal dst source sz s;
         if 0 < m_segment_process lc
         then Some (Inl 0, lc\<lparr>m_state := LINK_V2_STATE_OFFSETS, m_segment_process := 0\<rparr>, s)
         else Some (Inr (), lc, s) }
       else Some (Inr (), lc, s) } }"

definition init_copy ::
  "goal_code \<Rightarrow> link_control \<Rightarrow> linker \<Rightarrow> ((u32 + unit) \<times> link_control \<times> linker) option" where
  "init_copy goal lc s = do {
     let current = heap_current (mem s) (m_heap lc);
     assert_opt (m_heap lc \<noteq> 0);
     assert_opt (m_segment_process lc = 0 \<longrightarrow> \<not> m_object_data lc < current);
     let lc = (if m_segment_process lc = 0 then lc\<lparr>m_heap_gap := m_object_data lc - current\<rparr> else lc);
     (r, lc, s) \<leftarrow>
       (if sint (m_heap_gap lc) < OBJ_V2_CLOSE_ENOUGH then
          (let s = on_ram (set_heap_current (m_heap lc) (m_object_data lc + m_code_size lc)) s in
           if heap_top (mem s) (m_heap lc) \<le> heap_current (mem s) (m_heap lc) then Some (Inl 1, lc, s)
           else Some (Inr (), lc, s))
        else move_data goal lc s);
     (case r of
        Inl rv \<Rightarrow> Some (Inl rv, lc, s)
      | Inr _ \<Rightarrow> Some (Inr (), lc\<lparr>m_state := LINK_V2_STATE_OFFSETS, m_segment_process := 0\<rparr>, s)) }"

text \<open>The pass over the pointers and its set-up.\<close>

definition offsets_v2 :: "link_control \<Rightarrow> linker \<Rightarrow> (link_control \<times> linker) option" where
  "offsets_v2 lc s = do {
     lc \<leftarrow> (if m_state lc = LINK_V2_STATE_OFFSETS \<and> m_segment_process lc = 0 then do {
              let reloc = m_link_block_ptr lc + 8;
              b \<leftarrow> get8 reloc s;
              Some (if b = 0 then lc\<lparr>m_reloc_ptr := reloc + 1, m_state := LINK_V2_STATE_SYMBOL_TABLE, m_segment_process := 0\<rparr>
                    else lc\<lparr>m_reloc_ptr := reloc, m_base_ptr := m_object_data lc, m_loc_ptr := m_object_data lc,
                            m_table_toggle := False, m_segment_process := 1\<rparr>) }
            else Some lc);
     if m_state lc = LINK_V2_STATE_OFFSETS then do {
       (reloc, s) \<leftarrow> fix_pointers (m_base_ptr lc) (m_reloc_ptr lc) (m_loc_ptr lc) (m_table_toggle lc) s;
       Some (lc\<lparr>m_reloc_ptr := reloc + 1, m_state := 2, m_segment_process := 0\<rparr>, s) }
     else Some (lc, s) }"

definition symbols_v2 :: "link_control \<Rightarrow> linker \<Rightarrow> (link_control \<times> linker) option" where
  "symbols_v2 lc s =
    (if m_state lc = 2 then do {
       b \<leftarrow> get8 (m_reloc_ptr lc) s;
       if b = 0 then Some (lc\<lparr>m_state := 3, m_segment_process := 0\<rparr>, s)
       else do {
         (reloc, s) \<leftarrow> link_names_v2 (m_object_data lc) (m_reloc_ptr lc) s;
         Some (lc\<lparr>m_reloc_ptr := reloc, m_state := 3, m_segment_process := 0\<rparr>, s) } }
     else Some (lc, s))"

definition work_v2 :: "goal_code \<Rightarrow> link_control \<Rightarrow> linker \<Rightarrow> (u32 \<times> link_control \<times> linker) option" where
  "work_v2 goal lc s = do {
     (r, lc, s) \<leftarrow> (if m_state lc = LINK_V2_STATE_INIT_COPY then init_copy goal lc s else Some (Inr (), lc, s));
     (case r of
        Inl rv \<Rightarrow> Some (rv, lc, s)
      | Inr _ \<Rightarrow> do {
          (lc, s) \<leftarrow> offsets_v2 lc s;
          (lc, s) \<leftarrow> symbols_v2 lc s;
          Some (1, lc\<lparr>m_entry := m_object_data lc + 4\<rparr>, s) }) }"

section \<open>Linking\<close>

definition set_DebugSegment :: "u32 \<Rightarrow> linker \<Rightarrow> linker" where
  "set_DebugSegment v s = s\<lparr>l_kernel := (l_kernel s)\<lparr>k_DebugSegment := v\<rparr>\<rparr>"

definition link_control_work :: "goal_code \<Rightarrow> link_control \<Rightarrow> linker \<Rightarrow> (u32 \<times> link_control \<times> linker) option" where
  "link_control_work goal lc s = do {
     let old_debug_segment = k_DebugSegment (l_kernel s);
     let s = (if m_keep_debug lc then set_DebugSegment (k_s7 (l_kernel s) + FIX_SYM_TRUE) s else s);
     tag \<leftarrow> get (k_s7 (l_kernel s) + FIX_SYM_LINK_BLOCK) s;
     s \<leftarrow> put (m_link_block_ptr lc - 4) tag s;
     (rv, lc, s) \<leftarrow>
       (if m_link_version lc = 3 then do { assert_opt (m_opengoal lc); work_v3 goal lc s }
        else if m_link_version lc = 2 \<or> m_link_version lc = 4 then do { assert_opt (\<not> m_opengoal lc); work_v2 goal lc s }
        else None);
     Some (rv, lc, set_DebugSegment old_debug_segment s) }"

definition basename_goal :: "string \<Rightarrow> string" where
  "basename_goal s = rev (takeWhile (\<lambda>c. c \<noteq> CHR 0x5C \<and> c \<noteq> CHR ''/'') (rev s))"

definition LINK_CONTROL_NAME_ADDR :: u32 where "LINK_CONTROL_NAME_ADDR = 0x13AD80"
definition GOAL_RELOC_METHOD :: u32 where "GOAL_RELOC_METHOD = 7"

definition call_method_of_type_arg2 :: "goal_code \<Rightarrow> u32 \<Rightarrow> u32 \<Rightarrow> u32 \<Rightarrow> u32 \<Rightarrow> u32 \<Rightarrow> linker \<Rightarrow> linker option" where
  "call_method_of_type_arg2 goal arg type method_id a1 a2 s = do {
     assert_opt (in_goal_memory type (l_kernel s) \<and> type AND OFFSET_MASK = BASIC_OFFSET);
     type_tag \<leftarrow> get (type - 4) s;
     type_type \<leftarrow> get (k_s7 (l_kernel s) + FIX_SYM_TYPE_TYPE) s;
     assert_opt (type_tag = type_type);
     f \<leftarrow> get (type + type_method method_id) s;
     call_goal goal f arg a1 a2 s }"

definition add_EnableMethodSet :: "u32 \<Rightarrow> linker \<Rightarrow> linker option" where
  "add_EnableMethodSet n s = do {
     x \<leftarrow> get (k_EnableMethodSet (l_kernel s)) s;
     put (k_EnableMethodSet (l_kernel s)) (x + n) s }"

text \<open>
  The control block is \<open>self s\<close>: the global one may have been used for another object while GOAL code ran.
\<close>

definition link_control_finish :: "goal_code \<Rightarrow> (linker \<Rightarrow> link_control) \<Rightarrow> linker \<Rightarrow> linker option" where
  "link_control_finish goal self s = do {
     let old_debug_segment = k_DebugSegment (l_kernel s);
     let s = (if m_keep_debug (self s) then set_DebugSegment (k_s7 (l_kernel s) + FIX_SYM_TRUE) s else s);
     let s = (if m_flags (self s) AND LINK_FLAG_FORCE_FAST_LINK \<noteq> 0 then s\<lparr>l_kernel := (l_kernel s)\<lparr>k_FastLink := 1\<rparr>\<rparr> else s);
     s \<leftarrow> add_EnableMethodSet (of_bool (m_keep_debug (self s))) s;
     version \<leftarrow> get (m_link_block_ptr (self s) + object_file_version) s;
     let execute = (m_flags (self s) AND LINK_FLAG_EXECUTE \<noteq> 0);
     s \<leftarrow> (if version = 3 then
             (if m_entry (self s) \<noteq> 0 \<and> execute then call_goal goal (m_entry (self s)) 0 0 0 s else Some s)
           else if execute then do {
             let entry = m_entry (self s);
             let name = basename_goal (m_object_name (self s));
             let s = on_ram (store_bytes LINK_CONTROL_NAME_ADDR (str_bytes name @ [0])) s;
             type \<leftarrow> get (entry - 4) s;
             call_method_of_type_arg2 goal entry type GOAL_RELOC_METHOD (m_heap (self s)) LINK_CONTROL_NAME_ADDR s }
           else Some s);
     s \<leftarrow> add_EnableMethodSet (- of_bool (m_keep_debug (self s))) s;
     let s = s\<lparr>l_kernel := (l_kernel s)\<lparr>k_FastLink := 0\<rparr>\<rparr>;
     assert_opt (m_heap (self s) \<noteq> 0);
     let s = on_ram (set_heap_top (m_heap (self s)) (m_heap_top (self s))) s;
     Some (set_DebugSegment old_debug_segment s) }"

text \<open>Work until it is done.\<close>

partial_function (option) work_until_done :: "goal_code \<Rightarrow> link_control \<Rightarrow> linker \<Rightarrow> (link_control \<times> linker) option" where
  "work_until_done goal lc s = do {
     (done, lc, s) \<leftarrow> link_control_work goal lc s;
     if done = 0 then work_until_done goal lc s else Some (lc, s) }"

definition link_and_exec :: "goal_code \<Rightarrow> u32 \<Rightarrow> string \<Rightarrow> s32 \<Rightarrow> u32 \<Rightarrow> u32 \<Rightarrow> linker \<Rightarrow> (u32 \<times> linker) option" where
  "link_and_exec goal data name sz heap flags s = do {
     (lc, s) \<leftarrow> link_control_begin goal data name sz heap flags zero_link_control s;
     (lc, s) \<leftarrow> work_until_done goal lc s;
     s \<leftarrow> link_control_finish goal (\<lambda>_. lc) s;
     Some (m_entry lc, s) }"

text \<open>The state of these two is the global \<^verbatim>\<open>saved_link_control\<close>.\<close>

definition link_resume :: "goal_code \<Rightarrow> linker \<Rightarrow> (bool \<times> linker) option" where
  "link_resume goal s = do {
     (work_result, lc, s) \<leftarrow> link_control_work goal (saved_link_control s) s;
     let s = s\<lparr>saved_link_control := lc\<rparr>;
     s \<leftarrow> (if work_result \<noteq> 0 then link_control_finish goal saved_link_control s else Some s);
     Some (work_result \<noteq> 0, s) }"

definition link_begin :: "goal_code \<Rightarrow> u32 \<Rightarrow> u32 \<Rightarrow> s32 \<Rightarrow> u32 \<Rightarrow> u32 \<Rightarrow> linker \<Rightarrow> (bool \<times> linker) option" where
  "link_begin goal object_data name sz heap flags s = do {
     name \<leftarrow> c_string (mem s) name;
     (lc, s) \<leftarrow> link_control_begin goal object_data name sz heap flags (saved_link_control s) s;
     link_resume goal (s\<lparr>saved_link_control := lc\<rparr>) }"

end
