(* ===== verification/Data_Object.thy ===== *)
theory Data_Object
  imports Containers Goal_Constants
begin

text \<open>
  The generator of data objects (\<^verbatim>\<open>goalc/data_compiler/DataObjectGenerator.cpp\<close>): words with links to other
  words, to symbols and to types, written with a link table in the version 2 or version 4 format. Word indices
  are \<^verbatim>\<open>int\<close>; a negative one, or one that is too large, throws where it is used.
\<close>

section \<open>State\<close>

record PointerLinkRecord =
  source_word :: int
  target_byte :: int

record DataObjectGenerator =
  m_string_pool :: "int smap"
  m_words :: "u32 list"
  m_ptr_links :: "PointerLinkRecord list"
  m_type_links :: "int smap"
  m_symbol_links :: "int smap"

definition new_DataObjectGenerator :: DataObjectGenerator where
  "new_DataObjectGenerator =
    \<lparr>m_string_pool = [], m_words = [], m_ptr_links = [], m_type_links = [], m_symbol_links = []\<rparr>"

section \<open>Integers of the link table\<close>

text \<open>The first kind takes a byte for every 255; a last byte of 255 is followed by 0.\<close>

function push_variable_length_integer :: "u32 \<Rightarrow> u8 list" where
  "push_variable_length_integer value =
    (if 255 < value then 255 # push_variable_length_integer (value - 255)
     else if value = 255 then [255, 0]
     else [ucast value])"
  by pat_completeness auto

lemma minus_255_less: "255 < v \<Longrightarrow> unat (v - 255 :: u32) < unat v"
  by (simp add: word_less_nat_alt unat_sub_if')

termination push_variable_length_integer
  by (relation "measure unat") (use minus_255_less in auto)

declare push_variable_length_integer.simps [simp del]

text \<open>The second kind is for multiples of 4: the two low bits of the first byte give the number of further bytes.\<close>

definition push_better_variable_length_integer :: "u32 \<Rightarrow> u8 list" where
  "push_better_variable_length_integer value =
    (let b = (\<lambda>n. ucast (drop_bit n value AND 0xff)) in
     if 0xffffff < value then [ucast ((value AND 0xff) OR 3), b 8, b 16, b 24]
     else if 0xffff < value then [ucast ((value AND 0xff) OR 2), b 8, b 16]
     else if 0xff < value then [ucast ((value AND 0xff) OR 1), b 8]
     else [b 0])"

section \<open>Adding words\<close>

definition add_word :: "u32 \<Rightarrow> DataObjectGenerator \<Rightarrow> int \<times> DataObjectGenerator" where
  "add_word word g = (int (length (m_words g)), g\<lparr>m_words := m_words g @ [word]\<rparr>)"

definition link_word_to_byte :: "int \<Rightarrow> int \<Rightarrow> DataObjectGenerator \<Rightarrow> DataObjectGenerator" where
  "link_word_to_byte source target g =
    g\<lparr>m_ptr_links := m_ptr_links g @ [\<lparr>source_word = source, target_byte = target\<rparr>]\<rparr>"

definition link_word_to_word :: "int \<Rightarrow> int \<Rightarrow> int \<Rightarrow> DataObjectGenerator \<Rightarrow> DataObjectGenerator" where
  "link_word_to_word source target offset = link_word_to_byte source (target * 4 + offset)"

definition add_ref_to_string_in_pool :: "string \<Rightarrow> DataObjectGenerator \<Rightarrow> int \<times> DataObjectGenerator" where
  "add_ref_to_string_in_pool str g =
    (let result = int (length (m_words g)) in
     (result, g\<lparr>m_words := m_words g @ [0], m_string_pool := smap_push str result (m_string_pool g)\<rparr>))"

definition add_type_tag :: "string \<Rightarrow> DataObjectGenerator \<Rightarrow> int \<times> DataObjectGenerator" where
  "add_type_tag str g =
    (let result = int (length (m_words g)) in
     (result, g\<lparr>m_words := m_words g @ [0], m_type_links := smap_push str result (m_type_links g)\<rparr>))"

definition add_symbol_link :: "string \<Rightarrow> DataObjectGenerator \<Rightarrow> int \<times> DataObjectGenerator" where
  "add_symbol_link str g =
    (let result = int (length (m_words g)) in
     (result, g\<lparr>m_words := m_words g @ [0], m_symbol_links := smap_push str result (m_symbol_links g)\<rparr>))"

definition align_words :: "nat \<Rightarrow> DataObjectGenerator \<Rightarrow> DataObjectGenerator option" where
  "align_words alignment_words g = do {
     ws \<leftarrow> pad_to alignment_words (m_words g);
     Some (g\<lparr>m_words := ws\<rparr>) }"

definition data_words :: "DataObjectGenerator \<Rightarrow> int" where
  "data_words g = int (length (m_words g))"

text \<open>The characters of a string with their terminator, in whole words.\<close>

function words_of_bytes :: "u8 list \<Rightarrow> u32 list" where
  "words_of_bytes bs = (if bs = [] then [] else le_word (take 4 bs) # words_of_bytes (drop 4 bs))"
  by pat_completeness auto
termination
  by (relation "measure length") auto

declare words_of_bytes.simps [simp del]

definition add_string :: "string \<times> int list \<Rightarrow> DataObjectGenerator \<Rightarrow> DataObjectGenerator option" where
  "add_string entry g = do {
     g \<leftarrow> align_words 4 g;
     let (_, g) = add_type_tag ''string'' g;
     let (target_word, g) = add_word (of_nat (length (fst entry))) g;
     string_buff \<leftarrow> pad_to 4 (str_bytes (fst entry) @ [0]);
     let g = fold (\<lambda>w g. snd (add_word w g)) (words_of_bytes string_buff) g;
     Some (fold (\<lambda>source. link_word_to_word source target_word 0) (snd entry) g) }"

definition add_strings :: "DataObjectGenerator \<Rightarrow> DataObjectGenerator option" where
  "add_strings g = fold_opt add_string (m_string_pool g) g"

section \<open>The link table\<close>

definition set_word :: "int \<Rightarrow> u32 \<Rightarrow> u32 list \<Rightarrow> u32 list option" where
  "set_word i v ws = modify_at ws i (\<lambda>_. v)"

text \<open>The inner loop: the links whose source is the next word. The results are the words, the number of
  links so far, the last source, and the links that are left.\<close>

fun take_run :: "int \<Rightarrow> PointerLinkRecord list \<Rightarrow> u32 list \<Rightarrow> int \<Rightarrow> (u32 list \<times> int \<times> int \<times> PointerLinkRecord list) option" where
  "take_run cur [] ws consecutive = Some (ws, consecutive, cur, [])"
| "take_run cur (e # es) ws consecutive =
    (if source_word e = cur + 1 then do {
       ws \<leftarrow> set_word (source_word e) (word_of_int (target_byte e)) ws;
       take_run (source_word e) es ws (consecutive + 1) }
     else Some (ws, consecutive, cur, e # es))"

lemma take_run_shorter: "take_run cur es ws n = Some (ws', n', cur', es') \<Longrightarrow> length es' \<le> length es"
  by (induction cur es ws n rule: take_run.induct) (auto simp: bind_eq_Some_conv split: if_splits)

function pointer_table :: "int \<Rightarrow> PointerLinkRecord list \<Rightarrow> u32 list \<Rightarrow> (u32 list \<times> u8 list) option" where
  "pointer_table last_word [] ws = Some (ws, [])"
| "pointer_table last_word (e # es) ws =
    (let diff = source_word e - last_word in
     if diff < 0 then None
     else case set_word (source_word e) (word_of_int (target_byte e)) ws of
       None \<Rightarrow> None
     | Some ws \<Rightarrow>
         (case take_run (source_word e) es ws 1 of
            None \<Rightarrow> None
          | Some (ws, consecutive, cur, es) \<Rightarrow> do {
              (ws, link) \<leftarrow> pointer_table (cur + 1) es ws;
              Some (ws, push_variable_length_integer (word_of_int diff) @
                push_variable_length_integer (word_of_int consecutive) @ link) }))"
  by pat_completeness auto
termination
  by (relation "measure (\<lambda>(_, es, _). length es)") (auto dest: take_run_shorter)

declare pointer_table.simps [simp del]

text \<open>The links of one name.\<close>

fun offset_table :: "int \<Rightarrow> int list \<Rightarrow> u32 list \<Rightarrow> (u32 list \<times> u8 list) option" where
  "offset_table prev [] ws = Some (ws, [])"
| "offset_table prev (x # xs) ws =
    (let diff = x - prev in
     if diff < 0 then None
     else do {
       ws \<leftarrow> set_word x 0xffffffff ws;
       (ws, link) \<leftarrow> offset_table x xs ws;
       Some (ws, push_better_variable_length_integer (word_of_int (diff * 4)) @ link) })"

fun name_table :: "u8 list \<Rightarrow> int smap \<Rightarrow> u32 list \<Rightarrow> (u32 list \<times> u8 list) option" where
  "name_table tag [] ws = Some (ws, [])"
| "name_table tag ((name, xs) # m) ws = do {
     (ws, offs) \<leftarrow> offset_table 0 (sort xs) ws;
     (ws, link) \<leftarrow> name_table tag m ws;
     Some (ws, tag @ str_bytes name @ [0] @ offs @ [0] @ link) }"

definition sizeof_LinkHeaderV2 :: nat where "sizeof_LinkHeaderV2 = 12"
definition sizeof_LinkHeaderV4 :: nat where "sizeof_LinkHeaderV4 = 16"

definition sort_names :: "int smap \<Rightarrow> int smap" where
  "sort_names m = map (\<lambda>(name, xs). (name, sort xs)) m"

definition generate_link_table :: "DataObjectGenerator \<Rightarrow> (u8 list \<times> DataObjectGenerator) option" where
  "generate_link_table g = do {
     let links = sort_key source_word (m_ptr_links g);
     (ws, ptrs) \<leftarrow> pointer_table 0 links (m_words g);
     (ws, symbols) \<leftarrow> name_table [] (m_symbol_links g) ws;
     (ws, types) \<leftarrow> name_table [0x80] (m_type_links g) ws;
     let link = ptrs @ push_variable_length_integer 0 @ symbols @ types @ push_variable_length_integer 0;
     padded \<leftarrow> pad_to 64 (replicate sizeof_LinkHeaderV2 0 @ link);
     Some (drop sizeof_LinkHeaderV2 padded,
       g\<lparr>m_words := ws, m_ptr_links := links, m_symbol_links := sort_names (m_symbol_links g),
         m_type_links := sort_names (m_type_links g)\<rparr>) }"

section \<open>The object\<close>

definition LinkHeaderV2_bytes :: "u32 \<Rightarrow> u8 list" where
  "LinkHeaderV2_bytes len = le_bytes 4 (0xffffffff :: u32) @ le_bytes 4 len @ le_bytes 4 (2 :: u32)"

definition LinkHeaderV4_bytes :: "u32 \<Rightarrow> u32 \<Rightarrow> u8 list" where
  "LinkHeaderV4_bytes len code_size =
    le_bytes 4 (0xffffffff :: u32) @ le_bytes 4 len @ le_bytes 4 (4 :: u32) @ le_bytes 4 code_size"

definition word_bytes :: "u32 list \<Rightarrow> u8 list" where
  "word_bytes ws = concat (map (le_bytes 4) ws)"

definition header_length :: "u8 list \<Rightarrow> u32" where
  "header_length link = of_nat (sizeof_LinkHeaderV2 + length link)"

definition generate_v2 :: "DataObjectGenerator \<Rightarrow> (u8 list \<times> DataObjectGenerator) option" where
  "generate_v2 g = do {
     g \<leftarrow> add_strings g;
     (link, g) \<leftarrow> generate_link_table g;
     result \<leftarrow> pad_to 16 (LinkHeaderV2_bytes (header_length link) @ link @ word_bytes (m_words g));
     Some (result, g) }"

definition generate_v4 :: "DataObjectGenerator \<Rightarrow> (u8 list \<times> DataObjectGenerator) option" where
  "generate_v4 g = do {
     g \<leftarrow> add_strings g;
     (link, g) \<leftarrow> generate_link_table g;
     result \<leftarrow> pad_to 16 (LinkHeaderV4_bytes (header_length link) (4 * of_nat (length (m_words g))) @ word_bytes (m_words g));
     Some (result @ LinkHeaderV2_bytes (header_length link) @ link, g) }"

end
