(* ===== verification/Data_Table.thy ===== *)
theory Data_Table
  imports Data_Object
begin

text \<open>
  The link table of a data object as a language: a decoder for the two kinds of integers that knows nothing of
  the generator, and what it makes of the table the generator writes.
\<close>

section \<open>The table of pointers\<close>

text \<open>
  The words that a table of pointers selects, from word \<open>k\<close> on; \<open>fixing\<close> is whether the next number counts words to
  fix or words to skip. The table ends before a 0 that follows a number; the rest begins with that 0.
\<close>

definition selected :: "bool \<Rightarrow> nat \<Rightarrow> nat \<Rightarrow> nat list" where
  "selected fixing i j = (if fixing then [i ..< j] else [])"

definition then_words :: "nat list \<Rightarrow> (nat list \<times> u8 list) option \<Rightarrow> (nat list \<times> u8 list) option" where
  "then_words ks x = do { (js, r) \<leftarrow> x; Some (ks @ js, r) }"

fun decode_pointers :: "nat \<Rightarrow> bool \<Rightarrow> u8 list \<Rightarrow> (nat list \<times> u8 list) option" where
  "decode_pointers k fixing (c # n # bs) =
    (let k' = k + unat c; ks = selected fixing k k' in
     if c = 255 then
       (if n = 0 then then_words ks (decode_pointers k' (\<not> fixing) bs)
        else then_words ks (decode_pointers k' fixing (n # bs)))
     else if n = 0 then Some (ks, n # bs)
     else then_words ks (decode_pointers k' (\<not> fixing) (n # bs)))"
| "decode_pointers k fixing _ = None"

lemma selected_join: "i \<le> j \<Longrightarrow> j \<le> k \<Longrightarrow> selected b i j @ selected b j k = selected b i k"
  by (auto simp: selected_def) (metis le_Suc_ex upt_add_eq_append)

lemma selected_same [simp]: "selected b i i = []"
  by (simp add: selected_def)

lemma then_words_simps [simp]:
  "then_words [] x = x" "then_words ks (then_words ls x) = then_words (ks @ ls) x" "then_words ks (Some (js, r)) = Some (ks @ js, r)"
  by (auto simp: then_words_def split: bind_splits)

text \<open>A number is a byte of 255 for every 255 it has, and the remainder.\<close>

definition vli_bytes :: "nat \<Rightarrow> u8 list" where
  "vli_bytes v = replicate (v div 255) 255 @ [of_nat (v mod 255)]"

lemma push_vli: "push_variable_length_integer v = vli_bytes (unat v)"
proof (induction v rule: push_variable_length_integer.induct)
  case (1 v)
  consider "255 < v" | "v = 255" | "v < 255" by (metis linorder_neqE)
  then show ?case
  proof cases
    case 1
    have u: "unat v = unat (v - 255) + 255" using 1 by (simp add: unat_sub_if' word_less_nat_alt)
    show ?thesis
      using 1 "1.IH" by (simp add: push_variable_length_integer.simps [of v] vli_bytes_def u div_add_self2)
  next
    case 2
    then show ?thesis by (simp add: push_variable_length_integer.simps vli_bytes_def)
  next
    case 3
    then have "unat v < 255" by (simp add: word_less_nat_alt)
    then have "ucast v = (of_nat (unat v) :: u8)" by simp
    then show ?thesis using 3 \<open>unat v < 255\<close> by (auto simp: push_variable_length_integer.simps [of v] vli_bytes_def)
  qed
qed

lemma small_byte: "r < 255 \<Longrightarrow> unat (of_nat r :: u8) = r" "r < 255 \<Longrightarrow> (of_nat r :: u8) \<noteq> 255"
  "r < 255 \<Longrightarrow> (of_nat r :: u8) = 0 \<longleftrightarrow> r = 0"
proof -
  show *: "r < 255 \<Longrightarrow> unat (of_nat r :: u8) = r" for r by (simp add: unat_of_nat take_bit_nat_eq_self)
  show "r < 255 \<Longrightarrow> (of_nat r :: u8) \<noteq> 255" using * [of r] by auto
  show "r < 255 \<Longrightarrow> (of_nat r :: u8) = 0 \<longleftrightarrow> r = 0" using * [of r] by auto
qed

lemma vli_hd: "0 < v \<Longrightarrow> \<exists>b bs. vli_bytes v = b # bs \<and> b \<noteq> 0"
proof -
  assume "0 < v"
  show ?thesis
  proof (cases "v div 255")
    case 0
    then have "v < 255" by (simp add: div_eq_0_iff)
    then show ?thesis using \<open>0 < v\<close> by (simp add: vli_bytes_def small_byte)
  qed (simp add: vli_bytes_def)
qed

text \<open>
  A number is read as one, and the mode changes behind it. Behind a multiple of 255 the reader does not look for the end
  of the table.
\<close>

lemma decode_255s:
  assumes "n \<noteq> 0"
  shows "decode_pointers k fixing (replicate q 255 @ n # bs) =
    then_words (selected fixing k (k + 255 * q)) (decode_pointers (k + 255 * q) fixing (n # bs))"
proof (induction q arbitrary: k)
  case (Suc q)
  have "decode_pointers k fixing (255 # replicate q 255 @ n # bs) =
      then_words (selected fixing k (k + 255)) (decode_pointers (k + 255) fixing (replicate q 255 @ n # bs))"
    using assms by (cases q) (simp_all add: Let_def)
  moreover have "selected fixing k (k + 255) @ selected fixing (k + 255) (k + 255 + 255 * q) = selected fixing k (k + 255 + 255 * q)"
    by (simp add: selected_join)
  ultimately show ?case by (simp add: Suc.IH [of "k + 255"] algebra_simps)
qed simp

lemma decode_vli:
  assumes "v = 0 \<or> v mod 255 \<noteq> 0"
  shows "decode_pointers k fixing (vli_bytes v @ n # bs) =
    (if n = 0 then Some (selected fixing k (k + v), n # bs)
     else then_words (selected fixing k (k + v)) (decode_pointers (k + v) (\<not> fixing) (n # bs)))"
proof -
  let ?q = "v div 255" and ?r = "v mod 255"
  have r: "?r < 255" and v: "k + 255 * ?q + ?r = k + v" by simp_all
  have one: "decode_pointers j fixing (of_nat ?r # n # bs) =
     (if n = 0 then Some (selected fixing j (j + ?r), n # bs)
      else then_words (selected fixing j (j + ?r)) (decode_pointers (j + ?r) (\<not> fixing) (n # bs)))" for j
    using small_byte [OF r] by (simp add: Let_def)
  show ?thesis
  proof (cases "v = 0")
    case True
    then show ?thesis using one [of k] by (simp add: vli_bytes_def)
  next
    case False
    then have "(of_nat ?r :: u8) \<noteq> 0" using assms small_byte(3) [OF r] by simp
    moreover have "selected fixing k (k + 255 * ?q) @ selected fixing (k + 255 * ?q) (k + v) = selected fixing k (k + v)"
      by (rule selected_join) simp_all
    ultimately show ?thesis
      using decode_255s [of "of_nat ?r" k fixing ?q "n # bs"] one [of "k + 255 * ?q"]
      by (simp add: vli_bytes_def v)
  qed
qed

lemma decode_vli_255:
  assumes "0 < v" "v mod 255 = 0"
  shows "decode_pointers k fixing (vli_bytes v @ bs) =
    then_words (selected fixing k (k + v)) (decode_pointers (k + v) (\<not> fixing) bs)"
proof -
  obtain q where "v = 255 * Suc q" using assms by (metis dvd_def mod_0_imp_dvd not0_implies_Suc mult_0_right less_irrefl)
  then have v: "v = 255 * q + 255" by simp
  have "vli_bytes v = replicate q 255 @ [255, 0]"
    by (simp add: vli_bytes_def v replicate_append_same [symmetric])
  moreover have "selected fixing k (k + 255 * q) @ selected fixing (k + 255 * q) (k + (255 * q + 255)) = selected fixing k (k + (255 * q + 255))"
    by (rule selected_join) simp_all
  ultimately show ?thesis
    using decode_255s [of 255 k fixing q "0 # bs"] by (simp add: Let_def v add.assoc)
qed

lemma decode_number:
  assumes "0 < v" "n \<noteq> 0"
  shows "decode_pointers k fixing (vli_bytes v @ n # bs) = then_words (selected fixing k (k + v)) (decode_pointers (k + v) (\<not> fixing) (n # bs))"
  using assms decode_vli [of v k fixing n bs] decode_vli_255 [of v k fixing "n # bs"] by (cases "v mod 255 = 0") simp_all

section \<open>The table that is generated\<close>

abbreviation sources :: "PointerLinkRecord list \<Rightarrow> int list" where
  "sources es \<equiv> map source_word es"

definition set_targets :: "PointerLinkRecord list \<Rightarrow> u32 list \<Rightarrow> u32 list option" where
  "set_targets es = fold_opt (\<lambda>e. set_word (source_word e) (word_of_int (target_byte e))) es"

text \<open>The number of words in the last run of neighbours, when \<open>n\<close> words up to the first one are in its run.\<close>

fun last_run :: "nat \<Rightarrow> int list \<Rightarrow> nat" where
  "last_run n (x # y # xs) = last_run (if y = x + 1 then Suc n else 1) (y # xs)"
| "last_run n _ = n"

lemma take_run_Some:
  assumes "take_run cur es ws n = Some (ws', n', cur', es')"
  shows "\<exists>rs. es = rs @ es' \<and> sources rs = [cur + 1 .. cur'] \<and> cur \<le> cur' \<and> n' = n + (cur' - cur) \<and>
    set_targets rs ws = Some ws' \<and> (es' = [] \<or> source_word (hd es') \<noteq> cur' + 1)"
  using assms
proof (induction cur es ws n rule: take_run.induct)
  case (1 cur ws n)
  then show ?case by (auto simp: set_targets_def)
next
  case (2 cur e es ws n)
  show ?case
  proof (cases "source_word e = cur + 1")
    case False
    then show ?thesis using "2.prems" by (auto simp: set_targets_def)
  next
    case True
    then obtain ws1 where ws1: "set_word (source_word e) (word_of_int (target_byte e)) ws = Some ws1"
      "take_run (source_word e) es ws1 (n + 1) = Some (ws', n', cur', es')"
      using "2.prems" by (auto simp: bind_eq_Some_conv)
    from "2.IH" [OF True this] obtain rs where rs: "es = rs @ es'" "sources rs = [source_word e + 1 .. cur']" "source_word e \<le> cur'"
      "n' = n + 1 + (cur' - source_word e)" "set_targets rs ws1 = Some ws'" "es' = [] \<or> source_word (hd es') \<noteq> cur' + 1" by blast
    have "sources (e # rs) = [cur + 1 .. cur']"
      using rs(2,3) True by (simp add: upto_rec1 [of "cur + 1"])
    then show ?thesis
      using rs ws1(1) True by (intro exI [of _ "e # rs"]) (auto simp: set_targets_def)
  qed
qed

lemma last_run_append:
  assumes "cur \<le> c" "xs = [] \<or> hd xs \<noteq> c + 1"
  shows "last_run n ([cur .. c] @ xs) = (if xs = [] then n + nat (c - cur) else last_run 1 xs)"
  using assms
proof (induction "nat (c - cur)" arbitrary: n cur)
  case 0
  then show ?case by (cases xs) auto
next
  case (Suc m)
  then have "cur + 1 \<le> c" by simp
  then have "[cur .. c] = cur # [cur + 1 .. c]" "[cur + 1 .. c] = (cur + 1) # [cur + 1 + 1 .. c]"
    by (simp_all only: upto_rec1)
  then have "last_run n ([cur .. c] @ xs) = last_run (Suc n) ([cur + 1 .. c] @ xs)" by simp
  moreover have "Suc (nat (c - (cur + 1))) = nat (c - cur)" using \<open>cur + 1 \<le> c\<close> by arith
  ultimately show ?case using Suc.hyps(1) [of "cur + 1" "Suc n"] Suc.hyps(2) Suc.prems(2) \<open>cur + 1 \<le> c\<close> by auto
qed

lemma set_word_Some: "set_word i v ws = Some ws' \<longleftrightarrow> 0 \<le> i \<and> nat i < length ws \<and> ws' = ws[nat i := v]"
  by (auto simp: set_word_def modify_at_Some)

lemma set_targets_length: "set_targets es ws = Some ws' \<Longrightarrow> length ws' = length ws"
  unfolding set_targets_def by (rule fold_opt_frame) (auto simp: set_word_Some)

text \<open>One step of the outer loop.\<close>

lemma pointer_table_step:
  assumes "pointer_table last_word (e # es) ws = Some (ws', T)"
  obtains rs es' c ws1 T' where "es = rs @ es'" "sources (e # rs) = [source_word e .. c]" "source_word e \<le> c" "last_word \<le> source_word e"
    "set_targets (e # rs) ws = Some ws1" "es' = [] \<or> source_word (hd es') \<noteq> c + 1" "pointer_table (c + 1) es' ws1 = Some (ws', T')"
    "T = push_variable_length_integer (word_of_int (source_word e - last_word)) @
      push_variable_length_integer (word_of_int (c + 1 - source_word e)) @ T'"
proof -
  obtain ws0 ws1 n c es' T' where r: "\<not> source_word e - last_word < 0" "set_word (source_word e) (word_of_int (target_byte e)) ws = Some ws0"
    "take_run (source_word e) es ws0 1 = Some (ws1, n, c, es')" "pointer_table (c + 1) es' ws1 = Some (ws', T')"
    "T = push_variable_length_integer (word_of_int (source_word e - last_word)) @ push_variable_length_integer (word_of_int n) @ T'"
    using assms by (auto simp: pointer_table.simps Let_def bind_eq_Some_conv split: if_splits option.splits)
  from take_run_Some [OF r(3)] obtain rs where rs: "es = rs @ es'" "sources rs = [source_word e + 1 .. c]" "source_word e \<le> c"
    "n = 1 + (c - source_word e)" "set_targets rs ws0 = Some ws1" "es' = [] \<or> source_word (hd es') \<noteq> c + 1" by blast
  have n: "n = c + 1 - source_word e" using rs(4) by simp
  have "sources (e # rs) = [source_word e .. c]" using rs(2,3) by (simp add: upto_rec1 [of "source_word e"])
  moreover have "set_targets (e # rs) ws = Some ws1" using r(2) rs(5) by (simp add: set_targets_def)
  ultimately show thesis using r(1,4,5) rs(1,3,6) unfolding n by (intro that) simp_all
qed

text \<open>
  The words of the generator: the target of each source, and no other change. The table: where the first word is not a
  source and the last run is not a multiple of 255 long, the decoder finds the sources and the end.
\<close>

lemma set_word_range: "set_targets es ws = Some ws' \<Longrightarrow> e \<in> set es \<Longrightarrow> 0 \<le> source_word e \<and> nat (source_word e) < length ws"
proof (induction es arbitrary: ws)
  case (Cons x es)
  then obtain ws1 where w: "set_word (source_word x) (word_of_int (target_byte x)) ws = Some ws1" "set_targets es ws1 = Some ws'"
    by (auto simp: set_targets_def bind_eq_Some_conv)
  then have "length ws1 = length ws" by (simp add: set_word_Some)
  then show ?case using Cons.IH [OF w(2)] Cons.prems(2) w(1) by (auto simp: set_word_Some)
qed simp

lemma pointer_table_words:
  "pointer_table last_word es ws = Some (ws', T) \<Longrightarrow> set_targets es ws = Some ws'"
proof (induction "length es" arbitrary: last_word es ws T rule: less_induct)
  case less
  show ?case
  proof (cases es)
    case Nil
    then show ?thesis using less.prems by (simp add: set_targets_def pointer_table.simps)
  next
    case (Cons e es0)
    from less.prems [unfolded Cons] obtain rs es' c ws1 T' where r: "es0 = rs @ es'" "set_targets (e # rs) ws = Some ws1"
      "pointer_table (c + 1) es' ws1 = Some (ws', T')" by (rule pointer_table_step)
    have "set_targets es' ws1 = Some ws'" using less.hyps [OF _ r(3)] Cons r(1) by simp
    then show ?thesis using r(1,2) Cons fold_opt_append [of _ "e # rs" es' ws]
      unfolding set_targets_def by (simp only: append_Cons Option.bind.bind_lunit)
  qed
qed

lemma pointer_table_hd: "pointer_table last_word es ws = Some (ws', T) \<Longrightarrow> es \<noteq> [] \<Longrightarrow> last_word \<le> source_word (hd es)"
  by (cases es) (auto elim!: pointer_table_step)

lemma nat_upto: "0 \<le> a \<Longrightarrow> map nat [a .. c] = [nat a ..< nat (c + 1)]"
proof (induction "nat (c + 1 - a)" arbitrary: a)
  case (Suc m)
  then have "a \<le> c" by simp
  then have "[a .. c] = a # [a + 1 .. c]" "[nat a ..< nat (c + 1)] = nat a # [Suc (nat a) ..< nat (c + 1)]"
    using Suc.prems by (simp_all only: upto_rec1) (rule upt_conv_Cons, simp)
  then show ?case using Suc.hyps(1) [of "a + 1"] Suc.hyps(2) Suc.prems by (simp add: Suc_nat_eq_nat_zadd1 add.commute del: upt_Suc)
qed simp

lemma pointer_table_decodes:
  assumes "pointer_table last_word es ws = Some (ws', T)" "es \<noteq> []" "0 \<le> last_word" "last_word < source_word (hd es)"
    and "length ws < 2 ^ 32"
  shows "decode_pointers (nat last_word) False (T @ 0 # rest) =
      (if last_run 1 (sources es) mod 255 \<noteq> 0 then Some (map nat (sources es), 0 # rest)
       else then_words (map nat (sources es)) (decode_pointers (nat (last (sources es) + 1)) False (0 # rest)))" (is "?decoded es")
    and "\<exists>b bs. T = b # bs \<and> b \<noteq> 0"
proof -
  have "?decoded es \<and> (\<exists>b bs. T = b # bs \<and> b \<noteq> 0)"
  using assms
  proof (induction "length es" arbitrary: last_word es ws T rule: less_induct)
    case less
    then obtain e es0 where es: "es = e # es0" by (cases es) auto
    from less.prems(1) [unfolded es] obtain rs es' c ws1 T' where r: "es0 = rs @ es'" "sources (e # rs) = [source_word e .. c]" "source_word e \<le> c"
      "set_targets (e # rs) ws = Some ws1" "es' = [] \<or> source_word (hd es') \<noteq> c + 1" "pointer_table (c + 1) es' ws1 = Some (ws', T')"
      and T: "T = push_variable_length_integer (word_of_int (source_word e - last_word)) @
        push_variable_length_integer (word_of_int (c + 1 - source_word e)) @ T'" by (rule pointer_table_step)
    have len: "length ws1 = length ws" using set_targets_length [OF r(4)] .
    have src: "sources es = [source_word e .. c] @ sources es'" unfolding r(2) [symmetric] by (simp add: es r(1))
    have "c \<in> set (sources (e # rs))" unfolding r(2) using r(3) by simp
    then obtain x where x: "x \<in> set (e # rs)" "source_word x = c" by auto
    have c: "0 \<le> c" "c < 2 ^ 32" using set_word_range [OF r(4) x(1)] less.prems(5) x(2) by auto
    let ?s = "source_word e"
    let ?d = "nat (?s - last_word)" and ?n = "nat (c + 1 - ?s)"
    have pos: "0 < ?d" "0 < ?n" "0 \<le> last_word" using less.prems(3,4) r(3) es by auto
    have small: "unat (word_of_int x :: u32) = nat x" if "0 \<le> x" "x < 2 ^ 32" for x
      using that by (simp add: unsigned_of_int take_bit_int_eq_self)
    have u: "unat (word_of_int (?s - last_word) :: u32) = ?d" "unat (word_of_int (c + 1 - ?s) :: u32) = ?n"
      using c r(3) less.prems(3,4) es by (intro small; simp)+
    obtain b bs where b: "vli_bytes ?n = b # bs" "b \<noteq> 0" using vli_hd [OF pos(2)] by blast
    have T2: "T = vli_bytes ?d @ vli_bytes ?n @ T'" unfolding T push_vli u by (rule refl)
    have k: "nat last_word + ?d = nat ?s" "nat ?s + ?n = nat (c + 1)" using pos r(3) by arith+
    have sel: "selected True (nat ?s) (nat (c + 1)) = map nat (sources (e # rs))"
      unfolding r(2) using nat_upto [of ?s c] pos less.prems(3,4) es by (simp add: selected_def)
    have "decode_pointers (nat last_word) False (T @ 0 # rest) = decode_pointers (nat ?s) True (vli_bytes ?n @ T' @ 0 # rest)"
      using decode_number [OF pos(1) b(2), of "nat last_word" False "bs @ T' @ 0 # rest"] by (simp add: T2 b(1) k selected_def)
    also have "\<dots> = (if last_run 1 (sources es) mod 255 \<noteq> 0 then Some (map nat (sources es), 0 # rest)
       else then_words (map nat (sources es)) (decode_pointers (nat (last (sources es) + 1)) False (0 # rest)))"
    proof (cases "es' = []")
      case True
      then have "last_run 1 (sources es) = ?n"
        using last_run_append [of ?s c "[]" 1] r(3) by (simp add: src)
      moreover have "T' = []" using r(6) True by (simp add: pointer_table.simps)
      moreover have "last (sources es) = c" using src True r(3) by (metis append_Nil2 last_snoc list.map(1) upto_rec2)
      ultimately show ?thesis
        using decode_vli [of ?n "nat ?s" True 0 rest] decode_vli_255 [OF pos(2), of "nat ?s" True "0 # rest"] True r(1) es
        by (simp add: k sel del: list.map)
    next
      case False
      have hd': "c + 1 < source_word (hd es')" using pointer_table_hd [OF r(6) False] r(5) False by auto
      have "last_run 1 (sources es) = last_run 1 (sources es')"
        using last_run_append [of ?s c "sources es'" 1] r(3,5) False by (simp add: src hd_map)
      moreover have "last (sources es) = last (sources es')" using src False by simp
      ultimately have ih: "decode_pointers (nat (c + 1)) False (T' @ 0 # rest) =
          (if last_run 1 (sources es) mod 255 \<noteq> 0 then Some (map nat (sources es'), 0 # rest)
           else then_words (map nat (sources es')) (decode_pointers (nat (last (sources es) + 1)) False (0 # rest)))" "\<exists>b bs. T' = b # bs \<and> b \<noteq> 0"
        using less.hyps [OF _ r(6) False _ hd'] less.prems(5) c(1) len r(1) es by auto
      then obtain b' bs' where b': "T' = b' # bs'" "b' \<noteq> 0" by blast
      have "map nat (sources (e # rs)) @ map nat (sources es') = map nat (sources es)" by (simp add: es r(1))
      then show ?thesis
        using decode_number [OF pos(2) b'(2), of "nat ?s" True "bs' @ 0 # rest"] ih(1) by (simp add: b'(1) k sel del: list.map map_map)
    qed
    finally show ?case using vli_hd [OF pos(1)] T2 by auto
  qed
  then show "?decoded es" "\<exists>b bs. T = b # bs \<and> b \<noteq> 0" by blast+
qed

section \<open>Distances\<close>

text \<open>The distance in the bytes \<open>f\<close>, flags included, and the number of its bytes.\<close>

definition distance_at :: "(nat \<Rightarrow> u8) \<Rightarrow> u32 \<times> u32" where
  "distance_at f =
    (let result = ucast (f 0) :: u32 in
     if result AND 3 = 0 then (result, 1)
     else let result = push_bit 8 (ucast (f 1)) OR result in
       if result AND 2 = 0 then (result, 2)
       else let result = push_bit 16 (ucast (f 2)) OR result in
         if result AND 1 = 0 then (result, 3)
         else (push_bit 24 (ucast (f 3)) OR result, 4))"

lemma byte_masks: "(0xff :: u32) = mask 8" "(3 :: u32) = mask 2" "(0xfffffffc :: u32) = NOT (mask 2)"
  by (simp_all add: mask_eq_exp_minus_1)

lemma byte_of_word: "ucast (ucast (a :: u32) :: u8) = a AND mask 8"
  by (rule bit_word_eqI) (auto simp: bit_simps)

lemma high_bits:
  assumes "v < 2 ^ k" "k \<le> n" "k < 32"
  shows "\<not> bit (v :: u32) n"
proof -
  have "(2 :: nat) ^ k < 2 ^ 32" using assms(3) by (rule power_strict_increasing) simp
  then have "unat (of_nat (2 ^ k) :: u32) = 2 ^ k" by (simp add: unat_of_nat take_bit_nat_eq_self del: of_nat_power)
  then have "unat (2 ^ k :: u32) = 2 ^ k" by simp
  then have "unat v < 2 ^ k" using assms(1) by (simp add: word_less_nat_alt)
  then have "unat v < 2 ^ n" using assms(2) by (meson order_less_le_trans one_le_numeral power_increasing)
  then have "\<not> bit (unat v) n" by (simp add: bit_iff_odd)
  then show ?thesis by (simp add: bit_unsigned_iff)
qed

text \<open>The bytes of a word, the lowest one with flags, put together.\<close>

definition byte_part :: "nat \<Rightarrow> u32 \<Rightarrow> u32" where
  "byte_part k v = push_bit k (drop_bit k v AND mask 8)"

lemma byte_part_0: "v < 2 ^ k \<Longrightarrow> k < 32 \<Longrightarrow> byte_part k v = 0"
  by (rule bit_word_eqI) (use high_bits [of v k] in \<open>auto simp: byte_part_def bit_simps\<close>)

lemma join_bytes:
  assumes "\<not> bit v 0" "\<not> bit v 1" "\<And>n. 2 \<le> n \<Longrightarrow> \<not> bit x n"
  shows "(byte_part 24 v OR (byte_part 16 v OR (byte_part 8 v OR ((v AND mask 8 OR x) AND mask 8)))) AND NOT (mask 2) = v" (is "?l = v")
proof (rule bit_word_eqI)
  fix n assume "n < LENGTH(32)"
  then consider "n = 0" | "n = 1" | "2 \<le> n" "n < 8" | "8 \<le> n" "n < 16" | "16 \<le> n" "n < 24" | "24 \<le> n" "n < 32" by fastforce
  then show "bit ?l n = bit v n"
    by cases (use assms in \<open>simp_all add: byte_part_def bit_simps, arith+\<close>)
qed

lemma flags_of:
  assumes "\<not> bit v 0" "\<not> bit v 1" "\<And>n. 2 \<le> n \<Longrightarrow> \<not> bit x n"
  shows "((v AND mask 8 OR x) AND mask 8) AND 3 = (x :: u32)" "(byte_part 8 v OR ((v AND mask 8 OR x) AND mask 8)) AND 2 = x AND 2"
    "(byte_part 16 v OR (byte_part 8 v OR ((v AND mask 8 OR x) AND mask 8))) AND 1 = x AND 1"
proof -
  have two: "bit (2 :: u32) n \<longleftrightarrow> n = 1" for n using bit_exp_iff [of 1 n, where 'a = u32] by auto
  have "bit (((v AND mask 8 OR x) AND mask 8) AND 3) n = bit x n" "bit ((byte_part 8 v OR ((v AND mask 8 OR x) AND mask 8)) AND 2) n = bit (x AND 2) n"
    "bit ((byte_part 16 v OR (byte_part 8 v OR ((v AND mask 8 OR x) AND mask 8))) AND 1) n = bit (x AND 1) n" for n
  proof -
    consider "n = 0" | "n = 1" | "2 \<le> n" by linarith
    then show "bit (((v AND mask 8 OR x) AND mask 8) AND 3) n = bit x n" "bit ((byte_part 8 v OR ((v AND mask 8 OR x) AND mask 8)) AND 2) n = bit (x AND 2) n"
      "bit ((byte_part 16 v OR (byte_part 8 v OR ((v AND mask 8 OR x) AND mask 8))) AND 1) n = bit (x AND 1) n"
      by (cases; use assms in \<open>simp add: byte_masks byte_part_def bit_simps two bit_1_iff\<close>)+
  qed
  then show "((v AND mask 8 OR x) AND mask 8) AND 3 = x" "(byte_part 8 v OR ((v AND mask 8 OR x) AND mask 8)) AND 2 = x AND 2"
    "(byte_part 16 v OR (byte_part 8 v OR ((v AND mask 8 OR x) AND mask 8))) AND 1 = x AND 1"
    by (auto intro: bit_word_eqI)
qed

lemma distance_parts:
  assumes "\<not> bit v 0" "\<not> bit v 1" "\<And>n. 2 \<le> n \<Longrightarrow> \<not> bit x n" "ucast (f 0) = (v AND mask 8 OR x) AND mask 8"
    and "x \<noteq> 0 \<Longrightarrow> push_bit 8 (ucast (f 1)) = byte_part 8 v" "x AND 2 \<noteq> 0 \<Longrightarrow> push_bit 16 (ucast (f 2)) = byte_part 16 v"
    and "x AND 2 \<noteq> 0 \<Longrightarrow> x AND 1 \<noteq> 0 \<Longrightarrow> push_bit 24 (ucast (f 3)) = byte_part 24 v"
  shows "distance_at f =
    (if x = 0 then ((v AND mask 8 OR x) AND mask 8, 1)
     else if x AND 2 = 0 then (byte_part 8 v OR (v AND mask 8 OR x) AND mask 8, 2)
     else if x AND 1 = 0 then (byte_part 16 v OR (byte_part 8 v OR (v AND mask 8 OR x) AND mask 8), 3)
     else (byte_part 24 v OR (byte_part 16 v OR (byte_part 8 v OR (v AND mask 8 OR x) AND mask 8)), 4))"
  unfolding distance_at_def Let_def
  using assms(4-) flags_of [OF assms(1-3)] by (cases "x = 0"; cases "x AND 2 = 0"; cases "x AND 1 = 0"; simp only: if_True if_False simp_thms)

lemma distance_bytes:
  assumes "v AND 3 = 0" "\<And>i. i < length (push_better_variable_length_integer v) \<Longrightarrow> f i = push_better_variable_length_integer v ! i"
  shows "\<exists>w. distance_at f = (w, of_nat (length (push_better_variable_length_integer v))) \<and> w AND 0xfffffffc = v"
proof -
  let ?bs = "push_better_variable_length_integer v"
  have low: "\<not> bit v 0" "\<not> bit v 1"
    using assms(1) bit_and_iff [of v 3 0] bit_and_iff [of v 3 1] by (auto simp: byte_masks bit_simps)
  have x: "2 \<le> n \<Longrightarrow> \<not> bit (1 :: u32) n" "2 \<le> n \<Longrightarrow> \<not> bit (2 :: u32) n" "2 \<le> n \<Longrightarrow> \<not> bit (3 :: u32) n" "2 \<le> n \<Longrightarrow> \<not> bit (0 :: u32) n" for n
    using bit_exp_iff [of 1 n, where 'a = u32] by (auto simp: byte_masks bit_simps)
  note b = byte_of_word
  consider "0xffffff < v" | "v < 2 ^ 24" "\<not> 0xffffff < v" "0xffff < v" | "v < 2 ^ 16" "\<not> 0xffffff < v" "\<not> 0xffff < v" "0xff < v"
    | "v < 2 ^ 8" "\<not> 0xffffff < v" "\<not> 0xffff < v" "\<not> 0xff < v"
    by (fastforce simp: word_le_nat_alt word_less_nat_alt)
  then show ?thesis
  proof cases
    case 1
    then have bs: "?bs = [ucast (v AND mask 8 OR 3), ucast (drop_bit 8 v AND mask 8), ucast (drop_bit 16 v AND mask 8), ucast (drop_bit 24 v AND mask 8)]"
      by (simp add: push_better_variable_length_integer_def byte_masks Let_def)
    have "distance_at f = (byte_part 24 v OR (byte_part 16 v OR (byte_part 8 v OR (v AND mask 8 OR 3) AND mask 8)), 4)"
      using distance_parts [OF low x(3), of f] assms(2) [of 0] assms(2) [of 1] assms(2) [of 2] assms(2) [of 3] by (simp add: bs b byte_part_def)
    then show ?thesis using join_bytes [OF low x(3)] by (simp add: bs byte_masks)
  next
    case 2
    then have bs: "?bs = [ucast (v AND mask 8 OR 2), ucast (drop_bit 8 v AND mask 8), ucast (drop_bit 16 v AND mask 8)]"
      by (simp add: push_better_variable_length_integer_def byte_masks Let_def)
    have "distance_at f = (byte_part 16 v OR (byte_part 8 v OR (v AND mask 8 OR 2) AND mask 8), 3)"
      using distance_parts [OF low x(2), of f] assms(2) [of 0] assms(2) [of 1] assms(2) [of 2] by (simp add: bs b byte_part_def)
    then show ?thesis using join_bytes [OF low x(2)] byte_part_0 [OF 2(1)] by (simp add: bs byte_masks)
  next
    case 3
    then have bs: "?bs = [ucast (v AND mask 8 OR 1), ucast (drop_bit 8 v AND mask 8)]"
      by (simp add: push_better_variable_length_integer_def byte_masks Let_def)
    have "distance_at f = (byte_part 8 v OR (v AND mask 8 OR 1) AND mask 8, 2)"
      using distance_parts [OF low x(1), of f] assms(2) [of 0] assms(2) [of 1] by (simp add: bs b byte_part_def)
    moreover have "v < 2 ^ 24" using 3(1) by (simp add: word_less_nat_alt)
    ultimately show ?thesis using join_bytes [OF low x(1)] byte_part_0 [of v 16] byte_part_0 [of v 24] 3(1) by (simp add: bs byte_masks)
  next
    case 4
    then have bs: "?bs = [ucast (v AND mask 8)]" by (simp add: push_better_variable_length_integer_def byte_masks Let_def)
    have "distance_at f = (v AND mask 8, 1)"
      using distance_parts [OF low x(4), of f] assms(2) [of 0] by (simp add: bs b)
    moreover have "v < 2 ^ 24" "v < 2 ^ 16" using 4(1) by (simp_all add: word_less_nat_alt)
    ultimately show ?thesis using join_bytes [OF low x(4)] byte_part_0 [of v 8] byte_part_0 [of v 16] byte_part_0 [of v 24] 4(1) by (simp add: bs byte_masks)
  qed
qed

end
