(* ===== verification/Link_Pointers.thy ===== *)
theory Link_Pointers
  imports Klink Data_Table
begin

text \<open>
  What the linker does to an object in memory with the table of pointers of the object: it adds the base address to
  the words that the table selects.
\<close>

section \<open>Bytes in memory\<close>

definition holds_bytes :: "ram \<Rightarrow> u32 \<Rightarrow> u8 list \<Rightarrow> bool" where
  "holds_bytes m a bs \<longleftrightarrow> bytes_at m a (length bs) = bs"

lemma holds_bytes_nth: "holds_bytes m a bs \<longleftrightarrow> (\<forall>i < length bs. m (a + of_nat i) = bs ! i)"
  unfolding holds_bytes_def list_eq_iff_nth_eq by (simp add: bytes_at_def)

lemma holds_bytes_Nil [simp]: "holds_bytes m a []"
  by (simp add: holds_bytes_def bytes_at_def)

lemma holds_bytes_Cons: "holds_bytes m a (b # bs) \<longleftrightarrow> m a = b \<and> holds_bytes m (a + 1) bs"
  unfolding holds_bytes_nth by (auto simp: less_Suc_eq_0_disj algebra_simps)

lemma holds_bytes_append: "holds_bytes m a (xs @ ys) \<longleftrightarrow> holds_bytes m a xs \<and> holds_bytes m (a + of_nat (length xs)) ys"
  by (induction xs arbitrary: a) (auto simp: holds_bytes_Cons algebra_simps)

lemma holds_bytes_cong:
  assumes "\<And>x. in_block a (length bs) x \<Longrightarrow> m' x = m x" "length bs \<le> 2 ^ 32"
  shows "holds_bytes m' a bs = holds_bytes m a bs"
  using bytes_at_cong [OF assms] by (simp add: holds_bytes_def)

text \<open>An address \<open>n\<close> behind \<open>a\<close>.\<close>

lemma unat_offset: "unat a + n < 2 ^ 32 \<Longrightarrow> unat (a + of_nat n :: u32) = unat a + n"
  by (simp add: unat_plus_if' unat_of_nat take_bit_nat_eq_self)

lemma offset_not_0: "a \<noteq> 0 \<Longrightarrow> unat a + n < 2 ^ 32 \<Longrightarrow> a + of_nat n \<noteq> (0 :: u32)"
  using unat_offset [of a n] by (auto simp: unat_eq_0)

section \<open>Words of an object\<close>

definition word_at :: "u32 \<Rightarrow> nat \<Rightarrow> u32" where
  "word_at B k = B + 4 * of_nat k"

definition add_base :: "u32 \<Rightarrow> nat \<Rightarrow> linker \<Rightarrow> linker" where
  "add_base B k = on_ram (\<lambda>m. store32 (word_at B k) (load32 m (word_at B k) + B) m)"

text \<open>An object of \<open>n\<close> words at \<open>B\<close>.\<close>

definition object_at :: "u32 \<Rightarrow> nat \<Rightarrow> bool" where
  "object_at B n \<longleftrightarrow> B \<noteq> 0 \<and> unat B mod 4 = 0 \<and> unat B + 4 * n < 2 ^ 32"

lemma word_at_unat: "object_at B n \<Longrightarrow> k \<le> n \<Longrightarrow> unat (word_at B k) = unat B + 4 * k"
  using unat_offset [of B "4 * k"] by (simp add: object_at_def word_at_def)

lemma word_at_ok:
  assumes "object_at B n" "k < n"
  shows "word_at B k \<noteq> 0" "unat (word_at B k) mod 4 = 0" "in_block (word_at B k) 4 x \<Longrightarrow> in_block B (4 * n) x"
proof -
  have u: "unat (word_at B k) = unat B + 4 * k" using word_at_unat [OF assms(1)] assms(2) by simp
  show "word_at B k \<noteq> 0" "unat (word_at B k) mod 4 = 0" using u assms(1) by (auto simp: object_at_def unat_eq_0)
  assume "in_block (word_at B k) 4 x"
  then show "in_block B (4 * n) x"
    using assms u in_block_nat [of "word_at B k" 4 x] in_block_nat [of B "4 * n" x] by (auto simp: object_at_def)
qed

lemma word_at_Suc: "word_at B k + 4 = word_at B (Suc k)"
  by (simp add: word_at_def algebra_simps)

lemma words_apart: "object_at B n \<Longrightarrow> j < n \<Longrightarrow> k < n \<Longrightarrow> j \<noteq> k \<Longrightarrow> blocks_apart (word_at B j) 4 (word_at B k) 4"
  using word_at_unat [of B n j] word_at_unat [of B n k] by (intro blocks_apartI) (auto simp: object_at_def)

lemma mem_on_ram [simp]: "mem (on_ram f s) = f (mem s)"
  by (simp add: on_ram_def)

lemma on_ram_fields [simp]: "gfunc_774 (on_ram f s) = gfunc_774 s" "saved_link_control (on_ram f s) = saved_link_control s"
  "k_s7 (l_kernel (on_ram f s)) = k_s7 (l_kernel s)"
  by (simp_all add: on_ram_def)

lemma add_base_outside: "object_at B n \<Longrightarrow> k < n \<Longrightarrow> \<not> in_block B (4 * n) x \<Longrightarrow> mem (add_base B k s) x = mem s x"
  using word_at_ok(3) by (auto simp: add_base_def intro: store32_outside)

lemma add_bases_outside:
  "object_at B n \<Longrightarrow> \<forall>k \<in> set ks. k < n \<Longrightarrow> \<not> in_block B (4 * n) x \<Longrightarrow> mem (fold (add_base B) ks s) x = mem s x"
  by (induction ks arbitrary: s) (simp_all add: add_base_outside)

text \<open>Each word that is selected once gets the base added once; the others stay.\<close>

lemma add_bases_words:
  assumes "object_at B n" "\<forall>k \<in> set ks. k < n" "distinct ks" "j < n"
  shows "load32 (mem (fold (add_base B) ks s)) (word_at B j) = load32 (mem s) (word_at B j) + (if j \<in> set ks then B else 0)"
  using assms(2,3)
proof (induction ks arbitrary: s)
  case (Cons k ks)
  have "load32 (mem (add_base B k s)) (word_at B j) = load32 (mem s) (word_at B j) + (if j = k then B else 0)"
    using words_apart [OF assms(1,4), of k] Cons.prems(1) by (auto simp: add_base_def load32_store32_other)
  then show ?case using Cons.IH [of "add_base B k s"] Cons.prems by auto
qed simp

section \<open>The pass over the pointers\<close>

lemma fix_words_run:
  assumes "object_at B n" "\<forall>j \<in> set [k ..< k + c]. j < n"
  shows "fix_words c B (word_at B k) s = Some (word_at B (k + c), fold (add_base B) [k ..< k + c] s)"
  using assms(2)
proof (induction c arbitrary: k s)
  case (Suc c)
  have k: "k < n" using Suc.prems by simp
  have "fix_words (Suc c) B (word_at B k) s = fix_words c B (word_at B (Suc k)) (add_base B k s)"
    using word_at_ok [OF assms(1) k] by (simp add: get_def put_def add_base_def on_ram_def word_at_Suc)
  also have "\<dots> = Some (word_at B (Suc k + c), fold (add_base B) [Suc k ..< Suc k + c] (add_base B k s))"
    using Suc.prems by (intro Suc.IH) auto
  finally show ?case by (simp add: upt_conv_Cons del: upt_Suc)
qed simp

lemma get8_holds: "holds_bytes (mem s) R (b # bs) \<Longrightarrow> R \<noteq> 0 \<Longrightarrow> get8 R s = Some b"
  by (simp add: get8_def holds_bytes_Cons)

lemma word_at_plus: "word_at B k + 4 * ucast c = word_at B (k + unat c)" for c :: u8
  by (simp add: word_at_def algebra_simps)

lemma step_words:
  assumes "object_at B n" "\<forall>j \<in> set (selected fixing k (k + unat c)). j < n"
  shows "(if \<not> fixing then Some (word_at B k + 4 * ucast c, s) else fix_words (unat c) B (word_at B k) s) =
    Some (word_at B (k + unat (c :: u8)), fold (add_base B) (selected fixing k (k + unat c)) s)"
  using fix_words_run [OF assms(1), of k "unat c" s] assms(2) by (simp add: selected_def word_at_plus)

lemma sub_block: "unat R + l < 2 ^ 32 \<Longrightarrow> i + m \<le> l \<Longrightarrow> in_block (R + of_nat i) m x \<Longrightarrow> in_block R l x"
  using unat_offset [of R i] in_block_nat [of R l x] in_block_nat [of "R + of_nat i" m x] by simp

lemma sub_block_apart: "blocks_apart R l a k \<Longrightarrow> unat R + l < 2 ^ 32 \<Longrightarrow> i + m \<le> l \<Longrightarrow> blocks_apart (R + of_nat i) m a k"
  unfolding blocks_apart_def using sub_block by blast

lemma decode_rest: "decode_pointers k fixing T = Some (ks, rest) \<Longrightarrow> length rest < length T"
  by (induction k fixing T arbitrary: ks rest rule: decode_pointers.induct)
    (fastforce simp: Let_def then_words_def bind_eq_Some_conv split: if_splits)+

lemma decode_pointers_step:
  assumes "decode_pointers k fixing (c # n # bs) = Some (ks, rest)"
  obtains (stop) "c \<noteq> 255" "n = 0" "ks = selected fixing k (k + unat c)" "rest = n # bs"
  | (skip) js where "c = 255" "n = 0" "decode_pointers (k + unat c) (\<not> fixing) bs = Some (js, rest)" "ks = selected fixing k (k + unat c) @ js"
  | (more) js where "n \<noteq> 0" "decode_pointers (k + unat c) (if c = 255 then fixing else \<not> fixing) (n # bs) = Some (js, rest)"
      "ks = selected fixing k (k + unat c) @ js"
  using assms by (auto simp: Let_def then_words_def bind_eq_Some_conv split: if_splits)

lemma fix_pointers_decoded:
  assumes "decode_pointers k fixing T = Some (ks, rest)" "holds_bytes (mem s) R T" "R \<noteq> 0" "unat R + length T < 2 ^ 32"
    and "object_at B n" "\<forall>j \<in> set ks. j < n" "blocks_apart R (length T) B (4 * n)"
  shows "fix_pointers B R (word_at B k) fixing s = Some (R + of_nat (length T - length rest), fold (add_base B) ks s)"
  using assms
proof (induction "length T" arbitrary: k fixing T ks R s rule: less_induct)
  case less
  have "2 \<le> length T" using less.prems(1) by (cases T rule: remdups_adj.cases) simp_all
  then obtain c n' bs where T: "T = c # n' # bs" by (metis One_nat_def Suc_1 Suc_le_length_iff)
  let ?k = "k + unat c" and ?ks = "selected fixing k (k + unat c)"
  let ?s = "fold (add_base B) ?ks s"
  have in_n: "\<forall>j \<in> set ?ks. j < n" using less.prems(1) unfolding T
    by (cases rule: decode_pointers_step) (use less.prems(6) in auto)
  have kept: "holds_bytes (mem ?s) R T"
    using less.prems(2,4,7) add_bases_outside [OF less.prems(5) in_n]
    by (subst holds_bytes_cong [of R T "mem ?s" "mem s"]) (auto simp: blocks_apart_def)
  have R: "R + 1 \<noteq> 0" "get8 R s = Some c" "get8 (R + 1) ?s = Some n'"
    using offset_not_0 [of R 1] less.prems(2,3,4) kept by (simp_all add: T get8_def holds_bytes_Cons)
  have run: "fix_pointers B R (word_at B k) fixing s =
    (if c = 255 then
       (if n' = 0 then fix_pointers B (R + 1 + 1) (word_at B ?k) (\<not> fixing) ?s else fix_pointers B (R + 1) (word_at B ?k) fixing ?s)
     else if n' = 0 then Some (R + 1, ?s)
     else fix_pointers B (R + 1) (word_at B ?k) (\<not> fixing) ?s)"
    unfolding fix_pointers.simps [of B R] R(2) using step_words [OF less.prems(5) in_n, of s] R(3) by simp
  have again: "fix_pointers B (R + of_nat i) (word_at B ?k) fx ?s =
      Some (R + of_nat (length T - length rest), fold (add_base B) js ?s)"
    if d: "decode_pointers ?k fx (drop i T) = Some (js, rest)" and i: "0 < i" "i \<le> 2" and js: "set js \<subseteq> set ks" for i fx js
  proof -
    have len: "i + length (drop i T) \<le> length T" using i T by simp
    have "holds_bytes (mem ?s) (R + of_nat i) (drop i T)"
      using kept holds_bytes_append [of "mem ?s" R "take i T" "drop i T"] i T by simp
    moreover have "R + of_nat i \<noteq> 0" "unat (R + of_nat i) + length (drop i T) < 2 ^ 32"
      using offset_not_0 [of R i] unat_offset [of R i] less.prems(3,4) len by simp_all
    moreover have "blocks_apart (R + of_nat i) (length (drop i T)) B (4 * n)"
      using sub_block_apart [OF less.prems(7,4) len] .
    ultimately have "fix_pointers B (R + of_nat i) (word_at B ?k) fx ?s =
        Some (R + of_nat i + of_nat (length (drop i T) - length rest), fold (add_base B) js ?s)"
      using less.hyps [OF _ d] less.prems(5,6) js i T by auto
    moreover have "length rest < length (drop i T)" using decode_rest [OF d] .
    then have "i + (length (drop i T) - length rest) = length T - length rest" using i T by simp
    then have "R + of_nat i + of_nat (length (drop i T) - length rest) = R + of_nat (length T - length rest)"
      by (metis add.assoc of_nat_add)
    ultimately show ?thesis by simp
  qed
  from less.prems(1) [unfolded T] show ?case
  proof (cases rule: decode_pointers_step)
    case stop
    then show ?thesis using run by (simp add: T)
  next
    case (skip js)
    then show ?thesis using run again [of "\<not> fixing" 2 js] by (simp add: T add.assoc)
  next
    case (more js)
    then show ?thesis using run again [of _ 1 js] by (auto simp: T)
  qed
qed

end
