(* ===== verification/Link_Names.thy ===== *)
theory Link_Names
  imports Link_Pointers
begin

text \<open>
  What the linker does with the names in the link table of an object: it interns each name and puts the address of the
  symbol or type into the words that were linked to it.
\<close>

section \<open>The words of one name\<close>

definition set_ref :: "u32 \<Rightarrow> u32 \<Rightarrow> int \<Rightarrow> linker \<Rightarrow> linker" where
  "set_ref B v x = on_ram (store32 (word_at B (nat x)) v)"

lemma set_ref_outside: "object_at B n \<Longrightarrow> nat x < n \<Longrightarrow> \<not> in_block B (4 * n) a \<Longrightarrow> mem (set_ref B v x s) a = mem s a"
  using word_at_ok(3) by (auto simp: set_ref_def intro: store32_outside)

lemma set_refs_outside:
  "object_at B n \<Longrightarrow> \<forall>x \<in> set xs. nat x < n \<Longrightarrow> \<not> in_block B (4 * n) a \<Longrightarrow> mem (fold (set_ref B v) xs s) a = mem s a"
  by (induction xs arbitrary: s) (simp_all add: set_ref_outside)

lemma set_ref_word:
  "object_at B n \<Longrightarrow> nat x < n \<Longrightarrow> j < n \<Longrightarrow> load32 (mem (set_ref B v x s)) (word_at B j) = (if j = nat x then v else load32 (mem s) (word_at B j))"
  using words_apart [of B n j "nat x"] by (auto simp: set_ref_def load32_store32_other)

lemma set_refs_words:
  assumes "object_at B n" "\<forall>x \<in> set xs. nat x < n" "j < n"
  shows "load32 (mem (fold (set_ref B v) xs s)) (word_at B j) = (if j \<in> nat ` set xs then v else load32 (mem s) (word_at B j))"
  using assms(2) by (induction xs arbitrary: s) (use assms(3) in \<open>auto simp: set_ref_word [OF assms(1)]\<close>)

lemma read_distance_at: "read_distance m p = distance_at (\<lambda>i. m (p + of_nat i))"
  by (simp add: read_distance_def distance_at_def Let_def)

lemma push_better_hd: "\<exists>b bs. push_better_variable_length_integer v = b # bs \<and> (v AND 3 = 0 \<longrightarrow> v \<noteq> 0 \<longrightarrow> b \<noteq> 0)"
proof -
  have *: "ucast (v AND 0xff OR x) \<noteq> (0 :: u8)" if "x \<in> {1, 2, 3}" for x :: u32
    using that by (auto simp: unsigned_or_eq or_eq_0_iff)
  have "v \<noteq> 0 \<Longrightarrow> \<not> 0xff < v \<Longrightarrow> ucast (v AND 0xff) \<noteq> (0 :: u8)"
  proof -
    assume v: "v \<noteq> 0" "\<not> 0xff < v"
    then have "v < 2 ^ 8" by (simp add: word_less_nat_alt)
    then have "v AND mask 8 = v" using high_bits [of v 8] by (intro bit_word_eqI) (auto simp: bit_simps not_less [symmetric])
    then have "(ucast (ucast (v AND 0xff) :: u8) :: u32) = v" by (simp add: byte_of_word byte_masks)
    then show ?thesis using v(1) by auto
  qed
  then show ?thesis using * by (auto simp: push_better_variable_length_integer_def Let_def)
qed

lemma distance_word:
  assumes "0 \<le> d" "d < 2 ^ 30"
  shows "(word_of_int (d * 4) :: u32) AND 3 = 0" "(word_of_int (d * 4) :: u32) = 0 \<longleftrightarrow> d = 0"
proof -
  have "(word_of_int (d * 4) :: u32) = push_bit 2 (word_of_int d)" by (simp add: push_bit_eq_mult)
  then show "(word_of_int (d * 4) :: u32) AND 3 = 0" by (auto intro!: bit_word_eqI simp: byte_masks bit_simps)
  have u: "uint (word_of_int x :: u32) = x" if "0 \<le> x" "x < 2 ^ 32" for x
    using that by (simp add: unsigned_of_int take_bit_int_eq_self)
  have "uint (word_of_int (d * 4) :: u32) = d * 4" using assms by (intro u) simp_all
  then show "(word_of_int (d * 4) :: u32) = 0 \<longleftrightarrow> d = 0" by (metis mult_eq_0_iff unsigned_eq_0_iff zero_neq_numeral)
qed

text \<open>The bytes for the words of a name and what they do: every word gets the address.\<close>

lemma offset_table_step:
  assumes "offset_table prev (x # xs) ws = Some (ws', T)"
  obtains ws1 T' where "prev \<le> x" "0 \<le> x" "nat x < length ws" "ws1 = ws[nat x := 0xffffffff]" "offset_table x xs ws1 = Some (ws', T')"
    "T = push_better_variable_length_integer (word_of_int ((x - prev) * 4)) @ T'"
  using assms by (auto simp: Let_def bind_eq_Some_conv set_word_Some split: if_splits)

lemma offset_table_words:
  assumes "offset_table prev xs ws = Some (ws', T)"
  shows "length ws' = length ws" "x \<in> set xs \<Longrightarrow> 0 \<le> x \<and> nat x < length ws"
    "k < length ws \<Longrightarrow> ws' ! k = (if k \<in> nat ` set xs then 0xffffffff else ws ! k)"
proof -
  have "length ws' = length ws \<and> (\<forall>x \<in> set xs. 0 \<le> x \<and> nat x < length ws) \<and>
      (\<forall>k < length ws. ws' ! k = (if k \<in> nat ` set xs then 0xffffffff else ws ! k))"
    using assms
  proof (induction xs arbitrary: prev ws T)
    case (Cons x xs)
    from Cons.prems obtain ws1 T' where "0 \<le> x" "nat x < length ws" "ws1 = ws[nat x := 0xffffffff]" "offset_table x xs ws1 = Some (ws', T')"
      by (rule offset_table_step)
    with Cons.IH [OF this(4)] show ?case by (auto simp: nth_list_update)
  qed simp
  then show "length ws' = length ws" "x \<in> set xs \<Longrightarrow> 0 \<le> x \<and> nat x < length ws"
    "k < length ws \<Longrightarrow> ws' ! k = (if k \<in> nat ` set xs then 0xffffffff else ws ! k)" by blast+
qed

lemma offset_table_hd: "offset_table prev xs ws = Some (ws', T) \<Longrightarrow> xs \<noteq> [] \<Longrightarrow> \<exists>b bs. T = b # bs \<and> (hd xs \<noteq> prev \<longrightarrow> 0 \<le> prev \<longrightarrow> length ws < 2 ^ 30 \<longrightarrow> b \<noteq> 0)"
proof (cases xs)
  case (Cons x ys)
  assume "offset_table prev xs ws = Some (ws', T)"
  then obtain T' where T: "prev \<le> x" "0 \<le> x" "nat x < length ws" "T = push_better_variable_length_integer (word_of_int ((x - prev) * 4)) @ T'"
    unfolding Cons by (rule offset_table_step)
  obtain b bs where b: "push_better_variable_length_integer (word_of_int ((x - prev) * 4)) = b # bs"
    "(word_of_int ((x - prev) * 4) :: u32) AND 3 = 0 \<longrightarrow> (word_of_int ((x - prev) * 4) :: u32) \<noteq> 0 \<longrightarrow> b \<noteq> 0"
    using push_better_hd by blast
  have "b \<noteq> 0" if "x \<noteq> prev" "0 \<le> prev" "length ws < 2 ^ 30"
    using b(2) distance_word [of "x - prev"] T(1-3) that by auto
  then show ?thesis using T(4) b(1) Cons by simp
qed simp

lemma word_at_distance: "0 \<le> prev \<Longrightarrow> prev \<le> x \<Longrightarrow> word_at B (nat prev) + word_of_int ((x - prev) * 4) = word_at B (nat x)"
  by (simp add: word_at_def algebra_simps)

lemma c_symlink2_run:
  assumes "offset_table prev xs ws = Some (ws', T)" "xs \<noteq> []" "sorted_wrt (<) xs" "0 \<le> prev" "length ws \<le> n" "object_at B n"
    and "holds_bytes (mem s) R (T @ [0])" "unat R + length T + 1 < 2 ^ 32" "blocks_apart R (Suc (length T)) B (4 * n)"
    and "\<forall>x \<in> set xs. load32 (mem s) (word_at B (nat x)) = 0xffffffff"
  shows "c_symlink2_loop (word_at B (nat prev)) v R s = Some (R + of_nat (length T) + 1, fold (set_ref B v) xs s)"
  using assms
proof (induction xs arbitrary: prev ws T R s)
  case (Cons x xs)
  from Cons.prems(1) obtain ws1 T' where st: "prev \<le> x" "0 \<le> x" "nat x < length ws" "ws1 = ws[nat x := 0xffffffff]" "offset_table x xs ws1 = Some (ws', T')"
    and T0: "T = push_better_variable_length_integer (word_of_int ((x - prev) * 4)) @ T'" by (rule offset_table_step)
  define D where "D = push_better_variable_length_integer (word_of_int ((x - prev) * 4))"
  have T: "T = D @ T'" using T0 by (simp add: D_def)
  have small: "0 \<le> x - prev" "x - prev < 2 ^ 30"
    using st(1-3) Cons.prems(4-6) by (auto simp: object_at_def)
  have holds: "holds_bytes (mem s) R D" "holds_bytes (mem s) (R + of_nat (length D)) (T' @ [0])"
    using Cons.prems(7) by (simp_all add: T holds_bytes_append)
  have "\<exists>w. distance_at (\<lambda>i. mem s (R + of_nat i)) = (w, of_nat (length D)) \<and> w AND 0xfffffffc = word_of_int ((x - prev) * 4)"
    using distance_bytes [OF distance_word(1) [OF small], of "\<lambda>i. mem s (R + of_nat i)"] holds(1) by (auto simp: holds_bytes_nth D_def)
  then obtain w where w: "read_distance (mem s) R = (w, of_nat (length D))" "word_at B (nat prev) + (w AND 0xfffffffc) = word_at B (nat x)"
    using word_at_distance [OF Cons.prems(4) st(1)] by (auto simp: read_distance_at)
  have x: "nat x < n" "word_at B (nat x) \<noteq> 0" "load32 (mem s) (word_at B (nat x)) = 0xffffffff"
    using st(3) Cons.prems(5,6,10) word_at_ok(1) [OF Cons.prems(6), of "nat x"] by auto
  let ?s = "set_ref B v x s" and ?R = "R + of_nat (length D)"
  have out: "mem ?s a = mem s a" if "in_block R (Suc (length T)) a" for a
    using set_ref_outside [OF Cons.prems(6) x(1)] Cons.prems(9) that by (auto simp: blocks_apart_def)
  have len: "length D + Suc (length T') \<le> Suc (length T)" "unat R + Suc (length T) < 2 ^ 32" using Cons.prems(8) by (simp_all add: T)
  have D': "holds_bytes (mem ?s) ?R (T' @ [0])"
    using holds(2) out sub_block [OF len(2,1)] len by (subst holds_bytes_cong [of ?R "T' @ [0]" "mem ?s" "mem s"]) auto
  have step: "c_symlink2_loop (word_at B (nat prev)) v R s =
      (if mem ?s ?R \<noteq> 0 then c_symlink2_loop (word_at B (nat x)) v ?R ?s else Some (?R + 1, ?s))"
    by (subst c_symlink2_loop.simps) (simp add: w x get_def put_def set_ref_def on_ram_def Let_def)
  show ?case
  proof (cases "xs = []")
    case True
    then have "T' = []" using st(5) by simp
    then show ?thesis using step D' True by (simp add: T holds_bytes_Cons algebra_simps)
  next
    case False
    have "hd xs \<noteq> x" using Cons.prems(3) False by (cases xs) auto
    have l1: "length ws1 = length ws" using st(4) by simp
    obtain b bs where b: "T' = b # bs" "b \<noteq> 0"
      using offset_table_hd [OF st(5) False] \<open>hd xs \<noteq> x\<close> st(2) l1 Cons.prems(5,6) by (auto simp: object_at_def)
    have "c_symlink2_loop (word_at B (nat x)) v ?R ?s = Some (?R + of_nat (length T') + 1, fold (set_ref B v) xs ?s)"
    proof (rule Cons.IH [OF st(5) False _ st(2) _ Cons.prems(6) D'])
      show "sorted_wrt (<) xs" "length ws1 \<le> n" using Cons.prems(3,5) l1 by simp_all
      show "unat ?R + length T' + 1 < 2 ^ 32" using unat_offset [of R "length D"] len(2) by (simp add: T)
      show "blocks_apart ?R (Suc (length T')) B (4 * n)" by (rule sub_block_apart [OF Cons.prems(9) len(2,1)])
      have "nat y < n \<and> nat y \<noteq> nat x" if "y \<in> set xs" for y
        using offset_table_words(2) [OF st(5) that] l1 Cons.prems(3,5) that st(2) by auto
      then show "\<forall>y \<in> set xs. load32 (mem ?s) (word_at B (nat y)) = 0xffffffff"
        using Cons.prems(10) x(1) by (simp add: set_ref_word [OF Cons.prems(6)])
    qed
    moreover have "mem ?s ?R \<noteq> 0" using D' b by (simp add: holds_bytes_Cons)
    ultimately show ?thesis using step by (simp add: T algebra_simps)
  qed
qed simp

section \<open>Names\<close>

text \<open>A symbol must not begin with a character that the linker takes for something else.\<close>

definition link_name_ok :: "bool \<Rightarrow> string \<Rightarrow> bool" where
  "link_name_ok is_type name \<longleftrightarrow> list_all (\<lambda>c. of_char c \<noteq> (0 :: nat)) name \<and>
    (is_type \<or> name \<noteq> [] \<and> 9 < (of_char (hd name) :: nat) \<and> (of_char (hd name) :: nat) < 128)"

lemma c_string_holds: "holds_bytes m p (str_bytes name @ [0]) \<Longrightarrow> list_all (\<lambda>c. of_char c \<noteq> (0 :: nat)) name \<Longrightarrow> c_string m p = Some name"
proof (induction name arbitrary: p)
  case Nil
  then show ?case by (simp add: c_string.simps str_bytes_def holds_bytes_Cons)
next
  case (Cons c name)
  then have "m p = of_char c" "holds_bytes m (p + 1) (str_bytes name @ [0])" by (simp_all add: str_bytes_def holds_bytes_Cons)
  moreover have "unat (m p) \<noteq> 0" using Cons.prems(2) \<open>m p = of_char c\<close> by simp
  then have "m p \<noteq> 0" by auto
  ultimately show ?case using Cons by (subst c_string.simps) simp
qed

definition intern_entry :: "bool \<Rightarrow> string \<Rightarrow> linker \<Rightarrow> (u32 \<times> linker) option" where
  "intern_entry is_type name = in_kernel (if is_type then intern_type_from_c name 1 else intern_from_c name)"

definition entry_tag :: "bool \<Rightarrow> u8 list" where
  "entry_tag is_type = (if is_type then [0x80] else [])"

lemma first_char: "link_name_ok False name \<Longrightarrow> \<exists>c cs. name = c # cs \<and> (of_char c :: u8) AND 0x80 = 0 \<and> 9 < (of_char c :: u8)"
proof -
  assume ok: "link_name_ok False name"
  then obtain c cs where name: "name = c # cs" "9 < (of_char c :: nat)" "(of_char c :: nat) < 128" by (cases name) (auto simp: link_name_ok_def)
  have "\<not> bit (unat (of_char c :: u8)) 7" using name(3) by (simp add: bit_iff_odd)
  then have "\<not> bit (of_char c :: u8) 7" by (simp add: bit_unsigned_iff del: unat_of_char)
  then have "(of_char c :: u8) AND 0x80 = 0" using and_exp_eq_0_iff_not_bit [of "of_char c :: u8" 7] by simp
  moreover have "9 < (of_char c :: u8)" using name(2) by (simp add: word_less_nat_alt)
  ultimately show ?thesis using name(1) by blast
qed

text \<open>The bytes of an entry: tag, name, and the distances between its words.\<close>

definition entry_bytes :: "bool \<Rightarrow> string \<Rightarrow> u8 list \<Rightarrow> u8 list" where
  "entry_bytes is_type name offs = entry_tag is_type @ str_bytes name @ [0] @ offs @ [0]"

lemma length_entry_bytes: "length (entry_bytes ty name offs) = length (entry_tag ty) + length name + length offs + 2"
  by (simp add: entry_bytes_def str_bytes_def)

text \<open>What the linker reads before it has the address for the words.\<close>

lemma link_name_head:
  assumes h: "holds_bytes (mem s) R (entry_bytes ty name offs)" and ok: "link_name_ok ty name" and R: "R \<noteq> 0" "unat R + length (entry_bytes ty name offs) < 2 ^ 32"
  shows "link_name_v2 B R s = do {
    (v, s) \<leftarrow> intern_entry ty name s;
    c_symlink2 B v (R + of_nat (length (entry_tag ty) + length name) + 1) s }"
proof -
  have name: "holds_bytes (mem s) (R + of_nat (length (entry_tag ty))) (str_bytes name @ [0])"
    using h by (simp add: entry_bytes_def holds_bytes_append holds_bytes_Cons)
  note c = c_string_holds [OF name] 
  have nul: "list_all (\<lambda>c. of_char c \<noteq> (0 :: nat)) name" using ok by (simp add: link_name_ok_def)
  show ?thesis
  proof (cases ty)
    case True
    have "mem s R = 0x80" using h True by (simp add: entry_bytes_def entry_tag_def holds_bytes_Cons)
    then have m: "mem s R AND 0x80 \<noteq> 0" "mem s R AND 0x7f = 0" by simp_all
    have "R + 1 \<noteq> 0" using offset_not_0 [of R 1] R True by (simp add: length_entry_bytes entry_tag_def)
    moreover have "R + 1 + of_nat (length name) + 1 = R + of_nat (length (entry_tag ty) + length name) + 1"
      using True by (simp add: entry_tag_def)
    ultimately show ?thesis
      using c [OF nul] R(1) True m by (simp add: link_name_v2_def get8_def intern_entry_def entry_tag_def Let_def bind_assoc case_prod_unfold)
  next
    case False
    have "link_name_ok False name" using ok False by simp
    from first_char [OF this] obtain a cs where a: "name = a # cs" "(of_char a :: u8) AND 0x80 = 0" "9 < (of_char a :: u8)" by blast
    have "mem s R = of_char a" using h False a(1) by (simp add: entry_bytes_def entry_tag_def holds_bytes_Cons str_bytes_def)
    then show ?thesis
      using c [OF nul] R(1) False a by (simp add: link_name_v2_def get8_def intern_entry_def entry_tag_def Let_def bind_assoc case_prod_unfold)
  qed
qed

text \<open>
  The names of an object, in order: intern one, check that the table of \<open>l\<close> bytes and the object of \<open>n\<close> words
  have not been touched, and set the words that refer to it. The results are the addresses and the state.
\<close>

definition kept_after :: "u32 \<Rightarrow> nat \<Rightarrow> linker \<Rightarrow> linker \<Rightarrow> bool" where
  "kept_after a n s s' \<longleftrightarrow> bytes_at (mem s') a n = bytes_at (mem s) a n"

fun linked_entries :: "u32 \<Rightarrow> nat \<Rightarrow> u32 \<Rightarrow> nat \<Rightarrow> (bool \<times> string \<times> int list) list \<Rightarrow> linker \<Rightarrow> (u32 list \<times> linker) option" where
  "linked_entries B n R l [] s = Some ([], s)"
| "linked_entries B n R l ((is_type, name, xs) # es) s = do {
     (v, s1) \<leftarrow> intern_entry is_type name s;
     assert_opt (kept_after R l s s1 \<and> kept_after B (4 * n) s s1);
     (vs, s2) \<leftarrow> linked_entries B n R l es (fold (set_ref B v) xs s1);
     Some (v # vs, s2) }"

fun entries_table :: "(bool \<times> string \<times> int list) list \<Rightarrow> u32 list \<Rightarrow> (u32 list \<times> u8 list) option" where
  "entries_table [] ws = Some (ws, [])"
| "entries_table ((is_type, name, xs) # es) ws = do {
     (ws, offs) \<leftarrow> offset_table 0 xs ws;
     (ws, link) \<leftarrow> entries_table es ws;
     Some (ws, entry_bytes is_type name offs @ link) }"

definition entries_of :: "bool \<Rightarrow> int smap \<Rightarrow> (bool \<times> string \<times> int list) list" where
  "entries_of is_type m = map (\<lambda>(name, xs). (is_type, name, sort xs)) m"

lemma name_table_entries: "name_table (entry_tag ty) m ws = entries_table (entries_of ty m) ws"
  by (induction m arbitrary: ws) (auto simp: entries_of_def entry_bytes_def case_prod_beta intro!: Option.bind_cong [OF refl])

lemma entries_table_append:
  "entries_table (xs @ ys) ws = do { (ws, a) \<leftarrow> entries_table xs ws; (ws, b) \<leftarrow> entries_table ys ws; Some (ws, a @ b) }"
proof (induction xs arbitrary: ws)
  case (Cons e es)
  obtain ty name xs where e: "e = (ty, name, xs)" by (cases e)
  show ?case unfolding e append_Cons entries_table.simps
    by (auto simp: Cons.IH case_prod_beta bind_assoc intro!: Option.bind_cong [OF refl])
qed (simp add: case_prod_beta)

text \<open>The entries of a table that the loop reads right.\<close>

definition name_entry_ok :: "bool \<times> string \<times> int list \<Rightarrow> bool" where
  "name_entry_ok e = (case e of (ty, name, xs) \<Rightarrow> link_name_ok ty name \<and> xs \<noteq> [] \<and> sorted_wrt (<) xs)"

abbreviation entry_words :: "bool \<times> string \<times> int list \<Rightarrow> int list" where
  "entry_words e \<equiv> snd (snd e)"

lemma link_name_run:
  assumes h: "holds_bytes (mem s) R (entry_bytes ty name offs)" and ok: "name_entry_ok (ty, name, xs)"
    and R: "R \<noteq> 0" "unat R + length (entry_bytes ty name offs) < 2 ^ 32"
    and t: "offset_table 0 xs ws = Some (ws', offs)" and B: "object_at B n" "length ws \<le> n"
    and ap: "blocks_apart R (length (entry_bytes ty name offs)) B (4 * n)"
    and i: "intern_entry ty name s = Some (v, s1)" and k: "holds_bytes (mem s1) R (entry_bytes ty name offs)"
    and w: "\<forall>x \<in> set xs. load32 (mem s1) (word_at B (nat x)) = 0xffffffff"
  shows "link_name_v2 B R s = Some (R + of_nat (length (entry_bytes ty name offs)), fold (set_ref B v) xs s1)"
proof -
  have ok': "link_name_ok ty name" "xs \<noteq> []" "sorted_wrt (<) xs" using ok by (simp_all add: name_entry_ok_def)
  let ?h = "length (entry_tag ty) + length name" and ?l = "length (entry_bytes ty name offs)"
  let ?R = "R + of_nat ?h + 1"
  have l: "?l = (?h + 1) + Suc (length offs)" by (simp add: length_entry_bytes)
  have R': "?R = R + of_nat (?h + 1)" by simp
  have "holds_bytes (mem s1) ?R (offs @ [0])"
    using k holds_bytes_append [of "mem s1" R "entry_tag ty @ str_bytes name @ [0]" "offs @ [0]"]
    by (simp add: entry_bytes_def str_bytes_def ac_simps)
  moreover have "unat ?R + length offs + 1 < 2 ^ 32" "?R \<noteq> 0"
    unfolding R' using R l unat_offset [of R "?h + 1"] offset_not_0 [of R "?h + 1"] by linarith+
  moreover have "blocks_apart ?R (Suc (length offs)) B (4 * n)"
    unfolding R' by (rule sub_block_apart [OF ap R(2)]) (simp add: l)
  moreover have "word_at B (nat 0) = B" by (simp add: word_at_def)
  ultimately have "c_symlink2 B v ?R s1 = Some (?R + of_nat (length offs) + 1, fold (set_ref B v) xs s1)"
    using c_symlink2_run [OF t ok'(2,3) order.refl B(2,1), of s1 ?R v] w by (simp add: c_symlink2_def)
  moreover have "?R + of_nat (length offs) + 1 = R + of_nat ?l" by (simp add: l)
  ultimately show ?thesis using link_name_head [OF h ok'(1) R] i by simp
qed

lemma entry_bytes_hd: "link_name_ok ty name \<Longrightarrow> \<exists>b bs. entry_bytes ty name offs @ rest = b # bs \<and> b \<noteq> 0"
proof (cases ty)
  case False
  assume "link_name_ok ty name"
  then have "link_name_ok False name" using False by simp
  from first_char [OF this] obtain a cs where "name = a # cs" "9 < (of_char a :: u8)" by blast
  moreover from this have "(of_char a :: u8) \<noteq> 0" by auto
  ultimately show ?thesis using False by (simp add: entry_bytes_def entry_tag_def str_bytes_def)
qed (simp add: entry_bytes_def entry_tag_def)

lemma fold_set_ref_outside_table:
  assumes "object_at B n" "\<forall>x \<in> set xs. nat x < n" "blocks_apart R l B (4 * n)" "l \<le> 2 ^ 32"
  shows "bytes_at (mem (fold (set_ref B v) xs s)) R l = bytes_at (mem s) R l"
  using set_refs_outside [OF assms(1,2)] assms(3) by (intro bytes_at_cong [OF _ assms(4)]) (auto simp: blocks_apart_def)

lemma kept_word:
  assumes "object_at B n" "kept_after B (4 * n) s s'" "j < n"
  shows "load32 (mem s') (word_at B j) = load32 (mem s) (word_at B j)"
proof -
  have "mem s' x = mem s x" if "in_block B (4 * n) x" for x
  proof -
    have "unat (x - B) < 4 * n" using that by (simp add: in_block_def)
    then have "bytes_at (mem s') B (4 * n) ! unat (x - B) = bytes_at (mem s) B (4 * n) ! unat (x - B)"
      using assms(2) by (simp add: kept_after_def)
    then show ?thesis using \<open>unat (x - B) < 4 * n\<close> by (simp add: bytes_at_def)
  qed
  then show ?thesis using word_at_ok(3) [OF assms(1,3)] by (intro load32_cong) blast
qed

definition all_words :: "(bool \<times> string \<times> int list) list \<Rightarrow> int list" where
  "all_words es = concat (map entry_words es)"

lemma all_words_Cons [simp]: "all_words ((ty, name, xs) # es) = xs @ all_words es"
  by (simp add: all_words_def)

lemma entries_table_words:
  assumes "entries_table es ws = Some (ws', T)"
  shows "length ws' = length ws" "x \<in> set (all_words es) \<Longrightarrow> 0 \<le> x \<and> nat x < length ws"
    "k < length ws \<Longrightarrow> ws' ! k = (if k \<in> nat ` set (all_words es) then 0xffffffff else ws ! k)"
proof -
  have "length ws' = length ws \<and> (\<forall>x \<in> set (all_words es). 0 \<le> x \<and> nat x < length ws) \<and>
      (\<forall>k < length ws. ws' ! k = (if k \<in> nat ` set (all_words es) then 0xffffffff else ws ! k))"
    using assms
  proof (induction es arbitrary: ws T)
    case (Cons e es)
    obtain ty name xs where e: "e = (ty, name, xs)" by (cases e)
    from Cons.prems obtain ws1 offs T' where s: "offset_table 0 xs ws = Some (ws1, offs)" "entries_table es ws1 = Some (ws', T')"
      by (auto simp: e bind_eq_Some_conv)
    show ?case using Cons.IH [OF s(2)] offset_table_words [OF s(1)] by (auto simp: e)
  qed (simp add: all_words_def)
  then show "length ws' = length ws" "x \<in> set (all_words es) \<Longrightarrow> 0 \<le> x \<and> nat x < length ws"
    "k < length ws \<Longrightarrow> ws' ! k = (if k \<in> nat ` set (all_words es) then 0xffffffff else ws ! k)" by blast+
qed

text \<open>
  The loop over the entries does what the list of entries says. \<open>R0\<close> is where the whole table is, \<open>R\<close> the place of
  the entries that are left.
\<close>

lemma link_names_run:
  assumes "entries_table es ws = Some (ws', T)" "es \<noteq> []" "\<forall>e \<in> set es. name_entry_ok e" "distinct (all_words es)" "length ws \<le> n" "object_at B n"
    and "R = R0 + of_nat d" "d + length T < l" "R0 \<noteq> 0" "unat R0 + l < 2 ^ 32" "blocks_apart R0 l B (4 * n)"
    and "holds_bytes (mem s) R (T @ [0])"
    and "\<forall>x \<in> set (all_words es). load32 (mem s) (word_at B (nat x)) = 0xffffffff"
    and "linked_entries B n R0 l es s = Some (vs, s')"
  shows "link_names_v2 B R s = Some (R + of_nat (length T), s')"
  using assms
proof (induction es arbitrary: ws T R d s vs)
  case (Cons e es)
  obtain ty name xs where e: "e = (ty, name, xs)" by (cases e)
  from Cons.prems(1) obtain ws1 offs T' where tab: "offset_table 0 xs ws = Some (ws1, offs)" "entries_table es ws1 = Some (ws', T')"
    and T: "T = entry_bytes ty name offs @ T'" by (auto simp: e bind_eq_Some_conv)
  from Cons.prems(14) obtain v s1 vs' where i: "intern_entry ty name s = Some (v, s1)" and k: "kept_after R0 l s s1" "kept_after B (4 * n) s s1"
    and rest: "linked_entries B n R0 l es (fold (set_ref B v) xs s1) = Some (vs', s')" by (auto simp: e bind_eq_Some_conv)
  let ?b = "entry_bytes ty name offs" and ?s = "fold (set_ref B v) xs s1"
  have len: "length ws1 = length ws" and xs: "\<forall>x \<in> set xs. 0 \<le> x \<and> nat x < n"
    using offset_table_words(1,2) [OF tab(1)] Cons.prems(5) by fastforce+
  have l32: "l \<le> 2 ^ 32" using Cons.prems(10) by linarith
  have sub: "bytes_at m (R0 + of_nat d) m' = take m' (drop d (bytes_at m R0 l))" if "d + m' \<le> l" for m m'
    using that by (intro nth_equalityI) (simp_all add: bytes_at_def add.assoc)
  have same: "holds_bytes (mem s1) R (T @ [0])" "holds_bytes (mem ?s) R (T @ [0])"
  proof -
    have "bytes_at (mem s1) R (Suc (length T)) = bytes_at (mem s) R (Suc (length T))"
      using k(1) Cons.prems(8) unfolding Cons.prems(7) by (simp add: sub kept_after_def)
    then show "holds_bytes (mem s1) R (T @ [0])" using Cons.prems(12) by (simp add: holds_bytes_def)
    have "bytes_at (mem ?s) R0 l = bytes_at (mem s1) R0 l"
      by (rule fold_set_ref_outside_table [OF Cons.prems(6) _ Cons.prems(11) l32]) (use xs in blast)
    then have "bytes_at (mem ?s) R (Suc (length T)) = bytes_at (mem s1) R (Suc (length T))"
      using Cons.prems(8) unfolding Cons.prems(7) by (simp add: sub)
    then show "holds_bytes (mem ?s) R (T @ [0])" using \<open>holds_bytes (mem s1) R (T @ [0])\<close> by (simp add: holds_bytes_def)
  qed
  have R: "R \<noteq> 0" "unat R + length T < 2 ^ 32" "blocks_apart R (length T) B (4 * n)"
    using offset_not_0 [of R0 d] unat_offset [of R0 d] sub_block_apart [OF Cons.prems(11,10), of d "length T"] Cons.prems(7-10) by simp_all
  have w1: "load32 (mem s1) (word_at B (nat x)) = 0xffffffff" if "x \<in> set (all_words (e # es))" for x
    using that Cons.prems(13) kept_word [OF Cons.prems(6) k(2)] entries_table_words(2) [OF Cons.prems(1) that] Cons.prems(5) by simp
  have name: "link_name_v2 B R s = Some (R + of_nat (length ?b), ?s)"
  proof (rule link_name_run [OF _ _ R(1) _ tab(1) Cons.prems(6,5) _ i])
    show "holds_bytes (mem s) R ?b" "holds_bytes (mem s1) R ?b"
      using Cons.prems(12) same(1) by (simp_all add: T holds_bytes_append)
    show "name_entry_ok (ty, name, xs)" using Cons.prems(3) e by simp
    show "unat R + length ?b < 2 ^ 32" using R(2) by (simp add: T)
    show "blocks_apart R (length ?b) B (4 * n)" using R(3) by (rule blocks_apart_sub) (simp_all add: T)
    show "\<forall>x \<in> set xs. load32 (mem s1) (word_at B (nat x)) = 0xffffffff" using w1 by (simp add: e)
  qed
  let ?R = "R + of_nat (length ?b)"
  have R': "?R \<noteq> 0" "holds_bytes (mem ?s) ?R (T' @ [0])"
    using offset_not_0 [OF R(1), of "length ?b"] R(2) same(2) by (simp_all add: T holds_bytes_append)
  show ?case
  proof (cases "es = []")
    case True
    then have "T' = []" "s' = ?s" using tab(2) rest by simp_all
    then show ?thesis using name R' by (subst link_names_v2.simps) (simp add: T get8_def holds_bytes_Cons)
  next
    case False
    have "link_names_v2 B ?R ?s = Some (?R + of_nat (length T'), s')"
    proof (rule Cons.IH [OF tab(2) False _ _ _ Cons.prems(6) _ _ Cons.prems(9-11) R'(2) _ rest])
      show "\<forall>e \<in> set es. name_entry_ok e" "distinct (all_words es)" "length ws1 \<le> n" using Cons.prems(3-5) len by (simp_all add: e)
      show "?R = R0 + of_nat (d + length ?b)" "d + length ?b + length T' < l" using Cons.prems(7,8) by (simp_all add: T)
      have "nat x < n \<and> nat x \<notin> nat ` set xs" if "x \<in> set (all_words es)" for x
        using that entries_table_words(2) [OF tab(2) that] len Cons.prems(4,5) xs by (auto simp: e) (metis disjoint_iff eq_nat_nat_iff)
      then show "\<forall>x \<in> set (all_words es). load32 (mem ?s) (word_at B (nat x)) = 0xffffffff"
        using w1 set_refs_words [OF Cons.prems(6), of xs] xs by (simp add: e)
    qed
    moreover obtain b bs where "T' @ [0] = b # bs" "b \<noteq> 0"
    proof -
      obtain ty' name' xs' es' where "es = (ty', name', xs') # es'" using False by (cases es) auto
      moreover from this obtain offs' T'' where "T' = entry_bytes ty' name' offs' @ T''" using tab(2) by (auto simp: bind_eq_Some_conv)
      moreover have "link_name_ok ty' name'" using Cons.prems(3) calculation(1) by (simp add: name_entry_ok_def)
      ultimately show thesis using that entry_bytes_hd [of ty' name' offs' "T'' @ [0]"] by auto
    qed
    ultimately show ?thesis using name R' by (subst link_names_v2.simps) (simp add: T get8_def holds_bytes_Cons)
  qed
qed simp

end
