(* ===== verification/Link_Object.thy ===== *)
theory Link_Object
  imports Link_Names
begin

text \<open>
  A data object from the generator to the linker: what the linker makes of an object whose words and link table are
  in memory.
\<close>

section \<open>Words in memory\<close>

lemma length_word_bytes: "length (word_bytes ws) = 4 * length ws"
  by (induction ws) (simp_all add: word_bytes_def)

lemma word_bytes_loaded:
  assumes "holds_bytes m B (word_bytes ws)" "k < length ws"
  shows "load32 m (word_at B k) = ws ! k"
  using assms
proof (induction ws arbitrary: B k)
  case (Cons w ws)
  have h: "holds_bytes m B (le_bytes 4 w)" "holds_bytes m (B + 4) (word_bytes ws)"
    using Cons.prems(1) by (simp_all add: word_bytes_def holds_bytes_append)
  show ?case
  proof (cases k)
    case 0
    then show ?thesis using h(1) by (simp add: word_at_def load32_def holds_bytes_def)
  next
    case (Suc j)
    have "word_at B k = word_at (B + 4) j" by (simp add: word_at_def Suc)
    then show ?thesis using Cons.IH [OF h(2), of j] Cons.prems(2) Suc by simp
  qed
qed simp

section \<open>The link table as a whole\<close>

text \<open>The names of a generator in the order of the table, and its sources.\<close>

definition entries :: "DataObjectGenerator \<Rightarrow> (bool \<times> string \<times> int list) list" where
  "entries g = entries_of False (m_symbol_links g) @ entries_of True (m_type_links g)"

definition pointers :: "DataObjectGenerator \<Rightarrow> PointerLinkRecord list" where
  "pointers g = sort_key source_word (m_ptr_links g)"

lemma generate_link_table_parts:
  assumes "generate_link_table g = Some (link, g')"
  obtains ws1 ptrs names pad where "pointer_table 0 (pointers g) (m_words g) = Some (ws1, ptrs)"
    "entries_table (entries g) ws1 = Some (m_words g', names)" "link = ptrs @ 0 # names @ 0 # pad"
proof -
  obtain ws1 ptrs ws2 symbols types padded where p: "pointer_table 0 (pointers g) (m_words g) = Some (ws1, ptrs)"
    "name_table (entry_tag False) (m_symbol_links g) ws1 = Some (ws2, symbols)"
    "name_table (entry_tag True) (m_type_links g) ws2 = Some (m_words g', types)"
    "pad_to 64 (replicate sizeof_LinkHeaderV2 0 @ ptrs @ push_variable_length_integer 0 @ symbols @ types @ push_variable_length_integer 0) = Some padded"
    "link = drop sizeof_LinkHeaderV2 padded"
    using assms by (auto simp: generate_link_table_def Let_def bind_eq_Some_conv pointers_def entry_tag_def split: prod.splits)
  obtain k where "padded = (replicate sizeof_LinkHeaderV2 0 @ ptrs @ push_variable_length_integer 0 @ symbols @ types @ push_variable_length_integer 0) @ replicate k 0"
    using p(4) pad_to_Some [of 64 "replicate sizeof_LinkHeaderV2 0 @ ptrs @ push_variable_length_integer 0 @ symbols @ types @ push_variable_length_integer 0"]
    by auto
  then have "link = ptrs @ 0 # (symbols @ types) @ 0 # replicate k 0"
    using p(5) by (simp add: push_vli vli_bytes_def)
  moreover have "entries_table (entries g) ws1 = Some (m_words g', symbols @ types)"
    using p(2,3) by (simp add: entries_def entries_table_append name_table_entries)
  ultimately show thesis using that p(1) by blast
qed

text \<open>
  The generators whose table the linker reads right: every word has one link, names are well-formed, the first word
  is no pointer and the last run of pointers is not a multiple of 255 long.
\<close>

definition data_ok :: "DataObjectGenerator \<Rightarrow> bool" where
  "data_ok g \<longleftrightarrow> list_all name_entry_ok (entries g) \<and> distinct (all_words (entries g) @ sources (pointers g)) \<and>
    (pointers g = [] \<or> source_word (hd (pointers g)) \<noteq> 0 \<and> last_run 1 (sources (pointers g)) mod 255 \<noteq> 0)"

lemma set_targets_words:
  assumes "set_targets es ws = Some ws'" "distinct (sources es)"
  shows "e \<in> set es \<Longrightarrow> ws' ! nat (source_word e) = word_of_int (target_byte e)"
    and "k < length ws \<Longrightarrow> k \<notin> nat ` set (sources es) \<Longrightarrow> ws' ! k = ws ! k"
proof -
  have "(\<forall>e \<in> set es. ws' ! nat (source_word e) = word_of_int (target_byte e)) \<and>
      (\<forall>k < length ws. k \<notin> nat ` set (sources es) \<longrightarrow> ws' ! k = ws ! k)"
    using assms
  proof (induction es arbitrary: ws)
    case (Cons x es)
    obtain ws1 where w: "set_word (source_word x) (word_of_int (target_byte x)) ws = Some ws1" "set_targets es ws1 = Some ws'"
      using Cons.prems(1) by (auto simp: set_targets_def bind_eq_Some_conv)
    have ws1: "0 \<le> source_word x" "nat (source_word x) < length ws" "ws1 = ws[nat (source_word x) := word_of_int (target_byte x)]"
      using w(1) by (simp_all add: set_word_Some)
    have ih: "\<forall>e \<in> set es. ws' ! nat (source_word e) = word_of_int (target_byte e)"
      "\<forall>k < length ws1. k \<notin> nat ` set (sources es) \<longrightarrow> ws' ! k = ws1 ! k"
      using Cons.IH [OF w(2)] Cons.prems(2) by auto
    have "nat (source_word x) \<noteq> nat (source_word e)" if "e \<in> set es" for e
    proof -
      have "source_word e \<noteq> source_word x" using that Cons.prems(2) by (auto dest: sym)
      then show ?thesis using set_word_range [OF w(2) that] ws1(1) by (simp add: eq_nat_nat_iff)
    qed
    then have "nat (source_word x) \<notin> nat ` set (sources es)" by force
    then show ?case using ih ws1(2,3) by (auto simp: nth_list_update)
  qed (simp add: set_targets_def)
  then show "e \<in> set es \<Longrightarrow> ws' ! nat (source_word e) = word_of_int (target_byte e)"
    and "k < length ws \<Longrightarrow> k \<notin> nat ` set (sources es) \<Longrightarrow> ws' ! k = ws ! k" by blast+
qed

text \<open>The words the generator leaves for the linker.\<close>

lemma generated_words:
  assumes g: "generate_link_table g = Some (link, g')" and ok: "data_ok g"
  shows "length (m_words g') = length (m_words g)"
    and "e \<in> set (pointers g) \<Longrightarrow> 0 \<le> source_word e \<and> nat (source_word e) < length (m_words g) \<and>
      m_words g' ! nat (source_word e) = word_of_int (target_byte e)"
    and "x \<in> set (all_words (entries g)) \<Longrightarrow> 0 \<le> x \<and> nat x < length (m_words g) \<and> m_words g' ! nat x = 0xffffffff"
    and "k < length (m_words g) \<Longrightarrow> k \<notin> nat ` set (sources (pointers g)) \<Longrightarrow> k \<notin> nat ` set (all_words (entries g)) \<Longrightarrow>
      m_words g' ! k = m_words g ! k"
proof -
  obtain ws1 ptrs names pad where p: "pointer_table 0 (pointers g) (m_words g) = Some (ws1, ptrs)"
    "entries_table (entries g) ws1 = Some (m_words g', names)" by (rule generate_link_table_parts [OF g])
  have d: "distinct (sources (pointers g))" "set (all_words (entries g)) \<inter> set (sources (pointers g)) = {}"
    using ok by (simp_all add: data_ok_def)
  note t = pointer_table_words [OF p(1)]
  note w = set_targets_words [OF t d(1)]
  have l: "length ws1 = length (m_words g)" using set_targets_length [OF t] .
  show "length (m_words g') = length (m_words g)" using entries_table_words(1) [OF p(2)] l by simp
  show "0 \<le> x \<and> nat x < length (m_words g) \<and> m_words g' ! nat x = 0xffffffff" if "x \<in> set (all_words (entries g))"
    using entries_table_words(2) [OF p(2) that] entries_table_words(3) [OF p(2), of "nat x"] that l by auto
  show "0 \<le> source_word e \<and> nat (source_word e) < length (m_words g) \<and> m_words g' ! nat (source_word e) = word_of_int (target_byte e)"
    if e: "e \<in> set (pointers g)"
  proof -
    have r: "0 \<le> source_word e" "nat (source_word e) < length (m_words g)" using set_word_range [OF t e] by auto
    have "nat (source_word e) \<notin> nat ` set (all_words (entries g))"
      using d(2) e r(1) entries_table_words(2) [OF p(2)] by (auto simp: disjoint_iff eq_nat_nat_iff)
    then show ?thesis using entries_table_words(3) [OF p(2)] w(1) [OF e] r l by simp
  qed
  show "m_words g' ! k = m_words g ! k"
    if "k < length (m_words g)" "k \<notin> nat ` set (sources (pointers g))" "k \<notin> nat ` set (all_words (entries g))"
    using entries_table_words(3) [OF p(2)] w(2) that l by simp
qed

section \<open>What the names leave in the object\<close>

lemma linked_entries_words:
  assumes "linked_entries B n R l es s = Some (vs, s')" "object_at B n" "\<forall>x \<in> set (all_words es). 0 \<le> x \<and> nat x < n" "distinct (all_words es)"
  shows "length vs = length es"
    and "i < length es \<Longrightarrow> x \<in> set (entry_words (es ! i)) \<Longrightarrow> load32 (mem s') (word_at B (nat x)) = vs ! i"
    and "j < n \<Longrightarrow> j \<notin> nat ` set (all_words es) \<Longrightarrow> load32 (mem s') (word_at B j) = load32 (mem s) (word_at B j)"
proof -
  have "length vs = length es \<and> (\<forall>i < length es. \<forall>x \<in> set (entry_words (es ! i)). load32 (mem s') (word_at B (nat x)) = vs ! i) \<and>
      (\<forall>j < n. j \<notin> nat ` set (all_words es) \<longrightarrow> load32 (mem s') (word_at B j) = load32 (mem s) (word_at B j))"
    using assms(1,3,4)
  proof (induction es arbitrary: s vs)
    case Nil
    then show ?case by (simp add: all_words_def)
  next
    case (Cons e es)
    obtain ty name xs where e: "e = (ty, name, xs)" by (cases e)
    from Cons.prems(1) obtain v s1 vs' where i: "kept_after B (4 * n) s s1" "vs = v # vs'"
      "linked_entries B n R l es (fold (set_ref B v) xs s1) = Some (vs', s')" by (auto simp: e bind_eq_Some_conv)
    have xs: "\<forall>x \<in> set xs. 0 \<le> x \<and> nat x < n" and es: "\<forall>x \<in> set (all_words es). 0 \<le> x \<and> nat x < n" using Cons.prems(2) by (auto simp: e)
    have ih: "length vs' = length es" "\<forall>i < length es. \<forall>x \<in> set (entry_words (es ! i)). load32 (mem s') (word_at B (nat x)) = vs' ! i"
      "\<forall>j < n. j \<notin> nat ` set (all_words es) \<longrightarrow> load32 (mem s') (word_at B j) = load32 (mem (fold (set_ref B v) xs s1)) (word_at B j)"
      using Cons.IH [OF i(3) es] Cons.prems(3) by (auto simp: e)
    have mine: "load32 (mem s') (word_at B (nat x)) = v" if "x \<in> set xs" for x
    proof -
      have "nat x \<notin> nat ` set (all_words es)" using that Cons.prems(3) xs es by (auto simp: e disjoint_iff eq_nat_nat_iff)
      then show ?thesis using ih(3) xs that set_refs_words [OF assms(2), of xs "nat x" v s1] by auto
    qed
    have other: "load32 (mem s') (word_at B j) = load32 (mem s) (word_at B j)" if "j < n" "j \<notin> nat ` set (all_words (e # es))" for j
      using that ih(3) xs set_refs_words [OF assms(2), of xs j v s1] kept_word [OF assms(2) i(1)] by (auto simp: e image_Un)
    show ?case using ih(1,2) mine other i(2) by (auto simp: e nth_Cons' less_Suc_eq_0_disj)
  qed
  then show "length vs = length es"
    and "i < length es \<Longrightarrow> x \<in> set (entry_words (es ! i)) \<Longrightarrow> load32 (mem s') (word_at B (nat x)) = vs ! i"
    and "j < n \<Longrightarrow> j \<notin> nat ` set (all_words es) \<Longrightarrow> load32 (mem s') (word_at B j) = load32 (mem s) (word_at B j)" by blast+
qed

section \<open>The passes over an object\<close>

text \<open>An object in memory: its link table at \<open>R\<close> and its words at \<open>B\<close>.\<close>

definition object_loaded :: "ram \<Rightarrow> u32 \<Rightarrow> u8 list \<Rightarrow> u32 \<Rightarrow> u32 list \<Rightarrow> bool" where
  "object_loaded m R link B ws \<longleftrightarrow> holds_bytes m R link \<and> holds_bytes m B (word_bytes ws) \<and> R \<noteq> 0 \<and>
    unat R + length link < 2 ^ 32 \<and> object_at B (length ws) \<and> blocks_apart R (length link) B (4 * length ws)"

lemma pointers_pass:
  assumes g: "generate_link_table g = Some (link, g')" and ok: "data_ok g" and l: "object_loaded (mem s) R link B (m_words g')"
    and lc: "m_link_block_ptr lc + 8 = R" "m_state lc = LINK_V2_STATE_OFFSETS" "m_segment_process lc = 0" "m_object_data lc = B"
  obtains d names pad lc1 ws1 where "link = d @ names @ 0 # pad" "entries_table (entries g) ws1 = Some (m_words g', names)"
    "length ws1 = length (m_words g)"
    "offsets_v2 lc s = Some (lc1, fold (add_base B) (map nat (sources (pointers g))) s)" "m_reloc_ptr lc1 = R + of_nat (length d)"
    "m_state lc1 = 2" "m_object_data lc1 = B"
proof -
  obtain ws1 ptrs names pad where p: "pointer_table 0 (pointers g) (m_words g) = Some (ws1, ptrs)"
    "entries_table (entries g) ws1 = Some (m_words g', names)" "link = ptrs @ 0 # names @ 0 # pad" by (rule generate_link_table_parts [OF g])
  let ?n = "length (m_words g)" and ?s = "fold (add_base B) (map nat (sources (pointers g))) s"
  have n: "length (m_words g') = ?n" using generated_words(1) [OF g ok] .
  have w1: "length ws1 = ?n" using entries_table_words(1) [OF p(2)] n by simp
  have m: "holds_bytes (mem s) R (ptrs @ 0 # names @ 0 # pad)" "R \<noteq> 0" "unat R + length link < 2 ^ 32" "object_at B ?n" "blocks_apart R (length link) B (4 * ?n)"
    using l n by (simp_all add: object_loaded_def p(3))
  show thesis
  proof (cases "pointers g = []")
    case True
    then have "ptrs = []" using p(1) by (simp add: pointer_table.simps)
    then have "get8 R s = Some 0" using m(1,2) by (simp add: get8_def holds_bytes_Cons)
    then have "offsets_v2 lc s = Some (lc\<lparr>m_reloc_ptr := R + 1, m_state := 2, m_segment_process := 0\<rparr>, ?s)"
      using lc True by (simp add: offsets_v2_def Let_def LINK_V2_STATE_OFFSETS_def LINK_V2_STATE_SYMBOL_TABLE_def)
    with p w1 \<open>ptrs = []\<close> lc(4) show thesis by (intro that [of "[0]" names pad ws1 "lc\<lparr>m_reloc_ptr := R + 1, m_state := 2, m_segment_process := 0\<rparr>"]) simp_all
  next
    case False
    then have c: "source_word (hd (pointers g)) \<noteq> 0" "last_run 1 (sources (pointers g)) mod 255 \<noteq> 0" using ok by (auto simp: data_ok_def)
    have "0 < source_word (hd (pointers g))" using pointer_table_hd [OF p(1) False] c(1) by simp
    moreover have "?n < 2 ^ 32" using m(4) by (simp add: object_at_def)
    ultimately have dec: "decode_pointers 0 False (ptrs @ 0 # names @ 0 # pad) = Some (map nat (sources (pointers g)), 0 # names @ 0 # pad)"
      and hd: "\<exists>b bs. ptrs = b # bs \<and> b \<noteq> 0"
      using pointer_table_decodes(1) [OF p(1) False, where rest = "names @ 0 # pad"] pointer_table_decodes(2) [OF p(1) False] c(2) by simp_all
    have bound: "\<forall>j \<in> set (map nat (sources (pointers g))). j < ?n" using generated_words(2) [OF g ok] by auto
    obtain b where b: "get8 R s = Some b" "b \<noteq> 0" using hd m(1,2) by (auto simp: get8_def holds_bytes_Cons)
    have "fix_pointers B R (word_at B 0) False s = Some (R + of_nat (length link - length (0 # names @ 0 # pad)), ?s)"
      using fix_pointers_decoded [OF dec m(1,2) _ m(4) bound] m(3,5) by (simp add: p(3))
    then have "fix_pointers B R B False s = Some (R + of_nat (length ptrs), ?s)" by (simp add: p(3) word_at_def)
    then obtain lc1 where "offsets_v2 lc s = Some (lc1, ?s)" "m_reloc_ptr lc1 = R + of_nat (length ptrs) + 1" "m_state lc1 = 2" "m_object_data lc1 = B"
      using lc b by (simp add: offsets_v2_def Let_def LINK_V2_STATE_OFFSETS_def)
    with p w1 show thesis by (intro that [of "ptrs @ [0]" names pad ws1 lc1]) simp_all
  qed
qed

text \<open>The object after both passes.\<close>

lemma object_linked:
  assumes g: "generate_link_table g = Some (link, g')" and ok: "data_ok g" and l: "object_loaded (mem s) R link B (m_words g')"
    and lc: "m_link_block_ptr lc + 8 = R" "m_state lc = LINK_V2_STATE_OFFSETS" "m_segment_process lc = 0" "m_object_data lc = B"
    and e: "linked_entries B (length (m_words g)) R (length link) (entries g) (fold (add_base B) (map nat (sources (pointers g))) s) = Some (vs, s')"
  shows "\<exists>lc'. work_v2 goal lc s = Some (1, lc', s') \<and> m_entry lc' = B + 4"
proof -
  let ?n = "length (m_words g)" and ?s = "fold (add_base B) (map nat (sources (pointers g))) s"
  obtain d names pad lc1 ws1 where p: "link = d @ names @ 0 # pad" "entries_table (entries g) ws1 = Some (m_words g', names)"
    "length ws1 = ?n" "offsets_v2 lc s = Some (lc1, ?s)" "m_reloc_ptr lc1 = R + of_nat (length d)" "m_state lc1 = 2" "m_object_data lc1 = B"
    by (rule pointers_pass [OF g ok l lc])
  have n: "length (m_words g') = ?n" using generated_words(1) [OF g ok] .
  have m: "holds_bytes (mem s) R link" "R \<noteq> 0" "unat R + length link < 2 ^ 32" "object_at B ?n" "blocks_apart R (length link) B (4 * ?n)"
    using l n by (simp_all add: object_loaded_def)
  have bound: "\<forall>j \<in> set (map nat (sources (pointers g))). j < ?n" using generated_words(2) [OF g ok] by auto
  have "holds_bytes (mem ?s) R link"
    using m(1,3,5) add_bases_outside [OF m(4) bound] by (subst holds_bytes_cong [of R link "mem ?s" "mem s"]) (auto simp: blocks_apart_def)
  then have tab: "holds_bytes (mem ?s) (m_reloc_ptr lc1) (names @ [0])"
    by (simp add: p(1,5) holds_bytes_append holds_bytes_Cons)
  have reloc: "m_reloc_ptr lc1 \<noteq> 0" using offset_not_0 [OF m(2), of "length d"] m(3) by (simp add: p(1,5))
  have sym: "\<exists>lc2. symbols_v2 lc1 ?s = Some (lc2, s') \<and> m_object_data lc2 = B"
  proof (cases "entries g = []")
    case True
    then have "get8 (m_reloc_ptr lc1) ?s = Some 0" "s' = ?s" using tab reloc p(2) e by (simp_all add: get8_def holds_bytes_Cons)
    then show ?thesis using p(6,7) by (simp add: symbols_v2_def)
  next
    case False
    have "distinct (all_words (entries g))" "\<forall>e \<in> set (entries g). name_entry_ok e" using ok by (simp_all add: data_ok_def list_all_iff)
    moreover have "length d + length names < length link" by (simp add: p(1))
    moreover have "\<forall>x \<in> set (all_words (entries g)). load32 (mem ?s) (word_at B (nat x)) = 0xffffffff"
    proof
      fix x assume x: "x \<in> set (all_words (entries g))"
      have w: "0 \<le> x" "nat x < ?n" "m_words g' ! nat x = 0xffffffff" using generated_words(3) [OF g ok x] by auto
      have "distinct (map nat (sources (pointers g)))" "nat x \<notin> nat ` set (sources (pointers g))"
        using ok x w(1) generated_words(2) [OF g ok] by (auto simp: data_ok_def distinct_map inj_on_def disjoint_iff eq_nat_nat_iff)
      then have "load32 (mem ?s) (word_at B (nat x)) = load32 (mem s) (word_at B (nat x))"
        using add_bases_words [OF m(4) bound _ w(2), of s] by (simp add: image_image)
      also have "\<dots> = 0xffffffff" using word_bytes_loaded [of "mem s" B "m_words g'" "nat x"] l w n by (simp add: object_loaded_def)
      finally show "load32 (mem ?s) (word_at B (nat x)) = 0xffffffff" .
    qed
    ultimately have "link_names_v2 B (m_reloc_ptr lc1) ?s = Some (m_reloc_ptr lc1 + of_nat (length names), s')"
      using link_names_run [OF p(2) False _ _ _ m(4) p(5) _ m(2,3,5) tab _ e] p(3) by simp
    moreover obtain b where "get8 (m_reloc_ptr lc1) ?s = Some b" "b \<noteq> 0"
    proof -
      obtain ty name xs es where "entries g = (ty, name, xs) # es" using False by (cases "entries g") auto
      moreover from this obtain offs rest where "names = entry_bytes ty name offs @ rest" using p(2) by (auto simp: bind_eq_Some_conv)
      moreover have "link_name_ok ty name" using ok calculation(1) by (simp add: data_ok_def name_entry_ok_def)
      ultimately obtain b bs where "names = b # bs" "b \<noteq> 0" using entry_bytes_hd [of ty name offs rest] by auto
      then show thesis using that [of b] tab reloc by (simp add: get8_def holds_bytes_Cons)
    qed
    ultimately show ?thesis using p(6,7) by (simp add: symbols_v2_def)
  qed
  then show ?thesis using p(4) lc(2) by (auto simp: work_v2_def LINK_V2_STATE_INIT_COPY_def LINK_V2_STATE_OFFSETS_def)
qed

end
