(* ===== verification/Link_Props.thy ===== *)
theory Link_Props
  imports Link_Object Kscheme_Props
begin

text \<open>
  The properties of data objects, from the generator of the compiler to the linker of the runtime.
\<close>

section \<open>An object\<close>

text \<open>A word, a pointer to it, and a reference to the empty list.\<close>

definition small_gen :: DataObjectGenerator where
  "small_gen =
    (let (_, g) = add_word 7 new_DataObjectGenerator;
         (i, g) = add_word 0 g;
         g = link_word_to_word i 0 0 g;
         (_, g) = add_symbol_link ''_empty_'' g
     in g)"

definition small_link :: "u8 list" where
  "small_link = [1, 1, 0] @ str_bytes ''_empty_'' @ [0, 8, 0, 0] @ replicate 38 0"

lemma small_table: "map_option (\<lambda>(link, g). (link, m_words g)) (generate_link_table small_gen) = Some (small_link, [7, 0, 0xffffffff])"
  by code_simp

lemma small_ok: "data_ok small_gen"
  by code_simp

lemma small_entries: "entries small_gen = [(False, ''_empty_'', [2])]" "sources (pointers small_gen) = [1]"
  by code_simp+

lemma small_words: "length (m_words small_gen) = 3"
  by code_simp

definition small_state :: linker where
  "small_state =
    \<lparr>l_kernel = demo_kernel\<lparr>k_ram := store_bytes 0x2000 (word_bytes [7, 0, 0xffffffff]) (store_bytes 0x100c small_link (\<lambda>_. 0))\<rparr>,
     gfunc_774 = 0, saved_link_control = zero_link_control\<rparr>"

definition small_control :: link_control where
  "small_control = zero_link_control\<lparr>m_object_data := 0x2000, m_link_block_ptr := 0x1004, m_state := LINK_V2_STATE_OFFSETS\<rparr>"

lemma small_length: "length small_link = 52" "length (word_bytes [7, 0, 0xffffffff]) = 12"
  by (simp_all add: small_link_def str_bytes_def word_bytes_def)

lemma small_loaded: "object_loaded (mem small_state) 0x100c small_link 0x2000 [7, 0, 0xffffffff]"
proof -
  have apart: "blocks_apart 0x100c (length small_link) 0x2000 12" by (rule blocks_apartI) (simp_all add: small_length)
  then have "holds_bytes (mem small_state) 0x100c small_link"
    using bytes_at_store_same [of small_link "0x100c" "\<lambda>_. 0"] bytes_at_store_other [of "0x100c" 52 "0x2000" "word_bytes [7, 0, 0xffffffff]"]
    by (simp add: holds_bytes_def small_state_def small_length)
  moreover have "holds_bytes (mem small_state) 0x2000 (word_bytes [7, 0, 0xffffffff])"
    using bytes_at_store_same [of "word_bytes [7, 0, 0xffffffff]" "0x2000"] by (simp add: holds_bytes_def small_state_def small_length)
  ultimately show ?thesis using apart by (simp add: object_loaded_def object_at_def small_length)
qed

lemma intern_empty: "intern_entry False ''_empty_'' s =
  (if k_s7 (l_kernel s) + FIX_SYM_EMPTY_PAIR \<noteq> 0
   then Some (k_s7 (l_kernel s) + FIX_SYM_EMPTY_PAIR, s\<lparr>l_kernel := (l_kernel s)\<lparr>k_symbol_slot := 0\<rparr>\<rparr>) else intern_entry False ''_empty_'' s)"
  by (simp add: intern_entry_def in_kernel_def intern_from_c_def find_empty_pair)

lemma small_linked:
  "\<exists>s'. linked_entries 0x2000 3 0x100c 52 (entries small_gen) (fold (add_base 0x2000) (map nat (sources (pointers small_gen))) small_state) =
    Some ([0x167ffa], s')"
proof -
  have "k_s7 (l_kernel (add_base 0x2000 1 small_state)) = 0x168004" by (simp add: add_base_def small_state_def demo_kernel_def)
  then have "intern_entry False ''_empty_'' (add_base 0x2000 1 small_state) =
      Some (0x167ffa, (add_base 0x2000 1 small_state)\<lparr>l_kernel := (l_kernel (add_base 0x2000 1 small_state))\<lparr>k_symbol_slot := 0\<rparr>\<rparr>)"
    by (subst intern_empty) (simp add: FIX_SYM_EMPTY_PAIR_def)
  then show ?thesis by (simp add: small_entries kept_after_def)
qed

section \<open>Properties\<close>

text \<open>
  C6. A data object comes out of the linker the way it went into the generator: when the link table and the words of a well-formed
  generator are in memory, and interning its names leaves the object and its table alone, the two passes of the
  linker return; every pointer is the address of its target, every word of a name is what interning that name
  returned, and the other words are the words that were added.
\<close>

theorem data_object_linked:
  assumes g: "generate_link_table g = Some (link, g')" "data_ok g" and l: "object_loaded (mem s) R link B (m_words g')"
    and lc: "m_link_block_ptr lc + 8 = R" "m_state lc = LINK_V2_STATE_OFFSETS" "m_segment_process lc = 0" "m_object_data lc = B"
    and e: "linked_entries B (length (m_words g)) R (length link) (entries g) (fold (add_base B) (map nat (sources (pointers g))) s) = Some (vs, s')"
  shows "(\<exists>lc'. work_v2 goal lc s = Some (1, lc', s') \<and> m_entry lc' = B + 4) \<and>
    (\<forall>p \<in> set (m_ptr_links g). load32 (mem s') (word_at B (nat (source_word p))) = B + word_of_int (target_byte p)) \<and>
    (\<forall>i < length (entries g). \<forall>x \<in> set (entry_words (entries g ! i)). load32 (mem s') (word_at B (nat x)) = vs ! i) \<and>
    (\<forall>k < length (m_words g). k \<notin> nat ` set (sources (m_ptr_links g)) \<longrightarrow> k \<notin> nat ` set (all_words (entries g)) \<longrightarrow>
      load32 (mem s') (word_at B k) = m_words g ! k)"
proof -
  let ?n = "length (m_words g)" and ?ks = "map nat (sources (pointers g))"
  let ?s = "fold (add_base B) ?ks s"
  have B: "object_at B ?n" using l generated_words(1) [OF g] by (simp add: object_loaded_def)
  have bound: "\<forall>j \<in> set ?ks. j < ?n" using generated_words(2) [OF g] by auto
  have d: "distinct ?ks" "distinct (all_words (entries g))" "nat ` set (sources (pointers g)) \<inter> nat ` set (all_words (entries g)) = {}"
    using g(2) generated_words(2,3) [OF g] by (auto simp: data_ok_def distinct_map inj_on_def disjoint_iff eq_nat_nat_iff)
  have ptrs: "set (pointers g) = set (m_ptr_links g)" by (simp add: pointers_def)
  have loaded: "load32 (mem ?s) (word_at B k) = m_words g' ! k + (if k \<in> nat ` set (sources (pointers g)) then B else 0)" if "k < ?n" for k
    using add_bases_words [OF B bound d(1) that, of s] word_bytes_loaded [of "mem s" B "m_words g'" k] l generated_words(1) [OF g] that
    by (simp add: object_loaded_def image_image)
  have range: "\<forall>x \<in> set (all_words (entries g)). 0 \<le> x \<and> nat x < ?n" using generated_words(3) [OF g] by blast
  note words = linked_entries_words [OF e B range d(2)]
  have "load32 (mem s') (word_at B (nat (source_word p))) = B + word_of_int (target_byte p)" if "p \<in> set (m_ptr_links g)" for p
  proof -
    have p: "p \<in> set (pointers g)" using that ptrs by simp
    then have "nat (source_word p) \<in> nat ` set (sources (pointers g))" by simp
    then show ?thesis using words(3) loaded generated_words(2) [OF g p] d(3) by (auto simp: disjoint_iff)
  qed
  moreover have "load32 (mem s') (word_at B k) = m_words g ! k"
    if "k < ?n" "k \<notin> nat ` set (sources (m_ptr_links g))" "k \<notin> nat ` set (all_words (entries g))" for k
    using that words(3) loaded generated_words(4) [OF g, of k] ptrs by simp
  ultimately show ?thesis using object_linked [OF g l lc e] words(2) by blast
qed

theorem data_object_linked_witness:
  "\<exists>lc s'. work_v2 (\<lambda>_ _ _ _ s. Some s) small_control small_state = Some (1, lc, s') \<and> load32 (mem s') 0x2000 = 7 \<and>
    load32 (mem s') 0x2004 = 0x2000 \<and> load32 (mem s') 0x2008 = 0x167ffa"
proof -
  obtain g' where g: "generate_link_table small_gen = Some (small_link, g')" "m_words g' = [7, 0, 0xffffffff]" using small_table by auto
  obtain s' where s': "linked_entries 0x2000 (length (m_words small_gen)) 0x100c (length small_link) (entries small_gen)
      (fold (add_base 0x2000) (map nat (sources (pointers small_gen))) small_state) = Some ([0x167ffa], s')"
    using small_linked by (auto simp: small_words small_length)
  have c: "m_link_block_ptr small_control + 8 = 0x100c" "m_state small_control = LINK_V2_STATE_OFFSETS"
    "m_segment_process small_control = 0" "m_object_data small_control = 0x2000" by (simp_all add: small_control_def zero_link_control_def)
  have l: "object_loaded (mem small_state) 0x100c small_link 0x2000 (m_words g')" using small_loaded g(2) by simp
  have "m_ptr_links small_gen = [\<lparr>source_word = 1, target_byte = 0\<rparr>]" "m_words small_gen = [7, 0, 0]" by code_simp+
  then show ?thesis
    using data_object_linked [OF g(1) small_ok l c s', of "\<lambda>_ _ _ _ s. Some s"] by (auto simp: small_entries all_words_def word_at_def)
qed

section \<open>Where the formats disagree\<close>

text \<open>The links of 255 neighbours, words 1 to 255, to word 0.\<close>

definition full_run :: "PointerLinkRecord list" where
  "full_run = map (\<lambda>k. \<lparr>source_word = int k, target_byte = 0\<rparr>) [1 ..< 256]"

lemma full_run_sources: "sources full_run = map int [1 ..< 256]"
  by (simp add: full_run_def comp_def)



text \<open>A version 4 object of \<open>n\<close> words; its second header is behind the padding of the words.\<close>

lemma generate_v4_parts:
  assumes "generate_v4 g = Some (data, g')"
  obtains link k where "data = LinkHeaderV4_bytes (header_length link) (4 * of_nat (length (m_words g'))) @ word_bytes (m_words g') @
      replicate k 0 @ LinkHeaderV2_bytes (header_length link) @ link"
    "k < 16" "(4 * length (m_words g') + k) mod 16 = 0"
proof -
  obtain g1 link result where r: "generate_link_table g1 = Some (link, g')"
    "pad_to 16 (LinkHeaderV4_bytes (header_length link) (4 * of_nat (length (m_words g'))) @ word_bytes (m_words g')) = Some result"
    "data = result @ LinkHeaderV2_bytes (header_length link) @ link"
    using assms by (auto simp: generate_v4_def bind_eq_Some_conv)
  let ?h = "LinkHeaderV4_bytes (header_length link) (4 * of_nat (length (m_words g'))) @ word_bytes (m_words g')"
  obtain k where k: "k < 16" "result = ?h @ replicate k 0" "(length ?h + k) mod 16 = 0"
    using pad_to_Some [of 16 ?h] r(2) by auto
  have "length ?h = 16 + 4 * length (m_words g')" by (simp add: LinkHeaderV4_bytes_def length_word_bytes)
  then have "(4 * length (m_words g') + k) mod 16 = 0" using k(3) by (simp add: add.assoc)
  then show thesis using that k(1,2) r(3) by simp
qed

text \<open>
  C7. The linker finds the link data of a version 4 object exactly when the number of words is a multiple of 4: the
  generator pads the words to 16 bytes before the link data but does not count the padding in the header, and the linker
  looks for the link data right behind the words.
\<close>

theorem v4_link_data_found_iff:
  assumes "generate_v4 g = Some (data, g')" "holds_bytes (mem s) A data"
    and "m_object_data lc = A" "m_link_block_ptr lc = A + BASIC_OFFSET"
  shows "\<exists>lc'. begin_v2 goal lc s = Some (lc', s) \<and> m_object_data lc' = A + 16 \<and>
    (load32 (mem s) (m_link_block_ptr lc' - BASIC_OFFSET) = 0xffffffff \<longleftrightarrow> length (m_words g') mod 4 = 0)"
proof -
  let ?n = "length (m_words g')" and ?m = "mem s"
  obtain link k where d: "data = LinkHeaderV4_bytes (header_length link) (4 * of_nat ?n) @ word_bytes (m_words g') @
      replicate k 0 @ LinkHeaderV2_bytes (header_length link) @ link" "k < 16" "(4 * ?n + k) mod 16 = 0"
    by (rule generate_v4_parts [OF assms(1)])
  have h: "holds_bytes ?m A (le_bytes 4 (0xffffffff :: u32))" "holds_bytes ?m (A + 8) (le_bytes 4 (4 :: u32))"
    "holds_bytes ?m (A + 12) (le_bytes 4 (4 * of_nat ?n :: u32))"
    "holds_bytes ?m (A + 16 + 4 * of_nat ?n) (replicate k 0 @ LinkHeaderV2_bytes (header_length link) @ link)"
    using assms(2) unfolding d(1) LinkHeaderV4_bytes_def holds_bytes_append by (simp_all add: length_word_bytes add.assoc)
  have word: "load32 ?m a = v" if "holds_bytes ?m a (le_bytes 4 v)" for a v
    using that by (simp add: holds_bytes_def load32_def)
  let ?lc = "lc\<lparr>m_link_version := 4, m_link_block_ptr := A + 4 * of_nat ?n + 16 + BASIC_OFFSET, m_object_data := A + 16, m_code_size := 4 * of_nat ?n\<rparr>"
  have "begin_v2 goal lc s = Some (?lc, s)"
    using word [OF h(2)] word [OF h(3)] assms(3,4) by (simp add: begin_v2_def Let_def header_version_def header_code_size_def BASIC_OFFSET_def)
  moreover have "load32 ?m (A + 16 + 4 * of_nat ?n) = 0xffffffff \<longleftrightarrow> ?n mod 4 = 0"
  proof (cases "k = 0")
    case True
    then have "?n mod 4 = 0" using d(3) by (simp add: mod_eq_0_iff_dvd)
    moreover have "holds_bytes ?m (A + 16 + 4 * of_nat ?n) (le_bytes 4 (0xffffffff :: u32))"
      using h(4) True by (simp add: LinkHeaderV2_bytes_def holds_bytes_append)
    ultimately show ?thesis using word by simp
  next
    case False
    have "?n mod 4 \<noteq> 0" using False d(2,3) by presburger
    moreover have "load32 ?m (A + 16 + 4 * of_nat ?n) \<noteq> 0xffffffff"
    proof -
    have "?m (A + 16 + 4 * of_nat ?n) = 0" using h(4) False by (cases k) (simp_all add: holds_bytes_Cons)
    then have "\<not> bit (load32 ?m (A + 16 + 4 * of_nat ?n)) 0"
      by (simp add: load32_def bit_le_word bytes_at_def upt_conv_Cons bit_or_iff bit_push_bit_iff)
    moreover have "bit (0xffffffff :: u32) 0" by simp
    ultimately show ?thesis by metis
    qed
    ultimately show ?thesis by simp
  qed
  ultimately show ?thesis by (intro exI [of _ ?lc]) (simp add: BASIC_OFFSET_def algebra_simps)
qed

text \<open>One word: the linker reads the padding.\<close>

definition one_word_gen :: DataObjectGenerator where
  "one_word_gen = snd (add_word 7 new_DataObjectGenerator)"

definition one_word_file :: "u8 list" where
  "one_word_file = LinkHeaderV4_bytes 64 4 @ word_bytes [7] @ replicate 12 0 @ LinkHeaderV2_bytes 64 @ replicate 52 0"

definition one_word_state :: linker where
  "one_word_state = small_state\<lparr>l_kernel := demo_kernel\<lparr>k_ram := store_bytes 0x2000 one_word_file (\<lambda>_. 0)\<rparr>\<rparr>"

lemma one_word_generated: "map_option (\<lambda>(data, g). (data, m_words g)) (generate_v4 one_word_gen) = Some (one_word_file, [7])"
  by code_simp

lemma one_word_length: "length one_word_file = 96"
  by (simp add: one_word_file_def LinkHeaderV4_bytes_def LinkHeaderV2_bytes_def word_bytes_def)

theorem v4_link_data_found_iff_witness:
  "\<exists>lc. begin_v2 (\<lambda>_ _ _ _ s. Some s) (zero_link_control\<lparr>m_object_data := 0x2000, m_link_block_ptr := 0x2000 + BASIC_OFFSET\<rparr>)
      one_word_state = Some (lc, one_word_state) \<and> m_object_data lc = 0x2010 \<and>
    load32 (mem one_word_state) (m_link_block_ptr lc - BASIC_OFFSET) \<noteq> 0xffffffff"
proof -
  obtain g' where g: "generate_v4 one_word_gen = Some (one_word_file, g')" "m_words g' = [7]" using one_word_generated by auto
  have "holds_bytes (mem one_word_state) 0x2000 one_word_file"
    using bytes_at_store_same [of one_word_file "0x2000"] by (simp add: holds_bytes_def one_word_state_def one_word_length)
  then show ?thesis
    using v4_link_data_found_iff [OF g(1), of one_word_state "0x2000"
        "zero_link_control\<lparr>m_object_data := 0x2000, m_link_block_ptr := 0x2000 + BASIC_OFFSET\<rparr>" "\<lambda>_ _ _ _ s. Some s"] g(2)
    by simp
qed

end
